(* ===== verification/Prelude.thy ===== *)
theory Prelude
  imports Complex_Main "HOL-Library.Sublist"
begin

text \<open>
  Shared material of the development: the error values of \<open>shared/errs\<close>, the result type
  of fallible Go functions and its sequencing, the environment a handler runs in, the few
  functions of Go's \<open>strings\<close> package that the source uses, and generic lemmas on lists
  and maps.

  Go strings are byte sequences and HOL's \<open>char\<close> is a byte, so \<open>string\<close> models a Go
  string byte for byte.
\<close>

named_theorems res_simps \<open>inversion of successful results\<close>

section \<open>Errors and results\<close>

text \<open>
  \<open>shared/errs/errors.go\<close>: the error constructors, each with its message. A message built by
  \<open>fmt.Sprintf\<close> is kept as its format string and the numbers it is given
  (\<open>BadRequestf\<close>). \<open>Plain\<close> is an error made by \<open>errors.New\<close>, and \<open>Wrapf\<close> one that
  \<open>fmt.Errorf\<close> wraps with \<open>%w\<close>.
\<close>

datatype app_error =
    NotFound string
  | BadRequest string
  | BadRequestf string "rat list"
  | Forbidden string
  | Unauthenticated string
  | Internal string
  | Unavailable string
  | AlreadyExists string
  | Aborted string
  | Plain string
  | Wrapf string "rat list" app_error

type_synonym 'a res = "app_error + 'a"

text \<open>\<open>x, err := m; if err != nil { return err }; f(x)\<close>\<close>

definition ebind :: "'a res \<Rightarrow> ('a \<Rightarrow> 'b res) \<Rightarrow> 'b res" where
  "ebind m f = (case m of Inl e \<Rightarrow> Inl e | Inr x \<Rightarrow> f x)"

lemma ebind_Inl [simp]: "ebind (Inl e) f = Inl e"
  by (simp add: ebind_def)

lemma ebind_Inr [simp]: "ebind (Inr x) f = f x"
  by (simp add: ebind_def)

lemma ebind_eq_Inr [res_simps]: "ebind m f = Inr y \<longleftrightarrow> (\<exists>x. m = Inr x \<and> f x = Inr y)"
  by (simp add: ebind_def split: sum.splits)

lemma ebind_eq_Inl: "ebind m f = Inl e \<longleftrightarrow> m = Inl e \<or> (\<exists>x. m = Inr x \<and> f x = Inl e)"
  by (simp add: ebind_def split: sum.splits)

text \<open>\<open>if cond { return err }\<close>\<close>

definition guard :: "bool \<Rightarrow> app_error \<Rightarrow> unit res" where
  "guard ok e = (if ok then Inr () else Inl e)"

lemma guard_eq_Inr [res_simps]: "guard ok e = Inr u \<longleftrightarrow> ok"
  by (simp add: guard_def)

lemma guard_True [simp]: "guard True e = Inr ()"
  and guard_False [simp]: "guard False e = Inl e"
  by (simp_all add: guard_def)

text \<open>
  Code that runs outside a transaction: what was written before an error stays. The outcome is the
  error, if any, and the state that is left.
\<close>

type_synonym 's out = "app_error option \<times> 's"

definition try_out :: "'s \<Rightarrow> 'a res \<Rightarrow> ('a \<Rightarrow> 's out) \<Rightarrow> 's out" where
  "try_out s m f = (case m of Inl e \<Rightarrow> (Some e, s) | Inr x \<Rightarrow> f x)"

lemma try_out_simps [simp]: "try_out s (Inl e) f = (Some e, s)" "try_out s (Inr x) f = f x"
  by (simp_all add: try_out_def)

lemma try_out_eq:
  "try_out s m f = (e, t) \<longleftrightarrow> (\<exists>x. m = Inl x \<and> e = Some x \<and> t = s) \<or> (\<exists>x. m = Inr x \<and> f x = (e, t))"
  by (auto simp: try_out_def split: sum.splits)

lemma try_out_None [res_simps]: "try_out s m f = (None, t) \<longleftrightarrow> (\<exists>x. m = Inr x \<and> f x = (None, t))"
  by (auto simp: try_out_eq)

text \<open>The same code inside a transaction: an error undoes what was written.\<close>

fun out_res :: "'s out \<Rightarrow> 's res" where
  "out_res (None, s) = Inr s"
| "out_res (Some e, s) = Inl e"

lemma out_res_eq_Inr [res_simps]: "out_res r = Inr s \<longleftrightarrow> r = (None, s)"
  by (cases r rule: out_res.cases) auto

text \<open>
  A handler that returns a value: the value or the error, and the state that is left. \<open>in_tx\<close> runs
  a transaction and goes on from the state it committed.
\<close>

type_synonym ('a, 's) reply = "'a res \<times> 's"

definition try_reply :: "'s \<Rightarrow> 'a res \<Rightarrow> ('a \<Rightarrow> ('b, 's) reply) \<Rightarrow> ('b, 's) reply" where
  "try_reply s m f = (case m of Inl e \<Rightarrow> (Inl e, s) | Inr x \<Rightarrow> f x)"

definition in_tx :: "'s \<Rightarrow> ('a \<times> 's) res \<Rightarrow> ('a \<Rightarrow> 's \<Rightarrow> ('b, 's) reply) \<Rightarrow> ('b, 's) reply" where
  "in_tx s m f = try_reply s m (\<lambda>(x, t). f x t)"

lemma try_reply_simps [simp]: "try_reply s (Inl e) f = (Inl e, s)" "try_reply s (Inr x) f = f x"
  by (simp_all add: try_reply_def)

lemma try_reply_Inr [res_simps]: "try_reply s m f = (Inr y, t) \<longleftrightarrow> (\<exists>x. m = Inr x \<and> f x = (Inr y, t))"
  by (auto simp: try_reply_def split: sum.splits)

lemma in_tx_Inr [res_simps]: "in_tx s m f = (Inr y, t) \<longleftrightarrow> (\<exists>x u. m = Inr (x, u) \<and> f x u = (Inr y, t))"
  by (auto simp: in_tx_def res_simps)

lemma try_reply_eq:
  "try_reply s m f = (r, t) \<longleftrightarrow> (\<exists>e. m = Inl e \<and> r = Inl e \<and> t = s) \<or> (\<exists>x. m = Inr x \<and> f x = (r, t))"
  by (auto simp: try_reply_def split: sum.splits)

lemma in_tx_eq:
  "in_tx s m f = (r, t) \<longleftrightarrow> (\<exists>e. m = Inl e \<and> r = Inl e \<and> t = s) \<or> (\<exists>x u. m = Inr (x, u) \<and> f x u = (r, t))"
  by (auto simp: in_tx_def try_reply_eq)

text \<open>A call that returns a value and may leave writes behind, and one that returns only an error.\<close>

definition reply_bind :: "('a, 's) reply \<Rightarrow> ('a \<Rightarrow> 's \<Rightarrow> ('b, 's) reply) \<Rightarrow> ('b, 's) reply" where
  "reply_bind r f = (case r of (Inl e, s) \<Rightarrow> (Inl e, s) | (Inr x, s) \<Rightarrow> f x s)"

definition then_out :: "'s out \<Rightarrow> ('s \<Rightarrow> ('b, 's) reply) \<Rightarrow> ('b, 's) reply" where
  "then_out r f = (case r of (Some e, s) \<Rightarrow> (Inl e, s) | (None, s) \<Rightarrow> f s)"

definition seq_out :: "'s out \<Rightarrow> ('s \<Rightarrow> 's out) \<Rightarrow> 's out" where
  "seq_out r f = (case r of (Some e, s) \<Rightarrow> (Some e, s) | (None, s) \<Rightarrow> f s)"

lemma reply_bind_simps [simp]: "reply_bind (Inl e, s) f = (Inl e, s)" "reply_bind (Inr x, s) f = f x s"
  by (simp_all add: reply_bind_def)

lemma then_out_simps [simp]: "then_out (Some e, s) f = (Inl e, s)" "then_out (None, s) f = f s"
  by (simp_all add: then_out_def)

lemma seq_out_simps [simp]: "seq_out (Some e, s) f = (Some e, s)" "seq_out (None, s) f = f s"
  by (simp_all add: seq_out_def)

lemma reply_bind_Inr [res_simps]: "reply_bind r f = (Inr y, t) \<longleftrightarrow> (\<exists>x u. r = (Inr x, u) \<and> f x u = (Inr y, t))"
  by (cases r) (auto simp: reply_bind_def split: sum.splits)

lemma then_out_Inr [res_simps]: "then_out r f = (Inr y, t) \<longleftrightarrow> (\<exists>u. r = (None, u) \<and> f u = (Inr y, t))"
  by (cases r) (auto simp: then_out_def split: option.splits)

lemma seq_out_None [res_simps]: "seq_out r f = (None, t) \<longleftrightarrow> (\<exists>u. r = (None, u) \<and> f u = (None, t))"
  by (cases r) (auto simp: seq_out_def split: option.splits)

text \<open>A predicate that holds of every state a handler can leave.\<close>

lemma keeps_try: "P s \<Longrightarrow> (\<And>x. m = Inr x \<Longrightarrow> P (snd (f x))) \<Longrightarrow> P (snd (try_reply s m f))"
  by (cases m) auto

lemma keeps_tx: "P s \<Longrightarrow> (\<And>x t. m = Inr (x, t) \<Longrightarrow> P (snd (f x t))) \<Longrightarrow> P (snd (in_tx s m f))"
  unfolding in_tx_def by (rule keeps_try) auto

lemma keeps_out: "P s \<Longrightarrow> (\<And>x. m = Inr x \<Longrightarrow> P (snd (f x))) \<Longrightarrow> P (snd (try_out s m f))"
  by (cases m) auto

lemma keeps_bind: "P (snd r) \<Longrightarrow> (\<And>x t. r = (Inr x, t) \<Longrightarrow> P t \<Longrightarrow> P (snd (f x t))) \<Longrightarrow> P (snd (reply_bind r f))"
  by (cases r; cases "fst r") auto

text \<open>A \<open>for\<close> loop over a slice whose body may return an error.\<close>

fun efold :: "('a \<Rightarrow> 's \<Rightarrow> 's res) \<Rightarrow> 'a list \<Rightarrow> 's \<Rightarrow> 's res" where
  "efold f [] s = Inr s"
| "efold f (x # xs) s = ebind (f x s) (efold f xs)"

lemma efold_append: "efold f (xs @ ys) s = ebind (efold f xs s) (efold f ys)"
  by (induction xs arbitrary: s) (simp_all add: ebind_def split: sum.splits)

text \<open>An invariant of the body is an invariant of the loop.\<close>

lemma efold_invariant:
  assumes "efold f xs s = Inr t" and "P s"
    and "\<And>x s t. x \<in> set xs \<Longrightarrow> P s \<Longrightarrow> f x s = Inr t \<Longrightarrow> P t"
  shows "P t"
  using assms
proof (induction xs arbitrary: s)
  case Nil
  then show ?case by simp
next
  case (Cons x xs)
  from Cons.prems(1) obtain u where u: "f x s = Inr u" and rest: "efold f xs u = Inr t"
    by (auto simp: res_simps)
  have "P u" by (rule Cons.prems(3)[OF _ Cons.prems(2) u]) simp
  with rest show ?case by (rule Cons.IH) (auto intro: Cons.prems(3))
qed

section \<open>The environment of a request\<close>

text \<open>
  What a handler reads from outside its own code: whether a database statement fails (each
  statement of the source has a label, and \<open>db_fails\<close> says which ones return an error), the
  transaction's \<open>now()\<close>, the identifiers \<open>gen_random_uuid()\<close> hands out, indexed by the
  number of identifiers the schema has handed out before, and how the driver and PostgreSQL store a
  float64 in a NUMERIC(18,4) column, as a count of ten-thousandths, and in a NUMERIC(18,2) column,
  as a count of cents, the product \<open>ROUND(c * x, 4)\<close> of such a column with a float64, the sum of
  such a column and a float64 as it is stored again, and \<open>LOWER\<close> in the database's locale. All of it is arbitrary in every
  theorem, with what a theorem relies on as a hypothesis; a transaction that meets a failing
  statement returns \<open>Inl\<close>, and its caller keeps the state it had.
\<close>

record env =
  db_fails :: "string \<Rightarrow> bool"
  db_now :: int
  db_uuid :: "nat \<Rightarrow> string"
  db_numeric :: "rat \<Rightarrow> int"
  db_money :: "rat \<Rightarrow> int"
  db_scale :: "int \<Rightarrow> rat \<Rightarrow> int"
  db_plus :: "int \<Rightarrow> rat \<Rightarrow> int"
  db_lower :: "string \<Rightarrow> string"

definition sql :: "env \<Rightarrow> string \<Rightarrow> 'a res \<Rightarrow> 'a res" where
  "sql E stmt r = (if db_fails E stmt then Inl (Internal stmt) else r)"

text \<open>The same for code that returns the driver's error as it is.\<close>

definition sql_raw :: "env \<Rightarrow> string \<Rightarrow> 'a res \<Rightarrow> 'a res" where
  "sql_raw E stmt r = (if db_fails E stmt then Inl (Plain stmt) else r)"

lemma sql_raw_eq_Inr [res_simps]: "sql_raw E stmt r = Inr x \<longleftrightarrow> \<not> db_fails E stmt \<and> r = Inr x"
  by (simp add: sql_raw_def)

lemma sql_raw_ok [simp]: "\<not> db_fails E stmt \<Longrightarrow> sql_raw E stmt r = r"
  by (simp add: sql_raw_def)

lemma sql_eq_Inr [res_simps]: "sql E stmt r = Inr x \<longleftrightarrow> \<not> db_fails E stmt \<and> r = Inr x"
  by (simp add: sql_def)

text \<open>No statement fails.\<close>

definition healthy :: "env \<Rightarrow> bool" where
  "healthy E \<longleftrightarrow> (\<forall>l. \<not> db_fails E l)"

lemma healthy_sql [simp]: "healthy E \<Longrightarrow> sql E l r = r" "healthy E \<Longrightarrow> sql_raw E l r = r"
  by (simp_all add: healthy_def sql_def sql_raw_def)

lemma sql_ok [simp]: "\<not> db_fails E stmt \<Longrightarrow> sql E stmt r = r"
  by (simp add: sql_def)

text \<open>That a computation ends without an error, composed along the code.\<close>

definition returns :: "'a res \<Rightarrow> bool" where
  "returns r \<longleftrightarrow> (\<exists>x. r = Inr x)"

lemma returns_code [code]: "returns r = (case r of Inl e \<Rightarrow> False | Inr x \<Rightarrow> True)"
  by (auto simp: returns_def split: sum.splits)

named_theorems returns_intros \<open>success of composed computations\<close>

lemma returns_Inr [returns_intros]: "returns (Inr x)"
  by (simp add: returns_def)

lemma returns_bind [returns_intros]:
  "returns m \<Longrightarrow> (\<And>x. m = Inr x \<Longrightarrow> returns (f x)) \<Longrightarrow> returns (ebind m f)"
  by (auto simp: returns_def)

lemma returns_guard [returns_intros]: "ok \<Longrightarrow> returns (guard ok e)"
  by (simp add: returns_def)

lemma returns_efold [returns_intros]: "(\<And>x s. x \<in> set xs \<Longrightarrow> returns (f x s)) \<Longrightarrow> returns (efold f xs s)"
  by (induction xs arbitrary: s) (auto intro: returns_intros)

lemma returns_if [returns_intros]: "(c \<Longrightarrow> returns a) \<Longrightarrow> (\<not> c \<Longrightarrow> returns b) \<Longrightarrow> returns (if c then a else b)"
  by simp

lemma returns_prod [returns_intros]: "(\<And>a b. p = (a, b) \<Longrightarrow> returns (f a b)) \<Longrightarrow> returns (case p of (a, b) \<Rightarrow> f a b)"
  by (cases p) simp

section \<open>Strings\<close>

text \<open>
  \<open>strings.TrimSpace\<close> removes the runes \<open>unicode.IsSpace\<close> accepts from both ends: the ASCII
  blanks and the UTF-8 encodings of U+0085, U+00A0, U+1680, U+2000 to U+200A, U+2028, U+2029,
  U+202F, U+205F and U+3000.
\<close>

definition space_encodings :: "string list" where
  "space_encodings =
     [[CHR 0x20], [CHR 0x09], [CHR 0x0A], [CHR 0x0B], [CHR 0x0C], [CHR 0x0D],
      [CHR 0xC2, CHR 0x85], [CHR 0xC2, CHR 0xA0], [CHR 0xE1, CHR 0x9A, CHR 0x80],
      [CHR 0xE2, CHR 0x80, CHR 0x80], [CHR 0xE2, CHR 0x80, CHR 0x81],
      [CHR 0xE2, CHR 0x80, CHR 0x82], [CHR 0xE2, CHR 0x80, CHR 0x83],
      [CHR 0xE2, CHR 0x80, CHR 0x84], [CHR 0xE2, CHR 0x80, CHR 0x85],
      [CHR 0xE2, CHR 0x80, CHR 0x86], [CHR 0xE2, CHR 0x80, CHR 0x87],
      [CHR 0xE2, CHR 0x80, CHR 0x88], [CHR 0xE2, CHR 0x80, CHR 0x89],
      [CHR 0xE2, CHR 0x80, CHR 0x8A], [CHR 0xE2, CHR 0x80, CHR 0xA8],
      [CHR 0xE2, CHR 0x80, CHR 0xA9], [CHR 0xE2, CHR 0x80, CHR 0xAF],
      [CHR 0xE2, CHR 0x81, CHR 0x9F], [CHR 0xE3, CHR 0x80, CHR 0x80]]"

function strip_front :: "string list \<Rightarrow> string \<Rightarrow> string" where
  "strip_front es s =
     (case find (\<lambda>e. e \<noteq> [] \<and> prefix e s) es of
        None \<Rightarrow> s
      | Some e \<Rightarrow> strip_front es (drop (length e) s))"
  by pat_completeness auto
termination
  by (relation "measure (\<lambda>(es, s). length s)")
    (auto simp: find_Some_iff dest: prefix_length_le intro!: Nat.diff_less intro: Nat.gr0I)

declare strip_front.simps [simp del]

definition trim_space :: "string \<Rightarrow> string" where
  "trim_space s =
     rev (strip_front (map rev space_encodings) (rev (strip_front space_encodings s)))"

definition stripped :: "string list \<Rightarrow> string \<Rightarrow> bool" where
  "stripped es s \<longleftrightarrow> (\<forall>e\<in>set es. e \<noteq> [] \<longrightarrow> \<not> prefix e s)"

lemma find_stripped: "find (\<lambda>e. e \<noteq> [] \<and> prefix e s) es = None \<longleftrightarrow> stripped es s"
  by (auto simp: find_None_iff stripped_def)

lemma strip_front_stripped: "stripped es (strip_front es s)"
proof (induction es s rule: strip_front.induct)
  case (1 es s)
  then show ?case
    by (subst strip_front.simps) (auto simp: find_stripped[symmetric] split: option.splits)
qed

lemma strip_front_id: "stripped es s \<Longrightarrow> strip_front es s = s"
  by (subst strip_front.simps) (simp add: find_stripped[symmetric])

lemma strip_front_suffix: "suffix (strip_front es s) s"
proof (induction es s rule: strip_front.induct)
  case (1 es s)
  then show ?case
    by (subst strip_front.simps)
      (auto split: option.splits intro: suffix_order.trans suffix_drop)
qed

lemma stripped_prefix: "stripped es s \<Longrightarrow> prefix t s \<Longrightarrow> stripped es t"
  unfolding stripped_def by (meson prefix_order.trans)

lemma trim_space_idem [simp]: "trim_space (trim_space s) = trim_space s"
proof -
  let ?t = "strip_front space_encodings s"
  let ?u = "strip_front (map rev space_encodings) (rev ?t)"
  have "suffix ?u (rev ?t)" by (rule strip_front_suffix)
  then have "prefix (rev ?u) ?t" by (simp add: suffix_to_prefix)
  then have "stripped space_encodings (rev ?u)"
    using strip_front_stripped stripped_prefix by blast
  then show ?thesis
    by (simp add: trim_space_def strip_front_id strip_front_stripped)
qed

lemma trim_space_Nil [simp]: "trim_space [] = []"
proof -
  have "stripped es []" for es by (auto simp: stripped_def)
  then show ?thesis by (simp add: trim_space_def strip_front_id)
qed

text \<open>
  \<open>strings.ToLower\<close> on the bytes it can turn into an ASCII letter: \<open>A\<close> to \<open>Z\<close>, the Kelvin
  sign U+212A (lower case \<open>k\<close>) and U+0130 (lower case \<open>i\<close>). Other runes beyond ASCII are left
  as they are; the source only compares lower-cased strings with ASCII constants, for which
  this is the same.
\<close>

fun to_lower :: "string \<Rightarrow> string" where
  "to_lower [] = []"
| "to_lower (c # cs) =
     (if prefix [CHR 0x84, CHR 0xAA] cs \<and> c = CHR 0xE2 then CHR ''k'' # to_lower (drop 2 cs)
      else if prefix [CHR 0xB0] cs \<and> c = CHR 0xC4 then CHR ''i'' # to_lower (drop 1 cs)
      else if 65 \<le> (of_char c :: nat) \<and> (of_char c :: nat) \<le> 90
        then char_of (of_char c + 32 :: nat) # to_lower cs
      else c # to_lower cs)"

text \<open>\<open>strings.ToLower(strings.TrimSpace(s))\<close>, the source's usual normalisation.\<close>

definition norm_key :: "string \<Rightarrow> string" where
  "norm_key s = to_lower (trim_space s)"

text \<open>
  An environment for concrete runs: no statement fails, and a float64 is stored as the nearest
  multiple of the column's unit.
\<close>

definition sample_env :: env where
  "sample_env = \<lparr>db_fails = (\<lambda>_. False), db_now = 7, db_uuid = (\<lambda>n. replicate (Suc n) (CHR ''u'')),
     db_numeric = (\<lambda>x. \<lfloor>x * 10 ^ 4 + 1 / 2\<rfloor>), db_money = (\<lambda>x. \<lfloor>x * 10 ^ 2 + 1 / 2\<rfloor>),
     db_scale = (\<lambda>c x. \<lfloor>of_int c * x + 1 / 2\<rfloor>),
     db_plus = (\<lambda>c x. c + \<lfloor>x * 10 ^ 4 + 1 / 2\<rfloor>), db_lower = to_lower\<rparr>"

lemma sample_env_ok: "healthy sample_env"
  by (simp add: healthy_def sample_env_def)

section \<open>Numbers as text\<close>

text \<open>\<open>%d\<close>, most significant digit first, and zero padding as in \<open>%06d\<close>.\<close>

function digits :: "nat \<Rightarrow> string" where
  "digits n = (if n < 10 then [char_of (48 + n)] else digits (n div 10) @ [char_of (48 + n mod 10)])"
  by pat_completeness auto
termination by (relation "measure id") auto

declare digits.simps [simp del]

definition zero_pad :: "nat \<Rightarrow> string \<Rightarrow> string" where
  "zero_pad w s = replicate (w - length s) (CHR ''0'') @ s"

definition show_int :: "int \<Rightarrow> string" where
  "show_int n = (if n < 0 then CHR ''-'' # digits (nat (- n)) else digits (nat n))"

fun undigits :: "nat \<Rightarrow> string \<Rightarrow> nat" where
  "undigits a [] = a"
| "undigits a (c # cs) = undigits (10 * a + (of_char c - 48)) cs"

lemma undigits_append: "undigits a (xs @ ys) = undigits (undigits a xs) ys"
  by (induction xs arbitrary: a) auto

lemma of_char_digit: "d < 10 \<Longrightarrow> of_char (char_of (48 + d) :: char) = (48 + d :: nat)"
  by simp

lemma undigits_digits: "undigits 0 (digits n) = n"
proof (induction n rule: digits.induct)
  case (1 n)
  show ?case
  proof (cases "n < 10")
    case True
    then show ?thesis by (subst digits.simps) (simp add: of_char_digit)
  next
    case False
    then show ?thesis using 1 by (subst digits.simps) (simp add: undigits_append of_char_digit)
  qed
qed

lemma undigits_zero_pad: "undigits 0 (zero_pad w s) = undigits 0 s"
proof -
  have "undigits 0 (replicate k (CHR ''0'')) = 0" for k by (induction k) auto
  then show ?thesis by (simp add: zero_pad_def undigits_append)
qed

section \<open>Dates\<close>

text \<open>
  \<open>time.Parse("2006-01-02", s)\<close>: exactly ten bytes, four, two and two digits, and a day of the
  calendar. A date is the number \<open>10000 * year + 100 * month + day\<close>.
\<close>

definition is_digit :: "char \<Rightarrow> bool" where
  "is_digit c \<longleftrightarrow> 48 \<le> (of_char c :: nat) \<and> (of_char c :: nat) \<le> 57"

definition leap_year :: "nat \<Rightarrow> bool" where
  "leap_year y \<longleftrightarrow> y mod 4 = 0 \<and> (y mod 100 \<noteq> 0 \<or> y mod 400 = 0)"

definition days_in :: "nat \<Rightarrow> nat \<Rightarrow> nat" where
  "days_in m y = (if m = 2 then (if leap_year y then 29 else 28) else if m \<in> {4, 6, 9, 11} then 30 else 31)"

definition parse_date :: "string \<Rightarrow> int option" where
  "parse_date s =
     (if length s = 10 \<and> s ! 4 = CHR ''-'' \<and> s ! 7 = CHR ''-''
         \<and> list_all is_digit (take 4 s @ take 2 (drop 5 s) @ drop 8 s)
      then let y = undigits 0 (take 4 s); m = undigits 0 (take 2 (drop 5 s)); d = undigits 0 (drop 8 s)
           in if 1 \<le> m \<and> m \<le> 12 \<and> 1 \<le> d \<and> d \<le> days_in m y then Some (int (10000 * y + 100 * m + d)) else None
      else None)"

section \<open>Lists and maps\<close>

text \<open>The \<open>seen\<close> loop: keep the first occurrence of every element.\<close>

fun dedup_acc :: "'a list \<Rightarrow> 'a list \<Rightarrow> 'a list" where
  "dedup_acc seen [] = []"
| "dedup_acc seen (x # xs) =
     (if x \<in> set seen then dedup_acc seen xs else x # dedup_acc (x # seen) xs)"

lemma set_dedup_acc: "set (dedup_acc seen xs) = set xs - set seen"
  by (induction xs arbitrary: seen) auto

lemma distinct_dedup_acc: "distinct (dedup_acc seen xs)"
  by (induction xs arbitrary: seen) (auto simp: set_dedup_acc)

definition dedup :: "'a list \<Rightarrow> 'a list" where
  "dedup xs = dedup_acc [] xs"

lemma set_dedup [simp]: "set (dedup xs) = set xs"
  by (simp add: dedup_def set_dedup_acc)

lemma distinct_dedup [simp]: "distinct (dedup xs)"
  by (simp add: dedup_def distinct_dedup_acc)

text \<open>Go's \<open>m[k]\<close> on a missing key reads the zero value.\<close>

definition map_get :: "'v \<Rightarrow> ('k \<rightharpoonup> 'v) \<Rightarrow> 'k \<Rightarrow> 'v" where
  "map_get z m k = (case m k of None \<Rightarrow> z | Some v \<Rightarrow> v)"

lemma map_get_upd [simp]: "map_get z (m(k \<mapsto> v)) k' = (if k' = k then v else map_get z m k')"
  by (simp add: map_get_def)

lemma map_get_empty [simp]: "map_get z Map.empty k = z"
  by (simp add: map_get_def)

lemma concat_map_if: "concat (map (\<lambda>x. if P x then [f x] else []) xs) = map f (filter P xs)"
  by (induction xs) auto

lemma filter_same_length: "length (filter P xs) = length xs \<Longrightarrow> filter P xs = xs"
proof (induction xs)
  case (Cons x xs)
  then show ?case using length_filter_le[of P xs] by (cases "P x") auto
qed simp

lemma sum_list_all_0: "\<forall>x\<in>set xs. f x = (0::int) \<Longrightarrow> sum_list (map f xs) = 0"
  by (induction xs) auto

lemma sum_list_update_filter:
  "(\<Sum>x\<leftarrow>xs. if P x then f x else (0::int)) = sum_list (map f (filter P xs))"
  by (induction xs) auto

end
