(* ===== verification/Auth.thy ===== *)
theory Auth
  imports Prelude
begin

text \<open>
  Who may call a handler: the authenticated user of \<open>shared/types/auth.go\<close>, the module scope of an
  impersonating platform admin (\<open>shared/types/modules.go\<close>) and the guards every inventory endpoint
  starts with (\<open>inventory/inventory.go\<close>). A nil \<open>*AuthUser\<close> is \<open>None\<close>.
\<close>

record AuthUser =
  AccountID :: string
  TenantSchema :: string
  Role :: string
  Impersonating :: bool
  ImpersonationModules :: "string list"

definition HasEffectiveTenantContext :: "AuthUser option \<Rightarrow> bool" where
  "HasEffectiveTenantContext u = (case u of None \<Rightarrow> False | Some v \<Rightarrow> TenantSchema v \<noteq> [])"

definition CanPerformOwnerActions :: "AuthUser option \<Rightarrow> bool" where
  "CanPerformOwnerActions u = (case u of None \<Rightarrow> False | Some v \<Rightarrow>
     if TenantSchema v = [] then False
     else if Role v = ''owner'' then True
     else Role v = ''super_admin'' \<and> Impersonating v)"

definition CanAccessInbox :: "AuthUser option \<Rightarrow> bool" where
  "CanAccessInbox u = (case u of None \<Rightarrow> False | Some v \<Rightarrow>
     if TenantSchema v = [] then False
     else if Role v = ''owner'' \<or> Role v = ''staff'' then True
     else if Role v = ''super_admin'' then Impersonating v
     else False)"

definition TenantNavModuleIDs :: "string list" where
  "TenantNavModuleIDs = [''main'', ''sales'', ''inventory'', ''finance'', ''ai'', ''org'', ''advanced'']"

definition ValidTenantModule :: "string \<Rightarrow> bool" where
  "ValidTenantModule moduleID = list_ex (\<lambda>m. m = moduleID) TenantNavModuleIDs"

definition RequireModule :: "AuthUser option \<Rightarrow> string \<Rightarrow> unit res" where
  "RequireModule u moduleID = (case u of None \<Rightarrow> Inr () | Some v \<Rightarrow>
     if \<not> Impersonating v then Inr ()
     else if ImpersonationModules v = [] then Inr ()
     else if list_ex (\<lambda>m. m = moduleID) (ImpersonationModules v) then Inr ()
     else Inl (Forbidden ''akses modul tidak diizinkan untuk sesi pantau ini''))"

text \<open>The guards of \<open>inventory/inventory.go\<close>; \<open>data\<close> is what the auth handler attached.\<close>

definition getUser :: "AuthUser option \<Rightarrow> AuthUser res" where
  "getUser u = (case u of
       None \<Rightarrow> Inl (Unauthenticated ''missing auth data'')
     | Some v \<Rightarrow>
         if \<not> HasEffectiveTenantContext u then Inl (Forbidden ''tenant context required'')
         else ebind (RequireModule u ''inventory'') (\<lambda>_. Inr v))"

definition requireOwner :: "AuthUser \<Rightarrow> unit res" where
  "requireOwner v = guard (CanPerformOwnerActions (Some v)) (Forbidden ''owner access required'')"

text \<open>\<open>prepareTenant\<close>: the tenant schema is opened, or the handler stops with that error.\<close>

definition prepareTenant :: "env \<Rightarrow> unit res" where
  "prepareTenant E = sql_raw E ''tenant.prepare'' (Inr ())"

text \<open>What a caller that passes both guards is.\<close>

definition inventory_owner :: "AuthUser option \<Rightarrow> bool" where
  "inventory_owner u \<longleftrightarrow> (\<exists>v. u = Some v \<and> TenantSchema v \<noteq> []
     \<and> (Role v = ''owner'' \<or> Role v = ''super_admin'' \<and> Impersonating v)
     \<and> (Impersonating v \<longrightarrow> ImpersonationModules v = [] \<or> ''inventory'' \<in> set (ImpersonationModules v)))"

lemma owner_guard:
  "getUser u = Inr v \<Longrightarrow> requireOwner v = Inr x \<Longrightarrow> inventory_owner u"
  by (auto simp: getUser_def requireOwner_def inventory_owner_def HasEffectiveTenantContext_def
      CanPerformOwnerActions_def RequireModule_def list_ex_iff res_simps split: option.splits if_splits)

end
