(* ===== verification/Float64.thy ===== *)
theory Float64
  imports Prelude "HOL-Library.Log_Nat"
begin

text \<open>
  Go's \<open>float64\<close>. A finite binary64 value is a rational number, and the result of an arithmetic
  operation is the exact result rounded to the nearest value with a 53-bit significand and a least
  exponent of -1074, ties to even (\<open>fl\<close>). Infinities and NaN do not occur: the code divides only
  by values it has compared with zero, and every magnitude stored in a NUMERIC(18,4) column is below
  \<open>10 ^ 14\<close>, far from the largest finite value. The compiler is taken not to fuse multiplication and
  addition (it does not on amd64).

  The main results are about numbers with a fixed number of decimals, the way every quantity, price
  and amount of the program is stored: \<open>dec s n\<close> is the float64 nearest to \<open>n / s\<close>, and rounding any
  float64 that lies near \<open>n / s\<close> with the source's \<open>round4\<close> or \<open>round2\<close> gives exactly \<open>dec s n\<close>
  (\<open>round_scale_near\<close>). This is what turns the program's floating-point bookkeeping into exact
  integer bookkeeping.
\<close>

section \<open>Rounding to binary64\<close>

type_synonym f64 = rat

text \<open>The binary exponent: the greatest \<open>k\<close> with \<open>2 powi k \<le> x\<close>, for positive \<open>x\<close>.\<close>

definition ilog2 :: "rat \<Rightarrow> int" where
  "ilog2 x = (case quotient_of x of (p, q) \<Rightarrow>
     let k = bitlen p - bitlen q in if 2 powi k \<le> x then k else k - 1)"

definition round_half_even :: "rat \<Rightarrow> int" where
  "round_half_even x =
     (let f = \<lfloor>x\<rfloor>; d = x - of_int f
      in if d < 1 / 2 then f else if 1 / 2 < d then f + 1 else if even f then f else f + 1)"

definition fl :: "rat \<Rightarrow> f64" where
  "fl x = (if x = 0 then 0
     else let e = max (ilog2 \<bar>x\<bar> - 52) (- 1074)
          in of_int (round_half_even (x / 2 powi e)) * 2 powi e)"

text \<open>\<open>math.Round\<close>: to the nearest integer, halves away from zero.\<close>

definition math_round :: "f64 \<Rightarrow> f64" where
  "math_round x = of_int (if x < 0 then - \<lfloor>1 / 2 - x\<rfloor> else \<lfloor>x + 1 / 2\<rfloor>)"

text \<open>\<open>math.Round(x*s)/s\<close>, the body of \<open>round4\<close> (\<open>s = 1e4\<close>) and \<open>round2\<close> (\<open>s = 1e2\<close>).\<close>

definition round_scale :: "rat \<Rightarrow> f64 \<Rightarrow> f64" where
  "round_scale s x = fl (math_round (fl (x * s)) / s)"

text \<open>The float64 read from a decimal column: the value nearest to \<open>n / s\<close>.\<close>

definition dec :: "rat \<Rightarrow> int \<Rightarrow> f64" where
  "dec s n = fl (of_int n / s)"

text \<open>Half the distance between the two smallest positive values.\<close>

definition tiny :: rat where
  "tiny = 1 / 2 ^ 1075"

section \<open>Error of one rounding\<close>

lemma ilog2_bounds:
  assumes "0 < x" shows "2 powi (ilog2 x) \<le> x" and "x < 2 powi (ilog2 x + 1)"
proof -
  obtain p q where pq: "quotient_of x = (p, q)" by force
  have q: "0 < q" using pq quotient_of_denom_pos by blast
  have x: "x = of_int p / of_int q" using pq quotient_of_div by blast
  have p: "0 < p" using assms q x by (simp add: zero_less_divide_iff)
  let ?k = "bitlen p - bitlen q"
  have pb: "2 ^ nat (bitlen p - 1) \<le> p" "p < 2 ^ nat (bitlen p)" using bitlen_bounds[of p] p by auto
  have qb: "2 ^ nat (bitlen q - 1) \<le> q" "q < 2 ^ nat (bitlen q)" using bitlen_bounds[of q] q by auto
  have bp: "bitlen p \<ge> 1" "bitlen q \<ge> 1"
    using p q bitlen_eq_zero_iff[of p] bitlen_eq_zero_iff[of q] bitlen_nonneg[of p] bitlen_nonneg[of q]
    by linarith+
  have of_int_pow: "(2::rat) powi k = of_int (2 ^ nat k)" if "0 \<le> k" for k
    using that by (simp add: power_int_def)
  have i1: "(2::rat) powi (bitlen p - 1) \<le> of_int p" and i2: "of_int p < (2::rat) powi (bitlen p)"
    using pb bp of_int_pow[of "bitlen p - 1"] of_int_pow[of "bitlen p"]
    by (simp_all del: of_int_power)
  have i3: "(2::rat) powi (bitlen q - 1) \<le> of_int q" and i4: "of_int q < (2::rat) powi (bitlen q)"
    using qb bp of_int_pow[of "bitlen q - 1"] of_int_pow[of "bitlen q"]
    by (simp_all del: of_int_power)
  have lo: "2 powi (?k - 1) < x"
  proof -
    have "(2::rat) powi (?k - 1) * of_int q < 2 powi (?k - 1) * 2 powi (bitlen q)"
      using i4 by simp
    also have "\<dots> = 2 powi (bitlen p - 1)" by (simp flip: power_int_add)
    finally show ?thesis using i1 q x by (simp add: pos_less_divide_eq)
  qed
  have hi: "x < 2 powi (?k + 1)"
  proof -
    have "of_int p < (2::rat) powi (bitlen p)" by (rule i2)
    also have "\<dots> = 2 powi (?k + 1) * 2 powi (bitlen q - 1)" by (simp flip: power_int_add)
    also have "\<dots> \<le> 2 powi (?k + 1) * of_int q" using i3 by simp
    finally show ?thesis using q x by (simp add: pos_divide_less_eq)
  qed
  show "2 powi (ilog2 x) \<le> x" and "x < 2 powi (ilog2 x + 1)"
    using lo hi by (auto simp: ilog2_def pq Let_def)
qed
lemma round_half_even_err: "\<bar>of_int (round_half_even x) - x\<bar> \<le> 1 / 2"
proof -
  have "of_int \<lfloor>x\<rfloor> \<le> x" "x < of_int \<lfloor>x\<rfloor> + 1" by linarith+
  then show ?thesis unfolding round_half_even_def Let_def
    by (simp add: abs_le_iff split: if_splits)
qed

lemma round_half_even_of_int [simp]: "round_half_even (of_int n) = n"
  by (simp add: round_half_even_def)

lemma round_half_even_uminus: "round_half_even (- x) = - round_half_even x"
proof (cases "x \<in> \<int>")
  case True
  then show ?thesis by (auto elim!: Ints_cases simp flip: of_int_minus)
next
  case False
  then have "\<lfloor>- x\<rfloor> = - \<lfloor>x\<rfloor> - 1"
    by (simp add: floor_minus ceiling_altdef) (metis Ints_of_int)
  then show ?thesis by (auto simp: round_half_even_def Let_def)
qed

lemma round_half_even_nonneg: "0 \<le> x \<Longrightarrow> 0 \<le> round_half_even x"
proof -
  assume "0 \<le> x"
  then have "0 \<le> \<lfloor>x\<rfloor>" by simp
  then show ?thesis by (simp add: round_half_even_def Let_def)
qed

lemma fl_0 [simp]: "fl 0 = 0" by (simp add: fl_def)

lemma fl_uminus: "fl (- x) = - fl x"
  by (simp add: fl_def Let_def round_half_even_uminus)

lemma fl_nonneg: "0 \<le> x \<Longrightarrow> 0 \<le> fl x"
  by (simp add: fl_def Let_def round_half_even_nonneg)

lemma tiny_pos: "0 < tiny" unfolding tiny_def by (simp del: power_numeral)

lemma tiny_le: "tiny \<le> 1 / 2 ^ 200"
  unfolding tiny_def by (intro divide_left_mono power_increasing) (simp_all del: power_numeral)

lemma fl_error:
  "\<bar>fl x - x\<bar> \<le> \<bar>x\<bar> / 2 ^ 53 + tiny"
proof (cases "x = 0")
  case False
  define e where "e = max (ilog2 \<bar>x\<bar> - 52) (- 1074)"
  let ?u = "(2::rat) powi e"
  have u: "0 < ?u" by simp
  have "fl x - x = (of_int (round_half_even (x / ?u)) - x / ?u) * ?u"
    using False u by (simp add: fl_def e_def[symmetric] left_diff_distrib)
  then have "\<bar>fl x - x\<bar> = \<bar>of_int (round_half_even (x / ?u)) - x / ?u\<bar> * ?u"
    by (simp add: abs_mult)
  also have "\<dots> \<le> 1 / 2 * ?u"
    using round_half_even_err[of "x / ?u"] u by (intro mult_right_mono) auto
  also have "1 / 2 * ?u \<le> \<bar>x\<bar> / 2 ^ 53 + tiny"
  proof (cases "ilog2 \<bar>x\<bar> - 52 \<ge> - 1074")
    case True
    then have "?u = 2 powi (ilog2 \<bar>x\<bar> + (- 52))" by (simp add: e_def)
    also have "\<dots> = 2 powi (ilog2 \<bar>x\<bar>) * 2 powi (- 52)" by (rule power_int_add) simp
    finally have "1 / 2 * ?u = 2 powi (ilog2 \<bar>x\<bar>) * (1 / 2 ^ 53)"
      by (simp add: power_int_minus)
    also have "\<dots> \<le> \<bar>x\<bar> * (1 / 2 ^ 53)"
      using ilog2_bounds(1)[of "\<bar>x\<bar>"] False by (intro mult_right_mono) auto
    also have "\<dots> = \<bar>x\<bar> / 2 ^ 53" by simp
    finally show ?thesis using tiny_pos by simp
  next
    case False
    then have "e = - 1074" by (simp add: e_def)
    then have "1 / 2 * ?u = tiny"
      by (simp add: power_int_def tiny_def power_one_over del: power_numeral flip: power_Suc)
    then show ?thesis by simp
  qed
  finally show ?thesis .
qed (use tiny_pos in simp)

lemma fl_dyadic:
  assumes "\<bar>m\<bar> < 2 ^ 53" "- 1074 \<le> k"
  shows "fl (of_int m * 2 powi k) = of_int m * 2 powi k"
proof (cases "m = 0")
  case False
  let ?x = "of_int m * (2::rat) powi k"
  define e where "e = max (ilog2 \<bar>?x\<bar> - 52) (- 1074)"
  have nz: "?x \<noteq> 0" using False by simp
  have "(2::rat) powi (ilog2 \<bar>?x\<bar>) \<le> \<bar>?x\<bar>" by (rule ilog2_bounds(1)) (use nz in simp)
  also have "\<bar>?x\<bar> < 2 ^ 53 * 2 powi k"
  proof -
    have "\<bar>rat_of_int m\<bar> < 2 ^ 53"
      using assms(1) by (metis of_int_abs of_int_less_iff of_int_numeral of_int_power)
    then show ?thesis by (simp add: abs_mult)
  qed
  also have "\<dots> = 2 powi (53 + k)" by (simp add: power_int_add del: power_numeral)
  finally have "ilog2 \<bar>?x\<bar> < 53 + k" using power_int_increasing[of "53 + k" "ilog2 \<bar>?x\<bar>" "2::rat"] by fastforce
  then have ek: "e \<le> k" using assms(2) by (simp add: e_def)
  have "?x / 2 powi e = of_int (m * 2 ^ nat (k - e))"
  proof -
    have "(2::rat) powi k = 2 powi (k - e) * 2 powi e" by (simp flip: power_int_add)
    moreover have "(2::rat) powi (k - e) = 2 ^ nat (k - e)" using ek by (simp add: power_int_def)
    ultimately show ?thesis by simp
  qed
  then have "round_half_even (?x / 2 powi e) = m * 2 ^ nat (k - e)"
    by (metis round_half_even_of_int)
  then have "fl ?x = of_int (m * 2 ^ nat (k - e)) * 2 powi e"
    using nz by (simp add: fl_def e_def[symmetric] del: mult_eq_0_iff)
  also have "\<dots> = ?x"
    using \<open>?x / 2 powi e = of_int (m * 2 ^ nat (k - e))\<close> by (metis nonzero_eq_divide_eq power_int_not_zero zero_neq_numeral)
  finally show ?thesis .
qed simp

lemma fl_of_int:
  assumes "\<bar>n\<bar> \<le> 2 ^ 53" shows "fl (of_int n) = of_int n"
proof (cases "\<bar>n\<bar> = 2 ^ 53")
  case False
  then show ?thesis using fl_dyadic[of n 0] assms by simp
next
  case True
  then have "n = 2 ^ 53 \<or> n = - (2 ^ 53)" by linarith
  then show ?thesis
    using fl_dyadic[of 1 53] fl_dyadic[of "-1" 53] by (auto simp: power_int_def)
qed
section \<open>Decimal numbers\<close>

lemma math_round_near:
  assumes "\<bar>x - of_int n\<bar> < 1 / 2"
  shows "math_round x = of_int n"
proof -
  have lo: "x - of_int n < 1 / 2" and hi: "of_int n - x < 1 / 2" using assms by linarith+
  have "\<lfloor>1 / 2 - x\<rfloor> = - n" by (rule floor_unique) (use lo hi in auto)
  moreover have "\<lfloor>x + 1 / 2\<rfloor> = n" if "\<not> x < 0" by (rule floor_unique) (use lo hi in auto)
  ultimately show ?thesis by (simp add: math_round_def)
qed

lemma fl_error_le:
  assumes "\<bar>x\<bar> \<le> b" shows "\<bar>fl x - x\<bar> \<le> b / 2 ^ 53 + tiny"
  using fl_error[of x] assms by (meson add_mono divide_right_mono order_refl order_trans zero_le_numeral zero_le_power)

lemma round_scale_near:
  assumes s: "0 < s" and near: "\<bar>x * s - of_int n\<bar> \<le> 1 / 4" and n: "\<bar>n\<bar> \<le> 2 ^ 50"
  shows "round_scale s x = dec s n"
proof -
  have n': "\<bar>rat_of_int n\<bar> \<le> 2 ^ 50" using n by (metis of_int_abs of_int_le_iff of_int_numeral of_int_power)
  have "\<bar>x * s\<bar> \<le> 2 ^ 50 + 1 / 4" using near n' by linarith
  then have "\<bar>fl (x * s) - x * s\<bar> \<le> (2 ^ 50 + 1 / 4) / 2 ^ 53 + tiny" by (rule fl_error_le)
  moreover have "(2 ^ 50 + 1 / 4) / 2 ^ 53 + tiny < (1 / 4 :: rat)"
    using tiny_le by (simp add: field_simps)
  ultimately have "\<bar>fl (x * s) - of_int n\<bar> < 1 / 2" using near by linarith
  then show ?thesis by (simp add: round_scale_def dec_def math_round_near)
qed

lemma dec_error:
  assumes "0 < s" shows "\<bar>dec s n * s - of_int n\<bar> \<le> \<bar>of_int n\<bar> / 2 ^ 53 + s * tiny"
proof -
  have "\<bar>dec s n * s - of_int n\<bar> = \<bar>dec s n - of_int n / s\<bar> * s"
    using assms by (simp add: abs_if field_simps)
  also have "\<dots> \<le> (\<bar>of_int n / s\<bar> / 2 ^ 53 + tiny) * s"
    using assms unfolding dec_def by (intro mult_right_mono fl_error) auto
  also have "\<dots> = \<bar>of_int n\<bar> / 2 ^ 53 + s * tiny"
    using assms by (simp add: abs_divide field_simps)
  finally show ?thesis .
qed

lemma dec_error_le:
  assumes s: "0 < s" "s \<le> 10 ^ 4" and n: "\<bar>of_int n :: rat\<bar> \<le> b"
  shows "\<bar>dec s n * s - of_int n\<bar> \<le> b / 2 ^ 53 + 1 / 2 ^ 100"
proof -
  have "\<bar>of_int n\<bar> / 2 ^ 53 \<le> b / (2 ^ 53 :: rat)" using n by (simp add: divide_right_mono)
  moreover have "s * tiny \<le> 1 / 2 ^ 100"
  proof -
    have "s * tiny \<le> 10 ^ 4 * (1 / 2 ^ 200)" using s tiny_le tiny_pos by (intro mult_mono) auto
    also have "\<dots> \<le> (1 / 2 ^ 100 :: rat)" by simp
    finally show ?thesis .
  qed
  ultimately show ?thesis using dec_error[OF s(1), of n] by linarith
qed
end
