(* ===== verification/Costing.thy ===== *)
theory Costing
  imports Float64
begin

text \<open>
  The costing core of the inventory module: \<open>inventory/costing.go\<close> (costing methods, warehouse
  codes) and \<open>inventory/costing_engine.go\<close> (decimal rounding, FIFO/LIFO consumption plans, the
  average cost and the balance snapshot). Every quantity and cost is a float64; the lemmas relate
  them to integers that count ten-thousandths, the unit of the NUMERIC(18,4) columns.
\<close>

section \<open>Costing methods (costing.go)\<close>

definition CostingFIFO :: string where "CostingFIFO = ''fifo''"
definition CostingLIFO :: string where "CostingLIFO = ''lifo''"
definition CostingAverage :: string where "CostingAverage = ''average''"

lemmas costing_names = CostingFIFO_def CostingLIFO_def CostingAverage_def

definition validCostingMethods :: "string set" where
  "validCostingMethods = {CostingFIFO, CostingLIFO, CostingAverage}"

definition normalizeCostingMethod :: "string \<Rightarrow> string \<times> bool" where
  "normalizeCostingMethod s =
     (let m = norm_key s
      in if m = '''' \<or> m \<notin> validCostingMethods then ('''', False) else (m, True))"

definition effectiveCostingMethod :: "string \<Rightarrow> string \<Rightarrow> string" where
  "effectiveCostingMethod skuOverride tenantDefault =
     (case normalizeCostingMethod skuOverride of
        (m, True) \<Rightarrow> m
      | (_, False) \<Rightarrow>
          (case normalizeCostingMethod tenantDefault of
             (m, True) \<Rightarrow> m
           | (_, False) \<Rightarrow> CostingAverage))"

text \<open>\<open>regexp [^a-z0-9]+\<close> replaced by one dash: every maximal run of other bytes.\<close>

definition is_slug_char :: "char \<Rightarrow> bool" where
  "is_slug_char c \<longleftrightarrow>
     (97 \<le> (of_char c :: nat) \<and> (of_char c :: nat) \<le> 122) \<or>
     (48 \<le> (of_char c :: nat) \<and> (of_char c :: nat) \<le> 57)"

fun collapse_runs :: "bool \<Rightarrow> string \<Rightarrow> string" where
  "collapse_runs in_run [] = []"
| "collapse_runs in_run (c # cs) =
     (if is_slug_char c then c # collapse_runs False cs
      else if in_run then collapse_runs True cs
      else CHR ''-'' # collapse_runs True cs)"

definition trim_dash :: "string \<Rightarrow> string" where
  "trim_dash s = rev (dropWhile ((=) (CHR ''-'')) (rev (dropWhile ((=) (CHR ''-'')) s)))"

definition normalizeWarehouseCode :: "string \<Rightarrow> string" where
  "normalizeWarehouseCode name =
     (let s = trim_dash (collapse_runs False (norm_key name))
      in if s = '''' then ''gudang''
         else if length s > 40 then trim_dash (take 40 s)
         else s)"

section \<open>Decimal rounding (costing_engine.go)\<close>

definition epsilon :: f64 where "epsilon = fl (1 / 10 ^ 6)"

definition round4 :: "f64 \<Rightarrow> f64" where "round4 x = round_scale (10 ^ 4) x"

definition round2 :: "f64 \<Rightarrow> f64" where "round2 x = round_scale (10 ^ 2) x"

text \<open>The float64 read from a NUMERIC(18,4) column that holds \<open>n\<close> ten-thousandths.\<close>

definition dec4 :: "int \<Rightarrow> f64" where "dec4 n = dec (10 ^ 4) n"

section \<open>Consumption plans\<close>

record Layer =
  l_id :: string
  l_qty :: f64
  l_cost :: f64
  l_batch :: string

record LayerConsumption =
  d_layer :: string
  d_qty :: f64
  d_cost :: f64

fun plan_loop ::
  "Layer list \<Rightarrow> f64 \<Rightarrow> f64 \<Rightarrow> LayerConsumption list \<Rightarrow> LayerConsumption list \<times> f64 \<times> f64"
where
  "plan_loop [] remaining totalCost draws = (draws, totalCost, remaining)"
| "plan_loop (l # ls) remaining totalCost draws =
     (if remaining \<le> epsilon then (draws, totalCost, remaining)
      else if l_qty l \<le> epsilon then plan_loop ls remaining totalCost draws
      else let tk = (if l_qty l > remaining then remaining else l_qty l)
           in plan_loop ls (fl (remaining - tk)) (fl (totalCost + fl (tk * l_cost l)))
                (draws @ [\<lparr>d_layer = l_id l, d_qty = round4 tk, d_cost = l_cost l\<rparr>]))"

definition planConsumption :: "Layer list \<Rightarrow> f64 \<Rightarrow> LayerConsumption list \<times> f64 \<times> f64" where
  "planConsumption ordered qty =
     (case plan_loop ordered qty 0 [] of
        (draws, totalCost, remaining) \<Rightarrow>
          (draws, round4 totalCost, if remaining > epsilon then round4 remaining else 0))"

section \<open>Average cost and the balance snapshot\<close>

definition applyReceiptAverage :: "f64 \<Rightarrow> f64 \<Rightarrow> f64 \<Rightarrow> f64 \<Rightarrow> f64 \<times> f64" where
  "applyReceiptAverage onHand avgCost recvQty recvUnitCost =
     (let newOnHand = fl (onHand + recvQty)
      in if newOnHand \<le> epsilon then (0, 0)
         else let newAvg = fl (fl (fl (onHand * avgCost) + fl (recvQty * recvUnitCost)) / newOnHand)
              in (round4 newOnHand, round4 newAvg))"

definition issueCostAverage :: "f64 \<Rightarrow> f64 \<Rightarrow> f64" where
  "issueCostAverage avgCost qty = round4 (fl (avgCost * qty))"

definition weightedUnitCost :: "f64 \<Rightarrow> f64 \<Rightarrow> f64" where
  "weightedUnitCost totalCost qty = (if qty \<le> epsilon then 0 else round4 (fl (totalCost / qty)))"

record BalanceState =
  OnHand :: f64
  AvgCost :: f64
  TotalValue :: f64

definition zero_balance :: BalanceState where
  "zero_balance = \<lparr>OnHand = 0, AvgCost = 0, TotalValue = 0\<rparr>"

definition applyIn :: "BalanceState \<Rightarrow> f64 \<Rightarrow> f64 \<Rightarrow> BalanceState" where
  "applyIn b qty unitCost =
     (let onHand = fl (OnHand b + qty);
          total = fl (TotalValue b + fl (qty * unitCost));
          avg = (if onHand > epsilon then fl (total / onHand) else 0)
      in \<lparr>OnHand = round4 onHand, AvgCost = round4 avg, TotalValue = round4 total\<rparr>)"

definition applyOut :: "BalanceState \<Rightarrow> f64 \<Rightarrow> f64 \<Rightarrow> BalanceState" where
  "applyOut b qty cost =
     (let onHand = fl (OnHand b - qty);
          total = fl (TotalValue b - cost)
      in if onHand \<le> epsilon
         then \<lparr>OnHand = round4 onHand, AvgCost = AvgCost b, TotalValue = 0\<rparr>
         else \<lparr>OnHand = round4 onHand, AvgCost = round4 (fl (total / onHand)),
               TotalValue = round4 total\<rparr>)"

section \<open>Float64 quantities as ten-thousandths\<close>

text \<open>\<open>approx x n d\<close>: the float64 \<open>x\<close> is within \<open>d\<close> ten-thousandths of \<open>n\<close> ten-thousandths.\<close>

definition approx :: "f64 \<Rightarrow> int \<Rightarrow> rat \<Rightarrow> bool" where
  "approx x n d \<longleftrightarrow> \<bar>x * 10 ^ 4 - of_int n\<bar> \<le> d"

lemma approx_mono: "approx x n d \<Longrightarrow> d \<le> e \<Longrightarrow> approx x n e"
  by (simp add: approx_def)

lemma approx_add: "approx x m d \<Longrightarrow> approx y n e \<Longrightarrow> approx (x + y) (m + n) (d + e)"
  unfolding approx_def by (simp add: distrib_right)

lemma approx_diff: "approx x m d \<Longrightarrow> approx y n e \<Longrightarrow> approx (x - y) (m - n) (d + e)"
  unfolding approx_def by (simp add: left_diff_distrib)

lemma of_int_abs_le: "\<bar>n\<bar> \<le> b \<Longrightarrow> \<bar>rat_of_int n\<bar> \<le> of_int b"
  by (metis of_int_abs of_int_le_iff)

lemma approx_fl:
  assumes "approx x n d" and "\<bar>rat_of_int n\<bar> + d \<le> b"
  shows "approx (fl x) n (d + b / 2 ^ 53 + 1 / 2 ^ 100)"
proof -
  have "\<bar>x * 10 ^ 4\<bar> \<le> b" using assms unfolding approx_def by linarith
  then have "\<bar>x\<bar> \<le> b / 10 ^ 4" by (simp add: abs_mult field_simps)
  then have "\<bar>fl x - x\<bar> \<le> b / 10 ^ 4 / 2 ^ 53 + tiny" by (rule fl_error_le)
  then have "\<bar>fl x - x\<bar> * 10 ^ 4 \<le> b / 2 ^ 53 + 10 ^ 4 * tiny" by (simp add: field_simps)
  moreover have "10 ^ 4 * tiny \<le> 1 / 2 ^ 100"
    using tiny_le by (simp add: field_simps)
  moreover have "\<bar>fl x * 10 ^ 4 - x * 10 ^ 4\<bar> = \<bar>fl x - x\<bar> * 10 ^ 4"
    unfolding left_diff_distrib[symmetric] by (simp only: abs_mult) simp
  moreover have "\<bar>fl x * 10 ^ 4 - of_int n\<bar>
      \<le> \<bar>fl x * 10 ^ 4 - x * 10 ^ 4\<bar> + \<bar>x * 10 ^ 4 - of_int n\<bar>"
    by linarith
  ultimately show ?thesis using assms(1) unfolding approx_def by linarith
qed

lemma approx_dec4:
  assumes "\<bar>rat_of_int n\<bar> \<le> b"
  shows "approx (dec4 n) n (b / 2 ^ 53 + 1 / 2 ^ 100)"
  using dec_error_le[of "10 ^ 4" n b] assms by (simp add: approx_def dec4_def)

lemma round4_approx: "approx x n (1 / 4) \<Longrightarrow> \<bar>n\<bar> \<le> 2 ^ 50 \<Longrightarrow> round4 x = dec4 n"
  unfolding round4_def dec4_def approx_def by (rule round_scale_near) simp_all

lemma epsilon_bounds: "epsilon * 10 ^ 4 \<le> 11 / 1000" "9 / 1000 \<le> epsilon * 10 ^ 4"
proof -
  have "\<bar>epsilon - 1 / 10 ^ 6\<bar> \<le> 1 / 10 ^ 6 / 2 ^ 53 + tiny"
    unfolding epsilon_def by (rule fl_error_le) simp
  moreover have "1 / 10 ^ 6 / 2 ^ 53 + tiny \<le> (1 / 10 ^ 8 :: rat)"
    using tiny_le by (simp add: field_simps)
  ultimately have "\<bar>epsilon - 1 / 10 ^ 6\<bar> \<le> 1 / 10 ^ 8" by (rule order_trans)
  then have "epsilon \<le> 1 / 10 ^ 6 + 1 / 10 ^ 8" "1 / 10 ^ 6 - 1 / 10 ^ 8 \<le> epsilon"
    by linarith+
  then show "epsilon * 10 ^ 4 \<le> 11 / 1000" "9 / 1000 \<le> epsilon * 10 ^ 4" by simp_all
qed

text \<open>The comparisons with \<open>epsilon\<close> decide the sign of the integer.\<close>

lemma approx_le_epsilon:
  assumes "approx x n (1 / 200)"
  shows "x \<le> epsilon \<longleftrightarrow> n \<le> 0"
proof (cases "n \<le> 0")
  case True
  then have "rat_of_int n \<le> 0" by simp
  then have "x * 10 ^ 4 \<le> epsilon * 10 ^ 4"
    using assms epsilon_bounds(2) unfolding approx_def by linarith
  then show ?thesis using True by simp
next
  case False
  then have "1 \<le> rat_of_int n" by simp
  then have "epsilon * 10 ^ 4 < x * 10 ^ 4"
    using assms epsilon_bounds(1) unfolding approx_def by linarith
  then show ?thesis using False by simp
qed

lemma approx_gt_epsilon:
  "approx x n (1 / 200) \<Longrightarrow> epsilon < x \<longleftrightarrow> 0 < n"
  using approx_le_epsilon by (meson linorder_not_le)

lemma approx_compare:
  assumes "approx x m d" "approx y n e" "d + e < 1"
  shows "m < n \<Longrightarrow> x < y"
proof -
  assume "m < n"
  then have "rat_of_int m + 1 \<le> rat_of_int n" by (metis of_int_1 of_int_add of_int_le_iff zless_imp_add1_zle)
  then have "x * 10 ^ 4 < y * 10 ^ 4" using assms unfolding approx_def by linarith
  then show "x < y" by simp
qed

subsection \<open>Columns in range\<close>

text \<open>Quantities below \<open>2 ^ 44\<close> ten-thousandths, about \<open>1.7 * 10 ^ 9\<close> units.\<close>

definition small4 :: "int \<Rightarrow> bool" where "small4 n \<longleftrightarrow> \<bar>n\<bar> \<le> 2 ^ 44"

lemma small4_approx: "small4 n \<Longrightarrow> approx (dec4 n) n (1 / 500)"
proof -
  assume "small4 n"
  then have "\<bar>rat_of_int n\<bar> \<le> 2 ^ 44" using of_int_abs_le[of n "2 ^ 44"] by (simp add: small4_def)
  then have "approx (dec4 n) n (2 ^ 44 / 2 ^ 53 + 1 / 2 ^ 100)" by (rule approx_dec4)
  then show ?thesis by (rule approx_mono) simp
qed

lemma dec4_0 [simp]: "dec4 0 = 0"
  by (simp add: dec4_def dec_def)

lemma dec4_uminus: "dec4 (- n) = - dec4 n"
  by (simp add: dec4_def dec_def fl_uminus)

lemma round4_dec4 [simp]: "small4 n \<Longrightarrow> round4 (dec4 n) = dec4 n"
  by (rule round4_approx) (auto intro: approx_mono[OF small4_approx] simp: small4_def)

lemma small4_fl_approx:
  assumes "small4 m" "small4 n" "approx x (m + n) (1 / 250)"
  shows "approx (fl x) (m + n) (1 / 100)" "\<bar>m + n\<bar> \<le> 2 ^ 50"
proof -
  have b: "\<bar>m + n\<bar> \<le> 2 ^ 45" using assms(1,2) by (simp add: small4_def)
  then have "\<bar>rat_of_int (m + n)\<bar> + 1 / 250 \<le> 2 ^ 45 + 1"
    using of_int_abs_le[OF b] by simp
  then have "approx (fl x) (m + n) (1 / 250 + (2 ^ 45 + 1) / 2 ^ 53 + 1 / 2 ^ 100)"
    by (rule approx_fl[OF assms(3)])
  then show "approx (fl x) (m + n) (1 / 100)" by (rule approx_mono) simp
  show "\<bar>m + n\<bar> \<le> 2 ^ 50" using b by simp
qed

lemma round4_add: "small4 m \<Longrightarrow> small4 n \<Longrightarrow> round4 (fl (dec4 m + dec4 n)) = dec4 (m + n)"
  using small4_fl_approx[of m n "dec4 m + dec4 n"] approx_add[OF small4_approx small4_approx, of m n]
  by (intro round4_approx) (auto intro: approx_mono)

lemma small4_uminus [simp]: "small4 (- n) = small4 n"
  by (simp add: small4_def)

lemma round4_sub: "small4 m \<Longrightarrow> small4 n \<Longrightarrow> round4 (fl (dec4 m - dec4 n)) = dec4 (m - n)"
  using small4_fl_approx[of m "- n" "dec4 m - dec4 n"] approx_diff[OF small4_approx small4_approx, of m n]
  by (intro round4_approx) (auto intro: approx_mono)

lemma dec4_le_epsilon: "small4 n \<Longrightarrow> dec4 n \<le> epsilon \<longleftrightarrow> n \<le> 0"
  by (rule approx_le_epsilon) (rule approx_mono[OF small4_approx], auto)

lemma dec4_less_iff: "small4 m \<Longrightarrow> small4 n \<Longrightarrow> dec4 m < dec4 n \<longleftrightarrow> m < n"
  using approx_compare[OF small4_approx small4_approx, of m n]
    approx_compare[OF small4_approx small4_approx, of n m]
  by (cases m n rule: linorder_cases) (auto intro: less_asym)

lemma dec4_inject: "small4 m \<Longrightarrow> small4 n \<Longrightarrow> dec4 m = dec4 n \<longleftrightarrow> m = n"
  using dec4_less_iff[of m n] dec4_less_iff[of n m] by (cases m n rule: linorder_cases) auto

end
