(* ===== verification/Consumption.thy ===== *)
theory Consumption
  imports Costing
begin

text \<open>
  What \<open>planConsumption\<close> of \<open>inventory/costing_engine.go\<close> computes, stated on integers. The source
  subtracts float64 quantities in a loop without rounding in between; \<open>plan_loop_refines\<close> bounds
  the error that accumulates and shows that no comparison and no rounded draw is ever affected by it,
  as long as the issued quantity times the number of layers stays below \<open>2 ^ 44\<close> ten-thousandths.
\<close>

section \<open>Consumption plans on integers\<close>

text \<open>
  The plan a FIFO or LIFO issue means: layers in order, each with its remaining ten-thousandths and
  its unit cost; a draw takes what the layer has or what is still missing.
\<close>

type_synonym ilayer = "string \<times> int \<times> f64 \<times> string"

fun spec_draws :: "ilayer list \<Rightarrow> int \<Rightarrow> (string \<times> int \<times> f64) list" where
  "spec_draws [] q = []"
| "spec_draws ((i, a, c, b) # ls) q =
     (if q \<le> 0 then [] else if a \<le> 0 then spec_draws ls q
      else (i, min a q, c) # spec_draws ls (q - min a q))"

fun spec_short :: "ilayer list \<Rightarrow> int \<Rightarrow> int" where
  "spec_short [] q = q"
| "spec_short ((i, a, c, b) # ls) q =
     (if q \<le> 0 then q else if a \<le> 0 then spec_short ls q else spec_short ls (q - min a q))"

definition to_layer :: "ilayer \<Rightarrow> Layer" where
  "to_layer l = (case l of (i, a, c, b) \<Rightarrow> \<lparr>l_id = i, l_qty = dec4 a, l_cost = c, l_batch = b\<rparr>)"

definition to_draw :: "string \<times> int \<times> f64 \<Rightarrow> LayerConsumption" where
  "to_draw d = (case d of (i, n, c) \<Rightarrow> \<lparr>d_layer = i, d_qty = dec4 n, d_cost = c\<rparr>)"

text \<open>The error one draw can add, in ten-thousandths, when at most \<open>B\<close> of them are issued.\<close>

definition step_err :: "int \<Rightarrow> rat" where
  "step_err B = (of_int B + 1) / 2 ^ 53 + 1 / 2 ^ 99"

text \<open>All the layers with stock, drawn in full, and what they hold.\<close>

definition full_draws :: "ilayer list \<Rightarrow> (string \<times> int \<times> f64) list" where
  "full_draws ls = [(i, a, c). (i, a, c, b) \<leftarrow> ls, 0 < a]"

definition stock_of :: "ilayer list \<Rightarrow> int" where
  "stock_of ls = sum_list [max 0 a. (i, a, c, b) \<leftarrow> ls]"

section \<open>The float64 loop refines the integer plan\<close>

lemma to_layer_eq [simp]: "to_layer (i, a, c, b) = \<lparr>l_id = i, l_qty = dec4 a, l_cost = c, l_batch = b\<rparr>"
  by (simp add: to_layer_def)

lemma to_draw_eq [simp]: "to_draw (i, n, c) = \<lparr>d_layer = i, d_qty = dec4 n, d_cost = c\<rparr>"
  by (simp add: to_draw_def)

lemma step_err_nonneg: "0 \<le> B \<Longrightarrow> 0 \<le> step_err B"
  unfolding step_err_def by (intro add_nonneg_nonneg divide_nonneg_nonneg) auto

lemma plan_step_error:
  assumes rem: "approx rem r d" and d: "0 \<le> d" "d \<le> 1 / 250"
    and a: "0 \<le> a" "a \<le> r" and rB: "r \<le> B" "B \<le> 2 ^ 44"
  shows "approx (fl (rem - dec4 a)) (r - a) (d + step_err B)"
proof -
  have ra: "\<bar>rat_of_int a\<bar> \<le> of_int a" using a by simp
  have aB: "rat_of_int a \<le> 2 ^ 44"
    using a rB by (metis (mono_tags) of_int_le_iff of_int_numeral of_int_power order_trans)
  let ?e = "of_int a / 2 ^ 53 + 1 / 2 ^ 100 :: rat"
  have e: "?e \<le> 1 / 2" using aB by (simp add: field_simps)
  have "approx (rem - dec4 a) (r - a) (d + ?e)" by (rule approx_diff[OF rem approx_dec4[OF ra]])
  moreover have "\<bar>rat_of_int (r - a)\<bar> + (d + ?e) \<le> of_int (r - a) + 1" using a e d by simp
  ultimately have "approx (fl (rem - dec4 a)) (r - a)
      (d + ?e + (of_int (r - a) + 1) / 2 ^ 53 + 1 / 2 ^ 100)"
    by (rule approx_fl)
  moreover have "d + ?e + (of_int (r - a) + 1) / 2 ^ 53 + 1 / 2 ^ 100
      = d + ((of_int r + 1) / 2 ^ 53 + 1 / 2 ^ 99)"
    by (simp add: field_simps)
  moreover have "d + ((of_int r + 1) / 2 ^ 53 + 1 / 2 ^ 99) \<le> d + step_err B"
    unfolding step_err_def using rB(1) by (intro add_mono divide_right_mono) auto
  ultimately show ?thesis by (metis approx_mono)
qed

lemma plan_take:
  assumes rem: "approx rem r d" and d: "0 \<le> d" "d \<le> 1 / 250"
    and a: "0 < a" "small4 a" and r: "0 \<le> r" "r \<le> B" "B \<le> 2 ^ 44"
  defines "tk \<equiv> if dec4 a > rem then rem else dec4 a"
  shows "round4 tk = dec4 (min a r)"
    and "approx (fl (rem - tk)) (r - min a r) (d + step_err B)"
proof -
  have rem200: "approx rem r (1 / 200)" using rem d by (auto intro: approx_mono)
  show "round4 tk = dec4 (min a r)"
  proof (cases "dec4 a > rem")
    case True
    then have "r \<le> a" using approx_compare[OF small4_approx[OF a(2)] rem200] by fastforce
    moreover have "round4 rem = dec4 r"
      using rem200 r by (intro round4_approx) (auto intro: approx_mono)
    ultimately show ?thesis using True by (simp add: tk_def min_def)
  next
    case False
    then have "a \<le> r" using approx_compare[OF rem200 small4_approx[OF a(2)]] by fastforce
    then show ?thesis using False a(2) by (simp add: tk_def min_def)
  qed
  show "approx (fl (rem - tk)) (r - min a r) (d + step_err B)"
  proof (cases "dec4 a > rem")
    case True
    then have "r \<le> a" using approx_compare[OF small4_approx[OF a(2)] rem200] by fastforce
    then show ?thesis using True step_err_nonneg[of B] d r by (simp add: tk_def min_def approx_def)
  next
    case False
    then have "a \<le> r" using approx_compare[OF rem200 small4_approx[OF a(2)]] by fastforce
    then show ?thesis
      using False plan_step_error[OF rem d, of a B] a r by (simp add: tk_def min_def)
  qed
qed

lemma plan_loop_refines:
  assumes "0 \<le> r" "r \<le> B" "B \<le> 2 ^ 44" and "approx rem r d" and "0 \<le> d"
    and "d + of_nat (length ls) * step_err B \<le> 1 / 250"
    and "\<forall>l\<in>set ls. small4 (fst (snd l))"
  shows "\<exists>t rem'. plan_loop (map to_layer ls) rem tot draws
            = (draws @ map to_draw (spec_draws ls r), t, rem')
          \<and> approx rem' (spec_short ls r) (1 / 250)"
  using assms
proof (induction ls arbitrary: r rem tot draws d)
  case Nil
  then show ?case by (auto intro: approx_mono)
next
  case (Cons l ls)
  obtain i a c b where l: "l = (i, a, c, b)" by (cases l) auto
  have err: "0 \<le> step_err B" using Cons.prems(1,2) by (intro step_err_nonneg) simp
  have dl: "d + of_nat (length ls) * step_err B \<le> 1 / 250"
    and d': "d + step_err B + of_nat (length ls) * step_err B \<le> 1 / 250"
    using Cons.prems(6) err by (simp_all add: distrib_right)
  have "0 \<le> of_nat (length ls) * step_err B" using err by simp
  then have d250: "d \<le> 1 / 250" using dl by linarith
  have small: "small4 a" and smalls: "\<forall>l\<in>set ls. small4 (fst (snd l))"
    using Cons.prems(7) l by auto
  have rem_pos: "rem \<le> epsilon \<longleftrightarrow> r \<le> 0"
    using Cons.prems(4) d250 by (intro approx_le_epsilon) (auto intro: approx_mono)
  have qty_pos: "dec4 a \<le> epsilon \<longleftrightarrow> a \<le> 0" by (rule dec4_le_epsilon[OF small])
  consider "r \<le> 0" | "0 < r" "a \<le> 0" | "0 < r" "0 < a" by linarith
  then show ?case
  proof cases
    case 1
    then show ?thesis using rem_pos Cons.prems(4) d250 by (auto simp: l intro: approx_mono)
  next
    case 2
    then show ?thesis
      using rem_pos qty_pos Cons.IH[OF Cons.prems(1-5) dl smalls] by (simp add: l)
  next
    case 3
    let ?tk = "if dec4 a > rem then rem else dec4 a"
    note tk = plan_take[OF Cons.prems(4,5) d250 3(2) small Cons.prems(1-3)]
    have "\<exists>t rem'. plan_loop (map to_layer ls) (fl (rem - ?tk)) (fl (tot + fl (?tk * c)))
          (draws @ [\<lparr>d_layer = i, d_qty = dec4 (min a r), d_cost = c\<rparr>])
        = ((draws @ [\<lparr>d_layer = i, d_qty = dec4 (min a r), d_cost = c\<rparr>])
            @ map to_draw (spec_draws ls (r - min a r)), t, rem')
        \<and> approx rem' (spec_short ls (r - min a r)) (1 / 250)"
      by (rule Cons.IH[OF _ _ Cons.prems(3) tk(2) _ d' smalls]) (use Cons.prems(2,5) err 3 in auto)
    then show ?thesis using 3 rem_pos qty_pos tk(1) by (auto simp: l Let_def)
  qed
qed

section \<open>The integer plan\<close>

lemma spec_short_nonneg: "0 \<le> q \<Longrightarrow> 0 \<le> spec_short ls q"
  by (induction ls q rule: spec_short.induct) auto

lemma spec_draws_sum:
  "0 \<le> q \<Longrightarrow> (\<Sum>(i, n, c)\<leftarrow>spec_draws ls q. n) + spec_short ls q = q"
  by (induction ls q rule: spec_draws.induct) auto

lemma stock_of_nonneg: "0 \<le> stock_of ls"
  unfolding stock_of_def by (rule sum_list_nonneg) auto

lemma stock_of_Cons [simp]: "stock_of ((i, a, c, b) # ls) = max 0 a + stock_of ls"
  by (simp add: stock_of_def)

lemma stock_of_Nil [simp]: "stock_of [] = 0"
  by (simp add: stock_of_def)

lemma full_draws_Nil [simp]: "full_draws [] = []"
  by (simp add: full_draws_def)

lemma full_draws_Cons [simp]:
  "full_draws ((i, a, c, b) # ls) = (if 0 < a then (i, a, c) # full_draws ls else full_draws ls)"
  by (simp add: full_draws_def)

lemma spec_short_eq: "0 \<le> q \<Longrightarrow> spec_short ls q = max 0 (q - stock_of ls)"
proof (induction ls q rule: spec_short.induct)
  case (2 i a c b ls q)
  then show ?case using stock_of_nonneg[of ls] by (auto simp: max_def min_def)
qed auto

lemma spec_draws_0 [simp]: "q \<le> 0 \<Longrightarrow> spec_draws ls q = []"
  by (induction ls q rule: spec_draws.induct) auto

text \<open>
  The order of consumption: later layers are touched only after the earlier ones are used up.
\<close>

lemma spec_draws_append:
  "spec_draws (xs @ ys) q =
     (if stock_of xs < q then full_draws xs @ spec_draws ys (q - stock_of xs) else spec_draws xs q)"
proof (induction xs q rule: spec_draws.induct)
  case (1 q)
  then show ?case by auto
next
  case (2 i a c b ls q)
  then show ?case using stock_of_nonneg[of ls] by (auto simp: min_def max_def diff_diff_eq)
qed

lemma spec_draws_bounds:
  "(i, n, c) \<in> set (spec_draws ls q) \<Longrightarrow> 0 < n \<and> (\<exists>a b. (i, a, c, b) \<in> set ls \<and> n \<le> a)"
  by (induction ls q rule: spec_draws.induct) (auto split: if_splits)

section \<open>Exactness of the plan\<close>

lemma plan_budget:
  assumes "0 \<le> q" "(int n + 1) * (q + 1) \<le> 2 ^ 44"
  shows "q \<le> 2 ^ 44"
    and "of_int q / 2 ^ 53 + 1 / 2 ^ 100 + of_nat n * step_err q \<le> (1 / 250 :: rat)"
proof -
  have "q + 1 \<le> (int n + 1) * (q + 1)" using assms(1) by (simp add: distrib_right)
  then have q: "q + 1 \<le> 2 ^ 44" using assms(2) by linarith
  then show "q \<le> 2 ^ 44" by simp
  have "int n + 1 \<le> (int n + 1) * (q + 1)" using assms(1) by (simp add: distrib_left)
  then have "int n + 1 \<le> 2 ^ 44" using assms(2) by linarith
  then have "rat_of_int (int n + 1) \<le> of_int (2 ^ 44)" by (simp only: of_int_le_iff)
  then have n: "rat_of_nat n + 1 \<le> 2 ^ 44" by simp
  have nq: "(rat_of_nat n + 1) * (of_int q + 1) \<le> 2 ^ 44"
  proof -
    have "rat_of_int ((int n + 1) * (q + 1)) \<le> of_int (2 ^ 44)"
      using assms(2) by (simp only: of_int_le_iff)
    then show ?thesis by simp
  qed
  have "of_int q / 2 ^ 53 + 1 / 2 ^ 100 + of_nat n * step_err q
      \<le> (rat_of_nat n + 1) * step_err q"
    by (simp add: step_err_def distrib_right add_divide_distrib)
  also have "\<dots> = (rat_of_nat n + 1) * (of_int q + 1) / 2 ^ 53 + (rat_of_nat n + 1) / 2 ^ 99"
    by (simp add: step_err_def distrib_left)
  also have "\<dots> \<le> 2 ^ 44 / 2 ^ 53 + 2 ^ 44 / 2 ^ 99"
    by (intro add_mono divide_right_mono nq n) auto
  also have "\<dots> \<le> 1 / 250" by simp
  finally show "of_int q / 2 ^ 53 + 1 / 2 ^ 100 + of_nat n * step_err q \<le> (1 / 250 :: rat)" .
qed

lemma planConsumption_refines:
  assumes "0 \<le> q" "(int (length ls) + 1) * (q + 1) \<le> 2 ^ 44"
    and "\<forall>l\<in>set ls. small4 (fst (snd l))"
  obtains cost where "planConsumption (map to_layer ls) (dec4 q)
      = (map to_draw (spec_draws ls q), cost, dec4 (spec_short ls q))"
proof -
  let ?d = "of_int q / 2 ^ 53 + 1 / 2 ^ 100 :: rat"
  note b = plan_budget[OF assms(1,2)]
  have "approx (dec4 q) q ?d" using assms(1) by (intro approx_dec4) simp
  moreover have "0 \<le> ?d" using assms(1) by simp
  ultimately obtain t rem' where
    run: "plan_loop (map to_layer ls) (dec4 q) 0 [] = (map to_draw (spec_draws ls q), t, rem')"
    and rem': "approx rem' (spec_short ls q) (1 / 250)"
    using plan_loop_refines[OF assms(1) order_refl b(1) _ _ b(2) assms(3), of "dec4 q" 0 "[]"] by auto
  have s0: "0 \<le> spec_short ls q" using assms(1) by (rule spec_short_nonneg)
  have s1: "spec_short ls q \<le> q" using spec_short_eq[OF assms(1), of ls] stock_of_nonneg[of ls] assms(1) by simp
  have "epsilon < rem' \<longleftrightarrow> 0 < spec_short ls q"
    by (rule approx_gt_epsilon) (rule approx_mono[OF rem'], simp)
  moreover have "round4 rem' = dec4 (spec_short ls q)"
    by (rule round4_approx) (use approx_mono[OF rem'] s0 s1 b(1) in auto)
  ultimately have "(if rem' > epsilon then round4 rem' else 0) = dec4 (spec_short ls q)"
    using s0 by auto
  then show ?thesis using that run by (simp add: planConsumption_def)
qed

text \<open>
  C34: A FIFO or LIFO issue of \<open>q\<close> ten-thousandths draws from the ordered layers exactly the integer
  plan: from each layer in turn what it holds or what is still missing, and the reported shortfall is
  exactly what all the layers together lack. No float64 error in the loop of \<open>planConsumption\<close> ever
  changes a draw.
\<close>

theorem planConsumption_exact:
  assumes "0 \<le> q" "(int (length ls) + 1) * (q + 1) \<le> 2 ^ 44"
    and "\<forall>l\<in>set ls. small4 (fst (snd l))"
  shows "fst (planConsumption (map to_layer ls) (dec4 q)) = map to_draw (spec_draws ls q)
    \<and> snd (snd (planConsumption (map to_layer ls) (dec4 q))) = dec4 (max 0 (q - stock_of ls))"
proof -
  obtain cost where "planConsumption (map to_layer ls) (dec4 q)
      = (map to_draw (spec_draws ls q), cost, dec4 (spec_short ls q))"
    using planConsumption_refines[OF assms] .
  then show ?thesis using spec_short_eq[OF assms(1), of ls] by simp
qed

theorem planConsumption_exact_witness:
  "fst (planConsumption
     (map to_layer [(''a'', 20000, 5, []), (''b'', 50000, 6, [])]) (dec4 30000))
   = map to_draw [(''a'', 20000, 5), (''b'', 10000, 6)]"
  using planConsumption_exact
    [of 30000 "[(''a'', 20000, 5, []), (''b'', 50000, 6, [])]"]
  by (simp add: small4_def)

end
