(* ===== verification/Replay.thy ===== *)
theory Replay
  imports Consumption
begin

text \<open>
  \<open>inventory/costing_replay.go\<close>: the pure recomputation of balances, per-movement costs and cost
  layers from a chronological movement list. It is shown to implement a queue of integer layers:
  a receipt appends a layer, an issue removes stock from the front (FIFO) or the back (LIFO), and
  the balance it reports is the exact net of the movements.
\<close>

section \<open>The replay (costing_replay.go)\<close>

definition dirIn :: string where "dirIn = ''in''"
definition dirOut :: string where "dirOut = ''out''"

lemmas direction_names = dirIn_def dirOut_def

lemma dirIn_neq_dirOut [simp]: "dirIn \<noteq> dirOut" "dirOut \<noteq> dirIn"
  by (simp_all add: direction_names)

record ReplayMovement =
  rm_id :: string
  rm_direction :: string
  rm_qty :: f64
  rm_cost :: f64

record ReplaySnapshot =
  rs_id :: string
  rs_total :: f64
  rs_unit :: f64
  rs_qty :: f64
  rs_avg :: f64

record ReplayLayer =
  rl_source :: string
  rl_qty :: f64
  rl_cost :: f64

record ReplayResult =
  rr_snaps :: "ReplaySnapshot list"
  rr_layers :: "ReplayLayer list"
  rr_onhand :: f64
  rr_avg :: f64
  rr_total :: f64

definition orderLayersForReplay :: "Layer list \<Rightarrow> string \<Rightarrow> Layer list" where
  "orderLayersForReplay layers meth =
     (if meth = CostingLIFO then [l \<leftarrow> rev layers. l_qty l > epsilon]
      else [l \<leftarrow> layers. l_qty l > epsilon])"

text \<open>The inner loop breaks at the first layer with the draw's identifier.\<close>

fun sub_layer :: "LayerConsumption \<Rightarrow> Layer list \<Rightarrow> Layer list" where
  "sub_layer d [] = []"
| "sub_layer d (l # ls) =
     (if l_id l = d_layer d then l\<lparr>l_qty := round4 (fl (l_qty l - d_qty d))\<rparr> # ls
      else l # sub_layer d ls)"

definition applyDrawsToLayers :: "Layer list \<Rightarrow> LayerConsumption list \<Rightarrow> Layer list" where
  "applyDrawsToLayers layers draws = fold sub_layer draws layers"

definition replay_step ::
  "string \<Rightarrow> ReplayMovement \<Rightarrow> BalanceState \<times> Layer list \<times> ReplaySnapshot list
     \<Rightarrow> BalanceState \<times> Layer list \<times> ReplaySnapshot list"
where
  "replay_step meth m st = (case st of (bal, layers, snaps) \<Rightarrow>
     if rm_qty m \<le> epsilon then (bal, layers, snaps)
     else if rm_direction m = dirIn then
       let cost = round4 (fl (rm_qty m * rm_cost m));
           bal' = applyIn bal (rm_qty m) (rm_cost m);
           layers' = (if meth \<noteq> CostingAverage
                      then layers @ [\<lparr>l_id = rm_id m, l_qty = rm_qty m, l_cost = rm_cost m, l_batch = []\<rparr>]
                      else layers)
       in (bal', layers', snaps @ [\<lparr>rs_id = rm_id m, rs_total = cost, rs_unit = rm_cost m,
                                     rs_qty = OnHand bal', rs_avg = AvgCost bal'\<rparr>])
     else
       let (cost, layers') =
             (if meth = CostingAverage then (issueCostAverage (AvgCost bal) (rm_qty m), layers)
              else case planConsumption (orderLayersForReplay layers meth) (rm_qty m) of
                     (draws, layerCost, shortfall) \<Rightarrow>
                       (if shortfall > epsilon
                          then round4 (fl (layerCost + fl (shortfall * AvgCost bal)))
                          else layerCost,
                        applyDrawsToLayers layers draws));
           bal' = applyOut bal (rm_qty m) cost
       in (bal', layers', snaps @ [\<lparr>rs_id = rm_id m, rs_total = cost,
                                     rs_unit = weightedUnitCost cost (rm_qty m),
                                     rs_qty = OnHand bal', rs_avg = AvgCost bal'\<rparr>]))"

definition replayMovements :: "ReplayMovement list \<Rightarrow> string \<Rightarrow> ReplayResult" where
  "replayMovements movs meth =
     (case fold (replay_step meth) movs (zero_balance, [], []) of
        (bal, layers, snaps) \<Rightarrow>
          \<lparr>rr_snaps = snaps,
           rr_layers = [\<lparr>rl_source = l_id l, rl_qty = round4 (l_qty l), rl_cost = l_cost l\<rparr>.
                          l \<leftarrow> layers, l_qty l > epsilon],
           rr_onhand = OnHand bal, rr_avg = AvgCost bal, rr_total = TotalValue bal\<rparr>)"

section \<open>The specification: a queue of integer layers\<close>

type_synonym imov = "string \<times> string \<times> int \<times> f64"

definition to_mov :: "imov \<Rightarrow> ReplayMovement" where
  "to_mov m = (case m of (i, d, n, c) \<Rightarrow> \<lparr>rm_id = i, rm_direction = d, rm_qty = dec4 n, rm_cost = c\<rparr>)"

definition to_rlayer :: "ilayer \<Rightarrow> ReplayLayer" where
  "to_rlayer l = (case l of (i, a, c, b) \<Rightarrow> \<lparr>rl_source = i, rl_qty = dec4 a, rl_cost = c\<rparr>)"

text \<open>Remove \<open>q\<close> ten-thousandths from the front.\<close>

fun drop_front :: "int \<Rightarrow> ilayer list \<Rightarrow> ilayer list" where
  "drop_front q [] = []"
| "drop_front q ((i, a, c, b) # ls) =
     (if q \<le> 0 then (i, a, c, b) # ls
      else if a \<le> q then drop_front (q - a) ls
      else (i, a - q, c, b) # ls)"

fun queue_step :: "string \<Rightarrow> imov \<Rightarrow> ilayer list \<Rightarrow> ilayer list" where
  "queue_step meth (i, d, n, c) ls =
     (if n \<le> 0 then ls
      else if d = dirIn then ls @ [(i, n, c, [])]
      else if meth = CostingLIFO then rev (drop_front n (rev ls))
      else drop_front n ls)"

text \<open>What a movement adds to the balance.\<close>

fun signed_qty :: "imov \<Rightarrow> int" where
  "signed_qty (i, d, n, c) = (if n \<le> 0 then 0 else if d = dirIn then n else - n)"

definition net_qty :: "imov list \<Rightarrow> int" where
  "net_qty ms = sum_list (map signed_qty ms)"

lemma net_qty_simps [simp]:
  "net_qty [] = 0" "net_qty (m # ms) = signed_qty m + net_qty ms" "net_qty (xs @ ys) = net_qty xs + net_qty ys"
  by (simp_all add: net_qty_def)

text \<open>The balance after every movement that counts.\<close>

fun running :: "int \<Rightarrow> imov list \<Rightarrow> int list" where
  "running s [] = []"
| "running s ((i, d, n, c) # ms) =
     (if n \<le> 0 then running s ms
      else (s + signed_qty (i, d, n, c)) # running (s + signed_qty (i, d, n, c)) ms)"

text \<open>
  Movements whose quantities and number keep every sum below \<open>2 ^ 44\<close> ten-thousandths, with the
  distinct identifiers of a primary key.
\<close>

definition movs_ok :: "int \<Rightarrow> imov list \<Rightarrow> bool" where
  "movs_ok Q ms \<longleftrightarrow> distinct (map fst ms) \<and> (\<forall>(i, d, n, c)\<in>set ms. \<bar>n\<bar> \<le> Q)
     \<and> 0 \<le> Q \<and> (int (length ms) + 1) * (Q + 1) \<le> 2 ^ 44"

section \<open>Draws on integer layers\<close>

fun isub :: "string \<times> int \<times> f64 \<Rightarrow> ilayer list \<Rightarrow> ilayer list" where
  "isub d [] = []"
| "isub d ((i, a, c, b) # ls) = (if i = fst d then (i, a - fst (snd d), c, b) # ls else (i, a, c, b) # isub d ls)"

definition drawn :: "(string \<times> int \<times> f64) list \<Rightarrow> string \<Rightarrow> int" where
  "drawn ds i = sum_list [n. (j, n, c) \<leftarrow> ds, j = i]"

definition undraw :: "(string \<times> int \<times> f64) list \<Rightarrow> ilayer \<Rightarrow> ilayer" where
  "undraw ds l = (case l of (i, a, c, b) \<Rightarrow> (i, a - drawn ds i, c, b))"

definition has_stock :: "ilayer \<Rightarrow> bool" where
  "has_stock l = (0 < fst (snd l))"

lemma has_stock_eq [simp]: "has_stock (i, a, c, b) \<longleftrightarrow> 0 < a"
  by (simp add: has_stock_def)

lemma drawn_Nil [simp]: "drawn [] i = 0"
  by (simp add: drawn_def)

lemma drawn_Cons [simp]: "drawn ((j, n, c) # ds) i = (if j = i then n else 0) + drawn ds i"
  by (simp add: drawn_def)

lemma undraw_eq [simp]: "undraw ds (i, a, c, b) = (i, a - drawn ds i, c, b)"
  by (simp add: undraw_def)

lemma fst_isub: "map fst (isub d ls) = map fst ls"
  by (induction d ls rule: isub.induct) auto

lemma isub_notin: "fst d \<notin> fst ` set ls \<Longrightarrow> isub d ls = ls"
  by (induction d ls rule: isub.induct) auto

lemma undraw_single_notin: "i \<notin> fst ` set ls \<Longrightarrow> map (undraw [(i, n, c)]) ls = ls"
  by (induction ls) (auto simp: undraw_def)

lemma isub_undraw: "distinct (map fst ls) \<Longrightarrow> isub d ls = map (undraw [d]) ls"
proof (induction d ls rule: isub.induct)
  case (2 d i a c b ls)
  then show ?case by (cases d) (auto simp: undraw_single_notin)
qed simp

lemma undraw_undraw: "undraw ds (undraw [d] l) = undraw (d # ds) l"
  by (cases d; cases l) (simp add: drawn_def)

lemma fold_isub: "distinct (map fst ls) \<Longrightarrow> fold isub ds ls = map (undraw ds) ls"
proof (induction ds arbitrary: ls)
  case Nil
  then show ?case by (auto simp: undraw_def intro!: map_idI[symmetric])
next
  case (Cons d ds)
  have "distinct (map fst (isub d ls))" using Cons.prems by (simp only: fst_isub)
  then have "fold isub (d # ds) ls = map (undraw ds) (isub d ls)" by (simp add: Cons.IH)
  also have "\<dots> = map (undraw (d # ds)) ls"
    by (simp add: isub_undraw[OF Cons.prems] undraw_undraw)
  finally show ?case .
qed

lemma drawn_notin: "i \<notin> fst ` set ls \<Longrightarrow> drawn (spec_draws ls q) i = 0"
  by (induction ls q rule: spec_draws.induct) auto

lemma drawn_bounds: "0 \<le> drawn (spec_draws ls q) i"
  by (induction ls q rule: spec_draws.induct) auto

lemma map_undraw_Cons_notin:
  "i \<notin> fst ` set ls \<Longrightarrow> map (undraw ((i, n, c) # ds)) ls = map (undraw ds) ls"
  by (induction ls) (auto simp: undraw_def)

lemma undraw_Nil [simp]: "undraw [] l = l"
  by (cases l) simp

lemma filter_undraw_drop_front:
  "distinct (map fst ls) \<Longrightarrow> \<forall>l\<in>set ls. has_stock l
    \<Longrightarrow> filter has_stock (map (undraw (spec_draws ls q)) ls) = drop_front q ls"
proof (induction ls q rule: spec_draws.induct)
  case (2 i a c b ls q)
  show ?case
  proof (cases "q \<le> 0")
    case True
    then show ?thesis using 2 by (simp add: filter_id_conv)
  next
    case False
    with 2 have "filter has_stock (map (undraw (spec_draws ls (q - min a q))) ls)
        = drop_front (q - min a q) ls" by auto
    moreover have "drop_front (q - q) ls = ls" by (cases ls) auto
    ultimately show ?thesis
      using False 2 by (auto simp: map_undraw_Cons_notin drawn_notin min_def)
  qed
qed simp

text \<open>A draw plan made on the layers with stock, in either order, leaves the others alone.\<close>

lemma undraw_others:
  "filter has_stock (map (undraw (spec_draws L q)) ls)
     = filter has_stock (map (undraw (spec_draws L q)) (filter has_stock ls))"
proof -
  have "has_stock (undraw (spec_draws L q) l) \<Longrightarrow> has_stock l" for l
    using drawn_bounds[of L q "fst l"] by (cases l) simp
  then show ?thesis by (simp add: filter_map comp_def) metis
qed

lemma queue_issue:
  assumes "distinct (map fst ls)"
    and L_def: "L = (if meth = CostingLIFO then rev (filter has_stock ls) else filter has_stock ls)"
  shows "filter has_stock (map (undraw (spec_draws L q)) ls)
       = (if meth = CostingLIFO then rev (drop_front q (rev (filter has_stock ls)))
          else drop_front q (filter has_stock ls))"
proof -
  let ?u = "undraw (spec_draws L q)"
  have d: "distinct (map fst (filter has_stock ls))" using assms(1) by (rule distinct_map_filter)
  have L: "distinct (map fst L)" "\<forall>l\<in>set L. has_stock l"
    using d by (auto simp: L_def rev_map[symmetric])
  have "filter has_stock (map ?u L) = drop_front q L"
    by (rule filter_undraw_drop_front[OF L])
  moreover have "filter has_stock (map ?u ls) = filter has_stock (map ?u (filter has_stock ls))"
    by (rule undraw_others)
  ultimately show ?thesis
    by (simp add: L_def rev_map[symmetric] rev_filter[symmetric] rev_swap split: if_splits)
qed

lemma drawn_le:
  "distinct (map fst L) \<Longrightarrow> (i, a, c, b) \<in> set L \<Longrightarrow> 0 \<le> a \<Longrightarrow> drawn (spec_draws L q) i \<le> a"
proof (induction L q rule: spec_draws.induct)
  case (2 j a' c' b' ls q)
  then show ?case by (auto simp: drawn_notin min_def) (force simp: drawn_notin image_iff)+
qed simp

section \<open>The float64 layers refine the integer layers\<close>

lemma sub_layer_to_layer:
  "\<forall>l\<in>set ls. small4 (fst (snd l)) \<Longrightarrow> small4 (fst (snd d))
    \<Longrightarrow> sub_layer (to_draw d) (map to_layer ls) = map to_layer (isub d ls)"
proof (induction d ls rule: isub.induct)
  case (2 d i a c b ls)
  then show ?case by (cases d) (auto simp: round4_sub)
qed simp

definition draw_sum :: "(string \<times> int \<times> f64) list \<Rightarrow> int" where
  "draw_sum ds = (\<Sum>(i, n, c)\<leftarrow>ds. n)"

lemma draw_sum_simps [simp]: "draw_sum [] = 0" "draw_sum ((i, n, c) # ds) = n + draw_sum ds"
  by (simp_all add: draw_sum_def)

lemma draw_sum_nonneg: "\<forall>(i, n, c)\<in>set ds. 0 \<le> n \<Longrightarrow> 0 \<le> draw_sum ds"
  by (induction ds) auto

lemma applyDraws_refines:
  "\<forall>(i, n, c)\<in>set ds. 0 \<le> n \<Longrightarrow> \<forall>(i, a, c, b)\<in>set ls. \<bar>a\<bar> \<le> A \<Longrightarrow> 0 \<le> A
    \<Longrightarrow> A + draw_sum ds \<le> 2 ^ 44
    \<Longrightarrow> applyDrawsToLayers (map to_layer ls) (map to_draw ds) = map to_layer (fold isub ds ls)"
proof (induction ds arbitrary: ls A)
  case Nil
  then show ?case by (simp add: applyDrawsToLayers_def)
next
  case (Cons d ds)
  obtain i n c where d: "d = (i, n, c)" by (cases d) auto
  have n: "0 \<le> n" and ds: "\<forall>(i, n, c)\<in>set ds. 0 \<le> n" using Cons.prems(1) d by auto
  have s: "0 \<le> draw_sum ds" by (rule draw_sum_nonneg[OF ds])
  have "\<forall>l\<in>set ls. small4 (fst (snd l))" "small4 (fst (snd d))"
    using Cons.prems(2-4) n s d by (auto simp: small4_def)
  note step = sub_layer_to_layer[OF this]
  have "\<forall>(i, a, c, b)\<in>set (isub d ls). \<bar>a\<bar> \<le> A + n"
    using Cons.prems(2) n d
    by (induction d ls rule: isub.induct) (auto split: if_splits intro: order_trans[OF abs_triangle_ineq4])
  with ds have "applyDrawsToLayers (map to_layer (isub d ls)) (map to_draw ds)
      = map to_layer (fold isub ds (isub d ls))"
    using Cons.prems(3,4) n d by (intro Cons.IH[where A = "A + n"]) auto
  then show ?case by (simp add: applyDrawsToLayers_def step)
qed

lemma order_refines:
  assumes "\<forall>l\<in>set ls. small4 (fst (snd l))"
  shows "orderLayersForReplay (map to_layer ls) meth
       = map to_layer (if meth = CostingLIFO then rev (filter has_stock ls) else filter has_stock ls)"
proof -
  have f: "[l \<leftarrow> map to_layer xs. l_qty l > epsilon] = map to_layer (filter has_stock xs)"
    if "\<forall>l\<in>set xs. small4 (fst (snd l))" for xs
    using that by (induction xs) (auto simp: dec4_le_epsilon has_stock_def to_layer_def not_le[symmetric])
  show ?thesis
    using f[OF assms] f[of "rev ls"] assms by (simp add: orderLayersForReplay_def rev_map rev_filter)
qed

text \<open>The layers after one issue.\<close>

lemma issue_refines:
  assumes ls: "distinct (map fst ls)" "\<forall>(i, a, c, b)\<in>set ls. 0 \<le> a \<and> a \<le> Q"
    and q: "0 < q" "q \<le> Q" and bound: "(int (length ls) + 2) * (Q + 1) \<le> 2 ^ 44"
    and plan: "planConsumption (orderLayersForReplay (map to_layer ls) meth) (dec4 q)
       = (draws, cost, short)"
  obtains ls' where "applyDrawsToLayers (map to_layer ls) draws = map to_layer ls'"
    "map fst ls' = map fst ls" "\<forall>(i, a, c, b)\<in>set ls'. 0 \<le> a \<and> a \<le> Q"
    "filter has_stock ls' = (if meth = CostingLIFO then rev (drop_front q (rev (filter has_stock ls)))
          else drop_front q (filter has_stock ls))"
proof -
  define L where "L = (if meth = CostingLIFO then rev (filter has_stock ls) else filter has_stock ls)"
  let ?ds = "spec_draws L q"
  have Q: "0 \<le> Q" using q by simp
  have "2 * (Q + 1) \<le> (int (length ls) + 2) * (Q + 1)" using Q by (intro mult_right_mono) auto
  then have Q2: "Q + Q \<le> 2 ^ 44" using bound by simp
  have small: "\<forall>l\<in>set ls. small4 (fst (snd l))" using ls(2) Q2 Q by (auto simp: small4_def)
  have len: "length L \<le> length ls" by (simp add: L_def)
  have setL: "set L = {l \<in> set ls. has_stock l}" by (auto simp: L_def)
  have dL: "distinct (map fst L)" using distinct_map_filter[OF ls(1)] by (auto simp: L_def rev_map[symmetric])
  have "(int (length L) + 1) * (q + 1) \<le> (int (length ls) + 2) * (Q + 1)"
    using len q by (intro mult_mono) auto
  then have b: "(int (length L) + 1) * (q + 1) \<le> 2 ^ 44" using bound by simp
  have sL: "\<forall>l\<in>set L. small4 (fst (snd l))" using small by (auto simp: L_def)
  obtain cost' where "planConsumption (map to_layer L) (dec4 q)
      = (map to_draw ?ds, cost', dec4 (spec_short L q))"
    using q planConsumption_refines[OF _ b sL] by (metis less_imp_le)
  then have draws: "draws = map to_draw ?ds"
    using plan unfolding order_refines[OF small] L_def[symmetric] by simp
  have pos: "\<forall>(i, n, c)\<in>set ?ds. 0 \<le> n" using spec_draws_bounds by fastforce
  have "draw_sum ?ds \<le> q"
    using spec_draws_sum[of q L] spec_short_nonneg[of q L] q by (simp add: draw_sum_def)
  then have "applyDrawsToLayers (map to_layer ls) draws = map to_layer (fold isub ?ds ls)"
    unfolding draws using ls(2) Q2 q by (intro applyDraws_refines[OF pos, where A = Q]) auto
  moreover have "fold isub ?ds ls = map (undraw ?ds) ls" by (rule fold_isub[OF ls(1)])
  moreover have "0 \<le> a - drawn ?ds i \<and> a - drawn ?ds i \<le> Q" if "(i, a, c, b) \<in> set ls" for i a c b
  proof -
    have a: "0 \<le> a" "a \<le> Q" using ls(2) that by auto
    have "drawn ?ds i \<le> a"
    proof (cases "(i, a, c, b) \<in> set L")
      case True
      then show ?thesis using drawn_le[OF dL] a by blast
    next
      case False
      then have "\<not> has_stock (i, a, c, b)" using that by (simp only: setL mem_Collect_eq) simp
      then have "\<not> has_stock l" if "l \<in> set ls" "fst l = i" for l
        using \<open>(i, a, c, b) \<in> set ls\<close> that eq_key_imp_eq_value[OF ls(1)] by (metis prod.collapse)
      then have "i \<notin> fst ` set L" unfolding setL by blast
      then show ?thesis using a by (simp add: drawn_notin)
    qed
    then show ?thesis using drawn_bounds[of L q i] a by simp
  qed
  ultimately show ?thesis
    using that[of "map (undraw ?ds) ls"] queue_issue[OF ls(1) L_def, of q]
    by (force simp: undraw_def comp_def case_prod_beta)
qed

section \<open>Simulation\<close>

lemma applyIn_onhand:
  "small4 m \<Longrightarrow> small4 n \<Longrightarrow> OnHand b = dec4 m \<Longrightarrow> OnHand (applyIn b (dec4 n) c) = dec4 (m + n)"
  by (simp add: applyIn_def Let_def round4_add)

lemma applyOut_onhand:
  "small4 m \<Longrightarrow> small4 n \<Longrightarrow> OnHand b = dec4 m \<Longrightarrow> OnHand (applyOut b (dec4 n) c) = dec4 (m - n)"
  by (simp add: applyOut_def Let_def round4_sub)

text \<open>The balance of the replay, under every costing method.\<close>

lemma replay_step_onhand:
  assumes st: "OnHand (fst st) = dec4 oh" and small: "small4 oh" "small4 n"
    and m: "m = (i, d, n, c)"
  shows "OnHand (fst (replay_step meth (to_mov m) st)) = dec4 (oh + signed_qty m)
    \<and> map rs_qty (snd (snd (replay_step meth (to_mov m) st)))
      = map rs_qty (snd (snd st)) @ map dec4 (running oh [m])"
proof -
  obtain bal layers snaps where s: "st = (bal, layers, snaps)" by (cases st) auto
  have bal: "OnHand bal = dec4 oh" using st s by simp
  note on = applyIn_onhand[OF small bal] applyOut_onhand[OF small bal]
  consider "n \<le> 0" | "0 < n" "d = dirIn" | "0 < n" "d \<noteq> dirIn" by linarith
  then show ?thesis
  proof cases
    case 1
    then show ?thesis using bal dec4_le_epsilon[OF small(2)] by (simp add: s m replay_step_def to_mov_def)
  next
    case 2
    then show ?thesis
      using on dec4_le_epsilon[OF small(2)] by (simp add: s m replay_step_def to_mov_def Let_def)
  next
    case 3
    then show ?thesis
      using on dec4_le_epsilon[OF small(2)]
      by (simp add: s m replay_step_def to_mov_def Let_def split: prod.splits)
  qed
qed

lemma running_append: "running s (xs @ ys) = running s xs @ running (s + net_qty xs) ys"
  by (induction s xs rule: running.induct) (auto simp: add.assoc)

lemma fold_replay_onhand:
  assumes "0 \<le> Q" "\<forall>(i, d, n, c)\<in>set ms. \<bar>n\<bar> \<le> Q" "(int (length ms) + 1) * (Q + 1) \<le> 2 ^ 44"
  shows "OnHand (fst (fold (replay_step meth) (map to_mov ms) (zero_balance, [], []))) = dec4 (net_qty ms)
    \<and> map rs_qty (snd (snd (fold (replay_step meth) (map to_mov ms) (zero_balance, [], []))))
      = map dec4 (running 0 ms)
    \<and> \<bar>net_qty ms\<bar> \<le> int (length ms) * Q"
  using assms(2,3)
proof (induction ms rule: rev_induct)
  case Nil
  then show ?case by (simp add: zero_balance_def)
next
  case (snoc m ms)
  obtain i d n c where m: "m = (i, d, n, c)" by (cases m) auto
  have n: "\<bar>n\<bar> \<le> Q" using snoc.prems(1) m by auto
  have "(int (length ms) + 1) * (Q + 1) \<le> (int (length (ms @ [m])) + 1) * (Q + 1)"
    using assms(1) by (intro mult_right_mono) auto
  with snoc have IH: "OnHand (fst (fold (replay_step meth) (map to_mov ms) (zero_balance, [], []))) = dec4 (net_qty ms)"
    "map rs_qty (snd (snd (fold (replay_step meth) (map to_mov ms) (zero_balance, [], [])))) = map dec4 (running 0 ms)"
    "\<bar>net_qty ms\<bar> \<le> int (length ms) * Q" by auto
  have "int (length ms) * Q + Q \<le> (int (length (ms @ [m])) + 1) * (Q + 1)"
    using assms(1) by (simp add: algebra_simps)
  then have b: "int (length ms) * Q + Q \<le> 2 ^ 44" using snoc.prems(2) by linarith
  then have "small4 (net_qty ms)" "small4 n" using IH(3) n assms(1)
    by (auto simp: small4_def intro: order_trans)
  then have "OnHand (fst (replay_step meth (to_mov m)
        (fold (replay_step meth) (map to_mov ms) (zero_balance, [], [])))) = dec4 (net_qty ms + signed_qty m)
    \<and> map rs_qty (snd (snd (replay_step meth (to_mov m)
        (fold (replay_step meth) (map to_mov ms) (zero_balance, [], [])))))
      = map dec4 (running 0 ms) @ map dec4 (running (net_qty ms) [m])"
    using replay_step_onhand[OF IH(1) _ _ m] IH(2) by metis
  moreover have "\<bar>net_qty ms + signed_qty m\<bar> \<le> int (length ms) * Q + Q"
    using IH(3) n by (auto simp: m)
  ultimately show ?case by (simp add: running_append distrib_right)
qed

text \<open>The layers of the replay.\<close>

definition layers_sim :: "int \<Rightarrow> nat \<Rightarrow> string set \<Rightarrow> Layer list \<Rightarrow> ilayer list \<Rightarrow> bool" where
  "layers_sim Q k ids layers P \<longleftrightarrow> (\<exists>ls. layers = map to_layer ls \<and> filter has_stock ls = P
     \<and> distinct (map fst ls) \<and> fst ` set ls \<subseteq> ids \<and> length ls \<le> k
     \<and> (\<forall>(i, a, c, b)\<in>set ls. 0 \<le> a \<and> a \<le> Q))"

lemma layers_sim_mono: "layers_sim Q k ids layers P \<Longrightarrow> layers_sim Q (Suc k) (insert i ids) layers P"
  unfolding layers_sim_def by (elim exE, rule exI) auto

lemma replay_step_layers:
  assumes sim: "layers_sim Q k ids (fst (snd st)) P" and m: "m = (i, d, n, c)"
    and n: "\<bar>n\<bar> \<le> Q" and i: "i \<notin> ids" and bound: "(int k + 2) * (Q + 1) \<le> 2 ^ 44"
    and meth: "meth \<noteq> CostingAverage"
  shows "layers_sim Q (Suc k) (insert i ids) (fst (snd (replay_step meth (to_mov m) st)))
    (queue_step meth m P)"
proof -
  obtain bal layers snaps where s: "st = (bal, layers, snaps)" by (cases st) auto
  obtain ls where ls: "layers = map to_layer ls" "filter has_stock ls = P" "distinct (map fst ls)"
      "fst ` set ls \<subseteq> ids" "length ls \<le> k" "\<forall>(i, a, c, b)\<in>set ls. 0 \<le> a \<and> a \<le> Q"
    using sim by (auto simp: layers_sim_def s)
  have "(int (length ls) + 2) * (Q + 1) \<le> (int k + 2) * (Q + 1)"
    using ls(5) n by (intro mult_right_mono) auto
  then have b: "(int (length ls) + 2) * (Q + 1) \<le> 2 ^ 44" using bound by linarith
  have "2 * (Q + 1) \<le> (int k + 2) * (Q + 1)" using n by (intro mult_right_mono) auto
  then have "small4 n" using n bound by (simp add: small4_def)
  note eps = dec4_le_epsilon[OF this]
  consider "n \<le> 0" | "0 < n" "d = dirIn" | "0 < n" "d \<noteq> dirIn" by linarith
  then show ?thesis
  proof cases
    case 1
    then show ?thesis
      using eps sim layers_sim_mono by (simp add: s m replay_step_def to_mov_def)
  next
    case 2
    then show ?thesis
      using eps meth ls n i unfolding layers_sim_def
      by (intro exI[of _ "ls @ [(i, n, c, [])]"]) (auto simp: s m replay_step_def to_mov_def Let_def)
  next
    case 3
    obtain draws cost short where plan:
      "planConsumption (orderLayersForReplay (map to_layer ls) meth) (dec4 n) = (draws, cost, short)"
      by (metis prod_cases3)
    have "n \<le> Q" using n by simp
    obtain ls' where ls': "applyDrawsToLayers (map to_layer ls) draws = map to_layer ls'"
      "map fst ls' = map fst ls" "\<forall>(i, a, c, b)\<in>set ls'. 0 \<le> a \<and> a \<le> Q"
      "filter has_stock ls' = queue_step meth m P"
      using issue_refines[OF ls(3,6) 3(1) \<open>n \<le> Q\<close> b plan] 3 ls(2) m by (auto split: if_splits)
    have "fst ` set ls' = fst ` set ls" "length ls' = length ls"
      using ls'(2) by (metis image_set, metis length_map)
    then have "layers_sim Q (Suc k) (insert i ids) (map to_layer ls') (queue_step meth m P)"
      unfolding layers_sim_def using ls' ls(3,4,5) by (intro exI[of _ ls']) auto
    moreover have "fst (snd (replay_step meth (to_mov m) st)) = map to_layer ls'"
      using 3 eps meth plan ls'(1) by (simp add: s m ls(1) replay_step_def to_mov_def Let_def)
    ultimately show ?thesis by simp
  qed
qed

lemma fold_replay_layers:
  assumes "0 \<le> Q" "meth \<noteq> CostingAverage" "distinct (map fst ms)"
    "\<forall>(i, d, n, c)\<in>set ms. \<bar>n\<bar> \<le> Q" "(int (length ms) + 1) * (Q + 1) \<le> 2 ^ 44"
  shows "layers_sim Q (length ms) (fst ` set ms)
      (fst (snd (fold (replay_step meth) (map to_mov ms) (zero_balance, [], []))))
      (fold (queue_step meth) ms [])"
  using assms(3-5)
proof (induction ms rule: rev_induct)
  case Nil
  then show ?case by (simp add: layers_sim_def)
next
  case (snoc m ms)
  obtain i d n c where m: "m = (i, d, n, c)" by (cases m) auto
  have "(int (length ms) + 1) * (Q + 1) \<le> (int (length (ms @ [m])) + 1) * (Q + 1)"
    using assms(1) by (intro mult_right_mono) auto
  with snoc have "layers_sim Q (length ms) (fst ` set ms)
      (fst (snd (fold (replay_step meth) (map to_mov ms) (zero_balance, [], []))))
      (fold (queue_step meth) ms [])" by auto
  from replay_step_layers[OF this m _ _ _ assms(2)] snoc.prems
  have "layers_sim Q (Suc (length ms)) (insert i (fst ` set ms))
     (fst (snd (replay_step meth (to_mov m)
        (fold (replay_step meth) (map to_mov ms) (zero_balance, [], [])))))
     (queue_step meth m (fold (queue_step meth) ms []))"
    by (auto simp: m add.commute simp del: queue_step.simps)
  then show ?case by (simp add: m del: queue_step.simps)
qed

lemma replay_layers_refines:
  assumes "movs_ok Q ms" "meth \<noteq> CostingAverage"
  shows "rr_layers (replayMovements (map to_mov ms) meth)
       = map to_rlayer (fold (queue_step meth) ms [])"
proof -
  let ?st = "fold (replay_step meth) (map to_mov ms) (zero_balance, [], [])"
  obtain ls where ls: "fst (snd ?st) = map to_layer ls" "filter has_stock ls = fold (queue_step meth) ms []"
      "\<forall>(i, a, c, b)\<in>set ls. 0 \<le> a \<and> a \<le> Q"
    using fold_replay_layers[OF _ assms(2), of Q ms] assms(1) by (auto simp: movs_ok_def layers_sim_def)
  have "1 * (Q + 1) \<le> (int (length ms) + 1) * (Q + 1)"
    using assms(1) by (intro mult_right_mono) (auto simp: movs_ok_def)
  also have "\<dots> \<le> 2 ^ 44" using assms(1) by (simp add: movs_ok_def)
  finally have "Q \<le> 2 ^ 44" by simp
  then have small: "\<forall>(i, a, c, b)\<in>set ls. small4 a" using ls(3) by (auto simp: small4_def)
  have "[\<lparr>rl_source = l_id l, rl_qty = round4 (l_qty l), rl_cost = l_cost l\<rparr>.
           l \<leftarrow> map to_layer ls, l_qty l > epsilon] = map to_rlayer (filter has_stock ls)"
    using small by (induction ls) (auto simp: to_rlayer_def dec4_le_epsilon not_le[symmetric])
  then show ?thesis using ls(1,2) by (auto simp: replayMovements_def split: prod.splits)
qed

section \<open>Layer stock against the balance\<close>

lemma stock_of_append [simp]: "stock_of (xs @ ys) = stock_of xs + stock_of ys"
  by (simp add: stock_of_def)

lemma stock_of_rev [simp]: "stock_of (rev xs) = stock_of xs"
  by (induction xs) (auto simp: stock_of_def)

lemma drop_front_stocked: "\<forall>l\<in>set ls. has_stock l \<Longrightarrow> \<forall>l\<in>set (drop_front q ls). has_stock l"
  by (induction q ls rule: drop_front.induct) auto

lemma stock_drop_front:
  "\<forall>l\<in>set ls. has_stock l \<Longrightarrow> 0 \<le> q \<Longrightarrow> stock_of (drop_front q ls) = max 0 (stock_of ls - q)"
proof (induction q ls rule: drop_front.induct)
  case (2 q i a c b ls)
  then show ?case using stock_of_nonneg[of ls] by (auto simp: max_def)
qed simp

lemma queue_step_stocked:
  "\<forall>l\<in>set ls. has_stock l \<Longrightarrow> \<forall>l\<in>set (queue_step meth m ls). has_stock l"
  using drop_front_stocked[of ls] drop_front_stocked[of "rev ls"] by (cases m) auto

lemma queue_step_covered:
  assumes "\<forall>l\<in>set ls. has_stock l" "0 \<le> stock_of ls + signed_qty m"
  shows "stock_of (queue_step meth m ls) = stock_of ls + signed_qty m"
  using assms stock_drop_front[of ls] stock_drop_front[of "rev ls"] by (cases m) auto

lemma fold_queue_covered:
  "\<forall>k\<le>length ms. 0 \<le> net_qty (take k ms) \<Longrightarrow>
     (\<forall>l\<in>set (fold (queue_step meth) ms []). has_stock l)
     \<and> stock_of (fold (queue_step meth) ms []) = net_qty ms"
proof (induction ms rule: rev_induct)
  case Nil
  then show ?case by simp
next
  case (snoc m ms)
  have "\<forall>k\<le>length ms. 0 \<le> net_qty (take k ms)"
    using snoc.prems by (metis append_Nil2 diff_is_0_eq le_SucI length_append_singleton take_0 take_append)
  with snoc.IH have IH: "\<forall>l\<in>set (fold (queue_step meth) ms []). has_stock l"
    "stock_of (fold (queue_step meth) ms []) = net_qty ms" by auto
  have "0 \<le> net_qty ms + signed_qty m"
    using snoc.prems[rule_format, of "length (ms @ [m])"] by simp
  then show ?case
    using queue_step_stocked[OF IH(1)] queue_step_covered[OF IH(1), of m meth] IH(2) by simp
qed

section \<open>Properties\<close>

text \<open>
  Whatever the costing method, replaying a ledger reports as its balance exactly the receipts
  minus the issues, and the balance stored with every movement is exactly the net of the movements
  up to it; zero and negative quantities count for nothing.
\<close>

theorem replay_net:
  assumes "movs_ok Q ms"
  shows "rr_onhand (replayMovements (map to_mov ms) meth) = dec4 (net_qty ms)
    \<and> map rs_qty (rr_snaps (replayMovements (map to_mov ms) meth)) = map dec4 (running 0 ms)"
  using fold_replay_onhand[of Q ms meth] assms
  by (auto simp: movs_ok_def replayMovements_def split: prod.splits)

theorem replay_net_witness:
  "rr_onhand (replayMovements (map to_mov [(''a'', dirIn, 50000, 3), (''b'', dirOut, 20000, 0)]) CostingFIFO)
     = dec4 30000"
  using replay_net[of 50000 "[(''a'', dirIn, 50000, 3), (''b'', dirOut, 20000, 0)]" CostingFIFO]
  by (simp add: movs_ok_def)

text \<open>
  C35: Under FIFO and LIFO the layers a replay leaves are those of a queue of receipts: an issue
  takes the oldest stock first (FIFO) or the newest first (LIFO), a partly used layer keeps its
  identifier and cost, and used-up layers are gone.
\<close>

theorem replay_queue:
  assumes "movs_ok Q ms" "meth \<noteq> CostingAverage"
  shows "rr_layers (replayMovements (map to_mov ms) meth)
       = map to_rlayer (fold (queue_step meth) ms [])"
  using assms by (rule replay_layers_refines)

theorem replay_queue_witness:
  "rr_layers (replayMovements (map to_mov
      [(''a'', dirIn, 50000, 3), (''b'', dirIn, 40000, 4), (''c'', dirOut, 60000, 0)]) CostingFIFO)
   = map to_rlayer [(''b'', 30000, 4, [])]"
  using replay_queue[of 60000
    "[(''a'', dirIn, 50000, 3), (''b'', dirIn, 40000, 4), (''c'', dirOut, 60000, 0)]" CostingFIFO]
  by (simp add: movs_ok_def costing_names)

text \<open>
  As long as no issue oversells, the cost layers a replay leaves hold together exactly the
  balance it reports.
\<close>

theorem replay_layers_cover:
  assumes "movs_ok Q ms" "meth \<noteq> CostingAverage" "\<forall>k\<le>length ms. 0 \<le> net_qty (take k ms)"
  shows "\<exists>ls. rr_layers (replayMovements (map to_mov ms) meth) = map to_rlayer ls
    \<and> rr_onhand (replayMovements (map to_mov ms) meth) = dec4 (stock_of ls)
    \<and> stock_of ls = net_qty ms"
  using replay_layers_refines[OF assms(1,2)] fold_queue_covered[OF assms(3), of meth]
    fold_replay_onhand[of Q ms meth] assms(1)
  by (auto simp: movs_ok_def replayMovements_def split: prod.splits)

theorem replay_layers_cover_witness:
  "\<exists>ls. rr_layers (replayMovements (map to_mov [(''a'', dirIn, 50000, 3), (''b'', dirOut, 20000, 0)]) CostingLIFO)
      = map to_rlayer ls \<and> stock_of ls = 30000"
proof -
  have "\<forall>k\<le>length [(''a'', dirIn, 50000, 3), (''b'', dirOut, 20000, 0)].
      0 \<le> net_qty (take k [(''a'', dirIn, 50000::int, 3::f64), (''b'', dirOut, 20000, 0)])"
    by (auto simp: take_Cons split: nat.splits)
  then show ?thesis
    using replay_layers_cover[of 50000 "[(''a'', dirIn, 50000, 3), (''b'', dirOut, 20000, 0)]" CostingLIFO]
    by (auto simp: movs_ok_def costing_names)
qed

end
