(* ===== verification/Ledger.thy ===== *)
theory Ledger
  imports Auth Replay "HOL-Library.Char_ord" "HOL-Library.List_Lexorder" "HOL-Library.Product_Lexorder"
begin

text \<open>
  The stock ledger of a tenant: the tables of \<open>shared/tenantschema/inventory_schema_sql.go\<close> that
  the costing engine touches, and the code that moves stock through them: \<open>PostMovement\<close> and
  \<open>loadLayers\<close> (\<open>inventory/movement.go\<close>), the costing context (\<open>inventory/adjustment.go\<close>,
  \<open>inventory/costing_context_cache.go\<close>), replaying and purging (\<open>inventory/document_engine.go\<close>) and
  the HPP recalculation (\<open>inventory/recalc.go\<close>, \<open>inventory/recalc_bulk.go\<close>).

  A NUMERIC(18,4) column holds a count of ten-thousandths; scanning it gives the float64
  \<open>dec4 n\<close>, and storing a float64 goes through \<open>db_numeric\<close>. Row locks are not represented.
\<close>

section \<open>Tables\<close>

record movement_row =
  mv_id :: string
  mv_item :: string
  mv_wh :: string
  mv_type :: string
  mv_dir :: string
  mv_qty :: int
  mv_unit :: int
  mv_total :: int
  mv_after :: int
  mv_avg :: int
  mv_batch :: "string option"
  mv_expiry :: "int option"
  mv_reftype :: "string option"
  mv_refid :: "string option"
  mv_refline :: "string option"
  mv_source :: "string option"
  mv_fintxn :: "string option"
  mv_note :: "string option"
  mv_by :: "string option"
  mv_created :: int

record layer_row =
  ly_id :: string
  ly_item :: string
  ly_wh :: string
  ly_qty :: int
  ly_cost :: int
  ly_batch :: "string option"
  ly_expiry :: "int option"
  ly_source :: "string option"
  ly_received :: int

record balance_row =
  bl_on_hand :: int
  bl_reserved :: int
  bl_avg :: int
  bl_total :: int
  bl_updated :: int

record setting_row =
  st_setup :: bool
  st_method :: string
  st_block :: bool
  st_expense :: bool

record sku_row =
  sk_track :: bool
  sk_bundle :: bool
  sk_method :: "string option"

text \<open>
  The inventory part of a tenant schema. \<open>inv_setting\<close> is the row that
  \<open>ORDER BY created_at LIMIT 1\<close> finds; the tables with a unique key are maps.
\<close>

record inv_db =
  movements :: "movement_row list"
  layers :: "layer_row list"
  balances :: "string \<times> string \<rightharpoonup> balance_row"
  inv_setting :: "setting_row option"
  skus :: "string \<rightharpoonup> sku_row"
  next_uuid :: nat

definition fresh_uuid :: "env \<Rightarrow> inv_db \<Rightarrow> string \<times> inv_db" where
  "fresh_uuid E db = (db_uuid E (next_uuid db), db\<lparr>next_uuid := Suc (next_uuid db)\<rparr>)"

definition nullStr :: "string \<Rightarrow> string option" where
  "nullStr s = (let t = trim_space s in if t = [] then None else Some t)"

definition nullUUID :: "string \<Rightarrow> string option" where
  "nullUUID s = (if trim_space s = [] then None else Some s)"

section \<open>Posting a movement (movement.go)\<close>

definition MovementOpening :: string where "MovementOpening = ''opening_balance''"
definition MovementPurchaseReceive :: string where "MovementPurchaseReceive = ''purchase_receive''"
definition MovementSaleIssue :: string where "MovementSaleIssue = ''sale_issue''"
definition MovementSaleCancelRestore :: string where "MovementSaleCancelRestore = ''sale_cancel_restore''"
definition MovementReturnIn :: string where "MovementReturnIn = ''return_in''"
definition MovementAdjustPlus :: string where "MovementAdjustPlus = ''adjustment_plus''"
definition MovementAdjustMinus :: string where "MovementAdjustMinus = ''adjustment_minus''"
definition MovementTransferOut :: string where "MovementTransferOut = ''transfer_out''"
definition MovementTransferIn :: string where "MovementTransferIn = ''transfer_in''"
definition MovementWriteOff :: string where "MovementWriteOff = ''write_off''"
definition MovementRevaluation :: string where "MovementRevaluation = ''revaluation_cost''"

lemmas movement_types = MovementOpening_def MovementPurchaseReceive_def MovementSaleIssue_def
  MovementSaleCancelRestore_def MovementReturnIn_def MovementAdjustPlus_def MovementAdjustMinus_def
  MovementTransferOut_def MovementTransferIn_def MovementWriteOff_def MovementRevaluation_def

record MovementInput =
  mi_item :: string
  mi_wh :: string
  mi_type :: string
  mi_dir :: string
  mi_qty :: f64
  mi_cost :: f64
  mi_method :: string
  mi_block :: bool
  mi_batch :: string
  mi_expiry :: "int option"
  mi_reftype :: string
  mi_refid :: string
  mi_refline :: string
  mi_source :: string
  mi_fintxn :: string
  mi_note :: string
  mi_by :: string

text \<open>The zero value of the struct, from which callers set the fields they use.\<close>

definition no_input :: MovementInput where
  "no_input = \<lparr>mi_item = [], mi_wh = [], mi_type = [], mi_dir = [], mi_qty = 0, mi_cost = 0,
     mi_method = [], mi_block = False, mi_batch = [], mi_expiry = None, mi_reftype = [],
     mi_refid = [], mi_refline = [], mi_source = [], mi_fintxn = [], mi_note = [], mi_by = []\<rparr>"

record MovementResult =
  mr_id :: string
  mr_total :: f64
  mr_unit :: f64
  mr_after :: f64
  mr_avg :: f64
  mr_short :: f64

definition insufficientErr :: "f64 \<Rightarrow> f64 \<Rightarrow> app_error" where
  "insufficientErr onHand requested =
     BadRequestf ''stok tidak cukup (tersedia %g, diminta %g)'' [onHand, requested]"

text \<open>
  The rows of \<open>loadLayers\<close>: stock of the pair, ordered by arrival and identifier; the descending
  order of LIFO is the reverse, since identifiers are unique.
\<close>

definition layer_key :: "layer_row \<Rightarrow> int \<times> string" where
  "layer_key r = (ly_received r, ly_id r)"

definition pick_layers :: "inv_db \<Rightarrow> string \<Rightarrow> string \<Rightarrow> string \<Rightarrow> layer_row list" where
  "pick_layers db item wh meth =
     (let asc = sort_key layer_key [r \<leftarrow> layers db. ly_item r = item \<and> ly_wh r = wh \<and> 0 < ly_qty r]
      in if meth = CostingLIFO then rev asc else asc)"

definition loadLayers :: "env \<Rightarrow> inv_db \<Rightarrow> string \<Rightarrow> string \<Rightarrow> string \<Rightarrow> Layer list res" where
  "loadLayers E db item wh meth =
     sql_raw E ''layers.select'' (Inr
       [\<lparr>l_id = ly_id r, l_qty = dec4 (ly_qty r), l_cost = dec4 (ly_cost r),
         l_batch = (case ly_batch r of None \<Rightarrow> [] | Some b \<Rightarrow> b)\<rparr>. r \<leftarrow> pick_layers db item wh meth])"

definition get_balance :: "inv_db \<Rightarrow> string \<Rightarrow> string \<Rightarrow> BalanceState" where
  "get_balance db item wh = (case balances db (item, wh) of
       None \<Rightarrow> zero_balance
     | Some b \<Rightarrow> \<lparr>OnHand = dec4 (bl_on_hand b), AvgCost = dec4 (bl_avg b), TotalValue = dec4 (bl_total b)\<rparr>)"

text \<open>\<open>INSERT INTO inv_stock_balance ... ON CONFLICT DO UPDATE\<close>: \<open>reserved\<close> is left alone.\<close>

definition put_balance :: "env \<Rightarrow> string \<Rightarrow> string \<Rightarrow> f64 \<Rightarrow> f64 \<Rightarrow> f64 \<Rightarrow> inv_db \<Rightarrow> inv_db" where
  "put_balance E item wh onHand avg totalv db = db\<lparr>balances := (balances db)((item, wh) \<mapsto>
     \<lparr>bl_on_hand = db_numeric E onHand,
      bl_reserved = (case balances db (item, wh) of None \<Rightarrow> 0 | Some b \<Rightarrow> bl_reserved b),
      bl_avg = db_numeric E avg, bl_total = db_numeric E totalv, bl_updated = db_now E\<rparr>)\<rparr>"

text \<open>\<open>UPDATE inv_cost_layer SET qty_remaining = qty_remaining - $2 WHERE id = $1\<close>\<close>

definition draw_layer :: "env \<Rightarrow> LayerConsumption \<Rightarrow> inv_db \<Rightarrow> inv_db res" where
  "draw_layer E d db = sql_raw E (''layer.draw:'' @ d_layer d) (Inr (db\<lparr>layers :=
     map (\<lambda>r. if ly_id r = d_layer d then r\<lparr>ly_qty := ly_qty r - db_numeric E (d_qty d)\<rparr> else r) (layers db)\<rparr>))"

definition insert_layer ::
  "env \<Rightarrow> string \<Rightarrow> string \<Rightarrow> f64 \<Rightarrow> f64 \<Rightarrow> string option \<Rightarrow> int option \<Rightarrow> string option \<Rightarrow> inv_db \<Rightarrow> inv_db"
where
  "insert_layer E item wh qty cost batch expiry source db = (case fresh_uuid E db of (i, db') \<Rightarrow>
     db'\<lparr>layers := layers db' @ [\<lparr>ly_id = i, ly_item = item, ly_wh = wh, ly_qty = db_numeric E qty,
       ly_cost = db_numeric E cost, ly_batch = batch, ly_expiry = expiry, ly_source = source,
       ly_received = db_now E\<rparr>]\<rparr>)"

text \<open>The costing of one movement: its cost, shortfall, new balance and consumed layers.\<close>

definition cost_movement ::
  "env \<Rightarrow> MovementInput \<Rightarrow> string \<Rightarrow> BalanceState \<Rightarrow> inv_db \<Rightarrow> (f64 \<times> f64 \<times> BalanceState \<times> inv_db) res"
where
  "cost_movement E inp meth b db =
     (if mi_dir inp = dirIn
      then Inr (round4 (fl (mi_qty inp * mi_cost inp)), 0, applyIn b (mi_qty inp) (mi_cost inp), db)
      else if meth = CostingAverage then
        let cost = issueCostAverage (AvgCost b) (mi_qty inp)
        in if mi_qty inp > fl (OnHand b + epsilon)
           then if mi_block inp then Inl (insufficientErr (OnHand b) (mi_qty inp))
                else Inr (cost, round4 (fl (mi_qty inp - OnHand b)), applyOut b (mi_qty inp) cost, db)
           else Inr (cost, 0, applyOut b (mi_qty inp) cost, db)
      else ebind (loadLayers E db (mi_item inp) (mi_wh inp) meth) (\<lambda>ls.
        case planConsumption ls (mi_qty inp) of (draws, layerCost, shortfall) \<Rightarrow>
          if shortfall > epsilon \<and> mi_block inp then Inl (insufficientErr (OnHand b) (mi_qty inp))
          else let cost = (if shortfall > epsilon
                           then round4 (fl (layerCost + fl (shortfall * AvgCost b))) else layerCost)
               in ebind (efold (draw_layer E) draws db) (\<lambda>db'.
                    Inr (cost, shortfall, applyOut b (mi_qty inp) cost, db'))))"

text \<open>The row of \<open>INSERT INTO inv_stock_movement\<close>.\<close>

definition movement_of :: "env \<Rightarrow> MovementInput \<Rightarrow> string \<Rightarrow> f64 \<Rightarrow> f64 \<Rightarrow> BalanceState \<Rightarrow> movement_row" where
  "movement_of E inp mid unitCost cost b =
     \<lparr>mv_id = mid, mv_item = mi_item inp, mv_wh = mi_wh inp, mv_type = mi_type inp,
      mv_dir = mi_dir inp, mv_qty = db_numeric E (mi_qty inp), mv_unit = db_numeric E unitCost,
      mv_total = db_numeric E cost, mv_after = db_numeric E (OnHand b),
      mv_avg = db_numeric E (AvgCost b), mv_batch = nullStr (mi_batch inp),
      mv_expiry = mi_expiry inp, mv_reftype = nullStr (mi_reftype inp),
      mv_refid = nullUUID (mi_refid inp), mv_refline = nullUUID (mi_refline inp),
      mv_source = nullUUID (mi_source inp), mv_fintxn = nullUUID (mi_fintxn inp),
      mv_note = nullStr (mi_note inp), mv_by = nullUUID (mi_by inp), mv_created = db_now E\<rparr>"

definition PostMovement :: "env \<Rightarrow> MovementInput \<Rightarrow> inv_db \<Rightarrow> (MovementResult \<times> inv_db) res" where
  "PostMovement E inp db =
     ebind (guard (\<not> mi_qty inp \<le> epsilon) (BadRequest ''qty harus lebih dari 0'')) (\<lambda>_.
     ebind (guard (\<not> (mi_dir inp \<noteq> dirIn \<and> mi_dir inp \<noteq> dirOut)) (BadRequest ''arah movement tidak valid'')) (\<lambda>_.
     let meth = effectiveCostingMethod (mi_method inp) [] in
     ebind (sql_raw E ''balance.select'' (Inr (get_balance db (mi_item inp) (mi_wh inp)))) (\<lambda>b0.
     ebind (cost_movement E inp meth b0 db) (\<lambda>(cost, shortfall, b, db1).
     let unitCost = (if mi_dir inp = dirOut then weightedUnitCost cost (mi_qty inp) else mi_cost inp);
         (mid, db2) = fresh_uuid E db1 in
     ebind (sql_raw E ''movement.insert''
              (Inr (db2\<lparr>movements := movements db2 @ [movement_of E inp mid unitCost cost b]\<rparr>))) (\<lambda>db3.
     ebind (if mi_dir inp = dirIn \<and> meth \<noteq> CostingAverage
            then sql_raw E ''layer.insert'' (Inr (insert_layer E (mi_item inp) (mi_wh inp) (mi_qty inp)
                   (mi_cost inp) (nullStr (mi_batch inp)) (mi_expiry inp) (Some mid) db3))
            else Inr db3) (\<lambda>db4.
     ebind (sql_raw E ''balance.upsert'' (Inr (put_balance E (mi_item inp) (mi_wh inp)
              (OnHand b) (AvgCost b) (TotalValue b) db4))) (\<lambda>db5.
     Inr (\<lparr>mr_id = mid, mr_total = cost, mr_unit = unitCost, mr_after = OnHand b,
           mr_avg = AvgCost b, mr_short = shortfall\<rparr>, db5))))))))"

section \<open>Costing context (adjustment.go, costing_context_cache.go)\<close>

record costingContext =
  cc_method :: string
  cc_block :: bool

definition sku_override :: "inv_db \<Rightarrow> string \<Rightarrow> string" where
  "sku_override db item = (case skus db item of
       None \<Rightarrow> [] | Some s \<Rightarrow> (case sk_method s of None \<Rightarrow> [] | Some m \<Rightarrow> m))"

definition loadCostingContext :: "env \<Rightarrow> inv_db \<Rightarrow> string \<Rightarrow> costingContext res" where
  "loadCostingContext E db item =
     ebind (sql E ''setting.select'' (Inr (inv_setting db))) (\<lambda>st.
     let defMethod = (case st of None \<Rightarrow> [] | Some s \<Rightarrow> st_method s);
         block = (case st of None \<Rightarrow> True | Some s \<Rightarrow> st_block s) in
     ebind (sql E (''sku.method:'' @ item) (Inr (sku_override db item))) (\<lambda>override.
     Inr \<lparr>cc_method = effectiveCostingMethod override defMethod, cc_block = block\<rparr>))"

record costingContextLoader =
  defaultsLoaded :: bool
  defaultMethod :: string
  blockNegative :: bool
  byItem :: "string \<rightharpoonup> costingContext"

definition newCostingContextLoader :: costingContextLoader where
  "newCostingContextLoader =
     \<lparr>defaultsLoaded = False, defaultMethod = [], blockNegative = False, byItem = Map.empty\<rparr>"

definition load_defaults :: "env \<Rightarrow> inv_db \<Rightarrow> costingContextLoader \<Rightarrow> costingContextLoader res" where
  "load_defaults E db c =
     (if defaultsLoaded c then Inr c
      else ebind (sql E ''setting.select'' (Inr (inv_setting db))) (\<lambda>st. case st of
             None \<Rightarrow> Inr (c\<lparr>defaultMethod := CostingAverage, blockNegative := True, defaultsLoaded := True\<rparr>)
           | Some s \<Rightarrow> Inr (c\<lparr>defaultMethod := st_method s, blockNegative := st_block s, defaultsLoaded := True\<rparr>)))"

definition ccl_load ::
  "env \<Rightarrow> inv_db \<Rightarrow> string \<Rightarrow> costingContextLoader \<Rightarrow> (costingContext \<times> costingContextLoader) res"
where
  "ccl_load E db item c = (case byItem c item of
       Some cc \<Rightarrow> Inr (cc, c)
     | None \<Rightarrow> ebind (load_defaults E db c) (\<lambda>c1.
         ebind (sql E (''sku.method:'' @ item) (Inr (sku_override db item))) (\<lambda>override.
         let cc = \<lparr>cc_method = effectiveCostingMethod override (defaultMethod c1), cc_block = blockNegative c1\<rparr>
         in Inr (cc, c1\<lparr>byItem := (byItem c1)(item \<mapsto> cc)\<rparr>))))"

section \<open>Replaying and purging (document_engine.go, recalc.go, recalc_bulk.go)\<close>

definition pair_rows :: "inv_db \<Rightarrow> string \<times> string \<Rightarrow> movement_row list" where
  "pair_rows db k = [r \<leftarrow> movements db. (mv_item r, mv_wh r) = k]"

definition row_mov :: "movement_row \<Rightarrow> imov" where
  "row_mov r = (mv_id r, mv_dir r, mv_qty r, dec4 (mv_unit r))"

definition ledger_key :: "movement_row \<Rightarrow> int \<times> string" where
  "ledger_key r = (mv_created r, mv_id r)"

definition loadReplayMovements :: "env \<Rightarrow> inv_db \<Rightarrow> string \<Rightarrow> string \<Rightarrow> ReplayMovement list res" where
  "loadReplayMovements E db item wh =
     sql_raw E (''movements.replay:'' @ item @ ''/'' @ wh)
       (Inr (map (\<lambda>r. \<lparr>rm_id = mv_id r, rm_direction = mv_dir r, rm_qty = dec4 (mv_qty r),
                       rm_cost = dec4 (mv_unit r)\<rparr>) (sort_key ledger_key (pair_rows db (item, wh)))))"

definition set_snapshot :: "env \<Rightarrow> ReplaySnapshot \<Rightarrow> movement_row \<Rightarrow> movement_row" where
  "set_snapshot E s r = r\<lparr>mv_total := db_numeric E (rs_total s), mv_unit := db_numeric E (rs_unit s),
     mv_after := db_numeric E (rs_qty s), mv_avg := db_numeric E (rs_avg s)\<rparr>"

definition update_movement :: "env \<Rightarrow> ReplaySnapshot \<Rightarrow> inv_db \<Rightarrow> inv_db res" where
  "update_movement E s db = sql E (''movement.snapshot:'' @ rs_id s) (Inr (db\<lparr>movements :=
     map (\<lambda>r. if mv_id r = rs_id s then set_snapshot E s r else r) (movements db)\<rparr>))"

definition delete_layers :: "string \<Rightarrow> string \<Rightarrow> inv_db \<Rightarrow> inv_db" where
  "delete_layers item wh db = db\<lparr>layers := [r \<leftarrow> layers db. \<not> (ly_item r = item \<and> ly_wh r = wh)]\<rparr>"

definition insert_replayed :: "env \<Rightarrow> string \<Rightarrow> string \<Rightarrow> ReplayLayer \<Rightarrow> inv_db \<Rightarrow> inv_db res" where
  "insert_replayed E item wh l db = sql E (''layer.replay:'' @ rl_source l)
     (Inr (insert_layer E item wh (rl_qty l) (rl_cost l) None None (nullUUID (rl_source l)) db))"

text \<open>What \<open>replayPairInTx\<close> and \<open>RecalculateHPP\<close> do after the snapshots are written.\<close>

definition write_replay :: "env \<Rightarrow> string \<Rightarrow> string \<Rightarrow> ReplayResult \<Rightarrow> inv_db \<Rightarrow> inv_db res" where
  "write_replay E item wh res db =
     ebind (sql E ''layers.delete'' (Inr (delete_layers item wh db))) (\<lambda>db2.
     ebind (efold (insert_replayed E item wh) (rr_layers res) db2) (\<lambda>db3.
     sql E ''balance.replay'' (Inr (put_balance E item wh (rr_onhand res) (rr_avg res) (rr_total res) db3))))"

definition replayPairInTx :: "env \<Rightarrow> string \<Rightarrow> string \<Rightarrow> inv_db \<Rightarrow> inv_db res" where
  "replayPairInTx E item wh db =
     ebind (loadCostingContext E db item) (\<lambda>cc.
     ebind (loadReplayMovements E db item wh) (\<lambda>movs.
     let res = replayMovements movs (cc_method cc) in
     ebind (efold (update_movement E) (rr_snaps res) db) (write_replay E item wh res)))"

type_synonym itemWarehouse = "string \<times> string"

fun replay_pairs_loop :: "env \<Rightarrow> itemWarehouse list \<Rightarrow> itemWarehouse list \<Rightarrow> inv_db \<Rightarrow> inv_db res" where
  "replay_pairs_loop E seen [] db = Inr db"
| "replay_pairs_loop E seen ((item, wh) # ps) db =
     (if item = [] \<or> wh = [] then replay_pairs_loop E seen ps db
      else if (item, wh) \<in> set seen then replay_pairs_loop E seen ps db
      else ebind (replayPairInTx E item wh db) (replay_pairs_loop E ((item, wh) # seen) ps))"

definition replayPairsInTx :: "env \<Rightarrow> itemWarehouse list \<Rightarrow> inv_db \<Rightarrow> inv_db res" where
  "replayPairsInTx E pairs db = replay_pairs_loop E [] pairs db"

record movementRef =
  ref_id :: string
  ref_item :: string
  ref_wh :: string

definition has_ref :: "string \<Rightarrow> string \<Rightarrow> movement_row \<Rightarrow> bool" where
  "has_ref refType refID r \<longleftrightarrow> mv_reftype r = Some refType \<and> mv_refid r = Some refID"

definition collectMovementsByRef :: "env \<Rightarrow> inv_db \<Rightarrow> string \<Rightarrow> string \<Rightarrow> movementRef list res" where
  "collectMovementsByRef E db refType refID = sql E ''movements.byref'' (Inr
     [\<lparr>ref_id = mv_id r, ref_item = mv_item r, ref_wh = mv_wh r\<rparr>. r \<leftarrow> movements db, has_ref refType refID r])"

definition pairsFromMovements :: "movementRef list \<Rightarrow> itemWarehouse list" where
  "pairsFromMovements movs = dedup [(ref_item m, ref_wh m). m \<leftarrow> movs]"

definition purgeMovementsByRef ::
  "env \<Rightarrow> string \<Rightarrow> string \<Rightarrow> inv_db \<Rightarrow> (itemWarehouse list \<times> inv_db) res"
where
  "purgeMovementsByRef E refType refID db =
     ebind (collectMovementsByRef E db refType refID) (\<lambda>movs.
     let pairs = pairsFromMovements movs in
     ebind (if movs \<noteq> [] then sql E ''movements.delete''
              (Inr (db\<lparr>movements := [r \<leftarrow> movements db. \<not> has_ref refType refID r]\<rparr>)) else Inr db) (\<lambda>db1.
     ebind (replayPairsInTx E pairs db1) (\<lambda>db2. Inr (pairs, db2))))"

text \<open>\<open>UPDATE ... FROM (VALUES ...)\<close>: every movement takes the values listed under its identifier.\<close>

definition find_snapshot :: "ReplaySnapshot list \<Rightarrow> string \<Rightarrow> ReplaySnapshot option" where
  "find_snapshot snaps i = find (\<lambda>s. rs_id s = i) snaps"

definition applyMovementSnapshotsChunk :: "env \<Rightarrow> ReplaySnapshot list \<Rightarrow> inv_db \<Rightarrow> inv_db res" where
  "applyMovementSnapshotsChunk E snaps db =
     (if snaps = [] then Inr db
      else sql E ''movements.snapshots'' (Inr (db\<lparr>movements :=
        map (\<lambda>r. case find_snapshot snaps (mv_id r) of None \<Rightarrow> r | Some s \<Rightarrow> set_snapshot E s r)
          (movements db)\<rparr>)))"

function applyMovementSnapshots :: "env \<Rightarrow> ReplaySnapshot list \<Rightarrow> inv_db \<Rightarrow> inv_db res" where
  "applyMovementSnapshots E snaps db =
     (if snaps = [] then Inr db
      else ebind (applyMovementSnapshotsChunk E (take 100 snaps) db)
             (applyMovementSnapshots E (drop 100 snaps)))"
  by pat_completeness auto
termination
  by (relation "measure (\<lambda>(E, snaps, db). length snaps)") auto

declare applyMovementSnapshots.simps [simp del]

definition recalc_pair ::
  "env \<Rightarrow> itemWarehouse \<Rightarrow> costingContextLoader \<times> nat \<times> inv_db \<Rightarrow> (costingContextLoader \<times> nat \<times> inv_db) res"
where
  "recalc_pair E pr st = (case st of (ccl, recomputed, db) \<Rightarrow>
     ebind (ccl_load E db (fst pr) ccl) (\<lambda>(cc, ccl').
     ebind (loadReplayMovements E db (fst pr) (snd pr)) (\<lambda>movs.
     let res = replayMovements movs (cc_method cc) in
     ebind (applyMovementSnapshots E (rr_snaps res) db) (\<lambda>db1.
     ebind (write_replay E (fst pr) (snd pr) res db1) (\<lambda>db2.
     Inr (ccl', Suc recomputed, db2))))))"

text \<open>\<open>SELECT DISTINCT\<close> promises no order; the pairs come in any order \<open>ord\<close> gives them.\<close>

definition movementPairs ::
  "env \<Rightarrow> (itemWarehouse list \<Rightarrow> itemWarehouse list) \<Rightarrow> inv_db \<Rightarrow> string \<Rightarrow> itemWarehouse list res"
where
  "movementPairs E ord db catalogItemID = sql E ''movements.pairs'' (Inr (ord (dedup
     [(mv_item r, mv_wh r). r \<leftarrow> movements db, catalogItemID = [] \<or> mv_item r = catalogItemID])))"

definition RecalculateHPP ::
  "env \<Rightarrow> AuthUser option \<Rightarrow> (itemWarehouse list \<Rightarrow> itemWarehouse list) \<Rightarrow> string \<Rightarrow> inv_db \<Rightarrow> (nat \<times> inv_db) res"
where
  "RecalculateHPP E auth ord catalogItemID db =
     ebind (getUser auth) (\<lambda>u.
     ebind (requireOwner u) (\<lambda>_.
     ebind (prepareTenant E) (\<lambda>_.
     ebind (movementPairs E ord db (trim_space catalogItemID)) (\<lambda>pairs.
     ebind (sql E ''recalc.begin'' (Inr ())) (\<lambda>_.
     ebind (efold (recalc_pair E) pairs (newCostingContextLoader, 0, db)) (\<lambda>(ccl, recomputed, db').
     sql E ''recalc.commit'' (Inr (recomputed, db'))))))))"

end
