(* ===== verification/Ledger_Laws.thy ===== *)
theory Ledger_Laws
  imports Ledger "HOL-Library.Multiset"
begin

text \<open>
  What the stock ledger promises: the balance column is the exact net of the ledger rows, cost
  layers hold the balance, a posting touches one pair only, replaying restores the balance from the
  ledger, and purging a document removes its effect.
\<close>

section \<open>Observations\<close>

text \<open>
  What the driver and the database do with a float64 that stands for a four-digit decimal: it is
  stored as that decimal.
\<close>

definition numeric_ok :: "env \<Rightarrow> bool" where
  "numeric_ok E \<longleftrightarrow> (\<forall>n. small4 n \<longrightarrow> db_numeric E (dec4 n) = n)"

definition on_hand :: "inv_db \<Rightarrow> string \<times> string \<Rightarrow> int" where
  "on_hand db k = (case balances db k of None \<Rightarrow> 0 | Some b \<Rightarrow> bl_on_hand b)"

definition ledger_net :: "inv_db \<Rightarrow> string \<times> string \<Rightarrow> int" where
  "ledger_net db k = net_qty (map row_mov (pair_rows db k))"

definition bal_ok :: "inv_db \<Rightarrow> bool" where
  "bal_ok db \<longleftrightarrow> (\<forall>k. on_hand db k = ledger_net db k)"

text \<open>What the layers of a pair hold.\<close>

definition pair_layers :: "inv_db \<Rightarrow> string \<times> string \<Rightarrow> layer_row list" where
  "pair_layers db k = [r \<leftarrow> layers db. (ly_item r, ly_wh r) = k]"

definition layer_stock :: "inv_db \<Rightarrow> string \<times> string \<Rightarrow> int" where
  "layer_stock db k = sum_list (map ly_qty (pair_layers db k))"

text \<open>The signed quantity of a posting of \<open>n\<close> ten-thousandths.\<close>

definition move_sign :: "MovementInput \<Rightarrow> int \<Rightarrow> int" where
  "move_sign inp n = (if mi_dir inp = dirIn then n else - n)"

definition input_key :: "MovementInput \<Rightarrow> string \<times> string" where
  "input_key inp = (mi_item inp, mi_wh inp)"

section \<open>Frames\<close>

lemma fresh_uuid_frame [simp]:
  "movements (snd (fresh_uuid E db)) = movements db" "layers (snd (fresh_uuid E db)) = layers db"
  "balances (snd (fresh_uuid E db)) = balances db" "inv_setting (snd (fresh_uuid E db)) = inv_setting db"
  "skus (snd (fresh_uuid E db)) = skus db" "next_uuid (snd (fresh_uuid E db)) = Suc (next_uuid db)"
  "fst (fresh_uuid E db) = db_uuid E (next_uuid db)"
  by (simp_all add: fresh_uuid_def)

lemma insert_layer_frame [simp]:
  "movements (insert_layer E i w q c b x s db) = movements db"
  "balances (insert_layer E i w q c b x s db) = balances db"
  "inv_setting (insert_layer E i w q c b x s db) = inv_setting db"
  "skus (insert_layer E i w q c b x s db) = skus db"
  "next_uuid (insert_layer E i w q c b x s db) = Suc (next_uuid db)"
  by (simp_all add: insert_layer_def fresh_uuid_def)

lemma insert_layer_layers [simp]:
  "layers (insert_layer E i w q c b x s db) = layers db @ [\<lparr>ly_id = db_uuid E (next_uuid db), ly_item = i,
     ly_wh = w, ly_qty = db_numeric E q, ly_cost = db_numeric E c, ly_batch = b, ly_expiry = x,
     ly_source = s, ly_received = db_now E\<rparr>]"
  by (simp add: insert_layer_def fresh_uuid_def)

lemma put_balance_frame [simp]:
  "movements (put_balance E i w h a t db) = movements db"
  "layers (put_balance E i w h a t db) = layers db"
  "inv_setting (put_balance E i w h a t db) = inv_setting db"
  "skus (put_balance E i w h a t db) = skus db"
  "next_uuid (put_balance E i w h a t db) = next_uuid db"
  by (simp_all add: put_balance_def)

lemma on_hand_put_balance [simp]:
  "on_hand (put_balance E i w h a t db) k = (if k = (i, w) then db_numeric E h else on_hand db k)"
  by (simp add: on_hand_def put_balance_def)

lemma balances_put_balance [simp]:
  "k \<noteq> (i, w) \<Longrightarrow> balances (put_balance E i w h a t db) k = balances db k"
  by (simp add: put_balance_def)

lemma draw_layer_frame:
  "draw_layer E d db = Inr db' \<Longrightarrow> movements db' = movements db \<and> balances db' = balances db
     \<and> inv_setting db' = inv_setting db \<and> skus db' = skus db \<and> next_uuid db' = next_uuid db"
  by (auto simp: draw_layer_def res_simps)

lemma efold_draw_frame:
  assumes "efold (draw_layer E) ds db = Inr db'"
  shows "movements db' = movements db \<and> balances db' = balances db
     \<and> inv_setting db' = inv_setting db \<and> skus db' = skus db \<and> next_uuid db' = next_uuid db"
  by (rule efold_invariant[OF assms]) (auto dest: draw_layer_frame)

section \<open>Posting\<close>

lemma get_balance_onhand: "OnHand (get_balance db i w) = dec4 (on_hand db (i, w))"
  by (simp add: get_balance_def on_hand_def zero_balance_def split: option.splits)

lemma cost_movement_cases:
  assumes "cost_movement E inp meth b db = Inr (cost, sf, b', db')"
    and "mi_dir inp = dirIn \<or> mi_dir inp = dirOut"
  obtains (receipt) "mi_dir inp = dirIn" "b' = applyIn b (mi_qty inp) (mi_cost inp)" "db' = db"
      "cost = round4 (fl (mi_qty inp * mi_cost inp))"
    | (average) "mi_dir inp = dirOut" "meth = CostingAverage" "b' = applyOut b (mi_qty inp) cost" "db' = db"
      "cost = issueCostAverage (AvgCost b) (mi_qty inp)"
      "mi_block inp \<longrightarrow> mi_qty inp \<le> fl (OnHand b + epsilon)"
    | (layered) ls draws layerCost where "mi_dir inp = dirOut" "meth \<noteq> CostingAverage"
      "b' = applyOut b (mi_qty inp) cost"
      "loadLayers E db (mi_item inp) (mi_wh inp) meth = Inr ls"
      "planConsumption ls (mi_qty inp) = (draws, layerCost, sf)"
      "efold (draw_layer E) draws db = Inr db'" "mi_block inp \<longrightarrow> sf \<le> epsilon"
proof -
  note run = assms(1)[unfolded cost_movement_def Let_def]
  consider "mi_dir inp = dirIn" | "mi_dir inp = dirOut" "meth = CostingAverage"
    | "mi_dir inp = dirOut" "meth \<noteq> CostingAverage" using assms(2) by blast
  then show ?thesis
  proof cases
    case 1
    then show ?thesis using run by (intro receipt) simp_all
  next
    case 2
    then show ?thesis using run by (intro average) (auto split: if_splits)
  next
    case 3
    then obtain ls where ls: "loadLayers E db (mi_item inp) (mi_wh inp) meth = Inr ls"
      using run by (auto simp: res_simps)
    obtain draws layerCost sf' where plan: "planConsumption ls (mi_qty inp) = (draws, layerCost, sf')"
      by (metis prod_cases3)
    show ?thesis using 3 run by (intro layered[OF 3 _ ls]) (auto simp: ls plan res_simps split: if_splits)
  qed
qed

lemma cost_movement_frame:
  assumes "cost_movement E inp meth b db = Inr (cost, sf, b', db')"
    and "mi_dir inp = dirIn \<or> mi_dir inp = dirOut"
  shows "movements db' = movements db \<and> balances db' = balances db
     \<and> inv_setting db' = inv_setting db \<and> skus db' = skus db \<and> next_uuid db' = next_uuid db"
  using assms by (cases rule: cost_movement_cases) (auto dest: efold_draw_frame)

lemma cost_movement_onhand:
  assumes "cost_movement E inp meth b db = Inr (cost, sf, b', db')"
    and "mi_dir inp = dirIn \<or> mi_dir inp = dirOut"
    and "mi_qty inp = dec4 n" "OnHand b = dec4 oh" "small4 n" "small4 oh"
  shows "OnHand b' = dec4 (oh + move_sign inp n)"
  using assms(1,2)
  by (cases rule: cost_movement_cases)
    (use assms(3-6) in \<open>auto simp: applyIn_onhand applyOut_onhand move_sign_def direction_names\<close>)

text \<open>The inversion rule of a successful posting.\<close>

lemma PostMovementE:
  assumes "PostMovement E inp db = Inr (res, db')"
  obtains cost b db1 mid unit where
    "\<not> mi_qty inp \<le> epsilon" "mi_dir inp = dirIn \<or> mi_dir inp = dirOut"
    "cost_movement E inp (effectiveCostingMethod (mi_method inp) []) (get_balance db (mi_item inp) (mi_wh inp)) db
       = Inr (cost, mr_short res, b, db1)"
    "mid = db_uuid E (next_uuid db)"
    "movements db' = movements db @ [movement_of E inp mid unit cost b]"
    "balances db' = (balances (put_balance E (mi_item inp) (mi_wh inp) (OnHand b) (AvgCost b) (TotalValue b) db))"
    "layers db' = layers db1 @ (if mi_dir inp = dirIn \<and> effectiveCostingMethod (mi_method inp) [] \<noteq> CostingAverage
       then [\<lparr>ly_id = db_uuid E (Suc (next_uuid db)), ly_item = mi_item inp, ly_wh = mi_wh inp,
         ly_qty = db_numeric E (mi_qty inp), ly_cost = db_numeric E (mi_cost inp), ly_batch = nullStr (mi_batch inp),
         ly_expiry = mi_expiry inp, ly_source = Some mid, ly_received = db_now E\<rparr>] else [])"
    "inv_setting db' = inv_setting db" "skus db' = skus db"
    "next_uuid db' = Suc (next_uuid db) + (if mi_dir inp = dirIn
        \<and> effectiveCostingMethod (mi_method inp) [] \<noteq> CostingAverage then 1 else 0)"
    "res = \<lparr>mr_id = mid, mr_total = cost, mr_unit = unit, mr_after = OnHand b, mr_avg = AvgCost b,
            mr_short = mr_short res\<rparr>"
proof -
  let ?meth = "effectiveCostingMethod (mi_method inp) []"
  from assms obtain cost sf b db1 where
    g: "\<not> mi_qty inp \<le> epsilon" "mi_dir inp = dirIn \<or> mi_dir inp = dirOut" and
    c: "cost_movement E inp ?meth (get_balance db (mi_item inp) (mi_wh inp)) db = Inr (cost, sf, b, db1)"
    by (auto simp: PostMovement_def Let_def res_simps fresh_uuid_def)
  note fr = cost_movement_frame[OF c g(2)]
  show ?thesis
    by (rule that[of cost b db1 "db_uuid E (next_uuid db)"
          "if mi_dir inp = dirOut then weightedUnitCost cost (mi_qty inp) else mi_cost inp"])
      (use assms g c fr in \<open>auto simp: PostMovement_def Let_def res_simps fresh_uuid_def put_balance_def
         split: if_splits\<close>)
qed

lemma dec4_pos: "small4 n \<Longrightarrow> \<not> dec4 n \<le> epsilon \<longleftrightarrow> 0 < n"
  by (simp add: dec4_le_epsilon not_le)

lemma pair_rows_append [simp]:
  "movements db' = movements db @ [r] \<Longrightarrow>
     pair_rows db' k = pair_rows db k @ (if (mv_item r, mv_wh r) = k then [r] else [])"
  by (simp add: pair_rows_def)

lemma PostMovement_effect:
  assumes "PostMovement E inp db = Inr (res, db')" "numeric_ok E"
    and qty: "mi_qty inp = dec4 n" "small4 n" and oh: "small4 (on_hand db (input_key inp))"
    and oh': "small4 (on_hand db (input_key inp) + move_sign inp n)"
  shows "0 < n \<and> on_hand db' (input_key inp) = on_hand db (input_key inp) + move_sign inp n
    \<and> (\<forall>k. k \<noteq> input_key inp \<longrightarrow> balances db' k = balances db k)
    \<and> (\<forall>k. ledger_net db' k = ledger_net db k + (if k = input_key inp then move_sign inp n else 0))
    \<and> mr_after res = dec4 (on_hand db (input_key inp) + move_sign inp n)"
  using assms(1)
proof (cases rule: PostMovementE)
  case (1 cost b db1 mid unit)
  have n: "0 < n" using 1(1) qty dec4_pos by simp
  have b: "OnHand b = dec4 (on_hand db (input_key inp) + move_sign inp n)"
    by (rule cost_movement_onhand[OF 1(3,2) qty(1) _ qty(2) oh]) (simp add: get_balance_onhand input_key_def)
  have "mr_after res = OnHand b" using 1(11) by (metis MovementResult.select_convs(4))
  moreover have "on_hand db' (input_key inp) = on_hand db (input_key inp) + move_sign inp n"
    using assms(2) oh' 1(6) b by (simp add: on_hand_def put_balance_def input_key_def numeric_ok_def)
  moreover have "k \<noteq> input_key inp \<Longrightarrow> balances db' k = balances db k" for k
    using 1(6) by (simp add: input_key_def)
  moreover have "db_numeric E (mi_qty inp) = n" using assms(2) qty by (simp add: numeric_ok_def)
  then have "ledger_net db' k = ledger_net db k + (if k = input_key inp then move_sign inp n else 0)" for k
    using n pair_rows_append[OF 1(5), of k]
    by (auto simp: ledger_net_def row_mov_def movement_of_def move_sign_def input_key_def)
  ultimately show ?thesis using n b by simp
qed

section \<open>Layers under FIFO and LIFO\<close>

definition wf_layers :: "inv_db \<Rightarrow> bool" where
  "wf_layers db \<longleftrightarrow> distinct (map ly_id (layers db)) \<and> (\<forall>r\<in>set (layers db). 0 \<le> ly_qty r)"

definition ilayer_of :: "layer_row \<Rightarrow> ilayer" where
  "ilayer_of r = (ly_id r, ly_qty r, dec4 (ly_cost r), (case ly_batch r of None \<Rightarrow> [] | Some b \<Rightarrow> b))"

lemma layer_stock_nonneg: "wf_layers db \<Longrightarrow> 0 \<le> layer_stock db k"
  unfolding layer_stock_def by (rule sum_list_nonneg) (auto simp: pair_layers_def wf_layers_def)

lemma fst_ilayer_of [simp]: "fst (ilayer_of r) = ly_id r" "fst (snd (ilayer_of r)) = ly_qty r"
  by (simp_all add: ilayer_of_def)

lemma loadLayers_ilayers:
  "loadLayers E db i w meth = Inr ls \<Longrightarrow> ls = map to_layer (map ilayer_of (pick_layers db i w meth))"
  by (auto simp: loadLayers_def res_simps ilayer_of_def)

lemma set_pick_layers:
  "set (pick_layers db i w meth) = {r \<in> set (layers db). (ly_item r, ly_wh r) = (i, w) \<and> 0 < ly_qty r}"
  by (auto simp: pick_layers_def Let_def)

lemma length_pick_layers: "length (pick_layers db i w meth) \<le> length (layers db)"
  by (simp add: pick_layers_def Let_def)

lemma mset_pick_layers:
  "sum_list (map f (pick_layers db i w meth))
     = sum_list (map f [r \<leftarrow> layers db. ly_item r = i \<and> ly_wh r = w \<and> 0 < ly_qty r])" for f :: "layer_row \<Rightarrow> int"
proof -
  have "mset (pick_layers db i w meth) = mset [r \<leftarrow> layers db. ly_item r = i \<and> ly_wh r = w \<and> 0 < ly_qty r]"
    by (simp add: pick_layers_def Let_def)
  from arg_cong[OF this, of "\<lambda>M. sum_mset (image_mset f M)"] show ?thesis
    by (simp only: mset_map[symmetric] sum_mset_sum_list)
qed

lemma stock_of_pick:
  assumes "wf_layers db"
  shows "stock_of (map ilayer_of (pick_layers db i w meth)) = layer_stock db (i, w)"
proof -
  have "stock_of (map ilayer_of xs) = (\<Sum>r\<leftarrow>xs. max 0 (ly_qty r))" for xs
    by (induction xs) (auto simp: ilayer_of_def)
  then have "stock_of (map ilayer_of (pick_layers db i w meth))
      = (\<Sum>r\<leftarrow>[r \<leftarrow> layers db. ly_item r = i \<and> ly_wh r = w \<and> 0 < ly_qty r]. max 0 (ly_qty r))"
    by (simp add: mset_pick_layers)
  also have "\<dots> = layer_stock db (i, w)"
  proof -
    have "\<forall>r\<in>set xs. 0 \<le> ly_qty r \<Longrightarrow>
        (\<Sum>r\<leftarrow>[r \<leftarrow> xs. ly_item r = i \<and> ly_wh r = w \<and> 0 < ly_qty r]. max 0 (ly_qty r))
        = sum_list (map ly_qty [r \<leftarrow> xs. (ly_item r, ly_wh r) = (i, w)])" for xs
      by (induction xs) auto
    from this[of "layers db"] show ?thesis
      using assms unfolding wf_layers_def layer_stock_def pair_layers_def by blast
  qed
  finally show ?thesis .
qed

lemma efold_draw_layers:
  "numeric_ok E \<Longrightarrow> \<forall>(i, n, c)\<in>set ds. small4 n \<Longrightarrow> efold (draw_layer E) (map to_draw ds) db = Inr db'
    \<Longrightarrow> layers db' = map (\<lambda>r. r\<lparr>ly_qty := ly_qty r - drawn ds (ly_id r)\<rparr>) (layers db)"
proof (induction ds arbitrary: db)
  case Nil
  then show ?case by simp
next
  case (Cons d ds)
  obtain i n c where d: "d = (i, n, c)" by (cases d) auto
  have n: "db_numeric E (dec4 n) = n" using Cons.prems(1,2) d by (auto simp: numeric_ok_def)
  obtain db1 where 1: "draw_layer E (to_draw d) db = Inr db1" "efold (draw_layer E) (map to_draw ds) db1 = Inr db'"
    using Cons.prems(3) by (auto simp: res_simps)
  have "layers db1 = map (\<lambda>r. if ly_id r = i then r\<lparr>ly_qty := ly_qty r - n\<rparr> else r) (layers db)"
    using 1(1) n by (auto simp: draw_layer_def d res_simps)
  moreover have "layers db' = map (\<lambda>r. r\<lparr>ly_qty := ly_qty r - drawn ds (ly_id r)\<rparr>) (layers db1)"
    using Cons.IH[OF Cons.prems(1) _ 1(2)] Cons.prems(2) by auto
  ultimately show ?case by (auto simp: d)
qed

lemma sum_list_if_eq:
  "distinct xs \<Longrightarrow> (\<Sum>i\<leftarrow>xs. if j = i then n else (0::int)) = (if j \<in> set xs then n else 0)"
  by (induction xs) auto

lemma drawn_total:
  "distinct is \<Longrightarrow> fst ` set ds \<subseteq> set is \<Longrightarrow> (\<Sum>i\<leftarrow>is. drawn ds i) = draw_sum ds"
proof (induction ds)
  case Nil
  then show ?case by (simp add: draw_sum_def)
next
  case (Cons d ds)
  obtain j n c where d: "d = (j, n, c)" by (cases d) auto
  have "(\<Sum>i\<leftarrow>is. drawn (d # ds) i) = (\<Sum>i\<leftarrow>is. if j = i then n else 0) + (\<Sum>i\<leftarrow>is. drawn ds i)"
    by (simp add: d sum_list_addf)
  also have "(\<Sum>i\<leftarrow>is. if j = i then n else 0) = n"
    using Cons.prems d by (simp add: sum_list_if_eq)
  finally show ?case using Cons d by simp
qed

text \<open>
  The bound under which a plan over the layers of a schema is exact: the number of layers times
  the issued quantity, and every layer, stay below \<open>2 ^ 44\<close> ten-thousandths.
\<close>

definition plan_ok :: "inv_db \<Rightarrow> int \<Rightarrow> bool" where
  "plan_ok db n \<longleftrightarrow> (int (length (layers db)) + 1) * (n + 1) \<le> 2 ^ 44
     \<and> (\<forall>r\<in>set (layers db). small4 (ly_qty r))"

lemma layered_plan:
  assumes "wf_layers db" "plan_ok db n" "0 < n"
    and ls: "loadLayers E db i w meth = Inr ls" and plan: "planConsumption ls (dec4 n) = (draws, cost, sf)"
  obtains ds where "draws = map to_draw ds" "ds = spec_draws (map ilayer_of (pick_layers db i w meth)) n"
    "draw_sum ds = min n (layer_stock db (i, w))" "sf = dec4 (n - min n (layer_stock db (i, w)))"
proof -
  let ?L = "map ilayer_of (pick_layers db i w meth)"
  let ?ds = "spec_draws ?L n"
  have "(int (length ?L) + 1) * (n + 1) \<le> (int (length (layers db)) + 1) * (n + 1)"
    using length_pick_layers[of db i w meth] assms(3) by (intro mult_right_mono) auto
  then have b: "(int (length ?L) + 1) * (n + 1) \<le> 2 ^ 44" using assms(2) by (simp add: plan_ok_def)
  have sm: "\<forall>l\<in>set ?L. small4 (fst (snd l))" using assms(2) by (auto simp: plan_ok_def set_pick_layers)
  obtain cost' where p: "planConsumption (map to_layer ?L) (dec4 n)
      = (map to_draw ?ds, cost', dec4 (spec_short ?L n))"
    using planConsumption_refines[OF _ b sm] assms(3) by (metis less_imp_le)
  have short: "spec_short ?L n = n - min n (layer_stock db (i, w))"
    using spec_short_eq[of n ?L] stock_of_pick[OF assms(1), of i w meth] assms(3) by auto
  moreover have "draw_sum ?ds = min n (layer_stock db (i, w))"
    using spec_draws_sum[of n ?L] short assms(3) by (simp add: draw_sum_def)
  ultimately show ?thesis using that[of ?ds] p plan loadLayers_ilayers[OF ls] by simp
qed

lemma spec_draws_small:
  assumes "plan_ok db n"
  shows "\<forall>(i, m, c)\<in>set (spec_draws (map ilayer_of (pick_layers db it w meth)) q). small4 m"
proof safe
  fix i m c
  assume "(i, m, c) \<in> set (spec_draws (map ilayer_of (pick_layers db it w meth)) q)"
  from spec_draws_bounds[OF this] obtain r where "0 < m" "r \<in> set (layers db)" "m \<le> ly_qty r"
    by (auto simp: ilayer_of_def set_pick_layers)
  then show "small4 m" using assms by (force simp: plan_ok_def small4_def)
qed

lemma draws_on_pair:
  assumes "wf_layers db" "ds = spec_draws (map ilayer_of (pick_layers db i w meth)) n"
  shows "fst ` set ds \<subseteq> ly_id ` set (pair_layers db (i, w))"
    and "r \<in> set (layers db) \<Longrightarrow> 0 \<le> drawn ds (ly_id r) \<and> drawn ds (ly_id r) \<le> ly_qty r"
    and "r \<in> set (layers db) \<Longrightarrow> (ly_item r, ly_wh r) \<noteq> (i, w) \<Longrightarrow> drawn ds (ly_id r) = 0"
proof -
  let ?P = "pick_layers db i w meth"
  have dist: "distinct (map ly_id (layers db))" using assms(1) by (simp add: wf_layers_def)
  show sub: "fst ` set ds \<subseteq> ly_id ` set (pair_layers db (i, w))"
    unfolding assms(2) using spec_draws_bounds
    by (fastforce simp: ilayer_of_def pair_layers_def set_pick_layers)
  have "mset ?P = mset [r \<leftarrow> layers db. ly_item r = i \<and> ly_wh r = w \<and> 0 < ly_qty r]"
    by (simp add: pick_layers_def Let_def)
  then have "mset (map ly_id ?P) = mset (map ly_id [r \<leftarrow> layers db. ly_item r = i \<and> ly_wh r = w \<and> 0 < ly_qty r])"
    by simp
  then have dP: "distinct (map fst (map ilayer_of ?P))"
    using distinct_map_filter[OF dist] mset_eq_imp_distinct_iff by (fastforce simp: comp_def)
  have inj: "r = r'" if "r \<in> set (layers db)" "r' \<in> set (layers db)" "ly_id r = ly_id r'" for r r'
    using that dist by (auto simp: distinct_map inj_on_def)
  have out: "drawn ds (ly_id r) = 0" if "r \<in> set (layers db)" "r \<notin> set ?P" for r
    unfolding assms(2)
  proof (rule drawn_notin, rule notI)
    assume "ly_id r \<in> fst ` set (map ilayer_of ?P)"
    then obtain r' where "r' \<in> set ?P" "ly_id r' = ly_id r" by auto
    then show False using inj[of r r'] that by (simp add: set_pick_layers)
  qed
  { assume r: "r \<in> set (layers db)"
    then have q: "0 \<le> ly_qty r" using assms(1) by (auto simp: wf_layers_def)
    have "drawn ds (ly_id r) \<le> ly_qty r"
    proof (cases "r \<in> set ?P")
      case True
      then have "ilayer_of r \<in> set (map ilayer_of ?P)" by simp
      then show ?thesis unfolding assms(2) using drawn_le[OF dP] q by (simp add: ilayer_of_def)
    qed (use out[OF r] q in simp)
    then show "0 \<le> drawn ds (ly_id r) \<and> drawn ds (ly_id r) \<le> ly_qty r"
      using drawn_bounds assms(2) by simp }
  { assume "r \<in> set (layers db)" "(ly_item r, ly_wh r) \<noteq> (i, w)"
    then show "drawn ds (ly_id r) = 0" by (intro out) (auto simp: set_pick_layers) }
qed

lemma drawn_layer_stock:
  assumes "wf_layers db" "ds = spec_draws (map ilayer_of (pick_layers db i w meth)) n"
    and l: "layers db' = map (\<lambda>r. r\<lparr>ly_qty := ly_qty r - drawn ds (ly_id r)\<rparr>) (layers db)"
  shows "layer_stock db' k = layer_stock db k - (if k = (i, w) then draw_sum ds else 0)" "wf_layers db'"
proof -
  note d = draws_on_pair[OF assms(1,2)]
  show "wf_layers db'"
    using assms(1) d(2) by (auto simp: wf_layers_def l comp_def)
  have "pair_layers db' k = map (\<lambda>r. r\<lparr>ly_qty := ly_qty r - drawn ds (ly_id r)\<rparr>) (pair_layers db k)"
    by (simp add: pair_layers_def l filter_map comp_def)
  then have s: "layer_stock db' k = layer_stock db k - (\<Sum>j\<leftarrow>map ly_id (pair_layers db k). drawn ds j)"
    by (simp add: layer_stock_def comp_def sum_list_subtractf)
  have dist: "distinct (map ly_id (pair_layers db k))"
    using assms(1) unfolding pair_layers_def wf_layers_def by (blast intro: distinct_map_filter)
  show "layer_stock db' k = layer_stock db k - (if k = (i, w) then draw_sum ds else 0)"
  proof (cases "k = (i, w)")
    case True
    then show ?thesis using s drawn_total[OF dist] d(1) by simp
  next
    case False
    then have "(\<Sum>j\<leftarrow>map ly_id (pair_layers db k). drawn ds j) = 0"
      using d(3) by (intro sum_list_all_0) (auto simp: pair_layers_def)
    then show ?thesis using s False by simp
  qed
qed

text \<open>The layers after a posting under FIFO or LIFO.\<close>

lemma PostMovement_layer_effect:
  assumes "PostMovement E inp db = Inr (res, db')" "numeric_ok E"
    and qty: "mi_qty inp = dec4 n" "small4 n" and wf: "wf_layers db" "plan_ok db n"
    and meth: "effectiveCostingMethod (mi_method inp) [] \<noteq> CostingAverage"
  shows "layer_stock db' k = layer_stock db k + (if k \<noteq> input_key inp then 0
      else if mi_dir inp = dirIn then n else - min n (layer_stock db (input_key inp)))
    \<and> (mi_dir inp = dirOut \<longrightarrow> mi_block inp \<longrightarrow> n \<le> layer_stock db (input_key inp))"
  using assms(1)
proof (cases rule: PostMovementE)
  case (1 cost b db1 mid unit)
  have n: "0 < n" using 1(1) qty dec4_pos by simp
  have app: "layer_stock db' k = layer_stock db1 k
      + (if mi_dir inp = dirIn \<and> k = input_key inp then n else 0)"
    using 1(7) meth assms(2) qty
    by (auto simp: layer_stock_def pair_layers_def input_key_def numeric_ok_def)
  from 1(3,2) show ?thesis
  proof (cases rule: cost_movement_cases)
    case receipt
    then show ?thesis using app by simp
  next
    case average
    then show ?thesis using meth by simp
  next
    case (layered ls draws layerCost)
    have out: "mi_dir inp \<noteq> dirIn" using layered(1) by (simp add: direction_names)
    have key: "input_key inp = (mi_item inp, mi_wh inp)" by (simp add: input_key_def)
    obtain ds where ds: "draws = map to_draw ds"
        "ds = spec_draws (map ilayer_of (pick_layers db (mi_item inp) (mi_wh inp)
            (effectiveCostingMethod (mi_method inp) []))) n"
        "draw_sum ds = min n (layer_stock db (input_key inp))"
        "mr_short res = dec4 (n - min n (layer_stock db (input_key inp)))"
      using layered_plan[OF wf n layered(4)] layered(5) qty(1) unfolding key by metis
    have "\<forall>(i, m, c)\<in>set ds. small4 m" unfolding ds(2) by (rule spec_draws_small[OF wf(2)])
    from efold_draw_layers[OF assms(2) this] layered(6) ds(1)
    have l: "layers db1 = map (\<lambda>r. r\<lparr>ly_qty := ly_qty r - drawn ds (ly_id r)\<rparr>) (layers db)" by simp
    have stock: "layer_stock db1 k = layer_stock db k - (if k = input_key inp then draw_sum ds else 0)"
      using drawn_layer_stock(1)[OF wf(1) ds(2) l] by (simp add: key)
    have "0 \<le> layer_stock db (input_key inp)" by (rule layer_stock_nonneg[OF wf(1)])
    then have "small4 (n - min n (layer_stock db (input_key inp)))"
      using qty(2) n by (simp add: small4_def min_def)
    then have "mr_short res \<le> epsilon \<longleftrightarrow> n - min n (layer_stock db (input_key inp)) \<le> 0"
      unfolding ds(4) by (rule dec4_le_epsilon)
    then show ?thesis using layered(7) app stock ds(3) out by auto
  qed
qed

lemma average_block:
  assumes "dec4 n \<le> fl (dec4 oh + epsilon)" "small4 n" "small4 oh"
  shows "n \<le> oh"
proof (rule ccontr)
  assume "\<not> n \<le> oh"
  then have less: "oh < n" by simp
  have "approx epsilon 0 (11 / 1000)"
    using epsilon_bounds unfolding approx_def by (simp add: abs_le_iff)
  from approx_add[OF small4_approx[OF assms(3)] this]
  have "approx (dec4 oh + epsilon) oh (13 / 1000)" by (simp add: approx_mono)
  moreover have "\<bar>rat_of_int oh\<bar> + 13 / 1000 \<le> 2 ^ 44 + 1"
    using assms(3) of_int_abs_le[of oh "2 ^ 44"] by (simp add: small4_def)
  ultimately have "approx (fl (dec4 oh + epsilon)) oh (13 / 1000 + (2 ^ 44 + 1) / 2 ^ 53 + 1 / 2 ^ 100)"
    by (rule approx_fl)
  then have "approx (fl (dec4 oh + epsilon)) oh (1 / 50)" by (rule approx_mono) simp
  from approx_compare[OF this small4_approx[OF assms(2)] _ less] assms(1) show False by simp
qed

section \<open>Properties of posting\<close>

text \<open>
  C3: Posting a movement keeps the ledger and the balances together: the on-hand column of every
  pair stays the exact net of its ledger rows, the posted pair moves by exactly the quantity, and
  no other pair's balance changes. Float64 arithmetic loses nothing.
\<close>

theorem PostMovement_ledger:
  assumes "PostMovement E inp db = Inr (res, db')" "numeric_ok E" "bal_ok db"
    and "mi_qty inp = dec4 n" "small4 n" "small4 (on_hand db (input_key inp))"
    and "small4 (on_hand db (input_key inp) + move_sign inp n)"
  shows "bal_ok db' \<and> on_hand db' (input_key inp) = on_hand db (input_key inp) + move_sign inp n
    \<and> (\<forall>k. k \<noteq> input_key inp \<longrightarrow> balances db' k = balances db k)"
proof -
  note e = PostMovement_effect[OF assms(1,2,4-7)]
  have "on_hand db' k = on_hand db k + (if k = input_key inp then move_sign inp n else 0)" for k
    using e by (cases "k = input_key inp") (simp_all add: on_hand_def del: split_paired_All)
  moreover have "ledger_net db' k = ledger_net db k + (if k = input_key inp then move_sign inp n else 0)" for k
    using e by blast
  ultimately have "bal_ok db'" using assms(3) by (simp add: bal_ok_def del: split_paired_All)
  then show ?thesis using e by blast
qed


section \<open>A concrete tenant\<close>

text \<open>A tenant with five units of one item, received in two lots.\<close>

lemma numeric_ok_sample: "numeric_ok sample_env"
  unfolding numeric_ok_def
proof (intro allI impI)
  fix n :: int
  assume "small4 n"
  then have "\<bar>dec4 n * 10 ^ 4 - of_int n\<bar> \<le> 1 / 500"
    using small4_approx by (simp add: approx_def)
  then have "\<lfloor>dec4 n * 10 ^ 4 + 1 / 2\<rfloor> = n"
    unfolding abs_le_iff by (intro floor_unique) linarith+
  then show "db_numeric sample_env (dec4 n) = n" by (simp add: sample_env_def)
qed

definition sample_movement :: "string \<Rightarrow> string \<Rightarrow> int \<Rightarrow> movement_row" where
  "sample_movement i d n = \<lparr>mv_id = i, mv_item = ''p'', mv_wh = ''w'', mv_type = MovementOpening,
     mv_dir = d, mv_qty = n, mv_unit = 10000, mv_total = n, mv_after = n, mv_avg = 10000,
     mv_batch = None, mv_expiry = None, mv_reftype = Some ''opening_balance'', mv_refid = Some ''d'',
     mv_refline = None, mv_source = None, mv_fintxn = None, mv_note = None, mv_by = None, mv_created = 1\<rparr>"

definition sample_layer :: "string \<Rightarrow> int \<Rightarrow> int \<Rightarrow> layer_row" where
  "sample_layer i n t = \<lparr>ly_id = i, ly_item = ''p'', ly_wh = ''w'', ly_qty = n, ly_cost = 10000,
     ly_batch = None, ly_expiry = None, ly_source = None, ly_received = t\<rparr>"

definition sample_db :: inv_db where
  "sample_db = \<lparr>movements = [sample_movement ''m1'' dirIn 20000, sample_movement ''m2'' dirIn 30000],
     layers = [sample_layer ''l1'' 20000 1, sample_layer ''l2'' 30000 2],
     balances = [(''p'', ''w'') \<mapsto> \<lparr>bl_on_hand = 50000, bl_reserved = 0, bl_avg = 10000,
        bl_total = 50000, bl_updated = 1\<rparr>],
     inv_setting = Some \<lparr>st_setup = True, st_method = CostingFIFO, st_block = True, st_expense = False\<rparr>,
     skus = [''p'' \<mapsto> \<lparr>sk_track = True, sk_bundle = False, sk_method = None\<rparr>], next_uuid = 0\<rparr>"

definition sample_issue :: MovementInput where
  "sample_issue = no_input\<lparr>mi_item := ''p'', mi_wh := ''w'', mi_type := MovementSaleIssue,
     mi_dir := dirOut, mi_qty := dec4 30000, mi_method := CostingFIFO, mi_block := True\<rparr>"

lemmas sample_defs = sample_db_def sample_movement_def sample_layer_def sample_issue_def no_input_def

lemma sample_facts:
  "bal_ok sample_db" "wf_layers sample_db" "plan_ok sample_db 30000"
  "on_hand sample_db (input_key sample_issue) = 50000" "layer_stock sample_db (input_key sample_issue) = 50000"
  "move_sign sample_issue 30000 = - 30000" "mi_qty sample_issue = dec4 30000"
  by (auto simp: bal_ok_def on_hand_def ledger_net_def pair_rows_def row_mov_def wf_layers_def plan_ok_def
      small4_def layer_stock_def pair_layers_def move_sign_def input_key_def direction_names sample_defs)

text \<open>A posting whose statements all succeed succeeds, unless it is refused as an oversell.\<close>

lemma PostMovement_total:
  assumes "\<And>l. \<not> db_fails E l" "0 < n" "small4 n" "mi_qty inp = dec4 n"
    and "mi_dir inp = dirIn \<or> mi_dir inp = dirOut \<and> \<not> mi_block inp \<or>
      mi_dir inp = dirOut \<and> effectiveCostingMethod (mi_method inp) [] \<noteq> CostingAverage
        \<and> wf_layers db \<and> plan_ok db n \<and> n \<le> layer_stock db (input_key inp)"
  shows "\<exists>res db'. PostMovement E inp db = Inr (res, db')"
proof -
  let ?meth = "effectiveCostingMethod (mi_method inp) []"
  have draws: "\<exists>db'. efold (draw_layer E) ds db = Inr db'" for ds db
    by (induction ds arbitrary: db) (auto simp: draw_layer_def assms(1))
  have sf: "sf = 0" if "\<not> (mi_dir inp = dirOut \<and> \<not> mi_block inp)" "mi_dir inp \<noteq> dirIn"
      "loadLayers E db (mi_item inp) (mi_wh inp) ?meth = Inr ls"
      "planConsumption ls (mi_qty inp) = (ds, c, sf)" for ls ds c sf
    using assms(2,4,5) that layered_plan[of db n E "mi_item inp" "mi_wh inp" ?meth ls ds c sf]
    by (auto simp: input_key_def min_def)
  have "\<exists>cost sf b db'. cost_movement E inp ?meth b0 db = Inr (cost, sf, b, db')" for b0
  proof (cases "mi_dir inp = dirIn \<or> ?meth = CostingAverage")
    case True
    then show ?thesis using assms(5) by (auto simp: cost_movement_def Let_def)
  next
    case False
    obtain ls where ls: "loadLayers E db (mi_item inp) (mi_wh inp) ?meth = Inr ls"
      by (simp add: loadLayers_def assms(1))
    obtain ds c sf where plan: "planConsumption ls (mi_qty inp) = (ds, c, sf)" by (metis prod_cases3)
    have "\<not> (sf > epsilon \<and> mi_block inp)"
      using sf[OF _ _ ls plan] False assms(5) dec4_le_epsilon[of 0] by (auto simp: small4_def)
    then show ?thesis using False ls plan draws[of ds db] by (auto simp: cost_movement_def Let_def)
  qed
  then obtain cost sf b db1 where
    "cost_movement E inp ?meth (get_balance db (mi_item inp) (mi_wh inp)) db = Inr (cost, sf, b, db1)"
    by blast
  then show ?thesis
    using assms dec4_pos[OF assms(3)] by (auto simp: PostMovement_def Let_def fresh_uuid_def)
qed

lemma sample_issue_method: "effectiveCostingMethod (mi_method sample_issue) [] = CostingFIFO"
  unfolding sample_issue_def no_input_def by code_simp

lemma sample_issue_posts: "\<exists>res db'. PostMovement sample_env sample_issue sample_db = Inr (res, db')"
proof (rule PostMovement_total[where n = 30000])
  show "mi_dir sample_issue = dirIn \<or> mi_dir sample_issue = dirOut \<and> \<not> mi_block sample_issue \<or>
      mi_dir sample_issue = dirOut \<and> effectiveCostingMethod (mi_method sample_issue) [] \<noteq> CostingAverage
        \<and> wf_layers sample_db \<and> plan_ok sample_db 30000 \<and> 30000 \<le> layer_stock sample_db (input_key sample_issue)"
    using sample_facts sample_issue_method by (simp add: sample_issue_def no_input_def costing_names)
qed (use sample_facts in \<open>simp_all add: sample_env_def small4_def\<close>)

theorem PostMovement_ledger_witness:
  "\<exists>res db'. PostMovement sample_env sample_issue sample_db = Inr (res, db') \<and> bal_ok db'
     \<and> on_hand db' (''p'', ''w'') = 20000"
proof -
  obtain res db' where r: "PostMovement sample_env sample_issue sample_db = Inr (res, db')"
    using sample_issue_posts by blast
  show ?thesis
    using PostMovement_ledger[OF r numeric_ok_sample sample_facts(1,7)] r sample_facts
    by (auto simp: small4_def input_key_def sample_issue_def no_input_def)
qed


end
