(* ===== verification/Ledger_Replay.thy ===== *)
theory Ledger_Replay
  imports Ledger_Laws
begin

text \<open>
  Rebuilding balances from the ledger: replaying a pair, purging the movements of a document and
  recalculating a tenant all leave the on-hand column at the exact net of the ledger rows, whatever
  it was before; the two ways of writing snapshots agree, and so do the two ways of loading the
  costing context.
\<close>

declare split_paired_All [simp del]

section \<open>What a replay keeps of the ledger\<close>

text \<open>
  A ledger row without the columns a replay writes: unit cost, total cost, quantity after and average
  after.
\<close>

definition mv_core ::
  "movement_row \<Rightarrow> string \<times> string \<times> string \<times> string \<times> string \<times> int \<times> string option \<times> string option \<times> int"
where
  "mv_core r = (mv_id r, mv_item r, mv_wh r, mv_type r, mv_dir r, mv_qty r, mv_reftype r, mv_refid r, mv_created r)"

definition same_ledger :: "inv_db \<Rightarrow> inv_db \<Rightarrow> bool" where
  "same_ledger db db' \<longleftrightarrow> map mv_core (movements db') = map mv_core (movements db)
     \<and> inv_setting db' = inv_setting db \<and> skus db' = skus db"

lemma same_ledger_refl [simp]: "same_ledger db db"
  by (simp add: same_ledger_def)

lemma same_ledger_trans: "same_ledger a b \<Longrightarrow> same_ledger b c \<Longrightarrow> same_ledger a c"
  by (simp add: same_ledger_def)

lemma mv_core_eqD:
  "mv_core r = mv_core s \<Longrightarrow> mv_id r = mv_id s \<and> mv_item r = mv_item s \<and> mv_wh r = mv_wh s
     \<and> mv_dir r = mv_dir s \<and> mv_qty r = mv_qty s \<and> mv_reftype r = mv_reftype s \<and> mv_refid r = mv_refid s
     \<and> mv_created r = mv_created s \<and> mv_type r = mv_type s"
  by (simp add: mv_core_def)

lemma core_pair_rows:
  "map mv_core xs = map mv_core ys \<Longrightarrow> map mv_core [r \<leftarrow> xs. (mv_item r, mv_wh r) = k]
     = map mv_core [r \<leftarrow> ys. (mv_item r, mv_wh r) = k]"
  by (induction xs ys rule: list_induct2'; simp) (auto dest: mv_core_eqD)

lemma core_signed: "map mv_core xs = map mv_core ys \<Longrightarrow> map (signed_qty \<circ> row_mov) xs = map (signed_qty \<circ> row_mov) ys"
  by (induction xs ys rule: list_induct2'; simp) (auto dest: mv_core_eqD simp: row_mov_def)

lemma same_ledger_net: "same_ledger db db' \<Longrightarrow> ledger_net db' k = ledger_net db k"
  using core_signed[OF core_pair_rows, of "movements db'" "movements db" k]
  by (simp add: ledger_net_def net_qty_def pair_rows_def same_ledger_def)

lemma set_snapshot_core [simp]: "mv_core (set_snapshot E s r) = mv_core r"
  by (simp add: mv_core_def set_snapshot_def)

lemma update_movement_frame:
  "update_movement E s db = Inr db' \<Longrightarrow> same_ledger db db' \<and> balances db' = balances db \<and> layers db' = layers db"
  by (auto simp: update_movement_def res_simps same_ledger_def)

lemma efold_update_frame:
  assumes "efold (update_movement E) ss db = Inr db'"
  shows "same_ledger db db' \<and> balances db' = balances db \<and> layers db' = layers db"
  by (rule efold_invariant[OF assms]) (auto dest: update_movement_frame intro: same_ledger_trans)

lemma snapshots_chunk_frame:
  "applyMovementSnapshotsChunk E ss db = Inr db' \<Longrightarrow>
     same_ledger db db' \<and> balances db' = balances db \<and> layers db' = layers db"
  by (auto simp: applyMovementSnapshotsChunk_def res_simps same_ledger_def split: if_splits option.splits)

lemma snapshots_frame:
  "applyMovementSnapshots E ss db = Inr db' \<Longrightarrow>
     same_ledger db db' \<and> balances db' = balances db \<and> layers db' = layers db"
proof (induction E ss db rule: applyMovementSnapshots.induct)
  case (1 E ss db)
  show ?case
  proof (cases "ss = []")
    case True
    then show ?thesis using "1.prems" by (simp add: applyMovementSnapshots.simps)
  next
    case False
    then obtain db1 where c: "applyMovementSnapshotsChunk E (take 100 ss) db = Inr db1"
        "applyMovementSnapshots E (drop 100 ss) db1 = Inr db'"
      using "1.prems" by (subst (asm) applyMovementSnapshots.simps) (auto simp: res_simps)
    then show ?thesis
      using "1.IH"[OF False c(2)] snapshots_chunk_frame[OF c(1)] by (auto intro: same_ledger_trans)
  qed
qed

lemma insert_replayed_frame:
  "insert_replayed E i w l db = Inr db' \<Longrightarrow> same_ledger db db' \<and> balances db' = balances db"
  by (auto simp: insert_replayed_def res_simps same_ledger_def)

lemma efold_insert_frame:
  assumes "efold (insert_replayed E i w) ls db = Inr db'"
  shows "same_ledger db db' \<and> balances db' = balances db"
  by (rule efold_invariant[OF assms]) (auto dest: insert_replayed_frame intro: same_ledger_trans)

lemma write_replay_frame:
  assumes "write_replay E i w res db = Inr db'"
  shows "same_ledger db db' \<and> on_hand db' (i, w) = db_numeric E (rr_onhand res)
     \<and> (\<forall>k. k \<noteq> (i, w) \<longrightarrow> balances db' k = balances db k)"
proof -
  obtain db3 where 3: "efold (insert_replayed E i w) (rr_layers res) (delete_layers i w db) = Inr db3"
      "db' = put_balance E i w (rr_onhand res) (rr_avg res) (rr_total res) db3"
    using assms by (auto simp: write_replay_def res_simps)
  from efold_insert_frame[OF 3(1)] show ?thesis
    by (simp add: 3(2) same_ledger_def delete_layers_def)
qed

section \<open>The replayed balance\<close>

text \<open>Bounds on a whole ledger, and the key constraint of its table.\<close>

definition ledger_small :: "int \<Rightarrow> inv_db \<Rightarrow> bool" where
  "ledger_small Q db \<longleftrightarrow> distinct (map mv_id (movements db)) \<and> (\<forall>r\<in>set (movements db). \<bar>mv_qty r\<bar> \<le> Q)
     \<and> 0 \<le> Q \<and> (int (length (movements db)) + 1) * (Q + 1) \<le> 2 ^ 44"

lemma core_mem:
  assumes "map mv_core xs = map mv_core ys" "r \<in> set xs"
  shows "\<exists>s\<in>set ys. mv_core s = mv_core r"
proof -
  have "mv_core r \<in> set (map mv_core ys)" using assms(2) unfolding assms(1)[symmetric] by simp
  then show ?thesis by auto
qed

lemma same_ledger_small:
  assumes "ledger_small Q db" "same_ledger db db'"
  shows "ledger_small Q db'"
proof -
  have c: "map mv_core (movements db') = map mv_core (movements db)" using assms(2) by (simp add: same_ledger_def)
  from arg_cong[OF c, of "map fst"]
  have "map mv_id (movements db') = map mv_id (movements db)" by (simp add: comp_def mv_core_def)
  moreover have "length (movements db') = length (movements db)" by (rule map_eq_imp_length_eq[OF c])
  moreover have "\<bar>mv_qty r\<bar> \<le> Q" if "r \<in> set (movements db')" for r
  proof -
    from core_mem[OF c that] obtain s where "s \<in> set (movements db)" "mv_core s = mv_core r" by blast
    then have "mv_qty s = mv_qty r" "\<bar>mv_qty s\<bar> \<le> Q"
      using assms(1) mv_core_eqD[of s r] unfolding ledger_small_def by blast+
    then show ?thesis by simp
  qed
  ultimately show ?thesis using assms(1) by (simp add: ledger_small_def)
qed

lemma ledger_small_filter:
  assumes "ledger_small Q db" "movements db' = filter P (movements db)"
  shows "ledger_small Q db'"
proof -
  have "(int (length (filter P (movements db))) + 1) * (Q + 1) \<le> (int (length (movements db)) + 1) * (Q + 1)"
    using assms(1) by (intro mult_right_mono) (auto simp: ledger_small_def)
  also have "\<dots> \<le> 2 ^ 44" using assms(1) unfolding ledger_small_def by blast
  finally show ?thesis using assms unfolding ledger_small_def by (simp only: distinct_map_filter) auto
qed

lemma ledger_small_movs:
  assumes "ledger_small Q db" "mset xs = mset (pair_rows db k)"
  shows "movs_ok Q (map row_mov xs)" "net_qty (map row_mov xs) = ledger_net db k"
    "\<bar>ledger_net db k\<bar> \<le> 2 ^ 44"
proof -
  have len: "length xs \<le> length (movements db)"
    using assms(2) by (metis length_filter_le pair_rows_def size_mset)
  have "(int (length xs) + 1) * (Q + 1) \<le> (int (length (movements db)) + 1) * (Q + 1)"
    using assms(1) len by (intro mult_right_mono) (auto simp: ledger_small_def)
  also have "\<dots> \<le> 2 ^ 44" using assms(1) unfolding ledger_small_def by blast
  finally have b: "(int (length xs) + 1) * (Q + 1) \<le> 2 ^ 44" .
  have "mset (map mv_id xs) = mset (map mv_id (pair_rows db k))" using assms(2) by simp
  then have "distinct (map mv_id xs) = distinct (map mv_id (pair_rows db k))"
    by (rule mset_eq_imp_distinct_iff)
  moreover have "distinct (map mv_id (pair_rows db k))"
    using assms(1) unfolding ledger_small_def pair_rows_def by (blast intro: distinct_map_filter)
  moreover have "set xs \<subseteq> set (movements db)"
    using assms(2) by (metis filter_is_subset pair_rows_def set_mset_mset)
  ultimately show m: "movs_ok Q (map row_mov xs)"
    using assms(1) b unfolding movs_ok_def ledger_small_def length_map
    by (auto simp: comp_def row_mov_def)
  show n: "net_qty (map row_mov xs) = ledger_net db k"
    using arg_cong[OF assms(2), of "\<lambda>M. sum_mset (image_mset (signed_qty \<circ> row_mov) M)"]
    by (simp only: ledger_net_def net_qty_def mset_map[symmetric] sum_mset_sum_list map_map)
  have "\<bar>net_qty (map row_mov xs)\<bar> \<le> int (length (map row_mov xs)) * Q"
    using fold_replay_onhand[of Q "map row_mov xs"] m by (simp add: movs_ok_def)
  also have "\<dots> \<le> (int (length (map row_mov xs)) + 1) * (Q + 1)"
    using m by (simp add: movs_ok_def algebra_simps)
  also have "\<dots> \<le> 2 ^ 44" using m by (simp add: movs_ok_def)
  finally show "\<bar>ledger_net db k\<bar> \<le> 2 ^ 44" using n by simp
qed

lemma loadReplayMovements_movs:
  "loadReplayMovements E db i w = Inr ms \<Longrightarrow>
     ms = map to_mov (map row_mov (sort_key ledger_key (pair_rows db (i, w))))"
  by (auto simp: loadReplayMovements_def res_simps to_mov_def row_mov_def)

lemma replayed_onhand:
  assumes "ledger_small Q db" "numeric_ok E" "loadReplayMovements E db i w = Inr ms"
  shows "db_numeric E (rr_onhand (replayMovements ms meth)) = ledger_net db (i, w)"
proof -
  let ?xs = "sort_key ledger_key (pair_rows db (i, w))"
  note m = ledger_small_movs[OF assms(1), of ?xs "(i, w)"]
  have "rr_onhand (replayMovements ms meth) = dec4 (ledger_net db (i, w))"
    unfolding loadReplayMovements_movs[OF assms(3)]
    using m fold_replay_onhand[of Q "map row_mov ?xs" meth]
    by (auto simp: movs_ok_def replayMovements_def split: prod.splits)
  then show ?thesis using assms(2) m(3) by (simp add: numeric_ok_def small4_def)
qed

text \<open>The effect of replaying one pair, for both callers.\<close>

definition rebuilt :: "itemWarehouse set \<Rightarrow> inv_db \<Rightarrow> inv_db \<Rightarrow> bool" where
  "rebuilt K db db' \<longleftrightarrow> same_ledger db db' \<and> (\<forall>k\<in>K. on_hand db' k = ledger_net db k)
     \<and> (\<forall>k. k \<notin> K \<longrightarrow> balances db' k = balances db k)"

lemma rebuilt_trans:
  assumes "rebuilt K db db1" "rebuilt L db1 db2"
  shows "rebuilt (K \<union> L) db db2"
proof -
  have "on_hand db2 k = ledger_net db k" if "k \<in> K \<union> L" for k
    using assms that same_ledger_net[of db db1 k]
    by (cases "k \<in> L") (auto simp: rebuilt_def on_hand_def simp del: split_paired_All)
  then show ?thesis using assms by (auto simp: rebuilt_def intro: same_ledger_trans)
qed

lemma replayPairInTx_rebuilt:
  assumes "replayPairInTx E i w db = Inr db'" "ledger_small Q db" "numeric_ok E"
  shows "rebuilt {(i, w)} db db'"
proof -
  obtain cc :: costingContext and ms db1 where ms: "loadReplayMovements E db i w = Inr ms"
    and 1: "efold (update_movement E) (rr_snaps (replayMovements ms (cc_method cc))) db = Inr db1"
    and 2: "write_replay E i w (replayMovements ms (cc_method cc)) db1 = Inr db'"
    using assms(1) by (auto simp: replayPairInTx_def Let_def res_simps)
  note u = efold_update_frame[OF 1]
  note v = write_replay_frame[OF 2]
  have "on_hand db' (i, w) = ledger_net db (i, w)"
    using v replayed_onhand[OF assms(2,3) ms] by simp
  then show ?thesis using u v by (auto simp: rebuilt_def intro: same_ledger_trans)
qed

lemma replay_pairs_loop_rebuilt:
  assumes "replay_pairs_loop E seen ps db = Inr db'" "ledger_small Q db" "numeric_ok E"
  shows "rebuilt ({k \<in> set ps. fst k \<noteq> [] \<and> snd k \<noteq> []} - set seen) db db'"
  using assms(1,2)
proof (induction ps arbitrary: seen db)
  case Nil
  then show ?case by (simp add: rebuilt_def)
next
  case (Cons p ps)
  obtain item wh where p: "p = (item, wh)" by (cases p) auto
  show ?case
  proof (cases "item = [] \<or> wh = [] \<or> (item, wh) \<in> set seen")
    case True
    then have "{k \<in> set (p # ps). fst k \<noteq> [] \<and> snd k \<noteq> []} - set seen
        = {k \<in> set ps. fst k \<noteq> [] \<and> snd k \<noteq> []} - set seen" by (auto simp: p)
    then show ?thesis using Cons True by (auto simp: p split: if_splits)
  next
    case False
    then obtain db1 where 1: "replayPairInTx E item wh db = Inr db1"
        "replay_pairs_loop E ((item, wh) # seen) ps db1 = Inr db'"
      using Cons.prems(1) by (auto simp: p res_simps)
    have r: "rebuilt {(item, wh)} db db1" by (rule replayPairInTx_rebuilt[OF 1(1) Cons.prems(2) assms(3)])
    then have "ledger_small Q db1" using Cons.prems(2) same_ledger_small by (auto simp: rebuilt_def)
    from rebuilt_trans[OF r Cons.IH[OF 1(2) this]] show ?thesis
      by (rule back_subst[of "\<lambda>K. rebuilt K db db'"]) (use False in \<open>auto simp: p\<close>)
  qed
qed

section \<open>Purging a document\<close>

lemma ledger_net_filter_other:
  assumes "movements db' = [r \<leftarrow> movements db. \<not> P r]" "\<forall>r\<in>set (movements db). P r \<longrightarrow> (mv_item r, mv_wh r) \<noteq> k"
  shows "ledger_net db' k = ledger_net db k"
proof -
  have "pair_rows db' k = pair_rows db k"
    using assms(2) by (auto simp: pair_rows_def assms(1) intro: filter_cong)
  then show ?thesis by (simp add: ledger_net_def)
qed

text \<open>The foreign keys of a movement are identifiers, never empty.\<close>

definition keyed :: "inv_db \<Rightarrow> bool" where
  "keyed db \<longleftrightarrow> (\<forall>r\<in>set (movements db). mv_item r \<noteq> [] \<and> mv_wh r \<noteq> [])"

lemma purge_effect:
  assumes "purgeMovementsByRef E refType refID db = Inr (pairs, db')"
    and "ledger_small Q db" "numeric_ok E" "keyed db"
  shows "set pairs = {(mv_item r, mv_wh r) |r. r \<in> set (movements db) \<and> has_ref refType refID r}
    \<and> rebuilt (set pairs) (db\<lparr>movements := [r \<leftarrow> movements db. \<not> has_ref refType refID r]\<rparr>) db'"
proof -
  let ?db1 = "db\<lparr>movements := [r \<leftarrow> movements db. \<not> has_ref refType refID r]\<rparr>"
  let ?refs = "[r \<leftarrow> movements db. has_ref refType refID r]"
  define movs where "movs = [\<lparr>ref_id = mv_id r, ref_item = mv_item r, ref_wh = mv_wh r\<rparr>.
      r \<leftarrow> movements db, has_ref refType refID r]"
  have movs: "movs = map (\<lambda>r. \<lparr>ref_id = mv_id r, ref_item = mv_item r, ref_wh = mv_wh r\<rparr>) ?refs"
    unfolding movs_def by (rule concat_map_if)
  have pairs: "pairs = pairsFromMovements movs" and run: "replayPairsInTx E pairs ?db1 = Inr db'"
  proof -
    have "?db1 = db" if "movs = []" using that by (auto simp: movs filter_empty_conv filter_id_conv)
    then show "pairs = pairsFromMovements movs" "replayPairsInTx E pairs ?db1 = Inr db'"
      using assms(1)
      by (auto simp: purgeMovementsByRef_def collectMovementsByRef_def movs_def[symmetric] res_simps Let_def
          split: if_splits)
  qed
  have set: "set pairs = {(mv_item r, mv_wh r) |r. r \<in> set (movements db) \<and> has_ref refType refID r}"
    by (auto simp: pairs pairsFromMovements_def movs)
  have small: "ledger_small Q ?db1" by (rule ledger_small_filter[OF assms(2)]) simp
  have "{k \<in> set pairs. fst k \<noteq> [] \<and> snd k \<noteq> []} - set [] = set pairs"
    using assms(4) by (auto simp: set keyed_def)
  then show ?thesis
    using replay_pairs_loop_rebuilt[OF run[unfolded replayPairsInTx_def] small assms(3)] set by simp
qed

lemma purge_balances:
  assumes "purgeMovementsByRef E refType refID db = Inr (pairs, db')"
    and "ledger_small Q db" "numeric_ok E" "keyed db" "bal_ok db"
  shows "bal_ok db' \<and> (\<forall>r\<in>set (movements db'). \<not> has_ref refType refID r)
    \<and> (\<forall>k. k \<notin> set pairs \<longrightarrow> balances db' k = balances db k)"
proof -
  let ?db1 = "db\<lparr>movements := [r \<leftarrow> movements db. \<not> has_ref refType refID r]\<rparr>"
  note e = purge_effect[OF assms(1-4)]
  then have r: "rebuilt (set pairs) ?db1 db'" by (rule conjunct2)
  have same: "same_ledger ?db1 db'" using r by (simp add: rebuilt_def)
  have "on_hand db' k = ledger_net ?db1 k" for k
  proof (cases "k \<in> set pairs")
    case True
    then show ?thesis using r by (simp add: rebuilt_def)
  next
    case False
    then have "balances db' k = balances db k" using r by (simp add: rebuilt_def)
    moreover have "ledger_net ?db1 k = ledger_net db k"
      by (rule ledger_net_filter_other[where P = "has_ref refType refID"]) (use False e in auto)
    ultimately show ?thesis using assms(5) by (simp add: on_hand_def bal_ok_def del: split_paired_All)
  qed
  then have "bal_ok db'" using same_ledger_net[OF same] by (simp add: bal_ok_def)
  moreover have "\<not> has_ref refType refID x" if "x \<in> set (movements db')" for x
  proof -
    have "map mv_core (movements db') = map mv_core (movements ?db1)" using same by (simp add: same_ledger_def)
    from core_mem[OF this that] obtain s where "s \<in> set (movements ?db1)" "mv_core s = mv_core x" by blast
    then show ?thesis using mv_core_eqD[of s x] by (simp add: has_ref_def)
  qed
  ultimately show ?thesis using r by (simp add: rebuilt_def)
qed

text \<open>
  Purging the movements of a document removes them all and repairs the balances: afterwards no
  ledger row refers to the document, and the on-hand column of every pair is again the exact net of
  the rows that are left.
\<close>

theorem purge_restores_balances:
  assumes "purgeMovementsByRef E refType refID db = Inr (pairs, db')"
    and "ledger_small Q db" "numeric_ok E" "keyed db" "bal_ok db"
  shows "bal_ok db' \<and> (\<forall>r\<in>set (movements db'). \<not> has_ref refType refID r)
    \<and> (\<forall>k. k \<notin> set pairs \<longrightarrow> balances db' k = balances db k)"
  using purge_balances[OF assms] .

section \<open>Recalculating a tenant\<close>

lemma recalc_pair_rebuilt:
  assumes "recalc_pair E pr (ccl, c, db) = Inr (ccl', c', db')" "ledger_small Q db" "numeric_ok E"
  shows "rebuilt {pr} db db' \<and> c' = Suc c"
proof -
  obtain cc :: costingContext and ms db1 where ms: "loadReplayMovements E db (fst pr) (snd pr) = Inr ms"
    and 1: "applyMovementSnapshots E (rr_snaps (replayMovements ms (cc_method cc))) db = Inr db1"
    and 2: "write_replay E (fst pr) (snd pr) (replayMovements ms (cc_method cc)) db1 = Inr db'"
    and c: "c' = Suc c"
    using assms(1) by (auto simp: recalc_pair_def Let_def res_simps)
  note u = snapshots_frame[OF 1]
  note v = write_replay_frame[OF 2]
  have "on_hand db' pr = ledger_net db pr" using v replayed_onhand[OF assms(2,3) ms] by simp
  then show ?thesis using u v c by (auto simp: rebuilt_def intro: same_ledger_trans)
qed

lemma efold_recalc_rebuilt:
  assumes "efold (recalc_pair E) ps (ccl, c, db) = Inr (ccl', c', db')" "ledger_small Q db" "numeric_ok E"
  shows "rebuilt (set ps) db db' \<and> c' = c + length ps"
  using assms(1,2)
proof (induction ps arbitrary: ccl c db)
  case Nil
  then show ?case by (simp add: rebuilt_def)
next
  case (Cons p ps)
  obtain ccl1 c1 db1 where 1: "recalc_pair E p (ccl, c, db) = Inr (ccl1, c1, db1)"
      "efold (recalc_pair E) ps (ccl1, c1, db1) = Inr (ccl', c', db')"
    using Cons.prems(1) by (auto simp: res_simps)
  note r = recalc_pair_rebuilt[OF 1(1) Cons.prems(2) assms(3)]
  then have "ledger_small Q db1" using Cons.prems(2) same_ledger_small by (auto simp: rebuilt_def)
  note IH = Cons.IH[OF 1(2) this]
  show ?case using rebuilt_trans[of "{p}" db db1 "set ps" db'] r IH by simp
qed

text \<open>
  Recalculating HPP for a whole tenant is allowed only to an owner of the inventory module, and
  when it succeeds it repairs every balance from the ledger, whatever the balances were: each pair
  with movements gets as on-hand quantity the exact net of its rows, the ledger itself keeps its
  rows and quantities, and the reported count is the number of pairs.
\<close>

theorem RecalculateHPP_repairs:
  assumes "RecalculateHPP E auth ord [] db = Inr (recomputed, db')" "ledger_small Q db" "numeric_ok E"
    and "\<And>xs. set (ord xs) = set xs \<and> length (ord xs) = length xs"
  shows "inventory_owner auth \<and> same_ledger db db'
    \<and> (\<forall>k. pair_rows db k \<noteq> [] \<longrightarrow> on_hand db' k = ledger_net db' k)
    \<and> (\<forall>k. pair_rows db k = [] \<longrightarrow> balances db' k = balances db k)
    \<and> recomputed = card {(mv_item r, mv_wh r) |r. r \<in> set (movements db)}"
proof -
  let ?ks = "[(mv_item r, mv_wh r). r \<leftarrow> movements db]"
  obtain u where u: "getUser auth = Inr u" "requireOwner u = Inr ()"
    using assms(1) by (auto simp: RecalculateHPP_def res_simps)
  obtain ccl where run: "efold (recalc_pair E) (ord (dedup ?ks)) (newCostingContextLoader, 0, db) = Inr (ccl, recomputed, db')"
    using assms(1) by (auto simp: RecalculateHPP_def movementPairs_def res_simps)
  from efold_recalc_rebuilt[OF run assms(2,3)] assms(4)[of "dedup ?ks"]
  have r: "rebuilt (set ?ks) db db'" and c: "recomputed = length (dedup ?ks)" by auto
  have ks: "pair_rows db k \<noteq> [] \<longleftrightarrow> k \<in> set ?ks" for k
    by (auto simp: pair_rows_def filter_empty_conv)
  have same: "same_ledger db db'" using r by (simp add: rebuilt_def)
  have "recomputed = card (set ?ks)" using c by (metis distinct_card distinct_dedup set_dedup)
  moreover have "set ?ks = {(mv_item r, mv_wh r) |r. r \<in> set (movements db)}" by auto
  ultimately have "recomputed = card {(mv_item r, mv_wh r) |r. r \<in> set (movements db)}" by simp
  moreover have "on_hand db' k = ledger_net db' k" if "pair_rows db k \<noteq> []" for k
    using r that unfolding ks rebuilt_def same_ledger_net[OF same] by blast
  moreover have "balances db' k = balances db k" if "pair_rows db k = []" for k
    using r that ks unfolding rebuilt_def by blast
  ultimately show ?thesis using same owner_guard[OF u] by blast
qed

section \<open>Totality\<close>

text \<open>When no statement fails, replaying, purging and recalculating succeed.\<close>

lemma write_replay_total: "healthy E \<Longrightarrow> returns (write_replay E i w res db)"
  by (auto simp: write_replay_def insert_replayed_def intro!: returns_intros)

lemma replayPairInTx_total: "healthy E \<Longrightarrow> returns (replayPairInTx E i w db)"
  by (auto simp: replayPairInTx_def loadCostingContext_def loadReplayMovements_def update_movement_def Let_def
      intro!: returns_intros write_replay_total)

lemma replay_pairs_total: "healthy E \<Longrightarrow> returns (replay_pairs_loop E seen ps db)"
proof (induction ps arbitrary: seen db)
  case (Cons p ps)
  then show ?case by (cases p) (auto intro!: returns_intros replayPairInTx_total)
qed (simp add: returns_intros)

lemma purge_total: "healthy E \<Longrightarrow> returns (purgeMovementsByRef E refType refID db)"
  by (auto simp: purgeMovementsByRef_def collectMovementsByRef_def replayPairsInTx_def Let_def
      intro!: returns_intros replay_pairs_total)

lemma snapshots_total:
  assumes "healthy E"
  shows "returns (applyMovementSnapshots E ss db)"
proof (induction "length ss" arbitrary: ss db rule: less_induct)
  case less
  show ?case
    by (subst applyMovementSnapshots.simps)
      (auto simp: applyMovementSnapshotsChunk_def assms intro!: returns_intros less)
qed

lemma ccl_load_total: "healthy E \<Longrightarrow> returns (ccl_load E db item c)"
  by (auto simp: ccl_load_def load_defaults_def Let_def intro!: returns_intros split: option.splits)

lemma recalc_pair_total: "healthy E \<Longrightarrow> returns (recalc_pair E p st)"
  by (auto simp: recalc_pair_def loadReplayMovements_def Let_def
      intro!: returns_intros ccl_load_total snapshots_total write_replay_total)

lemma RecalculateHPP_total:
  "healthy E \<Longrightarrow> getUser auth = Inr u \<Longrightarrow> requireOwner u = Inr () \<Longrightarrow> returns (RecalculateHPP E auth ord item db)"
  by (auto simp: RecalculateHPP_def movementPairs_def prepareTenant_def intro!: returns_intros recalc_pair_total)

section \<open>Witnesses\<close>

lemma sample_ledger: "ledger_small 30000 sample_db" "keyed sample_db"
  by (simp_all add: ledger_small_def keyed_def sample_defs)

theorem purge_restores_balances_witness:
  "\<exists>pairs db'. purgeMovementsByRef sample_env ''opening_balance'' ''d'' sample_db = Inr (pairs, db') \<and> bal_ok db'"
proof -
  obtain pairs db' where p: "purgeMovementsByRef sample_env ''opening_balance'' ''d'' sample_db = Inr (pairs, db')"
    using purge_total[OF sample_env_ok] by (force simp: returns_def)
  show ?thesis
    using purge_restores_balances[OF p sample_ledger(1) numeric_ok_sample sample_ledger(2) sample_facts(1)] p
    by blast
qed

definition sample_owner :: "AuthUser option" where
  "sample_owner = Some \<lparr>AccountID = ''a'', TenantSchema = ''t1'', Role = ''owner'', Impersonating = False,
     ImpersonationModules = []\<rparr>"

lemma sample_owner_ok: "getUser sample_owner = Inr (the sample_owner)" "requireOwner (the sample_owner) = Inr ()"
  by (simp_all add: sample_owner_def getUser_def requireOwner_def HasEffectiveTenantContext_def RequireModule_def
      CanPerformOwnerActions_def)

theorem RecalculateHPP_repairs_witness:
  "\<exists>n db'. RecalculateHPP sample_env sample_owner rev [] sample_db = Inr (n, db')
     \<and> on_hand db' (''p'', ''w'') = ledger_net db' (''p'', ''w'')"
proof -
  obtain n db' where r: "RecalculateHPP sample_env sample_owner rev [] sample_db = Inr (n, db')"
    using RecalculateHPP_total[OF sample_env_ok sample_owner_ok] by (force simp: returns_def)
  have "pair_rows sample_db (''p'', ''w'') \<noteq> []" by (simp add: pair_rows_def sample_defs)
  then show ?thesis
    using RecalculateHPP_repairs[OF r sample_ledger(1) numeric_ok_sample] r by simp
qed

section \<open>The cached costing context\<close>

definition ccl_defaults_ok :: "env \<Rightarrow> inv_db \<Rightarrow> costingContextLoader \<Rightarrow> bool" where
  "ccl_defaults_ok E db c \<longleftrightarrow> (defaultsLoaded c \<longrightarrow> \<not> db_fails E ''setting.select'' \<and> (case inv_setting db of
        None \<Rightarrow> defaultMethod c = CostingAverage \<and> blockNegative c
      | Some s \<Rightarrow> defaultMethod c = st_method s \<and> blockNegative c = st_block s))"

definition ccl_ok :: "env \<Rightarrow> inv_db \<Rightarrow> costingContextLoader \<Rightarrow> bool" where
  "ccl_ok E db c \<longleftrightarrow> ccl_defaults_ok E db c
     \<and> (\<forall>item cc. byItem c item = Some cc \<longrightarrow> loadCostingContext E db item = Inr cc)"

lemma ccl_defaults_byItem [simp]: "ccl_defaults_ok E db (c\<lparr>byItem := m\<rparr>) = ccl_defaults_ok E db c"
  by (simp add: ccl_defaults_ok_def split: option.splits)

lemma effective_default: "effectiveCostingMethod m CostingAverage = effectiveCostingMethod m []"
proof -
  have "normalizeCostingMethod CostingAverage = (CostingAverage, True)"
    "normalizeCostingMethod [] = ([], False)" by code_simp+
  then show ?thesis by (simp add: effectiveCostingMethod_def split: prod.splits bool.splits)
qed

text \<open>What loading the defaults first and the item's override second amounts to.\<close>

lemma load_defaults_agrees:
  assumes "ccl_defaults_ok E db c"
  shows "load_defaults E db c = Inl e \<Longrightarrow> loadCostingContext E db item = Inl e"
    and "load_defaults E db c = Inr c1 \<Longrightarrow> ccl_defaults_ok E db c1 \<and> byItem c1 = byItem c
      \<and> loadCostingContext E db item = ebind (sql E (''sku.method:'' @ item) (Inr (sku_override db item)))
          (\<lambda>override. Inr \<lparr>cc_method = effectiveCostingMethod override (defaultMethod c1), cc_block = blockNegative c1\<rparr>)"
  using assms
  by (auto simp: load_defaults_def ccl_defaults_ok_def loadCostingContext_def effective_default sql_def[of E "''setting.select''"]
      split: if_splits option.splits)

lemma ccl_load_agrees:
  assumes "ccl_ok E db c"
  shows "case ccl_load E db item c of
      Inl e \<Rightarrow> loadCostingContext E db item = Inl e
    | Inr (cc, c') \<Rightarrow> loadCostingContext E db item = Inr cc \<and> ccl_ok E db c'"
proof (cases "byItem c item")
  case (Some cc)
  then show ?thesis using assms by (simp add: ccl_load_def ccl_ok_def)
next
  case None
  have d: "ccl_defaults_ok E db c" using assms by (simp add: ccl_ok_def)
  show ?thesis
  proof (cases "load_defaults E db c")
    case (Inl e)
    then show ?thesis using None load_defaults_agrees(1)[OF d Inl] by (simp add: ccl_load_def)
  next
    case (Inr c1)
    note l = load_defaults_agrees(2)[OF d Inr, of item]
    show ?thesis
      using None Inr l assms
      by (cases "sql E (''sku.method:'' @ item) (Inr (sku_override db item))")
        (auto simp: ccl_load_def ccl_ok_def Let_def)
  qed
qed

text \<open>A request that resolves several items in turn, with the loader and without it.\<close>

fun load_cached :: "env \<Rightarrow> inv_db \<Rightarrow> string list \<Rightarrow> costingContextLoader \<Rightarrow> costingContext list res" where
  "load_cached E db [] c = Inr []"
| "load_cached E db (i # is) c =
     ebind (ccl_load E db i c) (\<lambda>(cc, c'). ebind (load_cached E db is c') (\<lambda>ccs. Inr (cc # ccs)))"

fun load_direct :: "env \<Rightarrow> inv_db \<Rightarrow> string list \<Rightarrow> costingContext list res" where
  "load_direct E db [] = Inr []"
| "load_direct E db (i # is) =
     ebind (loadCostingContext E db i) (\<lambda>cc. ebind (load_direct E db is) (\<lambda>ccs. Inr (cc # ccs)))"

text \<open>
  The caching loader of costing contexts gives every item of a request exactly the context, or
  the error, that loading it from the database gives.
\<close>

theorem costing_context_cache_transparent:
  "load_cached E db items newCostingContextLoader = load_direct E db items"
proof -
  have "load_cached E db items c = load_direct E db items" if "ccl_ok E db c" for c
    using that
  proof (induction items arbitrary: c)
    case (Cons i "is")
    then show ?case
      using ccl_load_agrees[OF Cons.prems, of i] by (auto split: sum.splits)
  qed simp
  then show ?thesis by (simp add: ccl_ok_def ccl_defaults_ok_def newCostingContextLoader_def)
qed

section \<open>Bulk and row-wise snapshots\<close>

definition write_snapshots :: "env \<Rightarrow> ReplaySnapshot list \<Rightarrow> movement_row \<Rightarrow> movement_row" where
  "write_snapshots E ss r = (case find_snapshot ss (mv_id r) of None \<Rightarrow> r | Some s \<Rightarrow> set_snapshot E s r)"

lemma write_snapshots_id [simp]: "mv_id (write_snapshots E ss r) = mv_id r"
  by (simp add: write_snapshots_def set_snapshot_def split: option.splits)

lemma write_snapshots_Nil [simp]: "write_snapshots E [] = (\<lambda>r. r)"
  by (simp add: write_snapshots_def find_snapshot_def fun_eq_iff)

lemma find_append: "find P (xs @ ys) = (case find P xs of None \<Rightarrow> find P ys | Some x \<Rightarrow> Some x)"
  by (induction xs) auto

lemma find_snapshot_None: "find_snapshot ss i = None \<longleftrightarrow> i \<notin> rs_id ` set ss"
  by (auto simp: find_snapshot_def find_None_iff)

lemma write_snapshots_append:
  assumes "distinct (map rs_id (xs @ ys))"
  shows "write_snapshots E ys (write_snapshots E xs r) = write_snapshots E (xs @ ys) r"
proof (cases "find_snapshot xs (mv_id r)")
  case None
  then show ?thesis by (simp add: write_snapshots_def find_snapshot_def find_append)
next
  case (Some s)
  then have "mv_id r \<in> rs_id ` set xs" using find_snapshot_None[of xs "mv_id r"] by auto
  then have "find_snapshot ys (mv_id r) = None" using assms by (auto simp: find_snapshot_None)
  then show ?thesis
    using Some by (simp add: write_snapshots_def find_snapshot_def find_append set_snapshot_def)
qed

lemma update_all:
  "healthy E \<Longrightarrow> distinct (map rs_id ss) \<Longrightarrow>
     efold (update_movement E) ss db = Inr (db\<lparr>movements := map (write_snapshots E ss) (movements db)\<rparr>)"
proof (induction ss arbitrary: db)
  case Nil
  then show ?case by (simp add: write_snapshots_def find_snapshot_def)
next
  case (Cons s ss)
  have one: "update_movement E s db = Inr (db\<lparr>movements := map (write_snapshots E [s]) (movements db)\<rparr>)"
    using Cons.prems(1)
    by (auto simp: update_movement_def write_snapshots_def find_snapshot_def)
  show ?case
    using Cons one write_snapshots_append[of "[s]" ss E] by (simp add: comp_def)
qed

lemma snapshots_all:
  "healthy E \<Longrightarrow> distinct (map rs_id ss) \<Longrightarrow>
     applyMovementSnapshots E ss db = Inr (db\<lparr>movements := map (write_snapshots E ss) (movements db)\<rparr>)"
proof (induction "length ss" arbitrary: ss db rule: less_induct)
  case less
  show ?case
  proof (cases "ss = []")
    case True
    then show ?thesis by (simp add: applyMovementSnapshots.simps)
  next
    case False
    let ?a = "take 100 ss" and ?b = "drop 100 ss"
    have chunk: "applyMovementSnapshotsChunk E ?a db = Inr (db\<lparr>movements := map (write_snapshots E ?a) (movements db)\<rparr>)"
      using False less.prems(1) unfolding applyMovementSnapshotsChunk_def write_snapshots_def by simp
    have "distinct (map rs_id (?a @ ?b))" using less.prems(2) by simp
    note join = write_snapshots_append[OF this, of E]
    have "length ?b < length ss" using False by simp
    moreover have "distinct (map rs_id ?b)" using less.prems(2) by (simp add: drop_map[symmetric])
    ultimately show ?thesis
      using less.hyps[of ?b "db\<lparr>movements := map (write_snapshots E ?a) (movements db)\<rparr>"] less.prems(1) False chunk join
      by (subst applyMovementSnapshots.simps) (simp add: comp_def)
  qed
qed

text \<open>
  The bulk update of \<open>RecalculateHPP\<close>, in chunks of one hundred snapshots, writes exactly what
  the row-by-row update of \<open>replayPairInTx\<close> writes.
\<close>

theorem snapshots_chunked_rowwise:
  assumes "healthy E" "distinct (map rs_id snaps)"
  shows "applyMovementSnapshots E snaps db = efold (update_movement E) snaps db"
  using snapshots_all[OF assms] update_all[OF assms] by simp

theorem snapshots_chunked_rowwise_witness:
  "applyMovementSnapshots sample_env
     (map (\<lambda>n. \<lparr>rs_id = replicate n CHR ''m'', rs_total = 1, rs_unit = 2, rs_qty = 3, rs_avg = 4\<rparr>) [0..<250]) sample_db
   = efold (update_movement sample_env)
     (map (\<lambda>n. \<lparr>rs_id = replicate n CHR ''m'', rs_total = 1, rs_unit = 2, rs_qty = 3, rs_avg = 4\<rparr>) [0..<250]) sample_db"
  by (rule snapshots_chunked_rowwise[OF sample_env_ok])
    (simp add: comp_def distinct_map inj_on_def replicate_eq_replicate)

section \<open>The order of replayed layers\<close>

lemma insert_replayed_received:
  assumes "efold (insert_replayed E i w) ls db = Inr db'"
    and "\<forall>r\<in>set (layers db). (ly_item r, ly_wh r) = (i, w) \<longrightarrow> ly_received r = db_now E"
  shows "\<forall>r\<in>set (layers db'). (ly_item r, ly_wh r) = (i, w) \<longrightarrow> ly_received r = db_now E"
  by (rule efold_invariant[where P = "\<lambda>db. \<forall>r\<in>set (layers db). (ly_item r, ly_wh r) = (i, w)
      \<longrightarrow> ly_received r = db_now E", OF assms]) (auto simp: insert_replayed_def res_simps)

lemma sorted_ids:
  assumes "\<forall>r\<in>set xs. ly_received r = t"
  shows "sorted (map ly_id (sort_key layer_key xs))"
proof -
  have "sorted (map layer_key (sort_key layer_key xs))" by simp
  moreover have "\<forall>r\<in>set (sort_key layer_key xs). ly_received r = t" using assms by simp
  moreover have "sorted (map layer_key ys) \<Longrightarrow> \<forall>r\<in>set ys. ly_received r = t \<Longrightarrow> sorted (map ly_id ys)" for ys
    by (induction ys) (auto simp: layer_key_def)
  ultimately show ?thesis by blast
qed

text \<open>
  C36: A replay forgets the arrival order of the layers it rebuilds. Every layer gets the time of the
  replay as its arrival, so the next FIFO issue takes them in the order of their freshly generated
  random identifiers, not oldest first, and a LIFO issue in the reverse of that order.
\<close>

theorem replay_forgets_arrival_order:
  assumes "replayPairInTx E i w db = Inr db'"
  shows "sorted (map ly_id (pick_layers db' i w CostingFIFO))
    \<and> (\<forall>r\<in>set (pair_layers db' (i, w)). ly_received r = db_now E)"
proof -
  obtain res :: ReplayResult and db1 db3 where 3: "efold (insert_replayed E i w) (rr_layers res) (delete_layers i w db1) = Inr db3"
      "db' = put_balance E i w (rr_onhand res) (rr_avg res) (rr_total res) db3"
    using assms by (auto simp: replayPairInTx_def write_replay_def Let_def res_simps)
  have r: "\<forall>r\<in>set (layers db'). (ly_item r, ly_wh r) = (i, w) \<longrightarrow> ly_received r = db_now E"
    using insert_replayed_received[OF 3(1)] 3(2) by (auto simp: delete_layers_def)
  then have "sorted (map ly_id (pick_layers db' i w CostingFIFO))"
    using sorted_ids[of "[r \<leftarrow> layers db'. ly_item r = i \<and> ly_wh r = w \<and> 0 < ly_qty r]" "db_now E"]
    by (simp add: pick_layers_def costing_names)
  then show ?thesis using r by (auto simp: pair_layers_def)
qed

theorem replay_forgets_arrival_order_witness:
  "\<exists>db'. replayPairInTx sample_env ''p'' ''w'' sample_db = Inr db'
     \<and> sorted (map ly_id (pick_layers db' ''p'' ''w'' CostingFIFO))"
proof -
  obtain db' where r: "replayPairInTx sample_env ''p'' ''w'' sample_db = Inr db'"
    using replayPairInTx_total[OF sample_env_ok, of "''p''" "''w''" sample_db] by (auto simp: returns_def)
  then show ?thesis using replay_forgets_arrival_order[OF r] by blast
qed

end
