(* ===== verification/Finance.thy ===== *)
theory Finance
  imports Auth "HOL-Library.Char_ord" "HOL-Library.List_Lexorder" "HOL-Library.Product_Lexorder"
begin

text \<open>
  The finance rows other modules post: \<open>finance/inventory_entry.go\<close> (cost of goods, losses,
  revaluations), \<open>finance/order_income.go\<close> (income of a completed order), the period lock
  (\<open>finance/helpers.go\<close>) and the wallet balance they refresh (\<open>finance/finance.go\<close>).

  Money is a count of cents, the unit of the NUMERIC(18,2) columns. The date \<open>today\<close> in the tenant's
  reporting time zone is an argument.
\<close>

section \<open>Tables\<close>

record fin_txn =
  ft_id :: string
  ft_type :: string
  ft_amount :: int
  ft_wallet :: string
  ft_to :: "string option"
  ft_category :: "string option"
  ft_desc :: "string option"
  ft_ref :: "string option"
  ft_date :: string
  ft_status :: string
  ft_by :: string
  ft_deleted :: bool

record wallet_row =
  wl_id :: string
  wl_type :: string
  wl_initial :: int
  wl_active :: bool
  wl_deleted :: bool
  wl_order :: int
  wl_created :: int

record category_row =
  ct_id :: string
  ct_name :: string
  ct_system :: bool
  ct_deleted :: bool

text \<open>\<open>type_flows\<close> holds the flow of the live rows of \<open>fin_transaction_type\<close>, by code.\<close>

record fin_db =
  txns :: "fin_txn list"
  wallets :: "wallet_row list"
  wallet_balance :: "string \<rightharpoonup> int"
  categories :: "category_row list"
  type_flows :: "string \<rightharpoonup> string"
  period_locks :: "string list"
  fin_next :: nat

section \<open>Periods\<close>

text \<open>\<open>nowPeriod\<close> is the current month, used for a string too short to be a date.\<close>

definition walletPeriod :: "string \<Rightarrow> string \<Rightarrow> string" where
  "walletPeriod nowPeriod d = (if length d \<ge> 7 then take 7 d else nowPeriod)"

definition periodLocked :: "env \<Rightarrow> fin_db \<Rightarrow> string \<Rightarrow> bool res" where
  "periodLocked E fd period = sql E ''period.locked'' (Inr (period \<in> set (period_locks fd)))"

definition ensurePeriodUnlocked :: "env \<Rightarrow> fin_db \<Rightarrow> string \<Rightarrow> unit res" where
  "ensurePeriodUnlocked E fd period = ebind (periodLocked E fd period) (\<lambda>locked.
     guard (\<not> locked) (Forbidden (''periode '' @ period @ '' sudah dikunci'')))"

definition CheckCurrentPeriodUnlocked :: "env \<Rightarrow> string \<Rightarrow> string \<Rightarrow> fin_db \<Rightarrow> unit res" where
  "CheckCurrentPeriodUnlocked E nowPeriod today fd =
     ebind (prepareTenant E) (\<lambda>_. ensurePeriodUnlocked E fd (walletPeriod nowPeriod today))"

text \<open>\<open>finance/period_check.go\<close>\<close>

definition CheckPeriodUnlockedForDate :: "env \<Rightarrow> string \<Rightarrow> string \<Rightarrow> fin_db \<Rightarrow> string \<Rightarrow> unit res" where
  "CheckPeriodUnlockedForDate E nowPeriod today fd dateStr =
     (let dateStr = trim_space dateStr in
      if dateStr = [] then CheckCurrentPeriodUnlocked E nowPeriod today fd
      else ebind (guard (parse_date dateStr \<noteq> None) (BadRequest ''format tanggal harus YYYY-MM-DD'')) (\<lambda>_.
           ebind (sql E ''tenant.prepare'' (Inr ())) (\<lambda>_.
           ensurePeriodUnlocked E fd (walletPeriod nowPeriod dateStr))))"

section \<open>Wallets\<close>

definition fallback_flow :: "string \<Rightarrow> string" where
  "fallback_flow ty =
     (if ty \<in> set [''income'', ''dividend'', ''interest'', ''cashback'', ''investment_sell''] then ''income''
      else if ty \<in> set [''expense'', ''investment_buy''] then ''expense''
      else if ty = ''transfer'' then ''transfer''
      else if ty = ''adjustment'' then ''adjustment''
      else ''expense'')"

definition txn_flow :: "fin_db \<Rightarrow> fin_txn \<Rightarrow> string" where
  "txn_flow fd t = (case type_flows fd (ft_type t) of Some f \<Rightarrow> f | None \<Rightarrow> fallback_flow (ft_type t))"

definition credit :: "fin_db \<Rightarrow> string \<Rightarrow> fin_txn \<Rightarrow> int" where
  "credit fd w t =
     (if txn_flow fd t = ''income'' \<and> ft_wallet t = w then ft_amount t
      else if txn_flow fd t = ''transfer'' \<and> ft_to t = Some w then ft_amount t
      else if txn_flow fd t = ''adjustment'' \<and> ft_wallet t = w \<and> ft_amount t > 0 then ft_amount t
      else 0)"

definition debit :: "fin_db \<Rightarrow> string \<Rightarrow> fin_txn \<Rightarrow> int" where
  "debit fd w t =
     (if txn_flow fd t = ''expense'' \<and> ft_wallet t = w then ft_amount t
      else if txn_flow fd t = ''transfer'' \<and> ft_wallet t = w \<and> ft_to t \<noteq> Some w then ft_amount t
      else if txn_flow fd t = ''adjustment'' \<and> ft_wallet t = w \<and> ft_amount t < 0 then \<bar>ft_amount t\<bar>
      else 0)"

definition counts_for :: "string \<Rightarrow> fin_txn \<Rightarrow> bool" where
  "counts_for w t \<longleftrightarrow> (ft_wallet t = w \<or> ft_to t = Some w) \<and> ft_status t = ''approved'' \<and> \<not> ft_deleted t"

definition wallet_net :: "fin_db \<Rightarrow> string \<Rightarrow> int" where
  "wallet_net fd w = sum_list (map (credit fd w) (filter (counts_for w) (txns fd)))
     - sum_list (map (debit fd w) (filter (counts_for w) (txns fd)))"

definition find_wallet :: "fin_db \<Rightarrow> string \<Rightarrow> wallet_row option" where
  "find_wallet fd w = find (\<lambda>r. wl_id r = w) (wallets fd)"

text \<open>\<open>refreshWallets\<close> logs a failure and goes on; a wallet that does not exist gets no balance row.\<close>

definition refreshWalletBalance :: "env \<Rightarrow> string \<Rightarrow> fin_db \<Rightarrow> fin_db res" where
  "refreshWalletBalance E w fd = sql_raw E (''wallet.refresh:'' @ w) (Inr (case find_wallet fd w of
       None \<Rightarrow> fd
     | Some r \<Rightarrow> fd\<lparr>wallet_balance := (wallet_balance fd)(w \<mapsto> wl_initial r + wallet_net fd w)\<rparr>))"

definition best_effort :: "'s res \<Rightarrow> 's \<Rightarrow> 's" where
  "best_effort r s = (case r of Inl e \<Rightarrow> s | Inr t \<Rightarrow> t)"

definition refreshWallets :: "env \<Rightarrow> string \<Rightarrow> string option \<Rightarrow> fin_db \<Rightarrow> fin_db" where
  "refreshWallets E w to fd =
     (let fd1 = (if w \<noteq> [] then best_effort (refreshWalletBalance E w fd) fd else fd)
      in case to of
           None \<Rightarrow> fd1
         | Some v \<Rightarrow> if v \<noteq> [] \<and> v \<noteq> w then best_effort (refreshWalletBalance E v fd1) fd1 else fd1)"

text \<open>\<open>ORDER BY CASE WHEN type = 'cash' THEN 0 ELSE 1 END, display_order, created_at LIMIT 1\<close>\<close>

definition wallet_rank :: "wallet_row \<Rightarrow> int \<times> int \<times> int" where
  "wallet_rank r = (if wl_type r = ''cash'' then 0 else 1, wl_order r, wl_created r)"

definition resolveDefaultIncomeWallet :: "env \<Rightarrow> fin_db \<Rightarrow> string res" where
  "resolveDefaultIncomeWallet E fd = sql E ''wallet.default''
     (case sort_key wallet_rank [r \<leftarrow> wallets fd. \<not> wl_deleted r \<and> wl_active r] of
        [] \<Rightarrow> Inl (BadRequest ''belum ada dompet aktif untuk mencatat pemasukan pesanan'')
      | r # _ \<Rightarrow> Inr (wl_id r))"

definition resolveIncomeWallet :: "env \<Rightarrow> fin_db \<Rightarrow> string \<Rightarrow> string res" where
  "resolveIncomeWallet E fd walletID = (let walletID = trim_space walletID in
     if walletID \<noteq> [] then
       ebind (sql E ''wallet.exists'' (Inr (list_ex (\<lambda>r. wl_id r = walletID \<and> \<not> wl_deleted r \<and> wl_active r) (wallets fd))))
         (\<lambda>exists. ebind (guard exists (BadRequest ''dompet pemasukan tidak valid atau tidak aktif'')) (\<lambda>_. Inr walletID))
     else resolveDefaultIncomeWallet E fd)"

definition ValidateIncomeWallet :: "env \<Rightarrow> fin_db \<Rightarrow> string \<Rightarrow> unit res" where
  "ValidateIncomeWallet E fd walletID =
     (if trim_space walletID = [] then Inr ()
      else ebind (prepareTenant E) (\<lambda>_. ebind (resolveIncomeWallet E fd walletID) (\<lambda>_. Inr ())))"

section \<open>Inventory entries (inventory_entry.go)\<close>

text \<open>The category lookup ignores its error.\<close>

definition system_category :: "env \<Rightarrow> fin_db \<Rightarrow> string \<Rightarrow> string option" where
  "system_category E fd name =
     (if db_fails E ''category.select'' then None
      else map_option ct_id (find (\<lambda>c. ct_name c = name \<and> \<not> ct_deleted c \<and> ct_system c) (categories fd)))"

definition nil_uuid :: string where
  "nil_uuid = ''00000000-0000-0000-0000-000000000000''"

definition insert_txn ::
  "env \<Rightarrow> string \<Rightarrow> int \<Rightarrow> string \<Rightarrow> string option \<Rightarrow> string \<Rightarrow> string option \<Rightarrow> string \<Rightarrow> string \<Rightarrow> fin_db \<Rightarrow> fin_db"
where
  "insert_txn E ty amount wallet category desc ref date by_id fd = fd\<lparr>fin_next := Suc (fin_next fd),
     txns := txns fd @ [\<lparr>ft_id = db_uuid E (fin_next fd), ft_type = ty, ft_amount = amount, ft_wallet = wallet,
       ft_to = None, ft_category = category, ft_desc = Some desc, ft_ref = ref, ft_date = date,
       ft_status = ''approved'', ft_by = by_id, ft_deleted = False\<rparr>]\<rparr>"

text \<open>\<open>CHECK (amount > 0)\<close>: an amount that the column rounds to nothing is refused.\<close>

definition amount_check :: "int \<Rightarrow> 'a res \<Rightarrow> 'a res" where
  "amount_check n r = (if n > 0 then r else Inl (Internal ''fin_transaction_amount_check''))"

lemma amount_check_Inr [res_simps]: "amount_check n r = Inr x \<longleftrightarrow> 0 < n \<and> r = Inr x"
  by (simp add: amount_check_def)

definition RecordInventoryEntry ::
  "env \<Rightarrow> string \<Rightarrow> string \<Rightarrow> string \<Rightarrow> string \<Rightarrow> string \<Rightarrow> string \<Rightarrow> string \<Rightarrow> rat \<Rightarrow> string \<Rightarrow> fin_db \<Rightarrow> fin_db res"
where
  "RecordInventoryEntry E nowPeriod today createdBy referenceNo flow categoryName description amount preferredWalletID fd =
     (if amount \<le> 0 then Inr fd
      else let flow = trim_space flow in
        ebind (guard (\<not> (flow \<noteq> ''income'' \<and> flow \<noteq> ''expense'')) (Internal ''inventory finance flow tidak valid'')) (\<lambda>_.
        let referenceNo = trim_space referenceNo in
        ebind (prepareTenant E) (\<lambda>_.
        ebind (resolveIncomeWallet E fd preferredWalletID) (\<lambda>wallet.
        let category = system_category E fd categoryName in
        ebind (ensurePeriodUnlocked E fd (walletPeriod nowPeriod today)) (\<lambda>_.
        let createdBy = (if createdBy = [] then nil_uuid else createdBy) in
        ebind (if referenceNo \<noteq> []
               then sql E ''txn.exists'' (Inr (list_ex (\<lambda>t. ft_ref t = Some referenceNo \<and> ft_type t = flow \<and> \<not> ft_deleted t) (txns fd)))
               else Inr False) (\<lambda>exists.
        if exists then Inr fd
        else ebind (sql E ''txn.insert'' (amount_check (db_money E amount) (Inr (insert_txn E flow (db_money E amount) wallet
                category description (if referenceNo \<noteq> [] then Some referenceNo else None) today createdBy fd)))) (\<lambda>fd'.
             Inr (refreshWallets E wallet None fd'))))))))"

definition uniqueReferenceNos :: "string list \<Rightarrow> string list" where
  "uniqueReferenceNos refs = dedup [trim_space r. r \<leftarrow> refs, trim_space r \<noteq> []]"

text \<open>The wallets come in any order \<open>SELECT DISTINCT\<close> gives; each is refreshed on its own.\<close>

definition removeInventoryEntriesChunk :: "env \<Rightarrow> string list \<Rightarrow> fin_db \<Rightarrow> fin_db res" where
  "removeInventoryEntriesChunk E refs fd =
     (if refs = [] then Inr fd
      else ebind (sql E ''txn.wallets'' (Inr (dedup [ft_wallet t. t \<leftarrow> txns fd, ft_ref t \<in> Some ` set refs]))) (\<lambda>ws.
        ebind (sql E ''txn.delete'' (Inr (fd\<lparr>txns := [t \<leftarrow> txns fd. ft_ref t \<notin> Some ` set refs]\<rparr>))) (\<lambda>fd'.
        Inr (fold (\<lambda>w. refreshWallets E w None) ws fd'))))"

function remove_chunks :: "env \<Rightarrow> string list \<Rightarrow> fin_db \<Rightarrow> fin_db out" where
  "remove_chunks E refs fd =
     (if refs = [] then (None, fd)
      else try_out fd (removeInventoryEntriesChunk E (take 200 refs) fd) (remove_chunks E (drop 200 refs)))"
  by pat_completeness auto
termination
  by (relation "measure (\<lambda>(E, refs, fd). length refs)") auto

declare remove_chunks.simps [simp del]

definition RemoveInventoryEntries :: "env \<Rightarrow> string list \<Rightarrow> fin_db \<Rightarrow> fin_db out" where
  "RemoveInventoryEntries E referenceNos fd =
     (let refs = uniqueReferenceNos referenceNos in
      if refs = [] then (None, fd)
      else try_out fd (prepareTenant E) (\<lambda>_. remove_chunks E refs fd))"

definition RemoveInventoryEntry :: "env \<Rightarrow> string \<Rightarrow> fin_db \<Rightarrow> fin_db out" where
  "RemoveInventoryEntry E referenceNo fd = RemoveInventoryEntries E [referenceNo] fd"

section \<open>Order income (order_income.go)\<close>

definition is_income_of :: "string \<Rightarrow> fin_txn \<Rightarrow> bool" where
  "is_income_of orderID t \<longleftrightarrow> ft_ref t = Some orderID \<and> ft_type t = ''income''"

text \<open>\<open>DELETE ... WHERE reference_no = $1 AND type = 'income' AND deleted_at IS NOT NULL\<close>\<close>

definition income_purged :: "string \<Rightarrow> fin_db \<Rightarrow> fin_db" where
  "income_purged i fd = fd\<lparr>txns := [t \<leftarrow> txns fd. \<not> (is_income_of i t \<and> ft_deleted t)]\<rparr>"

text \<open>
  \<open>INSERT ... ON CONFLICT DO NOTHING\<close> against the partial unique index
  \<open>idx_fin_txn_order_income_ref\<close>: live income rows have distinct references.
\<close>

definition recordOrderIncome ::
  "env \<Rightarrow> string \<Rightarrow> string \<Rightarrow> string \<Rightarrow> string \<Rightarrow> rat \<Rightarrow> string \<Rightarrow> fin_db \<Rightarrow> fin_db out"
where
  "recordOrderIncome E nowPeriod today createdBy orderID amount walletID fd =
     try_out fd (resolveIncomeWallet E fd walletID) (\<lambda>wallet.
     try_out fd (sql E ''income.purge'' (Inr (income_purged orderID fd))) (\<lambda>fd1.
     let category = system_category E fd1 ''Penjualan Produk'' in
     try_out fd1 (ensurePeriodUnlocked E fd1 (walletPeriod nowPeriod today)) (\<lambda>_.
     let createdBy = (if createdBy = [] then nil_uuid else createdBy) in
     try_out fd1 (sql E ''income.insert'' (amount_check (db_money E amount) (Inr ()))) (\<lambda>_.
     (None, if list_ex (\<lambda>t. is_income_of orderID t \<and> \<not> ft_deleted t) (txns fd1) then fd1
            else refreshWallets E wallet None (insert_txn E ''income'' (db_money E amount) wallet category
                   (''Pesanan #'' @ orderID) (Some orderID) today createdBy fd1))))))"

definition RecordOrderCompletedIncome ::
  "env \<Rightarrow> string \<Rightarrow> string \<Rightarrow> string \<Rightarrow> string \<Rightarrow> rat \<Rightarrow> string \<Rightarrow> fin_db \<Rightarrow> fin_db out"
where
  "RecordOrderCompletedIncome E nowPeriod today createdBy orderID amount walletID fd =
     (if amount \<le> 0 then (None, fd)
      else let orderID = trim_space orderID in
        if orderID = [] then (None, fd)
        else try_out fd (prepareTenant E) (\<lambda>_. recordOrderIncome E nowPeriod today createdBy orderID amount walletID fd))"

text \<open>Inside the caller's transaction an error undoes what was written.\<close>

definition RecordOrderCompletedIncomeTx ::
  "env \<Rightarrow> string \<Rightarrow> string \<Rightarrow> string \<Rightarrow> string \<Rightarrow> rat \<Rightarrow> string \<Rightarrow> fin_db \<Rightarrow> fin_db res"
where
  "RecordOrderCompletedIncomeTx E nowPeriod today createdBy orderID amount walletID fd =
     (if amount \<le> 0 then Inr fd
      else let orderID = trim_space orderID in
        if orderID = [] then Inr fd
        else ebind (prepareTenant E) (\<lambda>_.
          out_res (recordOrderIncome E nowPeriod today createdBy orderID amount walletID fd)))"

definition RemoveOrderIncomeTransaction :: "env \<Rightarrow> string \<Rightarrow> fin_db \<Rightarrow> fin_db res" where
  "RemoveOrderIncomeTransaction E orderID fd =
     (let orderID = trim_space orderID in
      if orderID = [] then Inr fd
      else ebind (prepareTenant E) (\<lambda>_.
        ebind (sql E ''income.wallets'' (Inr (dedup [ft_wallet t. t \<leftarrow> txns fd, is_income_of orderID t]))) (\<lambda>ws.
        ebind (sql E ''income.delete'' (Inr (fd\<lparr>txns := [t \<leftarrow> txns fd. \<not> is_income_of orderID t]\<rparr>))) (\<lambda>fd'.
        Inr (if length (txns fd') = length (txns fd) then fd' else fold (\<lambda>w. refreshWallets E w None) ws fd')))))"

definition ResyncOrderCompletedIncome ::
  "env \<Rightarrow> string \<Rightarrow> string \<Rightarrow> string \<Rightarrow> string \<Rightarrow> rat \<Rightarrow> string \<Rightarrow> fin_db \<Rightarrow> fin_db out"
where
  "ResyncOrderCompletedIncome E nowPeriod today createdBy orderID amount walletID fd =
     (let orderID = trim_space orderID in
      if orderID = [] then (None, fd)
      else if amount \<le> 0 then try_out fd (RemoveOrderIncomeTransaction E orderID fd) (\<lambda>fd'. (None, fd'))
      else try_out fd (CheckCurrentPeriodUnlocked E nowPeriod today fd) (\<lambda>_.
           try_out fd (RemoveOrderIncomeTransaction E orderID fd)
             (RecordOrderCompletedIncome E nowPeriod today createdBy orderID amount walletID)))"

section \<open>Wallet balances\<close>

text \<open>A wallet's stored balance is its initial balance plus the net of its approved, live rows.\<close>

definition wallet_ok :: "fin_db \<Rightarrow> string \<Rightarrow> bool" where
  "wallet_ok fd w \<longleftrightarrow> (case find_wallet fd w of None \<Rightarrow> True
     | Some r \<Rightarrow> wallet_balance fd w = Some (wl_initial r + wallet_net fd w))"

lemma wallet_ok_cong:
  "wallet_balance b v = wallet_balance a v \<Longrightarrow> find_wallet b v = find_wallet a v
     \<Longrightarrow> wallet_net b v = wallet_net a v \<Longrightarrow> wallet_ok b v = wallet_ok a v"
  by (simp add: wallet_ok_def split: option.splits)

text \<open>
  The state the posting functions work on: wallets have identifiers, only plain rows carry a
  reference (a transfer has none), and every order has at most one live income row.
\<close>

definition fin_wf :: "fin_db \<Rightarrow> bool" where
  "fin_wf fd \<longleftrightarrow> (\<forall>r\<in>set (wallets fd). wl_id r \<noteq> []) \<and> (\<forall>t\<in>set (txns fd). ft_ref t \<noteq> None \<longrightarrow> ft_to t = None)
     \<and> (\<forall>i. length [t \<leftarrow> txns fd. is_income_of i t \<and> \<not> ft_deleted t] \<le> 1)"

definition books_ok :: "fin_db \<Rightarrow> bool" where
  "books_ok fd \<longleftrightarrow> fin_wf fd \<and> (\<forall>w. wallet_ok fd w)"

definition refresh_ok :: "env \<Rightarrow> bool" where
  "refresh_ok E \<longleftrightarrow> (\<forall>w. \<not> db_fails E (''wallet.refresh:'' @ w))"

text \<open>What does not change: everything but the rows and the balances.\<close>

definition same_setup :: "fin_db \<Rightarrow> fin_db \<Rightarrow> bool" where
  "same_setup a b \<longleftrightarrow> wallets b = wallets a \<and> categories b = categories a \<and> type_flows b = type_flows a
     \<and> period_locks b = period_locks a"

lemma same_setup_refl [simp]: "same_setup a a"
  by (simp add: same_setup_def)

lemma same_setup_trans: "same_setup a b \<Longrightarrow> same_setup b c \<Longrightarrow> same_setup a c"
  by (simp add: same_setup_def)

lemma refreshWallets_frame:
  "txns (refreshWallets E w None fd) = txns fd \<and> same_setup fd (refreshWallets E w None fd)"
  by (auto simp: refreshWallets_def refreshWalletBalance_def best_effort_def sql_raw_def same_setup_def Let_def
      split: option.splits)

lemma fold_refresh_frame:
  "txns (fold (\<lambda>w. refreshWallets E w None) ws fd) = txns fd
     \<and> same_setup fd (fold (\<lambda>w. refreshWallets E w None) ws fd)"
proof (induction ws arbitrary: fd)
  case (Cons w ws)
  then show ?case
    using refreshWallets_frame[of E w fd] Cons[of "refreshWallets E w None fd"] by (auto intro: same_setup_trans)
qed simp

lemma wallet_net_frame: "same_setup a b \<Longrightarrow> txns b = txns a \<Longrightarrow> wallet_net b w = wallet_net a w"
proof -
  assume *: "same_setup a b" "txns b = txns a"
  then have "txn_flow b = txn_flow a" by (auto simp: same_setup_def txn_flow_def fun_eq_iff)
  then have "credit b w = credit a w" "debit b w = debit a w" by (simp_all add: credit_def debit_def fun_eq_iff)
  then show ?thesis using * by (simp add: wallet_net_def)
qed

lemma find_wallet_frame: "same_setup a b \<Longrightarrow> find_wallet b w = find_wallet a w"
  by (simp add: find_wallet_def same_setup_def)

lemma refreshWallets_ok:
  assumes "refresh_ok E"
  shows "w \<noteq> [] \<Longrightarrow> wallet_ok (refreshWallets E w None fd) w"
    and "v \<noteq> w \<Longrightarrow> wallet_ok fd v \<Longrightarrow> wallet_ok (refreshWallets E w None fd) v"
proof -
  let ?fd = "refreshWallets E w None fd"
  have n: "wallet_net ?fd v = wallet_net fd v" "find_wallet ?fd v = find_wallet fd v" for v
    using refreshWallets_frame wallet_net_frame find_wallet_frame by blast+
  have run: "?fd = (if w \<noteq> [] then (case find_wallet fd w of None \<Rightarrow> fd
      | Some r \<Rightarrow> fd\<lparr>wallet_balance := (wallet_balance fd)(w \<mapsto> wl_initial r + wallet_net fd w)\<rparr>) else fd)"
    using assms by (simp add: refreshWallets_def refreshWalletBalance_def best_effort_def refresh_ok_def)
  show "w \<noteq> [] \<Longrightarrow> wallet_ok ?fd w" unfolding wallet_ok_def n by (auto simp: run split: option.splits)
  show "v \<noteq> w \<Longrightarrow> wallet_ok fd v \<Longrightarrow> wallet_ok ?fd v"
    unfolding wallet_ok_def n by (auto simp: run split: option.splits)
qed

lemma fold_refresh_ok:
  assumes "refresh_ok E" "\<forall>v. v \<notin> set ws \<longrightarrow> wallet_ok fd v" "\<forall>r\<in>set (wallets fd). wl_id r \<noteq> []"
  shows "wallet_ok (fold (\<lambda>w. refreshWallets E w None) ws fd) v"
  using assms(2,3)
proof (induction ws arbitrary: fd)
  case (Cons w ws)
  let ?fd = "refreshWallets E w None fd"
  have w: "wallets ?fd = wallets fd" using refreshWallets_frame[of E w fd] by (simp add: same_setup_def)
  have "wallet_ok ?fd w"
  proof (cases "w = []")
    case True
    then have "find_wallet fd w = None" using Cons.prems(2) by (auto simp: find_wallet_def find_None_iff)
    then show ?thesis using w by (simp add: wallet_ok_def find_wallet_def)
  qed (rule refreshWallets_ok(1)[OF assms(1)])
  then have "\<forall>v. v \<notin> set ws \<longrightarrow> wallet_ok ?fd v"
    using refreshWallets_ok(2)[OF assms(1)] Cons.prems(1) by (metis set_ConsD)
  then show ?case using Cons.IH[of ?fd] Cons.prems(2) w by simp
qed simp

lemma wallet_net_filter:
  assumes "\<forall>t\<in>set (txns fd). \<not> P t \<longrightarrow> \<not> counts_for w t"
  shows "wallet_net (fd\<lparr>txns := filter P (txns fd)\<rparr>) w = wallet_net fd w"
proof -
  have "filter (counts_for w) (filter P (txns fd)) = filter (counts_for w) (txns fd)"
    using assms by (auto simp: filter_filter intro: filter_cong)
  moreover have "credit (fd\<lparr>txns := ts\<rparr>) = credit fd" "debit (fd\<lparr>txns := ts\<rparr>) = debit fd" for ts
    by (simp_all add: fun_eq_iff credit_def debit_def txn_flow_def)
  ultimately show ?thesis by (simp add: wallet_net_def)
qed

lemma wallet_net_insert_other:
  "v \<noteq> w \<Longrightarrow> wallet_net (insert_txn E ty a w c d r dt b fd) v = wallet_net fd v"
proof -
  assume "v \<noteq> w"
  then have "\<not> counts_for v \<lparr>ft_id = i, ft_type = ty, ft_amount = a, ft_wallet = w, ft_to = None, ft_category = c,
     ft_desc = Some d, ft_ref = r, ft_date = dt, ft_status = ''approved'', ft_by = b, ft_deleted = False\<rparr>" for i
    by (simp add: counts_for_def)
  moreover have "credit (insert_txn E ty a w c d r dt b fd) = credit fd" "debit (insert_txn E ty a w c d r dt b fd) = debit fd"
    by (simp_all add: fun_eq_iff credit_def debit_def txn_flow_def insert_txn_def)
  ultimately show ?thesis by (simp add: wallet_net_def insert_txn_def)
qed

lemma insert_txn_setup: "same_setup fd (insert_txn E ty a w c d r dt b fd)"
  by (simp add: same_setup_def insert_txn_def)

text \<open>Adding a row and refreshing its wallet keeps the books.\<close>

lemma insert_refresh_books:
  assumes "books_ok fd" "refresh_ok E" "w \<noteq> []"
    and "ty = ''income'' \<Longrightarrow> \<forall>i. r = Some i \<longrightarrow> (\<forall>t\<in>set (txns fd). \<not> (is_income_of i t \<and> \<not> ft_deleted t))"
  shows "books_ok (refreshWallets E w None (insert_txn E ty a w c d r dt b fd))"
proof -
  let ?m = "insert_txn E ty a w c d r dt b fd"
  let ?fd = "refreshWallets E w None ?m"
  note s = insert_txn_setup[of fd E ty a w c d r dt b]
  have "wallet_ok ?fd v" for v
  proof (cases "v = w")
    case True
    then show ?thesis using refreshWallets_ok(1)[OF assms(2,3)] by simp
  next
    case False
    have "wallet_balance ?m v = wallet_balance fd v" by (simp add: insert_txn_def)
    then have "wallet_ok ?m v = wallet_ok fd v"
      using wallet_net_insert_other[OF False] find_wallet_frame[OF s] by (intro wallet_ok_cong)
    then have "wallet_ok ?m v" using assms(1) by (simp add: books_ok_def)
    then show ?thesis using refreshWallets_ok(2)[OF assms(2) False] by blast
  qed
  moreover have "fin_wf ?m"
    using assms(1,4) by (auto simp: books_ok_def fin_wf_def insert_txn_def is_income_of_def filter_empty_conv)
  then have "fin_wf ?fd"
    using refreshWallets_frame[of E w ?m] by (simp add: fin_wf_def same_setup_def)
  ultimately show ?thesis by (simp add: books_ok_def)
qed

text \<open>Deleting rows that carry a reference and refreshing their wallets keeps the books.\<close>

lemma delete_refresh_books:
  assumes "books_ok fd" "refresh_ok E" "\<forall>t\<in>set (txns fd). P t \<longrightarrow> ft_ref t \<noteq> None"
    and ws: "set ws = {ft_wallet t |t. t \<in> set (txns fd) \<and> P t}"
  shows "books_ok (fold (\<lambda>w. refreshWallets E w None) ws (fd\<lparr>txns := [t \<leftarrow> txns fd. \<not> P t]\<rparr>))"
proof -
  let ?m = "fd\<lparr>txns := [t \<leftarrow> txns fd. \<not> P t]\<rparr>"
  have "wallet_ok ?m v" if "v \<notin> set ws" for v
  proof -
    have "wallet_net ?m v = wallet_net fd v"
    proof (rule wallet_net_filter, safe)
      fix t assume t: "t \<in> set (txns fd)" "P t" "counts_for v t"
      then have "ft_to t = None" "ft_wallet t \<in> set ws"
        using assms(1,3) ws by (auto simp: books_ok_def fin_wf_def)
      then show False using t(3) that by (auto simp: counts_for_def)
    qed
    moreover have "wallet_balance ?m v = wallet_balance fd v" "find_wallet ?m v = find_wallet fd v"
      by (simp_all add: find_wallet_def)
    ultimately have "wallet_ok ?m v = wallet_ok fd v" by (intro wallet_ok_cong)
    then show ?thesis using assms(1) by (simp add: books_ok_def)
  qed
  then have "wallet_ok (fold (\<lambda>w. refreshWallets E w None) ws ?m) v" for v
    using assms(1,2) by (intro fold_refresh_ok) (auto simp: books_ok_def fin_wf_def)
  moreover have "fin_wf ?m"
  proof -
    have "length (filter A (filter B xs)) \<le> length (filter A xs)" for A B and xs :: "fin_txn list"
      by (induction xs) auto
    from order_trans[OF this] show ?thesis using assms(1) by (auto simp: books_ok_def fin_wf_def)
  qed
  then have "fin_wf (fold (\<lambda>w. refreshWallets E w None) ws ?m)"
    using fold_refresh_frame[of E ws ?m] by (simp add: fin_wf_def same_setup_def)
  ultimately show ?thesis by (simp add: books_ok_def)
qed

lemma resolve_wallet_id:
  assumes "resolveIncomeWallet E fd w = Inr v" "\<forall>r\<in>set (wallets fd). wl_id r \<noteq> []"
  shows "v \<noteq> []"
proof -
  let ?active = "sort_key wallet_rank [r \<leftarrow> wallets fd. \<not> wl_deleted r \<and> wl_active r]"
  have sub: "set ?active \<subseteq> set (wallets fd)" by auto
  show ?thesis
  proof (cases "trim_space w = []")
    case True
    then obtain r rs where "?active = r # rs" "v = wl_id r"
      using assms(1) by (auto simp: resolveIncomeWallet_def resolveDefaultIncomeWallet_def sql_eq_Inr split: list.splits)
    then show ?thesis using sub assms(2) by auto
  next
    case False
    then show ?thesis using assms(1) by (auto simp: resolveIncomeWallet_def Let_def res_simps)
  qed
qed

lemma resolve_wallet_frame: "same_setup a b \<Longrightarrow> resolveIncomeWallet E b w = resolveIncomeWallet E a w"
  by (simp add: resolveIncomeWallet_def resolveDefaultIncomeWallet_def same_setup_def Let_def)

lemma period_frame: "same_setup a b \<Longrightarrow> ensurePeriodUnlocked E b p = ensurePeriodUnlocked E a p"
  by (simp add: ensurePeriodUnlocked_def periodLocked_def same_setup_def)

section \<open>Posting keeps the books\<close>

lemma RecordInventoryEntryE:
  assumes "RecordInventoryEntry E np td cb ref flow cat desc amount pw fd = Inr fd'"
  obtains (unchanged) "fd' = fd"
    | (posted) wallet category by_id where "resolveIncomeWallet E fd pw = Inr wallet"
      "trim_space ref \<noteq> [] \<longrightarrow> \<not> list_ex (\<lambda>t. ft_ref t = Some (trim_space ref) \<and> ft_type t = trim_space flow
        \<and> \<not> ft_deleted t) (txns fd)"
      "fd' = refreshWallets E wallet None (insert_txn E (trim_space flow) (db_money E amount) wallet category desc
        (if trim_space ref \<noteq> [] then Some (trim_space ref) else None) td by_id fd)"
proof (cases "fd' = fd")
  case False
  then show ?thesis
    using assms posted by (auto simp: RecordInventoryEntry_def Let_def res_simps split: if_splits)
qed (rule unchanged)

lemma RecordInventoryEntry_books:
  assumes "RecordInventoryEntry E np td cb ref flow cat desc amount pw fd = Inr fd'" "books_ok fd" "refresh_ok E"
  shows "books_ok fd'"
  using assms(1)
proof (cases rule: RecordInventoryEntryE)
  case (posted wallet category by_id)
  have "wallet \<noteq> []" using resolve_wallet_id[OF posted(1)] assms(2) by (simp add: books_ok_def fin_wf_def)
  then show ?thesis unfolding posted(3)
    by (rule insert_refresh_books[OF assms(2,3)])
      (use posted(2) in \<open>auto simp: is_income_of_def list_ex_iff split: if_splits\<close>)
qed (use assms in simp)

lemma removeChunk_books:
  assumes "removeInventoryEntriesChunk E refs fd = Inr fd'" "books_ok fd" "refresh_ok E"
  shows "books_ok fd'"
proof (cases "refs = []")
  case False
  let ?P = "\<lambda>t. ft_ref t \<in> Some ` set refs"
  have "fd' = fold (\<lambda>w. refreshWallets E w None) (dedup [ft_wallet t. t \<leftarrow> txns fd, ?P t])
      (fd\<lparr>txns := [t \<leftarrow> txns fd. \<not> ?P t]\<rparr>)"
    using assms(1) False by (auto simp: removeInventoryEntriesChunk_def res_simps)
  moreover have "set (dedup [ft_wallet t. t \<leftarrow> txns fd, ?P t]) = {ft_wallet t |t. t \<in> set (txns fd) \<and> ?P t}"
    by (auto simp: concat_map_if)
  moreover have "\<forall>t\<in>set (txns fd). ?P t \<longrightarrow> ft_ref t \<noteq> None" by auto
  ultimately show ?thesis using delete_refresh_books[OF assms(2,3), of ?P] by (simp only:)
qed (use assms in \<open>simp add: removeInventoryEntriesChunk_def\<close>)

lemma remove_chunks_invariant:
  assumes "remove_chunks E refs fd = (e, fd')" "P fd"
    and "\<And>rs a b. removeInventoryEntriesChunk E rs a = Inr b \<Longrightarrow> P a \<Longrightarrow> P b"
  shows "P fd'"
  using assms(1,2)
proof (induction "length refs" arbitrary: refs fd rule: less_induct)
  case less
  show ?case
  proof (cases "refs = []")
    case False
    have "length (drop 200 refs) < length refs" using False by simp
    note IH = less.hyps[OF this]
    have "removeInventoryEntriesChunk E (take 200 refs) fd = Inl x \<Longrightarrow> P fd'"
      "removeInventoryEntriesChunk E (take 200 refs) fd = Inr m \<Longrightarrow> P fd'" for x m
      using less.prems IH assms(3) False by (subst (asm) remove_chunks.simps; auto)+
    then show ?thesis by (cases "removeInventoryEntriesChunk E (take 200 refs) fd") auto
  qed (use less.prems in \<open>simp add: remove_chunks.simps\<close>)
qed

lemma RemoveInventoryEntries_books:
  assumes "RemoveInventoryEntries E refs fd = (e, fd')" "books_ok fd" "refresh_ok E"
  shows "books_ok fd'"
proof (cases "fd' = fd")
  case False
  then have "remove_chunks E (uniqueReferenceNos refs) fd = (e, fd')"
    using assms(1) by (auto simp: RemoveInventoryEntries_def Let_def try_out_eq split: if_splits)
  then show ?thesis
    by (rule remove_chunks_invariant[where P = books_ok, OF _ assms(2)]) (rule removeChunk_books[OF _ _ assms(3)])
qed (use assms in simp)

lemma purge_deleted_books:
  assumes "books_ok fd" "\<And>t. P t \<Longrightarrow> ft_deleted t"
  shows "books_ok (fd\<lparr>txns := [t \<leftarrow> txns fd. \<not> P t]\<rparr>)"
proof -
  let ?m = "fd\<lparr>txns := [t \<leftarrow> txns fd. \<not> P t]\<rparr>"
  have "wallet_ok ?m v = wallet_ok fd v" for v
  proof (rule wallet_ok_cong)
    show "wallet_net ?m v = wallet_net fd v"
      by (rule wallet_net_filter) (auto simp: counts_for_def dest: assms(2))
  qed (simp_all add: find_wallet_def)
  moreover have "[t \<leftarrow> txns ?m. is_income_of i t \<and> \<not> ft_deleted t] = [t \<leftarrow> txns fd. is_income_of i t \<and> \<not> ft_deleted t]" for i
    using assms(2) by (auto intro: filter_cong)
  ultimately show ?thesis using assms(1) by (simp add: books_ok_def fin_wf_def)
qed

lemma recordOrderIncomeE:
  assumes "recordOrderIncome E np td cb i amount wid fd = (e, fd')"
  obtains (untouched) "fd' = fd" "e \<noteq> None"
    | (purged) "fd' = income_purged i fd"
        "e = None \<longrightarrow> list_ex (\<lambda>t. is_income_of i t \<and> \<not> ft_deleted t) (txns (income_purged i fd))"
    | (posted) wallet category by_id where "resolveIncomeWallet E fd wid = Inr wallet"
        "\<not> list_ex (\<lambda>t. is_income_of i t \<and> \<not> ft_deleted t) (txns (income_purged i fd))"
        "fd' = refreshWallets E wallet None (insert_txn E ''income'' (db_money E amount) wallet
          category (''Pesanan #'' @ i) (Some i) td by_id (income_purged i fd))"
proof -
  let ?has = "list_ex (\<lambda>t. is_income_of i t \<and> \<not> ft_deleted t) (txns (income_purged i fd))"
  let ?new = "\<lambda>w. refreshWallets E w None (insert_txn E ''income'' (db_money E amount) w
      (system_category E (income_purged i fd) ''Penjualan Produk'') (''Pesanan #'' @ i) (Some i) td
      (if cb = [] then nil_uuid else cb) (income_purged i fd))"
  have "fd' = fd \<and> e \<noteq> None \<or> fd' = income_purged i fd \<and> e \<noteq> None
      \<or> (\<exists>w. resolveIncomeWallet E fd wid = Inr w \<and> fd' = (if ?has then income_purged i fd else ?new w))"
    using assms unfolding recordOrderIncome_def Let_def try_out_eq sql_eq_Inr by auto
  then show ?thesis using untouched purged posted by (cases ?has) auto
qed

lemma recordOrderIncome_books:
  assumes "recordOrderIncome E np td cb i amount wid fd = (e, fd')" "books_ok fd" "refresh_ok E"
  shows "books_ok fd'"
proof -
  have p: "books_ok (income_purged i fd)"
    unfolding income_purged_def by (rule purge_deleted_books[OF assms(2)]) simp
  from assms(1) show ?thesis
  proof (cases rule: recordOrderIncomeE)
    case (posted wallet category by_id)
    have "wallet \<noteq> []" using resolve_wallet_id[OF posted(1)] assms(2) by (simp add: books_ok_def fin_wf_def)
    then show ?thesis
      using insert_refresh_books[OF p assms(3)] posted(2,3) by (simp add: list_ex_iff)
  qed (use p assms(2) in simp_all)
qed

lemma RecordOrderCompletedIncome_books:
  "RecordOrderCompletedIncome E np td cb i amount wid fd = (e, fd') \<Longrightarrow> books_ok fd \<Longrightarrow> refresh_ok E \<Longrightarrow> books_ok fd'"
  by (auto simp: RecordOrderCompletedIncome_def Let_def try_out_eq intro: recordOrderIncome_books split: if_splits)

lemma RemoveOrderIncome_books:
  assumes "RemoveOrderIncomeTransaction E i fd = Inr fd'" "books_ok fd" "refresh_ok E"
  shows "books_ok fd'"
proof (cases "trim_space i = []")
  case False
  let ?P = "is_income_of (trim_space i)"
  let ?m = "fd\<lparr>txns := [t \<leftarrow> txns fd. \<not> ?P t]\<rparr>"
  have fd': "fd' = (if length (txns ?m) = length (txns fd) then ?m
      else fold (\<lambda>w. refreshWallets E w None) (dedup [ft_wallet t. t \<leftarrow> txns fd, ?P t]) ?m)"
    using assms(1) False by (auto simp: RemoveOrderIncomeTransaction_def Let_def res_simps)
  have "?m = fd" if "length (txns ?m) = length (txns fd)"
    using that filter_same_length[of "\<lambda>t. \<not> ?P t" "txns fd"] by simp
  moreover have "books_ok (fold (\<lambda>w. refreshWallets E w None) (dedup [ft_wallet t. t \<leftarrow> txns fd, ?P t]) ?m)"
    by (rule delete_refresh_books[OF assms(2,3)]) (auto simp: is_income_of_def concat_map_if)
  ultimately show ?thesis using assms(2) fd' by (auto split: if_splits)
qed (use assms in \<open>simp add: RemoveOrderIncomeTransaction_def\<close>)

section \<open>Properties\<close>

text \<open>The finance operations other modules run, one after the other, whatever their outcome.\<close>

inductive fin_step :: "env \<Rightarrow> fin_db \<Rightarrow> fin_db \<Rightarrow> bool" for E where
  record_entry: "RecordInventoryEntry E np td cb ref flow cat desc amount pw fd = Inr fd' \<Longrightarrow> fin_step E fd fd'"
| remove_entries: "RemoveInventoryEntries E refs fd = (e, fd') \<Longrightarrow> fin_step E fd fd'"
| record_income: "RecordOrderCompletedIncome E np td cb i amount wid fd = (e, fd') \<Longrightarrow> fin_step E fd fd'"
| remove_income: "RemoveOrderIncomeTransaction E i fd = Inr fd' \<Longrightarrow> fin_step E fd fd'"

inductive_cases fin_stepE: "fin_step E fd fd'"

lemma fin_step_books: "fin_step E fd fd' \<Longrightarrow> books_ok fd \<Longrightarrow> refresh_ok E \<Longrightarrow> books_ok fd'"
  by (elim fin_stepE) (auto intro: RecordInventoryEntry_books RemoveInventoryEntries_books
      RecordOrderCompletedIncome_books RemoveOrderIncome_books)

text \<open>
  However inventory entries and order incomes are recorded and removed, every wallet's stored
  balance stays its initial balance plus the net of its approved rows, and no order ever has two
  live income rows.
\<close>

theorem finance_books_balance:
  assumes "(fin_step E)\<^sup>*\<^sup>* fd fd'" "books_ok fd" "refresh_ok E"
  shows "(\<forall>w r. find_wallet fd' w = Some r \<longrightarrow> wallet_balance fd' w = Some (wl_initial r + wallet_net fd' w))
    \<and> (\<forall>i. length [t \<leftarrow> txns fd'. is_income_of i t \<and> \<not> ft_deleted t] \<le> 1)"
proof -
  have "books_ok fd'"
    using assms by (induction rule: rtranclp_induct) (auto intro: fin_step_books)
  then show ?thesis by (auto simp: books_ok_def fin_wf_def wallet_ok_def split: option.splits)
qed

lemma insert_refresh_setup: "same_setup fd (refreshWallets E w None (insert_txn E ty a w c d r dt b fd))"
  using refreshWallets_frame[of E w "insert_txn E ty a w c d r dt b fd"] insert_txn_setup[of fd E ty a w c d r dt b]
  by (blast intro: same_setup_trans)

lemma insert_refresh_mem:
  "\<exists>t\<in>set (txns (refreshWallets E w None (insert_txn E ty a w c d r dt b fd))).
     ft_type t = ty \<and> ft_ref t = r \<and> \<not> ft_deleted t \<and> ft_amount t = a \<and> ft_wallet t = w"
  using refreshWallets_frame[of E w "insert_txn E ty a w c d r dt b fd"]
  by (auto simp: insert_txn_def)

text \<open>
  Posting an inventory entry is idempotent: the same posting again, with the same reference and
  flow, changes nothing, so a retried stock event never books its cost twice.
\<close>

theorem RecordInventoryEntry_idempotent:
  assumes "RecordInventoryEntry E np td cb ref flow cat desc amount pw fd = Inr fd'" "trim_space ref \<noteq> []"
  shows "RecordInventoryEntry E np td cb ref flow cat desc amount pw fd' = Inr fd'"
proof (cases "amount \<le> 0")
  case False
  let ?has = "\<lambda>fd. list_ex (\<lambda>t. ft_ref t = Some (trim_space ref) \<and> ft_type t = trim_space flow \<and> \<not> ft_deleted t) (txns fd)"
  obtain wallet where ok: "trim_space flow = ''income'' \<or> trim_space flow = ''expense''" "prepareTenant E = Inr ()"
      "resolveIncomeWallet E fd pw = Inr wallet" "ensurePeriodUnlocked E fd (walletPeriod np td) = Inr ()"
      "\<not> db_fails E ''txn.exists''"
    and fd': "fd' = (if ?has fd then fd else refreshWallets E wallet None (insert_txn E (trim_space flow)
        (db_money E amount) wallet (system_category E fd cat) desc (Some (trim_space ref)) td
        (if cb = [] then nil_uuid else cb) fd))"
    using assms False by (auto simp: RecordInventoryEntry_def Let_def res_simps split: if_splits)
  have same: "same_setup fd fd'" using insert_refresh_setup by (simp add: fd')
  have "?has fd'" using insert_refresh_mem by (fastforce simp: fd' list_ex_iff)
  then show ?thesis
    using False ok assms(2) resolve_wallet_frame[OF same] period_frame[OF same]
    by (auto simp: RecordInventoryEntry_def Let_def)
qed (use assms in \<open>simp add: RecordInventoryEntry_def\<close>)

text \<open>The rows removing a list of references leaves, in any number of chunks.\<close>

lemma removeChunk_txns:
  assumes "removeInventoryEntriesChunk E refs fd = Inr fd'"
  shows "txns fd' = [t \<leftarrow> txns fd. ft_ref t \<notin> Some ` set refs]"
  using assms fold_refresh_frame
  by (auto simp: removeInventoryEntriesChunk_def res_simps split: if_splits)

lemma remove_chunks_txns:
  "remove_chunks E refs fd = (None, fd') \<Longrightarrow> txns fd' = [t \<leftarrow> txns fd. ft_ref t \<notin> Some ` set refs]"
proof (induction "length refs" arbitrary: refs fd rule: less_induct)
  case less
  show ?case
  proof (cases "refs = []")
    case False
    then obtain m where m: "removeInventoryEntriesChunk E (take 200 refs) fd = Inr m"
        "remove_chunks E (drop 200 refs) m = (None, fd')"
      using less.prems by (subst (asm) remove_chunks.simps) (auto simp: res_simps)
    have "length (drop 200 refs) < length refs" using False by simp
    note IH = less.hyps[OF this m(2)]
    have "set refs = set (take 200 refs) \<union> set (drop 200 refs)" by (metis append_take_drop_id set_append)
    then show ?thesis using IH removeChunk_txns[OF m(1)] by (auto simp: filter_filter intro: filter_cong)
  qed (use less.prems in \<open>simp add: remove_chunks.simps\<close>)
qed

text \<open>
  Removing inventory entries undoes recording them: after an entry is recorded under a fresh
  reference and removed again, the finance rows are exactly those from before.
\<close>

theorem record_remove_roundtrip:
  assumes "RecordInventoryEntry E np td cb ref flow cat desc amount pw fd = Inr fd1"
    and "RemoveInventoryEntry E ref fd1 = (None, fd2)"
    and "trim_space ref \<noteq> []" "\<forall>t\<in>set (txns fd). ft_ref t \<noteq> Some (trim_space ref)"
  shows "txns fd2 = txns fd"
proof -
  have "remove_chunks E [trim_space ref] fd1 = (None, fd2)"
    using assms(2,3) by (auto simp: RemoveInventoryEntry_def RemoveInventoryEntries_def uniqueReferenceNos_def
        dedup_def Let_def res_simps)
  from remove_chunks_txns[OF this]
  have 2: "txns fd2 = [t \<leftarrow> txns fd1. ft_ref t \<noteq> Some (trim_space ref)]" by simp
  have keep: "[t \<leftarrow> txns fd. ft_ref t \<noteq> Some (trim_space ref)] = txns fd" using assms(4) by (simp add: filter_id_conv)
  from assms(1) show ?thesis
  proof (cases rule: RecordInventoryEntryE)
    case unchanged
    then show ?thesis using 2 keep by simp
  next
    case (posted wallet category by_id)
    have "txns fd1 = txns (insert_txn E (trim_space flow) (db_money E amount) wallet category desc
        (Some (trim_space ref)) td by_id fd)"
      using posted(3) assms(3) refreshWallets_frame by simp
    then show ?thesis using 2 keep by (simp add: insert_txn_def)
  qed
qed

text \<open>
  Recording the income of a completed order is idempotent per order: once it has succeeded,
  calling it again, even with another amount or wallet and whether or not it reports an error,
  changes nothing.
\<close>

theorem order_income_once:
  assumes "recordOrderIncome E np td cb i amount wid fd = (None, fd1)"
    and "recordOrderIncome E np' td' cb' i amount' wid' fd1 = (e, fd2)"
  shows "fd2 = fd1"
proof -
  let ?live = "\<lambda>t. is_income_of i t \<and> \<not> ft_deleted t"
  from assms(1) have "(\<forall>t\<in>set (txns fd1). \<not> (is_income_of i t \<and> ft_deleted t)) \<and> list_ex ?live (txns fd1)"
  proof (cases rule: recordOrderIncomeE)
    case (posted wallet category by_id)
    let ?new = "insert_txn E ''income'' (db_money E amount) wallet category (''Pesanan #'' @ i) (Some i) td by_id (income_purged i fd)"
    have "txns fd1 = txns ?new" using posted(3) refreshWallets_frame by blast
    then show ?thesis by (auto simp: insert_txn_def income_purged_def is_income_of_def)
  qed (auto simp: income_purged_def)
  then have "[t \<leftarrow> txns fd1. \<not> (is_income_of i t \<and> ft_deleted t)] = txns fd1" and live: "list_ex ?live (txns fd1)"
    unfolding filter_id_conv by blast+
  then have "income_purged i fd1 = fd1" unfolding income_purged_def by (simp only:) simp
  with assms(2) live show ?thesis by (elim recordOrderIncomeE) simp_all
qed

section \<open>Witnesses\<close>

definition sample_books :: fin_db where
  "sample_books = \<lparr>txns = [], wallets = [\<lparr>wl_id = ''kas'', wl_type = ''cash'', wl_initial = 500, wl_active = True,
       wl_deleted = False, wl_order = 0, wl_created = 0\<rparr>],
     wallet_balance = [''kas'' \<mapsto> 500], categories = [], type_flows = Map.empty, period_locks = [], fin_next = 0\<rparr>"

lemma sample_books_ok: "books_ok sample_books"
  by (auto simp: books_ok_def fin_wf_def wallet_ok_def find_wallet_def wallet_net_def sample_books_def)

lemma sample_refresh_ok: "refresh_ok sample_env"
  by (simp add: refresh_ok_def sample_env_def)

definition sample_entry :: "fin_db \<Rightarrow> fin_db res" where
  "sample_entry = RecordInventoryEntry sample_env [] ''2026-01-02'' ''u'' ''cogs:o1'' ''expense'' ''HPP / COGS'' ''d'' 5 []"

lemma sample_entry_runs: "returns (sample_entry sample_books)"
  by code_simp

theorem finance_books_balance_witness:
  "\<exists>fd. sample_entry sample_books = Inr fd
     \<and> (\<forall>w r. find_wallet fd w = Some r \<longrightarrow> wallet_balance fd w = Some (wl_initial r + wallet_net fd w))"
proof -
  obtain fd where f: "sample_entry sample_books = Inr fd" using sample_entry_runs by (auto simp: returns_def)
  then have "(fin_step sample_env)\<^sup>*\<^sup>* sample_books fd"
    by (auto simp: sample_entry_def intro: fin_step.record_entry)
  from finance_books_balance[OF this sample_books_ok sample_refresh_ok] f show ?thesis by blast
qed

theorem RecordInventoryEntry_idempotent_witness:
  "\<exists>fd. sample_entry sample_books = Inr fd \<and> sample_entry fd = Inr fd"
proof -
  obtain fd where f: "sample_entry sample_books = Inr fd" using sample_entry_runs by (auto simp: returns_def)
  have "trim_space ''cogs:o1'' \<noteq> []" by code_simp
  from RecordInventoryEntry_idempotent[OF f[unfolded sample_entry_def] this] f
  show ?thesis unfolding sample_entry_def by blast
qed

lemma sample_roundtrip_runs:
  "returns (ebind (sample_entry sample_books) (\<lambda>fd1. out_res (RemoveInventoryEntry sample_env ''cogs:o1'' fd1)))"
  by code_simp

theorem record_remove_roundtrip_witness:
  "\<exists>fd1 fd2. sample_entry sample_books = Inr fd1 \<and> RemoveInventoryEntry sample_env ''cogs:o1'' fd1 = (None, fd2)
     \<and> txns fd2 = []"
proof -
  obtain fd1 fd2 where f: "sample_entry sample_books = Inr fd1" "RemoveInventoryEntry sample_env ''cogs:o1'' fd1 = (None, fd2)"
    using sample_roundtrip_runs by (auto simp: returns_def res_simps)
  have "trim_space ''cogs:o1'' \<noteq> []" by code_simp
  moreover have "txns sample_books = []" by (simp add: sample_books_def)
  ultimately show ?thesis
    using record_remove_roundtrip[OF f(1)[unfolded sample_entry_def] f(2)] f by auto
qed

definition sample_income :: "rat \<Rightarrow> fin_db \<Rightarrow> fin_db out" where
  "sample_income amount = recordOrderIncome sample_env [] ''2026-01-02'' ''u'' ''o1'' amount []"

lemma sample_income_runs: "fst (sample_income 5 sample_books) = None"
  by code_simp

theorem order_income_once_witness:
  "\<exists>fd1. sample_income 5 sample_books = (None, fd1) \<and> snd (sample_income 9 fd1) = fd1"
proof -
  obtain fd1 where f: "sample_income 5 sample_books = (None, fd1)"
    using sample_income_runs by (cases "sample_income 5 sample_books") auto
  then show ?thesis
    using order_income_once[OF f[unfolded sample_income_def], of "[]" "''2026-01-02''" "''u''" 9 "[]"]
    by (metis sample_income_def prod.collapse)
qed

end
