(* ===== verification/Order_Sync.thy ===== *)
theory Order_Sync
  imports Ledger_Replay Finance "HOL-Library.AList" "HOL-Library.List_Lexorder"
    "HOL-Library.Product_Lexorder" "HOL-Library.Char_ord"
begin

text \<open>
  Stock of orders: \<open>inventory/order_sync.go\<close>, the batch loaders of
  \<open>inventory/order_sync_batch.go\<close> and the delta test of \<open>inventory/backfill.go\<close>. An order in a
  committed status holds its required quantities as issued stock; in any other status it holds none.

  A Go map is an association list with distinct keys; ranging over it visits the keys in an order
  \<open>ord\<close> that is arbitrary in every theorem.
\<close>

section \<open>State\<close>

record warehouse_row =
  wr_id :: string
  wr_name :: string
  wr_default :: bool
  wr_deleted :: bool

record catalog_row =
  ca_name :: string
  ca_deleted :: bool

record order_row =
  or_applied :: "int option"
  or_wallet :: "string option"

record tenant_db =
  inv :: inv_db
  fin :: fin_db
  inv_warehouse :: "warehouse_row list"
  catalog :: "string \<rightharpoonup> catalog_row"
  bundle_rows :: "(string \<times> string \<times> int) list"
  order_rows :: "string \<rightharpoonup> order_row"
  has_marker :: bool

record OrderStockItem =
  oi_line :: string
  oi_item :: string
  oi_wh :: string
  oi_qty :: f64

type_synonym reqKey = "string \<times> string"
type_synonym 'v gomap = "(reqKey \<times> 'v) list"

record netEntry =
  ne_qty :: f64
  ne_cost :: f64

definition mget :: "'v \<Rightarrow> ('k \<times> 'v) list \<Rightarrow> 'k \<Rightarrow> 'v" where
  "mget z m k = map_get z (map_of m) k"

definition zero_net :: netEntry where "zero_net = \<lparr>ne_qty = 0, ne_cost = 0\<rparr>"

definition add_req :: "reqKey \<Rightarrow> f64 \<Rightarrow> f64 gomap \<Rightarrow> f64 gomap" where
  "add_req k x m = AList.update k (fl (mget 0 m k + x)) m"

section \<open>Requirements\<close>

definition committedOrderStatuses :: "string list" where
  "committedOrderStatuses = [''processing'', ''shipped'', ''completed'', ''paid'', ''confirmed'']"

definition IsCommittedOrderStatus :: "string \<Rightarrow> bool" where
  "IsCommittedOrderStatus status = (norm_key status \<in> set committedOrderStatuses)"

fun mergeRequirements :: "OrderStockItem list \<Rightarrow> f64 gomap \<Rightarrow> f64 gomap" where
  "mergeRequirements [] out = out"
| "mergeRequirements (l # ls) out =
     (if trim_space (oi_item l) = [] \<or> oi_qty l \<le> epsilon then mergeRequirements ls out
      else mergeRequirements ls (add_req (oi_item l, trim_space (oi_wh l)) (oi_qty l) out))"

record skuMeta =
  sm_exists :: bool
  sm_track :: bool
  sm_bundle :: bool

record BundleComponent =
  bc_child :: string
  bc_qty :: f64

record skuBundleCache =
  sc_sku :: "(string \<times> skuMeta) list"
  sc_bundles :: "(string \<times> BundleComponent list) list"

definition newSkuBundleCache :: skuBundleCache where
  "newSkuBundleCache = \<lparr>sc_sku = [], sc_bundles = []\<rparr>"

definition uniqueNonEmpty :: "string list \<Rightarrow> string list" where
  "uniqueNonEmpty ids = dedup [trim_space i. i \<leftarrow> ids, trim_space i \<noteq> []]"

definition preload :: "env \<Rightarrow> tenant_db \<Rightarrow> string list \<Rightarrow> skuBundleCache \<Rightarrow> skuBundleCache res" where
  "preload E db catalogIDs c =
     (let ids = uniqueNonEmpty catalogIDs in
      if ids = [] then Inr c
      else
        let sku0 = fold (\<lambda>i m. if map_of m i = None
              then AList.update i \<lparr>sm_exists = False, sm_track = False, sm_bundle = False\<rparr> m else m) ids (sc_sku c) in
        ebind (sql E ''sku.batch'' (Inr [(i, s). i \<leftarrow> ids, s \<leftarrow> (case skus (inv db) i of None \<Rightarrow> [] | Some s \<Rightarrow> [s])])) (\<lambda>rows.
        let sku1 = fold (\<lambda>(i, s). AList.update i
              \<lparr>sm_exists = True, sm_track = sk_track s, sm_bundle = sk_bundle s\<rparr>) rows sku0;
            parents = [i. (i, m) \<leftarrow> sku1, sm_exists m \<and> sm_bundle m] in
        if parents = [] then Inr (c\<lparr>sc_sku := sku1\<rparr>)
        else ebind (sql E ''bundle.batch'' (Inr [(p, ch, q). (p, ch, q) \<leftarrow> bundle_rows db, p \<in> set parents])) (\<lambda>brows.
        Inr \<lparr>sc_sku = sku1, sc_bundles = fold (\<lambda>(p, ch, q) m. AList.update p
              (mget [] m p @ [\<lparr>bc_child = ch, bc_qty = dec4 q\<rparr>]) m) brows (sc_bundles c)\<rparr>)))"

definition collectCatalogIDsFromOrders :: "OrderStockItem list list \<Rightarrow> string list" where
  "collectCatalogIDsFromOrders itemsList =
     dedup [trim_space (oi_item it). items \<leftarrow> itemsList, it \<leftarrow> items, trim_space (oi_item it) \<noteq> []]"

text \<open>What one order line adds to the requirements.\<close>

definition line_requirements ::
  "skuBundleCache \<Rightarrow> string \<Rightarrow> OrderStockItem \<Rightarrow> (reqKey \<times> f64) list"
where
  "line_requirements cache defaultWarehouse it =
     (if trim_space (oi_item it) = [] \<or> oi_qty it \<le> epsilon then []
      else let wh = (if trim_space (oi_wh it) = [] then defaultWarehouse else trim_space (oi_wh it)) in
        if wh = [] then []
        else case map_of (sc_sku cache) (oi_item it) of
          None \<Rightarrow> []
        | Some meta \<Rightarrow>
            if \<not> sm_exists meta then []
            else if sm_bundle meta then
              [((bc_child cmp, wh), round4 (fl (bc_qty cmp * oi_qty it))). cmp \<leftarrow> mget [] (sc_bundles cache) (oi_item it)]
            else if \<not> sm_track meta then []
            else [((oi_item it, wh), oi_qty it)])"

definition resolveOrderRequirementsWithCache ::
  "skuBundleCache \<Rightarrow> OrderStockItem list \<Rightarrow> string \<Rightarrow> f64 gomap"
where
  "resolveOrderRequirementsWithCache cache items defaultWarehouse =
     fold (\<lambda>(k, x). add_req k x) (concat (map (line_requirements cache defaultWarehouse) items)) []"

definition resolveOrderRequirements ::
  "env \<Rightarrow> tenant_db \<Rightarrow> OrderStockItem list \<Rightarrow> string \<Rightarrow> f64 gomap res"
where
  "resolveOrderRequirements E db items defaultWarehouse =
     ebind (preload E db (collectCatalogIDsFromOrders [items]) newSkuBundleCache) (\<lambda>cache.
     Inr (resolveOrderRequirementsWithCache cache items defaultWarehouse))"

section \<open>Settings, warehouses and what an order holds\<close>

definition loadSyncSetting :: "env \<Rightarrow> tenant_db \<Rightarrow> (bool \<times> bool \<times> bool) res" where
  "loadSyncSetting E db = sql E ''setting.sync'' (case inv_setting (inv db) of
       None \<Rightarrow> Inr (False, False, True)
     | Some s \<Rightarrow> Inr (st_setup s, st_expense s, st_block s))"

definition defaultWarehouseID :: "env \<Rightarrow> tenant_db \<Rightarrow> string res" where
  "defaultWarehouseID E db = sql E ''warehouse.default''
     (case find (\<lambda>w. wr_default w \<and> \<not> wr_deleted w) (inv_warehouse db) of
        None \<Rightarrow> Inr [] | Some w \<Rightarrow> Inr (wr_id w))"

definition sale_row :: "string \<Rightarrow> movement_row \<Rightarrow> bool" where
  "sale_row orderID r \<longleftrightarrow> has_ref ''order'' orderID r
     \<and> (mv_type r = MovementSaleIssue \<or> mv_type r = MovementSaleCancelRestore)"

definition add_net :: "movement_row \<Rightarrow> netEntry gomap \<Rightarrow> netEntry gomap" where
  "add_net r m = (let k = (mv_item r, mv_wh r); e = mget zero_net m k in
     AList.update k (if mv_type r = MovementSaleIssue
       then \<lparr>ne_qty = fl (ne_qty e + dec4 (mv_qty r)), ne_cost = fl (ne_cost e + dec4 (mv_total r))\<rparr>
       else \<lparr>ne_qty = fl (ne_qty e - dec4 (mv_qty r)), ne_cost = fl (ne_cost e - dec4 (mv_total r))\<rparr>) m)"

definition orderNetIssued :: "env \<Rightarrow> tenant_db \<Rightarrow> string \<Rightarrow> netEntry gomap res" where
  "orderNetIssued E db orderID =
     (if trim_space orderID = [] then Inr []
      else sql E ''movements.order'' (Inr (fold add_net [r \<leftarrow> movements (inv db). sale_row orderID r] [])))"

definition batchOrderNetIssued :: "env \<Rightarrow> tenant_db \<Rightarrow> string list \<Rightarrow> (string \<times> netEntry gomap) list res" where
  "batchOrderNetIssued E db orderIDs =
     (let ids = uniqueNonEmpty orderIDs in
      if ids = [] then Inr []
      else sql E ''movements.orders'' (Inr (
        let rows = [r \<leftarrow> movements (inv db). \<exists>i\<in>set ids. sale_row i r];
            out = fold (\<lambda>r m. AList.update (the (mv_refid r)) (add_net r (mget [] m (the (mv_refid r)))) m) rows []
        in fold (\<lambda>i m. if map_of m i = None then AList.update i [] m else m) ids out)))"

section \<open>Cost of goods sold\<close>

definition cogsRefPrefix :: string where "cogsRefPrefix = ''cogs:''"
definition finCatHPP :: string where "finCatHPP = ''HPP / COGS''"

definition orderCOGSDescription :: "string \<Rightarrow> string" where
  "orderCOGSDescription orderID =
     (let short = trim_space orderID; short = (if length short > 8 then take 8 short else short)
      in ''HPP pesanan #'' @ short @ [CHR '' '', CHR 0xE2, CHR 0x80, CHR 0x94, CHR '' ''] @ ''harga pokok penjualan'')"

definition orderIncomeWalletID :: "env \<Rightarrow> tenant_db \<Rightarrow> string \<Rightarrow> string res" where
  "orderIncomeWalletID E db orderID = sql E ''order.wallet'' (Inr (case order_rows db orderID of
       None \<Rightarrow> [] | Some r \<Rightarrow> (case or_wallet r of None \<Rightarrow> [] | Some w \<Rightarrow> w)))"

definition order_cogs :: "tenant_db \<Rightarrow> string \<Rightarrow> int" where
  "order_cogs db orderID = (\<Sum>r\<leftarrow>[r \<leftarrow> movements (inv db). has_ref ''order'' orderID r].
     if mv_type r = MovementSaleIssue then mv_total r
     else if mv_type r = MovementSaleCancelRestore then - mv_total r else 0)"

definition resyncOrderCOGS ::
  "env \<Rightarrow> string \<Rightarrow> string \<Rightarrow> string \<Rightarrow> bool \<Rightarrow> string \<Rightarrow> tenant_db \<Rightarrow> tenant_db out"
where
  "resyncOrderCOGS E nowPeriod today orderID postExpense createdBy db =
     (let ref = cogsRefPrefix @ orderID in
      if postExpense then (case RemoveInventoryEntry E ref (fin db) of (e, fd) \<Rightarrow> (e, db\<lparr>fin := fd\<rparr>))
      else try_out db (sql E ''cogs.sum'' (Inr (dec4 (order_cogs db orderID)))) (\<lambda>net.
        case RemoveInventoryEntry E ref (fin db) of
          (Some e, fd) \<Rightarrow> (Some e, db\<lparr>fin := fd\<rparr>)
        | (None, fd) \<Rightarrow>
            let net = round2 net; db1 = db\<lparr>fin := fd\<rparr> in
            if net \<le> 0 then (None, db1)
            else try_out db1 (orderIncomeWalletID E db1 orderID) (\<lambda>walletID.
              try_out db1 (RecordInventoryEntry E nowPeriod today createdBy ref ''expense'' finCatHPP
                  (orderCOGSDescription orderID) net walletID fd) (\<lambda>fd'. (None, db1\<lparr>fin := fd'\<rparr>)))))"

section \<open>Synchronising an order\<close>

text \<open>The movements of the loop body; only the inventory tables change.\<close>

definition issue_input :: "string \<Rightarrow> string \<Rightarrow> costingContext \<Rightarrow> reqKey \<Rightarrow> f64 \<Rightarrow> MovementInput" where
  "issue_input orderID createdBy cc k delta = no_input\<lparr>mi_item := fst k, mi_wh := snd k,
     mi_type := MovementSaleIssue, mi_dir := dirOut, mi_qty := delta, mi_method := cc_method cc,
     mi_block := cc_block cc, mi_reftype := ''order'', mi_refid := orderID, mi_by := createdBy,
     mi_note := ''Stok keluar pesanan''\<rparr>"

definition restore_input :: "string \<Rightarrow> string \<Rightarrow> costingContext \<Rightarrow> reqKey \<Rightarrow> f64 \<Rightarrow> f64 \<Rightarrow> MovementInput" where
  "restore_input orderID createdBy cc k qty unitCost = no_input\<lparr>mi_item := fst k, mi_wh := snd k,
     mi_type := MovementSaleCancelRestore, mi_dir := dirIn, mi_qty := qty, mi_cost := unitCost,
     mi_method := cc_method cc, mi_block := False, mi_reftype := ''order'', mi_refid := orderID,
     mi_by := createdBy, mi_note := ''Stok kembali (pesanan batal)''\<rparr>"

definition sync_key ::
  "env \<Rightarrow> string \<Rightarrow> string \<Rightarrow> f64 gomap \<Rightarrow> netEntry gomap \<Rightarrow> reqKey \<Rightarrow> inv_db \<Rightarrow> inv_db res"
where
  "sync_key E orderID createdBy required netIssued k db =
     (let net = mget zero_net netIssued k; delta = round4 (fl (mget 0 required k - ne_qty net)) in
      if delta > epsilon then
        ebind (loadCostingContext E db (fst k)) (\<lambda>cc.
        ebind (PostMovement E (issue_input orderID createdBy cc k delta) db) (\<lambda>(res, db'). Inr db'))
      else if delta < - epsilon then
        let restoreQty = round4 (- delta);
            unitCost = (if ne_qty net > epsilon then round4 (fl (ne_cost net / ne_qty net)) else 0) in
        ebind (loadCostingContext E db (fst k)) (\<lambda>cc.
        ebind (PostMovement E (restore_input orderID createdBy cc k restoreQty unitCost) db) (\<lambda>(res, db'). Inr db'))
      else Inr db)"

definition sync_keys :: "f64 gomap \<Rightarrow> netEntry gomap \<Rightarrow> reqKey list" where
  "sync_keys required netIssued = dedup (map fst required @ map fst netIssued)"

definition setStockAppliedMarker :: "env \<Rightarrow> string \<Rightarrow> bool \<Rightarrow> tenant_db \<Rightarrow> tenant_db res" where
  "setStockAppliedMarker E orderID applied db =
     (if db_fails E ''column.exists'' \<or> \<not> has_marker db then Inr db
      else sql E ''order.marker'' (Inr (db\<lparr>order_rows := (case order_rows db orderID of
          None \<Rightarrow> order_rows db
        | Some r \<Rightarrow> (order_rows db)(orderID \<mapsto> r\<lparr>or_applied := (if applied then Some (db_now E) else None)\<rparr>))\<rparr>)))"

text \<open>The transaction that reconciles the stock of one order.\<close>

definition sync_tx ::
  "env \<Rightarrow> (reqKey list \<Rightarrow> reqKey list) \<Rightarrow> string \<Rightarrow> string \<Rightarrow> OrderStockItem list \<Rightarrow> string \<Rightarrow> string \<Rightarrow> tenant_db \<Rightarrow> tenant_db res"
where
  "sync_tx E ord orderID status items createdBy defaultWarehouse db =
     ebind (sql E ''sync.begin'' (Inr ())) (\<lambda>_.
     ebind (sql E ''order.lock'' (Inr ())) (\<lambda>_.
     ebind (if IsCommittedOrderStatus status then resolveOrderRequirements E db items defaultWarehouse else Inr []) (\<lambda>required.
     ebind (orderNetIssued E db orderID) (\<lambda>netIssued.
     ebind (efold (sync_key E orderID createdBy required netIssued) (ord (sync_keys required netIssued)) (inv db)) (\<lambda>idb.
     ebind (setStockAppliedMarker E orderID (IsCommittedOrderStatus status) (db\<lparr>inv := idb\<rparr>)) (\<lambda>db'.
     sql E ''sync.commit'' (Inr db')))))))"

definition SyncOrderStock ::
  "env \<Rightarrow> string \<Rightarrow> string \<Rightarrow> (reqKey list \<Rightarrow> reqKey list) \<Rightarrow> string \<Rightarrow> string \<Rightarrow> OrderStockItem list \<Rightarrow> string
    \<Rightarrow> tenant_db \<Rightarrow> tenant_db out"
where
  "SyncOrderStock E nowPeriod today ord orderID status items createdBy db =
     (if trim_space orderID = [] then (None, db)
      else try_out db (prepareTenant E) (\<lambda>_.
        try_out db (loadSyncSetting E db) (\<lambda>(setup, postExpense, block).
        if \<not> setup then (None, db)
        else try_out db (defaultWarehouseID E db) (\<lambda>defaultWarehouse.
          try_out db (sync_tx E ord orderID status items createdBy defaultWarehouse db)
            (resyncOrderCOGS E nowPeriod today orderID postExpense createdBy)))))"

section \<open>Shortages\<close>

record StockShortageLine =
  sl_item :: string
  sl_name :: string
  sl_wh :: string
  sl_whname :: string
  sl_required :: f64
  sl_available :: f64
  sl_short :: f64

definition batchOnHand :: "env \<Rightarrow> tenant_db \<Rightarrow> reqKey list \<Rightarrow> f64 gomap res" where
  "batchOnHand E db keys =
     (let uniq = dedup [k \<leftarrow> keys. fst k \<noteq> [] \<and> snd k \<noteq> []] in
      if uniq = [] then Inr []
      else sql E ''balance.batch'' (Inr [(k, case balances (inv db) k of None \<Rightarrow> 0 | Some b \<Rightarrow> dec4 (bl_on_hand b)). k \<leftarrow> uniq]))"

definition batchItemNames :: "env \<Rightarrow> tenant_db \<Rightarrow> string list \<Rightarrow> (string \<times> string) list res" where
  "batchItemNames E db ids =
     (let ids = uniqueNonEmpty ids in
      if ids = [] then Inr []
      else sql E ''catalog.names'' (Inr [(i, if trim_space (ca_name r) = [] then ''item'' else ca_name r).
             i \<leftarrow> ids, r \<leftarrow> (case catalog db i of None \<Rightarrow> [] | Some r \<Rightarrow> [r])]))"

definition batchWarehouseNames :: "env \<Rightarrow> tenant_db \<Rightarrow> string list \<Rightarrow> (string \<times> string) list res" where
  "batchWarehouseNames E db ids =
     (let ids = uniqueNonEmpty ids in
      if ids = [] then Inr []
      else sql E ''warehouse.names'' (Inr [(i, if trim_space (wr_name w) = [] then ''gudang'' else wr_name w).
             i \<leftarrow> ids, w \<leftarrow> inv_warehouse db, wr_id w = i]))"

definition nameForItem :: "env \<Rightarrow> tenant_db \<Rightarrow> string \<Rightarrow> string res" where
  "nameForItem E db i = ebind (batchItemNames E db [i]) (\<lambda>names.
     let n = mget [] names i in Inr (if n = [] then ''item'' else n))"

definition nameForWarehouse :: "env \<Rightarrow> tenant_db \<Rightarrow> string \<Rightarrow> string res" where
  "nameForWarehouse E db i = ebind (batchWarehouseNames E db [i]) (\<lambda>names.
     let n = mget [] names i in Inr (if n = [] then ''gudang'' else n))"

definition shortage_of ::
  "env \<Rightarrow> tenant_db \<Rightarrow> string \<Rightarrow> f64 gomap \<Rightarrow> netEntry gomap \<Rightarrow> f64 gomap \<Rightarrow> reqKey \<Rightarrow> StockShortageLine list
    \<Rightarrow> StockShortageLine list res"
where
  "shortage_of E db defaultWarehouse required netIssued onHand k acc =
     (let delta = round4 (fl (mget 0 required k - ne_qty (mget zero_net netIssued k))); available = mget 0 onHand k in
      if delta \<le> epsilon then Inr acc
      else if delta > fl (available + epsilon) then
        let whID = (if snd k = [] then defaultWarehouse else snd k) in
        ebind (nameForItem E db (fst k)) (\<lambda>item.
        ebind (nameForWarehouse E db whID) (\<lambda>wh.
        Inr (acc @ [\<lparr>sl_item = fst k, sl_name = item, sl_wh = whID, sl_whname = wh, sl_required = delta,
                     sl_available = available, sl_short = round4 (fl (delta - available))\<rparr>])))
      else Inr acc)"

text \<open>\<open>sort.Slice\<close> by item and warehouse name.\<close>

definition sortStockShortages :: "StockShortageLine list \<Rightarrow> StockShortageLine list" where
  "sortStockShortages ls = sort_key (\<lambda>l. (sl_name l, sl_whname l)) ls"

definition analyzeOrderStockShortageConn ::
  "env \<Rightarrow> (reqKey list \<Rightarrow> reqKey list) \<Rightarrow> string \<Rightarrow> OrderStockItem list \<Rightarrow> tenant_db \<Rightarrow> StockShortageLine list res"
where
  "analyzeOrderStockShortageConn E ord orderID items db =
     ebind (loadSyncSetting E db) (\<lambda>(setup, postExpense, block).
     if \<not> setup \<or> \<not> block then Inr []
     else ebind (defaultWarehouseID E db) (\<lambda>defaultWarehouse.
       ebind (resolveOrderRequirements E db items defaultWarehouse) (\<lambda>required.
       ebind (orderNetIssued E db orderID) (\<lambda>netIssued.
       let need = [k \<leftarrow> ord (map fst required).
             round4 (fl (mget 0 required k - ne_qty (mget zero_net netIssued k))) > epsilon] in
       ebind (batchOnHand E db need) (\<lambda>onHand.
       ebind (efold (shortage_of E db defaultWarehouse required netIssued onHand) (ord (map fst required)) []) (\<lambda>shortages.
       Inr (sortStockShortages shortages)))))))"

definition PrecheckOrderStock ::
  "env \<Rightarrow> (reqKey list \<Rightarrow> reqKey list) \<Rightarrow> string \<Rightarrow> OrderStockItem list \<Rightarrow> tenant_db \<Rightarrow> unit res"
where
  "PrecheckOrderStock E ord orderID items db =
     ebind (prepareTenant E) (\<lambda>_.
     ebind (analyzeOrderStockShortageConn E ord orderID items db) (\<lambda>shortages. case shortages of
         [] \<Rightarrow> Inr ()
       | s # _ \<Rightarrow> Inl (BadRequestf (''stok tidak cukup untuk '' @ sl_name s @ '' (tersedia %g, dibutuhkan %g)'')
                        [sl_available s, sl_required s])))"

section \<open>Does an order need a sync? (backfill.go)\<close>

definition orderStockSyncDelta :: "(reqKey list \<Rightarrow> reqKey list) \<Rightarrow> f64 gomap \<Rightarrow> netEntry gomap \<Rightarrow> bool" where
  "orderStockSyncDelta ord required netIssued = list_ex (\<lambda>k.
     let delta = round4 (fl (mget 0 required k - ne_qty (mget zero_net netIssued k)))
     in delta > epsilon \<or> delta < - epsilon) (ord (sync_keys required netIssued))"

definition orderNeedsStockSync ::
  "env \<Rightarrow> (reqKey list \<Rightarrow> reqKey list) \<Rightarrow> string \<Rightarrow> string \<Rightarrow> OrderStockItem list \<Rightarrow> string \<Rightarrow> tenant_db \<Rightarrow> bool res"
where
  "orderNeedsStockSync E ord orderID status items defaultWarehouse db =
     ebind (if IsCommittedOrderStatus status then resolveOrderRequirements E db items defaultWarehouse else Inr []) (\<lambda>required.
     ebind (orderNetIssued E db orderID) (\<lambda>netIssued.
     Inr (orderStockSyncDelta ord required netIssued)))"

end
