(* ===== verification/Stock_Docs.thy ===== *)
theory Stock_Docs
  imports Order_Sync
begin

text \<open>
  Manual stock documents: \<open>inventory/adjustment.go\<close> (adjustments, transfers, opening balances,
  revaluations), \<open>inventory/stock_transaction.go\<close> and its \<open>_repost\<close>, \<open>_patch\<close> and \<open>_batch\<close> companions
  (headers, deletion, editing), \<open>inventory/batch_validate.go\<close> and \<open>inventory/docnumber.go\<close>.

  A handler is a function of the environment, the clock, the caller and the tenant's tables to its
  reply and the tables it leaves. A transaction either commits or leaves the tables as they were;
  finance entries are written and removed outside the stock transaction, as the source does it.
  Checking or creating the module's tables is one statement that may fail. An identifier that is
  not a UUID matches no row.
\<close>

section \<open>Tables\<close>

record stock_txn_row =
  tx_id :: string
  tx_doc :: string
  tx_kind :: string
  tx_date :: string
  tx_note :: "string option"
  tx_item :: "string option"
  tx_wh :: "string option"
  tx_from :: "string option"
  tx_to :: "string option"
  tx_signed :: "int option"
  tx_unit :: "int option"
  tx_new :: "int option"
  tx_by :: "string option"
  tx_created :: int

record txn_line_row =
  tl_id :: string
  tl_txn :: string
  tl_item :: string
  tl_wh :: string
  tl_qty :: int
  tl_cost :: int
  tl_batch :: "string option"
  tl_expiry :: "int option"
  tl_movement :: "string option"
  tl_order :: nat
  tl_created :: int

record doc_db =
  tn :: tenant_db
  stock_txns :: "stock_txn_row list"
  txn_lines :: "txn_line_row list"
  doc_seq :: "string \<rightharpoonup> int"

text \<open>The current period and date in the reporting time zone, and the server's local date.\<close>

record clock =
  ck_period :: string
  ck_today :: string
  ck_local :: string

definition set_inv :: "inv_db \<Rightarrow> doc_db \<Rightarrow> doc_db" where
  "set_inv idb db = db\<lparr>tn := (tn db)\<lparr>inv := idb\<rparr>\<rparr>"

definition set_fin :: "fin_db \<Rightarrow> doc_db \<Rightarrow> doc_db" where
  "set_fin fd db = db\<lparr>tn := (tn db)\<lparr>fin := fd\<rparr>\<rparr>"

definition new_id :: "env \<Rightarrow> doc_db \<Rightarrow> string \<times> doc_db" where
  "new_id E db = (case fresh_uuid E (inv (tn db)) of (i, idb) \<Rightarrow> (i, set_inv idb db))"

section \<open>Document numbers (docnumber.go)\<close>

definition DocAdjust :: string where "DocAdjust = ''WADJ''"
definition DocTransfer :: string where "DocTransfer = ''WXFR''"
definition DocOpening :: string where "DocOpening = ''WOPN''"
definition DocRevalue :: string where "DocRevalue = ''WREV''"

definition formatDocNumber :: "string \<Rightarrow> int \<Rightarrow> string" where
  "formatDocNumber pfx n = pfx @ ''-'' @
     (if n < 0 then CHR ''-'' # zero_pad 5 (digits (nat (- n))) else zero_pad 6 (digits (nat n)))"

text \<open>The upsert of the per-type sequence; a BIGINT that would overflow is an error.\<close>

definition nextDocNumber :: "env \<Rightarrow> string \<Rightarrow> string \<Rightarrow> doc_db \<Rightarrow> (string \<times> doc_db) res" where
  "nextDocNumber E docType pfx db =
     (let n = (case doc_seq db docType of None \<Rightarrow> 1 | Some k \<Rightarrow> k + 1) in
      sql_raw E ''docseq.upsert'' (if n < 2 ^ 63
        then Inr (formatDocNumber pfx n, db\<lparr>doc_seq := (doc_seq db)(docType \<mapsto> n)\<rparr>)
        else Inl (Plain ''bigint out of range'')))"

definition poStatusFromReceipts :: "f64 \<Rightarrow> f64 \<Rightarrow> string" where
  "poStatusFromReceipts totalOrdered totalReceived =
     (if totalReceived \<le> epsilon then ''open''
      else if fl (totalReceived + epsilon) < totalOrdered then ''partial'' else ''received'')"

section \<open>Headers (stock_transaction.go)\<close>

definition TxnKindAdjustment :: string where "TxnKindAdjustment = ''adjustment''"
definition TxnKindTransfer :: string where "TxnKindTransfer = ''transfer''"
definition TxnKindOpeningBalance :: string where "TxnKindOpeningBalance = ''opening_balance''"
definition TxnKindRevaluation :: string where "TxnKindRevaluation = ''revaluation''"

lemmas txn_kinds = TxnKindAdjustment_def TxnKindTransfer_def TxnKindOpeningBalance_def TxnKindRevaluation_def
lemmas doc_prefixes = DocAdjust_def DocTransfer_def DocOpening_def DocRevalue_def

definition txnKindRefType :: "string \<Rightarrow> string" where "txnKindRefType kind = kind"

definition docTypeForKind :: "string \<Rightarrow> (string \<times> string) res" where
  "docTypeForKind kind =
     (if kind = TxnKindAdjustment then Inr (DocAdjust, DocAdjust)
      else if kind = TxnKindTransfer then Inr (DocTransfer, DocTransfer)
      else if kind = TxnKindOpeningBalance then Inr (DocOpening, DocOpening)
      else if kind = TxnKindRevaluation then Inr (DocRevalue, DocRevalue)
      else Inl (BadRequest ''jenis transaksi tidak dikenal''))"

text \<open>The insert fails on a document number that is taken, by the unique index on \<open>doc_no\<close>.\<close>

definition insertStockTransactionHeader ::
  "env \<Rightarrow> clock \<Rightarrow> string \<Rightarrow> string \<Rightarrow> string \<Rightarrow> string \<Rightarrow> doc_db \<Rightarrow> ((string \<times> string) \<times> doc_db) res"
where
  "insertStockTransactionHeader E ck kind txnDate note createdBy db =
     ebind (docTypeForKind kind) (\<lambda>(docType, pfx).
     case nextDocNumber E docType pfx db of
       Inl e \<Rightarrow> Inl (Internal ''docseq.upsert'')
     | Inr (docNo, db1) \<Rightarrow>
         let txnDate = (if trim_space txnDate = [] then ck_local ck else txnDate); (i, db2) = new_id E db1 in
         sql E ''txn.header'' (if docNo \<in> tx_doc ` set (stock_txns db2) then Inl (Internal ''txn.header'')
           else Inr ((i, docNo), db2\<lparr>stock_txns := stock_txns db2 @
             [\<lparr>tx_id = i, tx_doc = docNo, tx_kind = kind, tx_date = txnDate, tx_note = nullStr note,
               tx_item = None, tx_wh = None, tx_from = None, tx_to = None, tx_signed = None, tx_unit = None,
               tx_new = None, tx_by = nullUUID createdBy, tx_created = db_now E\<rparr>]\<rparr>)))"

text \<open>\<open>UPDATE inv_stock_transaction ... WHERE id = $1\<close>\<close>

definition update_txn :: "string \<Rightarrow> (stock_txn_row \<Rightarrow> stock_txn_row) \<Rightarrow> doc_db \<Rightarrow> doc_db" where
  "update_txn i f db = db\<lparr>stock_txns := map (\<lambda>r. if tx_id r = i then f r else r) (stock_txns db)\<rparr>"

definition find_txn :: "doc_db \<Rightarrow> string \<Rightarrow> stock_txn_row option" where
  "find_txn db i = find (\<lambda>r. tx_id r = i) (stock_txns db)"

record StockTransaction =
  st_row :: stock_txn_row
  st_lines :: "txn_line_row list"

definition loadStockTransaction :: "env \<Rightarrow> doc_db \<Rightarrow> string \<Rightarrow> StockTransaction res" where
  "loadStockTransaction E db i =
     ebind (sql E ''txn.select'' (case find_txn db i of None \<Rightarrow> Inl (NotFound ''transaksi tidak ditemukan'') | Some r \<Rightarrow> Inr r)) (\<lambda>r.
     sql E ''txn.lines'' (Inr \<lparr>st_row = r,
       st_lines = sort_key (\<lambda>l. (tl_order l, tl_created l)) [l \<leftarrow> txn_lines db. tl_txn l = i]\<rparr>))"

section \<open>Checks shared by the handlers\<close>

definition adjustmentPlan :: "f64 \<Rightarrow> (string \<times> string \<times> f64) option" where
  "adjustmentPlan signedQty =
     (if signedQty > epsilon then Some (MovementAdjustPlus, dirIn, round4 signedQty)
      else if signedQty < - epsilon then Some (MovementAdjustMinus, dirOut, round4 (- signedQty))
      else None)"

definition revaluationDelta :: "f64 \<Rightarrow> f64 \<Rightarrow> f64 \<Rightarrow> f64 \<times> f64" where
  "revaluationDelta onHand oldTotalValue newUnitCost =
     (let newTotal = round4 (fl (onHand * newUnitCost)) in (newTotal, round4 (fl (newTotal - oldTotalValue))))"

definition live_warehouse :: "tenant_db \<Rightarrow> string \<Rightarrow> bool" where
  "live_warehouse t i \<longleftrightarrow> list_ex (\<lambda>w. wr_id w = i \<and> \<not> wr_deleted w) (inv_warehouse t)"

definition live_item :: "tenant_db \<Rightarrow> string \<Rightarrow> bool" where
  "live_item t i \<longleftrightarrow> (case catalog t i of None \<Rightarrow> False | Some r \<Rightarrow> \<not> ca_deleted r)"

definition validateWarehouse :: "env \<Rightarrow> tenant_db \<Rightarrow> string \<Rightarrow> unit res" where
  "validateWarehouse E t i =
     ebind (guard (trim_space i \<noteq> []) (BadRequest ''gudang wajib dipilih'')) (\<lambda>_.
     ebind (sql E ''warehouse.exists'' (Inr (live_warehouse t i))) (\<lambda>exists.
     guard exists (BadRequest ''gudang tidak ditemukan'')))"

definition validateCatalogItem :: "env \<Rightarrow> tenant_db \<Rightarrow> string \<Rightarrow> unit res" where
  "validateCatalogItem E t i =
     ebind (guard (trim_space i \<noteq> []) (BadRequest ''item katalog wajib dipilih'')) (\<lambda>_.
     ebind (sql E ''item.exists'' (Inr (live_item t i))) (\<lambda>exists.
     guard exists (BadRequest ''item katalog tidak ditemukan'')))"

text \<open>\<open>INSERT INTO inv_sku ... ON CONFLICT DO NOTHING\<close>: a new row is tracked, not a bundle, without a method.\<close>

definition ensureSku :: "env \<Rightarrow> string \<Rightarrow> doc_db \<Rightarrow> doc_db res" where
  "ensureSku E item db = sql E ''sku.ensure'' (Inr (let idb = inv (tn db) in
     if skus idb item = None
     then set_inv (idb\<lparr>skus := (skus idb)(item \<mapsto> \<lparr>sk_track = True, sk_bundle = False, sk_method = None\<rparr>)\<rparr>) db
     else db))"

definition parseDatePtr :: "string option \<Rightarrow> int option res" where
  "parseDatePtr s = (case s of None \<Rightarrow> Inr None | Some t \<Rightarrow>
     if trim_space t = [] then Inr None
     else case parse_date (trim_space t) of
       None \<Rightarrow> Inl (BadRequest ''format tanggal harus YYYY-MM-DD'') | Some d \<Rightarrow> Inr (Some d))"

definition ensureInventoryModuleSchema :: "env \<Rightarrow> unit res" where
  "ensureInventoryModuleSchema E = sql E ''schema.ready'' (Inr ())"

text \<open>\<open>PostMovement\<close> and the costing context on the inventory part of the tables.\<close>

definition post :: "env \<Rightarrow> MovementInput \<Rightarrow> doc_db \<Rightarrow> (MovementResult \<times> doc_db) res" where
  "post E i db = ebind (PostMovement E i (inv (tn db))) (\<lambda>(r, idb). Inr (r, set_inv idb db))"

definition context_of :: "env \<Rightarrow> doc_db \<Rightarrow> string \<Rightarrow> costingContext res" where
  "context_of E db item = loadCostingContext E (inv (tn db)) item"

text \<open>\<open>RecordInventoryEntry\<close> after a committed transaction.\<close>

definition book :: "env \<Rightarrow> clock \<Rightarrow> string \<Rightarrow> string \<Rightarrow> string \<Rightarrow> string \<Rightarrow> string \<Rightarrow> rat \<Rightarrow> doc_db \<Rightarrow> doc_db res" where
  "book E ck createdBy ref flow cat desc amount db = ebind (RecordInventoryEntry E (ck_period ck) (ck_today ck)
     createdBy ref flow cat desc amount [] (fin (tn db))) (\<lambda>fd. Inr (set_fin fd db))"

record StockOpResult =
  so_txn :: string
  so_doc :: string
  so_movements :: "string list"
  so_after :: f64
  so_total :: f64
  so_short :: f64

definition finCatSelisihPersediaan :: string where "finCatSelisihPersediaan = ''Selisih Persediaan''"
definition finCatPenyesuaianNilai :: string where "finCatPenyesuaianNilai = ''Penyesuaian Nilai Persediaan''"

section \<open>Adjustments\<close>

record AdjustmentParams =
  ap_item :: string
  ap_wh :: string
  ap_qty :: f64
  ap_cost :: f64
  ap_batch :: string
  ap_expiry :: "string option"
  ap_note :: string

definition adjustment_header :: "env \<Rightarrow> string \<Rightarrow> AdjustmentParams \<Rightarrow> doc_db \<Rightarrow> doc_db" where
  "adjustment_header E txnID p = update_txn txnID (\<lambda>r. r\<lparr>tx_item := Some (ap_item p), tx_wh := Some (ap_wh p),
     tx_signed := Some (db_numeric E (ap_qty p)), tx_unit := Some (db_numeric E (ap_cost p)), tx_note := nullStr (ap_note p)\<rparr>)"

definition adjustment_input ::
  "AdjustmentParams \<Rightarrow> string \<Rightarrow> string \<Rightarrow> f64 \<Rightarrow> int option \<Rightarrow> costingContext \<Rightarrow> string \<Rightarrow> string \<Rightarrow> MovementInput"
where
  "adjustment_input p mtype dir qty expiry cc txnID accountID = no_input\<lparr>mi_item := ap_item p, mi_wh := ap_wh p,
     mi_type := mtype, mi_dir := dir, mi_qty := qty, mi_cost := ap_cost p, mi_method := cc_method cc,
     mi_block := cc_block cc, mi_batch := ap_batch p, mi_expiry := expiry, mi_reftype := TxnKindAdjustment,
     mi_refid := txnID, mi_note := ap_note p, mi_by := accountID\<rparr>"

definition adjustment_tx ::
  "env \<Rightarrow> clock \<Rightarrow> AuthUser \<Rightarrow> AdjustmentParams \<Rightarrow> string \<Rightarrow> string \<Rightarrow> f64 \<Rightarrow> int option \<Rightarrow> doc_db
    \<Rightarrow> ((string \<times> string \<times> MovementResult) \<times> doc_db) res"
where
  "adjustment_tx E ck u p mtype dir qty expiry db =
     ebind (sql E ''tx.begin'' (Inr ())) (\<lambda>_.
     ebind (ensureSku E (ap_item p) db) (\<lambda>db1.
     ebind (insertStockTransactionHeader E ck TxnKindAdjustment [] (ap_note p) (AccountID u) db1) (\<lambda>((txnID, docNo), db2).
     ebind (sql E ''txn.update'' (Inr (adjustment_header E txnID p db2))) (\<lambda>db3.
     ebind (context_of E db3 (ap_item p)) (\<lambda>cc.
     ebind (post E (adjustment_input p mtype dir qty expiry cc txnID (AccountID u)) db3) (\<lambda>(res, db4).
     sql E ''tx.commit'' (Inr ((txnID, docNo, res), db4))))))))"

definition CreateAdjustment ::
  "env \<Rightarrow> clock \<Rightarrow> AuthUser option \<Rightarrow> AdjustmentParams \<Rightarrow> doc_db \<Rightarrow> (StockOpResult, doc_db) reply"
where
  "CreateAdjustment E ck auth p db =
     try_reply db (getUser auth) (\<lambda>u.
     try_reply db (requireOwner u) (\<lambda>_.
     case adjustmentPlan (ap_qty p) of
       None \<Rightarrow> (Inl (BadRequest ''qty penyesuaian tidak boleh 0''), db)
     | Some (mtype, dir, qty) \<Rightarrow>
     try_reply db (guard (\<not> (dir = dirIn \<and> ap_cost p < 0)) (BadRequest ''harga pokok tidak boleh negatif'')) (\<lambda>_.
     try_reply db (parseDatePtr (ap_expiry p)) (\<lambda>expiry.
     try_reply db (if dir = dirOut then CheckCurrentPeriodUnlocked E (ck_period ck) (ck_today ck) (fin (tn db)) else Inr ()) (\<lambda>_.
     try_reply db (prepareTenant E) (\<lambda>_.
     try_reply db (ensureInventoryModuleSchema E) (\<lambda>_.
     try_reply db (validateCatalogItem E (tn db) (ap_item p)) (\<lambda>_.
     try_reply db (validateWarehouse E (tn db) (ap_wh p)) (\<lambda>_.
     in_tx db (adjustment_tx E ck u p mtype dir qty expiry db) (\<lambda>(txnID, docNo, res) db'.
     try_reply db' (if dir = dirOut \<and> mr_total res > 0
         then book E ck (AccountID u) (mr_id res) ''expense'' finCatSelisihPersediaan
                (''Penyesuaian stok keluar ('' @ trim_space (ap_note p) @ '')'') (round2 (mr_total res)) db'
         else Inr db') (\<lambda>db''.
     (Inr \<lparr>so_txn = txnID, so_doc = docNo, so_movements = [mr_id res], so_after = mr_after res,
           so_total = mr_total res, so_short = mr_short res\<rparr>, db''))))))))))))"

section \<open>Transfers\<close>

record TransferParams =
  tp_item :: string
  tp_from :: string
  tp_to :: string
  tp_qty :: f64
  tp_note :: string

definition transfer_header :: "env \<Rightarrow> string \<Rightarrow> TransferParams \<Rightarrow> doc_db \<Rightarrow> doc_db" where
  "transfer_header E txnID p = update_txn txnID (\<lambda>r. r\<lparr>tx_item := Some (tp_item p), tx_from := Some (tp_from p),
     tx_to := Some (tp_to p), tx_signed := Some (db_numeric E (tp_qty p)), tx_note := nullStr (tp_note p)\<rparr>)"

definition transfer_out :: "TransferParams \<Rightarrow> costingContext \<Rightarrow> string \<Rightarrow> string \<Rightarrow> MovementInput" where
  "transfer_out p cc txnID accountID = no_input\<lparr>mi_item := tp_item p, mi_wh := tp_from p,
     mi_type := MovementTransferOut, mi_dir := dirOut, mi_qty := round4 (tp_qty p), mi_method := cc_method cc,
     mi_block := cc_block cc, mi_reftype := TxnKindTransfer, mi_refid := txnID, mi_note := tp_note p, mi_by := accountID\<rparr>"

definition transfer_in :: "TransferParams \<Rightarrow> costingContext \<Rightarrow> string \<Rightarrow> string \<Rightarrow> MovementResult \<Rightarrow> MovementInput" where
  "transfer_in p cc txnID accountID out = no_input\<lparr>mi_item := tp_item p, mi_wh := tp_to p,
     mi_type := MovementTransferIn, mi_dir := dirIn, mi_qty := round4 (tp_qty p), mi_cost := mr_unit out,
     mi_method := cc_method cc, mi_block := cc_block cc, mi_reftype := TxnKindTransfer, mi_refid := txnID,
     mi_source := mr_id out, mi_note := tp_note p, mi_by := accountID\<rparr>"

text \<open>The header update and the two movements, shared by creating and editing.\<close>

definition transfer_body ::
  "env \<Rightarrow> string \<Rightarrow> string \<Rightarrow> TransferParams \<Rightarrow> doc_db \<Rightarrow> ((MovementResult \<times> MovementResult) \<times> doc_db) res"
where
  "transfer_body E txnID accountID p db =
     ebind (sql E ''txn.update'' (Inr (transfer_header E txnID p db))) (\<lambda>db1.
     ebind (context_of E db1 (tp_item p)) (\<lambda>cc.
     ebind (post E (transfer_out p cc txnID accountID) db1) (\<lambda>(out, db2).
     ebind (post E (transfer_in p cc txnID accountID out) db2) (\<lambda>(inn, db3).
     Inr ((out, inn), db3)))))"

definition transfer_tx ::
  "env \<Rightarrow> clock \<Rightarrow> AuthUser \<Rightarrow> TransferParams \<Rightarrow> doc_db \<Rightarrow> ((string \<times> string \<times> MovementResult \<times> MovementResult) \<times> doc_db) res"
where
  "transfer_tx E ck u p db =
     ebind (sql E ''tx.begin'' (Inr ())) (\<lambda>_.
     ebind (ensureSku E (tp_item p) db) (\<lambda>db1.
     ebind (insertStockTransactionHeader E ck TxnKindTransfer [] (tp_note p) (AccountID u) db1) (\<lambda>((txnID, docNo), db2).
     ebind (transfer_body E txnID (AccountID u) p db2) (\<lambda>((out, inn), db3).
     sql E ''tx.commit'' (Inr ((txnID, docNo, out, inn), db3))))))"

definition CreateTransfer ::
  "env \<Rightarrow> clock \<Rightarrow> AuthUser option \<Rightarrow> TransferParams \<Rightarrow> doc_db \<Rightarrow> (StockOpResult, doc_db) reply"
where
  "CreateTransfer E ck auth p db =
     try_reply db (getUser auth) (\<lambda>u.
     try_reply db (requireOwner u) (\<lambda>_.
     try_reply db (guard (\<not> tp_qty p \<le> epsilon) (BadRequest ''qty transfer harus lebih dari 0'')) (\<lambda>_.
     try_reply db (guard (trim_space (tp_from p) \<noteq> trim_space (tp_to p)) (BadRequest ''gudang asal dan tujuan tidak boleh sama'')) (\<lambda>_.
     try_reply db (prepareTenant E) (\<lambda>_.
     try_reply db (ensureInventoryModuleSchema E) (\<lambda>_.
     try_reply db (validateCatalogItem E (tn db) (tp_item p)) (\<lambda>_.
     try_reply db (validateWarehouse E (tn db) (tp_from p)) (\<lambda>_.
     try_reply db (validateWarehouse E (tn db) (tp_to p)) (\<lambda>_.
     in_tx db (transfer_tx E ck u p db) (\<lambda>(txnID, docNo, out, inn) db'.
     (Inr \<lparr>so_txn = txnID, so_doc = docNo, so_movements = [mr_id out, mr_id inn], so_after = mr_after inn,
           so_total = mr_total out, so_short = 0\<rparr>, db')))))))))))"

section \<open>Opening balances\<close>

record OpeningEntry =
  oe_item :: string
  oe_wh :: string
  oe_qty :: f64
  oe_cost :: f64
  oe_batch :: string
  oe_expiry :: "string option"

definition validateCatalogItemsBatch :: "env \<Rightarrow> tenant_db \<Rightarrow> string list \<Rightarrow> unit res" where
  "validateCatalogItemsBatch E t ids = (let ids = uniqueNonEmpty ids in
     ebind (guard (ids \<noteq> []) (BadRequest ''item katalog wajib dipilih'')) (\<lambda>_.
     ebind (sql E ''items.exist'' (Inr [i \<leftarrow> ids. live_item t i])) (\<lambda>found.
     guard (list_all (\<lambda>i. i \<in> set found) ids) (BadRequest ''item katalog tidak ditemukan''))))"

definition validateWarehousesBatch :: "env \<Rightarrow> tenant_db \<Rightarrow> string list \<Rightarrow> unit res" where
  "validateWarehousesBatch E t ids = (let ids = uniqueNonEmpty ids in
     ebind (guard (ids \<noteq> []) (BadRequest ''gudang wajib dipilih'')) (\<lambda>_.
     ebind (sql E ''warehouses.exist'' (Inr [i \<leftarrow> ids. live_warehouse t i])) (\<lambda>found.
     guard (list_all (\<lambda>i. i \<in> set found) ids) (BadRequest ''gudang tidak ditemukan''))))"

definition entry_key :: "OpeningEntry \<Rightarrow> string \<times> string" where
  "entry_key e = (trim_space (oe_item e), trim_space (oe_wh e))"

definition entry_keyed :: "OpeningEntry \<Rightarrow> bool" where
  "entry_keyed e \<longleftrightarrow> fst (entry_key e) \<noteq> [] \<and> snd (entry_key e) \<noteq> []"

text \<open>\<open>seen\<close> maps a pair to the index of the line that had it first.\<close>

fun entry_pairs_loop :: "((string \<times> string) \<times> nat) list \<Rightarrow> nat \<Rightarrow> OpeningEntry list \<Rightarrow> unit res" where
  "entry_pairs_loop seen i [] = Inr ()"
| "entry_pairs_loop seen i (e # es) =
     (if \<not> entry_keyed e then entry_pairs_loop seen (Suc i) es
      else case map_of seen (entry_key e) of
        Some j \<Rightarrow> Inl (BadRequestf ''baris %d dan %d: kombinasi produk+gudang duplikat dalam form'' [of_nat j + 1, of_nat i + 1])
      | None \<Rightarrow> entry_pairs_loop ((entry_key e, i) # seen) (Suc i) es)"

definition validateOpeningBalanceEntryPairs :: "OpeningEntry list \<Rightarrow> unit res" where
  "validateOpeningBalanceEntryPairs entries = entry_pairs_loop [] 0 entries"

definition uniqueOpeningBalanceKeys :: "OpeningEntry list \<Rightarrow> (string \<times> string) list" where
  "uniqueOpeningBalanceKeys entries = dedup [entry_key e. e \<leftarrow> entries, entry_keyed e]"

definition opening_lines :: "doc_db \<Rightarrow> txn_line_row list" where
  "opening_lines db = [l \<leftarrow> txn_lines db. list_ex (\<lambda>t. tx_id t = tl_txn l \<and> tx_kind t = TxnKindOpeningBalance) (stock_txns db)]"

definition validateOpeningBalanceNotRegistered :: "env \<Rightarrow> doc_db \<Rightarrow> OpeningEntry list \<Rightarrow> unit res" where
  "validateOpeningBalanceNotRegistered E db entries =
     (let keys = uniqueOpeningBalanceKeys entries in
      if keys = [] then Inr ()
      else ebind (sql E ''opening.registered'' (Inr (find (\<lambda>l. (tl_item l, tl_wh l) \<in> set keys) (opening_lines db)))) (\<lambda>row.
        case row of None \<Rightarrow> Inr ()
        | Some l \<Rightarrow>
            let itemName = (case catalog (tn db) (tl_item l) of None \<Rightarrow> [] | Some r \<Rightarrow> ca_name r);
                whName = (case find (\<lambda>w. wr_id w = tl_wh l) (inv_warehouse (tn db)) of None \<Rightarrow> [] | Some w \<Rightarrow> wr_name w);
                itemName = (if trim_space itemName = [] then ''produk'' else itemName);
                whName = (if trim_space whName = [] then ''gudang'' else whName)
            in Inl (BadRequest (itemName @ '' di '' @ whName @ '' sudah punya saldo awal '' @ [CHR 0xE2, CHR 0x80, CHR 0x94]
                 @ '' gunakan Penyesuaian Stok untuk menambah atau mengurangi stok''))))"

definition insert_line ::
  "env \<Rightarrow> string \<Rightarrow> nat \<Rightarrow> OpeningEntry \<Rightarrow> int option \<Rightarrow> doc_db \<Rightarrow> (string \<times> doc_db) res"
where
  "insert_line E txnID i e expiry db = (let (lineID, db1) = new_id E db in
     sql E ''txn.line'' (Inr (lineID, db1\<lparr>txn_lines := txn_lines db1 @ [\<lparr>tl_id = lineID, tl_txn = txnID,
       tl_item = oe_item e, tl_wh = oe_wh e, tl_qty = db_numeric E (round4 (oe_qty e)), tl_cost = db_numeric E (round4 (oe_cost e)),
       tl_batch = nullStr (oe_batch e), tl_expiry = expiry, tl_movement = None, tl_order = i, tl_created = db_now E\<rparr>]\<rparr>)))"

definition link_line :: "env \<Rightarrow> string \<Rightarrow> string \<Rightarrow> doc_db \<Rightarrow> doc_db res" where
  "link_line E lineID movementID db = sql E ''txn.line.link'' (Inr (db\<lparr>txn_lines :=
     map (\<lambda>l. if tl_id l = lineID then l\<lparr>tl_movement := Some movementID\<rparr> else l) (txn_lines db)\<rparr>))"

definition opening_input ::
  "OpeningEntry \<Rightarrow> int option \<Rightarrow> costingContext \<Rightarrow> string \<Rightarrow> string \<Rightarrow> string \<Rightarrow> string \<Rightarrow> MovementInput"
where
  "opening_input e expiry cc txnID lineID docNo accountID = no_input\<lparr>mi_item := oe_item e, mi_wh := oe_wh e,
     mi_type := MovementOpening, mi_dir := dirIn, mi_qty := round4 (oe_qty e), mi_cost := oe_cost e,
     mi_method := cc_method cc, mi_block := cc_block cc, mi_batch := oe_batch e, mi_expiry := expiry,
     mi_reftype := TxnKindOpeningBalance, mi_refid := txnID, mi_refline := lineID,
     mi_note := ''Saldo awal '' @ docNo, mi_by := accountID\<rparr>"

definition wrap_line :: "nat \<Rightarrow> 'a res \<Rightarrow> 'a res" where
  "wrap_line i m = (case m of Inl e \<Rightarrow> Inl (Wrapf ''baris %d: %w'' [of_nat i + 1] e) | Inr x \<Rightarrow> Inr x)"

definition opening_line ::
  "env \<Rightarrow> string \<Rightarrow> string \<Rightarrow> string \<Rightarrow> nat \<times> OpeningEntry \<Rightarrow> costingContextLoader \<times> string list \<times> doc_db
    \<Rightarrow> (costingContextLoader \<times> string list \<times> doc_db) res"
where
  "opening_line E txnID docNo accountID ie st = (case ie of (i, e) \<Rightarrow> case st of (ccl, ids, db) \<Rightarrow>
     ebind (guard (\<not> oe_qty e \<le> epsilon) (BadRequestf ''baris %d: qty harus lebih dari 0'' [of_nat i + 1])) (\<lambda>_.
     ebind (guard (\<not> oe_cost e < 0) (BadRequestf ''baris %d: harga pokok tidak boleh negatif'' [of_nat i + 1])) (\<lambda>_.
     ebind (wrap_line i (parseDatePtr (oe_expiry e))) (\<lambda>expiry.
     ebind (ensureSku E (oe_item e) db) (\<lambda>db1.
     ebind (ccl_load E (inv (tn db1)) (oe_item e) ccl) (\<lambda>(cc, ccl').
     ebind (insert_line E txnID i e expiry db1) (\<lambda>(lineID, db2).
     ebind (post E (opening_input e expiry cc txnID lineID docNo accountID) db2) (\<lambda>(res, db3).
     ebind (link_line E lineID (mr_id res) db3) (\<lambda>db4.
     Inr (ccl', ids @ [mr_id res], db4))))))))))"

definition opening_tx ::
  "env \<Rightarrow> clock \<Rightarrow> AuthUser \<Rightarrow> OpeningEntry list \<Rightarrow> doc_db \<Rightarrow> ((string \<times> string \<times> string list) \<times> doc_db) res"
where
  "opening_tx E ck u entries db =
     ebind (sql E ''tx.begin'' (Inr ())) (\<lambda>_.
     ebind (insertStockTransactionHeader E ck TxnKindOpeningBalance [] ''Saldo awal'' (AccountID u) db) (\<lambda>((txnID, docNo), db1).
     ebind (validateCatalogItemsBatch E (tn db1) (map oe_item entries)) (\<lambda>_.
     ebind (validateWarehousesBatch E (tn db1) (map oe_wh entries)) (\<lambda>_.
     ebind (validateOpeningBalanceEntryPairs entries) (\<lambda>_.
     ebind (validateOpeningBalanceNotRegistered E db1 entries) (\<lambda>_.
     ebind (efold (opening_line E txnID docNo (AccountID u)) (List.enumerate 0 entries) (newCostingContextLoader, [], db1)) (\<lambda>(ccl, ids, db2).
     sql E ''tx.commit'' (Inr ((txnID, docNo, ids), db2)))))))))"

record OpeningBalanceResponse =
  ob_txn :: string
  ob_doc :: string
  ob_applied :: nat
  ob_movements :: "string list"

definition CreateOpeningBalance ::
  "env \<Rightarrow> clock \<Rightarrow> AuthUser option \<Rightarrow> OpeningEntry list \<Rightarrow> doc_db \<Rightarrow> (OpeningBalanceResponse, doc_db) reply"
where
  "CreateOpeningBalance E ck auth entries db =
     try_reply db (getUser auth) (\<lambda>u.
     try_reply db (requireOwner u) (\<lambda>_.
     try_reply db (guard (entries \<noteq> []) (BadRequest ''tidak ada baris saldo awal'')) (\<lambda>_.
     try_reply db (guard (length entries \<le> 1000) (BadRequest ''maksimal 1000 baris per unggahan'')) (\<lambda>_.
     try_reply db (prepareTenant E) (\<lambda>_.
     try_reply db (ensureInventoryModuleSchema E) (\<lambda>_.
     in_tx db (opening_tx E ck u entries db) (\<lambda>(txnID, docNo, ids) db'.
     (Inr \<lparr>ob_txn = txnID, ob_doc = docNo, ob_applied = length ids, ob_movements = ids\<rparr>, db'))))))))"

section \<open>Revaluations\<close>

record RevaluationParams =
  vp_item :: string
  vp_wh :: string
  vp_cost :: f64
  vp_note :: string

text \<open>
  The balance to revalue. On a database error the scanned quantity is still zero, so the error is
  reported as missing stock.
\<close>

definition reval_balance :: "env \<Rightarrow> RevaluationParams \<Rightarrow> doc_db \<Rightarrow> (f64 \<times> f64) res" where
  "reval_balance E p db =
     (let none = Inl (BadRequest ''tidak ada stok untuk direvaluasi di gudang ini'') in
      if db_fails E ''balance.lock'' then none
      else case balances (inv (tn db)) (vp_item p, vp_wh p) of
        None \<Rightarrow> none
      | Some b \<Rightarrow> if dec4 (bl_on_hand b) \<le> epsilon then none else Inr (dec4 (bl_on_hand b), dec4 (bl_total b)))"

definition reval_header :: "env \<Rightarrow> string \<Rightarrow> RevaluationParams \<Rightarrow> doc_db \<Rightarrow> doc_db" where
  "reval_header E txnID p = update_txn txnID (\<lambda>r. r\<lparr>tx_item := Some (vp_item p), tx_wh := Some (vp_wh p),
     tx_new := Some (db_numeric E (vp_cost p)), tx_note := nullStr (vp_note p)\<rparr>)"

definition reval_layers :: "env \<Rightarrow> RevaluationParams \<Rightarrow> f64 \<Rightarrow> f64 \<Rightarrow> inv_db \<Rightarrow> inv_db" where
  "reval_layers E p oldTotal newTotal db = db\<lparr>layers := map (\<lambda>l.
     if ly_item l = vp_item p \<and> ly_wh l = vp_wh p \<and> 0 < ly_qty l
     then l\<lparr>ly_cost := (if oldTotal > epsilon then db_scale E (ly_cost l) (fl (newTotal / oldTotal))
                        else db_numeric E (vp_cost p))\<rparr>
     else l) (layers db)\<rparr>"

definition reval_balance_row :: "env \<Rightarrow> RevaluationParams \<Rightarrow> f64 \<Rightarrow> inv_db \<Rightarrow> inv_db" where
  "reval_balance_row E p newTotal db = db\<lparr>balances := (case balances db (vp_item p, vp_wh p) of
       None \<Rightarrow> balances db
     | Some b \<Rightarrow> (balances db)((vp_item p, vp_wh p) \<mapsto> b\<lparr>bl_avg := db_numeric E (vp_cost p),
         bl_total := db_numeric E newTotal, bl_updated := db_now E\<rparr>))\<rparr>"

definition reval_movement :: "env \<Rightarrow> string \<Rightarrow> string \<Rightarrow> RevaluationParams \<Rightarrow> f64 \<Rightarrow> f64 \<Rightarrow> inv_db \<Rightarrow> string \<times> inv_db" where
  "reval_movement E txnID accountID p onHand delta db = (case fresh_uuid E db of (mid, db1) \<Rightarrow>
     (mid, db1\<lparr>movements := movements db1 @ [\<lparr>mv_id = mid, mv_item = vp_item p, mv_wh = vp_wh p,
        mv_type = MovementRevaluation, mv_dir = (if delta < 0 then dirOut else dirIn), mv_qty = 0,
        mv_unit = db_numeric E (vp_cost p), mv_total = db_numeric E (round4 \<bar>delta\<bar>), mv_after = db_numeric E onHand,
        mv_avg = db_numeric E (vp_cost p), mv_batch = None, mv_expiry = None, mv_reftype = Some TxnKindRevaluation,
        mv_refid = Some txnID, mv_refline = None, mv_source = None, mv_fintxn = None, mv_note = nullStr (vp_note p),
        mv_by = nullUUID accountID, mv_created = db_now E\<rparr>]\<rparr>))"

text \<open>From the header update to the ledger row, shared by creating and editing.\<close>

definition reval_body ::
  "env \<Rightarrow> string \<Rightarrow> string \<Rightarrow> RevaluationParams \<Rightarrow> f64 \<Rightarrow> f64 \<Rightarrow> doc_db \<Rightarrow> ((string \<times> f64) \<times> doc_db) res"
where
  "reval_body E txnID accountID p onHand oldTotal db =
     ebind (sql E ''txn.update'' (Inr (reval_header E txnID p db))) (\<lambda>db1.
     case revaluationDelta onHand oldTotal (vp_cost p) of (newTotal, delta) \<Rightarrow>
     ebind (context_of E db1 (vp_item p)) (\<lambda>cc.
     ebind (if cc_method cc \<noteq> CostingAverage
            then sql E ''layers.revalue'' (Inr (set_inv (reval_layers E p oldTotal newTotal (inv (tn db1))) db1))
            else Inr db1) (\<lambda>db2.
     ebind (sql E ''balance.revalue'' (Inr (set_inv (reval_balance_row E p newTotal (inv (tn db2))) db2))) (\<lambda>db3.
     sql E ''movement.revalue'' (case reval_movement E txnID accountID p onHand delta (inv (tn db3)) of
       (mid, idb) \<Rightarrow> Inr ((mid, delta), set_inv idb db3))))))"

definition reval_tx ::
  "env \<Rightarrow> clock \<Rightarrow> AuthUser \<Rightarrow> RevaluationParams \<Rightarrow> doc_db \<Rightarrow> ((string \<times> string \<times> string \<times> f64 \<times> f64) \<times> doc_db) res"
where
  "reval_tx E ck u p db =
     ebind (sql E ''tx.begin'' (Inr ())) (\<lambda>_.
     ebind (reval_balance E p db) (\<lambda>(onHand, oldTotal).
     ebind (insertStockTransactionHeader E ck TxnKindRevaluation [] (vp_note p) (AccountID u) db) (\<lambda>((txnID, docNo), db1).
     ebind (reval_body E txnID (AccountID u) p onHand oldTotal db1) (\<lambda>((mid, delta), db2).
     sql E ''tx.commit'' (Inr ((txnID, docNo, mid, delta, onHand), db2))))))"

definition recordRevaluationFinance :: "env \<Rightarrow> clock \<Rightarrow> string \<Rightarrow> string \<Rightarrow> string \<Rightarrow> f64 \<Rightarrow> doc_db \<Rightarrow> doc_db res" where
  "recordRevaluationFinance E ck accountID movementID note delta db =
     (if \<bar>delta\<bar> \<le> 0 then Inr db
      else book E ck accountID movementID (if delta < 0 then ''expense'' else ''income'') finCatPenyesuaianNilai
             (''Revaluasi HPP ('' @ trim_space note @ '')'') (round2 \<bar>delta\<bar>) db)"

definition CreateRevaluation ::
  "env \<Rightarrow> clock \<Rightarrow> AuthUser option \<Rightarrow> RevaluationParams \<Rightarrow> doc_db \<Rightarrow> (StockOpResult, doc_db) reply"
where
  "CreateRevaluation E ck auth p db =
     try_reply db (getUser auth) (\<lambda>u.
     try_reply db (requireOwner u) (\<lambda>_.
     try_reply db (guard (\<not> vp_cost p < 0) (BadRequest ''harga pokok baru tidak boleh negatif'')) (\<lambda>_.
     try_reply db (CheckCurrentPeriodUnlocked E (ck_period ck) (ck_today ck) (fin (tn db))) (\<lambda>_.
     try_reply db (prepareTenant E) (\<lambda>_.
     try_reply db (ensureInventoryModuleSchema E) (\<lambda>_.
     try_reply db (validateCatalogItem E (tn db) (vp_item p)) (\<lambda>_.
     try_reply db (validateWarehouse E (tn db) (vp_wh p)) (\<lambda>_.
     in_tx db (reval_tx E ck u p db) (\<lambda>(txnID, docNo, mid, delta, onHand) db'.
     try_reply db' (recordRevaluationFinance E ck (AccountID u) mid (vp_note p) delta db') (\<lambda>db''.
     (Inr \<lparr>so_txn = txnID, so_doc = docNo, so_movements = [mid], so_after = onHand, so_total = round4 \<bar>delta\<bar>,
           so_short = 0\<rparr>, db'')))))))))))"

section \<open>Deleting a document\<close>

definition movementFinanceRefs :: "string \<Rightarrow> movementRef list \<Rightarrow> string list" where
  "movementFinanceRefs extra movs = (if trim_space extra \<noteq> [] then [extra] else []) @ map ref_id movs"

definition remove_entries :: "env \<Rightarrow> string list \<Rightarrow> doc_db \<Rightarrow> doc_db out" where
  "remove_entries E refs db = (case RemoveInventoryEntries E refs (fin (tn db)) of (e, fd) \<Rightarrow> (e, set_fin fd db))"

definition purge :: "env \<Rightarrow> string \<Rightarrow> string \<Rightarrow> doc_db \<Rightarrow> doc_db res" where
  "purge E refType i db = ebind (purgeMovementsByRef E refType i (inv (tn db))) (\<lambda>(pairs, idb). Inr (set_inv idb db))"

text \<open>Deleting the header takes its lines along (\<open>ON DELETE CASCADE\<close>).\<close>

definition delete_txn :: "string \<Rightarrow> doc_db \<Rightarrow> doc_db" where
  "delete_txn i db = db\<lparr>stock_txns := [r \<leftarrow> stock_txns db. tx_id r \<noteq> i], txn_lines := [l \<leftarrow> txn_lines db. tl_txn l \<noteq> i]\<rparr>"

definition delete_tx :: "env \<Rightarrow> string \<Rightarrow> string \<Rightarrow> doc_db \<Rightarrow> doc_db res" where
  "delete_tx E kind i db =
     ebind (sql E ''tx.begin'' (Inr ())) (\<lambda>_.
     ebind (purge E (txnKindRefType kind) i db) (\<lambda>db1.
     ebind (sql E ''doc.delete'' (Inr (delete_txn i db1))) (\<lambda>db2.
     sql_raw E ''tx.commit'' (Inr db2))))"

definition DeleteStockTransaction :: "env \<Rightarrow> clock \<Rightarrow> AuthUser option \<Rightarrow> string \<Rightarrow> doc_db \<Rightarrow> doc_db out" where
  "DeleteStockTransaction E ck auth i db =
     try_out db (getUser auth) (\<lambda>u.
     try_out db (requireOwner u) (\<lambda>_.
     try_out db (prepareTenant E) (\<lambda>_.
     try_out db (ensureInventoryModuleSchema E) (\<lambda>_.
     try_out db (loadStockTransaction E db i) (\<lambda>txn.
     try_out db (CheckPeriodUnlockedForDate E (ck_period ck) (ck_today ck) (fin (tn db)) (tx_date (st_row txn))) (\<lambda>_.
     try_out db (collectMovementsByRef E (inv (tn db)) (txnKindRefType (tx_kind (st_row txn))) i) (\<lambda>movs.
     case remove_entries E (movementFinanceRefs [] movs) db of
       (Some e, db1) \<Rightarrow> (Some e, db1)
     | (None, db1) \<Rightarrow>
         try_out db1 (delete_tx E (tx_kind (st_row txn)) i db1) (\<lambda>db2. (None, db2)))))))))"

record BatchDeleteResult =
  bd_deleted :: nat
  bd_failed :: nat
  bd_errors :: "(string \<times> app_error) list"

definition batch_delete_one ::
  "env \<Rightarrow> clock \<Rightarrow> AuthUser option \<Rightarrow> string \<Rightarrow> BatchDeleteResult \<times> doc_db \<Rightarrow> BatchDeleteResult \<times> doc_db"
where
  "batch_delete_one E ck auth i st = (case st of (res, db) \<Rightarrow>
     case DeleteStockTransaction E ck auth i db of
       (Some e, db') \<Rightarrow> (res\<lparr>bd_failed := Suc (bd_failed res), bd_errors := bd_errors res @ [(i, e)]\<rparr>, db')
     | (None, db') \<Rightarrow> (res\<lparr>bd_deleted := Suc (bd_deleted res)\<rparr>, db'))"

definition BatchDeleteStockTransactions ::
  "env \<Rightarrow> clock \<Rightarrow> AuthUser option \<Rightarrow> string list \<Rightarrow> doc_db \<Rightarrow> (BatchDeleteResult, doc_db) reply"
where
  "BatchDeleteStockTransactions E ck auth ids db =
     try_reply db (getUser auth) (\<lambda>u.
     try_reply db (requireOwner u) (\<lambda>_.
     try_reply db (guard (ids \<noteq> []) (BadRequest ''ids wajib diisi'')) (\<lambda>_.
     try_reply db (guard (length ids \<le> 100) (BadRequest ''maksimal 100 transaksi per batch'')) (\<lambda>_.
     case fold (batch_delete_one E ck auth) ids (\<lparr>bd_deleted = 0, bd_failed = 0, bd_errors = []\<rparr>, db) of
       (res, db') \<Rightarrow> (Inr res, db')))))"

section \<open>Editing a document\<close>

record movementPostResult =
  mp_res :: MovementResult
  mp_dir :: string
  mp_note :: string

definition repostAdjustmentOnTx ::
  "env \<Rightarrow> string \<Rightarrow> string \<Rightarrow> AdjustmentParams \<Rightarrow> doc_db \<Rightarrow> (movementPostResult \<times> doc_db) res"
where
  "repostAdjustmentOnTx E txnID accountID p db = (case adjustmentPlan (ap_qty p) of
       None \<Rightarrow> Inl (BadRequest ''qty penyesuaian tidak boleh nol'')
     | Some (mtype, dir, qty) \<Rightarrow>
         ebind (parseDatePtr (ap_expiry p)) (\<lambda>expiry.
         ebind (validateCatalogItem E (tn db) (ap_item p)) (\<lambda>_.
         ebind (validateWarehouse E (tn db) (ap_wh p)) (\<lambda>_.
         ebind (ensureSku E (ap_item p) db) (\<lambda>db1.
         ebind (sql E ''txn.update'' (Inr (adjustment_header E txnID p db1))) (\<lambda>db2.
         ebind (context_of E db2 (ap_item p)) (\<lambda>cc.
         ebind (post E (adjustment_input p mtype dir qty expiry cc txnID accountID) db2) (\<lambda>(res, db3).
         Inr (\<lparr>mp_res = res, mp_dir = dir, mp_note = ap_note p\<rparr>, db3)))))))))"

definition repostTransferOnTx :: "env \<Rightarrow> string \<Rightarrow> string \<Rightarrow> TransferParams \<Rightarrow> doc_db \<Rightarrow> doc_db res" where
  "repostTransferOnTx E txnID accountID p db =
     ebind (guard (\<not> tp_qty p \<le> epsilon) (BadRequest ''qty transfer harus lebih dari 0'')) (\<lambda>_.
     ebind (guard (trim_space (tp_from p) \<noteq> trim_space (tp_to p)) (BadRequest ''gudang asal dan tujuan tidak boleh sama'')) (\<lambda>_.
     ebind (validateCatalogItem E (tn db) (tp_item p)) (\<lambda>_.
     ebind (validateWarehouse E (tn db) (tp_from p)) (\<lambda>_.
     ebind (validateWarehouse E (tn db) (tp_to p)) (\<lambda>_.
     ebind (ensureSku E (tp_item p) db) (\<lambda>db1.
     ebind (transfer_body E txnID accountID p db1) (\<lambda>(res, db2). Inr db2)))))))"

definition repost_opening_line ::
  "env \<Rightarrow> string \<Rightarrow> string \<Rightarrow> string \<Rightarrow> nat \<times> OpeningEntry \<Rightarrow> doc_db \<Rightarrow> doc_db res"
where
  "repost_opening_line E txnID docNo accountID ie db = (case ie of (i, e) \<Rightarrow>
     ebind (guard (\<not> oe_qty e \<le> epsilon) (BadRequestf ''baris %d: qty harus lebih dari 0'' [of_nat i + 1])) (\<lambda>_.
     ebind (guard (\<not> oe_cost e < 0) (BadRequestf ''baris %d: harga pokok tidak boleh negatif'' [of_nat i + 1])) (\<lambda>_.
     ebind (wrap_line i (validateCatalogItem E (tn db) (oe_item e))) (\<lambda>_.
     ebind (wrap_line i (validateWarehouse E (tn db) (oe_wh e))) (\<lambda>_.
     ebind (wrap_line i (parseDatePtr (oe_expiry e))) (\<lambda>expiry.
     ebind (ensureSku E (oe_item e) db) (\<lambda>db1.
     ebind (context_of E db1 (oe_item e)) (\<lambda>cc.
     ebind (insert_line E txnID i e expiry db1) (\<lambda>(lineID, db2).
     ebind (post E (opening_input e expiry cc txnID lineID docNo accountID) db2) (\<lambda>(res, db3).
     link_line E lineID (mr_id res) db3))))))))))"

definition repostOpeningOnTx :: "env \<Rightarrow> string \<Rightarrow> string \<Rightarrow> string \<Rightarrow> OpeningEntry list \<Rightarrow> doc_db \<Rightarrow> doc_db res" where
  "repostOpeningOnTx E txnID docNo accountID entries db =
     efold (repost_opening_line E txnID docNo accountID) (List.enumerate 0 entries) db"

definition repostRevaluationOnTx ::
  "env \<Rightarrow> string \<Rightarrow> string \<Rightarrow> RevaluationParams \<Rightarrow> doc_db \<Rightarrow> ((string \<times> f64) \<times> doc_db) res"
where
  "repostRevaluationOnTx E txnID accountID p db =
     ebind (guard (\<not> vp_cost p < 0) (BadRequest ''harga pokok baru tidak boleh negatif'')) (\<lambda>_.
     ebind (validateCatalogItem E (tn db) (vp_item p)) (\<lambda>_.
     ebind (validateWarehouse E (tn db) (vp_wh p)) (\<lambda>_.
     ebind (reval_balance E p db) (\<lambda>(onHand, oldTotal).
     reval_body E txnID accountID p onHand oldTotal db))))"

definition recordAdjustmentFinance :: "env \<Rightarrow> clock \<Rightarrow> string \<Rightarrow> movementPostResult option \<Rightarrow> doc_db \<Rightarrow> doc_db res" where
  "recordAdjustmentFinance E ck accountID r db = (case r of None \<Rightarrow> Inr db | Some m \<Rightarrow>
     if mp_dir m \<noteq> dirOut \<or> mr_total (mp_res m) \<le> 0 then Inr db
     else book E ck accountID (mr_id (mp_res m)) ''expense'' finCatSelisihPersediaan
            (''Penyesuaian stok keluar ('' @ trim_space (mp_note m) @ '')'') (round2 (mr_total (mp_res m))) db)"

record UpdateStockTransactionParams =
  up_item :: string
  up_wh :: string
  up_qty :: f64
  up_cost :: f64
  up_batch :: string
  up_expiry :: "string option"
  up_note :: string
  up_from :: string
  up_to :: string
  up_transfer :: f64
  up_new :: f64
  up_entries :: "OpeningEntry list"

definition coalesceStr :: "string \<Rightarrow> string \<Rightarrow> string" where
  "coalesceStr a b = (if a \<noteq> [] then a else b)"

definition col :: "string option \<Rightarrow> string" where
  "col s = (case s of None \<Rightarrow> [] | Some t \<Rightarrow> t)"

definition keep_num :: "f64 \<Rightarrow> int option \<Rightarrow> f64" where
  "keep_num x old = (case old of Some n \<Rightarrow> dec4 n | None \<Rightarrow> x)"

definition edited_adjustment :: "UpdateStockTransactionParams \<Rightarrow> stock_txn_row \<Rightarrow> AdjustmentParams" where
  "edited_adjustment p r = \<lparr>ap_item = coalesceStr (up_item p) (col (tx_item r)), ap_wh = coalesceStr (up_wh p) (col (tx_wh r)),
     ap_qty = (if up_qty p = 0 then keep_num (up_qty p) (tx_signed r) else up_qty p),
     ap_cost = (if up_cost p = 0 then keep_num (up_cost p) (tx_unit r) else up_cost p),
     ap_batch = up_batch p, ap_expiry = up_expiry p, ap_note = coalesceStr (up_note p) (col (tx_note r))\<rparr>"

definition edited_transfer :: "UpdateStockTransactionParams \<Rightarrow> stock_txn_row \<Rightarrow> TransferParams" where
  "edited_transfer p r = \<lparr>tp_item = coalesceStr (up_item p) (col (tx_item r)), tp_from = coalesceStr (up_from p) (col (tx_from r)),
     tp_to = coalesceStr (up_to p) (col (tx_to r)),
     tp_qty = (if up_transfer p \<le> 0 then keep_num (up_transfer p) (tx_signed r) else up_transfer p),
     tp_note = coalesceStr (up_note p) (col (tx_note r))\<rparr>"

definition edited_revaluation :: "UpdateStockTransactionParams \<Rightarrow> stock_txn_row \<Rightarrow> RevaluationParams" where
  "edited_revaluation p r = \<lparr>vp_item = coalesceStr (up_item p) (col (tx_item r)), vp_wh = coalesceStr (up_wh p) (col (tx_wh r)),
     vp_cost = (if up_new p = 0 then keep_num (up_new p) (tx_new r) else up_new p),
     vp_note = coalesceStr (up_note p) (col (tx_note r))\<rparr>"

definition repost ::
  "env \<Rightarrow> AuthUser \<Rightarrow> string \<Rightarrow> UpdateStockTransactionParams \<Rightarrow> stock_txn_row \<Rightarrow> doc_db
    \<Rightarrow> ((movementPostResult option \<times> string \<times> string \<times> f64) \<times> doc_db) res"
where
  "repost E u i p r db =
     (if tx_kind r = TxnKindAdjustment then
        ebind (repostAdjustmentOnTx E i (AccountID u) (edited_adjustment p r) db) (\<lambda>(m, db'). Inr ((Some m, [], [], 0), db'))
      else if tx_kind r = TxnKindTransfer then
        ebind (repostTransferOnTx E i (AccountID u) (edited_transfer p r) db) (\<lambda>db'. Inr ((None, [], [], 0), db'))
      else if tx_kind r = TxnKindOpeningBalance then
        ebind (guard (up_entries p \<noteq> []) (BadRequest ''entries wajib untuk edit saldo awal'')) (\<lambda>_.
        ebind (repostOpeningOnTx E i (tx_doc r) (AccountID u) (up_entries p) db) (\<lambda>db'. Inr ((None, [], [], 0), db')))
      else if tx_kind r = TxnKindRevaluation then
        ebind (repostRevaluationOnTx E i (AccountID u) (edited_revaluation p r) db) (\<lambda>((mid, delta), db').
        Inr ((None, mid, coalesceStr (up_note p) (col (tx_note r)), delta), db'))
      else Inl (BadRequest ''jenis tidak didukung''))"

definition update_tx ::
  "env \<Rightarrow> AuthUser \<Rightarrow> string \<Rightarrow> UpdateStockTransactionParams \<Rightarrow> stock_txn_row \<Rightarrow> doc_db
    \<Rightarrow> ((movementPostResult option \<times> string \<times> string \<times> f64) \<times> doc_db) res"
where
  "update_tx E u i p r db =
     ebind (sql E ''tx.begin'' (Inr ())) (\<lambda>_.
     ebind (purge E (txnKindRefType (tx_kind r)) i db) (\<lambda>db1.
     ebind (sql E ''txn.lines.delete'' (Inr (db1\<lparr>txn_lines := [l \<leftarrow> txn_lines db1. tl_txn l \<noteq> i]\<rparr>))) (\<lambda>db2.
     ebind (repost E u i p r db2) (\<lambda>(res, db3).
     sql E ''tx.commit'' (Inr (res, db3))))))"

definition UpdateStockTransaction ::
  "env \<Rightarrow> clock \<Rightarrow> AuthUser option \<Rightarrow> string \<Rightarrow> UpdateStockTransactionParams \<Rightarrow> doc_db \<Rightarrow> (StockTransaction, doc_db) reply"
where
  "UpdateStockTransaction E ck auth i p db =
     try_reply db (getUser auth) (\<lambda>u.
     try_reply db (requireOwner u) (\<lambda>_.
     try_reply db (prepareTenant E) (\<lambda>_.
     try_reply db (ensureInventoryModuleSchema E) (\<lambda>_.
     try_reply db (loadStockTransaction E db i) (\<lambda>existing.
     try_reply db (CheckPeriodUnlockedForDate E (ck_period ck) (ck_today ck) (fin (tn db)) (tx_date (st_row existing))) (\<lambda>_.
     try_reply db (collectMovementsByRef E (inv (tn db)) (txnKindRefType (tx_kind (st_row existing))) i) (\<lambda>movs.
     case remove_entries E (movementFinanceRefs [] movs) db of
       (Some e, db1) \<Rightarrow> (Inl e, db1)
     | (None, db1) \<Rightarrow>
         in_tx db1 (update_tx E u i p (st_row existing) db1) (\<lambda>(adj, mid, note, delta) db2.
         try_reply db2 (recordAdjustmentFinance E ck (AccountID u) adj db2) (\<lambda>db3.
         try_reply db3 (recordRevaluationFinance E ck (AccountID u) mid note delta db3) (\<lambda>db4.
         (loadStockTransaction E db4 i, db4)))))))))))"

end
