(* ===== verification/Purchasing.thy ===== *)
theory Purchasing
  imports Stock_Docs
begin

text \<open>
  Purchase orders and the bills that receive them: \<open>inventory/purchase_order.go\<close>,
  \<open>purchase_order_crud.go\<close>, \<open>bill.go\<close>, \<open>bill_patch.go\<close>, \<open>bill_delete.go\<close>, and \<open>loadSetting\<close> of
  \<open>inventory/inventory.go\<close>.

  A purchase order plans a delivery and touches neither stock nor books. A bill posts one receipt
  per line into the stock ledger, adds the quantity to the purchase order line it names, refreshes
  the status of the purchase order it names and, when the tenant books purchases as expenses,
  writes one finance entry after the transaction.

  The conventions are those of the stock documents. A statement that PostgreSQL rejects, because a
  value does not fit its column, is one of the failing statements of the environment. How
  PostgreSQL reads a text as a DATE, and prints it again, is the parameter \<open>pg_date\<close>.
\<close>

section \<open>Tables\<close>

record po_row =
  po_id :: string
  po_no :: string
  po_supplier :: "string option"
  po_contact :: "string option"
  po_wh :: "string option"
  po_status :: string
  po_date :: string
  po_note :: "string option"
  po_subtotal :: int
  po_by :: "string option"
  po_created :: int
  po_deleted :: bool

record po_line_row =
  pl_id :: string
  pl_po :: string
  pl_item :: string
  pl_wh :: string
  pl_desc :: "string option"
  pl_ordered :: int
  pl_received :: int
  pl_cost :: int
  pl_created :: int

record bill_row =
  bi_id :: string
  bi_no :: string
  bi_po :: "string option"
  bi_supplier :: "string option"
  bi_contact :: "string option"
  bi_wh :: "string option"
  bi_status :: string
  bi_date :: string
  bi_note :: "string option"
  bi_subtotal :: int
  bi_by :: "string option"
  bi_created :: int
  bi_deleted :: bool

record bill_line_row =
  bn_id :: string
  bn_bill :: string
  bn_po_line :: "string option"
  bn_item :: string
  bn_wh :: string
  bn_desc :: "string option"
  bn_qty :: int
  bn_cost :: int
  bn_batch :: "string option"
  bn_expiry :: "int option"
  bn_movement :: "string option"
  bn_created :: int

record pur_db =
  pd :: doc_db
  pos :: "po_row list"
  po_lines :: "po_line_row list"
  bills :: "bill_row list"
  bill_lines :: "bill_line_row list"

abbreviation pinv :: "pur_db \<Rightarrow> inv_db" where "pinv db \<equiv> inv (tn (pd db))"
abbreviation pfin :: "pur_db \<Rightarrow> fin_db" where "pfin db \<equiv> fin (tn (pd db))"

text \<open>Statements on the tables the stock documents share.\<close>

definition shared :: "(doc_db \<Rightarrow> ('a \<times> doc_db) res) \<Rightarrow> pur_db \<Rightarrow> ('a \<times> pur_db) res" where
  "shared f db = ebind (f (pd db)) (\<lambda>(x, d). Inr (x, db\<lparr>pd := d\<rparr>))"

definition on_shared :: "(doc_db \<Rightarrow> doc_db res) \<Rightarrow> pur_db \<Rightarrow> pur_db res" where
  "on_shared f db = ebind (f (pd db)) (\<lambda>d. Inr (db\<lparr>pd := d\<rparr>))"

definition fresh :: "env \<Rightarrow> pur_db \<Rightarrow> string \<times> pur_db" where
  "fresh E db = (case new_id E (pd db) of (i, d) \<Rightarrow> (i, db\<lparr>pd := d\<rparr>))"

text \<open>\<open>appErrs.Internal(err.Error())\<close>\<close>

definition as_internal :: "string \<Rightarrow> 'a res \<Rightarrow> 'a res" where
  "as_internal stmt m = (case m of Inl e \<Rightarrow> Inl (Internal stmt) | Inr x \<Rightarrow> Inr x)"

lemma as_internal_Inr [res_simps]: "as_internal stmt m = Inr x \<longleftrightarrow> m = Inr x"
  by (auto simp: as_internal_def split: sum.splits)

definition DocPO :: string where "DocPO = ''WPO''"
definition DocBill :: string where "DocBill = ''WBIL''"

section \<open>Settings (inventory.go)\<close>

definition default_setting :: setting_row where
  "default_setting = \<lparr>st_setup = False, st_method = CostingAverage, st_block = True, st_expense = False\<rparr>"

text \<open>The row is inserted when it is missing, outside every transaction of the caller.\<close>

definition loadSetting :: "env \<Rightarrow> pur_db \<Rightarrow> (setting_row \<times> pur_db) res" where
  "loadSetting E db =
     ebind (ensureInventoryModuleSchema E) (\<lambda>_.
     ebind (sql_raw E ''setting.load'' (Inr (inv_setting (pinv db)))) (\<lambda>st. case st of
       Some s \<Rightarrow> Inr (s, db)
     | None \<Rightarrow> sql_raw E ''setting.insert'' (Inr (default_setting,
         db\<lparr>pd := set_inv ((pinv db)\<lparr>inv_setting := Some default_setting\<rparr>) (pd db)\<rparr>))))"

section \<open>Purchase orders (purchase_order.go, purchase_order_crud.go)\<close>

record PurchaseOrderLineInput =
  li_item :: string
  li_wh :: string
  li_desc :: string
  li_ordered :: f64
  li_cost :: f64

record PurchaseOrderParams =
  pp_supplier :: string
  pp_contact :: string
  pp_wh :: string
  pp_date :: string
  pp_note :: string
  pp_lines :: "PurchaseOrderLineInput list"

record PurchaseOrder =
  pv_row :: po_row
  pv_lines :: "po_line_row list"

definition find_po :: "pur_db \<Rightarrow> string \<Rightarrow> po_row option" where
  "find_po db i = find (\<lambda>r. po_id r = i \<and> \<not> po_deleted r) (pos db)"

definition lines_of_po :: "pur_db \<Rightarrow> string \<Rightarrow> po_line_row list" where
  "lines_of_po db i = [l \<leftarrow> po_lines db. pl_po l = i]"

definition getPurchaseOrder :: "env \<Rightarrow> pur_db \<Rightarrow> string \<Rightarrow> PurchaseOrder res" where
  "getPurchaseOrder E db i =
     ebind (sql E ''po.select'' (case find_po db i of None \<Rightarrow> Inl (NotFound ''purchase order tidak ditemukan'') | Some r \<Rightarrow> Inr r)) (\<lambda>r.
     sql E ''po.lines'' (Inr \<lparr>pv_row = r, pv_lines = sort_key pl_created (lines_of_po db i)\<rparr>))"

definition GetPurchaseOrder :: "env \<Rightarrow> AuthUser option \<Rightarrow> string \<Rightarrow> pur_db \<Rightarrow> PurchaseOrder res" where
  "GetPurchaseOrder E auth i db =
     ebind (getUser auth) (\<lambda>u. ebind (prepareTenant E) (\<lambda>_. getPurchaseOrder E db i))"

text \<open>\<open>strings.TrimSpace\<close>, then today or a date in the format the handler asks for.\<close>

definition document_date :: "string \<Rightarrow> string \<Rightarrow> string res" where
  "document_date dflt s = (let t = trim_space s in
     if t = [] then Inr dflt
     else ebind (guard (parse_date t \<noteq> None) (BadRequest ''format tanggal harus YYYY-MM-DD'')) (\<lambda>_. Inr t))"

text \<open>A line without a warehouse takes the document's.\<close>

definition fill_po_line :: "string \<Rightarrow> PurchaseOrderLineInput \<Rightarrow> PurchaseOrderLineInput" where
  "fill_po_line dflt l = (if trim_space (li_wh l) = [] then l\<lparr>li_wh := dflt\<rparr> else l)"

definition check_line :: "env \<Rightarrow> tenant_db \<Rightarrow> nat \<Rightarrow> f64 \<Rightarrow> f64 \<Rightarrow> string \<Rightarrow> string \<Rightarrow> unit res" where
  "check_line E t i qty cost item wh =
     ebind (guard (\<not> qty \<le> epsilon) (BadRequestf ''baris %d: qty harus lebih dari 0'' [of_nat i + 1])) (\<lambda>_.
     ebind (guard (\<not> cost < 0) (BadRequestf ''baris %d: harga tidak boleh negatif'' [of_nat i + 1])) (\<lambda>_.
     ebind (wrap_line i (validateCatalogItem E t item)) (\<lambda>_.
     wrap_line i (validateWarehouse E t wh))))"

text \<open>The loop over the lines: it checks each line and adds up \<open>subtotal\<close>.\<close>

definition po_line_step :: "env \<Rightarrow> tenant_db \<Rightarrow> nat \<times> PurchaseOrderLineInput \<Rightarrow> f64 \<Rightarrow> f64 res" where
  "po_line_step E t il subtotal = (case il of (i, l) \<Rightarrow>
     ebind (check_line E t i (li_ordered l) (li_cost l) (li_item l) (li_wh l)) (\<lambda>_.
     Inr (fl (subtotal + fl (li_ordered l * li_cost l)))))"

definition check_po_lines :: "env \<Rightarrow> tenant_db \<Rightarrow> PurchaseOrderLineInput list \<Rightarrow> f64 res" where
  "check_po_lines E t lines = efold (po_line_step E t) (List.enumerate 0 lines) 0"

text \<open>\<open>INSERT INTO pur_purchase_order_line\<close>: nothing received yet.\<close>

definition insert_po_line :: "env \<Rightarrow> string \<Rightarrow> PurchaseOrderLineInput \<Rightarrow> pur_db \<Rightarrow> pur_db res" where
  "insert_po_line E poID l db = (let (i, db1) = fresh E db in
     sql E ''po.line'' (Inr (db1\<lparr>po_lines := po_lines db1 @ [\<lparr>pl_id = i, pl_po = poID, pl_item = li_item l, pl_wh = li_wh l,
       pl_desc = nullStr (li_desc l), pl_ordered = db_numeric E (round4 (li_ordered l)), pl_received = 0,
       pl_cost = db_numeric E (round4 (li_cost l)), pl_created = db_now E\<rparr>]\<rparr>)))"

text \<open>The insert fails on a number that is taken, by the unique index on \<open>po_no\<close> of live rows.\<close>

definition create_po_tx ::
  "env \<Rightarrow> (string \<Rightarrow> string option) \<Rightarrow> AuthUser \<Rightarrow> PurchaseOrderParams \<Rightarrow> string \<Rightarrow> string \<Rightarrow> PurchaseOrderLineInput list \<Rightarrow> f64
    \<Rightarrow> pur_db \<Rightarrow> (string \<times> pur_db) res"
where
  "create_po_tx E pg_date u p txnDate dflt lines subtotal db =
     ebind (sql E ''tx.begin'' (Inr ())) (\<lambda>_.
     ebind (as_internal ''docseq.upsert'' (shared (nextDocNumber E DocPO DocPO) db)) (\<lambda>(poNo, db1).
     let (poID, db2) = fresh E db1 in
     ebind (sql E ''po.insert'' (case pg_date txnDate of None \<Rightarrow> Inl (Internal ''po.insert'') | Some d \<Rightarrow>
       if \<exists>r\<in>set (pos db2). po_no r = poNo \<and> \<not> po_deleted r then Inl (Internal ''po.insert'')
       else Inr (db2\<lparr>pos := pos db2 @ [\<lparr>po_id = poID, po_no = poNo, po_supplier = nullStr (pp_supplier p),
         po_contact = nullUUID (pp_contact p), po_wh = nullUUID dflt, po_status = ''open'', po_date = d,
         po_note = nullStr (pp_note p), po_subtotal = db_numeric E (round4 subtotal), po_by = nullUUID (AccountID u),
         po_created = db_now E, po_deleted = False\<rparr>]\<rparr>))) (\<lambda>db3.
     ebind (efold (insert_po_line E poID) lines db3) (\<lambda>db4.
     sql E ''tx.commit'' (Inr (poID, db4))))))"

definition CreatePurchaseOrder ::
  "env \<Rightarrow> (string \<Rightarrow> string option) \<Rightarrow> clock \<Rightarrow> AuthUser option \<Rightarrow> PurchaseOrderParams \<Rightarrow> pur_db \<Rightarrow> (PurchaseOrder, pur_db) reply"
where
  "CreatePurchaseOrder E pg_date ck auth p db =
     try_reply db (getUser auth) (\<lambda>u.
     try_reply db (requireOwner u) (\<lambda>_.
     try_reply db (guard (pp_lines p \<noteq> []) (BadRequest ''minimal 1 baris item'')) (\<lambda>_.
     try_reply db (document_date (ck_local ck) (pp_date p)) (\<lambda>txnDate.
     try_reply db (prepareTenant E) (\<lambda>_.
     let dflt = trim_space (pp_wh p); lines = map (fill_po_line dflt) (pp_lines p) in
     try_reply db (check_po_lines E (tn (pd db)) lines) (\<lambda>subtotal.
     in_tx db (create_po_tx E pg_date u p txnDate dflt lines subtotal db) (\<lambda>poID db'.
     (getPurchaseOrder E db' poID, db'))))))))"

text \<open>\<open>UPDATE pur_purchase_order ... WHERE id = $1 AND ...\<close>\<close>

definition update_po :: "(po_row \<Rightarrow> bool) \<Rightarrow> (po_row \<Rightarrow> po_row) \<Rightarrow> pur_db \<Rightarrow> pur_db" where
  "update_po P f db = db\<lparr>pos := map (\<lambda>r. if P r then f r else r) (pos db)\<rparr>"

definition set_po_status :: "(po_row \<Rightarrow> bool) \<Rightarrow> string \<Rightarrow> pur_db \<Rightarrow> pur_db" where
  "set_po_status P s = update_po P (\<lambda>r. r\<lparr>po_status := s\<rparr>)"

definition closable :: "string \<Rightarrow> po_row \<Rightarrow> bool" where
  "closable i r \<longleftrightarrow> po_id r = i \<and> \<not> po_deleted r \<and> po_status r \<in> set [''open'', ''partial'']"

definition ClosePurchaseOrder :: "env \<Rightarrow> AuthUser option \<Rightarrow> string \<Rightarrow> pur_db \<Rightarrow> (PurchaseOrder, pur_db) reply" where
  "ClosePurchaseOrder E auth i db =
     try_reply db (getUser auth) (\<lambda>u.
     try_reply db (requireOwner u) (\<lambda>_.
     try_reply db (prepareTenant E) (\<lambda>_.
     try_reply db (sql E ''po.close'' (Inr ())) (\<lambda>_.
     try_reply db (guard (list_ex (closable i) (pos db))
       (BadRequest ''PO tidak bisa ditutup (tidak ditemukan atau status tidak open/partial)'')) (\<lambda>_.
     let db' = set_po_status (closable i) ''closed'' db in (getPurchaseOrder E db' i, db'))))))"

definition cancellable :: "string \<Rightarrow> po_row \<Rightarrow> bool" where
  "cancellable i r \<longleftrightarrow> po_id r = i \<and> \<not> po_deleted r \<and> po_status r \<notin> set [''cancelled'', ''received'', ''closed'']"

definition sum_received :: "pur_db \<Rightarrow> string \<Rightarrow> int" where
  "sum_received db i = (\<Sum>l\<leftarrow>lines_of_po db i. pl_received l)"

definition sum_ordered :: "pur_db \<Rightarrow> string \<Rightarrow> int" where
  "sum_ordered db i = (\<Sum>l\<leftarrow>lines_of_po db i. pl_ordered l)"

definition CancelPurchaseOrder :: "env \<Rightarrow> AuthUser option \<Rightarrow> string \<Rightarrow> pur_db \<Rightarrow> (PurchaseOrder, pur_db) reply" where
  "CancelPurchaseOrder E auth i db =
     try_reply db (getUser auth) (\<lambda>u.
     try_reply db (requireOwner u) (\<lambda>_.
     try_reply db (prepareTenant E) (\<lambda>_.
     try_reply db (sql E ''po.received'' (Inr (dec4 (sum_received db i)))) (\<lambda>received.
     try_reply db (guard (\<not> received > epsilon) (BadRequest ''PO sudah ada penerimaan, tidak bisa dibatalkan'')) (\<lambda>_.
     try_reply db (sql E ''po.cancel'' (Inr ())) (\<lambda>_.
     try_reply db (guard (list_ex (cancellable i) (pos db)) (BadRequest ''PO tidak bisa dibatalkan pada status saat ini'')) (\<lambda>_.
     let db' = set_po_status (cancellable i) ''cancelled'' db in (getPurchaseOrder E db' i, db'))))))))"

definition has_receipts :: "po_line_row list \<Rightarrow> bool" where
  "has_receipts lines \<longleftrightarrow> list_ex (\<lambda>l. dec4 (pl_received l) > epsilon) lines"

text \<open>Deleting the header takes its lines along (\<open>ON DELETE CASCADE\<close>).\<close>

definition delete_po :: "string \<Rightarrow> pur_db \<Rightarrow> pur_db" where
  "delete_po i db = db\<lparr>pos := [r \<leftarrow> pos db. po_id r \<noteq> i], po_lines := [l \<leftarrow> po_lines db. pl_po l \<noteq> i]\<rparr>"

definition DeletePurchaseOrder :: "env \<Rightarrow> clock \<Rightarrow> AuthUser option \<Rightarrow> string \<Rightarrow> pur_db \<Rightarrow> pur_db out" where
  "DeletePurchaseOrder E ck auth i db =
     try_out db (getUser auth) (\<lambda>u.
     try_out db (requireOwner u) (\<lambda>_.
     try_out db (prepareTenant E) (\<lambda>_.
     try_out db (getPurchaseOrder E db i) (\<lambda>po.
     try_out db (CheckPeriodUnlockedForDate E (ck_period ck) (ck_today ck) (pfin db) (po_date (pv_row po))) (\<lambda>_.
     try_out db (guard (\<not> has_receipts (pv_lines po)) (BadRequest ''PO sudah ada penerimaan, tidak bisa dihapus'')) (\<lambda>_.
     try_out db (sql E ''po.bills'' (Inr (length [b \<leftarrow> bills db. bi_po b = Some i]))) (\<lambda>billCount.
     try_out db (guard (\<not> billCount > 0) (BadRequest ''PO sudah punya bill penerimaan, tidak bisa dihapus'')) (\<lambda>_.
     try_out db (guard (po_status (pv_row po) = ''open'' \<or> po_status (pv_row po) = ''cancelled'')
       (BadRequest ''hanya PO terbuka atau dibatalkan yang bisa dihapus'')) (\<lambda>_.
     try_out db (sql E ''po.delete'' (Inr (delete_po i db))) (\<lambda>db'. (None, db')))))))))))"

definition purchaseOrderDeletable :: "string \<Rightarrow> bool \<Rightarrow> bool \<Rightarrow> bool" where
  "purchaseOrderDeletable status hasReceipts hasBills \<longleftrightarrow>
     (if hasReceipts \<or> hasBills then False else status = ''open'' \<or> status = ''cancelled'')"

definition purchaseOrderEditable :: "string \<Rightarrow> bool \<Rightarrow> bool" where
  "purchaseOrderEditable status hasReceipts \<longleftrightarrow> status = ''open'' \<and> \<not> hasReceipts"

definition update_po_tx ::
  "env \<Rightarrow> (string \<Rightarrow> string option) \<Rightarrow> string \<Rightarrow> PurchaseOrderParams \<Rightarrow> string \<Rightarrow> string \<Rightarrow> PurchaseOrderLineInput list \<Rightarrow> f64
    \<Rightarrow> pur_db \<Rightarrow> (unit \<times> pur_db) res"
where
  "update_po_tx E pg_date i p txnDate dflt lines subtotal db =
     ebind (sql E ''tx.begin'' (Inr ())) (\<lambda>_.
     ebind (sql E ''po.lines.delete'' (Inr (db\<lparr>po_lines := [l \<leftarrow> po_lines db. pl_po l \<noteq> i]\<rparr>))) (\<lambda>db1.
     ebind (sql E ''po.update'' (case pg_date txnDate of None \<Rightarrow> Inl (Internal ''po.update'') | Some d \<Rightarrow>
       Inr (update_po (\<lambda>r. po_id r = i) (\<lambda>r. r\<lparr>po_supplier := nullStr (pp_supplier p), po_contact := nullUUID (pp_contact p),
         po_wh := nullUUID dflt, po_date := d, po_note := nullStr (pp_note p),
         po_subtotal := db_numeric E (round4 subtotal)\<rparr>) db1))) (\<lambda>db2.
     ebind (efold (insert_po_line E i) lines db2) (\<lambda>db3.
     sql E ''tx.commit'' (Inr ((), db3))))))"

definition UpdatePurchaseOrder ::
  "env \<Rightarrow> (string \<Rightarrow> string option) \<Rightarrow> clock \<Rightarrow> AuthUser option \<Rightarrow> string \<Rightarrow> PurchaseOrderParams \<Rightarrow> pur_db \<Rightarrow> (PurchaseOrder, pur_db) reply"
where
  "UpdatePurchaseOrder E pg_date ck auth i p db =
     try_reply db (getUser auth) (\<lambda>u.
     try_reply db (requireOwner u) (\<lambda>_.
     try_reply db (guard (pp_lines p \<noteq> []) (BadRequest ''minimal 1 baris item'')) (\<lambda>_.
     try_reply db (prepareTenant E) (\<lambda>_.
     try_reply db (getPurchaseOrder E db i) (\<lambda>po.
     try_reply db (CheckPeriodUnlockedForDate E (ck_period ck) (ck_today ck) (pfin db) (po_date (pv_row po))) (\<lambda>_.
     try_reply db (guard (po_status (pv_row po) = ''open'') (BadRequest ''hanya PO berstatus open yang bisa diedit'')) (\<lambda>_.
     try_reply db (guard (\<not> has_receipts (pv_lines po)) (BadRequest ''PO sudah ada penerimaan, tidak bisa diedit'')) (\<lambda>_.
     try_reply db (document_date (po_date (pv_row po)) (pp_date p)) (\<lambda>txnDate.
     let dflt = (if trim_space (pp_wh p) = [] then col (po_wh (pv_row po)) else trim_space (pp_wh p));
         lines = map (fill_po_line dflt) (pp_lines p) in
     try_reply db (check_po_lines E (tn (pd db)) lines) (\<lambda>subtotal.
     in_tx db (update_po_tx E pg_date i p txnDate dflt lines subtotal db) (\<lambda>_ db'.
     (getPurchaseOrder E db' i, db'))))))))))))"

section \<open>Bills (bill.go)\<close>

definition finCatPembelianPersediaan :: string where "finCatPembelianPersediaan = ''Pembelian Persediaan''"

record BillLineInput =
  bl_item :: string
  bl_wh :: string
  bl_po_line :: string
  bl_desc :: string
  bl_qty :: f64
  bl_cost :: f64
  bl_batchno :: string
  bl_expiry :: "string option"

record CreateBillParams =
  cb_po :: string
  cb_supplier :: string
  cb_contact :: string
  cb_wh :: string
  cb_date :: string
  cb_note :: string
  cb_lines :: "BillLineInput list"

definition sumBillLines :: "BillLineInput list \<Rightarrow> f64" where
  "sumBillLines lines = round4 (fold (\<lambda>l s. fl (s + fl (bl_qty l * bl_cost l))) lines 0)"

record Bill =
  bv_row :: bill_row
  bv_lines :: "bill_line_row list"

definition find_bill :: "pur_db \<Rightarrow> string \<Rightarrow> bill_row option" where
  "find_bill db i = find (\<lambda>r. bi_id r = i \<and> \<not> bi_deleted r) (bills db)"

definition lines_of_bill :: "pur_db \<Rightarrow> string \<Rightarrow> bill_line_row list" where
  "lines_of_bill db i = [l \<leftarrow> bill_lines db. bn_bill l = i]"

definition getBill :: "env \<Rightarrow> pur_db \<Rightarrow> string \<Rightarrow> Bill res" where
  "getBill E db i =
     ebind (sql E ''bill.select'' (case find_bill db i of None \<Rightarrow> Inl (NotFound ''bill tidak ditemukan'') | Some r \<Rightarrow> Inr r)) (\<lambda>r.
     sql E ''bill.lines'' (Inr \<lparr>bv_row = r, bv_lines = sort_key bn_created (lines_of_bill db i)\<rparr>))"

definition GetBill :: "env \<Rightarrow> AuthUser option \<Rightarrow> string \<Rightarrow> pur_db \<Rightarrow> Bill res" where
  "GetBill E auth i db = ebind (getUser auth) (\<lambda>u. ebind (prepareTenant E) (\<lambda>_. getBill E db i))"

definition fill_bill_line :: "string \<Rightarrow> BillLineInput \<Rightarrow> BillLineInput" where
  "fill_bill_line dflt l = (if trim_space (bl_wh l) = [] then l\<lparr>bl_wh := dflt\<rparr> else l)"

definition bill_line_step :: "env \<Rightarrow> tenant_db \<Rightarrow> nat \<times> BillLineInput \<Rightarrow> unit \<Rightarrow> unit res" where
  "bill_line_step E t il s = (case il of (i, l) \<Rightarrow> check_line E t i (bl_qty l) (bl_cost l) (bl_item l) (bl_wh l))"

definition check_bill_lines :: "env \<Rightarrow> tenant_db \<Rightarrow> BillLineInput list \<Rightarrow> unit res" where
  "check_bill_lines E t lines = efold (bill_line_step E t) (List.enumerate 0 lines) ()"

section \<open>Receiving (bill_patch.go)\<close>

definition insert_bill_line :: "env \<Rightarrow> string \<Rightarrow> BillLineInput \<Rightarrow> int option \<Rightarrow> pur_db \<Rightarrow> (string \<times> pur_db) res" where
  "insert_bill_line E billID l expiry db = (let (i, db1) = fresh E db in
     sql E ''bill.line'' (Inr (i, db1\<lparr>bill_lines := bill_lines db1 @ [\<lparr>bn_id = i, bn_bill = billID,
       bn_po_line = nullUUID (bl_po_line l), bn_item = bl_item l, bn_wh = bl_wh l, bn_desc = nullStr (bl_desc l),
       bn_qty = db_numeric E (round4 (bl_qty l)), bn_cost = db_numeric E (round4 (bl_cost l)), bn_batch = nullStr (bl_batchno l),
       bn_expiry = expiry, bn_movement = None, bn_created = db_now E\<rparr>]\<rparr>)))"

definition receive_input ::
  "BillLineInput \<Rightarrow> int option \<Rightarrow> costingContext \<Rightarrow> string \<Rightarrow> string \<Rightarrow> string \<Rightarrow> string \<Rightarrow> MovementInput"
where
  "receive_input l expiry cc billID billNo lineID accountID = no_input\<lparr>mi_item := bl_item l, mi_wh := bl_wh l,
     mi_type := MovementPurchaseReceive, mi_dir := dirIn, mi_qty := round4 (bl_qty l), mi_cost := round4 (bl_cost l),
     mi_method := cc_method cc, mi_block := cc_block cc, mi_batch := bl_batchno l, mi_expiry := expiry,
     mi_reftype := ''bill'', mi_refid := billID, mi_refline := lineID,
     mi_note := ''Penerimaan barang '' @ billNo, mi_by := accountID\<rparr>"

definition link_bill_line :: "env \<Rightarrow> string \<Rightarrow> string \<Rightarrow> pur_db \<Rightarrow> pur_db res" where
  "link_bill_line E lineID movementID db = sql E ''bill.line.link'' (Inr (db\<lparr>bill_lines :=
     map (\<lambda>l. if bn_id l = lineID then l\<lparr>bn_movement := Some movementID\<rparr> else l) (bill_lines db)\<rparr>))"

text \<open>\<open>UPDATE pur_purchase_order_line SET qty_received = ... WHERE id = $1\<close>\<close>

definition update_received :: "string \<Rightarrow> (int \<Rightarrow> int) \<Rightarrow> pur_db \<Rightarrow> pur_db" where
  "update_received i f db = db\<lparr>po_lines := map (\<lambda>l. if pl_id l = i then l\<lparr>pl_received := f (pl_received l)\<rparr> else l) (po_lines db)\<rparr>"

definition receive_po_line :: "env \<Rightarrow> BillLineInput \<Rightarrow> pur_db \<Rightarrow> pur_db res" where
  "receive_po_line E l db =
     (if trim_space (bl_po_line l) \<noteq> [] then sql E ''po.line.receive''
        (Inr (update_received (bl_po_line l) (\<lambda>c. db_plus E c (round4 (bl_qty l))) db))
      else Inr db)"

definition post_bill_line :: "env \<Rightarrow> string \<Rightarrow> string \<Rightarrow> string \<Rightarrow> BillLineInput \<Rightarrow> pur_db \<Rightarrow> pur_db res" where
  "post_bill_line E billID billNo accountID l db =
     ebind (parseDatePtr (bl_expiry l)) (\<lambda>expiry.
     ebind (insert_bill_line E billID l expiry db) (\<lambda>(lineID, db1).
     ebind (on_shared (ensureSku E (bl_item l)) db1) (\<lambda>db2.
     ebind (context_of E (pd db2) (bl_item l)) (\<lambda>cc.
     ebind (shared (post E (receive_input l expiry cc billID billNo lineID accountID)) db2) (\<lambda>(res, db3).
     ebind (link_bill_line E lineID (mr_id res) db3) (\<lambda>db4.
     receive_po_line E l db4))))))"

definition receivable :: "string \<Rightarrow> po_row \<Rightarrow> bool" where
  "receivable i r \<longleftrightarrow> po_id r = i \<and> po_status r \<in> set [''open'', ''partial'', ''received'']"

definition receipt_status :: "pur_db \<Rightarrow> string \<Rightarrow> string" where
  "receipt_status db i = poStatusFromReceipts (dec4 (sum_ordered db i)) (dec4 (sum_received db i))"

text \<open>The last error is returned as the driver gives it.\<close>

definition refreshPOStatusTx :: "env \<Rightarrow> string \<Rightarrow> pur_db \<Rightarrow> pur_db res" where
  "refreshPOStatusTx E poID db =
     ebind (sql E ''po.sums'' (Inr (receipt_status db poID))) (\<lambda>s.
     sql_raw E ''po.status'' (Inr (set_po_status (receivable poID) s db)))"

definition postBillLinesTx ::
  "env \<Rightarrow> string \<Rightarrow> string \<Rightarrow> string \<Rightarrow> string \<Rightarrow> BillLineInput list \<Rightarrow> pur_db \<Rightarrow> pur_db res"
where
  "postBillLinesTx E billID billNo poID accountID lines db =
     ebind (efold (post_bill_line E billID billNo accountID) lines db) (\<lambda>db1.
     if trim_space poID \<noteq> [] then refreshPOStatusTx E poID db1 else Inr db1)"

section \<open>Creating a bill (bill.go)\<close>

definition create_bill_tx ::
  "env \<Rightarrow> (string \<Rightarrow> string option) \<Rightarrow> AuthUser \<Rightarrow> CreateBillParams \<Rightarrow> string \<Rightarrow> string \<Rightarrow> BillLineInput list
    \<Rightarrow> pur_db \<Rightarrow> ((string \<times> string) \<times> pur_db) res"
where
  "create_bill_tx E pg_date u p txnDate dflt lines db =
     ebind (sql E ''tx.begin'' (Inr ())) (\<lambda>_.
     ebind (as_internal ''docseq.upsert'' (shared (nextDocNumber E DocBill DocBill) db)) (\<lambda>(billNo, db1).
     let (billID, db2) = fresh E db1 in
     ebind (sql E ''bill.insert'' (case pg_date txnDate of None \<Rightarrow> Inl (Internal ''bill.insert'') | Some d \<Rightarrow>
       if \<exists>r\<in>set (bills db2). bi_no r = billNo \<and> \<not> bi_deleted r then Inl (Internal ''bill.insert'')
       else Inr (db2\<lparr>bills := bills db2 @ [\<lparr>bi_id = billID, bi_no = billNo, bi_po = nullUUID (cb_po p),
         bi_supplier = nullStr (cb_supplier p), bi_contact = nullUUID (cb_contact p), bi_wh = nullUUID dflt,
         bi_status = ''posted'', bi_date = d, bi_note = nullStr (cb_note p), bi_subtotal = db_numeric E (sumBillLines lines),
         bi_by = nullUUID (AccountID u), bi_created = db_now E, bi_deleted = False\<rparr>]\<rparr>))) (\<lambda>db3.
     ebind (postBillLinesTx E billID billNo (cb_po p) (AccountID u) lines db3) (\<lambda>db4.
     sql E ''tx.commit'' (Inr ((billID, billNo), db4))))))"

text \<open>Cashflow mode books the purchase once the transaction has committed.\<close>

definition book_bill :: "env \<Rightarrow> clock \<Rightarrow> AuthUser \<Rightarrow> setting_row \<Rightarrow> string \<Rightarrow> string \<Rightarrow> f64 \<Rightarrow> pur_db \<Rightarrow> pur_db res" where
  "book_bill E ck u st billID billNo subtotal db =
     (if st_expense st \<and> subtotal > 0
      then on_shared (book E ck (AccountID u) billID ''expense'' finCatPembelianPersediaan
             (''Pembelian persediaan '' @ billNo) (round2 subtotal)) db
      else Inr db)"

definition CreateBill ::
  "env \<Rightarrow> (string \<Rightarrow> string option) \<Rightarrow> clock \<Rightarrow> AuthUser option \<Rightarrow> CreateBillParams \<Rightarrow> pur_db \<Rightarrow> (Bill, pur_db) reply"
where
  "CreateBill E pg_date ck auth p db =
     try_reply db (getUser auth) (\<lambda>u.
     try_reply db (requireOwner u) (\<lambda>_.
     try_reply db (guard (cb_lines p \<noteq> []) (BadRequest ''minimal 1 baris item'')) (\<lambda>_.
     try_reply db (document_date (ck_local ck) (cb_date p)) (\<lambda>txnDate.
     try_reply db (prepareTenant E) (\<lambda>_.
     in_tx db (as_internal ''setting.load'' (loadSetting E db)) (\<lambda>st db1.
     try_reply db1 (if st_expense st then CheckCurrentPeriodUnlocked E (ck_period ck) (ck_today ck) (pfin db1) else Inr ()) (\<lambda>_.
     let dflt = trim_space (cb_wh p); lines = map (fill_bill_line dflt) (cb_lines p) in
     try_reply db1 (check_bill_lines E (tn (pd db1)) lines) (\<lambda>_.
     in_tx db1 (create_bill_tx E pg_date u p txnDate dflt lines db1) (\<lambda>(billID, billNo) db2.
     try_reply db2 (book_bill E ck u st billID billNo (sumBillLines lines) db2) (\<lambda>db3.
     (getBill E db3 billID, db3)))))))))))"

section \<open>Editing a bill (bill_patch.go)\<close>

definition revert_receipts :: "env \<Rightarrow> bill_line_row list \<Rightarrow> pur_db \<Rightarrow> pur_db res" where
  "revert_receipts E ls db = efold (\<lambda>l db. case bn_po_line l of None \<Rightarrow> Inr db
     | Some i \<Rightarrow> sql E ''po.line.revert'' (Inr (update_received i (\<lambda>c. max 0 (db_plus E c (- dec4 (bn_qty l)))) db))) ls db"

definition revertPOReceiptsForBill :: "env \<Rightarrow> string \<Rightarrow> pur_db \<Rightarrow> pur_db res" where
  "revertPOReceiptsForBill E billID db =
     ebind (sql E ''bill.receipts'' (Inr [l \<leftarrow> lines_of_bill db billID. bn_po_line l \<noteq> None])) (\<lambda>ls. revert_receipts E ls db)"

text \<open>The parameters are those of creation without the purchase order.\<close>

definition update_bill_tx ::
  "env \<Rightarrow> (string \<Rightarrow> string option) \<Rightarrow> AuthUser \<Rightarrow> bill_row \<Rightarrow> CreateBillParams \<Rightarrow> string \<Rightarrow> string \<Rightarrow> BillLineInput list
    \<Rightarrow> pur_db \<Rightarrow> (unit \<times> pur_db) res"
where
  "update_bill_tx E pg_date u ex p txnDate dflt lines db =
     ebind (sql E ''tx.begin'' (Inr ())) (\<lambda>_.
     ebind (revertPOReceiptsForBill E (bi_id ex) db) (\<lambda>db1.
     ebind (on_shared (purge E ''bill'' (bi_id ex)) db1) (\<lambda>db2.
     ebind (sql E ''bill.lines.delete'' (Inr (db2\<lparr>bill_lines := [l \<leftarrow> bill_lines db2. bn_bill l \<noteq> bi_id ex]\<rparr>))) (\<lambda>db3.
     ebind (sql E ''bill.update'' (case pg_date txnDate of None \<Rightarrow> Inl (Internal ''bill.update'') | Some d \<Rightarrow>
       Inr (db3\<lparr>bills := map (\<lambda>r. if bi_id r = bi_id ex then r\<lparr>bi_supplier := nullStr (cb_supplier p),
         bi_contact := nullUUID (cb_contact p), bi_wh := nullUUID dflt, bi_date := d, bi_note := nullStr (cb_note p),
         bi_subtotal := db_numeric E (sumBillLines lines)\<rparr> else r) (bills db3)\<rparr>))) (\<lambda>db4.
     ebind (postBillLinesTx E (bi_id ex) (bi_no ex) (col (bi_po ex)) (AccountID u) lines db4) (\<lambda>db5.
     sql E ''tx.commit'' (Inr ((), db5))))))))"

text \<open>The finance entries of the bill and of its movements, removed outside the transaction.\<close>

definition remove_refs :: "env \<Rightarrow> string list \<Rightarrow> pur_db \<Rightarrow> pur_db out" where
  "remove_refs E refs db = (case remove_entries E refs (pd db) of (e, d) \<Rightarrow> (e, db\<lparr>pd := d\<rparr>))"

definition UpdateBill ::
  "env \<Rightarrow> (string \<Rightarrow> string option) \<Rightarrow> clock \<Rightarrow> AuthUser option \<Rightarrow> string \<Rightarrow> CreateBillParams \<Rightarrow> pur_db \<Rightarrow> (Bill, pur_db) reply"
where
  "UpdateBill E pg_date ck auth i p db =
     try_reply db (getUser auth) (\<lambda>u.
     try_reply db (requireOwner u) (\<lambda>_.
     try_reply db (guard (cb_lines p \<noteq> []) (BadRequest ''minimal 1 baris item'')) (\<lambda>_.
     try_reply db (prepareTenant E) (\<lambda>_.
     try_reply db (getBill E db i) (\<lambda>existing.
     try_reply db (CheckPeriodUnlockedForDate E (ck_period ck) (ck_today ck) (pfin db) (bi_date (bv_row existing))) (\<lambda>_.
     in_tx db (as_internal ''setting.load'' (loadSetting E db)) (\<lambda>st db1.
     try_reply db1 (if st_expense st then CheckCurrentPeriodUnlocked E (ck_period ck) (ck_today ck) (pfin db1) else Inr ()) (\<lambda>_.
     let txnDate = (if trim_space (cb_date p) = [] then bi_date (bv_row existing) else trim_space (cb_date p));
         dflt = trim_space (cb_wh p); lines = map (fill_bill_line dflt) (cb_lines p) in
     try_reply db1 (check_bill_lines E (tn (pd db1)) lines) (\<lambda>_.
     try_reply db1 (collectMovementsByRef E (pinv db1) ''bill'' i) (\<lambda>movs.
     case remove_refs E (movementFinanceRefs i movs) db1 of
       (Some e, db2) \<Rightarrow> (Inl e, db2)
     | (None, db2) \<Rightarrow>
         in_tx db2 (update_bill_tx E pg_date u (bv_row existing) p txnDate dflt lines db2) (\<lambda>_ db3.
         try_reply db3 (book_bill E ck u st i (bi_no (bv_row existing)) (sumBillLines lines) db3) (\<lambda>db4.
         (getBill E db4 i, db4)))))))))))))"

section \<open>Deleting a bill (bill_delete.go)\<close>

text \<open>
  Deletion refreshes the status of the purchase order whatever it is, where creation and editing
  touch only open, partial and received ones.
\<close>

definition reopen_po :: "env \<Rightarrow> bill_row \<Rightarrow> pur_db \<Rightarrow> pur_db res" where
  "reopen_po E b db = (case bi_po b of
       Some poID \<Rightarrow> if poID = [] then Inr db else
         ebind (sql E ''po.sums'' (Inr (receipt_status db poID))) (\<lambda>s.
         sql E ''po.status'' (Inr (set_po_status (\<lambda>r. po_id r = poID) s db)))
     | None \<Rightarrow> Inr db)"

definition delete_bill :: "string \<Rightarrow> pur_db \<Rightarrow> pur_db" where
  "delete_bill i db = db\<lparr>bills := [r \<leftarrow> bills db. bi_id r \<noteq> i], bill_lines := [l \<leftarrow> bill_lines db. bn_bill l \<noteq> i]\<rparr>"

definition delete_bill_tx :: "env \<Rightarrow> bill_row \<Rightarrow> pur_db \<Rightarrow> pur_db res" where
  "delete_bill_tx E b db =
     ebind (sql E ''tx.begin'' (Inr ())) (\<lambda>_.
     ebind (sql E ''bill.receipts'' (Inr [l \<leftarrow> lines_of_bill db (bi_id b). bn_po_line l \<noteq> None])) (\<lambda>revs.
     ebind (on_shared (purge E ''bill'' (bi_id b)) db) (\<lambda>db1.
     ebind (revert_receipts E revs db1) (\<lambda>db2.
     ebind (reopen_po E b db2) (\<lambda>db3.
     ebind (sql E ''bill.delete'' (Inr (delete_bill (bi_id b) db3))) (\<lambda>db4.
     sql_raw E ''tx.commit'' (Inr db4)))))))"

definition DeleteBill :: "env \<Rightarrow> clock \<Rightarrow> AuthUser option \<Rightarrow> string \<Rightarrow> pur_db \<Rightarrow> pur_db out" where
  "DeleteBill E ck auth i db =
     try_out db (getUser auth) (\<lambda>u.
     try_out db (requireOwner u) (\<lambda>_.
     try_out db (prepareTenant E) (\<lambda>_.
     try_out db (getBill E db i) (\<lambda>bill.
     try_out db (CheckPeriodUnlockedForDate E (ck_period ck) (ck_today ck) (pfin db) (bi_date (bv_row bill))) (\<lambda>_.
     try_out db (collectMovementsByRef E (pinv db) ''bill'' i) (\<lambda>movs.
     case remove_refs E (movementFinanceRefs i movs) db of
       (Some e, db1) \<Rightarrow> (Some e, db1)
     | (None, db1) \<Rightarrow> try_out db1 (delete_bill_tx E (bv_row bill) db1) (\<lambda>db2. (None, db2))))))))"

end
