(* ===== verification/Order_Tables.thy ===== *)
theory Order_Tables
  imports Stock_Docs
begin

text \<open>
  Orders of \<open>order/order.go\<close>: the rows of the \<open>order\<close> table and the tables an order is priced from
  (\<open>shared/pricing/pricing.go\<close>), the order number (\<open>order/number.go\<close>), the payment-proof record
  (\<open>order/payment_proof_meta.go\<close>, \<open>internal/proofcheck\<close>), and how the lines of a request are resolved
  against the catalog.

  The columns \<open>income_wallet_id\<close> and \<open>stock_applied_at\<close> of an order are kept in \<open>order_rows\<close> of the
  tenant's tables, where finance and inventory read them. A JSON column holds the value it encodes.
\<close>

section \<open>Tables\<close>

record OrderItem =
  it_line :: string
  it_item :: string
  it_code :: string
  it_name :: string
  it_variant :: string
  it_size :: string
  it_color :: string
  it_qty :: f64
  it_price :: f64
  it_unit :: string
  it_wh :: string

definition no_item :: OrderItem where
  "no_item = \<lparr>it_line = [], it_item = [], it_code = [], it_name = [], it_variant = [], it_size = [],
     it_color = [], it_qty = 0, it_price = 0, it_unit = [], it_wh = []\<rparr>"

record ShippingAddress =
  sa_name :: string
  sa_phone :: string
  sa_street :: string
  sa_rt :: string
  sa_rw :: string
  sa_kelurahan :: string
  sa_kecamatan :: string
  sa_city :: string
  sa_city_id :: string
  sa_province :: string
  sa_province_id :: string
  sa_postal :: string
  sa_country :: string

record PaymentProofMeta =
  pm_amount :: "f64 option"
  pm_bank :: string
  pm_account :: string
  pm_holder :: string
  pm_date :: string
  pm_confidence :: f64
  pm_flags :: "string list"
  pm_reason :: string
  pm_hash :: string
  pm_rejections :: int
  pm_blocked :: bool
  pm_notified :: bool

text \<open>Every field is \<open>omitempty\<close>: this value and no other is stored as \<open>{}\<close>.\<close>

definition no_meta :: PaymentProofMeta where
  "no_meta = \<lparr>pm_amount = None, pm_bank = [], pm_account = [], pm_holder = [], pm_date = [],
     pm_confidence = 0, pm_flags = [], pm_reason = [], pm_hash = [], pm_rejections = 0,
     pm_blocked = False, pm_notified = False\<rparr>"

text \<open>Money is a count of ten-thousandths, the unit of the DECIMAL(15,4) columns.\<close>

record order_rec =
  od_id :: string
  od_conv :: "string option"
  od_contact :: "string option"
  od_items :: "OrderItem list"
  od_addr :: "ShippingAddress option"
  od_notes :: string
  od_status :: string
  od_tracking :: string
  od_courier :: string
  od_payment :: "string option"
  od_paystatus :: string
  od_proof :: "string option"
  od_submitted :: "int option"
  od_verified :: "int option"
  od_verifier :: "string option"
  od_meta :: PaymentProofMeta
  od_subtotal :: int
  od_shipping :: int
  od_total :: int
  od_by :: string
  od_created :: int
  od_updated :: int
  od_deleted :: "(int \<times> string) option"

record price_type_row =
  pt_id :: string
  pt_label :: string
  pt_default :: bool
  pt_order :: int
  pt_active :: bool
  pt_deleted :: bool

record contact_row =
  cn_price_type :: "string option"
  cn_deleted :: bool

text \<open>The columns of \<open>business_catalog_item\<close> that \<open>catalog\<close> does not hold.\<close>

record cat_info =
  ci_id :: string
  ci_code :: string
  ci_unit :: "string option"
  ci_price :: "int option"
  ci_source :: string
  ci_updated :: int

text \<open>\<open>msgs\<close> are the system messages written, with their conversation, in order.\<close>

record order_db =
  ot :: tenant_db
  orders :: "order_rec list"
  price_types :: "price_type_row list"
  contacts :: "string \<rightharpoonup> contact_row"
  item_prices :: "string \<times> string \<rightharpoonup> int"
  cat_rows :: "cat_info list"
  msgs :: "(string \<times> string) list"
  ord_next :: nat
  cat_next :: nat

definition set_ofin :: "fin_db \<Rightarrow> order_db \<Rightarrow> order_db" where
  "set_ofin fd db = db\<lparr>ot := (ot db)\<lparr>fin := fd\<rparr>\<rparr>"

text \<open>
  One request. The calls a handler makes run one after the other, each in an environment, on a clock
  and with map orders of its own: \<open>rq_env\<close> numbers them in the order of the source, and
  \<open>rq_item\<close> gives the environment of each order line that is resolved. \<open>rq_scan\<close> is the order in which the
  database returns rows of a query that does not sort, \<open>rq_nano\<close> is \<open>time.Now().UnixNano()\<close> and \<open>rq_line\<close>
  the random line identifiers \<open>genLineID\<close> draws.
\<close>

record req =
  rq_env :: "nat \<Rightarrow> env"
  rq_item :: "nat \<Rightarrow> env"
  rq_clock :: "nat \<Rightarrow> clock"
  rq_ord :: "nat \<Rightarrow> reqKey list \<Rightarrow> reqKey list"
  rq_scan :: "order_rec list \<Rightarrow> order_rec list"
  rq_nano :: int
  rq_line :: "nat \<Rightarrow> string"

text \<open>\<open>fmt.Errorf("...: %w", err)\<close> around a statement that returns a row.\<close>

definition no_rows :: app_error where "no_rows = Plain ''sql: no rows in result set''"

definition sql_wrap :: "env \<Rightarrow> string \<Rightarrow> string \<Rightarrow> 'a option \<Rightarrow> 'a res" where
  "sql_wrap E stmt msg r = (if db_fails E stmt then Inl (Wrapf msg [] (Plain stmt))
     else case r of None \<Rightarrow> Inl (Wrapf msg [] no_rows) | Some x \<Rightarrow> Inr x)"

lemma sql_wrap_Inr [res_simps]: "sql_wrap E stmt msg r = Inr x \<longleftrightarrow> \<not> db_fails E stmt \<and> r = Some x"
  by (simp add: sql_wrap_def split: option.splits)

definition find_order :: "order_db \<Rightarrow> string \<Rightarrow> order_rec option" where
  "find_order db i = find (\<lambda>r. od_id r = i \<and> od_deleted r = None) (orders db)"

text \<open>\<open>UPDATE "order" SET ... WHERE id = $1 AND deleted_at IS NULL\<close>\<close>

definition update_order :: "string \<Rightarrow> (order_rec \<Rightarrow> order_rec) \<Rightarrow> order_db \<Rightarrow> order_db" where
  "update_order i f db = db\<lparr>orders := map (\<lambda>r. if od_id r = i \<and> od_deleted r = None then f r else r) (orders db)\<rparr>"

definition order_wallet :: "order_db \<Rightarrow> string \<Rightarrow> string" where
  "order_wallet db i = (case order_rows (ot db) i of
       None \<Rightarrow> [] | Some r \<Rightarrow> (case or_wallet r of None \<Rightarrow> [] | Some w \<Rightarrow> w))"

definition set_wallet :: "string \<Rightarrow> string option \<Rightarrow> order_db \<Rightarrow> order_db" where
  "set_wallet i w db = db\<lparr>ot := (ot db)\<lparr>order_rows := (case order_rows (ot db) i of
       None \<Rightarrow> order_rows (ot db)
     | Some r \<Rightarrow> (order_rows (ot db))(i \<mapsto> r\<lparr>or_wallet := w\<rparr>))\<rparr>\<rparr>"

section \<open>Order numbers (number.go)\<close>

definition to_upper :: "string \<Rightarrow> string" where
  "to_upper s = map (\<lambda>c. if 97 \<le> (of_char c :: nat) \<and> (of_char c :: nat) \<le> 122
     then char_of (of_char c - 32 :: nat) else c) s"

definition no_dashes :: "string \<Rightarrow> string" where
  "no_dashes s = filter (\<lambda>c. c \<noteq> CHR ''-'') s"

text \<open>An order identifier is a UUID, so upper case is upper case of ASCII letters.\<close>

definition FormatOrderNumber :: "string \<Rightarrow> string" where
  "FormatOrderNumber orderID = (let i = no_dashes (trim_space orderID) in
     if i = [] then [] else ''WB-'' @ to_upper (if length i > 8 then take 8 i else i))"

definition is_hex_upper :: "char \<Rightarrow> bool" where
  "is_hex_upper c \<longleftrightarrow> is_digit c \<or> 65 \<le> (of_char c :: nat) \<and> (of_char c :: nat) \<le> 70"

text \<open>
  No rune outside ASCII has \<open>W\<close>, \<open>B\<close> or a hexadecimal digit as its upper case, so it makes the
  search term no order number here as there.
\<close>

definition OrderRefUUIDPrefix :: "string \<Rightarrow> string" where
  "OrderRefUUIDPrefix q = (let upper = to_upper (trim_space q) in
     if \<not> prefix ''WB-'' upper then []
     else let pfx = no_dashes (trim_space (drop 3 upper)) in
       if pfx = [] then [] else if list_all is_hex_upper pfx then pfx else [])"

section \<open>Payment proofs\<close>

definition PaymentProofMaxRejections :: int where "PaymentProofMaxRejections = 5"

definition IsPaymentProofBlocked :: "PaymentProofMeta \<Rightarrow> bool" where
  "IsPaymentProofBlocked m \<longleftrightarrow> pm_blocked m \<or> pm_rejections m \<ge> PaymentProofMaxRejections"

definition IncrementPaymentRejection :: "PaymentProofMeta \<Rightarrow> PaymentProofMeta" where
  "IncrementPaymentRejection m = (let m = m\<lparr>pm_rejections := pm_rejections m + 1\<rparr> in
     if pm_rejections m \<ge> PaymentProofMaxRejections then m\<lparr>pm_blocked := True\<rparr> else m)"

definition ResetPaymentProofBlock :: "PaymentProofMeta \<Rightarrow> PaymentProofMeta" where
  "ResetPaymentProofBlock m = m\<lparr>pm_rejections := 0, pm_blocked := False, pm_notified := False\<rparr>"

text \<open>\<open>proofcheck.Result\<close>\<close>

definition proof_result :: "bool \<Rightarrow> f64 option \<Rightarrow> string list \<Rightarrow> bool \<Rightarrow> string \<times> string list" where
  "proof_result hasMeta amount flags blocked =
     (if \<not> hasMeta then ([], [])
      else let reasons = [f \<leftarrow> flags. f \<noteq> ''ai_review_required''];
               reasons = (if amount = None \<or> the amount \<le> 0
                 then if ''missing_amount'' \<in> set reasons then reasons else reasons @ [''missing_amount''] else reasons);
               reasons = (if blocked \<and> ''proof_blocked'' \<notin> set reasons then reasons @ [''proof_blocked''] else reasons)
           in if reasons = [] then (''cocok'', []) else (''perlu_dicek'', reasons))"

section \<open>What a handler returns\<close>

record Order =
  o_id :: string
  o_number :: string
  o_conv :: string
  o_contact :: string
  o_items :: "OrderItem list"
  o_addr :: "ShippingAddress option"
  o_notes :: string
  o_status :: string
  o_tracking :: string
  o_courier :: string
  o_payment :: string
  o_paystatus :: string
  o_proof :: string
  o_submitted :: "int option"
  o_verified :: "int option"
  o_verifier :: string
  o_meta :: "PaymentProofMeta option"
  o_check :: string
  o_reasons :: "string list"
  o_subtotal :: f64
  o_shipping :: f64
  o_total :: f64
  o_wallet :: string
  o_by :: string
  o_created :: int
  o_updated :: int

definition opt_text :: "string option \<Rightarrow> string" where
  "opt_text v = (case v of None \<Rightarrow> [] | Some s \<Rightarrow> s)"

definition scanOrder :: "order_db \<Rightarrow> order_rec \<Rightarrow> Order" where
  "scanOrder db r = (let m = od_meta r; pc = proof_result (m \<noteq> no_meta) (pm_amount m) (pm_flags m) (pm_blocked m) in
     \<lparr>o_id = od_id r, o_number = FormatOrderNumber (od_id r), o_conv = opt_text (od_conv r),
      o_contact = opt_text (od_contact r), o_items = od_items r,
      o_addr = (case od_addr r of None \<Rightarrow> None | Some a \<Rightarrow> if sa_street a \<noteq> [] then Some a else None),
      o_notes = od_notes r, o_status = od_status r, o_tracking = od_tracking r, o_courier = od_courier r,
      o_payment = opt_text (od_payment r), o_paystatus = od_paystatus r, o_proof = opt_text (od_proof r),
      o_submitted = od_submitted r, o_verified = od_verified r, o_verifier = opt_text (od_verifier r),
      o_meta = (if m = no_meta then None else Some m), o_check = fst pc, o_reasons = snd pc,
      o_subtotal = dec4 (od_subtotal r), o_shipping = dec4 (od_shipping r), o_total = dec4 (od_total r),
      o_wallet = order_wallet db (od_id r), o_by = od_by r, o_created = od_created r, o_updated = od_updated r\<rparr>)"

section \<open>Prices (pricing.go)\<close>

text \<open>\<open>ORDER BY is_default DESC, display_order, label LIMIT 1\<close>\<close>

definition price_type_rank :: "price_type_row \<Rightarrow> int \<times> int \<times> string" where
  "price_type_rank r = (if pt_default r then 0 else 1, pt_order r, pt_label r)"

definition ResolveDefaultPriceTypeID :: "env \<Rightarrow> order_db \<Rightarrow> string res" where
  "ResolveDefaultPriceTypeID E db = sql E ''price_type.default''
     (case sort_key price_type_rank [r \<leftarrow> price_types db. \<not> pt_deleted r \<and> pt_active r] of
        [] \<Rightarrow> Inl (BadRequest ''belum ada tipe harga aktif'')
      | r # _ \<Rightarrow> Inr (pt_id r))"

definition active_price_type :: "order_db \<Rightarrow> string \<Rightarrow> bool" where
  "active_price_type db i = (case find (\<lambda>r. pt_id r = i \<and> \<not> pt_deleted r) (price_types db) of
     None \<Rightarrow> False | Some r \<Rightarrow> pt_active r)"

definition ResolvePriceTypeIDForContact :: "env \<Rightarrow> order_db \<Rightarrow> string \<Rightarrow> string res" where
  "ResolvePriceTypeIDForContact E db contactID = (let contactID = trim_space contactID in
     if contactID = [] then ResolveDefaultPriceTypeID E db
     else ebind (sql E ''contact.price_type'' (Inr (case contacts db contactID of
             None \<Rightarrow> None | Some c \<Rightarrow> if cn_deleted c then None else cn_price_type c))) (\<lambda>pt. case pt of
         None \<Rightarrow> ResolveDefaultPriceTypeID E db
       | Some i \<Rightarrow>
           if trim_space i \<noteq> [] \<and> \<not> db_fails E ''price_type.active'' \<and> active_price_type db i then Inr i
           else ResolveDefaultPriceTypeID E db))"

definition live_name :: "tenant_db \<Rightarrow> string \<Rightarrow> string option" where
  "live_name t i = (case catalog t i of None \<Rightarrow> None | Some r \<Rightarrow> if ca_deleted r then None else Some (ca_name r))"

definition find_cat :: "order_db \<Rightarrow> string \<Rightarrow> cat_info option" where
  "find_cat db i = find (\<lambda>c. ci_id c = i \<and> live_name (ot db) i \<noteq> None) (cat_rows db)"

definition ResolveCatalogUnitPrice :: "env \<Rightarrow> order_db \<Rightarrow> string \<Rightarrow> string \<Rightarrow> f64 res" where
  "ResolveCatalogUnitPrice E db item priceType =
     ebind (sql E ''catalog_price.load'' (Inr (item_prices db (item, priceType)))) (\<lambda>p. case p of
         Some n \<Rightarrow> Inr (dec4 n)
       | None \<Rightarrow> sql E ''catalog.sell_price'' (case find_cat db item of
             None \<Rightarrow> Inl (NotFound ''catalog item not found'')
           | Some c \<Rightarrow> Inr (case ci_price c of Some n \<Rightarrow> dec4 n | None \<Rightarrow> 0)))"

section \<open>Order lines\<close>

datatype cat_cond = ById string | ByCode string | ByName string

fun cond_label :: "cat_cond \<Rightarrow> string" where
  "cond_label (ById x) = ''catalog.by_id''"
| "cond_label (ByCode x) = ''catalog.by_code''"
| "cond_label (ByName x) = ''catalog.by_name''"

fun cond_holds :: "env \<Rightarrow> cat_cond \<Rightarrow> cat_info \<Rightarrow> string \<Rightarrow> bool" where
  "cond_holds E (ById x) c nm = (ci_id c = x)"
| "cond_holds E (ByCode x) c nm = (db_lower E (ci_code c) = db_lower E x)"
| "cond_holds E (ByName x) c nm = (db_lower E nm = db_lower E x)"

definition cat_matches :: "env \<Rightarrow> order_db \<Rightarrow> cat_cond \<Rightarrow> (cat_info \<times> string) list" where
  "cat_matches E db cond = sort_key (\<lambda>(c, nm). - ci_updated c)
     [(c, nm). c \<leftarrow> cat_rows db, nm \<leftarrow> (case live_name (ot db) (ci_id c) of None \<Rightarrow> [] | Some n \<Rightarrow> [n]), cond_holds E cond c nm]"

definition loadCatalogOrderItem :: "env \<Rightarrow> order_db \<Rightarrow> string \<Rightarrow> cat_cond \<Rightarrow> OrderItem res" where
  "loadCatalogOrderItem E db priceType cond =
     (if db_fails E (cond_label cond) then Inl (NotFound ''catalog item not found'')
      else case cat_matches E db cond of
        [] \<Rightarrow> Inl (NotFound ''catalog item not found'')
      | (c, nm) # _ \<Rightarrow> ebind (ResolveCatalogUnitPrice E db (ci_id c) priceType) (\<lambda>p.
          Inr (no_item\<lparr>it_item := ci_id c, it_code := ci_code c, it_name := nm, it_price := p, it_unit := opt_text (ci_unit c)\<rparr>)))"

text \<open>The insert fails on a code that a live manual item has, by \<open>idx_catalog_source_code\<close>.\<close>

definition createCatalogOrderItem ::
  "env \<Rightarrow> string \<Rightarrow> string \<Rightarrow> f64 \<Rightarrow> string \<Rightarrow> f64 \<Rightarrow> order_db \<Rightarrow> (OrderItem, order_db) reply"
where
  "createCatalogOrderItem E code name price unit qty db =
     (let i = db_uuid E (cat_next db); n = db_numeric E price in
      if db_fails E ''catalog.insert''
         \<or> list_ex (\<lambda>c. ci_source c = ''manual'' \<and> ci_code c = code \<and> live_name (ot db) (ci_id c) \<noteq> None) (cat_rows db)
      then (Inl (Wrapf ''create catalog item: %w'' [] (Plain ''catalog.insert'')), db)
      else (Inr (no_item\<lparr>it_item := i, it_code := code, it_name := name, it_price := dec4 n, it_unit := unit, it_qty := qty\<rparr>),
        db\<lparr>cat_next := Suc (cat_next db),
           ot := (ot db)\<lparr>catalog := (catalog (ot db))(i \<mapsto> \<lparr>ca_name = name, ca_deleted = False\<rparr>)\<rparr>,
           cat_rows := cat_rows db @ [\<lparr>ci_id = i, ci_code = code, ci_unit = (if unit \<noteq> [] then Some unit else None),
             ci_price = Some n, ci_source = ''manual'', ci_updated = db_now E\<rparr>]\<rparr>))"

definition resolveCatalogItem ::
  "env \<Rightarrow> int \<Rightarrow> string \<Rightarrow> OrderItem \<Rightarrow> nat \<Rightarrow> order_db \<Rightarrow> (OrderItem, order_db) reply"
where
  "resolveCatalogItem E nano priceType it index db =
     (if trim_space (it_item it) \<noteq> [] then
        try_reply db (loadCatalogOrderItem E db priceType (ById (trim_space (it_item it)))) (\<lambda>item.
        (Inr (item\<lparr>it_qty := it_qty it\<rparr>), db))
      else
        let code = trim_space (it_code it); name = trim_space (it_name it);
            by_code = (if code \<noteq> [] then loadCatalogOrderItem E db priceType (ByCode code) else Inl no_rows);
            by_name = (if name \<noteq> [] then loadCatalogOrderItem E db priceType (ByName name) else Inl no_rows) in
        case by_code of Inr item \<Rightarrow> (Inr (item\<lparr>it_qty := it_qty it\<rparr>), db)
        | Inl _ \<Rightarrow> (case by_name of Inr item \<Rightarrow> (Inr (item\<lparr>it_qty := it_qty it\<rparr>), db)
        | Inl _ \<Rightarrow>
            if name = [] then (Inl (BadRequest ''catalog item name is required''), db)
            else if it_price it < 0 then (Inl (BadRequest ''catalog item price cannot be negative''), db)
            else createCatalogOrderItem E
              (if code = [] then ''MANUAL-'' @ show_int nano @ ''-'' @ digits (Suc index) else code)
              name (it_price it) (trim_space (it_unit it)) (it_qty it) db))"

fun normalize_items :: "req \<Rightarrow> string \<Rightarrow> nat \<Rightarrow> OrderItem list \<Rightarrow> order_db \<Rightarrow> (OrderItem list, order_db) reply" where
  "normalize_items R priceType i [] db = (Inr [], db)"
| "normalize_items R priceType i (it # its) db =
     (if it_qty it \<le> 0 then (Inl (BadRequest ''item qty must be greater than zero''), db)
      else reply_bind (resolveCatalogItem (rq_item R i) (rq_nano R) priceType it i db) (\<lambda>item db1.
        let line = trim_space (it_line it);
            item = item\<lparr>it_line := (if line = [] then rq_line R i else line), it_wh := trim_space (it_wh it)\<rparr> in
        reply_bind (normalize_items R priceType (Suc i) its db1) (\<lambda>rest db2. (Inr (item # rest), db2))))"

definition normalizeOrderItems ::
  "req \<Rightarrow> env \<Rightarrow> string \<Rightarrow> OrderItem list \<Rightarrow> order_db \<Rightarrow> (OrderItem list, order_db) reply"
where
  "normalizeOrderItems R E contactID raw db =
     try_reply db (sql E ''tenant.prepare'' (Inr ())) (\<lambda>_.
     try_reply db (sql E ''pricing.schema'' (Inr ())) (\<lambda>_.
     try_reply db (ResolvePriceTypeIDForContact E db contactID) (\<lambda>priceType.
     reply_bind (normalize_items R priceType 0 raw db) (\<lambda>items db'.
     if items = [] then (Inl (BadRequest ''items are required''), db') else (Inr items, db')))))"

definition orderStockItems :: "OrderItem list \<Rightarrow> OrderStockItem list" where
  "orderStockItems items = [\<lparr>oi_line = it_line it, oi_item = it_item it, oi_wh = it_wh it, oi_qty = it_qty it\<rparr>.
     it \<leftarrow> items, trim_space (it_item it) \<noteq> []]"

text \<open>\<open>subtotal += it.Qty * it.UnitPrice\<close>\<close>

definition items_subtotal :: "OrderItem list \<Rightarrow> f64" where
  "items_subtotal items = fold (\<lambda>it s. fl (s + fl (it_qty it * it_price it))) items 0"

text \<open>The arguments a batch statement is given.\<close>

definition batchIDs :: "string list \<Rightarrow> string list" where
  "batchIDs ids = [trim_space i. i \<leftarrow> ids, trim_space i \<noteq> []]"

end
