(* ===== verification/Sales.thy ===== *)
theory Sales
  imports Purchasing Order_Tables
begin

text \<open>
  Invoices and sales returns, the documents written on top of an order: \<open>inventory/invoice.go\<close>,
  \<open>invoice_batch.go\<close>, \<open>invoice_delete.go\<close>, \<open>sales_return.go\<close>, \<open>sales_return_batch.go\<close>,
  \<open>sales_return_crud.go\<close>.

  An invoice copies the lines of a shipped or completed order and prices their cost at what the order
  issued from stock. A return takes goods back: every line is checked against what the order issued
  and what earlier returns took back, receives stock at the order's average cost, and, when the
  tenant does not book purchases as expenses, one finance entry lowers the cost of goods sold.

  The conventions are those of the stock documents. Identifiers are UUIDs in the text form in which
  PostgreSQL prints them. The default of \<open>transaction_date\<close>, \<open>CURRENT_DATE\<close>, is the parameter \<open>today\<close>. A
  batch makes one call after the other, the \<open>n\<close>-th in an environment \<open>Es n\<close> of its own. A reply shows the rows
  of the document; the item names joined to the lines of a return are left out.
\<close>

section \<open>Tables\<close>

record invoice_row =
  in_id :: string
  in_no :: string
  in_order :: "string option"
  in_contact :: "string option"
  in_status :: string
  in_date :: string
  in_subtotal :: int
  in_cogs :: int
  in_note :: "string option"
  in_by :: "string option"
  in_created :: int
  in_deleted :: bool

record invoice_line_row =
  il_id :: string
  il_invoice :: string
  il_item :: "string option"
  il_order_line :: "string option"
  il_desc :: "string option"
  il_qty :: int
  il_price :: int
  il_cogs :: int
  il_wh :: "string option"
  il_created :: int

record return_row =
  sr_id :: string
  sr_no :: string
  sr_order :: "string option"
  sr_contact :: "string option"
  sr_status :: string
  sr_date :: string
  sr_note :: "string option"
  sr_cost :: int
  sr_by :: "string option"
  sr_created :: int
  sr_deleted :: bool

record return_line_row =
  rb_id :: string
  rb_return :: string
  rb_item :: string
  rb_wh :: string
  rb_qty :: int
  rb_cost :: int
  rb_movement :: "string option"
  rb_source :: "string option"
  rb_created :: int

record sal_db =
  sd :: doc_db
  s_orders :: "order_rec list"
  invoices :: "invoice_row list"
  invoice_lines :: "invoice_line_row list"
  sales_returns :: "return_row list"
  return_lines :: "return_line_row list"

abbreviation stn :: "sal_db \<Rightarrow> tenant_db" where "stn db \<equiv> tn (sd db)"
abbreviation sinv :: "sal_db \<Rightarrow> inv_db" where "sinv db \<equiv> inv (tn (sd db))"
abbreviation sfin :: "sal_db \<Rightarrow> fin_db" where "sfin db \<equiv> fin (tn (sd db))"

text \<open>The key of a new row.\<close>

definition sal_id :: "env \<Rightarrow> sal_db \<Rightarrow> string \<times> sal_db" where
  "sal_id E db = (case new_id E (sd db) of (i, d) \<Rightarrow> (i, db\<lparr>sd := d\<rparr>))"

definition DocInvoice :: string where "DocInvoice = ''WINV''"
definition DocReturn :: string where "DocReturn = ''WRET''"

definition next_number :: "env \<Rightarrow> string \<Rightarrow> sal_db \<Rightarrow> (string \<times> sal_db) res" where
  "next_number E docType db = as_internal ''docseq.upsert''
     (ebind (nextDocNumber E docType docType (sd db)) (\<lambda>(no, d). Inr (no, db\<lparr>sd := d\<rparr>)))"

section \<open>What an order sold (invoice.go)\<close>

record InvoiceOrder =
  io_contact :: string
  io_lines :: "OrderItem list"
  io_subtotal :: f64
  io_status :: string

definition loadOrderForInvoice :: "env \<Rightarrow> sal_db \<Rightarrow> string \<Rightarrow> InvoiceOrder res" where
  "loadOrderForInvoice E db orderID = sql E ''order.invoice''
     (case find (\<lambda>r. od_id r = orderID \<and> od_deleted r = None) (s_orders db) of
        None \<Rightarrow> Inl (NotFound ''pesanan tidak ditemukan'')
      | Some r \<Rightarrow> Inr \<lparr>io_contact = opt_text (od_contact r), io_lines = od_items r,
          io_subtotal = dec4 (od_subtotal r), io_status = od_status r\<rparr>)"

definition add_sale :: "movement_row \<Rightarrow> (string \<times> netEntry) list \<Rightarrow> (string \<times> netEntry) list" where
  "add_sale r m = (let e = mget zero_net m (mv_item r) in
     AList.update (mv_item r) (if mv_type r = MovementSaleIssue
       then \<lparr>ne_qty = fl (ne_qty e + dec4 (mv_qty r)), ne_cost = fl (ne_cost e + dec4 (mv_total r))\<rparr>
       else \<lparr>ne_qty = fl (ne_qty e - dec4 (mv_qty r)), ne_cost = fl (ne_cost e - dec4 (mv_total r))\<rparr>) m)"

definition orderItemSaleCost :: "env \<Rightarrow> sal_db \<Rightarrow> string \<Rightarrow> (string \<times> netEntry) list res" where
  "orderItemSaleCost E db orderID = sql E ''movements.sale''
     (Inr (fold add_sale [r \<leftarrow> movements (sinv db). sale_row orderID r] []))"

definition weightedItemCost :: "(string \<times> netEntry) list \<Rightarrow> string \<Rightarrow> f64" where
  "weightedItemCost m item = (let e = mget zero_net m item in
     if ne_qty e \<le> epsilon then 0 else round4 (fl (ne_cost e / ne_qty e)))"

definition isInvoiceEligibleStatus :: "string \<Rightarrow> bool" where
  "isInvoiceEligibleStatus status \<longleftrightarrow> norm_key status \<in> set [''shipped'', ''completed'']"

definition require_eligible :: "InvoiceOrder \<Rightarrow> unit res" where
  "require_eligible o' = guard (isInvoiceEligibleStatus (io_status o'))
     (BadRequest ''status pesanan harus Dalam pengiriman atau Selesai'')"

section \<open>Invoices (invoice.go, invoice_batch.go, invoice_delete.go)\<close>

record Invoice =
  iv_row :: invoice_row
  iv_lines :: "invoice_line_row list"

definition getInvoice :: "env \<Rightarrow> sal_db \<Rightarrow> string \<Rightarrow> Invoice res" where
  "getInvoice E db i =
     ebind (sql E ''invoice.select'' (case find (\<lambda>r. in_id r = i \<and> \<not> in_deleted r) (invoices db) of
         None \<Rightarrow> Inl (NotFound ''invoice tidak ditemukan'') | Some r \<Rightarrow> Inr r)) (\<lambda>r.
     sql E ''invoice.lines'' (Inr \<lparr>iv_row = r, iv_lines = sort_key il_created [l \<leftarrow> invoice_lines db. il_invoice l = i]\<rparr>))"

definition GetInvoice :: "env \<Rightarrow> AuthUser option \<Rightarrow> string \<Rightarrow> sal_db \<Rightarrow> Invoice res" where
  "GetInvoice E auth i db =
     ebind (getUser auth) (\<lambda>u. ebind (prepareTenant E) (\<lambda>_. getInvoice E db i))"

text \<open>The live invoice of an order; the unique index on the order leaves at most one.\<close>

definition invoice_of :: "sal_db \<Rightarrow> string \<Rightarrow> invoice_row option" where
  "invoice_of db orderID = find (\<lambda>r. in_order r = Some orderID \<and> \<not> in_deleted r) (invoices db)"

definition line_cogs :: "(string \<times> netEntry) list \<Rightarrow> OrderItem \<Rightarrow> f64" where
  "line_cogs cost l = round4 (fl (weightedItemCost cost (it_item l) * it_qty l))"

definition insert_invoice_line ::
  "env \<Rightarrow> string \<Rightarrow> (string \<times> netEntry) list \<Rightarrow> OrderItem \<Rightarrow> f64 \<times> sal_db \<Rightarrow> (f64 \<times> sal_db) res"
where
  "insert_invoice_line E invoiceID cost l st = (case st of (totalCogs, db) \<Rightarrow>
     let cogs = line_cogs cost l; (i, db1) = sal_id E db in
     sql E ''invoice.line'' (Inr (fl (totalCogs + cogs), db1\<lparr>invoice_lines := invoice_lines db1 @ [\<lparr>il_id = i,
       il_invoice = invoiceID, il_item = nullUUID (it_item l), il_order_line = nullUUID (it_line l), il_desc = nullStr (it_name l),
       il_qty = db_numeric E (round4 (it_qty l)), il_price = db_numeric E (round4 (it_price l)), il_cogs = db_numeric E cogs,
       il_wh = nullUUID (it_wh l), il_created = db_now E\<rparr>]\<rparr>)))"

text \<open>The insert fails on a number or an order that a live invoice has, by the unique indexes.\<close>

definition insert_invoice ::
  "env \<Rightarrow> string \<Rightarrow> string \<Rightarrow> string \<Rightarrow> InvoiceOrder \<Rightarrow> string \<Rightarrow> sal_db \<Rightarrow> (string \<times> sal_db) res"
where
  "insert_invoice E today accountID orderID o' invoiceNo db = (let (i, db1) = sal_id E db in
     sql E ''invoice.insert'' (if list_ex (\<lambda>r. (in_no r = invoiceNo \<or> in_order r = Some orderID) \<and> \<not> in_deleted r) (invoices db1)
       then Inl (Internal ''invoice.insert'')
       else Inr (i, db1\<lparr>invoices := invoices db1 @ [\<lparr>in_id = i, in_no = invoiceNo, in_order = Some orderID,
         in_contact = nullUUID (io_contact o'), in_status = ''issued'', in_date = today,
         in_subtotal = db_numeric E (round4 (io_subtotal o')), in_cogs = 0, in_note = None, in_by = nullUUID accountID,
         in_created = db_now E, in_deleted = False\<rparr>]\<rparr>)))"

definition create_invoice_tx ::
  "env \<Rightarrow> string \<Rightarrow> string \<Rightarrow> string \<Rightarrow> InvoiceOrder \<Rightarrow> (string \<times> netEntry) list \<Rightarrow> sal_db \<Rightarrow> (string \<times> sal_db) res"
where
  "create_invoice_tx E today accountID orderID o' cost db =
     ebind (sql E ''tx.begin'' (Inr ())) (\<lambda>_.
     ebind (next_number E DocInvoice db) (\<lambda>(invoiceNo, db1).
     ebind (insert_invoice E today accountID orderID o' invoiceNo db1) (\<lambda>(invoiceID, db2).
     ebind (efold (insert_invoice_line E invoiceID cost) (io_lines o') (0, db2)) (\<lambda>(totalCogs, db3).
     ebind (sql E ''invoice.total'' (Inr (db3\<lparr>invoices := map (\<lambda>r. if in_id r = invoiceID
       then r\<lparr>in_cogs := db_numeric E (round4 totalCogs)\<rparr> else r) (invoices db3)\<rparr>))) (\<lambda>db4.
     sql E ''tx.commit'' (Inr (invoiceID, db4)))))))"

text \<open>
  The single-order request returns the invoice an order has; the batch rejects the order.
\<close>

definition createInvoiceFromOrderConn ::
  "env \<Rightarrow> string \<Rightarrow> string \<Rightarrow> string \<Rightarrow> bool \<Rightarrow> sal_db \<Rightarrow> (Invoice, sal_db) reply"
where
  "createInvoiceFromOrderConn E today accountID orderID rejectExisting db =
     try_reply db (sql E ''invoice.existing'' (Inr (invoice_of db orderID))) (\<lambda>existing. case existing of
       Some r \<Rightarrow> if rejectExisting then (Inl (BadRequest ''pesanan sudah memiliki faktur''), db)
                 else (getInvoice E db (in_id r), db)
     | None \<Rightarrow>
         try_reply db (loadOrderForInvoice E db orderID) (\<lambda>o'.
         try_reply db (require_eligible o') (\<lambda>_.
         try_reply db (guard (io_lines o' \<noteq> []) (BadRequest ''pesanan tidak memiliki item'')) (\<lambda>_.
         try_reply db (orderItemSaleCost E db orderID) (\<lambda>cost.
         in_tx db (create_invoice_tx E today accountID orderID o' cost db) (\<lambda>invoiceID db'.
         (getInvoice E db' invoiceID, db')))))))"

definition CreateInvoiceFromOrder ::
  "env \<Rightarrow> string \<Rightarrow> AuthUser option \<Rightarrow> string \<Rightarrow> sal_db \<Rightarrow> (Invoice, sal_db) reply"
where
  "CreateInvoiceFromOrder E today auth orderID db =
     try_reply db (getUser auth) (\<lambda>u.
     try_reply db (requireOwner u) (\<lambda>_.
     try_reply db (prepareTenant E) (\<lambda>_.
     createInvoiceFromOrderConn E today (AccountID u) orderID False db)))"

definition maxBatchOrderActions :: nat where "maxBatchOrderActions = 100"

record BatchResultLine =
  bt_order :: string
  bt_id :: string
  bt_no :: string
  bt_error :: "app_error option"

record BatchResult =
  br_processed :: nat
  br_failed :: nat
  br_lines :: "BatchResultLine list"

definition no_batch :: BatchResult where
  "no_batch = \<lparr>br_processed = 0, br_failed = 0, br_lines = []\<rparr>"

definition batch_ok :: "string \<Rightarrow> string \<Rightarrow> string \<Rightarrow> BatchResult \<Rightarrow> BatchResult" where
  "batch_ok orderID i no res = res\<lparr>br_processed := Suc (br_processed res),
     br_lines := br_lines res @ [\<lparr>bt_order = orderID, bt_id = i, bt_no = no, bt_error = None\<rparr>]\<rparr>"

definition batch_fail :: "string \<Rightarrow> app_error \<Rightarrow> BatchResult \<Rightarrow> BatchResult" where
  "batch_fail orderID e res = res\<lparr>br_failed := Suc (br_failed res),
     br_lines := br_lines res @ [\<lparr>bt_order = orderID, bt_id = [], bt_no = [], bt_error = Some e\<rparr>]\<rparr>"

fun batch_invoices ::
  "(nat \<Rightarrow> env) \<Rightarrow> string \<Rightarrow> string \<Rightarrow> nat \<Rightarrow> string list \<Rightarrow> string list \<Rightarrow> BatchResult \<Rightarrow> sal_db \<Rightarrow> BatchResult \<times> sal_db"
where
  "batch_invoices Es today accountID n seen [] res db = (res, db)"
| "batch_invoices Es today accountID n seen (rawID # ids) res db =
     (let orderID = trim_space rawID in
      if orderID = [] then batch_invoices Es today accountID (Suc n) seen ids (batch_fail orderID (Plain ''id pesanan kosong'') res) db
      else if orderID \<in> set seen
      then batch_invoices Es today accountID (Suc n) seen ids (batch_fail orderID (Plain ''pesanan duplikat dalam request'') res) db
      else case createInvoiceFromOrderConn (Es n) today accountID orderID True db of
        (Inl e, db') \<Rightarrow> batch_invoices Es today accountID (Suc n) (orderID # seen) ids (batch_fail orderID e res) db'
      | (Inr iv, db') \<Rightarrow> batch_invoices Es today accountID (Suc n) (orderID # seen) ids
          (batch_ok orderID (in_id (iv_row iv)) (in_no (iv_row iv)) res) db')"

definition BatchCreateInvoicesFromOrders ::
  "env \<Rightarrow> (nat \<Rightarrow> env) \<Rightarrow> string \<Rightarrow> AuthUser option \<Rightarrow> string list \<Rightarrow> sal_db \<Rightarrow> (BatchResult, sal_db) reply"
where
  "BatchCreateInvoicesFromOrders E Es today auth orderIDs db =
     try_reply db (getUser auth) (\<lambda>u.
     try_reply db (requireOwner u) (\<lambda>_.
     try_reply db (guard (orderIDs \<noteq> []) (BadRequest ''minimal 1 pesanan'')) (\<lambda>_.
     try_reply db (guard (length orderIDs \<le> maxBatchOrderActions)
       (BadRequestf ''maksimal %d pesanan per aksi'' [of_nat maxBatchOrderActions])) (\<lambda>_.
     try_reply db (prepareTenant E) (\<lambda>_.
     case batch_invoices Es today (AccountID u) 0 [] orderIDs no_batch db of (res, db') \<Rightarrow> (Inr res, db'))))))"

text \<open>Deleting the header takes its lines along (\<open>ON DELETE CASCADE\<close>).\<close>

definition delete_invoice :: "string \<Rightarrow> sal_db \<Rightarrow> sal_db" where
  "delete_invoice i db = db\<lparr>invoices := [r \<leftarrow> invoices db. in_id r \<noteq> i],
     invoice_lines := [l \<leftarrow> invoice_lines db. il_invoice l \<noteq> i]\<rparr>"

definition DeleteInvoice :: "env \<Rightarrow> clock \<Rightarrow> AuthUser option \<Rightarrow> string \<Rightarrow> sal_db \<Rightarrow> sal_db out" where
  "DeleteInvoice E ck auth i db =
     try_out db (getUser auth) (\<lambda>u.
     try_out db (requireOwner u) (\<lambda>_.
     try_out db (prepareTenant E) (\<lambda>_.
     try_out db (getInvoice E db i) (\<lambda>iv.
     try_out db (CheckPeriodUnlockedForDate E (ck_period ck) (ck_today ck) (sfin db) (in_date (iv_row iv))) (\<lambda>_.
     try_out db (sql E ''tx.begin'' (Inr ())) (\<lambda>_.
     try_out db (sql E ''invoice.delete'' (Inr (delete_invoice i db))) (\<lambda>db1.
     try_out db (sql_raw E ''tx.commit'' (Inr db1)) (\<lambda>db2. (None, db2)))))))))"

section \<open>Returns (sales_return.go, sales_return_batch.go, sales_return_crud.go)\<close>

definition returnableQty :: "f64 \<Rightarrow> f64 \<Rightarrow> f64" where
  "returnableQty soldNet alreadyReturned = (let r = round4 (fl (soldNet - alreadyReturned)) in if r < 0 then 0 else r)"

record SalesReturnLineInput =
  rn_item :: string
  rn_wh :: string
  rn_qty :: f64

record CreateSalesReturnParams =
  cr_order :: string
  cr_note :: string
  cr_lines :: "SalesReturnLineInput list"

record SalesReturn =
  sv_row :: return_row
  sv_lines :: "return_line_row list"

definition lines_of_return :: "sal_db \<Rightarrow> string \<Rightarrow> return_line_row list" where
  "lines_of_return db i = [l \<leftarrow> return_lines db. rb_return l = i]"

definition getSalesReturn :: "env \<Rightarrow> sal_db \<Rightarrow> string \<Rightarrow> SalesReturn res" where
  "getSalesReturn E db i =
     ebind (sql E ''return.select'' (case find (\<lambda>r. sr_id r = i \<and> \<not> sr_deleted r) (sales_returns db) of
         None \<Rightarrow> Inl (NotFound ''retur tidak ditemukan'') | Some r \<Rightarrow> Inr r)) (\<lambda>r.
     sql E ''return.lines'' (Inr \<lparr>sv_row = r, sv_lines = sort_key rb_created (lines_of_return db i)\<rparr>))"

definition GetSalesReturn :: "env \<Rightarrow> AuthUser option \<Rightarrow> string \<Rightarrow> sal_db \<Rightarrow> SalesReturn res" where
  "GetSalesReturn E auth i db =
     ebind (getUser auth) (\<lambda>u. ebind (prepareTenant E) (\<lambda>_. getSalesReturn E db i))"

definition counted_return :: "string \<Rightarrow> return_row \<Rightarrow> bool" where
  "counted_return orderID r \<longleftrightarrow> sr_order r = Some orderID \<and> sr_status r = ''posted'' \<and> \<not> sr_deleted r"

text \<open>The join of the returns of an order with their lines.\<close>

definition returned_lines :: "sal_db \<Rightarrow> string \<Rightarrow> return_line_row list" where
  "returned_lines db orderID =
     [l. r \<leftarrow> sales_returns db, counted_return orderID r, l \<leftarrow> return_lines db, rb_return l = sr_id r]"

definition returned_qty :: "sal_db \<Rightarrow> string \<Rightarrow> string \<Rightarrow> int" where
  "returned_qty db orderID item = (\<Sum>l\<leftarrow>returned_lines db orderID. if rb_item l = item then rb_qty l else 0)"

definition orderReturnedQty :: "env \<Rightarrow> sal_db \<Rightarrow> string \<Rightarrow> (string \<times> f64) list res" where
  "orderReturnedQty E db orderID = sql E ''returns.sum''
     (Inr [(i, dec4 (returned_qty db orderID i)). i \<leftarrow> dedup (map rb_item (returned_lines db orderID))])"

text \<open>An error of this query is dropped.\<close>

definition orderSaleMovementID :: "env \<Rightarrow> inv_db \<Rightarrow> string \<Rightarrow> string \<Rightarrow> string" where
  "orderSaleMovementID E idb orderID item = (if db_fails E ''movement.sale'' then []
     else case sort_key (\<lambda>r. - mv_created r) [r \<leftarrow> movements idb. has_ref ''order'' orderID r
                \<and> mv_item r = item \<and> mv_type r = MovementSaleIssue] of
       [] \<Rightarrow> [] | r # _ \<Rightarrow> mv_id r)"

text \<open>Every line is compared with what is left before the request.\<close>

definition return_line_step ::
  "(string \<times> netEntry) list \<Rightarrow> (string \<times> f64) list \<Rightarrow> nat \<times> SalesReturnLineInput \<Rightarrow> unit \<Rightarrow> unit res"
where
  "return_line_step cost returned il s = (case il of (i, l) \<Rightarrow>
     ebind (guard (\<not> rn_qty l \<le> epsilon) (BadRequestf ''baris %d: qty harus lebih dari 0'' [of_nat i + 1])) (\<lambda>_.
     let left = returnableQty (ne_qty (mget zero_net cost (rn_item l))) (mget 0 returned (rn_item l)) in
     guard (\<not> left < fl (rn_qty l - epsilon))
       (BadRequestf ''baris %d: qty retur melebihi yang terjual (sisa %g)'' [of_nat i + 1, left])))"

definition check_return_lines ::
  "(string \<times> netEntry) list \<Rightarrow> (string \<times> f64) list \<Rightarrow> SalesReturnLineInput list \<Rightarrow> unit res"
where
  "check_return_lines cost returned lines = efold (return_line_step cost returned) (List.enumerate 0 lines) ()"

definition return_wh :: "env \<Rightarrow> sal_db \<Rightarrow> SalesReturnLineInput \<Rightarrow> string" where
  "return_wh E pool l = (let wh = trim_space (rn_wh l) in
     if wh = [] then (case defaultWarehouseID E (stn pool) of Inl e \<Rightarrow> [] | Inr w \<Rightarrow> w) else wh)"

definition return_input ::
  "SalesReturnLineInput \<Rightarrow> string \<Rightarrow> f64 \<Rightarrow> costingContext \<Rightarrow> string \<Rightarrow> string \<Rightarrow> string \<Rightarrow> string \<Rightarrow> MovementInput"
where
  "return_input l wh unitCost cc returnID returnNo src accountID = no_input\<lparr>mi_item := rn_item l, mi_wh := wh,
     mi_type := MovementReturnIn, mi_dir := dirIn, mi_qty := round4 (rn_qty l), mi_cost := unitCost,
     mi_method := cc_method cc, mi_block := False, mi_reftype := ''sales_return'', mi_refid := returnID,
     mi_source := src, mi_note := ''Retur penjualan '' @ returnNo, mi_by := accountID\<rparr>"

definition insert_return_line ::
  "env \<Rightarrow> string \<Rightarrow> SalesReturnLineInput \<Rightarrow> string \<Rightarrow> f64 \<Rightarrow> string \<Rightarrow> string \<Rightarrow> sal_db \<Rightarrow> sal_db res"
where
  "insert_return_line E returnID l wh unitCost movementID src db = (let (i, db1) = sal_id E db in
     sql E ''return.line'' (Inr (db1\<lparr>return_lines := return_lines db1 @ [\<lparr>rb_id = i, rb_return = returnID,
       rb_item = rn_item l, rb_wh = wh, rb_qty = db_numeric E (round4 (rn_qty l)), rb_cost = db_numeric E unitCost,
       rb_movement = Some movementID, rb_source = nullUUID src, rb_created = db_now E\<rparr>]\<rparr>)))"

text \<open>
  One line of a return; the default warehouse and the sale are read outside the transaction, in the
  tables \<open>pool\<close>. The state carries \<open>totalCost\<close>.
\<close>

definition post_return_line ::
  "env \<Rightarrow> sal_db \<Rightarrow> string \<Rightarrow> (string \<times> netEntry) list \<Rightarrow> string \<Rightarrow> string \<Rightarrow> string \<Rightarrow> SalesReturnLineInput
    \<Rightarrow> f64 \<times> sal_db \<Rightarrow> (f64 \<times> sal_db) res"
where
  "post_return_line E pool orderID cost returnID returnNo accountID l st = (case st of (totalCost, db) \<Rightarrow>
     let wh = return_wh E pool l; unitCost = weightedItemCost cost (rn_item l);
         src = orderSaleMovementID E (sinv pool) orderID (rn_item l) in
     ebind (context_of E (sd db) (rn_item l)) (\<lambda>cc.
     ebind (post E (return_input l wh unitCost cc returnID returnNo src accountID) (sd db)) (\<lambda>(res, d).
     ebind (insert_return_line E returnID l wh unitCost (mr_id res) src (db\<lparr>sd := d\<rparr>)) (\<lambda>db1.
     Inr (fl (totalCost + round4 (fl (unitCost * rn_qty l))), db1)))))"

definition update_return :: "string \<Rightarrow> (return_row \<Rightarrow> return_row) \<Rightarrow> sal_db \<Rightarrow> sal_db" where
  "update_return i f db = db\<lparr>sales_returns := map (\<lambda>r. if sr_id r = i then f r else r) (sales_returns db)\<rparr>"

definition insert_return ::
  "env \<Rightarrow> string \<Rightarrow> string \<Rightarrow> CreateSalesReturnParams \<Rightarrow> string \<Rightarrow> string \<Rightarrow> sal_db \<Rightarrow> (string \<times> sal_db) res"
where
  "insert_return E today accountID p contactID returnNo db = (let (i, db1) = sal_id E db in
     sql E ''return.insert'' (if list_ex (\<lambda>r. sr_no r = returnNo \<and> \<not> sr_deleted r) (sales_returns db1)
       then Inl (Internal ''return.insert'')
       else Inr (i, db1\<lparr>sales_returns := sales_returns db1 @ [\<lparr>sr_id = i, sr_no = returnNo, sr_order = nullUUID (cr_order p),
         sr_contact = nullUUID contactID, sr_status = ''posted'', sr_date = today, sr_note = nullStr (cr_note p),
         sr_cost = 0, sr_by = nullUUID accountID, sr_created = db_now E, sr_deleted = False\<rparr>]\<rparr>)))"

definition create_return_tx ::
  "env \<Rightarrow> string \<Rightarrow> string \<Rightarrow> CreateSalesReturnParams \<Rightarrow> string \<Rightarrow> (string \<times> netEntry) list \<Rightarrow> sal_db
    \<Rightarrow> ((string \<times> string \<times> f64) \<times> sal_db) res"
where
  "create_return_tx E today accountID p contactID cost db =
     ebind (sql E ''tx.begin'' (Inr ())) (\<lambda>_.
     ebind (next_number E DocReturn db) (\<lambda>(returnNo, db1).
     ebind (insert_return E today accountID p contactID returnNo db1) (\<lambda>(returnID, db2).
     ebind (efold (post_return_line E db (cr_order p) cost returnID returnNo accountID) (cr_lines p) (0, db2)) (\<lambda>(totalCost, db3).
     ebind (sql E ''return.total'' (Inr (update_return returnID (\<lambda>r. r\<lparr>sr_cost := db_numeric E (round4 totalCost)\<rparr>) db3))) (\<lambda>db4.
     sql E ''tx.commit'' (Inr ((returnID, returnNo, totalCost), db4)))))))"

text \<open>Settings that cannot be read leave the entry out.\<close>

definition book_return :: "env \<Rightarrow> clock \<Rightarrow> string \<Rightarrow> string \<Rightarrow> string \<Rightarrow> f64 \<Rightarrow> sal_db \<Rightarrow> sal_db res" where
  "book_return E ck accountID returnID returnNo totalCost db = (case loadSyncSetting E (stn db) of
       Inl e \<Rightarrow> Inr db
     | Inr (setup, postExpense, block) \<Rightarrow>
         if \<not> postExpense \<and> totalCost > 0
         then ebind (book E ck accountID (''ret:'' @ returnID) ''income'' finCatHPP (''Retur penjualan '' @ returnNo)
                (round2 totalCost) (sd db)) (\<lambda>d. Inr (db\<lparr>sd := d\<rparr>))
         else Inr db)"

text \<open>The order is read twice, for its status and for its contact.\<close>

definition createSalesReturnConn ::
  "env \<Rightarrow> string \<Rightarrow> clock \<Rightarrow> string \<Rightarrow> CreateSalesReturnParams \<Rightarrow> sal_db \<Rightarrow> (SalesReturn, sal_db) reply"
where
  "createSalesReturnConn E today ck accountID p db =
     try_reply db (guard (trim_space (cr_order p) \<noteq> []) (BadRequest ''orderId wajib diisi'')) (\<lambda>_.
     try_reply db (guard (cr_lines p \<noteq> []) (BadRequest ''minimal 1 baris retur'')) (\<lambda>_.
     try_reply db (CheckCurrentPeriodUnlocked E (ck_period ck) (ck_today ck) (sfin db)) (\<lambda>_.
     try_reply db (loadOrderForInvoice E db (cr_order p)) (\<lambda>o'.
     try_reply db (require_eligible o') (\<lambda>_.
     try_reply db (loadOrderForInvoice E db (cr_order p)) (\<lambda>o''.
     try_reply db (orderItemSaleCost E db (cr_order p)) (\<lambda>cost.
     try_reply db (orderReturnedQty E db (cr_order p)) (\<lambda>returned.
     try_reply db (check_return_lines cost returned (cr_lines p)) (\<lambda>_.
     in_tx db (create_return_tx E today accountID p (io_contact o'') cost db) (\<lambda>(returnID, returnNo, totalCost) db1.
     try_reply db1 (book_return E ck accountID returnID returnNo totalCost db1) (\<lambda>db2.
     (getSalesReturn E db2 returnID, db2))))))))))))"

definition CreateSalesReturn ::
  "env \<Rightarrow> string \<Rightarrow> clock \<Rightarrow> AuthUser option \<Rightarrow> CreateSalesReturnParams \<Rightarrow> sal_db \<Rightarrow> (SalesReturn, sal_db) reply"
where
  "CreateSalesReturn E today ck auth p db =
     try_reply db (getUser auth) (\<lambda>u.
     try_reply db (requireOwner u) (\<lambda>_.
     try_reply db (guard (trim_space (cr_order p) \<noteq> []) (BadRequest ''orderId wajib diisi'')) (\<lambda>_.
     try_reply db (guard (cr_lines p \<noteq> []) (BadRequest ''minimal 1 baris retur'')) (\<lambda>_.
     try_reply db (CheckCurrentPeriodUnlocked E (ck_period ck) (ck_today ck) (sfin db)) (\<lambda>_.
     try_reply db (prepareTenant E) (\<lambda>_.
     createSalesReturnConn E today ck (AccountID u) p db))))))"

fun batch_returns ::
  "(nat \<Rightarrow> env) \<Rightarrow> string \<Rightarrow> clock \<Rightarrow> string \<Rightarrow> nat \<Rightarrow> CreateSalesReturnParams list \<Rightarrow> BatchResult \<Rightarrow> sal_db \<Rightarrow> BatchResult \<times> sal_db"
where
  "batch_returns Es today ck accountID n [] res db = (res, db)"
| "batch_returns Es today ck accountID n (p # ps) res db =
     (let orderID = trim_space (cr_order p) in
      if orderID = [] then batch_returns Es today ck accountID (Suc n) ps (batch_fail orderID (Plain ''orderId kosong'') res) db
      else if cr_lines p = []
      then batch_returns Es today ck accountID (Suc n) ps (batch_fail orderID (Plain ''tidak ada baris retur'') res) db
      else case createSalesReturnConn (Es n) today ck accountID (p\<lparr>cr_order := orderID\<rparr>) db of
        (Inl e, db') \<Rightarrow> batch_returns Es today ck accountID (Suc n) ps (batch_fail orderID e res) db'
      | (Inr sr, db') \<Rightarrow> batch_returns Es today ck accountID (Suc n) ps
          (batch_ok orderID (sr_id (sv_row sr)) (sr_no (sv_row sr)) res) db')"

definition BatchCreateSalesReturns ::
  "env \<Rightarrow> (nat \<Rightarrow> env) \<Rightarrow> string \<Rightarrow> clock \<Rightarrow> AuthUser option \<Rightarrow> CreateSalesReturnParams list \<Rightarrow> sal_db \<Rightarrow> (BatchResult, sal_db) reply"
where
  "BatchCreateSalesReturns E Es today ck auth ps db =
     try_reply db (getUser auth) (\<lambda>u.
     try_reply db (requireOwner u) (\<lambda>_.
     try_reply db (guard (ps \<noteq> []) (BadRequest ''minimal 1 pesanan'')) (\<lambda>_.
     try_reply db (guard (length ps \<le> maxBatchOrderActions)
       (BadRequestf ''maksimal %d pesanan per aksi'' [of_nat maxBatchOrderActions])) (\<lambda>_.
     try_reply db (prepareTenant E) (\<lambda>_.
     case batch_returns Es today ck (AccountID u) 0 ps no_batch db of (res, db') \<Rightarrow> (Inr res, db'))))))"

subsection \<open>Deleting and editing\<close>

definition drop_refs :: "env \<Rightarrow> string list \<Rightarrow> sal_db \<Rightarrow> sal_db out" where
  "drop_refs E refs db = (case remove_entries E refs (sd db) of (e, d) \<Rightarrow> (e, db\<lparr>sd := d\<rparr>))"

definition purge_return :: "env \<Rightarrow> string \<Rightarrow> sal_db \<Rightarrow> sal_db res" where
  "purge_return E i db = ebind (purge E ''sales_return'' i (sd db)) (\<lambda>d. Inr (db\<lparr>sd := d\<rparr>))"

definition delete_return :: "string \<Rightarrow> sal_db \<Rightarrow> sal_db" where
  "delete_return i db = db\<lparr>sales_returns := [r \<leftarrow> sales_returns db. sr_id r \<noteq> i], return_lines := [l \<leftarrow> return_lines db. rb_return l \<noteq> i]\<rparr>"

definition delete_return_tx :: "env \<Rightarrow> string \<Rightarrow> sal_db \<Rightarrow> sal_db res" where
  "delete_return_tx E i db =
     ebind (sql E ''tx.begin'' (Inr ())) (\<lambda>_.
     ebind (purge_return E i db) (\<lambda>db1.
     ebind (sql E ''return.delete'' (Inr (delete_return i db1))) (\<lambda>db2.
     sql_raw E ''tx.commit'' (Inr db2))))"

definition deleteSalesReturnConn :: "env \<Rightarrow> clock \<Rightarrow> string \<Rightarrow> sal_db \<Rightarrow> sal_db out" where
  "deleteSalesReturnConn E ck i db =
     try_out db (getSalesReturn E db i) (\<lambda>ret.
     try_out db (CheckPeriodUnlockedForDate E (ck_period ck) (ck_today ck) (sfin db) (sr_date (sv_row ret))) (\<lambda>_.
     try_out db (collectMovementsByRef E (sinv db) ''sales_return'' i) (\<lambda>movs.
     case drop_refs E (movementFinanceRefs (''ret:'' @ i) movs) db of
       (Some e, db1) \<Rightarrow> (Some e, db1)
     | (None, db1) \<Rightarrow> try_out db1 (delete_return_tx E i db1) (\<lambda>db2. (None, db2)))))"

definition DeleteSalesReturn :: "env \<Rightarrow> clock \<Rightarrow> AuthUser option \<Rightarrow> string \<Rightarrow> sal_db \<Rightarrow> sal_db out" where
  "DeleteSalesReturn E ck auth i db =
     try_out db (getUser auth) (\<lambda>u.
     try_out db (requireOwner u) (\<lambda>_.
     try_out db (prepareTenant E) (\<lambda>_.
     deleteSalesReturnConn E ck i db)))"

text \<open>The lines of the return being edited do not count as returned.\<close>

definition exclude_line :: "return_line_row \<Rightarrow> (string \<times> f64) list \<Rightarrow> (string \<times> f64) list" where
  "exclude_line l m = (let q = fl (mget 0 m (rb_item l) - dec4 (rb_qty l)) in
     AList.update (rb_item l) (if q < 0 then 0 else q) m)"

definition update_return_tx ::
  "env \<Rightarrow> string \<Rightarrow> return_row \<Rightarrow> string \<Rightarrow> string \<Rightarrow> string \<Rightarrow> SalesReturnLineInput list \<Rightarrow> (string \<times> netEntry) list
    \<Rightarrow> sal_db \<Rightarrow> (f64 \<times> sal_db) res"
where
  "update_return_tx E accountID ex orderID contactID note lines cost db =
     ebind (sql E ''tx.begin'' (Inr ())) (\<lambda>_.
     ebind (purge_return E (sr_id ex) db) (\<lambda>db1.
     ebind (sql E ''return.lines.delete'' (Inr (db1\<lparr>return_lines := [l \<leftarrow> return_lines db1. rb_return l \<noteq> sr_id ex]\<rparr>))) (\<lambda>db2.
     ebind (sql E ''return.reset'' (Inr (update_return (sr_id ex) (\<lambda>r. r\<lparr>sr_note := nullStr note, sr_cost := 0\<rparr>) db2))) (\<lambda>db3.
     ebind (efold (post_return_line E db orderID cost (sr_id ex) (sr_no ex) accountID) lines (0, db3)) (\<lambda>(totalCost, db4).
     ebind (sql E ''return.total'' (Inr (update_return (sr_id ex)
       (\<lambda>r. r\<lparr>sr_cost := db_numeric E (round4 totalCost), sr_contact := nullUUID contactID\<rparr>) db4))) (\<lambda>db5.
     sql E ''tx.commit'' (Inr (totalCost, db5))))))))"

definition UpdateSalesReturn ::
  "env \<Rightarrow> clock \<Rightarrow> AuthUser option \<Rightarrow> string \<Rightarrow> string \<Rightarrow> SalesReturnLineInput list \<Rightarrow> sal_db \<Rightarrow> (SalesReturn, sal_db) reply"
where
  "UpdateSalesReturn E ck auth i note lines db =
     try_reply db (getUser auth) (\<lambda>u.
     try_reply db (requireOwner u) (\<lambda>_.
     try_reply db (guard (lines \<noteq> []) (BadRequest ''minimal 1 baris retur'')) (\<lambda>_.
     try_reply db (prepareTenant E) (\<lambda>_.
     try_reply db (getSalesReturn E db i) (\<lambda>existing.
     let orderID = opt_text (sr_order (sv_row existing)) in
     try_reply db (guard (orderID \<noteq> []) (BadRequest ''retur tidak punya orderId'')) (\<lambda>_.
     try_reply db (CheckPeriodUnlockedForDate E (ck_period ck) (ck_today ck) (sfin db) (sr_date (sv_row existing))) (\<lambda>_.
     try_reply db (loadOrderForInvoice E db orderID) (\<lambda>o'.
     try_reply db (orderItemSaleCost E db orderID) (\<lambda>cost.
     try_reply db (orderReturnedQty E db orderID) (\<lambda>returned.
     try_reply db (check_return_lines cost (fold exclude_line (sv_lines existing) returned) lines) (\<lambda>_.
     try_reply db (collectMovementsByRef E (sinv db) ''sales_return'' i) (\<lambda>movs.
     case drop_refs E (movementFinanceRefs (''ret:'' @ i) movs) db of
       (Some e, db1) \<Rightarrow> (Inl e, db1)
     | (None, db1) \<Rightarrow>
         in_tx db1 (update_return_tx E (AccountID u) (sv_row existing) orderID (io_contact o') note lines cost db1) (\<lambda>totalCost db2.
         try_reply db2 (book_return E ck (AccountID u) i (sr_no (sv_row existing)) totalCost db2) (\<lambda>db3.
         (getSalesReturn E db3 i, db3)))))))))))))))"

subsection \<open>What can still be returned\<close>

record ReturnableLine =
  rt_item :: string
  rt_name :: string
  rt_wh :: string
  rt_sold :: f64
  rt_returned :: f64
  rt_left :: f64

record ReturnableOrderLines =
  ro_order :: string
  ro_status :: string
  ro_lines :: "ReturnableLine list"

definition returnable_line :: "(string \<times> netEntry) list \<Rightarrow> (string \<times> f64) list \<Rightarrow> OrderItem \<Rightarrow> ReturnableLine list" where
  "returnable_line cost returned l =
     (if trim_space (it_item l) = [] then []
      else let sold = ne_qty (mget zero_net cost (it_item l)); ret = mget 0 returned (it_item l);
               left = returnableQty sold ret in
        if left \<le> epsilon then []
        else [\<lparr>rt_item = it_item l, rt_name = it_name l, rt_wh = it_wh l, rt_sold = round4 sold,
               rt_returned = round4 ret, rt_left = left\<rparr>])"

definition loadReturnableOrderLines :: "env \<Rightarrow> sal_db \<Rightarrow> string \<Rightarrow> ReturnableOrderLines res" where
  "loadReturnableOrderLines E db orderID =
     ebind (loadOrderForInvoice E db orderID) (\<lambda>o'.
     ebind (require_eligible o') (\<lambda>_.
     ebind (orderItemSaleCost E db orderID) (\<lambda>cost.
     ebind (orderReturnedQty E db orderID) (\<lambda>returned.
     Inr \<lparr>ro_order = orderID, ro_status = io_status o',
          ro_lines = concat (map (returnable_line cost returned) (io_lines o'))\<rparr>))))"

definition GetReturnableOrderLines :: "env \<Rightarrow> AuthUser option \<Rightarrow> string \<Rightarrow> sal_db \<Rightarrow> ReturnableOrderLines res" where
  "GetReturnableOrderLines E auth orderID db =
     ebind (getUser auth) (\<lambda>u. ebind (prepareTenant E) (\<lambda>_. loadReturnableOrderLines E db orderID))"

end
