(* ===== verification/Posting.thy ===== *)
theory Posting
  imports Ledger_Laws
begin

text \<open>
  The contract of the stock ledger towards the code that posts into it: the order sync, the stock
  documents, purchasing and returns all go through \<open>PostMovement\<close> and rely on the same three laws.
  The contract is the locale \<open>stock_ledger\<close>; a sequence of postings is the relation \<open>posted\<close>, and
  what a sequence does to balances and to the ledger is proved once, in the locale, by induction on
  the relation. \<open>PostMovement\<close> is its interpretation.
\<close>

section \<open>Sequences of postings\<close>

inductive posted :: "('i \<Rightarrow> 'd \<Rightarrow> ('r \<times> 'd) res) \<Rightarrow> 'd \<Rightarrow> 'i list \<Rightarrow> 'd \<Rightarrow> bool" for post where
  posted_Nil: "posted post d [] d"
| posted_Cons: "post i d = Inr (r, d1) \<Longrightarrow> posted post d1 js d2 \<Longrightarrow> posted post d (i # js) d2"

inductive_cases posted_NilE: "posted post d [] d'"
inductive_cases posted_ConsE: "posted post d (i # js) d'"

lemma posted_append: "posted post a is b \<Longrightarrow> posted post b js c \<Longrightarrow> posted post a (is @ js) c"
  by (induction rule: posted.induct) (auto intro: posted.intros)

lemma posted_one: "post i d = Inr (r, d') \<Longrightarrow> posted post d [i] d'"
  by (auto intro: posted.intros)

text \<open>What a loop posts is what its iterations post, in order.\<close>

lemma posted_efold:
  assumes "efold f xs d = Inr d'"
    and "\<And>x a b. x \<in> set xs \<Longrightarrow> f x a = Inr b \<Longrightarrow> \<exists>js. posted post a js b \<and> P x js"
  shows "\<exists>jss. posted post d (concat jss) d' \<and> list_all2 P xs jss"
  using assms
proof (induction xs arbitrary: d)
  case Nil
  then show ?case by (auto intro!: exI[of _ "[]"] posted_Nil)
next
  case (Cons x xs)
  from Cons.prems(1) obtain b where b: "f x d = Inr b" "efold f xs b = Inr d'" by (auto simp: res_simps)
  from Cons.prems(2)[OF _ b(1)] obtain js where js: "posted post d js b" "P x js" by auto
  from Cons.IH[OF b(2) Cons.prems(2)] obtain jss where
    "posted post b (concat jss) d'" "list_all2 P xs jss" by auto
  with js show ?case by (intro exI[of _ "js # jss"]) (auto intro: posted_append)
qed

section \<open>The contract\<close>

text \<open>
  \<open>delta i\<close> is what the input \<open>i\<close> moves at \<open>key i\<close>; \<open>cap\<close> bounds the quantities for which the
  arithmetic is exact; \<open>agrees\<close> says that balances and ledger rows tell the same story; \<open>log\<close> is
  the ledger, and \<open>logs i e\<close> that \<open>e\<close> is a row for \<open>i\<close>.
\<close>

locale stock_ledger =
  fixes post :: "'i \<Rightarrow> 'd \<Rightarrow> ('r \<times> 'd) res"
    and key :: "'i \<Rightarrow> 'k" and delta :: "'i \<Rightarrow> int" and exact :: "'i \<Rightarrow> bool" and cap :: int
    and stock :: "'d \<Rightarrow> 'k \<Rightarrow> int" and agrees :: "'d \<Rightarrow> bool"
    and log :: "'d \<Rightarrow> 'e list" and logs :: "'i \<Rightarrow> 'e \<Rightarrow> bool" and same_setup :: "'d \<Rightarrow> 'd \<Rightarrow> bool"
  assumes post_stock: "exact i \<Longrightarrow> \<bar>stock d (key i)\<bar> + \<bar>delta i\<bar> \<le> cap \<Longrightarrow> post i d = Inr (r, d') \<Longrightarrow>
      stock d' k = stock d k + (if k = key i then delta i else 0)"
    and post_agrees: "exact i \<Longrightarrow> \<bar>stock d (key i)\<bar> + \<bar>delta i\<bar> \<le> cap \<Longrightarrow> post i d = Inr (r, d') \<Longrightarrow>
      agrees d \<Longrightarrow> agrees d'"
    and post_log: "post i d = Inr (r, d') \<Longrightarrow> \<exists>e. log d' = log d @ [e] \<and> logs i e"
    and post_setup: "post i d = Inr (r, d') \<Longrightarrow> same_setup d d'"
    and same_setup_refl: "same_setup d d"
    and same_setup_trans: "same_setup a b \<Longrightarrow> same_setup b c \<Longrightarrow> same_setup a c"
begin

definition moved :: "'i list \<Rightarrow> 'k \<Rightarrow> int" where
  "moved is k = (\<Sum>i\<leftarrow>is. if key i = k then delta i else 0)"

definition turnover :: "'i list \<Rightarrow> 'k \<Rightarrow> int" where
  "turnover is k = (\<Sum>i\<leftarrow>is. if key i = k then \<bar>delta i\<bar> else 0)"

lemma turnover_nonneg: "0 \<le> turnover is k"
  unfolding turnover_def by (rule sum_list_nonneg) auto

lemma turnover_Cons: "turnover (i # js) k = (if key i = k then \<bar>delta i\<bar> else 0) + turnover js k"
  by (simp add: turnover_def)

text \<open>A sequence of postings moves every pair by the sum of its inputs and keeps the agreement.\<close>

lemma posted_stock:
  assumes "posted post d js d'" "\<forall>i\<in>set js. exact i"
    and "\<And>k. \<bar>stock d k\<bar> + turnover js k \<le> cap"
  shows "stock d' k = stock d k + moved js k \<and> (agrees d \<longrightarrow> agrees d')"
  using assms
proof (induction arbitrary: k rule: posted.induct)
  case (posted_Nil d)
  then show ?case by (simp add: moved_def)
next
  case (posted_Cons i d r d1 js d2)
  have i: "exact i" using posted_Cons.prems(1) by simp
  have room: "\<bar>stock d (key i)\<bar> + \<bar>delta i\<bar> \<le> cap"
    using posted_Cons.prems(2)[of "key i"] turnover_nonneg[of js "key i"] by (simp add: turnover_Cons)
  note s = post_stock[OF i room posted_Cons.hyps(1)]
  have "\<bar>stock d1 k\<bar> + turnover js k \<le> cap" for k
    using posted_Cons.prems(2)[of k] s[of k] by (auto simp: turnover_Cons split: if_splits)
  with posted_Cons.IH[of k] posted_Cons.prems(1) s[of k] post_agrees[OF i room posted_Cons.hyps(1)]
  show ?case by (auto simp: moved_def)
qed

lemma posted_log:
  "posted post d js d' \<Longrightarrow> \<exists>es. log d' = log d @ es \<and> list_all2 logs js es \<and> same_setup d d'"
proof (induction rule: posted.induct)
  case (posted_Nil d)
  then show ?case by (simp add: same_setup_refl)
next
  case (posted_Cons i d r d1 js d2)
  from post_log[OF posted_Cons.hyps(1)] obtain e where "log d1 = log d @ [e]" "logs i e" by blast
  moreover from posted_Cons.IH obtain es where
    "log d2 = log d1 @ es" "list_all2 logs js es" "same_setup d1 d2" by blast
  moreover note post_setup[OF posted_Cons.hyps(1)]
  ultimately show ?case by (auto intro!: exI[of _ "e # es"] intro: same_setup_trans)
qed

end

text \<open>
  Documents write more than movements: headers, lines and configuration rows, which the stock does
  not depend on. \<open>run\<close> is a sequence of postings with such quiet writes in between, and the contract
  is extended by what a quiet write leaves alone.
\<close>

inductive run :: "('i \<Rightarrow> 'd \<Rightarrow> ('r \<times> 'd) res) \<Rightarrow> ('d \<Rightarrow> 'd \<Rightarrow> bool) \<Rightarrow> 'd \<Rightarrow> 'i list \<Rightarrow> 'd \<Rightarrow> bool"
  for post quiet where
  run_none: "run post quiet a [] a"
| run_post: "run post quiet a js b \<Longrightarrow> post i b = Inr (r, c) \<Longrightarrow> run post quiet a (js @ [i]) c"
| run_quiet: "run post quiet a js b \<Longrightarrow> quiet b c \<Longrightarrow> run post quiet a js c"

lemma run_append: "run post quiet b js c \<Longrightarrow> run post quiet a is b \<Longrightarrow> run post quiet a (is @ js) c"
proof (induction arbitrary: "is" rule: run.induct)
  case (run_post a js b i r c)
  then show ?case by (metis append_assoc run.run_post)
qed (auto intro: run.intros)

locale quiet_ledger = stock_ledger post key delta exact cap stock agrees log logs same_setup
  for post :: "'i \<Rightarrow> 'd \<Rightarrow> ('r \<times> 'd) res"
    and key :: "'i \<Rightarrow> 'k" and delta :: "'i \<Rightarrow> int" and exact :: "'i \<Rightarrow> bool" and cap :: int
    and stock :: "'d \<Rightarrow> 'k \<Rightarrow> int" and agrees :: "'d \<Rightarrow> bool"
    and log :: "'d \<Rightarrow> 'e list" and logs :: "'i \<Rightarrow> 'e \<Rightarrow> bool" and same_setup :: "'d \<Rightarrow> 'd \<Rightarrow> bool" +
  fixes quiet :: "'d \<Rightarrow> 'd \<Rightarrow> bool"
  assumes quiet_stock: "quiet a b \<Longrightarrow> stock b = stock a"
    and quiet_agrees: "quiet a b \<Longrightarrow> agrees b = agrees a"
    and quiet_log: "quiet a b \<Longrightarrow> log b = log a"
begin

lemma moved_append: "moved (is @ js) k = moved is k + moved js k"
  by (simp add: moved_def)

lemma turnover_append: "turnover (is @ js) k = turnover is k + turnover js k"
  by (simp add: turnover_def)

lemma moved_le_turnover: "\<bar>moved js k\<bar> \<le> turnover js k"
  by (induction js) (auto simp: moved_def turnover_def)

lemma run_stock:
  assumes "run post quiet a js b" "\<forall>i\<in>set js. exact i" "\<And>k. \<bar>stock a k\<bar> + turnover js k \<le> cap"
  shows "(\<forall>k. stock b k = stock a k + moved js k) \<and> (agrees a \<longrightarrow> agrees b)"
  using assms
proof (induction rule: run.induct)
  case (run_none a)
  then show ?case by (simp add: moved_def)
next
  case (run_post a js b i r c)
  have room: "\<bar>stock a k\<bar> + turnover js k \<le> cap" for k
    using run_post.prems(2)[of k] turnover_nonneg[of "[i]" k] by (simp add: turnover_append)
  with run_post have IH: "stock b k = stock a k + moved js k" "agrees a \<longrightarrow> agrees b" for k by auto
  have i: "exact i" using run_post.prems(1) by simp
  have "turnover [i] (key i) = \<bar>delta i\<bar>" by (simp add: turnover_def)
  then have "\<bar>stock b (key i)\<bar> + \<bar>delta i\<bar> \<le> cap"
    using run_post.prems(2)[of "key i"] IH(1)[of "key i"] moved_le_turnover[of js "key i"]
    by (simp add: turnover_append)
  from post_stock[OF i this run_post.hyps(2)] post_agrees[OF i this run_post.hyps(2)] IH
  show ?case by (auto simp: moved_append moved_def)
next
  case (run_quiet a js b c)
  then show ?case using quiet_stock quiet_agrees by metis
qed

lemma run_log: "run post quiet a js b \<Longrightarrow> \<exists>es. log b = log a @ es \<and> list_all2 logs js es"
proof (induction rule: run.induct)
  case (run_none a)
  then show ?case by simp
next
  case (run_post a js b i r c)
  from post_log[OF run_post.hyps(2)] obtain e where "log c = log b @ [e]" "logs i e" by blast
  moreover from run_post.IH obtain es where "log b = log a @ es" "list_all2 logs js es" by blast
  ultimately show ?case by (intro exI[of _ "es @ [e]"]) (simp add: list_all2_appendI)
next
  case (run_quiet a js b c)
  then show ?case using quiet_log by metis
qed

end

section \<open>PostMovement keeps the contract\<close>

text \<open>A float64 as a count of ten-thousandths.\<close>

definition qty4 :: "f64 \<Rightarrow> int" where
  "qty4 x = \<lfloor>x * 10 ^ 4 + 1 / 2\<rfloor>"

lemma qty4_dec4 [simp]: "small4 n \<Longrightarrow> qty4 (dec4 n) = n"
  using numeric_ok_sample by (simp add: numeric_ok_def sample_env_def qty4_def)

definition exact_input :: "env \<Rightarrow> MovementInput \<Rightarrow> bool" where
  "exact_input E i \<longleftrightarrow> numeric_ok E \<and> small4 (qty4 (mi_qty i)) \<and> mi_qty i = dec4 (qty4 (mi_qty i))"

definition input_delta :: "MovementInput \<Rightarrow> int" where
  "input_delta i = move_sign i (qty4 (mi_qty i))"

text \<open>What a ledger row keeps of its input.\<close>

definition row_for :: "env \<Rightarrow> MovementInput \<Rightarrow> movement_row \<Rightarrow> bool" where
  "row_for E i r \<longleftrightarrow> mv_item r = mi_item i \<and> mv_wh r = mi_wh i \<and> mv_type r = mi_type i \<and> mv_dir r = mi_dir i
     \<and> mv_qty r = db_numeric E (mi_qty i) \<and> mv_reftype r = nullStr (mi_reftype i)
     \<and> mv_refid r = nullUUID (mi_refid i) \<and> mv_batch r = nullStr (mi_batch i)
     \<and> \<not> mi_qty i \<le> epsilon \<and> (mi_dir i = dirIn \<or> mi_dir i = dirOut)"

text \<open>The settings and the SKU table are not touched by a posting.\<close>

definition same_config :: "inv_db \<Rightarrow> inv_db \<Rightarrow> bool" where
  "same_config a b \<longleftrightarrow> inv_setting b = inv_setting a \<and> skus b = skus a"

lemma move_sign_abs [simp]: "\<bar>move_sign i n\<bar> = \<bar>n\<bar>"
  by (simp add: move_sign_def)

lemma PostMovement_room:
  assumes "exact_input E i" "\<bar>on_hand d (input_key i)\<bar> + \<bar>input_delta i\<bar> \<le> 2 ^ 44"
  shows "numeric_ok E" "mi_qty i = dec4 (qty4 (mi_qty i))" "small4 (qty4 (mi_qty i))"
    "small4 (on_hand d (input_key i))" "small4 (on_hand d (input_key i) + move_sign i (qty4 (mi_qty i)))"
  using assms by (auto simp: exact_input_def input_delta_def small4_def move_sign_def split: if_splits)

interpretation pm: stock_ledger "PostMovement E" input_key input_delta "exact_input E" "2 ^ 44"
  on_hand bal_ok movements "row_for E" same_config for E
proof
  fix i d r d' k
  assume room: "exact_input E i" "\<bar>on_hand d (input_key i)\<bar> + \<bar>input_delta i\<bar> \<le> 2 ^ 44"
    and run: "PostMovement E i d = Inr (r, d')"
  note e = PostMovement_effect[OF run PostMovement_room[OF room]]
  show stock: "on_hand d' k = on_hand d k + (if k = input_key i then input_delta i else 0)" for k
    using e by (cases "k = input_key i") (simp_all add: on_hand_def input_delta_def del: split_paired_All)
  assume "bal_ok d"
  moreover have "ledger_net d' k = ledger_net d k + (if k = input_key i then input_delta i else 0)" for k
    using e unfolding input_delta_def by blast
  ultimately show "bal_ok d'" using stock by (simp add: bal_ok_def del: split_paired_All)
next
  fix i d r d'
  assume run: "PostMovement E i d = Inr (r, d')"
  then show "\<exists>e. movements d' = movements d @ [e] \<and> row_for E i e"
    by (cases rule: PostMovementE) (auto simp: row_for_def movement_of_def)
  from run show "same_config d d'"
    by (cases rule: PostMovementE) (simp add: same_config_def)
qed (simp_all add: same_config_def)

text \<open>Writes that leave the ledger, the balances and the layers alone.\<close>

definition same_stock :: "inv_db \<Rightarrow> inv_db \<Rightarrow> bool" where
  "same_stock a b \<longleftrightarrow> movements b = movements a \<and> balances b = balances a \<and> layers b = layers a
     \<and> inv_setting b = inv_setting a"

lemma same_stock_facts:
  assumes "same_stock a b"
  shows "on_hand b = on_hand a" "bal_ok b = bal_ok a" "movements b = movements a"
  using assms by (auto simp: same_stock_def on_hand_def bal_ok_def ledger_net_def pair_rows_def fun_eq_iff)

interpretation qm: quiet_ledger "PostMovement E" input_key input_delta "exact_input E" "2 ^ 44"
  on_hand bal_ok movements "row_for E" same_config same_stock for E
  by unfold_locales (auto dest: same_stock_facts)

lemma same_stock_trans: "same_stock a b \<Longrightarrow> same_stock b c \<Longrightarrow> same_stock a c"
  by (simp add: same_stock_def)

end
