(* ===== verification/Order_Sync_Laws.thy ===== *)
theory Order_Sync_Laws
  imports Order_Sync Posting
begin

text \<open>
  Correctness of the order sync: what an order holds after a sync is exactly what its lines
  require, a second sync finds nothing to do, and the precheck refuses exactly the orders that
  would oversell.
\<close>

declare split_paired_All [simp del] split_paired_Ex [simp del]

section \<open>Running sums in float64\<close>

text \<open>
  The requirement of a pair and the quantity an order holds are accumulated with \<open>+=\<close> in float64,
  without rounding in between. A list of four-digit decimals is summed exactly, up to the final
  rounding, when the number of terms times the size of the sum stays below \<open>2 ^ 42\<close>
  ten-thousandths: a hundred lines of a total of four million units, for instance.
\<close>

definition tally_ok :: "int list \<Rightarrow> bool" where
  "tally_ok ns \<longleftrightarrow> (int (length ns) + 1) * ((\<Sum>n\<leftarrow>ns. \<bar>n\<bar>) + 1) \<le> 2 ^ 42"

lemma abs_sum_list_le: "\<bar>sum_list ns\<bar> \<le> (\<Sum>n\<leftarrow>ns. \<bar>n\<bar> :: int)"
  by (induction ns) auto

lemma sum_list_abs_nonneg: "0 \<le> (\<Sum>n\<leftarrow>ns. \<bar>n\<bar> :: int)"
  by (rule sum_list_nonneg) auto

lemma tally_ok_sub:
  assumes "tally_ok ns" "length ms \<le> length ns" "(\<Sum>n\<leftarrow>ms. \<bar>n\<bar>) \<le> (\<Sum>n\<leftarrow>ns. \<bar>n\<bar>)"
  shows "tally_ok ms"
proof -
  have "(int (length ms) + 1) * ((\<Sum>n\<leftarrow>ms. \<bar>n\<bar>) + 1) \<le> (int (length ns) + 1) * ((\<Sum>n\<leftarrow>ns. \<bar>n\<bar>) + 1)"
    using assms(2,3) sum_list_abs_nonneg[of ms] by (intro mult_mono) auto
  then show ?thesis using assms(1) unfolding tally_ok_def by linarith
qed

lemma tally_ok_filter: "tally_ok (map f xs) \<Longrightarrow> tally_ok (map f (filter P xs))"
proof (erule tally_ok_sub)
  show "length (map f (filter P xs)) \<le> length (map f xs)" by simp
  show "(\<Sum>n\<leftarrow>map f (filter P xs). \<bar>n\<bar>) \<le> (\<Sum>n\<leftarrow>map f xs. \<bar>n\<bar>)"
    by (induction xs) (auto simp: o_def)
qed

lemma tally_ok_sum: "tally_ok ns \<Longrightarrow> (\<Sum>n\<leftarrow>ns. \<bar>n\<bar>) \<le> 2 ^ 42"
proof -
  assume ok: "tally_ok ns"
  have "1 * ((\<Sum>n\<leftarrow>ns. \<bar>n\<bar>) + 1) \<le> (int (length ns) + 1) * ((\<Sum>n\<leftarrow>ns. \<bar>n\<bar>) + 1)"
    using sum_list_abs_nonneg[of ns] by (intro mult_right_mono) auto
  also have "\<dots> \<le> 2 ^ 42" using ok unfolding tally_ok_def .
  finally show ?thesis by simp
qed

text \<open>One step adds at most \<open>2 * (T + 1) / 2 ^ 53\<close> and a negligible term to the error.\<close>

definition step_err :: "int \<Rightarrow> rat" where
  "step_err T = 2 * (of_int T + 1) / 2 ^ 53 + 2 / 2 ^ 100"

lemma step_err_pos: "0 \<le> T \<Longrightarrow> 0 < step_err T"
  unfolding step_err_def by (simp add: add_nonneg_pos)

lemma running_sum:
  assumes "approx a s e" "\<bar>s\<bar> + (\<Sum>n\<leftarrow>ns. \<bar>n\<bar>) \<le> T" "0 \<le> e" "e + of_nat (length ns) * step_err T \<le> 1"
  shows "approx (fold (\<lambda>n acc. fl (acc + dec4 n)) ns a) (s + sum_list ns) (e + of_nat (length ns) * step_err T)"
  using assms
proof (induction ns arbitrary: a s e)
  case Nil
  then show ?case by simp
next
  case (Cons n ns)
  have T: "0 \<le> T" "\<bar>n\<bar> \<le> T" "\<bar>s + n\<bar> \<le> T" using Cons.prems(2) sum_list_abs_nonneg[of ns] by auto
  let ?d = "of_int T / 2 ^ 53 + 1 / 2 ^ 100 :: rat"
  have "approx (dec4 n) n ?d" using of_int_abs_le[OF T(2)] by (rule approx_dec4)
  from approx_add[OF Cons.prems(1) this] have sum: "approx (a + dec4 n) (s + n) (e + ?d)" .
  have pos: "0 < step_err T" using T(1) by (rule step_err_pos)
  have "?d \<le> step_err T" using T(1) unfolding step_err_def by (simp add: field_simps)
  moreover have e1: "e + step_err T \<le> 1"
  proof -
    have "0 \<le> of_nat (length ns) * step_err T" using pos by simp
    then show ?thesis using Cons.prems(4) by (simp add: algebra_simps)
  qed
  ultimately have "\<bar>rat_of_int (s + n)\<bar> + (e + ?d) \<le> of_int T + 1"
    using of_int_abs_le[OF T(3)] by linarith
  from approx_fl[OF sum this] have fl: "approx (fl (a + dec4 n)) (s + n) (e + step_err T)"
    by (rule approx_mono) (simp add: step_err_def field_simps)
  have room: "\<bar>s + n\<bar> + (\<Sum>n\<leftarrow>ns. \<bar>n\<bar>) \<le> T" using Cons.prems(2) by auto
  have e2: "e + step_err T + of_nat (length ns) * step_err T \<le> 1"
    using Cons.prems(4) by (simp add: algebra_simps)
  from Cons.IH[OF fl room _ e2] Cons.prems(3) pos show ?case by (simp add: algebra_simps)
qed

lemma tally_approx:
  assumes "tally_ok ns"
  shows "approx (fold (\<lambda>n acc. fl (acc + dec4 n)) ns 0) (sum_list ns) (1 / 500)"
proof -
  let ?T = "\<Sum>n\<leftarrow>ns. \<bar>n\<bar>" and ?N = "rat_of_nat (length ns)"
  have T: "0 \<le> ?T" by (rule sum_list_abs_nonneg)
  have "rat_of_int ((int (length ns) + 1) * (?T + 1)) \<le> of_int (2 ^ 42)"
    using assms unfolding tally_ok_def by (rule of_int_le_iff[THEN iffD2])
  then have prod: "(?N + 1) * (rat_of_int ?T + 1) \<le> 2 ^ 42" by simp
  have "?N * (rat_of_int ?T + 1) \<le> (?N + 1) * (rat_of_int ?T + 1)" "?N + 1 \<le> (?N + 1) * (rat_of_int ?T + 1)"
    using T by (simp_all add: mult_right_mono algebra_simps)
  with prod have b: "?N * (rat_of_int ?T + 1) \<le> 2 ^ 42" "?N \<le> 2 ^ 42" by linarith+
  have "?N * step_err ?T = 2 * (?N * (rat_of_int ?T + 1)) / 2 ^ 53 + 2 * ?N / 2 ^ 100"
    by (simp add: step_err_def algebra_simps)
  also have "\<dots> \<le> 2 * 2 ^ 42 / 2 ^ 53 + 2 * 2 ^ 42 / 2 ^ 100"
    using b by (intro add_mono divide_right_mono mult_left_mono) auto
  also have "\<dots> \<le> 1 / 500" by simp
  finally have e: "?N * step_err ?T \<le> 1 / 500" .
  have "approx 0 0 0" by (simp add: approx_def)
  from running_sum[OF this, of ns ?T] e have "approx (fold (\<lambda>n acc. fl (acc + dec4 n)) ns 0) (sum_list ns) (?N * step_err ?T)"
    by simp
  then show ?thesis using e by (rule approx_mono)
qed

lemma tally_diff:
  assumes "tally_ok ms" "tally_ok ns"
  shows "round4 (fl (fold (\<lambda>n acc. fl (acc + dec4 n)) ms 0 - fold (\<lambda>n acc. fl (acc + dec4 n)) ns 0))
    = dec4 (sum_list ms - sum_list ns)" "small4 (sum_list ms - sum_list ns)"
    "\<bar>sum_list ms - sum_list ns\<bar> \<le> 2 ^ 43"
proof -
  have b: "\<bar>sum_list ms\<bar> \<le> 2 ^ 42" "\<bar>sum_list ns\<bar> \<le> 2 ^ 42"
    using tally_ok_sum[OF assms(1)] tally_ok_sum[OF assms(2)] abs_sum_list_le[of ms] abs_sum_list_le[of ns] by auto
  then have "small4 (sum_list ms)" "small4 (- sum_list ns)" by (auto simp: small4_def)
  from small4_fl_approx[OF this] approx_diff[OF tally_approx[OF assms(1)] tally_approx[OF assms(2)]]
  have "approx (fl (fold (\<lambda>n acc. fl (acc + dec4 n)) ms 0 - fold (\<lambda>n acc. fl (acc + dec4 n)) ns 0))
      (sum_list ms - sum_list ns) (1 / 100)" "\<bar>sum_list ms - sum_list ns\<bar> \<le> 2 ^ 50"
    by simp_all
  then show "round4 (fl (fold (\<lambda>n acc. fl (acc + dec4 n)) ms 0 - fold (\<lambda>n acc. fl (acc + dec4 n)) ns 0))
    = dec4 (sum_list ms - sum_list ns)"
    by (intro round4_approx) (auto elim: approx_mono)
  show "small4 (sum_list ms - sum_list ns)" "\<bar>sum_list ms - sum_list ns\<bar> \<le> 2 ^ 43"
    using b by (simp_all add: small4_def)
qed

section \<open>Go maps\<close>

lemma mget_update [simp]: "mget z (AList.update k v m) k' = (if k' = k then v else mget z m k')"
  by (simp add: mget_def update_conv map_get_def)

lemma mget_Nil [simp]: "mget z [] k = z"
  by (simp add: mget_def)

lemma mget_unbound: "k \<notin> set (map fst m) \<Longrightarrow> mget z m k = z"
  by (simp add: mget_def map_get_def) (metis map_of_eq_None_iff option.simps(4))

lemma keys_update: "set (map fst (AList.update k v m)) = insert k (set (map fst m))"
  using dom_update[of k v m] by (simp add: dom_map_of_conv_image_fst)

section \<open>What the lines of an order require\<close>

text \<open>
  The requirement of one line, read from the tables: a bundle asks for its components, a tracked
  item for itself, anything else for nothing.
\<close>

definition line_demand :: "tenant_db \<Rightarrow> string \<Rightarrow> OrderStockItem \<Rightarrow> (reqKey \<times> f64) list" where
  "line_demand db defaultWarehouse it =
     (let i = oi_item it; wh = (if trim_space (oi_wh it) = [] then defaultWarehouse else trim_space (oi_wh it)) in
      if i = [] \<or> trim_space i \<noteq> i \<or> oi_qty it \<le> epsilon \<or> wh = [] then []
      else case skus (inv db) i of
          None \<Rightarrow> []
        | Some s \<Rightarrow>
            if sk_bundle s then [((c, wh), round4 (fl (dec4 q * oi_qty it))). (p, c, q) \<leftarrow> bundle_rows db, p = i]
            else if sk_track s then [((i, wh), oi_qty it)] else [])"

definition order_demand :: "tenant_db \<Rightarrow> string \<Rightarrow> OrderStockItem list \<Rightarrow> (reqKey \<times> f64) list" where
  "order_demand db defaultWarehouse items = concat (map (line_demand db defaultWarehouse) items)"

definition meta_of :: "sku_row option \<Rightarrow> skuMeta" where
  "meta_of s = (case s of
       None \<Rightarrow> \<lparr>sm_exists = False, sm_track = False, sm_bundle = False\<rparr>
     | Some s \<Rightarrow> \<lparr>sm_exists = True, sm_track = sk_track s, sm_bundle = sk_bundle s\<rparr>)"

lemma map_of_init_sku:
  "map_of (fold (\<lambda>i m. if map_of m i = None then AList.update i z m else m) ids m0) j
     = (if map_of m0 j = None \<and> j \<in> set ids then Some z else map_of m0 j)"
  by (induction ids arbitrary: m0) (auto simp: update_conv)

lemma map_of_fill_sku:
  "map_of (fold (\<lambda>(i, s). AList.update i (f s)) [(i, s). i \<leftarrow> ids, s \<leftarrow> (case t i of None \<Rightarrow> [] | Some s \<Rightarrow> [s])] m0) j
     = (if j \<in> set ids \<and> t j \<noteq> None then Some (f (the (t j))) else map_of m0 j)"
  by (induction ids arbitrary: m0) (auto simp: update_conv split: option.splits)

lemma mget_bundles:
  "mget [] (fold (\<lambda>(p, c, q) m. AList.update p (mget [] m p @ [f c q]) m) rows m0) j
     = mget [] m0 j @ [f c q. (p, c, q) \<leftarrow> rows, p = j]"
  by (induction rows arbitrary: m0) auto

lemma bundle_rows_filter:
  "(P j) \<Longrightarrow> [f c q. (p, c, q) \<leftarrow> [(p, c, q). (p, c, q) \<leftarrow> rows, P p], p = j] = [f c q. (p, c, q) \<leftarrow> rows, p = j]"
  by (induction rows) auto

text \<open>The preloaded cache answers as the tables do.\<close>

lemma preload_faithful:
  assumes "preload E db ids newSkuBundleCache = Inr c" "j \<in> set (uniqueNonEmpty ids)"
  shows "map_of (sc_sku c) j = Some (meta_of (skus (inv db) j))"
    and "sm_bundle (meta_of (skus (inv db) j)) \<Longrightarrow>
      mget [] (sc_bundles c) j = [\<lparr>bc_child = ch, bc_qty = dec4 q\<rparr>. (p, ch, q) \<leftarrow> bundle_rows db, p = j]"
proof -
  let ?z = "\<lparr>sm_exists = False, sm_track = False, sm_bundle = False\<rparr>"
  let ?ids = "uniqueNonEmpty ids"
  define sku1 where "sku1 = fold (\<lambda>(i, s). AList.update i \<lparr>sm_exists = True, sm_track = sk_track s, sm_bundle = sk_bundle s\<rparr>)
      [(i, s). i \<leftarrow> ?ids, s \<leftarrow> (case skus (inv db) i of None \<Rightarrow> [] | Some s \<Rightarrow> [s])]
      (fold (\<lambda>i m. if map_of m i = None then AList.update i ?z m else m) ?ids [])"
  define parents where "parents = [i. (i, m) \<leftarrow> sku1, sm_exists m \<and> sm_bundle m]"
  have ne: "?ids \<noteq> []" using assms(2) by auto
  have sku1: "map_of sku1 j = Some (meta_of (skus (inv db) j))"
    using assms(2) unfolding sku1_def map_of_fill_sku map_of_init_sku
    by (auto simp: meta_of_def split: option.splits)
  have c: "c = (if parents = [] then newSkuBundleCache\<lparr>sc_sku := sku1\<rparr>
      else \<lparr>sc_sku = sku1, sc_bundles = fold (\<lambda>(p, ch, q) m. AList.update p
              (mget [] m p @ [\<lparr>bc_child = ch, bc_qty = dec4 q\<rparr>]) m)
              [(p, ch, q). (p, ch, q) \<leftarrow> bundle_rows db, p \<in> set parents] []\<rparr>)"
    using assms(1) ne unfolding preload_def sku1_def parents_def
    by (auto simp: Let_def res_simps newSkuBundleCache_def split: if_splits)
  show "map_of (sc_sku c) j = Some (meta_of (skus (inv db) j))" using sku1 by (simp add: c)
  assume b: "sm_bundle (meta_of (skus (inv db) j))"
  then have "sm_exists (meta_of (skus (inv db) j))" by (auto simp: meta_of_def split: option.splits)
  with b map_of_SomeD[OF sku1] have "j \<in> set parents" by (force simp: parents_def)
  then show "mget [] (sc_bundles c) j = [\<lparr>bc_child = ch, bc_qty = dec4 q\<rparr>. (p, ch, q) \<leftarrow> bundle_rows db, p = j]"
    using bundle_rows_filter[of "\<lambda>p. p \<in> set parents" j] by (auto simp: c mget_bundles)
qed

lemma preload_unknown:
  assumes "preload E db ids newSkuBundleCache = Inr c" "j \<notin> set (uniqueNonEmpty ids)"
  shows "map_of (sc_sku c) j = None"
proof (cases "uniqueNonEmpty ids = []")
  case True
  then show ?thesis using assms(1) by (auto simp: preload_def newSkuBundleCache_def)
next
  case False
  let ?z = "\<lparr>sm_exists = False, sm_track = False, sm_bundle = False\<rparr>"
  have "sc_sku c = fold (\<lambda>(i, s). AList.update i \<lparr>sm_exists = True, sm_track = sk_track s, sm_bundle = sk_bundle s\<rparr>)
      [(i, s). i \<leftarrow> uniqueNonEmpty ids, s \<leftarrow> (case skus (inv db) i of None \<Rightarrow> [] | Some s \<Rightarrow> [s])]
      (fold (\<lambda>i m. if map_of m i = None then AList.update i ?z m else m) (uniqueNonEmpty ids) [])"
    using assms(1) False unfolding preload_def by (auto simp: Let_def res_simps newSkuBundleCache_def split: if_splits)
  then show ?thesis using assms(2) by (simp add: map_of_fill_sku map_of_init_sku)
qed

lemma line_requirements_demand:
  assumes "preload E db (collectCatalogIDsFromOrders [items]) newSkuBundleCache = Inr c" "it \<in> set items"
  shows "line_requirements c wh it = line_demand db wh it"
proof -
  let ?i = "oi_item it"
  let ?ids = "uniqueNonEmpty (collectCatalogIDsFromOrders [items])"
  have keys: "set ?ids = {trim_space (oi_item it) | it. it \<in> set items \<and> trim_space (oi_item it) \<noteq> []}"
    by (auto simp: uniqueNonEmpty_def collectCatalogIDsFromOrders_def)
  consider "trim_space ?i = []" | "trim_space ?i \<noteq> []" "trim_space ?i \<noteq> ?i" | "trim_space ?i = ?i" "?i \<noteq> []"
    by fastforce
  then show ?thesis
  proof cases
    case 1
    then show ?thesis by (auto simp: line_requirements_def line_demand_def Let_def)
  next
    case 2
    have "?i \<notin> set ?ids" using 2 trim_space_idem unfolding keys by force
    from preload_unknown[OF assms(1) this] 2 show ?thesis
      by (simp add: line_requirements_def line_demand_def Let_def)
  next
    case 3
    then have "?i \<in> set ?ids" using assms(2) unfolding keys by force
    note f = preload_faithful[OF assms(1) this]
    show ?thesis
    proof (cases "skus (inv db) ?i")
      case None
      then show ?thesis using 3 f(1) by (simp add: line_requirements_def line_demand_def Let_def meta_of_def)
    next
      case (Some s)
      then show ?thesis using 3 f
        by (auto simp: line_requirements_def line_demand_def Let_def meta_of_def map_concat o_def
            intro!: arg_cong[of _ _ concat] split: if_splits)
    qed
  qed
qed

text \<open>The requirement of a pair, as a running sum of its entries.\<close>

lemma mget_requirements:
  "mget 0 (fold (\<lambda>(k, x). add_req k x) es m) k
     = fold (\<lambda>x acc. fl (acc + x)) (map snd (filter (\<lambda>e. fst e = k) es)) (mget 0 m k)"
  by (induction es arbitrary: m) (auto simp: add_req_def)

definition key_total :: "(reqKey \<times> f64) list \<Rightarrow> reqKey \<Rightarrow> int" where
  "key_total es k = (\<Sum>e\<leftarrow>filter (\<lambda>e. fst e = k) es. qty4 (snd e))"

definition entries_ok :: "(reqKey \<times> f64) list \<Rightarrow> bool" where
  "entries_ok es \<longleftrightarrow> (\<forall>e\<in>set es. snd e = dec4 (qty4 (snd e))) \<and> tally_ok (map (\<lambda>e. qty4 (snd e)) es)"

lemma resolve_requirements:
  assumes "resolveOrderRequirements E db items wh = Inr req" "entries_ok (order_demand db wh items)"
  shows "mget 0 req k = fold (\<lambda>n acc. fl (acc + dec4 n))
      (map (\<lambda>e. qty4 (snd e)) (filter (\<lambda>e. fst e = k) (order_demand db wh items))) 0"
proof -
  from assms(1) obtain c where c: "preload E db (collectCatalogIDsFromOrders [items]) newSkuBundleCache = Inr c"
      "req = resolveOrderRequirementsWithCache c items wh"
    by (auto simp: resolveOrderRequirements_def res_simps)
  have "map (line_requirements c wh) items = map (line_demand db wh) items"
    using line_requirements_demand[OF c(1)] by simp
  then have "mget 0 req k = fold (\<lambda>x acc. fl (acc + x)) (map snd (filter (\<lambda>e. fst e = k) (order_demand db wh items))) 0"
    unfolding c(2) resolveOrderRequirementsWithCache_def mget_requirements order_demand_def
    by (simp only: mget_Nil)
  also have "map snd (filter (\<lambda>e. fst e = k) (order_demand db wh items))
      = map (\<lambda>e. dec4 (qty4 (snd e))) (filter (\<lambda>e. fst e = k) (order_demand db wh items))"
    using assms(2) by (auto simp: entries_ok_def)
  finally show ?thesis by (simp add: fold_map o_def)
qed

section \<open>What an order holds\<close>

definition sale_qty :: "movement_row \<Rightarrow> int" where
  "sale_qty r = (if mv_type r = MovementSaleIssue then mv_qty r else - mv_qty r)"

definition order_rows_of :: "inv_db \<Rightarrow> string \<Rightarrow> movement_row list" where
  "order_rows_of db orderID = [r \<leftarrow> movements db. sale_row orderID r]"

definition order_held :: "inv_db \<Rightarrow> string \<Rightarrow> reqKey \<Rightarrow> int" where
  "order_held db orderID k = (\<Sum>r\<leftarrow>filter (\<lambda>r. (mv_item r, mv_wh r) = k) (order_rows_of db orderID). sale_qty r)"

lemma mget_net:
  "ne_qty (mget zero_net (fold add_net rows m) k)
     = fold (\<lambda>n acc. fl (acc + dec4 n)) (map sale_qty (filter (\<lambda>r. (mv_item r, mv_wh r) = k) rows))
         (ne_qty (mget zero_net m k))"
  by (induction rows arbitrary: m) (auto simp: add_net_def Let_def sale_qty_def dec4_uminus)

lemma orderNetIssued_held:
  assumes "orderNetIssued E db orderID = Inr net" "trim_space orderID \<noteq> []"
  shows "ne_qty (mget zero_net net k) = fold (\<lambda>n acc. fl (acc + dec4 n))
      (map sale_qty (filter (\<lambda>r. (mv_item r, mv_wh r) = k) (order_rows_of (inv db) orderID))) 0"
proof -
  have "net = fold add_net (order_rows_of (inv db) orderID) []"
    using assms by (auto simp: orderNetIssued_def res_simps order_rows_of_def)
  then show ?thesis by (simp only: mget_net mget_Nil) (simp add: zero_net_def)
qed

section \<open>The reconciliation loop\<close>

text \<open>What the loop posts for a pair whose difference is \<open>d\<close> ten-thousandths.\<close>

definition sync_input :: "env \<Rightarrow> string \<Rightarrow> MovementInput \<Rightarrow> bool" where
  "sync_input E orderID i \<longleftrightarrow> exact_input E i \<and> mi_reftype i = ''order'' \<and> mi_refid i = orderID
     \<and> (mi_dir i = dirOut \<and> mi_type i = MovementSaleIssue \<or> mi_dir i = dirIn \<and> mi_type i = MovementSaleCancelRestore)"

definition sync_posts :: "env \<Rightarrow> string \<Rightarrow> reqKey \<Rightarrow> int \<Rightarrow> MovementInput list \<Rightarrow> bool" where
  "sync_posts E orderID k d js \<longleftrightarrow> (if d = 0 then js = []
     else \<exists>i. js = [i] \<and> sync_input E orderID i \<and> input_key i = k \<and> input_delta i = - d)"

lemma dec4_less_neg: "small4 n \<Longrightarrow> dec4 n < - epsilon \<longleftrightarrow> n < 0"
proof -
  assume "small4 n"
  then have "dec4 (- n) \<le> epsilon \<longleftrightarrow> 0 \<le> n" using dec4_le_epsilon[of "- n"] by simp
  then show ?thesis by (auto simp: dec4_uminus)
qed

lemma sync_posts_issue:
  "numeric_ok E \<Longrightarrow> small4 d \<Longrightarrow> 0 < d \<Longrightarrow> sync_posts E orderID k d [issue_input orderID by cc k (dec4 d)]"
  by (auto simp: sync_posts_def issue_input_def no_input_def sync_input_def exact_input_def
      input_key_def input_delta_def move_sign_def direction_names)

lemma sync_posts_restore:
  "numeric_ok E \<Longrightarrow> small4 d \<Longrightarrow> d < 0 \<Longrightarrow> sync_posts E orderID k d [restore_input orderID by cc k (dec4 (- d)) unit]"
  by (auto simp: sync_posts_def restore_input_def no_input_def sync_input_def exact_input_def
      input_key_def input_delta_def move_sign_def direction_names)

lemma sync_key_posts:
  assumes run: "sync_key E orderID by req net k db = Inr db'" and E: "numeric_ok E"
    and d: "round4 (fl (mget 0 req k - ne_qty (mget zero_net net k))) = dec4 d" "small4 d"
  shows "\<exists>js. posted (PostMovement E) db js db' \<and> sync_posts E orderID k d js"
proof -
  have sgn: "dec4 d > epsilon \<longleftrightarrow> d > 0" "dec4 d < - epsilon \<longleftrightarrow> d < 0"
    using dec4_le_epsilon[OF d(2)] dec4_less_neg[OF d(2)] by auto
  consider "d = 0" | "d > 0" | "d < 0" by linarith
  then show ?thesis
  proof cases
    case 1
    then have "db' = db" using run sgn by (simp add: sync_key_def Let_def d(1))
    then show ?thesis using 1 by (auto simp: sync_posts_def intro: posted_Nil)
  next
    case 2
    then obtain cc res where "PostMovement E (issue_input orderID by cc k (dec4 d)) db = Inr (res, db')"
      using run sgn by (auto simp: sync_key_def Let_def d(1) res_simps)
    from posted_one[of "PostMovement E", OF this] show ?thesis
      using sync_posts_issue[OF E d(2) 2] by blast
  next
    case 3
    have abs: "round4 (- dec4 d) = dec4 (- d)" using d(2) by (simp flip: dec4_uminus)
    from 3 obtain cc unit res where "PostMovement E (restore_input orderID by cc k (dec4 (- d)) unit) db = Inr (res, db')"
      using run sgn by (auto simp: sync_key_def Let_def d(1) abs res_simps)
    from posted_one[of "PostMovement E", OF this] show ?thesis
      using sync_posts_restore[OF E d(2) 3] by blast
  qed
qed

lemma sync_posts_moved:
  assumes "list_all2 (\<lambda>k js. sync_posts E orderID k (d k) js) ks jss" "distinct ks"
  shows "pm.moved (concat jss) k = (if k \<in> set ks then - d k else 0)"
    and "pm.turnover (concat jss) k = (if k \<in> set ks then \<bar>d k\<bar> else 0)"
    and "\<forall>i\<in>set (concat jss). sync_input E orderID i"
  using assms
  by (induction ks jss rule: list_all2_induct)
    (auto simp: pm.moved_def pm.turnover_def sync_posts_def split: if_splits)

text \<open>Every posting of the loop is a row of the order.\<close>

lemma row_for_order:
  assumes "row_for E i r" "sync_input E orderID i" "trim_space orderID \<noteq> []"
  shows "sale_row orderID r" "sale_qty r = - input_delta i" "(mv_item r, mv_wh r) = input_key i"
proof -
  have o: "nullStr ''order'' = Some ''order''" by code_simp
  have q: "db_numeric E (mi_qty i) = qty4 (mi_qty i)"
    using assms(2) by (auto simp: sync_input_def exact_input_def numeric_ok_def)
  show "sale_row orderID r" "(mv_item r, mv_wh r) = input_key i"
    using assms o by (auto simp: row_for_def sync_input_def sale_row_def has_ref_def nullUUID_def input_key_def)
  show "sale_qty r = - input_delta i"
    using assms q by (auto simp: row_for_def sync_input_def sale_qty_def input_delta_def move_sign_def
        direction_names movement_types)
qed

lemma rows_moved:
  assumes "list_all2 (row_for E) js es" "\<forall>i\<in>set js. sync_input E orderID i" "trim_space orderID \<noteq> []"
  shows "(\<Sum>r\<leftarrow>filter (\<lambda>r. (mv_item r, mv_wh r) = k) (filter (sale_row orderID) es). sale_qty r) = - pm.moved js k"
  using assms
proof (induction js es rule: list_all2_induct)
  case Nil
  then show ?case by (simp add: pm.moved_def)
next
  case (Cons i js r es)
  then show ?case using row_for_order[OF Cons.hyps(1), of orderID] by (auto simp: pm.moved_def)
qed

lemma rows_size:
  assumes "list_all2 (row_for E) js es" "\<forall>i\<in>set js. sync_input E orderID i" "trim_space orderID \<noteq> []"
  shows "filter (sale_row orderID) es = es" "map (\<lambda>r. \<bar>sale_qty r\<bar>) es = map (\<lambda>i. \<bar>input_delta i\<bar>) js"
  using assms
proof (induction js es rule: list_all2_induct)
  case (Cons i js r es)
  {
    case 1
    then show ?case using Cons row_for_order[OF Cons.hyps(1), of orderID] by auto
  next
    case 2
    then show ?case using Cons row_for_order[OF Cons.hyps(1), of orderID] by auto
  }
qed simp_all

lemma sync_posts_size:
  "list_all2 (\<lambda>k js. sync_posts E orderID k (d k) js) ks jss \<Longrightarrow>
     length (concat jss) \<le> length ks \<and> (\<Sum>i\<leftarrow>concat jss. \<bar>input_delta i\<bar>) = (\<Sum>k\<leftarrow>ks. \<bar>d k\<bar>)"
  by (induction ks jss rule: list_all2_induct) (auto simp: sync_posts_def split: if_splits)

lemma tally_ok_append:
  assumes "length es \<le> m" "(\<Sum>r\<leftarrow>es. \<bar>f r\<bar>) \<le> t"
    and "(int (length rs + m) + 1) * ((\<Sum>r\<leftarrow>rs. \<bar>f r\<bar>) + t + 1) \<le> 2 ^ 42"
  shows "tally_ok (map f (rs @ es))"
proof -
  have nonneg: "0 \<le> (\<Sum>r\<leftarrow>xs. \<bar>f r\<bar>)" for xs by (rule sum_list_nonneg) auto
  have "(int (length rs + length es) + 1) * ((\<Sum>r\<leftarrow>rs. \<bar>f r\<bar>) + (\<Sum>r\<leftarrow>es. \<bar>f r\<bar>) + 1)
      \<le> (int (length rs + m) + 1) * ((\<Sum>r\<leftarrow>rs. \<bar>f r\<bar>) + t + 1)"
    using assms(1,2) nonneg[of rs] nonneg[of es] by (intro mult_mono) auto
  also note assms(3)
  finally show ?thesis by (simp add: tally_ok_def o_def)
qed

text \<open>The effect of the loop.\<close>

lemma sync_loop:
  assumes run: "efold (sync_key E orderID by req net) ks db = Inr db'" "distinct ks"
    and E: "numeric_ok E" and o: "trim_space orderID \<noteq> []"
    and d: "\<And>k. round4 (fl (mget 0 req k - ne_qty (mget zero_net net k))) = dec4 (d k)" "\<And>k. small4 (d k)"
    and room: "\<And>k. \<bar>on_hand db k\<bar> + \<bar>d k\<bar> \<le> 2 ^ 44"
  shows "order_held db' orderID k = order_held db orderID k + (if k \<in> set ks then d k else 0)"
    and "on_hand db' k = on_hand db k - (if k \<in> set ks then d k else 0)"
    and "bal_ok db \<Longrightarrow> bal_ok db'" and "same_config db db'"
    and "\<exists>es. order_rows_of db' orderID = order_rows_of db orderID @ es \<and> length es \<le> length ks
      \<and> (\<Sum>r\<leftarrow>es. \<bar>sale_qty r\<bar>) = (\<Sum>k\<leftarrow>ks. \<bar>d k\<bar>)"
proof -
  obtain jss where js: "posted (PostMovement E) db (concat jss) db'"
      "list_all2 (\<lambda>k js. sync_posts E orderID k (d k) js) ks jss"
    using posted_efold[OF run(1), of "PostMovement E" "\<lambda>k js. sync_posts E orderID k (d k) js"]
      sync_key_posts[OF _ E d(1) d(2)] by metis
  note m = sync_posts_moved[OF js(2) run(2)]
  have ex: "\<forall>i\<in>set (concat jss). exact_input E i" using m(3) by (auto simp: sync_input_def)
  have "\<bar>on_hand db k\<bar> + pm.turnover (concat jss) k \<le> 2 ^ 44" for k
    using room[of k] m(2)[of k] by (auto split: if_splits)
  note stock = pm.posted_stock[OF js(1) ex this]
  show "on_hand db' k = on_hand db k - (if k \<in> set ks then d k else 0)" "bal_ok db \<Longrightarrow> bal_ok db'"
    using stock m(1) by auto
  from pm.posted_log[OF js(1)] obtain es where es: "movements db' = movements db @ es"
      "list_all2 (row_for E) (concat jss) es" "same_config db db'" by blast
  show "same_config db db'" by (rule es(3))
  note sz = rows_size[OF es(2) m(3) o]
  have "length es = length (concat jss)" using es(2) by (simp add: list_all2_lengthD)
  then show "\<exists>es. order_rows_of db' orderID = order_rows_of db orderID @ es \<and> length es \<le> length ks
      \<and> (\<Sum>r\<leftarrow>es. \<bar>sale_qty r\<bar>) = (\<Sum>k\<leftarrow>ks. \<bar>d k\<bar>)"
    using sync_posts_size[OF js(2)] sz by (intro exI[of _ es]) (simp add: order_rows_of_def es(1))
  show "order_held db' orderID k = order_held db orderID k + (if k \<in> set ks then d k else 0)"
    using rows_moved[OF es(2) m(3) o, of k] m(1)[of k]
    by (simp add: order_held_def order_rows_of_def es(1) del: filter_filter)
qed

text \<open>An order in which Go may range over a map: the keys, each once.\<close>

definition ranges :: "(reqKey list \<Rightarrow> reqKey list) \<Rightarrow> bool" where
  "ranges ord \<longleftrightarrow> (\<forall>ks. distinct ks \<longrightarrow> distinct (ord ks) \<and> set (ord ks) = set ks)"

definition default_warehouse :: "tenant_db \<Rightarrow> string" where
  "default_warehouse db = (case find (\<lambda>w. wr_default w \<and> \<not> wr_deleted w) (inv_warehouse db) of
     None \<Rightarrow> [] | Some w \<Rightarrow> wr_id w)"

lemma defaultWarehouseID_eq: "defaultWarehouseID E db = Inr w \<Longrightarrow> w = default_warehouse db"
  by (auto simp: defaultWarehouseID_def default_warehouse_def res_simps split: option.splits)

text \<open>What an order in a status must hold.\<close>

definition status_demand :: "tenant_db \<Rightarrow> string \<Rightarrow> OrderStockItem list \<Rightarrow> (reqKey \<times> f64) list" where
  "status_demand db status items =
     (if IsCommittedOrderStatus status then order_demand db (default_warehouse db) items else [])"

definition sync_exact :: "tenant_db \<Rightarrow> string \<Rightarrow> string \<Rightarrow> OrderStockItem list \<Rightarrow> bool" where
  "sync_exact db orderID status items \<longleftrightarrow> entries_ok (status_demand db status items)
     \<and> tally_ok (map sale_qty (order_rows_of (inv db) orderID))"

definition sync_delta :: "tenant_db \<Rightarrow> string \<Rightarrow> string \<Rightarrow> OrderStockItem list \<Rightarrow> reqKey \<Rightarrow> int" where
  "sync_delta db orderID status items k = key_total (status_demand db status items) k - order_held (inv db) orderID k"

lemma float_delta:
  assumes "(if IsCommittedOrderStatus status then resolveOrderRequirements E db items (default_warehouse db) else Inr []) = Inr req"
    "orderNetIssued E db orderID = Inr net" "trim_space orderID \<noteq> []" "sync_exact db orderID status items"
  shows "round4 (fl (mget 0 req k - ne_qty (mget zero_net net k))) = dec4 (sync_delta db orderID status items k)"
    and "\<bar>sync_delta db orderID status items k\<bar> \<le> 2 ^ 43"
    and "k \<notin> set (sync_keys req net) \<Longrightarrow> sync_delta db orderID status items k = 0"
proof -
  let ?ms = "map (\<lambda>e. qty4 (snd e)) (filter (\<lambda>e. fst e = k) (status_demand db status items))"
  let ?ns = "map sale_qty (filter (\<lambda>r. (mv_item r, mv_wh r) = k) (order_rows_of (inv db) orderID))"
  have ok: "tally_ok ?ms" "tally_ok ?ns"
    using assms(4) tally_ok_filter by (auto simp: sync_exact_def entries_ok_def simp del: filter_filter)
  have sd: "sync_delta db orderID status items k = sum_list ?ms - sum_list ?ns"
    by (simp add: sync_delta_def key_total_def order_held_def)
  have "mget 0 req k = fold (\<lambda>n acc. fl (acc + dec4 n)) ?ms 0"
    using assms(1,4) resolve_requirements[of E db items "default_warehouse db" req k]
    by (auto simp: status_demand_def sync_exact_def split: if_splits)
  moreover have "ne_qty (mget zero_net net k) = fold (\<lambda>n acc. fl (acc + dec4 n)) ?ns 0"
    by (rule orderNetIssued_held[OF assms(2,3)])
  ultimately show eq: "round4 (fl (mget 0 req k - ne_qty (mget zero_net net k))) = dec4 (sync_delta db orderID status items k)"
    using tally_diff[OF ok] sd by simp
  show "\<bar>sync_delta db orderID status items k\<bar> \<le> 2 ^ 43"
    unfolding sd by (rule tally_diff(3)[OF ok])
  assume "k \<notin> set (sync_keys req net)"
  then have "mget 0 req k = 0" "ne_qty (mget zero_net net k) = 0"
    by (simp_all add: sync_keys_def mget_unbound zero_net_def)
  then have "dec4 (sync_delta db orderID status items k) = dec4 0"
    using eq round4_dec4[of 0] by (simp add: small4_def)
  then show "sync_delta db orderID status items k = 0"
    using dec4_inject[of "sync_delta db orderID status items k" 0] tally_diff(2)[OF ok] sd by (simp add: small4_def)
qed

lemma marker_frame:
  "setStockAppliedMarker E orderID a db = Inr db' \<Longrightarrow>
     inv db' = inv db \<and> fin db' = fin db \<and> inv_warehouse db' = inv_warehouse db \<and> bundle_rows db' = bundle_rows db"
  by (auto simp: setStockAppliedMarker_def res_simps split: if_splits)

lemma sync_tx_effect:
  assumes run: "sync_tx E ord orderID status items by (default_warehouse db) db = Inr db'"
    and "trim_space orderID \<noteq> []" "numeric_ok E" "ranges ord" and ex: "sync_exact db orderID status items"
    and oh: "\<forall>k. \<bar>on_hand (inv db) k\<bar> \<le> 2 ^ 43"
  shows "order_held (inv db') orderID k = key_total (status_demand db status items) k"
    and "on_hand (inv db') k = on_hand (inv db) k - sync_delta db orderID status items k"
    and "bal_ok (inv db) \<Longrightarrow> bal_ok (inv db')" and "same_config (inv db) (inv db')"
    and "inv_warehouse db' = inv_warehouse db" "bundle_rows db' = bundle_rows db"
    and "\<exists>req net es. (if IsCommittedOrderStatus status then resolveOrderRequirements E db items (default_warehouse db)
        else Inr []) = Inr req \<and> orderNetIssued E db orderID = Inr net
      \<and> order_rows_of (inv db') orderID = order_rows_of (inv db) orderID @ es
      \<and> length es \<le> length (ord (sync_keys req net))
      \<and> (\<Sum>r\<leftarrow>es. \<bar>sale_qty r\<bar>) = (\<Sum>k\<leftarrow>ord (sync_keys req net). \<bar>sync_delta db orderID status items k\<bar>)"
proof -
  from run obtain req net idb where r:
      "(if IsCommittedOrderStatus status then resolveOrderRequirements E db items (default_warehouse db) else Inr []) = Inr req"
      "orderNetIssued E db orderID = Inr net"
      "efold (sync_key E orderID by req net) (ord (sync_keys req net)) (inv db) = Inr idb"
      "setStockAppliedMarker E orderID (IsCommittedOrderStatus status) (db\<lparr>inv := idb\<rparr>) = Inr db'"
    unfolding sync_tx_def ebind_eq_Inr by (auto simp: res_simps)
  note d = float_delta[OF r(1,2) assms(2) ex]
  have "small4 (sync_delta db orderID status items k)" for k using d(2)[of k] by (simp add: small4_def)
  moreover have "\<bar>on_hand (inv db) k\<bar> + \<bar>sync_delta db orderID status items k\<bar> \<le> 2 ^ 44" for k
    using d(2)[of k] oh[rule_format, of k] by simp
  moreover have keys: "distinct (ord (sync_keys req net))" "set (ord (sync_keys req net)) = set (sync_keys req net)"
    using assms(4) by (simp_all add: ranges_def sync_keys_def)
  ultimately have l: "order_held idb orderID k = order_held (inv db) orderID k
        + (if k \<in> set (sync_keys req net) then sync_delta db orderID status items k else 0)"
      "on_hand idb k = on_hand (inv db) k - (if k \<in> set (sync_keys req net) then sync_delta db orderID status items k else 0)"
      "bal_ok (inv db) \<Longrightarrow> bal_ok idb" "same_config (inv db) idb"
      "\<exists>es. order_rows_of idb orderID = order_rows_of (inv db) orderID @ es \<and> length es \<le> length (ord (sync_keys req net))
        \<and> (\<Sum>r\<leftarrow>es. \<bar>sale_qty r\<bar>) = (\<Sum>k\<leftarrow>ord (sync_keys req net). \<bar>sync_delta db orderID status items k\<bar>)" for k
    using sync_loop[OF r(3) keys(1) assms(3,2) d(1)] by simp_all
  have inv': "inv db' = idb" "inv_warehouse db' = inv_warehouse db" "bundle_rows db' = bundle_rows db"
    using marker_frame[OF r(4)] by simp_all
  show "order_held (inv db') orderID k = key_total (status_demand db status items) k"
    using l(1)[of k] d(3)[of k] unfolding inv' sync_delta_def by (auto split: if_splits)
  show "on_hand (inv db') k = on_hand (inv db) k - sync_delta db orderID status items k"
    using l(2)[of k] d(3)[of k] unfolding inv' by (auto split: if_splits)
  show "bal_ok (inv db) \<Longrightarrow> bal_ok (inv db')" "same_config (inv db) (inv db')"
      "inv_warehouse db' = inv_warehouse db" "bundle_rows db' = bundle_rows db"
    using l(3,4) inv' by simp_all
  show "\<exists>req net es. (if IsCommittedOrderStatus status then resolveOrderRequirements E db items (default_warehouse db)
        else Inr []) = Inr req \<and> orderNetIssued E db orderID = Inr net
      \<and> order_rows_of (inv db') orderID = order_rows_of (inv db) orderID @ es
      \<and> length es \<le> length (ord (sync_keys req net))
      \<and> (\<Sum>r\<leftarrow>es. \<bar>sale_qty r\<bar>) = (\<Sum>k\<leftarrow>ord (sync_keys req net). \<bar>sync_delta db orderID status items k\<bar>)"
    using r(1,2) l(5) inv' by blast
qed

lemma cogs_frame:
  assumes "resyncOrderCOGS E np today orderID pe by db = (e, db')"
  shows "inv db' = inv db" "inv_warehouse db' = inv_warehouse db" "bundle_rows db' = bundle_rows db"
proof -
  obtain e1 fd where "RemoveInventoryEntry E (cogsRefPrefix @ orderID) (fin db) = (e1, fd)"
    by (cases "RemoveInventoryEntry E (cogsRefPrefix @ orderID) (fin db)")
  then show "inv db' = inv db" "inv_warehouse db' = inv_warehouse db" "bundle_rows db' = bundle_rows db"
    using assms by (cases e1; auto simp: resyncOrderCOGS_def Let_def try_out_eq split: if_splits)+
qed

text \<open>
  The run of a sync on a tenant whose setup is done: the transaction commits, and the cost of goods
  sold is rewritten after it; or nothing is stored.
\<close>

lemma SyncOrderStock_cases:
  assumes "SyncOrderStock E np today ord orderID status items by db = (e, db')"
    "trim_space orderID \<noteq> []" "inv_setting (inv db) = Some st" "st_setup st"
  obtains (refused) err where "e = Some err" "db' = db"
  | (committed) db1 where "sync_tx E ord orderID status items by (default_warehouse db) db = Inr db1"
      "resyncOrderCOGS E np today orderID (st_expense st) by db1 = (e, db')"
  using assms
  by (auto simp: SyncOrderStock_def try_out_eq loadSyncSetting_def res_simps dest!: defaultWarehouseID_eq)

section \<open>Properties of the sync\<close>

text \<open>
  C1: After a sync, an order holds exactly what its status and lines ask for: every pair of item and
  warehouse has as much stock issued to the order as its lines require when the status is
  committed, and none otherwise. The stock on hand moved by exactly the difference, and balances
  and ledger still agree. The order in which Go ranges over its maps does not matter, and the
  float64 running sums lose nothing.
\<close>

theorem SyncOrderStock_reconciles:
  assumes "SyncOrderStock E np today ord orderID status items by db = (None, db')"
    and "trim_space orderID \<noteq> []" "inv_setting (inv db) = Some st" "st_setup st"
    and "numeric_ok E" "ranges ord" "sync_exact db orderID status items"
    and "\<forall>k. \<bar>on_hand (inv db) k\<bar> \<le> 2 ^ 43" "bal_ok (inv db)"
  shows "bal_ok (inv db') \<and> (\<forall>k. order_held (inv db') orderID k = key_total (status_demand db status items) k
    \<and> on_hand (inv db') k = on_hand (inv db) k
        - (key_total (status_demand db status items) k - order_held (inv db) orderID k))"
  using assms(1-4)
proof (cases rule: SyncOrderStock_cases)
  case refused
  then show ?thesis by simp
next
  case (committed db1)
  note e = sync_tx_effect[OF committed(1) assms(2,5,6,7,8)]
  have "inv db' = inv db1" by (rule cogs_frame[OF committed(2)])
  then show ?thesis using e(1,2) e(3)[OF assms(9)] by (simp add: sync_delta_def)
qed

lemma sync_key_idle:
  "round4 (fl (mget 0 req k - ne_qty (mget zero_net net k))) = dec4 0 \<Longrightarrow> sync_key E orderID by req net k db = Inr db"
  using epsilon_bounds by (simp add: sync_key_def Let_def)

lemma efold_idle: "(\<And>x. x \<in> set xs \<Longrightarrow> f x s = Inr s) \<Longrightarrow> efold f xs s = Inr s"
  by (induction xs) auto

lemma status_demand_cong:
  assumes "same_config (inv db) (inv db')" "inv_warehouse db' = inv_warehouse db" "bundle_rows db' = bundle_rows db"
  shows "status_demand db' status items = status_demand db status items" "default_warehouse db' = default_warehouse db"
proof -
  have "skus (inv db') = skus (inv db)" using assms(1) by (simp add: same_config_def)
  then have "line_demand db' wh it = line_demand db wh it" for wh it
    by (simp only: line_demand_def assms(3))
  then have "line_demand db' = line_demand db" by blast
  then show "status_demand db' status items = status_demand db status items" "default_warehouse db' = default_warehouse db"
    using assms(2) by (simp_all add: status_demand_def order_demand_def default_warehouse_def)
qed

text \<open>When the order holds what it must, a sync leaves the stock alone, whatever comes of it.\<close>

lemma sync_idle:
  assumes "\<forall>k. sync_delta db orderID status items k = 0" "sync_exact db orderID status items"
    and "trim_space orderID \<noteq> []"
  shows "sync_tx E ord orderID status items by (default_warehouse db) db = Inr db' \<Longrightarrow> inv db' = inv db"
    and "orderNeedsStockSync E ord orderID status items (default_warehouse db) db = Inr b \<Longrightarrow> \<not> b"
proof -
  have zero: "round4 (fl (mget 0 req k - ne_qty (mget zero_net net k))) = dec4 0"
    if "(if IsCommittedOrderStatus status then resolveOrderRequirements E db items (default_warehouse db) else Inr []) = Inr req"
      "orderNetIssued E db orderID = Inr net" for req net k
    using float_delta(1)[OF that assms(3,2)] assms(1) by simp
  have eps: "0 < epsilon" using epsilon_bounds(2) by auto
  show "inv db' = inv db" if run: "sync_tx E ord orderID status items by (default_warehouse db) db = Inr db'"
  proof -
    from run obtain req net idb where r:
      "(if IsCommittedOrderStatus status then resolveOrderRequirements E db items (default_warehouse db) else Inr []) = Inr req"
      "orderNetIssued E db orderID = Inr net"
      "efold (sync_key E orderID by req net) (ord (sync_keys req net)) (inv db) = Inr idb"
      "setStockAppliedMarker E orderID (IsCommittedOrderStatus status) (db\<lparr>inv := idb\<rparr>) = Inr db'"
      unfolding sync_tx_def ebind_eq_Inr by (auto simp: res_simps)
    have "efold (sync_key E orderID by req net) (ord (sync_keys req net)) (inv db) = Inr (inv db)"
      by (rule efold_idle) (rule sync_key_idle[OF zero[OF r(1,2)]])
    then show ?thesis using r(3) marker_frame[OF r(4)] by simp
  qed
  show "\<not> b" if "orderNeedsStockSync E ord orderID status items (default_warehouse db) db = Inr b"
    using that zero eps unfolding orderNeedsStockSync_def ebind_eq_Inr orderStockSyncDelta_def
    by (auto simp: Let_def list_ex_iff)
qed

text \<open>
  C2: The sync is idempotent. Once it has run, the delta test of the backfill finds nothing to do,
  and another sync of the same order with the same status and lines, in whatever environment,
  iteration order and with whatever outcome, leaves every stock table as it is.
\<close>

theorem SyncOrderStock_idempotent:
  assumes "SyncOrderStock E np today ord orderID status items by db = (None, db')"
    and "trim_space orderID \<noteq> []" "inv_setting (inv db) = Some st" "st_setup st"
    and "numeric_ok E" "ranges ord" "sync_exact db orderID status items" "sync_exact db' orderID status items"
    and "\<forall>k. \<bar>on_hand (inv db) k\<bar> \<le> 2 ^ 43"
    and "SyncOrderStock E' np' today' ord' orderID status items by' db' = (e, db'')"
    and "orderNeedsStockSync E' ord' orderID status items (default_warehouse db) db' = Inr b"
  shows "inv db'' = inv db' \<and> \<not> b"
  using assms(1-4)
proof (cases rule: SyncOrderStock_cases)
  case refused
  then show ?thesis by simp
next
  case (committed db1)
  note f = sync_tx_effect[OF committed(1) assms(2,5,6,7,9)]
  note c = cogs_frame[OF committed(2)]
  have same: "same_config (inv db) (inv db')" "status_demand db' status items = status_demand db status items"
      "default_warehouse db' = default_warehouse db"
    using f(4-6) c status_demand_cong[of db db'] by auto
  have "\<forall>k. sync_delta db' orderID status items k = 0"
    using f(1) c same(2) by (simp add: sync_delta_def)
  note idle = sync_idle[OF this assms(8,2)]
  have st: "inv_setting (inv db') = Some st" using same(1) assms(3) by (simp add: same_config_def)
  from assms(10,2) st assms(4) have "inv db'' = inv db'"
  proof (cases rule: SyncOrderStock_cases)
    case (committed d)
    then show ?thesis using idle(1)[OF committed(1)] cogs_frame(1)[OF committed(2)] by simp
  qed simp
  moreover have "\<not> b" using assms(11) idle(2) unfolding same(3) by blast
  ultimately show ?thesis ..
qed

lemma remove_entry_txns:
  assumes "RemoveInventoryEntry E ref fd = (None, fd')" "trim_space ref = ref" "ref \<noteq> []"
  shows "txns fd' = [t \<leftarrow> txns fd. ft_ref t \<noteq> Some ref]"
proof -
  have "remove_chunks E [ref] fd = (None, fd')"
    using assms by (auto simp: RemoveInventoryEntry_def RemoveInventoryEntries_def uniqueReferenceNos_def
        dedup_def Let_def res_simps)
  from remove_chunks_txns[OF this] show ?thesis by simp
qed

lemma record_entry_txns:
  assumes "RecordInventoryEntry E np td cb ref flow cat desc amount pw fd = Inr fd'" "0 < amount"
    and "trim_space ref = ref" "ref \<noteq> []" "\<forall>t\<in>set (txns fd). ft_ref t \<noteq> Some ref"
  shows "\<exists>t. txns fd' = txns fd @ [t] \<and> ft_ref t = Some ref \<and> ft_type t = trim_space flow
    \<and> ft_amount t = db_money E amount"
proof -
  have no: "\<not> list_ex (\<lambda>t. ft_ref t = Some ref \<and> ft_type t = trim_space flow \<and> \<not> ft_deleted t) (txns fd)"
    using assms(5) by (auto simp: list_ex_iff)
  then obtain w c b where "fd' = refreshWallets E w None (insert_txn E (trim_space flow) (db_money E amount) w c desc
      (Some ref) td b fd)"
    using assms by (auto simp: RecordInventoryEntry_def Let_def res_simps)
  then have "txns fd' = txns (insert_txn E (trim_space flow) (db_money E amount) w c desc (Some ref) td b fd)"
    using refreshWallets_frame by simp
  then show ?thesis by (simp add: insert_txn_def)
qed

text \<open>
  The books carry the cost of goods sold of an order exactly once: after a sync, the finance rows
  under \<open>cogs:<order>\<close> are one expense of the order's net issue cost in the ledger, rounded to cents,
  or none when the tenant expenses its purchases or nothing is left to expense. All other rows are
  untouched.
\<close>

theorem SyncOrderStock_cogs:
  assumes "SyncOrderStock E np today ord orderID status items by db = (None, db')"
    and "trim_space orderID \<noteq> []" "inv_setting (inv db) = Some st" "st_setup st"
    and "trim_space (cogsRefPrefix @ orderID) = cogsRefPrefix @ orderID"
  shows "[t \<leftarrow> txns (fin db'). ft_ref t \<noteq> Some (cogsRefPrefix @ orderID)]
      = [t \<leftarrow> txns (fin db). ft_ref t \<noteq> Some (cogsRefPrefix @ orderID)]
    \<and> map (\<lambda>t. (ft_type t, ft_amount t)) [t \<leftarrow> txns (fin db'). ft_ref t = Some (cogsRefPrefix @ orderID)]
      = (let c = round2 (dec4 (order_cogs db' orderID)) in
         if st_expense st \<or> c \<le> 0 then [] else [(''expense'', db_money E c)])"
  using assms(1-4)
proof (cases rule: SyncOrderStock_cases)
  case refused
  then show ?thesis by simp
next
  case (committed db1)
  let ?ref = "cogsRefPrefix @ orderID" and ?c = "round2 (dec4 (order_cogs db1 orderID))"
  have ref: "?ref \<noteq> []" by (simp add: cogsRefPrefix_def)
  have fin: "fin db1 = fin db"
    using committed(1) unfolding sync_tx_def ebind_eq_Inr by (auto simp: res_simps dest: marker_frame)
  have oc: "order_cogs db' orderID = order_cogs db1 orderID"
    using cogs_frame(1)[OF committed(2)] by (simp add: order_cogs_def)
  obtain e1 fd where rm: "RemoveInventoryEntry E ?ref (fin db1) = (e1, fd)"
    by (cases "RemoveInventoryEntry E ?ref (fin db1)")
  have e1: "e1 = None" using committed(2) rm
    by (cases e1) (auto simp: resyncOrderCOGS_def Let_def try_out_eq split: if_splits)
  have gone: "txns fd = [t \<leftarrow> txns (fin db). ft_ref t \<noteq> Some ?ref]"
    using remove_entry_txns[OF rm[unfolded e1] assms(5) ref] fin by simp
  show ?thesis
  proof (cases "st_expense st \<or> ?c \<le> 0")
    case True
    then have "fin db' = fd" using committed(2) rm e1
      by (auto simp: resyncOrderCOGS_def Let_def try_out_eq res_simps split: if_splits)
    then show ?thesis using True gone oc by (auto simp: Let_def filter_empty_conv)
  next
    case False
    then obtain wallet where rec: "RecordInventoryEntry E np today by ?ref ''expense'' finCatHPP
        (orderCOGSDescription orderID) ?c wallet fd = Inr (fin db')"
      using committed(2) rm e1 by (auto simp: resyncOrderCOGS_def Let_def try_out_eq res_simps)
    have "trim_space ''expense'' = ''expense''" by code_simp
    with record_entry_txns[OF rec _ assms(5) ref] False gone obtain t where
      "txns (fin db') = txns fd @ [t]" "ft_ref t = Some ?ref" "ft_type t = ''expense''" "ft_amount t = db_money E ?c"
      by auto
    then show ?thesis using False gone oc by (auto simp: Let_def filter_empty_conv)
  qed
qed

section \<open>The sync succeeds\<close>

lemma remove_entry_total:
  assumes "healthy E"
  shows "\<exists>fd'. RemoveInventoryEntry E ref fd = (None, fd') \<and> same_setup fd fd'"
proof -
  have chunk: "\<exists>m. removeInventoryEntriesChunk E refs a = Inr m \<and> same_setup a m" for refs a
    using assms fold_refresh_frame[of E "dedup [ft_wallet t. t \<leftarrow> txns a, ft_ref t \<in> Some ` set refs]"
        "a\<lparr>txns := [t \<leftarrow> txns a. ft_ref t \<notin> Some ` set refs]\<rparr>"]
    by (auto simp: removeInventoryEntriesChunk_def same_setup_def)
  have "\<exists>m. remove_chunks E refs a = (None, m) \<and> same_setup a m" for refs a
  proof (induction "length refs" arbitrary: refs a rule: less_induct)
    case less
    show ?case
    proof (cases "refs = []")
      case False
      obtain m where m: "removeInventoryEntriesChunk E (take 200 refs) a = Inr m" "same_setup a m"
        using chunk by blast
      obtain m' where "remove_chunks E (drop 200 refs) m = (None, m')" "same_setup m m'"
        using less[of "drop 200 refs" m] False by auto
      then show ?thesis using False m by (subst remove_chunks.simps) (auto intro: same_setup_trans)
    qed (simp add: remove_chunks.simps)
  qed
  then show ?thesis
    using assms by (auto simp: RemoveInventoryEntry_def RemoveInventoryEntries_def prepareTenant_def Let_def)
qed

text \<open>A NUMERIC(18,2) column rounds half a cent and more up.\<close>

definition money_ok :: "env \<Rightarrow> bool" where
  "money_ok E \<longleftrightarrow> (\<forall>x \<ge> 1 / 200. 0 < db_money E x)"

lemma money_ok_sample: "money_ok sample_env"
  by (simp add: money_ok_def sample_env_def)

lemma round2_cent: "0 < round2 x \<Longrightarrow> 1 / 200 \<le> round2 x"
proof -
  assume pos: "0 < round2 x"
  obtain n :: int where n: "round2 x = fl (of_int n / 100)" by (simp add: round2_def round_scale_def math_round_def)
  have "0 < n"
  proof (rule ccontr)
    assume "\<not> 0 < n"
    then have "0 \<le> fl (- (of_int n / 100))" by (intro fl_nonneg) simp
    then show False using pos by (simp add: n fl_uminus)
  qed
  let ?y = "rat_of_int n / 100"
  have y: "1 / 100 \<le> ?y" using \<open>0 < n\<close> by simp
  have "\<bar>fl ?y - ?y\<bar> \<le> ?y / 2 ^ 53 + tiny" using fl_error[of ?y] y by simp
  moreover have "tiny \<le> 1 / 2 ^ 200" by (rule tiny_le)
  ultimately have "?y - ?y / 2 ^ 53 - 1 / 2 ^ 200 \<le> fl ?y" by linarith
  moreover have "1 / 200 \<le> ?y - ?y / 2 ^ 53 - 1 / 2 ^ 200" using y by simp
  ultimately show ?thesis unfolding n by linarith
qed

lemma record_entry_total:
  assumes "healthy E" "money_ok E" "trim_space flow = ''income'' \<or> trim_space flow = ''expense''"
    and "returns (resolveIncomeWallet E fd pw)" "returns (ensurePeriodUnlocked E fd (walletPeriod np td))"
  shows "returns (RecordInventoryEntry E np td cb ref flow cat desc (round2 x) pw fd)"
proof (cases "round2 x \<le> 0")
  case False
  then have "0 < db_money E (round2 x)" using assms(2) round2_cent[of x] by (simp add: money_ok_def)
  then show ?thesis using assms
    by (auto simp: RecordInventoryEntry_def amount_check_def Let_def prepareTenant_def intro!: returns_intros)
qed (simp add: RecordInventoryEntry_def returns_def)

definition income_wallet :: "tenant_db \<Rightarrow> string \<Rightarrow> string" where
  "income_wallet db orderID = (case order_rows db orderID of None \<Rightarrow> []
     | Some r \<Rightarrow> (case or_wallet r of None \<Rightarrow> [] | Some w \<Rightarrow> w))"

lemma resync_total:
  assumes "healthy E" "money_ok E" "returns (resolveIncomeWallet E (fin db) (income_wallet db orderID))"
    and "returns (ensurePeriodUnlocked E (fin db) (walletPeriod np today))"
  shows "\<exists>db'. resyncOrderCOGS E np today orderID pe by db = (None, db')"
proof -
  obtain fd where fd: "RemoveInventoryEntry E (cogsRefPrefix @ orderID) (fin db) = (None, fd)" "same_setup (fin db) fd"
    using remove_entry_total[OF assms(1)] by blast
  have ex: "trim_space ''expense'' = ''expense''" by code_simp
  have "returns (RecordInventoryEntry E np today by (cogsRefPrefix @ orderID) ''expense'' finCatHPP
      (orderCOGSDescription orderID) (round2 (dec4 (order_cogs db orderID))) (income_wallet db orderID) fd)"
    using assms ex by (intro record_entry_total)
      (simp_all add: resolve_wallet_frame[OF fd(2)] period_frame[OF fd(2)])
  then obtain fd' where "RecordInventoryEntry E np today by (cogsRefPrefix @ orderID) ''expense'' finCatHPP
      (orderCOGSDescription orderID) (round2 (dec4 (order_cogs db orderID))) (income_wallet db orderID) fd = Inr fd'"
    unfolding returns_def by blast
  moreover have "orderIncomeWalletID E (db\<lparr>fin := fd\<rparr>) orderID = Inr (income_wallet db orderID)"
    using assms(1) by (simp add: orderIncomeWalletID_def income_wallet_def)
  ultimately show ?thesis
    using assms(1) fd(1) by (simp add: resyncOrderCOGS_def Let_def)
qed

lemma sync_key_total:
  assumes "healthy E" "inv_setting db = Some st" "\<not> st_block st \<or> d \<le> 0"
    and d: "round4 (fl (mget 0 req k - ne_qty (mget zero_net net k))) = dec4 d" "small4 d"
  shows "returns (sync_key E orderID by req net k db)"
proof -
  have sgn: "dec4 d > epsilon \<longleftrightarrow> d > 0" "dec4 d < - epsilon \<longleftrightarrow> d < 0"
    using dec4_le_epsilon[OF d(2)] dec4_less_neg[OF d(2)] by auto
  have cc: "loadCostingContext E db (fst k) = Inr \<lparr>cc_method = effectiveCostingMethod (sku_override db (fst k)) (st_method st),
      cc_block = st_block st\<rparr>"
    using assms(1,2) by (simp add: loadCostingContext_def Let_def)
  have no_fail: "\<not> db_fails E l" for l using assms(1) by (simp add: healthy_def)
  have issue: "\<exists>res db'. PostMovement E (issue_input orderID by cc k (dec4 d)) db = Inr (res, db')"
    if "d > 0" "\<not> cc_block cc" for cc
    using that d(2) by (intro PostMovement_total[where n = d] no_fail) (auto simp: issue_input_def no_input_def)
  have restore: "\<exists>res db'. PostMovement E (restore_input orderID by cc k (dec4 (- d)) u) db = Inr (res, db')"
    if "d < 0" for cc u
    using that d(2) by (intro PostMovement_total[where n = "- d"] no_fail) (auto simp: restore_input_def no_input_def)
  have abs: "round4 (- dec4 d) = dec4 (- d)" using d(2) by (simp flip: dec4_uminus)
  consider "d = 0" | "d > 0" | "d < 0" by linarith
  then show ?thesis
  proof cases
    case 1
    then show ?thesis using sgn by (simp add: sync_key_def Let_def d(1) returns_def)
  next
    case 2
    then show ?thesis using sgn assms(3) issue[of "\<lparr>cc_method = effectiveCostingMethod (sku_override db (fst k)) (st_method st), cc_block = st_block st\<rparr>"]
      by (auto simp: sync_key_def Let_def d(1) cc returns_def)
  next
    case 3
    then have "returns (PostMovement E (restore_input orderID by cc k (dec4 (- d)) u) db)" for cc u
      using restore by (auto simp: returns_def)
    then show ?thesis using 3 sgn by (auto simp: sync_key_def Let_def d(1) cc abs intro!: returns_intros)
  qed
qed

lemma sync_loop_total:
  assumes "healthy E" "numeric_ok E" "inv_setting db = Some st"
    and "\<And>k. round4 (fl (mget 0 req k - ne_qty (mget zero_net net k))) = dec4 (d k)" "\<And>k. small4 (d k)"
    and "\<And>k. \<not> st_block st \<or> d k \<le> 0"
  shows "returns (efold (sync_key E orderID by req net) ks db)"
  using assms(3)
proof (induction ks arbitrary: db)
  case Nil
  then show ?case by (simp add: returns_def)
next
  case (Cons k ks)
  obtain db1 where db1: "sync_key E orderID by req net k db = Inr db1"
    using sync_key_total[OF assms(1) Cons.prems assms(6) assms(4,5)] unfolding returns_def by blast
  from sync_key_posts[OF db1 assms(2) assms(4,5)] pm.posted_log have "same_config db db1" by blast
  then have "inv_setting db1 = Some st" using Cons.prems by (simp add: same_config_def)
  from Cons.IH[OF this] show ?case by (simp add: db1)
qed

lemma preload_total: "healthy E \<Longrightarrow> returns (preload E db ids c)"
  by (auto simp: preload_def Let_def intro!: returns_intros)

lemma resolve_total: "healthy E \<Longrightarrow> returns (resolveOrderRequirements E db items wh)"
  by (auto simp: resolveOrderRequirements_def intro!: returns_intros preload_total)

text \<open>When the loop over the keys gets through, so does the sync, unless the finance side refuses.\<close>

lemma sync_from_loop:
  assumes "healthy E" "inv_setting (inv db) = Some st"
    and loop: "\<And>req net. st_setup st \<Longrightarrow> trim_space orderID \<noteq> [] \<Longrightarrow>
      (if IsCommittedOrderStatus status then resolveOrderRequirements E db items (default_warehouse db) else Inr []) = Inr req \<Longrightarrow>
      orderNetIssued E db orderID = Inr net \<Longrightarrow>
      returns (efold (sync_key E orderID by req net) (ord (sync_keys req net)) (inv db))"
    and "returns (resolveIncomeWallet E (fin db) (income_wallet db orderID))"
    and "returns (ensurePeriodUnlocked E (fin db) (walletPeriod np today))" and money: "money_ok E"
  shows "\<exists>db'. SyncOrderStock E np today ord orderID status items by db = (None, db')"
proof (cases "trim_space orderID = [] \<or> \<not> st_setup st")
  case True
  then show ?thesis using assms(1,2) by (auto simp: SyncOrderStock_def loadSyncSetting_def prepareTenant_def)
next
  case False
  obtain req where req: "(if IsCommittedOrderStatus status then resolveOrderRequirements E db items (default_warehouse db)
      else Inr []) = Inr req"
    using that resolve_total[OF assms(1), of db items "default_warehouse db"]
    by (cases "IsCommittedOrderStatus status") (auto simp: returns_def)
  have "\<exists>net. orderNetIssued E db orderID = Inr net"
    using assms(1) by (simp add: orderNetIssued_def)
  then obtain net where net: "orderNetIssued E db orderID = Inr net" by blast
  obtain idb where "efold (sync_key E orderID by req net) (ord (sync_keys req net)) (inv db) = Inr idb"
    using loop[OF _ _ req net] False unfolding returns_def by blast
  moreover have "\<exists>db1. setStockAppliedMarker E orderID (IsCommittedOrderStatus status) (db\<lparr>inv := idb\<rparr>) = Inr db1"
    using assms(1) by (simp add: setStockAppliedMarker_def)
  then obtain db1 where m: "setStockAppliedMarker E orderID (IsCommittedOrderStatus status) (db\<lparr>inv := idb\<rparr>) = Inr db1"
    by blast
  ultimately have tx: "sync_tx E ord orderID status items by (default_warehouse db) db = Inr db1"
    using assms(1) by (simp add: sync_tx_def req net)
  have "income_wallet db1 orderID = income_wallet db orderID"
    using m by (auto simp: setStockAppliedMarker_def income_wallet_def res_simps split: if_splits option.splits)
  then obtain db' where "resyncOrderCOGS E np today orderID (st_expense st) by db1 = (None, db')"
    using resync_total[OF assms(1) money] assms(4,5) marker_frame[OF m] by force
  moreover have "defaultWarehouseID E db = Inr (default_warehouse db)"
    using assms(1) by (simp add: defaultWarehouseID_def default_warehouse_def split: option.splits)
  ultimately show ?thesis
    using False assms(1,2) tx by (simp add: SyncOrderStock_def loadSyncSetting_def prepareTenant_def)
qed

lemma sync_total:
  assumes "healthy E" "numeric_ok E" "inv_setting (inv db) = Some st"
    and "sync_exact db orderID status items"
    and "\<not> st_block st \<or> (\<forall>k. key_total (status_demand db status items) k \<le> order_held (inv db) orderID k)"
    and "returns (resolveIncomeWallet E (fin db) (income_wallet db orderID))"
    and "returns (ensurePeriodUnlocked E (fin db) (walletPeriod np today))" and money: "money_ok E"
  shows "\<exists>db'. SyncOrderStock E np today ord orderID status items by db = (None, db')"
proof (rule sync_from_loop[OF assms(1,3) _ assms(6-8)])
  fix req net
  assume c: "trim_space orderID \<noteq> []"
    "(if IsCommittedOrderStatus status then resolveOrderRequirements E db items (default_warehouse db) else Inr []) = Inr req"
    "orderNetIssued E db orderID = Inr net"
  note d = float_delta[OF c(2,3,1) assms(4)]
  have "small4 (sync_delta db orderID status items k)" for k
    using d(2)[of k] by (simp add: small4_def)
  moreover have "\<not> st_block st \<or> sync_delta db orderID status items k \<le> 0" for k
    using assms(5) by (auto simp: sync_delta_def)
  ultimately show "returns (efold (sync_key E orderID by req net) (ord (sync_keys req net)) (inv db))"
    using d(1) by (intro sync_loop_total[OF assms(1-3), of _ _ "sync_delta db orderID status items"]) simp_all
qed

section \<open>A concrete order\<close>

definition sample_tenant :: tenant_db where
  "sample_tenant = \<lparr>inv = sample_db\<lparr>inv_setting := Some \<lparr>st_setup = True, st_method = CostingFIFO, st_block = False,
       st_expense = False\<rparr>\<rparr>, fin = sample_books,
     inv_warehouse = [\<lparr>wr_id = ''w'', wr_name = ''Gudang'', wr_default = True, wr_deleted = False\<rparr>],
     catalog = [''p'' \<mapsto> \<lparr>ca_name = ''Kopi'', ca_deleted = False\<rparr>], bundle_rows = [],
     order_rows = [''o1'' \<mapsto> \<lparr>or_applied = None, or_wallet = None\<rparr>], has_marker = True\<rparr>"

definition sample_items :: "OrderStockItem list" where
  "sample_items = [\<lparr>oi_line = ''1'', oi_item = ''p'', oi_wh = [], oi_qty = 3\<rparr>]"

definition sample_sync :: "tenant_db \<Rightarrow> tenant_db out" where
  "sample_sync = SyncOrderStock sample_env [] ''2026-01-02'' id ''o1'' ''paid'' sample_items ''u''"

lemma sample_demand: "status_demand sample_tenant ''paid'' sample_items = [((''p'', ''w''), dec4 30000)]"
  by code_simp

lemma sample_order_facts:
  "trim_space ''o1'' \<noteq> []" "trim_space (cogsRefPrefix @ ''o1'') = cogsRefPrefix @ ''o1''"
  "returns (resolveIncomeWallet sample_env (fin sample_tenant) (income_wallet sample_tenant ''o1''))"
  "returns (ensurePeriodUnlocked sample_env (fin sample_tenant) (walletPeriod [] ''2026-01-02''))"
  by code_simp+

lemma sample_tenant_inv:
  "inv_setting (inv sample_tenant) = Some \<lparr>st_setup = True, st_method = CostingFIFO, st_block = False, st_expense = False\<rparr>"
  "on_hand (inv sample_tenant) = on_hand sample_db" "bal_ok (inv sample_tenant)"
  "order_rows_of (inv sample_tenant) ''o1'' = []"
  using sample_facts(1)
  by (simp_all add: sample_tenant_def on_hand_def bal_ok_def ledger_net_def pair_rows_def order_rows_of_def
      sale_row_def has_ref_def sample_db_def sample_movement_def fun_eq_iff)

lemma sample_sync_exact: "sync_exact sample_tenant ''o1'' ''paid'' sample_items"
  by (simp add: sync_exact_def sample_demand sample_tenant_inv entries_ok_def tally_ok_def small4_def)

lemma sample_on_hand: "\<forall>k. \<bar>on_hand (inv sample_tenant) k\<bar> \<le> 2 ^ 43"
  by (simp add: sample_tenant_inv(2)) (simp add: on_hand_def sample_db_def)

lemma ranges_id: "ranges id"
  by (simp add: ranges_def)

lemma sample_sync_runs: "\<exists>db'. sample_sync sample_tenant = (None, db')"
  unfolding sample_sync_def
  by (rule sync_total[OF sample_env_ok numeric_ok_sample sample_tenant_inv(1) sample_sync_exact _ sample_order_facts(3,4) money_ok_sample]) simp

theorem SyncOrderStock_reconciles_witness:
  "\<exists>db'. sample_sync sample_tenant = (None, db') \<and> order_held (inv db') ''o1'' (''p'', ''w'') = 30000
     \<and> on_hand (inv db') (''p'', ''w'') = 20000"
proof -
  obtain db' where r: "sample_sync sample_tenant = (None, db')" using sample_sync_runs by blast
  note q = SyncOrderStock_reconciles[OF r[unfolded sample_sync_def] sample_order_facts(1) sample_tenant_inv(1) _
      numeric_ok_sample ranges_id sample_sync_exact sample_on_hand sample_tenant_inv(3)]
  have "key_total (status_demand sample_tenant ''paid'' sample_items) (''p'', ''w'') = 30000"
      "order_held (inv sample_tenant) ''o1'' (''p'', ''w'') = 0"
    by (simp_all add: sample_demand key_total_def small4_def order_held_def sample_tenant_inv)
  moreover have "on_hand (inv sample_tenant) (''p'', ''w'') = 50000"
    by (simp add: sample_tenant_inv on_hand_def sample_db_def)
  ultimately show ?thesis using r q[simplified] by simp
qed

theorem SyncOrderStock_cogs_witness:
  "\<exists>db'. sample_sync sample_tenant = (None, db')
     \<and> [t \<leftarrow> txns (fin db'). ft_ref t \<noteq> Some ''cogs:o1''] = []"
proof -
  obtain db' where r: "sample_sync sample_tenant = (None, db')" using sample_sync_runs by blast
  from SyncOrderStock_cogs[OF r[unfolded sample_sync_def] sample_order_facts(1) sample_tenant_inv(1) _ sample_order_facts(2)]
  show ?thesis using r by (simp add: cogsRefPrefix_def sample_tenant_def sample_books_def)
qed

lemma sample_sync_keys:
  "resolveOrderRequirements sample_env sample_tenant sample_items (default_warehouse sample_tenant) = Inr [((''p'', ''w''), 3)]"
  "orderNetIssued sample_env sample_tenant ''o1'' = Inr []"
  "IsCommittedOrderStatus ''paid''" "sync_keys [((''p'', ''w''), 3)] [] = [(''p'', ''w'')]"
  by code_simp+

lemma sample_setup: "st_setup \<lparr>st_setup = True, st_method = CostingFIFO, st_block = False, st_expense = False\<rparr>"
  by simp

lemma sample_synced_exact:
  assumes "sample_sync sample_tenant = (None, db')"
  shows "sync_exact db' ''o1'' ''paid'' sample_items"
  using assms[unfolded sample_sync_def] sample_order_facts(1) sample_tenant_inv(1) sample_setup
proof (cases rule: SyncOrderStock_cases)
  case (committed db1)
  note e = sync_tx_effect[OF committed(1) sample_order_facts(1) numeric_ok_sample ranges_id sample_sync_exact sample_on_hand]
  note c = cogs_frame[OF committed(2)]
  have d: "sync_delta sample_tenant ''o1'' ''paid'' sample_items (''p'', ''w'') = 30000"
    by (simp add: sync_delta_def sample_demand key_total_def small4_def order_held_def sample_tenant_inv)
  from e(7) obtain es where es: "order_rows_of (inv db1) ''o1'' = es" "length es \<le> 1" "(\<Sum>r\<leftarrow>es. \<bar>sale_qty r\<bar>) = 30000"
    by (auto simp: sample_sync_keys sample_tenant_inv d)
  have "tally_ok (map sale_qty ([] @ es))"
    by (rule tally_ok_append[OF es(2), of _ 30000]) (use es in simp_all)
  moreover have "status_demand db' ''paid'' sample_items = status_demand sample_tenant ''paid'' sample_items"
    using status_demand_cong(1)[of sample_tenant db'] e(4-6) c by simp
  ultimately show ?thesis
    using sample_sync_exact es(1) c by (simp add: sync_exact_def)
qed simp

lemma sample_needs_total: "\<exists>b. orderNeedsStockSync sample_env id ''o1'' ''paid'' sample_items w db = Inr b"
proof -
  obtain req where "resolveOrderRequirements sample_env db sample_items w = Inr req"
    using resolve_total[OF sample_env_ok] unfolding returns_def by blast
  moreover have "\<exists>net. orderNetIssued sample_env db ''o1'' = Inr net"
    using sample_env_ok by (simp add: orderNetIssued_def)
  ultimately show ?thesis by (auto simp: orderNeedsStockSync_def sample_sync_keys(3))
qed

theorem SyncOrderStock_idempotent_witness:
  "\<exists>db'. sample_sync sample_tenant = (None, db') \<and> inv (snd (sample_sync db')) = inv db'"
proof -
  obtain db' where r: "sample_sync sample_tenant = (None, db')" using sample_sync_runs by blast
  obtain e db'' where r2: "sample_sync db' = (e, db'')" by (cases "sample_sync db'")
  obtain b where b: "orderNeedsStockSync sample_env id ''o1'' ''paid'' sample_items (default_warehouse sample_tenant) db' = Inr b"
    using sample_needs_total by blast
  from SyncOrderStock_idempotent[OF r[unfolded sample_sync_def] sample_order_facts(1) sample_tenant_inv(1) _
      numeric_ok_sample ranges_id sample_sync_exact sample_synced_exact[OF r] sample_on_hand r2[unfolded sample_sync_def] b]
  show ?thesis using r r2 by simp
qed

end
