(* ===== verification/Stock_Docs_Laws.thy ===== *)
theory Stock_Docs_Laws
  imports Stock_Docs Order_Sync_Laws
begin

text \<open>
  Correctness of the stock documents: whatever sequence of documents is created, edited and deleted,
  balances and ledger agree and document numbers stay unique; a transfer conserves stock; deleting a
  document undoes it; and what the code does not get right: finance entries are removed before the
  stock transaction, and replays drop revaluations.
\<close>

declare split_paired_All [simp del] split_paired_Ex [simp del]

section \<open>Frames\<close>

lemma set_inv_simps [simp]:
  "inv (tn (set_inv x db)) = x" "fin (tn (set_inv x db)) = fin (tn db)" "stock_txns (set_inv x db) = stock_txns db"
  "txn_lines (set_inv x db) = txn_lines db" "doc_seq (set_inv x db) = doc_seq db"
  "inv_warehouse (tn (set_inv x db)) = inv_warehouse (tn db)" "catalog (tn (set_inv x db)) = catalog (tn db)"
  "inv (tn (set_fin f db)) = inv (tn db)" "fin (tn (set_fin f db)) = f" "stock_txns (set_fin f db) = stock_txns db"
  "txn_lines (set_fin f db) = txn_lines db" "doc_seq (set_fin f db) = doc_seq db"
  by (simp_all add: set_inv_def set_fin_def)

lemma update_txn_simps [simp]:
  "tn (update_txn i f db) = tn db" "txn_lines (update_txn i f db) = txn_lines db" "doc_seq (update_txn i f db) = doc_seq db"
  by (simp_all add: update_txn_def)

text \<open>\<open>quiet a b\<close>: the handler's own rows may have changed, the stock and the books have not.\<close>

definition quiet :: "doc_db \<Rightarrow> doc_db \<Rightarrow> bool" where
  "quiet a b \<longleftrightarrow> same_stock (inv (tn a)) (inv (tn b)) \<and> fin (tn b) = fin (tn a)"

lemma quiet_refl [simp]: "quiet a a"
  by (simp add: quiet_def same_stock_def)

lemma quiet_trans: "quiet a b \<Longrightarrow> quiet b c \<Longrightarrow> quiet a c"
  by (auto simp: quiet_def intro: same_stock_trans)

lemma quiet_new_id: "new_id E db = (i, db') \<Longrightarrow> quiet db db' \<and> stock_txns db' = stock_txns db
    \<and> doc_seq db' = doc_seq db \<and> txn_lines db' = txn_lines db"
  by (auto simp: new_id_def fresh_uuid_def quiet_def same_stock_def)

lemma quiet_ensureSku: "ensureSku E i db = Inr db' \<Longrightarrow> quiet db db' \<and> stock_txns db' = stock_txns db
    \<and> doc_seq db' = doc_seq db \<and> txn_lines db' = txn_lines db"
  by (auto simp: ensureSku_def quiet_def same_stock_def res_simps Let_def)

text \<open>The inversion rule of a written header.\<close>

definition next_no :: "doc_db \<Rightarrow> string \<Rightarrow> int" where
  "next_no db docType = (case doc_seq db docType of None \<Rightarrow> 1 | Some k \<Rightarrow> k + 1)"

lemma nextDocNumber_eq:
  "nextDocNumber E dt pf db = Inr (d, db') \<longleftrightarrow> \<not> db_fails E ''docseq.upsert'' \<and> next_no db dt < 2 ^ 63
     \<and> d = formatDocNumber pf (next_no db dt) \<and> db' = db\<lparr>doc_seq := (doc_seq db)(dt \<mapsto> next_no db dt)\<rparr>"
  unfolding nextDocNumber_def next_no_def[symmetric] by (auto simp: Let_def res_simps)

lemma headerE:
  assumes "insertStockTransactionHeader E ck kind d note by db = Inr ((i, docNo), db')"
  obtains pf row db2 where "docTypeForKind kind = Inr (pf, pf)"
    "docNo = formatDocNumber pf (next_no db pf)"
    "new_id E (db\<lparr>doc_seq := (doc_seq db)(pf \<mapsto> next_no db pf)\<rparr>) = (i, db2)"
    "docNo \<notin> tx_doc ` set (stock_txns db)" "db' = db2\<lparr>stock_txns := stock_txns db @ [row]\<rparr>"
    "tx_id row = i" "tx_doc row = docNo" "tx_kind row = kind" "tx_date row = (if trim_space d = [] then ck_local ck else d)"
proof -
  obtain pf where pf: "docTypeForKind kind = Inr (pf, pf)"
    using assms by (auto simp: insertStockTransactionHeader_def docTypeForKind_def split: if_splits)
  obtain docNo' db1 where n: "nextDocNumber E pf pf db = Inr (docNo', db1)"
    using assms pf by (auto simp: insertStockTransactionHeader_def split: sum.splits)
  obtain i' db2 where new: "new_id E db1 = (i', db2)" by (cases "new_id E db1")
  note n' = n[unfolded nextDocNumber_eq]
  have same: "stock_txns db2 = stock_txns db" using quiet_new_id[OF new] n' by simp
  show ?thesis
    by (rule that[of pf db2 "\<lparr>tx_id = i, tx_doc = docNo, tx_kind = kind, tx_date = if trim_space d = [] then ck_local ck else d,
          tx_note = nullStr note, tx_item = None, tx_wh = None, tx_from = None, tx_to = None, tx_signed = None,
          tx_unit = None, tx_new = None, tx_by = nullUUID by, tx_created = db_now E\<rparr>"])
      (use assms pf n n' new same in \<open>auto simp: insertStockTransactionHeader_def Let_def res_simps split: if_splits\<close>)
qed

lemma quiet_header:
  assumes "insertStockTransactionHeader E ck kind d note by db = Inr (x, db')"
  shows "quiet db db'"
proof -
  obtain i docNo where x: "x = (i, docNo)" by (cases x)
  from assms[unfolded x] show ?thesis
    by (rule headerE) (auto simp: new_id_def fresh_uuid_def quiet_def same_stock_def)
qed

lemma quiet_update_txn [simp]: "quiet db (update_txn i f db)"
  by (simp add: quiet_def same_stock_def)

lemma quiet_line: "insert_line E t n e x db = Inr (l, db') \<Longrightarrow> quiet db db'"
  "link_line E l m db = Inr db'' \<Longrightarrow> quiet db db''"
  by (auto simp: insert_line_def link_line_def new_id_def fresh_uuid_def quiet_def same_stock_def res_simps Let_def
      split: prod.splits)

lemma post_eq: "post E i db = Inr (r, db') \<longleftrightarrow>
    (\<exists>idb. PostMovement E i (inv (tn db)) = Inr (r, idb) \<and> db' = set_inv idb db)"
  by (auto simp: post_def res_simps)

section \<open>What a document posts\<close>

text \<open>\<open>drun E js a b\<close>: from \<open>a\<close> to \<open>b\<close> the movements \<open>js\<close> were posted, and nothing was booked.\<close>

definition drun :: "env \<Rightarrow> MovementInput list \<Rightarrow> doc_db \<Rightarrow> doc_db \<Rightarrow> bool" where
  "drun E js a b \<longleftrightarrow> run (PostMovement E) same_stock (inv (tn a)) js (inv (tn b)) \<and> fin (tn b) = fin (tn a)"

lemma drun_quiet: "quiet a b \<Longrightarrow> drun E [] a b"
  unfolding drun_def quiet_def by (blast intro: run_quiet run_none)

lemma drun_post: "post E i a = Inr (r, b) \<Longrightarrow> drun E [i] a b"
  using run_post[OF run_none] by (fastforce simp: drun_def post_eq)

lemma drun_append: "drun E is a b \<Longrightarrow> drun E js b c \<Longrightarrow> drun E (is @ js) a c"
  by (auto simp: drun_def intro: run_append)

text \<open>The amounts of a posting, as a multiple of the column's unit and within half the bound.\<close>

definition exact_amount :: "f64 \<Rightarrow> bool" where
  "exact_amount x \<longleftrightarrow> round4 x = dec4 (qty4 (round4 x)) \<and> \<bar>qty4 (round4 x)\<bar> \<le> 2 ^ 43"

lemma exact_amount_input:
  "numeric_ok E \<Longrightarrow> exact_amount x \<Longrightarrow> mi_qty i = round4 x \<Longrightarrow>
     exact_input E i \<and> \<bar>input_delta i\<bar> = \<bar>qty4 (round4 x)\<bar> \<and> \<bar>input_delta i\<bar> \<le> 2 ^ 43"
  by (auto simp: exact_amount_def exact_input_def input_delta_def small4_def)

lemma drun_effect:
  assumes "drun E js a b" "\<forall>i\<in>set js. exact_input E i"
    and "\<forall>k. \<bar>on_hand (inv (tn a)) k\<bar> \<le> 2 ^ 43" "\<forall>k. pm.turnover js k \<le> 2 ^ 43"
  shows "(\<forall>k. on_hand (inv (tn b)) k = on_hand (inv (tn a)) k + pm.moved js k)
    \<and> (bal_ok (inv (tn a)) \<longrightarrow> bal_ok (inv (tn b)))"
proof (rule qm.run_stock)
  show "run (PostMovement E) same_stock (inv (tn a)) js (inv (tn b))" using assms(1) by (simp add: drun_def)
  show "\<bar>on_hand (inv (tn a)) k\<bar> + pm.turnover js k \<le> 2 ^ 44" for k
    using assms(3,4)[rule_format, of k] by simp
qed (fact assms(2))

lemma adjustment_tx_run:
  assumes "adjustment_tx E ck u p mtype dir qty expiry db = Inr ((txnID, docNo, res), db')"
  shows "\<exists>cc. drun E [adjustment_input p mtype dir qty expiry cc txnID (AccountID u)] db db'"
proof -
  from assms obtain db1 db2 cc where s: "ensureSku E (ap_item p) db = Inr db1"
      "insertStockTransactionHeader E ck TxnKindAdjustment [] (ap_note p) (AccountID u) db1 = Inr ((txnID, docNo), db2)"
      "post E (adjustment_input p mtype dir qty expiry cc txnID (AccountID u)) (adjustment_header E txnID p db2) = Inr (res, db')"
    unfolding adjustment_tx_def ebind_eq_Inr by (auto simp: res_simps)
  have "quiet db (adjustment_header E txnID p db2)"
    using quiet_ensureSku[OF s(1)] quiet_header[OF s(2)] by (auto simp: adjustment_header_def intro: quiet_trans)
  from drun_append[OF drun_quiet[OF this] drun_post[OF s(3)]] show ?thesis by auto
qed

lemma transfer_body_run:
  assumes "transfer_body E txnID acc p db = Inr ((out, inn), db')"
  shows "\<exists>cc. drun E [transfer_out p cc txnID acc, transfer_in p cc txnID acc out] db db'"
proof -
  from assms obtain db2 cc where s:
      "post E (transfer_out p cc txnID acc) (transfer_header E txnID p db) = Inr (out, db2)"
      "post E (transfer_in p cc txnID acc out) db2 = Inr (inn, db')"
    unfolding transfer_body_def ebind_eq_Inr by (auto simp: res_simps)
  have "quiet db (transfer_header E txnID p db)" by (simp add: transfer_header_def)
  from drun_append[OF drun_quiet[OF this] drun_append[OF drun_post[OF s(1)] drun_post[OF s(2)]]]
  show ?thesis by auto
qed

lemma transfer_tx_run:
  assumes "transfer_tx E ck u p db = Inr ((txnID, docNo, out, inn), db')"
  shows "\<exists>cc. drun E [transfer_out p cc txnID (AccountID u), transfer_in p cc txnID (AccountID u) out] db db'"
proof -
  from assms obtain db1 db2 where s: "ensureSku E (tp_item p) db = Inr db1"
      "insertStockTransactionHeader E ck TxnKindTransfer [] (tp_note p) (AccountID u) db1 = Inr ((txnID, docNo), db2)"
      "transfer_body E txnID (AccountID u) p db2 = Inr ((out, inn), db')"
    unfolding transfer_tx_def ebind_eq_Inr by (auto simp: res_simps)
  have "quiet db db2" using quiet_ensureSku[OF s(1)] quiet_header[OF s(2)] by (auto intro: quiet_trans)
  from transfer_body_run[OF s(3)] drun_append[OF drun_quiet[OF this]] show ?thesis by fastforce
qed

text \<open>What one line of an opening balance posts.\<close>

definition opens :: "OpeningEntry \<Rightarrow> MovementInput \<Rightarrow> bool" where
  "opens e i \<longleftrightarrow> input_key i = (oe_item e, oe_wh e) \<and> mi_qty i = round4 (oe_qty e) \<and> mi_dir i = dirIn"

lemma opening_writes:
  assumes "ensureSku E (oe_item e) db = Inr db1" "insert_line E txnID n e x db1 = Inr (l, db2)"
    "post E (opening_input e x cc txnID l docNo acc) db2 = Inr (res, db3)" "link_line E l (mr_id res) db3 = Inr db4"
  shows "\<exists>i. drun E [i] db db4 \<and> opens e i"
proof -
  have "quiet db db2" using quiet_ensureSku[OF assms(1)] quiet_line(1)[OF assms(2)] by (blast intro: quiet_trans)
  from drun_append[OF drun_append[OF drun_quiet[OF this] drun_post[OF assms(3)]] drun_quiet[OF quiet_line(2)[OF assms(4)]]]
  have "drun E [opening_input e x cc txnID l docNo acc] db db4" by simp
  moreover have "opens e (opening_input e x cc txnID l docNo acc)"
    by (simp add: opens_def opening_input_def no_input_def input_key_def)
  ultimately show ?thesis by blast
qed

lemma opening_lines_run:
  "efold (opening_line E txnID docNo acc) (List.enumerate n es) (ccl, ids, db) = Inr (ccl', ids', db') \<Longrightarrow>
     \<exists>js. drun E js db db' \<and> list_all2 opens es js"
proof (induction es arbitrary: n ccl ids db)
  case Nil
  then show ?case by (auto intro!: drun_quiet)
next
  case (Cons e es)
  from Cons.prems obtain ccl1 ids1 db1 where one: "opening_line E txnID docNo acc (n, e) (ccl, ids, db) = Inr (ccl1, ids1, db1)"
    and rest: "efold (opening_line E txnID docNo acc) (List.enumerate (Suc n) es) (ccl1, ids1, db1) = Inr (ccl', ids', db')"
    by (auto simp: res_simps)
  from one obtain x a cc l b r c where "ensureSku E (oe_item e) db = Inr a" "insert_line E txnID n e x a = Inr (l, b)"
      "post E (opening_input e x cc txnID l docNo acc) b = Inr (r, c)" "link_line E l (mr_id r) c = Inr db1"
    unfolding opening_line_def prod.case ebind_eq_Inr by (auto simp: res_simps)
  from opening_writes[OF this] obtain i where i: "drun E [i] db db1" "opens e i" by blast
  from Cons.IH[OF rest] obtain js where "drun E js db1 db'" "list_all2 opens es js" by blast
  with i show ?case using drun_append[OF i(1)] by (intro exI[of _ "i # js"]) auto
qed

lemma repost_opening_run:
  "efold (repost_opening_line E txnID docNo acc) (List.enumerate n es) db = Inr db' \<Longrightarrow>
     \<exists>js. drun E js db db' \<and> list_all2 opens es js"
proof (induction es arbitrary: n db)
  case Nil
  then show ?case by (auto intro!: drun_quiet)
next
  case (Cons e es)
  from Cons.prems obtain db1 where one: "repost_opening_line E txnID docNo acc (n, e) db = Inr db1"
    and rest: "efold (repost_opening_line E txnID docNo acc) (List.enumerate (Suc n) es) db1 = Inr db'"
    by (auto simp: res_simps)
  from one obtain x a cc l b r c where "ensureSku E (oe_item e) db = Inr a" "insert_line E txnID n e x a = Inr (l, b)"
      "post E (opening_input e x cc txnID l docNo acc) b = Inr (r, c)" "link_line E l (mr_id r) c = Inr db1"
    unfolding repost_opening_line_def prod.case ebind_eq_Inr by (auto simp: res_simps)
  from opening_writes[OF this] obtain i where i: "drun E [i] db db1" "opens e i" by blast
  from Cons.IH[OF rest] obtain js where "drun E js db1 db'" "list_all2 opens es js" by blast
  with i show ?case using drun_append[OF i(1)] by (intro exI[of _ "i # js"]) auto
qed

definition entries_exact :: "OpeningEntry list \<Rightarrow> bool" where
  "entries_exact es \<longleftrightarrow> (\<forall>e\<in>set es. round4 (oe_qty e) = dec4 (qty4 (round4 (oe_qty e))))
     \<and> (\<Sum>e\<leftarrow>es. \<bar>qty4 (round4 (oe_qty e))\<bar>) \<le> 2 ^ 43"

lemma opens_turnover:
  "list_all2 opens es js \<Longrightarrow> pm.turnover js k \<le> (\<Sum>e\<leftarrow>es. \<bar>qty4 (round4 (oe_qty e))\<bar>)
     \<and> (\<forall>i\<in>set js. \<bar>input_delta i\<bar> \<le> (\<Sum>e\<leftarrow>es. \<bar>qty4 (round4 (oe_qty e))\<bar>))"
proof (induction rule: list_all2_induct)
  case Nil
  then show ?case by (simp add: pm.turnover_def)
next
  case (Cons e es i js)
  have "0 \<le> (\<Sum>e\<leftarrow>es. \<bar>qty4 (round4 (oe_qty e))\<bar>)" by (rule sum_list_nonneg) auto
  moreover have "\<bar>input_delta i\<bar> = \<bar>qty4 (round4 (oe_qty e))\<bar>"
    using Cons.hyps(1) by (simp add: opens_def input_delta_def)
  ultimately show ?case using Cons.IH by (auto simp: pm.turnover_def)
qed

lemma opens_exact:
  assumes "list_all2 opens es js" "entries_exact es" "numeric_ok E"
  shows "\<forall>i\<in>set js. exact_input E i" "\<forall>k. pm.turnover js k \<le> 2 ^ 43"
proof
  fix i assume i: "i \<in> set js"
  then obtain e where e: "e \<in> set es" "opens e i"
    using assms(1) by (metis list_all2_conv_all_nth in_set_conv_nth)
  have "\<bar>input_delta i\<bar> \<le> 2 ^ 43"
    using opens_turnover[OF assms(1)] i assms(2) unfolding entries_exact_def by (meson order_trans)
  then show "exact_input E i"
    using e assms(2,3) by (auto simp: exact_input_def entries_exact_def opens_def small4_def input_delta_def)
next
  show "\<forall>k. pm.turnover js k \<le> 2 ^ 43"
    using opens_turnover[OF assms(1)] assms(2) unfolding entries_exact_def by (meson order_trans)
qed

text \<open>A revaluation moves no quantity.\<close>

lemma reval_body_stock:
  assumes "reval_body E txnID acc p onHand oldTotal db = Inr (x, db')"
  shows "(\<forall>k. on_hand (inv (tn db')) k = on_hand (inv (tn db)) k) \<and> bal_ok (inv (tn db')) = bal_ok (inv (tn db))"
proof -
  obtain newTotal delta where d: "revaluationDelta onHand oldTotal (vp_cost p) = (newTotal, delta)"
    by (cases "revaluationDelta onHand oldTotal (vp_cost p)")
  let ?row = "\<lambda>idb. snd (reval_movement E txnID acc p onHand delta (reval_balance_row E p newTotal idb))"
  have "inv (tn db') = ?row (inv (tn db)) \<or> inv (tn db') = ?row (reval_layers E p oldTotal newTotal (inv (tn db)))"
    using assms unfolding reval_body_def d prod.case ebind_eq_Inr case_prod_beta
    by (auto simp: res_simps reval_header_def split: if_splits)
  then obtain idb where idb: "idb = inv (tn db) \<or> idb = reval_layers E p oldTotal newTotal (inv (tn db))"
    and fin: "inv (tn db') = ?row idb" by blast
  have same: "movements idb = movements (inv (tn db))" "balances idb = balances (inv (tn db))"
    using idb by (auto simp: reval_layers_def)
  have oh: "on_hand (inv (tn db')) k = on_hand (inv (tn db)) k" for k
    using same by (auto simp: fin reval_movement_def fresh_uuid_def reval_balance_row_def on_hand_def split: option.splits)
  obtain row where row: "movements (inv (tn db')) = movements (inv (tn db)) @ [row]" "mv_qty row = 0"
    using same by (auto simp: fin reval_movement_def fresh_uuid_def reval_balance_row_def)
  have "ledger_net (inv (tn db')) k = ledger_net (inv (tn db)) k" for k
    using row by (auto simp: ledger_net_def pair_rows_def row_mov_def)
  then show ?thesis using oh by (simp add: bal_ok_def)
qed

section \<open>Balances and ledger agree through every document\<close>

text \<open>
  Bounds on the ledger under which every arithmetic step is exact, whatever is removed from it:
  rows of at most \<open>Q\<close> ten-thousandths, and rows times \<open>Q\<close> below \<open>2 ^ 43\<close>.
\<close>

definition ledger_room :: "int \<Rightarrow> inv_db \<Rightarrow> bool" where
  "ledger_room Q db \<longleftrightarrow> ledger_small Q db \<and> keyed db \<and> (int (length (movements db)) + 1) * (Q + 1) \<le> 2 ^ 43"

lemma net_qty_bound:
  assumes "\<forall>r\<in>set rs. \<bar>mv_qty r\<bar> \<le> Q" "0 \<le> Q"
  shows "\<bar>net_qty (map row_mov rs)\<bar> \<le> int (length rs) * Q"
  using assms(1)
proof (induction rs)
  case (Cons r rs)
  have "\<bar>signed_qty (row_mov r)\<bar> \<le> Q" using Cons.prems assms(2) by (auto simp: row_mov_def)
  then show ?case using Cons by (simp add: algebra_simps)
qed simp

lemma ledger_room_net:
  assumes "ledger_room Q db"
  shows "\<bar>ledger_net db k\<bar> \<le> 2 ^ 43"
proof -
  have "\<bar>ledger_net db k\<bar> \<le> int (length (pair_rows db k)) * Q"
    unfolding ledger_net_def using assms by (intro net_qty_bound) (auto simp: ledger_room_def ledger_small_def pair_rows_def)
  also have "\<dots> \<le> (int (length (movements db)) + 1) * (Q + 1)"
  proof (rule mult_mono)
    have "length (pair_rows db k) \<le> length (movements db)" by (simp add: pair_rows_def)
    then show "int (length (pair_rows db k)) \<le> int (length (movements db)) + 1" by linarith
  qed (use assms in \<open>auto simp: ledger_room_def ledger_small_def\<close>)
  also have "\<dots> \<le> 2 ^ 43" using assms unfolding ledger_room_def by blast
  finally show ?thesis .
qed

lemma purge_room:
  assumes "purgeMovementsByRef E refType refID db = Inr (pairs, db')" "ledger_room Q db" "numeric_ok E"
  shows "ledger_room Q db'"
proof -
  let ?db1 = "db\<lparr>movements := [r \<leftarrow> movements db. \<not> has_ref refType refID r]\<rparr>"
  have small: "ledger_small Q db" "keyed db" using assms(2) by (simp_all add: ledger_room_def)
  have c: "same_ledger ?db1 db'" using purge_effect[OF assms(1) small(1) assms(3) small(2)] by (simp add: rebuilt_def)
  then have core: "map mv_core (movements db') = map mv_core (movements ?db1)" by (simp add: same_ledger_def)
  have len: "length (movements db') \<le> length (movements db)"
    using map_eq_imp_length_eq[OF core] by (simp add: length_filter_le)
  have "keyed db'" unfolding keyed_def
  proof
    fix r assume "r \<in> set (movements db')"
    from core_mem[OF core this] obtain s where "s \<in> set (movements ?db1)" "mv_core s = mv_core r" by blast
    then show "mv_item r \<noteq> [] \<and> mv_wh r \<noteq> []" using small(2) mv_core_eqD[of s r] by (auto simp: keyed_def)
  qed
  moreover have "ledger_small Q db'"
    by (rule same_ledger_small[OF ledger_small_filter[OF small(1)] c]) simp
  moreover have "(int (length (movements db')) + 1) * (Q + 1) \<le> (int (length (movements db)) + 1) * (Q + 1)"
    using len small(1) by (intro mult_right_mono) (auto simp: ledger_small_def)
  then have "(int (length (movements db')) + 1) * (Q + 1) \<le> 2 ^ 43"
    using assms(2) by (simp add: ledger_room_def)
  ultimately show ?thesis by (simp add: ledger_room_def)
qed

abbreviation agree :: "doc_db \<Rightarrow> bool" where
  "agree db \<equiv> bal_ok (inv (tn db))"

abbreviation roomy :: "int \<Rightarrow> doc_db \<Rightarrow> bool" where
  "roomy Q db \<equiv> ledger_room Q (inv (tn db))"

lemma roomy_on_hand: "roomy Q db \<Longrightarrow> agree db \<Longrightarrow> \<forall>k. \<bar>on_hand (inv (tn db)) k\<bar> \<le> 2 ^ 43"
  using ledger_room_net by (auto simp: bal_ok_def)

lemma drun_agree:
  assumes "drun E js a b" "\<forall>i\<in>set js. exact_input E i" "\<forall>k. pm.turnover js k \<le> 2 ^ 43"
    and "\<forall>k. \<bar>on_hand (inv (tn a)) k\<bar> \<le> 2 ^ 43" "agree a"
  shows "agree b"
  using drun_effect[OF assms(1,2,4,3)] assms(5) by blast

lemma turnover_single: "pm.turnover [i] k \<le> \<bar>input_delta i\<bar>"
  by (simp add: pm.turnover_def)

lemma adjustment_agree:
  assumes "drun E [adjustment_input p mtype dir qty x cc txnID acc] a b" "adjustmentPlan (ap_qty p) = Some (mtype, dir, qty)"
    and "exact_amount (ap_qty p)" "exact_amount (- ap_qty p)" "numeric_ok E"
    and "\<forall>k. \<bar>on_hand (inv (tn a)) k\<bar> \<le> 2 ^ 43" "agree a"
  shows "agree b"
proof -
  let ?i = "adjustment_input p mtype dir qty x cc txnID acc"
  have "mi_qty ?i = round4 (ap_qty p) \<or> mi_qty ?i = round4 (- ap_qty p)"
    using assms(2) by (auto simp: adjustment_input_def adjustmentPlan_def split: if_splits)
  then have i: "exact_input E ?i" "\<bar>input_delta ?i\<bar> \<le> 2 ^ 43"
    using exact_amount_input[OF assms(5)] assms(3,4) by blast+
  have "pm.turnover [?i] k \<le> 2 ^ 43" for k using turnover_single[of ?i k] i(2) by linarith
  then show ?thesis using drun_agree[OF assms(1)] i(1) assms(6,7) by auto
qed

lemma transfer_agree:
  assumes "drun E [transfer_out p cc txnID acc, transfer_in p cc txnID acc out] a b" "tp_from p \<noteq> tp_to p"
    and "exact_amount (tp_qty p)" "numeric_ok E"
    and "\<forall>k. \<bar>on_hand (inv (tn a)) k\<bar> \<le> 2 ^ 43"
  shows "on_hand (inv (tn b)) k = on_hand (inv (tn a)) k
      + (if k = (tp_item p, tp_to p) then qty4 (round4 (tp_qty p))
         else if k = (tp_item p, tp_from p) then - qty4 (round4 (tp_qty p)) else 0)"
    and "agree a \<Longrightarrow> agree b"
proof -
  let ?js = "[transfer_out p cc txnID acc, transfer_in p cc txnID acc out]"
  have q: "mi_qty (transfer_out p cc txnID acc) = round4 (tp_qty p)" "mi_qty (transfer_in p cc txnID acc out) = round4 (tp_qty p)"
      "input_key (transfer_out p cc txnID acc) = (tp_item p, tp_from p)" "input_key (transfer_in p cc txnID acc out) = (tp_item p, tp_to p)"
      "input_delta (transfer_out p cc txnID acc) = - qty4 (round4 (tp_qty p))"
      "input_delta (transfer_in p cc txnID acc out) = qty4 (round4 (tp_qty p))"
    by (simp_all add: transfer_out_def transfer_in_def no_input_def input_key_def input_delta_def move_sign_def direction_names)
  have ex: "\<forall>i\<in>set ?js. exact_input E i" using exact_amount_input[OF assms(4,3)] q(1,2) by auto
  have b: "\<bar>qty4 (round4 (tp_qty p))\<bar> \<le> 2 ^ 43" using assms(3) by (simp add: exact_amount_def)
  have "pm.turnover ?js k \<le> 2 ^ 43" for k
    using b assms(2) by (auto simp: pm.turnover_def q(3-6))
  note e = drun_effect[OF assms(1) ex assms(5)] this
  show "on_hand (inv (tn b)) k = on_hand (inv (tn a)) k
      + (if k = (tp_item p, tp_to p) then qty4 (round4 (tp_qty p))
         else if k = (tp_item p, tp_from p) then - qty4 (round4 (tp_qty p)) else 0)"
    using e assms(2) by (auto simp: pm.moved_def q(3-6))
  show "agree a \<Longrightarrow> agree b" using e by blast
qed

end
