(* ===== verification/Doc_History.thy ===== *)
theory Doc_History
  imports Stock_Docs_Laws
begin

text \<open>
  Histories of stock documents: requests to create, edit and delete documents served one after the
  other, successful or not, from any caller. An invariant of the tables is shown once per committed
  transaction; the locale \<open>document_invariant\<close> lifts it over the handlers and over whole histories.
  Two invariants are its interpretations: balances agree with the ledger, and document numbers are
  unique and below their sequence.
\<close>

declare split_paired_All [simp del] split_paired_Ex [simp del]

section \<open>Requests and the transactions they commit\<close>

datatype doc_call =
    Adjust AdjustmentParams
  | Transfer TransferParams
  | Opening "OpeningEntry list"
  | Revalue RevaluationParams
  | Delete string
  | BatchDelete "string list"
  | Edit string UpdateStockTransactionParams

fun handle :: "env \<Rightarrow> clock \<Rightarrow> AuthUser option \<Rightarrow> doc_call \<Rightarrow> doc_db \<Rightarrow> doc_db" where
  "handle E ck auth (Adjust p) db = snd (CreateAdjustment E ck auth p db)"
| "handle E ck auth (Transfer p) db = snd (CreateTransfer E ck auth p db)"
| "handle E ck auth (Opening es) db = snd (CreateOpeningBalance E ck auth es db)"
| "handle E ck auth (Revalue p) db = snd (CreateRevaluation E ck auth p db)"
| "handle E ck auth (Delete i) db = snd (DeleteStockTransaction E ck auth i db)"
| "handle E ck auth (BatchDelete is) db = snd (BatchDeleteStockTransactions E ck auth is db)"
| "handle E ck auth (Edit i p) db = snd (UpdateStockTransaction E ck auth i p db)"

inductive commits :: "env \<Rightarrow> doc_call \<Rightarrow> doc_db \<Rightarrow> doc_db \<Rightarrow> bool" for E where
  commit_adjust: "adjustmentPlan (ap_qty p) = Some (mtype, dir, qty) \<Longrightarrow>
    adjustment_tx E ck u p mtype dir qty expiry a = Inr (x, b) \<Longrightarrow> commits E (Adjust p) a b"
| commit_transfer: "trim_space (tp_from p) \<noteq> trim_space (tp_to p) \<Longrightarrow>
    transfer_tx E ck u p a = Inr (x, b) \<Longrightarrow> commits E (Transfer p) a b"
| commit_opening: "opening_tx E ck u es a = Inr (x, b) \<Longrightarrow> commits E (Opening es) a b"
| commit_revalue: "reval_tx E ck u p a = Inr (x, b) \<Longrightarrow> commits E (Revalue p) a b"
| commit_delete: "find_txn a i = Some r \<Longrightarrow> delete_tx E (tx_kind r) i a = Inr b \<Longrightarrow> commits E (Delete i) a b"
| commit_edit: "find_txn a i = Some r \<Longrightarrow> update_tx E u i p r a = Inr (x, b) \<Longrightarrow> commits E (Edit i p) a b"

inductive_cases commitsE: "commits E c a b"

lemma book_eq: "book E ck by ref flow cat desc amount db = Inr db' \<Longrightarrow> \<exists>fd. db' = set_fin fd db"
  by (auto simp: book_def res_simps)

lemma set_fin_self: "set_fin (fin (tn db)) db = db"
  by (simp add: set_fin_def)

lemma recordRevaluationFinance_eq:
  "recordRevaluationFinance E ck acc mid note delta db = Inr db' \<Longrightarrow> \<exists>fd. db' = set_fin fd db"
  by (auto simp: recordRevaluationFinance_def intro: book_eq exI[of _ "fin (tn db)"] set_fin_self[symmetric]
      split: if_splits)

lemma recordAdjustmentFinance_eq:
  "recordAdjustmentFinance E ck acc r db = Inr db' \<Longrightarrow> \<exists>fd. db' = set_fin fd db"
  by (auto simp: recordAdjustmentFinance_def intro: book_eq exI[of _ "fin (tn db)"] set_fin_self[symmetric]
      split: if_splits option.splits)

lemma remove_entries_eq: "remove_entries E refs db = (e, db') \<Longrightarrow> \<exists>fd. db' = set_fin fd db"
  by (auto simp: remove_entries_def split: prod.splits)

lemma loaded_row: "loadStockTransaction E db i = Inr t \<Longrightarrow> find_txn db i = Some (st_row t)"
  by (auto simp: loadStockTransaction_def res_simps split: option.splits)

lemma find_txn_set_fin [simp]: "find_txn (set_fin fd db) i = find_txn db i"
  by (simp add: find_txn_def)

section \<open>Invariants of histories\<close>

text \<open>
  \<open>ok E c a\<close> is what the invariant needs of the request \<open>c\<close> at the tables \<open>a\<close>. The books may change at
  any time; a batch deletes its documents one by one.
\<close>

locale deletion_invariant =
  fixes del_ok :: "env \<Rightarrow> string \<Rightarrow> doc_db \<Rightarrow> bool" and I :: "doc_db \<Rightarrow> bool"
  assumes deleted: "commits E (Delete i) a b \<Longrightarrow> del_ok E i a \<Longrightarrow> I a \<Longrightarrow> I b"
    and books: "I a \<Longrightarrow> I (set_fin fd a)"
    and books_del: "del_ok E i a \<Longrightarrow> del_ok E i (set_fin fd a)"
begin

lemmas keeps_intros = keeps_try[of I] keeps_tx[of I] keeps_out[of I]

lemma removed_delete:
  "delete_tx E (tx_kind r) i (set_fin fd a) = Inr b \<Longrightarrow> find_txn a i = Some r \<Longrightarrow> del_ok E i a \<Longrightarrow> I a \<Longrightarrow> I b"
  by (rule deleted[OF commit_delete[where a = "set_fin fd a"]]) (auto intro: books books_del)

lemma delete_keeps:
  assumes "I a" "del_ok E i a"
  shows "I (snd (DeleteStockTransaction E ck auth i a))"
  unfolding DeleteStockTransaction_def
proof (intro keeps_intros)
  fix t movs
  assume t: "loadStockTransaction E a i = Inr t"
  obtain e b where e: "remove_entries E (movementFinanceRefs [] movs) a = (e, b)" by (cases "remove_entries E (movementFinanceRefs [] movs) a")
  then obtain fd where b: "b = set_fin fd a" using remove_entries_eq by blast
  have "I (snd (try_out b (delete_tx E (tx_kind (st_row t)) i b) (Pair None)))"
    using assms loaded_row[OF t] unfolding b
    by (intro keeps_intros) (auto intro!: books intro: removed_delete)
  then show "I (snd (case remove_entries E (movementFinanceRefs [] movs) a of (None, db1) \<Rightarrow> try_out db1 (delete_tx E (tx_kind (st_row t)) i db1) (Pair None) | (Some e, db1) \<Rightarrow> (Some e, db1)))"
    using e b assms(1) books by (cases e) auto
qed (use assms in auto)

end

locale document_invariant = deletion_invariant "\<lambda>E i. ok E (Delete i)" I
  for ok :: "env \<Rightarrow> doc_call \<Rightarrow> doc_db \<Rightarrow> bool" and I :: "doc_db \<Rightarrow> bool" +
  assumes commit: "commits E c a b \<Longrightarrow> ok E c a \<Longrightarrow> I a \<Longrightarrow> I b"
    and books_ok: "ok E c a \<Longrightarrow> ok E c (set_fin fd a)"
    and batch: "ok E (BatchDelete (i # is)) a \<Longrightarrow> ok E (Delete i) a"
    and batch_rest: "ok E (BatchDelete (i # is)) a \<Longrightarrow> ok E (BatchDelete is) (snd (DeleteStockTransaction E ck auth i a))"
begin

lemma removed_edit:
  "update_tx E u i p r (set_fin fd a) = Inr (x, b) \<Longrightarrow> find_txn a i = Some r \<Longrightarrow> ok E (Edit i p) a \<Longrightarrow> I a \<Longrightarrow> I b"
  by (rule commit[OF commit_edit[where a = "set_fin fd a"]]) (auto intro: books books_ok)

lemma adjust_keeps: "I a \<Longrightarrow> ok E (Adjust p) a \<Longrightarrow> I (snd (CreateAdjustment E ck auth p a))"
  unfolding CreateAdjustment_def
  by (intro keeps_intros) (auto split: option.splits intro!: keeps_intros books dest!: book_eq
      intro: commit[OF commit_adjust] split: if_splits)

lemma transfer_keeps: "I a \<Longrightarrow> ok E (Transfer p) a \<Longrightarrow> I (snd (CreateTransfer E ck auth p a))"
  unfolding CreateTransfer_def
  by (intro keeps_intros) (auto simp: res_simps intro: commit[OF commit_transfer])

lemma opening_keeps: "I a \<Longrightarrow> ok E (Opening es) a \<Longrightarrow> I (snd (CreateOpeningBalance E ck auth es a))"
  unfolding CreateOpeningBalance_def by (intro keeps_intros) (auto intro: commit[OF commit_opening])

lemma revalue_keeps: "I a \<Longrightarrow> ok E (Revalue p) a \<Longrightarrow> I (snd (CreateRevaluation E ck auth p a))"
  unfolding CreateRevaluation_def
  by (intro keeps_intros) (auto intro!: keeps_intros books intro: commit[OF commit_revalue]
      dest!: recordRevaluationFinance_eq)

lemma batch_keeps:
  "I a \<Longrightarrow> ok E (BatchDelete is) a \<Longrightarrow> I (snd (fold (batch_delete_one E ck auth) is (res, a)))"
proof (induction "is" arbitrary: a res)
  case (Cons i "is")
  have "I (snd (DeleteStockTransaction E ck auth i a))" using Cons.prems batch delete_keeps by blast
  moreover have "\<exists>res'. batch_delete_one E ck auth i (res, a) = (res', snd (DeleteStockTransaction E ck auth i a))"
    by (cases "DeleteStockTransaction E ck auth i a"; cases "fst (DeleteStockTransaction E ck auth i a)")
      (auto simp: batch_delete_one_def)
  then obtain res' where "batch_delete_one E ck auth i (res, a) = (res', snd (DeleteStockTransaction E ck auth i a))" by blast
  ultimately show ?case using Cons batch_rest by auto
qed simp

lemma edit_keeps:
  assumes "I a" "ok E (Edit i p) a"
  shows "I (snd (UpdateStockTransaction E ck auth i p a))"
  unfolding UpdateStockTransaction_def
proof (intro keeps_intros)
  fix u t movs
  assume t: "loadStockTransaction E a i = Inr t"
  obtain e b where e: "remove_entries E (movementFinanceRefs [] movs) a = (e, b)" by (cases "remove_entries E (movementFinanceRefs [] movs) a")
  then obtain fd where b: "b = set_fin fd a" using remove_entries_eq by blast
  have "I (snd (in_tx b (update_tx E u i p (st_row t) b) (\<lambda>(adj, mid, note, delta) db2.
         try_reply db2 (recordAdjustmentFinance E ck (AccountID u) adj db2) (\<lambda>db3.
         try_reply db3 (recordRevaluationFinance E ck (AccountID u) mid note delta db3) (\<lambda>db4.
         (loadStockTransaction E db4 i, db4))))))"
    using assms loaded_row[OF t] unfolding b
    by (intro keeps_intros) (auto intro!: keeps_intros books intro: removed_edit
        dest!: recordAdjustmentFinance_eq recordRevaluationFinance_eq)
  then show "I (snd (case remove_entries E (movementFinanceRefs [] movs) a of
       (None, db1) \<Rightarrow> in_tx db1 (update_tx E u i p (st_row t) db1) (\<lambda>(adj, mid, note, delta) db2.
         try_reply db2 (recordAdjustmentFinance E ck (AccountID u) adj db2) (\<lambda>db3.
         try_reply db3 (recordRevaluationFinance E ck (AccountID u) mid note delta db3) (\<lambda>db4.
         (loadStockTransaction E db4 i, db4)))) | (Some e, db1) \<Rightarrow> (Inl e, db1)))"
    using e b assms(1) books by (cases e) auto
qed (use assms in auto)

lemma handle_keeps: "I a \<Longrightarrow> ok E c a \<Longrightarrow> I (handle E ck auth c a)"
proof (cases c)
  case (BatchDelete x)
  then show "I a \<Longrightarrow> ok E c a \<Longrightarrow> ?thesis"
    by (auto simp: BatchDeleteStockTransactions_def case_prod_beta intro!: keeps_intros batch_keeps)
qed (auto intro: adjust_keeps transfer_keeps opening_keeps revalue_keeps delete_keeps edit_keeps)

end


text \<open>A history: each request with the environment, clock and caller it meets.\<close>

type_synonym request = "env \<times> clock \<times> AuthUser option \<times> doc_call"

fun serve :: "request list \<Rightarrow> doc_db \<Rightarrow> doc_db" where
  "serve [] db = db"
| "serve ((E, ck, auth, c) # rs) db = serve rs (handle E ck auth c db)"

fun allowed :: "(env \<Rightarrow> doc_call \<Rightarrow> doc_db \<Rightarrow> bool) \<Rightarrow> request list \<Rightarrow> doc_db \<Rightarrow> bool" where
  "allowed ok [] db = True"
| "allowed ok ((E, ck, auth, c) # rs) db = (ok E c db \<and> allowed ok rs (handle E ck auth c db))"

context document_invariant
begin

lemma serve_keeps: "I a \<Longrightarrow> allowed ok rs a \<Longrightarrow> I (serve rs a)"
  by (induction rs a rule: serve.induct) (auto intro: handle_keeps)

end

section \<open>Balances agree with the ledger\<close>

text \<open>What the amounts of a request have to be for the arithmetic to be exact.\<close>

fun exact_call :: "doc_db \<Rightarrow> doc_call \<Rightarrow> bool" where
  "exact_call db (Adjust p) = (exact_amount (ap_qty p) \<and> exact_amount (- ap_qty p))"
| "exact_call db (Transfer p) = exact_amount (tp_qty p)"
| "exact_call db (Opening es) = entries_exact es"
| "exact_call db (Edit i p) = (case find_txn db i of None \<Rightarrow> True | Some r \<Rightarrow>
     exact_amount (ap_qty (edited_adjustment p r)) \<and> exact_amount (- ap_qty (edited_adjustment p r))
     \<and> exact_amount (tp_qty (edited_transfer p r)) \<and> entries_exact (up_entries p))"
| "exact_call db c = True"

definition in_room :: "int \<Rightarrow> env \<Rightarrow> doc_call \<Rightarrow> doc_db \<Rightarrow> bool" where
  "in_room Q E c db \<longleftrightarrow> numeric_ok E \<and> roomy Q db \<and> exact_call db c"

lemma purge_agree:
  assumes "purge E k i a = Inr b" "roomy Q a" "numeric_ok E" "agree a"
  shows "agree b \<and> roomy Q b"
proof -
  from assms(1) obtain pairs idb where p: "purgeMovementsByRef E k i (inv (tn a)) = Inr (pairs, idb)" "b = set_inv idb a"
    by (auto simp: purge_def res_simps)
  have small: "ledger_small Q (inv (tn a))" "keyed (inv (tn a))" using assms(2) by (simp_all add: ledger_room_def)
  show ?thesis using purge_balances[OF p(1) small(1) assms(3) small(2) assms(4)] purge_room[OF p(1) assms(2,3)] p(2)
    by simp
qed

lemma repost_agree:
  assumes "repost E u i p r a = Inr (x, b)" "roomy Q a" "numeric_ok E" "agree a"
    and adj: "exact_amount (ap_qty (edited_adjustment p r))" "exact_amount (- ap_qty (edited_adjustment p r))"
    and tra: "exact_amount (tp_qty (edited_transfer p r))" and opn: "entries_exact (up_entries p)"
  shows "agree b"
proof -
  note oh = roomy_on_hand[OF assms(2,4)]
  consider (adjust) m where "repostAdjustmentOnTx E i (AccountID u) (edited_adjustment p r) a = Inr (m, b)"
    | (transfer) "repostTransferOnTx E i (AccountID u) (edited_transfer p r) a = Inr b"
    | (opened) "repostOpeningOnTx E i (tx_doc r) (AccountID u) (up_entries p) a = Inr b"
    | (revalue) y where "repostRevaluationOnTx E i (AccountID u) (edited_revaluation p r) a = Inr (y, b)"
    using assms(1) by (auto simp: repost_def res_simps split: if_splits)
  then show ?thesis
  proof cases
    case adjust
    then obtain mtype dir qty x db1 cc res where plan: "adjustmentPlan (ap_qty (edited_adjustment p r)) = Some (mtype, dir, qty)"
      and s: "ensureSku E (ap_item (edited_adjustment p r)) a = Inr db1"
        "post E (adjustment_input (edited_adjustment p r) mtype dir qty x cc i (AccountID u))
           (adjustment_header E i (edited_adjustment p r) db1) = Inr (res, b)"
      unfolding repostAdjustmentOnTx_def by (auto simp: res_simps split: option.splits)
    have "quiet a (adjustment_header E i (edited_adjustment p r) db1)"
      using quiet_ensureSku[OF s(1)] by (auto simp: adjustment_header_def intro: quiet_trans)
    from drun_append[OF drun_quiet[OF this] drun_post[OF s(2)]]
    show ?thesis using adjustment_agree[OF _ plan adj assms(3) oh assms(4)] by simp
  next
    case transfer
    then obtain db1 y where s: "ensureSku E (tp_item (edited_transfer p r)) a = Inr db1"
        "transfer_body E i (AccountID u) (edited_transfer p r) db1 = Inr (y, b)"
        "trim_space (tp_from (edited_transfer p r)) \<noteq> trim_space (tp_to (edited_transfer p r))"
      unfolding repostTransferOnTx_def ebind_eq_Inr by (auto simp: res_simps)
    obtain out inn where y: "y = (out, inn)" by (cases y)
    from transfer_body_run[OF s(2)[unfolded y]] obtain cc where
      "drun E [transfer_out (edited_transfer p r) cc i (AccountID u), transfer_in (edited_transfer p r) cc i (AccountID u) out] db1 b" by blast
    from drun_append[OF drun_quiet[OF conjunct1[OF quiet_ensureSku[OF s(1)]]] this]
    show ?thesis using transfer_agree(2)[OF _ _ tra assms(3) oh] s(3) assms(4) by fastforce
  next
    case opened
    then obtain js where "drun E js a b" "list_all2 opens (up_entries p) js"
      using repost_opening_run unfolding repostOpeningOnTx_def by blast
    then show ?thesis using drun_agree opens_exact[OF _ opn assms(3)] oh assms(4) by blast
  next
    case revalue
    then obtain h o' where "reval_body E i (AccountID u) (edited_revaluation p r) h o' a = Inr (y, b)"
      unfolding repostRevaluationOnTx_def ebind_eq_Inr by (auto simp: res_simps)
    from reval_body_stock[OF this] assms(4) show ?thesis by simp
  qed
qed

lemma commits_agree:
  assumes "commits E c a b" "in_room Q E c a" "agree a"
  shows "agree b"
proof -
  have n: "numeric_ok E" and room: "roomy Q a" and ex: "exact_call a c" using assms(2) by (simp_all add: in_room_def)
  note oh = roomy_on_hand[OF room assms(3)]
  show ?thesis using assms(1)
  proof cases
    case (commit_adjust p mtype dir qty ck u expiry x)
    obtain i d m where x: "x = (i, d, m)" by (cases x)
    from adjustment_tx_run[OF commit_adjust(3)[unfolded x]] obtain cc where
      "drun E [adjustment_input p mtype dir qty expiry cc i (AccountID u)] a b" by blast
    then show ?thesis using adjustment_agree[OF _ commit_adjust(2) _ _ n oh assms(3)] ex commit_adjust(1) by simp
  next
    case (commit_transfer p ck u x)
    obtain i d m m' where x: "x = (i, d, m, m')" by (cases x)
    from transfer_tx_run[OF commit_transfer(3)[unfolded x]] show ?thesis
      using transfer_agree(2)[OF _ _ _ n oh] commit_transfer(1,2) ex assms(3) by fastforce
  next
    case (commit_opening ck u es x)
    from commit_opening(2) obtain y db1 z where s:
        "insertStockTransactionHeader E ck TxnKindOpeningBalance [] ''Saldo awal'' (AccountID u) a = Inr (y, db1)"
        "efold (opening_line E (fst y) (snd y) (AccountID u)) (List.enumerate 0 es) (newCostingContextLoader, [], db1) = Inr z"
        "b = snd (snd z)"
      unfolding opening_tx_def ebind_eq_Inr by (auto simp: res_simps)
    obtain ccl ids where z: "z = (ccl, ids, b)" using s(3) by (metis prod.collapse)
    from opening_lines_run[OF s(2)[unfolded z]] obtain js where js: "drun E js db1 b" "list_all2 opens es js" by blast
    from drun_append[OF drun_quiet[OF quiet_header[OF s(1)]] js(1)] have "drun E js a b" by simp
    then show ?thesis using drun_agree opens_exact[OF js(2) _ n] ex commit_opening(1) oh assms(3) by auto
  next
    case (commit_revalue ck u p x)
    from commit_revalue(2) obtain h o' y db1 z where s:
        "insertStockTransactionHeader E ck TxnKindRevaluation [] (vp_note p) (AccountID u) a = Inr (y, db1)"
        "reval_body E (fst y) (AccountID u) p h o' db1 = Inr (z, b)"
      unfolding reval_tx_def ebind_eq_Inr by (auto simp: res_simps)
    from quiet_header[OF s(1)] reval_body_stock[OF s(2)] assms(3) show ?thesis
      by (auto simp: quiet_def dest: same_stock_facts)
  next
    case (commit_delete i r)
    from commit_delete(3) obtain db1 where "purge E (txnKindRefType (tx_kind r)) i a = Inr db1" "b = delete_txn i db1"
      unfolding delete_tx_def ebind_eq_Inr by (auto simp: res_simps)
    then show ?thesis using purge_agree[OF _ room n assms(3)] by (auto simp: delete_txn_def)
  next
    case (commit_edit i r u p x)
    from commit_edit(3) obtain db1 where s: "purge E (txnKindRefType (tx_kind r)) i a = Inr db1"
        "repost E u i p r (db1\<lparr>txn_lines := [l \<leftarrow> txn_lines db1. tl_txn l \<noteq> i]\<rparr>) = Inr (x, b)"
      unfolding update_tx_def ebind_eq_Inr by (auto simp: res_simps)
    from repost_agree[OF s(2) _ n] purge_agree[OF s(1) room n assms(3)] ex commit_edit(1,2) show ?thesis by auto
  qed
qed

interpretation room: deletion_invariant "\<lambda>E i db. numeric_ok E" "roomy Q" for Q
proof
  show "roomy Q b" if "commits E (Delete i) a b" "numeric_ok E" "roomy Q a" for E i a b
    using that(1)
  proof cases
    case (commit_delete r)
    from commit_delete(2) obtain db1 pairs idb where "db1 = set_inv idb a" "b = delete_txn i db1"
        "purgeMovementsByRef E (txnKindRefType (tx_kind r)) i (inv (tn a)) = Inr (pairs, idb)"
      unfolding delete_tx_def purge_def ebind_eq_Inr by (auto simp: res_simps)
    then show ?thesis using purge_room[OF _ that(3,2)] by (auto simp: delete_txn_def)
  qed
qed simp_all

lemma exact_call_set_fin [simp]: "exact_call (set_fin fd db) c = exact_call db c"
  by (cases c) simp_all

interpretation agreement: document_invariant "in_room Q" agree for Q
proof
  show "in_room Q E (BatchDelete is) (snd (DeleteStockTransaction E ck auth i a))"
    if "in_room Q E (BatchDelete (i # is)) a" for E i "is" a ck auth
    using that room.delete_keeps[of Q a E] by (simp add: in_room_def)
qed (auto intro: commits_agree simp: in_room_def)

section \<open>Document numbers are unique\<close>

definition docs :: "doc_db \<Rightarrow> (string \<times> string) list" where
  "docs db = map (\<lambda>r. (tx_doc r, tx_kind r)) (stock_txns db)"

text \<open>Every number was drawn from the sequence of its kind, which is at least that far.\<close>

definition drawn :: "(string \<rightharpoonup> int) \<Rightarrow> string \<times> string \<Rightarrow> bool" where
  "drawn seq d \<longleftrightarrow> (\<exists>pf n k. docTypeForKind (snd d) = Inr (pf, pf) \<and> fst d = formatDocNumber pf n \<and> 1 \<le> n
     \<and> seq pf = Some k \<and> n \<le> k)"

definition numbered :: "doc_db \<Rightarrow> bool" where
  "numbered db \<longleftrightarrow> distinct (map fst (docs db)) \<and> (\<forall>d\<in>set (docs db). drawn (doc_seq db) d)
     \<and> (\<forall>pf k. doc_seq db pf = Some k \<longrightarrow> 1 \<le> k)"

definition same_docs :: "doc_db \<Rightarrow> doc_db \<Rightarrow> bool" where
  "same_docs a b \<longleftrightarrow> docs b = docs a \<and> doc_seq b = doc_seq a"

lemma same_docs_numbered: "same_docs a b \<Longrightarrow> numbered b = numbered a"
  by (simp add: same_docs_def numbered_def)

lemma same_docs_refl [simp]: "same_docs a a"
  by (simp add: same_docs_def)

lemma same_docs_trans: "same_docs a b \<Longrightarrow> same_docs b c \<Longrightarrow> same_docs a c"
  by (simp add: same_docs_def)

lemma prefix_length: "docTypeForKind k = Inr (pf, pf') \<Longrightarrow> length pf = 4 \<and> pf' = pf"
  by (auto simp: docTypeForKind_def doc_prefixes split: if_splits)

lemma formatDocNumber_inj:
  assumes "length p = length q" "0 \<le> m" "0 \<le> n" "formatDocNumber p m = formatDocNumber q n"
  shows "p = q \<and> m = n"
proof -
  have "p = q" "zero_pad 6 (digits (nat m)) = zero_pad 6 (digits (nat n))"
    using assms by (auto simp: formatDocNumber_def split: if_splits)
  then show ?thesis
    using arg_cong[of _ _ undigits] assms(2,3) by (metis undigits_zero_pad undigits_digits nat_0_le)
qed

lemma next_number_fresh:
  assumes "numbered db" "docTypeForKind kind = Inr (pf, pf)"
  shows "formatDocNumber pf (next_no db pf) \<notin> tx_doc ` set (stock_txns db)"
proof
  assume "formatDocNumber pf (next_no db pf) \<in> tx_doc ` set (stock_txns db)"
  then obtain r where r: "r \<in> set (stock_txns db)" "tx_doc r = formatDocNumber pf (next_no db pf)" by (metis imageE)
  then have "drawn (doc_seq db) (tx_doc r, tx_kind r)" using assms(1) by (auto simp: numbered_def docs_def)
  then obtain pf' n k where d: "docTypeForKind (tx_kind r) = Inr (pf', pf')" "tx_doc r = formatDocNumber pf' n" "1 \<le> n"
      "doc_seq db pf' = Some k" "n \<le> k"
    by (auto simp: drawn_def)
  have pos: "0 \<le> next_no db pf" using assms(1) by (force simp: next_no_def numbered_def split: option.splits)
  have "pf' = pf \<and> n = next_no db pf"
    using formatDocNumber_inj[of pf' pf n "next_no db pf"] d(2,3) r(2) pos prefix_length[OF d(1)] prefix_length[OF assms(2)]
    by simp
  then show False using d(4,5) by (simp add: next_no_def)
qed

lemma header_numbered:
  assumes "insertStockTransactionHeader E ck kind d note by db = Inr (x, db')" "numbered db"
  shows "numbered db'"
proof -
  obtain i docNo where x: "x = (i, docNo)" by (cases x)
  from assms(1)[unfolded x] obtain pf row db2 where h: "docTypeForKind kind = Inr (pf, pf)"
      "docNo = formatDocNumber pf (next_no db pf)"
      "new_id E (db\<lparr>doc_seq := (doc_seq db)(pf \<mapsto> next_no db pf)\<rparr>) = (i, db2)"
      "docNo \<notin> tx_doc ` set (stock_txns db)" "db' = db2\<lparr>stock_txns := stock_txns db @ [row]\<rparr>"
      "tx_doc row = docNo" "tx_kind row = kind"
    by (rule headerE)
  have seq: "doc_seq db' = (doc_seq db)(pf \<mapsto> next_no db pf)" using quiet_new_id[OF h(3)] h(5) by simp
  have docs: "docs db' = docs db @ [(docNo, kind)]" using h by (simp add: docs_def)
  have up: "drawn (doc_seq db') d" if "drawn (doc_seq db) d" for d
    using that unfolding drawn_def seq by (fastforce simp: next_no_def)
  have pos: "1 \<le> next_no db pf" using assms(2) by (force simp: next_no_def numbered_def split: option.splits)
  have new: "drawn (doc_seq db') (docNo, kind)" using h(1,2) pos by (auto simp: drawn_def seq)
  have "distinct (map fst (docs db'))" using docs h(4) assms(2) by (auto simp: numbered_def docs_def image_iff)
  moreover have "\<forall>d\<in>set (docs db'). drawn (doc_seq db') d" using docs up new assms(2) by (auto simp: numbered_def)
  moreover have "\<forall>p k. doc_seq db' p = Some k \<longrightarrow> 1 \<le> k" using seq pos assms(2) by (auto simp: numbered_def)
  ultimately show ?thesis by (simp add: numbered_def)
qed

lemma same_docs_update_txn:
  "(\<And>r. tx_doc (f r) = tx_doc r \<and> tx_kind (f r) = tx_kind r) \<Longrightarrow> same_docs db (update_txn i f db)"
  by (auto simp: same_docs_def docs_def update_txn_def)

lemma same_docs_writes:
  "ensureSku E i a = Inr b \<Longrightarrow> same_docs a b"
  "post E j a = Inr (r, b) \<Longrightarrow> same_docs a b"
  "insert_line E t n e x a = Inr (l, b) \<Longrightarrow> same_docs a b"
  "link_line E l m a = Inr b \<Longrightarrow> same_docs a b"
  "purge E k i a = Inr b \<Longrightarrow> same_docs a b"
  "same_docs a (adjustment_header E i p a)" "same_docs a (transfer_header E i q a)" "same_docs a (reval_header E i v a)"
  using quiet_ensureSku[of E i a b]
  by (auto simp: same_docs_def docs_def post_eq insert_line_def link_line_def purge_def adjustment_header_def transfer_header_def
      reval_header_def update_txn_def Let_def res_simps dest: quiet_new_id split: prod.splits)

lemma same_docs_efold:
  "efold f xs a = Inr b \<Longrightarrow> (\<And>x s t. f x s = Inr t \<Longrightarrow> same_docs (g s) (g t)) \<Longrightarrow> same_docs (g a) (g b)"
  by (induction xs arbitrary: a) (auto simp: res_simps, metis same_docs_trans)

lemmas docs_frame = same_docs_writes(1-5)[unfolded same_docs_def]

lemma docs_headers [simp]:
  "docs (adjustment_header E i p a) = docs a" "docs (transfer_header E i q a) = docs a" "docs (reval_header E i v a) = docs a"
  "doc_seq (adjustment_header E i p a) = doc_seq a" "doc_seq (transfer_header E i q a) = doc_seq a"
  "doc_seq (reval_header E i v a) = doc_seq a"
  using same_docs_writes(6-8)[unfolded same_docs_def] by blast+

lemma same_docs_bodies:
  "transfer_body E i acc p a = Inr (x, b) \<Longrightarrow> same_docs a b"
  "reval_body E i acc v h t a = Inr (y, b) \<Longrightarrow> same_docs a b"
  "opening_line E i d acc ie st = Inr st' \<Longrightarrow> same_docs (snd (snd st)) (snd (snd st'))"
  "repost_opening_line E i d acc ie a = Inr b \<Longrightarrow> same_docs a b"
proof -
  show "transfer_body E i acc p a = Inr (x, b) \<Longrightarrow> same_docs a b"
    unfolding transfer_body_def ebind_eq_Inr
    by (auto simp: res_simps same_docs_def dest!: docs_frame)
  show "reval_body E i acc v h t a = Inr (y, b) \<Longrightarrow> same_docs a b"
    unfolding reval_body_def ebind_eq_Inr case_prod_beta
    by (auto simp: res_simps same_docs_def docs_def reval_header_def update_txn_def split: if_splits)
  show "opening_line E i d acc ie st = Inr st' \<Longrightarrow> same_docs (snd (snd st)) (snd (snd st'))"
    unfolding opening_line_def case_prod_beta ebind_eq_Inr
    by (auto simp: res_simps same_docs_def dest!: docs_frame)
  show "repost_opening_line E i d acc ie a = Inr b \<Longrightarrow> same_docs a b"
    unfolding repost_opening_line_def case_prod_beta ebind_eq_Inr
    by (auto simp: res_simps same_docs_def dest!: docs_frame)
qed

lemma same_docs_repost:
  assumes "repost E u i p r a = Inr (x, b)"
  shows "same_docs a b"
proof -
  consider (adjust) m where "repostAdjustmentOnTx E i (AccountID u) (edited_adjustment p r) a = Inr (m, b)"
    | (transfer) "repostTransferOnTx E i (AccountID u) (edited_transfer p r) a = Inr b"
    | (opened) "repostOpeningOnTx E i (tx_doc r) (AccountID u) (up_entries p) a = Inr b"
    | (revalue) y where "repostRevaluationOnTx E i (AccountID u) (edited_revaluation p r) a = Inr (y, b)"
    using assms by (auto simp: repost_def res_simps split: if_splits)
  then show ?thesis
  proof cases
    case adjust
    then show ?thesis unfolding repostAdjustmentOnTx_def
      by (auto simp: res_simps same_docs_def split: option.splits dest!: docs_frame)
  next
    case transfer
    then show ?thesis unfolding repostTransferOnTx_def
      by (auto simp: res_simps dest!: same_docs_writes(1) same_docs_bodies(1) intro: same_docs_trans)
  next
    case opened
    then show ?thesis unfolding repostOpeningOnTx_def
      using same_docs_efold[where g = "\<lambda>s. s"] same_docs_bodies(4) by blast
  next
    case revalue
    then show ?thesis unfolding repostRevaluationOnTx_def by (auto simp: res_simps dest!: same_docs_bodies(2))
  qed
qed

lemma delete_txn_numbered: "numbered db \<Longrightarrow> numbered (delete_txn i db)"
proof -
  assume n: "numbered db"
  have "docs (delete_txn i db) = map (\<lambda>r. (tx_doc r, tx_kind r)) [r \<leftarrow> stock_txns db. tx_id r \<noteq> i]"
    by (simp add: docs_def delete_txn_def)
  then show ?thesis using n
    by (auto simp: numbered_def docs_def delete_txn_def comp_def intro: distinct_map_filter)
qed

lemma commits_numbered:
  assumes "commits E c a b" "numbered a"
  shows "numbered b"
  using assms(1)
proof cases
  case (commit_adjust p mtype dir qty ck u expiry x)
  from commit_adjust(3) obtain db1 y db2 j res where s: "ensureSku E (ap_item p) a = Inr db1"
      "insertStockTransactionHeader E ck TxnKindAdjustment [] (ap_note p) (AccountID u) db1 = Inr (y, db2)"
      "post E j (adjustment_header E (fst y) p db2) = Inr (res, b)"
    unfolding adjustment_tx_def ebind_eq_Inr by (auto simp: res_simps)
  have "numbered db2" using header_numbered[OF s(2)] same_docs_numbered[OF same_docs_writes(1)[OF s(1)]] assms(2) by simp
  then show ?thesis
    using same_docs_numbered[OF same_docs_trans[OF same_docs_writes(6) same_docs_writes(2)[OF s(3)]]] by simp
next
  case (commit_transfer p ck u x)
  from commit_transfer(3) obtain db1 y db2 z where s: "ensureSku E (tp_item p) a = Inr db1"
      "insertStockTransactionHeader E ck TxnKindTransfer [] (tp_note p) (AccountID u) db1 = Inr (y, db2)"
      "transfer_body E (fst y) (AccountID u) p db2 = Inr (z, b)"
    unfolding transfer_tx_def ebind_eq_Inr by (auto simp: res_simps)
  have "numbered db2" using header_numbered[OF s(2)] same_docs_numbered[OF same_docs_writes(1)[OF s(1)]] assms(2) by simp
  then show ?thesis using same_docs_numbered[OF same_docs_bodies(1)[OF s(3)]] by simp
next
  case (commit_opening ck u es x)
  from commit_opening(2) obtain y db1 z where s:
      "insertStockTransactionHeader E ck TxnKindOpeningBalance [] ''Saldo awal'' (AccountID u) a = Inr (y, db1)"
      "efold (opening_line E (fst y) (snd y) (AccountID u)) (List.enumerate 0 es) (newCostingContextLoader, [], db1) = Inr z"
      "b = snd (snd z)"
    unfolding opening_tx_def ebind_eq_Inr by (auto simp: res_simps)
  have "same_docs db1 b"
    using same_docs_efold[OF s(2), where g = "\<lambda>s. snd (snd s)"] same_docs_bodies(3) s(3) by auto
  then show ?thesis using header_numbered[OF s(1) assms(2)] same_docs_numbered by blast
next
  case (commit_revalue ck u p x)
  from commit_revalue(2) obtain h o' y db1 z where s:
      "insertStockTransactionHeader E ck TxnKindRevaluation [] (vp_note p) (AccountID u) a = Inr (y, db1)"
      "reval_body E (fst y) (AccountID u) p h o' db1 = Inr (z, b)"
    unfolding reval_tx_def ebind_eq_Inr by (auto simp: res_simps)
  then show ?thesis using header_numbered[OF s(1) assms(2)] same_docs_numbered[OF same_docs_bodies(2)[OF s(2)]] by simp
next
  case (commit_delete i r)
  then show ?thesis unfolding delete_tx_def
    using assms(2) by (auto simp: res_simps dest!: same_docs_writes(5) same_docs_numbered intro: delete_txn_numbered)
next
  case (commit_edit i r u p x)
  from commit_edit(3) obtain db1 where s: "purge E (txnKindRefType (tx_kind r)) i a = Inr db1"
      "repost E u i p r (db1\<lparr>txn_lines := [l \<leftarrow> txn_lines db1. tl_txn l \<noteq> i]\<rparr>) = Inr (x, b)"
    unfolding update_tx_def ebind_eq_Inr by (auto simp: res_simps)
  then show ?thesis using same_docs_repost[OF s(2)] same_docs_writes(5)[OF s(1)] assms(2)
    by (auto simp: numbered_def same_docs_def docs_def)
qed

interpretation numbering: document_invariant "\<lambda>E c db. True" numbered
proof
  show "numbered (set_fin fd a)" if "numbered a" for fd a
    using that by (simp add: numbered_def docs_def)
qed (auto intro: commits_numbered)

end
