(* ===== verification/Purchasing_Laws.thy ===== *)
theory Purchasing_Laws
  imports Purchasing Doc_History
begin

text \<open>
  Correctness of purchasing over whole histories of requests: what a purchase order line has
  received is what the bills say, the receipts in the stock ledger are the lines of the bills, and
  balances agree with the ledger. The locale \<open>purchase_invariant\<close> lifts an invariant from the
  transactions to the handlers and to histories.
\<close>

declare split_paired_All [simp del] split_paired_Ex [simp del]

section \<open>Frames\<close>

text \<open>\<open>apart a b\<close>: only the tables shared with the stock documents differ.\<close>

definition apart :: "pur_db \<Rightarrow> pur_db \<Rightarrow> bool" where
  "apart a b \<longleftrightarrow> pos b = pos a \<and> po_lines b = po_lines a \<and> bills b = bills a \<and> bill_lines b = bill_lines a"

lemma apart_simps [simp]: "apart a a" "apart a (a\<lparr>pd := d\<rparr>)"
  by (simp_all add: apart_def)

lemma shared_eq: "shared f a = Inr (x, b) \<longleftrightarrow> (\<exists>d. f (pd a) = Inr (x, d) \<and> b = a\<lparr>pd := d\<rparr>)"
  by (auto simp: shared_def res_simps)

lemma on_shared_eq: "on_shared f a = Inr b \<longleftrightarrow> (\<exists>d. f (pd a) = Inr d \<and> b = a\<lparr>pd := d\<rparr>)"
  by (auto simp: on_shared_def res_simps)

lemma fresh_eq: "fresh E a = (i, b) \<longleftrightarrow> i = db_uuid E (next_uuid (pinv a)) \<and> b = a\<lparr>pd := snd (new_id E (pd a))\<rparr>"
  by (auto simp: fresh_def new_id_def fresh_uuid_def)

lemma fresh_pair: "fresh E a = (db_uuid E (next_uuid (pinv a)), a\<lparr>pd := snd (new_id E (pd a))\<rparr>)"
  by (simp add: fresh_eq)

lemma quiet_fresh: "quiet (pd a) (snd (new_id E (pd a)))"
  by (simp add: new_id_def fresh_uuid_def quiet_def same_stock_def)

lemma quiet_number: "nextDocNumber E dt pf d = Inr (n, d') \<Longrightarrow> quiet d d'"
  by (auto simp: nextDocNumber_eq quiet_def same_stock_def)

section \<open>What a bill receives\<close>

text \<open>The part of a bill line that is fixed when it is written.\<close>

definition bn_core :: "bill_line_row \<Rightarrow> string \<times> string option \<times> string \<times> string \<times> int" where
  "bn_core n = (bn_bill n, bn_po_line n, bn_item n, bn_wh n, bn_qty n)"

definition line_core :: "env \<Rightarrow> string \<Rightarrow> BillLineInput \<Rightarrow> string \<times> string option \<times> string \<times> string \<times> int" where
  "line_core E b l = (b, nullUUID (bl_po_line l), bl_item l, bl_wh l, db_numeric E (round4 (bl_qty l)))"

text \<open>The received quantity of a purchase order line after the lines of a bill, and after their reversal.\<close>

definition bump :: "env \<Rightarrow> BillLineInput list \<Rightarrow> po_line_row \<Rightarrow> po_line_row" where
  "bump E ls r = r\<lparr>pl_received := fold (\<lambda>l c. if nullUUID (bl_po_line l) = Some (pl_id r)
     then db_plus E c (round4 (bl_qty l)) else c) ls (pl_received r)\<rparr>"

definition unbump :: "env \<Rightarrow> bill_line_row list \<Rightarrow> po_line_row \<Rightarrow> po_line_row" where
  "unbump E ns r = r\<lparr>pl_received := fold (\<lambda>n c. if bn_po_line n = Some (pl_id r)
     then max 0 (db_plus E c (- dec4 (bn_qty n))) else c) ns (pl_received r)\<rparr>"

lemma bump_simps [simp]: "pl_id (bump E ls r) = pl_id r" "pl_po (bump E ls r) = pl_po r" "pl_ordered (bump E ls r) = pl_ordered r"
  "pl_id (unbump E ns r) = pl_id r" "pl_po (unbump E ns r) = pl_po r" "pl_ordered (unbump E ns r) = pl_ordered r"
  by (simp_all add: bump_def unbump_def)

lemma bump_Nil: "bump E [] r = r" and unbump_Nil: "unbump E [] r = r"
  by (simp_all add: bump_def unbump_def)

lemma bump_Cons: "bump E (l # ls) r = bump E ls (bump E [l] r)"
  and unbump_Cons: "unbump E (n # ns) r = unbump E ns (unbump E [n] r)"
  by (simp_all add: bump_def unbump_def)

text \<open>The movement of a line, as the balances and the ledger see it.\<close>

definition receipt :: "string \<Rightarrow> BillLineInput \<Rightarrow> MovementInput \<Rightarrow> bool" where
  "receipt b l i \<longleftrightarrow> input_key i = (bl_item l, bl_wh l) \<and> mi_item i = bl_item l \<and> mi_wh i = bl_wh l \<and> mi_qty i = round4 (bl_qty l)
     \<and> mi_dir i = dirIn \<and> mi_reftype i = ''bill'' \<and> mi_refid i = b"

definition delivered :: "env \<Rightarrow> string \<Rightarrow> BillLineInput list \<Rightarrow> pur_db \<Rightarrow> pur_db \<Rightarrow> bool" where
  "delivered E b ls a a' \<longleftrightarrow> pos a' = pos a \<and> bills a' = bills a
     \<and> map bn_core (bill_lines a') = map bn_core (bill_lines a) @ map (line_core E b) ls
     \<and> po_lines a' = map (bump E ls) (po_lines a)
     \<and> (\<exists>js. drun E js (pd a) (pd a') \<and> list_all2 (receipt b) ls js)"

lemma link_core: "map (bn_core \<circ> (\<lambda>l. if bn_id l = i then l\<lparr>bn_movement := m\<rparr> else l)) ns = map bn_core ns"
  by (induction ns) (simp_all add: bn_core_def)

lemma idle_lines: "(\<And>r. f r = r) \<Longrightarrow> db = db\<lparr>po_lines := map f (po_lines db)\<rparr>"
  by (simp add: map_idI)

lemma update_received_bump:
  "receive_po_line E l a = Inr b \<Longrightarrow> b = a\<lparr>po_lines := map (bump E [l]) (po_lines a)\<rparr>"
  by (auto simp: receive_po_line_def update_received_def bump_def nullUUID_def res_simps split: if_splits intro!: idle_lines)

lemma post_bill_line_delivered:
  assumes "post_bill_line E b no acc l a = Inr a'"
  shows "delivered E b [l] a a'"
proof -
  from assms obtain x lineID a1 d2 cc res d3 where s:
      "insert_bill_line E b l x a = Inr (lineID, a1)" "ensureSku E (bl_item l) (pd a1) = Inr d2"
      "post E (receive_input l x cc b no lineID acc) d2 = Inr (res, d3)"
      "receive_po_line E l (a1\<lparr>pd := d3, bill_lines := map (\<lambda>n. if bn_id n = lineID then n\<lparr>bn_movement := Some (mr_id res)\<rparr> else n) (bill_lines a1)\<rparr>) = Inr a'"
    unfolding post_bill_line_def link_bill_line_def ebind_eq_Inr by (auto simp: res_simps shared_eq on_shared_eq)
  from s(1) have a1: "pd a1 = snd (new_id E (pd a))" "pos a1 = pos a" "bills a1 = bills a" "po_lines a1 = po_lines a"
      "map bn_core (bill_lines a1) = map bn_core (bill_lines a) @ [line_core E b l]"
    by (auto simp: insert_bill_line_def fresh_eq res_simps bn_core_def line_core_def split: prod.splits)
  have "quiet (pd a) d2" using quiet_fresh[of a E] quiet_ensureSku[OF s(2)] by (auto simp: a1(1) intro: quiet_trans)
  from drun_append[OF drun_quiet[OF this] drun_post[OF s(3)]]
  have "drun E [receive_input l x cc b no lineID acc] (pd a) d3" by simp
  moreover have "receipt b l (receive_input l x cc b no lineID acc)"
    by (simp add: receipt_def receive_input_def no_input_def input_key_def)
  ultimately show ?thesis
    using update_received_bump[OF s(4)] a1(2-) by (auto simp: delivered_def link_core)
qed

lemma delivered_Nil: "delivered E b [] a a"
  by (auto simp: delivered_def bump_Nil intro!: drun_quiet map_idI[symmetric])

lemma delivered_Cons:
  assumes "delivered E b [l] x y" "delivered E b ls y z"
  shows "delivered E b (l # ls) x z"
proof -
  from assms obtain js ks where j: "drun E js (pd x) (pd y)" "list_all2 (receipt b) [l] js"
      "drun E ks (pd y) (pd z)" "list_all2 (receipt b) ls ks"
    by (auto simp: delivered_def)
  have "list_all2 (receipt b) (l # ls) (js @ ks)" using list_all2_appendI[OF j(2,4)] by simp
  then show ?thesis
    using assms drun_append[OF j(1,3)] by (auto simp: delivered_def bump_Cons[of E l ls])
qed

lemma post_lines_delivered: "efold (post_bill_line E b no acc) ls a = Inr a' \<Longrightarrow> delivered E b ls a a'"
proof (induction ls arbitrary: a)
  case Nil
  then show ?case by (simp add: delivered_Nil)
next
  case (Cons l ls)
  then obtain y where "post_bill_line E b no acc l a = Inr y" "efold (post_bill_line E b no acc) ls y = Inr a'"
    by (auto simp: res_simps)
  then show ?case using Cons.IH post_bill_line_delivered delivered_Cons by blast
qed

lemma revert_effect:
  "revert_receipts E ns a = Inr b \<Longrightarrow> b = a\<lparr>po_lines := map (unbump E ns) (po_lines a)\<rparr>"
proof (induction ns arbitrary: a)
  case Nil
  then show ?case by (simp add: revert_receipts_def unbump_Nil map_idI)
next
  case (Cons n ns)
  let ?step = "case bn_po_line n of None \<Rightarrow> Inr a
     | Some i \<Rightarrow> sql E ''po.line.revert'' (Inr (update_received i (\<lambda>c. max 0 (db_plus E c (- dec4 (bn_qty n)))) a))"
  from Cons.prems obtain y where y: "?step = Inr y" "revert_receipts E ns y = Inr b"
    by (auto simp: revert_receipts_def res_simps)
  then have "y = a\<lparr>po_lines := map (unbump E [n]) (po_lines a)\<rparr>"
    by (auto simp: update_received_def unbump_def res_simps split: option.splits intro!: idle_lines)
  with Cons.IH[OF y(2)] show ?case by (simp add: unbump_Cons[of E n ns])
qed

section \<open>The transactions\<close>

definition settle :: "string \<Rightarrow> pur_db \<Rightarrow> pur_db" where
  "settle poID a = (if trim_space poID \<noteq> [] then set_po_status (receivable poID) (receipt_status a poID) a else a)"

text \<open>A bill taken back: its lines are gone and no longer count as received.\<close>

definition taken_back :: "env \<Rightarrow> string \<Rightarrow> doc_db \<Rightarrow> pur_db \<Rightarrow> pur_db" where
  "taken_back E i d a = a\<lparr>pd := d, po_lines := map (unbump E (lines_of_bill a i)) (po_lines a),
     bill_lines := [n \<leftarrow> bill_lines a. bn_bill n \<noteq> i]\<rparr>"

definition reopened :: "string option \<Rightarrow> pur_db \<Rightarrow> pur_db" where
  "reopened x a = (case x of None \<Rightarrow> a | Some poID \<Rightarrow>
     if poID = [] then a else set_po_status (\<lambda>r. po_id r = poID) (receipt_status a poID) a)"

lemma set_po_status_simps [simp]:
  "pd (set_po_status P s a) = pd a" "po_lines (set_po_status P s a) = po_lines a"
  "bills (set_po_status P s a) = bills a" "bill_lines (set_po_status P s a) = bill_lines a"
  "update_po P f a = a\<lparr>pos := map (\<lambda>r. if P r then f r else r) (pos a)\<rparr>"
  by (simp_all add: set_po_status_def update_po_def)

lemma settle_simps [simp]: "pd (settle x a) = pd a" "po_lines (settle x a) = po_lines a"
  "bills (settle x a) = bills a" "bill_lines (settle x a) = bill_lines a"
  by (simp_all add: settle_def)

lemma reopened_simps [simp]: "pd (reopened x a) = pd a" "po_lines (reopened x a) = po_lines a"
  "bills (reopened x a) = bills a" "bill_lines (reopened x a) = bill_lines a"
  by (simp_all add: reopened_def split: option.splits)

lemma postBillLinesTxE:
  assumes "postBillLinesTx E b no poID acc ls a = Inr a'"
  obtains c where "delivered E b ls a c" "a' = settle poID c"
  using assms post_lines_delivered unfolding postBillLinesTx_def
  by (fastforce simp: res_simps settle_def refreshPOStatusTx_def split: if_splits)

lemma fold_filter_idle:
  "(\<And>n. P n \<Longrightarrow> Q n) \<Longrightarrow> fold (\<lambda>n c. if P n then g n c else c) [n \<leftarrow> ns. Q n] c = fold (\<lambda>n c. if P n then g n c else c) ns c"
  by (induction ns arbitrary: c) auto

lemma unbump_filter: "unbump E [n \<leftarrow> ns. bn_po_line n \<noteq> None] r = unbump E ns r"
  unfolding unbump_def
  by (subst fold_filter_idle[where P = "\<lambda>n. bn_po_line n = Some (pl_id r)"]) simp_all

lemma reopened_pos: "reopened x a = a\<lparr>pos := pos (reopened x a)\<rparr>"
  by (simp add: reopened_def set_po_status_def split: option.splits)

lemma create_bill_txE:
  assumes "create_bill_tx E pg u p d dflt ls a = Inr ((i, no), a')"
  obtains a1 row c where "quiet (pd a) (pd a1)" "i = db_uuid E (next_uuid (pinv a))" "pos a1 = pos a" "po_lines a1 = po_lines a"
    "bill_lines a1 = bill_lines a" "bills a1 = bills a @ [row]" "bi_id row = i" "bi_po row = nullUUID (cb_po p)"
    "\<not> bi_deleted row" "pg d = Some (bi_date row)" "delivered E i ls a1 c" "a' = settle (cb_po p) c"
proof -
  from assms obtain d1 dt where s: "nextDocNumber E DocBill DocBill (pd a) = Inr (no, d1)" "i = db_uuid E (next_uuid (inv (tn d1)))"
      "pg d = Some dt"
      "postBillLinesTx E i no (cb_po p) (AccountID u) ls (a\<lparr>pd := snd (new_id E d1), bills := bills a @ [\<lparr>bi_id = i, bi_no = no,
         bi_po = nullUUID (cb_po p), bi_supplier = nullStr (cb_supplier p), bi_contact = nullUUID (cb_contact p),
         bi_wh = nullUUID dflt, bi_status = ''posted'', bi_date = dt, bi_note = nullStr (cb_note p),
         bi_subtotal = db_numeric E (sumBillLines ls), bi_by = nullUUID (AccountID u), bi_created = db_now E,
         bi_deleted = False\<rparr>]\<rparr>) = Inr a'"
    unfolding create_bill_tx_def ebind_eq_Inr fresh_pair Let_def prod.case
    by (auto simp: res_simps shared_eq split: option.splits if_splits)
  have i: "i = db_uuid E (next_uuid (pinv a))" using s(1,2) by (auto simp: nextDocNumber_eq)
  have q: "quiet (pd a) (snd (new_id E d1))"
    using quiet_trans[OF quiet_number[OF s(1)] quiet_fresh[of "a\<lparr>pd := d1\<rparr>" E, simplified]] by simp
  from s(4) show ?thesis
    by (rule postBillLinesTxE) (rule that, (use i q s(3) in auto))
qed

lemma revertPOReceipts_eq:
  "revertPOReceiptsForBill E i a = Inr b \<Longrightarrow> b = a\<lparr>po_lines := map (unbump E (lines_of_bill a i)) (po_lines a)\<rparr>"
  using revert_effect[of E "[l \<leftarrow> lines_of_bill a i. bn_po_line l \<noteq> None]" a b]
  unfolding unbump_filter by (auto simp: revertPOReceiptsForBill_def res_simps)

lemma update_bill_txE:
  assumes "update_bill_tx E pg u ex p d dflt ls a = Inr (x, a')"
  obtains d1 f c where "purge E ''bill'' (bi_id ex) (pd a) = Inr d1" "\<And>r. bi_id (f r) = bi_id r \<and> bi_po (f r) = bi_po r"
    "delivered E (bi_id ex) ls ((taken_back E (bi_id ex) d1 a)\<lparr>bills := map f (bills a)\<rparr>) c" "a' = settle (col (bi_po ex)) c"
proof -
  let ?f = "\<lambda>dt r. if bi_id r = bi_id ex then r\<lparr>bi_supplier := nullStr (cb_supplier p),
         bi_contact := nullUUID (cb_contact p), bi_wh := nullUUID dflt, bi_date := dt, bi_note := nullStr (cb_note p),
         bi_subtotal := db_numeric E (sumBillLines ls)\<rparr> else r"
  from assms obtain a1 d1 dt where s: "revertPOReceiptsForBill E (bi_id ex) a = Inr a1" "purge E ''bill'' (bi_id ex) (pd a1) = Inr d1"
      "postBillLinesTx E (bi_id ex) (bi_no ex) (col (bi_po ex)) (AccountID u) ls
         (a1\<lparr>pd := d1, bill_lines := [l \<leftarrow> bill_lines a1. bn_bill l \<noteq> bi_id ex], bills := map (?f dt) (bills a1)\<rparr>) = Inr a'"
    unfolding update_bill_tx_def ebind_eq_Inr by (auto simp: res_simps on_shared_eq split: option.splits)
  note a1 = revertPOReceipts_eq[OF s(1)]
  have "a1\<lparr>pd := d1, bill_lines := [l \<leftarrow> bill_lines a1. bn_bill l \<noteq> bi_id ex], bills := map (?f dt) (bills a1)\<rparr>
      = (taken_back E (bi_id ex) d1 a)\<lparr>bills := map (?f dt) (bills a)\<rparr>"
    by (simp add: a1 taken_back_def)
  with s(3) show ?thesis
    by (elim postBillLinesTxE) (rule that[of d1 "?f dt"], use s(2) a1 in auto)
qed

lemma delete_bill_txE:
  assumes "delete_bill_tx E b a = Inr a'"
  obtains d1 where "purge E ''bill'' (bi_id b) (pd a) = Inr d1"
    "a' = (reopened (bi_po b) (taken_back E (bi_id b) d1 a))\<lparr>bills := [r \<leftarrow> bills a. bi_id r \<noteq> bi_id b]\<rparr>"
proof -
  from assms obtain d1 a2 a3 where s: "purge E ''bill'' (bi_id b) (pd a) = Inr d1"
      "revert_receipts E [l \<leftarrow> lines_of_bill a (bi_id b). bn_po_line l \<noteq> None] (a\<lparr>pd := d1\<rparr>) = Inr a2"
      "reopen_po E b a2 = Inr a3" "a' = delete_bill (bi_id b) a3"
    unfolding delete_bill_tx_def ebind_eq_Inr by (auto simp: res_simps on_shared_eq)
  have a2: "a2 = a\<lparr>pd := d1, po_lines := map (unbump E (lines_of_bill a (bi_id b))) (po_lines a)\<rparr>"
    using revert_effect[OF s(2)] unfolding unbump_filter by simp
  have a3: "a3 = reopened (bi_po b) a2"
    using s(3) by (auto simp: reopen_po_def reopened_def res_simps split: option.splits if_splits)
  have st: "receipt_status a2 x = receipt_status (taken_back E (bi_id b) d1 a) x" for x
    by (simp add: a2 taken_back_def receipt_status_def sum_ordered_def sum_received_def lines_of_po_def)
  have "pos (reopened (bi_po b) a2) = pos (reopened (bi_po b) (taken_back E (bi_id b) d1 a))"
    by (simp add: reopened_def set_po_status_def st split: option.splits) (simp add: a2 taken_back_def)
  then have "reopened (bi_po b) a2 = a2\<lparr>pos := pos (reopened (bi_po b) (taken_back E (bi_id b) d1 a))\<rparr>"
    using reopened_pos[of "bi_po b" a2] by simp
  then have "delete_bill (bi_id b) (reopened (bi_po b) a2)
      = (taken_back E (bi_id b) d1 a)\<lparr>pos := pos (reopened (bi_po b) (taken_back E (bi_id b) d1 a)),
          bills := [r \<leftarrow> bills a. bi_id r \<noteq> bi_id b]\<rparr>"
    by (simp add: delete_bill_def) (simp add: a2 taken_back_def)
  then have "delete_bill (bi_id b) (reopened (bi_po b) a2)
      = (reopened (bi_po b) (taken_back E (bi_id b) d1 a))\<lparr>bills := [r \<leftarrow> bills a. bi_id r \<noteq> bi_id b]\<rparr>"
    using reopened_pos[of "bi_po b" "taken_back E (bi_id b) d1 a"] by simp
  then show ?thesis using that s(1,4) a3 by simp
qed

section \<open>Received quantities\<close>

text \<open>How PostgreSQL adds a float64 that is a multiple of the column's unit to a NUMERIC(18,4) column.\<close>

definition plus_ok :: "env \<Rightarrow> bool" where
  "plus_ok E \<longleftrightarrow> (\<forall>c n. small4 n \<longrightarrow> db_plus E c (dec4 n) = c + n)"

definition received_by :: "bill_line_row list \<Rightarrow> string \<Rightarrow> int" where
  "received_by ns i = (\<Sum>n\<leftarrow>ns. if bn_po_line n = Some i then bn_qty n else 0)"

definition line_qty :: "BillLineInput \<Rightarrow> int" where
  "line_qty l = qty4 (round4 (bl_qty l))"

text \<open>A bill line as an entry of an opening balance: the bounds are the same.\<close>

definition as_entry :: "BillLineInput \<Rightarrow> OpeningEntry" where
  "as_entry l = \<lparr>oe_item = bl_item l, oe_wh = bl_wh l, oe_qty = bl_qty l, oe_cost = bl_cost l, oe_batch = bl_batchno l,
     oe_expiry = bl_expiry l\<rparr>"

definition lines_exact :: "BillLineInput list \<Rightarrow> bool" where
  "lines_exact ls \<longleftrightarrow> entries_exact (map as_entry ls)"

lemma lines_exact_fill [simp]: "lines_exact (map (fill_bill_line w) ls) = lines_exact ls"
proof -
  have q: "oe_qty (as_entry (fill_bill_line w l)) = oe_qty (as_entry l)" for l
    by (simp add: as_entry_def fill_bill_line_def)
  show ?thesis by (simp add: lines_exact_def entries_exact_def o_def q)
qed

lemma lines_exactD:
  assumes "lines_exact ls" "l \<in> set ls"
  shows "round4 (bl_qty l) = dec4 (line_qty l)" "small4 (line_qty l)"
proof -
  have "round4 (bl_qty l) = dec4 (qty4 (round4 (bl_qty l)))" and s: "(\<Sum>l\<leftarrow>ls. \<bar>line_qty l\<bar>) \<le> 2 ^ 43"
    using assms by (auto simp: lines_exact_def entries_exact_def as_entry_def line_qty_def o_def)
  then show "round4 (bl_qty l) = dec4 (line_qty l)" by (simp add: line_qty_def)
  have "\<bar>line_qty l\<bar> \<le> (\<Sum>l\<leftarrow>ls. \<bar>line_qty l\<bar>)"
    using assms(2) by (intro member_le_sum_list) auto
  with s show "small4 (line_qty l)" by (simp add: small4_def)
qed

lemma receipt_opens: "list_all2 (receipt b) ls js \<Longrightarrow> list_all2 opens (map as_entry ls) js"
  unfolding list_all2_map1 by (erule list_all2_mono) (auto simp: receipt_def opens_def as_entry_def)

lemma bump_received:
  assumes "plus_ok E" "\<forall>l\<in>set ls. round4 (bl_qty l) = dec4 (line_qty l) \<and> small4 (line_qty l)"
  shows "pl_received (bump E ls r) = pl_received r + (\<Sum>l\<leftarrow>ls. if nullUUID (bl_po_line l) = Some (pl_id r) then line_qty l else 0)"
  using assms(2)
proof (induction ls arbitrary: r)
  case (Cons l ls)
  have "pl_received (bump E [l] r) = pl_received r + (if nullUUID (bl_po_line l) = Some (pl_id r) then line_qty l else 0)"
    using Cons.prems assms(1) by (simp add: bump_def plus_ok_def)
  then show ?case using Cons by (simp add: bump_Cons[of E l ls])
qed (simp add: bump_Nil)

lemma received_by_Cons: "received_by (n # ns) i = (if bn_po_line n = Some i then bn_qty n else 0) + received_by ns i"
  by (simp add: received_by_def)

lemma received_by_nonneg: "\<forall>n\<in>set ns. 0 \<le> bn_qty n \<Longrightarrow> 0 \<le> received_by ns i"
  unfolding received_by_def by (rule sum_list_nonneg) auto

lemma received_by_split:
  "received_by ns i = received_by [n \<leftarrow> ns. P n] i + received_by [n \<leftarrow> ns. \<not> P n] i"
  by (induction ns) (auto simp: received_by_def)

text \<open>A line that has received at least what is taken back loses exactly that: \<open>GREATEST(0, ...)\<close> cuts nothing off.\<close>

lemma unbump_received:
  assumes "plus_ok E" "\<forall>n\<in>set ns. 0 \<le> bn_qty n \<and> small4 (bn_qty n)" "received_by ns (pl_id r) \<le> pl_received r"
  shows "pl_received (unbump E ns r) = pl_received r - received_by ns (pl_id r)"
  using assms(2,3)
proof (induction ns arbitrary: r)
  case (Cons n ns)
  have n: "0 \<le> bn_qty n" "small4 (- bn_qty n)" using Cons.prems(1) by (auto simp: small4_def)
  have rest: "0 \<le> received_by ns (pl_id r)" using Cons.prems(1) by (intro received_by_nonneg) auto
  have "db_plus E c (- dec4 (bn_qty n)) = c - bn_qty n" for c
    using assms(1) n(2) unfolding plus_ok_def dec4_uminus[symmetric] by simp
  then have "pl_received (unbump E [n] r) = pl_received r - (if bn_po_line n = Some (pl_id r) then bn_qty n else 0)"
    using Cons.prems(2) rest by (auto simp: unbump_def received_by_Cons)
  then show ?case using Cons by (simp add: unbump_Cons[of E n ns] received_by_Cons)
qed (simp add: unbump_Nil received_by_def)

text \<open>Aggregates read only the fixed part of the lines.\<close>

lemma received_by_core: "received_by ns i = (\<Sum>(b, p, k, w, q)\<leftarrow>map bn_core ns. if p = Some i then q else 0)"
  by (simp add: received_by_def bn_core_def o_def)

lemma received_by_delivered:
  assumes "delivered E b ls a a'"
  shows "received_by (bill_lines a') i = received_by (bill_lines a) i
    + (\<Sum>l\<leftarrow>ls. if nullUUID (bl_po_line l) = Some i then db_numeric E (round4 (bl_qty l)) else 0)"
  using assms unfolding received_by_core delivered_def by (simp add: line_core_def o_def)

section \<open>Bills, stock and purchase orders reconcile\<close>

definition row_key :: "movement_row \<Rightarrow> string \<times> string \<times> string \<times> int" where
  "row_key r = (mv_item r, mv_wh r, mv_dir r, mv_qty r)"

definition line_key :: "bill_line_row \<Rightarrow> string \<times> string \<times> string \<times> int" where
  "line_key n = (bn_item n, bn_wh n, dirIn, bn_qty n)"

text \<open>The ledger rows a document posted, and the lines a bill has.\<close>

definition ref_rows :: "string \<Rightarrow> inv_db \<Rightarrow> string \<Rightarrow> (string \<times> string \<times> string \<times> int) list" where
  "ref_rows ty d i = map row_key [r \<leftarrow> movements d. has_ref ty i r]"

abbreviation posted_rows :: "inv_db \<Rightarrow> string \<Rightarrow> (string \<times> string \<times> string \<times> int) list" where
  "posted_rows \<equiv> ref_rows ''bill''"

definition billed_rows :: "pur_db \<Rightarrow> string \<Rightarrow> (string \<times> string \<times> string \<times> int) list" where
  "billed_rows a i = map line_key (lines_of_bill a i)"

definition receipts_match :: "pur_db \<Rightarrow> bool" where
  "receipts_match a \<longleftrightarrow> (\<forall>r\<in>set (po_lines a). pl_received r = received_by (bill_lines a) (pl_id r))"

definition stock_matches :: "pur_db \<Rightarrow> bool" where
  "stock_matches a \<longleftrightarrow> (\<forall>i. posted_rows (pinv a) i = billed_rows a i)"

definition lines_ok :: "pur_db \<Rightarrow> bool" where
  "lines_ok a \<longleftrightarrow> (\<forall>n\<in>set (bill_lines a). 0 \<le> bn_qty n \<and> small4 (bn_qty n)) \<and> (\<forall>b\<in>set (bills a). trim_space (bi_id b) \<noteq> [])"

definition reconciled :: "pur_db \<Rightarrow> bool" where
  "reconciled a \<longleftrightarrow> receipts_match a \<and> stock_matches a \<and> lines_ok a \<and> agree (pd a)"

lemmas reconciled_parts = receipts_match_def stock_matches_def lines_ok_def

lemma ref_rows_core:
  "ref_rows ty d i = map (\<lambda>(x, k, w, t, dir, q, rt, ri, c). (k, w, dir, q))
     (filter (\<lambda>(x, k, w, t, dir, q, rt, ri, c). rt = Some ty \<and> ri = Some i) (map mv_core (movements d)))"
  by (simp add: ref_rows_def filter_map o_def mv_core_def row_key_def has_ref_def)

lemma billed_rows_core:
  "billed_rows a i = map (\<lambda>(b, p, k, w, q). (k, w, dirIn, q)) (filter (\<lambda>(b, p, k, w, q). b = i) (map bn_core (bill_lines a)))"
  by (simp add: billed_rows_def lines_of_bill_def filter_map o_def bn_core_def line_key_def)

text \<open>The rows a run adds, when all its movements name one document.\<close>

definition input_row :: "env \<Rightarrow> MovementInput \<Rightarrow> string \<times> string \<times> string \<times> int" where
  "input_row E j = (mi_item j, mi_wh j, mi_dir j, db_numeric E (mi_qty j))"

lemma run_ref_rows:
  assumes "drun E js d d'" "\<forall>j\<in>set js. mi_reftype j = ty \<and> mi_refid j = b" "nullStr ty = Some ty" "trim_space b \<noteq> []"
  shows "ref_rows ty (inv (tn d')) i = ref_rows ty (inv (tn d)) i @ (if i = b then map (input_row E) js else [])"
proof -
  from qm.run_log[of E] assms(1) obtain es where es: "movements (inv (tn d')) = movements (inv (tn d)) @ es" "list_all2 (row_for E) js es"
    unfolding drun_def by blast
  have key: "row_for E j e \<Longrightarrow> mi_reftype j = ty \<Longrightarrow> mi_refid j = b \<Longrightarrow> row_key e = input_row E j \<and> (has_ref ty i e \<longleftrightarrow> i = b)" for j e
    using assms(3,4) by (auto simp: row_for_def row_key_def input_row_def has_ref_def nullUUID_def)
  have "map row_key (filter (has_ref ty i) es) = (if i = b then map (input_row E) js else [])"
    using es(2) assms(2)
  proof (induction rule: list_all2_induct)
    case (Cons j js e es)
    then show ?case using key[of j e] by auto
  qed simp
  then show ?thesis by (simp add: ref_rows_def es(1))
qed

lemma posted_rows_delivered:
  assumes "delivered E b ls a a'" "trim_space b \<noteq> []"
  shows "posted_rows (pinv a') i = posted_rows (pinv a) i
    @ (if i = b then map (\<lambda>l. (bl_item l, bl_wh l, dirIn, db_numeric E (round4 (bl_qty l)))) ls else [])"
proof -
  from assms(1) obtain js where js: "drun E js (pd a) (pd a')" "list_all2 (receipt b) ls js" by (auto simp: delivered_def)
  have bill: "nullStr ''bill'' = Some ''bill''" by code_simp
  have "\<forall>j\<in>set js. mi_reftype j = ''bill'' \<and> mi_refid j = b"
      "map (input_row E) js = map (\<lambda>l. (bl_item l, bl_wh l, dirIn, db_numeric E (round4 (bl_qty l)))) ls"
    using js(2) by (induction rule: list_all2_induct) (simp_all add: receipt_def input_row_def)
  then show ?thesis using run_ref_rows[OF js(1) _ bill assms(2)] by simp
qed

lemma billed_rows_delivered:
  "delivered E b ls a a' \<Longrightarrow> billed_rows a' i = billed_rows a i
    @ (if i = b then map (\<lambda>l. (bl_item l, bl_wh l, dirIn, db_numeric E (round4 (bl_qty l)))) ls else [])"
  unfolding billed_rows_core delivered_def by (auto simp: line_core_def filter_map o_def)

lemma delivered_lines_ok:
  assumes "delivered E b ls a a'" "lines_ok a" "numeric_ok E" "lines_exact ls"
  shows "lines_ok a'"
proof -
  have ls: "\<forall>l\<in>set ls. round4 (bl_qty l) = dec4 (line_qty l) \<and> small4 (line_qty l)"
    using lines_exactD[OF assms(4)] by blast
  have num: "db_numeric E (round4 (bl_qty l)) = line_qty l" if "l \<in> set ls" for l
    using ls that assms(3) by (simp add: numeric_ok_def)
  obtain js where js: "drun E js (pd a) (pd a')" "list_all2 (receipt b) ls js" using assms(1) by (auto simp: delivered_def)
  from qm.run_log[of E] js(1) obtain es where es: "list_all2 (row_for E) js es" unfolding drun_def by blast
  have pos: "0 \<le> line_qty l" if "l \<in> set ls" for l
  proof -
    from that js(2) obtain j where j: "j \<in> set js" "receipt b l j" by (metis list_all2_conv_all_nth in_set_conv_nth)
    with es obtain e where "row_for E j e" by (metis list_all2_conv_all_nth in_set_conv_nth)
    then have "\<not> dec4 (line_qty l) \<le> epsilon" using j(2) ls that by (auto simp: row_for_def receipt_def)
    then show ?thesis using dec4_le_epsilon[of "line_qty l"] ls that by auto
  qed
  have old: "bn_core n \<in> set (map bn_core (bill_lines a)) \<or> (\<exists>l\<in>set ls. bn_core n = line_core E b l)"
    if "n \<in> set (bill_lines a')" for n
  proof -
    have "bn_core n \<in> set (map bn_core (bill_lines a'))" using that by simp
    then show ?thesis using assms(1) unfolding delivered_def by auto
  qed
  have "0 \<le> bn_qty n \<and> small4 (bn_qty n)" if n: "n \<in> set (bill_lines a')" for n
  proof -
    consider m where "m \<in> set (bill_lines a)" "bn_core n = bn_core m" | l where "l \<in> set ls" "bn_core n = line_core E b l"
      using old[OF n] by auto
    then show ?thesis
      by cases (use assms(2) pos ls num in \<open>auto simp: lines_ok_def bn_core_def line_core_def\<close>)
  qed
  then show ?thesis using assms(1,2) by (simp add: lines_ok_def delivered_def)
qed

text \<open>Receiving keeps bills, stock and purchase orders reconciled.\<close>

lemma delivered_reconciled:
  assumes "delivered E b ls a a'" "reconciled a" "roomy Q (pd a)" "trim_space b \<noteq> []"
    and "numeric_ok E" "plus_ok E" "lines_exact ls"
  shows "reconciled a'"
proof -
  have ls: "\<forall>l\<in>set ls. round4 (bl_qty l) = dec4 (line_qty l) \<and> small4 (line_qty l)"
    using lines_exactD[OF assms(7)] by blast
  have num: "db_numeric E (round4 (bl_qty l)) = line_qty l" if "l \<in> set ls" for l
    using ls that assms(5) by (simp add: numeric_ok_def)
  have sum: "(\<Sum>l\<leftarrow>ls. if nullUUID (bl_po_line l) = Some i then db_numeric E (round4 (bl_qty l)) else 0)
      = (\<Sum>l\<leftarrow>ls. if nullUUID (bl_po_line l) = Some i then line_qty l else 0)" for i
    by (rule arg_cong[of _ _ sum_list]) (auto simp: num)
  have "receipts_match a'"
    using assms(1,2) received_by_delivered[OF assms(1)] bump_received[OF assms(6) ls]
    by (auto simp: receipts_match_def reconciled_def delivered_def sum)
  moreover have "stock_matches a'"
    using assms(2) posted_rows_delivered[OF assms(1,4)] billed_rows_delivered[OF assms(1)]
    by (simp add: stock_matches_def reconciled_def)
  moreover obtain js where js: "drun E js (pd a) (pd a')" "list_all2 (receipt b) ls js" using assms(1) by (auto simp: delivered_def)
  have "agree (pd a')"
    by (rule drun_agree[OF js(1) opens_exact[OF receipt_opens[OF js(2)] assms(7)[unfolded lines_exact_def] assms(5)]])
      (use roomy_on_hand[OF assms(3)] assms(2) in \<open>auto simp: reconciled_def\<close>)
  moreover have "lines_ok a'" by (rule delivered_lines_ok[OF assms(1) _ assms(5,7)]) (use assms(2) in \<open>simp add: reconciled_def\<close>)
  ultimately show ?thesis by (simp add: reconciled_def)
qed

lemma purge_ref_rows:
  assumes "purge E ty b d = Inr d'" "roomy Q d" "numeric_ok E"
  shows "ref_rows ty (inv (tn d')) i = (if i = b then [] else ref_rows ty (inv (tn d)) i)"
proof -
  from assms(1) obtain pairs idb where p: "purgeMovementsByRef E ty b (inv (tn d)) = Inr (pairs, idb)" "d' = set_inv idb d"
    by (auto simp: purge_def res_simps)
  have "map mv_core (movements idb) = map mv_core [r \<leftarrow> movements (inv (tn d)). \<not> has_ref ty b r]"
    using purge_effect[OF p(1) _ assms(3), of Q] assms(2) by (simp add: ledger_room_def rebuilt_def same_ledger_def)
  then have "ref_rows ty idb i = ref_rows ty ((inv (tn d))\<lparr>movements := [r \<leftarrow> movements (inv (tn d)). \<not> has_ref ty b r]\<rparr>) i"
    unfolding ref_rows_core by simp
  also have "\<dots> = (if i = b then [] else ref_rows ty (inv (tn d)) i)"
    by (auto simp: ref_rows_def has_ref_def intro!: arg_cong[of _ _ "map row_key"] filter_cong)
  finally show ?thesis by (simp add: p(2))
qed

text \<open>Taking a bill back does too.\<close>

lemma taken_back_reconciled:
  assumes "purge E ''bill'' b (pd a) = Inr d" "reconciled a" "roomy Q (pd a)" "numeric_ok E" "plus_ok E"
  shows "reconciled (taken_back E b d a)" "roomy Q (pd (taken_back E b d a))"
proof -
  have r: "receipts_match a" "stock_matches a" "lines_ok a" "agree (pd a)" using assms(2) by (simp_all add: reconciled_def)
  note p = purge_agree[OF assms(1,3,4) r(4)]
  have ns: "\<forall>n\<in>set (bill_lines a). 0 \<le> bn_qty n \<and> small4 (bn_qty n)" using r(3) by (simp add: lines_ok_def)
  have split: "received_by (bill_lines a) i = received_by (lines_of_bill a b) i + received_by [n \<leftarrow> bill_lines a. bn_bill n \<noteq> b] i" for i
    using received_by_split[of "bill_lines a" i "\<lambda>n. bn_bill n = b"] by (simp add: lines_of_bill_def)
  have "receipts_match (taken_back E b d a)"
    unfolding receipts_match_def taken_back_def
  proof (clarsimp)
    fix r0 assume r0: "r0 \<in> set (po_lines a)"
    have "0 \<le> received_by [n \<leftarrow> bill_lines a. bn_bill n \<noteq> b] (pl_id r0)" by (rule received_by_nonneg) (use ns in auto)
    then show "pl_received (unbump E (lines_of_bill a b) r0) = received_by [n \<leftarrow> bill_lines a. bn_bill n \<noteq> b] (pl_id r0)"
      using unbump_received[OF assms(5), of "lines_of_bill a b" r0] r(1) r0 ns split[of "pl_id r0"]
      by (auto simp: receipts_match_def lines_of_bill_def)
  qed
  moreover have "stock_matches (taken_back E b d a)"
    using r(2) purge_ref_rows[OF assms(1,3,4)]
    by (auto simp: stock_matches_def taken_back_def billed_rows_def lines_of_bill_def intro!: arg_cong[of _ _ "map line_key"] filter_cong)
  moreover have "lines_ok (taken_back E b d a)" using r(3) by (auto simp: lines_ok_def taken_back_def)
  ultimately show "reconciled (taken_back E b d a)" "roomy Q (pd (taken_back E b d a))"
    using p by (simp_all add: reconciled_def taken_back_def)
qed

section \<open>Histories of requests\<close>

datatype pur_call =
    NewPO PurchaseOrderParams
  | EditPO string PurchaseOrderParams
  | ClosePO string
  | CancelPO string
  | DropPO string
  | NewBill CreateBillParams
  | EditBill string CreateBillParams
  | DropBill string

fun purchase :: "env \<Rightarrow> (string \<Rightarrow> string option) \<Rightarrow> clock \<Rightarrow> AuthUser option \<Rightarrow> pur_call \<Rightarrow> pur_db \<Rightarrow> pur_db" where
  "purchase E pg ck auth (NewPO p) a = snd (CreatePurchaseOrder E pg ck auth p a)"
| "purchase E pg ck auth (EditPO i p) a = snd (UpdatePurchaseOrder E pg ck auth i p a)"
| "purchase E pg ck auth (ClosePO i) a = snd (ClosePurchaseOrder E auth i a)"
| "purchase E pg ck auth (CancelPO i) a = snd (CancelPurchaseOrder E auth i a)"
| "purchase E pg ck auth (DropPO i) a = snd (DeletePurchaseOrder E ck auth i a)"
| "purchase E pg ck auth (NewBill p) a = snd (CreateBill E pg ck auth p a)"
| "purchase E pg ck auth (EditBill i p) a = snd (UpdateBill E pg ck auth i p a)"
| "purchase E pg ck auth (DropBill i) a = snd (DeleteBill E ck auth i a)"

text \<open>What a request commits; the handlers add checks, and writes to the books and the settings row.\<close>

inductive settles :: "env \<Rightarrow> pur_call \<Rightarrow> pur_db \<Rightarrow> pur_db \<Rightarrow> bool" for E where
  new_po: "create_po_tx E pg u p d w ls s a = Inr (x, b) \<Longrightarrow> settles E (NewPO p) a b"
| edit_po: "find_po a i = Some r \<Longrightarrow> po_status r = ''open'' \<Longrightarrow> update_po_tx E pg i p d w ls s a = Inr (x, b) \<Longrightarrow>
    settles E (EditPO i p) a b"
| close_po: "settles E (ClosePO i) a (set_po_status (closable i) ''closed'' a)"
| cancel_po: "settles E (CancelPO i) a (set_po_status (cancellable i) ''cancelled'' a)"
| drop_po: "settles E (DropPO i) a (delete_po i a)"
| new_bill: "create_bill_tx E pg u p d w (map (fill_bill_line w) (cb_lines p)) a = Inr (x, b) \<Longrightarrow> settles E (NewBill p) a b"
| edit_bill: "find_bill a i = Some r \<Longrightarrow> update_bill_tx E pg u r p d w (map (fill_bill_line w) (cb_lines p)) a = Inr (x, b) \<Longrightarrow>
    settles E (EditBill i p) a b"
| drop_bill: "find_bill a i = Some r \<Longrightarrow> delete_bill_tx E r a = Inr b \<Longrightarrow> settles E (DropBill i) a b"

definition with_books :: "fin_db \<Rightarrow> pur_db \<Rightarrow> pur_db" where
  "with_books fd a = a\<lparr>pd := set_fin fd (pd a)\<rparr>"

definition with_setting :: "setting_row \<Rightarrow> pur_db \<Rightarrow> pur_db" where
  "with_setting s a = a\<lparr>pd := set_inv ((pinv a)\<lparr>inv_setting := Some s\<rparr>) (pd a)\<rparr>"

lemma book_bill_eq: "book_bill E ck u st i no x a = Inr b \<Longrightarrow> \<exists>fd. b = with_books fd a"
  by (auto simp: book_bill_def with_books_def on_shared_eq set_fin_self dest!: book_eq split: if_splits
      intro: exI[of _ "pfin a"])

lemma remove_refs_eq: "remove_refs E refs a = (e, b) \<Longrightarrow> \<exists>fd. b = with_books fd a"
  by (auto simp: remove_refs_def with_books_def dest!: remove_entries_eq split: prod.splits)

lemma loadSetting_eq: "loadSetting E a = Inr (s, b) \<Longrightarrow> b = a \<or> b = with_setting s a"
  by (auto simp: loadSetting_def with_setting_def res_simps split: option.splits)

lemma find_frames [simp]: "find_bill (with_books fd a) i = find_bill a i" "find_bill (with_setting s a) i = find_bill a i"
  "find_po (with_books fd a) i = find_po a i" "find_po (with_setting s a) i = find_po a i"
  by (simp_all add: find_bill_def find_po_def with_books_def with_setting_def)

lemma loaded_po: "getPurchaseOrder E a i = Inr v \<Longrightarrow> find_po a i = Some (pv_row v)"
  by (auto simp: getPurchaseOrder_def res_simps split: option.splits)

lemma loaded_bill: "getBill E a i = Inr v \<Longrightarrow> find_bill a i = Some (bv_row v)"
  by (auto simp: getBill_def res_simps split: option.splits)

locale purchase_invariant =
  fixes ok :: "env \<Rightarrow> pur_call \<Rightarrow> pur_db \<Rightarrow> bool" and I :: "pur_db \<Rightarrow> bool"
  assumes step: "settles E c a b \<Longrightarrow> ok E c a \<Longrightarrow> I a \<Longrightarrow> I b"
    and books: "I a \<Longrightarrow> I (with_books fd a)" and books_ok: "ok E c a \<Longrightarrow> ok E c (with_books fd a)"
    and setting: "I a \<Longrightarrow> I (with_setting s a)" and setting_ok: "ok E c a \<Longrightarrow> ok E c (with_setting s a)"
begin

lemmas keeps = keeps_try[of I] keeps_tx[of I] keeps_out[of I]

lemma loaded: "loadSetting E a = Inr (s, b) \<Longrightarrow> I a \<Longrightarrow> ok E' c a \<Longrightarrow> I b \<and> ok E' c b"
  using setting setting_ok by (auto dest: loadSetting_eq)

lemma loaded_find: "loadSetting E a = Inr (s, b) \<Longrightarrow> find_bill b i = find_bill a i"
  by (auto dest: loadSetting_eq)

lemma new_po_keeps: "I a \<Longrightarrow> ok E (NewPO p) a \<Longrightarrow> I (snd (CreatePurchaseOrder E pg ck auth p a))"
  unfolding CreatePurchaseOrder_def Let_def by (intro keeps) (auto intro: step[OF new_po])

lemma edit_po_keeps: "I a \<Longrightarrow> ok E (EditPO i p) a \<Longrightarrow> I (snd (UpdatePurchaseOrder E pg ck auth i p a))"
  unfolding UpdatePurchaseOrder_def Let_def
  by (intro keeps) (auto simp: res_simps intro: step[OF edit_po[OF loaded_po]])

lemma status_keeps:
  "I a \<Longrightarrow> ok E (ClosePO i) a \<Longrightarrow> I (snd (ClosePurchaseOrder E auth i a))"
  "I a \<Longrightarrow> ok E (CancelPO i) a \<Longrightarrow> I (snd (CancelPurchaseOrder E auth i a))"
  "I a \<Longrightarrow> ok E (DropPO i) a \<Longrightarrow> I (snd (DeletePurchaseOrder E ck auth i a))"
  unfolding ClosePurchaseOrder_def CancelPurchaseOrder_def DeletePurchaseOrder_def Let_def
  by (intro keeps; auto simp: res_simps intro: step[OF close_po] step[OF cancel_po] step[OF drop_po])+

lemma booked: "book_bill E ck u st i no x b = Inr c \<Longrightarrow> I b \<Longrightarrow> I c"
  using books by (auto dest: book_bill_eq)

lemma new_bill_keeps:
  assumes "I a" "ok E (NewBill p) a"
  shows "I (snd (CreateBill E pg ck auth p a))"
  unfolding CreateBill_def Let_def
proof (intro keeps(1), goal_cases)
  case (6 u u' u'' d v)
  show ?case
  proof (rule keeps(2)[OF assms(1)])
    fix st b
    assume "as_internal ''setting.load'' (loadSetting E a) = Inr (st, b)"
    then have "I b" "ok E (NewBill p) b" using loaded[OF _ assms] by (simp_all add: res_simps)
    then show "I (snd (try_reply b (if st_expense st then CheckCurrentPeriodUnlocked E (ck_period ck) (ck_today ck) (pfin b) else Inr ()) (\<lambda>_.
        try_reply b (check_bill_lines E (tn (pd b)) (map (fill_bill_line (trim_space (cb_wh p))) (cb_lines p))) (\<lambda>_.
        in_tx b (create_bill_tx E pg u p d (trim_space (cb_wh p)) (map (fill_bill_line (trim_space (cb_wh p))) (cb_lines p)) b) (\<lambda>(billID, billNo) db2.
        try_reply db2 (book_bill E ck u st billID billNo (sumBillLines (map (fill_bill_line (trim_space (cb_wh p))) (cb_lines p))) db2) (\<lambda>db3.
        (getBill E db3 billID, db3)))))))"
      by (intro keeps) (auto split: prod.splits intro!: keeps intro: booked step[OF new_bill])
  qed
qed (use assms in auto)

lemma edit_bill_keeps:
  assumes "I a" "ok E (EditBill i p) a"
  shows "I (snd (UpdateBill E pg ck auth i p a))"
  unfolding UpdateBill_def Let_def
proof (intro keeps(1), goal_cases)
  case (7 u u' u'' v ex x)
  have tail: "I (snd (case remove_refs E refs b of (Some e, db2) \<Rightarrow> (Inl e, db2)
       | (None, db2) \<Rightarrow> in_tx db2 (update_bill_tx E pg u (bv_row ex) p d w (map (fill_bill_line w) (cb_lines p)) db2) (\<lambda>_ db3.
           try_reply db3 (book_bill E ck u st i no y db3) (\<lambda>db4. (getBill E db4 i, db4)))))"
    if b: "I b" "ok E (EditBill i p) b" "find_bill b i = Some (bv_row ex)" for refs b st d w no y
  proof -
    obtain e c where c: "remove_refs E refs b = (e, c)" by (cases "remove_refs E refs b")
    from remove_refs_eq[OF this] b have "I c" "ok E (EditBill i p) c" "find_bill c i = Some (bv_row ex)"
      using books books_ok by auto
    then show ?thesis using c by (cases e) (auto intro!: keeps intro: booked step[OF edit_bill])
  qed
  have load: "I b \<and> ok E (EditBill i p) b \<and> find_bill b i = Some (bv_row ex)"
    if "as_internal ''setting.load'' (loadSetting E a) = Inr (st, b)" for st b
    using that loaded[OF _ assms] loaded_find loaded_bill[OF 7(5)] by (simp add: res_simps)
  show ?case
    by (intro keeps) (use assms load tail in auto)
qed (use assms in auto)

lemma drop_bill_keeps:
  assumes "I a" "ok E (DropBill i) a"
  shows "I (snd (DeleteBill E ck auth i a))"
  unfolding DeleteBill_def
proof (intro keeps, goal_cases)
  case (7 u v w bill x movs)
  obtain e c where c: "remove_refs E (movementFinanceRefs i movs) a = (e, c)" by (cases "remove_refs E (movementFinanceRefs i movs) a")
  from remove_refs_eq[OF this] loaded_bill 7 assms have "I c" "ok E (DropBill i) c" "find_bill c i = Some (bv_row bill)"
    using books books_ok by auto
  then show ?case using c by (cases e) (auto intro!: keeps intro: step[OF drop_bill])
qed (use assms in auto)

lemma purchase_keeps: "I a \<Longrightarrow> ok E c a \<Longrightarrow> I (purchase E pg ck auth c a)"
  by (cases c) (auto intro: new_po_keeps edit_po_keeps status_keeps new_bill_keeps edit_bill_keeps drop_bill_keeps)

end

type_synonym pur_request = "env \<times> (string \<Rightarrow> string option) \<times> clock \<times> AuthUser option \<times> pur_call"

fun purchases :: "pur_request list \<Rightarrow> pur_db \<Rightarrow> pur_db" where
  "purchases [] a = a"
| "purchases ((E, pg, ck, auth, c) # rs) a = purchases rs (purchase E pg ck auth c a)"

fun all_ok :: "(env \<Rightarrow> pur_call \<Rightarrow> pur_db \<Rightarrow> bool) \<Rightarrow> pur_request list \<Rightarrow> pur_db \<Rightarrow> bool" where
  "all_ok ok [] a = True"
| "all_ok ok ((E, pg, ck, auth, c) # rs) a = (ok E c a \<and> all_ok ok rs (purchase E pg ck auth c a))"

context purchase_invariant
begin

lemma purchases_keep: "I a \<Longrightarrow> all_ok ok rs a \<Longrightarrow> I (purchases rs a)"
  by (induction rs a rule: purchases.induct) (auto intro: purchase_keeps)

end

section \<open>Purchase orders leave stock and bills alone\<close>

text \<open>\<open>adds_lines E x a b\<close>: lines with nothing received, under new identifiers, were added to the order \<open>x\<close>.\<close>

definition adds_lines :: "env \<Rightarrow> string \<Rightarrow> pur_db \<Rightarrow> pur_db \<Rightarrow> bool" where
  "adds_lines E x a b \<longleftrightarrow> quiet (pd a) (pd b) \<and> pos b = pos a \<and> bills b = bills a \<and> bill_lines b = bill_lines a
     \<and> next_uuid (pinv a) \<le> next_uuid (pinv b)
     \<and> (\<exists>new. po_lines b = po_lines a @ new \<and> (\<forall>r\<in>set new. pl_received r = 0 \<and> pl_po r = x
          \<and> (\<exists>n\<ge>next_uuid (pinv a). pl_id r = db_uuid E n)))"

lemma adds_lines_refl: "adds_lines E x a a"
  by (simp add: adds_lines_def)

lemma adds_lines_trans:
  assumes "adds_lines E x a b" "adds_lines E x b c"
  shows "adds_lines E x a c"
proof -
  from assms obtain m n where m: "po_lines b = po_lines a @ m" "\<forall>r\<in>set m. pl_received r = 0 \<and> pl_po r = x \<and> (\<exists>n\<ge>next_uuid (pinv a). pl_id r = db_uuid E n)"
    and n: "po_lines c = po_lines b @ n" "\<forall>r\<in>set n. pl_received r = 0 \<and> pl_po r = x \<and> (\<exists>n\<ge>next_uuid (pinv b). pl_id r = db_uuid E n)"
    unfolding adds_lines_def by blast
  have le: "next_uuid (pinv a) \<le> next_uuid (pinv b)" "next_uuid (pinv b) \<le> next_uuid (pinv c)" using assms by (simp_all add: adds_lines_def)
  have "\<forall>r\<in>set (m @ n). pl_received r = 0 \<and> pl_po r = x \<and> (\<exists>n\<ge>next_uuid (pinv a). pl_id r = db_uuid E n)"
    using m(2) n(2) le(1) order_trans by (metis Un_iff set_append)
  then show ?thesis using assms m(1) n(1) le quiet_trans unfolding adds_lines_def by auto
qed

lemma insert_po_line_adds: "insert_po_line E x l a = Inr b \<Longrightarrow> adds_lines E x a b"
  by (auto simp: insert_po_line_def fresh_pair Let_def res_simps adds_lines_def quiet_fresh)
    (auto simp: new_id_def fresh_uuid_def)

lemma insert_po_lines_add: "efold (insert_po_line E x) ls a = Inr b \<Longrightarrow> adds_lines E x a b"
proof (induction ls arbitrary: a)
  case (Cons l ls)
  then show ?case using insert_po_line_adds adds_lines_trans by (fastforce simp: res_simps)
qed (simp add: adds_lines_refl)

lemma create_po_txE:
  assumes "create_po_tx E pg u p d w ls s a = Inr (i, b)"
  obtains a1 row where "quiet (pd a) (pd a1)" "i = db_uuid E (next_uuid (pinv a))" "next_uuid (pinv a) \<le> next_uuid (pinv a1)"
    "pos a1 = pos a @ [row]" "po_id row = i" "po_status row = ''open''"
    "po_lines a1 = po_lines a" "bills a1 = bills a" "bill_lines a1 = bill_lines a" "adds_lines E i a1 b"
proof -
  from assms obtain no d1 dt where s: "nextDocNumber E DocPO DocPO (pd a) = Inr (no, d1)" "i = db_uuid E (next_uuid (inv (tn d1)))"
      "efold (insert_po_line E i) ls (a\<lparr>pd := snd (new_id E d1), pos := pos a @ [\<lparr>po_id = i, po_no = no,
         po_supplier = nullStr (pp_supplier p), po_contact = nullUUID (pp_contact p), po_wh = nullUUID w, po_status = ''open'',
         po_date = dt, po_note = nullStr (pp_note p), po_subtotal = db_numeric E (round4 s), po_by = nullUUID (AccountID u),
         po_created = db_now E, po_deleted = False\<rparr>]\<rparr>) = Inr b"
    unfolding create_po_tx_def ebind_eq_Inr fresh_pair Let_def prod.case
    by (auto simp: res_simps shared_eq split: option.splits if_splits)
  have u: "next_uuid (inv (tn d1)) = next_uuid (pinv a)" using s(1) by (auto simp: nextDocNumber_eq)
  have q: "quiet (pd a) (snd (new_id E d1))"
    using quiet_trans[OF quiet_number[OF s(1)] quiet_fresh[of "a\<lparr>pd := d1\<rparr>" E, simplified]] by simp
  from that[OF _ _ _ _ _ _ _ _ _ insert_po_lines_add[OF s(3)]] show ?thesis
    using q u s(2) by (simp add: new_id_def fresh_uuid_def)
qed

lemma update_po_txE:
  assumes "update_po_tx E pg i p d w ls s a = Inr (x, b)"
  obtains f where "\<And>r. po_id (f r) = po_id r \<and> po_status (f r) = po_status r \<and> po_deleted (f r) = po_deleted r"
    "adds_lines E i (a\<lparr>po_lines := [l \<leftarrow> po_lines a. pl_po l \<noteq> i], pos := map f (pos a)\<rparr>) b"
proof -
  let ?f = "\<lambda>dt r. if po_id r = i then r\<lparr>po_supplier := nullStr (pp_supplier p), po_contact := nullUUID (pp_contact p),
         po_wh := nullUUID w, po_date := dt, po_note := nullStr (pp_note p), po_subtotal := db_numeric E (round4 s)\<rparr> else r"
  from assms obtain dt where "efold (insert_po_line E i) ls (a\<lparr>po_lines := [l \<leftarrow> po_lines a. pl_po l \<noteq> i], pos := map (?f dt) (pos a)\<rparr>) = Inr b"
    unfolding update_po_tx_def ebind_eq_Inr by (auto simp: res_simps split: option.splits)
  from that[OF _ insert_po_lines_add[OF this]] show ?thesis by simp
qed

text \<open>No bill line names an identifier that is still to be handed out.\<close>

definition unclaimed :: "env \<Rightarrow> pur_db \<Rightarrow> bool" where
  "unclaimed E a \<longleftrightarrow> (\<forall>n\<ge>next_uuid (pinv a). \<forall>m\<in>set (bill_lines a). bn_po_line m \<noteq> Some (db_uuid E n))"

lemma quiet_reconciled:
  assumes "quiet (pd a) (pd b)" "bills b = bills a" "bill_lines b = bill_lines a" "reconciled a" "receipts_match b"
  shows "reconciled b"
  using assms same_stock_facts[of "pinv a" "pinv b"]
  by (auto simp: reconciled_def reconciled_parts ref_rows_def billed_rows_def lines_of_bill_def quiet_def same_stock_def)

lemma received_by_unclaimed: "\<forall>m\<in>set ns. bn_po_line m \<noteq> Some i \<Longrightarrow> received_by ns i = 0"
  by (induction ns) (simp_all add: received_by_def)

lemma adds_lines_reconciled:
  assumes "adds_lines E x a b" "reconciled a" "unclaimed E a"
  shows "reconciled b"
proof (rule quiet_reconciled[of a])
  from assms(1) obtain new where "po_lines b = po_lines a @ new" "bill_lines b = bill_lines a"
      "\<forall>r\<in>set new. pl_received r = 0 \<and> (\<exists>n\<ge>next_uuid (pinv a). pl_id r = db_uuid E n)"
    by (auto simp: adds_lines_def)
  then show "receipts_match b" using assms(2,3) received_by_unclaimed
    by (fastforce simp: receipts_match_def reconciled_def unclaimed_def)
qed (use assms in \<open>simp_all add: adds_lines_def\<close>)

section \<open>The reconciliation through every history\<close>

definition exact_store :: "int \<Rightarrow> env \<Rightarrow> pur_db \<Rightarrow> bool" where
  "exact_store Q E a \<longleftrightarrow> numeric_ok E \<and> plus_ok E \<and> roomy Q (pd a) \<and> (\<forall>n. trim_space (db_uuid E n) \<noteq> [])"

fun exact_purchase :: "int \<Rightarrow> env \<Rightarrow> pur_call \<Rightarrow> pur_db \<Rightarrow> bool" where
  "exact_purchase Q E (NewPO p) a = unclaimed E a"
| "exact_purchase Q E (EditPO i p) a = unclaimed E a"
| "exact_purchase Q E (NewBill p) a = (exact_store Q E a \<and> lines_exact (cb_lines p))"
| "exact_purchase Q E (EditBill i p) a = (exact_store Q E a \<and> lines_exact (cb_lines p))"
| "exact_purchase Q E (DropBill i) a = exact_store Q E a"
| "exact_purchase Q E c a = True"

lemma settle_reconciled [simp]: "reconciled (settle x a) = reconciled a" "reconciled (reopened y a) = reconciled a"
    "reconciled (a\<lparr>pos := ps\<rparr>) = reconciled a" "reconciled (set_po_status P s a) = reconciled a"
  by (simp_all add: reconciled_def reconciled_parts billed_rows_def lines_of_bill_def)

lemma fewer_bills_reconciled: "reconciled a \<Longrightarrow> \<forall>b\<in>set bs. trim_space (bi_id b) \<noteq> [] \<Longrightarrow> reconciled (a\<lparr>bills := bs\<rparr>)"
  by (simp add: reconciled_def reconciled_parts billed_rows_def lines_of_bill_def)

lemma fewer_lines_reconciled: "reconciled a \<Longrightarrow> set ls \<subseteq> set (po_lines a) \<Longrightarrow> reconciled (a\<lparr>po_lines := ls\<rparr>)"
  by (auto simp: reconciled_def reconciled_parts billed_rows_def lines_of_bill_def)

lemma new_bill_reconciled:
  assumes "create_bill_tx E pg u p d w ls a = Inr ((i, no), b)" "exact_store Q E a" "lines_exact ls" "reconciled a"
  shows "reconciled b"
  using assms(1)
proof (rule create_bill_txE)
  fix a1 row c
  assume q: "quiet (pd a) (pd a1)" and i: "i = db_uuid E (next_uuid (pinv a))"
    and t: "pos a1 = pos a" "po_lines a1 = po_lines a" "bill_lines a1 = bill_lines a" "bills a1 = bills a @ [row]"
    and row: "bi_id row = i" and c: "delivered E i ls a1 c" and b: "b = settle (cb_po p) c"
  have E: "numeric_ok E" "plus_ok E" "roomy Q (pd a)" "trim_space i \<noteq> []" using assms(2) i by (simp_all add: exact_store_def)
  have "reconciled a1" using assms(4) q t row E(4) same_stock_facts[of "pinv a" "pinv a1"]
    by (auto simp: reconciled_def reconciled_parts ref_rows_def billed_rows_def lines_of_bill_def quiet_def same_stock_def)
  moreover have "roomy Q (pd a1)"
    using E(3) q by (simp add: quiet_def same_stock_def ledger_room_def ledger_small_def keyed_def)
  ultimately show "reconciled b" using delivered_reconciled[OF c _ _ E(4,1,2) assms(3)] b by simp
qed

lemma edit_bill_reconciled:
  assumes "update_bill_tx E pg u ex p d w ls a = Inr (x, b)" "ex \<in> set (bills a)" "exact_store Q E a" "lines_exact ls" "reconciled a"
  shows "reconciled b"
  using assms(1)
proof (rule update_bill_txE)
  fix d1 f c
  assume pu: "purge E ''bill'' (bi_id ex) (pd a) = Inr d1" and f: "\<And>r. bi_id (f r) = bi_id r \<and> bi_po (f r) = bi_po r"
    and c: "delivered E (bi_id ex) ls ((taken_back E (bi_id ex) d1 a)\<lparr>bills := map f (bills a)\<rparr>) c" and b: "b = settle (col (bi_po ex)) c"
  have E: "numeric_ok E" "plus_ok E" "roomy Q (pd a)" using assms(3) by (simp_all add: exact_store_def)
  have ids: "\<forall>b\<in>set (bills a). trim_space (bi_id b) \<noteq> []" using assms(5) by (simp add: reconciled_def lines_ok_def)
  note s = taken_back_reconciled[OF pu assms(5) E(3,1,2)]
  have "reconciled ((taken_back E (bi_id ex) d1 a)\<lparr>bills := map f (bills a)\<rparr>)"
    by (rule fewer_bills_reconciled[OF s(1)]) (use f ids in auto)
  moreover have "trim_space (bi_id ex) \<noteq> []" using ids assms(2) by blast
  ultimately show "reconciled b" using delivered_reconciled[OF c _ _ _ E(1,2) assms(4)] s(2) b by simp
qed

lemma drop_bill_reconciled:
  assumes "delete_bill_tx E r a = Inr b" "exact_store Q E a" "reconciled a"
  shows "reconciled b"
  using assms(1)
proof (rule delete_bill_txE)
  fix d1
  assume pu: "purge E ''bill'' (bi_id r) (pd a) = Inr d1"
    and b: "b = (reopened (bi_po r) (taken_back E (bi_id r) d1 a))\<lparr>bills := [s \<leftarrow> bills a. bi_id s \<noteq> bi_id r]\<rparr>"
  have "reconciled (taken_back E (bi_id r) d1 a)"
    using taken_back_reconciled(1)[OF pu assms(3), of Q] assms(2) by (simp add: exact_store_def)
  moreover have "\<forall>b\<in>set (bills a). trim_space (bi_id b) \<noteq> []" using assms(3) by (simp add: reconciled_def lines_ok_def)
  ultimately show "reconciled b" unfolding b by (intro fewer_bills_reconciled) auto
qed

lemma found_bill: "find_bill a i = Some r \<Longrightarrow> r \<in> set (bills a) \<and> bi_id r = i"
  by (auto simp: find_bill_def find_Some_iff)

lemma new_po_reconciled:
  assumes "create_po_tx E pg u p d w ls s a = Inr (i, b)" "unclaimed E a" "reconciled a"
  shows "reconciled b"
  using assms(1)
proof (rule create_po_txE)
  fix a1 row
  assume a: "quiet (pd a) (pd a1)" "next_uuid (pinv a) \<le> next_uuid (pinv a1)" "po_lines a1 = po_lines a" "bills a1 = bills a"
      "bill_lines a1 = bill_lines a" "adds_lines E i a1 b"
  have "reconciled a1" by (rule quiet_reconciled[OF a(1) a(4,5) assms(3)]) (use assms(3) a in \<open>simp add: reconciled_def receipts_match_def\<close>)
  moreover have "unclaimed E a1" using assms(2) a by (auto simp: unclaimed_def)
  ultimately show "reconciled b" using adds_lines_reconciled a(6) by blast
qed

lemma edit_po_reconciled:
  assumes "update_po_tx E pg i p d w ls s a = Inr (x, b)" "unclaimed E a" "reconciled a"
  shows "reconciled b"
  using assms(1)
proof (rule update_po_txE)
  fix f assume b: "adds_lines E i (a\<lparr>po_lines := [l \<leftarrow> po_lines a. pl_po l \<noteq> i], pos := map f (pos a)\<rparr>) b"
  show "reconciled b"
    by (rule adds_lines_reconciled[OF b]) (use assms(2,3) in \<open>auto simp: unclaimed_def intro: fewer_lines_reconciled\<close>)
qed

lemma delete_po_reconciled: "reconciled a \<Longrightarrow> reconciled (delete_po i a)"
  using fewer_lines_reconciled[of "a\<lparr>pos := [r \<leftarrow> pos a. po_id r \<noteq> i]\<rparr>" "[l \<leftarrow> po_lines a. pl_po l \<noteq> i]"]
  by (auto simp: delete_po_def)

lemma settles_reconciled:
  assumes "settles E c a b" "exact_purchase Q E c a" "reconciled a"
  shows "reconciled b"
  using assms(1)
proof cases
  case (new_bill pg u p d w x)
  then show ?thesis using assms(2,3) new_bill_reconciled by (cases x) auto
qed (use assms(2,3) in \<open>auto intro: new_po_reconciled edit_po_reconciled edit_bill_reconciled drop_bill_reconciled
    delete_po_reconciled dest: found_bill\<close>)

interpretation reconciliation: purchase_invariant "exact_purchase Q" reconciled for Q
proof
  fix E c a fd s
  show "reconciled a \<Longrightarrow> reconciled (with_books fd a)" "reconciled a \<Longrightarrow> reconciled (with_setting s a)"
    by (auto simp: reconciled_def reconciled_parts with_books_def with_setting_def ref_rows_def billed_rows_def lines_of_bill_def
        bal_ok_def on_hand_def ledger_net_def pair_rows_def)
  show "exact_purchase Q E c a \<Longrightarrow> exact_purchase Q E c (with_books fd a)"
    "exact_purchase Q E c a \<Longrightarrow> exact_purchase Q E c (with_setting s a)"
    by (cases c; auto simp: with_books_def with_setting_def unclaimed_def exact_store_def ledger_room_def ledger_small_def keyed_def)+
qed (rule settles_reconciled)

end
