(* ===== verification/Sales_Laws.thy ===== *)
theory Sales_Laws
  imports Sales Purchasing_Laws
begin

text \<open>
  Correctness of invoices and sales returns over whole histories of requests: what the ledger has
  under a return is what its lines say, an order never gets back more of an item than it sold as
  long as no request names an item twice, and an order has at most one live invoice. The locale
  \<open>sales_invariant\<close> lifts an invariant from the transactions to the handlers and to histories.
\<close>

declare split_paired_All [simp del] split_paired_Ex [simp del]

section \<open>What a return takes back\<close>

lemma sal_id_eq: "sal_id E a = (db_uuid E (next_uuid (sinv a)), a\<lparr>sd := snd (new_id E (sd a))\<rparr>)"
  by (simp add: sal_id_def new_id_def fresh_uuid_def)

lemma quiet_snd_new_id [simp]: "quiet d (snd (new_id E d))"
  by (simp add: new_id_def fresh_uuid_def quiet_def same_stock_def)

lemma next_number_eq:
  "next_number E dt a = Inr (no, b) \<longleftrightarrow> (\<exists>d. nextDocNumber E dt dt (sd a) = Inr (no, d) \<and> b = a\<lparr>sd := d\<rparr>)"
  by (auto simp: next_number_def res_simps)

text \<open>The part of a return line the checks and the ledger depend on.\<close>

definition rb_core :: "return_line_row \<Rightarrow> string \<times> string \<times> string \<times> int" where
  "rb_core l = (rb_return l, rb_item l, rb_wh l, rb_qty l)"

definition ret_core :: "env \<Rightarrow> (SalesReturnLineInput \<Rightarrow> string) \<Rightarrow> string \<Rightarrow> SalesReturnLineInput \<Rightarrow> string \<times> string \<times> string \<times> int" where
  "ret_core E w i l = (i, rn_item l, w l, db_numeric E (round4 (rn_qty l)))"

definition goods :: "(SalesReturnLineInput \<Rightarrow> string) \<Rightarrow> string \<Rightarrow> SalesReturnLineInput \<Rightarrow> MovementInput \<Rightarrow> bool" where
  "goods w i l j \<longleftrightarrow> input_key j = (rn_item l, w l) \<and> mi_item j = rn_item l \<and> mi_wh j = w l \<and> mi_qty j = round4 (rn_qty l)
     \<and> mi_dir j = dirIn \<and> mi_type j = MovementReturnIn \<and> mi_reftype j = ''sales_return'' \<and> mi_refid j = i"

text \<open>Everything but the shared tables and the lines of returns is the same.\<close>

definition beside :: "sal_db \<Rightarrow> sal_db \<Rightarrow> bool" where
  "beside a b \<longleftrightarrow> s_orders b = s_orders a \<and> invoices b = invoices a \<and> invoice_lines b = invoice_lines a
     \<and> sales_returns b = sales_returns a"

definition taken_in :: "env \<Rightarrow> (SalesReturnLineInput \<Rightarrow> string) \<Rightarrow> string \<Rightarrow> SalesReturnLineInput list \<Rightarrow> sal_db \<Rightarrow> sal_db \<Rightarrow> bool" where
  "taken_in E w i ls a b \<longleftrightarrow> beside a b
     \<and> map rb_core (return_lines b) = map rb_core (return_lines a) @ map (ret_core E w i) ls
     \<and> (\<exists>js. drun E js (sd a) (sd b) \<and> list_all2 (goods w i) ls js)"

lemma taken_in_Nil: "taken_in E w i [] a a"
  by (auto simp: taken_in_def beside_def intro!: drun_quiet)

lemma taken_in_Cons:
  assumes "taken_in E w i [l] x y" "taken_in E w i ls y z"
  shows "taken_in E w i (l # ls) x z"
proof -
  from assms obtain js ks where j: "drun E js (sd x) (sd y)" "list_all2 (goods w i) [l] js"
      "drun E ks (sd y) (sd z)" "list_all2 (goods w i) ls ks"
    by (auto simp: taken_in_def)
  have "list_all2 (goods w i) (l # ls) (js @ ks)" using list_all2_appendI[OF j(2,4)] by simp
  then show ?thesis using assms drun_append[OF j(1,3)] by (auto simp: taken_in_def beside_def)
qed

lemma post_return_line_taken:
  assumes "post_return_line E pool o' cost i no acc l (t, a) = Inr (t', b)"
  shows "taken_in E (return_wh E pool) i [l] a b"
proof -
  let ?w = "return_wh E pool l" and ?u = "weightedItemCost cost (rn_item l)"
  let ?s = "orderSaleMovementID E (sinv pool) o' (rn_item l)"
  from assms obtain cc res d where s: "post E (return_input l ?w ?u cc i no ?s acc) (sd a) = Inr (res, d)"
      "insert_return_line E i l ?w ?u (mr_id res) ?s (a\<lparr>sd := d\<rparr>) = Inr b"
    unfolding post_return_line_def prod.case Let_def ebind_eq_Inr by (auto simp: res_simps)
  from s(2) have b: "sd b = snd (new_id E d)" "beside a b"
      "map rb_core (return_lines b) = map rb_core (return_lines a) @ [ret_core E (return_wh E pool) i l]"
    by (auto simp: insert_return_line_def sal_id_eq Let_def res_simps rb_core_def ret_core_def beside_def)
  have "quiet d (sd b)" by (simp add: b(1))
  from drun_append[OF drun_post[OF s(1)] drun_quiet[OF this]]
  have "drun E [return_input l ?w ?u cc i no ?s acc] (sd a) (sd b)" by simp
  moreover have "goods (return_wh E pool) i l (return_input l ?w ?u cc i no ?s acc)"
    by (simp add: goods_def return_input_def no_input_def input_key_def)
  ultimately show ?thesis using b by (auto simp: taken_in_def)
qed

lemma post_return_lines_taken:
  "efold (post_return_line E pool o' cost i no acc) ls (t, a) = Inr (t', b) \<Longrightarrow> taken_in E (return_wh E pool) i ls a b"
proof (induction ls arbitrary: t a)
  case Nil
  then show ?case by (simp add: taken_in_Nil)
next
  case (Cons l ls)
  then obtain u y where "post_return_line E pool o' cost i no acc l (t, a) = Inr (u, y)"
      "efold (post_return_line E pool o' cost i no acc) ls (u, y) = Inr (t', b)"
    by (auto simp: res_simps)
  from taken_in_Cons[OF post_return_line_taken[OF this(1)] Cons.IH[OF this(2)]] show ?case .
qed

section \<open>The transactions\<close>

lemma update_return_simps [simp]:
  "sd (update_return i f a) = sd a" "s_orders (update_return i f a) = s_orders a" "invoices (update_return i f a) = invoices a"
  "invoice_lines (update_return i f a) = invoice_lines a" "return_lines (update_return i f a) = return_lines a"
  "sales_returns (update_return i f a) = map (\<lambda>r. if sr_id r = i then f r else r) (sales_returns a)"
  by (simp_all add: update_return_def)

text \<open>What the documents look like to the rest of the system: identifier, order and whether the return counts.\<close>

definition sr_core :: "return_row \<Rightarrow> string \<times> string option \<times> string \<times> bool" where
  "sr_core r = (sr_id r, sr_order r, sr_status r, sr_deleted r)"

lemma create_return_txE:
  assumes "create_return_tx E today acc p contact cost a = Inr ((i, no, t), b)"
  obtains a1 c where "quiet (sd a) (sd a1)" "i = db_uuid E (next_uuid (sinv a))" "s_orders a1 = s_orders a" "invoices a1 = invoices a"
    "invoice_lines a1 = invoice_lines a" "return_lines a1 = return_lines a"
    "map sr_core (sales_returns a1) = map sr_core (sales_returns a) @ [(i, nullUUID (cr_order p), ''posted'', False)]"
    "taken_in E (return_wh E a) i (cr_lines p) a1 c" "sd b = sd c" "s_orders b = s_orders c" "invoices b = invoices c"
    "invoice_lines b = invoice_lines c" "return_lines b = return_lines c" "map sr_core (sales_returns b) = map sr_core (sales_returns c)"
proof -
  from assms obtain d1 a1 c where s: "nextDocNumber E DocReturn DocReturn (sd a) = Inr (no, d1)"
      "insert_return E today acc p contact no (a\<lparr>sd := d1\<rparr>) = Inr (i, a1)"
      "efold (post_return_line E a (cr_order p) cost i no acc) (cr_lines p) (0, a1) = Inr (t, c)"
      "b = update_return i (\<lambda>r. r\<lparr>sr_cost := db_numeric E (round4 t)\<rparr>) c"
    unfolding create_return_tx_def ebind_eq_Inr by (auto simp: res_simps next_number_eq)
  have u: "next_uuid (inv (tn d1)) = next_uuid (sinv a)" using s(1) by (auto simp: nextDocNumber_eq)
  have a1: "sd a1 = snd (new_id E d1)" "i = db_uuid E (next_uuid (sinv a))" "s_orders a1 = s_orders a" "invoices a1 = invoices a"
      "invoice_lines a1 = invoice_lines a" "return_lines a1 = return_lines a"
      "map sr_core (sales_returns a1) = map sr_core (sales_returns a) @ [(i, nullUUID (cr_order p), ''posted'', False)]"
    using s(2) u by (auto simp: insert_return_def sal_id_eq Let_def res_simps sr_core_def split: if_splits)
  have q: "quiet (sd a) (sd a1)" using quiet_trans[OF quiet_number[OF s(1)] quiet_snd_new_id[of d1 E]] by (simp add: a1(1))
  have "map sr_core (sales_returns b) = map sr_core (sales_returns c)" by (simp add: s(4) sr_core_def o_def if_distrib cong: if_cong)
  then show ?thesis using that[OF q a1(2-7) post_return_lines_taken[OF s(3)]] by (simp add: s(4))
qed

lemma update_return_txE:
  assumes "update_return_tx E acc ex o' contact note ls cost a = Inr (t, b)"
  obtains d1 c where "purge E ''sales_return'' (sr_id ex) (sd a) = Inr d1"
    "taken_in E (return_wh E a) (sr_id ex) ls (a\<lparr>sd := d1, return_lines := [l \<leftarrow> return_lines a. rb_return l \<noteq> sr_id ex]\<rparr>) c"
    "sd b = sd c" "s_orders b = s_orders c" "invoices b = invoices c" "invoice_lines b = invoice_lines c" "return_lines b = return_lines c"
    "map sr_core (sales_returns b) = map sr_core (sales_returns a)"
proof -
  let ?s = "\<lambda>d1. a\<lparr>sd := d1, return_lines := [l \<leftarrow> return_lines a. rb_return l \<noteq> sr_id ex]\<rparr>"
  let ?r = "\<lambda>d1. update_return (sr_id ex) (\<lambda>r. r\<lparr>sr_note := nullStr note, sr_cost := 0\<rparr>) (?s d1)"
  from assms obtain d1 c where s: "purge E ''sales_return'' (sr_id ex) (sd a) = Inr d1"
      "efold (post_return_line E a o' cost (sr_id ex) (sr_no ex) acc) ls (0, ?r d1) = Inr (t, c)"
      "b = update_return (sr_id ex) (\<lambda>r. r\<lparr>sr_cost := db_numeric E (round4 t), sr_contact := nullUUID contact\<rparr>) c"
    unfolding update_return_tx_def purge_return_def ebind_eq_Inr by (auto simp: res_simps)
  from post_return_lines_taken[OF s(2)] have c: "taken_in E (return_wh E a) (sr_id ex) ls (?r d1) c" .
  then have "taken_in E (return_wh E a) (sr_id ex) ls (?s d1) (c\<lparr>sales_returns := sales_returns a\<rparr>)"
    by (simp add: taken_in_def beside_def)
  moreover have "map sr_core (sales_returns b) = map sr_core (sales_returns a)"
    using c by (simp add: s(3) taken_in_def beside_def sr_core_def o_def if_distrib cong: if_cong)
  ultimately show ?thesis using that[OF s(1)] by (simp add: s(3))
qed

lemma delete_return_txE:
  assumes "delete_return_tx E i a = Inr b"
  obtains d1 where "purge E ''sales_return'' i (sd a) = Inr d1" "b = delete_return i (a\<lparr>sd := d1\<rparr>)"
  using assms unfolding delete_return_tx_def purge_return_def by (auto simp: res_simps)

lemma insert_invoice_lines:
  "efold (insert_invoice_line E i cost) ls (t, a) = Inr (t', b) \<Longrightarrow>
     quiet (sd a) (sd b) \<and> s_orders b = s_orders a \<and> invoices b = invoices a \<and> sales_returns b = sales_returns a
     \<and> return_lines b = return_lines a"
proof (induction ls arbitrary: t a)
  case (Cons l ls)
  then obtain u y where "insert_invoice_line E i cost l (t, a) = Inr (u, y)" "efold (insert_invoice_line E i cost) ls (u, y) = Inr (t', b)"
    by (auto simp: res_simps)
  from this(1) Cons.IH[OF this(2)] show ?case
    using quiet_trans[OF quiet_snd_new_id[of "sd a" E]]
    by (auto simp: insert_invoice_line_def sal_id_eq Let_def res_simps)
qed simp

definition in_core :: "invoice_row \<Rightarrow> string \<times> string \<times> string option \<times> bool" where
  "in_core r = (in_id r, in_no r, in_order r, in_deleted r)"

lemma create_invoice_txE:
  assumes "create_invoice_tx E today acc o' io cost a = Inr (i, b)"
  obtains no where "quiet (sd a) (sd b)" "i = db_uuid E (next_uuid (sinv a))" "s_orders b = s_orders a"
    "sales_returns b = sales_returns a" "return_lines b = return_lines a"
    "map in_core (invoices b) = map in_core (invoices a) @ [(i, no, Some o', False)]"
    "\<forall>r\<in>set (invoices a). in_order r = Some o' \<or> in_no r = no \<longrightarrow> in_deleted r"
proof -
  from assms obtain no d1 a1 t c where s: "nextDocNumber E DocInvoice DocInvoice (sd a) = Inr (no, d1)"
      "insert_invoice E today acc o' io no (a\<lparr>sd := d1\<rparr>) = Inr (i, a1)"
      "efold (insert_invoice_line E i cost) (io_lines io) (0, a1) = Inr (t, c)"
      "b = c\<lparr>invoices := map (\<lambda>r. if in_id r = i then r\<lparr>in_cogs := db_numeric E (round4 t)\<rparr> else r) (invoices c)\<rparr>"
    unfolding create_invoice_tx_def ebind_eq_Inr by (auto simp: res_simps next_number_eq)
  have u: "next_uuid (inv (tn d1)) = next_uuid (sinv a)" using s(1) by (auto simp: nextDocNumber_eq)
  have a1: "sd a1 = snd (new_id E d1)" "i = db_uuid E (next_uuid (sinv a))" "s_orders a1 = s_orders a" "sales_returns a1 = sales_returns a"
      "return_lines a1 = return_lines a" "map in_core (invoices a1) = map in_core (invoices a) @ [(i, no, Some o', False)]"
      "\<forall>r\<in>set (invoices a). in_order r = Some o' \<or> in_no r = no \<longrightarrow> in_deleted r"
    using s(2) u by (auto simp: insert_invoice_def sal_id_eq Let_def res_simps in_core_def list_ex_iff split: if_splits)
  note c = insert_invoice_lines[OF s(3)]
  have q: "quiet (sd a) (sd b)"
    using quiet_trans[OF quiet_number[OF s(1)] quiet_trans[OF quiet_snd_new_id[of d1 E]]] c by (simp add: s(4) a1(1))
  have "map in_core (invoices b) = map in_core (invoices a1)"
    using c by (simp add: s(4) in_core_def o_def if_distrib cong: if_cong)
  with that[OF q a1(2)] show ?thesis using c a1 by (simp add: s(4))
qed

section \<open>What is left to return\<close>

definition sold_rows :: "inv_db \<Rightarrow> string \<Rightarrow> string \<Rightarrow> int list" where
  "sold_rows d o' x = map sale_qty [r \<leftarrow> order_rows_of d o'. mv_item r = x]"

text \<open>What an order issued of an item, in all warehouses, less what it put back.\<close>

definition sold_qty :: "inv_db \<Rightarrow> string \<Rightarrow> string \<Rightarrow> int" where
  "sold_qty d o' x = sum_list (sold_rows d o' x)"

lemma mget_sale:
  "ne_qty (mget zero_net (fold add_sale rows m) x)
     = fold (\<lambda>n acc. fl (acc + dec4 n)) (map sale_qty [r \<leftarrow> rows. mv_item r = x]) (ne_qty (mget zero_net m x))"
  by (induction rows arbitrary: m) (auto simp: add_sale_def Let_def sale_qty_def dec4_uminus)

lemma sold_approx:
  assumes "orderItemSaleCost E a o' = Inr cost" "tally_ok (sold_rows (sinv a) o' x)"
  shows "approx (ne_qty (mget zero_net cost x)) (sold_qty (sinv a) o' x) (1 / 500)"
proof -
  have "cost = fold add_sale (order_rows_of (sinv a) o') []"
    using assms(1) by (auto simp: orderItemSaleCost_def res_simps order_rows_of_def)
  then have "ne_qty (mget zero_net cost x) = fold (\<lambda>n acc. fl (acc + dec4 n)) (sold_rows (sinv a) o' x) 0"
    by (simp only: mget_sale mget_Nil sold_rows_def) (simp add: zero_net_def)
  then show ?thesis using tally_approx[OF assms(2)] by (simp add: sold_qty_def)
qed

lemma mget_returned:
  assumes "orderReturnedQty E a o' = Inr m"
  shows "mget 0 m x = dec4 (returned_qty a o' x)"
proof (cases "x \<in> rb_item ` set (returned_lines a o')")
  case True
  have "map_of [(i, dec4 (returned_qty a o' i)). i \<leftarrow> is] x = (if x \<in> set is then Some (dec4 (returned_qty a o' x)) else None)" for "is"
    by (induction "is") auto
  then show ?thesis using assms True by (auto simp: orderReturnedQty_def res_simps mget_def map_get_def)
next
  case False
  have none: "\<forall>l\<in>set ls. rb_item l \<noteq> x \<Longrightarrow> (\<Sum>l\<leftarrow>ls. if rb_item l = x then rb_qty l else 0) = 0" for ls
    by (induction ls) auto
  have "returned_qty a o' x = 0" unfolding returned_qty_def by (rule none) (use False in blast)
  moreover have "mget 0 m x = 0"
    using assms False by (intro mget_unbound) (auto simp: orderReturnedQty_def res_simps)
  ultimately show ?thesis by simp
qed

text \<open>A quantity with four decimals is accepted exactly when no more than it is left.\<close>

lemma returnable_approx:
  assumes "approx s m (1 / 500)" "approx r n (1 / 500)" "\<bar>m\<bar> \<le> 2 ^ 43" "\<bar>n\<bar> \<le> 2 ^ 43"
  shows "returnableQty s r = dec4 (max 0 (m - n))"
proof -
  have b: "small4 m" "small4 (- n)" "small4 (m - n)" using assms(3,4) by (auto simp: small4_def)
  from small4_fl_approx[OF b(1,2)] approx_diff[OF assms(1,2)]
  have "approx (fl (s - r)) (m - n) (1 / 100)" "\<bar>m - n\<bar> \<le> 2 ^ 50" by simp_all
  then have "round4 (fl (s - r)) = dec4 (m - n)" by (intro round4_approx) (auto elim: approx_mono)
  moreover have "dec4 (m - n) < 0 \<longleftrightarrow> m - n < 0" using dec4_less_iff[OF b(3), of 0] by (simp add: small4_def)
  ultimately show ?thesis by (auto simp: returnableQty_def Let_def max_def)
qed

lemma approx_less_epsilon: "small4 n \<Longrightarrow> approx (dec4 n - epsilon) n (13 / 1000)"
proof -
  assume "small4 n"
  from small4_approx[OF this] have "\<bar>dec4 n * 10 ^ 4 - of_int n\<bar> \<le> 1 / 500" by (simp add: approx_def)
  moreover have "(dec4 n - epsilon) * 10 ^ 4 = dec4 n * 10 ^ 4 - epsilon * 10 ^ 4" by (simp add: left_diff_distrib)
  ultimately show ?thesis using epsilon_bounds unfolding approx_def by linarith
qed

lemma fits_iff:
  assumes "small4 m" "small4 n"
  shows "dec4 m < fl (dec4 n - epsilon) \<longleftrightarrow> m < n"
proof -
  let ?x = "dec4 n - epsilon"
  have b: "\<bar>rat_of_int n\<bar> \<le> 2 ^ 44" using of_int_abs_le[of n "2 ^ 44"] assms(2) by (simp add: small4_def)
  have "approx (fl ?x) n (13 / 1000 + 2 ^ 45 / 2 ^ 53 + 1 / 2 ^ 100)"
    by (rule approx_fl[OF approx_less_epsilon[OF assms(2)]]) (use b in simp)
  then have "approx (fl ?x) n (1 / 4)" by (rule approx_mono) simp
  from approx_compare[OF small4_approx[OF assms(1)] this] have less: "m < n \<Longrightarrow> dec4 m < fl ?x" by simp
  have "\<bar>?x * 10 ^ 4\<bar> \<le> 2 ^ 44 + 1" using approx_less_epsilon[OF assms(2)] b unfolding approx_def by linarith
  then have "\<bar>?x\<bar> * 10 ^ 4 \<le> 2 ^ 44 + 1" unfolding abs_mult by simp
  then have "\<bar>?x\<bar> \<le> (2 ^ 44 + 1) / 10 ^ 4" by (simp add: pos_le_divide_eq)
  from fl_error_le[OF this] have "\<bar>fl ?x - ?x\<bar> \<le> (2 ^ 44 + 1) / 10 ^ 4 / 2 ^ 53 + tiny" .
  moreover have "(2 ^ 44 + 1) / 10 ^ 4 / 2 ^ 53 + tiny \<le> (8 / 10 ^ 7 :: rat)" using tiny_le by simp
  ultimately have "fl ?x \<le> dec4 n" using epsilon_bounds(2) by simp
  moreover have "n \<le> m \<Longrightarrow> dec4 n \<le> dec4 m" using dec4_less_iff[OF assms] by force
  ultimately show ?thesis using less by force
qed

text \<open>The running subtraction of \<open>exclude_line\<close>, which never goes below zero.\<close>

definition clamp_sub :: "int \<Rightarrow> f64 \<Rightarrow> f64" where
  "clamp_sub n acc = (let q = fl (acc - dec4 n) in if q < 0 then 0 else q)"

lemma mget_excluded:
  "mget 0 (fold exclude_line ls m) x = fold clamp_sub (map rb_qty [l \<leftarrow> ls. rb_item l = x]) (mget 0 m x)"
  by (induction ls arbitrary: m) (auto simp: exclude_line_def clamp_sub_def Let_def)

lemma approx_clamp: "approx q n d \<Longrightarrow> 0 \<le> n \<Longrightarrow> approx (if q < 0 then 0 else q) n d"
proof -
  assume a: "approx q n d" "0 \<le> n"
  have "q < 0 \<Longrightarrow> q * 10 ^ 4 < 0" "0 \<le> rat_of_int n" using a(2) by simp_all
  then show ?thesis using a(1) unfolding approx_def by (auto split: if_splits)
qed

lemma running_sub:
  assumes "approx a s e" "0 \<le> s - sum_list ns" "\<forall>n\<in>set ns. 0 \<le> n" "s \<le> T" "0 \<le> e" "e + of_nat (length ns) * step_err T \<le> 1"
  shows "approx (fold clamp_sub ns a) (s - sum_list ns) (e + of_nat (length ns) * step_err T)"
  using assms
proof (induction ns arbitrary: a s e)
  case (Cons n ns)
  have n: "0 \<le> n" "0 \<le> sum_list ns" using Cons.prems(3) by (auto intro: sum_list_nonneg)
  then have T: "0 \<le> T" "\<bar>n\<bar> \<le> T" "\<bar>s - n\<bar> \<le> T" "0 \<le> s - n" using Cons.prems(2,4) by auto
  let ?d = "of_int T / 2 ^ 53 + 1 / 2 ^ 100 :: rat"
  have "approx (dec4 n) n ?d" using of_int_abs_le[OF T(2)] by (rule approx_dec4)
  from approx_diff[OF Cons.prems(1) this] have sub: "approx (a - dec4 n) (s - n) (e + ?d)" .
  have pos: "0 < step_err T" using T(1) by (rule step_err_pos)
  have "?d \<le> step_err T" using T(1) unfolding step_err_def by (simp add: field_simps)
  moreover have e1: "e + step_err T \<le> 1"
  proof -
    have "0 \<le> of_nat (length ns) * step_err T" using pos by simp
    then show ?thesis using Cons.prems(6) by (simp add: algebra_simps)
  qed
  ultimately have "\<bar>rat_of_int (s - n)\<bar> + (e + ?d) \<le> of_int T + 1"
    using of_int_abs_le[OF T(3)] by linarith
  from approx_fl[OF sub this] have "approx (fl (a - dec4 n)) (s - n) (e + step_err T)"
    by (rule approx_mono) (simp add: step_err_def field_simps)
  then have "approx (clamp_sub n a) (s - n) (e + step_err T)"
    unfolding clamp_sub_def Let_def using T(4) by (rule approx_clamp)
  from Cons.IH[OF this] Cons.prems pos n show ?case by (simp add: algebra_simps)
qed simp

lemma err_room:
  assumes "(int k + 1) * (T + 1) \<le> 2 ^ 42" "0 \<le> T"
  shows "of_nat k * step_err T \<le> 1 / 500"
proof -
  have "rat_of_int ((int k + 1) * (T + 1)) \<le> of_int (2 ^ 42)" using assms(1) by (rule of_int_le_iff[THEN iffD2])
  then have prod: "(rat_of_nat k + 1) * (rat_of_int T + 1) \<le> 2 ^ 42" by simp
  have "rat_of_nat k * (rat_of_int T + 1) \<le> (rat_of_nat k + 1) * (rat_of_int T + 1)"
      "rat_of_nat k + 1 \<le> (rat_of_nat k + 1) * (rat_of_int T + 1)"
    using assms(2) by (simp_all add: mult_right_mono algebra_simps)
  with prod have b: "rat_of_nat k * (rat_of_int T + 1) \<le> 2 ^ 42" "rat_of_nat k \<le> 2 ^ 42" by linarith+
  have "rat_of_nat k * step_err T = 2 * (rat_of_nat k * (rat_of_int T + 1)) / 2 ^ 53 + 2 * rat_of_nat k / 2 ^ 100"
    by (simp add: step_err_def algebra_simps)
  also have "\<dots> \<le> 2 * 2 ^ 42 / 2 ^ 53 + 2 * 2 ^ 42 / 2 ^ 100"
    using b by (intro add_mono divide_right_mono mult_left_mono) auto
  also have "\<dots> \<le> 1 / 500" by simp
  finally show ?thesis .
qed

lemma excluded_approx:
  assumes "\<forall>n\<in>set ns. 0 \<le> n" "sum_list ns \<le> R" "(int (length ns) + 2) * (R + 1) \<le> 2 ^ 42"
  shows "approx (fold clamp_sub ns (dec4 R)) (R - sum_list ns) (1 / 500)"
proof -
  have R: "0 \<le> R" using assms(1,2) sum_list_nonneg[of ns] by auto
  have "approx (dec4 R) R (of_int R / 2 ^ 53 + 1 / 2 ^ 100)" using R by (intro approx_dec4) simp
  then have start: "approx (dec4 R) R (step_err R)"
    by (rule approx_mono) (use R in \<open>simp add: step_err_def field_simps\<close>)
  have "(int (Suc (length ns)) + 1) * (R + 1) \<le> 2 ^ 42" using assms(3) by (simp add: algebra_simps)
  from err_room[OF this R] have "step_err R + of_nat (length ns) * step_err R \<le> 1 / 500" by (simp add: algebra_simps)
  moreover have "0 \<le> step_err R" using step_err_pos[OF R] by simp
  ultimately show ?thesis using running_sub[OF start _ assms(1), of R] assms(2) by (auto elim: approx_mono)
qed

section \<open>The checks of a return\<close>

lemma check_return_lines_iff:
  "check_return_lines cost m ls = Inr () \<longleftrightarrow> (\<forall>l\<in>set ls. \<not> rn_qty l \<le> epsilon
     \<and> \<not> returnableQty (ne_qty (mget zero_net cost (rn_item l))) (mget 0 m (rn_item l)) < fl (rn_qty l - epsilon))"
proof -
  have "efold (return_line_step cost m) (List.enumerate k ls) () = Inr () \<longleftrightarrow> (\<forall>l\<in>set ls. \<not> rn_qty l \<le> epsilon
     \<and> \<not> returnableQty (ne_qty (mget zero_net cost (rn_item l))) (mget 0 m (rn_item l)) < fl (rn_qty l - epsilon))" for k
    by (induction ls arbitrary: k) (auto simp: return_line_step_def Let_def res_simps)
  then show ?thesis by (simp add: check_return_lines_def)
qed

text \<open>A line as a count of ten-thousandths, and requests whose quantities have four decimals.\<close>

definition rn_count :: "SalesReturnLineInput \<Rightarrow> int" where
  "rn_count l = qty4 (rn_qty l)"

definition return_exact :: "SalesReturnLineInput list \<Rightarrow> bool" where
  "return_exact ls \<longleftrightarrow> (\<forall>l\<in>set ls. rn_qty l = dec4 (rn_count l)) \<and> (\<Sum>l\<leftarrow>ls. \<bar>rn_count l\<bar>) \<le> 2 ^ 43"

lemma return_exactD:
  assumes "return_exact ls" "l \<in> set ls"
  shows "rn_qty l = dec4 (rn_count l)" "small4 (rn_count l)" "\<bar>rn_count l\<bar> \<le> 2 ^ 43"
proof -
  show "rn_qty l = dec4 (rn_count l)" using assms by (simp add: return_exact_def)
  have "\<bar>rn_count l\<bar> \<le> (\<Sum>l\<leftarrow>ls. \<bar>rn_count l\<bar>)" using assms(2) by (intro member_le_sum_list) auto
  then show "\<bar>rn_count l\<bar> \<le> 2 ^ 43" "small4 (rn_count l)" using assms(1) by (simp_all add: return_exact_def small4_def)
qed

text \<open>An accepted line takes something back, and no more than what was sold and not returned before.\<close>

lemma accepted_line:
  assumes "check_return_lines cost m ls = Inr ()" "return_exact ls" "l \<in> set ls"
    and "approx (ne_qty (mget zero_net cost (rn_item l))) sold (1 / 500)" "approx (mget 0 m (rn_item l)) back (1 / 500)"
    and "\<bar>sold\<bar> \<le> 2 ^ 43" "\<bar>back\<bar> \<le> 2 ^ 43"
  shows "0 < rn_count l" "rn_count l + back \<le> sold"
proof -
  note n = return_exactD[OF assms(2,3)]
  have c: "\<not> rn_qty l \<le> epsilon" "\<not> dec4 (max 0 (sold - back)) < fl (rn_qty l - epsilon)"
    using assms(1,3) returnable_approx[OF assms(4-7)] by (auto simp: check_return_lines_iff)
  then show "0 < rn_count l" using dec4_le_epsilon[OF n(2)] n(1) by auto
  have "small4 (max 0 (sold - back))" using assms(6,7) by (auto simp: small4_def)
  from fits_iff[OF this n(2)] c(2)[unfolded n(1)] have "rn_count l \<le> max 0 (sold - back)" by (metis not_less)
  then show "rn_count l + back \<le> sold" using \<open>0 < rn_count l\<close> by auto
qed

section \<open>Returned quantities\<close>

definition line_sum :: "(string \<times> string \<times> string \<times> int) list \<Rightarrow> string \<Rightarrow> string \<Rightarrow> int" where
  "line_sum cs i x = (\<Sum>(r, k, w, q)\<leftarrow>cs. if r = i \<and> k = x then q else 0)"

definition back_sum ::
  "(string \<times> string option \<times> string \<times> bool) list \<Rightarrow> (string \<times> string \<times> string \<times> int) list \<Rightarrow> string \<Rightarrow> string \<Rightarrow> int"
where
  "back_sum ss cs o' x = (\<Sum>(i, od, st, del)\<leftarrow>ss. if od = Some o' \<and> st = ''posted'' \<and> \<not> del then line_sum cs i x else 0)"

lemma returned_lines_sum:
  "(\<Sum>l\<leftarrow>[l. r \<leftarrow> rs, counted_return o' r, l \<leftarrow> ls, rb_return l = sr_id r]. if rb_item l = x then rb_qty l else 0)
     = back_sum (map sr_core rs) (map rb_core ls) o' x"
proof (induction rs)
  case (Cons r rs)
  have one: "(\<Sum>l\<leftarrow>[l. l \<leftarrow> ls, rb_return l = sr_id r]. if rb_item l = x then rb_qty l else 0) = line_sum (map rb_core ls) (sr_id r) x"
    by (induction ls) (simp_all add: line_sum_def rb_core_def)
  show ?case using Cons one by (auto simp: back_sum_def sr_core_def counted_return_def)
qed (simp add: back_sum_def)

lemma returned_core: "returned_qty a o' x = back_sum (map sr_core (sales_returns a)) (map rb_core (return_lines a)) o' x"
  unfolding returned_qty_def returned_lines_def by (rule returned_lines_sum)

lemma line_sum_append: "line_sum (cs @ ds) i x = line_sum cs i x + line_sum ds i x"
  by (simp add: line_sum_def)

text \<open>Replacing the lines of the return \<open>i\<close>.\<close>

lemma line_sum_replace:
  "\<forall>d\<in>set ds. fst d = i \<Longrightarrow>
     line_sum ([c \<leftarrow> cs. fst c \<noteq> i] @ ds) j x = (if j = i then line_sum ds i x else line_sum cs j x)"
proof -
  assume ds: "\<forall>d\<in>set ds. fst d = i"
  have "line_sum [c \<leftarrow> cs. fst c \<noteq> i] j x = (if j = i then 0 else line_sum cs j x)"
    by (induction cs) (auto simp: line_sum_def)
  moreover have "j \<noteq> i \<Longrightarrow> line_sum ds j x = 0" using ds by (induction ds) (auto simp: line_sum_def)
  ultimately show ?thesis by (simp add: line_sum_append)
qed

lemma back_sum_replace:
  assumes "distinct (map fst ss)" "\<forall>d\<in>set ds. fst d = i"
  shows "back_sum ss ([c \<leftarrow> cs. fst c \<noteq> i] @ ds) o' x
    = back_sum ss cs o' x + (if (i, Some o', ''posted'', False) \<in> set ss then line_sum ds i x - line_sum cs i x else 0)"
  using assms(1)
proof (induction ss)
  case (Cons s ss)
  obtain j od st del where s: "s = (j, od, st, del)" by (cases s)
  have out: "j = i \<Longrightarrow> (i, y) \<notin> set ss" for y using Cons.prems s by force
  show ?case
    using Cons out[of "(Some o', ''posted'', False)"] unfolding s by (auto simp: back_sum_def line_sum_replace[OF assms(2)])
qed (simp add: back_sum_def)

lemma line_sum_absent: "\<forall>c\<in>set cs. fst c \<noteq> i \<Longrightarrow> line_sum cs i x = 0"
  by (induction cs) (auto simp: line_sum_def)

lemma line_sum_nonneg: "\<forall>(r, k, w, q)\<in>set cs. 0 \<le> q \<Longrightarrow> 0 \<le> line_sum cs i x"
  unfolding line_sum_def by (rule sum_list_nonneg) auto

lemma back_sum_nonneg: "\<forall>(r, k, w, q)\<in>set cs. 0 \<le> q \<Longrightarrow> 0 \<le> back_sum ss cs o' x"
  unfolding back_sum_def by (rule sum_list_nonneg) (auto intro: line_sum_nonneg)

lemma back_sum_member:
  assumes "(i, Some o', ''posted'', False) \<in> set ss" "\<forall>(r, k, w, q)\<in>set cs. 0 \<le> q"
  shows "line_sum cs i x \<le> back_sum ss cs o' x"
proof -
  have "line_sum cs i x \<in> set (map (\<lambda>(i, od, st, del). if od = Some o' \<and> st = ''posted'' \<and> \<not> del then line_sum cs i x else 0) ss)"
    using assms(1) by force
  then show ?thesis unfolding back_sum_def
    by (rule member_le_sum_list) (use assms(2) line_sum_nonneg in auto)
qed

lemma sum_one_key:
  "distinct (map f ss) \<Longrightarrow> 0 \<le> q \<Longrightarrow> (\<Sum>s\<leftarrow>ss. if P s \<and> f s = r then q else 0) \<le> (if r \<in> f ` set ss then q else (0 :: int))"
  by (induction ss) auto

lemma back_sum_total:
  assumes "distinct (map fst ss)" "\<forall>(r, k, w, q)\<in>set cs. 0 \<le> q"
  shows "back_sum ss cs o' x \<le> (\<Sum>(r, k, w, q)\<leftarrow>cs. q)"
  using assms(2)
proof (induction cs)
  case Nil
  have "back_sum ss [] o' x = 0" by (induction ss) (auto simp: back_sum_def line_sum_def)
  then show ?case by simp
next
  case (Cons c cs)
  obtain r k w q where c: "c = (r, k, w, q)" by (cases c)
  let ?P = "\<lambda>(i :: string, od, st, del). od = Some o' \<and> st = ''posted'' \<and> \<not> del \<and> k = x"
  have "back_sum ss (c # cs) o' x = back_sum ss cs o' x + (\<Sum>s\<leftarrow>ss. if ?P s \<and> fst s = r then q else 0)"
  proof (induction ss)
    case (Cons s ss)
    have "line_sum (c # cs) i x = line_sum cs i x + (if r = i \<and> k = x then q else 0)" for i
      by (simp add: line_sum_def c)
    then show ?case using Cons by (cases s) (simp add: back_sum_def)
  qed (simp add: back_sum_def)
  moreover have "(\<Sum>s\<leftarrow>ss. if ?P s \<and> fst s = r then q else 0) \<le> q"
    using sum_one_key[OF assms(1), of q ?P r] Cons.prems c by (auto split: if_splits)
  ultimately show ?case using Cons c by simp
qed

section \<open>Returns stay within what was sold\<close>

lemma sold_core:
  "sold_rows d o' x = map (\<lambda>(i, k, w, t, dir, q, rt, ri, c). if t = MovementSaleIssue then q else - q)
     (filter (\<lambda>(i, k, w, t, dir, q, rt, ri, c). rt = Some ''order'' \<and> ri = Some o'
        \<and> (t = MovementSaleIssue \<or> t = MovementSaleCancelRestore) \<and> k = x) (map mv_core (movements d)))"
  by (simp add: sold_rows_def order_rows_of_def filter_map o_def mv_core_def sale_qty_def[abs_def] sale_row_def has_ref_def conj_ac
      cong: conj_cong)

lemma nullStr_return: "nullStr ''sales_return'' = Some ''sales_return''" by code_simp

text \<open>Movements of returns are not movements of orders.\<close>

lemma order_rows_run:
  assumes "drun E js d d'" "\<forall>j\<in>set js. mi_reftype j = ''sales_return''"
  shows "order_rows_of (inv (tn d')) o' = order_rows_of (inv (tn d)) o'"
proof -
  from qm.run_log[of E] assms(1) obtain es where es: "movements (inv (tn d')) = movements (inv (tn d)) @ es" "list_all2 (row_for E) js es"
    unfolding drun_def by blast
  have "\<forall>e\<in>set es. \<not> sale_row o' e"
    using es(2) assms(2)
    by (induction rule: list_all2_induct) (auto simp: row_for_def sale_row_def has_ref_def nullStr_return)
  then show ?thesis by (simp add: order_rows_of_def es(1))
qed

lemma sold_purge:
  assumes "purge E ''sales_return'' i d = Inr d'" "roomy Q d" "numeric_ok E"
  shows "sold_rows (inv (tn d')) o' x = sold_rows (inv (tn d)) o' x"
proof -
  from assms(1) obtain pairs idb where p: "purgeMovementsByRef E ''sales_return'' i (inv (tn d)) = Inr (pairs, idb)" "d' = set_inv idb d"
    by (auto simp: purge_def res_simps)
  have "map mv_core (movements idb) = map mv_core [r \<leftarrow> movements (inv (tn d)). \<not> has_ref ''sales_return'' i r]"
    using purge_effect[OF p(1) _ assms(3), of Q] assms(2) by (simp add: ledger_room_def rebuilt_def same_ledger_def)
  then have "sold_rows idb o' x = sold_rows ((inv (tn d))\<lparr>movements := [r \<leftarrow> movements (inv (tn d)). \<not> has_ref ''sales_return'' i r]\<rparr>) o' x"
    unfolding sold_core by simp
  also have "\<dots> = sold_rows (inv (tn d)) o' x"
    by (auto simp: sold_rows_def order_rows_of_def sale_row_def has_ref_def intro!: arg_cong[of _ _ "map sale_qty"] filter_cong)
  finally show ?thesis by (simp add: p(2))
qed

lemma goods_ref: "list_all2 (goods w i) ls js \<Longrightarrow> \<forall>j\<in>set js. mi_reftype j = ''sales_return'' \<and> mi_refid j = i"
  by (induction rule: list_all2_induct) (auto simp: goods_def)

lemma order_rows_taken_in: "taken_in E w i ls a b \<Longrightarrow> order_rows_of (sinv b) o' = order_rows_of (sinv a) o'"
  using order_rows_run goods_ref unfolding taken_in_def by metis

lemma sold_taken_in: "taken_in E w i ls a b \<Longrightarrow> sold_rows (sinv b) o' x = sold_rows (sinv a) o' x"
  by (simp add: sold_rows_def order_rows_taken_in)

definition returns_ok :: "sal_db \<Rightarrow> bool" where
  "returns_ok a \<longleftrightarrow> distinct (map sr_id (sales_returns a))
     \<and> (\<forall>r\<in>set (sales_returns a). sr_status r = ''posted'' \<and> \<not> sr_deleted r \<and> sr_order r \<noteq> None)
     \<and> (\<forall>l\<in>set (return_lines a). 0 \<le> rb_qty l)"

definition within_sold :: "sal_db \<Rightarrow> bool" where
  "within_sold a \<longleftrightarrow> returns_ok a \<and> (\<forall>o' x. returned_qty a o' x \<le> sold_qty (sinv a) o' x)"

text \<open>Bounds under which the float64 sums over the ledger and over the lines of returns are exact.\<close>

definition sales_room :: "sal_db \<Rightarrow> bool" where
  "sales_room a \<longleftrightarrow> tally_ok (map mv_qty (movements (sinv a)))
     \<and> (int (length (return_lines a)) + 2) * ((\<Sum>l\<leftarrow>return_lines a. \<bar>rb_qty l\<bar>) + 1) \<le> 2 ^ 42"

lemma sold_tally: "tally_ok (map mv_qty (movements (sinv a))) \<Longrightarrow> tally_ok (sold_rows (sinv a) o' x)"
proof (erule tally_ok_sub)
  let ?P = "\<lambda>r. sale_row o' r \<and> mv_item r = x"
  have f: "sold_rows (sinv a) o' x = map sale_qty (filter ?P (movements (sinv a)))"
    by (simp add: sold_rows_def order_rows_of_def conj_ac)
  show "length (sold_rows (sinv a) o' x) \<le> length (map mv_qty (movements (sinv a)))" by (simp add: f)
  have "(\<Sum>r\<leftarrow>filter ?P rs. \<bar>sale_qty r\<bar>) \<le> (\<Sum>r\<leftarrow>rs. \<bar>mv_qty r\<bar>)" for rs
    by (induction rs) (auto simp: sale_qty_def)
  then show "(\<Sum>n\<leftarrow>sold_rows (sinv a) o' x. \<bar>n\<bar>) \<le> (\<Sum>n\<leftarrow>map mv_qty (movements (sinv a)). \<bar>n\<bar>)" by (simp add: f o_def)
qed

lemma sold_bound: "sales_room a \<Longrightarrow> \<bar>sold_qty (sinv a) o' x\<bar> \<le> 2 ^ 43"
  using tally_ok_sum[OF sold_tally[of a o' x]] abs_sum_list_le[of "sold_rows (sinv a) o' x"]
  unfolding sales_room_def sold_qty_def by simp

lemma core_nonneg: "returns_ok a \<Longrightarrow> \<forall>(r, k, w, q)\<in>set (map rb_core (return_lines a)). 0 \<le> q"
  by (auto simp: returns_ok_def rb_core_def)

lemma distinct_core: "returns_ok a \<Longrightarrow> distinct (map fst (map sr_core (sales_returns a)))"
  by (simp add: returns_ok_def sr_core_def[abs_def] o_def)

lemma returned_bound:
  assumes "returns_ok a" "sales_room a"
  shows "0 \<le> returned_qty a o' x" "(int (length (return_lines a)) + 2) * (returned_qty a o' x + 1) \<le> 2 ^ 42" "returned_qty a o' x \<le> 2 ^ 41"
proof -
  let ?T = "\<Sum>l\<leftarrow>return_lines a. \<bar>rb_qty l\<bar>"
  have "(\<Sum>(r, k, w, q)\<leftarrow>map rb_core ls. q) \<le> (\<Sum>l\<leftarrow>ls. \<bar>rb_qty l\<bar>)" for ls
    by (induction ls) (auto simp: rb_core_def)
  then have le: "returned_qty a o' x \<le> ?T"
    unfolding returned_core using back_sum_total[OF distinct_core core_nonneg, OF assms(1,1), of o' x] order_trans by blast
  show "0 \<le> returned_qty a o' x" unfolding returned_core using core_nonneg[OF assms(1)] by (rule back_sum_nonneg)
  have "(int (length (return_lines a)) + 2) * (returned_qty a o' x + 1) \<le> (int (length (return_lines a)) + 2) * (?T + 1)"
    using le by (intro mult_left_mono) auto
  then show room: "(int (length (return_lines a)) + 2) * (returned_qty a o' x + 1) \<le> 2 ^ 42"
    using assms(2) unfolding sales_room_def by linarith
  have "2 * (returned_qty a o' x + 1) \<le> (int (length (return_lines a)) + 2) * (returned_qty a o' x + 1)"
    using \<open>0 \<le> returned_qty a o' x\<close> by (intro mult_right_mono) auto
  then show "returned_qty a o' x \<le> 2 ^ 41" using room by simp
qed

lemma sum_distinct_key:
  "distinct (map f ls) \<Longrightarrow> (\<Sum>l\<leftarrow>ls. if f l = x then g l else (0 :: int)) = (if x \<in> f ` set ls then g (the (find (\<lambda>l. f l = x) ls)) else 0)"
proof (induction ls)
  case (Cons l ls)
  then have "f l = x \<Longrightarrow> (\<Sum>l\<leftarrow>ls. if f l = x then g l else 0) = 0" by auto
  then show ?case using Cons by auto
qed simp

text \<open>A request whose lines name different items takes back no more of any item than is left.\<close>

lemma accepted_request:
  assumes "check_return_lines cost m ls = Inr ()" "return_exact ls" "distinct (map rn_item ls)"
    and "\<And>x. approx (ne_qty (mget zero_net cost x)) (sold x) (1 / 500)" "\<And>x. approx (mget 0 m x) (back x) (1 / 500)"
    and "\<And>x. \<bar>sold x\<bar> \<le> 2 ^ 43" "\<And>x. \<bar>back x\<bar> \<le> 2 ^ 43" "\<And>x. back x \<le> sold x"
  shows "back x + (\<Sum>l\<leftarrow>ls. if rn_item l = x then rn_count l else 0) \<le> sold x" "\<forall>l\<in>set ls. 0 < rn_count l"
proof -
  note line = accepted_line[OF assms(1,2) _ assms(4) assms(5) assms(6) assms(7)]
  show "\<forall>l\<in>set ls. 0 < rn_count l" using line(1) by blast
  show "back x + (\<Sum>l\<leftarrow>ls. if rn_item l = x then rn_count l else 0) \<le> sold x"
  proof (cases "x \<in> rn_item ` set ls")
    case True
    then obtain l where l: "find (\<lambda>l. rn_item l = x) ls = Some l"
      by (cases "find (\<lambda>l. rn_item l = x) ls") (auto simp: find_None_iff)
    then have "l \<in> set ls" "rn_item l = x" by (auto simp: find_Some_iff)
    then show ?thesis using line(2)[of l] True l sum_distinct_key[OF assms(3), of x rn_count] by simp
  next
    case False
    then show ?thesis using sum_distinct_key[OF assms(3), of x rn_count] assms(8)[of x] by simp
  qed
qed

lemma stored_count: "numeric_ok E \<Longrightarrow> return_exact ls \<Longrightarrow> l \<in> set ls \<Longrightarrow> db_numeric E (round4 (rn_qty l)) = rn_count l"
  using return_exactD[of ls l] by (simp add: numeric_ok_def)

lemma ret_core_sum:
  assumes "numeric_ok E" "return_exact ls"
  shows "line_sum (map (ret_core E w i) ls) i x = (\<Sum>l\<leftarrow>ls. if rn_item l = x then rn_count l else 0)"
  unfolding line_sum_def using stored_count[OF assms]
  by (auto simp: ret_core_def o_def intro!: arg_cong[of _ _ sum_list])

lemma replaced_within:
  assumes "map rb_core (return_lines b) = [c \<leftarrow> map rb_core (return_lines a). fst c \<noteq> i] @ map (ret_core E w i) ls"
    and "map sr_core (sales_returns b) = ss" "distinct (map fst ss)" "\<forall>(j, od, st, del)\<in>set ss. st = ''posted'' \<and> \<not> del \<and> od \<noteq> None"
    and "(i, Some o', ''posted'', False) \<in> set ss" "\<And>o' x. back_sum ss (map rb_core (return_lines a)) o' x = returned_qty a o' x"
    and "\<And>o' x. sold_rows (sinv b) o' x = sold_rows (sinv a) o' x" "within_sold a" "numeric_ok E" "return_exact ls"
    and "\<And>x. returned_qty a o' x - line_sum (map rb_core (return_lines a)) i x + (\<Sum>l\<leftarrow>ls. if rn_item l = x then rn_count l else 0)
           \<le> sold_qty (sinv a) o' x" "\<forall>l\<in>set ls. 0 < rn_count l"
  shows "within_sold b"
proof -
  have ids: "\<forall>d\<in>set (map (ret_core E w i) ls). fst d = i" by (auto simp: ret_core_def)
  have one: "(i, Some y, ''posted'', False) \<in> set ss \<longleftrightarrow> y = o'" for y
    using assms(3,5) by (auto dest: eq_key_imp_eq_value)
  have new: "returned_qty b y x = returned_qty a y x + (if y = o' then (\<Sum>l\<leftarrow>ls. if rn_item l = x then rn_count l else 0)
      - line_sum (map rb_core (return_lines a)) i x else 0)" for y x
    unfolding returned_core[of b] assms(1,2) back_sum_replace[OF assms(3) ids] one assms(6) ret_core_sum[OF assms(9,10)] by simp
  have "returned_qty b y x \<le> sold_qty (sinv b) y x" for y x
    using new[of y x] assms(8) assms(11)[of x] by (auto simp: within_sold_def sold_qty_def assms(7))
  moreover have "0 \<le> rb_qty l" if "l \<in> set (return_lines b)" for l
  proof -
    have "rb_core l \<in> set (map rb_core (return_lines b))" using that by simp
    then consider m where "m \<in> set (return_lines a)" "rb_core l = rb_core m" | k where "k \<in> set ls" "rb_core l = ret_core E w i k"
      unfolding assms(1) by auto
    then show ?thesis
      by cases (use assms(8,12) stored_count[OF assms(9,10)] in
          \<open>auto simp: within_sold_def returns_ok_def rb_core_def ret_core_def intro: less_imp_le\<close>)
  qed
  moreover have "distinct (map sr_id (sales_returns b))"
    using assms(3) unfolding assms(2)[symmetric] by (simp add: sr_core_def[abs_def] o_def)
  moreover have "\<forall>r\<in>set (sales_returns b). sr_status r = ''posted'' \<and> \<not> sr_deleted r \<and> sr_order r \<noteq> None"
    using assms(4) unfolding assms(2)[symmetric] by (auto simp: sr_core_def)
  ultimately show ?thesis by (simp add: within_sold_def returns_ok_def)
qed

lemma create_return_within:
  assumes "orderItemSaleCost E a (cr_order p) = Inr cost" "orderReturnedQty E a (cr_order p) = Inr m"
    and "check_return_lines cost m (cr_lines p) = Inr ()" "trim_space (cr_order p) \<noteq> []"
    and "create_return_tx E today acc p contact cost a = Inr ((i, no, t), b)"
    and "within_sold a" "sales_room a" "numeric_ok E" "return_exact (cr_lines p)" "distinct (map rn_item (cr_lines p))"
    and "\<forall>n\<ge>next_uuid (sinv a). db_uuid E n \<notin> sr_id ` set (sales_returns a) \<union> rb_return ` set (return_lines a)"
  shows "within_sold b"
  using assms(5)
proof (rule create_return_txE)
  fix a1 c
  assume q: "quiet (sd a) (sd a1)" and i: "i = db_uuid E (next_uuid (sinv a))" and t: "return_lines a1 = return_lines a"
      "map sr_core (sales_returns a1) = map sr_core (sales_returns a) @ [(i, nullUUID (cr_order p), ''posted'', False)]"
    and c: "taken_in E (return_wh E a) i (cr_lines p) a1 c" and b: "sd b = sd c" "return_lines b = return_lines c"
      "map sr_core (sales_returns b) = map sr_core (sales_returns c)"
  let ?cs = "map rb_core (return_lines a)" and ?ss = "map sr_core (sales_returns a)"
  let ?ss' = "?ss @ [(i, Some (cr_order p), ''posted'', False)]"
  have ok: "returns_ok a" using assms(6) by (simp add: within_sold_def)
  have fresh: "i \<notin> sr_id ` set (sales_returns a)" "i \<notin> rb_return ` set (return_lines a)" using assms(11) i by auto
  have all: "[c \<leftarrow> ?cs. fst c \<noteq> i] = ?cs" using fresh(2) by (auto simp: rb_core_def filter_id_conv)
  have none: "line_sum ?cs i x = 0" for x by (rule line_sum_absent) (use fresh(2) in \<open>auto simp: rb_core_def\<close>)
  have req: "returned_qty a (cr_order p) x + (\<Sum>l\<leftarrow>cr_lines p. if rn_item l = x then rn_count l else 0) \<le> sold_qty (sinv a) (cr_order p) x"
      "\<forall>l\<in>set (cr_lines p). 0 < rn_count l" for x
  proof -
    have "approx (mget 0 m x) (returned_qty a (cr_order p) x) (1 / 500)" "\<bar>returned_qty a (cr_order p) x\<bar> \<le> 2 ^ 43" for x
      using returned_bound[OF ok assms(7), of "cr_order p" x]
      by (auto simp: mget_returned[OF assms(2)] small4_def intro!: small4_approx)
    note r = accepted_request[OF assms(3,9,10) sold_approx[OF assms(1) sold_tally] this(1) sold_bound[OF assms(7)] this(2)]
    show "returned_qty a (cr_order p) x + (\<Sum>l\<leftarrow>cr_lines p. if rn_item l = x then rn_count l else 0) \<le> sold_qty (sinv a) (cr_order p) x"
      by (rule r(1)) (use assms(6,7) in \<open>auto simp: within_sold_def sales_room_def\<close>)
    show "\<forall>l\<in>set (cr_lines p). 0 < rn_count l"
      by (rule r(2)) (use assms(6,7) in \<open>auto simp: within_sold_def sales_room_def\<close>)
  qed
  show "within_sold b"
  proof (rule replaced_within[where ss = ?ss' and o' = "cr_order p" and a = a and w = "return_wh E a" and ls = "cr_lines p" and i = i and E = E])
    show "map rb_core (return_lines b) = [c \<leftarrow> ?cs. fst c \<noteq> i] @ map (ret_core E (return_wh E a) i) (cr_lines p)"
      using c t(1) by (simp only: b(2) taken_in_def all)
    show "map sr_core (sales_returns b) = ?ss'" using c t(2) assms(4) by (simp add: b(3) taken_in_def beside_def nullUUID_def)
    show "distinct (map fst ?ss')" using distinct_core[OF ok] fresh(1) by (auto simp: sr_core_def)
    show "\<forall>(j, od, st, del)\<in>set ?ss'. st = ''posted'' \<and> \<not> del \<and> od \<noteq> None" using ok by (auto simp: sr_core_def returns_ok_def)
    show "back_sum ?ss' ?cs y x = returned_qty a y x" for y x by (simp add: returned_core back_sum_def none)
    show "sold_rows (sinv b) y x = sold_rows (sinv a) y x" for y x
      using sold_taken_in[OF c] q by (simp add: b(1) quiet_def same_stock_def sold_rows_def order_rows_of_def)
  qed (use assms(6,8,9) req none in auto)
qed

lemma loaded_return:
  assumes "getSalesReturn E a i = Inr v"
  shows "sv_row v \<in> set (sales_returns a)" "sr_id (sv_row v) = i" "\<not> sr_deleted (sv_row v)"
    "sv_lines v = sort_key rb_created (lines_of_return a i)"
  using assms by (auto simp: getSalesReturn_def res_simps find_Some_iff split: option.splits)

lemma sum_sorted_lines:
  "sum_list (map rb_qty [l \<leftarrow> sort_key rb_created (lines_of_return a i). rb_item l = x]) = line_sum (map rb_core (return_lines a)) i x"
proof -
  let ?xs = "[l \<leftarrow> lines_of_return a i. rb_item l = x]"
  have "mset (map rb_qty (sort_key rb_created ?xs)) = mset (map rb_qty ?xs)" by simp
  then have "sum_list (map rb_qty (sort_key rb_created ?xs)) = sum_list (map rb_qty ?xs)"
    by (metis sum_mset_sum_list)
  moreover have "sum_list (map rb_qty [l \<leftarrow> ls. rb_return l = i \<and> rb_item l = x]) = line_sum (map rb_core ls) i x" for ls
    by (induction ls) (auto simp: line_sum_def rb_core_def)
  ultimately show ?thesis by (simp add: filter_sort lines_of_return_def)
qed

text \<open>Editing counts the return as if its old lines were not there.\<close>

lemma edit_left:
  assumes "getSalesReturn E a i = Inr ex" "sr_order (sv_row ex) = Some o'" "orderReturnedQty E a o' = Inr m"
    and "returns_ok a" "sales_room a"
  shows "approx (mget 0 (fold exclude_line (sv_lines ex) m) x) (returned_qty a o' x - line_sum (map rb_core (return_lines a)) i x) (1 / 500)"
    "0 \<le> line_sum (map rb_core (return_lines a)) i x" "line_sum (map rb_core (return_lines a)) i x \<le> returned_qty a o' x"
proof -
  let ?ns = "map rb_qty [l \<leftarrow> sv_lines ex. rb_item l = x]"
  note ex = loaded_return[OF assms(1)]
  have sum: "sum_list ?ns = line_sum (map rb_core (return_lines a)) i x" by (simp add: ex(4) sum_sorted_lines)
  have "(i, Some o', ''posted'', False) \<in> set (map sr_core (sales_returns a))"
    using ex(1-3) assms(2,4) by (force simp: sr_core_def returns_ok_def)
  from back_sum_member[OF this core_nonneg[OF assms(4)], of x]
  show le: "line_sum (map rb_core (return_lines a)) i x \<le> returned_qty a o' x" unfolding returned_core .
  show "0 \<le> line_sum (map rb_core (return_lines a)) i x" using core_nonneg[OF assms(4)] by (rule line_sum_nonneg)
  have pos: "\<forall>n\<in>set ?ns. 0 \<le> n" using assms(4) by (auto simp: ex(4) lines_of_return_def returns_ok_def)
  have "length ?ns \<le> length (sv_lines ex)" by simp
  also have "\<dots> \<le> length (return_lines a)" by (simp add: ex(4) lines_of_return_def)
  finally have "length ?ns \<le> length (return_lines a)" .
  then have "(int (length ?ns) + 2) * (returned_qty a o' x + 1) \<le> (int (length (return_lines a)) + 2) * (returned_qty a o' x + 1)"
    using returned_bound(1)[OF assms(4,5), of o' x] by (intro mult_right_mono) auto
  then have room: "(int (length ?ns) + 2) * (returned_qty a o' x + 1) \<le> 2 ^ 42"
    using returned_bound(2)[OF assms(4,5), of o' x] by linarith
  show "approx (mget 0 (fold exclude_line (sv_lines ex) m) x) (returned_qty a o' x - line_sum (map rb_core (return_lines a)) i x) (1 / 500)"
    unfolding mget_excluded mget_returned[OF assms(3)] sum[symmetric]
    by (rule excluded_approx[OF pos _ room]) (simp only: sum le)
qed

lemma update_return_within:
  assumes "getSalesReturn E a i = Inr ex" "sr_order (sv_row ex) = Some o'"
    and "orderItemSaleCost E a o' = Inr cost" "orderReturnedQty E a o' = Inr m"
    and "check_return_lines cost (fold exclude_line (sv_lines ex) m) ls = Inr ()"
    and "update_return_tx E acc (sv_row ex) o' contact note ls cost a = Inr (t, b)"
    and "within_sold a" "sales_room a" "numeric_ok E" "roomy Q (sd a)" "return_exact ls" "distinct (map rn_item ls)"
  shows "within_sold b"
  using assms(6)
proof (rule update_return_txE)
  fix d1 c
  let ?s = "a\<lparr>sd := d1, return_lines := [l \<leftarrow> return_lines a. rb_return l \<noteq> sr_id (sv_row ex)]\<rparr>"
  assume pu: "purge E ''sales_return'' (sr_id (sv_row ex)) (sd a) = Inr d1"
    and c: "taken_in E (return_wh E a) (sr_id (sv_row ex)) ls ?s c" and b: "sd b = sd c" "return_lines b = return_lines c"
      "map sr_core (sales_returns b) = map sr_core (sales_returns a)"
  let ?cs = "map rb_core (return_lines a)" and ?ss = "map sr_core (sales_returns a)"
  note ex = loaded_return[OF assms(1)]
  have ok: "returns_ok a" using assms(7) by (simp add: within_sold_def)
  note left = edit_left[OF assms(1,2,4) ok assms(8)]
  have base: "\<bar>returned_qty a o' x - line_sum ?cs i x\<bar> \<le> 2 ^ 43" "returned_qty a o' x - line_sum ?cs i x \<le> sold_qty (sinv a) o' x" for x
  proof -
    have "returned_qty a o' x \<le> sold_qty (sinv a) o' x" using assms(7) by (simp add: within_sold_def)
    then show "\<bar>returned_qty a o' x - line_sum ?cs i x\<bar> \<le> 2 ^ 43" "returned_qty a o' x - line_sum ?cs i x \<le> sold_qty (sinv a) o' x"
      using left(2,3)[of x] returned_bound(3)[OF ok assms(8), of o' x] by auto
  qed
  have tally: "tally_ok (sold_rows (sinv a) o' x)" for x using assms(8) by (intro sold_tally) (simp add: sales_room_def)
  note req = accepted_request[OF assms(5,11,12) sold_approx[OF assms(3) tally] left(1) sold_bound[OF assms(8)] base]
  show "within_sold b"
  proof (rule replaced_within[where ss = ?ss and o' = o' and a = a and w = "return_wh E a" and ls = ls and i = i and E = E])
    show "map rb_core (return_lines b) = [c \<leftarrow> ?cs. fst c \<noteq> i] @ map (ret_core E (return_wh E a) i) ls"
      using c by (simp add: b(2) taken_in_def ex(2) filter_map o_def rb_core_def)
    show "(i, Some o', ''posted'', False) \<in> set ?ss" using ex(1-3) assms(2) ok by (force simp: sr_core_def returns_ok_def)
    show "\<forall>(j, od, st, del)\<in>set ?ss. st = ''posted'' \<and> \<not> del \<and> od \<noteq> None" using ok by (auto simp: sr_core_def returns_ok_def)
    show "sold_rows (sinv b) y x = sold_rows (sinv a) y x" for y x
      using sold_taken_in[OF c] sold_purge[OF pu assms(10,9)] by (simp add: b(1))
  qed (use b(3) assms(7,9,11) req distinct_core[OF ok] in \<open>auto simp: returned_core\<close>)
qed

lemma delete_return_within:
  assumes "delete_return_tx E i a = Inr b" "within_sold a" "numeric_ok E" "roomy Q (sd a)"
  shows "within_sold b"
  using assms(1)
proof (rule delete_return_txE)
  fix d1
  assume pu: "purge E ''sales_return'' i (sd a) = Inr d1" and b: "b = delete_return i (a\<lparr>sd := d1\<rparr>)"
  let ?cs = "map rb_core (return_lines a)"
  have ok: "returns_ok a" using assms(2) by (simp add: within_sold_def)
  have fewer: "back_sum (map sr_core [r \<leftarrow> rs. sr_id r \<noteq> i]) (map rb_core [l \<leftarrow> return_lines a. rb_return l \<noteq> i]) y x
      \<le> back_sum (map sr_core rs) ?cs y x" for rs y x
  proof (induction rs)
    case (Cons r rs)
    have "map rb_core [l \<leftarrow> return_lines a. rb_return l \<noteq> i] = [c \<leftarrow> ?cs. fst c \<noteq> i] @ []"
      by (simp add: filter_map o_def rb_core_def)
    then have "line_sum (map rb_core [l \<leftarrow> return_lines a. rb_return l \<noteq> i]) j x = (if j = i then 0 else line_sum ?cs j x)" for j
      using line_sum_replace[of "[]" i ?cs j x] by (simp add: line_sum_def)
    then show ?case using Cons line_sum_nonneg[OF core_nonneg[OF ok], of "sr_id r" x]
      by (auto simp: back_sum_def sr_core_def)
  qed (simp add: back_sum_def)
  have "returned_qty b y x \<le> returned_qty a y x" for y x
    using fewer[of "sales_returns a" y x] by (simp add: returned_core b delete_return_def)
  then have "returned_qty b y x \<le> sold_qty (sinv b) y x" for y x
    using assms(2) sold_purge[OF pu assms(4,3)] order_trans by (fastforce simp: within_sold_def sold_qty_def b delete_return_def)
  moreover have "returns_ok b" using ok by (auto simp: returns_ok_def b delete_return_def distinct_map_filter)
  ultimately show "within_sold b" by (simp add: within_sold_def)
qed

section \<open>The ledger has what the lines of returns say\<close>

definition back_row :: "return_line_row \<Rightarrow> string \<times> string \<times> string \<times> int" where
  "back_row l = (rb_item l, rb_wh l, dirIn, rb_qty l)"

definition ledger_matches :: "sal_db \<Rightarrow> bool" where
  "ledger_matches a \<longleftrightarrow> (\<forall>i. ref_rows ''sales_return'' (sinv a) i = map back_row (lines_of_return a i))
     \<and> agree (sd a) \<and> (\<forall>r\<in>set (sales_returns a). trim_space (sr_id r) \<noteq> [])"

lemma back_rows_core:
  "map back_row (lines_of_return a i) = map (\<lambda>(r, k, w, q). (k, w, dirIn, q)) (filter (\<lambda>(r, k, w, q). r = i) (map rb_core (return_lines a)))"
  by (simp add: lines_of_return_def filter_map o_def rb_core_def back_row_def)

definition as_stock :: "(SalesReturnLineInput \<Rightarrow> string) \<Rightarrow> SalesReturnLineInput \<Rightarrow> OpeningEntry" where
  "as_stock w l = \<lparr>oe_item = rn_item l, oe_wh = w l, oe_qty = rn_qty l, oe_cost = 0, oe_batch = [], oe_expiry = None\<rparr>"

lemma goods_opens: "list_all2 (goods w i) ls js \<Longrightarrow> list_all2 opens (map (as_stock w) ls) js"
  unfolding list_all2_map1 by (erule list_all2_mono) (auto simp: goods_def opens_def as_stock_def)

lemma return_entries_exact: "return_exact ls \<Longrightarrow> entries_exact (map (as_stock w) ls)"
proof -
  assume ex: "return_exact ls"
  note n = return_exactD[OF ex]
  have "qty4 (round4 (oe_qty (as_stock w l))) = rn_count l" if "l \<in> set ls" for l
    using n[OF that] by (simp add: as_stock_def)
  then have "(\<Sum>e\<leftarrow>map (as_stock w) ls. \<bar>qty4 (round4 (oe_qty e))\<bar>) = (\<Sum>l\<leftarrow>ls. \<bar>rn_count l\<bar>)"
    by (auto simp: o_def intro!: arg_cong[of _ _ sum_list])
  moreover have "round4 (oe_qty (as_stock w l)) = dec4 (qty4 (round4 (oe_qty (as_stock w l))))" if "l \<in> set ls" for l
    using n[OF that] by (simp add: as_stock_def)
  ultimately show ?thesis using ex by (simp add: entries_exact_def return_exact_def)
qed

lemma taken_in_matches:
  assumes "taken_in E w i ls a b" "\<forall>i. ref_rows ''sales_return'' (sinv a) i = map back_row (lines_of_return a i)" "agree (sd a)"
    and "roomy Q (sd a)" "numeric_ok E" "return_exact ls" "trim_space i \<noteq> []"
  shows "\<forall>i. ref_rows ''sales_return'' (sinv b) i = map back_row (lines_of_return b i)" "agree (sd b)"
proof -
  from assms(1) obtain js where js: "drun E js (sd a) (sd b)" "list_all2 (goods w i) ls js" by (auto simp: taken_in_def)
  have rows: "map (input_row E) js = map (\<lambda>l. (rn_item l, w l, dirIn, db_numeric E (round4 (rn_qty l)))) ls"
    using js(2) by (induction rule: list_all2_induct) (simp_all add: goods_def input_row_def)
  have lines: "map back_row (lines_of_return b j) = map back_row (lines_of_return a j)
      @ (if j = i then map (\<lambda>l. (rn_item l, w l, dirIn, db_numeric E (round4 (rn_qty l)))) ls else [])" for j
    using assms(1) unfolding back_rows_core taken_in_def by (auto simp: ret_core_def filter_map o_def)
  show "\<forall>i. ref_rows ''sales_return'' (sinv b) i = map back_row (lines_of_return b i)"
    using run_ref_rows[OF js(1) goods_ref[OF js(2)] nullStr_return assms(7)] assms(2) by (simp add: lines rows)
  show "agree (sd b)"
    by (rule drun_agree[OF js(1) opens_exact[OF goods_opens[OF js(2)] return_entries_exact[OF assms(6)] assms(5)]])
      (use roomy_on_hand[OF assms(4)] assms(3) in auto)
qed

lemma ids_from:
  assumes "f ` A \<subseteq> insert y (f ` B)" "P y" "\<forall>r\<in>B. P (f r)"
  shows "\<forall>r\<in>A. P (f r)"
proof
  fix r assume "r \<in> A"
  then have "f r \<in> insert y (f ` B)" using assms(1) by blast
  then show "P (f r)" using assms(2,3) by auto
qed

lemma create_return_matches:
  assumes "create_return_tx E today acc p contact cost a = Inr ((i, no, t), b)" "ledger_matches a" "roomy Q (sd a)"
    and "numeric_ok E" "return_exact (cr_lines p)" "\<forall>n. trim_space (db_uuid E n) \<noteq> []"
  shows "ledger_matches b"
  using assms(1)
proof (rule create_return_txE)
  fix a1 c
  assume q: "quiet (sd a) (sd a1)" and i: "i = db_uuid E (next_uuid (sinv a))" and t: "return_lines a1 = return_lines a"
      "map sr_core (sales_returns a1) = map sr_core (sales_returns a) @ [(i, nullUUID (cr_order p), ''posted'', False)]"
    and c: "taken_in E (return_wh E a) i (cr_lines p) a1 c" and b: "sd b = sd c" "return_lines b = return_lines c"
      "map sr_core (sales_returns b) = map sr_core (sales_returns c)"
  have q': "movements (sinv a1) = movements (sinv a)" "agree (sd a1) = agree (sd a)" "roomy Q (sd a1) = roomy Q (sd a)"
    using q same_stock_facts[of "sinv a" "sinv a1"]
    by (auto simp: quiet_def same_stock_def ledger_room_def ledger_small_def keyed_def)
  have a1: "\<forall>i. ref_rows ''sales_return'' (sinv a1) i = map back_row (lines_of_return a1 i)" "agree (sd a1)"
    using assms(2) q' t(1) by (simp_all add: ledger_matches_def ref_rows_def lines_of_return_def)
  have ids: "map fst (map sr_core (sales_returns b)) = map fst (map sr_core (sales_returns a) @ [(i, nullUUID (cr_order p), ''posted'', False)])"
    using c t(2) by (simp add: b(3) taken_in_def beside_def)
  then have "set (map sr_id (sales_returns b)) = set (map sr_id (sales_returns a) @ [i])"
    by (simp add: sr_core_def[abs_def] o_def)
  then have "sr_id ` set (sales_returns b) \<subseteq> insert i (sr_id ` set (sales_returns a))" by simp
  from ids_from[OF this, of "\<lambda>j. trim_space j \<noteq> []"] have "\<forall>r\<in>set (sales_returns b). trim_space (sr_id r) \<noteq> []"
    using assms(2,6) i by (simp add: ledger_matches_def)
  with taken_in_matches[OF c a1 _ assms(4,5), of Q] assms(3,6) i q'(3) show "ledger_matches b"
    by (simp add: ledger_matches_def b(1,2) lines_of_return_def)
qed

lemma purged_matches:
  assumes "purge E ''sales_return'' i (sd a) = Inr d" "ledger_matches a" "roomy Q (sd a)" "numeric_ok E"
  shows "\<forall>j. ref_rows ''sales_return'' (inv (tn d)) j = map back_row (lines_of_return (a\<lparr>sd := d, return_lines := [l \<leftarrow> return_lines a. rb_return l \<noteq> i]\<rparr>) j)"
    "agree d" "roomy Q d"
proof -
  have m: "\<forall>i. ref_rows ''sales_return'' (sinv a) i = map back_row (lines_of_return a i)" "agree (sd a)"
    using assms(2) by (simp_all add: ledger_matches_def)
  show "agree d" "roomy Q d" using purge_agree[OF assms(1,3,4) m(2)] by simp_all
  show "\<forall>j. ref_rows ''sales_return'' (inv (tn d)) j = map back_row (lines_of_return (a\<lparr>sd := d, return_lines := [l \<leftarrow> return_lines a. rb_return l \<noteq> i]\<rparr>) j)"
    using m(1) purge_ref_rows[OF assms(1,3,4)]
    by (auto simp: lines_of_return_def intro!: arg_cong[of _ _ "map back_row"] filter_cong)
qed

lemma update_return_matches:
  assumes "update_return_tx E acc ex o' contact note ls cost a = Inr (t, b)" "ex \<in> set (sales_returns a)" "ledger_matches a"
    and "roomy Q (sd a)" "numeric_ok E" "return_exact ls"
  shows "ledger_matches b"
  using assms(1)
proof (rule update_return_txE)
  fix d1 c
  let ?s = "a\<lparr>sd := d1, return_lines := [l \<leftarrow> return_lines a. rb_return l \<noteq> sr_id ex]\<rparr>"
  assume pu: "purge E ''sales_return'' (sr_id ex) (sd a) = Inr d1"
    and c: "taken_in E (return_wh E a) (sr_id ex) ls ?s c" and b: "sd b = sd c" "return_lines b = return_lines c"
      "map sr_core (sales_returns b) = map sr_core (sales_returns a)"
  have "map fst (map sr_core (sales_returns b)) = map fst (map sr_core (sales_returns a))" by (simp only: b(3))
  then have "set (map sr_id (sales_returns b)) = set (map sr_id (sales_returns a))" by (simp add: sr_core_def[abs_def] o_def)
  then have "sr_id ` set (sales_returns b) \<subseteq> insert (sr_id ex) (sr_id ` set (sales_returns a))" by auto
  from ids_from[OF this, of "\<lambda>j. trim_space j \<noteq> []"] have ids: "\<forall>r\<in>set (sales_returns b). trim_space (sr_id r) \<noteq> []"
    using assms(2,3) by (simp add: ledger_matches_def)
  note p = purged_matches[OF pu assms(3-5)]
  have "trim_space (sr_id ex) \<noteq> []" using assms(2,3) by (simp add: ledger_matches_def)
  from taken_in_matches[OF c _ _ _ assms(5,6) this, of Q] p ids show "ledger_matches b"
    by (simp add: ledger_matches_def b(1,2) lines_of_return_def)
qed

lemma delete_return_matches:
  assumes "delete_return_tx E i a = Inr b" "ledger_matches a" "roomy Q (sd a)" "numeric_ok E"
  shows "ledger_matches b"
  using assms(1)
proof (rule delete_return_txE)
  fix d1
  assume pu: "purge E ''sales_return'' i (sd a) = Inr d1" and b: "b = delete_return i (a\<lparr>sd := d1\<rparr>)"
  show "ledger_matches b"
    using purged_matches[OF pu assms(2-4)] assms(2) by (auto simp: ledger_matches_def b delete_return_def lines_of_return_def)
qed

end
