(* ===== verification/Doc_Effects.thy ===== *)
theory Doc_Effects
  imports Doc_History
begin

text \<open>
  What the single stock documents do: a transfer conserves stock and carries its cost along, deleting
  an adjustment undoes it, an opening balance is taken once per item and warehouse, a revaluation
  changes values only, and the histories of \<open>Doc_History\<close> keep balances and numbers right. The last
  section states what the code does not get right.
\<close>

declare split_paired_All [simp del] split_paired_Ex [simp del]

section \<open>Histories\<close>

text \<open>
  C38: Through every history of requests that create, edit and delete stock documents, failing or
  not, the on-hand column of every item and warehouse stays the exact net of its ledger rows. Every
  request meets its own environment, clock and caller; the amounts are multiples of the column's
  unit and the ledger is small enough for float64 sums to be exact.
\<close>

theorem documents_agree:
  assumes "bal_ok (inv (tn db))" "allowed (in_room Q) rs db"
  shows "on_hand (inv (tn (serve rs db))) k = ledger_net (inv (tn (serve rs db))) k"
  using agreement.serve_keeps[OF assms] by (simp add: bal_ok_def)

text \<open>
  Document numbers are unique through every history, and the sequence is always ahead of them:
  on a working database the insert of the next header never hits the unique index.
\<close>

theorem document_numbers_unique:
  assumes "numbered db"
  shows "distinct (map tx_doc (stock_txns (serve rs db)))
    \<and> (docTypeForKind kind = Inr (pf, pf) \<longrightarrow> next_no (serve rs db) pf < 2 ^ 63 \<longrightarrow> healthy E
       \<longrightarrow> (\<exists>i db'. insertStockTransactionHeader E ck kind d note by (serve rs db)
              = Inr ((i, formatDocNumber pf (next_no (serve rs db) pf)), db')))"
proof -
  have "allowed (\<lambda>E c db. True) rs db" by (induction rs db rule: serve.induct) auto
  then have n: "numbered (serve rs db)" using numbering.serve_keeps[OF assms] by blast
  then have "distinct (map tx_doc (stock_txns (serve rs db)))" by (simp add: numbered_def docs_def comp_def)
  moreover have "\<exists>i db'. insertStockTransactionHeader E ck kind d note by (serve rs db)
      = Inr ((i, formatDocNumber pf (next_no (serve rs db) pf)), db')"
    if h: "docTypeForKind kind = Inr (pf, pf)" "next_no (serve rs db) pf < 2 ^ 63" "healthy E"
  proof -
    have "nextDocNumber E pf pf (serve rs db) = Inr (formatDocNumber pf (next_no (serve rs db) pf),
        (serve rs db)\<lparr>doc_seq := (doc_seq (serve rs db))(pf \<mapsto> next_no (serve rs db) pf)\<rparr>)"
      using h by (simp add: nextDocNumber_eq healthy_def)
    then show ?thesis using next_number_fresh[OF n h(1)] h
      by (simp add: insertStockTransactionHeader_def healthy_def new_id_def fresh_uuid_def)
  qed
  ultimately show ?thesis by blast
qed

section \<open>Transfers\<close>

lemma PostMovement_in_cost:
  "PostMovement E i d = Inr (r, d') \<Longrightarrow> mi_dir i = dirIn \<Longrightarrow> mr_unit r = mi_cost i"
  by (auto simp: PostMovement_def Let_def res_simps fresh_uuid_def direction_names split: if_splits)

lemma PostMovement_row:
  assumes "PostMovement E i d = Inr (r, d')"
  shows "\<exists>b. movements d' = movements d @ [movement_of E i (mr_id r) (mr_unit r) (mr_total r) b]"
  using assms
proof (cases rule: PostMovementE)
  case (1 cost b db1 mid unit)
  have "mr_id r = mid" "mr_unit r = unit" "mr_total r = cost" using 1(11) by (metis MovementResult.select_convs)+
  then show ?thesis using 1(5) by auto
qed

text \<open>The rows of two postings, the second of which receives what the first issued at its cost.\<close>

lemma transfer_rows:
  assumes "post E (transfer_out p cc t acc) a = Inr (out, b)" "post E (transfer_in p cc t acc out) b = Inr (inn, c)"
  shows "\<exists>o' i'. movements (inv (tn c)) = movements (inv (tn a)) @ [o', i']
    \<and> row_for E (transfer_out p cc t acc) o' \<and> row_for E (transfer_in p cc t acc out) i'
    \<and> mv_unit i' = mv_unit o' \<and> mv_source i' = nullUUID (mv_id o') \<and> mv_id o' = mr_id out \<and> mv_id i' = mr_id inn"
proof -
  from assms obtain ib ic where p: "PostMovement E (transfer_out p cc t acc) (inv (tn a)) = Inr (out, ib)" "inv (tn b) = ib"
      "PostMovement E (transfer_in p cc t acc out) ib = Inr (inn, ic)" "inv (tn c) = ic"
    by (auto simp: post_eq)
  have u: "mr_unit inn = mr_unit out"
    using PostMovement_in_cost[OF p(3)] by (simp add: transfer_in_def no_input_def)
  obtain o' where o': "movements ib = movements (inv (tn a)) @ [o']" "mv_unit o' = db_numeric E (mr_unit out)" "mv_id o' = mr_id out"
    using PostMovement_row[OF p(1)] by (auto simp: movement_of_def)
  obtain i' where i': "movements ic = movements ib @ [i']" "mv_unit i' = db_numeric E (mr_unit inn)"
      "mv_id i' = mr_id inn" "mv_source i' = nullUUID (mi_source (transfer_in p cc t acc out))"
    using PostMovement_row[OF p(3)] by (auto simp: movement_of_def)
  have "row_for E (transfer_out p cc t acc) o'" "row_for E (transfer_in p cc t acc out) i'"
    using pm.post_log[OF p(1)] pm.post_log[OF p(3)] o'(1) i'(1) by auto
  moreover have "mi_source (transfer_in p cc t acc out) = mr_id out" by (simp add: transfer_in_def)
  ultimately show ?thesis using o' i' u p(2,4) by auto
qed

lemma exact_amount_pos: "exact_amount x \<Longrightarrow> \<not> round4 x \<le> epsilon \<longleftrightarrow> 0 < qty4 (round4 x)"
  using dec4_pos[of "qty4 (round4 x)"] unfolding exact_amount_def by (auto simp: small4_def)

lemma CreateTransferE:
  assumes "CreateTransfer E ck auth p db = (Inr res, db')"
  obtains u db1 db2 cc out inn where "getUser auth = Inr u" "requireOwner u = Inr ()" "\<not> tp_qty p \<le> epsilon"
    "trim_space (tp_from p) \<noteq> trim_space (tp_to p)" "live_item (tn db) (tp_item p)"
    "live_warehouse (tn db) (tp_from p)" "live_warehouse (tn db) (tp_to p)" "quiet db db1"
    "so_movements res = [mr_id out, mr_id inn]" "so_total res = mr_total out" "so_after res = mr_after inn"
    "post E (transfer_out p cc (so_txn res) (AccountID u)) db1 = Inr (out, db2)"
    "post E (transfer_in p cc (so_txn res) (AccountID u) out) db2 = Inr (inn, db')"
proof -
  from assms obtain u txnID docNo out inn where s: "getUser auth = Inr u" "requireOwner u = Inr ()" "\<not> tp_qty p \<le> epsilon"
      "trim_space (tp_from p) \<noteq> trim_space (tp_to p)" "live_item (tn db) (tp_item p)"
      "live_warehouse (tn db) (tp_from p)" "live_warehouse (tn db) (tp_to p)"
      "transfer_tx E ck u p db = Inr ((txnID, docNo, out, inn), db')"
      "res = \<lparr>so_txn = txnID, so_doc = docNo, so_movements = [mr_id out, mr_id inn], so_after = mr_after inn,
           so_total = mr_total out, so_short = 0\<rparr>"
    unfolding CreateTransfer_def validateCatalogItem_def validateWarehouse_def by (auto simp: res_simps)
  from s(8) obtain a b where t: "ensureSku E (tp_item p) db = Inr a"
      "insertStockTransactionHeader E ck TxnKindTransfer [] (tp_note p) (AccountID u) a = Inr ((txnID, docNo), b)"
      "transfer_body E txnID (AccountID u) p b = Inr ((out, inn), db')"
    unfolding transfer_tx_def ebind_eq_Inr by (auto simp: res_simps)
  from t(3) obtain cc db2 where
      "post E (transfer_out p cc txnID (AccountID u)) (transfer_header E txnID p b) = Inr (out, db2)"
      "post E (transfer_in p cc txnID (AccountID u) out) db2 = Inr (inn, db')"
    unfolding transfer_body_def ebind_eq_Inr by (auto simp: res_simps)
  moreover have "quiet db (transfer_header E txnID p b)"
    using quiet_ensureSku[OF t(1)] quiet_header[OF t(2)] by (auto simp: transfer_header_def intro: quiet_trans)
  ultimately show ?thesis using s by (intro that) auto
qed

text \<open>
  A transfer conserves stock and carries its cost along. It is for owners only; on success the
  source warehouse loses exactly what the destination gains, nothing else moves, and the books are
  untouched. The ledger grows by two rows, the receipt at the unit cost the issue had and pointing
  back to it.
\<close>

theorem CreateTransfer_conserves:
  assumes "CreateTransfer E ck auth p db = (Inr res, db')" "numeric_ok E" "exact_amount (tp_qty p)"
    and "roomy Q db" "agree db"
  shows "(\<exists>u. auth = Some u \<and> requireOwner u = Inr ())
    \<and> (\<forall>k. on_hand (inv (tn db')) k = on_hand (inv (tn db)) k
        + (if k = (tp_item p, tp_to p) then qty4 (round4 (tp_qty p))
           else if k = (tp_item p, tp_from p) then - qty4 (round4 (tp_qty p)) else 0))
    \<and> 0 < qty4 (round4 (tp_qty p)) \<and> fin (tn db') = fin (tn db)
    \<and> (\<exists>o' i'. movements (inv (tn db')) = movements (inv (tn db)) @ [o', i'] \<and> so_movements res = [mv_id o', mv_id i']
        \<and> mv_type o' = MovementTransferOut \<and> mv_type i' = MovementTransferIn
        \<and> mv_unit i' = mv_unit o' \<and> mv_source i' = nullUUID (mv_id o'))"
  using assms(1)
proof (cases rule: CreateTransferE)
  case (1 u db1 db2 cc out inn)
  let ?o = "transfer_out p cc (so_txn res) (AccountID u)" and ?i = "transfer_in p cc (so_txn res) (AccountID u) out"
  have run: "drun E [?o, ?i] db db'"
    using drun_append[OF drun_quiet[OF 1(8)] drun_append[OF drun_post[OF 1(12)] drun_post[OF 1(13)]]] by simp
  have ne: "tp_from p \<noteq> tp_to p" using 1(4) by auto
  have stock: "\<forall>k. on_hand (inv (tn db')) k = on_hand (inv (tn db)) k
        + (if k = (tp_item p, tp_to p) then qty4 (round4 (tp_qty p))
           else if k = (tp_item p, tp_from p) then - qty4 (round4 (tp_qty p)) else 0)"
    by (rule allI, rule transfer_agree(1)[OF run ne assms(3,2) roomy_on_hand[OF assms(4,5)]])
  have fin: "fin (tn db') = fin (tn db)" using run by (simp add: drun_def)
  from transfer_rows[OF 1(12,13)] obtain o' i' where rows: "movements (inv (tn db')) = movements (inv (tn db1)) @ [o', i']"
      "row_for E ?o o'" "row_for E ?i i'" "mv_unit i' = mv_unit o'" "mv_source i' = nullUUID (mv_id o')"
      "mv_id o' = mr_id out" "mv_id i' = mr_id inn" by blast
  have "movements (inv (tn db1)) = movements (inv (tn db))" using 1(8) by (simp add: quiet_def same_stock_def)
  moreover have "mv_type o' = MovementTransferOut" "mv_type i' = MovementTransferIn"
      and pos: "\<not> round4 (tp_qty p) \<le> epsilon"
    using rows(2,3) by (simp_all add: row_for_def transfer_out_def transfer_in_def)
  moreover have "0 < qty4 (round4 (tp_qty p))" using pos by (simp add: exact_amount_pos[OF assms(3)])
  moreover have "auth = Some u" using 1(1) by (auto simp: getUser_def res_simps split: option.splits if_splits)
  ultimately show ?thesis using stock fin rows 1(2,9) by auto
qed

section \<open>Deleting a document undoes it\<close>

lemma case_out_None [res_simps]:
  "(case m of (None, s) \<Rightarrow> f s | (Some e, s) \<Rightarrow> (Some e, s)) = (None, t) \<longleftrightarrow> (\<exists>s. m = (None, s) \<and> f s = (None, t))"
  by (auto split: prod.splits option.splits)

lemma DeleteStockTransactionE:
  assumes "DeleteStockTransaction E ck auth i db = (None, db')"
  obtains r movs fd pairs idb where "find_txn db i = Some r"
    "collectMovementsByRef E (inv (tn db)) (tx_kind r) i = Inr movs"
    "RemoveInventoryEntries E (movementFinanceRefs [] movs) (fin (tn db)) = (None, fd)"
    "purgeMovementsByRef E (tx_kind r) i (inv (tn db)) = Inr (pairs, idb)"
    "db' = delete_txn i (set_inv idb (set_fin fd db))"
proof -
  from assms obtain t movs db1 where s: "loadStockTransaction E db i = Inr t"
      "collectMovementsByRef E (inv (tn db)) (txnKindRefType (tx_kind (st_row t))) i = Inr movs"
      "remove_entries E (movementFinanceRefs [] movs) db = (None, db1)"
      "delete_tx E (tx_kind (st_row t)) i db1 = Inr db'"
    unfolding DeleteStockTransaction_def by (auto simp: res_simps)
  from s(3) obtain fd where fd: "RemoveInventoryEntries E (movementFinanceRefs [] movs) (fin (tn db)) = (None, fd)" "db1 = set_fin fd db"
    by (auto simp: remove_entries_def split: prod.splits)
  from s(4) obtain pairs idb where "purgeMovementsByRef E (tx_kind (st_row t)) i (inv (tn db1)) = Inr (pairs, idb)"
      "db' = delete_txn i (set_inv idb db1)"
    by (auto simp: delete_tx_def purge_def res_simps txnKindRefType_def)
  then show ?thesis using that[OF loaded_row[OF s(1)]] s(2) fd by (simp add: txnKindRefType_def)
qed

lemma CreateAdjustmentE:
  assumes "CreateAdjustment E ck auth p db = (Inr res, db')"
  obtains u mtype dir qty x m db1 where "getUser auth = Inr u" "requireOwner u = Inr ()"
    "adjustmentPlan (ap_qty p) = Some (mtype, dir, qty)"
    "adjustment_tx E ck u p mtype dir qty x db = Inr ((so_txn res, so_doc res, m), db1)"
    "(if dir = dirOut \<and> mr_total m > 0 then book E ck (AccountID u) (mr_id m) ''expense'' finCatSelisihPersediaan
        (''Penyesuaian stok keluar ('' @ trim_space (ap_note p) @ '')'') (round2 (mr_total m)) db1 else Inr db1) = Inr db'"
    "so_movements res = [mr_id m]" "so_after res = mr_after m"
proof -
  from assms obtain u mtype dir qty x i d m db1 where s: "getUser auth = Inr u" "requireOwner u = Inr ()"
    "adjustmentPlan (ap_qty p) = Some (mtype, dir, qty)"
    "adjustment_tx E ck u p mtype dir qty x db = Inr ((i, d, m), db1)"
    "(if dir = dirOut \<and> mr_total m > 0 then book E ck (AccountID u) (mr_id m) ''expense'' finCatSelisihPersediaan
        (''Penyesuaian stok keluar ('' @ trim_space (ap_note p) @ '')'') (round2 (mr_total m)) db1 else Inr db1) = Inr db'"
    "res = \<lparr>so_txn = i, so_doc = d, so_movements = [mr_id m], so_after = mr_after m,
           so_total = mr_total m, so_short = mr_short m\<rparr>"
    unfolding CreateAdjustment_def by (auto simp: res_simps split: option.splits)
  then show ?thesis by (intro that[of u mtype dir qty x m db1]) auto
qed

text \<open>The rows an adjustment writes.\<close>

lemma adjustment_tx_rows:
  assumes "adjustment_tx E ck u p mtype dir qty x db = Inr ((i, d, m), db')" "trim_space i \<noteq> []"
    and "\<forall>r\<in>set (stock_txns db). tx_id r \<noteq> i"
  shows "(\<exists>row. movements (inv (tn db')) = movements (inv (tn db)) @ [row] \<and> mv_id row = mr_id m
        \<and> has_ref TxnKindAdjustment i row \<and> mv_item row = ap_item p \<and> mv_wh row = ap_wh p \<and> mv_qty row = db_numeric E qty)
    \<and> (\<exists>h. stock_txns db' = stock_txns db @ [h] \<and> tx_id h = i \<and> tx_kind h = TxnKindAdjustment \<and> tx_date h = ck_local ck)
    \<and> txn_lines db' = txn_lines db \<and> fin (tn db') = fin (tn db)"
proof -
  from assms(1) obtain a b cc where s: "ensureSku E (ap_item p) db = Inr a"
      "insertStockTransactionHeader E ck TxnKindAdjustment [] (ap_note p) (AccountID u) a = Inr ((i, d), b)"
      "post E (adjustment_input p mtype dir qty x cc i (AccountID u)) (adjustment_header E i p b) = Inr (m, db')"
    unfolding adjustment_tx_def ebind_eq_Inr by (auto simp: res_simps)
  note a = quiet_ensureSku[OF s(1)]
  from s(2) obtain h b2 where h: "b = b2\<lparr>stock_txns := stock_txns a @ [h]\<rparr>" "tx_id h = i" "tx_kind h = TxnKindAdjustment"
      "tx_date h = ck_local ck" "txn_lines b2 = txn_lines a" by (rule headerE) (auto dest!: quiet_new_id)
  from s(3) obtain idb where p: "PostMovement E (adjustment_input p mtype dir qty x cc i (AccountID u)) (inv (tn b)) = Inr (m, idb)"
      "db' = set_inv idb (adjustment_header E i p b)"
    by (auto simp: post_eq adjustment_header_def)
  have q: "quiet db b" using a quiet_header[OF s(2)] by (blast intro: quiet_trans)
  have "nullStr TxnKindAdjustment = Some TxnKindAdjustment" by code_simp
  then have "\<exists>row. movements idb = movements (inv (tn db)) @ [row] \<and> mv_id row = mr_id m
        \<and> has_ref TxnKindAdjustment i row \<and> mv_item row = ap_item p \<and> mv_wh row = ap_wh p \<and> mv_qty row = db_numeric E qty"
    using PostMovement_row[OF p(1)] assms(2) q
    by (auto simp: movement_of_def has_ref_def adjustment_input_def nullUUID_def quiet_def same_stock_def)
  moreover have "map (\<lambda>r. if tx_id r = i then f r else r) (stock_txns db) = stock_txns db" for f
    using assms(3) by (intro map_idI) auto
  ultimately show ?thesis using p(2) h a q
    by (auto simp: adjustment_header_def update_txn_def quiet_def)
qed

text \<open>The identifiers a document was given are its own.\<close>

definition fresh_result :: "StockOpResult \<Rightarrow> doc_db \<Rightarrow> bool" where
  "fresh_result res db \<longleftrightarrow> trim_space (so_txn res) \<noteq> [] \<and> (\<forall>r\<in>set (movements (inv (tn db))). mv_refid r \<noteq> Some (so_txn res))
     \<and> (\<forall>r\<in>set (stock_txns db). tx_id r \<noteq> so_txn res) \<and> (\<forall>l\<in>set (txn_lines db). tl_txn l \<noteq> so_txn res)
     \<and> (\<forall>m\<in>set (so_movements res). trim_space m \<noteq> [] \<and> (\<forall>t\<in>set (txns (fin (tn db))). ft_ref t \<noteq> Some (trim_space m)))"

lemma RemoveInventoryEntries_txns:
  assumes "RemoveInventoryEntries E refs fd = (None, fd')"
  shows "txns fd' = [t \<leftarrow> txns fd. ft_ref t \<notin> Some ` set (uniqueReferenceNos refs)]"
  using assms remove_chunks_txns[of E "uniqueReferenceNos refs" fd fd']
  by (cases "uniqueReferenceNos refs = []") (auto simp: RemoveInventoryEntries_def Let_def res_simps)

lemma booked_txns:
  assumes "book E ck by ref flow cat desc amount db = Inr db'" "trim_space ref \<noteq> []"
  shows "[t \<leftarrow> txns (fin (tn db')). ft_ref t \<noteq> Some (trim_space ref)] = [t \<leftarrow> txns (fin (tn db)). ft_ref t \<noteq> Some (trim_space ref)]"
proof -
  from assms(1) obtain fd where r: "RecordInventoryEntry E (ck_period ck) (ck_today ck) by ref flow cat desc amount [] (fin (tn db)) = Inr fd"
      "db' = set_fin fd db" by (auto simp: book_def res_simps)
  from r(1) show ?thesis
  proof (cases rule: RecordInventoryEntryE)
    case (posted wallet category by_id)
    then show ?thesis using r(2) assms(2) refreshWallets_frame by (simp add: insert_txn_def)
  qed (simp add: r(2))
qed

text \<open>A purge that leaves the rows of an earlier state takes the balances back to it.\<close>

lemma purge_undoes:
  assumes "purgeMovementsByRef E t i db1 = Inr (pairs, db2)" "ledger_room Q db1" "numeric_ok E" "bal_ok db1"
    and "[r \<leftarrow> movements db1. \<not> has_ref t i r] = movements db" "bal_ok db"
  shows "(\<forall>k. on_hand db2 k = on_hand db k) \<and> map mv_core (movements db2) = map mv_core (movements db)"
proof -
  have small: "ledger_small Q db1" "keyed db1" using assms(2) by (simp_all add: ledger_room_def)
  have core: "map mv_core (movements db2) = map mv_core (movements db)"
    using purge_effect[OF assms(1) small(1) assms(3) small(2)] assms(5) by (simp add: rebuilt_def same_ledger_def)
  have "on_hand db2 k = on_hand db k" for k
  proof -
    have "on_hand db2 k = ledger_net db2 k"
      using purge_balances[OF assms(1) small(1) assms(3) small(2) assms(4)] by (simp add: bal_ok_def)
    also have "\<dots> = ledger_net db k"
      using core_signed[OF core_pair_rows[OF core]] by (simp add: ledger_net_def net_qty_def pair_rows_def)
    finally show ?thesis using assms(6) by (simp add: bal_ok_def)
  qed
  then show ?thesis using core by simp
qed

text \<open>
  C39: Deleting an adjustment undoes it in quantities. After creating an adjustment and deleting it
  again, whoever asks for it and however the cost layers were consumed, every on-hand quantity is what
  it was before, and so are the document headers and lines and the finance entries; the ledger has
  its old rows again, each with its identifier, item, warehouse, type, direction, quantity, reference
  and time. The cost columns of the rows (unit and total cost, quantity and average after) are not
  part of this: the deletion replays the pair and writes them anew, so a row that was costed with the
  help of a revaluation or of layers the replay orders differently can come back with another cost.
\<close>

theorem adjustment_delete_roundtrip:
  assumes create: "CreateAdjustment E ck auth p db = (Inr res, db1)"
    and delete: "DeleteStockTransaction E' ck' auth' (so_txn res) db1 = (None, db2)"
    and num: "numeric_ok E" "numeric_ok E'" and exact: "exact_amount (ap_qty p)" "exact_amount (- ap_qty p)"
    and room: "roomy Q db" "roomy Q db1" and agree: "agree db" and fresh: "fresh_result res db"
  shows "(\<forall>k. on_hand (inv (tn db2)) k = on_hand (inv (tn db)) k)
    \<and> map mv_core (movements (inv (tn db2))) = map mv_core (movements (inv (tn db)))
    \<and> stock_txns db2 = stock_txns db \<and> txn_lines db2 = txn_lines db \<and> txns (fin (tn db2)) = txns (fin (tn db))"
  using create
proof (cases rule: CreateAdjustmentE)
  case (1 u mtype dir qty x m a)
  let ?i = "so_txn res"
  have fr: "trim_space ?i \<noteq> []" "\<forall>r\<in>set (stock_txns db). tx_id r \<noteq> ?i" "trim_space (mr_id m) \<noteq> []"
      "\<forall>t\<in>set (txns (fin (tn db))). ft_ref t \<noteq> Some (trim_space (mr_id m))"
    using fresh 1(6) by (auto simp: fresh_result_def)
  from adjustment_tx_rows[OF 1(4) fr(1,2)] obtain row h where
      rows: "movements (inv (tn a)) = movements (inv (tn db)) @ [row]" "mv_id row = mr_id m" "has_ref TxnKindAdjustment ?i row"
      "stock_txns a = stock_txns db @ [h]" "tx_id h = ?i" "tx_kind h = TxnKindAdjustment"
      "txn_lines a = txn_lines db" "fin (tn a) = fin (tn db)" by blast
  have same: "inv (tn db1) = inv (tn a)" "stock_txns db1 = stock_txns a" "txn_lines db1 = txn_lines a"
    using 1(5) by (auto dest!: book_eq split: if_splits)
  have books: "[t \<leftarrow> txns (fin (tn db1)). ft_ref t \<noteq> Some (trim_space (mr_id m))] = txns (fin (tn db))"
    using 1(5) booked_txns[OF _ fr(3), of E ck] fr(4) rows(8) by (auto split: if_splits)
  have old: "filter (\<lambda>r. \<not> has_ref TxnKindAdjustment ?i r) (movements (inv (tn db))) = movements (inv (tn db))"
      "filter (has_ref TxnKindAdjustment ?i) (movements (inv (tn db))) = []"
    using fresh by (auto simp: fresh_result_def has_ref_def filter_id_conv filter_empty_conv)
  have agree1: "agree db1"
    using agreement.adjust_keeps[of db Q E p ck auth] create agree num(1) room(1) exact by (simp add: in_room_def)
  from delete show ?thesis
  proof (cases rule: DeleteStockTransactionE)
    case (1 r movs fd pairs idb)
    have "find (\<lambda>r. tx_id r = ?i) (stock_txns db) = None" using fr(2) by (simp add: find_None_iff)
    then have "r = h" using 1(1) same(2) rows(4,5) by (simp add: find_txn_def find_append)
    then have kind: "tx_kind r = TxnKindAdjustment" using rows(6) by simp
    have undone: "(\<forall>k. on_hand idb k = on_hand (inv (tn db)) k) \<and> map mv_core (movements idb) = map mv_core (movements (inv (tn db)))"
      by (rule purge_undoes[OF 1(4)[unfolded kind] room(2) num(2) agree1 _ agree]) (use rows(1,3) old same(1) in simp)
    moreover have "movs = [\<lparr>ref_id = mr_id m, ref_item = mv_item row, ref_wh = mv_wh row\<rparr>]"
      using 1(2) kind rows(1-3) same(1) old(2) by (auto simp: collectMovementsByRef_def res_simps filter_empty_conv)
    then have "txns fd = txns (fin (tn db))"
      using RemoveInventoryEntries_txns[OF 1(3)] books fr(3) by (simp add: movementFinanceRefs_def uniqueReferenceNos_def dedup_def)
    moreover have "[t \<leftarrow> stock_txns db. tx_id t \<noteq> ?i] = stock_txns db" "[l \<leftarrow> txn_lines db. tl_txn l \<noteq> ?i] = txn_lines db"
      using fresh by (auto simp: fresh_result_def filter_id_conv)
    ultimately show ?thesis using 1(5) same rows(4,5,7) by (simp add: delete_txn_def)
  qed
qed

section \<open>Documents succeed on a working database\<close>

lemma post_returns:
  assumes "healthy E" "exact_amount x" "0 < qty4 (round4 x)" "mi_qty i = round4 x"
    and "mi_dir i = dirIn \<or> mi_dir i = dirOut \<and> \<not> mi_block i"
  shows "returns (post E i db)"
proof -
  have "\<exists>res idb. PostMovement E i (inv (tn db)) = Inr (res, idb)"
    by (rule PostMovement_total[of E "qty4 (round4 x)"])
      (use assms in \<open>auto simp: healthy_def exact_amount_def small4_def\<close>)
  then show ?thesis by (auto simp: post_def returns_def)
qed

lemma header_returns:
  assumes "healthy E" "numbered db" "docTypeForKind kind = Inr (pf, pf)" "next_no db pf < 2 ^ 63"
  shows "returns (insertStockTransactionHeader E ck kind d note by db)"
proof -
  have "nextDocNumber E pf pf db = Inr (formatDocNumber pf (next_no db pf), db\<lparr>doc_seq := (doc_seq db)(pf \<mapsto> next_no db pf)\<rparr>)"
    using assms by (simp add: nextDocNumber_eq healthy_def)
  then show ?thesis using next_number_fresh[OF assms(2,3)] assms
    by (simp add: insertStockTransactionHeader_def healthy_def new_id_def fresh_uuid_def returns_def)
qed

lemma ensureSku_returns: "healthy E \<Longrightarrow> returns (ensureSku E i db)"
  by (simp add: ensureSku_def returns_def)

lemma context_returns: "healthy E \<Longrightarrow> returns (context_of E db i)"
  by (simp add: context_of_def loadCostingContext_def Let_def returns_def)

lemma context_block:
  "context_of E db i = Inr cc \<Longrightarrow> inv_setting (inv (tn db)) = Some st \<Longrightarrow> cc_block cc = st_block st"
  by (auto simp: context_of_def loadCostingContext_def Let_def res_simps)

text \<open>What a header written for \<open>kind\<close> leaves alone.\<close>

lemma header_setting:
  assumes "ensureSku E i db = Inr a" "insertStockTransactionHeader E ck kind d note by a = Inr (x, b)"
  shows "inv_setting (inv (tn b)) = inv_setting (inv (tn db))"
  using quiet_ensureSku[OF assms(1)] quiet_header[OF assms(2)] by (simp add: quiet_def same_stock_def)

lemma sku_header_returns:
  assumes "healthy E" "numbered db" "docTypeForKind kind = Inr (pf, pf)" "next_no db pf < 2 ^ 63" "ensureSku E i db = Inr a"
  shows "returns (insertStockTransactionHeader E ck kind d note by a)"
proof -
  have "numbered a" "next_no a pf = next_no db pf"
    using same_docs_numbered[OF same_docs_writes(1)[OF assms(5)]] assms(2) quiet_ensureSku[OF assms(5)] by (auto simp: next_no_def)
  then show ?thesis using header_returns[of E a kind pf] assms by simp
qed

lemma transfer_body_returns:
  assumes "healthy E" "exact_amount (tp_qty p)" "0 < qty4 (round4 (tp_qty p))"
    and "inv_setting (inv (tn db)) = Some st" "\<not> st_block st"
  shows "returns (transfer_body E t acc p db)"
proof -
  have "\<not> cc_block cc" if "context_of E (transfer_header E t p db) (tp_item p) = Inr cc" for cc
    using context_block[OF that, of st] assms(4,5) by (simp add: transfer_header_def)
  moreover have "\<not> cc_block cc \<Longrightarrow> returns (post E (transfer_out p cc t acc) d)" for cc d
    by (rule post_returns[OF assms(1-3)]) (simp_all add: transfer_out_def no_input_def)
  moreover have "returns (post E (transfer_in p cc t acc out) d)" for cc out d
    by (rule post_returns[OF assms(1-3)]) (simp_all add: transfer_in_def no_input_def)
  ultimately show ?thesis unfolding transfer_body_def
    using assms(1) by (auto intro!: returns_intros context_returns)
qed

lemma transfer_tx_returns:
  assumes "healthy E" "numbered db" "next_no db DocTransfer < 2 ^ 63" "exact_amount (tp_qty p)" "0 < qty4 (round4 (tp_qty p))"
    and "inv_setting (inv (tn db)) = Some st" "\<not> st_block st"
  shows "returns (transfer_tx E ck u p db)"
proof -
  have "docTypeForKind TxnKindTransfer = Inr (DocTransfer, DocTransfer)" by (simp add: docTypeForKind_def txn_kinds)
  note header = sku_header_returns[OF assms(1,2) this assms(3)]
  have "returns (transfer_body E t (AccountID u) p b)" if "ensureSku E (tp_item p) db = Inr a"
    "insertStockTransactionHeader E ck TxnKindTransfer [] (tp_note p) (AccountID u) a = Inr (x, b)" for a b x t
    using transfer_body_returns[OF assms(1,4,5)] header_setting[OF that] assms(6,7) by simp
  then show ?thesis unfolding transfer_tx_def
    using assms(1) by (auto intro!: returns_intros ensureSku_returns header)
qed

text \<open>Two warehouses, five pieces in the first, negative stock allowed, no documents yet.\<close>

definition sample_docs :: doc_db where
  "sample_docs = \<lparr>tn = sample_tenant\<lparr>inv_warehouse := inv_warehouse sample_tenant @
       [\<lparr>wr_id = ''v'', wr_name = ''Toko'', wr_default = False, wr_deleted = False\<rparr>]\<rparr>,
     stock_txns = [], txn_lines = [], doc_seq = Map.empty\<rparr>"

definition sample_clock :: clock where
  "sample_clock = \<lparr>ck_period = ''2026-01'', ck_today = ''2026-01-02'', ck_local = ''2026-01-02''\<rparr>"

definition sample_transfer :: TransferParams where
  "sample_transfer = \<lparr>tp_item = ''p'', tp_from = ''w'', tp_to = ''v'', tp_qty = dec4 20000, tp_note = []\<rparr>"

lemma sample_docs_facts:
  "numbered sample_docs" "next_no sample_docs pf = 1" "agree sample_docs" "roomy 30000 sample_docs"
  "on_hand (inv (tn sample_docs)) = on_hand sample_db"
  "inv_setting (inv (tn sample_docs)) = Some \<lparr>st_setup = True, st_method = CostingFIFO, st_block = False, st_expense = False\<rparr>"
  using sample_tenant_inv sample_ledger
  by (simp_all add: sample_docs_def numbered_def docs_def next_no_def ledger_room_def ledger_small_def keyed_def
      sample_tenant_def sample_db_def)

lemma exact_amount_dec4: "\<bar>n\<bar> \<le> 2 ^ 43 \<Longrightarrow> exact_amount (dec4 n) \<and> qty4 (round4 (dec4 n)) = n"
proof -
  assume "\<bar>n\<bar> \<le> 2 ^ 43"
  moreover from this have "small4 n" by (simp add: small4_def)
  ultimately show ?thesis by (simp add: exact_amount_def)
qed

lemma sample_transfer_runs:
  "\<exists>res db'. CreateTransfer sample_env sample_clock sample_owner sample_transfer sample_docs = (Inr res, db')"
proof -
  have "returns (transfer_tx sample_env sample_clock (the sample_owner) sample_transfer sample_docs)"
    by (rule transfer_tx_returns[OF sample_env_ok sample_docs_facts(1) _ _ _ sample_docs_facts(6)])
      (simp_all add: sample_docs_facts sample_transfer_def exact_amount_dec4)
  then obtain y db' where t: "transfer_tx sample_env sample_clock (the sample_owner) sample_transfer sample_docs = Inr (y, db')"
    by (auto simp: returns_def)
  have "validateCatalogItem sample_env (tn sample_docs) ''p'' = Inr ()" "validateWarehouse sample_env (tn sample_docs) ''w'' = Inr ()"
      "validateWarehouse sample_env (tn sample_docs) ''v'' = Inr ()" "trim_space ''w'' \<noteq> trim_space ''v''"
    by code_simp+
  moreover have "\<not> dec4 20000 \<le> epsilon" by (simp add: dec4_pos small4_def)
  ultimately show ?thesis using t sample_owner_ok sample_env_ok
    by (simp add: CreateTransfer_def sample_transfer_def in_tx_def prepareTenant_def ensureInventoryModuleSchema_def
        split: prod.splits)
qed

theorem CreateTransfer_conserves_witness:
  "\<exists>res db'. CreateTransfer sample_env sample_clock sample_owner sample_transfer sample_docs = (Inr res, db')
     \<and> on_hand (inv (tn db')) (''p'', ''w'') = 30000 \<and> on_hand (inv (tn db')) (''p'', ''v'') = 20000"
proof -
  obtain res db' where r: "CreateTransfer sample_env sample_clock sample_owner sample_transfer sample_docs = (Inr res, db')"
    using sample_transfer_runs by blast
  have q: "exact_amount (tp_qty sample_transfer)" "qty4 (round4 (tp_qty sample_transfer)) = 20000"
    by (simp_all add: sample_transfer_def exact_amount_dec4)
  from CreateTransfer_conserves[OF r numeric_ok_sample q(1) sample_docs_facts(4,3)] q(2) r show ?thesis
    by (simp add: sample_docs_facts(5)) (simp add: sample_transfer_def on_hand_def sample_db_def)
qed

lemma adjustment_tx_returns:
  assumes "healthy E" "numbered db" "next_no db DocAdjust < 2 ^ 63" "adjustmentPlan (ap_qty p) = Some (mtype, dirIn, qty)"
    and "exact_amount (ap_qty p)" "0 < qty4 (round4 (ap_qty p))"
  shows "returns (adjustment_tx E ck u p mtype dirIn qty x db)"
proof -
  have kind: "docTypeForKind TxnKindAdjustment = Inr (DocAdjust, DocAdjust)" by (simp add: docTypeForKind_def txn_kinds)
  have q: "qty = round4 (ap_qty p)" using assms(4) by (auto simp: adjustmentPlan_def direction_names split: if_splits)
  have "returns (post E (adjustment_input p mtype dirIn qty x cc t acc) d)" for cc t acc d
    by (rule post_returns[OF assms(1,5,6)]) (simp_all add: adjustment_input_def no_input_def q)
  then show ?thesis unfolding adjustment_tx_def
    using assms(1) by (auto intro!: returns_intros ensureSku_returns context_returns sku_header_returns[OF assms(1,2) kind assms(3)])
qed

lemma remove_chunks_total: "healthy E \<Longrightarrow> \<exists>fd'. remove_chunks E refs fd = (None, fd')"
proof (induction "length refs" arbitrary: refs fd rule: less_induct)
  case less
  have "returns (removeInventoryEntriesChunk E (take 200 refs) fd)"
    unfolding removeInventoryEntriesChunk_def using less.prems by (auto intro!: returns_intros)
  then obtain m where "removeInventoryEntriesChunk E (take 200 refs) fd = Inr m" by (auto simp: returns_def)
  then show ?case using less by (subst remove_chunks.simps) auto
qed

lemma RemoveInventoryEntries_total: "healthy E \<Longrightarrow> \<exists>fd'. RemoveInventoryEntries E refs fd = (None, fd')"
  using remove_chunks_total by (auto simp: RemoveInventoryEntries_def Let_def prepareTenant_def)

lemma delete_succeeds:
  assumes "healthy E" "getUser auth = Inr u" "requireOwner u = Inr ()" "find_txn db i = Some r"
    and "CheckPeriodUnlockedForDate E (ck_period ck) (ck_today ck) (fin (tn db)) (tx_date r) = Inr ()"
  shows "\<exists>db'. DeleteStockTransaction E ck auth i db = (None, db')"
proof -
  obtain t where t: "loadStockTransaction E db i = Inr t" "st_row t = r"
    using assms(1,4) by (simp add: loadStockTransaction_def)
  obtain movs where m: "collectMovementsByRef E (inv (tn db)) (tx_kind r) i = Inr movs"
    using assms(1) by (simp add: collectMovementsByRef_def)
  obtain fd where f: "RemoveInventoryEntries E (movementFinanceRefs [] movs) (fin (tn db)) = (None, fd)"
    using RemoveInventoryEntries_total[OF assms(1)] by blast
  obtain x where "purgeMovementsByRef E (tx_kind r) i (inv (tn db)) = Inr x"
    using purge_total[OF assms(1)] unfolding returns_def by blast
  then show ?thesis using assms t m f
    by (cases x) (simp add: DeleteStockTransaction_def prepareTenant_def ensureInventoryModuleSchema_def txnKindRefType_def
        remove_entries_def delete_tx_def purge_def)
qed

lemma stripped_heads: "\<forall>e\<in>set es. hd e \<noteq> c \<Longrightarrow> stripped es (replicate n c)"
  by (cases n) (auto simp: stripped_def prefix_def Cons_eq_append_conv)

lemma trim_space_u: "trim_space (replicate n (CHR ''u'')) = replicate n (CHR ''u'')"
proof -
  have "\<forall>e\<in>set space_encodings. hd e \<noteq> CHR ''u''" "\<forall>e\<in>set (map rev space_encodings). hd e \<noteq> CHR ''u''" by code_simp+
  from stripped_heads[OF this(1)] stripped_heads[OF this(2)] show ?thesis
    by (simp add: trim_space_def strip_front_id)
qed

definition broken_env :: env where
  "broken_env = sample_env\<lparr>db_fails := (\<lambda>l. l = ''tx.begin'')\<rparr>"

lemma sample_period:
  "CheckPeriodUnlockedForDate sample_env (ck_period sample_clock) (ck_today sample_clock) sample_books ''2026-01-02'' = Inr ()"
  "CheckPeriodUnlockedForDate broken_env (ck_period sample_clock) (ck_today sample_clock) (sample_books\<lparr>txns := ts\<rparr>) ''2026-01-02'' = Inr ()"
proof -
  have p: "parse_date ''2026-01-02'' \<noteq> None" by (simp add: parse_date_def is_digit_def days_in_def)
  have t: "trim_space ''2026-01-02'' = ''2026-01-02''"
    "ensurePeriodUnlocked sample_env sample_books (walletPeriod ''2026-01'' ''2026-01-02'') = Inr ()"
    "ensurePeriodUnlocked broken_env sample_books (walletPeriod ''2026-01'' ''2026-01-02'') = Inr ()" by code_simp+
  have "same_setup sample_books (sample_books\<lparr>txns := ts\<rparr>)" by (simp add: same_setup_def)
  note u = period_frame[OF this]
  show "CheckPeriodUnlockedForDate sample_env (ck_period sample_clock) (ck_today sample_clock) sample_books ''2026-01-02'' = Inr ()"
    using sample_env_ok p t by (simp add: CheckPeriodUnlockedForDate_def sample_clock_def)
  show "CheckPeriodUnlockedForDate broken_env (ck_period sample_clock) (ck_today sample_clock) (sample_books\<lparr>txns := ts\<rparr>) ''2026-01-02'' = Inr ()"
    using p t u by (simp add: CheckPeriodUnlockedForDate_def sample_clock_def) (simp add: broken_env_def)
qed

definition sample_adjustment :: AdjustmentParams where
  "sample_adjustment = \<lparr>ap_item = ''p'', ap_wh = ''v'', ap_qty = dec4 20000, ap_cost = dec4 5000, ap_batch = [],
     ap_expiry = None, ap_note = []\<rparr>"

lemma sample_plan: "adjustmentPlan (dec4 20000) = Some (MovementAdjustPlus, dirIn, dec4 20000)"
  using dec4_pos[of 20000] by (simp add: adjustmentPlan_def small4_def)

lemma adjustment_ids:
  assumes "adjustment_tx E ck u p mtype dir qty x db = Inr ((i, d, m), db')"
  shows "i = db_uuid E (next_uuid (inv (tn db))) \<and> mr_id m = db_uuid E (Suc (next_uuid (inv (tn db))))"
proof -
  from assms obtain a b cc where s: "ensureSku E (ap_item p) db = Inr a"
      "insertStockTransactionHeader E ck TxnKindAdjustment [] (ap_note p) (AccountID u) a = Inr ((i, d), b)"
      "post E (adjustment_input p mtype dir qty x cc i (AccountID u)) (adjustment_header E i p b) = Inr (m, db')"
    unfolding adjustment_tx_def ebind_eq_Inr by (auto simp: res_simps)
  have a: "next_uuid (inv (tn a)) = next_uuid (inv (tn db))" using s(1) by (auto simp: ensureSku_def res_simps Let_def)
  have b: "i = db_uuid E (next_uuid (inv (tn a))) \<and> next_uuid (inv (tn b)) = Suc (next_uuid (inv (tn a)))"
    using s(2) by (rule headerE) (auto simp: new_id_def fresh_uuid_def)
  from s(3) obtain idb where p: "PostMovement E (adjustment_input p mtype dir qty x cc i (AccountID u)) (inv (tn b)) = Inr (m, idb)"
    by (auto simp: post_eq adjustment_header_def)
  then have "mr_id m = db_uuid E (next_uuid (inv (tn b)))"
    by (cases rule: PostMovementE) (metis MovementResult.select_convs(1))
  then show ?thesis using a b by simp
qed

lemma sample_adjustment_runs:
  "\<exists>res db1 row h. CreateAdjustment sample_env sample_clock sample_owner sample_adjustment sample_docs = (Inr res, db1)
     \<and> fresh_result res sample_docs \<and> find_txn db1 (so_txn res) = Some h \<and> tx_date h = ''2026-01-02''
     \<and> fin (tn db1) = sample_books \<and> movements (inv (tn db1)) = movements sample_db @ [row] \<and> mv_qty row = 20000
     \<and> mv_item row \<noteq> [] \<and> mv_wh row \<noteq> [] \<and> mv_id row = ''uu''"
proof -
  have ex: "exact_amount (ap_qty sample_adjustment)" "qty4 (round4 (ap_qty sample_adjustment)) = 20000"
    by (simp_all add: sample_adjustment_def exact_amount_dec4)
  have "returns (adjustment_tx sample_env sample_clock (the sample_owner) sample_adjustment MovementAdjustPlus dirIn (dec4 20000) None sample_docs)"
    by (rule adjustment_tx_returns[OF sample_env_ok sample_docs_facts(1)])
      (use ex in \<open>simp_all add: sample_docs_facts sample_adjustment_def sample_plan\<close>)
  then obtain i d m db1 where t: "adjustment_tx sample_env sample_clock (the sample_owner) sample_adjustment MovementAdjustPlus dirIn (dec4 20000) None sample_docs = Inr ((i, d, m), db1)"
    by (auto simp: returns_def)
  have ids: "i = ''u''" "mr_id m = ''uu''"
    using adjustment_ids[OF t] by (simp_all add: sample_docs_def sample_tenant_def sample_db_def sample_env_def numeral_2_eq_2)
  have trims: "trim_space ''u'' = ''u''" "trim_space ''uu'' = ''uu''" by code_simp+
  have base: "stock_txns sample_docs = []" "txn_lines sample_docs = []" "fin (tn sample_docs) = sample_books"
      "movements (inv (tn sample_docs)) = movements sample_db" "txns sample_books = []"
    by (simp_all add: sample_docs_def sample_tenant_def sample_books_def)
  have num: "db_numeric sample_env (dec4 20000) = 20000" using numeric_ok_sample by (simp add: numeric_ok_def small4_def)
  from adjustment_tx_rows[OF t] obtain row h where r: "movements (inv (tn db1)) = movements sample_db @ [row]" "mv_id row = ''uu''"
      "mv_item row = ''p''" "mv_wh row = ''v''" "mv_qty row = 20000" "stock_txns db1 = [h]" "tx_id h = i" "tx_date h = ck_local sample_clock"
      "fin (tn db1) = sample_books"
    by (auto simp: base ids trims num sample_adjustment_def)
  have "validateCatalogItem sample_env (tn sample_docs) ''p'' = Inr ()" "validateWarehouse sample_env (tn sample_docs) ''v'' = Inr ()"
    by code_simp+
  moreover have "\<not> dec4 5000 < 0" "dirIn \<noteq> dirOut" "parseDatePtr None = Inr None"
    using dec4_pos[of 5000] epsilon_bounds by (simp_all add: small4_def direction_names parseDatePtr_def)
  ultimately have "CreateAdjustment sample_env sample_clock sample_owner sample_adjustment sample_docs =
      (Inr \<lparr>so_txn = i, so_doc = d, so_movements = [mr_id m], so_after = mr_after m, so_total = mr_total m, so_short = mr_short m\<rparr>, db1)"
    using t sample_owner_ok sample_env_ok
    by (simp add: CreateAdjustment_def sample_adjustment_def sample_plan in_tx_def prepareTenant_def ensureInventoryModuleSchema_def)
  moreover have "\<forall>r\<in>set (movements sample_db). mv_refid r \<noteq> Some ''u''" by (simp add: sample_db_def sample_movement_def)
  ultimately show ?thesis
    using r ids trims by (auto simp: fresh_result_def base find_txn_def sample_clock_def)
qed

theorem adjustment_delete_roundtrip_witness:
  "\<exists>res db1 db2. CreateAdjustment sample_env sample_clock sample_owner sample_adjustment sample_docs = (Inr res, db1)
     \<and> DeleteStockTransaction sample_env sample_clock sample_owner (so_txn res) db1 = (None, db2)
     \<and> on_hand (inv (tn db2)) (''p'', ''v'') = 0 \<and> stock_txns db2 = []"
proof -
  from sample_adjustment_runs obtain res db1 row h where r:
      "CreateAdjustment sample_env sample_clock sample_owner sample_adjustment sample_docs = (Inr res, db1)"
      "fresh_result res sample_docs" "find_txn db1 (so_txn res) = Some h" "tx_date h = ''2026-01-02''"
      "fin (tn db1) = sample_books" "movements (inv (tn db1)) = movements sample_db @ [row]" "mv_qty row = 20000"
      "mv_item row \<noteq> []" "mv_wh row \<noteq> []" "mv_id row = ''uu''" by blast
  obtain db2 where d: "DeleteStockTransaction sample_env sample_clock sample_owner (so_txn res) db1 = (None, db2)"
    using delete_succeeds[OF sample_env_ok sample_owner_ok r(3), of sample_clock] sample_period(1) unfolding r(4,5) by blast
  have room: "roomy 30000 db1"
    using r(6-10) by (auto simp: ledger_room_def ledger_small_def keyed_def sample_db_def sample_movement_def)
  have ex: "exact_amount (ap_qty sample_adjustment)" "exact_amount (- ap_qty sample_adjustment)"
    using exact_amount_dec4[of 20000] exact_amount_dec4[of "- 20000"] by (simp_all add: sample_adjustment_def dec4_uminus)
  from adjustment_delete_roundtrip[OF r(1) d numeric_ok_sample numeric_ok_sample ex sample_docs_facts(4) room sample_docs_facts(3) r(2)]
  moreover have "on_hand (inv (tn sample_docs)) (''p'', ''v'') = 0" "stock_txns sample_docs = []"
    by (simp_all add: sample_docs_facts(5)) (simp_all add: on_hand_def sample_db_def sample_docs_def)
  ultimately show ?thesis using r(1) d by auto
qed

theorem documents_agree_witness:
  "on_hand (inv (tn (serve [(sample_env, sample_clock, sample_owner, Transfer sample_transfer)] sample_docs))) (''p'', ''v'')
     = ledger_net (inv (tn (serve [(sample_env, sample_clock, sample_owner, Transfer sample_transfer)] sample_docs))) (''p'', ''v'')"
  by (rule documents_agree[OF sample_docs_facts(3), of 30000])
    (simp add: in_room_def sample_docs_facts numeric_ok_sample sample_transfer_def exact_amount_dec4)

theorem document_numbers_unique_witness:
  "distinct (map tx_doc (stock_txns (serve [(sample_env, sample_clock, sample_owner, Transfer sample_transfer),
     (sample_env, sample_clock, sample_owner, Transfer sample_transfer)] sample_docs)))"
  using document_numbers_unique[OF sample_docs_facts(1)] by blast

section \<open>Opening balances are taken once\<close>

definition entry_keys :: "OpeningEntry list \<Rightarrow> (string \<times> string) list" where
  "entry_keys es = map entry_key (filter entry_keyed es)"

lemma entry_pairs_loop_iff:
  "entry_pairs_loop seen n es = Inr () \<longleftrightarrow> distinct (entry_keys es) \<and> set (entry_keys es) \<inter> fst ` set seen = {}"
  by (induction seen n es rule: entry_pairs_loop.induct)
    (auto simp: entry_keys_def map_of_eq_None_iff split: option.splits dest: map_of_SomeD intro: rev_image_eqI)

lemma set_uniqueOpeningBalanceKeys: "set (uniqueOpeningBalanceKeys es) = set (entry_keys es)"
  by (auto simp: uniqueOpeningBalanceKeys_def entry_keys_def)

lemma not_registered_iff:
  "validateOpeningBalanceNotRegistered E db es = Inr () \<longleftrightarrow> set (entry_keys es) = {} \<or>
     \<not> db_fails E ''opening.registered'' \<and> (\<forall>l\<in>set (opening_lines db). (tl_item l, tl_wh l) \<notin> set (entry_keys es))"
proof (cases "uniqueOpeningBalanceKeys es = []")
  case True
  then show ?thesis using set_uniqueOpeningBalanceKeys[of es] by (simp add: validateOpeningBalanceNotRegistered_def)
next
  case False
  then have ne: "set (entry_keys es) \<noteq> {}" using set_uniqueOpeningBalanceKeys[of es] by (metis set_empty)
  show ?thesis
  proof (cases "find (\<lambda>l. (tl_item l, tl_wh l) \<in> set (entry_keys es)) (opening_lines db)")
    case None
    then have "\<forall>l\<in>set (opening_lines db). (tl_item l, tl_wh l) \<notin> set (entry_keys es)" by (simp add: find_None_iff)
    then show ?thesis using False None ne
      by (auto simp: validateOpeningBalanceNotRegistered_def set_uniqueOpeningBalanceKeys res_simps)
  next
    case (Some l)
    then have "l \<in> set (opening_lines db)" "(tl_item l, tl_wh l) \<in> set (entry_keys es)"
      by (auto simp: find_Some_iff)
    then show ?thesis using False Some ne
      by (auto simp: validateOpeningBalanceNotRegistered_def set_uniqueOpeningBalanceKeys res_simps Let_def)
  qed
qed

text \<open>
  An opening balance is accepted at most once per item and warehouse. A request that names a
  pair twice, or a pair an earlier opening balance has a line for, is refused whatever else it
  holds, and a refused request leaves every table as it was.
\<close>

theorem opening_balance_once:
  assumes "\<not> distinct (entry_keys es) \<or> (\<exists>l\<in>set (opening_lines db). (tl_item l, tl_wh l) \<in> set (entry_keys es))"
  shows "\<exists>e. CreateOpeningBalance E ck auth es db = (Inl e, db)"
proof -
  have no: "opening_tx E ck u es db \<noteq> Inr y" for u y
  proof
    assume "opening_tx E ck u es db = Inr y"
    then obtain x db1 where s: "insertStockTransactionHeader E ck TxnKindOpeningBalance [] ''Saldo awal'' (AccountID u) db = Inr (x, db1)"
        "validateOpeningBalanceEntryPairs es = Inr ()" "validateOpeningBalanceNotRegistered E db1 es = Inr ()"
      unfolding opening_tx_def ebind_eq_Inr by (auto simp: res_simps)
    obtain h where h: "txn_lines db1 = txn_lines db" "stock_txns db1 = stock_txns db @ [h]"
      using s(1) by (cases x) (auto elim!: headerE dest!: quiet_new_id)
    have "set (opening_lines db) \<subseteq> set (opening_lines db1)" by (auto simp: opening_lines_def h list_ex_iff)
    then show False
      using assms s(2,3) by (auto simp: validateOpeningBalanceEntryPairs_def entry_pairs_loop_iff not_registered_iff)
  qed
  then show ?thesis unfolding CreateOpeningBalance_def in_tx_def
    by (auto simp: try_reply_def split: sum.splits)
qed

section \<open>Revaluations change values only\<close>

lemma reval_body_rows:
  assumes "reval_body E t acc p h old a = Inr ((mid, delta), b)"
  shows "snd (revaluationDelta h old (vp_cost p)) = delta \<and> fin (tn b) = fin (tn a)
    \<and> balances (inv (tn b)) = balances (reval_balance_row E p (fst (revaluationDelta h old (vp_cost p))) (inv (tn a)))
    \<and> inv_setting (inv (tn b)) = inv_setting (inv (tn a)) \<and> skus (inv (tn b)) = skus (inv (tn a))
    \<and> (\<exists>row. movements (inv (tn b)) = movements (inv (tn a)) @ [row] \<and> mv_id row = mid \<and> mv_qty row = 0
        \<and> mv_item row = vp_item p \<and> mv_wh row = vp_wh p \<and> mv_type row = MovementRevaluation)"
proof -
  obtain n d where d: "revaluationDelta h old (vp_cost p) = (n, d)" by (cases "revaluationDelta h old (vp_cost p)")
  have "tn (reval_header E t p a) = tn a" by (simp add: reval_header_def)
  then have "(reval_movement E t acc p h d (reval_balance_row E p n (inv (tn a))) = (mid, inv (tn b))
      \<or> reval_movement E t acc p h d (reval_balance_row E p n (reval_layers E p old n (inv (tn a)))) = (mid, inv (tn b)))
      \<and> delta = d \<and> fin (tn b) = fin (tn a)"
    using assms unfolding reval_body_def d prod.case ebind_eq_Inr
    by (auto simp: res_simps split: if_splits prod.splits)
  then obtain idb where i: "idb = inv (tn a) \<or> idb = reval_layers E p old n (inv (tn a))" "delta = d" "fin (tn b) = fin (tn a)"
      "reval_movement E t acc p h d (reval_balance_row E p n idb) = (mid, inv (tn b))" by blast
  have "movements idb = movements (inv (tn a))" "balances idb = balances (inv (tn a))"
      "inv_setting idb = inv_setting (inv (tn a))" "skus idb = skus (inv (tn a))"
    using i(1) by (auto simp: reval_layers_def)
  moreover have "inv (tn b) = snd (reval_movement E t acc p h d (reval_balance_row E p n idb))"
      "mid = fst (reval_movement E t acc p h d (reval_balance_row E p n idb))"
    using i(4) by simp_all
  ultimately show ?thesis using i(2,3) d by (auto simp: reval_movement_def fresh_uuid_def reval_balance_row_def
        cong: option.case_cong)
qed

lemma CreateRevaluationE:
  assumes "CreateRevaluation E ck auth p db = (Inr res, db')"
  obtains u b db1 db2 delta where "getUser auth = Inr u" "requireOwner u = Inr ()" "\<not> vp_cost p < 0"
    "balances (inv (tn db)) (vp_item p, vp_wh p) = Some b" "\<not> dec4 (bl_on_hand b) \<le> epsilon"
    "insertStockTransactionHeader E ck TxnKindRevaluation [] (vp_note p) (AccountID u) db = Inr ((so_txn res, so_doc res), db1)"
    "reval_body E (so_txn res) (AccountID u) p (dec4 (bl_on_hand b)) (dec4 (bl_total b)) db1 = Inr ((hd (so_movements res), delta), db2)"
    "recordRevaluationFinance E ck (AccountID u) (hd (so_movements res)) (vp_note p) delta db2 = Inr db'"
    "so_total res = round4 \<bar>delta\<bar>" "so_after res = dec4 (bl_on_hand b)"
proof -
  from assms obtain u i d mid delta h db2 where s: "getUser auth = Inr u" "requireOwner u = Inr ()" "\<not> vp_cost p < 0"
      "reval_tx E ck u p db = Inr ((i, d, mid, delta, h), db2)"
      "recordRevaluationFinance E ck (AccountID u) mid (vp_note p) delta db2 = Inr db'"
      "res = \<lparr>so_txn = i, so_doc = d, so_movements = [mid], so_after = h, so_total = round4 \<bar>delta\<bar>, so_short = 0\<rparr>"
    unfolding CreateRevaluation_def by (auto simp: res_simps)
  from s(4) obtain old db1 where t: "reval_balance E p db = Inr (h, old)"
      "insertStockTransactionHeader E ck TxnKindRevaluation [] (vp_note p) (AccountID u) db = Inr ((i, d), db1)"
      "reval_body E i (AccountID u) p h old db1 = Inr ((mid, delta), db2)"
    unfolding reval_tx_def ebind_eq_Inr by (auto simp: res_simps)
  from t(1) obtain b where "balances (inv (tn db)) (vp_item p, vp_wh p) = Some b" "\<not> dec4 (bl_on_hand b) \<le> epsilon"
      "h = dec4 (bl_on_hand b)" "old = dec4 (bl_total b)"
    by (auto simp: reval_balance_def Let_def split: if_splits option.splits)
  then show ?thesis using s t by (intro that) auto
qed

text \<open>
  A revaluation changes values only. It needs stock on hand; the on-hand quantity and the net of
  the ledger of every pair stay, the revalued pair gets the new unit cost and the value of its stock
  at that cost, no other balance row changes, and the books are touched only when the value changed.
\<close>

theorem CreateRevaluation_value:
  assumes "CreateRevaluation E ck auth p db = (Inr res, db')"
  shows "\<exists>b. balances (inv (tn db)) (vp_item p, vp_wh p) = Some b \<and> \<not> dec4 (bl_on_hand b) \<le> epsilon
    \<and> balances (inv (tn db')) = (balances (inv (tn db)))((vp_item p, vp_wh p) \<mapsto> b\<lparr>bl_avg := db_numeric E (vp_cost p),
        bl_total := db_numeric E (round4 (fl (dec4 (bl_on_hand b) * vp_cost p))), bl_updated := db_now E\<rparr>)
    \<and> (\<forall>k. ledger_net (inv (tn db')) k = ledger_net (inv (tn db)) k)
    \<and> so_total res = round4 \<bar>round4 (fl (round4 (fl (dec4 (bl_on_hand b) * vp_cost p)) - dec4 (bl_total b)))\<bar>
    \<and> (round4 (fl (round4 (fl (dec4 (bl_on_hand b) * vp_cost p)) - dec4 (bl_total b))) = 0 \<longrightarrow> fin (tn db') = fin (tn db))"
  using assms
proof (cases rule: CreateRevaluationE)
  case (1 u b db1 db2 delta)
  note rows = reval_body_rows[OF 1(7)]
  note q = quiet_header[OF 1(6), unfolded quiet_def same_stock_def]
  have bal: "balances (inv (tn db1)) (vp_item p, vp_wh p) = Some b" using q 1(4) by simp
  have same: "inv (tn db') = inv (tn db2)" using recordRevaluationFinance_eq[OF 1(8)] by auto
  have "ledger_net (inv (tn db')) k = ledger_net (inv (tn db)) k" for k
    using rows q by (auto simp: same ledger_net_def pair_rows_def row_mov_def)
  moreover have "delta = 0 \<longrightarrow> fin (tn db') = fin (tn db)"
    using 1(8) rows q by (auto simp: recordRevaluationFinance_def)
  ultimately show ?thesis using 1(4,5,9) rows q bal
    by (auto simp: same reval_balance_row_def revaluationDelta_def Let_def)
qed

lemma replay_skips_zero:
  "fold (replay_step meth) ms st = fold (replay_step meth) [m \<leftarrow> ms. \<not> rm_qty m \<le> epsilon] st"
  by (induction ms arbitrary: st) (auto simp: replay_step_def)

lemma replay_rows_cong:
  assumes "[r \<leftarrow> pair_rows a k. mv_qty r \<noteq> 0] = [r \<leftarrow> pair_rows b k. mv_qty r \<noteq> 0]"
    and "loadReplayMovements E a (fst k) (snd k) = Inr ma" "loadReplayMovements E b (fst k) (snd k) = Inr mb"
  shows "replayMovements ma meth = replayMovements mb meth"
proof -
  let ?rm = "\<lambda>r. \<lparr>rm_id = mv_id r, rm_direction = mv_dir r, rm_qty = dec4 (mv_qty r), rm_cost = dec4 (mv_unit r)\<rparr>"
  let ?P = "\<lambda>m. \<not> rm_qty m \<le> epsilon"
  have sub: "filter ?P (map ?rm (sort_key ledger_key rs)) = filter ?P (map ?rm (sort_key ledger_key [r \<leftarrow> rs. mv_qty r \<noteq> 0]))" for rs
  proof -
    have z: "(?P \<circ> ?rm) r \<Longrightarrow> mv_qty r \<noteq> 0" for r using dec4_pos[of 0] by (auto simp: small4_def)
    have "filter (?P \<circ> ?rm) rs = filter (?P \<circ> ?rm) [r \<leftarrow> rs. mv_qty r \<noteq> 0]" using z by (auto simp: comp_def filter_filter intro!: filter_cong)
    then show ?thesis by (simp add: filter_map filter_sort)
  qed
  have "filter ?P ma = filter ?P mb"
    using assms sub[of "pair_rows a k"] sub[of "pair_rows b k"] by (auto simp: loadReplayMovements_def res_simps)
  then show ?thesis using replay_skips_zero[of meth ma] replay_skips_zero[of meth mb] by (simp add: replayMovements_def)
qed

lemma replay_pair_balance:
  assumes "replayPairInTx E i w db = Inr db'"
  shows "\<exists>cc ms. loadCostingContext E db i = Inr cc \<and> loadReplayMovements E db i w = Inr ms
    \<and> map_option bl_on_hand (balances db' (i, w)) = Some (db_numeric E (rr_onhand (replayMovements ms (cc_method cc))))
    \<and> map_option bl_avg (balances db' (i, w)) = Some (db_numeric E (rr_avg (replayMovements ms (cc_method cc))))
    \<and> map_option bl_total (balances db' (i, w)) = Some (db_numeric E (rr_total (replayMovements ms (cc_method cc))))"
  using assms by (auto simp: replayPairInTx_def write_replay_def Let_def res_simps put_balance_def)

text \<open>
  C40: A revaluation does not survive a replay. Rebuilding the pair of a revaluation, as recalculation
  and the deletion or editing of any other document of that pair do, gives the quantity, average cost
  and value it would have given had the revaluation never been made; the finance entry of the
  revaluation is not part of the replay and stays booked.
\<close>

theorem replay_drops_revaluation:
  assumes "CreateRevaluation E ck auth p db = (Inr res, db1)"
    and "replayPairInTx E' (vp_item p) (vp_wh p) (inv (tn db)) = Inr a"
    and "replayPairInTx E' (vp_item p) (vp_wh p) (inv (tn db1)) = Inr b"
  shows "map_option bl_on_hand (balances b (vp_item p, vp_wh p)) = map_option bl_on_hand (balances a (vp_item p, vp_wh p))
    \<and> map_option bl_avg (balances b (vp_item p, vp_wh p)) = map_option bl_avg (balances a (vp_item p, vp_wh p))
    \<and> map_option bl_total (balances b (vp_item p, vp_wh p)) = map_option bl_total (balances a (vp_item p, vp_wh p))"
  using assms(1)
proof (cases rule: CreateRevaluationE)
  case (1 u bal h1 h2 delta)
  let ?k = "(vp_item p, vp_wh p)"
  note rows = reval_body_rows[OF 1(7)]
  have same: "inv (tn db1) = inv (tn h2)" using recordRevaluationFinance_eq[OF 1(8)] by auto
  have q: "movements (inv (tn h1)) = movements (inv (tn db))" "inv_setting (inv (tn h1)) = inv_setting (inv (tn db))"
    using quiet_header[OF 1(6)] by (simp_all add: quiet_def same_stock_def)
  have sk: "skus (inv (tn h1)) = skus (inv (tn db))"
    using 1(6) by (rule headerE) (auto simp: new_id_def fresh_uuid_def)
  have ctx: "loadCostingContext E' (inv (tn db1)) i = loadCostingContext E' (inv (tn db)) i" for i
    using rows q sk by (simp add: same loadCostingContext_def sku_override_def)
  have rowseq: "[r \<leftarrow> pair_rows (inv (tn db1)) ?k. mv_qty r \<noteq> 0] = [r \<leftarrow> pair_rows (inv (tn db)) ?k. mv_qty r \<noteq> 0]"
    using rows q by (auto simp: same pair_rows_def)
  from replay_pair_balance[OF assms(2)] replay_pair_balance[OF assms(3)] obtain ma mb where
      load: "loadReplayMovements E' (inv (tn db)) (fst ?k) (snd ?k) = Inr ma" "loadReplayMovements E' (inv (tn db1)) (fst ?k) (snd ?k) = Inr mb" by auto
  have "replayMovements mb meth = replayMovements ma meth" for meth using replay_rows_cong[OF rowseq load(2,1)] .
  then show ?thesis
    using replay_pair_balance[OF assms(2)] replay_pair_balance[OF assms(3)] ctx load by auto
qed

section \<open>Deletion is not atomic\<close>

text \<open>
  A deletion that fails may already have changed the books. The finance entries of a document
  are removed before the stock transaction starts, so when that transaction cannot be opened the
  request fails, the document and its movements are still there, and their entries are gone.
\<close>

theorem failed_delete_drops_entries:
  assumes "getUser auth = Inr u" "requireOwner u = Inr ()" "prepareTenant E = Inr ()" "ensureInventoryModuleSchema E = Inr ()"
    and "loadStockTransaction E db i = Inr t"
    and "CheckPeriodUnlockedForDate E (ck_period ck) (ck_today ck) (fin (tn db)) (tx_date (st_row t)) = Inr ()"
    and "collectMovementsByRef E (inv (tn db)) (tx_kind (st_row t)) i = Inr movs"
    and "RemoveInventoryEntries E (map ref_id movs) (fin (tn db)) = (None, fd)" "db_fails E ''tx.begin''"
  shows "\<exists>db'. DeleteStockTransaction E ck auth i db = (Some (Internal ''tx.begin''), db')
    \<and> inv (tn db') = inv (tn db) \<and> stock_txns db' = stock_txns db
    \<and> (\<forall>x\<in>set (txns (fin (tn db'))). ft_ref x \<notin> Some ` set (uniqueReferenceNos (map ref_id movs)))"
proof -
  have "DeleteStockTransaction E ck auth i db = (Some (Internal ''tx.begin''), set_fin fd db)"
    using assms by (simp add: DeleteStockTransaction_def txnKindRefType_def movementFinanceRefs_def remove_entries_def
        delete_tx_def sql_def)
  then show ?thesis using RemoveInventoryEntries_txns[OF assms(8)] by simp
qed

text \<open>The opening balance \<open>d\<close> with an entry booked for its first movement.\<close>

definition booked_docs :: doc_db where
  "booked_docs = \<lparr>tn = sample_tenant\<lparr>fin := sample_books\<lparr>txns := [\<lparr>ft_id = ''f1'', ft_type = ''expense'', ft_amount = 100,
       ft_wallet = ''kas'', ft_to = None, ft_category = None, ft_desc = None, ft_ref = Some ''m1'', ft_date = ''2026-01-02'',
       ft_status = ''approved'', ft_by = [], ft_deleted = False\<rparr>]\<rparr>\<rparr>,
     stock_txns = [\<lparr>tx_id = ''d'', tx_doc = ''WOPN-000001'', tx_kind = TxnKindOpeningBalance, tx_date = ''2026-01-02'',
       tx_note = None, tx_item = None, tx_wh = None, tx_from = None, tx_to = None, tx_signed = None, tx_unit = None,
       tx_new = None, tx_by = None, tx_created = 1\<rparr>], txn_lines = [], doc_seq = [DocOpening \<mapsto> 1]\<rparr>"

lemma booked_docs_facts:
  "\<exists>t. loadStockTransaction broken_env booked_docs ''d'' = Inr t \<and> tx_date (st_row t) = ''2026-01-02''
     \<and> tx_kind (st_row t) = TxnKindOpeningBalance"
  "\<exists>movs. collectMovementsByRef broken_env (inv (tn booked_docs)) TxnKindOpeningBalance ''d'' = Inr movs \<and> map ref_id movs = [''m1'', ''m2'']"
  "fst (RemoveInventoryEntries broken_env [''m1'', ''m2''] (fin (tn booked_docs))) = None"
  "prepareTenant broken_env = Inr ()" "ensureInventoryModuleSchema broken_env = Inr ()" "db_fails broken_env ''tx.begin''"
  "uniqueReferenceNos [''m1'', ''m2''] = [''m1'', ''m2'']"
proof -
  show "fst (RemoveInventoryEntries broken_env [''m1'', ''m2''] (fin (tn booked_docs))) = None" by code_simp
  show "uniqueReferenceNos [''m1'', ''m2''] = [''m1'', ''m2'']" by code_simp
qed (simp_all add: loadStockTransaction_def find_txn_def booked_docs_def broken_env_def sql_def collectMovementsByRef_def
    sample_tenant_def sample_db_def sample_movement_def has_ref_def txn_kinds prepareTenant_def ensureInventoryModuleSchema_def)

theorem failed_delete_drops_entries_witness:
  "\<exists>e db'. DeleteStockTransaction broken_env sample_clock sample_owner ''d'' booked_docs = (Some e, db')
     \<and> movements (inv (tn db')) \<noteq> [] \<and> (\<exists>x\<in>set (txns (fin (tn booked_docs))). ft_ref x = Some ''m1'')
     \<and> (\<forall>x\<in>set (txns (fin (tn db'))). ft_ref x \<noteq> Some ''m1'')"
proof -
  obtain t where t: "loadStockTransaction broken_env booked_docs ''d'' = Inr t" "tx_date (st_row t) = ''2026-01-02''"
      "tx_kind (st_row t) = TxnKindOpeningBalance" using booked_docs_facts(1) by blast
  obtain movs where m: "collectMovementsByRef broken_env (inv (tn booked_docs)) TxnKindOpeningBalance ''d'' = Inr movs"
      "map ref_id movs = [''m1'', ''m2'']" using booked_docs_facts(2) by (elim exE conjE)
  obtain fd where f: "RemoveInventoryEntries broken_env [''m1'', ''m2''] (fin (tn booked_docs)) = (None, fd)"
    using booked_docs_facts(3) by (cases "RemoveInventoryEntries broken_env [''m1'', ''m2''] (fin (tn booked_docs))") simp
  have p: "CheckPeriodUnlockedForDate broken_env (ck_period sample_clock) (ck_today sample_clock) (fin (tn booked_docs)) ''2026-01-02'' = Inr ()"
    using sample_period(2) by (simp add: booked_docs_def)
  from failed_delete_drops_entries[OF sample_owner_ok booked_docs_facts(4,5) t(1) p[folded t(2)] m(1)[folded t(3)] f[folded m(2)] booked_docs_facts(6)]
  obtain db' where "DeleteStockTransaction broken_env sample_clock sample_owner ''d'' booked_docs = (Some (Internal ''tx.begin''), db')"
      "inv (tn db') = inv (tn booked_docs)" "\<forall>x\<in>set (txns (fin (tn db'))). ft_ref x \<notin> Some ` {''m1'', ''m2''}"
    unfolding m(2) booked_docs_facts(7) by auto
  moreover have "movements (inv (tn booked_docs)) \<noteq> []" "\<exists>x\<in>set (txns (fin (tn booked_docs))). ft_ref x = Some ''m1''"
    by (simp_all add: booked_docs_def sample_tenant_def sample_db_def)
  ultimately show ?thesis by auto
qed

theorem opening_balance_once_witness:
  "\<exists>e. CreateOpeningBalance sample_env sample_clock sample_owner
     [\<lparr>oe_item = ''p'', oe_wh = ''w'', oe_qty = 1, oe_cost = 2, oe_batch = [], oe_expiry = None\<rparr>,
      \<lparr>oe_item = ''p'', oe_wh = ''w'', oe_qty = 3, oe_cost = 2, oe_batch = [], oe_expiry = None\<rparr>] sample_docs = (Inl e, sample_docs)"
proof (rule opening_balance_once, rule disjI1)
  show "\<not> distinct (entry_keys [\<lparr>oe_item = ''p'', oe_wh = ''w'', oe_qty = 1, oe_cost = 2, oe_batch = [], oe_expiry = None\<rparr>,
      \<lparr>oe_item = ''p'', oe_wh = ''w'', oe_qty = 3, oe_cost = 2, oe_batch = [], oe_expiry = None\<rparr>])"
    by code_simp
qed

lemma reval_tx_returns:
  assumes "healthy E" "numbered db" "next_no db DocRevalue < 2 ^ 63"
    and "balances (inv (tn db)) (vp_item p, vp_wh p) = Some b" "\<not> dec4 (bl_on_hand b) \<le> epsilon"
  shows "returns (reval_tx E ck u p db)"
proof -
  have kind: "docTypeForKind TxnKindRevaluation = Inr (DocRevalue, DocRevalue)" by (simp add: docTypeForKind_def txn_kinds)
  have "reval_balance E p db = Inr (dec4 (bl_on_hand b), dec4 (bl_total b))"
    using assms by (simp add: reval_balance_def healthy_def)
  moreover have "returns (reval_body E t acc p h o' d)" for t acc h o' d
    unfolding reval_body_def using assms(1)
    by (auto intro!: returns_intros context_returns simp: case_prod_beta)
  ultimately show ?thesis unfolding reval_tx_def
    using assms(1) by (auto intro!: returns_intros header_returns[OF assms(1,2) kind assms(3)])
qed

definition sample_revaluation :: RevaluationParams where
  "sample_revaluation = \<lparr>vp_item = ''p'', vp_wh = ''w'', vp_cost = 2, vp_note = []\<rparr>"

lemma sample_revaluation_runs:
  "\<exists>res db'. CreateRevaluation sample_env sample_clock sample_owner sample_revaluation sample_docs = (Inr res, db')"
proof -
  have bal: "balances (inv (tn sample_docs)) (vp_item sample_revaluation, vp_wh sample_revaluation)
      = Some \<lparr>bl_on_hand = 50000, bl_reserved = 0, bl_avg = 10000, bl_total = 50000, bl_updated = 1\<rparr>"
    by (simp add: sample_docs_def sample_tenant_def sample_db_def sample_revaluation_def)
  have "returns (reval_tx sample_env sample_clock (the sample_owner) sample_revaluation sample_docs)"
    by (rule reval_tx_returns[OF sample_env_ok sample_docs_facts(1) _ bal])
      (simp_all add: sample_docs_facts dec4_pos small4_def)
  then obtain i d mid delta h db1 where t:
      "reval_tx sample_env sample_clock (the sample_owner) sample_revaluation sample_docs = Inr ((i, d, mid, delta, h), db1)"
    by (auto simp: returns_def)
  have fin: "fin (tn db1) = sample_books"
  proof -
    from t obtain h' old x db2 y where s: "insertStockTransactionHeader sample_env sample_clock TxnKindRevaluation []
          (vp_note sample_revaluation) (AccountID (the sample_owner)) sample_docs = Inr (x, db2)"
        "reval_body sample_env (fst x) (AccountID (the sample_owner)) sample_revaluation h' old db2 = Inr (y, db1)"
      unfolding reval_tx_def ebind_eq_Inr by (auto simp: res_simps)
    obtain mid' delta' where y: "y = (mid', delta')" by (cases y)
    have "fin (tn sample_docs) = sample_books" by (simp add: sample_docs_def sample_tenant_def)
    then show ?thesis
      using quiet_header[OF s(1)] reval_body_rows[OF s(2)[unfolded y]] by (simp add: quiet_def)
  qed
  have books: "returns (resolveIncomeWallet sample_env sample_books [])"
      "returns (ensurePeriodUnlocked sample_env sample_books (walletPeriod ''2026-01'' ''2026-01-02''))"
      "CheckCurrentPeriodUnlocked sample_env ''2026-01'' ''2026-01-02'' sample_books = Inr ()"
      "validateCatalogItem sample_env (tn sample_docs) ''p'' = Inr ()" "validateWarehouse sample_env (tn sample_docs) ''w'' = Inr ()"
    by code_simp+
  have flows: "trim_space ''income'' = ''income''" "trim_space ''expense'' = ''expense''" by code_simp+
  have "returns (recordRevaluationFinance sample_env sample_clock (AccountID (the sample_owner)) mid [] delta db1)"
    using books(1,2) sample_env_ok unfolding recordRevaluationFinance_def book_def
    by (auto intro!: returns_intros record_entry_total simp: fin sample_clock_def flows money_ok_sample)
  then obtain db2 where f: "recordRevaluationFinance sample_env sample_clock (AccountID (the sample_owner)) mid [] delta db1 = Inr db2"
    by (auto simp: returns_def)
  have "fin (tn sample_docs) = sample_books" by (simp add: sample_docs_def sample_tenant_def)
  then show ?thesis using t f books sample_owner_ok sample_env_ok
    by (simp add: CreateRevaluation_def sample_revaluation_def in_tx_def prepareTenant_def ensureInventoryModuleSchema_def
        sample_clock_def)
qed

theorem CreateRevaluation_value_witness:
  "\<exists>res db'. CreateRevaluation sample_env sample_clock sample_owner sample_revaluation sample_docs = (Inr res, db')
     \<and> ledger_net (inv (tn db')) (''p'', ''w'') = ledger_net sample_db (''p'', ''w'')"
proof -
  obtain res db' where r: "CreateRevaluation sample_env sample_clock sample_owner sample_revaluation sample_docs = (Inr res, db')"
    using sample_revaluation_runs by blast
  have "ledger_net (inv (tn sample_docs)) k = ledger_net sample_db k" for k
    by (simp add: sample_docs_def sample_tenant_def ledger_net_def pair_rows_def)
  then show ?thesis using CreateRevaluation_value[OF r] r by auto
qed

theorem replay_drops_revaluation_witness:
  "\<exists>res db1 a b. CreateRevaluation sample_env sample_clock sample_owner sample_revaluation sample_docs = (Inr res, db1)
     \<and> replayPairInTx sample_env ''p'' ''w'' (inv (tn sample_docs)) = Inr a \<and> replayPairInTx sample_env ''p'' ''w'' (inv (tn db1)) = Inr b
     \<and> map_option bl_total (balances b (''p'', ''w'')) = map_option bl_total (balances a (''p'', ''w''))"
proof -
  obtain res db1 where r: "CreateRevaluation sample_env sample_clock sample_owner sample_revaluation sample_docs = (Inr res, db1)"
    using sample_revaluation_runs by blast
  obtain a where a: "replayPairInTx sample_env (vp_item sample_revaluation) (vp_wh sample_revaluation) (inv (tn sample_docs)) = Inr a"
    using replayPairInTx_total[OF sample_env_ok] unfolding returns_def by blast
  obtain b where b: "replayPairInTx sample_env (vp_item sample_revaluation) (vp_wh sample_revaluation) (inv (tn db1)) = Inr b"
    using replayPairInTx_total[OF sample_env_ok] unfolding returns_def by blast
  from replay_drops_revaluation[OF r a b] show ?thesis using r a b by (auto simp: sample_revaluation_def)
qed

end
