(* ===== verification/Purchasing_Props.thy ===== *)
theory Purchasing_Props
  imports Purchasing_Laws Doc_Effects
begin

text \<open>
  The properties of purchasing: reconciliation of purchase orders, bills and stock, the status of
  purchase orders, what deleting a bill does to an order that was closed, and creation followed by
  deletion.
\<close>

declare split_paired_All [simp del] split_paired_Ex [simp del]

section \<open>The status of a purchase order\<close>

definition live_states :: "string list" where
  "live_states = [''open'', ''partial'', ''received'']"

definition status_follows :: "pur_db \<Rightarrow> bool" where
  "status_follows a \<longleftrightarrow> (\<forall>r\<in>set (pos a). po_status r \<in> set live_states \<longrightarrow> po_status r = receipt_status a (po_id r))"

text \<open>Identifiers are unique, and a bill that receives a line names the order the line belongs to.\<close>

definition linked :: "pur_db \<Rightarrow> bool" where
  "linked a \<longleftrightarrow> distinct (map po_id (pos a))
     \<and> (\<forall>b\<in>set (bills a). \<forall>x. bi_po b = Some x \<longrightarrow> trim_space x \<noteq> [])
     \<and> (\<forall>n\<in>set (bill_lines a). \<forall>l\<in>set (po_lines a). bn_po_line n = Some (pl_id l) \<longrightarrow>
          (\<forall>b\<in>set (bills a). bi_id b = bn_bill n \<longrightarrow> bi_po b = Some (pl_po l)))"

definition aims :: "BillLineInput list \<Rightarrow> string option \<Rightarrow> pur_db \<Rightarrow> bool" where
  "aims ls x a \<longleftrightarrow> (\<forall>l\<in>set ls. \<forall>r\<in>set (po_lines a). nullUUID (bl_po_line l) = Some (pl_id r) \<longrightarrow> x = Some (pl_po r))"

text \<open>What the requests of a history have to be: new identifiers are new, and bills receive lines of their own order.\<close>

fun aimed :: "env \<Rightarrow> pur_call \<Rightarrow> pur_db \<Rightarrow> bool" where
  "aimed E (NewPO p) a = (unclaimed E a \<and> (\<forall>n\<ge>next_uuid (pinv a). db_uuid E n \<notin> po_id ` set (pos a) \<union> pl_po ` set (po_lines a)))"
| "aimed E (EditPO i p) a = unclaimed E a"
| "aimed E (NewBill p) a = (aims (cb_lines p) (nullUUID (cb_po p)) a
     \<and> (\<forall>n\<ge>next_uuid (pinv a). db_uuid E n \<notin> bi_id ` set (bills a) \<union> bn_bill ` set (bill_lines a)))"
| "aimed E (EditBill i p) a = (\<forall>b\<in>set (bills a). bi_id b = i \<longrightarrow> aims (cb_lines p) (bi_po b) a)"
| "aimed E c a = True"

lemma receipt_status_cong:
  assumes "map (\<lambda>l. (pl_ordered l, pl_received l)) (lines_of_po b x) = map (\<lambda>l. (pl_ordered l, pl_received l)) (lines_of_po a x)"
  shows "receipt_status b x = receipt_status a x"
proof -
  have "map (fst \<circ> (\<lambda>l. (pl_ordered l, pl_received l))) (lines_of_po b x) = map (fst \<circ> (\<lambda>l. (pl_ordered l, pl_received l))) (lines_of_po a x)"
    "map (snd \<circ> (\<lambda>l. (pl_ordered l, pl_received l))) (lines_of_po b x) = map (snd \<circ> (\<lambda>l. (pl_ordered l, pl_received l))) (lines_of_po a x)"
    using assms by (metis map_map)+
  then show ?thesis by (simp add: receipt_status_def sum_ordered_def sum_received_def o_def)
qed

lemma receipt_status_same: "lines_of_po b x = lines_of_po a x \<Longrightarrow> receipt_status b x = receipt_status a x"
  by (simp add: receipt_status_def sum_ordered_def sum_received_def)

lemma lines_of_po_map:
  assumes "po_lines b = map f (po_lines a)" "\<And>l. pl_po (f l) = pl_po l" "\<And>l. l \<in> set (po_lines a) \<Longrightarrow> pl_po l = x \<Longrightarrow> f l = l"
  shows "lines_of_po b x = lines_of_po a x"
proof -
  have "map f [l \<leftarrow> po_lines a. pl_po l = x] = [l \<leftarrow> po_lines a. pl_po l = x]"
    by (rule map_idI) (use assms(3) in auto)
  then show ?thesis using assms(1,2) by (simp add: lines_of_po_def filter_map o_def)
qed

lemma poStatus_live: "poStatusFromReceipts x y \<in> set live_states"
  by (simp add: poStatusFromReceipts_def live_states_def)

lemma poStatus_none: "poStatusFromReceipts x 0 = ''open''"
  using dec4_le_epsilon[of 0] by (simp add: poStatusFromReceipts_def small4_def)

lemma bump_idle: "\<forall>l\<in>set ls. nullUUID (bl_po_line l) \<noteq> Some (pl_id r) \<Longrightarrow> bump E ls r = r"
proof (induction ls)
  case (Cons l ls)
  then have "bump E [l] r = r" by (simp add: bump_def)
  then show ?case using Cons by (simp add: bump_Cons[of E l ls])
qed (simp add: bump_Nil)

lemma unbump_idle: "\<forall>n\<in>set ns. bn_po_line n \<noteq> Some (pl_id r) \<Longrightarrow> unbump E ns r = r"
proof (induction ns)
  case (Cons n ns)
  then have "unbump E [n] r = r" by (simp add: unbump_def)
  then show ?case using Cons by (simp add: unbump_Cons[of E n ns])
qed (simp add: unbump_Nil)

text \<open>Settling an order whose lines alone changed brings its status up to date, and no other order needs it.\<close>

lemma settle_follows:
  assumes "\<And>r. r \<in> set (pos c) \<Longrightarrow> po_id r \<noteq> x \<or> trim_space x = [] \<Longrightarrow> po_status r \<in> set live_states \<Longrightarrow> po_status r = receipt_status c (po_id r)"
  shows "status_follows (settle x c)"
proof -
  have same: "receipt_status (settle x c) y = receipt_status c y" for y
    by (rule receipt_status_same) (simp add: lines_of_po_def)
  show ?thesis
    using assms by (auto simp: status_follows_def same) (auto simp: settle_def set_po_status_def receivable_def live_states_def split: if_splits)
qed

lemma reopened_follows:
  assumes "\<And>r. r \<in> set (pos c) \<Longrightarrow> x \<noteq> Some (po_id r) \<Longrightarrow> po_status r \<in> set live_states \<Longrightarrow> po_status r = receipt_status c (po_id r)"
    and "x \<noteq> Some []"
  shows "status_follows (reopened x c)"
proof -
  have same: "receipt_status (reopened x c) y = receipt_status c y" for y
    by (rule receipt_status_same) (simp add: lines_of_po_def)
  show ?thesis
    using assms by (auto simp: status_follows_def same) (auto simp: reopened_def set_po_status_def split: option.splits if_splits)
qed

lemma delivered_follows:
  assumes "delivered E b ls a c" "aims ls (nullUUID x) a" "status_follows a"
  shows "status_follows (settle x c)"
proof (rule settle_follows)
  fix r assume r: "r \<in> set (pos c)" "po_id r \<noteq> x \<or> trim_space x = []" "po_status r \<in> set live_states"
  have p: "po_lines c = map (bump E ls) (po_lines a)" "pos c = pos a" using assms(1) by (simp_all add: delivered_def)
  have "lines_of_po c (po_id r) = lines_of_po a (po_id r)"
    using p(1) by (rule lines_of_po_map) (use assms(2) r(2) in \<open>auto intro!: bump_idle simp: aims_def nullUUID_def split: if_splits\<close>)
  from receipt_status_same[OF this] show "po_status r = receipt_status c (po_id r)"
    using assms(3) r p(2) by (simp add: status_follows_def)
qed

lemma linkedD:
  "linked a \<Longrightarrow> n \<in> set (bill_lines a) \<Longrightarrow> l \<in> set (po_lines a) \<Longrightarrow> bn_po_line n = Some (pl_id l) \<Longrightarrow>
     b \<in> set (bills a) \<Longrightarrow> bi_id b = bn_bill n \<Longrightarrow> bi_po b = Some (pl_po l)"
  unfolding linked_def by blast

lemma delivered_linked:
  assumes "delivered E i ls a c" "linked a" "\<forall>b\<in>set (bills a). bi_id b = i \<longrightarrow> aims ls (bi_po b) a"
  shows "linked c"
proof -
  have p: "po_lines c = map (bump E ls) (po_lines a)" "pos c = pos a" "bills c = bills a"
      "map bn_core (bill_lines c) = map bn_core (bill_lines a) @ map (line_core E i) ls"
    using assms(1) by (simp_all add: delivered_def)
  have "bi_po b = Some (pl_po l)" if "n \<in> set (bill_lines c)" "l \<in> set (po_lines a)" "bn_po_line n = Some (pl_id l)"
      "b \<in> set (bills a)" "bi_id b = bn_bill n" for n l b
  proof -
    have "bn_core n \<in> set (map bn_core (bill_lines c))" using that(1) by simp
    then consider m where "m \<in> set (bill_lines a)" "bn_core n = bn_core m" | k where "k \<in> set ls" "bn_core n = line_core E i k"
      unfolding p(4) by auto
    then show ?thesis
    proof cases
      case 1
      then show ?thesis using linkedD[OF assms(2) 1(1) that(2) _ that(4)] that(3,5) by (simp add: bn_core_def)
    next
      case 2
      then have "nullUUID (bl_po_line k) = Some (pl_id l)" "bi_id b = i" using that(3,5) by (simp_all add: bn_core_def line_core_def)
      then show ?thesis using assms(3) 2(1) that(2,4) unfolding aims_def by blast
    qed
  qed
  then show ?thesis using assms(2) p(1-3) by (auto simp: linked_def)
qed

lemma linked_settle [simp]: "linked (settle x a) = linked a" "linked (reopened y a) = linked a" "linked (set_po_status P s a) = linked a"
proof -
  have "map po_id (pos (settle x a)) = map po_id (pos a)" "map po_id (pos (reopened y a)) = map po_id (pos a)"
      "map po_id (pos (set_po_status P s a)) = map po_id (pos a)"
    by (auto simp: settle_def reopened_def set_po_status_def split: option.splits)
  then show "linked (settle x a) = linked a" "linked (reopened y a) = linked a" "linked (set_po_status P s a) = linked a"
    by (simp_all add: linked_def)
qed

text \<open>The lines of a bill that is taken back belong to its own order.\<close>

lemma taken_back_lines:
  assumes "linked a" "b \<in> set (bills a)" "bi_po b \<noteq> Some y"
  shows "lines_of_po (taken_back E (bi_id b) d a) y = lines_of_po a y"
proof (rule lines_of_po_map)
  show "po_lines (taken_back E (bi_id b) d a) = map (unbump E (lines_of_bill a (bi_id b))) (po_lines a)" by (simp add: taken_back_def)
  fix l assume l: "l \<in> set (po_lines a)" "pl_po l = y"
  show "unbump E (lines_of_bill a (bi_id b)) l = l"
    by (rule unbump_idle) (use assms l in \<open>auto simp: linked_def lines_of_bill_def\<close>)
qed simp

lemma taken_back_linked:
  assumes "linked a" "map bi_id bs = map bi_id (bills a)" "map bi_po bs = map bi_po (bills a)"
  shows "linked ((taken_back E i d a)\<lparr>bills := bs\<rparr>)"
proof -
  have old: "\<exists>b'\<in>set (bills a). bi_id b' = bi_id b \<and> bi_po b' = bi_po b" if "b \<in> set bs" for b
  proof -
    from that obtain k where k: "k < length bs" "bs ! k = b" by (auto simp: in_set_conv_nth)
    have "length bs = length (bills a)" using map_eq_imp_length_eq[OF assms(2)] .
    moreover have "bi_id (bs ! k) = bi_id (bills a ! k)" "bi_po (bs ! k) = bi_po (bills a ! k)"
      using assms(2,3) k(1) by (metis map_eq_imp_length_eq nth_map)+
    ultimately show ?thesis using k by (metis nth_mem)
  qed
  then show ?thesis using assms(1) unfolding linked_def taken_back_def by (clarsimp; metis)
qed

text \<open>New lines of an order have received nothing.\<close>

lemma adds_lines_status:
  assumes "adds_lines E x a b" "y \<noteq> x"
  shows "receipt_status b y = receipt_status a y"
  using assms by (intro receipt_status_same) (auto simp: adds_lines_def lines_of_po_def)

lemma adds_lines_open:
  assumes "adds_lines E x a b" "lines_of_po a x = []"
  shows "receipt_status b x = ''open''"
proof -
  from assms(1) obtain new where new: "po_lines b = po_lines a @ new" "\<forall>r\<in>set new. pl_received r = 0"
    unfolding adds_lines_def by blast
  have "lines_of_po b x = [r \<leftarrow> new. pl_po r = x]" using assms(2) by (simp add: lines_of_po_def new(1))
  moreover have "(\<Sum>r\<leftarrow>[r \<leftarrow> new. pl_po r = x]. pl_received r) = 0" using new(2) by (induction new) auto
  ultimately have "sum_received b x = 0" by (simp add: sum_received_def)
  then show ?thesis by (simp add: receipt_status_def poStatus_none)
qed

lemma adds_lines_linked:
  assumes "adds_lines E x a b" "linked a" "unclaimed E a"
  shows "linked b"
proof -
  from assms(1) obtain new where "po_lines b = po_lines a @ new" "\<forall>r\<in>set new. \<exists>n\<ge>next_uuid (pinv a). pl_id r = db_uuid E n"
      "pos b = pos a" "bills b = bills a" "bill_lines b = bill_lines a"
    by (auto simp: adds_lines_def)
  then show ?thesis using assms(2,3) by (fastforce simp: linked_def unclaimed_def)
qed

definition status_ok :: "pur_db \<Rightarrow> bool" where
  "status_ok a \<longleftrightarrow> linked a \<and> status_follows a"

lemma aims_fill [simp]: "aims (map (fill_bill_line w) ls) x a = aims ls x a"
proof -
  have "bl_po_line (fill_bill_line w l) = bl_po_line l" for l by (simp add: fill_bill_line_def)
  then show ?thesis by (simp add: aims_def)
qed

lemma new_bill_status:
  assumes "create_bill_tx E pg u p d w ls a = Inr ((i, no), b)" "aims ls (nullUUID (cb_po p)) a" "status_ok a"
    and "\<forall>n\<ge>next_uuid (pinv a). db_uuid E n \<notin> bi_id ` set (bills a) \<union> bn_bill ` set (bill_lines a)"
  shows "status_ok b"
  using assms(1)
proof (rule create_bill_txE)
  fix a1 row c
  assume i: "i = db_uuid E (next_uuid (pinv a))" and t: "pos a1 = pos a" "po_lines a1 = po_lines a" "bill_lines a1 = bill_lines a"
      "bills a1 = bills a @ [row]" "bi_id row = i" "bi_po row = nullUUID (cb_po p)"
    and c: "delivered E i ls a1 c" and b: "b = settle (cb_po p) c"
  have new: "i \<notin> bi_id ` set (bills a)" "i \<notin> bn_bill ` set (bill_lines a)" using assms(4) i by auto
  have po: "trim_space x \<noteq> []" if "nullUUID (cb_po p) = Some x" for x
    using that by (auto simp: nullUUID_def split: if_splits)
  have "linked a1" using assms(3) t new po unfolding status_ok_def linked_def by auto
  moreover have "aims ls (nullUUID (cb_po p)) a1" using assms(2) t by (simp add: aims_def)
  moreover have "status_follows a1"
    using assms(3) t by (simp add: status_ok_def status_follows_def receipt_status_def sum_ordered_def sum_received_def lines_of_po_def)
  moreover have "\<forall>b\<in>set (bills a1). bi_id b = i \<longrightarrow> aims ls (bi_po b) a1" using calculation(2) t new(1) by (auto simp: image_iff)
  ultimately show "status_ok b"
    using delivered_follows[OF c] delivered_linked[OF c] by (simp add: status_ok_def b)
qed

lemma taken_back_follows:
  assumes "status_ok a" "b \<in> set (bills a)" "r \<in> set (pos a)" "bi_po b \<noteq> Some (po_id r)" "po_status r \<in> set live_states"
  shows "po_status r = receipt_status (taken_back E (bi_id b) d a) (po_id r)"
  using assms receipt_status_same[OF taken_back_lines[of a b "po_id r" E d]] by (simp add: status_ok_def status_follows_def)

lemma edit_bill_status:
  assumes "update_bill_tx E pg u ex p d w ls a = Inr (x, b)" "ex \<in> set (bills a)" "status_ok a"
    and "\<forall>b\<in>set (bills a). bi_id b = bi_id ex \<longrightarrow> aims ls (bi_po b) a"
  shows "status_ok b"
  using assms(1)
proof (rule update_bill_txE)
  fix d1 f c
  let ?s = "(taken_back E (bi_id ex) d1 a)\<lparr>bills := map f (bills a)\<rparr>"
  assume f: "\<And>r. bi_id (f r) = bi_id r \<and> bi_po (f r) = bi_po r"
    and c: "delivered E (bi_id ex) ls ?s c" and b: "b = settle (col (bi_po ex)) c"
  have aims: "aims ls y ?s = aims ls y a" for y by (auto simp: aims_def taken_back_def)
  have "linked ?s" using assms(3) f by (intro taken_back_linked) (simp_all add: status_ok_def)
  from delivered_linked[OF c this] have "linked c" using assms(4) f unfolding aims by auto
  moreover have "status_follows (settle (col (bi_po ex)) c)"
  proof (rule settle_follows)
    fix r assume r: "r \<in> set (pos c)" "po_id r \<noteq> col (bi_po ex) \<or> trim_space (col (bi_po ex)) = []" "po_status r \<in> set live_states"
    have p: "po_lines c = map (bump E ls) (po_lines ?s)" "pos c = pos a" using c by (simp_all add: delivered_def taken_back_def)
    have ne: "bi_po ex \<noteq> Some (po_id r)"
      using r(2) assms(2,3) by (auto simp: col_def status_ok_def linked_def split: option.splits)
    have "aims ls (bi_po ex) ?s" using assms(2,4) by (simp add: aims)
    then have "lines_of_po c (po_id r) = lines_of_po ?s (po_id r)"
      using ne by (intro lines_of_po_map[OF p(1)]) (auto intro!: bump_idle simp: aims_def)
    also have "\<dots> = lines_of_po (taken_back E (bi_id ex) d1 a) (po_id r)" by (simp add: lines_of_po_def)
    finally show "po_status r = receipt_status c (po_id r)"
      using taken_back_follows[OF assms(3,2) _ ne r(3), of E d1] r(1) p(2) receipt_status_same by metis
  qed
  ultimately show "status_ok b" by (simp add: status_ok_def b)
qed

lemma drop_bill_status:
  assumes "delete_bill_tx E r a = Inr b" "r \<in> set (bills a)" "status_ok a"
  shows "status_ok b"
  using assms(1)
proof (rule delete_bill_txE)
  fix d1
  let ?s = "taken_back E (bi_id r) d1 a"
  assume b: "b = (reopened (bi_po r) ?s)\<lparr>bills := [s \<leftarrow> bills a. bi_id s \<noteq> bi_id r]\<rparr>"
  have "linked (?s\<lparr>bills := bills a\<rparr>)" using assms(3) by (intro taken_back_linked) (simp_all add: status_ok_def)
  then have "linked (reopened (bi_po r) ?s)" by (simp add: taken_back_def)
  then have "linked b" unfolding b linked_def by (simp add: taken_back_def) blast
  moreover have "status_follows (reopened (bi_po r) ?s)"
  proof (rule reopened_follows)
    fix s assume "s \<in> set (pos ?s)" "bi_po r \<noteq> Some (po_id s)" "po_status s \<in> set live_states"
    then show "po_status s = receipt_status ?s (po_id s)" using taken_back_follows[OF assms(3,2)] by (simp add: taken_back_def)
  qed (use assms(2,3) in \<open>auto simp: status_ok_def linked_def\<close>)
  then have "status_follows b"
    by (simp add: status_follows_def b receipt_status_def sum_ordered_def sum_received_def lines_of_po_def)
  ultimately show "status_ok b" by (simp add: status_ok_def)
qed

lemma new_po_status:
  assumes "create_po_tx E pg u p d w ls s a = Inr (i, b)" "unclaimed E a" "status_ok a"
    and "\<forall>n\<ge>next_uuid (pinv a). db_uuid E n \<notin> po_id ` set (pos a) \<union> pl_po ` set (po_lines a)"
  shows "status_ok b"
  using assms(1)
proof (rule create_po_txE)
  fix a1 row
  assume i: "i = db_uuid E (next_uuid (pinv a))" and le: "next_uuid (pinv a) \<le> next_uuid (pinv a1)"
    and t: "pos a1 = pos a @ [row]" "po_id row = i" "po_status row = ''open''" "po_lines a1 = po_lines a" "bills a1 = bills a"
      "bill_lines a1 = bill_lines a" and b: "adds_lines E i a1 b"
  have new: "i \<notin> po_id ` set (pos a)" "i \<notin> pl_po ` set (po_lines a)" using assms(4) i by auto
  have "linked a1" using assms(3) t new(1) by (auto simp: status_ok_def linked_def)
  moreover have "unclaimed E a1" using assms(2) le t(6) by (auto simp: unclaimed_def)
  ultimately have "linked b" using adds_lines_linked[OF b] by blast
  moreover have "status_follows b"
    unfolding status_follows_def
  proof (intro ballI impI)
    fix r assume r: "r \<in> set (pos b)" "po_status r \<in> set live_states"
    have "pos b = pos a @ [row]" using b t(1) by (simp add: adds_lines_def)
    with r(1) consider "r = row" | "r \<in> set (pos a)" "po_id r \<noteq> i" using new(1) by auto
    then show "po_status r = receipt_status b (po_id r)"
    proof cases
      case 1
      have "lines_of_po a1 i = []" using new(2) t(4) by (auto simp: lines_of_po_def filter_empty_conv)
      from adds_lines_open[OF b this] show ?thesis using 1 t(2,3) by simp
    next
      case 2
      have "receipt_status a1 (po_id r) = receipt_status a (po_id r)"
        using t(4) by (intro receipt_status_same) (simp add: lines_of_po_def)
      then show ?thesis using adds_lines_status[OF b 2(2)] assms(3) 2(1) r(2) by (simp add: status_ok_def status_follows_def)
    qed
  qed
  ultimately show "status_ok b" by (simp add: status_ok_def)
qed

lemma edit_po_status:
  assumes "update_po_tx E pg i p d w ls s a = Inr (x, b)" "find_po a i = Some q" "po_status q = ''open''" "unclaimed E a" "status_ok a"
  shows "status_ok b"
  using assms(1)
proof (rule update_po_txE)
  fix f
  let ?s = "a\<lparr>po_lines := [l \<leftarrow> po_lines a. pl_po l \<noteq> i], pos := map f (pos a)\<rparr>"
  assume f: "\<And>r. po_id (f r) = po_id r \<and> po_status (f r) = po_status r \<and> po_deleted (f r) = po_deleted r"
    and b: "adds_lines E i ?s b"
  have ids: "map (po_id \<circ> f) (pos a) = map po_id (pos a)" using f by (simp add: o_def)
  have "linked ?s" using assms(5) by (simp add: status_ok_def linked_def ids)
  then have "linked b" using adds_lines_linked[OF b] assms(4) by (simp add: unclaimed_def)
  moreover have "status_follows b"
    unfolding status_follows_def
  proof (intro ballI impI)
    fix r assume r: "r \<in> set (pos b)" "po_status r \<in> set live_states"
    then obtain r0 where r0: "r0 \<in> set (pos a)" "r = f r0" using b by (auto simp: adds_lines_def)
    show "po_status r = receipt_status b (po_id r)"
    proof (cases "po_id r = i")
      case True
      have q: "q \<in> set (pos a)" "po_id q = i" using assms(2) by (auto simp: find_po_def find_Some_iff)
      have "inj_on po_id (set (pos a))" using assms(5) by (simp add: status_ok_def linked_def distinct_map)
      then have "r0 = q" using q r0(1) True f[of r0] r0(2) by (auto dest: inj_onD)
      then have "po_status r = ''open''" using assms(3) f r0(2) by simp
      moreover have "lines_of_po ?s i = []" by (simp add: lines_of_po_def filter_empty_conv)
      ultimately show ?thesis using adds_lines_open[OF b] True by simp
    next
      case False
      have "receipt_status ?s (po_id r) = receipt_status a (po_id r)"
        using False by (intro receipt_status_same) (auto simp: lines_of_po_def intro!: filter_cong)
      then show ?thesis using adds_lines_status[OF b False] assms(5) r0 r(2) f[of r0] by (simp add: status_ok_def status_follows_def)
    qed
  qed
  ultimately show "status_ok b" by (simp add: status_ok_def)
qed

lemma set_status_ok:
  assumes "status_ok a" "s \<notin> set live_states"
  shows "status_ok (set_po_status P s a)"
proof -
  have "receipt_status (set_po_status P s a) y = receipt_status a y" for y
    by (rule receipt_status_same) (simp add: lines_of_po_def)
  then show ?thesis using assms by (auto simp: status_ok_def status_follows_def) (auto simp: set_po_status_def)
qed

lemma delete_po_ok:
  assumes "status_ok a"
  shows "status_ok (delete_po i a)"
proof -
  have "x \<noteq> i \<Longrightarrow> receipt_status (delete_po i a) x = receipt_status a x" for x
    by (rule receipt_status_same) (auto simp: lines_of_po_def delete_po_def intro!: filter_cong)
  moreover have "set (pos (delete_po i a)) = {r \<in> set (pos a). po_id r \<noteq> i}" by (auto simp: delete_po_def)
  ultimately have "status_follows (delete_po i a)" using assms by (auto simp: status_ok_def status_follows_def)
  moreover have "linked (delete_po i a)"
    using assms by (auto simp: status_ok_def linked_def delete_po_def distinct_map_filter)
  ultimately show ?thesis by (simp add: status_ok_def)
qed

lemma settles_status:
  assumes "settles E c a b" "aimed E c a" "status_ok a"
  shows "status_ok b"
  using assms(1)
proof cases
  case (new_bill pg u p d w x)
  then show ?thesis using assms(2,3) new_bill_status[of E pg u p d w "map (fill_bill_line w) (cb_lines p)" a "fst x" "snd x"] by simp
next
  case (edit_bill i r pg u p d w x)
  then show ?thesis using assms(2,3) edit_bill_status[OF edit_bill(3)] found_bill[OF edit_bill(2)] by simp
next
  case (drop_bill i r)
  then show ?thesis using assms(3) drop_bill_status found_bill by blast
next
  case (new_po pg u p d w ls s x)
  then show ?thesis using assms(2,3) new_po_status by simp
next
  case (edit_po i r pg p d w ls s x)
  then show ?thesis using assms(2,3) edit_po_status by simp
qed (use assms(3) in \<open>auto intro!: set_status_ok delete_po_ok simp: live_states_def\<close>)

interpretation statuses: purchase_invariant aimed status_ok
proof
  fix E c a fd s
  show "status_ok a \<Longrightarrow> status_ok (with_books fd a)" "status_ok a \<Longrightarrow> status_ok (with_setting s a)"
    by (auto simp: with_books_def with_setting_def status_ok_def linked_def status_follows_def receipt_status_def
        sum_ordered_def sum_received_def lines_of_po_def)
  show "aimed E c a \<Longrightarrow> aimed E c (with_books fd a)" "aimed E c a \<Longrightarrow> aimed E c (with_setting s a)"
    by (cases c; auto simp: with_books_def with_setting_def unclaimed_def aims_def)+
qed (rule settles_status)

section \<open>Properties of histories\<close>

text \<open>
  C11: Purchase orders, bills and stock reconcile. Through every history of requests to create, edit,
  close, cancel and delete purchase orders and to create, edit and delete bills, by any callers,
  successful or not, what every purchase order line has received is the sum of the bill lines that
  name it, the receipts each bill has in the stock ledger are exactly its lines, in order, and every
  on-hand balance is the net of its ledger rows.
\<close>

theorem purchases_reconcile:
  assumes "reconciled a" "all_ok (exact_purchase Q) rs a"
  shows "let b = purchases rs a in
    (\<forall>r\<in>set (po_lines b). pl_received r = (\<Sum>n\<leftarrow>bill_lines b. if bn_po_line n = Some (pl_id r) then bn_qty n else 0))
    \<and> (\<forall>i. map (\<lambda>r. (mv_item r, mv_wh r, mv_dir r, mv_qty r)) [r \<leftarrow> movements (pinv b). has_ref ''bill'' i r]
           = map (\<lambda>n. (bn_item n, bn_wh n, dirIn, bn_qty n)) [n \<leftarrow> bill_lines b. bn_bill n = i])
    \<and> (\<forall>k. on_hand (pinv b) k = ledger_net (pinv b) k)"
  using reconciliation.purchases_keep[OF assms]
  by (simp add: Let_def reconciled_def receipts_match_def received_by_def stock_matches_def ref_rows_def billed_rows_def
      lines_of_bill_def row_key_def[abs_def] line_key_def[abs_def] bal_ok_def)

text \<open>
  C12: The status of a purchase order follows its receipts. Through every history of requests in which
  bills receive lines of the purchase order they name, every purchase order that is open, partial
  or received has the status its ordered and received quantities give.
\<close>

theorem po_status_follows_receipts:
  assumes "status_ok a" "all_ok aimed rs a"
  shows "\<forall>r\<in>set (pos (purchases rs a)). po_status r \<in> set [''open'', ''partial'', ''received''] \<longrightarrow>
    po_status r = poStatusFromReceipts (dec4 (\<Sum>l\<leftarrow>lines_of_po (purchases rs a) (po_id r). pl_ordered l))
                    (dec4 (\<Sum>l\<leftarrow>lines_of_po (purchases rs a) (po_id r). pl_received l))"
  using statuses.purchases_keep[OF assms]
  by (simp add: status_ok_def status_follows_def live_states_def receipt_status_def sum_ordered_def sum_received_def)

section \<open>Creating and deleting a bill\<close>

lemma CreateBillE:
  assumes "CreateBill E pg ck auth p a = (Inr v, b)"
  obtains u st a0 d b1 i no where "loadSetting E a = Inr (st, a0)"
    "create_bill_tx E pg u p d (trim_space (cb_wh p)) (map (fill_bill_line (trim_space (cb_wh p))) (cb_lines p)) a0 = Inr ((i, no), b1)"
    "book_bill E ck u st i no (sumBillLines (map (fill_bill_line (trim_space (cb_wh p))) (cb_lines p))) b1 = Inr b"
    "find_bill b i = Some (bv_row v)"
  using assms unfolding CreateBill_def Let_def by (auto simp: res_simps in_tx_def split: prod.splits dest!: loaded_bill)

lemma DeleteBillE:
  assumes "DeleteBill E ck auth i a = (None, b)"
  obtains r fd where "find_bill a i = Some r" "delete_bill_tx E r (with_books fd a) = Inr b"
proof -
  from assms obtain v movs where s: "getBill E a i = Inr v"
      "(case remove_refs E (movementFinanceRefs i movs) a of (Some e, db1) \<Rightarrow> (Some e, db1)
        | (None, db1) \<Rightarrow> try_out db1 (delete_bill_tx E (bv_row v) db1) (\<lambda>db2. (None, db2))) = (None, b)"
    unfolding DeleteBill_def by (auto simp: try_out_eq)
  obtain e c where c: "remove_refs E (movementFinanceRefs i movs) a = (e, c)" by (cases "remove_refs E (movementFinanceRefs i movs) a")
  with s(2) have "delete_bill_tx E (bv_row v) c = Inr b" by (cases e) (auto simp: try_out_eq)
  with remove_refs_eq[OF c] loaded_bill[OF s(1)] show ?thesis using that by blast
qed

text \<open>A bill as it stands once it was created: what it added to every table.\<close>

lemma created_bill:
  assumes "CreateBill E pg ck auth p a = (Inr v, b)" "exact_store Q E a"
  obtains i ls row es where "find_bill b i = Some (bv_row v)" "i = db_uuid E (next_uuid (pinv a))" "bills b = bills a @ [row]" "bi_id row = i"
    "bi_po row = nullUUID (cb_po p)"
    "map bn_core (bill_lines b) = map bn_core (bill_lines a) @ map (line_core E i) ls" "po_lines b = map (bump E ls) (po_lines a)"
    "movements (pinv b) = movements (pinv a) @ es" "\<forall>e\<in>set es. has_ref ''bill'' i e"
proof -
  from assms(1) obtain u st a0 d b1 i no where s: "loadSetting E a = Inr (st, a0)"
      "create_bill_tx E pg u p d (trim_space (cb_wh p)) (map (fill_bill_line (trim_space (cb_wh p))) (cb_lines p)) a0 = Inr ((i, no), b1)"
      "book_bill E ck u st i no (sumBillLines (map (fill_bill_line (trim_space (cb_wh p))) (cb_lines p))) b1 = Inr b"
      "find_bill b i = Some (bv_row v)"
    by (rule CreateBillE)
  let ?ls = "map (fill_bill_line (trim_space (cb_wh p))) (cb_lines p)"
  have a0: "pos a0 = pos a" "po_lines a0 = po_lines a" "bills a0 = bills a" "bill_lines a0 = bill_lines a"
      "movements (pinv a0) = movements (pinv a)" "next_uuid (pinv a0) = next_uuid (pinv a)"
    using loadSetting_eq[OF s(1)] by (auto simp: with_setting_def)
  have b: "po_lines b = po_lines b1" "bills b = bills b1" "bill_lines b = bill_lines b1" "pinv b = pinv b1"
    using book_bill_eq[OF s(3)] by (auto simp: with_books_def)
  from s(2) obtain a1 row c where t: "quiet (pd a0) (pd a1)" "i = db_uuid E (next_uuid (pinv a0))" "po_lines a1 = po_lines a0"
      "bill_lines a1 = bill_lines a0" "bills a1 = bills a0 @ [row]" "bi_id row = i" "bi_po row = nullUUID (cb_po p)"
      "delivered E i ?ls a1 c" "b1 = settle (cb_po p) c"
    by (rule create_bill_txE)
  from t(8) obtain js where js: "drun E js (pd a1) (pd c)" "list_all2 (receipt i) ?ls js" by (auto simp: delivered_def)
  from qm.run_log[of E] js(1) obtain es where es: "movements (pinv c) = movements (pinv a1) @ es" "list_all2 (row_for E) js es"
    unfolding drun_def by blast
  have "has_ref ''bill'' i e" if "e \<in> set es" for e
  proof -
    from that es(2) obtain j where j: "j \<in> set js" "row_for E j e" by (metis list_all2_conv_all_nth in_set_conv_nth)
    with js(2) obtain l where "receipt i l j" by (metis list_all2_conv_all_nth in_set_conv_nth)
    moreover have "trim_space ''bill'' = ''bill''" by code_simp
    moreover have "trim_space i \<noteq> []" using assms(2) t(2) by (simp add: exact_store_def)
    ultimately show ?thesis using j(2) by (simp add: row_for_def receipt_def has_ref_def nullStr_def nullUUID_def)
  qed
  with es t a0 b s(4) show ?thesis
    by (intro that[of i row ?ls es]) (simp_all add: delivered_def quiet_def same_stock_def)
qed

text \<open>
  C13: Deleting a bill undoes it in quantities. After a bill was created and then deleted, by whoever and with
  whatever settings, every purchase order line has received what it had before, the bills and their
  lines are the old ones, every on-hand balance is what it was, and the stock ledger has its old rows,
  each with its identifier, item, warehouse, type, direction, quantity, reference and time. Their cost
  columns are written anew by the replay that the deletion runs, and are not part of this.
\<close>

theorem bill_delete_roundtrip:
  assumes create: "CreateBill E pg ck auth p a = (Inr v, b)"
    and delete: "DeleteBill E' ck' auth' (bi_id (bv_row v)) b = (None, c)"
    and sound: "reconciled a" "exact_store Q E a" "lines_exact (cb_lines p)" "exact_store Q' E' b"
    and new: "\<forall>n\<ge>next_uuid (pinv a). db_uuid E n \<notin> bi_id ` set (bills a) \<union> bn_bill ` set (bill_lines a)"
  shows "po_lines c = po_lines a \<and> bills c = bills a \<and> map bn_core (bill_lines c) = map bn_core (bill_lines a)
    \<and> map mv_core (movements (pinv c)) = map mv_core (movements (pinv a)) \<and> (\<forall>k. on_hand (pinv c) k = on_hand (pinv a) k)"
proof -
  have rb: "reconciled b" using reconciliation.new_bill_keeps[of a Q E p pg ck auth] create sound(1-3) by simp
  from created_bill[OF create sound(2)] obtain i ls row es where
    s: "find_bill b i = Some (bv_row v)" "i = db_uuid E (next_uuid (pinv a))" "bills b = bills a @ [row]" "bi_id row = i"
      "map bn_core (bill_lines b) = map bn_core (bill_lines a) @ map (line_core E i) ls" "po_lines b = map (bump E ls) (po_lines a)"
      "movements (pinv b) = movements (pinv a) @ es" "\<forall>e\<in>set es. has_ref ''bill'' i e" .
  have i: "bi_id (bv_row v) = i" using found_bill[OF s(1)] by simp
  have new_i: "i \<notin> bi_id ` set (bills a)" "i \<notin> bn_bill ` set (bill_lines a)" using new s(2) by auto
  from delete[unfolded i] obtain r fd where r: "find_bill b i = Some r" "delete_bill_tx E' r (with_books fd b) = Inr c" by (rule DeleteBillE)
  have ri: "bi_id r = i" using found_bill[OF r(1)] by simp
  let ?b = "with_books fd b"
  from r(2) obtain d1 where d1: "purge E' ''bill'' i (pd ?b) = Inr d1"
      "c = (reopened (bi_po r) (taken_back E' i d1 ?b))\<lparr>bills := [s \<leftarrow> bills ?b. bi_id s \<noteq> i]\<rparr>"
    by (rule delete_bill_txE) (simp add: ri)
  have wb: "po_lines ?b = po_lines b" "bills ?b = bills b" "bill_lines ?b = bill_lines b" "pinv ?b = pinv b"
    by (simp_all add: with_books_def)
  have cores: "map bn_core [n \<leftarrow> bill_lines b. bn_bill n \<noteq> i] = map bn_core (bill_lines a)"
  proof -
    have "map bn_core [n \<leftarrow> bill_lines b. bn_bill n \<noteq> i] = filter (\<lambda>c. fst c \<noteq> i) (map bn_core (bill_lines b))"
      by (simp add: filter_map o_def bn_core_def)
    also have "\<dots> = filter (\<lambda>c. fst c \<noteq> i) (map bn_core (bill_lines a))" by (simp add: s(5) line_core_def filter_empty_conv)
    also have "\<dots> = map bn_core (bill_lines a)" using new_i(2) by (intro filter_True) (auto simp: bn_core_def)
    finally show ?thesis .
  qed
  have po: "unbump E' (lines_of_bill b i) (bump E ls l) = l" if l: "l \<in> set (po_lines a)" for l
  proof -
    have ns: "\<forall>n\<in>set (bill_lines b). 0 \<le> bn_qty n \<and> small4 (bn_qty n)" using rb by (simp add: reconciled_def lines_ok_def)
    have sp: "received_by (bill_lines b) (pl_id l) = received_by (lines_of_bill b i) (pl_id l) + received_by (bill_lines a) (pl_id l)"
      using received_by_split[of "bill_lines b" "pl_id l" "\<lambda>n. bn_bill n = i"] cores by (simp add: lines_of_bill_def received_by_core)
    have old: "pl_received l = received_by (bill_lines a) (pl_id l)" using sound(1) l by (simp add: reconciled_def receipts_match_def)
    have now: "pl_received (bump E ls l) = received_by (bill_lines b) (pl_id l)"
      using rb l by (simp add: reconciled_def receipts_match_def s(6))
    have "0 \<le> received_by (bill_lines a) (pl_id l)"
      using sound(1) by (intro received_by_nonneg) (auto simp: reconciled_def lines_ok_def)
    then have "pl_received (unbump E' (lines_of_bill b i) (bump E ls l)) = pl_received l"
      using unbump_received[of E' "lines_of_bill b i" "bump E ls l"] sound(4) ns sp old now
      by (auto simp: exact_store_def lines_of_bill_def)
    then show ?thesis by (simp add: unbump_def bump_def)
  qed
  have "[m \<leftarrow> movements (pinv b). \<not> has_ref ''bill'' i m] = movements (pinv a)"
  proof -
    have "billed_rows a i = []" using new_i(2) by (auto simp: billed_rows_def lines_of_bill_def filter_empty_conv)
    then have "posted_rows (pinv a) i = []" using sound(1) by (simp add: reconciled_def stock_matches_def)
    then show ?thesis using s(8) by (simp add: s(7) ref_rows_def filter_empty_conv)
  qed
  moreover obtain pairs idb where pu: "purgeMovementsByRef E' ''bill'' i (pinv b) = Inr (pairs, idb)" "pinv c = idb"
    using d1 wb(4) by (auto simp: purge_def res_simps taken_back_def)
  ultimately have "(\<forall>k. on_hand (pinv c) k = on_hand (pinv a) k) \<and> map mv_core (movements (pinv c)) = map mv_core (movements (pinv a))"
    using purge_undoes[OF pu(1)] sound rb by (auto simp: exact_store_def reconciled_def)
  moreover have "po_lines c = po_lines a"
    using po d1(2) s(6) wb by (auto simp: taken_back_def lines_of_bill_def o_def intro!: map_idI)
  moreover have "bills c = bills a" using d1(2) s(3,4) new_i(1) wb by (auto simp: filter_id_conv image_iff)
  moreover have "map bn_core (bill_lines c) = map bn_core (bill_lines a)" using cores d1(2) wb by (simp add: taken_back_def)
  ultimately show ?thesis by blast
qed

section \<open>Closed orders\<close>

definition retired :: "po_row \<Rightarrow> pur_db \<Rightarrow> bool" where
  "retired r a \<longleftrightarrow> r \<in> set (pos a) \<and> po_status r \<in> set [''closed'', ''cancelled'']"

text \<open>Requests that neither edit nor delete the order, nor delete one of its bills.\<close>

fun spares :: "po_row \<Rightarrow> env \<Rightarrow> pur_call \<Rightarrow> pur_db \<Rightarrow> bool" where
  "spares r E (EditPO i p) a = (i \<noteq> po_id r)"
| "spares r E (DropPO i) a = (i \<noteq> po_id r)"
| "spares r E (DropBill i) a = (\<forall>b\<in>set (bills a). bi_id b = i \<longrightarrow> bi_po b \<noteq> Some (po_id r))"
| "spares r E c a = True"

lemma retired_status: "retired r a \<Longrightarrow> \<not> P r \<Longrightarrow> retired r (set_po_status P s a)"
  by (auto simp: retired_def set_po_status_def intro: rev_image_eqI)

lemma retired_settle: "retired r a \<Longrightarrow> retired r (settle x a)"
  by (auto simp: settle_def receivable_def retired_def[of r a] intro!: retired_status)

lemma delivered_retired: "delivered E i ls a c \<Longrightarrow> r \<in> set (pos a) \<Longrightarrow> po_status r \<in> set [''closed'', ''cancelled''] \<Longrightarrow> retired r (settle x c)"
  by (rule retired_settle) (simp add: retired_def delivered_def)

lemma settles_retired:
  assumes "settles E c a b" "spares r E c a" "retired r a"
  shows "retired r b"
  using assms(1)
proof cases
  case (new_po pg u p d w ls s x)
  from new_po(2) show ?thesis
    by (rule create_po_txE) (use assms(3) in \<open>auto simp: retired_def adds_lines_def\<close>)
next
  case (edit_po i q pg p d w ls s x)
  have "\<exists>f. (\<forall>r. po_id r \<noteq> i \<longrightarrow> f r = r) \<and> pos b = map f (pos a)"
    using edit_po(4) unfolding update_po_tx_def ebind_eq_Inr
    by (auto simp: res_simps split: option.splits dest!: insert_po_lines_add simp: adds_lines_def
        intro!: exI[of _ "\<lambda>r. if po_id r = i then _ r else r"])
  then obtain f where f: "\<And>r. po_id r \<noteq> i \<Longrightarrow> f r = r" "pos b = map f (pos a)" by blast
  have "f r = r" using assms(2) edit_po(1) by (intro f(1)) auto
  then have "r \<in> f ` set (pos a)" using assms(3) image_eqI[of r f r] by (simp add: retired_def)
  then show ?thesis using assms(3) f(2) by (simp add: retired_def)
next
  case (close_po i)
  then show ?thesis using assms(3) by (auto intro!: retired_status simp: closable_def retired_def[of r a])
next
  case (cancel_po i)
  then show ?thesis using assms(3) by (auto intro!: retired_status simp: cancellable_def retired_def[of r a])
next
  case (drop_po i)
  then show ?thesis using assms(2,3) by (auto simp: retired_def delete_po_def)
next
  case (new_bill pg u p d w x)
  obtain i no where "x = (i, no)" by (cases x)
  with new_bill(2) have "create_bill_tx E pg u p d w (map (fill_bill_line w) (cb_lines p)) a = Inr ((i, no), b)" by simp
  then show ?thesis
    by (rule create_bill_txE) (use assms(3) in \<open>auto intro!: delivered_retired simp: retired_def[of r a]\<close>)
next
  case (edit_bill i q pg u p d w x)
  from edit_bill(3) show ?thesis
    by (rule update_bill_txE) (use assms(3) in \<open>auto intro!: delivered_retired simp: retired_def[of r a] taken_back_def\<close>)
next
  case (drop_bill i q)
  from drop_bill(3) show ?thesis
  proof (rule delete_bill_txE)
    fix d1
    assume b: "b = (reopened (bi_po q) (taken_back E (bi_id q) d1 a))\<lparr>bills := [r \<leftarrow> bills a. bi_id r \<noteq> bi_id q]\<rparr>"
    have "bi_po q \<noteq> Some (po_id r)" using found_bill[OF drop_bill(2)] assms(2) drop_bill(1) by auto
    moreover have "retired r (taken_back E (bi_id q) d1 a)" using assms(3) by (simp add: retired_def taken_back_def)
    ultimately have "retired r (reopened (bi_po q) (taken_back E (bi_id q) d1 a))"
      by (auto simp: reopened_def intro: retired_status split: option.splits)
    then show ?thesis by (simp add: b retired_def)
  qed
qed

interpretation closed: purchase_invariant "spares r" "retired r" for r
proof
  fix E c a fd s
  show "retired r a \<Longrightarrow> retired r (with_books fd a)" "retired r a \<Longrightarrow> retired r (with_setting s a)"
    by (simp_all add: retired_def with_books_def with_setting_def)
  show "spares r E c a \<Longrightarrow> spares r E c (with_books fd a)" "spares r E c a \<Longrightarrow> spares r E c (with_setting s a)"
    by (cases c; simp add: with_books_def with_setting_def)+
qed (rule settles_retired)

text \<open>
  C14: Only deleting a bill reopens a closed order. Through every history of requests that neither edit
  nor delete a closed or cancelled purchase order and delete none of its bills, its row stays exactly
  as it is; but deleting one of its bills always gives it one of the open states again.
\<close>

theorem only_bill_deletion_reopens:
  assumes "r \<in> set (pos a)" "po_status r \<in> set [''closed'', ''cancelled'']"
  shows "(all_ok (spares r) rs a \<longrightarrow> r \<in> set (pos (purchases rs a)))
    \<and> (DeleteBill E ck auth i a = (None, b) \<and> find_bill a i = Some q \<and> bi_po q = Some (po_id r) \<and> po_id r \<noteq> [] \<longrightarrow>
         (\<exists>r'\<in>set (pos b). po_id r' = po_id r \<and> po_status r' \<in> set [''open'', ''partial'', ''received'']))"
proof (intro conjI impI)
  assume "all_ok (spares r) rs a"
  then show "r \<in> set (pos (purchases rs a))" using closed.purchases_keep[of r a rs] assms by (simp add: retired_def)
next
  assume d: "DeleteBill E ck auth i a = (None, b) \<and> find_bill a i = Some q \<and> bi_po q = Some (po_id r) \<and> po_id r \<noteq> []"
  then obtain fd where "delete_bill_tx E q (with_books fd a) = Inr b" by (auto elim!: DeleteBillE)
  then show "\<exists>r'\<in>set (pos b). po_id r' = po_id r \<and> po_status r' \<in> set [''open'', ''partial'', ''received'']"
  proof (rule delete_bill_txE)
    fix d1
    let ?c = "taken_back E (bi_id q) d1 (with_books fd a)"
    assume b: "b = (reopened (bi_po q) ?c)\<lparr>bills := [s \<leftarrow> bills (with_books fd a). bi_id s \<noteq> bi_id q]\<rparr>"
    have "r \<in> set (pos ?c)" using assms(1) by (simp add: taken_back_def with_books_def)
    then have "r\<lparr>po_status := receipt_status ?c (po_id r)\<rparr> \<in> set (pos b)"
      using d by (auto simp: b reopened_def set_po_status_def intro!: rev_image_eqI)
    then show ?thesis using poStatus_live unfolding live_states_def receipt_status_def
      by (intro bexI[of _ "r\<lparr>po_status := poStatusFromReceipts (dec4 (sum_ordered ?c (po_id r))) (dec4 (sum_received ?c (po_id r)))\<rparr>"]) auto
  qed
qed

section \<open>Purchasing on a working database\<close>

lemma post_bill_line_returns:
  assumes "healthy E" "bl_expiry l = None" "exact_amount (bl_qty l)" "0 < qty4 (round4 (bl_qty l))"
  shows "returns (post_bill_line E b no acc l a)"
proof -
  have "returns (post E (receive_input l x cc b no i acc) d)" for x cc i d
    by (rule post_returns[OF assms(1,3,4)]) (simp_all add: receive_input_def no_input_def)
  then show ?thesis unfolding post_bill_line_def
    using assms(1,2) by (auto simp: parseDatePtr_def insert_bill_line_def link_bill_line_def receive_po_line_def shared_def on_shared_def
        Let_def fresh_pair intro!: returns_intros ensureSku_returns context_returns)
qed

lemma create_bill_returns:
  assumes "healthy E" "next_no (pd a) DocBill < 2 ^ 63" "pg d = Some dt" "bills a = []"
    and "\<forall>l\<in>set ls. bl_expiry l = None \<and> exact_amount (bl_qty l) \<and> 0 < qty4 (round4 (bl_qty l))"
  shows "returns (create_bill_tx E pg u p d w ls a)"
proof -
  have "nextDocNumber E DocBill DocBill (pd a) = Inr (formatDocNumber DocBill (next_no (pd a) DocBill),
      (pd a)\<lparr>doc_seq := (doc_seq (pd a))(DocBill \<mapsto> next_no (pd a) DocBill)\<rparr>)"
    using assms(1,2) by (simp add: nextDocNumber_eq healthy_def)
  moreover have "returns (efold (post_bill_line E b no acc) ls c)" for b no acc c
    using assms(5) by (induction ls arbitrary: c) (auto intro!: returns_intros post_bill_line_returns[OF assms(1)])
  ultimately show ?thesis unfolding create_bill_tx_def postBillLinesTx_def refreshPOStatusTx_def
    using assms(1,3,4,5) by (auto simp: shared_def as_internal_def Let_def fresh_pair
        intro!: returns_intros post_bill_line_returns[OF assms(1)])
qed

lemma delete_bill_succeeds:
  assumes "healthy E" "getUser auth = Inr u" "requireOwner u = Inr ()" "find_bill a i = Some r"
    and "CheckPeriodUnlockedForDate E (ck_period ck) (ck_today ck) (pfin a) (bi_date r) = Inr ()"
  shows "\<exists>b. DeleteBill E ck auth i a = (None, b)"
proof -
  obtain movs where m: "collectMovementsByRef E (pinv a) ''bill'' i = Inr movs"
    using assms(1) by (simp add: collectMovementsByRef_def)
  obtain fd where f: "RemoveInventoryEntries E (movementFinanceRefs i movs) (pfin a) = (None, fd)"
    using RemoveInventoryEntries_total[OF assms(1)] by blast
  have "returns (revert_receipts E ns c)" for ns c
    unfolding revert_receipts_def using assms(1) by (induction ns arbitrary: c) (auto intro!: returns_intros split: option.splits)
  moreover have "returns (reopen_po E r c)" for c
    unfolding reopen_po_def using assms(1) by (auto intro!: returns_intros split: option.splits)
  moreover have "returns (purge E ''bill'' (bi_id r) d)" for d
    unfolding purge_def using purge_total[OF assms(1)] by (auto intro!: returns_intros)
  ultimately have "returns (delete_bill_tx E r c)" for c
    unfolding delete_bill_tx_def on_shared_def using assms(1) by (auto intro!: returns_intros)
  then obtain b where "delete_bill_tx E r (a\<lparr>pd := set_fin fd (pd a)\<rparr>) = Inr b" by (auto simp: returns_def)
  then show ?thesis using assms m f
    by (simp add: DeleteBill_def prepareTenant_def getBill_def remove_refs_def remove_entries_def)
qed

section \<open>A purchase order of three pieces\<close>

definition sample_po :: "string \<Rightarrow> po_row" where
  "sample_po s = \<lparr>po_id = ''po'', po_no = ''WPO-000001'', po_supplier = None, po_contact = None, po_wh = Some ''w'', po_status = s,
     po_date = ''2026-01-02'', po_note = None, po_subtotal = 15000, po_by = None, po_created = 1, po_deleted = False\<rparr>"

definition sample_po_line :: "int \<Rightarrow> po_line_row" where
  "sample_po_line n = \<lparr>pl_id = ''l'', pl_po = ''po'', pl_item = ''p'', pl_wh = ''w'', pl_desc = None, pl_ordered = 30000,
     pl_received = n, pl_cost = 5000, pl_created = 1\<rparr>"

definition sample_pur :: pur_db where
  "sample_pur = \<lparr>pd = sample_docs, pos = [sample_po ''open''], po_lines = [sample_po_line 0], bills = [], bill_lines = []\<rparr>"

definition sample_line :: BillLineInput where
  "sample_line = \<lparr>bl_item = ''p'', bl_wh = [], bl_po_line = ''l'', bl_desc = [], bl_qty = dec4 20000, bl_cost = dec4 5000,
     bl_batchno = [], bl_expiry = None\<rparr>"

definition sample_bill :: CreateBillParams where
  "sample_bill = \<lparr>cb_po = ''po'', cb_supplier = [], cb_contact = [], cb_wh = ''w'', cb_date = [], cb_note = [], cb_lines = [sample_line]\<rparr>"

abbreviation sample_request :: "pur_call \<Rightarrow> pur_request" where
  "sample_request c \<equiv> (sample_env, Some, sample_clock, sample_owner, c)"

lemma sample_plus: "plus_ok sample_env"
  using qty4_dec4 by (simp add: plus_ok_def sample_env_def qty4_def)

lemma sample_uuid: "trim_space (db_uuid sample_env n) = db_uuid sample_env n" "db_uuid sample_env n \<noteq> []"
  using trim_space_u[of "Suc n"] by (simp_all add: sample_env_def)

lemma sample_store: "exact_store 30000 sample_env sample_pur"
  using sample_docs_facts(4) sample_plus numeric_ok_sample by (simp add: exact_store_def sample_uuid sample_pur_def)

lemma sample_lines: "lines_exact [sample_line]" "exact_amount (dec4 20000)" "qty4 (round4 (dec4 20000)) = 20000"
  using exact_amount_dec4[of 20000]
  by (simp_all add: lines_exact_def entries_exact_def as_entry_def sample_line_def small4_def)

lemma sample_reconciled: "reconciled sample_pur"
  using sample_docs_facts(3)
  by (auto simp: reconciled_def reconciled_parts sample_pur_def sample_po_line_def received_by_def ref_rows_def billed_rows_def
      lines_of_bill_def sample_docs_def sample_tenant_def sample_db_def sample_movement_def has_ref_def filter_empty_conv)

lemma sample_status: "status_ok sample_pur"
  by (simp add: status_ok_def linked_def status_follows_def receipt_status_def sum_received_def sum_ordered_def lines_of_po_def
      sample_pur_def sample_po_def sample_po_line_def poStatus_none)

theorem purchases_reconcile_witness:
  "let b = purchases [sample_request (NewBill sample_bill), sample_request (ClosePO ''po'')] sample_pur in
     list_all (\<lambda>r. pl_received r = (\<Sum>n\<leftarrow>bill_lines b. if bn_po_line n = Some (pl_id r) then bn_qty n else 0)) (po_lines b)"
  using purchases_reconcile[OF sample_reconciled, of 30000 "[sample_request (NewBill sample_bill), sample_request (ClosePO ''po'')]"]
    sample_store sample_lines(1) by (simp add: Let_def sample_bill_def list_all_iff)

theorem po_status_follows_receipts_witness:
  "let b = purchases [sample_request (NewBill sample_bill), sample_request (CancelPO ''po'')] sample_pur in
     [r \<leftarrow> pos b. po_status r \<in> set [''open'', ''partial'', ''received'']]
     = [r \<leftarrow> pos b. po_status r \<in> set [''open'', ''partial'', ''received''] \<and> po_status r = poStatusFromReceipts
         (dec4 (\<Sum>l\<leftarrow>lines_of_po b (po_id r). pl_ordered l)) (dec4 (\<Sum>l\<leftarrow>lines_of_po b (po_id r). pl_received l))]"
proof -
  have "trim_space ''po'' = ''po''" by code_simp
  then have "all_ok aimed [sample_request (NewBill sample_bill), sample_request (CancelPO ''po'')] sample_pur"
    by (simp add: aims_def sample_pur_def sample_po_line_def sample_bill_def nullUUID_def)
  from po_status_follows_receipts[OF sample_status this] show ?thesis
    unfolding Let_def by (intro filter_cong refl) blast
qed

text \<open>The rows a run posts have identifiers handed out by the database.\<close>

lemma run_ids:
  "run (PostMovement E) same_stock a js b \<Longrightarrow> \<exists>es. movements b = movements a @ es \<and> (\<forall>e\<in>set es. \<exists>n. mv_id e = db_uuid E n)"
proof (induction rule: run.induct)
  case (run_post a js b i r c)
  from run_post.hyps(2) obtain e where "movements c = movements b @ [e]" "\<exists>n. mv_id e = db_uuid E n"
    by (cases rule: PostMovementE) (auto simp: movement_of_def)
  with run_post.IH show ?case by auto
qed (auto simp: same_stock_def)

lemma sample_bill_runs:
  "\<exists>v b. CreateBill sample_env Some sample_clock sample_owner sample_bill sample_pur = (Inr v, b)
     \<and> bi_date (bv_row v) = ''2026-01-02'' \<and> pfin b = sample_books \<and> roomy 30000 (pd b)"
proof -
  have w: "trim_space ''w'' = ''w''" "trim_space [] = []" by code_simp+
  let ?ls = "[fill_bill_line ''w'' sample_line]"
  have lf: "bl_expiry (fill_bill_line ''w'' sample_line) = None" "bl_qty (fill_bill_line ''w'' sample_line) = dec4 20000"
      "bl_item (fill_bill_line ''w'' sample_line) = ''p''" "bl_wh (fill_bill_line ''w'' sample_line) = ''w''"
      "bl_cost (fill_bill_line ''w'' sample_line) = dec4 5000"
    by (simp_all add: fill_bill_line_def sample_line_def)
  have no: "next_no (pd sample_pur) DocBill < 2 ^ 63" by (simp add: sample_pur_def sample_docs_facts(2))
  have "returns (create_bill_tx sample_env Some (the sample_owner) sample_bill ''2026-01-02'' ''w'' ?ls sample_pur)"
    by (rule create_bill_returns[OF sample_env_ok no]) (use sample_lines(2,3) in \<open>simp_all add: sample_pur_def lf\<close>)
  then obtain i no' b where t: "create_bill_tx sample_env Some (the sample_owner) sample_bill ''2026-01-02'' ''w'' ?ls sample_pur = Inr ((i, no'), b)"
    by (auto simp: returns_def)
  from t obtain a1 row c where s: "quiet (pd sample_pur) (pd a1)" "bills a1 = bills sample_pur @ [row]" "bi_id row = i" "\<not> bi_deleted row"
      "Some ''2026-01-02'' = Some (bi_date row)" "delivered sample_env i ?ls a1 c" "b = settle (cb_po sample_bill) c"
    by (rule create_bill_txE)
  from s(6) obtain js where js: "drun sample_env js (pd a1) (pd c)" "list_all2 (receipt i) ?ls js" by (auto simp: delivered_def)
  from js(2) obtain j where j: "js = [j]" "receipt i (fill_bill_line ''w'' sample_line) j" by (auto simp: list_all2_Cons1)
  from qm.run_log[of sample_env] js(1) obtain es where es: "movements (pinv c) = movements (pinv a1) @ es" "list_all2 (row_for sample_env) js es"
    unfolding drun_def by blast
  then obtain e where e: "es = [e]" "row_for sample_env j e" using j(1) by (auto simp: list_all2_Cons1)
  have num: "db_numeric sample_env (dec4 20000) = 20000" using numeric_ok_sample by (simp add: numeric_ok_def small4_def)
  have e': "mv_qty e = 20000" "mv_item e = ''p''" "mv_wh e = ''w''"
    using e(2) j(2) num by (simp_all add: row_for_def receipt_def lf small4_def)
  have f: "find_bill b i = Some row" "pfin b = sample_books"
    using s js(1) by (simp_all add: find_bill_def delivered_def sample_pur_def drun_def quiet_def sample_docs_def sample_tenant_def)
  have "movements (pinv b) = movements sample_db @ [e]"
    using s es(1) e(1) by (simp add: quiet_def same_stock_def sample_pur_def sample_docs_def sample_tenant_def)
  moreover have "\<exists>n. mv_id e = db_uuid sample_env n" using run_ids[of sample_env] js(1) es(1) e(1) by (fastforce simp: drun_def)
  then have "mv_id e \<noteq> ''m1''" "mv_id e \<noteq> ''m2''" by (auto simp: sample_env_def)
  ultimately have room: "roomy 30000 (pd b)" using e' by (auto simp: ledger_room_def ledger_small_def keyed_def sample_db_def sample_movement_def)
  have "validateCatalogItem sample_env (tn sample_docs) ''p'' = Inr ()" "validateWarehouse sample_env (tn sample_docs) ''w'' = Inr ()"
    by code_simp+
  moreover have "\<not> dec4 20000 \<le> epsilon" "\<not> dec4 5000 < 0" using dec4_less_iff[of 5000 0] by (simp_all add: dec4_pos small4_def)
  ultimately have "check_bill_lines sample_env (tn sample_docs) ?ls = Inr ()"
    by (simp add: check_bill_lines_def bill_line_step_def check_line_def lf guard_def wrap_line_def)
  moreover have "document_date ''2026-01-02'' [] = Inr ''2026-01-02''" by (simp add: document_date_def)
  moreover have "loadSetting sample_env sample_pur = Inr (\<lparr>st_setup = True, st_method = CostingFIFO, st_block = False, st_expense = False\<rparr>, sample_pur)"
    using sample_docs_facts(6) sample_env_ok by (simp add: loadSetting_def ensureInventoryModuleSchema_def sample_pur_def)
  moreover have "getBill sample_env b i = Inr \<lparr>bv_row = row, bv_lines = sort_key bn_created (lines_of_bill b i)\<rparr>"
    using sample_env_ok f(1) by (simp add: getBill_def)
  ultimately have "CreateBill sample_env Some sample_clock sample_owner sample_bill sample_pur
      = (Inr \<lparr>bv_row = row, bv_lines = sort_key bn_created (lines_of_bill b i)\<rparr>, b)"
    using t sample_owner_ok sample_env_ok w
    by (simp add: CreateBill_def in_tx_def prepareTenant_def as_internal_def book_bill_def sample_clock_def)
      (simp add: sample_bill_def sample_pur_def)
  then show ?thesis using s(5) f(2) room by auto
qed

theorem bill_delete_roundtrip_witness:
  "\<exists>v b c. CreateBill sample_env Some sample_clock sample_owner sample_bill sample_pur = (Inr v, b)
     \<and> DeleteBill sample_env sample_clock sample_owner (bi_id (bv_row v)) b = (None, c)
     \<and> po_lines c = [sample_po_line 0] \<and> on_hand (pinv c) (''p'', ''w'') = 50000"
proof -
  from sample_bill_runs obtain v b where r: "CreateBill sample_env Some sample_clock sample_owner sample_bill sample_pur = (Inr v, b)"
      "bi_date (bv_row v) = ''2026-01-02''" "pfin b = sample_books" "roomy 30000 (pd b)" by blast
  from r(1) obtain i where "find_bill b i = Some (bv_row v)" by (rule CreateBillE)
  then have "find_bill b (bi_id (bv_row v)) = Some (bv_row v)" using found_bill by metis
  from delete_bill_succeeds[OF sample_env_ok sample_owner_ok this, of sample_clock]
  obtain c where d: "DeleteBill sample_env sample_clock sample_owner (bi_id (bv_row v)) b = (None, c)"
    using r(2,3) sample_period(1) by auto
  have st: "exact_store 30000 sample_env b" using r(4) sample_store by (simp add: exact_store_def)
  have ls: "lines_exact (cb_lines sample_bill)" using sample_lines(1) by (simp add: sample_bill_def)
  have "on_hand (pinv sample_pur) (''p'', ''w'') = 50000"
    by (simp add: sample_pur_def sample_docs_facts(5)) (simp add: on_hand_def sample_db_def)
  moreover have "\<forall>n\<ge>next_uuid (pinv sample_pur). db_uuid sample_env n \<notin> bi_id ` set (bills sample_pur) \<union> bn_bill ` set (bill_lines sample_pur)"
    by (simp add: sample_pur_def)
  moreover have "po_lines sample_pur = [sample_po_line 0]" by (simp add: sample_pur_def)
  ultimately show ?thesis
    using r(1) d bill_delete_roundtrip[OF r(1) d sample_reconciled sample_store ls st] by auto
qed

definition sample_closed :: pur_db where
  "sample_closed = sample_pur\<lparr>pos := [sample_po ''closed''],
     bills := [\<lparr>bi_id = ''b'', bi_no = ''WBIL-000001'', bi_po = Some ''po'', bi_supplier = None, bi_contact = None, bi_wh = None,
       bi_status = ''posted'', bi_date = ''2026-01-02'', bi_note = None, bi_subtotal = 10000, bi_by = None, bi_created = 1,
       bi_deleted = False\<rparr>]\<rparr>"

theorem only_bill_deletion_reopens_witness:
  "sample_po ''closed'' \<in> set (pos (purchases [sample_request (NewBill sample_bill)] sample_closed))
   \<and> (\<exists>b r'. DeleteBill sample_env sample_clock sample_owner ''b'' sample_closed = (None, b) \<and> r' \<in> set (pos b)
       \<and> po_id r' = ''po'' \<and> po_status r' \<in> set [''open'', ''partial'', ''received''])"
proof -
  let ?r = "sample_po ''closed''"
  have m: "?r \<in> set (pos sample_closed)" "po_status ?r \<in> set [''closed'', ''cancelled'']" "po_id ?r = ''po''"
    by (simp_all add: sample_closed_def sample_po_def)
  obtain q where q: "find_bill sample_closed ''b'' = Some q" "bi_po q = Some ''po''" "bi_date q = ''2026-01-02''"
    by (simp add: find_bill_def sample_closed_def)
  have "pfin sample_closed = sample_books" by (simp add: sample_closed_def sample_pur_def sample_docs_def sample_tenant_def)
  with delete_bill_succeeds[OF sample_env_ok sample_owner_ok q(1), of sample_clock] obtain b where
    b: "DeleteBill sample_env sample_clock sample_owner ''b'' sample_closed = (None, b)"
    using q(3) sample_period(1) by auto
  have "all_ok (spares ?r) [sample_request (NewBill sample_bill)] sample_closed" by simp
  with only_bill_deletion_reopens[OF m(1,2), of "[sample_request (NewBill sample_bill)]" sample_env sample_clock sample_owner "''b''" b q]
  show ?thesis using b q(1,2) m(3) by auto
qed

end
