(* ===== verification/Sales_Props.thy ===== *)
theory Sales_Props
  imports Sales_Laws Purchasing_Props
begin

text \<open>
  The properties of invoices and sales returns. A request is one call of a handler in an environment
  and on a clock of its own, by any caller; a history is a list of requests.
\<close>

declare split_paired_All [simp del] split_paired_Ex [simp del]

section \<open>Histories of requests\<close>

datatype sale_call =
    MakeInvoice string
  | DropInvoice string
  | MakeReturn CreateSalesReturnParams
  | EditReturn string string "SalesReturnLineInput list"
  | DropReturn string

fun sell :: "env \<Rightarrow> string \<Rightarrow> clock \<Rightarrow> AuthUser option \<Rightarrow> sale_call \<Rightarrow> sal_db \<Rightarrow> sal_db" where
  "sell E today ck auth (MakeInvoice i) a = snd (CreateInvoiceFromOrder E today auth i a)"
| "sell E today ck auth (DropInvoice i) a = snd (DeleteInvoice E ck auth i a)"
| "sell E today ck auth (MakeReturn p) a = snd (CreateSalesReturn E today ck auth p a)"
| "sell E today ck auth (EditReturn i note ls) a = snd (UpdateSalesReturn E ck auth i note ls a)"
| "sell E today ck auth (DropReturn i) a = snd (DeleteSalesReturn E ck auth i a)"

type_synonym sale_request = "env \<times> string \<times> clock \<times> AuthUser option \<times> sale_call"

fun sells :: "sale_request list \<Rightarrow> sal_db \<Rightarrow> sal_db" where
  "sells [] a = a"
| "sells ((E, today, ck, auth, c) # rs) a = sells rs (sell E today ck auth c a)"

fun sales_ok :: "(env \<Rightarrow> sale_call \<Rightarrow> sal_db \<Rightarrow> bool) \<Rightarrow> sale_request list \<Rightarrow> sal_db \<Rightarrow> bool" where
  "sales_ok ok [] a = True"
| "sales_ok ok ((E, today, ck, auth, c) # rs) a = (ok E c a \<and> sales_ok ok rs (sell E today ck auth c a))"

text \<open>What a request commits; the handlers add checks and writes to the books.\<close>

inductive sale_step :: "env \<Rightarrow> sale_call \<Rightarrow> sal_db \<Rightarrow> sal_db \<Rightarrow> bool" for E where
  make_invoice: "create_invoice_tx E today acc o' io cost a = Inr (x, b) \<Longrightarrow> sale_step E (MakeInvoice o') a b"
| drop_invoice: "sale_step E (DropInvoice i) a (delete_invoice i a)"
| make_return: "orderItemSaleCost E a (cr_order p) = Inr cost \<Longrightarrow> orderReturnedQty E a (cr_order p) = Inr m \<Longrightarrow>
    check_return_lines cost m (cr_lines p) = Inr () \<Longrightarrow> trim_space (cr_order p) \<noteq> [] \<Longrightarrow>
    create_return_tx E today acc p contact cost a = Inr (x, b) \<Longrightarrow> sale_step E (MakeReturn p) a b"
| edit_return: "getSalesReturn E a i = Inr ex \<Longrightarrow> sr_order (sv_row ex) = Some o' \<Longrightarrow> orderItemSaleCost E a o' = Inr cost \<Longrightarrow>
    orderReturnedQty E a o' = Inr m \<Longrightarrow> check_return_lines cost (fold exclude_line (sv_lines ex) m) ls = Inr () \<Longrightarrow>
    update_return_tx E acc (sv_row ex) o' contact note ls cost a = Inr (x, b) \<Longrightarrow> sale_step E (EditReturn i note ls) a b"
| drop_return: "delete_return_tx E i a = Inr b \<Longrightarrow> sale_step E (DropReturn i) a b"

definition sbooks :: "fin_db \<Rightarrow> sal_db \<Rightarrow> sal_db" where
  "sbooks fd a = a\<lparr>sd := set_fin fd (sd a)\<rparr>"

lemma sbooks_tables [simp]:
  "sinv (sbooks fd a) = sinv a" "sales_returns (sbooks fd a) = sales_returns a" "return_lines (sbooks fd a) = return_lines a"
  "invoices (sbooks fd a) = invoices a" "sbooks (sfin a) a = a"
  by (simp_all add: sbooks_def set_fin_self)

lemma sbooks_returned [simp]: "returned_lines (sbooks fd a) o' = returned_lines a o'" "returned_qty (sbooks fd a) o' x = returned_qty a o' x"
  by (simp_all add: returned_lines_def returned_qty_def cong: if_cong)

lemma sbooks_simps [simp]:
  "lines_of_return (sbooks fd a) i = lines_of_return a i" "getSalesReturn E (sbooks fd a) i = getSalesReturn E a i"
  "orderItemSaleCost E (sbooks fd a) o' = orderItemSaleCost E a o'" "orderReturnedQty E (sbooks fd a) o' = orderReturnedQty E a o'"
  by (simp_all add: getSalesReturn_def lines_of_return_def orderItemSaleCost_def orderReturnedQty_def)

lemma book_return_eq:
  assumes "book_return E ck acc i no t a = Inr b"
  shows "\<exists>fd. b = sbooks fd a"
proof -
  let ?entry = "book E ck acc (''ret:'' @ i) ''income'' finCatHPP (''Retur penjualan '' @ no) (round2 t) (sd a)"
  have "b = a \<or> (\<exists>d. ?entry = Inr d \<and> b = a\<lparr>sd := d\<rparr>)"
    using assms by (auto simp: book_return_def res_simps split: sum.splits if_splits)
  then consider "b = a" | d where "?entry = Inr d" "b = a\<lparr>sd := d\<rparr>" by blast
  then show ?thesis
  proof cases
    case 1
    then have "b = sbooks (sfin a) a" by simp
    then show ?thesis by blast
  next
    case 2
    then show ?thesis using book_eq[OF 2(1)] by (auto simp: sbooks_def)
  qed
qed

lemma drop_refs_eq: "drop_refs E refs a = (e, b) \<Longrightarrow> \<exists>fd. b = sbooks fd a"
  by (auto simp: drop_refs_def sbooks_def dest!: remove_entries_eq split: prod.splits)

locale sales_invariant =
  fixes ok :: "env \<Rightarrow> sale_call \<Rightarrow> sal_db \<Rightarrow> bool" and I :: "sal_db \<Rightarrow> bool"
  assumes step: "sale_step E c a b \<Longrightarrow> ok E c a \<Longrightarrow> I a \<Longrightarrow> I b"
    and books: "I a \<Longrightarrow> I (sbooks fd a)" and books_ok: "ok E c a \<Longrightarrow> ok E c (sbooks fd a)"
begin

lemmas keeps = keeps_try[of I] keeps_tx[of I] keeps_out[of I]

lemma booked: "book_return E ck acc i no t a = Inr b \<Longrightarrow> I a \<Longrightarrow> I b"
  using books by (auto dest: book_return_eq)

lemma invoice_keeps: "I a \<Longrightarrow> ok E (MakeInvoice i) a \<Longrightarrow> I (snd (CreateInvoiceFromOrder E today auth i a))"
  unfolding CreateInvoiceFromOrder_def createInvoiceFromOrderConn_def
  by (intro keeps) (auto split: option.splits intro!: keeps intro: step[OF make_invoice])

lemma drop_invoice_keeps: "I a \<Longrightarrow> ok E (DropInvoice i) a \<Longrightarrow> I (snd (DeleteInvoice E ck auth i a))"
  unfolding DeleteInvoice_def by (intro keeps) (auto simp: res_simps intro: step[OF drop_invoice])

lemma return_conn_keeps: "I a \<Longrightarrow> ok E (MakeReturn p) a \<Longrightarrow> I (snd (createSalesReturnConn E today ck acc p a))"
  unfolding createSalesReturnConn_def
  by (intro keeps) (auto simp: res_simps split: prod.splits intro!: keeps intro: booked step[OF make_return])

lemma return_keeps: "I a \<Longrightarrow> ok E (MakeReturn p) a \<Longrightarrow> I (snd (CreateSalesReturn E today ck auth p a))"
  unfolding CreateSalesReturn_def by (intro keeps) (auto intro: return_conn_keeps)

lemma edit_keeps:
  assumes "I a" "ok E (EditReturn i note ls) a"
  shows "I (snd (UpdateSalesReturn E ck auth i note ls a))"
  unfolding UpdateSalesReturn_def Let_def
proof (intro keeps(1), goal_cases)
  case (13 u u' u'' v ex w x io cost m y movs)
  let ?o = "opt_text (sr_order (sv_row ex))"
  have o': "sr_order (sv_row ex) = Some ?o" using 13(6) by (auto simp: opt_text_def res_simps split: option.splits)
  obtain e c where c: "drop_refs E (movementFinanceRefs (''ret:'' @ i) movs) a = (e, c)"
    by (cases "drop_refs E (movementFinanceRefs (''ret:'' @ i) movs) a")
  from drop_refs_eq[OF this] obtain fd where fd: "c = sbooks fd a" by blast
  have "I c" "ok E (EditReturn i note ls) c" using assms books books_ok by (simp_all add: fd)
  moreover have "sale_step E (EditReturn i note ls) c d"
    if "update_return_tx E (AccountID u) (sv_row ex) ?o (io_contact io) note ls cost c = Inr (t, d)" for t d
    by (rule edit_return[OF _ o' _ _ _ that]) (use 13 in \<open>simp_all add: fd\<close>)
  ultimately have "I d" if "update_return_tx E (AccountID u) (sv_row ex) ?o (io_contact io) note ls cost c = Inr (t, d)" for t d
    using that step by blast
  then show ?case using c \<open>I c\<close> by (cases e) (auto intro!: keeps intro: booked)
qed (use assms in auto)

lemma drop_return_keeps:
  assumes "I a" "ok E (DropReturn i) a"
  shows "I (snd (DeleteSalesReturn E ck auth i a))"
  unfolding DeleteSalesReturn_def deleteSalesReturnConn_def
proof (intro keeps, goal_cases)
  case (7 u v w ret x movs)
  obtain e c where c: "drop_refs E (movementFinanceRefs (''ret:'' @ i) movs) a = (e, c)"
    by (cases "drop_refs E (movementFinanceRefs (''ret:'' @ i) movs) a")
  from drop_refs_eq[OF this] assms have "I c" "ok E (DropReturn i) c" using books books_ok by auto
  then show ?case using c by (cases e) (auto intro!: keeps intro: step[OF drop_return])
qed (use assms in auto)

lemma sell_keeps: "I a \<Longrightarrow> ok E c a \<Longrightarrow> I (sell E today ck auth c a)"
  by (cases c) (auto intro: invoice_keeps drop_invoice_keeps return_keeps edit_keeps drop_return_keeps)

lemma sells_keep: "I a \<Longrightarrow> sales_ok ok rs a \<Longrightarrow> I (sells rs a)"
  by (induction rs a rule: sells.induct) (auto intro: sell_keeps)

end

section \<open>Returns stay within what was sold\<close>

definition new_ids :: "env \<Rightarrow> sal_db \<Rightarrow> bool" where
  "new_ids E a \<longleftrightarrow> (\<forall>n\<ge>next_uuid (sinv a). db_uuid E n \<notin> sr_id ` set (sales_returns a) \<union> rb_return ` set (return_lines a))"

definition exact_lines :: "env \<Rightarrow> sal_db \<Rightarrow> SalesReturnLineInput list \<Rightarrow> bool" where
  "exact_lines E a ls \<longleftrightarrow> numeric_ok E \<and> sales_room a \<and> return_exact ls \<and> distinct (map rn_item ls)"

fun exact_return :: "int \<Rightarrow> env \<Rightarrow> sale_call \<Rightarrow> sal_db \<Rightarrow> bool" where
  "exact_return Q E (MakeReturn p) a = (exact_lines E a (cr_lines p) \<and> new_ids E a)"
| "exact_return Q E (EditReturn i note ls) a = (exact_lines E a ls \<and> roomy Q (sd a))"
| "exact_return Q E (DropReturn i) a = (numeric_ok E \<and> roomy Q (sd a))"
| "exact_return Q E c a = True"

lemma invoice_frame:
  assumes "quiet (sd a) (sd b)" "sales_returns b = sales_returns a" "return_lines b = return_lines a"
  shows "within_sold b = within_sold a" "ledger_matches b = ledger_matches a"
proof -
  have m: "movements (sinv b) = movements (sinv a)" "agree (sd b) = agree (sd a)"
    using assms(1) same_stock_facts[of "sinv a" "sinv b"] by (auto simp: quiet_def)
  show "within_sold b = within_sold a"
    by (simp add: within_sold_def returns_ok_def assms(2,3) returned_core sold_qty_def sold_rows_def order_rows_of_def m(1))
  show "ledger_matches b = ledger_matches a"
    by (simp add: ledger_matches_def assms(2,3) ref_rows_def m lines_of_return_def)
qed

lemma delete_invoice_frame: "within_sold (delete_invoice i a) = within_sold a" "ledger_matches (delete_invoice i a) = ledger_matches a"
  by (rule invoice_frame; simp add: delete_invoice_def)+

lemma sale_step_within:
  assumes "sale_step E c a b" "exact_return Q E c a" "within_sold a"
  shows "within_sold b"
  using assms(1)
proof cases
  case (make_invoice today acc o' io cost x)
  from make_invoice(2) show ?thesis by (rule create_invoice_txE) (use assms(3) invoice_frame in auto)
next
  case (make_return p cost m today acc contact x)
  obtain i no t where x: "x = (i, no, t)" by (cases x)
  show ?thesis by (rule create_return_within[OF make_return(2-5) make_return(6)[unfolded x] assms(3)])
    (use assms(2) make_return(1) in \<open>auto simp: exact_lines_def new_ids_def\<close>)
next
  case (edit_return i ex o' cost m ls acc contact nt x)
  show ?thesis by (rule update_return_within[OF edit_return(2-7) assms(3), of Q])
    (use assms(2) edit_return(1) in \<open>auto simp: exact_lines_def\<close>)
next
  case (drop_return i)
  then show ?thesis using delete_return_within[OF _ assms(3), of E i b Q] assms(2) by simp
qed (use assms(3) in \<open>simp add: delete_invoice_frame\<close>)

interpretation bounded: sales_invariant "exact_return Q" within_sold for Q
proof
  fix E c a fd
  show "within_sold a \<Longrightarrow> within_sold (sbooks fd a)" by (simp add: within_sold_def returns_ok_def)
  show "exact_return Q E c a \<Longrightarrow> exact_return Q E c (sbooks fd a)"
    by (cases c) (auto simp: exact_lines_def sales_room_def new_ids_def)
qed (rule sale_step_within)

section \<open>The ledger and the lines of returns\<close>

fun stored_return :: "int \<Rightarrow> env \<Rightarrow> sale_call \<Rightarrow> sal_db \<Rightarrow> bool" where
  "stored_return Q E (MakeReturn p) a = (numeric_ok E \<and> roomy Q (sd a) \<and> return_exact (cr_lines p) \<and> (\<forall>n. trim_space (db_uuid E n) \<noteq> []))"
| "stored_return Q E (EditReturn i note ls) a = (numeric_ok E \<and> roomy Q (sd a) \<and> return_exact ls)"
| "stored_return Q E (DropReturn i) a = (numeric_ok E \<and> roomy Q (sd a))"
| "stored_return Q E c a = True"

lemma sale_step_matches:
  assumes "sale_step E c a b" "stored_return Q E c a" "ledger_matches a"
  shows "ledger_matches b"
  using assms(1)
proof cases
  case (make_invoice today acc o' io cost x)
  from make_invoice(2) show ?thesis by (rule create_invoice_txE) (use assms(3) invoice_frame in auto)
next
  case (make_return p cost m today acc contact x)
  obtain i no t where x: "x = (i, no, t)" by (cases x)
  show ?thesis by (rule create_return_matches[OF make_return(6)[unfolded x] assms(3), of Q])
    (use assms(2) make_return(1) in auto)
next
  case (edit_return i ex o' cost m ls acc contact nt x)
  show ?thesis by (rule update_return_matches[OF edit_return(7) loaded_return(1)[OF edit_return(2)] assms(3), of Q])
    (use assms(2) edit_return(1) in auto)
next
  case (drop_return i)
  then show ?thesis using delete_return_matches[OF _ assms(3), of E i b Q] assms(2) by simp
qed (use assms(3) in \<open>simp add: delete_invoice_frame\<close>)

interpretation matched: sales_invariant "stored_return Q" ledger_matches for Q
proof
  fix E c a fd
  show "ledger_matches a \<Longrightarrow> ledger_matches (sbooks fd a)" by (simp add: ledger_matches_def)
  show "stored_return Q E c a \<Longrightarrow> stored_return Q E c (sbooks fd a)" by (cases c) auto
qed (rule sale_step_matches)

section \<open>One invoice per order\<close>

definition live_invoices :: "sal_db \<Rightarrow> invoice_row list" where
  "live_invoices a = [r \<leftarrow> invoices a. \<not> in_deleted r]"

definition one_invoice :: "sal_db \<Rightarrow> bool" where
  "one_invoice a \<longleftrightarrow> distinct (map in_order (live_invoices a)) \<and> distinct (map in_no (live_invoices a))"

lemma live_core:
  "map in_order (live_invoices a) = map (\<lambda>(i, n, od, del). od) (filter (\<lambda>(i, n, od, del). \<not> del) (map in_core (invoices a)))"
  "map in_no (live_invoices a) = map (\<lambda>(i, n, od, del). n) (filter (\<lambda>(i, n, od, del). \<not> del) (map in_core (invoices a)))"
  by (simp_all add: live_invoices_def filter_map o_def in_core_def)

lemma create_invoice_one:
  assumes "create_invoice_tx E today acc o' io cost a = Inr (i, b)" "one_invoice a"
  shows "one_invoice b"
  using assms(1)
proof (rule create_invoice_txE)
  fix no
  assume new: "map in_core (invoices b) = map in_core (invoices a) @ [(i, no, Some o', False)]"
    and old: "\<forall>r\<in>set (invoices a). in_order r = Some o' \<or> in_no r = no \<longrightarrow> in_deleted r"
  have "map in_order (live_invoices b) = map in_order (live_invoices a) @ [Some o']" "map in_no (live_invoices b) = map in_no (live_invoices a) @ [no]"
    unfolding live_core new by simp_all
  moreover have "Some o' \<notin> set (map in_order (live_invoices a))" "no \<notin> set (map in_no (live_invoices a))"
    using old by (auto simp: live_invoices_def)
  ultimately show "one_invoice b" using assms(2) by (simp add: one_invoice_def)
qed

lemma return_invoices:
  "create_return_tx E today acc p contact cost a = Inr ((i, no, t), b) \<Longrightarrow> invoices b = invoices a"
  "update_return_tx E acc ex o' contact note ls cost a = Inr (u, c) \<Longrightarrow> invoices c = invoices a"
  "delete_return_tx E i a = Inr d \<Longrightarrow> invoices d = invoices a"
  by (auto elim!: create_return_txE update_return_txE delete_return_txE simp: taken_in_def beside_def delete_return_def)

lemma sale_step_one:
  assumes "sale_step E c a b" "one_invoice a"
  shows "one_invoice b"
  using assms(1)
proof cases
  case (make_invoice today acc o' io cost x)
  then show ?thesis using create_invoice_one assms(2) by blast
next
  case (drop_invoice i)
  have "live_invoices b = [r \<leftarrow> live_invoices a. in_id r \<noteq> i]"
    by (simp add: drop_invoice(2) live_invoices_def delete_invoice_def conj_commute)
  then show ?thesis using assms(2) by (simp add: one_invoice_def distinct_map_filter)
next
  case (make_return p cost m today acc contact x)
  obtain i no t where x: "x = (i, no, t)" by (cases x)
  from return_invoices(1)[OF make_return(6)[unfolded x]] show ?thesis using assms(2) by (simp add: one_invoice_def live_invoices_def)
next
  case (edit_return i ex o' cost m ls acc contact nt x)
  from return_invoices(2)[OF edit_return(7)] show ?thesis using assms(2) by (simp add: one_invoice_def live_invoices_def)
next
  case (drop_return i)
  from return_invoices(3)[OF drop_return(2)] show ?thesis using assms(2) by (simp add: one_invoice_def live_invoices_def)
qed

interpretation invoiced: sales_invariant "\<lambda>E c a. True" one_invoice
proof
  fix a fd show "one_invoice a \<Longrightarrow> one_invoice (sbooks fd a)" by (simp add: one_invoice_def live_invoices_def)
qed (auto intro: sale_step_one)

lemma invoices_unique: "one_invoice a \<Longrightarrow> one_invoice (sells rs a)"
proof (rule invoiced.sells_keep)
  show "sales_ok (\<lambda>E c a. True) rs a" by (induction rs a rule: sells.induct) auto
qed

section \<open>An invoice is issued once\<close>

text \<open>The order has the live invoice \<open>r\<close>, with the lines \<open>ls\<close>.\<close>

definition has_invoice :: "string \<Rightarrow> invoice_row \<Rightarrow> invoice_line_row list \<Rightarrow> sal_db \<Rightarrow> bool" where
  "has_invoice o' r ls a \<longleftrightarrow> map_option in_id (invoice_of a o') = Some (in_id r) \<and> find (\<lambda>s. in_id s = in_id r \<and> \<not> in_deleted s) (invoices a) = Some r
     \<and> [l \<leftarrow> invoice_lines a. il_invoice l = in_id r] = ls"

text \<open>Requests that do not delete the invoice with identifier \<open>i\<close>, and identifiers that are new.\<close>

fun spares_invoice :: "string \<Rightarrow> env \<Rightarrow> sale_call \<Rightarrow> sal_db \<Rightarrow> bool" where
  "spares_invoice i E (MakeInvoice o') a = (db_uuid E (next_uuid (sinv a)) \<noteq> i)"
| "spares_invoice i E (DropInvoice j) a = (j \<noteq> i)"
| "spares_invoice i E c a = True"

lemma find_map_same:
  "(\<And>r. P (f r) = P r) \<Longrightarrow> find P (map f rs) = map_option f (find P rs)"
  by (induction rs) auto

lemma insert_invoice_lines_of:
  "efold (insert_invoice_line E i cost) ls (t, a) = Inr (t', b) \<Longrightarrow>
     (\<forall>j. j \<noteq> i \<longrightarrow> [l \<leftarrow> invoice_lines b. il_invoice l = j] = [l \<leftarrow> invoice_lines a. il_invoice l = j])"
proof (induction ls arbitrary: t a)
  case (Cons l ls)
  then obtain u y where "insert_invoice_line E i cost l (t, a) = Inr (u, y)" "efold (insert_invoice_line E i cost) ls (u, y) = Inr (t', b)"
    by (auto simp: res_simps)
  from this(1) Cons.IH[OF this(2)] show ?case
    by (auto simp: insert_invoice_line_def sal_id_eq Let_def res_simps)
qed simp

lemma create_invoice_has:
  assumes "create_invoice_tx E today acc o' io cost a = Inr (i, b)"
  obtains row f where "invoices b = map f (invoices a) @ [f row]" "\<And>r. in_id r \<noteq> i \<Longrightarrow> f r = r"
    "\<And>r. in_core (f r) = in_core r" "in_id row = i" "in_order row = Some o'" "\<not> in_deleted row"
    "i = db_uuid E (next_uuid (sinv a))"
    "\<forall>j. j \<noteq> i \<longrightarrow> [l \<leftarrow> invoice_lines b. il_invoice l = j] = [l \<leftarrow> invoice_lines a. il_invoice l = j]"
proof -
  from assms obtain no d1 a1 t c where s: "nextDocNumber E DocInvoice DocInvoice (sd a) = Inr (no, d1)"
      "insert_invoice E today acc o' io no (a\<lparr>sd := d1\<rparr>) = Inr (i, a1)"
      "efold (insert_invoice_line E i cost) (io_lines io) (0, a1) = Inr (t, c)"
      "b = c\<lparr>invoices := map (\<lambda>r. if in_id r = i then r\<lparr>in_cogs := db_numeric E (round4 t)\<rparr> else r) (invoices c)\<rparr>"
    unfolding create_invoice_tx_def ebind_eq_Inr by (auto simp: res_simps next_number_eq)
  have u: "next_uuid (inv (tn d1)) = next_uuid (sinv a)" using s(1) by (auto simp: nextDocNumber_eq)
  define row where "row = \<lparr>in_id = i, in_no = no, in_order = Some o', in_contact = nullUUID (io_contact io), in_status = ''issued'',
    in_date = today, in_subtotal = db_numeric E (round4 (io_subtotal io)), in_cogs = 0, in_note = None, in_by = nullUUID acc,
    in_created = db_now E, in_deleted = False\<rparr>"
  have "i = db_uuid E (next_uuid (sinv a)) \<and> invoices a1 = invoices a @ [row] \<and> invoice_lines a1 = invoice_lines a"
    using s(2) u by (auto simp: insert_invoice_def sal_id_eq Let_def res_simps row_def split: if_splits)
  then have row: "invoices a1 = invoices a @ [row]" "in_id row = i" "in_order row = Some o'" "\<not> in_deleted row"
      "i = db_uuid E (next_uuid (sinv a))" "invoice_lines a1 = invoice_lines a"
    by (simp_all add: row_def)
  have b: "invoices b = map (\<lambda>r. if in_id r = i then r\<lparr>in_cogs := db_numeric E (round4 t)\<rparr> else r) (invoices c)" "invoice_lines b = invoice_lines c"
    by (simp_all add: s(4))
  have c: "invoices c = invoices a @ [row]" using insert_invoice_lines[OF s(3)] row(1) by simp
  show ?thesis
  proof (rule that[of "\<lambda>r. if in_id r = i then r\<lparr>in_cogs := db_numeric E (round4 t)\<rparr> else r" row])
    show "in_core (if in_id r = i then r\<lparr>in_cogs := db_numeric E (round4 t)\<rparr> else r) = in_core r" for r by (simp add: in_core_def)
    show "\<forall>j. j \<noteq> i \<longrightarrow> [l \<leftarrow> invoice_lines b. il_invoice l = j] = [l \<leftarrow> invoice_lines a. il_invoice l = j]"
      using insert_invoice_lines_of[OF s(3)] by (simp add: b(2) row(6))
  qed (simp_all add: b(1) c row(2-5))
qed

lemma sale_step_has:
  assumes "sale_step E c a b" "spares_invoice (in_id r) E c a" "has_invoice o' r ls a"
  shows "has_invoice o' r ls b"
  using assms(1)
proof cases
  case (make_invoice today acc y io cost i)
  from make_invoice(2) show ?thesis
  proof (rule create_invoice_has)
    fix row f
    assume f: "invoices b = map f (invoices a) @ [f row]" "\<And>r. in_id r \<noteq> i \<Longrightarrow> f r = r" "\<And>r. in_core (f r) = in_core r"
      and i: "i = db_uuid E (next_uuid (sinv a))"
      and ls: "\<forall>j. j \<noteq> i \<longrightarrow> [l \<leftarrow> invoice_lines b. il_invoice l = j] = [l \<leftarrow> invoice_lines a. il_invoice l = j]"
    have ne: "in_id r \<noteq> i" using assms(2) make_invoice(1) i by auto
    then have "f r = r" using f(2)[of r] by simp
    moreover have "in_id (f s) = in_id s" "in_order (f s) = in_order s" "in_deleted (f s) = in_deleted s" for s
      using f(3)[of s] by (simp_all add: in_core_def)
    ultimately show ?thesis
      using assms(3) ls ne by (auto simp: has_invoice_def invoice_of_def f(1) find_append find_map_same option.map_comp o_def
          split: option.splits)
  qed
next
  case (drop_invoice i)
  have ne: "i \<noteq> in_id r" using assms(2) drop_invoice(1) by auto
  have "find P [s \<leftarrow> rs. in_id s \<noteq> i] = Some y" if "find P rs = Some y" "in_id y = in_id r" for P rs y
    using that ne by (induction rs) (auto split: if_splits)
  moreover have "[l \<leftarrow> invoice_lines b. il_invoice l = in_id r] = [l \<leftarrow> invoice_lines a. il_invoice l = in_id r]"
    using ne by (auto simp: drop_invoice(2) delete_invoice_def intro!: filter_cong)
  ultimately show ?thesis using assms(3)
    by (auto simp: has_invoice_def invoice_of_def drop_invoice(2) delete_invoice_def)
next
  case (make_return p cost m today acc contact x)
  obtain i no t where x: "x = (i, no, t)" by (cases x)
  from make_return(6)[unfolded x] have "invoices b = invoices a" "invoice_lines b = invoice_lines a"
    by (auto elim!: create_return_txE simp: taken_in_def beside_def)
  then show ?thesis using assms(3) by (simp add: has_invoice_def invoice_of_def)
next
  case (edit_return i ex o' cost m ls acc contact nt x)
  then have "invoices b = invoices a" "invoice_lines b = invoice_lines a"
    by (auto elim!: update_return_txE simp: taken_in_def beside_def)
  then show ?thesis using assms(3) by (simp add: has_invoice_def invoice_of_def)
next
  case (drop_return i)
  then have "invoices b = invoices a" "invoice_lines b = invoice_lines a"
    by (auto elim!: delete_return_txE simp: delete_return_def)
  then show ?thesis using assms(3) by (simp add: has_invoice_def invoice_of_def)
qed

interpretation kept: sales_invariant "spares_invoice (in_id r)" "has_invoice o' r ls" for o' r ls
proof
  fix E c a fd
  show "has_invoice o' r ls a \<Longrightarrow> has_invoice o' r ls (sbooks fd a)" by (simp add: has_invoice_def invoice_of_def sbooks_def)
  show "spares_invoice (in_id r) E c a \<Longrightarrow> spares_invoice (in_id r) E c (sbooks fd a)" by (cases c) auto
qed (rule sale_step_has)

lemma created_has_invoice:
  assumes "createInvoiceFromOrderConn E today acc o' False a = (Inr v, b)"
  shows "has_invoice o' (iv_row v) [l \<leftarrow> invoice_lines b. il_invoice l = in_id (iv_row v)] b"
    "iv_lines v = sort_key il_created [l \<leftarrow> invoice_lines b. il_invoice l = in_id (iv_row v)]"
proof -
  have ld: "find (\<lambda>s. in_id s = i \<and> \<not> in_deleted s) (invoices b) = Some (iv_row v)" "in_id (iv_row v) = i"
      "iv_lines v = sort_key il_created [l \<leftarrow> invoice_lines b. il_invoice l = i]" if "getInvoice E b i = Inr v" for i
    using that by (auto simp: getInvoice_def res_simps find_Some_iff split: option.splits)
  consider (old) s where "invoice_of b o' = Some s" "getInvoice E b (in_id s) = Inr v"
    | (new) i io cost where "invoice_of a o' = None" "create_invoice_tx E today acc o' io cost a = Inr (i, b)" "getInvoice E b i = Inr v"
    using assms unfolding createInvoiceFromOrderConn_def
    by (auto simp: res_simps in_tx_def split: option.splits)
  then have "\<exists>i s. invoice_of b o' = Some s \<and> in_id s = i \<and> getInvoice E b i = Inr v"
  proof cases
    case new
    from new(2) show ?thesis
    proof (rule create_invoice_has)
      fix row f
      assume f: "invoices b = map f (invoices a) @ [f row]" "\<And>r. in_core (f r) = in_core r"
        and row: "in_id row = i" "in_order row = Some o'" "\<not> in_deleted row"
      have "in_id (f s) = in_id s" "in_order (f s) = in_order s" "in_deleted (f s) = in_deleted s" for s
        using f(2)[of s] by (simp_all add: in_core_def)
      then show ?thesis using new(1,3) row by (simp add: invoice_of_def f(1) find_append find_map_same)
    qed
  qed blast
  then obtain i s where s: "invoice_of b o' = Some s" "in_id s = i" "getInvoice E b i = Inr v" by blast
  show "iv_lines v = sort_key il_created [l \<leftarrow> invoice_lines b. il_invoice l = in_id (iv_row v)]" using ld[OF s(3)] by simp
  show "has_invoice o' (iv_row v) [l \<leftarrow> invoice_lines b. il_invoice l = in_id (iv_row v)] b"
    using ld[OF s(3)] s(1,2) by (simp add: has_invoice_def)
qed

section \<open>What a return does\<close>

lemma CreateSalesReturnE:
  assumes "CreateSalesReturn E today ck auth p a = (Inr v, b)"
  obtains cost m acc contact i no t b1 fd where "orderItemSaleCost E a (cr_order p) = Inr cost" "orderReturnedQty E a (cr_order p) = Inr m"
    "check_return_lines cost m (cr_lines p) = Inr ()" "trim_space (cr_order p) \<noteq> []"
    "create_return_tx E today acc p contact cost a = Inr ((i, no, t), b1)" "b = sbooks fd b1"
proof -
  from assms obtain acc where "createSalesReturnConn E today ck acc p a = (Inr v, b)"
    unfolding CreateSalesReturn_def by (auto simp: res_simps)
  then obtain cost m contact i no t b1 where s: "orderItemSaleCost E a (cr_order p) = Inr cost" "orderReturnedQty E a (cr_order p) = Inr m"
    "check_return_lines cost m (cr_lines p) = Inr ()" "trim_space (cr_order p) \<noteq> []"
    "create_return_tx E today acc p contact cost a = Inr ((i, no, t), b1)" "book_return E ck acc i no t b1 = Inr b"
    unfolding createSalesReturnConn_def by (auto simp: res_simps in_tx_def split: prod.splits)
  from book_return_eq[OF s(6)] that[OF s(1-5)] show ?thesis by blast
qed

lemma goods_moved:
  assumes "list_all2 (goods w i) ls js" "\<forall>l\<in>set ls. rn_qty l = dec4 (rn_count l) \<and> small4 (rn_count l)"
  shows "pm.moved js k = (\<Sum>l\<leftarrow>ls. if (rn_item l, w l) = k then rn_count l else 0)"
  using assms
proof (induction rule: list_all2_induct)
  case (Cons l ls j js)
  have "input_delta j = rn_count l" "input_key j = (rn_item l, w l)"
    using Cons.hyps(1) Cons.prems by (simp_all add: goods_def input_delta_def move_sign_def direction_names)
  then show ?case using Cons by (simp add: pm.moved_def)
qed (simp add: pm.moved_def)

lemma return_stock:
  assumes "create_return_tx E today acc p contact cost a = Inr ((i, no, t), b)" "numeric_ok E" "return_exact (cr_lines p)"
    and "agree (sd a)" "roomy Q (sd a)"
  shows "on_hand (sinv b) k = on_hand (sinv a) k + (\<Sum>l\<leftarrow>cr_lines p. if (rn_item l, return_wh E a l) = k then rn_count l else 0)"
    "agree (sd b)" "order_rows_of (sinv b) o' = order_rows_of (sinv a) o'" "inv_setting (sinv b) = inv_setting (sinv a)"
  using assms(1)
proof -
  from assms(1) obtain a1 c where q: "quiet (sd a) (sd a1)" and c: "taken_in E (return_wh E a) i (cr_lines p) a1 c" and b: "sd b = sd c"
    by (rule create_return_txE) blast
  from c obtain js where js: "drun E js (sd a1) (sd c)" "list_all2 (goods (return_wh E a) i) (cr_lines p) js"
    by (auto simp: taken_in_def)
  have q': "on_hand (sinv a1) = on_hand (sinv a)" "agree (sd a1)" "order_rows_of (sinv a1) o' = order_rows_of (sinv a) o'"
      "inv_setting (sinv a1) = inv_setting (sinv a)"
    using q assms(4) same_stock_facts[of "sinv a" "sinv a1"] by (auto simp: quiet_def same_stock_def order_rows_of_def)
  note e = opens_exact[OF goods_opens[OF js(2)] return_entries_exact[OF assms(3)] assms(2)]
  have "\<forall>k. \<bar>on_hand (sinv a1) k\<bar> \<le> 2 ^ 43" using roomy_on_hand[OF assms(5,4)] q'(1) by simp
  from drun_effect[OF js(1) e(1) this e(2)] q'(1,2) goods_moved[OF js(2)] return_exactD[OF assms(3)]
  show "on_hand (sinv b) k = on_hand (sinv a) k + (\<Sum>l\<leftarrow>cr_lines p. if (rn_item l, return_wh E a l) = k then rn_count l else 0)"
      "agree (sd b)" unfolding b by simp_all
  show "order_rows_of (sinv b) o' = order_rows_of (sinv a) o'" using order_rows_taken_in[OF c] q'(3) by (simp add: b)
  have set: "run (PostMovement E) same_stock x js' y \<Longrightarrow> inv_setting y = inv_setting x" for x js' y
  proof (induction rule: run.induct)
    case (run_post x js' y j r z)
    from pm.post_setup[OF run_post.hyps(2)] run_post.IH show ?case by (simp add: same_config_def)
  qed (simp_all add: same_stock_def)
  show "inv_setting (sinv b) = inv_setting (sinv a)" using set[of "sinv a1" js "sinv c"] js(1) q'(4) by (simp add: b drun_def)
qed

section \<open>Properties\<close>

text \<open>
  C15: An order never gets back more than it sold. Through every history of requests to create, edit and
  delete returns and invoices, by any callers, successful or not, in which no return names an item
  twice, the quantity returned of every item of every order stays at most what the order issued from
  stock less what it put back, whatever the float64 sums in between.
\<close>

theorem returns_within_sold:
  assumes "within_sold a" "sales_ok (exact_return Q) rs a"
  shows "\<forall>o' x. (\<Sum>l\<leftarrow>returned_lines (sells rs a) o'. if rb_item l = x then rb_qty l else 0)
    \<le> (\<Sum>r\<leftarrow>[r \<leftarrow> movements (sinv (sells rs a)). sale_row o' r \<and> mv_item r = x].
          if mv_type r = MovementSaleIssue then mv_qty r else - mv_qty r)"
  using bounded.sells_keep[OF assms]
  by (simp add: within_sold_def returned_qty_def sold_qty_def sold_rows_def order_rows_of_def sale_qty_def[abs_def] conj_commute)

text \<open>
  C16: The ledger has what the returns say. Through every history of requests, the movements of each
  return in the stock ledger are exactly its lines, in order, as receipts, and every on-hand balance
  is the net of its ledger rows.
\<close>

theorem returns_match_ledger:
  assumes "ledger_matches a" "sales_ok (stored_return Q) rs a"
  shows "let b = sells rs a in
    (\<forall>i. map (\<lambda>r. (mv_item r, mv_wh r, mv_dir r, mv_qty r)) [r \<leftarrow> movements (sinv b). has_ref ''sales_return'' i r]
         = map (\<lambda>l. (rb_item l, rb_wh l, dirIn, rb_qty l)) [l \<leftarrow> return_lines b. rb_return l = i])
    \<and> (\<forall>k. on_hand (sinv b) k = ledger_net (sinv b) k)"
  using matched.sells_keep[OF assms]
  by (simp add: Let_def ledger_matches_def ref_rows_def row_key_def[abs_def] back_row_def[abs_def] lines_of_return_def bal_ok_def)

text \<open>
  C17: An order is invoiced once. After a successful request for the invoice of an order, and any history
  of further requests that does not delete that invoice, another request returns the same invoice,
  lines included, and writes nothing.
\<close>

theorem invoice_issued_once:
  assumes "CreateInvoiceFromOrder E today auth o' a = (Inr v, b)" "sales_ok (spares_invoice (in_id (iv_row v))) rs b"
    and "healthy E'" "getUser auth' = Inr u" "requireOwner u = Inr ()"
  shows "CreateInvoiceFromOrder E' today' auth' o' (sells rs b) = (Inr v, sells rs b)"
proof -
  from assms(1) obtain acc where "createInvoiceFromOrderConn E today acc o' False a = (Inr v, b)"
    unfolding CreateInvoiceFromOrder_def by (auto simp: res_simps)
  note h = created_has_invoice[OF this]
  from kept.sells_keep[OF h(1) assms(2)] obtain s where s: "invoice_of (sells rs b) o' = Some s" "in_id s = in_id (iv_row v)"
      "find (\<lambda>s. in_id s = in_id (iv_row v) \<and> \<not> in_deleted s) (invoices (sells rs b)) = Some (iv_row v)"
      "[l \<leftarrow> invoice_lines (sells rs b). il_invoice l = in_id (iv_row v)] = [l \<leftarrow> invoice_lines b. il_invoice l = in_id (iv_row v)]"
    by (auto simp: has_invoice_def)
  have "\<lparr>iv_row = iv_row v, iv_lines = sort_key il_created [l \<leftarrow> invoice_lines b. il_invoice l = in_id (iv_row v)]\<rparr> = v"
    by (simp flip: h(2))
  then show ?thesis
    using assms(3-5) s by (simp add: CreateInvoiceFromOrder_def createInvoiceFromOrderConn_def prepareTenant_def getInvoice_def)
qed

text \<open>
  C19: Cancelling an order after a return restocks the returned goods twice. The sync gives back all the
  order ever issued; the return gave back part of it before, in movements of its own that the sync
  does not look at. Afterwards every pair of item and warehouse has what it had before the return,
  what the order held, and the returned quantity on top.
\<close>

theorem cancellation_ignores_returns:
  assumes "CreateSalesReturn E today ck auth p a = (Inr v, b)"
    and "SyncOrderStock E' np td ord (cr_order p) status items by (stn b) = (None, t)" "\<not> IsCommittedOrderStatus status"
    and "inv_setting (sinv a) = Some st" "st_setup st" "numeric_ok E" "numeric_ok E'" "ranges ord" "return_exact (cr_lines p)"
    and "tally_ok (map sale_qty (order_rows_of (sinv a) (cr_order p)))" "agree (sd a)" "roomy Q (sd a)" "roomy Q (sd b)"
  shows "order_held (inv t) (cr_order p) k = 0
    \<and> on_hand (inv t) k = on_hand (sinv a) k + order_held (sinv a) (cr_order p) k
        + (\<Sum>l\<leftarrow>cr_lines p. if (rn_item l, return_wh E a l) = k then rn_count l else 0)"
  using assms(1)
proof (cases rule: CreateSalesReturnE)
  case (1 cost m acc contact i no tot b1 fd)
  note s = return_stock[OF 1(5) assms(6,9,11,12)]
  have b: "sinv b = sinv b1" "inv_setting (inv (stn b)) = Some st" "agree (sd b)" using 1(6) s(2,4) assms(4) by simp_all
  have ex: "sync_exact (stn b) (cr_order p) status items"
    using assms(3,10) s(3)[of "cr_order p"] b(1) by (simp add: sync_exact_def status_demand_def entries_ok_def tally_ok_def)
  have held: "order_held (inv (stn b)) (cr_order p) k = order_held (sinv a) (cr_order p) k"
    using s(3) b(1) by (simp add: order_held_def)
  from assms(2) 1(4) b(2) assms(5) show ?thesis
  proof (cases rule: SyncOrderStock_cases)
    case (committed t1)
    have "\<forall>k. \<bar>on_hand (inv (stn b)) k\<bar> \<le> 2 ^ 43" using roomy_on_hand[OF assms(13) b(3)] .
    note e = sync_tx_effect[OF committed(1) 1(4) assms(7,8) ex this]
    have "inv t = inv t1" by (rule cogs_frame[OF committed(2)])
    then show ?thesis using e(1,2)[of k] held s(1)[of k] b(1) assms(3)
      by (simp add: sync_delta_def status_demand_def key_total_def)
  qed simp
qed

section \<open>Batches\<close>

text \<open>The orders of a batch, one request after the other.\<close>

fun return_each ::
  "(nat \<Rightarrow> env) \<Rightarrow> string \<Rightarrow> clock \<Rightarrow> string \<Rightarrow> nat \<Rightarrow> CreateSalesReturnParams list \<Rightarrow> sal_db \<Rightarrow> SalesReturn res list \<times> sal_db"
where
  "return_each Es today ck acc n [] a = ([], a)"
| "return_each Es today ck acc n (p # ps) a =
     (case createSalesReturnConn (Es n) today ck acc (p\<lparr>cr_order := trim_space (cr_order p)\<rparr>) a of (r, b) \<Rightarrow>
      case return_each Es today ck acc (Suc n) ps b of (rs, c) \<Rightarrow> (r # rs, c))"

definition outcome :: "string \<times> SalesReturn res \<Rightarrow> string \<times> string \<times> string \<times> bool" where
  "outcome x = (case x of (o', Inr v) \<Rightarrow> (o', sr_id (sv_row v), sr_no (sv_row v), True) | (o', Inl e) \<Rightarrow> (o', [], [], False))"

definition shown :: "BatchResultLine \<Rightarrow> string \<times> string \<times> string \<times> bool" where
  "shown l = (bt_order l, bt_id l, bt_no l, bt_error l = None)"

lemma batch_lines:
  "shown ` set [] = {}" "br_lines (batch_fail o' e res) = br_lines res @ [\<lparr>bt_order = o', bt_id = [], bt_no = [], bt_error = Some e\<rparr>]"
  "br_lines (batch_ok o' i no res) = br_lines res @ [\<lparr>bt_order = o', bt_id = i, bt_no = no, bt_error = None\<rparr>]"
  "br_processed (batch_ok o' i no res) = Suc (br_processed res)" "br_failed (batch_ok o' i no res) = br_failed res"
  "br_processed (batch_fail o' e res) = br_processed res" "br_failed (batch_fail o' e res) = Suc (br_failed res)"
  by (simp_all add: batch_ok_def batch_fail_def)

lemma rejected_order:
  "trim_space (cr_order p) = [] \<or> cr_lines p = [] \<Longrightarrow> trim_space [] = [] \<Longrightarrow>
     \<exists>e. createSalesReturnConn E today ck acc (p\<lparr>cr_order := trim_space (cr_order p)\<rparr>) a = (Inl e, a)"
  by (auto simp: createSalesReturnConn_def guard_def split: if_splits)

lemma batch_returns_each:
  "batch_returns Es today ck acc n ps res a = (res', b) \<Longrightarrow>
     (let (rs, c) = return_each Es today ck acc n ps a in b = c
        \<and> map shown (br_lines res') = map shown (br_lines res) @ map outcome (zip (map (\<lambda>p. trim_space (cr_order p)) ps) rs)
        \<and> br_processed res' = br_processed res + length [r \<leftarrow> rs. returns r] \<and> br_failed res' = br_failed res + length [r \<leftarrow> rs. \<not> returns r])"
proof (induction ps arbitrary: n res a)
  case (Cons p ps)
  have t: "trim_space [] = []" by code_simp
  obtain r c where r: "createSalesReturnConn (Es n) today ck acc (p\<lparr>cr_order := trim_space (cr_order p)\<rparr>) a = (r, c)"
    by (cases "createSalesReturnConn (Es n) today ck acc (p\<lparr>cr_order := trim_space (cr_order p)\<rparr>) a")
  obtain rs d where rs: "return_each Es today ck acc (Suc n) ps c = (rs, d)" by (cases "return_each Es today ck acc (Suc n) ps c")
  obtain res1 where res1: "batch_returns Es today ck acc (Suc n) ps res1 c = (res', b)"
      "map shown (br_lines res1) = map shown (br_lines res) @ [outcome (trim_space (cr_order p), r)]"
      "br_processed res1 = br_processed res + (if returns r then 1 else 0)" "br_failed res1 = br_failed res + (if returns r then 0 else 1)"
  proof (cases "trim_space (cr_order p) = [] \<or> cr_lines p = []")
    case True
    then obtain e where "r = Inl e" "c = a" using rejected_order[OF True t, of "Es n" today ck acc a] r by auto
    then show ?thesis using that Cons.prems True
      by (auto simp: Let_def batch_lines shown_def outcome_def returns_def split: if_splits)
  next
    case False
    then show ?thesis using that Cons.prems r
      by (cases r) (auto simp: Let_def batch_lines shown_def outcome_def returns_def)
  qed
  from Cons.IH[OF res1(1)] rs res1(2-4) r show ?case by simp
qed simp

text \<open>
  A batch of returns is the same returns sent one after the other. The book at the end is the one
  the single requests leave, an order that fails leaves the book as it was for the next one, the
  report has one line per order, in the order of the request, with the id and the number of the return
  or the failure, and its two counters are the numbers of the returns stored and refused.
\<close>

theorem BatchCreateSalesReturns_sequential:
  assumes "BatchCreateSalesReturns E Es today ck auth ps a = (Inr res, b)" "getUser auth = Inr u"
  shows "let (rs, c) = return_each Es today ck (AccountID u) 0 ps a in b = c
    \<and> map shown (br_lines res) = map outcome (zip (map (\<lambda>p. trim_space (cr_order p)) ps) rs)
    \<and> br_processed res = length [r \<leftarrow> rs. returns r] \<and> br_failed res = length [r \<leftarrow> rs. \<not> returns r]
    \<and> br_processed res + br_failed res = length ps"
proof -
  have n: "length (fst (return_each Es today ck acc n ps a)) = length ps" for acc n
    by (induction ps arbitrary: n a) (auto split: prod.splits, metis fst_conv)
  obtain rs c where rs: "return_each Es today ck (AccountID u) 0 ps a = (rs, c)" by (cases "return_each Es today ck (AccountID u) 0 ps a")
  have "batch_returns Es today ck (AccountID u) 0 ps no_batch a = (res, b)"
    using assms by (auto simp: BatchCreateSalesReturns_def res_simps split: prod.splits)
  from batch_returns_each[OF this] show ?thesis
    using n[of "AccountID u" 0] rs sum_length_filter_compl[of returns rs] by (simp add: no_batch_def)
qed

section \<open>Sales on a working database\<close>

lemma post_return_line_returns:
  assumes "healthy E" "exact_amount (rn_qty l)" "0 < qty4 (round4 (rn_qty l))"
  shows "returns (post_return_line E pool o' cost i no acc l st)"
proof -
  have "returns (post E (return_input l w u cc i no src acc) d)" for w u cc src d
    by (rule post_returns[OF assms]) (simp_all add: return_input_def no_input_def)
  then show ?thesis unfolding post_return_line_def insert_return_line_def
    using assms(1) by (auto simp: Let_def sal_id_eq intro!: returns_intros context_returns)
qed

text \<open>The number of the next return is not taken, nor past the range of an int64.\<close>

definition number_free :: "sal_db \<Rightarrow> bool" where
  "number_free a \<longleftrightarrow> next_no (sd a) DocReturn < 2 ^ 63
     \<and> list_all (\<lambda>r. sr_no r \<noteq> formatDocNumber DocReturn (next_no (sd a) DocReturn) \<or> sr_deleted r) (sales_returns a)"

lemma create_return_returns:
  assumes "healthy E" "number_free a"
    and "\<forall>l\<in>set (cr_lines p). exact_amount (rn_qty l) \<and> 0 < qty4 (round4 (rn_qty l))"
  shows "returns (create_return_tx E today acc p contact cost a)"
proof -
  have "next_number E DocReturn a = Inr (formatDocNumber DocReturn (next_no (sd a) DocReturn),
      a\<lparr>sd := (sd a)\<lparr>doc_seq := (doc_seq (sd a))(DocReturn \<mapsto> next_no (sd a) DocReturn)\<rparr>\<rparr>)"
    using assms(1,2) by (simp add: next_number_eq nextDocNumber_eq healthy_def number_free_def)
  moreover have "\<not> list_ex (\<lambda>r. sr_no r = formatDocNumber DocReturn (next_no (sd a) DocReturn) \<and> \<not> sr_deleted r) (sales_returns a)"
    using assms(2) by (auto simp: number_free_def list_ex_iff list_all_iff)
  ultimately show ?thesis unfolding create_return_tx_def
    using assms(1,3) by (auto simp: insert_return_def sal_id_eq Let_def intro!: returns_intros post_return_line_returns)
qed

lemma return_fin:
  assumes "create_return_tx E today acc p contact cost a = Inr ((i, no, t), b)"
  shows "sfin b = sfin a"
proof -
  from assms obtain a1 c where s: "quiet (sd a) (sd a1)" "taken_in E (return_wh E a) i (cr_lines p) a1 c" "sd b = sd c"
    by (rule create_return_txE)
  then show ?thesis by (auto simp: quiet_def drun_def taken_in_def)
qed

lemma book_return_total:
  assumes "healthy E" "money_ok E" "returns (resolveIncomeWallet E (sfin b) [])"
    and "CheckCurrentPeriodUnlocked E (ck_period ck) (ck_today ck) (sfin b) = Inr ()"
  shows "\<exists>c. book_return E ck acc i no t b = Inr c"
proof -
  have flow: "trim_space ''income'' = ''income''" by code_simp
  have "returns (RecordInventoryEntry E (ck_period ck) (ck_today ck) acc (''ret:'' @ i) ''income'' finCatHPP
      (''Retur penjualan '' @ no) (round2 t) [] (sfin b))"
    using assms by (intro record_entry_total) (auto simp: flow CheckCurrentPeriodUnlocked_def prepareTenant_def returns_def)
  then show ?thesis by (auto simp: book_return_def book_def returns_def split: sum.split)
qed

text \<open>A request that passes the check is stored on a working database.\<close>

lemma return_stored:
  assumes E: "healthy E" "numeric_ok E" "money_ok E" and "getUser auth = Inr u" "requireOwner u = Inr ()"
    and "trim_space (cr_order p) \<noteq> []" "loadOrderForInvoice E a (cr_order p) = Inr io" "isInvoiceEligibleStatus (io_status io)"
    and period: "CheckCurrentPeriodUnlocked E (ck_period ck) (ck_today ck) (sfin a) = Inr ()" "returns (resolveIncomeWallet E (sfin a) [])"
    and "number_free a" "cr_lines p \<noteq> []" "return_exact (cr_lines p)" "\<forall>l\<in>set (cr_lines p). 0 < rn_count l"
    and check: "\<And>cost m. orderItemSaleCost E a (cr_order p) = Inr cost \<Longrightarrow> orderReturnedQty E a (cr_order p) = Inr m \<Longrightarrow>
      check_return_lines cost m (cr_lines p) = Inr ()"
  obtains v b where "CreateSalesReturn E today ck auth p a = (Inr v, b)"
proof -
  obtain cost m where c: "orderItemSaleCost E a (cr_order p) = Inr cost" "orderReturnedQty E a (cr_order p) = Inr m"
    using E(1) by (simp add: orderItemSaleCost_def orderReturnedQty_def)
  have "exact_amount (rn_qty l) \<and> 0 < qty4 (round4 (rn_qty l))" if "l \<in> set (cr_lines p)" for l
    using exact_amount_dec4[of "rn_count l"] return_exactD[OF assms(13) that] assms(14) that by simp
  then have "returns (create_return_tx E today (AccountID u) p (io_contact io) cost a)"
    by (intro create_return_returns[OF E(1) assms(11)]) blast
  then obtain i no t b1 where t: "create_return_tx E today (AccountID u) p (io_contact io) cost a = Inr ((i, no, t), b1)"
    by (auto simp: returns_def)
  obtain b where bk: "book_return E ck (AccountID u) i no t b1 = Inr b"
    using book_return_total[OF E(1,3)] period return_fin[OF t] by metis
  then obtain fd where b: "b = sbooks fd b1" using book_return_eq by blast
  have "map sr_core (sales_returns b1) = map sr_core (sales_returns a) @ [(i, nullUUID (cr_order p), ''posted'', False)]"
    using t by (rule create_return_txE) (simp add: taken_in_def beside_def)
  then have "(i, nullUUID (cr_order p), ''posted'', False) \<in> set (map sr_core (sales_returns b))" by (simp add: b)
  then obtain r where "r \<in> set (sales_returns b)" "sr_id r = i" "\<not> sr_deleted r" by (auto simp: sr_core_def)
  then have "find (\<lambda>r. sr_id r = i \<and> \<not> sr_deleted r) (sales_returns b) \<noteq> None" by (auto simp: find_None_iff)
  then have "\<exists>v. getSalesReturn E b i = Inr v" using E(1) by (auto simp: getSalesReturn_def)
  then obtain v where "getSalesReturn E b i = Inr v" ..
  then have "CreateSalesReturn E today ck auth p a = (Inr v, b)"
    using assms(4-9,12) E(1) c check[OF c] t bk
    by (simp add: CreateSalesReturn_def createSalesReturnConn_def in_tx_def prepareTenant_def require_eligible_def guard_def)
  then show ?thesis by (rule that)
qed

text \<open>The rows of the orders that a sync reads are not written.\<close>

lemma order_rows_set_inv [simp]: "order_rows (tn (set_inv i d)) = order_rows (tn d)"
  by (simp add: set_inv_def)

lemma post_return_line_orders:
  "post_return_line E pool o' cost i no acc l (t, a) = Inr (t', b) \<Longrightarrow> order_rows (stn b) = order_rows (stn a)"
  by (auto simp: post_return_line_def insert_return_line_def post_def sal_id_eq new_id_def fresh_uuid_def Let_def res_simps)

lemma create_return_orders:
  assumes "create_return_tx E today acc p contact cost a = Inr ((i, no, t), b)"
  shows "order_rows (stn b) = order_rows (stn a)"
proof -
  have lines: "order_rows (stn d) = order_rows (stn c)" if "efold (post_return_line E a (cr_order p) cost i no acc) ls (n, c) = Inr (m, d)" for ls n m c d
    using that by (induction ls arbitrary: n c) (auto simp: res_simps dest!: post_return_line_orders)
  from assms obtain d1 a1 c where s: "nextDocNumber E DocReturn DocReturn (sd a) = Inr (no, d1)"
      "insert_return E today acc p contact no (a\<lparr>sd := d1\<rparr>) = Inr (i, a1)"
      "efold (post_return_line E a (cr_order p) cost i no acc) (cr_lines p) (0, a1) = Inr (t, c)" "sd b = sd c"
    unfolding create_return_tx_def ebind_eq_Inr by (auto simp: res_simps next_number_eq)
  have "order_rows (stn a1) = order_rows (stn a)"
    using s(1,2) by (auto simp: nextDocNumber_eq insert_return_def sal_id_eq new_id_def fresh_uuid_def Let_def res_simps split: if_splits)
  then show ?thesis using lines[OF s(3)] s(4) by simp
qed

section \<open>A line listed more than once\<close>

lemma repeated_returned:
  assumes "CreateSalesReturn E today ck auth p a = (Inr v, b)" "cr_lines p = replicate n l"
    and "returns_ok a" "numeric_ok E" "return_exact (cr_lines p)" "new_ids E a"
  shows "returned_qty b (cr_order p) (rn_item l) = returned_qty a (cr_order p) (rn_item l) + int n * rn_count l
    \<and> sold_qty (sinv b) (cr_order p) (rn_item l) = sold_qty (sinv a) (cr_order p) (rn_item l)"
  using assms(1)
proof (cases rule: CreateSalesReturnE)
  case (1 cost m acc contact i no t b1 fd)
  have "returned_qty b1 (cr_order p) (rn_item l) = returned_qty a (cr_order p) (rn_item l) + int n * rn_count l
      \<and> sold_qty (sinv b1) (cr_order p) (rn_item l) = sold_qty (sinv a) (cr_order p) (rn_item l)"
    using 1(5)
  proof (rule create_return_txE)
    fix a1 c
    assume q: "quiet (sd a) (sd a1)" and i: "i = db_uuid E (next_uuid (sinv a))" and t: "return_lines a1 = return_lines a"
        "map sr_core (sales_returns a1) = map sr_core (sales_returns a) @ [(i, nullUUID (cr_order p), ''posted'', False)]"
      and c: "taken_in E (return_wh E a) i (cr_lines p) a1 c" and b: "sd b1 = sd c" "return_lines b1 = return_lines c"
        "map sr_core (sales_returns b1) = map sr_core (sales_returns c)"
    let ?cs = "map rb_core (return_lines a)" and ?ss = "map sr_core (sales_returns a)"
    have fresh: "i \<notin> fst ` set ?ss" "\<forall>c\<in>set ?cs. fst c \<noteq> i"
      using assms(6)[unfolded new_ids_def, rule_format, of "next_uuid (sinv a)"] i by (force simp: sr_core_def rb_core_def)+
    have ls: "map rb_core (return_lines b1) = [c \<leftarrow> ?cs. fst c \<noteq> i] @ map (ret_core E (return_wh E a) i) (cr_lines p)"
      using c t(1) fresh(2) by (simp add: b(2) taken_in_def)
    have ss: "map sr_core (sales_returns b1) = ?ss @ [(i, Some (cr_order p), ''posted'', False)]"
      using c t(2) 1(4) by (simp add: b(3) taken_in_def beside_def nullUUID_def)
    have d: "distinct (map fst (?ss @ [(i, Some (cr_order p), ''posted'', False)]))" using distinct_core[OF assms(3)] fresh(1) by (simp add: image_image)
    have "returned_qty b1 (cr_order p) (rn_item l) = returned_qty a (cr_order p) (rn_item l)
        + line_sum (map (ret_core E (return_wh E a) i) (cr_lines p)) i (rn_item l)"
      unfolding returned_core ls ss
      by (subst back_sum_replace[OF d]) (auto simp: ret_core_def back_sum_def line_sum_absent[OF fresh(2)])
    also have "line_sum (map (ret_core E (return_wh E a) i) (cr_lines p)) i (rn_item l) = int n * rn_count l"
      using ret_core_sum[OF assms(4,5), of "return_wh E a" i "rn_item l"] by (simp add: assms(2) sum_list_replicate)
    finally show ?thesis
      using sold_taken_in[OF c] q by (simp add: b(1) sold_qty_def quiet_def same_stock_def sold_rows_def order_rows_of_def)
  qed
  then show ?thesis using 1(6) by simp
qed

text \<open>
  C18: A return that repeats a line takes back more than was sold, and is accepted. Every line is
  compared with what was left before the request. So on a working database, with the period open, a
  wallet at hand and the quantities exact in floats, a request that lists all that is left of an item
  \<open>n\<close> times succeeds, and the order has then got back \<open>n - 1\<close> times that quantity more than it sold.
\<close>

theorem repeated_lines_overstep:
  assumes "healthy E" "numeric_ok E" "money_ok E" "getUser auth = Inr u" "requireOwner u = Inr ()"
    and "trim_space (cr_order p) \<noteq> []" "loadOrderForInvoice E a (cr_order p) = Inr io" "isInvoiceEligibleStatus (io_status io)"
    and "CheckCurrentPeriodUnlocked E (ck_period ck) (ck_today ck) (sfin a) = Inr ()" "returns (resolveIncomeWallet E (sfin a) [])"
    and "number_free a" "cr_lines p = replicate n l" "0 < n" "0 < rn_count l"
    and left: "rn_count l = sold_qty (sinv a) (cr_order p) (rn_item l) - returned_qty a (cr_order p) (rn_item l)"
    and ok: "returns_ok a" "return_exact (cr_lines p)" "new_ids E a" "sales_room a"
  shows "\<exists>v b. CreateSalesReturn E today ck auth p a = (Inr v, b)
    \<and> sold_qty (sinv b) (cr_order p) (rn_item l) = sold_qty (sinv a) (cr_order p) (rn_item l)
    \<and> returned_qty b (cr_order p) (rn_item l) = sold_qty (sinv b) (cr_order p) (rn_item l) + (int n - 1) * rn_count l"
proof -
  have "l \<in> set (cr_lines p)" using assms(12,13) by simp
  note l = return_exactD[OF ok(2) this]
  note bound = returned_bound[OF ok(1,4), of "cr_order p" "rn_item l"]
  have check: "check_return_lines cost m (cr_lines p) = Inr ()"
    if "orderItemSaleCost E a (cr_order p) = Inr cost" "orderReturnedQty E a (cr_order p) = Inr m" for cost m
  proof -
    have "tally_ok (sold_rows (sinv a) (cr_order p) (rn_item l))"
      using ok(4) by (intro sold_tally) (simp add: sales_room_def)
    note s = sold_approx[OF that(1) this]
    have r: "approx (mget 0 m (rn_item l)) (returned_qty a (cr_order p) (rn_item l)) (1 / 500)"
      unfolding mget_returned[OF that(2)] using bound by (intro small4_approx) (simp add: small4_def)
    have "returnableQty (ne_qty (mget zero_net cost (rn_item l))) (mget 0 m (rn_item l)) = dec4 (rn_count l)"
      using returnable_approx[OF s r] sold_bound[OF ok(4), of "cr_order p" "rn_item l"] bound left assms(14) by simp
    moreover have "\<not> rn_qty l \<le> epsilon" using l assms(14) dec4_pos by simp
    moreover have "\<not> dec4 (rn_count l) < fl (rn_qty l - epsilon)" using fits_iff[OF l(2,2)] l(1) by simp
    ultimately show ?thesis by (simp add: check_return_lines_iff assms(12))
  qed
  have ne: "cr_lines p \<noteq> []" "\<forall>l\<in>set (cr_lines p). 0 < rn_count l" using assms(12-14) by auto
  obtain v b where run: "CreateSalesReturn E today ck auth p a = (Inr v, b)"
    by (rule return_stored[OF assms(1-11) ne(1) ok(2) ne(2) check])
  note e = repeated_returned[OF run assms(12) ok(1) assms(2) ok(2,3)]
  have "r = m + int n * c \<Longrightarrow> c = d - m \<Longrightarrow> r = d + (int n - 1) * c" for r m c d :: int by (simp add: left_diff_distrib)
  then show ?thesis using run e left by simp
qed

section \<open>An order of three pieces\<close>

definition sample_sold :: inv_db where
  "sample_sold = sample_db\<lparr>movements := movements sample_db @ [(sample_movement ''m3'' dirOut 30000)\<lparr>mv_type := MovementSaleIssue,
       mv_reftype := Some ''order'', mv_refid := Some ''o1''\<rparr>],
     balances := [(''p'', ''w'') \<mapsto> \<lparr>bl_on_hand = 20000, bl_reserved = 0, bl_avg = 10000, bl_total = 20000, bl_updated = 1\<rparr>],
     inv_setting := Some \<lparr>st_setup = True, st_method = CostingFIFO, st_block = False, st_expense = True\<rparr>\<rparr>"

definition shipped_order :: order_rec where
  "shipped_order = \<lparr>od_id = ''o1'', od_conv = None, od_contact = None, od_items = [\<lparr>it_line = ''1'', it_item = ''p'', it_code = ''K1'',
       it_name = ''Kopi'', it_variant = [], it_size = [], it_color = [], it_qty = 3, it_price = 2, it_unit = [], it_wh = []\<rparr>],
     od_addr = None, od_notes = [], od_status = ''shipped'', od_tracking = [], od_courier = [], od_payment = None, od_paystatus = ''paid'',
     od_proof = None, od_submitted = None, od_verified = None, od_verifier = None, od_meta = no_meta, od_subtotal = 60000,
     od_shipping = 0, od_total = 60000, od_by = ''a'', od_created = 2, od_updated = 3, od_deleted = None\<rparr>"

definition sample_sal :: sal_db where
  "sample_sal = \<lparr>sd = set_inv sample_sold sample_docs, s_orders = [shipped_order], invoices = [], invoice_lines = [],
     sales_returns = [], return_lines = []\<rparr>"

definition sample_back :: "int \<Rightarrow> SalesReturnLineInput" where
  "sample_back n = \<lparr>rn_item = ''p'', rn_wh = ''w'', rn_qty = dec4 n\<rparr>"

definition sample_return :: "SalesReturnLineInput list \<Rightarrow> CreateSalesReturnParams" where
  "sample_return ls = \<lparr>cr_order = ''o1'', cr_note = [], cr_lines = ls\<rparr>"

lemma sample_sal_sel [simp]:
  "sinv sample_sal = sample_sold" "sfin sample_sal = sample_books" "sales_returns sample_sal = []" "return_lines sample_sal = []"
  "invoices sample_sal = []" "order_rows (stn sample_sal) = order_rows sample_tenant"
  by (simp_all add: sample_sal_def sample_docs_def sample_tenant_def)

lemma sample_sold_facts:
  "bal_ok sample_sold" "ledger_room 30000 sample_sold" "tally_ok (map mv_qty (movements sample_sold))"
  "inv_setting sample_sold = Some \<lparr>st_setup = True, st_method = CostingFIFO, st_block = False, st_expense = True\<rparr>"
  "on_hand sample_sold (''p'', ''w'') = 20000"
  by (auto simp: sample_sold_def sample_db_def sample_movement_def bal_ok_def on_hand_def ledger_net_def pair_rows_def row_mov_def
      ledger_room_def ledger_small_def keyed_def tally_ok_def direction_names)

lemma sample_sold_rows:
  "map sale_qty (order_rows_of sample_sold ''o1'') = [30000]" "sold_qty sample_sold ''o1'' ''p'' = 30000"
  "order_held sample_sold ''o1'' (''p'', ''w'') = 30000" "0 \<le> sold_qty sample_sold o' x"
  by (auto simp: sample_sold_def sample_db_def sample_movement_def sold_qty_def sold_rows_def order_held_def order_rows_of_def sale_row_def
      has_ref_def sale_qty_def)

lemma sample_within: "within_sold sample_sal" "sales_room sample_sal" "new_ids E sample_sal" "returns_ok sample_sal"
  using sample_sold_facts(3) sample_sold_rows(4)
  by (simp_all add: within_sold_def returns_ok_def returned_qty_def returned_lines_def sales_room_def new_ids_def)

lemma sample_matches: "ledger_matches sample_sal"
  using sample_sold_facts(1)
  by (auto simp: ledger_matches_def ref_rows_def lines_of_return_def sample_sold_def sample_db_def sample_movement_def has_ref_def filter_empty_conv)

lemma sample_back_facts: "rn_item (sample_back n) = ''p''" "rn_qty (sample_back n) = dec4 n" "\<bar>n\<bar> \<le> 2 ^ 43 \<Longrightarrow> rn_count (sample_back n) = n"
  by (simp_all add: sample_back_def rn_count_def small4_def)

lemma sample_back_exact:
  "\<forall>n\<in>set ns. 0 < n \<and> n \<le> 30000 \<Longrightarrow> length ns \<le> 100 \<Longrightarrow> return_exact (map sample_back ns)"
proof -
  assume ns: "\<forall>n\<in>set ns. 0 < n \<and> n \<le> 30000" "length ns \<le> 100"
  have "(\<Sum>n\<leftarrow>ns. \<bar>n\<bar>) \<le> int (length ns) * 30000" using ns(1) by (induction ns) (auto simp: algebra_simps)
  also have "\<dots> \<le> 2 ^ 43" using ns(2) by simp
  finally have "(\<Sum>n\<leftarrow>ns. \<bar>n\<bar>) \<le> 2 ^ 43" .
  moreover have c: "rn_count (sample_back n) = n" if "n \<in> set ns" for n using ns(1) that by (intro sample_back_facts(3)) auto
  then have "map (\<lambda>l. \<bar>rn_count l\<bar>) (map sample_back ns) = map abs ns" by simp
  ultimately have "(\<Sum>l\<leftarrow>map sample_back ns. \<bar>rn_count l\<bar>) \<le> 2 ^ 43" by (simp only:)
  then show ?thesis using c by (simp add: return_exact_def sample_back_facts(2))
qed

lemma sample_check:
  assumes "orderItemSaleCost sample_env sample_sal ''o1'' = Inr cost" "orderReturnedQty sample_env sample_sal ''o1'' = Inr m"
    and "\<forall>n\<in>set ns. 0 < n \<and> n \<le> 30000"
  shows "check_return_lines cost m (map sample_back ns) = Inr ()"
proof -
  have "tally_ok (sold_rows (sinv sample_sal) ''o1'' ''p'')" using sample_sold_facts(3) by (intro sold_tally) simp
  from sold_approx[OF assms(1) this] have a: "approx (ne_qty (mget zero_net cost ''p'')) 30000 (1 / 500)"
    by (simp add: sample_sold_rows(2))
  have "mget 0 m ''p'' = 0" using mget_returned[OF assms(2), of "''p''"] by (simp add: returned_qty_def returned_lines_def)
  then have "approx (mget 0 m ''p'') 0 (1 / 500)" by (simp add: approx_def)
  from returnable_approx[OF a this] have "returnableQty (ne_qty (mget zero_net cost ''p'')) (mget 0 m ''p'') = dec4 30000" by simp
  moreover have "\<not> dec4 n \<le> epsilon" "\<not> dec4 30000 < fl (dec4 n - epsilon)" if "0 < n" "n \<le> 30000" for n
    using that fits_iff[of 30000 n] by (simp_all add: dec4_pos small4_def)
  ultimately show ?thesis using assms(3) by (auto simp: check_return_lines_iff sample_back_facts)
qed

definition sample_takes :: "int list \<Rightarrow> (SalesReturn, sal_db) reply" where
  "sample_takes ns = CreateSalesReturn sample_env ''2026-01-02'' sample_clock sample_owner (sample_return (map sample_back ns)) sample_sal"

lemma sample_room: "roomy 30000 (sd sample_sal)"
  using sample_sold_facts(2) by simp

lemma sample_number: "number_free sample_sal"
  by (simp add: number_free_def sample_sal_def next_no_def sample_docs_def)

lemma sample_eligible:
  "loadOrderForInvoice sample_env sample_sal ''o1'' = Inr \<lparr>io_contact = [], io_lines = od_items shipped_order, io_subtotal = dec4 60000, io_status = ''shipped''\<rparr>"
  "isInvoiceEligibleStatus ''shipped''" "trim_space ''o1'' = ''o1''"
  "CheckCurrentPeriodUnlocked sample_env (ck_period sample_clock) (ck_today sample_clock) sample_books = Inr ()"
  "returns (resolveIncomeWallet sample_env sample_books [])"
proof -
  show "loadOrderForInvoice sample_env sample_sal ''o1'' = Inr \<lparr>io_contact = [], io_lines = od_items shipped_order, io_subtotal = dec4 60000, io_status = ''shipped''\<rparr>"
    using sample_env_ok by (simp add: loadOrderForInvoice_def sample_sal_def shipped_order_def opt_text_def)
qed code_simp+

lemma sample_return_runs:
  assumes "\<forall>n\<in>set ns. 0 < n \<and> n \<le> 30000" "ns \<noteq> []" "length ns \<le> 100"
  obtains v b contact cost x where "sample_takes ns = (Inr v, b)" "create_return_tx sample_env ''2026-01-02''
     (AccountID (the sample_owner)) (sample_return (map sample_back ns)) contact cost sample_sal = Inr (x, b)"
proof -
  let ?p = "sample_return (map sample_back ns)" and ?acc = "AccountID (the sample_owner)"
  obtain cost m where c: "orderItemSaleCost sample_env sample_sal ''o1'' = Inr cost" "orderReturnedQty sample_env sample_sal ''o1'' = Inr m"
    using sample_env_ok by (simp add: orderItemSaleCost_def orderReturnedQty_def)
  have no: "number_free sample_sal" by (rule sample_number)
  have q: "exact_amount (rn_qty (sample_back n)) \<and> 0 < qty4 (round4 (rn_qty (sample_back n)))" if "n \<in> set ns" for n
    using assms(1) that exact_amount_dec4[of n] by (auto simp: sample_back_facts(2))
  let ?tx = "create_return_tx sample_env ''2026-01-02'' ?acc ?p [] cost sample_sal"
  have "returns ?tx"
    by (rule create_return_returns[OF sample_env_ok no]) (use q in \<open>simp_all add: sample_return_def\<close>)
  then obtain i no' t b where t: "?tx = Inr ((i, no', t), b)" by (auto simp: returns_def)
  have set: "inv_setting (sinv b) = Some \<lparr>st_setup = True, st_method = CostingFIFO, st_block = False, st_expense = True\<rparr>"
    using return_stock(4)[OF t numeric_ok_sample _ _ sample_room] sample_back_exact[OF assms(1,3)] sample_sold_facts(1,4)
    by (simp add: sample_return_def)
  have bk: "book_return sample_env sample_clock ?acc i no' t b = Inr b"
    using set sample_env_ok by (simp add: book_return_def loadSyncSetting_def)
  have "map sr_core (sales_returns b) = [(i, nullUUID ''o1'', ''posted'', False)]"
    using t by (rule create_return_txE) (simp add: taken_in_def beside_def sample_return_def)
  then obtain r where "sales_returns b = [r]" "sr_id r = i" "\<not> sr_deleted r" by (auto simp: sr_core_def)
  then have "\<exists>v. getSalesReturn sample_env b i = Inr v" using sample_env_ok by (simp add: getSalesReturn_def)
  then obtain v where v: "getSalesReturn sample_env b i = Inr v" ..
  have "sample_takes ns = (Inr v, b)" unfolding sample_takes_def
    using t c sample_eligible bk v sample_check[OF c assms(1)] sample_owner_ok sample_env_ok assms(2)
    by (simp add: CreateSalesReturn_def createSalesReturnConn_def in_tx_def prepareTenant_def sample_return_def require_eligible_def guard_def)
  then show ?thesis using t that by blast
qed

abbreviation sample_sale :: "sale_call \<Rightarrow> sale_request" where
  "sample_sale c \<equiv> (sample_env, ''2026-01-02'', sample_clock, sample_owner, c)"

theorem returns_within_sold_witness:
  "(\<Sum>l\<leftarrow>returned_lines (sells [sample_sale (MakeReturn (sample_return [sample_back 10000])), sample_sale (MakeInvoice ''o1'')] sample_sal) ''o1''.
      if rb_item l = ''p'' then rb_qty l else 0)
    \<le> (\<Sum>r\<leftarrow>[r \<leftarrow> movements (sinv (sells [sample_sale (MakeReturn (sample_return [sample_back 10000])), sample_sale (MakeInvoice ''o1'')] sample_sal)).
         sale_row ''o1'' r \<and> mv_item r = ''p'']. if mv_type r = MovementSaleIssue then mv_qty r else - mv_qty r)"
proof -
  let ?rs = "[sample_sale (MakeReturn (sample_return [sample_back 10000])), sample_sale (MakeInvoice ''o1'')]"
  have "sales_ok (exact_return 30000) ?rs sample_sal"
    using sample_back_exact[of "[10000]"] sample_within numeric_ok_sample by (simp add: exact_lines_def sample_return_def)
  from returns_within_sold[OF sample_within(1) this, rule_format] show ?thesis .
qed

theorem returns_match_ledger_witness:
  "let b = sells [sample_sale (MakeReturn (sample_return [sample_back 10000])), sample_sale (DropInvoice ''i'')] sample_sal in
     on_hand (sinv b) (''p'', ''w'') = ledger_net (sinv b) (''p'', ''w'')"
proof -
  let ?rs = "[sample_sale (MakeReturn (sample_return [sample_back 10000])), sample_sale (DropInvoice ''i'')]"
  have "sales_ok (stored_return 30000) ?rs sample_sal"
    using sample_back_exact[of "[10000]"] sample_room numeric_ok_sample sample_uuid by (simp add: sample_return_def)
  from returns_match_ledger[OF sample_matches this] show ?thesis by (simp add: Let_def)
qed

theorem repeated_lines_overstep_witness:
  "\<exists>v b. sample_takes [30000, 30000] = (Inr v, b)
     \<and> returned_qty b ''o1'' ''p'' = 60000 \<and> sold_qty (sinv b) ''o1'' ''p'' = 30000"
proof -
  let ?p = "sample_return (map sample_back [30000, 30000])" and ?io = "\<lparr>io_contact = [], io_lines = od_items shipped_order, io_subtotal = dec4 60000, io_status = ''shipped''\<rparr>"
  have ex: "return_exact (map sample_back [30000, 30000])" by (rule sample_back_exact) simp_all
  have l: "rn_count (sample_back 30000) = 30000" by (rule sample_back_facts(3)) simp
  have z: "returned_qty sample_sal ''o1'' ''p'' = 0" by (simp add: returned_qty_def returned_lines_def)
  have o': "cr_order (sample_return ls) = ''o1''" for ls by (simp add: sample_return_def)
  have p: "cr_lines ?p = replicate 2 (sample_back 30000)" "return_exact (cr_lines ?p)"
    using ex by (simp_all add: sample_return_def numeral_2_eq_2)
  have "\<exists>v b. CreateSalesReturn sample_env ''2026-01-02'' sample_clock sample_owner ?p sample_sal = (Inr v, b)
      \<and> sold_qty (sinv b) (cr_order ?p) (rn_item (sample_back 30000)) = sold_qty (sinv sample_sal) (cr_order ?p) (rn_item (sample_back 30000))
      \<and> returned_qty b (cr_order ?p) (rn_item (sample_back 30000)) = sold_qty (sinv b) (cr_order ?p) (rn_item (sample_back 30000))
        + (int 2 - 1) * rn_count (sample_back 30000)"
    by (rule repeated_lines_overstep[OF sample_env_ok numeric_ok_sample money_ok_sample sample_owner_ok _ _ _ _ _ sample_number
          p(1) _ _ _ sample_within(4) p(2) sample_within(3,2), where io = ?io])
      (simp_all add: o' sample_eligible l z sample_sold_rows sample_back_facts(1))
  then show ?thesis unfolding sample_takes_def by (auto simp: o' l sample_back_facts(1) sample_sold_rows)
qed

lemma sample_return_stock:
  assumes "create_return_tx sample_env today acc (sample_return [sample_back 10000]) contact cost sample_sal = Inr ((i, no, t), b)"
  shows "roomy 30000 (sd b)" "sfin b = sample_books"
proof -
  from assms obtain a1 c where q: "quiet (sd sample_sal) (sd a1)"
    and c: "taken_in sample_env (return_wh sample_env sample_sal) i [sample_back 10000] a1 c" and b: "sd b = sd c"
    by (rule create_return_txE) (simp add: sample_return_def)
  have w: "return_wh sample_env sample_sal (sample_back 10000) = ''w''" unfolding return_wh_def sample_back_def by code_simp
  from c obtain j where js: "drun sample_env [j] (sd a1) (sd c)" "goods (return_wh sample_env sample_sal) i (sample_back 10000) j"
    by (auto simp: taken_in_def list_all2_Cons1)
  from qm.run_log[of sample_env] js(1) obtain e where e: "movements (sinv c) = movements (sinv a1) @ [e]" "row_for sample_env j e"
    unfolding drun_def by (fastforce simp: list_all2_Cons1)
  have num: "db_numeric sample_env (dec4 10000) = 10000" using numeric_ok_sample by (simp add: numeric_ok_def small4_def)
  have e': "mv_qty e = 10000" "mv_item e = ''p''" "mv_wh e = ''w''"
    using e(2) js(2) num w by (simp_all add: row_for_def goods_def sample_back_facts(1,2) small4_def)
  have "\<exists>n. mv_id e = db_uuid sample_env n" using run_ids[of sample_env] js(1) e(1) by (fastforce simp: drun_def)
  then have "mv_id e \<noteq> ''m1''" "mv_id e \<noteq> ''m2''" "mv_id e \<noteq> ''m3''" by (auto simp: sample_env_def)
  moreover have "movements (sinv b) = movements sample_sold @ [e]" using q e(1) by (simp add: b quiet_def same_stock_def)
  ultimately show "roomy 30000 (sd b)"
    using e' by (auto simp: ledger_room_def ledger_small_def keyed_def sample_sold_def sample_db_def sample_movement_def)
  show "sfin b = sample_books" using q js(1) by (simp add: b quiet_def drun_def)
qed

theorem cancellation_ignores_returns_witness:
  "\<exists>v b t. sample_takes [10000] = (Inr v, b)
     \<and> SyncOrderStock sample_env [] ''2026-01-02'' id ''o1'' ''cancelled'' [] ''u'' (stn b) = (None, t)
     \<and> on_hand sample_sold (''p'', ''w'') = 20000 \<and> order_held sample_sold ''o1'' (''p'', ''w'') = 30000
     \<and> on_hand (inv t) (''p'', ''w'') = 60000"
proof -
  obtain v b contact cost x where r: "sample_takes [10000] = (Inr v, b)" "create_return_tx sample_env ''2026-01-02''
     (AccountID (the sample_owner)) (sample_return (map sample_back [10000])) contact cost sample_sal = Inr (x, b)"
    by (rule sample_return_runs[of "[10000]"]) simp_all
  obtain i no tt where x: "x = (i, no, tt)" by (cases x)
  note tx = r(2)[unfolded x list.map]
  have ex: "return_exact [sample_back 10000]" using sample_back_exact[of "[10000]"] by simp
  have cs: "\<not> IsCommittedOrderStatus ''cancelled''" "trim_space ''w'' = ''w''" by code_simp+
  have w: "return_wh sample_env sample_sal (sample_back 10000) = ''w''" unfolding return_wh_def sample_back_def by code_simp
  have ta: "tally_ok [30000]" by (simp add: tally_ok_def)
  note s = return_stock(3,4)[OF tx numeric_ok_sample _ _ sample_room]
  have sb: "order_rows_of (sinv b) ''o1'' = order_rows_of sample_sold ''o1''" "inv_setting (sinv b) = inv_setting sample_sold"
    using s ex sample_sold_facts(1) by (simp_all add: sample_return_def)
  have e: "sync_exact (stn b) ''o1'' ''cancelled'' []"
    using cs(1) sb(1) sample_sold_rows(1) ta by (simp add: sync_exact_def status_demand_def entries_ok_def tally_ok_def)
  have iw: "income_wallet (stn b) ''o1'' = income_wallet sample_tenant ''o1''"
    using create_return_orders[OF tx] by (simp add: income_wallet_def)
  have fb: "fin sample_tenant = sample_books" by (simp add: sample_tenant_def)
  obtain t where t: "SyncOrderStock sample_env [] ''2026-01-02'' id ''o1'' ''cancelled'' [] ''u'' (stn b) = (None, t)"
    using sync_total[OF sample_env_ok numeric_ok_sample trans[OF sb(2) sample_sold_facts(4)] e, of "[]" "''2026-01-02''" id "''u''"]
      sample_order_facts(3,4) money_ok_sample sample_return_stock(2)[OF tx] iw fb by auto
  have t': "SyncOrderStock sample_env [] ''2026-01-02'' id (cr_order (sample_return (map sample_back [10000]))) ''cancelled'' [] ''u'' (stn b) = (None, t)"
    using t by (simp add: sample_return_def)
  from cancellation_ignores_returns[OF r(1)[unfolded sample_takes_def] t' cs(1) _ _ numeric_ok_sample numeric_ok_sample ranges_id,
      where Q = 30000 and k = "(''p'', ''w'')"]
  have "on_hand (inv t) (''p'', ''w'') = 60000"
    using t ex ta sample_sold_rows sample_sold_facts sample_room sample_return_stock(1)[OF tx] w sample_back_facts(1,3)[of 10000] numeric_ok_sample
    by (simp add: sample_return_def)
  then show ?thesis using r(1) t sample_sold_facts(5) sample_sold_rows(3) by auto
qed

lemma create_invoice_returns:
  assumes "healthy E" "next_no (sd a) DocInvoice < 2 ^ 63" "invoices a = []"
  shows "returns (create_invoice_tx E today acc o' io cost a)"
proof -
  have "next_number E DocInvoice a = Inr (formatDocNumber DocInvoice (next_no (sd a) DocInvoice),
      a\<lparr>sd := (sd a)\<lparr>doc_seq := (doc_seq (sd a))(DocInvoice \<mapsto> next_no (sd a) DocInvoice)\<rparr>\<rparr>)"
    using assms(1,2) by (simp add: next_number_eq nextDocNumber_eq healthy_def)
  then show ?thesis unfolding create_invoice_tx_def
    using assms by (auto simp: insert_invoice_def insert_invoice_line_def sal_id_eq Let_def intro!: returns_intros)
qed

lemma sample_order_loads:
  "loadOrderForInvoice sample_env sample_sal ''o1'' = Inr \<lparr>io_contact = [], io_lines = od_items shipped_order,
     io_subtotal = dec4 60000, io_status = ''shipped''\<rparr>"
  using sample_env_ok by (simp add: loadOrderForInvoice_def sample_sal_def shipped_order_def opt_text_def)

lemma sample_invoice_runs:
  obtains v b where "CreateInvoiceFromOrder sample_env ''2026-01-02'' sample_owner ''o1'' sample_sal = (Inr v, b)" "in_id (iv_row v) \<noteq> []"
proof -
  let ?acc = "AccountID (the sample_owner)"
  obtain cost where c: "orderItemSaleCost sample_env sample_sal ''o1'' = Inr cost" using sample_env_ok by (simp add: orderItemSaleCost_def)
  let ?io = "\<lparr>io_contact = [], io_lines = od_items shipped_order, io_subtotal = dec4 60000, io_status = ''shipped''\<rparr>"
  have "returns (create_invoice_tx sample_env ''2026-01-02'' ?acc ''o1'' ?io cost sample_sal)"
    by (rule create_invoice_returns[OF sample_env_ok]) (simp_all add: sample_sal_def next_no_def sample_docs_def)
  then obtain i b where t: "create_invoice_tx sample_env ''2026-01-02'' ?acc ''o1'' ?io cost sample_sal = Inr (i, b)"
    by (auto simp: returns_def)
  obtain no where i: "i = db_uuid sample_env (next_uuid (sinv sample_sal))" "map in_core (invoices b) = [(i, no, Some ''o1'', False)]"
    using t by (rule create_invoice_txE) simp
  from i(2) obtain r where r: "invoices b = [r]" "in_id r = i" "\<not> in_deleted r" by (auto simp: in_core_def)
  let ?v = "\<lparr>iv_row = r, iv_lines = sort_key il_created [l \<leftarrow> invoice_lines b. il_invoice l = i]\<rparr>"
  have g: "getInvoice sample_env b i = Inr ?v" using sample_env_ok r by (simp add: getInvoice_def)
  have o': "isInvoiceEligibleStatus ''shipped''" by code_simp
  have "CreateInvoiceFromOrder sample_env ''2026-01-02'' sample_owner ''o1'' sample_sal = (Inr ?v, b)"
    using t c g o' sample_order_loads sample_owner_ok sample_env_ok
    by (simp add: CreateInvoiceFromOrder_def createInvoiceFromOrderConn_def in_tx_def prepareTenant_def require_eligible_def guard_def
        invoice_of_def shipped_order_def)
  then show ?thesis using that sample_uuid(2) r(2) i(1) by simp
qed

theorem invoice_issued_once_witness:
  "\<exists>v b. CreateInvoiceFromOrder sample_env ''2026-01-02'' sample_owner ''o1'' sample_sal = (Inr v, b)
     \<and> (let c = sells [sample_sale (MakeReturn (sample_return [sample_back 10000])), sample_sale (DropInvoice [])] b in
          CreateInvoiceFromOrder sample_env ''2026-01-03'' sample_owner ''o1'' c = (Inr v, c))"
proof -
  obtain v b where r: "CreateInvoiceFromOrder sample_env ''2026-01-02'' sample_owner ''o1'' sample_sal = (Inr v, b)" "in_id (iv_row v) \<noteq> []"
    by (rule sample_invoice_runs)
  have "sales_ok (spares_invoice (in_id (iv_row v))) [sample_sale (MakeReturn (sample_return [sample_back 10000])), sample_sale (DropInvoice [])] b"
    using r(2) by simp
  from invoice_issued_once[OF r(1) this sample_env_ok sample_owner_ok] r(1) show ?thesis by (auto simp: Let_def)
qed

theorem BatchCreateSalesReturns_sequential_witness:
  "\<exists>res b. BatchCreateSalesReturns sample_env (\<lambda>_. sample_env) ''2026-01-02'' sample_clock sample_owner
       [sample_return [sample_back 10000], sample_return []] sample_sal = (Inr res, b)
     \<and> br_processed res = 1 \<and> br_failed res = 1 \<and> sample_takes [10000] = (fst (sample_takes [10000]), b)"
proof -
  let ?ps = "[sample_return [sample_back 10000], sample_return []]"
  obtain v c contact cost x where "sample_takes [10000] = (Inr v, c)" by (rule sample_return_runs[of "[10000]"]) simp_all
  have o': "trim_space ''o1'' = ''o1''" by code_simp
  have conn: "createSalesReturnConn sample_env ''2026-01-02'' sample_clock (AccountID (the sample_owner)) (sample_return [sample_back 10000]) sample_sal = (Inr v, c)"
    using \<open>sample_takes [10000] = (Inr v, c)\<close> sample_owner_ok
    by (auto simp: sample_takes_def CreateSalesReturn_def res_simps try_reply_def split: sum.splits)
  have empty: "createSalesReturnConn sample_env ''2026-01-02'' sample_clock (AccountID (the sample_owner)) (sample_return []) c
      = (Inl (BadRequest ''minimal 1 baris retur''), c)"
    using o' by (simp add: createSalesReturnConn_def sample_return_def guard_def)
  have same: "(sample_return ls)\<lparr>cr_order := trim_space (cr_order (sample_return ls))\<rparr> = sample_return ls" for ls
    by (simp add: sample_return_def o')
  obtain res b where "batch_returns (\<lambda>_. sample_env) ''2026-01-02'' sample_clock (AccountID (the sample_owner)) 0 ?ps no_batch sample_sal = (res, b)"
    by (cases "batch_returns (\<lambda>_. sample_env) ''2026-01-02'' sample_clock (AccountID (the sample_owner)) 0 ?ps no_batch sample_sal")
  then have r: "BatchCreateSalesReturns sample_env (\<lambda>_. sample_env) ''2026-01-02'' sample_clock sample_owner ?ps sample_sal = (Inr res, b)"
    using sample_owner_ok sample_env_ok
    by (auto simp: BatchCreateSalesReturns_def guard_def prepareTenant_def maxBatchOrderActions_def simp del: batch_returns.simps)
  have "br_processed res = 1 \<and> br_failed res = 1 \<and> b = c"
    using BatchCreateSalesReturns_sequential[OF r sample_owner_ok(1)] conn empty by (simp add: same returns_def)
  then show ?thesis using r \<open>sample_takes [10000] = (Inr v, c)\<close> by auto
qed

end
