(* ===== verification/Orders.thy ===== *)
theory Orders
  imports Order_Tables
begin

text \<open>
  The handlers of \<open>order/order.go\<close> and \<open>order/payment_proof.go\<close> that change an order, and the draft
  repair of \<open>order/triage_repair.go\<close>. The statements of a handler run one by one and commit at once;
  the income of an order (\<open>finance/order_income.go\<close>) and its stock (\<open>inventory/order_sync.go\<close>) are
  written by calls after the row, each with its own outcome. The Firestore mirror and the audit log
  are not modelled.
\<close>

section \<open>Calls into the other modules\<close>

definition getSalesUser :: "AuthUser option \<Rightarrow> AuthUser res" where
  "getSalesUser u = (case u of
       None \<Rightarrow> Inl (Unauthenticated ''missing auth data'')
     | Some v \<Rightarrow>
         if \<not> HasEffectiveTenantContext u
         then Inl (Forbidden (''tenant context required '' @ [CHR 0xE2, CHR 0x80, CHR 0x94] @ '' pantau tenant dari konsol admin''))
         else ebind (RequireModule u ''sales'') (\<lambda>_. Inr v))"

definition validOrderStatuses :: "string list" where
  "validOrderStatuses = [''draft'', ''processing'', ''shipped'', ''completed'', ''cancelled'', ''confirmed'', ''paid'']"

definition in_tenant :: "tenant_db out \<Rightarrow> order_db \<Rightarrow> order_db out" where
  "in_tenant r db = (case r of (e, t) \<Rightarrow> (e, db\<lparr>ot := t\<rparr>))"

definition in_books :: "fin_db out \<Rightarrow> order_db \<Rightarrow> order_db out" where
  "in_books r db = (case r of (e, fd) \<Rightarrow> (e, set_ofin fd db))"

definition period_open :: "req \<Rightarrow> nat \<Rightarrow> order_db \<Rightarrow> unit res" where
  "period_open R n db = CheckCurrentPeriodUnlocked (rq_env R n) (ck_period (rq_clock R n)) (ck_today (rq_clock R n)) (fin (ot db))"

definition precheck :: "req \<Rightarrow> nat \<Rightarrow> string \<Rightarrow> OrderItem list \<Rightarrow> order_db \<Rightarrow> unit res" where
  "precheck R n orderID items db = PrecheckOrderStock (rq_env R n) (rq_ord R n) orderID (orderStockItems items) (ot db)"

definition sync_stock :: "req \<Rightarrow> nat \<Rightarrow> AuthUser \<Rightarrow> string \<Rightarrow> string \<Rightarrow> OrderItem list \<Rightarrow> order_db \<Rightarrow> order_db out" where
  "sync_stock R n v orderID status items db = in_tenant (SyncOrderStock (rq_env R n) (ck_period (rq_clock R n))
     (ck_today (rq_clock R n)) (rq_ord R n) orderID status (orderStockItems items) (AccountID v) (ot db)) db"

definition record_income :: "req \<Rightarrow> nat \<Rightarrow> AuthUser \<Rightarrow> Order \<Rightarrow> order_db \<Rightarrow> order_db out" where
  "record_income R n v od db = in_books (RecordOrderCompletedIncome (rq_env R n) (ck_period (rq_clock R n))
     (ck_today (rq_clock R n)) (AccountID v) (o_id od) (o_total od) (o_wallet od) (fin (ot db))) db"

definition resync_income :: "req \<Rightarrow> nat \<Rightarrow> AuthUser \<Rightarrow> Order \<Rightarrow> order_db \<Rightarrow> order_db out" where
  "resync_income R n v od db = in_books (ResyncOrderCompletedIncome (rq_env R n) (ck_period (rq_clock R n))
     (ck_today (rq_clock R n)) (AccountID v) (o_id od) (o_total od) (o_wallet od) (fin (ot db))) db"

definition remove_income :: "req \<Rightarrow> nat \<Rightarrow> string \<Rightarrow> order_db \<Rightarrow> order_db out" where
  "remove_income R n orderID db = try_out db (RemoveOrderIncomeTransaction (rq_env R n) orderID (fin (ot db)))
     (\<lambda>fd. (None, set_ofin fd db))"

definition loadOrderItems :: "env \<Rightarrow> order_db \<Rightarrow> string \<Rightarrow> OrderItem list res" where
  "loadOrderItems E db orderID = (if db_fails E ''order.items'' then Inl (NotFound ''order not found'')
     else case find_order db orderID of None \<Rightarrow> Inl (NotFound ''order not found'') | Some r \<Rightarrow> Inr (od_items r))"

definition loadOrderByID :: "env \<Rightarrow> order_db \<Rightarrow> string \<Rightarrow> Order res" where
  "loadOrderByID E db orderID = (if db_fails E ''order.load'' then Inl (NotFound ''order not found'')
     else case find_order db orderID of None \<Rightarrow> Inl (NotFound ''order not found'') | Some r \<Rightarrow> Inr (scanOrder db r))"

section \<open>Create\<close>

record CreateOrderParams =
  cp_conv :: string
  cp_contact :: string
  cp_items :: "OrderItem list"
  cp_addr :: "ShippingAddress option"
  cp_notes :: string
  cp_status :: string
  cp_tracking :: string
  cp_courier :: string
  cp_shipping :: f64
  cp_wallet :: string

definition insert_order ::
  "env \<Rightarrow> AuthUser \<Rightarrow> CreateOrderParams \<Rightarrow> string \<Rightarrow> OrderItem list \<Rightarrow> order_db \<Rightarrow> order_rec \<times> order_db"
where
  "insert_order E v p status items db =
     (let i = db_uuid E (ord_next db); subtotal = items_subtotal items;
          r = \<lparr>od_id = i, od_conv = nullUUID (cp_conv p), od_contact = nullUUID (cp_contact p), od_items = items,
            od_addr = cp_addr p, od_notes = cp_notes p, od_status = status, od_tracking = trim_space (cp_tracking p),
            od_courier = trim_space (cp_courier p), od_payment = None, od_paystatus = ''unpaid'', od_proof = None,
            od_submitted = None, od_verified = None, od_verifier = None, od_meta = no_meta,
            od_subtotal = db_numeric E subtotal, od_shipping = db_numeric E (cp_shipping p),
            od_total = db_numeric E (fl (subtotal + cp_shipping p)), od_by = AccountID v, od_created = db_now E,
            od_updated = db_now E, od_deleted = None\<rparr>
      in (r, db\<lparr>orders := orders db @ [r], ord_next := Suc (ord_next db),
        ot := (ot db)\<lparr>order_rows := (order_rows (ot db))(i \<mapsto> \<lparr>or_applied = None, or_wallet = nullUUID (cp_wallet p)\<rparr>)\<rparr>\<rparr>))"

definition create_status :: "CreateOrderParams \<Rightarrow> string" where
  "create_status p = (let status = norm_key (cp_status p) in if status = [] then ''draft'' else status)"

definition Create :: "req \<Rightarrow> AuthUser option \<Rightarrow> CreateOrderParams \<Rightarrow> order_db \<Rightarrow> (Order, order_db) reply" where
  "Create R u p db =
     try_reply db (getSalesUser u) (\<lambda>v.
     try_reply db (guard (cp_items p \<noteq> []) (BadRequest ''items are required'')) (\<lambda>_.
     reply_bind (normalizeOrderItems R (rq_env R 0) (trim_space (cp_contact p)) (cp_items p) db) (\<lambda>items db1.
     let status = create_status p in
     try_reply db1 (guard (status \<in> set validOrderStatuses) (BadRequest ''invalid order status'')) (\<lambda>_.
     try_reply db1 (guard (\<not> cp_shipping p < 0) (BadRequest ''shipping cost cannot be negative'')) (\<lambda>_.
     try_reply db1 (if status = ''completed'' then period_open R 1 db1 else Inr ()) (\<lambda>_.
     try_reply db1 (ValidateIncomeWallet (rq_env R 2) (fin (ot db1)) (cp_wallet p)) (\<lambda>_.
     try_reply db1 (if IsCommittedOrderStatus status then precheck R 3 [] items db1 else Inr ()) (\<lambda>_.
     in_tx db1 (sql_wrap (rq_env R 4) ''order.insert'' ''create order: %w''
         (Some (insert_order (rq_env R 4) v p status items db1))) (\<lambda>r db2.
     let od = scanOrder db2 r in
     then_out (if status = ''completed'' then record_income R 5 v od db2 else (None, db2)) (\<lambda>db3.
     then_out (sync_stock R 6 v (o_id od) (o_status od) (o_items od) db3) (\<lambda>db4.
     (Inr od, db4))))))))))))"

section \<open>Update\<close>

record UpdateOrderParams =
  up_contact :: "string option"
  up_items :: "OrderItem list"
  up_notes :: "string option"
  up_status :: "string option"
  up_tracking :: "string option"
  up_courier :: "string option"
  up_payment :: "string option"
  up_shipping :: "f64 option"
  up_wallet :: "string option"

definition shouldResyncCompletedOrderIncome :: "string \<Rightarrow> string \<Rightarrow> bool \<Rightarrow> bool \<Rightarrow> bool \<Rightarrow> bool" where
  "shouldResyncCompletedOrderIncome newStatus orderStatus subtotalUpdated shippingUpdated walletUpdated =
     (if newStatus \<noteq> [] then False
      else if orderStatus \<noteq> ''completed'' then False
      else subtotalUpdated \<or> shippingUpdated \<or> walletUpdated)"

text \<open>The contact whose price type applies; an error of the lookup is ignored.\<close>

definition update_contact :: "env \<Rightarrow> string \<Rightarrow> UpdateOrderParams \<Rightarrow> order_db \<Rightarrow> string" where
  "update_contact E orderID q db = (case up_contact q of
       Some c \<Rightarrow> trim_space c
     | None \<Rightarrow> if db_fails E ''order.contact'' then []
         else case find_order db orderID of None \<Rightarrow> [] | Some r \<Rightarrow> opt_text (od_contact r))"

definition set_if :: "'a option \<Rightarrow> ('a \<Rightarrow> 's \<Rightarrow> 's) \<Rightarrow> 's \<Rightarrow> 's" where
  "set_if v f s = (case v of None \<Rightarrow> s | Some x \<Rightarrow> f x s)"

text \<open>
  The \<open>SET\<close> list. The right-hand sides read the row as it was, so the sum of a new subtotal and the
  stored shipping cost, or the other way round, is taken from the old columns.
\<close>

definition new_total :: "env \<Rightarrow> f64 option \<Rightarrow> f64 option \<Rightarrow> order_rec \<Rightarrow> int" where
  "new_total E subtotal shipping r = (case (subtotal, shipping) of
       (Some s, Some c) \<Rightarrow> db_numeric E (fl (s + c))
     | (Some s, None) \<Rightarrow> db_plus E (od_shipping r) s
     | (None, Some c) \<Rightarrow> db_plus E (od_subtotal r) c
     | (None, None) \<Rightarrow> od_total r)"

definition apply_update :: "env \<Rightarrow> UpdateOrderParams \<Rightarrow> OrderItem list option \<Rightarrow> string \<Rightarrow> order_rec \<Rightarrow> order_rec" where
  "apply_update E q items newStatus r =
     (let subtotal = map_option items_subtotal items; total = new_total E subtotal (up_shipping q) r in
      (set_if (up_contact q) (\<lambda>c. od_contact_update (\<lambda>_. nullUUID c))
      (set_if (up_notes q) (\<lambda>n. od_notes_update (\<lambda>_. trim_space n))
      (set_if items (\<lambda>is. od_items_update (\<lambda>_. is))
      (set_if subtotal (\<lambda>s. od_subtotal_update (\<lambda>_. db_numeric E s))
      (set_if (up_tracking q) (\<lambda>t. od_tracking_update (\<lambda>_. t))
      (set_if (up_courier q) (\<lambda>c. od_courier_update (\<lambda>_. c))
      (set_if (up_payment q) (\<lambda>t. od_payment_update (\<lambda>_. Some t))
      (set_if (up_shipping q) (\<lambda>c. od_shipping_update (\<lambda>_. db_numeric E c))
      (r\<lparr>od_status := (if newStatus = [] then od_status r else newStatus), od_total := total,
         od_updated := db_now E\<rparr>))))))))))"

definition no_update :: "UpdateOrderParams \<Rightarrow> bool" where
  "no_update q \<longleftrightarrow> up_contact q = None \<and> up_items q = [] \<and> up_notes q = None \<and> up_status q = None
     \<and> up_tracking q = None \<and> up_courier q = None \<and> up_payment q = None \<and> up_shipping q = None \<and> up_wallet q = None"

definition write_order ::
  "env \<Rightarrow> string \<Rightarrow> string \<Rightarrow> string \<Rightarrow> (order_rec \<Rightarrow> order_rec) \<Rightarrow> string option option \<Rightarrow> order_db \<Rightarrow> (Order \<times> order_db) res"
where
  "write_order E stmt msg orderID f wallet db =
     sql_wrap E stmt msg (case find_order db orderID of
         None \<Rightarrow> None
       | Some r \<Rightarrow> let db' = set_if wallet (set_wallet orderID) (update_order orderID f db) in Some (scanOrder db' (f r), db'))"

definition Update :: "req \<Rightarrow> AuthUser option \<Rightarrow> string \<Rightarrow> UpdateOrderParams \<Rightarrow> order_db \<Rightarrow> (Order, order_db) reply" where
  "Update R u orderID q db =
     try_reply db (getSalesUser u) (\<lambda>v.
     try_reply db (requireOwner v) (\<lambda>_.
     reply_bind (if up_items q \<noteq> []
         then (case normalizeOrderItems R (rq_env R 0) (update_contact (rq_env R 0) orderID q db) (up_items q) db of
                 (Inl e, db1) \<Rightarrow> (Inl e, db1) | (Inr is, db1) \<Rightarrow> (Inr (Some is), db1))
         else (Inr None, db)) (\<lambda>items db1.
     let newStatus = (case up_status q of None \<Rightarrow> [] | Some s \<Rightarrow> norm_key s) in
     try_reply db1 (guard (up_status q \<noteq> None \<longrightarrow> newStatus \<in> set validOrderStatuses) (BadRequest ''invalid order status'')) (\<lambda>_.
     try_reply db1 (case up_wallet q of None \<Rightarrow> Inr () | Some w \<Rightarrow> ValidateIncomeWallet (rq_env R 1) (fin (ot db1)) w) (\<lambda>_.
     try_reply db1 (guard (\<not> no_update q) (BadRequest ''no fields to update'')) (\<lambda>_.
     try_reply db1 (if newStatus = ''completed'' then period_open R 2 db1 else Inr ()) (\<lambda>_.
     try_reply db1 (if IsCommittedOrderStatus newStatus
         then ebind (case items of Some is \<Rightarrow> Inr is | None \<Rightarrow> loadOrderItems (rq_env R 3) db1 orderID) (\<lambda>is.
              precheck R 4 orderID is db1)
         else Inr ()) (\<lambda>_.
     in_tx db1 (write_order (rq_env R 5) ''order.update'' ''update order: %w'' orderID
         (apply_update (rq_env R 5) q items newStatus) (map_option nullUUID (up_wallet q)) db1) (\<lambda>od db2.
     then_out (if newStatus = ''completed'' then resync_income R 6 v od db2
               else if newStatus = ''draft'' \<or> newStatus = ''cancelled'' then remove_income R 6 (o_id od) db2
               else if shouldResyncCompletedOrderIncome newStatus (o_status od) (items \<noteq> None)
                         (up_shipping q \<noteq> None) (up_wallet q \<noteq> None) then resync_income R 6 v od db2
               else (None, db2)) (\<lambda>db3.
     then_out (if newStatus \<noteq> [] \<or> up_items q \<noteq> [] then sync_stock R 7 v (o_id od) (o_status od) (o_items od) db3
               else (None, db3)) (\<lambda>db4.
     (Inr od, db4))))))))))))"

section \<open>Cancel and delete\<close>

definition Cancel :: "req \<Rightarrow> AuthUser option \<Rightarrow> string \<Rightarrow> order_db \<Rightarrow> (Order, order_db) reply" where
  "Cancel R u orderID db =
     try_reply db (getSalesUser u) (\<lambda>v.
     try_reply db (requireOwner v) (\<lambda>_.
     try_reply db (guard (\<not> db_fails (rq_env R 0) ''order.status'' \<and> find_order db orderID \<noteq> None)
         (NotFound ''order not found'')) (\<lambda>_.
     in_tx db (write_order (rq_env R 1) ''order.cancel'' ''cancel order: %w'' orderID
         (\<lambda>r. r\<lparr>od_status := ''cancelled'', od_updated := db_now (rq_env R 1)\<rparr>) None db) (\<lambda>od db1.
     then_out (remove_income R 2 (o_id od) db1) (\<lambda>db2.
     then_out (sync_stock R 3 v (o_id od) ''cancelled'' (o_items od) db2) (\<lambda>db3.
     (Inr od, db3)))))))"

text \<open>The items are loaded for the restore; an order that cannot be loaded is left to the last statement.\<close>

definition restore_stock :: "req \<Rightarrow> nat \<Rightarrow> AuthUser \<Rightarrow> string \<Rightarrow> order_db \<Rightarrow> order_db out" where
  "restore_stock R n v orderID db = (case loadOrderItems (rq_env R n) db orderID of
       Inl e \<Rightarrow> (None, db)
     | Inr items \<Rightarrow> sync_stock R (Suc n) v orderID ''cancelled'' items db)"

definition mark_deleted :: "env \<Rightarrow> AuthUser \<Rightarrow> string list \<Rightarrow> order_db \<Rightarrow> nat \<times> order_db" where
  "mark_deleted E v ids db =
     (length [r \<leftarrow> orders db. od_id r \<in> set ids \<and> od_deleted r = None],
      db\<lparr>orders := map (\<lambda>r. if od_id r \<in> set ids \<and> od_deleted r = None
        then r\<lparr>od_deleted := Some (db_now E, AccountID v), od_updated := db_now E\<rparr> else r) (orders db)\<rparr>)"

definition Delete :: "req \<Rightarrow> AuthUser option \<Rightarrow> string \<Rightarrow> order_db \<Rightarrow> (unit, order_db) reply" where
  "Delete R u orderID db =
     try_reply db (getSalesUser u) (\<lambda>v.
     try_reply db (requireOwner v) (\<lambda>_.
     then_out (remove_income R 0 orderID db) (\<lambda>db1.
     then_out (restore_stock R 1 v orderID db1) (\<lambda>db2.
     in_tx db2 (sql_wrap (rq_env R 3) ''order.delete'' ''delete order: %w''
         (Some (mark_deleted (rq_env R 3) v [orderID] db2))) (\<lambda>n db3.
     if n = 0 then (Inl (NotFound ''order not found''), db3) else (Inr (), db3))))))"

fun delete_each :: "req \<Rightarrow> nat \<Rightarrow> AuthUser \<Rightarrow> string list \<Rightarrow> order_db \<Rightarrow> order_db out" where
  "delete_each R n v [] db = (None, db)"
| "delete_each R n v (i # is) db =
     seq_out (restore_stock R n v i db) (\<lambda>db1.
     seq_out (remove_income R (n + 2) i db1) (delete_each R (n + 3) v is))"

definition BatchDelete :: "req \<Rightarrow> AuthUser option \<Rightarrow> string list \<Rightarrow> order_db \<Rightarrow> (nat, order_db) reply" where
  "BatchDelete R u ids db =
     try_reply db (getSalesUser u) (\<lambda>v.
     try_reply db (requireOwner v) (\<lambda>_.
     try_reply db (guard (batchIDs ids \<noteq> []) (BadRequest ''ids are required'')) (\<lambda>_.
     try_reply db (sql_wrap (rq_env R 0) ''orders.select'' ''batch delete orders: %w''
         (Some (map od_id (rq_scan R [r \<leftarrow> orders db. od_id r \<in> set (batchIDs ids) \<and> od_deleted r = None])))) (\<lambda>found.
     then_out (delete_each R 2 v found db) (\<lambda>db1.
     if batchIDs found = [] then (Inr 0, db1)
     else in_tx db1 (sql_wrap (rq_env R 1) ''orders.delete'' ''batch delete orders: %w''
            (Some (mark_deleted (rq_env R 1) v (batchIDs found) db1))) (\<lambda>n db2. (Inr n, db2)))))))"

section \<open>Status of many orders\<close>

definition shouldPrecheckBatchStockTransition :: "string \<Rightarrow> string \<Rightarrow> bool" where
  "shouldPrecheckBatchStockTransition target current \<longleftrightarrow> IsCommittedOrderStatus target \<and> \<not> IsCommittedOrderStatus current"

definition batch_target :: "string \<Rightarrow> string list \<Rightarrow> order_rec \<Rightarrow> bool" where
  "batch_target status ids r \<longleftrightarrow> od_id r \<in> set ids \<and> od_deleted r = None
     \<and> (status = ''completed'' \<longrightarrow> od_status r \<noteq> ''completed'')"

fun precheck_each :: "req \<Rightarrow> nat \<Rightarrow> string \<Rightarrow> order_rec list \<Rightarrow> order_db \<Rightarrow> unit res" where
  "precheck_each R n status [] db = Inr ()"
| "precheck_each R n status (r # rs) db =
     ebind (if shouldPrecheckBatchStockTransition status (od_status r) then precheck R n (od_id r) (od_items r) db else Inr ())
       (\<lambda>_. precheck_each R (Suc n) status rs db)"

definition batch_write :: "env \<Rightarrow> string \<Rightarrow> string list \<Rightarrow> order_db \<Rightarrow> order_db" where
  "batch_write E status ids db = db\<lparr>orders := map (\<lambda>r. if batch_target status ids r
     then r\<lparr>od_status := status, od_updated := db_now E\<rparr> else r) (orders db)\<rparr>"

fun batch_effects :: "req \<Rightarrow> nat \<Rightarrow> AuthUser \<Rightarrow> string \<Rightarrow> Order list \<Rightarrow> order_db \<Rightarrow> order_db out" where
  "batch_effects R n v status [] db = (None, db)"
| "batch_effects R n v status (od # os) db =
     seq_out (if status = ''completed'' then record_income R n v od db
              else if status = ''draft'' \<or> status = ''cancelled'' then remove_income R n (o_id od) db
              else (None, db)) (\<lambda>db1.
     seq_out (sync_stock R (Suc n) v (o_id od) (o_status od) (o_items od) db1)
       (batch_effects R (n + 2) v status os))"

definition BatchUpdateStatus :: "req \<Rightarrow> AuthUser option \<Rightarrow> string list \<Rightarrow> string \<Rightarrow> order_db \<Rightarrow> (nat, order_db) reply" where
  "BatchUpdateStatus R u ids st db =
     try_reply db (getSalesUser u) (\<lambda>v.
     try_reply db (requireOwner v) (\<lambda>_.
     try_reply db (guard (ids \<noteq> []) (BadRequest ''ids are required'')) (\<lambda>_.
     let status = norm_key st; targets = batchIDs ids in
     try_reply db (guard (status \<in> set validOrderStatuses) (BadRequest ''invalid order status'')) (\<lambda>_.
     try_reply db (guard (targets \<noteq> []) (BadRequest ''ids are required'')) (\<lambda>_.
     try_reply db (if status = ''completed'' then period_open R 0 db else Inr ()) (\<lambda>_.
     try_reply db (sql_wrap (rq_env R 1) ''orders.pending'' ''batch load orders: %w''
         (Some (rq_scan R [r \<leftarrow> orders db. batch_target status targets r]))) (\<lambda>pending.
     try_reply db (if IsCommittedOrderStatus status then precheck_each R 3 status pending db else Inr ()) (\<lambda>_.
     try_reply db (sql_wrap (rq_env R 2) ''orders.update'' ''batch update order status: %w''
         (Some (batch_write (rq_env R 2) status targets db))) (\<lambda>db1.
     let changed = [r\<lparr>od_status := status, od_updated := db_now (rq_env R 2)\<rparr>. r \<leftarrow> orders db, batch_target status targets r];
         os = map (scanOrder db1) (rq_scan R changed) in
     then_out (batch_effects R (3 + length pending) v status os db1) (\<lambda>db2. (Inr (length os), db2)))))))))))"

section \<open>Payment proofs (payment_proof.go)\<close>

definition add_message :: "string \<Rightarrow> string \<Rightarrow> order_db \<Rightarrow> order_db" where
  "add_message conv body db = db\<lparr>msgs := msgs db @ [(conv, body)]\<rparr>"

definition VerifyPaymentProof :: "req \<Rightarrow> AuthUser option \<Rightarrow> string \<Rightarrow> order_db \<Rightarrow> (Order, order_db) reply" where
  "VerifyPaymentProof R u orderID db =
     try_reply db (getSalesUser u) (\<lambda>v.
     try_reply db (requireOwner v) (\<lambda>_.
     try_reply db (if db_fails (rq_env R 0) ''order.status'' then Inl (NotFound ''order not found'')
         else case find_order db orderID of None \<Rightarrow> Inl (NotFound ''order not found'') | Some r \<Rightarrow> Inr r) (\<lambda>r.
     try_reply db (guard (od_paystatus r \<noteq> ''verified'') (BadRequest ''payment already verified'')) (\<lambda>_.
     try_reply db (guard (od_paystatus r \<in> {''proof_submitted'', ''rejected'', ''unpaid''})
         (BadRequest ''order tidak memiliki bukti transfer yang bisa diverifikasi'')) (\<lambda>_.
     let current = od_status r;
         starts = current \<in> {''draft'', ''confirmed'', ''paid''};
         newStatus = (if starts then ''processing'' else current) in
     try_reply db (if starts then ebind (loadOrderItems (rq_env R 1) db orderID) (\<lambda>is. precheck R 2 orderID is db)
         else Inr ()) (\<lambda>_.
     in_tx db (write_order (rq_env R 3) ''order.verify'' ''verify payment proof: %w'' orderID
         (\<lambda>r. r\<lparr>od_paystatus := ''verified'', od_status := newStatus, od_verified := Some (db_now (rq_env R 3)),
           od_verifier := Some (AccountID v), od_updated := db_now (rq_env R 3)\<rparr>) None db) (\<lambda>od db1.
     then_out (if newStatus = ''processing'' \<and> newStatus \<noteq> current
         then sync_stock R 4 v (o_id od) (o_status od) (o_items od) db1 else (None, db1)) (\<lambda>db2.
     (Inr od, if o_conv od \<noteq> [] \<and> \<not> db_fails (rq_env R 5) ''message.insert''
        then add_message (o_conv od) (''Pembayaran pesanan '' @ FormatOrderNumber (o_id od)
               @ '' terverifikasi. Pesanan sedang diproses.'') db2 else db2)))))))))"

definition RejectPaymentProof ::
  "req \<Rightarrow> AuthUser option \<Rightarrow> string \<Rightarrow> string option \<Rightarrow> order_db \<Rightarrow> (Order, order_db) reply"
where
  "RejectPaymentProof R u orderID reason db =
     try_reply db (getSalesUser u) (\<lambda>v.
     try_reply db (requireOwner v) (\<lambda>_.
     try_reply db (if db_fails (rq_env R 0) ''order.proof'' then Inl (NotFound ''order not found'')
         else case find_order db orderID of None \<Rightarrow> Inl (NotFound ''order not found'') | Some r \<Rightarrow> Inr r) (\<lambda>r.
     try_reply db (guard (od_paystatus r \<noteq> ''verified'') (BadRequest ''payment already verified'')) (\<lambda>_.
     let meta = set_if reason (\<lambda>x m. m\<lparr>pm_reason := trim_space x\<rparr>) (od_meta r);
         meta = IncrementPaymentRejection meta in
     in_tx db (write_order (rq_env R 1) ''order.reject'' ''reject payment proof: %w'' orderID
         (\<lambda>r. r\<lparr>od_paystatus := ''rejected'', od_meta := meta, od_updated := db_now (rq_env R 1)\<rparr>) None db) (\<lambda>od db1.
     (Inr od, db1))))))"

text \<open>
  \<open>sendPaymentProofConversationMessage\<close> looks up the conversation's channel and hands the text to
  WhatsApp; \<open>sent\<close> says whether that and the insert of the message succeed. Its error is ignored.
\<close>

definition UnblockPaymentProof ::
  "req \<Rightarrow> bool \<Rightarrow> AuthUser option \<Rightarrow> string \<Rightarrow> order_db \<Rightarrow> (Order, order_db) reply"
where
  "UnblockPaymentProof R sent u orderID db =
     try_reply db (getSalesUser u) (\<lambda>v.
     try_reply db (requireOwner v) (\<lambda>_.
     try_reply db (if db_fails (rq_env R 0) ''order.proof'' then Inl (NotFound ''order not found'')
         else case find_order db orderID of None \<Rightarrow> Inl (NotFound ''order not found'') | Some r \<Rightarrow> Inr r) (\<lambda>r.
     try_reply db (guard (od_paystatus r \<noteq> ''verified'') (BadRequest ''payment already verified'')) (\<lambda>_.
     try_reply db (guard (IsPaymentProofBlocked (od_meta r)) (BadRequest ''pesanan tidak dalam status batas bukti transfer'')) (\<lambda>_.
     let meta = ResetPaymentProofBlock (od_meta r); conversationID = opt_text (od_conv r) in
     in_tx db (write_order (rq_env R 1) ''order.unblock'' ''unblock payment proof: %w'' orderID
         (\<lambda>r. r\<lparr>od_meta := meta, od_updated := db_now (rq_env R 1)\<rparr>) None db) (\<lambda>od db1.
     (Inr od, if conversationID \<noteq> [] \<and> sent
        then add_message conversationID (''Admin sudah membuka batas upload bukti untuk pesanan ''
               @ FormatOrderNumber (o_id od) @ ''. Silakan kirim bukti transfer yang benar ya kak.'') db1
        else db1)))))))"

section \<open>Draft repair (triage_repair.go)\<close>

record TriageDraftRepairParams =
  tr_schema :: string
  tr_order :: string
  tr_conv :: string
  tr_session :: string
  tr_op :: string
  tr_items :: "OrderItem list"
  tr_expected :: string

record TriageDraftRepairResult =
  tq_blocked :: bool
  tq_reasons :: "string list"
  tq_before :: string
  tq_after :: string

definition ValidOps :: "string list" where
  "ValidOps = [''draft_items_replace'', ''draft_items_merge'', ''catalog_field_patch'', ''kb_answer_patch'',
     ''business_profile_patch'', ''outbound_correction_proposal'']"

definition ValidOperation :: "string \<Rightarrow> bool" where
  "ValidOperation op = (trim_space op \<in> set ValidOps)"

definition eligibilityReasons :: "order_rec \<Rightarrow> TriageDraftRepairParams \<Rightarrow> string list" where
  "eligibilityReasons r p =
     (if od_deleted r \<noteq> None then [''not_draft_unpaid''] else [])
     @ (if od_status r \<noteq> ''draft'' \<or> od_paystatus r \<noteq> ''unpaid'' then [''not_draft_unpaid''] else [])
     @ (if od_status r \<in> {''processing'', ''confirmed'', ''paid'', ''shipped'', ''completed'', ''cancelled''}
        then [''stock_sensitive''] else [])
     @ (if opt_text (od_payment r) \<noteq> [] \<or> opt_text (od_proof r) \<noteq> [] then [''payment_in_flight''] else [])
     @ (if od_tracking r \<noteq> [] then [''stock_sensitive''] else [])
     @ (let conv = trim_space (tr_conv p) in
        if conv \<noteq> [] \<and> opt_text (od_conv r) \<noteq> [] \<and> opt_text (od_conv r) \<noteq> conv then [''identity_anchor_mismatch''] else [])
     @ (if trim_space (tr_session p) \<noteq> [] then [''identity_anchor_mismatch''] else [])
     @ (if trim_space (tr_order p) = [] then [''cart_not_persisted''] else [])"

text \<open>The first line with the same catalog item takes the quantity.\<close>

fun merge_one :: "OrderItem \<Rightarrow> OrderItem list \<Rightarrow> OrderItem list" where
  "merge_one new [] = [new]"
| "merge_one new (ex # out) =
     (if it_item ex \<noteq> [] \<and> it_item ex = it_item new then ex\<lparr>it_qty := fl (it_qty ex + it_qty new)\<rparr> # out
      else ex # merge_one new out)"

definition mergeOrderItems :: "OrderItem list \<Rightarrow> OrderItem list \<Rightarrow> OrderItem list" where
  "mergeOrderItems existing incoming = fold merge_one incoming existing"

text \<open>
  \<open>stored_hash\<close> and \<open>fresh_hash\<close> are SHA-256 of the lines' text as the database prints it and as
  \<open>json.Marshal\<close> writes it.
\<close>

definition runTriageDraftRepair ::
  "(OrderItem list \<Rightarrow> string) \<Rightarrow> (OrderItem list \<Rightarrow> string) \<Rightarrow> req \<Rightarrow> TriageDraftRepairParams \<Rightarrow> bool \<Rightarrow> order_db
    \<Rightarrow> (TriageDraftRepairResult, order_db) reply"
where
  "runTriageDraftRepair stored_hash fresh_hash R p apply_it db =
     (let orderID = trim_space (tr_order p); E = rq_env R 0 in
      try_reply db (guard (trim_space (tr_schema p) \<noteq> [] \<and> orderID \<noteq> [])
          (BadRequest ''tenantSchema and orderId required'')) (\<lambda>_.
      try_reply db (guard (ValidOperation (tr_op p) \<and> (tr_op p = ''draft_items_replace'' \<or> tr_op p = ''draft_items_merge''))
          (BadRequest ''operation tidak diizinkan'')) (\<lambda>_.
      try_reply db (sql_raw E ''order.triage'' (case find (\<lambda>r. od_id r = orderID) (orders db) of
          None \<Rightarrow> Inl (NotFound ''order tidak ditemukan'') | Some r \<Rightarrow> Inr r)) (\<lambda>r.
      let reasons = eligibilityReasons r p; before = stored_hash (od_items r);
          res = \<lparr>tq_blocked = reasons \<noteq> [], tq_reasons = reasons, tq_before = before, tq_after = []\<rparr> in
      if reasons \<noteq> [] then (Inr res, db)
      else if tr_expected p \<noteq> [] \<and> tr_expected p \<noteq> before
      then (Inr (res\<lparr>tq_blocked := True, tq_reasons := [''stale_hash'']\<rparr>), db)
      else reply_bind (normalizeOrderItems R (rq_env R 1) (opt_text (od_contact r)) (tr_items p) db) (\<lambda>items db1.
        let items = (if tr_op p = ''draft_items_merge'' then mergeOrderItems (od_items r) items else items);
            res = res\<lparr>tq_after := fresh_hash items\<rparr>; E2 = rq_env R 2; s = items_subtotal items in
        if \<not> apply_it then (Inr res, db1)
        else try_reply db1 (sql_raw E2 ''order.repair'' (Inr ())) (\<lambda>_.
          (Inr res, update_order orderID (\<lambda>r. if od_status r = ''draft'' \<and> od_paystatus r = ''unpaid''
             then r\<lparr>od_items := items, od_subtotal := db_numeric E2 s, od_total := db_plus E2 (od_shipping r) s,
                    od_updated := db_now E2\<rparr> else r) db1)))))))"

end
