(* ===== verification/Order_Approve.thy ===== *)
theory Order_Approve
  imports Orders
begin

text \<open>
  The owner's approval of an order: \<open>internal/orderapprove\<close> (the decision table, the transaction over
  the \<open>Store\<close> interface, the stock marker over the \<open>StockStore\<close> interface) and \<open>order/approve.go\<close>, which
  implements the two interfaces on the tenant's tables and is the handler.

  An interface is a record of functions on a state of the implementation's own. A method that
  changes the state returns an error, if any, and the state it leaves.
\<close>

section \<open>The decision (orderapprove/approve.go)\<close>

record State =
  sa_status :: string
  sa_payment :: string
  sa_proof_msg :: string
  sa_has_meta :: bool
  sa_blocked :: bool

datatype Decision = Proceed | AlreadyDone | Reject

text \<open>A client error with its kind, the two sentinel errors, and any other error.\<close>

datatype run_error = ClientError string string | ErrNotFound | ErrStaleRow | Failed app_error

definition ErrNoProof :: run_error where
  "ErrNoProof = ClientError ''unprocessable'' ''pesanan belum memiliki bukti pembayaran''"
definition ErrCancelled :: run_error where
  "ErrCancelled = ClientError ''conflict'' ''pesanan sudah dibatalkan''"
definition ErrBlocked :: run_error where
  "ErrBlocked = ClientError ''conflict'' ''bukti pembayaran diblokir; buka blokir dulu''"
definition ErrDraft :: run_error where
  "ErrDraft = ClientError ''conflict'' ''pesanan masih draft; konfirmasi pesanan dulu''"
definition ErrStale :: run_error where
  "ErrStale = ClientError ''conflict'' ''pesanan berubah, muat ulang''"

lemmas client_errors = ErrNoProof_def ErrCancelled_def ErrBlocked_def ErrDraft_def ErrStale_def

definition Decide :: "State \<Rightarrow> Decision \<times> run_error option" where
  "Decide s =
     (let status = norm_key (sa_status s); pay = norm_key (sa_payment s) in
      if status = ''completed'' then (AlreadyDone, None)
      else if status = ''cancelled'' then (Reject, Some ErrCancelled)
      else if sa_blocked s then (Reject, Some ErrBlocked)
      else let hasProof = pay = ''verified'' \<or> pay = ''proof_submitted'' \<or> trim_space (sa_proof_msg s) \<noteq> [] \<or> sa_has_meta s in
        if \<not> hasProof then (Reject, Some ErrNoProof)
        else if status = ''draft'' \<and> pay \<noteq> ''verified'' \<and> pay \<noteq> ''proof_submitted'' then (Reject, Some ErrDraft)
        else (Proceed, None))"

section \<open>The transaction\<close>

record 's Store =
  LockOrder :: "'s \<Rightarrow> (run_error + State option) \<times> 's"
  CompleteVerified :: "'s \<Rightarrow> run_error option \<times> 's"
  RecordIncome :: "'s \<Rightarrow> run_error option \<times> 's"
  NotifyBuyer :: "'s \<Rightarrow> run_error option \<times> 's"
  Commit :: "'s \<Rightarrow> run_error option \<times> 's"
  Rollback :: "'s \<Rightarrow> 's"

record Result =
  rs_decision :: Decision
  rs_prev :: State

text \<open>The next call, or the deferred rollback and the error.\<close>

definition or_rollback ::
  "'s Store \<Rightarrow> run_error option \<times> 's \<Rightarrow> ('s \<Rightarrow> (run_error + 'a) \<times> 's) \<Rightarrow> (run_error + 'a) \<times> 's"
where
  "or_rollback S r f = (case r of (Some e, s) \<Rightarrow> (Inl e, Rollback S s) | (None, s) \<Rightarrow> f s)"

definition stale_to_client :: "run_error option \<times> 's \<Rightarrow> run_error option \<times> 's" where
  "stale_to_client r = (case r of (Some ErrStaleRow, s) \<Rightarrow> (Some ErrStale, s) | _ \<Rightarrow> r)"

definition Run :: "'s Store \<Rightarrow> 's \<Rightarrow> (run_error + Result) \<times> 's" where
  "Run S s = (case LockOrder S s of
       (Inl e, s1) \<Rightarrow> (Inl e, Rollback S s1)
     | (Inr None, s1) \<Rightarrow> (Inl ErrNotFound, Rollback S s1)
     | (Inr (Some st), s1) \<Rightarrow> (case Decide st of
           (AlreadyDone, _) \<Rightarrow> (Inr \<lparr>rs_decision = AlreadyDone, rs_prev = st\<rparr>, Rollback S s1)
         | (Reject, e) \<Rightarrow> (Inl (the e), Rollback S s1)
         | (Proceed, _) \<Rightarrow>
             or_rollback S (stale_to_client (CompleteVerified S s1)) (\<lambda>s2.
             or_rollback S (RecordIncome S s2) (\<lambda>s3.
             or_rollback S (NotifyBuyer S s3) (\<lambda>s4.
             or_rollback S (Commit S s4) (\<lambda>s5.
             (Inr \<lparr>rs_decision = Proceed, rs_prev = st\<rparr>, s5)))))))"

section \<open>The stock marker (orderapprove/stock.go)\<close>

text \<open>The token is the claimed value of \<open>stock_applied_at\<close>; the empty token is \<open>None\<close>.\<close>

record 's StockStore =
  ClaimStock :: "'s \<Rightarrow> (app_error + (int option \<times> bool)) \<times> 's"
  ApplyStock :: "'s \<Rightarrow> 's out"
  ReleaseStock :: "int option \<Rightarrow> 's \<Rightarrow> 's out"

definition ApplyStockOnce :: "'s StockStore \<Rightarrow> 's \<Rightarrow> (bool, 's) reply" where
  "ApplyStockOnce S s = (case ClaimStock S s of
       (Inl e, s1) \<Rightarrow> (Inl e, s1)
     | (Inr (tok, claimed), s1) \<Rightarrow>
         if \<not> claimed then (Inr False, s1)
         else (case ApplyStock S s1 of
             (None, s2) \<Rightarrow> (Inr True, s2)
           | (Some e, s2) \<Rightarrow> (case ReleaseStock S tok s2 of
                 (Some r, s3) \<Rightarrow> (Inl r, s3)
               | (None, s3) \<Rightarrow> (Inl e, s3))))"

section \<open>The two stores of order/approve.go\<close>

text \<open>
  The transaction store: the tables as committed, as the transaction sees them, and the order it
  completed. \<open>FOR UPDATE\<close> keeps other writers of the row out until the end.
\<close>

record atx =
  at_db :: order_db
  at_work :: order_db
  at_order :: "Order option"

definition begin_approve :: "order_db \<Rightarrow> atx" where
  "begin_approve db = \<lparr>at_db = db, at_work = db, at_order = None\<rparr>"

definition row_state :: "order_rec \<Rightarrow> State" where
  "row_state r = (let m = od_meta r in
     \<lparr>sa_status = od_status r, sa_payment = od_paystatus r, sa_proof_msg = opt_text (od_proof r),
      sa_has_meta = (pm_amount m \<noteq> None \<or> pm_bank m \<noteq> [] \<or> pm_account m \<noteq> [] \<or> pm_hash m \<noteq> []),
      sa_blocked = pm_blocked m\<rparr>)"

definition lock_order :: "env \<Rightarrow> string \<Rightarrow> atx \<Rightarrow> (run_error + State option) \<times> atx" where
  "lock_order E orderID s =
     (if db_fails E ''approve.lock'' then (Inl (Failed (Wrapf ''lock order: %w'' [] (Plain ''approve.lock''))), s)
      else (Inr (map_option row_state (find_order (at_work s) orderID)), s))"

definition verified_row :: "env \<Rightarrow> AuthUser \<Rightarrow> order_rec \<Rightarrow> order_rec" where
  "verified_row E v r = r\<lparr>od_paystatus := ''verified'',
     od_verified := (case od_verified r of None \<Rightarrow> Some (db_now E) | Some t \<Rightarrow> Some t),
     od_verifier := (case od_verifier r of None \<Rightarrow> Some (AccountID v) | Some w \<Rightarrow> Some w),
     od_status := ''completed'', od_updated := db_now E\<rparr>"

definition complete_verified :: "env \<Rightarrow> AuthUser \<Rightarrow> string \<Rightarrow> int option \<Rightarrow> atx \<Rightarrow> run_error option \<times> atx" where
  "complete_verified E v orderID expected s =
     (if db_fails E ''approve.update'' then (Some (Failed (Wrapf ''approve order: %w'' [] (Plain ''approve.update''))), s)
      else case find_order (at_work s) orderID of
          None \<Rightarrow> (Some ErrStaleRow, s)
        | Some r \<Rightarrow>
            if expected \<noteq> None \<and> expected \<noteq> Some (od_updated r) then (Some ErrStaleRow, s)
            else let w = update_order orderID (verified_row E v) (at_work s) in
              (None, s\<lparr>at_work := w, at_order := Some (scanOrder w (verified_row E v r))\<rparr>))"

definition record_income_tx :: "env \<Rightarrow> clock \<Rightarrow> AuthUser \<Rightarrow> atx \<Rightarrow> run_error option \<times> atx" where
  "record_income_tx E ck v s = (let od = the (at_order s) in
     case RecordOrderCompletedIncomeTx E (ck_period ck) (ck_today ck) (AccountID v) (o_id od) (o_total od) (o_wallet od)
            (fin (ot (at_work s))) of
       Inl e \<Rightarrow> (Some (Failed e), s)
     | Inr fd \<Rightarrow> (None, s\<lparr>at_work := set_ofin fd (at_work s)\<rparr>))"

definition notify_buyer :: "env \<Rightarrow> atx \<Rightarrow> run_error option \<times> atx" where
  "notify_buyer E s = (let od = the (at_order s) in
     if o_conv od = [] then (None, s)
     else if db_fails E ''approve.message'' then (Some (Failed (Plain ''approve.message'')), s)
     else (None, s\<lparr>at_work := add_message (o_conv od) (''Pembayaran pesanan '' @ FormatOrderNumber (o_id od)
             @ '' terverifikasi dan pesanan selesai. Terima kasih!'') (at_work s)\<rparr>))"

definition approveTxStore :: "env \<Rightarrow> clock \<Rightarrow> AuthUser \<Rightarrow> string \<Rightarrow> int option \<Rightarrow> atx Store" where
  "approveTxStore E ck v orderID expected =
     \<lparr>LockOrder = lock_order E orderID, CompleteVerified = complete_verified E v orderID expected,
      RecordIncome = record_income_tx E ck v, NotifyBuyer = notify_buyer E,
      Commit = (\<lambda>s. if db_fails E ''approve.commit'' then (Some (Failed (Plain ''approve.commit'')), s)
                    else (None, s\<lparr>at_db := at_work s\<rparr>)),
      Rollback = (\<lambda>s. s\<lparr>at_work := at_db s\<rparr>)\<rparr>"

text \<open>The marker of an order; the claim of one call is stamped with that statement's \<open>now()\<close>.\<close>

definition applied_at :: "string \<Rightarrow> order_db \<Rightarrow> int option" where
  "applied_at orderID db = (case order_rows (ot db) orderID of None \<Rightarrow> None | Some r \<Rightarrow> or_applied r)"

definition set_applied :: "string \<Rightarrow> int option \<Rightarrow> order_db \<Rightarrow> order_db" where
  "set_applied orderID m db = db\<lparr>ot := (ot db)\<lparr>order_rows := (case order_rows (ot db) orderID of
       None \<Rightarrow> order_rows (ot db)
     | Some r \<Rightarrow> (order_rows (ot db))(orderID \<mapsto> r\<lparr>or_applied := m\<rparr>))\<rparr>\<rparr>"

definition hasMarker :: "env \<Rightarrow> order_db \<Rightarrow> bool" where
  "hasMarker E db \<longleftrightarrow> \<not> db_fails E ''column.exists'' \<and> has_marker (ot db)"

definition claim_stock :: "env \<Rightarrow> string \<Rightarrow> order_db \<Rightarrow> (app_error + (int option \<times> bool)) \<times> order_db" where
  "claim_stock E orderID db =
     (if \<not> hasMarker E db then (Inr (None, True), db)
      else if db_fails E ''marker.claim'' then (Inl (Wrapf ''claim stock marker: %w'' [] (Plain ''marker.claim'')), db)
      else if find_order db orderID = None \<or> order_rows (ot db) orderID = None \<or> applied_at orderID db \<noteq> None
      then (Inr (None, False), db)
      else (Inr (Some (db_now E), True), set_applied orderID (Some (db_now E)) db))"

definition release_stock :: "env \<Rightarrow> string \<Rightarrow> int option \<Rightarrow> order_db \<Rightarrow> order_db out" where
  "release_stock E orderID tok db =
     (if tok = None then (None, db)
      else if db_fails E ''marker.release'' then (Some (Plain ''marker.release''), db)
      else (None, if applied_at orderID db = tok then set_applied orderID None db else db))"

text \<open>The claim, the deduction and the release are calls \<open>n\<close>, \<open>n + 1\<close> and \<open>n + 2\<close> of the request.\<close>

definition approveStockStore :: "req \<Rightarrow> nat \<Rightarrow> AuthUser \<Rightarrow> Order \<Rightarrow> order_db StockStore" where
  "approveStockStore R n v od =
     \<lparr>ClaimStock = claim_stock (rq_env R n) (o_id od),
      ApplyStock = sync_stock R (Suc n) v (o_id od) (o_status od) (o_items od),
      ReleaseStock = release_stock (rq_env R (n + 2)) (o_id od)\<rparr>"

section \<open>The handler\<close>

definition approveGate :: "AuthUser \<Rightarrow> unit res" where
  "approveGate v =
     (if Impersonating v then Inl (Forbidden ''tidak tersedia saat pantau (impersonation)'')
      else guard (CanPerformOwnerActions (Some v)) (Forbidden ''owner access required''))"

text \<open>
  \<open>expected\<close> is the query parameter: absent, or what \<open>time.Parse\<close> makes of it, \<open>None\<close> when it is no
  RFC 3339 timestamp.
\<close>

definition parseExpectedUpdatedAt :: "int option option \<Rightarrow> int option res" where
  "parseExpectedUpdatedAt p = (case p of
       None \<Rightarrow> Inr None
     | Some None \<Rightarrow> Inl (BadRequest ''expectedUpdatedAt harus RFC3339Nano'')
     | Some (Some t) \<Rightarrow> Inr (Some t))"

definition http_error :: "run_error \<Rightarrow> app_error" where
  "http_error e = (case e of
       ErrNotFound \<Rightarrow> NotFound ''order not found''
     | ClientError kind msg \<Rightarrow> Aborted msg
     | ErrStaleRow \<Rightarrow> Plain ''order changed (updated_at guard)''
     | Failed x \<Rightarrow> x)"

definition Approve :: "req \<Rightarrow> AuthUser option \<Rightarrow> string \<Rightarrow> int option option \<Rightarrow> order_db \<Rightarrow> (Order, order_db) reply" where
  "Approve R u orderID p db =
     try_reply db (getSalesUser u) (\<lambda>v.
     try_reply db (approveGate v) (\<lambda>_.
     try_reply db (parseExpectedUpdatedAt p) (\<lambda>expected.
     try_reply db (period_open R 0 db) (\<lambda>_.
     try_reply db (case loadOrderByID (rq_env R 1) db orderID of
         Inl e \<Rightarrow> Inr ()
       | Inr cur \<Rightarrow> if o_status cur = ''completed'' then Inr () else precheck R 2 orderID (o_items cur) db) (\<lambda>_.
     try_reply db (sql (rq_env R 3) ''approve.begin'' (Inr ())) (\<lambda>_.
     case Run (approveTxStore (rq_env R 3) (rq_clock R 3) v orderID expected) (begin_approve db) of
       (Inl e, s) \<Rightarrow> (Inl (http_error e), at_db s)
     | (Inr res, s) \<Rightarrow>
         try_reply (at_db s) (loadOrderByID (rq_env R 4) (at_db s) orderID) (\<lambda>od.
         reply_bind (ApplyStockOnce (approveStockStore R 5 v od) (at_db s)) (\<lambda>applied db1.
         (Inr od, db1)))))))))"

end
