(* ===== verification/Order_Laws.thy ===== *)
theory Order_Laws
  imports Orders Order_Sync_Laws
begin

text \<open>
  What the order handlers leave behind: the income row and the stock of an order after it was
  created, edited, cancelled or deleted, the prices its lines were given, and what is left when a
  batch stops half-way.
\<close>

declare split_paired_All [simp del] split_paired_Ex [simp del]

section \<open>Identifiers\<close>

text \<open>Printable ASCII without blanks, as a UUID is. \<open>TrimSpace\<close> leaves such text alone.\<close>

definition plain_text :: "string \<Rightarrow> bool" where
  "plain_text s = list_all (\<lambda>c. 33 \<le> (of_char c :: nat) \<and> (of_char c :: nat) \<le> 126) s"

definition plain_id :: "string \<Rightarrow> bool" where
  "plain_id i \<longleftrightarrow> i \<noteq> [] \<and> plain_text i"

lemma encodings_not_plain:
  "e \<in> set space_encodings \<Longrightarrow> e \<noteq> [] \<and> \<not> plain_text [hd e] \<and> \<not> plain_text [last e]"
  by (auto simp: space_encodings_def plain_text_def)

lemma plain_stripped:
  assumes "plain_text s" "\<And>e. e \<in> set es \<Longrightarrow> e \<noteq> [] \<Longrightarrow> \<not> plain_text [hd e]"
  shows "stripped es s"
proof -
  have "\<not> prefix e s" if e: "e \<in> set es" "e \<noteq> []" for e
  proof
    assume "prefix e s"
    then have "hd e \<in> set s" using e(2) by (cases e; cases s) auto
    then have "plain_text [hd e]" using assms(1) by (auto simp: plain_text_def list_all_iff)
    then show False using assms(2) e by blast
  qed
  then show ?thesis by (simp add: stripped_def)
qed

lemma plain_trim: "plain_text s \<Longrightarrow> trim_space s = s"
proof -
  assume s: "plain_text s"
  have "stripped space_encodings s" using s by (rule plain_stripped) (use encodings_not_plain in blast)
  moreover have "stripped (map rev space_encodings) (rev s)"
  proof (rule plain_stripped)
    show "plain_text (rev s)" using s by (simp add: plain_text_def list_all_iff)
  qed (use encodings_not_plain in \<open>auto simp: hd_rev\<close>)
  ultimately show ?thesis by (simp add: trim_space_def strip_front_id)
qed

lemma plain_cogs: "plain_text i \<Longrightarrow> trim_space (cogsRefPrefix @ i) = cogsRefPrefix @ i"
  by (rule plain_trim) (simp add: plain_text_def cogsRefPrefix_def)

section \<open>The income row of an order\<close>

definition live_income :: "fin_db \<Rightarrow> string \<Rightarrow> fin_txn list" where
  "live_income fd i = [t \<leftarrow> txns fd. is_income_of i t \<and> \<not> ft_deleted t]"

text \<open>An order has one income row, of this amount.\<close>

definition one_income :: "fin_db \<Rightarrow> string \<Rightarrow> int \<Rightarrow> bool" where
  "one_income fd i a \<longleftrightarrow> map ft_amount (live_income fd i) = [a]"

definition no_income :: "fin_db \<Rightarrow> string \<Rightarrow> bool" where
  "no_income fd i \<longleftrightarrow> live_income fd i = []"

lemma live_income_txns: "txns b = txns a \<Longrightarrow> live_income b i = live_income a i"
  by (simp add: live_income_def)

lemma live_income_purged: "live_income (income_purged i fd) i = live_income fd i"
  unfolding live_income_def income_purged_def by (auto intro: filter_cong)

lemma remove_income_none:
  assumes "RemoveOrderIncomeTransaction E i fd = Inr fd'" "trim_space i = i" "i \<noteq> []"
  shows "no_income fd' i"
proof -
  have "txns fd' = [t \<leftarrow> txns fd. \<not> is_income_of i t]"
    using assms fold_refresh_frame by (auto simp: RemoveOrderIncomeTransaction_def Let_def res_simps split: if_splits)
  then show ?thesis by (simp add: no_income_def live_income_def)
qed

lemma record_income_one:
  assumes "RecordOrderCompletedIncome E np td cb i amount wid fd = (None, fd')" "trim_space i = i" "i \<noteq> []" "0 < amount"
  shows "if no_income fd i then one_income fd' i (db_money E amount) else live_income fd' i = live_income fd i"
proof -
  have "recordOrderIncome E np td cb i amount wid fd = (None, fd')"
    using assms by (auto simp: RecordOrderCompletedIncome_def Let_def res_simps)
  then show ?thesis
  proof (cases rule: recordOrderIncomeE)
    case purged
    then have "live_income fd' i = live_income fd i" by (simp add: live_income_purged)
    moreover have "live_income fd' i \<noteq> []" using purged by (auto simp: live_income_def filter_empty_conv list_ex_iff)
    ultimately show ?thesis by (simp add: no_income_def)
  next
    case (posted wallet category by_id)
    have none: "no_income fd i"
      using posted(2) live_income_purged[of i fd] by (auto simp: no_income_def live_income_def filter_empty_conv list_ex_iff)
    have "live_income fd' i = live_income (insert_txn E ''income'' (db_money E amount) wallet category
        (''Pesanan #'' @ i) (Some i) td by_id (income_purged i fd)) i"
      using posted(3) refreshWallets_frame by (intro live_income_txns) blast
    then have "one_income fd' i (db_money E amount)"
      using none live_income_purged[of i fd]
      by (simp add: one_income_def live_income_def insert_txn_def is_income_of_def no_income_def)
    then show ?thesis using none by simp
  qed simp
qed

lemma resync_income_one:
  assumes "ResyncOrderCompletedIncome E np td cb i amount wid fd = (None, fd')" "trim_space i = i" "i \<noteq> []"
  shows "if 0 < amount then one_income fd' i (db_money E amount) else no_income fd' i"
proof (cases "0 < amount")
  case True
  then obtain fd1 where r: "RemoveOrderIncomeTransaction E i fd = Inr fd1"
      "RecordOrderCompletedIncome E np td cb i amount wid fd1 = (None, fd')"
    using assms by (auto simp: ResyncOrderCompletedIncome_def Let_def res_simps)
  then show ?thesis using remove_income_none[OF r(1) assms(2,3)] record_income_one[OF r(2) assms(2,3) True] True by simp
next
  case False
  then have "RemoveOrderIncomeTransaction E i fd = Inr fd'"
    using assms by (auto simp: ResyncOrderCompletedIncome_def Let_def res_simps)
  then show ?thesis using remove_income_none[OF _ assms(2,3)] False by simp
qed

text \<open>The entry for the cost of goods sold carries another reference, so a sync keeps the income rows.\<close>

lemma removed_chunks_income:
  assumes "remove_chunks E refs fd = (e, fd')" "i \<notin> set refs"
  shows "live_income fd' i = live_income fd i"
proof -
  have *: "live_income b i = live_income a i" if "removeInventoryEntriesChunk E rs a = Inr b" "i \<notin> set rs" for rs a b
    using removeChunk_txns[OF that(1)] that(2) by (auto simp: live_income_def is_income_of_def intro: filter_cong)
  show ?thesis using assms
  proof (induction "length refs" arbitrary: refs fd rule: less_induct)
    case less
    show ?case
    proof (cases "refs = []")
      case False
      have l: "length (drop 200 refs) < length refs" using False by simp
      have i: "i \<notin> set (take 200 refs)" "i \<notin> set (drop 200 refs)"
        using less.prems(2) by (auto dest: in_set_takeD in_set_dropD)
      have "removeInventoryEntriesChunk E (take 200 refs) fd = Inl x \<Longrightarrow> ?thesis"
        "removeInventoryEntriesChunk E (take 200 refs) fd = Inr m \<Longrightarrow> ?thesis" for x m
        using less.prems(1) less.hyps[OF l _ i(2)] *[OF _ i(1)] False by (subst (asm) remove_chunks.simps; auto)+
      then show ?thesis by (cases "removeInventoryEntriesChunk E (take 200 refs) fd") auto
    qed (use less.prems in \<open>simp add: remove_chunks.simps\<close>)
  qed
qed

lemma remove_entry_income:
  "RemoveInventoryEntry E ref fd = (e, fd') \<Longrightarrow> trim_space ref \<noteq> i \<Longrightarrow> live_income fd' i = live_income fd i"
  by (auto simp: RemoveInventoryEntry_def RemoveInventoryEntries_def uniqueReferenceNos_def dedup_def Let_def try_out_eq
      dest!: removed_chunks_income[where i = i] split: if_splits)

lemma record_expense_income:
  assumes "RecordInventoryEntry E np td cb ref ''expense'' cat desc amount pw fd = Inr fd'"
  shows "live_income fd' i = live_income fd i"
  using assms
proof (cases rule: RecordInventoryEntryE)
  case (posted wallet category by_id)
  have e: "trim_space ''expense'' = ''expense''" by (rule plain_trim) (simp add: plain_text_def)
  have "live_income fd' i = live_income (insert_txn E ''expense'' (db_money E amount) wallet category desc
      (if trim_space ref \<noteq> [] then Some (trim_space ref) else None) td by_id fd) i"
    using posted(3) refreshWallets_frame unfolding e by (intro live_income_txns) blast
  then show ?thesis by (simp add: live_income_def insert_txn_def is_income_of_def)
qed simp

lemma cogs_income:
  assumes "resyncOrderCOGS E np today i pe by db = (e, db')" "plain_text i"
  shows "live_income (fin db') i = live_income (fin db) i"
proof -
  obtain e1 fd where rm: "RemoveInventoryEntry E (cogsRefPrefix @ i) (fin db) = (e1, fd)"
    by (cases "RemoveInventoryEntry E (cogsRefPrefix @ i) (fin db)")
  have "trim_space (cogsRefPrefix @ i) \<noteq> i" unfolding plain_cogs[OF assms(2)] by (simp add: cogsRefPrefix_def)
  from remove_entry_income[OF rm this] have r: "live_income fd i = live_income (fin db) i" .
  show ?thesis using assms(1) rm r
    by (cases e1; auto simp: resyncOrderCOGS_def Let_def try_out_eq dest!: record_expense_income[where i = i] split: if_splits)
qed

lemma sync_tx_fin: "sync_tx E ord i status items by wh db = Inr db' \<Longrightarrow> fin db' = fin db"
  unfolding sync_tx_def ebind_eq_Inr by (auto simp: res_simps dest!: marker_frame)

lemma sync_income:
  assumes "SyncOrderStock E np td ord i status items by db = (e, db')" "plain_text i"
  shows "live_income (fin db') i = live_income (fin db) i"
  using assms(1)
  by (auto simp: SyncOrderStock_def try_out_eq dest!: sync_tx_fin cogs_income[OF _ assms(2)] split: if_splits)

section \<open>The calls of a handler\<close>

text \<open>What inventory and finance read of the tables is the same, and so are the orders.\<close>

definition same_items :: "tenant_db \<Rightarrow> tenant_db \<Rightarrow> bool" where
  "same_items a b \<longleftrightarrow> inv b = inv a \<and> inv_warehouse b = inv_warehouse a \<and> bundle_rows b = bundle_rows a
     \<and> has_marker b = has_marker a"

definition catalog_only :: "order_db \<Rightarrow> order_db \<Rightarrow> bool" where
  "catalog_only a b \<longleftrightarrow> orders b = orders a \<and> msgs b = msgs a \<and> same_items (ot a) (ot b) \<and> fin (ot b) = fin (ot a)
     \<and> order_rows (ot b) = order_rows (ot a)"

lemma catalog_only_refl [simp]: "catalog_only a a"
  by (simp add: catalog_only_def same_items_def)

lemma catalog_only_trans: "catalog_only a b \<Longrightarrow> catalog_only b c \<Longrightarrow> catalog_only a c"
  by (simp add: catalog_only_def same_items_def)

lemma resolve_catalog_only: "resolveCatalogItem E nano pt it i db = (r, db') \<Longrightarrow> catalog_only db db'"
  by (auto simp: resolveCatalogItem_def createCatalogOrderItem_def try_reply_eq Let_def catalog_only_def same_items_def
      split: if_splits sum.splits)

lemma reply_bind_cases:
  assumes "reply_bind r f = (y, t)"
  obtains (err) e where "r = (Inl e, t)" "y = Inl e" | (val) x u where "r = (Inr x, u)" "f x u = (y, t)"
  using assms by (cases r; cases "fst r") (auto simp: reply_bind_def)

lemma then_out_Inl:
  "then_out r f = (Inl e, t) \<longleftrightarrow> r = (Some e, t) \<or> (\<exists>u. r = (None, u) \<and> f u = (Inl e, t))"
  by (cases r) (auto simp: then_out_def split: option.splits)

lemma normalize_items_only: "normalize_items R pt i its db = (r, db') \<Longrightarrow> catalog_only db db'"
proof (induction its arbitrary: i db r db')
  case (Cons it its)
  show ?case
  proof (cases "it_qty it \<le> 0")
    case False
    obtain x db1 where one: "resolveCatalogItem (rq_item R i) (rq_nano R) pt it i db = (x, db1)"
      by (cases "resolveCatalogItem (rq_item R i) (rq_nano R) pt it i db")
    obtain y db2 where rest: "normalize_items R pt (Suc i) its db1 = (y, db2)"
      by (cases "normalize_items R pt (Suc i) its db1")
    have "catalog_only db db1" "catalog_only db1 db2" using resolve_catalog_only[OF one] Cons.IH[OF rest] by simp_all
    moreover have "db' = db1 \<or> db' = db2"
      using Cons.prems False one rest by (cases x; cases y) (auto simp: Let_def)
    ultimately show ?thesis using catalog_only_trans by blast
  qed (use Cons.prems in simp)
qed simp

lemma normalize_only: "normalizeOrderItems R E c raw db = (r, db') \<Longrightarrow> catalog_only db db'"
  unfolding normalizeOrderItems_def try_reply_eq
  by (elim disjE exE conjE; (simp; fail | elim reply_bind_cases, auto dest!: normalize_items_only split: if_splits))

lemma scanOrder_sel [simp]:
  "o_id (scanOrder db r) = od_id r" "o_status (scanOrder db r) = od_status r" "o_items (scanOrder db r) = od_items r"
  "o_total (scanOrder db r) = dec4 (od_total r)" "o_conv (scanOrder db r) = opt_text (od_conv r)"
  "o_wallet (scanOrder db r) = order_wallet db (od_id r)"
  by (simp_all add: scanOrder_def Let_def)

lemma find_order_id: "find_order db i = Some r \<Longrightarrow> od_id r = i \<and> od_deleted r = None \<and> r \<in> set (orders db)"
  by (auto simp: find_order_def find_Some_iff)

lemma find_order_cong: "orders b = orders a \<Longrightarrow> find_order b i = find_order a i"
  by (simp add: find_order_def)

text \<open>An update keeps the identifier and does not delete.\<close>

definition keeps_id :: "(order_rec \<Rightarrow> order_rec) \<Rightarrow> bool" where
  "keeps_id f \<longleftrightarrow> (\<forall>r. od_id (f r) = od_id r \<and> od_deleted (f r) = od_deleted r)"

lemma find_map_if:
  assumes "keeps_id f"
  shows "find (\<lambda>r. od_id r = i \<and> od_deleted r = None) (map (\<lambda>r. if od_id r = i \<and> od_deleted r = None then f r else r) rs)
    = map_option f (find (\<lambda>r. od_id r = i \<and> od_deleted r = None) rs)"
  using assms by (induction rs) (auto simp: keeps_id_def)

lemma find_update_order: "keeps_id f \<Longrightarrow> find_order (update_order i f db) i = map_option f (find_order db i)"
  by (simp add: find_order_def update_order_def find_map_if)

lemma orders_set_wallet [simp]: "orders (set_wallet i w db) = orders db"
  by (simp add: set_wallet_def)

lemma write_orderE:
  assumes "write_order E stmt msg i f w db = Inr (od, db')" "keeps_id f"
  obtains r where "find_order db i = Some r" "od_id r = i" "od = scanOrder db' (f r)" "find_order db' i = Some (f r)"
    "same_items (ot db) (ot db')" "fin (ot db') = fin (ot db)"
proof -
  from assms(1) obtain r where r: "find_order db i = Some r"
      "db' = set_if w (set_wallet i) (update_order i f db)" "od = scanOrder db' (f r)"
    by (auto simp: write_order_def res_simps Let_def split: option.splits)
  have o: "orders db' = orders (update_order i f db)" unfolding r(2) by (cases w) (simp_all add: set_if_def)
  have "find_order db' i = Some (f r)"
    using find_update_order[OF assms(2), of i db] r(1) find_order_cong[OF o, of i] by simp
  moreover have "same_items (ot db) (ot db')" "fin (ot db') = fin (ot db)"
    unfolding r(2) by (cases w; simp add: set_if_def set_wallet_def update_order_def same_items_def)+
  ultimately show ?thesis using that[OF r(1) _ r(3)] find_order_id[OF r(1)] by blast
qed

lemma sync_stock_frame:
  assumes "sync_stock R n v i status items db = (e, db')"
  shows "orders db' = orders db" "plain_text i \<Longrightarrow> live_income (fin (ot db')) i = live_income (fin (ot db)) i"
  using assms sync_income by (auto simp: sync_stock_def in_tenant_def split: prod.splits)

lemma status_demand_same: "same_items a b \<Longrightarrow> status_demand b s it = status_demand a s it"
  by (rule status_demand_cong(1)) (simp_all add: same_items_def same_config_def)

lemma sync_exact_same: "same_items a b \<Longrightarrow> sync_exact b i s it = sync_exact a i s it"
  unfolding sync_exact_def by (simp add: status_demand_same) (simp add: same_items_def)

text \<open>
  The conditions under which the stock of one order is reconciled exactly: the inventory is set up,
  the quantities stay within the range where float64 is exact, and Go ranges over a map's keys once.
\<close>

definition stock_exact :: "req \<Rightarrow> nat \<Rightarrow> string \<Rightarrow> string \<Rightarrow> OrderItem list \<Rightarrow> tenant_db \<Rightarrow> bool" where
  "stock_exact R n i status items t \<longleftrightarrow> (\<exists>st. inv_setting (inv t) = Some st \<and> st_setup st)
     \<and> numeric_ok (rq_env R n) \<and> ranges (rq_ord R n) \<and> sync_exact t i status (orderStockItems items)
     \<and> (\<forall>k. \<bar>on_hand (inv t) k\<bar> \<le> 2 ^ 43)"

text \<open>The order holds what its status and lines ask for, no more and no less.\<close>

definition holds_demand :: "tenant_db \<Rightarrow> string \<Rightarrow> string \<Rightarrow> OrderItem list \<Rightarrow> tenant_db \<Rightarrow> bool" where
  "holds_demand t i status items t' \<longleftrightarrow>
     (\<forall>k. order_held (inv t') i k = key_total (status_demand t status (orderStockItems items)) k)"

lemma sync_stock_holds:
  assumes run: "sync_stock R n v i status items db = (None, db')" and i: "plain_id i"
    and ex: "stock_exact R n i status items t" and same: "same_items t (ot db)"
  shows "holds_demand t i status items (ot db')"
proof -
  let ?E = "rq_env R n" and ?it = "orderStockItems items"
  from run have s: "SyncOrderStock ?E (ck_period (rq_clock R n)) (ck_today (rq_clock R n)) (rq_ord R n) i status ?it
      (AccountID v) (ot db) = (None, ot db')"
    by (auto simp: sync_stock_def in_tenant_def split: prod.splits)
  from ex same obtain st where st: "inv_setting (inv (ot db)) = Some st" "st_setup st"
    by (auto simp: stock_exact_def same_items_def)
  have tr: "trim_space i \<noteq> []" using i by (simp add: plain_id_def plain_trim)
  have oh: "\<forall>k. \<bar>on_hand (inv (ot db)) k\<bar> \<le> 2 ^ 43" and sx: "sync_exact (ot db) i status ?it"
    using ex same sync_exact_same[OF same] by (auto simp: stock_exact_def same_items_def)
  have E: "numeric_ok ?E" "ranges (rq_ord R n)" using ex by (simp_all add: stock_exact_def)
  from s tr st show ?thesis
  proof (cases rule: SyncOrderStock_cases)
    case (committed db1)
    have "inv (ot db') = inv db1" by (rule cogs_frame[OF committed(2)])
    then show ?thesis
      using sync_tx_effect(1)[OF committed(1) tr E sx oh] status_demand_same[OF same] by (simp add: holds_demand_def)
  qed simp
qed

lemma record_income_frame:
  assumes "record_income R n v od db = (None, db')" "plain_id (o_id od)" "0 < o_total od"
  shows "orders db' = orders db" "same_items (ot db) (ot db')"
    "no_income (fin (ot db)) (o_id od) \<Longrightarrow> one_income (fin (ot db')) (o_id od) (db_money (rq_env R n) (o_total od))"
    "\<not> no_income (fin (ot db)) (o_id od) \<Longrightarrow> live_income (fin (ot db')) (o_id od) = live_income (fin (ot db)) (o_id od)"
proof -
  from assms(1) obtain fd where r: "RecordOrderCompletedIncome (rq_env R n) (ck_period (rq_clock R n)) (ck_today (rq_clock R n))
      (AccountID v) (o_id od) (o_total od) (o_wallet od) (fin (ot db)) = (None, fd)" "db' = set_ofin fd db"
    by (auto simp: record_income_def in_books_def split: prod.splits)
  show "orders db' = orders db" "same_items (ot db) (ot db')" by (simp_all add: r(2) set_ofin_def same_items_def)
  have i: "trim_space (o_id od) = o_id od" "o_id od \<noteq> []" using assms(2) by (simp_all add: plain_id_def plain_trim)
  note one = record_income_one[OF r(1) i assms(3)]
  show "no_income (fin (ot db)) (o_id od) \<Longrightarrow> one_income (fin (ot db')) (o_id od) (db_money (rq_env R n) (o_total od))"
    "\<not> no_income (fin (ot db)) (o_id od) \<Longrightarrow> live_income (fin (ot db')) (o_id od) = live_income (fin (ot db)) (o_id od)"
    using one by (simp_all add: r(2) set_ofin_def)
qed

lemma record_income_zero: "o_total od \<le> 0 \<Longrightarrow> record_income R n v od db = (None, db)"
  by (simp add: record_income_def in_books_def RecordOrderCompletedIncome_def set_ofin_def)

lemma resync_income_frame:
  assumes "resync_income R n v od db = (None, db')" "plain_id (o_id od)"
  shows "orders db' = orders db" "same_items (ot db) (ot db')"
    "if 0 < o_total od then one_income (fin (ot db')) (o_id od) (db_money (rq_env R n) (o_total od)) else no_income (fin (ot db')) (o_id od)"
proof -
  from assms(1) obtain fd where r: "ResyncOrderCompletedIncome (rq_env R n) (ck_period (rq_clock R n)) (ck_today (rq_clock R n))
      (AccountID v) (o_id od) (o_total od) (o_wallet od) (fin (ot db)) = (None, fd)" "db' = set_ofin fd db"
    by (auto simp: resync_income_def in_books_def split: prod.splits)
  show "orders db' = orders db" "same_items (ot db) (ot db')" by (simp_all add: r(2) set_ofin_def same_items_def)
  have i: "trim_space (o_id od) = o_id od" "o_id od \<noteq> []" using assms(2) by (simp_all add: plain_id_def plain_trim)
  show "if 0 < o_total od then one_income (fin (ot db')) (o_id od) (db_money (rq_env R n) (o_total od)) else no_income (fin (ot db')) (o_id od)"
    using resync_income_one[OF r(1) i] by (simp add: r(2) set_ofin_def)
qed

lemma remove_income_frame:
  assumes "remove_income R n i db = (None, db')" "plain_id i"
  shows "orders db' = orders db" "same_items (ot db) (ot db')" "no_income (fin (ot db')) i"
proof -
  from assms(1) obtain fd where r: "RemoveOrderIncomeTransaction (rq_env R n) i (fin (ot db)) = Inr fd" "db' = set_ofin fd db"
    by (auto simp: remove_income_def res_simps)
  show "orders db' = orders db" "same_items (ot db) (ot db')" by (simp_all add: r(2) set_ofin_def same_items_def)
  show "no_income (fin (ot db')) i"
    using remove_income_none[OF r(1)] assms(2) by (simp add: r(2) set_ofin_def plain_id_def plain_trim)
qed

lemma same_items_refl [simp]: "same_items a a"
  by (simp add: same_items_def)

lemma same_items_trans: "same_items a b \<Longrightarrow> same_items b c \<Longrightarrow> same_items a c"
  by (simp add: same_items_def)

lemma no_income_cong: "live_income a i = live_income b i \<Longrightarrow> no_income a i = no_income b i"
  and one_income_cong: "live_income a i = live_income b i \<Longrightarrow> one_income a i c = one_income b i c"
  by (simp_all add: no_income_def one_income_def)

lemma record_if_completed:
  assumes "(if o_status od = ''completed'' then record_income R n v od db else (None, db)) = (None, db')"
    and "plain_id (o_id od)" "no_income (fin (ot db)) (o_id od)"
  shows "orders db' = orders db" "same_items (ot db) (ot db')"
    "if o_status od = ''completed'' \<and> 0 < o_total od
     then one_income (fin (ot db')) (o_id od) (db_money (rq_env R n) (o_total od)) else no_income (fin (ot db')) (o_id od)"
proof -
  consider (paid) "o_status od = ''completed''" "0 < o_total od" | (free) "o_status od = ''completed''" "o_total od \<le> 0"
    | (open_order) "o_status od \<noteq> ''completed''" by fastforce
  then have "orders db' = orders db \<and> same_items (ot db) (ot db') \<and>
      (if o_status od = ''completed'' \<and> 0 < o_total od
       then one_income (fin (ot db')) (o_id od) (db_money (rq_env R n) (o_total od)) else no_income (fin (ot db')) (o_id od))"
  proof cases
    case paid
    then have "record_income R n v od db = (None, db')" using assms(1) by simp
    from record_income_frame[OF this assms(2) paid(2)] show ?thesis using assms(3) paid by simp
  qed (use assms in \<open>simp_all add: record_income_zero\<close>)
  then show "orders db' = orders db" "same_items (ot db) (ot db')"
    "if o_status od = ''completed'' \<and> 0 < o_total od
     then one_income (fin (ot db')) (o_id od) (db_money (rq_env R n) (o_total od)) else no_income (fin (ot db')) (o_id od)"
    by blast+
qed

section \<open>Prices of order lines\<close>

text \<open>The price the catalog has for an item: that of the price type, or else the item's own.\<close>

definition catalog_price :: "order_db \<Rightarrow> string \<Rightarrow> string \<Rightarrow> f64" where
  "catalog_price db item pt = (case item_prices db (item, pt) of
       Some n \<Rightarrow> dec4 n
     | None \<Rightarrow> (case find_cat db item of None \<Rightarrow> 0 | Some c \<Rightarrow> (case ci_price c of Some n \<Rightarrow> dec4 n | None \<Rightarrow> 0)))"

text \<open>Items were added to the catalog, none of them under an identifier that was live before.\<close>

definition grown :: "order_db \<Rightarrow> order_db \<Rightarrow> bool" where
  "grown a b \<longleftrightarrow> item_prices b = item_prices a
     \<and> (\<forall>i. live_name (ot a) i \<noteq> None \<longrightarrow> live_name (ot b) i = live_name (ot a) i)
     \<and> (\<exists>new. cat_rows b = cat_rows a @ new \<and> (\<forall>c\<in>set new. live_name (ot a) (ci_id c) = None))"

lemma grown_refl [simp]: "grown a a"
  by (simp add: grown_def)

lemma grown_trans: "grown a b \<Longrightarrow> grown b c \<Longrightarrow> grown a c"
  unfolding grown_def by (elim conjE exE) (intro conjI; auto; metis)

lemma grown_price:
  assumes "grown a b" "live_name (ot a) i \<noteq> None"
  shows "catalog_price b i pt = catalog_price a i pt"
proof -
  from assms obtain new where n: "cat_rows b = cat_rows a @ new" "\<forall>c\<in>set new. live_name (ot a) (ci_id c) = None"
      "live_name (ot b) i = live_name (ot a) i" by (auto simp: grown_def)
  have "find (\<lambda>c. ci_id c = i \<and> live_name (ot a) i \<noteq> None) new = None"
    using n(2) assms(2) by (auto simp: find_None_iff)
  then have "find_cat b i = find_cat a i" unfolding find_cat_def n(1,3) find_append by (simp split: option.splits)
  moreover have "item_prices b = item_prices a" using assms(1) by (simp add: grown_def)
  ultimately show ?thesis by (simp only: catalog_price_def)
qed

lemma unit_price: "ResolveCatalogUnitPrice E db i pt = Inr p \<Longrightarrow> p = catalog_price db i pt"
  by (auto simp: ResolveCatalogUnitPrice_def catalog_price_def res_simps split: option.splits)

lemma loaded_item:
  "loadCatalogOrderItem E db pt cond = Inr it \<Longrightarrow> it_price it = catalog_price db (it_item it) pt"
  by (auto simp: loadCatalogOrderItem_def no_item_def res_simps dest!: unit_price split: if_splits list.splits)

lemma loaded_by_id: "loadCatalogOrderItem E db pt (ById x) = Inr it \<Longrightarrow> it_item it = x"
proof -
  assume a: "loadCatalogOrderItem E db pt (ById x) = Inr it"
  then obtain c nm rest where m: "cat_matches E db (ById x) = (c, nm) # rest" "it_item it = ci_id c"
    by (auto simp: loadCatalogOrderItem_def no_item_def res_simps split: if_splits list.splits)
  have "(c, nm) \<in> set (cat_matches E db (ById x))" by (simp add: m(1))
  then have "ci_id c = x" by (auto simp: cat_matches_def split: if_splits)
  then show ?thesis by (simp add: m(2))
qed

lemma resolved_line:
  assumes "resolveCatalogItem E nano pt it n db = (Inr item, db')"
  obtains (listed) "db' = db" "it_qty item = it_qty it" "it_price item = catalog_price db (it_item item) pt"
      "trim_space (it_item it) \<noteq> [] \<Longrightarrow> it_item item = trim_space (it_item it)"
    | (created) "it_item item = db_uuid E (cat_next db)" "it_qty item = it_qty it" "trim_space (it_item it) = []"
      "item_prices db' = item_prices db" "0 \<le> it_price it" "it_price item = dec4 (db_numeric E (it_price it))"
      "catalog (ot db') = (catalog (ot db))(it_item item \<mapsto> \<lparr>ca_name = it_name item, ca_deleted = False\<rparr>)"
      "\<exists>c. cat_rows db' = cat_rows db @ [c] \<and> ci_id c = it_item item"
proof (cases "trim_space (it_item it) = []")
  case False
  then obtain l where "loadCatalogOrderItem E db pt (ById (trim_space (it_item it))) = Inr l"
      "item = l\<lparr>it_qty := it_qty it\<rparr>" "db' = db"
    using assms by (auto simp: resolveCatalogItem_def res_simps)
  then show ?thesis using listed loaded_item loaded_by_id by simp
next
  case True
  let ?code = "trim_space (it_code it)" and ?name = "trim_space (it_name it)"
  define bc where "bc = (if ?code \<noteq> [] then loadCatalogOrderItem E db pt (ByCode ?code) else Inl no_rows)"
  define bn where "bn = (if ?name \<noteq> [] then loadCatalogOrderItem E db pt (ByName ?name) else Inl no_rows)"
  have found: ?thesis if l: "loadCatalogOrderItem E db pt cond = Inr l" "item = l\<lparr>it_qty := it_qty it\<rparr>" "db' = db" for l cond
    using listed loaded_item[OF l(1)] l(2,3) True by simp
  have eq: "(case bc of Inr l \<Rightarrow> (Inr (l\<lparr>it_qty := it_qty it\<rparr>), db)
      | Inl _ \<Rightarrow> (case bn of Inr l \<Rightarrow> (Inr (l\<lparr>it_qty := it_qty it\<rparr>), db)
      | Inl _ \<Rightarrow> if ?name = [] then (Inl (BadRequest ''catalog item name is required''), db)
          else if it_price it < 0 then (Inl (BadRequest ''catalog item price cannot be negative''), db)
          else createCatalogOrderItem E (if ?code = [] then ''MANUAL-'' @ show_int nano @ ''-'' @ digits (Suc n) else ?code)
            ?name (it_price it) (trim_space (it_unit it)) (it_qty it) db)) = (Inr item, db')"
    using assms True unfolding resolveCatalogItem_def Let_def bc_def bn_def by simp
  show ?thesis
  proof (cases bc)
    case (Inr l)
    then have "loadCatalogOrderItem E db pt (ByCode ?code) = Inr l" by (simp add: bc_def split: if_splits)
    then show ?thesis by (rule found) (use eq Inr in auto)
  next
    case bc: (Inl e)
    show ?thesis
    proof (cases bn)
      case (Inr l)
      then have "loadCatalogOrderItem E db pt (ByName ?name) = Inr l" by (simp add: bn_def split: if_splits)
      then show ?thesis by (rule found) (use eq bc Inr in auto)
    next
      case (Inl e')
      with eq bc obtain code where new: "createCatalogOrderItem E code ?name (it_price it) (trim_space (it_unit it)) (it_qty it) db
          = (Inr item, db')" "\<not> it_price it < 0"
        by (simp split: if_splits)
      show ?thesis by (rule created)
        (use new True in \<open>auto simp: createCatalogOrderItem_def Let_def no_item_def split: if_splits\<close>)
    qed
  qed
qed

lemma resolved_grown:
  assumes "resolveCatalogItem E nano pt it n db = (Inr item, db')" "grown a db" "\<forall>k. live_name (ot a) (db_uuid E k) = None"
  shows "grown a db'"
  using assms(1)
proof (cases rule: resolved_line)
  case created
  have new: "live_name (ot a) (it_item item) = None" using created(1) assms(3) by simp
  then have "live_name (ot db') i = live_name (ot db) i" if "live_name (ot a) i \<noteq> None" for i
    using that created(7) by (cases "i = it_item item") (auto simp: live_name_def)
  then show ?thesis using created(4,8) assms(2) new unfolding grown_def by auto
qed (use assms(2) in simp)

text \<open>One line of the request and the line it becomes.\<close>

definition line_priced :: "order_db \<Rightarrow> string \<Rightarrow> OrderItem \<Rightarrow> OrderItem \<Rightarrow> bool" where
  "line_priced db pt raw it \<longleftrightarrow> 0 < it_qty raw \<and> it_qty it = it_qty raw
     \<and> (trim_space (it_item raw) \<noteq> [] \<longrightarrow> it_item it = trim_space (it_item raw))
     \<and> it_wh it = trim_space (it_wh raw)
     \<and> (live_name (ot db) (it_item it) \<noteq> None \<longrightarrow> it_price it = catalog_price db (it_item it) pt)"

lemma normalize_items_priced:
  assumes "normalize_items R pt n raw db = (Inr items, db')" "grown a db"
    and "\<forall>i k. live_name (ot a) (db_uuid (rq_item R i) k) = None"
  shows "list_all2 (line_priced a pt) raw items"
  using assms(1,2)
proof (induction raw arbitrary: n db items)
  case (Cons it its)
  from Cons.prems(1) obtain item db1 rest where s: "0 < it_qty it"
      "resolveCatalogItem (rq_item R n) (rq_nano R) pt it n db = (Inr item, db1)"
      "normalize_items R pt (Suc n) its db1 = (Inr rest, db')"
    and items: "items = item\<lparr>it_line := (if trim_space (it_line it) = [] then rq_line R n else trim_space (it_line it)),
        it_wh := trim_space (it_wh it)\<rparr> # rest"
    by (auto simp: res_simps Let_def split: if_splits)
  have g: "grown a db1" using resolved_grown[OF s(2) Cons.prems(2)] assms(3) by blast
  from s(2) have "line_priced a pt it (item\<lparr>it_wh := trim_space (it_wh it)\<rparr>)"
  proof (cases rule: resolved_line)
    case listed
    then show ?thesis using s(1) grown_price[OF Cons.prems(2), of "it_item item" pt] by (simp add: line_priced_def)
  next
    case created
    then show ?thesis using s(1) assms(3) by (simp add: line_priced_def)
  qed
  then show ?case using Cons.IH[OF s(3) g] by (simp add: items line_priced_def)
qed simp

lemma normalized_lines:
  assumes "normalizeOrderItems R E contactID raw db = (Inr items, db')"
    and "\<forall>i k. live_name (ot db) (db_uuid (rq_item R i) k) = None"
  shows "items \<noteq> [] \<and> (\<exists>pt. ResolvePriceTypeIDForContact E db contactID = Inr pt \<and> list_all2 (line_priced db pt) raw items)"
  using assms normalize_items_priced[OF _ grown_refl assms(2)]
  unfolding normalizeOrderItems_def by (auto simp: res_simps split: if_splits)

text \<open>
  The buyer's or the browser's idea of a price is never taken over. Every line of an order is
  resolved against the catalog, in order and with its quantity, which is positive; a line that names
  a catalog item is that item, and a line on an item that was in the catalog has the catalog's price
  for the contact's price type, whatever unit price the request carried.
\<close>

theorem normalizeOrderItems_prices:
  assumes "normalizeOrderItems R E contactID raw db = (Inr items, db')"
    and "\<forall>i k. live_name (ot db) (db_uuid (rq_item R i) k) = None"
  shows "items \<noteq> [] \<and> (\<exists>pt. ResolvePriceTypeIDForContact E db contactID = Inr pt \<and> list_all2 (line_priced db pt) raw items)"
  by (rule normalized_lines[OF assms])

section \<open>Creating an order\<close>

lemma CreateE:
  assumes "Create R u p db = (Inr od, db')"
  obtains v items db1 r db2 db3 where "normalizeOrderItems R (rq_env R 0) (trim_space (cp_contact p)) (cp_items p) db = (Inr items, db1)"
    "insert_order (rq_env R 4) v p (o_status od) items db1 = (r, db2)" "od = scanOrder db2 r"
    "(if o_status od = ''completed'' then record_income R 5 v od db2 else (None, db2)) = (None, db3)"
    "sync_stock R 6 v (o_id od) (o_status od) (o_items od) db3 = (None, db')" "o_status od = create_status p"
proof -
  let ?st = "create_status p"
  have "\<exists>v items db1 r db2 db3. normalizeOrderItems R (rq_env R 0) (trim_space (cp_contact p)) (cp_items p) db = (Inr items, db1)
      \<and> insert_order (rq_env R 4) v p ?st items db1 = (r, db2) \<and> od = scanOrder db2 r
      \<and> (if ?st = ''completed'' then record_income R 5 v od db2 else (None, db2)) = (None, db3)
      \<and> sync_stock R 6 v (o_id od) (o_status od) (o_items od) db3 = (None, db')"
    using assms unfolding Create_def try_reply_Inr reply_bind_Inr in_tx_Inr then_out_Inr sql_wrap_Inr Let_def
    by (elim exE conjE) (intro exI conjI, assumption, simp, auto)
  then obtain v items db1 r db2 db3 where
      c: "normalizeOrderItems R (rq_env R 0) (trim_space (cp_contact p)) (cp_items p) db = (Inr items, db1)"
      "insert_order (rq_env R 4) v p ?st items db1 = (r, db2)" "od = scanOrder db2 r"
      "(if ?st = ''completed'' then record_income R 5 v od db2 else (None, db2)) = (None, db3)"
      "sync_stock R 6 v (o_id od) (o_status od) (o_items od) db3 = (None, db')"
    by (elim exE conjE)
  have "o_status od = ?st" using c(2,3) by (auto simp: insert_order_def Let_def)
  then show ?thesis using that[OF c(1)] c(2-5) by simp
qed

lemma insert_order_row:
  assumes "insert_order E v p status items db = (r, db')" "\<forall>x\<in>set (orders db). od_id x \<noteq> od_id r"
  shows "find_order db' (od_id r) = Some r" "same_items (ot db) (ot db')" "fin (ot db') = fin (ot db)" "od_items r = items"
    "od_subtotal r = db_numeric E (items_subtotal items)"
proof -
  have o: "orders db' = orders db @ [r]" "od_deleted r = None" using assms(1) by (auto simp: insert_order_def Let_def)
  have "find (\<lambda>x. od_id x = od_id r \<and> od_deleted x = None) (orders db) = None"
    using assms(2) by (auto simp: find_None_iff)
  then show "find_order db' (od_id r) = Some r" using o by (simp add: find_order_def find_append)
  show "same_items (ot db) (ot db')" "fin (ot db') = fin (ot db)" "od_items r = items"
    "od_subtotal r = db_numeric E (items_subtotal items)"
    using assms(1) by (auto simp: insert_order_def Let_def same_items_def)
qed


section \<open>Editing an order\<close>

definition update_status :: "UpdateOrderParams \<Rightarrow> string" where
  "update_status q = (case up_status q of None \<Rightarrow> [] | Some s \<Rightarrow> norm_key s)"

lemma set_if_keeps: "(\<And>x s. g (f x s) = g s) \<Longrightarrow> g (set_if v f s) = g s"
  by (cases v) (simp_all add: set_if_def)

lemma set_if_simps [simp]: "set_if None f s = s" "set_if (Some x) f s = f x s"
  by (simp_all add: set_if_def)

lemma apply_update_keeps: "keeps_id (apply_update E q items st)"
  by (simp add: keeps_id_def apply_update_def Let_def set_if_keeps[where g = od_id] set_if_keeps[where g = od_deleted])

lemma apply_update_sel:
  "od_status (apply_update E q items st r) = (if st = [] then od_status r else st)"
  "od_items (apply_update E q items st r) = (case items of None \<Rightarrow> od_items r | Some is \<Rightarrow> is)"
  "od_total (apply_update E q items st r) = new_total E (map_option items_subtotal items) (up_shipping q) r"
proof -
  show "od_status (apply_update E q items st r) = (if st = [] then od_status r else st)"
    "od_total (apply_update E q items st r) = new_total E (map_option items_subtotal items) (up_shipping q) r"
    by (simp_all add: apply_update_def Let_def set_if_keeps[where g = od_status] set_if_keeps[where g = od_total])
  show "od_items (apply_update E q items st r) = (case items of None \<Rightarrow> od_items r | Some is \<Rightarrow> is)"
    by (cases items) (simp_all add: apply_update_def Let_def set_if_keeps[where g = od_items])
qed

lemma UpdateE:
  assumes "Update R u i q db = (Inr od, db')"
  obtains v items db1 db2 db3 where "catalog_only db db1"
    "up_status q \<noteq> None \<longrightarrow> update_status q \<in> set validOrderStatuses"
    "write_order (rq_env R 5) ''order.update'' ''update order: %w'' i (apply_update (rq_env R 5) q items (update_status q))
      (map_option nullUUID (up_wallet q)) db1 = Inr (od, db2)"
    "(if update_status q = ''completed'' then resync_income R 6 v od db2
      else if update_status q = ''draft'' \<or> update_status q = ''cancelled'' then remove_income R 6 (o_id od) db2
      else if shouldResyncCompletedOrderIncome (update_status q) (o_status od) (items \<noteq> None)
                (up_shipping q \<noteq> None) (up_wallet q \<noteq> None) then resync_income R 6 v od db2
      else (None, db2)) = (None, db3)"
    "(if update_status q \<noteq> [] \<or> up_items q \<noteq> [] then sync_stock R 7 v (o_id od) (o_status od) (o_items od) db3
      else (None, db3)) = (None, db')"
    "items \<noteq> None \<longleftrightarrow> up_items q \<noteq> []"
    "\<And>is. items = Some is \<Longrightarrow>
      normalizeOrderItems R (rq_env R 0) (update_contact (rq_env R 0) i q db) (up_items q) db = (Inr is, db1)"
proof -
  let ?norm = "if up_items q \<noteq> []
      then (case normalizeOrderItems R (rq_env R 0) (update_contact (rq_env R 0) i q db) (up_items q) db of
              (Inl e, db1) \<Rightarrow> (Inl e, db1) | (Inr is, db1) \<Rightarrow> (Inr (Some is), db1))
      else (Inr None, db)"
  let ?w = "\<lambda>items db1. write_order (rq_env R 5) ''order.update'' ''update order: %w'' i
      (apply_update (rq_env R 5) q items (update_status q)) (map_option nullUUID (up_wallet q)) db1"
  let ?inc = "\<lambda>v items db2. if update_status q = ''completed'' then resync_income R 6 v od db2
      else if update_status q = ''draft'' \<or> update_status q = ''cancelled'' then remove_income R 6 (o_id od) db2
      else if shouldResyncCompletedOrderIncome (update_status q) (o_status od) (items \<noteq> None)
                (up_shipping q \<noteq> None) (up_wallet q \<noteq> None) then resync_income R 6 v od db2
      else (None, db2)"
  let ?sync = "\<lambda>v db3. if update_status q \<noteq> [] \<or> up_items q \<noteq> []
      then sync_stock R 7 v (o_id od) (o_status od) (o_items od) db3 else (None, db3)"
  have "\<exists>v items db1 db2 db3. ?norm = (Inr items, db1) \<and> (up_status q \<noteq> None \<longrightarrow> update_status q \<in> set validOrderStatuses)
      \<and> ?w items db1 = Inr (od, db2) \<and> ?inc v items db2 = (None, db3) \<and> ?sync v db3 = (None, db')"
    using assms
    unfolding Update_def try_reply_Inr reply_bind_Inr in_tx_Inr then_out_Inr guard_eq_Inr Let_def update_status_def[symmetric]
      prod.inject sum.inject
    by (elim exE conjE, hypsubst) (intro exI conjI, assumption+)
  then obtain v items db1 db2 db3 where c: "?norm = (Inr items, db1)"
      "up_status q \<noteq> None \<longrightarrow> update_status q \<in> set validOrderStatuses"
      "?w items db1 = Inr (od, db2)" "?inc v items db2 = (None, db3)" "?sync v db3 = (None, db')"
    by (elim exE conjE)
  have "catalog_only db db1 \<and> (items \<noteq> None \<longleftrightarrow> up_items q \<noteq> []) \<and> (\<forall>is. items = Some is \<longrightarrow>
      normalizeOrderItems R (rq_env R 0) (update_contact (rq_env R 0) i q db) (up_items q) db = (Inr is, db1))"
  proof (cases "up_items q = []")
    case False
    obtain x y where n: "normalizeOrderItems R (rq_env R 0) (update_contact (rq_env R 0) i q db) (up_items q) db = (x, y)"
      by (cases "normalizeOrderItems R (rq_env R 0) (update_contact (rq_env R 0) i q db) (up_items q) db")
    then show ?thesis using c(1) False normalize_only[OF n] by (cases x) auto
  qed (use c(1) in simp)
  then show ?thesis using that[of db1 items db2 v db3] c(2-5) by blast
qed

text \<open>What the edit does to the income of the order.\<close>

definition income_edited :: "req \<Rightarrow> UpdateOrderParams \<Rightarrow> Order \<Rightarrow> fin_db \<Rightarrow> fin_db \<Rightarrow> bool" where
  "income_edited R q od fd fd' =
     (if update_status q = ''completed'' \<or> shouldResyncCompletedOrderIncome (update_status q) (o_status od)
           (up_items q \<noteq> []) (up_shipping q \<noteq> None) (up_wallet q \<noteq> None)
      then if 0 < o_total od then one_income fd' (o_id od) (db_money (rq_env R 6) (o_total od)) else no_income fd' (o_id od)
      else if update_status q = ''draft'' \<or> update_status q = ''cancelled'' then no_income fd' (o_id od)
      else live_income fd' (o_id od) = live_income fd (o_id od))"

lemma income_edited_cong:
  "live_income fd1 (o_id od) = live_income fd2 (o_id od) \<Longrightarrow> income_edited R q od fd fd1 = income_edited R q od fd fd2"
  by (simp add: income_edited_def no_income_def one_income_def)

lemma income_step:
  assumes "(if update_status q = ''completed'' then resync_income R 6 v od db
      else if update_status q = ''draft'' \<or> update_status q = ''cancelled'' then remove_income R 6 (o_id od) db
      else if shouldResyncCompletedOrderIncome (update_status q) (o_status od) (up_items q \<noteq> [])
                (up_shipping q \<noteq> None) (up_wallet q \<noteq> None) then resync_income R 6 v od db
      else (None, db)) = (None, db')"
    and i: "plain_id (o_id od)"
  shows "orders db' = orders db \<and> same_items (ot db) (ot db') \<and> income_edited R q od (fin (ot db)) (fin (ot db'))"
proof -
  let ?re = "shouldResyncCompletedOrderIncome (update_status q) (o_status od) (up_items q \<noteq> [])
      (up_shipping q \<noteq> None) (up_wallet q \<noteq> None)"
  have no_re: "\<not> ?re" if "update_status q = ''draft'' \<or> update_status q = ''cancelled''"
    using that by (auto simp: shouldResyncCompletedOrderIncome_def)
  consider (resync) "update_status q = ''completed'' \<or> ?re" "\<not> (update_status q = ''draft'' \<or> update_status q = ''cancelled'')"
    | (remove) "update_status q = ''draft'' \<or> update_status q = ''cancelled''" "\<not> ?re"
    | (keep) "update_status q \<noteq> ''completed''" "\<not> ?re" "\<not> (update_status q = ''draft'' \<or> update_status q = ''cancelled'')"
    using no_re by fastforce
  then show ?thesis
  proof cases
    case resync
    then have "resync_income R 6 v od db = (None, db')" using assms(1) by (auto split: if_splits)
    from resync_income_frame[OF this i] show ?thesis using resync(1) by (simp add: income_edited_def)
  next
    case remove
    then have "remove_income R 6 (o_id od) db = (None, db')" using assms(1) by auto
    from remove_income_frame[OF this i] show ?thesis using remove by (auto simp: income_edited_def)
  next
    case keep
    then show ?thesis using assms(1) by (simp add: income_edited_def)
  qed
qed


section \<open>Cancelling and deleting\<close>

text \<open>Nothing of the order is left in the books or held from the stock.\<close>

definition withdrawn :: "order_db \<Rightarrow> string \<Rightarrow> bool" where
  "withdrawn db i \<longleftrightarrow> no_income (fin (ot db)) i \<and> (\<forall>k. order_held (inv (ot db)) i k = 0)"

lemma cancelled_demand: "status_demand t ''cancelled'' items = []"
  by (simp add: status_demand_def IsCommittedOrderStatus_def committedOrderStatuses_def norm_key_def plain_trim plain_text_def)

lemma cancelled_sync:
  assumes "sync_stock R n v i ''cancelled'' items db = (None, db')" "plain_id i"
    and "stock_exact R n i ''cancelled'' items t" "same_items t (ot db)"
  shows "\<forall>k. order_held (inv (ot db')) i k = 0"
  using sync_stock_holds[OF assms] by (simp add: holds_demand_def cancelled_demand key_total_def)

lemma restore_stockE:
  assumes "restore_stock R n v i db = (None, db')" "find_order db i = Some r" "\<not> db_fails (rq_env R n) ''order.items''"
  shows "sync_stock R (Suc n) v i ''cancelled'' (od_items r) db = (None, db')"
  using assms by (simp add: restore_stock_def loadOrderItems_def)

lemma mark_deleted_gone: "i \<in> set ids \<Longrightarrow> find_order (snd (mark_deleted E v ids db)) i = None"
proof -
  assume i: "i \<in> set ids"
  have "find (\<lambda>r. od_id r = i \<and> od_deleted r = None) (map (\<lambda>r. if od_id r \<in> set ids \<and> od_deleted r = None
      then r\<lparr>od_deleted := Some (db_now E, AccountID v), od_updated := db_now E\<rparr> else r) rs) = None" for rs
    using i by (induction rs) simp_all
  then show ?thesis by (simp add: mark_deleted_def find_order_def)
qed

lemma cancel_withdraws:
  assumes run: "Cancel R u orderID db = (Inr od, db')" and i: "plain_id orderID" and f: "find_order db orderID = Some r"
    and ex: "stock_exact R 3 orderID ''cancelled'' (od_items r) (ot db)"
  shows "withdrawn db' orderID \<and> map_option od_status (find_order db' orderID) = Some ''cancelled''"
proof -
  let ?f = "\<lambda>r. r\<lparr>od_status := ''cancelled'', od_updated := db_now (rq_env R 1)\<rparr>"
  from run obtain v db1 db2 where c: "write_order (rq_env R 1) ''order.cancel'' ''cancel order: %w'' orderID ?f None db = Inr (od, db1)"
      "remove_income R 2 (o_id od) db1 = (None, db2)" "sync_stock R 3 v (o_id od) ''cancelled'' (o_items od) db2 = (None, db')"
    unfolding Cancel_def try_reply_Inr in_tx_Inr then_out_Inr guard_eq_Inr prod.inject sum.inject
    by (elim exE conjE, hypsubst)
  have k: "keeps_id ?f" by (simp add: keeps_id_def)
  from write_orderE[OF c(1) k] obtain r' where r': "find_order db orderID = Some r'" "od_id r' = orderID" "od = scanOrder db1 (?f r')"
      "find_order db1 orderID = Some (?f r')" "same_items (ot db) (ot db1)" .
  have "r' = r" using r'(1) f by simp
  note w = r'(2-5)[unfolded this]
  have od: "o_id od = orderID" "o_items od = od_items r" using w(1,2) by simp_all
  note rm = remove_income_frame[OF c(2)[unfolded od] i]
  note s = sync_stock_frame[OF c(3)[unfolded od]]
  have "\<forall>k. order_held (inv (ot db')) orderID k = 0"
    by (rule cancelled_sync[OF c(3)[unfolded od] i ex]) (rule same_items_trans[OF w(4) rm(2)])
  moreover have "no_income (fin (ot db')) orderID" using rm(3) no_income_cong[OF s(2)] i by (simp add: plain_id_def)
  moreover have "find_order db' orderID = Some (?f r)" using w(3) rm(1) s(1) by (simp add: find_order_def)
  ultimately show "withdrawn db' orderID \<and> map_option od_status (find_order db' orderID) = Some ''cancelled''"
    by (simp add: withdrawn_def)
qed

lemma delete_withdraws:
  assumes run: "Delete R u orderID db = (Inr (), db')" and i: "plain_id orderID" and f: "find_order db orderID = Some r"
    and ex: "stock_exact R 2 orderID ''cancelled'' (od_items r) (ot db)" and l: "\<not> db_fails (rq_env R 1) ''order.items''"
  shows "withdrawn db' orderID \<and> find_order db' orderID = None"
proof -
  from run obtain v db1 db2 where c: "remove_income R 0 orderID db = (None, db1)" "restore_stock R 1 v orderID db1 = (None, db2)"
      "db' = snd (mark_deleted (rq_env R 3) v [orderID] db2)"
    unfolding Delete_def by (auto simp: res_simps split: if_splits)
  note rm = remove_income_frame[OF c(1) i]
  have f1: "find_order db1 orderID = Some r" using f rm(1) by (simp add: find_order_def)
  have sy: "sync_stock R 2 v orderID ''cancelled'' (od_items r) db1 = (None, db2)"
    using restore_stockE[OF c(2) f1 l] by (simp add: numeral_2_eq_2)
  note s = sync_stock_frame[OF sy]
  have "\<forall>k. order_held (inv (ot db2)) orderID k = 0" by (rule cancelled_sync[OF sy i ex rm(2)])
  moreover have "no_income (fin (ot db2)) orderID" using rm(3) no_income_cong[OF s(2)] i by (simp add: plain_id_def)
  moreover have "ot db' = ot db2" "find_order db' orderID = None"
    unfolding c(3) by (simp add: mark_deleted_def) (simp add: mark_deleted_gone)
  ultimately show "withdrawn db' orderID \<and> find_order db' orderID = None" by (simp add: withdrawn_def)
qed

lemma delete_keeps_stock:
  assumes run: "Delete R u orderID db = (Inr (), db')" and i: "plain_id orderID" and l: "db_fails (rq_env R 1) ''order.items''"
  shows "find_order db' orderID = None \<and> no_income (fin (ot db')) orderID \<and> inv (ot db') = inv (ot db)"
proof -
  from run obtain v db1 db2 where c: "remove_income R 0 orderID db = (None, db1)" "restore_stock R 1 v orderID db1 = (None, db2)"
      "db' = snd (mark_deleted (rq_env R 3) v [orderID] db2)"
    unfolding Delete_def by (auto simp: res_simps split: if_splits)
  note rm = remove_income_frame[OF c(1) i]
  have "db2 = db1" using c(2) l by (simp add: restore_stock_def loadOrderItems_def)
  moreover have "ot db' = ot db2" "find_order db' orderID = None"
    unfolding c(3) by (simp add: mark_deleted_def) (simp add: mark_deleted_gone)
  ultimately show ?thesis using rm by (simp add: same_items_def)
qed


section \<open>A batch that stops half-way\<close>

lemma calls_keep_orders:
  "orders (snd (record_income R n v od db)) = orders db" "orders (snd (remove_income R n i db)) = orders db"
  "orders (snd (sync_stock R n v i st items db)) = orders db"
  by (auto simp: record_income_def remove_income_def sync_stock_def in_books_def in_tenant_def set_ofin_def try_out_def
      split: prod.splits sum.splits)

lemma seq_out_orders:
  assumes "orders (snd r) = orders db" "\<And>s. orders s = orders db \<Longrightarrow> orders (snd (f s)) = orders db"
  shows "orders (snd (seq_out r f)) = orders db"
  using assms by (cases r) (auto simp: seq_out_def split: option.splits)

lemma batch_effects_orders: "orders (snd (batch_effects R n v st os db)) = orders db"
proof (induction os arbitrary: n db)
  case (Cons od os)
  let ?inc = "if st = ''completed'' then record_income R n v od db
      else if st = ''draft'' \<or> st = ''cancelled'' then remove_income R n (o_id od) db else (None, db)"
  have "orders (snd ?inc) = orders db" by (simp add: calls_keep_orders)
  then show ?case unfolding batch_effects.simps
    by (rule seq_out_orders) (rule seq_out_orders, simp add: calls_keep_orders, simp add: Cons.IH)
qed simp

lemma try_reply_keeps: "(\<And>x. m = Inr x \<Longrightarrow> snd (f x) = s) \<Longrightarrow> snd (try_reply s m f) = s"
  by (cases m) simp_all

lemma batch_idle:
  assumes "[r \<leftarrow> orders db. batch_target (norm_key st) (batchIDs ids) r] = []" "rq_scan R [] = []"
  shows "snd (BatchUpdateStatus R u ids st db) = db"
proof -
  have no: "\<forall>r\<in>set (orders db). \<not> batch_target (norm_key st) (batchIDs ids) r"
    using assms(1) by (simp add: filter_empty_conv)
  have m: "map (\<lambda>r. if batch_target (norm_key st) (batchIDs ids) r
      then r\<lparr>od_status := norm_key st, od_updated := db_now E\<rparr> else r) (orders db) = orders db" for E
    using no by (intro map_idI) auto
  have w: "batch_write E (norm_key st) (batchIDs ids) db = db" for E unfolding batch_write_def m by simp
  have c: "[f r. r \<leftarrow> orders db, batch_target (norm_key st) (batchIDs ids) r] = []" for f
    using no by (auto simp: filter_empty_conv concat_map_if)
  show ?thesis unfolding BatchUpdateStatus_def Let_def
    by (intro try_reply_keeps) (simp add: sql_wrap_Inr w c assms(2))
qed

text \<open>The rows are written before the first income is recorded, and no error undoes them.\<close>

lemma batch_written:
  assumes "BatchUpdateStatus R u ids st db = (Inl e, db')" "db' \<noteq> db"
  shows "orders db' = orders (batch_write (rq_env R 2) (norm_key st) (batchIDs ids) db)"
proof -
  let ?w = "batch_write (rq_env R 2) (norm_key st) (batchIDs ids) db"
  from assms obtain v n os where "batch_effects R n v (norm_key st) os ?w = (Some e, db')"
    unfolding BatchUpdateStatus_def Let_def try_reply_eq
    by (auto simp: then_out_Inl sql_wrap_Inr)
  then show ?thesis using batch_effects_orders[of R n v "norm_key st" os ?w] by simp
qed

text \<open>
  C33: A batch that completes orders marks all of them first and records their incomes and stock one by
  one. When one of those steps fails, every order of the batch is already stored as completed, and
  a retry of the same batch, in whatever environment, changes nothing at all: the incomes and stock
  movements that were still missing are never made up.
\<close>

theorem BatchUpdateStatus_retry_skips:
  assumes "BatchUpdateStatus R u ids st db = (Inl e, db')" "db' \<noteq> db" "norm_key st = ''completed''"
    and "rq_scan R' [] = []"
  shows "(\<forall>r\<in>set (orders db'). od_id r \<in> set (batchIDs ids) \<and> od_deleted r = None \<longrightarrow> od_status r = ''completed'')
    \<and> snd (BatchUpdateStatus R' u' ids st db') = db'"
proof -
  note w = batch_written[OF assms(1,2), unfolded assms(3)]
  have no: "\<forall>r\<in>set (orders db'). \<not> batch_target ''completed'' (batchIDs ids) r"
    unfolding w batch_write_def by (auto simp: batch_target_def)
  then have "[r \<leftarrow> orders db'. batch_target (norm_key st) (batchIDs ids) r] = []"
    by (simp add: filter_empty_conv assms(3))
  from batch_idle[OF this assms(4)] no show ?thesis by (auto simp: batch_target_def)
qed

section \<open>A concrete shop\<close>

definition sample_line :: OrderItem where
  "sample_line = \<lparr>it_line = ''1'', it_item = ''p'', it_code = ''K1'', it_name = ''Kopi'', it_variant = [], it_size = [],
     it_color = [], it_qty = 3, it_price = 2, it_unit = [], it_wh = []\<rparr>"

definition sample_order :: order_rec where
  "sample_order = \<lparr>od_id = ''o1'', od_conv = Some ''c1'', od_contact = None, od_items = [sample_line], od_addr = None,
     od_notes = [], od_status = ''processing'', od_tracking = [], od_courier = [], od_payment = None,
     od_paystatus = ''proof_submitted'', od_proof = Some ''m1'', od_submitted = Some 3, od_verified = None,
     od_verifier = None, od_meta = no_meta, od_subtotal = 60000, od_shipping = 0, od_total = 60000, od_by = ''a'',
     od_created = 2, od_updated = 3, od_deleted = None\<rparr>"

definition sample_shop :: order_db where
  "sample_shop = \<lparr>ot = sample_tenant, orders = [sample_order],
     price_types = [\<lparr>pt_id = ''umum'', pt_label = ''Umum'', pt_default = True, pt_order = 0, pt_active = True, pt_deleted = False\<rparr>],
     contacts = Map.empty, item_prices = Map.empty,
     cat_rows = [\<lparr>ci_id = ''p'', ci_code = ''K1'', ci_unit = None, ci_price = Some 20000, ci_source = [], ci_updated = 0\<rparr>],
     msgs = [], ord_next = 0, cat_next = 0\<rparr>"

definition sample_clk :: clock where
  "sample_clk = \<lparr>ck_period = ''2026-01'', ck_today = ''2026-01-02'', ck_local = ''2026-01-02''\<rparr>"

definition sample_req :: req where
  "sample_req = \<lparr>rq_env = (\<lambda>_. sample_env), rq_item = (\<lambda>_. sample_env), rq_clock = (\<lambda>_. sample_clk), rq_ord = (\<lambda>_. id),
     rq_scan = id, rq_nano = 0, rq_line = (\<lambda>_. ''1'')\<rparr>"

definition sample_new :: CreateOrderParams where
  "sample_new = \<lparr>cp_conv = [], cp_contact = [], cp_items = [sample_line\<lparr>it_price := 0\<rparr>], cp_addr = None, cp_notes = [],
     cp_status = ''paid'', cp_tracking = [], cp_courier = [], cp_shipping = 0, cp_wallet = []\<rparr>"


lemma sample_req_sel [simp]:
  "rq_env sample_req n = sample_env" "rq_item sample_req n = sample_env" "rq_clock sample_req n = sample_clk"
  "rq_ord sample_req n = id" "rq_scan sample_req = id" "rq_line sample_req n = ''1''"
  by (simp_all add: sample_req_def)

lemma sample_env_fails [simp]: "\<not> db_fails sample_env l"
  using sample_env_ok by (simp add: healthy_def)

lemma sample_sales: "getSalesUser sample_owner = Inr (the sample_owner)" "requireOwner (the sample_owner) = Inr ()"
  by (simp_all add: sample_owner_def getSalesUser_def requireOwner_def HasEffectiveTenantContext_def RequireModule_def
      CanPerformOwnerActions_def)

lemma sample_words:
  "trim_space [] = []" "trim_space ''p'' = ''p''" "trim_space ''1'' = ''1''" "trim_space ''o1'' = ''o1''" "trim_space ''u'' = ''u''"
  "norm_key ''paid'' = ''paid''" "norm_key ''cancelled'' = ''cancelled''" "norm_key ''completed'' = ''completed''"
  "norm_key ''processing'' = ''processing''" "dec4 20000 = 2" "opt_text None = []"
  by code_simp+

lemma sample_normalized:
  "normalizeOrderItems sample_req sample_env [] [sample_line\<lparr>it_price := x\<rparr>] sample_shop = (Inr [sample_line], sample_shop)"
  by (simp add: normalizeOrderItems_def ResolvePriceTypeIDForContact_def ResolveDefaultPriceTypeID_def resolveCatalogItem_def loadCatalogOrderItem_def
     ResolveCatalogUnitPrice_def cat_matches_def live_name_def find_cat_def sample_shop_def sample_tenant_def sample_line_def
     sample_words no_item_def)

lemma sample_precheck: "precheck sample_req n i [sample_line] sample_shop = Inr ()"
  by (simp add: precheck_def PrecheckOrderStock_def analyzeOrderStockShortageConn_def sample_shop_def sample_tenant_def loadSyncSetting_def prepareTenant_def)

lemma sample_no_income: "RemoveOrderIncomeTransaction sample_env ''o1'' sample_books = Inr sample_books"
   by (simp add: RemoveOrderIncomeTransaction_def sample_words prepareTenant_def sample_books_def)


lemma sample_stock_items: "orderStockItems [sample_line] = sample_items"
  by (simp add: orderStockItems_def sample_line_def sample_items_def sample_words)

lemma sample_rows_of: "order_rows_of (inv sample_tenant) i = []"
  by (simp add: sample_tenant_def order_rows_of_def sale_row_def has_ref_def sample_db_def sample_movement_def)

lemma sample_completed_demand: "status_demand sample_tenant ''completed'' sample_items = [((''p'', ''w''), dec4 30000)]"
  by code_simp

lemma sample_exact:
  assumes "st \<in> {''paid'', ''completed'', ''cancelled''}" "same_items sample_tenant t"
  shows "sync_exact t i st sample_items"
proof -
  have "status_demand sample_tenant st sample_items \<in> {[], [((''p'', ''w''), dec4 30000)]}"
    using assms(1) sample_demand sample_completed_demand cancelled_demand by auto
  then show ?thesis using sync_exact_same[OF assms(2), of i st sample_items]
    by (auto simp: sync_exact_def sample_rows_of entries_ok_def tally_ok_def small4_def)
qed

lemma sample_money:
  "returns (resolveIncomeWallet sample_env sample_books [])" "ensurePeriodUnlocked sample_env sample_books (walletPeriod ''2026-01'' ''2026-01-02'') = Inr ()"
  by code_simp+

lemma sample_stock_runs:
  assumes "st \<in> {''paid'', ''completed'', ''cancelled''}" "same_items sample_tenant (ot db)"
    and "same_setup sample_books (fin (ot db))" "income_wallet (ot db) i = []"
  shows "\<exists>db'. sync_stock sample_req n (the sample_owner) i st [sample_line] db = (None, db')"
proof -
  have s: "inv_setting (inv (ot db)) = Some \<lparr>st_setup = True, st_method = CostingFIFO, st_block = False, st_expense = False\<rparr>"
    using assms(2) sample_tenant_inv(1) by (simp add: same_items_def)
  have "returns (resolveIncomeWallet sample_env (fin (ot db)) (income_wallet (ot db) i))"
    "returns (ensurePeriodUnlocked sample_env (fin (ot db)) (walletPeriod ''2026-01'' ''2026-01-02''))"
    using sample_money by (simp_all add: assms(4) resolve_wallet_frame[OF assms(3)] period_frame[OF assms(3)] returns_def)
  from sync_total[OF sample_env_ok numeric_ok_sample s sample_exact[OF assms(1,2)] _ this money_ok_sample, of id "AccountID (the sample_owner)"]
  obtain t where "SyncOrderStock sample_env ''2026-01'' ''2026-01-02'' id i st sample_items (AccountID (the sample_owner)) (ot db) = (None, t)"
    by auto
  then show ?thesis by (simp add: sync_stock_def in_tenant_def sample_stock_items sample_clk_def)
qed

lemma sample_stock_exact:
  "st \<in> {''paid'', ''completed'', ''cancelled''} \<Longrightarrow> stock_exact sample_req n i st [sample_line] sample_tenant"
  using sample_exact[of st sample_tenant i] sample_tenant_inv(1) sample_on_hand
  by (simp add: stock_exact_def numeric_ok_sample ranges_id sample_stock_items same_items_def same_config_def)

lemma sample_created: "\<exists>od db'. Create sample_req sample_owner sample_new sample_shop = (Inr od, db') \<and> o_id od = ''u''
  \<and> o_status od = ''paid'' \<and> o_items od = [sample_line]"
proof -
  obtain r db2 where r: "insert_order sample_env (the sample_owner) sample_new ''paid'' [sample_line] sample_shop = (r, db2)"
    by (cases "insert_order sample_env (the sample_owner) sample_new ''paid'' [sample_line] sample_shop")
  have f: "od_id r = ''u''" "od_status r = ''paid''" "od_items r = [sample_line]" "same_items sample_tenant (ot db2)"
     "fin (ot db2) = sample_books" "income_wallet (ot db2) ''u'' = []"
    using r by (auto simp: insert_order_def Let_def sample_new_def sample_shop_def sample_env_def same_items_def same_config_def sample_tenant_def nullUUID_def sample_words
      income_wallet_def)
  obtain db' where s: "sync_stock sample_req 6 (the sample_owner) ''u'' ''paid'' [sample_line] db2 = (None, db')"
    using sample_stock_runs[of "''paid''" db2 "''u''" 6] f(4-6) by auto
  have "ValidateIncomeWallet sample_env (fin (ot sample_shop)) [] = Inr ()"
    by (simp add: ValidateIncomeWallet_def sample_words)
  then have "Create sample_req sample_owner sample_new sample_shop = (Inr (scanOrder db2 r), db')"
    using r f s sample_normalized[of 0] sample_precheck
    by (simp add: Create_def sample_sales sample_new_def sample_words create_status_def validOrderStatuses_def then_out_def sql_wrap_def in_tx_def)
  then show ?thesis using f by simp
qed

definition sample_edit :: UpdateOrderParams where
  "sample_edit = \<lparr>up_contact = None, up_items = [], up_notes = None, up_status = Some ''cancelled'', up_tracking = None,
     up_courier = None, up_payment = None, up_shipping = None, up_wallet = None\<rparr>"

lemma sample_shop_sel: "find_order sample_shop ''o1'' = Some sample_order" "ot sample_shop = sample_tenant" "fin sample_tenant = sample_books"
  "od_items sample_order = [sample_line]" "od_id sample_order = ''o1''"
  by (simp_all add: sample_shop_def find_order_def sample_order_def sample_tenant_def)

text \<open>The row is written, the income removed, the stock restored.\<close>

lemma sample_write:
  assumes "keeps_id f" "od_items (f sample_order) = [sample_line]"
  shows "\<exists>db1 db2. write_order sample_env l m ''o1'' f None sample_shop = Inr (scanOrder db1 (f sample_order), db1)
     \<and> remove_income sample_req k ''o1'' db1 = (None, db1) \<and> sync_stock sample_req n (the sample_owner) ''o1'' ''cancelled'' [sample_line] db1 = (None, db2)"
proof -
  let ?db = "update_order ''o1'' f sample_shop"
  have "ot ?db = sample_tenant" by (simp add: update_order_def sample_shop_def)
  moreover have "income_wallet sample_tenant ''o1'' = []" by (simp add: income_wallet_def sample_tenant_def)
  ultimately obtain db2 where "sync_stock sample_req n (the sample_owner) ''o1'' ''cancelled'' [sample_line] ?db = (None, db2)"
    using sample_stock_runs[of "''cancelled''" ?db "''o1''" n] by (auto simp: same_items_def sample_shop_sel)
  moreover have "remove_income sample_req k ''o1'' ?db = (None, ?db)"
    using sample_no_income \<open>ot ?db = sample_tenant\<close> by (simp add: remove_income_def sample_shop_sel set_ofin_def)
  ultimately show ?thesis by (auto simp: write_order_def sample_shop_sel set_if_def sql_wrap_def Let_def)
qed

lemma sample_updated: "\<exists>od db'. Update sample_req sample_owner ''o1'' sample_edit sample_shop = (Inr od, db')
   \<and> o_status od = ''cancelled'' \<and> o_items od = [sample_line]"
proof -
  let ?f = "apply_update sample_env sample_edit None ''cancelled''"
  have f: "od_items (?f sample_order) = [sample_line]" "od_status (?f sample_order) = ''cancelled''" "od_id (?f sample_order) = ''o1''"
    using apply_update_keeps[of sample_env sample_edit None "''cancelled''"]
    by (auto simp: apply_update_sel sample_edit_def sample_shop_sel keeps_id_def)
  show ?thesis using sample_write[OF apply_update_keeps f(1), of "''order.update''" "''update order: %w''" 6 7] f
   by (auto simp: Update_def sample_sales sample_edit_def sample_words no_update_def validOrderStatuses_def in_tx_def then_out_def Let_def
      IsCommittedOrderStatus_def committedOrderStatuses_def)
qed

lemma sample_cancelled: "\<exists>od db'. Cancel sample_req sample_owner ''o1'' sample_shop = (Inr od, db')"
  using sample_write[of "\<lambda>r. r\<lparr>od_status := ''cancelled'', od_updated := db_now sample_env\<rparr>" "''order.cancel''" "''cancel order: %w''" 2 3]
  by (auto simp: Cancel_def sample_sales in_tx_def then_out_def sample_shop_sel keeps_id_def)

lemma sample_deleted: "\<exists>db'. Delete sample_req sample_owner ''o1'' sample_shop = (Inr (), db')"
proof -
  from sample_write[of "\<lambda>r. r" "[]" "[]" 0 2] obtain db2 where d: "remove_income sample_req 0 ''o1'' sample_shop = (None, sample_shop)"
     "sync_stock sample_req 2 (the sample_owner) ''o1'' ''cancelled'' [sample_line] sample_shop = (None, db2)"
    by (auto simp: write_order_def sample_shop_sel set_if_def sql_wrap_def update_order_def keeps_id_def Let_def)
  have "orders db2 = [sample_order]" using sync_stock_frame(1)[OF d(2)] by (simp add: sample_shop_def)
  then show ?thesis using d
    by (simp add: Delete_def sample_sales then_out_def in_tx_def restore_stock_def loadOrderItems_def sample_shop_sel sql_wrap_def
      mark_deleted_def numeral_2_eq_2) (simp add: sample_order_def)
qed

lemma sample_fresh: "\<forall>i k. live_name (ot sample_shop) (db_uuid (rq_item sample_req i) k) = None"
  by (simp add: live_name_def sample_shop_def sample_tenant_def sample_env_def)




theorem normalizeOrderItems_prices_witness:
  "normalizeOrderItems sample_req sample_env [] [sample_line\<lparr>it_price := 0\<rparr>] sample_shop = (Inr [sample_line], sample_shop)
     \<and> catalog_price sample_shop ''p'' ''umum'' = 2"
proof -
  have pt: "ResolvePriceTypeIDForContact sample_env sample_shop [] = Inr ''umum''"
    by (simp add: ResolvePriceTypeIDForContact_def ResolveDefaultPriceTypeID_def sample_shop_def)
  from normalizeOrderItems_prices[OF sample_normalized sample_fresh] pt
  have "line_priced sample_shop ''umum'' (sample_line\<lparr>it_price := 0\<rparr>) sample_line" by simp
  then have "it_price sample_line = catalog_price sample_shop (it_item sample_line) ''umum''"
    by (simp add: line_priced_def sample_line_def live_name_def sample_shop_def sample_tenant_def)
  then show ?thesis using sample_normalized by (simp add: sample_line_def)
qed

text \<open>The database loses the connection while the incomes are being recorded.\<close>

definition lost_req :: req where
  "lost_req = sample_req\<lparr>rq_env := (\<lambda>n. if n < 4 then sample_env else sample_env\<lparr>db_fails := (\<lambda>_. True)\<rparr>)\<rparr>"

theorem BatchUpdateStatus_retry_skips_witness:
  "\<exists>e db'. BatchUpdateStatus lost_req sample_owner [''o1''] ''completed'' sample_shop = (Inl e, db')
     \<and> map od_status (orders db') = [''completed''] \<and> no_income (fin (ot db')) ''o1''
     \<and> snd (BatchUpdateStatus sample_req sample_owner [''o1''] ''completed'' db') = db'"
proof -
  let ?db = "batch_write sample_env ''completed'' [''o1''] sample_shop"
  have p: "period_open lost_req 0 sample_shop = Inr ()"
    using sample_money(2) by (simp add: period_open_def CheckCurrentPeriodUnlocked_def lost_req_def sample_req_def sample_clk_def sample_shop_sel prepareTenant_def)
  have c: "precheck lost_req 3 ''o1'' [sample_line] sample_shop = Inr ()"
    using sample_precheck[of 3 "''o1''"] by (simp add: precheck_def lost_req_def)
  have ids: "batchIDs [''o1''] = [''o1'']" by (simp add: batchIDs_def sample_words)
  have o: "orders sample_shop = [sample_order]" by (simp add: sample_shop_def)
  have e: "\<exists>e. record_income lost_req 4 v od ?db = (Some e, ?db)" if "0 < o_total od" "trim_space (o_id od) \<noteq> []" for v od
    using that by (simp add: record_income_def in_books_def RecordOrderCompletedIncome_def prepareTenant_def lost_req_def sql_raw_def Let_def set_ofin_def)
  let ?od = "scanOrder ?db (sample_order\<lparr>od_status := ''completed'', od_updated := db_now sample_env\<rparr>)"
  have row: "od_deleted sample_order = None" "od_status sample_order = ''processing''" "od_total sample_order = 60000"
    by (simp_all add: sample_order_def)
  have env: "rq_env lost_req 1 = sample_env" "rq_env lost_req (Suc 0) = sample_env" "rq_env lost_req 2 = sample_env" "rq_scan lost_req = id"
    by (simp_all add: lost_req_def)
  have "0 < dec4 60000" by code_simp
  then obtain e where "record_income lost_req 4 (the sample_owner) ?od ?db = (Some e, ?db)"
    using e[of ?od "the sample_owner"] by (auto simp: row sample_shop_sel sample_words)
  moreover have "IsCommittedOrderStatus ''completed''"
    by (simp add: IsCommittedOrderStatus_def committedOrderStatuses_def sample_words)
  ultimately have b: "BatchUpdateStatus lost_req sample_owner [''o1''] ''completed'' sample_shop = (Inl e, ?db)"
    using p c
    by (simp add: BatchUpdateStatus_def sample_sales sample_words ids validOrderStatuses_def o batch_target_def Let_def row sample_shop_sel
      env sql_wrap_def shouldPrecheckBatchStockTransition_def then_out_def seq_out_def)
  have o': "orders ?db = [sample_order\<lparr>od_status := ''completed'', od_updated := db_now sample_env\<rparr>]"
    by (simp add: batch_write_def o batch_target_def row sample_shop_sel)
  then have "orders ?db \<noteq> orders sample_shop" using o by (simp add: sample_order_def)
  then have "?db \<noteq> sample_shop" by metis
  from BatchUpdateStatus_retry_skips[OF b this sample_words(8), of sample_req sample_owner] b o'
  show ?thesis by (simp add: no_income_def live_income_def batch_write_def sample_shop_sel sample_books_def)
qed

end
