(* ===== verification/Order_History.thy ===== *)
theory Order_History
  imports Order_Approve Order_Laws
begin

text \<open>
  Histories of order requests: any sequence of the module's handlers, with any outcome of their
  statements and calls, keeps every stored row well-formed.
\<close>

declare split_paired_All [simp del] split_paired_Ex [simp del]

section \<open>One request\<close>

inductive order_step :: "order_db \<Rightarrow> order_db \<Rightarrow> bool" where
  create: "Create R u p db = (res, db') \<Longrightarrow> order_step db db'"
| update: "Update R u i q db = (res, db') \<Longrightarrow> order_step db db'"
| cancel: "Cancel R u i db = (res, db') \<Longrightarrow> order_step db db'"
| delete: "Delete R u i db = (res', db') \<Longrightarrow> order_step db db'"
| batch_status: "BatchUpdateStatus R u ids st db = (n, db') \<Longrightarrow> order_step db db'"
| batch_delete: "BatchDelete R u ids db = (n, db') \<Longrightarrow> order_step db db'"
| verify: "VerifyPaymentProof R u i db = (res, db') \<Longrightarrow> order_step db db'"
| reject: "RejectPaymentProof R u i reason db = (res, db') \<Longrightarrow> order_step db db'"
| unblock: "UnblockPaymentProof R sent u i db = (res, db') \<Longrightarrow> order_step db db'"
| approve: "Approve R u i p' db = (res, db') \<Longrightarrow> order_step db db'"
| repair: "runTriageDraftRepair h h' R tp apply_it db = (tr, db') \<Longrightarrow> order_step db db'"

inductive_cases order_stepE: "order_step db db'"

section \<open>Invariants of the rows\<close>

lemma resync_keeps_orders: "orders (snd (resync_income R n v od db)) = orders db"
  by (auto simp: resync_income_def in_books_def set_ofin_def split: prod.splits)

lemma normalize_keeps_orders: "orders (snd (normalizeOrderItems R E c raw db)) = orders db"
  using normalize_only[of R E c raw db] by (cases "normalizeOrderItems R E c raw db") (simp add: catalog_only_def)

lemma claim_keeps_orders: "orders (snd (claim_stock E i db)) = orders db"
  by (simp add: claim_stock_def set_applied_def)

lemma release_keeps_orders: "orders (snd (release_stock E i tok db)) = orders db"
  by (simp add: release_stock_def set_applied_def)

lemmas keep_orders = calls_keep_orders resync_keeps_orders normalize_keeps_orders claim_keeps_orders release_keeps_orders

text \<open>
  A property of a row that every change a handler makes to one keeps. What a handler writes into a
  row it read before (the status or the proof record) comes from a row of the same table.
\<close>

locale row_invariant =
  fixes Q :: "order_rec \<Rightarrow> bool"
  assumes insert_law: "st \<in> set validOrderStatuses \<Longrightarrow> Q (fst (insert_order E v p st items db))"
    and update_law: "Q r \<Longrightarrow> st = [] \<or> st \<in> set validOrderStatuses \<Longrightarrow> Q (apply_update E q its st r)"
    and status_law: "Q r \<Longrightarrow> st \<in> set validOrderStatuses \<Longrightarrow> Q (r\<lparr>od_status := st, od_updated := t\<rparr>)"
    and delete_law: "Q r \<Longrightarrow> Q (r\<lparr>od_deleted := d, od_updated := t\<rparr>)"
    and verify_law: "Q r \<Longrightarrow> Q r0 \<Longrightarrow> st = od_status r0 \<or> st = ''processing'' \<Longrightarrow>
      Q (r\<lparr>od_paystatus := ''verified'', od_status := st, od_verified := Some t, od_verifier := Some w, od_updated := t\<rparr>)"
    and complete_law: "Q r \<Longrightarrow> Q (verified_row E v r)"
    and reject_law: "Q r \<Longrightarrow> Q r0 \<Longrightarrow> od_paystatus r0 \<noteq> ''verified'' \<Longrightarrow> Q (r\<lparr>od_paystatus := ''rejected'',
      od_meta := IncrementPaymentRejection (set_if reason (\<lambda>x m. m\<lparr>pm_reason := trim_space x\<rparr>) (od_meta r0)), od_updated := t\<rparr>)"
    and unblock_law: "Q r \<Longrightarrow> Q r0 \<Longrightarrow> Q (r\<lparr>od_meta := ResetPaymentProofBlock (od_meta r0), od_updated := t\<rparr>)"
    and repair_law: "Q r \<Longrightarrow> Q (r\<lparr>od_items := items, od_subtotal := a, od_total := b, od_updated := t\<rparr>)"
begin

definition rows_ok :: "order_db \<Rightarrow> bool" where
  "rows_ok db \<longleftrightarrow> (\<forall>r\<in>set (orders db). Q r)"

lemma rows_cong: "orders b = orders a \<Longrightarrow> rows_ok a \<Longrightarrow> rows_ok b"
  by (simp add: rows_ok_def)

lemma rows_try: "rows_ok s \<Longrightarrow> (\<And>x. m = Inr x \<Longrightarrow> rows_ok (snd (f x))) \<Longrightarrow> rows_ok (snd (try_reply s m f))"
  by (cases m) simp_all

lemma rows_tx:
  "rows_ok s \<Longrightarrow> (\<And>x t. m = Inr (x, t) \<Longrightarrow> rows_ok t) \<Longrightarrow> (\<And>x t. rows_ok t \<Longrightarrow> rows_ok (snd (f x t)))
    \<Longrightarrow> rows_ok (snd (in_tx s m f))"
  by (cases m) (auto simp: in_tx_def split: prod.splits)

lemma rows_bind:
  "rows_ok (snd r) \<Longrightarrow> (\<And>x s. r = (Inr x, s) \<Longrightarrow> rows_ok s \<Longrightarrow> rows_ok (snd (f x s))) \<Longrightarrow> rows_ok (snd (reply_bind r f))"
  by (cases r; cases "fst r") auto

lemma rows_then: "rows_ok (snd r) \<Longrightarrow> (\<And>s. rows_ok s \<Longrightarrow> rows_ok (snd (f s))) \<Longrightarrow> rows_ok (snd (then_out r f))"
  by (cases r; cases "fst r") auto

lemma rows_seq: "rows_ok (snd r) \<Longrightarrow> (\<And>s. rows_ok s \<Longrightarrow> rows_ok (snd (f s))) \<Longrightarrow> rows_ok (snd (seq_out r f))"
  by (cases r; cases "fst r") auto

lemma rows_if: "(c \<Longrightarrow> rows_ok (snd a)) \<Longrightarrow> (\<not> c \<Longrightarrow> rows_ok (snd b)) \<Longrightarrow> rows_ok (snd (if c then a else b))"
  by simp

lemma rows_update: "rows_ok db \<Longrightarrow> (\<And>r. Q r \<Longrightarrow> Q (f r)) \<Longrightarrow> rows_ok (update_order i f db)"
  by (auto simp: rows_ok_def update_order_def)

lemma rows_write:
  assumes "write_order E stmt msg i f w db = Inr (od, db')" "rows_ok db" "\<And>r. Q r \<Longrightarrow> Q (f r)"
  shows "rows_ok db'"
proof -
  from assms(1) have "db' = set_if w (set_wallet i) (update_order i f db)"
    by (auto simp: write_order_def sql_wrap_Inr Let_def split: option.splits)
  then have "orders db' = orders (update_order i f db)" by (cases w) (simp_all add: set_if_def set_wallet_def)
  then show ?thesis using rows_update[OF assms(2,3)] by (rule rows_cong)
qed

lemma rows_tx_write:
  assumes "rows_ok s" "\<And>r. Q r \<Longrightarrow> Q (f r)" "\<And>x t. rows_ok t \<Longrightarrow> rows_ok (snd (k x t))"
  shows "rows_ok (snd (in_tx s (write_order E stmt msg i f w s) k))"
  by (rule rows_tx[OF assms(1) _ assms(3)]) (rule rows_write[OF _ assms(1,2)])

lemmas rows_intros = rows_try rows_tx_write rows_bind rows_then rows_if

lemma rows_calls:
  assumes "rows_ok db"
  shows "rows_ok (snd (record_income R n v od db))" "rows_ok (snd (remove_income R n i db))"
    "rows_ok (snd (sync_stock R n v i st items db))" "rows_ok (snd (resync_income R n v od db))"
    "rows_ok (snd (normalizeOrderItems R E c raw db))"
  by (rule rows_cong[OF _ assms], rule keep_orders)+

lemma rows_found: "rows_ok db \<Longrightarrow> find_order db i = Some r \<Longrightarrow> Q r"
  by (auto simp: rows_ok_def find_order_def find_Some_iff)

lemma rows_norm:
  "rows_ok db \<Longrightarrow> rows_ok (snd (case normalizeOrderItems R E c raw db of (Inl e, d) \<Rightarrow> (Inl e, d) | (Inr is, d) \<Rightarrow> (Inr (g is), d)))"
  using rows_calls(5)[of db R E c raw] by (auto split: prod.splits sum.splits)

lemma rows_insert:
  assumes "rows_ok db" "guard (st \<in> set validOrderStatuses) e = Inr x" "sql_wrap E l m (Some (insert_order E v p st items db)) = Inr (r, db')"
  shows "rows_ok db'"
proof -
  have i: "insert_order E v p st items db = (r, db')" using assms(3) by (simp add: sql_wrap_Inr)
  have "Q r" using insert_law[of st E v p items db] assms(2) i by (simp add: guard_eq_Inr)
  moreover have "orders db' = orders db @ [r]" using i by (auto simp: insert_order_def Let_def)
  ultimately show ?thesis using assms(1) by (simp add: rows_ok_def)
qed

lemma Create_rows: "rows_ok db \<Longrightarrow> rows_ok (snd (Create R u p db))"
  unfolding Create_def Let_def
  by (intro rows_try rows_bind rows_then rows_if rows_tx) (simp_all add: rows_calls rows_insert)

lemma Update_rows: "rows_ok db \<Longrightarrow> rows_ok (snd (Update R u i q db))"
  unfolding Update_def Let_def
  by (intro rows_intros) (auto simp: rows_calls rows_norm guard_eq_Inr intro: update_law)

lemma Cancel_rows: "rows_ok db \<Longrightarrow> rows_ok (snd (Cancel R u i db))"
  unfolding Cancel_def
  by (intro rows_intros) (simp_all add: rows_calls status_law validOrderStatuses_def)

lemma restore_rows: "rows_ok db \<Longrightarrow> rows_ok (snd (restore_stock R n v i db))"
  by (simp add: restore_stock_def rows_calls split: sum.splits)

lemma mark_deleted_rows: "rows_ok db \<Longrightarrow> rows_ok (snd (mark_deleted E v ids db))"
  by (auto simp: mark_deleted_def rows_ok_def delete_law)

lemma Delete_rows: "rows_ok db \<Longrightarrow> rows_ok (snd (Delete R u i db))"
  unfolding Delete_def
  by (intro rows_try rows_bind rows_then rows_if rows_tx)
    (auto simp: rows_calls restore_rows sql_wrap_Inr dest!: arg_cong[of _ _ snd] intro: mark_deleted_rows)

lemma delete_each_rows: "rows_ok db \<Longrightarrow> rows_ok (snd (delete_each R n v ids db))"
proof (induction ids arbitrary: n db)
  case (Cons i ids)
  show ?case unfolding delete_each.simps
    by (intro rows_seq) (simp_all add: restore_rows rows_calls Cons)
qed simp

lemma BatchDelete_rows: "rows_ok db \<Longrightarrow> rows_ok (snd (BatchDelete R u ids db))"
  unfolding BatchDelete_def
  by (intro rows_try rows_bind rows_then rows_if rows_tx)
    (auto simp: delete_each_rows sql_wrap_Inr dest!: arg_cong[of _ _ snd] intro: mark_deleted_rows)

lemma batch_effects_rows: "rows_ok db \<Longrightarrow> rows_ok (snd (batch_effects R n v st os db))"
  by (rule rows_cong[OF batch_effects_orders])

lemma batch_write_rows: "rows_ok db \<Longrightarrow> st \<in> set validOrderStatuses \<Longrightarrow> rows_ok (batch_write E st ids db)"
  by (auto simp: batch_write_def rows_ok_def status_law)

lemma BatchUpdateStatus_rows: "rows_ok db \<Longrightarrow> rows_ok (snd (BatchUpdateStatus R u ids st db))"
  unfolding BatchUpdateStatus_def Let_def
  by (intro rows_try rows_then) (auto simp: sql_wrap_Inr guard_eq_Inr batch_write_rows batch_effects_rows)

lemma rows_read:
  "rows_ok db \<Longrightarrow> (if c then Inl e else case find_order db i of None \<Rightarrow> Inl e' | Some r \<Rightarrow> Inr r) = Inr r \<Longrightarrow> Q r"
  using rows_found by (auto split: if_splits option.splits)

lemma add_message_rows: "rows_ok db \<Longrightarrow> rows_ok (add_message c b db)"
  by (simp add: rows_ok_def add_message_def)

lemma Verify_rows: "rows_ok db \<Longrightarrow> rows_ok (snd (VerifyPaymentProof R u i db))"
  unfolding VerifyPaymentProof_def Let_def
proof (intro rows_intros)
  fix r x assume a: "rows_ok db" "(if db_fails (rq_env R 0) ''order.status'' then Inl (NotFound ''order not found'')
      else case find_order db i of None \<Rightarrow> Inl (NotFound ''order not found'') | Some r \<Rightarrow> Inr r) = Inr r" "Q x"
  show "Q (x\<lparr>od_paystatus := ''verified'', od_status := if od_status r \<in> {''draft'', ''confirmed'', ''paid''}
      then ''processing'' else od_status r, od_verified := Some t, od_verifier := Some w, od_updated := t\<rparr>)" for t w
    by (rule verify_law[OF a(3) rows_read[OF a(1,2)]]) auto
qed (simp_all add: rows_calls add_message_rows)

lemma Reject_rows: "rows_ok db \<Longrightarrow> rows_ok (snd (RejectPaymentProof R u i reason db))"
  unfolding RejectPaymentProof_def Let_def
proof (intro rows_intros)
  fix r x y assume a: "rows_ok db" "(if db_fails (rq_env R 0) ''order.proof'' then Inl (NotFound ''order not found'')
      else case find_order db i of None \<Rightarrow> Inl (NotFound ''order not found'') | Some r \<Rightarrow> Inr r) = Inr r" "Q x"
    "guard (od_paystatus r \<noteq> ''verified'') (BadRequest ''payment already verified'') = Inr y"
  show "Q (x\<lparr>od_paystatus := ''rejected'', od_meta := IncrementPaymentRejection
      (set_if reason (\<lambda>x m. m\<lparr>pm_reason := trim_space x\<rparr>) (od_meta r)), od_updated := t\<rparr>)" for t
    by (rule reject_law[OF a(3) rows_read[OF a(1,2)]]) (use a(4) in \<open>simp add: guard_eq_Inr\<close>)
qed simp_all

lemma Unblock_rows: "rows_ok db \<Longrightarrow> rows_ok (snd (UnblockPaymentProof R sent u i db))"
  unfolding UnblockPaymentProof_def Let_def
proof (intro rows_intros)
  fix r x assume a: "rows_ok db" "(if db_fails (rq_env R 0) ''order.proof'' then Inl (NotFound ''order not found'')
      else case find_order db i of None \<Rightarrow> Inl (NotFound ''order not found'') | Some r \<Rightarrow> Inr r) = Inr r" "Q x"
  show "Q (x\<lparr>od_meta := ResetPaymentProofBlock (od_meta r), od_updated := t\<rparr>)" for t
    by (rule unblock_law[OF a(3) rows_read[OF a(1,2)]])
qed (simp_all add: add_message_rows)

lemma repair_rows: "rows_ok db \<Longrightarrow> rows_ok (snd (runTriageDraftRepair h h' R p a db))"
  unfolding runTriageDraftRepair_def Let_def
  by (intro rows_try rows_bind rows_if) (auto simp: rows_calls intro!: rows_update repair_law)

text \<open>The transaction of an approval, step by step on both of its copies of the tables.\<close>

definition tx_ok :: "atx \<Rightarrow> bool" where
  "tx_ok s \<longleftrightarrow> rows_ok (at_db s) \<and> rows_ok (at_work s)"

lemma tx_steps:
  assumes "tx_ok s"
  shows "tx_ok (snd (lock_order E i s))" "tx_ok (snd (complete_verified E v i ex s))"
    "tx_ok (snd (record_income_tx E ck v s))" "tx_ok (snd (notify_buyer E s))"
    "tx_ok (snd (Commit (approveTxStore E ck v i ex) s))" "tx_ok (Rollback (approveTxStore E ck v i ex) s)"
proof -
  show "tx_ok (snd (lock_order E i s))" "tx_ok (snd (notify_buyer E s))"
    "tx_ok (snd (Commit (approveTxStore E ck v i ex) s))" "tx_ok (Rollback (approveTxStore E ck v i ex) s)"
    using assms by (simp_all add: tx_ok_def lock_order_def notify_buyer_def approveTxStore_def Let_def add_message_rows)
  show "tx_ok (snd (record_income_tx E ck v s))"
    using assms rows_cong[of "set_ofin fd (at_work s)" "at_work s" for fd]
    by (auto simp: tx_ok_def record_income_tx_def Let_def set_ofin_def rows_ok_def split: sum.splits)
  show "tx_ok (snd (complete_verified E v i ex s))"
    using assms by (auto simp: tx_ok_def complete_verified_def Let_def intro!: rows_update complete_law split: option.splits)
qed

lemma tx_or_rollback:
  assumes "tx_ok (snd r)" "\<And>s. tx_ok s \<Longrightarrow> tx_ok (snd (f s))"
  shows "tx_ok (snd (or_rollback (approveTxStore E ck v i ex) r f))"
  using assms tx_steps(6) by (cases r; cases "fst r") (auto simp: or_rollback_def)

lemma stale_to_client_snd [simp]: "snd (stale_to_client r) = snd r"
  by (cases r; cases "fst r"; cases "the (fst r)") (auto simp: stale_to_client_def)

lemma Run_tx_ok: "tx_ok s \<Longrightarrow> tx_ok (snd (Run (approveTxStore E ck v i ex) s))"
proof -
  assume s: "tx_ok s"
  have sel: "LockOrder (approveTxStore E ck v i ex) = lock_order E i"
    "CompleteVerified (approveTxStore E ck v i ex) = complete_verified E v i ex"
    "RecordIncome (approveTxStore E ck v i ex) = record_income_tx E ck v" "NotifyBuyer (approveTxStore E ck v i ex) = notify_buyer E"
    by (simp_all add: approveTxStore_def)
  obtain l s1 where l: "lock_order E i s = (l, s1)" by (cases "lock_order E i s")
  have s1: "tx_ok s1" using tx_steps(1)[OF s, of E i] l by simp
  have go: "tx_ok (snd (or_rollback (approveTxStore E ck v i ex) (stale_to_client (complete_verified E v i ex s1)) (\<lambda>s2.
      or_rollback (approveTxStore E ck v i ex) (record_income_tx E ck v s2) (\<lambda>s3.
      or_rollback (approveTxStore E ck v i ex) (notify_buyer E s3) (\<lambda>s4.
      or_rollback (approveTxStore E ck v i ex) (Commit (approveTxStore E ck v i ex) s4) (\<lambda>s5. (Inr res, s5)))))))"
    for res :: Result
    by (intro tx_or_rollback) (simp_all add: tx_steps s1)
  show ?thesis unfolding Run_def sel l
    using go tx_steps(6)[OF s1] by (simp split: sum.splits option.splits Decision.splits prod.splits)
qed

lemma ApplyStockOnce_rows: "rows_ok db \<Longrightarrow> rows_ok (snd (ApplyStockOnce (approveStockStore R n v od) db))"
proof -
  assume "rows_ok db"
  moreover have "orders (snd (ApplyStockOnce (approveStockStore R n v od) db)) = orders db"
    unfolding ApplyStockOnce_def approveStockStore_def
    using claim_keeps_orders[of "rq_env R n" "o_id od" db] calls_keep_orders(3)[of R "Suc n" v "o_id od" "o_status od" "o_items od"]
      release_keeps_orders[of "rq_env R (n + 2)" "o_id od"]
    by (auto split: prod.splits sum.splits option.splits) (metis snd_conv)+
  ultimately show ?thesis by (rule rows_cong[rotated])
qed

lemma Approve_rows: "rows_ok db \<Longrightarrow> rows_ok (snd (Approve R u i p db))"
proof -
  assume db: "rows_ok db"
  have "rows_ok (snd (case Run (approveTxStore E ck v i ex) (begin_approve db) of
       (Inl e, s) \<Rightarrow> (Inl (http_error e), at_db s)
     | (Inr res, s) \<Rightarrow> try_reply (at_db s) (loadOrderByID E' (at_db s) i) (\<lambda>od.
         reply_bind (ApplyStockOnce (approveStockStore R 5 v od) (at_db s)) (\<lambda>applied db1. (Inr od, db1)))))" for E ck v ex E'
  proof -
    have "tx_ok (begin_approve db)" using db by (simp add: tx_ok_def begin_approve_def)
    from Run_tx_ok[OF this, of E ck v i ex] show ?thesis
      by (auto simp: tx_ok_def split: prod.splits sum.splits intro!: rows_try rows_bind ApplyStockOnce_rows)
  qed
  then show ?thesis unfolding Approve_def using db by (intro rows_try) auto
qed

theorem order_step_rows: "order_step db db' \<Longrightarrow> rows_ok db \<Longrightarrow> rows_ok db'"
  using Create_rows Update_rows Cancel_rows Delete_rows BatchUpdateStatus_rows BatchDelete_rows Verify_rows Reject_rows
    Unblock_rows Approve_rows repair_rows
  by (elim order_stepE) (metis snd_conv)+

theorem history_rows: "order_step\<^sup>*\<^sup>* db db' \<Longrightarrow> rows_ok db \<Longrightarrow> rows_ok db'"
  by (induction rule: rtranclp_induct) (auto intro: order_step_rows)

end

section \<open>Well-formed rows\<close>

definition validPaymentStatuses :: "string list" where
  "validPaymentStatuses = [''unpaid'', ''proof_submitted'', ''verified'', ''rejected'']"

text \<open>
  The values the status columns may have, a verifier for every verified payment, and a block for
  every proof that was rejected five times.
\<close>

definition row_wf :: "order_rec \<Rightarrow> bool" where
  "row_wf r \<longleftrightarrow> od_status r \<in> set validOrderStatuses \<and> od_paystatus r \<in> set validPaymentStatuses
     \<and> (od_paystatus r = ''verified'' \<longrightarrow> od_verified r \<noteq> None \<and> od_verifier r \<noteq> None)"

definition proof_wf :: "order_rec \<Rightarrow> bool" where
  "proof_wf r \<longleftrightarrow> 0 \<le> pm_rejections (od_meta r)
     \<and> (PaymentProofMaxRejections \<le> pm_rejections (od_meta r) \<longrightarrow> pm_blocked (od_meta r))"

lemma apply_update_other:
  "od_paystatus (apply_update E q its st r) = od_paystatus r" "od_verified (apply_update E q its st r) = od_verified r"
  "od_verifier (apply_update E q its st r) = od_verifier r" "od_meta (apply_update E q its st r) = od_meta r"
  by (simp_all add: apply_update_def Let_def set_if_keeps[where g = od_paystatus] set_if_keeps[where g = od_verified]
      set_if_keeps[where g = od_verifier] set_if_keeps[where g = od_meta])

lemmas status_values = validOrderStatuses_def validPaymentStatuses_def

interpretation columns: row_invariant row_wf
proof
  show "row_wf (fst (insert_order E v p st items db))" if "st \<in> set validOrderStatuses" for st E v p items db
    using that by (simp add: row_wf_def insert_order_def Let_def validPaymentStatuses_def)
  show "row_wf (apply_update E q its st r)" if "row_wf r" "st = [] \<or> st \<in> set validOrderStatuses" for E q its st r
    using that by (auto simp: row_wf_def apply_update_sel apply_update_other)
  show "row_wf (verified_row E v r)" if "row_wf r" for E v r
    by (simp add: row_wf_def verified_row_def status_values split: option.splits)
  show "row_wf (r\<lparr>od_paystatus := ''verified'', od_status := st, od_verified := Some t, od_verifier := Some w, od_updated := t\<rparr>)"
    if "row_wf r" "row_wf r0" "st = od_status r0 \<or> st = ''processing''" for r r0 st t w
    using that(2,3) by (elim disjE) (simp_all add: row_wf_def status_values)
qed (simp_all add: row_wf_def validPaymentStatuses_def)

lemma rejection_wf: "0 \<le> pm_rejections m \<Longrightarrow> 0 \<le> pm_rejections (IncrementPaymentRejection m)
    \<and> (PaymentProofMaxRejections \<le> pm_rejections (IncrementPaymentRejection m) \<longrightarrow> pm_blocked (IncrementPaymentRejection m))"
  by (simp add: IncrementPaymentRejection_def Let_def)

interpretation proofs: row_invariant proof_wf
proof
  show "proof_wf (fst (insert_order E v p st items db))" for st E v p items db
    by (simp add: proof_wf_def insert_order_def Let_def no_meta_def PaymentProofMaxRejections_def)
  show "proof_wf (r\<lparr>od_paystatus := ''rejected'', od_meta := IncrementPaymentRejection (set_if reason
      (\<lambda>x m. m\<lparr>pm_reason := trim_space x\<rparr>) (od_meta r0)), od_updated := t\<rparr>)" if "proof_wf r0" for r r0 reason t
    using that rejection_wf[of "set_if reason (\<lambda>x m. m\<lparr>pm_reason := trim_space x\<rparr>) (od_meta r0)"]
    by (auto simp: proof_wf_def set_if_def split: option.splits)
qed (simp_all add: proof_wf_def apply_update_other verified_row_def ResetPaymentProofBlock_def PaymentProofMaxRejections_def)

text \<open>
  C10: Whatever sequence of requests the order module serves, with whatever failures on the way, every
  stored order has a status and a payment status the program knows, a verified payment has the time
  and the person of its verification, and a proof that was rejected five times is blocked.
\<close>

theorem orders_well_typed:
  assumes "order_step\<^sup>*\<^sup>* db db'" "\<forall>r\<in>set (orders db). row_wf r \<and> proof_wf r"
  shows "\<forall>r\<in>set (orders db'). row_wf r \<and> proof_wf r"
  using columns.history_rows[OF assms(1)] proofs.history_rows[OF assms(1)] assms(2)
  by (simp add: columns.rows_ok_def proofs.rows_ok_def)

theorem orders_well_typed_witness:
  "\<exists>od db'. Cancel sample_req sample_owner ''o1'' sample_shop = (Inr od, db') \<and> (\<forall>r\<in>set (orders db'). row_wf r \<and> proof_wf r)"
proof -
  obtain od db' where r: "Cancel sample_req sample_owner ''o1'' sample_shop = (Inr od, db')" using sample_cancelled by blast
  then have "order_step\<^sup>*\<^sup>* sample_shop db'" by (blast intro: order_step.cancel)
  from orders_well_typed[OF this] r show ?thesis
    by (auto simp: sample_shop_def sample_order_def row_wf_def proof_wf_def status_values no_meta_def PaymentProofMaxRejections_def)
qed

end
