(* ===== verification/Approve_Laws.thy ===== *)
theory Approve_Laws
  imports Order_History
begin

text \<open>
  The two interfaces of \<open>internal/orderapprove\<close> as locales, with what \<open>Run\<close> and \<open>ApplyStockOnce\<close>
  guarantee on any implementation that obeys them, and the implementations of \<open>order/approve.go\<close>.
\<close>

section \<open>The transaction interface\<close>

text \<open>
  \<open>committed\<close> is what other transactions see. Nothing a method does before the commit shows there, and
  a failed commit shows nothing. \<open>finished\<close> is a committed state in which the order is completed: a
  transaction that runs to its commit leaves one, and a new one reads it back under the lock.
\<close>

locale approve_store =
  fixes S :: "'s Store" and committed :: "'s \<Rightarrow> 'd" and finished :: "'d \<Rightarrow> bool"
  assumes lock_law: "committed (snd (LockOrder S s)) = committed s"
    and complete_law: "committed (snd (CompleteVerified S s)) = committed s"
    and income_law: "committed (snd (RecordIncome S s)) = committed s"
    and notify_law: "committed (snd (NotifyBuyer S s)) = committed s"
    and commit_law: "Commit S s = (Some e, s') \<Longrightarrow> committed s' = committed s"
    and rollback_law: "committed (Rollback S s) = committed s"
    and finish_law: "LockOrder S s = (Inr (Some st), s1) \<Longrightarrow> CompleteVerified S s1 = (None, s2) \<Longrightarrow> RecordIncome S s2 = (None, s3)
      \<Longrightarrow> NotifyBuyer S s3 = (None, s4) \<Longrightarrow> Commit S s4 = (None, s5) \<Longrightarrow> finished (committed s5)"
begin

lemma call_step:
  assumes "or_rollback S r f = (res, t)" "committed (snd r) = c"
  obtains (rolled) e where "res = Inl e" "committed t = c" | (next_call) s where "r = (None, s)" "committed s = c" "f s = (res, t)"
  using assms rollback_law by (cases r; cases "fst r") (auto simp: or_rollback_def)

text \<open>The shapes a run can take.\<close>

lemma Run_cases:
  assumes "Run S s = (res, t)"
  obtains (rolled) "committed t = committed s" "\<And>r. res = Inr r \<Longrightarrow> rs_decision r = AlreadyDone \<and> fst (Decide (rs_prev r)) = AlreadyDone"
  | (approved) st s1 s2 s3 s4 where "LockOrder S s = (Inr (Some st), s1)" "fst (Decide st) = Proceed"
      "res = Inr \<lparr>rs_decision = Proceed, rs_prev = st\<rparr>" "CompleteVerified S s1 = (None, s2)" "RecordIncome S s2 = (None, s3)"
      "NotifyBuyer S s3 = (None, s4)" "Commit S s4 = (None, t)"
proof -
  obtain l s1 where l: "LockOrder S s = (l, s1)" by (cases "LockOrder S s")
  have s1: "committed s1 = committed s" using lock_law[of s] l by simp
  show ?thesis
  proof (cases "\<exists>st. l = Inr (Some st) \<and> fst (Decide st) = Proceed")
    case False
    then have "t = Rollback S s1 \<and> (\<forall>r. res = Inr r \<longrightarrow> rs_decision r = AlreadyDone \<and> fst (Decide (rs_prev r)) = AlreadyDone)"
      using assms l unfolding Run_def by (auto split: sum.splits option.splits Decision.splits prod.splits)
    then show ?thesis using rolled rollback_law[of s1] s1 by simp
  next
    case True
    then obtain st where st: "l = Inr (Some st)" "fst (Decide st) = Proceed" by blast
    then obtain x where d: "Decide st = (Proceed, x)" by (cases "Decide st") auto
    have run: "or_rollback S (stale_to_client (CompleteVerified S s1)) (\<lambda>s2. or_rollback S (RecordIncome S s2) (\<lambda>s3.
        or_rollback S (NotifyBuyer S s3) (\<lambda>s4. or_rollback S (Commit S s4) (\<lambda>s5.
        (Inr \<lparr>rs_decision = Proceed, rs_prev = st\<rparr>, s5))))) = (res, t)"
      using assms by (simp add: Run_def l st(1) d)
    show ?thesis
    proof (cases rule: call_step[OF run, of "committed s"])
      case 1
      show ?case using complete_law[of s1] s1 by simp
    next
      case (3 s2)
      then have c: "CompleteVerified S s1 = (None, s2)"
        by (auto simp: stale_to_client_def split: prod.splits option.splits run_error.splits)
      show ?thesis
      proof (cases rule: call_step[OF 3(3), of "committed s"])
        case 1
        show ?case using income_law[of s2] 3(2) by simp
      next
        case i: (3 s3)
        show ?thesis
        proof (cases rule: call_step[OF i(3), of "committed s"])
          case 1
          show ?case using notify_law[of s3] i(2) by simp
        next
          case n: (3 s4)
          show ?thesis
          proof (cases "fst (Commit S s4)")
            case None
            then have "Commit S s4 = (None, t)" "res = Inr \<lparr>rs_decision = Proceed, rs_prev = st\<rparr>"
              using n(3) by (auto simp: or_rollback_def split: prod.splits)
            then show ?thesis using approved[OF _ st(2) _ c i(1) n(1)] l st(1) by simp
          next
            case (Some e)
            then obtain s5 where "Commit S s4 = (Some e, s5)" by (cases "Commit S s4") auto
            then show ?thesis using rolled n(2,3) commit_law rollback_law[of s5] by (auto simp: or_rollback_def)
          qed
        qed (use rolled in simp)
      qed (use rolled in simp)
    qed (use rolled in simp)
  qed
qed

text \<open>An error, and a run that found the order completed, leave the committed state alone.\<close>

lemma run_error_keeps: "Run S s = (Inl e, t) \<Longrightarrow> committed t = committed s"
  by (erule Run_cases) simp_all

lemma run_done_keeps: "Run S s = (Inr r, t) \<Longrightarrow> rs_decision r = AlreadyDone \<Longrightarrow> committed t = committed s"
  by (erule Run_cases) simp_all

lemma run_finishes:
  assumes "Run S s = (Inr r, t)" "rs_decision r = Proceed"
  shows "finished (committed t)" "fst (Decide (rs_prev r)) = Proceed"
  using assms(1)
  by (cases rule: Run_cases; use assms(2) finish_law in \<open>auto\<close>)+

end

section \<open>The transaction of an approval\<close>

definition order_completed :: "string \<Rightarrow> order_db \<Rightarrow> bool" where
  "order_completed i db \<longleftrightarrow> map_option od_status (find_order db i) = Some ''completed''"

lemma verified_row_keeps: "keeps_id (verified_row E v)"
  by (simp add: keeps_id_def verified_row_def)

text \<open>What each step of the transaction does to its working copy.\<close>

lemma complete_verifiedE:
  assumes "complete_verified E v i ex s = (None, s')"
  obtains r where "find_order (at_work s) i = Some r" "ex = None \<or> ex = Some (od_updated r)" "at_db s' = at_db s"
    "at_work s' = update_order i (verified_row E v) (at_work s)" "at_order s' = Some (scanOrder (at_work s') (verified_row E v r))"
  using assms by (auto simp: complete_verified_def Let_def split: if_splits option.splits)

lemma record_income_txE:
  assumes "record_income_tx E ck v s = (None, s')" "at_order s = Some od"
  obtains fd where "RecordOrderCompletedIncomeTx E (ck_period ck) (ck_today ck) (AccountID v) (o_id od) (o_total od) (o_wallet od)
      (fin (ot (at_work s))) = Inr fd" "at_work s' = set_ofin fd (at_work s)" "at_db s' = at_db s" "at_order s' = at_order s"
  using assms by (auto simp: record_income_tx_def Let_def split: sum.splits)

lemma notify_buyerE:
  assumes "notify_buyer E s = (e, s')"
  shows "orders (at_work s') = orders (at_work s) \<and> ot (at_work s') = ot (at_work s) \<and> at_db s' = at_db s"
  using assms by (auto simp: notify_buyer_def Let_def add_message_def split: if_splits)

lemma store_sel [simp]:
  "LockOrder (approveTxStore E ck v i ex) = lock_order E i"
  "CompleteVerified (approveTxStore E ck v i ex) = complete_verified E v i ex"
  "RecordIncome (approveTxStore E ck v i ex) = record_income_tx E ck v"
  "NotifyBuyer (approveTxStore E ck v i ex) = notify_buyer E"
  "Rollback (approveTxStore E ck v i ex) s = s\<lparr>at_work := at_db s\<rparr>"
  by (simp_all add: approveTxStore_def)

lemma commit_eq:
  "Commit (approveTxStore E ck v i ex) s =
     (if db_fails E ''approve.commit'' then (Some (Failed (Plain ''approve.commit'')), s) else (None, s\<lparr>at_db := at_work s\<rparr>))"
  by (simp add: approveTxStore_def)

text \<open>The order a transaction that reaches its commit leaves.\<close>

lemma approved_state:
  assumes "complete_verified E v i ex s1 = (None, s2)" "record_income_tx E ck v s2 = (None, s3)"
    and "notify_buyer E s3 = (None, s4)" "Commit (approveTxStore E ck v i ex) s4 = (None, s5)"
  obtains r fd where "find_order (at_work s1) i = Some r" "ex = None \<or> ex = Some (od_updated r)"
    "find_order (at_db s5) i = Some (verified_row E v r)"
    "RecordOrderCompletedIncomeTx E (ck_period ck) (ck_today ck) (AccountID v) i (dec4 (od_total r)) (order_wallet (at_work s1) i)
      (fin (ot (at_work s1))) = Inr fd" "ot (at_db s5) = (ot (at_work s1))\<lparr>fin := fd\<rparr>"
proof -
  from assms(1) obtain r where c: "find_order (at_work s1) i = Some r" "ex = None \<or> ex = Some (od_updated r)"
      "at_work s2 = update_order i (verified_row E v) (at_work s1)" "at_order s2 = Some (scanOrder (at_work s2) (verified_row E v r))"
    by (rule complete_verifiedE)
  have i: "od_id r = i" using find_order_id[OF c(1)] by simp
  have ot2: "ot (at_work s2) = ot (at_work s1)" by (simp add: c(3) update_order_def)
  from assms(2) c(4) obtain fd where f: "RecordOrderCompletedIncomeTx E (ck_period ck) (ck_today ck) (AccountID v) i
      (dec4 (od_total r)) (order_wallet (at_work s1) i) (fin (ot (at_work s1))) = Inr fd"
      "at_work s3 = set_ofin fd (at_work s2)"
    by (rule record_income_txE) (simp add: verified_row_def order_wallet_def ot2 i)
  have n: "orders (at_work s4) = orders (at_work s3)" "ot (at_work s4) = ot (at_work s3)" using notify_buyerE[OF assms(3)] by simp_all
  have m: "at_db s5 = at_work s4" using assms(4) by (auto simp: commit_eq split: if_splits)
  have "orders (at_db s5) = orders (at_work s2)" by (simp add: m n f(2) set_ofin_def)
  then have "find_order (at_db s5) i = Some (verified_row E v r)"
    using find_update_order[OF verified_row_keeps, where i = i and db = "at_work s1"] c(1,3) find_order_cong[of "at_db s5" "at_work s2"] by simp
  moreover have "ot (at_db s5) = (ot (at_work s1))\<lparr>fin := fd\<rparr>" by (simp add: m n f(2) set_ofin_def ot2)
  ultimately show ?thesis using that[OF c(1,2) _ f(1)] by blast
qed

interpretation tx: approve_store "approveTxStore E ck v i ex" at_db "order_completed i" for E ck v i ex
proof
  show "order_completed i (at_db s5)"
    if "CompleteVerified (approveTxStore E ck v i ex) s1 = (None, s2)" "RecordIncome (approveTxStore E ck v i ex) s2 = (None, s3)"
      "NotifyBuyer (approveTxStore E ck v i ex) s3 = (None, s4)" "Commit (approveTxStore E ck v i ex) s4 = (None, s5)"
    for s1 s2 s3 s4 s5
    using that unfolding store_sel by (rule approved_state) (simp add: order_completed_def verified_row_def)
qed (auto simp: lock_order_def complete_verified_def record_income_tx_def notify_buyer_def commit_eq Let_def
    split: if_splits option.splits sum.splits)

text \<open>A run on a fresh transaction, in terms of the tables.\<close>

lemma Run_approved:
  assumes "Run (approveTxStore E ck v i ex) (begin_approve db) = (Inr rs, s)" "rs_decision rs = Proceed"
  obtains r fd where "find_order db i = Some r" "ex = None \<or> ex = Some (od_updated r)" "rs_prev rs = row_state r"
    "fst (Decide (row_state r)) = Proceed" "find_order (at_db s) i = Some (verified_row E v r)"
    "RecordOrderCompletedIncomeTx E (ck_period ck) (ck_today ck) (AccountID v) i (dec4 (od_total r)) (order_wallet db i)
      (fin (ot db)) = Inr fd" "ot (at_db s) = (ot db)\<lparr>fin := fd\<rparr>"
  using assms(1)
proof (cases rule: tx.Run_cases)
  case rolled
  then show ?thesis using assms(2) by auto
next
  case 2: (approved st s1 s2 s3 s4)
  have s1: "s1 = begin_approve db" "map_option row_state (find_order db i) = Some st"
    using 2(1) by (auto simp: lock_order_def begin_approve_def split: if_splits)
  have w: "at_work s1 = db" by (simp add: s1 begin_approve_def)
  from 2(4-7) obtain r fd where a: "find_order db i = Some r" "ex = None \<or> ex = Some (od_updated r)"
      "find_order (at_db s) i = Some (verified_row E v r)"
      "RecordOrderCompletedIncomeTx E (ck_period ck) (ck_today ck) (AccountID v) i (dec4 (od_total r)) (order_wallet db i)
        (fin (ot db)) = Inr fd" "ot (at_db s) = (ot db)\<lparr>fin := fd\<rparr>"
    unfolding store_sel by (rule approved_state) (simp add: w)
  then show ?thesis using that 2(2,3) s1(2) by auto
qed

section \<open>The handler\<close>

lemma ApproveE:
  assumes "Approve R u i p db = (res, db')"
  obtains (refused) e where "res = Inl e" "db' = db"
  | (ran) v ex rs s where "u = Some v" "\<not> Impersonating v" "CanPerformOwnerActions (Some v)" "parseExpectedUpdatedAt p = Inr ex"
      "Run (approveTxStore (rq_env R 3) (rq_clock R 3) v i ex) (begin_approve db) = (Inr rs, s)"
      "try_reply (at_db s) (loadOrderByID (rq_env R 4) (at_db s) i) (\<lambda>od.
         reply_bind (ApplyStockOnce (approveStockStore R 5 v od) (at_db s)) (\<lambda>applied db1. (Inr od, db1))) = (res, db')"
proof -
  have "(\<exists>e. res = Inl e \<and> db' = db) \<or> (\<exists>v ex w. getSalesUser u = Inr v \<and> approveGate v = Inr w \<and> parseExpectedUpdatedAt p = Inr ex \<and>
      (case Run (approveTxStore (rq_env R 3) (rq_clock R 3) v i ex) (begin_approve db) of
         (Inl e, s) \<Rightarrow> (Inl (http_error e), at_db s)
       | (Inr rs, s) \<Rightarrow> try_reply (at_db s) (loadOrderByID (rq_env R 4) (at_db s) i) (\<lambda>od.
           reply_bind (ApplyStockOnce (approveStockStore R 5 v od) (at_db s)) (\<lambda>applied db1. (Inr od, db1)))) = (res, db'))"
    using assms unfolding Approve_def try_reply_eq[of db] by (elim disjE exE conjE) blast+
  then show ?thesis
  proof (elim disjE exE conjE)
    fix e assume "res = Inl e" "db' = db"
    then show ?thesis by (rule refused)
  next
    fix v ex w
    assume g: "getSalesUser u = Inr v" "approveGate v = Inr w" "parseExpectedUpdatedAt p = Inr ex"
      and c: "(case Run (approveTxStore (rq_env R 3) (rq_clock R 3) v i ex) (begin_approve db) of
         (Inl e, s) \<Rightarrow> (Inl (http_error e), at_db s)
       | (Inr rs, s) \<Rightarrow> try_reply (at_db s) (loadOrderByID (rq_env R 4) (at_db s) i) (\<lambda>od.
           reply_bind (ApplyStockOnce (approveStockStore R 5 v od) (at_db s)) (\<lambda>applied db1. (Inr od, db1)))) = (res, db')"
    have u: "u = Some v" "\<not> Impersonating v" "CanPerformOwnerActions (Some v)"
      using g(1,2) by (auto simp: getSalesUser_def approveGate_def res_simps split: option.splits if_splits)
    obtain x s where r: "Run (approveTxStore (rq_env R 3) (rq_clock R 3) v i ex) (begin_approve db) = (x, s)"
      by (cases "Run (approveTxStore (rq_env R 3) (rq_clock R 3) v i ex) (begin_approve db)")
    show ?thesis
    proof (cases x)
      case (Inl e)
      then have "at_db s = db" using tx.run_error_keeps[OF r[unfolded Inl]] by (simp add: begin_approve_def)
      then show ?thesis using refused[of "http_error e"] c r Inl by auto
    next
      case (Inr rs)
      then show ?thesis using ran[OF u g(3) r[unfolded Inr]] c r by simp
    qed
  qed
qed

text \<open>The stock step touches neither orders nor incomes.\<close>

lemma stock_step_frame:
  assumes "try_reply db (loadOrderByID E db i) (\<lambda>od.
         reply_bind (ApplyStockOnce (approveStockStore R n v od) db) (\<lambda>applied db1. (Inr od, db1))) = (res, db')" "plain_id i"
  shows "orders db' = orders db \<and> live_income (fin (ot db')) i = live_income (fin (ot db)) i"
proof -
  have *: "orders db1 = orders db \<and> live_income (fin (ot db1)) i = live_income (fin (ot db)) i"
    if a: "ApplyStockOnce (approveStockStore R n v od) db = (x, db1)" "o_id od = i" for od x db1
  proof -
    have claim: "orders c = orders db \<and> fin (ot c) = fin (ot db)" if "claim_stock (rq_env R n) i db = (y, c)" for y c
      using that by (auto simp: claim_stock_def set_applied_def split: if_splits)
    have rel: "orders c = orders d \<and> fin (ot c) = fin (ot d)" if "release_stock (rq_env R (n + 2)) i tok d = (y, c)" for y c d tok
      using that by (auto simp: release_stock_def set_applied_def split: if_splits)
    have sync: "orders c = orders d \<and> live_income (fin (ot c)) i = live_income (fin (ot d)) i"
      if "sync_stock R (Suc n) v i (o_status od) (o_items od) d = (y, c)" for y c d
      using sync_stock_frame[OF that] assms(2) by (simp add: plain_id_def)
    obtain y c where c: "claim_stock (rq_env R n) i db = (y, c)" by (cases "claim_stock (rq_env R n) i db")
    obtain e d where d: "sync_stock R (Suc n) v i (o_status od) (o_items od) c = (e, d)"
      by (cases "sync_stock R (Suc n) v i (o_status od) (o_items od) c")
    have "db1 = c \<or> db1 = d \<or> (\<exists>tok y. release_stock (rq_env R (n + 2)) i tok d = (y, db1))"
      using a c d by (auto simp: ApplyStockOnce_def approveStockStore_def split: sum.splits prod.splits if_splits option.splits)
    then show ?thesis using claim[OF c] sync[OF d] rel by (metis (no_types, lifting))
  qed
  show ?thesis
  proof (cases "loadOrderByID E db i")
    case (Inr od)
    then have "o_id od = i" by (auto simp: loadOrderByID_def find_order_id split: if_splits option.splits)
    then show ?thesis using assms(1) Inr * by (cases "ApplyStockOnce (approveStockStore R n v od) db"; cases "fst (ApplyStockOnce (approveStockStore R n v od) db)") auto
  qed (use assms(1) in auto)
qed

text \<open>What an order must be for its approval to go through.\<close>

definition approvable :: "order_rec \<Rightarrow> bool" where
  "approvable r \<longleftrightarrow> norm_key (od_status r) \<notin> {''completed'', ''cancelled''} \<and> \<not> pm_blocked (od_meta r)
     \<and> (norm_key (od_paystatus r) \<in> {''verified'', ''proof_submitted''}
        \<or> norm_key (od_status r) \<noteq> ''draft'' \<and> (trim_space (opt_text (od_proof r)) \<noteq> [] \<or> pm_amount (od_meta r) \<noteq> None
            \<or> pm_bank (od_meta r) \<noteq> [] \<or> pm_account (od_meta r) \<noteq> [] \<or> pm_hash (od_meta r) \<noteq> []))"

lemma Decide_approvable: "fst (Decide (row_state r)) = Proceed \<longleftrightarrow> approvable r"
  by (auto simp: Decide_def row_state_def approvable_def Let_def)

lemma income_tx_committed:
  "RecordOrderCompletedIncomeTx E np td cb i a w fd = Inr fd' \<Longrightarrow> RecordOrderCompletedIncome E np td cb i a w fd = (None, fd')"
  by (auto simp: RecordOrderCompletedIncomeTx_def RecordOrderCompletedIncome_def Let_def res_simps split: if_splits)

lemma approved_income:
  assumes "RecordOrderCompletedIncomeTx E np td cb i a w fd = Inr fd'" "plain_id i"
  shows "if 0 < a \<and> no_income fd i then one_income fd' i (db_money E a) else live_income fd' i = live_income fd i"
proof (cases "0 < a")
  case True
  have "trim_space i = i" "i \<noteq> []" using assms(2) by (simp_all add: plain_id_def plain_trim)
  from record_income_one[OF income_tx_committed[OF assms(1)] this True] True show ?thesis by auto
next
  case False
  then show ?thesis using assms(1) by (simp add: RecordOrderCompletedIncomeTx_def)
qed

text \<open>
  C5: An approval happens entirely or not at all, whatever fails on the way and whatever it replies.
  Either no order and no income row has changed; or the caller is an owner who is not impersonating,
  the order was open, not blocked and had a payment proof, it was not changed since the caller
  loaded it (when the caller said so), and now it is completed, its payment verified, and its income
  is recorded exactly once.
\<close>

theorem Approve_all_or_nothing:
  assumes "Approve R u orderID p db = (res, db')" "plain_id orderID"
  shows "orders db' = orders db \<and> live_income (fin (ot db')) orderID = live_income (fin (ot db)) orderID
    \<or> (\<exists>v r. u = Some v \<and> \<not> Impersonating v \<and> CanPerformOwnerActions (Some v)
        \<and> find_order db orderID = Some r \<and> approvable r \<and> (\<forall>t. p = Some (Some t) \<longrightarrow> od_updated r = t)
        \<and> find_order db' orderID = Some (verified_row (rq_env R 3) v r)
        \<and> (if 0 < dec4 (od_total r) \<and> no_income (fin (ot db)) orderID
           then one_income (fin (ot db')) orderID (db_money (rq_env R 3) (dec4 (od_total r)))
           else live_income (fin (ot db')) orderID = live_income (fin (ot db)) orderID))"
  using assms(1)
proof (cases rule: ApproveE)
  case (ran v ex rs s)
  note st = stock_step_frame[OF ran(6) assms(2)]
  show ?thesis
  proof (cases "rs_decision rs")
    case Proceed
    from ran(5) Proceed obtain r fd where r: "find_order db orderID = Some r" "ex = None \<or> ex = Some (od_updated r)"
        "fst (Decide (row_state r)) = Proceed" "find_order (at_db s) orderID = Some (verified_row (rq_env R 3) v r)"
        "RecordOrderCompletedIncomeTx (rq_env R 3) (ck_period (rq_clock R 3)) (ck_today (rq_clock R 3)) (AccountID v) orderID
          (dec4 (od_total r)) (order_wallet db orderID) (fin (ot db)) = Inr fd" "ot (at_db s) = (ot db)\<lparr>fin := fd\<rparr>"
      by (rule Run_approved)
    have l: "live_income (fin (ot db')) orderID = live_income fd orderID" using st r(6) by simp
    have "find_order db' orderID = Some (verified_row (rq_env R 3) v r)" using r(4) st by (simp add: find_order_def)
    moreover have "\<forall>t. p = Some (Some t) \<longrightarrow> od_updated r = t" using ran(4) r(2) by (auto simp: parseExpectedUpdatedAt_def)
    moreover have "if 0 < dec4 (od_total r) \<and> no_income (fin (ot db)) orderID
        then one_income (fin (ot db')) orderID (db_money (rq_env R 3) (dec4 (od_total r)))
        else live_income (fin (ot db')) orderID = live_income (fin (ot db)) orderID"
      using approved_income[OF r(5) assms(2)] unfolding one_income_cong[OF l] l .
    ultimately show ?thesis using ran(1-3) r(1,3) Decide_approvable by blast
  next
    case AlreadyDone
    then have "at_db s = db" using tx.run_done_keeps[OF ran(5)] by (simp add: begin_approve_def)
    then show ?thesis using st by simp
  next
    case Reject
    from ran(5) show ?thesis by (cases rule: tx.Run_cases) (use Reject in auto)
  qed
qed simp

section \<open>Approving twice\<close>

lemma approve_stock_orders: "orders (snd (ApplyStockOnce (approveStockStore R n v od) db)) = orders db"
  unfolding ApplyStockOnce_def approveStockStore_def
  using claim_keeps_orders[of "rq_env R n" "o_id od" db] calls_keep_orders(3)[of R "Suc n" v "o_id od" "o_status od" "o_items od"]
    release_keeps_orders[of "rq_env R (n + 2)" "o_id od"]
  by (auto split: prod.splits sum.splits option.splits) (metis snd_conv)+

lemma cogs_rows: "resyncOrderCOGS E np td i pe by t = (e, t') \<Longrightarrow> order_rows t' = order_rows t \<and> has_marker t' = has_marker t"
proof -
  assume "resyncOrderCOGS E np td i pe by t = (e, t')"
  then show ?thesis
    by (cases "RemoveInventoryEntry E (cogsRefPrefix @ i) (fin t)"; cases "fst (RemoveInventoryEntry E (cogsRefPrefix @ i) (fin t))")
      (auto simp: resyncOrderCOGS_def Let_def try_out_eq split: if_splits)
qed

text \<open>A sync of an order in a committed status leaves its marker set, whatever its outcome.\<close>

lemma sync_marker:
  assumes "SyncOrderStock E np td ord i status items by t = (e, t')" "IsCommittedOrderStatus status"
    and "order_rows t i = Some r" "or_applied r \<noteq> None"
  shows "\<exists>r'. order_rows t' i = Some r' \<and> or_applied r' \<noteq> None" "has_marker t' = has_marker t"
proof -
  have m: "order_rows b i = Some r \<or> (\<exists>r'. order_rows b i = Some r' \<and> or_applied r' \<noteq> None)" "has_marker b = has_marker a"
    if "setStockAppliedMarker E i True a = Inr b" "order_rows a i = Some r" for a b
    using that by (auto simp: setStockAppliedMarker_def res_simps split: if_splits)
  have tx: "(\<exists>r'. order_rows b i = Some r' \<and> or_applied r' \<noteq> None) \<and> has_marker b = has_marker t"
    if "sync_tx E ord i status items by wh t = Inr b" for wh b
  proof -
    from that obtain idb where s: "setStockAppliedMarker E i True (t\<lparr>inv := idb\<rparr>) = Inr b"
      unfolding sync_tx_def ebind_eq_Inr using assms(2) by (auto simp: res_simps)
    have "order_rows (t\<lparr>inv := idb\<rparr>) i = Some r" using assms(3) by simp
    from m[OF s this] assms(4) show ?thesis by auto
  qed
  have "(t' = t) \<or> (\<exists>wh b. sync_tx E ord i status items by wh t = Inr b \<and> order_rows t' = order_rows b \<and> has_marker t' = has_marker b)"
    using assms(1) cogs_rows by (auto simp: SyncOrderStock_def try_out_eq split: if_splits) blast+
  then show "\<exists>r'. order_rows t' i = Some r' \<and> or_applied r' \<noteq> None" "has_marker t' = has_marker t"
    using tx assms(3,4) by auto
qed

lemma applied_set: "order_rows (ot db) i \<noteq> None \<Longrightarrow> applied_at i (set_applied i m db) = m \<and> order_rows (ot (set_applied i m db)) i \<noteq> None"
  by (auto simp: applied_at_def set_applied_def)

lemma sync_stock_marker:
  assumes "sync_stock R n v i status items db = (e, db')" "IsCommittedOrderStatus status" "applied_at i db \<noteq> None"
  shows "applied_at i db' \<noteq> None" "has_marker (ot db') = has_marker (ot db)"
proof -
  from assms(1) have s: "SyncOrderStock (rq_env R n) (ck_period (rq_clock R n)) (ck_today (rq_clock R n)) (rq_ord R n) i status
      (orderStockItems items) (AccountID v) (ot db) = (e, ot db')"
    by (auto simp: sync_stock_def in_tenant_def split: prod.splits)
  from assms(3) obtain r where r: "order_rows (ot db) i = Some r" "or_applied r \<noteq> None"
    by (auto simp: applied_at_def split: option.splits)
  from sync_marker[OF s assms(2) r] show "applied_at i db' \<noteq> None" "has_marker (ot db') = has_marker (ot db)"
    by (auto simp: applied_at_def)
qed

text \<open>After a stock step that succeeded, the marker of the order is set.\<close>

lemma applied_once_marked:
  assumes "ApplyStockOnce (approveStockStore R n v od) db = (Inr b, db')" "o_id od = i" "IsCommittedOrderStatus (o_status od)"
    and "hasMarker (rq_env R n) db" "find_order db i \<noteq> None" "order_rows (ot db) i \<noteq> None"
  shows "applied_at i db' \<noteq> None \<and> has_marker (ot db')"
proof (cases "applied_at i db = None")
  case True
  then have "claim_stock (rq_env R n) i db = (Inr (Some (db_now (rq_env R n)), True), set_applied i (Some (db_now (rq_env R n))) db)"
    using assms by (auto simp: ApplyStockOnce_def approveStockStore_def claim_stock_def)
  then have "sync_stock R (Suc n) v i (o_status od) (o_items od) (set_applied i (Some (db_now (rq_env R n))) db) = (None, db')"
    using assms(1,2) by (auto simp: ApplyStockOnce_def approveStockStore_def split: prod.splits option.splits)
  from sync_stock_marker[OF this assms(3)] show ?thesis
    using applied_set[OF assms(6)] assms(4) by (simp add: hasMarker_def set_applied_def)
next
  case False
  then have "claim_stock (rq_env R n) i db = (Inr (None, False), db)"
    using assms by (auto simp: ApplyStockOnce_def approveStockStore_def claim_stock_def)
  then show ?thesis using assms(1,2,4) False by (simp add: ApplyStockOnce_def approveStockStore_def hasMarker_def)
qed

lemma reply_bind_snd: "snd (reply_bind r (\<lambda>x s. (Inr y, s))) = snd r"
  by (cases r; cases "fst r") auto

lemma applied_once_idle:
  assumes "hasMarker (rq_env R n) db" "applied_at (o_id od) db \<noteq> None"
  shows "snd (ApplyStockOnce (approveStockStore R n v od) db) = db"
  using assms by (simp add: ApplyStockOnce_def approveStockStore_def claim_stock_def)

lemma Run_when_completed:
  assumes "find_order db i = Some r" "norm_key (od_status r) = ''completed''"
  shows "at_db (snd (Run (approveTxStore E ck v i ex) (begin_approve db))) = db"
  using assms by (auto simp: Run_def lock_order_def begin_approve_def Decide_def row_state_def Let_def)

text \<open>
  C32: Where the order table has the marker column, and both approvals find it when they look it up,
  approving is idempotent. Once an approval has succeeded, approving the order again, by whoever,
  with whatever parameters, environment and outcome, changes nothing at all: no second income, no
  second deduction of stock, no second message to the buyer. Without the column, or when its lookup
  fails, a second approval runs the reconciling sync of the stock again.
\<close>

theorem Approve_idempotent:
  assumes "Approve R u orderID p db = (Inr od, db1)" "Approve R' u' orderID p' db1 = (res, db2)"
    and "hasMarker (rq_env R 5) db" "\<not> db_fails (rq_env R' 5) ''column.exists''" "order_rows (ot db) orderID \<noteq> None"
  shows "db2 = db1"
proof -
  from assms(1) obtain v ex rs s where a: "Run (approveTxStore (rq_env R 3) (rq_clock R 3) v orderID ex) (begin_approve db) = (Inr rs, s)"
      "loadOrderByID (rq_env R 4) (at_db s) orderID = Inr od"
      "\<exists>b. ApplyStockOnce (approveStockStore R 5 v od) (at_db s) = (Inr b, db1)"
    by (rule ApproveE) (auto simp: res_simps)
  obtain r where r: "find_order (at_db s) orderID = Some r" "od = scanOrder (at_db s) r" "od_id r = orderID"
    using a(2) by (auto simp: loadOrderByID_def dest: find_order_id split: if_splits option.splits)
  have st: "norm_key (od_status r) = ''completed'' \<and> order_rows (ot (at_db s)) = order_rows (ot db) \<and> has_marker (ot (at_db s)) = has_marker (ot db)"
  proof (cases "rs_decision rs")
    case Proceed
    have "norm_key ''completed'' = ''completed''" by code_simp
    moreover from a(1) Proceed obtain q fd where "find_order (at_db s) orderID = Some (verified_row (rq_env R 3) v q)"
        "ot (at_db s) = (ot db)\<lparr>fin := fd\<rparr>" by (rule Run_approved)
    ultimately show ?thesis using r(1) by (auto simp: verified_row_def)
  next
    case AlreadyDone
    then have db: "at_db s = db" using tx.run_done_keeps[OF a(1)] by (simp add: begin_approve_def)
    have "fst (Decide (rs_prev rs)) = AlreadyDone" "rs_prev rs = row_state r"
      using a(1) AlreadyDone r(1) unfolding db
      by (auto simp: Run_def lock_order_def begin_approve_def or_rollback_def split: if_splits option.splits prod.splits Decision.splits)
    then show ?thesis unfolding db by (auto simp: Decide_def row_state_def Let_def split: if_splits)
  next
    case Reject
    from a(1) show ?thesis by (cases rule: tx.Run_cases) (use Reject in auto)
  qed
  have com: "IsCommittedOrderStatus (o_status od)"
    using st r(2) by (simp add: IsCommittedOrderStatus_def committedOrderStatuses_def)
  from a(3) obtain b where b: "ApplyStockOnce (approveStockStore R 5 v od) (at_db s) = (Inr b, db1)" ..
  have m: "applied_at orderID db1 \<noteq> None" "has_marker (ot db1)"
    using applied_once_marked[OF b _ com, of orderID] r st assms(3,5) by (simp_all add: hasMarker_def)
  have o: "orders db1 = orders (at_db s)"
    using b approve_stock_orders[of R 5 v od "at_db s"] by simp
  from assms(2) show ?thesis
  proof (cases rule: ApproveE)
    case (ran v' ex' rs' s')
    have f: "find_order db1 orderID = Some r" using r(1) o by (simp add: find_order_def)
    have db: "at_db s' = db1" using Run_when_completed[OF f] st ran(5) by (metis snd_conv)
    have id: "o_id od' = orderID" if "loadOrderByID (rq_env R' 4) db1 orderID = Inr od'" for od'
      using that by (auto simp: loadOrderByID_def dest: find_order_id split: if_splits option.splits)
    have "snd (ApplyStockOnce (approveStockStore R' 5 v' od') db1) = db1" if "loadOrderByID (rq_env R' 4) db1 orderID = Inr od'" for od'
      using applied_once_idle[of R' 5 db1 od' v'] m id[OF that] assms(4) by (simp add: hasMarker_def)
    then have "snd (try_reply db1 (loadOrderByID (rq_env R' 4) db1 orderID) (\<lambda>od.
        reply_bind (ApplyStockOnce (approveStockStore R' 5 v' od) db1) (\<lambda>applied db1. (Inr od, db1)))) = db1"
      by (intro try_reply_keeps) (simp add: reply_bind_snd)
    then show ?thesis using ran(6) unfolding db by simp
  qed simp
qed

section \<open>A concrete approval\<close>

lemma income_setup: "RecordOrderCompletedIncomeTx E np td cb i a w fd = Inr fd' \<Longrightarrow> same_setup fd fd'"
  using insert_refresh_setup same_setup_trans
  by (auto simp: RecordOrderCompletedIncomeTx_def recordOrderIncome_def income_purged_def Let_def res_simps try_out_eq same_setup_def
    split: if_splits)

lemma sample_income_tx: "returns (RecordOrderCompletedIncomeTx sample_env ''2026-01'' ''2026-01-02'' ''a'' ''o1'' (dec4 60000) [] sample_books)"
  by code_simp

lemma sample_verified: "find_order db ''o1'' = Some sample_order \<Longrightarrow> order_rows (ot db) = order_rows sample_tenant \<Longrightarrow>
   \<exists>s1. complete_verified sample_env (the sample_owner) ''o1'' None (begin_approve db) = (None, s1)
     \<and> at_order s1 = Some (scanOrder (at_work s1) (verified_row sample_env (the sample_owner) sample_order)) \<and> ot (at_work s1) = ot db"
  by (simp add: complete_verified_def begin_approve_def Let_def update_order_def)

lemma sample_run:
  "\<exists>rs s. Run (approveTxStore sample_env sample_clk (the sample_owner) ''o1'' None) (begin_approve sample_shop) = (Inr rs, s) \<and> rs_decision rs = Proceed"
proof -
  have w: "order_wallet db i = []" if "order_rows (ot db) = order_rows sample_tenant" for db i
    using that by (auto simp: order_wallet_def sample_tenant_def)
  obtain s1 where s1: "complete_verified sample_env (the sample_owner) ''o1'' None (begin_approve sample_shop) = (None, s1)"
      "at_order s1 = Some (scanOrder (at_work s1) (verified_row sample_env (the sample_owner) sample_order))" "ot (at_work s1) = sample_tenant"
    using sample_verified[of sample_shop] sample_shop_sel by auto
  obtain s2 where s2: "record_income_tx sample_env sample_clk (the sample_owner) s1 = (None, s2)"
    using sample_income_tx s1 w[of "at_work s1"]
    by (auto simp: record_income_tx_def returns_def verified_row_def sample_shop_sel sample_clk_def sample_owner_def sample_order_def scanOrder_def Let_def)
  obtain s3 where s3: "notify_buyer sample_env s2 = (None, s3)" 
    by (cases "o_conv (the (at_order s2)) = []") (simp_all add: notify_buyer_def Let_def)
  have d: "Decide (row_state sample_order) = (Proceed, None)"
    by (simp add: Decide_def row_state_def sample_order_def no_meta_def) code_simp
  show ?thesis using s1 s2 s3 d
    by (simp add: Run_def lock_order_def begin_approve_def sample_shop_sel stale_to_client_def or_rollback_def commit_eq)
qed

lemma sample_approved:
  "\<exists>od db'. Approve sample_req sample_owner ''o1'' None sample_shop = (Inr od, db') \<and> order_rows (ot sample_shop) ''o1'' \<noteq> None"
proof -
  obtain rs s where r: "Run (approveTxStore sample_env sample_clk (the sample_owner) ''o1'' None) (begin_approve sample_shop) = (Inr rs, s)"
    "rs_decision rs = Proceed" using sample_run by blast
  let ?row = "verified_row sample_env (the sample_owner) sample_order"
  from r obtain fd where a: "find_order (at_db s) ''o1'' = Some ?row" "ot (at_db s) = sample_tenant\<lparr>fin := fd\<rparr>" "same_setup sample_books fd"
    by (rule Run_approved) (use income_setup sample_shop_sel in auto)
  let ?db = "set_applied ''o1'' (Some (db_now sample_env)) (at_db s)"
  have rows: "order_rows sample_tenant ''o1'' = Some \<lparr>or_applied = None, or_wallet = None\<rparr>" "has_marker sample_tenant" by (simp_all add: sample_tenant_def)
  then have "claim_stock sample_env ''o1'' (at_db s) = (Inr (Some (db_now sample_env), True), ?db)"
    using a by (simp add: claim_stock_def hasMarker_def applied_at_def)
  moreover have "same_items sample_tenant (ot ?db)" "fin (ot ?db) = fd" "income_wallet (ot ?db) ''o1'' = []"
    using rows a by (simp_all add: set_applied_def same_items_def income_wallet_def)
  then obtain db' where "sync_stock sample_req 6 (the sample_owner) ''o1'' ''completed'' [sample_line] ?db = (None, db')"
    using sample_stock_runs[of "''completed''" ?db "''o1''" 6] a(3) by auto
  moreover have "scanOrder (at_db s) ?row = od \<Longrightarrow> o_id od = ''o1'' \<and> o_status od = ''completed'' \<and> o_items od = [sample_line]" for od
    by (auto simp: verified_row_def sample_shop_sel)
  ultimately have "ApplyStockOnce (approveStockStore sample_req 5 (the sample_owner) (scanOrder (at_db s) ?row)) (at_db s) = (Inr True, db')"
    by (simp add: ApplyStockOnce_def approveStockStore_def)
  moreover have "loadOrderByID sample_env (at_db s) ''o1'' = Inr (scanOrder (at_db s) ?row)" "loadOrderByID sample_env sample_shop ''o1'' = Inr (scanOrder sample_shop sample_order)"
    using a(1) sample_shop_sel(1) by (simp_all add: loadOrderByID_def)
  moreover have "period_open sample_req 0 sample_shop = Inr ()"
    using sample_money(2) by (simp add: period_open_def CheckCurrentPeriodUnlocked_def sample_clk_def sample_shop_sel prepareTenant_def)
  moreover have "approveGate (the sample_owner) = Inr ()" by (simp add: approveGate_def sample_owner_def CanPerformOwnerActions_def)
  ultimately show ?thesis using r sample_precheck[of 2 "''o1''"] rows
    by (simp add: Approve_def sample_sales parseExpectedUpdatedAt_def sample_shop_sel)
qed

theorem Approve_idempotent_witness:
  "\<exists>od db1. Approve sample_req sample_owner ''o1'' None sample_shop = (Inr od, db1)
     \<and> snd (Approve sample_req sample_owner ''o1'' None db1) = db1"
proof -
  obtain od db1 where r: "Approve sample_req sample_owner ''o1'' None sample_shop = (Inr od, db1)"
      "order_rows (ot sample_shop) ''o1'' \<noteq> None" using sample_approved by blast
  have "hasMarker sample_env sample_shop" by (simp add: hasMarker_def sample_shop_def sample_tenant_def)
  with Approve_idempotent[OF r(1) prod.collapse[symmetric], of sample_req sample_owner None] r show ?thesis by simp
qed

text \<open>An owner who saw an older version of the order approves nothing.\<close>

theorem Approve_all_or_nothing_witness:
  "orders (snd (Approve sample_req sample_owner ''o1'' (Some (Some 99)) sample_shop)) = orders sample_shop"
proof -
  have "plain_id ''o1''" by (simp add: plain_id_def plain_text_def)
  from Approve_all_or_nothing[OF prod.collapse[symmetric] this, of sample_req sample_owner "Some (Some 99)" sample_shop]
  show ?thesis by (auto simp: sample_shop_sel) (simp add: sample_order_def)
qed

end
