(* ===== verification/Stock_Claim.thy ===== *)
theory Stock_Claim
  imports Approve_Laws
begin

text \<open>
  Concurrent approvals of one order: \<open>ApplyStockOnce\<close> of \<open>internal/orderapprove/stock.go\<close> as an
  interleaving of the steps of its callers, each one call of the \<open>StockStore\<close> interface. Among any
  number of callers, with failures and releases, the deduction is committed at most once.
\<close>

declare split_paired_All [simp del] split_paired_Ex [simp del]

section \<open>Interleavings\<close>

text \<open>Where a caller of \<open>ApplyStockOnce\<close> is: before the claim, holding a token, or about to release it.\<close>

datatype phase = Waiting | Claimed "int option" | Failing "int option" app_error | Finished "bool res"

text \<open>
  A configuration has the phase of every caller, the shared tables, and the callers whose deduction
  was committed; \<open>commits\<close> says for a call of \<open>ApplyStock\<close> whether it is.
\<close>

record ('c, 's) config =
  cf_phase :: "'c \<Rightarrow> phase"
  cf_store :: 's
  cf_deducted :: "'c list"

definition at_phase :: "'c \<Rightarrow> phase \<Rightarrow> 's \<Rightarrow> ('c, 's) config \<Rightarrow> ('c, 's) config" where
  "at_phase c p s g = g\<lparr>cf_phase := (cf_phase g)(c := p), cf_store := s\<rparr>"

inductive claim_step :: "('c \<Rightarrow> 's StockStore) \<Rightarrow> ('c \<Rightarrow> 's \<Rightarrow> bool) \<Rightarrow> ('c, 's) config \<Rightarrow> ('c, 's) config \<Rightarrow> bool"
  for S commits
where
  claim_error: "cf_phase g c = Waiting \<Longrightarrow> ClaimStock (S c) (cf_store g) = (Inl e, s)
    \<Longrightarrow> claim_step S commits g (at_phase c (Finished (Inl e)) s g)"
| claim_lost: "cf_phase g c = Waiting \<Longrightarrow> ClaimStock (S c) (cf_store g) = (Inr (tok, False), s)
    \<Longrightarrow> claim_step S commits g (at_phase c (Finished (Inr False)) s g)"
| claim_won: "cf_phase g c = Waiting \<Longrightarrow> ClaimStock (S c) (cf_store g) = (Inr (tok, True), s)
    \<Longrightarrow> claim_step S commits g (at_phase c (Claimed tok) s g)"
| deduct: "cf_phase g c = Claimed tok \<Longrightarrow> ApplyStock (S c) (cf_store g) = (r, s)
    \<Longrightarrow> claim_step S commits g (at_phase c (case r of None \<Rightarrow> Finished (Inr True) | Some e \<Rightarrow> Failing tok e) s
        (g\<lparr>cf_deducted := (if commits c (cf_store g) then c # cf_deducted g else cf_deducted g)\<rparr>))"
| release: "cf_phase g c = Failing tok e \<Longrightarrow> ReleaseStock (S c) tok (cf_store g) = (r, s)
    \<Longrightarrow> claim_step S commits g (at_phase c (Finished (Inl (case r of None \<Rightarrow> e | Some x \<Rightarrow> x))) s g)"

text \<open>A caller that runs without interruption does what \<open>ApplyStockOnce\<close> does.\<close>

lemma ApplyStockOnce_steps:
  assumes "cf_phase g c = Waiting" "ApplyStockOnce (S c) (cf_store g) = (r, s)"
  shows "\<exists>d. (claim_step S commits)\<^sup>*\<^sup>* g (at_phase c (Finished r) s (g\<lparr>cf_deducted := d\<rparr>))"
proof -
  obtain x s1 where c: "ClaimStock (S c) (cf_store g) = (x, s1)" by (cases "ClaimStock (S c) (cf_store g)")
  show ?thesis
  proof (cases "\<exists>tok. x = Inr (tok, True)")
    case False
    then have "claim_step S commits g (at_phase c (Finished r) s g)"
      using assms c by (cases x) (auto simp: ApplyStockOnce_def intro: claim_step.intros split: if_splits)
    then have "(claim_step S commits)\<^sup>*\<^sup>* g (at_phase c (Finished r) s (g\<lparr>cf_deducted := cf_deducted g\<rparr>))" by simp
    then show ?thesis ..
  next
    case True
    then obtain tok where x: "x = Inr (tok, True)" by blast
    let ?g1 = "at_phase c (Claimed tok) s1 g"
    have 1: "claim_step S commits g ?g1"
      by (rule claim_step.claim_won[of g c S tok s1 commits]) (simp_all add: assms(1) c x)
    obtain e s2 where a: "ApplyStock (S c) s1 = (e, s2)" by (cases "ApplyStock (S c) s1")
    let ?d = "if commits c s1 then c # cf_deducted g else cf_deducted g"
    let ?g2 = "at_phase c (case e of None \<Rightarrow> Finished (Inr True) | Some e \<Rightarrow> Failing tok e) s2 (g\<lparr>cf_deducted := ?d\<rparr>)"
    have 2: "claim_step S commits ?g1 ?g2"
      using claim_step.deduct[of ?g1 c tok S e s2 commits] a by (simp add: at_phase_def split del: if_split cong: if_cong)
    show ?thesis
    proof (cases e)
      case None
      then have "r = Inr True" "s = s2" using assms(2) c x a by (simp_all add: ApplyStockOnce_def)
      then show ?thesis using 1 2 None by (intro exI[of _ ?d]) (auto intro: rtranclp.intros)
    next
      case (Some err)
      obtain y s3 where rel: "ReleaseStock (S c) tok s2 = (y, s3)" by (cases "ReleaseStock (S c) tok s2")
      have r: "r = Inl (case y of None \<Rightarrow> err | Some z \<Rightarrow> z)" "s = s3"
        using assms(2) c x a Some rel by (auto simp: ApplyStockOnce_def split: option.splits)
      have "claim_step S commits ?g2 (at_phase c (Finished r) s (g\<lparr>cf_deducted := ?d\<rparr>))"
        using claim_step.release[of ?g2 c tok err S y s3 commits] Some rel r by (simp add: at_phase_def)
      then show ?thesis using 1 2 by (intro exI[of _ ?d]) (auto intro: rtranclp.intros)
    qed
  qed
qed

section \<open>The marker interface\<close>

text \<open>
  What a store promises. A claim succeeds only when the marker is clear, and sets it to the time of
  the claim, which is the token; a deduction that commits stamps the marker with its own time, one
  that does not leaves it; a release clears the marker only when it still is the token.
\<close>

locale stock_store =
  fixes S :: "'c \<Rightarrow> 's StockStore" and marker :: "'s \<Rightarrow> int option" and ready :: "'s \<Rightarrow> bool" and good :: "'c \<Rightarrow> bool"
    and claim_time :: "'c \<Rightarrow> int" and stamp_time :: "'c \<Rightarrow> int" and commits :: "'c \<Rightarrow> 's \<Rightarrow> bool"
  assumes claim_law: "good c \<Longrightarrow> ready s \<Longrightarrow> ClaimStock (S c) s = (r, s') \<Longrightarrow> ready s' \<and>
      (if \<exists>tok. r = Inr (tok, True) then marker s = None \<and> r = Inr (Some (claim_time c), True) \<and> marker s' = Some (claim_time c)
       else marker s' = marker s)"
    and apply_law: "good c \<Longrightarrow> ready s \<Longrightarrow> ApplyStock (S c) s = (e, s') \<Longrightarrow> ready s' \<and>
      marker s' = (if commits c s then Some (stamp_time c) else marker s)"
    and release_law: "good c \<Longrightarrow> ready s \<Longrightarrow> ReleaseStock (S c) tok s = (e, s') \<Longrightarrow> ready s' \<and>
      (marker s' = marker s \<or> marker s = tok \<and> marker s' = None)"
begin

text \<open>A caller that could still deduct, or clear the marker of its own claim.\<close>

definition active :: "('c, 's) config \<Rightarrow> 'c \<Rightarrow> bool" where
  "active g c \<longleftrightarrow> (\<exists>tok. cf_phase g c = Claimed tok) \<or> (\<exists>tok e. cf_phase g c = Failing tok e) \<and> c \<notin> set (cf_deducted g)"

definition claim_inv :: "('c, 's) config \<Rightarrow> bool" where
  "claim_inv g \<longleftrightarrow> ready (cf_store g) \<and> length (cf_deducted g) \<le> 1
     \<and> (\<forall>c tok e. cf_phase g c = Claimed tok \<or> cf_phase g c = Failing tok e \<longrightarrow> tok = Some (claim_time c))
     \<and> (\<forall>c. active g c \<longrightarrow> cf_deducted g = [] \<and> marker (cf_store g) = Some (claim_time c) \<and> (\<forall>b. active g b \<longrightarrow> b = c))
     \<and> (\<forall>c. c \<in> set (cf_deducted g) \<longrightarrow> marker (cf_store g) = Some (stamp_time c))"

lemma claim_inv_step:
  assumes "claim_step S commits g g'" "claim_inv g" "\<forall>c. good c" "\<forall>b c. claim_time b \<noteq> stamp_time c"
  shows "claim_inv g'"
  using assms(1)
proof cases
  case 1: (claim_error c e s)
  then show ?thesis
    using claim_law[of c "cf_store g" "Inl e" s] assms(2,3)
    by (auto simp: claim_inv_def active_def at_phase_def split: if_splits)
next
  case 2: (claim_lost c tok s)
  then show ?thesis
    using claim_law[of c "cf_store g" "Inr (tok, False)" s] assms(2,3)
    by (auto simp: claim_inv_def active_def at_phase_def split: if_splits)
next
  case 3: (claim_won c tok s)
  have l: "ready s" "marker (cf_store g) = None" "tok = Some (claim_time c)" "marker s = Some (claim_time c)"
    using claim_law[of c "cf_store g" "Inr (tok, True)" s] 3(3) assms(2,3) by (auto simp: claim_inv_def)
  then have "\<not> active g b" "cf_deducted g = []" for b
    using assms(2) by (auto simp: claim_inv_def)
  then show ?thesis using assms(2) l unfolding 3(1) by (auto simp: claim_inv_def active_def at_phase_def split: if_splits)
next
  case 4: (deduct c tok r s)
  have a: "ready s" "marker s = (if commits c (cf_store g) then Some (stamp_time c) else marker (cf_store g))"
    using apply_law[of c "cf_store g" r s] 4(3) assms(2,3) by (auto simp: claim_inv_def)
  have c: "active g c" "tok = Some (claim_time c)" using 4(2) assms(2) by (auto simp: active_def claim_inv_def)
  have d: "cf_deducted g = []" "marker (cf_store g) = Some (claim_time c)" "\<And>b. active g b \<Longrightarrow> b = c"
    using assms(2) c(1) by (auto simp: claim_inv_def)
  then show ?thesis using a c(2) assms(2) unfolding 4(1)
    by (auto simp: claim_inv_def active_def at_phase_def split: if_splits option.splits)
next
  case 5: (release c tok e r s)
  have a: "ready s" "marker s = marker (cf_store g) \<or> marker (cf_store g) = tok \<and> marker s = None"
    using release_law[of c "cf_store g" tok r s] 5(3) assms(2,3) by (auto simp: claim_inv_def)
  have tok: "tok = Some (claim_time c)" using 5(2) assms(2) by (auto simp: claim_inv_def)
  show ?thesis
  proof (cases "active g c")
    case True
    then have "cf_deducted g = []" "\<And>b. active g b \<Longrightarrow> b = c" using assms(2) by (auto simp: claim_inv_def)
    then show ?thesis using a(1) assms(2) unfolding 5(1)
      by (auto simp: claim_inv_def active_def at_phase_def split: if_splits)
  next
    case False
    then have "c \<in> set (cf_deducted g)" using 5(2) by (auto simp: active_def)
    then have "marker (cf_store g) = Some (stamp_time c)" using assms(2) by (auto simp: claim_inv_def)
    then have "marker s = marker (cf_store g)" using a(2) tok assms(4)[rule_format, of c c] by auto
    then show ?thesis using a(1) assms(2) False unfolding 5(1)
      by (auto simp: claim_inv_def active_def at_phase_def split: if_splits)
  qed
qed

lemma at_most_once:
  assumes "(claim_step S commits)\<^sup>*\<^sup>* \<lparr>cf_phase = (\<lambda>_. Waiting), cf_store = s, cf_deducted = []\<rparr> g" "ready s"
    and "\<forall>c. good c" "\<forall>b c. claim_time b \<noteq> stamp_time c"
  shows "length (cf_deducted g) \<le> 1"
    and "\<And>c. c \<in> set (cf_deducted g) \<Longrightarrow> marker (cf_store g) = Some (stamp_time c)"
proof -
  have "claim_inv g"
    using assms(1)
  proof (induction rule: rtranclp_induct)
    case base
    then show ?case using assms(2) by (simp add: claim_inv_def active_def)
  next
    case (step g g')
    then show ?case using claim_inv_step assms(3,4) by blast
  qed
  then show "length (cf_deducted g) \<le> 1" "\<And>c. c \<in> set (cf_deducted g) \<Longrightarrow> marker (cf_store g) = Some (stamp_time c)"
    by (auto simp: claim_inv_def)
qed

end

section \<open>Concurrent approvals of one order\<close>

text \<open>One caller: its request, the number of its first call, who asks, and the order as it loaded it.\<close>

record caller =
  cl_req :: req
  cl_call :: nat
  cl_user :: AuthUser
  cl_order :: Order

definition caller_store :: "caller \<Rightarrow> order_db StockStore" where
  "caller_store c = approveStockStore (cl_req c) (cl_call c) (cl_user c) (cl_order c)"

text \<open>The stock transaction of the caller's deduction runs and commits on these tables.\<close>

definition deducts :: "caller \<Rightarrow> order_db \<Rightarrow> bool" where
  "deducts c db = (let n = Suc (cl_call c); E = rq_env (cl_req c) n; od = cl_order c; t = ot db in
     case ebind (prepareTenant E) (\<lambda>_. loadSyncSetting E t) of
       Inl _ \<Rightarrow> False
     | Inr (setup, _, _) \<Rightarrow> setup \<and> \<not> isl (ebind (defaultWarehouseID E t) (\<lambda>w.
         sync_tx E (rq_ord (cl_req c) n) (o_id od) (o_status od) (orderStockItems (o_items od)) (AccountID (cl_user c)) w t)))"

definition claims_at :: "caller \<Rightarrow> int" where
  "claims_at c = db_now (rq_env (cl_req c) (cl_call c))"

definition deducts_at :: "caller \<Rightarrow> int" where
  "deducts_at c = db_now (rq_env (cl_req c) (Suc (cl_call c)))"

text \<open>
  The caller approves order \<open>i\<close>, which it loaded in a status that holds stock, and sees the marker
  column: the lookup of the column, whose failure the code takes for its absence, does not fail.
\<close>

definition approves :: "string \<Rightarrow> caller \<Rightarrow> bool" where
  "approves i c \<longleftrightarrow> plain_id i \<and> o_id (cl_order c) = i \<and> IsCommittedOrderStatus (o_status (cl_order c))
     \<and> \<not> db_fails (rq_env (cl_req c) (cl_call c)) ''column.exists''
     \<and> \<not> db_fails (rq_env (cl_req c) (Suc (cl_call c))) ''column.exists''"

definition marked_order :: "string \<Rightarrow> order_db \<Rightarrow> bool" where
  "marked_order i db \<longleftrightarrow> has_marker (ot db) \<and> order_rows (ot db) i \<noteq> None"

lemma not_isl: "\<not> isl x \<longleftrightarrow> (\<exists>y. x = Inr y)"
  by (cases x) auto

lemma sync_tx_marker:
  assumes "sync_tx E ord i status items by w t = Inr t'" "IsCommittedOrderStatus status" "\<not> db_fails E ''column.exists''"
    and "has_marker t" "order_rows t i = Some r"
  shows "order_rows t' i = Some (r\<lparr>or_applied := Some (db_now E)\<rparr>)" "has_marker t'"
  using assms by (auto simp: sync_tx_def ebind_eq_Inr setStockAppliedMarker_def res_simps)

lemma apply_stamps:
  assumes "ApplyStock (caller_store c) db = (e, db')" "approves i c" "marked_order i db"
  shows "marked_order i db'" "applied_at i db' = (if deducts c db then Some (deducts_at c) else applied_at i db)"
proof -
  let ?R = "cl_req c" and ?n = "Suc (cl_call c)" and ?od = "cl_order c"
  let ?E = "rq_env ?R ?n" and ?its = "orderStockItems (o_items (cl_order c))" and ?by = "AccountID (cl_user c)"
  note c = assms(2)[unfolded approves_def]
  from assms(1) c have s: "SyncOrderStock ?E (ck_period (rq_clock ?R ?n)) (ck_today (rq_clock ?R ?n)) (rq_ord ?R ?n) i (o_status ?od)
      ?its ?by (ot db) = (e, ot db')"
    by (auto simp: caller_store_def approveStockStore_def sync_stock_def in_tenant_def split: prod.splits)
  have i: "trim_space i \<noteq> []" using c by (simp add: plain_id_def plain_trim)
  obtain r where r: "order_rows (ot db) i = Some r" "has_marker (ot db)" using assms(3) by (auto simp: marked_order_def)
  have "marked_order i db' \<and> applied_at i db' = (if deducts c db then Some (deducts_at c) else applied_at i db)"
  proof (cases "deducts c db")
    case True
    then obtain w t' pe b where w: "prepareTenant ?E = Inr ()" "loadSyncSetting ?E (ot db) = Inr (True, pe, b)"
        "defaultWarehouseID ?E (ot db) = Inr w" "sync_tx ?E (rq_ord ?R ?n) i (o_status ?od) ?its ?by w (ot db) = Inr t'"
      using c by (auto simp: deducts_def Let_def not_isl ebind_eq_Inr split: sum.splits prod.splits)
    have "resyncOrderCOGS ?E (ck_period (rq_clock ?R ?n)) (ck_today (rq_clock ?R ?n)) i pe ?by t' = (e, ot db')"
      using s w i by (simp add: SyncOrderStock_def)
    from cogs_rows[OF this] sync_tx_marker[OF w(4) _ _ r(2,1)] c True show ?thesis
      by (simp add: marked_order_def applied_at_def deducts_at_def)
  next
    case False
    then have "ot db' = ot db"
      using s i c by (auto simp: SyncOrderStock_def deducts_def Let_def try_out_eq not_isl ebind_eq_Inr split: sum.splits prod.splits if_splits)
    then show ?thesis using False assms(3) by (simp add: marked_order_def applied_at_def)
  qed
  then show "marked_order i db'" "applied_at i db' = (if deducts c db then Some (deducts_at c) else applied_at i db)" by simp_all
qed

lemma marked_set: "marked_order i db \<Longrightarrow> marked_order i (set_applied i m db) \<and> applied_at i (set_applied i m db) = m"
  using applied_set[of db i m] by (auto simp: marked_order_def set_applied_def)

interpretation stock: stock_store "\<lambda>k. caller_store (cs k)" "applied_at i" "marked_order i" "\<lambda>k. approves i (cs k)"
    "\<lambda>k. claims_at (cs k)" "\<lambda>k. deducts_at (cs k)" "\<lambda>k. deducts (cs k)" for i cs
proof
  fix k db r db' e tok
  assume c: "approves i (cs k)" and db: "marked_order i db"
  show "marked_order i db' \<and> (if \<exists>tok. r = Inr (tok, True) then applied_at i db = None \<and> r = Inr (Some (claims_at (cs k)), True)
      \<and> applied_at i db' = Some (claims_at (cs k)) else applied_at i db' = applied_at i db)"
    if "ClaimStock (caller_store (cs k)) db = (r, db')"
    using that c db marked_set[OF db]
    by (auto simp: caller_store_def approveStockStore_def claim_stock_def hasMarker_def approves_def marked_order_def claims_at_def split: if_splits)
  show "marked_order i db' \<and> applied_at i db' = (if deducts (cs k) db then Some (deducts_at (cs k)) else applied_at i db)"
    if "ApplyStock (caller_store (cs k)) db = (e, db')"
    using apply_stamps[OF that c db] by simp
  show "marked_order i db' \<and> (applied_at i db' = applied_at i db \<or> applied_at i db = tok \<and> applied_at i db' = None)"
    if "ReleaseStock (caller_store (cs k)) tok db = (e, db')"
    using that c db marked_set[OF db] by (auto simp: caller_store_def approveStockStore_def release_stock_def approves_def split: if_splits)
qed

text \<open>
  C6: While the order table has the marker column and the approvals' lookups of that column do not
  fail, then however the approvals of one order interleave, and whichever of their other statements
  fail, the stock of the order is deducted at most once: at most one stock transaction commits, and
  from then on the marker carries its time, so that no later claim succeeds and no other approval's
  release clears it. The approved order has a status that holds stock, and the claims and the
  deductions are told apart by their timestamps. A lookup that fails is taken for a missing column;
  such an approval takes the path without a claim, which this statement leaves out.
\<close>

theorem concurrent_approvals_deduct_once:
  assumes "(claim_step (\<lambda>k. caller_store (cs k)) (\<lambda>k. deducts (cs k)))\<^sup>*\<^sup>*
      \<lparr>cf_phase = (\<lambda>_. Waiting), cf_store = db, cf_deducted = []\<rparr> g"
    and "\<forall>k. approves i (cs k)" "marked_order i db" "\<forall>j k. claims_at (cs j) \<noteq> deducts_at (cs k)"
  shows "length (cf_deducted g) \<le> 1 \<and> (\<forall>k \<in> set (cf_deducted g). applied_at i (cf_store g) = Some (deducts_at (cs k)))"
  using stock.at_most_once[OF assms(1,3,2,4)] by blast

text \<open>Two approvals of one order: the second loses the claim, the first deducts.\<close>

definition timed_req :: req where
  "timed_req = sample_req\<lparr>rq_env := (\<lambda>n. if n = 5 then sample_env\<lparr>db_now := 5\<rparr> else sample_env)\<rparr>"

definition sample_callers :: "nat \<Rightarrow> caller" where
  "sample_callers k = \<lparr>cl_req = timed_req, cl_call = 5, cl_user = the sample_owner,
     cl_order = scanOrder sample_shop (sample_order\<lparr>od_status := ''paid''\<rparr>)\<rparr>"

lemma sample_callers_facts:
  "approves ''o1'' (sample_callers k)" "claims_at (sample_callers k) = 5" "deducts_at (sample_callers k) = 7"
  "marked_order ''o1'' sample_shop"
  by (simp_all add: approves_def sample_callers_def timed_req_def claims_at_def deducts_at_def plain_id_def plain_text_def
      marked_order_def sample_shop_sel sample_sync_keys(3))
    (simp_all add: sample_env_def sample_tenant_def)

lemma sample_claim:
  "ClaimStock (caller_store (sample_callers k)) sample_shop = (Inr (Some 5, True), set_applied ''o1'' (Some 5) sample_shop)"
  "ClaimStock (caller_store (sample_callers k)) (set_applied ''o1'' (Some 5) sample_shop) = (Inr (None, False), set_applied ''o1'' (Some 5) sample_shop)"
  by (simp_all add: caller_store_def sample_callers_def approveStockStore_def claim_stock_def hasMarker_def timed_req_def set_applied_def
      applied_at_def sample_shop_sel find_order_def sample_shop_def sample_tenant_def sample_order_def)

lemma sample_deduct:
  "\<exists>db'. ApplyStock (caller_store (sample_callers k)) (set_applied ''o1'' (Some 5) sample_shop) = (None, db')"
  "deducts (sample_callers k) (set_applied ''o1'' (Some 5) sample_shop)"
proof -
  let ?db = "set_applied ''o1'' (Some 5) sample_shop"
  have t: "same_items sample_tenant (ot ?db)" "fin (ot ?db) = sample_books" "income_wallet (ot ?db) ''o1'' = []"
    by (simp_all add: set_applied_def sample_shop_sel same_items_def income_wallet_def) (simp_all add: sample_tenant_def)
  obtain db' where s: "sync_stock sample_req 6 (the sample_owner) ''o1'' ''paid'' [sample_line] ?db = (None, db')"
    using sample_stock_runs[of "''paid''" ?db "''o1''" 6] t by auto
  then show "\<exists>db'. ApplyStock (caller_store (sample_callers k)) ?db = (None, db')"
    by (simp add: caller_store_def sample_callers_def approveStockStore_def sync_stock_def timed_req_def sample_shop_sel)
  have "inv_setting (inv (ot ?db)) = Some \<lparr>st_setup = True, st_method = CostingFIFO, st_block = False, st_expense = False\<rparr>"
    using t(1) sample_tenant_inv(1) by (simp add: same_items_def)
  then show "deducts (sample_callers k) ?db" using s
    by (auto simp: deducts_def sample_callers_def timed_req_def sample_shop_sel Let_def sync_stock_def in_tenant_def SyncOrderStock_def
        loadSyncSetting_def prepareTenant_def sample_words try_out_eq not_isl ebind_eq_Inr split: prod.splits)
qed

theorem concurrent_approvals_deduct_once_witness:
  "\<exists>g. (claim_step (\<lambda>k. caller_store (sample_callers k)) (\<lambda>k. deducts (sample_callers k)))\<^sup>*\<^sup>*
      \<lparr>cf_phase = (\<lambda>_. Waiting), cf_store = sample_shop, cf_deducted = []\<rparr> g
    \<and> cf_phase g 1 = Finished (Inr False) \<and> cf_deducted g = [0] \<and> applied_at ''o1'' (cf_store g) = Some 7"
proof -
  let ?step = "claim_step (\<lambda>k. caller_store (sample_callers k)) (\<lambda>k. deducts (sample_callers k))"
  let ?db = "set_applied ''o1'' (Some 5) sample_shop"
  define g0 :: "(nat, order_db) config" where "g0 = \<lparr>cf_phase = (\<lambda>_. Waiting), cf_store = sample_shop, cf_deducted = []\<rparr>"
  define g1 where "g1 = at_phase 0 (Claimed (Some 5)) ?db g0"
  define g2 where "g2 = at_phase 1 (Finished (Inr False)) ?db g1"
  have 1: "?step g0 g1" unfolding g1_def by (rule claim_step.claim_won) (simp_all add: g0_def sample_claim)
  have 2: "?step g1 g2" unfolding g2_def by (rule claim_step.claim_lost) (simp_all add: g0_def g1_def at_phase_def sample_claim)
  obtain db' where d: "ApplyStock (caller_store (sample_callers 0)) ?db = (None, db')" using sample_deduct(1) by blast
  define g3 where "g3 = at_phase 0 (Finished (Inr True)) db' (g2\<lparr>cf_deducted := [0]\<rparr>)"
  have 3: "?step g2 g3"
    using claim_step.deduct[of g2 0 "Some 5" "\<lambda>k. caller_store (sample_callers k)" None db' "\<lambda>k. deducts (sample_callers k)"] d sample_deduct(2)
    by (simp add: g0_def g1_def g2_def g3_def at_phase_def)
  have run: "?step\<^sup>*\<^sup>* g0 g3" using rtranclp.rtrancl_into_rtrancl[OF rtranclp.rtrancl_into_rtrancl[OF r_into_rtranclp[of ?step, OF 1] 2] 3] .
  have "cf_phase g3 1 = Finished (Inr False)" "cf_deducted g3 = [0]" by (simp_all add: g3_def g2_def at_phase_def)
  with concurrent_approvals_deduct_once[OF run[unfolded g0_def] _ sample_callers_facts(4)] sample_callers_facts run
  show ?thesis unfolding g0_def by auto
qed

end
