(* ===== verification/Stock_Supply.thy ===== *)
theory Stock_Supply
  imports Order_Sync_Laws
begin

text \<open>
  When a sync of an order's stock goes through on a tenant that blocks negative stock: every pair the
  sync still issues from has the quantity. The keys of the sync are handled one after the other, so
  the supply of the keys still to come must survive the postings before them; that is proved by
  induction on the keys, from what one posting leaves alone.
\<close>

declare split_paired_All [simp del] split_paired_Ex [simp del]

section \<open>Supply of a pair\<close>

text \<open>The layers of one pair, within the range where a plan over them is exact.\<close>

definition pair_room :: "inv_db \<Rightarrow> string \<times> string \<Rightarrow> int \<Rightarrow> bool" where
  "pair_room db k n \<longleftrightarrow> (int (length (pair_layers db k)) + 1) * (n + 1) \<le> 2 ^ 44
     \<and> (\<forall>r\<in>set (pair_layers db k). small4 (ly_qty r))"

text \<open>
  A pair can issue \<open>n\<close>: its balance covers it when the item is costed by average, its layers cover it
  under FIFO and LIFO.
\<close>

definition can_issue :: "inv_db \<Rightarrow> setting_row \<Rightarrow> string \<times> string \<Rightarrow> int \<Rightarrow> bool" where
  "can_issue db st k n \<longleftrightarrow>
     (if effectiveCostingMethod (sku_override db (fst k)) (st_method st) = CostingAverage
      then small4 (on_hand db k) \<and> n \<le> on_hand db k else pair_room db k n \<and> n \<le> layer_stock db k)"

text \<open>The identifiers the database hands out from here on are those of no layer.\<close>

definition new_layer_ids :: "env \<Rightarrow> inv_db \<Rightarrow> bool" where
  "new_layer_ids E db \<longleftrightarrow> inj (db_uuid E) \<and> (\<forall>r\<in>set (layers db). \<forall>j\<ge>next_uuid db. ly_id r \<noteq> db_uuid E j)"

lemma effective_again: "effectiveCostingMethod (effectiveCostingMethod a b) [] = effectiveCostingMethod a b"
proof -
  have "effectiveCostingMethod a b \<in> {CostingAverage, CostingFIFO, CostingLIFO}"
    by (auto simp: effectiveCostingMethod_def normalizeCostingMethod_def validCostingMethods_def Let_def)
  moreover have "effectiveCostingMethod CostingAverage [] = CostingAverage" "effectiveCostingMethod CostingFIFO [] = CostingFIFO"
    "effectiveCostingMethod CostingLIFO [] = CostingLIFO" by code_simp+
  ultimately show ?thesis by auto
qed

lemma length_pick_pair: "length (pick_layers db i w meth) \<le> length (pair_layers db (i, w))"
proof -
  have "length [r \<leftarrow> xs. ly_item r = i \<and> ly_wh r = w \<and> 0 < ly_qty r]
      \<le> length [r \<leftarrow> xs. (ly_item r, ly_wh r) = (i, w)]" for xs :: "layer_row list"
    by (induction xs) auto
  then show ?thesis by (simp add: pick_layers_def pair_layers_def Let_def)
qed

lemma pair_plan:
  assumes "wf_layers db" "pair_room db (i, w) n" "0 < n"
    and ls: "loadLayers E db i w meth = Inr ls" and plan: "planConsumption ls (dec4 n) = (draws, cost, sf)"
  obtains ds where "draws = map to_draw ds" "ds = spec_draws (map ilayer_of (pick_layers db i w meth)) n"
    "sf = dec4 (n - min n (layer_stock db (i, w)))" "\<forall>(j, m, c)\<in>set ds. small4 m"
proof -
  let ?L = "map ilayer_of (pick_layers db i w meth)"
  let ?ds = "spec_draws ?L n"
  have "(int (length ?L) + 1) * (n + 1) \<le> (int (length (pair_layers db (i, w))) + 1) * (n + 1)"
    using length_pick_pair[of db i w meth] assms(3) by (intro mult_right_mono) auto
  then have b: "(int (length ?L) + 1) * (n + 1) \<le> 2 ^ 44" using assms(2) by (simp add: pair_room_def)
  have sm: "\<forall>l\<in>set ?L. small4 (fst (snd l))"
    using assms(2) by (auto simp: pair_room_def set_pick_layers pair_layers_def)
  obtain cost' where p: "planConsumption (map to_layer ?L) (dec4 n)
      = (map to_draw ?ds, cost', dec4 (spec_short ?L n))"
    using planConsumption_refines[OF _ b sm] assms(3) by (metis less_imp_le)
  have "spec_short ?L n = n - min n (layer_stock db (i, w))"
    using spec_short_eq[of n ?L] stock_of_pick[OF assms(1), of i w meth] assms(3) by auto
  moreover have "\<forall>(j, m, c)\<in>set ?ds. small4 m"
  proof safe
    fix j m c
    assume "(j, m, c) \<in> set ?ds"
    from spec_draws_bounds[OF this] obtain r where "0 < m" "r \<in> set (pair_layers db (i, w))" "m \<le> ly_qty r"
      by (auto simp: ilayer_of_def set_pick_layers pair_layers_def)
    then show "small4 m" using assms(2) by (force simp: pair_room_def small4_def)
  qed
  ultimately show ?thesis using that[of ?ds] p plan loadLayers_ilayers[OF ls] by simp
qed

lemma average_allows:
  assumes "n \<le> oh" "small4 n" "small4 oh" shows "dec4 n \<le> fl (dec4 oh + epsilon)"
proof -
  let ?y = "dec4 oh + epsilon"
  note oh = small4_approx[OF assms(3)] of_int_abs_le[OF assms(3)[unfolded small4_def]]
  have "\<bar>?y * 10 ^ 4\<bar> \<le> 2 ^ 44 + 1"
    using oh epsilon_bounds unfolding approx_def distrib_right abs_le_iff of_int_power of_int_numeral by linarith
  then have "\<bar>?y\<bar> \<le> (2 ^ 44 + 1) / 10 ^ 4" by (simp add: abs_mult del: distrib_right_numeral)
  from fl_error_le[OF this] have "?y - fl ?y \<le> (2 ^ 44 + 1) / 10 ^ 4 / 2 ^ 53 + tiny" by linarith
  moreover have "(2 ^ 44 + 1) / 10 ^ 4 / 2 ^ 53 + tiny \<le> 9 / 1000 / (10 ^ 4 :: rat)"
    using tiny_le by (simp add: field_simps)
  moreover have "9 / 1000 / (10 ^ 4 :: rat) \<le> epsilon" using epsilon_bounds(2) by simp
  ultimately have y: "dec4 oh \<le> fl ?y" by linarith
  show ?thesis
  proof (cases "n = oh")
    case False
    then have "dec4 n < dec4 oh"
      using approx_compare[OF small4_approx[OF assms(2)] small4_approx[OF assms(3)]] assms(1) by simp
    then show ?thesis using y by simp
  qed (use y in simp)
qed

section \<open>One posting\<close>

lemma blocked_issue_total:
  assumes E: "\<And>l. \<not> db_fails E l" and n: "0 < n" "small4 n" "mi_qty inp = dec4 n" and out: "mi_dir inp = dirOut"
    and wf: "wf_layers db"
    and c: "if effectiveCostingMethod (mi_method inp) [] = CostingAverage
       then small4 (on_hand db (input_key inp)) \<and> n \<le> on_hand db (input_key inp)
       else pair_room db (input_key inp) n \<and> n \<le> layer_stock db (input_key inp)"
  shows "\<exists>res db'. PostMovement E inp db = Inr (res, db')"
proof -
  let ?meth = "effectiveCostingMethod (mi_method inp) []" and ?b = "get_balance db (mi_item inp) (mi_wh inp)"
  have draws: "\<exists>db'. efold (draw_layer E) ds db = Inr db'" for ds db
    by (induction ds arbitrary: db) (auto simp: draw_layer_def E)
  have "\<exists>cost sf b db'. cost_movement E inp ?meth ?b db = Inr (cost, sf, b, db')"
  proof (cases "?meth = CostingAverage")
    case True
    then have "\<not> mi_qty inp > fl (OnHand ?b + epsilon)"
      using average_allows[of n "on_hand db (input_key inp)"] c n(2,3) by (simp add: get_balance_onhand input_key_def not_less)
    then show ?thesis using True out by (simp add: cost_movement_def Let_def direction_names)
  next
    case False
    obtain ls where ls: "loadLayers E db (mi_item inp) (mi_wh inp) ?meth = Inr ls"
      by (simp add: loadLayers_def E)
    obtain ds cost sf where plan: "planConsumption ls (mi_qty inp) = (ds, cost, sf)" by (metis prod_cases3)
    have "sf = dec4 0"
      using False c pair_plan[OF wf _ n(1) ls plan[unfolded n(3)]] by (auto simp: input_key_def)
    then have "\<not> (sf > epsilon \<and> mi_block inp)" using dec4_le_epsilon[of 0] by (simp add: small4_def)
    then show ?thesis using False out ls plan draws[of ds db] by (auto simp: cost_movement_def Let_def direction_names)
  qed
  then obtain cost sf b db1 where "cost_movement E inp ?meth ?b db = Inr (cost, sf, b, db1)" by blast
  then show ?thesis
    using E n out dec4_pos[OF n(2)] by (auto simp: PostMovement_def Let_def fresh_uuid_def)
qed

text \<open>What a posting leaves alone: the layers and balances of every other pair.\<close>

lemma posting_leaves:
  assumes run: "PostMovement E inp db = Inr (res, db')" and E: "numeric_ok E"
    and n: "mi_qty inp = dec4 n" "small4 n" and wf: "wf_layers db" "new_layer_ids E db"
    and room: "mi_dir inp = dirOut \<Longrightarrow> effectiveCostingMethod (mi_method inp) [] \<noteq> CostingAverage \<Longrightarrow>
      pair_room db (input_key inp) n"
  shows "wf_layers db' \<and> new_layer_ids E db' \<and> inv_setting db' = inv_setting db \<and> skus db' = skus db
    \<and> (\<forall>k. k \<noteq> input_key inp \<longrightarrow> pair_layers db' k = pair_layers db k \<and> on_hand db' k = on_hand db k)"
  using run
proof (cases rule: PostMovementE)
  case (1 cost b db1 mid unit)
  have pos: "0 < n" using 1(1) n dec4_pos by simp
  have l1: "wf_layers db1 \<and> map ly_id (layers db1) = map ly_id (layers db)
      \<and> (\<forall>k. k \<noteq> input_key inp \<longrightarrow> pair_layers db1 k = pair_layers db k)"
    using 1(3,2)
  proof (cases rule: cost_movement_cases)
    case (layered ls draws layerCost)
    have r: "pair_room db (mi_item inp, mi_wh inp) n" using room layered(1,2) by (simp add: input_key_def)
    obtain ds where ds: "draws = map to_draw ds"
        "ds = spec_draws (map ilayer_of (pick_layers db (mi_item inp) (mi_wh inp)
            (effectiveCostingMethod (mi_method inp) []))) n" "\<forall>(j, m, c)\<in>set ds. small4 m"
      using pair_plan[OF wf(1) r pos layered(4)] layered(5) n(1) by metis
    from efold_draw_layers[OF E ds(3)] layered(6) ds(1)
    have l: "layers db1 = map (\<lambda>r. r\<lparr>ly_qty := ly_qty r - drawn ds (ly_id r)\<rparr>) (layers db)" by simp
    have "r\<lparr>ly_qty := ly_qty r - drawn ds (ly_id r)\<rparr> = r" if "r \<in> set (pair_layers db k)" "k \<noteq> input_key inp" for r k
      using that draws_on_pair(3)[OF wf(1) ds(2), of r] by (auto simp: pair_layers_def input_key_def)
    moreover have "pair_layers db1 k = map (\<lambda>r. r\<lparr>ly_qty := ly_qty r - drawn ds (ly_id r)\<rparr>) (pair_layers db k)" for k
      by (simp add: pair_layers_def l filter_map comp_def)
    ultimately have "pair_layers db1 k = pair_layers db k" if "k \<noteq> input_key inp" for k
      using that by (simp add: map_idI)
    then show ?thesis using drawn_layer_stock(2)[OF wf(1) ds(2) l] by (simp add: l comp_def)
  qed (use wf in auto)
  have q: "db_numeric E (mi_qty inp) = n" using E n by (simp add: numeric_ok_def)
  have ids: "ly_id ` set (layers db1) = ly_id ` set (layers db)" using l1 by (metis set_map)
  have new: "db_uuid E j \<notin> ly_id ` set (layers db1)" if "next_uuid db \<le> j" for j
    using wf(2) that unfolding ids by (fastforce simp: new_layer_ids_def)
  have inj: "inj (db_uuid E)" using wf(2) by (simp add: new_layer_ids_def)
  have "wf_layers db'"
    using l1 new[of "Suc (next_uuid db)"] pos q unfolding wf_layers_def 1(7) by (auto simp del: set_map simp flip: set_map)
  moreover have "new_layer_ids E db'"
    unfolding new_layer_ids_def 1(7)
  proof (intro conjI inj ballI allI impI)
    fix r j assume r: "r \<in> set (layers db1 @ (if mi_dir inp = dirIn \<and> effectiveCostingMethod (mi_method inp) [] \<noteq> CostingAverage
       then [\<lparr>ly_id = db_uuid E (Suc (next_uuid db)), ly_item = mi_item inp, ly_wh = mi_wh inp,
         ly_qty = db_numeric E (mi_qty inp), ly_cost = db_numeric E (mi_cost inp), ly_batch = nullStr (mi_batch inp),
         ly_expiry = mi_expiry inp, ly_source = Some mid, ly_received = db_now E\<rparr>] else []))" and j: "next_uuid db' \<le> j"
    have "\<forall>r\<in>set (layers db1). ly_id r \<noteq> db_uuid E j" using new[of j] j 1(10) by force
    then show "ly_id r \<noteq> db_uuid E j" using r j inj 1(10) by (auto simp: inj_eq split: if_splits)
  qed
  moreover have "pair_layers db' k = pair_layers db k \<and> on_hand db' k = on_hand db k" if "k \<noteq> input_key inp" for k
    using l1 that 1(6) by (auto simp: pair_layers_def 1(7) input_key_def on_hand_def put_balance_def)
  ultimately show ?thesis using 1(8,9) by blast
qed

section \<open>The keys of a sync\<close>

text \<open>A key either gives back, or its pair can issue what it still needs.\<close>

definition key_ready :: "inv_db \<Rightarrow> setting_row \<Rightarrow> (reqKey \<Rightarrow> int) \<Rightarrow> reqKey \<Rightarrow> bool" where
  "key_ready db st d k \<longleftrightarrow> d k \<le> 0 \<or> can_issue db st k (d k)"

lemma key_ready_cong:
  "pair_layers db' k = pair_layers db k \<Longrightarrow> on_hand db' k = on_hand db k \<Longrightarrow> skus db' = skus db \<Longrightarrow>
    key_ready db' st d k = key_ready db st d k"
  by (simp add: key_ready_def can_issue_def pair_room_def layer_stock_def sku_override_def)

lemma ready_key:
  assumes "healthy E" "numeric_ok E" "inv_setting db = Some st" "wf_layers db" "new_layer_ids E db" "key_ready db st d k"
    and d: "round4 (fl (mget 0 req k - ne_qty (mget zero_net net k))) = dec4 (d k)" "small4 (d k)"
  shows "\<exists>db'. sync_key E orderID by req net k db = Inr db' \<and> wf_layers db' \<and> new_layer_ids E db'
    \<and> inv_setting db' = Some st \<and> skus db' = skus db
    \<and> (\<forall>j. j \<noteq> k \<longrightarrow> pair_layers db' j = pair_layers db j \<and> on_hand db' j = on_hand db j)"
proof (cases "d k \<le> 0")
  case True
  have no_fail: "\<not> db_fails E l" for l using assms(1) by (simp add: healthy_def)
  have sgn: "dec4 (d k) > epsilon \<longleftrightarrow> d k > 0" "dec4 (d k) < - epsilon \<longleftrightarrow> d k < 0"
    using dec4_le_epsilon[OF d(2)] dec4_less_neg[OF d(2)] by auto
  show ?thesis
  proof (cases "d k = 0")
    case True
    then show ?thesis using sgn assms(3-5) by (simp add: sync_key_def Let_def d(1))
  next
    case False
    let ?cc = "\<lparr>cc_method = effectiveCostingMethod (sku_override db (fst k)) (st_method st), cc_block = st_block st\<rparr>"
    let ?u = "if ne_qty (mget zero_net net k) > epsilon
      then round4 (fl (ne_cost (mget zero_net net k) / ne_qty (mget zero_net net k))) else 0"
    let ?inp = "restore_input orderID by ?cc k (dec4 (- d k)) ?u"
    have inp: "mi_qty ?inp = dec4 (- d k)" "small4 (- d k)" "mi_dir ?inp = dirIn" "input_key ?inp = k"
      using d(2) by (simp_all add: restore_input_def no_input_def input_key_def small4_def)
    obtain res db' where p: "PostMovement E ?inp db = Inr (res, db')"
      using PostMovement_total[OF no_fail _ inp(2,1)] inp(3) False \<open>d k \<le> 0\<close> by (metis less_le neg_0_less_iff_less)
    have "round4 (- dec4 (d k)) = dec4 (- d k)" using d(2) by (simp flip: dec4_uminus)
    then have "sync_key E orderID by req net k db = Inr db'"
      using False \<open>d k \<le> 0\<close> sgn assms(1,3) p by (simp add: sync_key_def Let_def d(1) loadCostingContext_def)
    moreover have "mi_dir ?inp \<noteq> dirOut" by (simp add: inp(3) direction_names)
    ultimately show ?thesis using posting_leaves[OF p assms(2) inp(1,2) assms(4,5)] assms(3) by (auto simp: inp(4))
  qed
next
  case False
  have no_fail: "\<not> db_fails E l" for l using assms(1) by (simp add: healthy_def)
  let ?cc = "\<lparr>cc_method = effectiveCostingMethod (sku_override db (fst k)) (st_method st), cc_block = st_block st\<rparr>"
  let ?inp = "issue_input orderID by ?cc k (dec4 (d k))"
  have inp: "mi_qty ?inp = dec4 (d k)" "mi_dir ?inp = dirOut" "input_key ?inp = k" "0 < d k"
    "effectiveCostingMethod (mi_method ?inp) [] = effectiveCostingMethod (sku_override db (fst k)) (st_method st)"
    using False by (simp_all add: issue_input_def no_input_def input_key_def effective_again)
  have c: "can_issue db st k (d k)" using assms(6) False by (simp add: key_ready_def)
  obtain res db' where p: "PostMovement E ?inp db = Inr (res, db')"
    using blocked_issue_total[OF no_fail inp(4) d(2) inp(1,2) assms(4)] c unfolding can_issue_def inp(3,5) by blast
  have "dec4 (d k) > epsilon" using dec4_le_epsilon[OF d(2)] False by auto
  then have "sync_key E orderID by req net k db = Inr db'"
    using assms(1,3) p by (simp add: sync_key_def Let_def d(1) loadCostingContext_def)
  moreover have "pair_room db (input_key ?inp) (d k)" if "effectiveCostingMethod (mi_method ?inp) [] \<noteq> CostingAverage"
    using c that unfolding can_issue_def inp(3,5) by simp
  ultimately show ?thesis using posting_leaves[OF p assms(2) inp(1) d(2) assms(4,5)] assms(3) by (auto simp: inp(3))
qed

lemma ready_loop:
  assumes "healthy E" "numeric_ok E"
    and "\<And>k. round4 (fl (mget 0 req k - ne_qty (mget zero_net net k))) = dec4 (d k)" "\<And>k. small4 (d k)"
    and "distinct ks" "inv_setting db = Some st" "wf_layers db" "new_layer_ids E db" "\<forall>k\<in>set ks. key_ready db st d k"
  shows "returns (efold (sync_key E orderID by req net) ks db)"
  using assms(5-9)
proof (induction ks arbitrary: db)
  case Nil
  then show ?case by (simp add: returns_def)
next
  case (Cons k ks)
  have kr: "key_ready db st d k" using Cons.prems(5) by simp
  obtain db1 where db1: "sync_key E orderID by req net k db = Inr db1" "wf_layers db1" "new_layer_ids E db1"
      "inv_setting db1 = Some st" "skus db1 = skus db"
      "\<forall>j. j \<noteq> k \<longrightarrow> pair_layers db1 j = pair_layers db j \<and> on_hand db1 j = on_hand db j"
    using ready_key[OF assms(1,2) Cons.prems(2-4) kr assms(3,4)] by blast
  have "\<forall>j\<in>set ks. key_ready db1 st d j"
  proof
    fix j assume j: "j \<in> set ks"
    then have "j \<noteq> k" "key_ready db st d j" using Cons.prems(1,5) by auto
    then show "key_ready db1 st d j" using db1(6) key_ready_cong[OF _ _ db1(5), of j st d] by simp
  qed
  from Cons.IH[OF _ db1(4,2,3) this] Cons.prems(1) show ?case by (simp add: db1(1))
qed

text \<open>
  C37: A sync on a working database succeeds when the tenant does not block negative stock, and when
  the sync only gives stock back, as on a cancellation; with negative stock blocked it also succeeds
  when every pair can issue what the order still needs from it, by its balance under average costing
  and by its layers under FIFO and LIFO. In each case the open period and a wallet for the cost are
  there, and the quantities are exact in floats.
\<close>

theorem SyncOrderStock_succeeds:
  assumes "healthy E" "numeric_ok E" "inv_setting (inv db) = Some st"
    and "sync_exact db orderID status items"
    and stock: "\<not> st_block st \<or> (\<forall>k. key_total (status_demand db status items) k \<le> order_held (inv db) orderID k)
      \<or> ranges ord \<and> wf_layers (inv db) \<and> new_layer_ids E (inv db)
        \<and> (\<forall>k. key_ready (inv db) st (sync_delta db orderID status items) k)"
    and "returns (resolveIncomeWallet E (fin db) (income_wallet db orderID))"
    and "returns (ensurePeriodUnlocked E (fin db) (walletPeriod np today))" and money: "money_ok E"
  shows "\<exists>db'. SyncOrderStock E np today ord orderID status items by db = (None, db')"
proof (cases "\<not> st_block st \<or> (\<forall>k. key_total (status_demand db status items) k \<le> order_held (inv db) orderID k)")
  case True
  then show ?thesis by (rule sync_total[OF assms(1-4) _ assms(6-8)])
next
  case False
  then have s: "ranges ord" "wf_layers (inv db)" "new_layer_ids E (inv db)"
    "\<forall>k. key_ready (inv db) st (sync_delta db orderID status items) k" using stock by blast+
  show ?thesis
  proof (rule sync_from_loop[OF assms(1,3) _ assms(6-8)])
    fix req net
    assume c: "trim_space orderID \<noteq> []"
      "(if IsCommittedOrderStatus status then resolveOrderRequirements E db items (default_warehouse db) else Inr []) = Inr req"
      "orderNetIssued E db orderID = Inr net"
    note d = float_delta[OF c(2,3,1) assms(4)]
    have "small4 (sync_delta db orderID status items k)" for k using d(2)[of k] by (simp add: small4_def)
    moreover have "distinct (ord (sync_keys req net))" using s(1) by (simp add: ranges_def sync_keys_def)
    ultimately show "returns (efold (sync_key E orderID by req net) (ord (sync_keys req net)) (inv db))"
      using d(1) s(4) by (intro ready_loop[OF assms(1,2) _ _ _ assms(3) s(2,3)]) auto
  qed
qed

section \<open>A tenant that blocks negative stock\<close>

definition strict_tenant :: tenant_db where
  "strict_tenant = sample_tenant\<lparr>inv := sample_db\<rparr>"

theorem SyncOrderStock_succeeds_witness: "\<exists>db'. sample_sync strict_tenant = (None, db')"
  unfolding sample_sync_def
proof (rule SyncOrderStock_succeeds[OF sample_env_ok numeric_ok_sample _ _ disjI2[OF disjI2] _ _ money_ok_sample])
  let ?st = "\<lparr>st_setup = True, st_method = CostingFIFO, st_block = True, st_expense = False\<rparr>"
  have inv: "inv strict_tenant = sample_db" by (simp add: strict_tenant_def)
  show "inv_setting (inv strict_tenant) = Some ?st" by (simp add: inv sample_db_def)
  have d: "status_demand strict_tenant ''paid'' sample_items = [((''p'', ''w''), dec4 30000)]" by code_simp
  have r: "order_rows_of sample_db ''o1'' = []"
    by (simp add: order_rows_of_def sale_row_def has_ref_def sample_db_def sample_movement_def)
  show "sync_exact strict_tenant ''o1'' ''paid'' sample_items"
    by (simp add: sync_exact_def d inv r entries_ok_def tally_ok_def small4_def)
  have m: "effectiveCostingMethod (sku_override sample_db ''p'') CostingFIFO = CostingFIFO" by code_simp
  have p: "pair_room sample_db (''p'', ''w'') 30000"
    by (simp add: pair_room_def pair_layers_def sample_db_def sample_layer_def small4_def)
  have l: "layer_stock sample_db (''p'', ''w'') = 50000"
    using sample_facts(5) by (simp add: input_key_def sample_issue_def no_input_def)
  have delta: "sync_delta strict_tenant ''o1'' ''paid'' sample_items k = (if k = (''p'', ''w'') then 30000 else 0)" for k
    by (simp add: sync_delta_def d inv r order_held_def key_total_def small4_def)
  have "key_ready sample_db ?st (sync_delta strict_tenant ''o1'' ''paid'' sample_items) k" for k
    using m p l by (simp add: key_ready_def can_issue_def delta costing_names)
  moreover have "new_layer_ids sample_env sample_db"
    by (auto simp: new_layer_ids_def sample_env_def sample_db_def sample_layer_def intro: injI)
  ultimately show "ranges id \<and> wf_layers (inv strict_tenant) \<and> new_layer_ids sample_env (inv strict_tenant)
      \<and> (\<forall>k. key_ready (inv strict_tenant) ?st (sync_delta strict_tenant ''o1'' ''paid'' sample_items) k)"
    using ranges_id sample_facts(2) by (simp add: inv)
  show "returns (resolveIncomeWallet sample_env (fin strict_tenant) (income_wallet strict_tenant ''o1''))"
    "returns (ensurePeriodUnlocked sample_env (fin strict_tenant) (walletPeriod [] ''2026-01-02''))"
    by code_simp+
qed

end
