(* ===== verification/Books.thy ===== *)
theory Books
  imports Finance Float64
begin

text \<open>
  The finance handlers that change the books: wallets, categories, transactions, approval and the
  period lock of \<open>finance/finance.go\<close>, the transaction types of \<open>finance/transaction_types.go\<close>, with the
  guards of \<open>finance/helpers.go\<close>. The audit log, usage events and attachments are not modelled; the reply
  of a handler is what is not an echo of the request.

  The tables extend those of \<open>Finance\<close> by the columns only the handlers read and write. A text column that
  refuses a value (too long, not a UUID) is a statement that fails.
\<close>

section \<open>Tables\<close>

record txn_info =
  ti_currency :: string
  ti_notes :: "string option"
  ti_tags :: "string list"
  ti_approver :: "string option"
  ti_approved :: "int option"
  ti_reason :: "string option"
  ti_recurring :: "string option"

record wallet_info =
  wi_name :: string
  wi_institution :: "string option"
  wi_account :: "string option"
  wi_currency :: string
  wi_color :: "string option"
  wi_icon :: "string option"
  wi_visibility :: string
  wi_by :: string

record category_info =
  ce_type :: string
  ce_parent :: "string option"
  ce_icon :: "string option"
  ce_color :: "string option"
  ce_order :: int

record TransactionType =
  tt_id :: string
  tt_code :: string
  tt_label :: string
  tt_flow :: string
  tt_kind :: string
  tt_quick :: bool
  tt_order :: int
  tt_system :: bool
  tt_owner :: bool
  tt_active :: bool
  tt_deleted :: bool

text \<open>The threshold is a NUMERIC(18,2), in cents.\<close>

record approvalConfig =
  ac_enabled :: bool
  ac_threshold :: "int option"
  ac_types :: "string list"

record recurring_row =
  rc_id :: string
  rc_type :: string
  rc_amount :: int
  rc_wallet :: string
  rc_to :: "string option"
  rc_category :: "string option"
  rc_desc :: "string option"
  rc_freq :: string
  rc_value :: int
  rc_dom :: "int option"
  rc_dow :: "int option"
  rc_mode :: string
  rc_end :: "string option"
  rc_max :: "int option"
  rc_done :: int
  rc_next :: string
  rc_active :: bool
  rc_by :: string
  rc_deleted :: bool

record recurring_log =
  rl_recurring :: string
  rl_date :: string
  rl_status :: string
  rl_txn :: "string option"

text \<open>\<open>asset_wallets\<close> are the wallets of the active assets.\<close>

record book_db =
  bk :: fin_db
  winfo :: "string \<rightharpoonup> wallet_info"
  tinfo :: "string \<rightharpoonup> txn_info"
  cinfo :: "string \<rightharpoonup> category_info"
  txn_types :: "TransactionType list"
  approval :: "approvalConfig option"
  recurrings :: "recurring_row list"
  rec_log :: "recurring_log list"
  asset_wallets :: "string list"

text \<open>
  One request: its calls in the order of the source, today's date and the current period in the
  tenant's time zone, and the input function of the DATE type, which returns the date in ISO form or
  refuses the text.
\<close>

record fin_req =
  fq_env :: "nat \<Rightarrow> env"
  fq_today :: string
  fq_period :: string
  fq_date :: "string \<Rightarrow> string option"

definition find_txn_row :: "book_db \<Rightarrow> string \<Rightarrow> fin_txn option" where
  "find_txn_row db i = find (\<lambda>t. ft_id t = i \<and> \<not> ft_deleted t) (txns (bk db))"

definition set_bk :: "fin_db \<Rightarrow> book_db \<Rightarrow> book_db" where
  "set_bk fd db = db\<lparr>bk := fd\<rparr>"

text \<open>The flow of the live types, which \<open>refreshWalletBalance\<close> joins.\<close>

definition live_flows :: "TransactionType list \<Rightarrow> string \<rightharpoonup> string" where
  "live_flows ts code = map_option tt_flow (find (\<lambda>t. tt_code t = code \<and> \<not> tt_deleted t) ts)"

definition set_types :: "TransactionType list \<Rightarrow> book_db \<Rightarrow> book_db" where
  "set_types ts db = db\<lparr>txn_types := ts, bk := (bk db)\<lparr>type_flows := live_flows ts\<rparr>\<rparr>"

section \<open>Guards\<close>

definition mustUser :: "AuthUser option \<Rightarrow> AuthUser res" where
  "mustUser u = (case u of
       None \<Rightarrow> Inl (Unauthenticated ''not authenticated'')
     | Some v \<Rightarrow>
         if \<not> HasEffectiveTenantContext u then Inl (Forbidden ''tenant context required'')
         else ebind (RequireModule u ''finance'') (\<lambda>_. Inr v))"

definition isOwner :: "AuthUser \<Rightarrow> bool" where
  "isOwner v = CanPerformOwnerActions (Some v)"

definition assertOwner :: "AuthUser \<Rightarrow> unit res" where
  "assertOwner v = guard (isOwner v) (Forbidden ''only owner can perform this action'')"

definition assertWalletAccessible :: "env \<Rightarrow> book_db \<Rightarrow> AuthUser \<Rightarrow> string \<Rightarrow> unit res" where
  "assertWalletAccessible E db v w =
     (if w = [] then Inl (BadRequest ''dompet harus dipilih'')
      else if isOwner v then Inr ()
      else sql E ''wallet.visibility'' (case find_wallet (bk db) w of
          None \<Rightarrow> Inl (BadRequest ''dompet tidak ditemukan'')
        | Some r \<Rightarrow> if wl_deleted r \<or> \<not> wl_active r then Inl (BadRequest ''dompet tidak ditemukan'')
            else guard (map_option wi_visibility (winfo db w) \<noteq> Some ''owner'')
                   (Forbidden ''dompet ini hanya dapat diakses owner'')))"

text \<open>A missing row is the zero configuration.\<close>

definition loadApprovalConfig :: "env \<Rightarrow> book_db \<Rightarrow> approvalConfig res" where
  "loadApprovalConfig E db = sql E ''approval.load'' (Inr (case approval db of
       None \<Rightarrow> \<lparr>ac_enabled = False, ac_threshold = None, ac_types = []\<rparr> | Some c \<Rightarrow> c))"

definition staffNeedsApproval :: "approvalConfig \<Rightarrow> string \<Rightarrow> f64 \<Rightarrow> bool" where
  "staffNeedsApproval cfg ty amount =
     (if \<not> ac_enabled cfg then False
      else if ac_types cfg \<noteq> [] \<and> ty \<notin> set (ac_types cfg) then False
      else case ac_threshold cfg of
          Some n \<Rightarrow> \<not> amount < dec (10 ^ 2) n
        | None \<Rightarrow> True)"

definition loadTransactionTypeByCode :: "env \<Rightarrow> book_db \<Rightarrow> string \<Rightarrow> TransactionType res" where
  "loadTransactionTypeByCode E db code =
     (case find (\<lambda>t. tt_code t = code \<and> \<not> tt_deleted t \<and> tt_active t) (txn_types db) of
        Some t \<Rightarrow> if db_fails E ''type.bycode'' then Inl (NotFound ''jenis transaksi tidak valid'') else Inr t
      | None \<Rightarrow> Inl (NotFound ''jenis transaksi tidak valid''))"

section \<open>Wallets\<close>

definition validWalletTypes :: "string list" where
  "validWalletTypes = [''cash'', ''bank'', ''ewallet'', ''crypto'', ''investment'', ''other'']"

record CreateWalletParams =
  cw_name :: string
  cw_type :: string
  cw_institution :: "string option"
  cw_account :: "string option"
  cw_currency :: string
  cw_initial :: f64
  cw_color :: "string option"
  cw_icon :: "string option"
  cw_visibility :: string
  cw_order :: int

definition add_wallet :: "env \<Rightarrow> AuthUser \<Rightarrow> CreateWalletParams \<Rightarrow> book_db \<Rightarrow> (string \<times> book_db) res" where
  "add_wallet E v p db = (let fd = bk db; i = db_uuid E (fin_next fd) in
     if list_ex (\<lambda>r. wl_id r = i) (wallets fd) then Inl (Internal ''fin_wallet_pkey'')
     else Inr (i, db\<lparr>bk := fd\<lparr>fin_next := Suc (fin_next fd),
         wallets := wallets fd @ [\<lparr>wl_id = i, wl_type = cw_type p, wl_initial = db_money E (cw_initial p), wl_active = True,
           wl_deleted = False, wl_order = cw_order p, wl_created = db_now E\<rparr>]\<rparr>,
       winfo := (winfo db)(i \<mapsto> \<lparr>wi_name = trim_space (cw_name p), wi_institution = cw_institution p, wi_account = cw_account p,
         wi_currency = (if cw_currency p = [] then ''IDR'' else cw_currency p), wi_color = cw_color p, wi_icon = cw_icon p,
         wi_visibility = (if cw_visibility p \<noteq> ''owner'' then ''all'' else cw_visibility p), wi_by = AccountID v\<rparr>)\<rparr>))"

text \<open>\<open>INSERT ... ON CONFLICT DO NOTHING\<close>; its error is ignored.\<close>

definition open_balance :: "env \<Rightarrow> string \<Rightarrow> f64 \<Rightarrow> book_db \<Rightarrow> book_db" where
  "open_balance E i amount db = (let fd = bk db in
     if db_fails E ''balance.insert'' \<or> wallet_balance fd i \<noteq> None then db
     else db\<lparr>bk := fd\<lparr>wallet_balance := (wallet_balance fd)(i \<mapsto> db_money E amount)\<rparr>\<rparr>)"

definition CreateWallet :: "fin_req \<Rightarrow> AuthUser option \<Rightarrow> CreateWalletParams \<Rightarrow> book_db \<Rightarrow> (string, book_db) reply" where
  "CreateWallet Q u p db = (let E = fq_env Q 0 in
     try_reply db (mustUser u) (\<lambda>v.
     try_reply db (assertOwner v) (\<lambda>_.
     try_reply db (guard (trim_space (cw_name p) \<noteq> []) (BadRequest ''nama wallet tidak boleh kosong'')) (\<lambda>_.
     try_reply db (guard (cw_type p \<in> set validWalletTypes) (BadRequest ''tipe wallet tidak valid'')) (\<lambda>_.
     try_reply db (sql E ''tenant.prepare'' (Inr ())) (\<lambda>_.
     in_tx db (sql E ''wallet.insert'' (add_wallet E v p db)) (\<lambda>i db1.
     (Inr i, open_balance E i (cw_initial p) db1))))))))"

record UpdateWalletParams =
  uw_name :: "string option"
  uw_type :: "string option"
  uw_institution :: "string option"
  uw_color :: "string option"
  uw_icon :: "string option"
  uw_visibility :: "string option"
  uw_active :: "bool option"
  uw_order :: "int option"

definition or_keep :: "'a option \<Rightarrow> 'a \<Rightarrow> 'a" where
  "or_keep v x = (case v of None \<Rightarrow> x | Some y \<Rightarrow> y)"

definition edit_wallet :: "UpdateWalletParams \<Rightarrow> wallet_row \<Rightarrow> wallet_row" where
  "edit_wallet p r = r\<lparr>wl_type := or_keep (uw_type p) (wl_type r), wl_active := or_keep (uw_active p) (wl_active r),
     wl_order := or_keep (uw_order p) (wl_order r)\<rparr>"

definition edit_wallet_info :: "UpdateWalletParams \<Rightarrow> wallet_info \<Rightarrow> wallet_info" where
  "edit_wallet_info p w = w\<lparr>wi_name := or_keep (map_option trim_space (uw_name p)) (wi_name w),
     wi_institution := (case uw_institution p of None \<Rightarrow> wi_institution w | Some x \<Rightarrow> Some x),
     wi_color := (case uw_color p of None \<Rightarrow> wi_color w | Some x \<Rightarrow> Some x),
     wi_icon := (case uw_icon p of None \<Rightarrow> wi_icon w | Some x \<Rightarrow> Some x),
     wi_visibility := or_keep (uw_visibility p) (wi_visibility w)\<rparr>"

definition live_wallet :: "book_db \<Rightarrow> string \<Rightarrow> bool" where
  "live_wallet db i \<longleftrightarrow> list_ex (\<lambda>r. wl_id r = i \<and> \<not> wl_deleted r) (wallets (bk db))"

definition write_wallet :: "string \<Rightarrow> (wallet_row \<Rightarrow> wallet_row) \<Rightarrow> book_db \<Rightarrow> book_db" where
  "write_wallet i f db = db\<lparr>bk := (bk db)\<lparr>wallets := map (\<lambda>r. if wl_id r = i \<and> \<not> wl_deleted r then f r else r) (wallets (bk db))\<rparr>\<rparr>"

definition UpdateWallet :: "fin_req \<Rightarrow> AuthUser option \<Rightarrow> string \<Rightarrow> UpdateWalletParams \<Rightarrow> book_db \<Rightarrow> (unit, book_db) reply" where
  "UpdateWallet Q u i p db = (let E = fq_env Q 0 in
     try_reply db (mustUser u) (\<lambda>v.
     try_reply db (assertOwner v) (\<lambda>_.
     try_reply db (sql E ''tenant.prepare'' (Inr ())) (\<lambda>_.
     try_reply db (guard (case uw_type p of None \<Rightarrow> True | Some t \<Rightarrow> t \<in> set validWalletTypes) (BadRequest ''tipe wallet tidak valid'')) (\<lambda>_.
     try_reply db (guard (\<not> (uw_name p = None \<and> uw_type p = None \<and> uw_institution p = None \<and> uw_color p = None \<and> uw_icon p = None
         \<and> uw_visibility p = None \<and> uw_active p = None \<and> uw_order p = None)) (BadRequest ''tidak ada perubahan'')) (\<lambda>_.
     try_reply db (sql E ''wallet.update'' (Inr ())) (\<lambda>_.
     (Inr (), if live_wallet db i
        then write_wallet i (edit_wallet p) (db\<lparr>winfo := (winfo db)(i := map_option (edit_wallet_info p) (winfo db i))\<rparr>)
        else db))))))))"

text \<open>A count whose query fails stays zero.\<close>

definition walletDeleteBlocked :: "env \<Rightarrow> book_db \<Rightarrow> string \<Rightarrow> unit res" where
  "walletDeleteBlocked E db w =
     ebind (guard (db_fails E ''wallet.txns'' \<or> \<not> list_ex (\<lambda>t. \<not> ft_deleted t \<and> (ft_wallet t = w \<or> ft_to t = Some w)) (txns (bk db)))
       (BadRequest ''dompet masih memiliki transaksi. Hapus atau pindahkan transaksi terlebih dahulu.'')) (\<lambda>_.
     ebind (guard (db_fails E ''asset.table'' \<or> db_fails E ''wallet.assets'' \<or> w \<notin> set (asset_wallets db))
       (BadRequest ''dompet masih terhubung ke aset investasi aktif. Ubah dompet aset atau hapus aset terlebih dahulu.'')) (\<lambda>_.
     guard (db_fails E ''wallet.recurring''
         \<or> \<not> list_ex (\<lambda>r. \<not> rc_deleted r \<and> (rc_wallet r = w \<or> rc_to r = Some w)) (recurrings db))
       (BadRequest ''dompet masih dipakai transaksi berulang. Hapus transaksi berulang terlebih dahulu.'')))"

definition DeleteWallet :: "fin_req \<Rightarrow> AuthUser option \<Rightarrow> string \<Rightarrow> book_db \<Rightarrow> (unit, book_db) reply" where
  "DeleteWallet Q u i db = (let E = fq_env Q 0 in
     try_reply db (mustUser u) (\<lambda>v.
     try_reply db (assertOwner v) (\<lambda>_.
     try_reply db (guard (trim_space i \<noteq> []) (BadRequest ''dompet tidak valid'')) (\<lambda>_.
     try_reply db (sql E ''tenant.prepare'' (Inr ())) (\<lambda>_.
     try_reply db (sql E ''wallet.exists'' (guard (live_wallet db i) (NotFound ''dompet tidak ditemukan''))) (\<lambda>_.
     try_reply db (walletDeleteBlocked E db i) (\<lambda>_.
     try_reply db (sql E ''wallet.delete'' (guard (live_wallet db i) (NotFound ''dompet tidak ditemukan''))) (\<lambda>_.
     (Inr (), write_wallet i (\<lambda>r. r\<lparr>wl_deleted := True\<rparr>) db)))))))))"

section \<open>Categories\<close>

record CreateCategoryParams =
  cc_name :: string
  cc_type :: string
  cc_parent :: "string option"
  cc_icon :: "string option"
  cc_color :: "string option"
  cc_order :: int

definition add_category :: "env \<Rightarrow> CreateCategoryParams \<Rightarrow> book_db \<Rightarrow> (string \<times> book_db) res" where
  "add_category E p db = (let fd = bk db; i = db_uuid E (fin_next fd) in
     if list_ex (\<lambda>r. ct_id r = i) (categories fd) then Inl (Internal ''fin_category_pkey'')
     else Inr (i, db\<lparr>bk := fd\<lparr>fin_next := Suc (fin_next fd),
         categories := categories fd @ [\<lparr>ct_id = i, ct_name = trim_space (cc_name p), ct_system = False, ct_deleted = False\<rparr>]\<rparr>,
       cinfo := (cinfo db)(i \<mapsto> \<lparr>ce_type = cc_type p, ce_parent = cc_parent p, ce_icon = cc_icon p, ce_color = cc_color p,
         ce_order = cc_order p\<rparr>)\<rparr>))"

definition CreateCategory :: "fin_req \<Rightarrow> AuthUser option \<Rightarrow> CreateCategoryParams \<Rightarrow> book_db \<Rightarrow> (string, book_db) reply" where
  "CreateCategory Q u p db = (let E = fq_env Q 0 in
     try_reply db (mustUser u) (\<lambda>v.
     try_reply db (assertOwner v) (\<lambda>_.
     try_reply db (guard (trim_space (cc_name p) \<noteq> []) (BadRequest ''nama kategori tidak boleh kosong'')) (\<lambda>_.
     try_reply db (sql E ''tenant.prepare'' (Inr ())) (\<lambda>_.
     in_tx db (sql E ''category.insert'' (add_category E p db)) (\<lambda>i db1. (Inr i, db1)))))))"

definition DeleteCategory :: "fin_req \<Rightarrow> AuthUser option \<Rightarrow> string \<Rightarrow> book_db \<Rightarrow> (unit, book_db) reply" where
  "DeleteCategory Q u i db = (let E = fq_env Q 0 in
     try_reply db (mustUser u) (\<lambda>v.
     try_reply db (assertOwner v) (\<lambda>_.
     try_reply db (sql E ''tenant.prepare'' (Inr ())) (\<lambda>_.
     try_reply db (sql E ''category.system'' (case find (\<lambda>c. ct_id c = i \<and> \<not> ct_deleted c) (categories (bk db)) of
         None \<Rightarrow> Inl (NotFound ''kategori tidak ditemukan'')
       | Some c \<Rightarrow> guard (\<not> ct_system c) (BadRequest ''kategori bawaan tidak bisa dihapus''))) (\<lambda>_.
     try_reply db (sql E ''category.delete'' (Inr ())) (\<lambda>_.
     (Inr (), db\<lparr>bk := (bk db)\<lparr>categories := map (\<lambda>c. if ct_id c = i \<and> \<not> ct_deleted c then c\<lparr>ct_deleted := True\<rparr> else c)
       (categories (bk db))\<rparr>\<rparr>)))))))"

section \<open>Transactions\<close>

text \<open>The partial unique index \<open>idx_fin_txn_order_income_ref\<close>, for a row that is live.\<close>

definition income_ref_taken :: "fin_db \<Rightarrow> fin_txn \<Rightarrow> bool" where
  "income_ref_taken fd t \<longleftrightarrow> ft_type t = ''income'' \<and> ft_ref t \<noteq> None
     \<and> list_ex (\<lambda>r. ft_id r \<noteq> ft_id t \<and> ft_type r = ''income'' \<and> ft_ref r = ft_ref t \<and> \<not> ft_deleted r) (txns fd)"

definition row_check :: "fin_db \<Rightarrow> fin_txn \<Rightarrow> 'a res \<Rightarrow> 'a res" where
  "row_check fd t r =
     (if income_ref_taken fd t then Inl (Internal ''idx_fin_txn_order_income_ref'') else amount_check (ft_amount t) r)"

definition add_txn :: "fin_txn \<Rightarrow> txn_info \<Rightarrow> book_db \<Rightarrow> (string \<times> book_db) res" where
  "add_txn t i db = (let fd = bk db in
     if list_ex (\<lambda>r. ft_id r = ft_id t) (txns fd) then Inl (Internal ''fin_transaction_pkey'')
     else row_check fd t (Inr (ft_id t, db\<lparr>bk := fd\<lparr>txns := txns fd @ [t], fin_next := Suc (fin_next fd)\<rparr>,
       tinfo := (tinfo db)(ft_id t \<mapsto> i)\<rparr>)))"

definition write_txn :: "string \<Rightarrow> (fin_txn \<Rightarrow> fin_txn) \<Rightarrow> (txn_info \<Rightarrow> txn_info) \<Rightarrow> book_db \<Rightarrow> book_db" where
  "write_txn i f g db = db\<lparr>bk := (bk db)\<lparr>txns := map (\<lambda>t. if ft_id t = i then f t else t) (txns (bk db))\<rparr>,
     tinfo := (tinfo db)(i := map_option g (tinfo db i))\<rparr>"

definition drop_txn :: "string \<Rightarrow> book_db \<Rightarrow> book_db" where
  "drop_txn i db = db\<lparr>bk := (bk db)\<lparr>txns := [t \<leftarrow> txns (bk db). ft_id t \<noteq> i]\<rparr>, tinfo := (tinfo db)(i := None)\<rparr>"

definition refresh_bk :: "env \<Rightarrow> string \<Rightarrow> string option \<Rightarrow> book_db \<Rightarrow> book_db" where
  "refresh_bk E w to db = set_bk (refreshWallets E w to (bk db)) db"

text \<open>\<open>refreshWalletsForTransaction\<close>, and the same lines in \<open>UpdateTransaction\<close>: nothing when the row is not read.\<close>

definition refreshWalletsForTransaction :: "env \<Rightarrow> string \<Rightarrow> book_db \<Rightarrow> book_db" where
  "refreshWalletsForTransaction E i db =
     (if db_fails E ''txn.wallets'' then db
      else case find (\<lambda>t. ft_id t = i) (txns (bk db)) of
          None \<Rightarrow> db
        | Some t \<Rightarrow> refresh_bk E (ft_wallet t) (ft_to t) db)"

record CreateTransactionParams =
  tc_type :: string
  tc_amount :: f64
  tc_currency :: string
  tc_wallet :: string
  tc_to :: "string option"
  tc_category :: "string option"
  tc_desc :: "string option"
  tc_notes :: "string option"
  tc_ref :: "string option"
  tc_date :: string
  tc_tags :: "string list"

text \<open>Returns the currency it fills in.\<close>

definition validateCreateTransaction :: "CreateTransactionParams \<Rightarrow> string res" where
  "validateCreateTransaction p =
     (if trim_space (tc_type p) = [] then Inl (BadRequest ''jenis transaksi tidak valid'')
      else if tc_amount p \<le> 0 then Inl (BadRequest ''jumlah harus lebih dari 0'')
      else if tc_amount p > 999999999999 then Inl (BadRequest ''jumlah terlalu besar'')
      else if tc_wallet p = [] then Inl (BadRequest ''wallet harus dipilih'')
      else if tc_type p = ''transfer'' \<and> (tc_to p = None \<or> tc_to p = Some []) then Inl (BadRequest ''transfer harus ada wallet tujuan'')
      else if tc_type p = ''transfer'' \<and> tc_to p = Some (tc_wallet p) then Inl (BadRequest ''wallet asal dan tujuan tidak boleh sama'')
      else Inr (if tc_currency p = [] then ''IDR'' else tc_currency p))"

definition txn_status :: "env \<Rightarrow> book_db \<Rightarrow> AuthUser \<Rightarrow> CreateTransactionParams \<Rightarrow> string res" where
  "txn_status E db v p =
     (if isOwner v then Inr ''approved''
      else ebind (loadApprovalConfig E db) (\<lambda>cfg.
        Inr (if staffNeedsApproval cfg (tc_type p) (tc_amount p) then ''pending_approval'' else ''approved'')))"

definition need_date :: "fin_req \<Rightarrow> string \<Rightarrow> string res" where
  "need_date Q d = (case fq_date Q d of None \<Rightarrow> Inl (Internal ''invalid input syntax for type date'') | Some x \<Rightarrow> Inr x)"

definition insert_tx ::
  "fin_req \<Rightarrow> AuthUser \<Rightarrow> CreateTransactionParams \<Rightarrow> string \<Rightarrow> string \<Rightarrow> string \<Rightarrow> book_db \<Rightarrow> (string \<times> book_db) res"
where
  "insert_tx Q v p currency date status db = (let E = fq_env Q 0 in
     ebind (sql E ''txn.begin'' (Inr ())) (\<lambda>_.
     ebind (sql E ''txn.insert'' (need_date Q date)) (\<lambda>d.
     ebind (add_txn \<lparr>ft_id = db_uuid E (fin_next (bk db)), ft_type = tc_type p, ft_amount = db_money E (tc_amount p),
         ft_wallet = tc_wallet p, ft_to = tc_to p, ft_category = tc_category p, ft_desc = tc_desc p, ft_ref = tc_ref p,
         ft_date = d, ft_status = status, ft_by = AccountID v, ft_deleted = False\<rparr>
       \<lparr>ti_currency = currency, ti_notes = tc_notes p, ti_tags = tc_tags p, ti_approver = None, ti_approved = None,
         ti_reason = None, ti_recurring = None\<rparr> db) (\<lambda>r.
     sql E ''txn.commit'' (Inr r)))))"

definition CreateTransaction ::
  "fin_req \<Rightarrow> AuthUser option \<Rightarrow> CreateTransactionParams \<Rightarrow> book_db \<Rightarrow> (string \<times> string, book_db) reply"
where
  "CreateTransaction Q u p db = (let E = fq_env Q 0 in
     try_reply db (mustUser u) (\<lambda>v.
     try_reply db (validateCreateTransaction p) (\<lambda>currency.
     try_reply db (sql E ''tenant.prepare'' (Inr ())) (\<lambda>_.
     let date = (if tc_date p = [] then fq_today Q else tc_date p) in
     try_reply db (loadTransactionTypeByCode E db (tc_type p)) (\<lambda>ty.
     try_reply db (if tt_owner ty then assertOwner v else Inr ()) (\<lambda>_.
     try_reply db (assertWalletAccessible E db v (tc_wallet p)) (\<lambda>_.
     try_reply db (case tc_to p of None \<Rightarrow> Inr () | Some w \<Rightarrow>
         if w \<noteq> [] then assertWalletAccessible (fq_env Q 1) db v w else Inr ()) (\<lambda>_.
     try_reply db (txn_status E db v p) (\<lambda>status.
     try_reply db (ensurePeriodUnlocked E (bk db) (walletPeriod (fq_period Q) date)) (\<lambda>_.
     in_tx db (insert_tx Q v p currency date status db) (\<lambda>i db1.
     (Inr (i, status), if status = ''approved'' then refresh_bk E (tc_wallet p) (tc_to p) db1 else db1))))))))))))"

record UpdateTransactionParams =
  tu_category :: "string option"
  tu_desc :: "string option"
  tu_notes :: "string option"
  tu_ref :: "string option"
  tu_date :: "string option"
  tu_amount :: "f64 option"
  tu_tags :: "string list option"

text \<open>The amount is taken from an owner only.\<close>

definition new_amount :: "AuthUser \<Rightarrow> UpdateTransactionParams \<Rightarrow> f64 option" where
  "new_amount v p = (if isOwner v then tu_amount p else None)"

definition edit_txn :: "env \<Rightarrow> AuthUser \<Rightarrow> UpdateTransactionParams \<Rightarrow> string option \<Rightarrow> fin_txn \<Rightarrow> fin_txn" where
  "edit_txn E v p date t = t\<lparr>ft_category := (case tu_category p of None \<Rightarrow> ft_category t | Some c \<Rightarrow> Some c),
     ft_desc := (case tu_desc p of None \<Rightarrow> ft_desc t | Some d \<Rightarrow> Some d),
     ft_ref := (case tu_ref p of None \<Rightarrow> ft_ref t | Some r \<Rightarrow> Some r),
     ft_date := or_keep date (ft_date t),
     ft_amount := or_keep (map_option (db_money E) (new_amount v p)) (ft_amount t)\<rparr>"

definition edit_info :: "UpdateTransactionParams \<Rightarrow> txn_info \<Rightarrow> txn_info" where
  "edit_info p i = i\<lparr>ti_notes := (case tu_notes p of None \<Rightarrow> ti_notes i | Some n \<Rightarrow> Some n),
     ti_tags := or_keep (tu_tags p) (ti_tags i)\<rparr>"

definition may_edit :: "AuthUser \<Rightarrow> fin_txn \<Rightarrow> unit res" where
  "may_edit v t = (if isOwner v then Inr ()
     else if ft_by t \<noteq> AccountID v then Inl (Forbidden ''hanya bisa edit transaksi milik sendiri'')
     else guard (ft_status t \<in> {''draft'', ''pending_approval'', ''rejected''})
            (Forbidden ''transaksi sudah diproses, tidak bisa diedit''))"

definition update_txn_stmt ::
  "fin_req \<Rightarrow> AuthUser \<Rightarrow> string \<Rightarrow> fin_txn \<Rightarrow> UpdateTransactionParams \<Rightarrow> book_db \<Rightarrow> (unit \<times> book_db) res"
where
  "update_txn_stmt Q v i t p db = (let E = fq_env Q 0 in
     ebind (sql E ''txn.update'' (case tu_date p of None \<Rightarrow> Inr None | Some d \<Rightarrow> ebind (need_date Q d) (\<lambda>x. Inr (Some x)))) (\<lambda>date.
     row_check (bk db) (edit_txn E v p date t) (Inr ((), write_txn i (edit_txn E v p date) (edit_info p) db))))"

definition UpdateTransaction ::
  "fin_req \<Rightarrow> AuthUser option \<Rightarrow> string \<Rightarrow> UpdateTransactionParams \<Rightarrow> book_db \<Rightarrow> (string \<times> string, book_db) reply"
where
  "UpdateTransaction Q u i p db = (let E = fq_env Q 0 in
     try_reply db (mustUser u) (\<lambda>v.
     try_reply db (sql E ''tenant.prepare'' (Inr ())) (\<lambda>_.
     try_reply db (sql E ''txn.load'' (case find_txn_row db i of None \<Rightarrow> Inl (NotFound ''transaksi tidak ditemukan'') | Some t \<Rightarrow> Inr t)) (\<lambda>t.
     try_reply db (may_edit v t) (\<lambda>_.
     try_reply db (ensurePeriodUnlocked E (bk db) (walletPeriod (fq_period Q) (ft_date t))) (\<lambda>_.
     try_reply db (case tu_date p of None \<Rightarrow> Inr () | Some d \<Rightarrow>
         ensurePeriodUnlocked (fq_env Q 1) (bk db) (walletPeriod (fq_period Q) d)) (\<lambda>_.
     try_reply db (guard (case new_amount v p of None \<Rightarrow> True | Some a \<Rightarrow> \<not> a \<le> 0) (BadRequest ''jumlah harus lebih dari 0'')) (\<lambda>_.
     in_tx db (update_txn_stmt Q v i t p db) (\<lambda>_ db1.
     (Inr (ft_type t, ft_status t),
      if (tu_amount p \<noteq> None \<or> tu_date p \<noteq> None) \<and> ft_status t = ''approved''
      then refreshWalletsForTransaction E i db1 else db1))))))))))"

text \<open>Any error of the read is reported as not found; an error of the delete is ignored.\<close>

definition DeleteTransaction :: "fin_req \<Rightarrow> AuthUser option \<Rightarrow> string \<Rightarrow> book_db \<Rightarrow> (unit, book_db) reply" where
  "DeleteTransaction Q u i db = (let E = fq_env Q 0 in
     try_reply db (mustUser u) (\<lambda>v.
     try_reply db (assertOwner v) (\<lambda>_.
     try_reply db (sql E ''tenant.prepare'' (Inr ())) (\<lambda>_.
     try_reply db (if db_fails E ''txn.load'' then Inl (NotFound ''transaksi tidak ditemukan'')
         else case find_txn_row db i of None \<Rightarrow> Inl (NotFound ''transaksi tidak ditemukan'') | Some t \<Rightarrow> Inr t) (\<lambda>t.
     try_reply db (ensurePeriodUnlocked E (bk db) (walletPeriod (fq_period Q) (ft_date t))) (\<lambda>_.
     (Inr (), refresh_bk E (ft_wallet t) (ft_to t) (if db_fails E ''txn.delete'' then db else drop_txn i db))))))))"

section \<open>Approval and the period lock\<close>

definition ApproveTransaction ::
  "fin_req \<Rightarrow> AuthUser option \<Rightarrow> string \<Rightarrow> string \<Rightarrow> string \<Rightarrow> book_db \<Rightarrow> (string, book_db) reply"
where
  "ApproveTransaction Q u i action reason db = (let E = fq_env Q 0 in
     try_reply db (mustUser u) (\<lambda>v.
     try_reply db (assertOwner v) (\<lambda>_.
     try_reply db (guard (action = ''approve'' \<or> action = ''reject'') (BadRequest ''action harus approve atau reject'')) (\<lambda>_.
     try_reply db (sql E ''tenant.prepare'' (Inr ())) (\<lambda>_.
     try_reply db (if db_fails E ''txn.load'' then Inl (NotFound ''transaksi tidak ditemukan'')
         else case find_txn_row db i of None \<Rightarrow> Inl (NotFound ''transaksi tidak ditemukan'') | Some t \<Rightarrow> Inr t) (\<lambda>t.
     try_reply db (guard (ft_status t = ''pending_approval'') (BadRequest ''transaksi tidak dalam status menunggu persetujuan'')) (\<lambda>_.
     let newStatus = (if action = ''reject'' then ''rejected'' else ''approved'') in
     try_reply db (sql E ''txn.approve'' (Inr ())) (\<lambda>_.
     let db1 = write_txn i (\<lambda>t. t\<lparr>ft_status := newStatus\<rparr>) (\<lambda>x. x\<lparr>ti_approver := Some (AccountID v), ti_approved := Some (db_now E),
           ti_reason := (if newStatus = ''rejected'' then Some reason else None)\<rparr>) db in
     (Inr newStatus, if newStatus = ''approved'' then refresh_bk E (ft_wallet t) (ft_to t) db1 else db1)))))))))"

record ApprovalSettingParams =
  as_enabled :: bool
  as_threshold :: "f64 option"
  as_types :: "string list"

definition UpdateApprovalSetting :: "fin_req \<Rightarrow> AuthUser option \<Rightarrow> ApprovalSettingParams \<Rightarrow> book_db \<Rightarrow> (unit, book_db) reply" where
  "UpdateApprovalSetting Q u p db = (let E = fq_env Q 0 in
     try_reply db (mustUser u) (\<lambda>v.
     try_reply db (assertOwner v) (\<lambda>_.
     try_reply db (sql E ''tenant.prepare'' (Inr ())) (\<lambda>_.
     try_reply db (sql E ''approval.upsert'' (Inr ())) (\<lambda>_.
     (Inr (), db\<lparr>approval := Some \<lparr>ac_enabled = as_enabled p, ac_threshold = map_option (db_money E) (as_threshold p),
        ac_types = as_types p\<rparr>\<rparr>))))))"

definition LockPeriod :: "fin_req \<Rightarrow> AuthUser option \<Rightarrow> string \<Rightarrow> book_db \<Rightarrow> (unit, book_db) reply" where
  "LockPeriod Q u period db = (let E = fq_env Q 0 in
     try_reply db (mustUser u) (\<lambda>v.
     try_reply db (assertOwner v) (\<lambda>_.
     try_reply db (sql E ''tenant.prepare'' (Inr ())) (\<lambda>_.
     try_reply db (sql E ''period.lock'' (Inr ())) (\<lambda>_.
     (Inr (), if period \<in> set (period_locks (bk db)) then db
        else db\<lparr>bk := (bk db)\<lparr>period_locks := period_locks (bk db) @ [period]\<rparr>\<rparr>))))))"

section \<open>Duplicates\<close>

text \<open>\<open>INSERT ... SELECT ... FROM fin_transaction WHERE id=$3 AND deleted_at IS NULL RETURNING id\<close>\<close>

definition copy_txn :: "fin_req \<Rightarrow> env \<Rightarrow> AuthUser \<Rightarrow> string \<Rightarrow> string \<Rightarrow> book_db \<Rightarrow> (string \<times> book_db) res" where
  "copy_txn Q E v target i db = sql E ''txn.copy'' (case find_txn_row db i of
       None \<Rightarrow> Inl (Plain ''sql: no rows in result set'')
     | Some t \<Rightarrow> ebind (need_date Q target) (\<lambda>d.
         add_txn (t\<lparr>ft_id := db_uuid E (fin_next (bk db)), ft_ref := None, ft_date := d, ft_status := ''approved'', ft_by := AccountID v\<rparr>)
           (case tinfo db i of
              Some x \<Rightarrow> x\<lparr>ti_approver := None, ti_approved := None, ti_reason := None, ti_recurring := None\<rparr>
            | None \<Rightarrow> \<lparr>ti_currency = ''IDR'', ti_notes = None, ti_tags = [], ti_approver = None, ti_approved = None,
                ti_reason = None, ti_recurring = None\<rparr>) db))"

fun duplicate_each :: "fin_req \<Rightarrow> nat \<Rightarrow> AuthUser \<Rightarrow> string \<Rightarrow> string list \<Rightarrow> nat \<Rightarrow> book_db \<Rightarrow> nat \<times> book_db" where
  "duplicate_each Q n v target [] k db = (k, db)"
| "duplicate_each Q n v target (i # is) k db = (case copy_txn Q (fq_env Q n) v target i db of
       Inl e \<Rightarrow> duplicate_each Q (Suc n) v target is k db
     | Inr (new, db1) \<Rightarrow>
         duplicate_each Q (Suc n) v target is (Suc k) (refreshWalletsForTransaction (fq_env Q n) new db1))"

definition DuplicateTransactions ::
  "fin_req \<Rightarrow> AuthUser option \<Rightarrow> string list \<Rightarrow> string \<Rightarrow> book_db \<Rightarrow> (nat, book_db) reply"
where
  "DuplicateTransactions Q u ids target db = (let E = fq_env Q 0 in
     try_reply db (mustUser u) (\<lambda>v.
     try_reply db (assertOwner v) (\<lambda>_.
     try_reply db (guard (ids \<noteq> []) (BadRequest ''pilih minimal satu transaksi'')) (\<lambda>_.
     try_reply db (guard (target \<noteq> []) (BadRequest ''tanggal target harus diisi'')) (\<lambda>_.
     try_reply db (sql E ''tenant.prepare'' (Inr ())) (\<lambda>_.
     try_reply db (ensurePeriodUnlocked E (bk db) (walletPeriod (fq_period Q) target)) (\<lambda>_.
     case duplicate_each Q 1 v target ids 0 db of (k, db1) \<Rightarrow> (Inr k, db1))))))))"

section \<open>Transaction types (transaction_types.go)\<close>

definition validTxnFlows :: "string list" where
  "validTxnFlows = [''income'', ''expense'', ''transfer'', ''adjustment'']"

definition validCategoryKinds :: "string list" where
  "validCategoryKinds = [''income'', ''expense'', ''investment'', ''any'']"

text \<open>\<open>^[a-z][a-z0-9_]{0,39}$\<close>\<close>

definition txnTypeCodeRe :: "string \<Rightarrow> bool" where
  "txnTypeCodeRe s = (case s of
       [] \<Rightarrow> False
     | c # cs \<Rightarrow> CHR ''a'' \<le> c \<and> c \<le> CHR ''z'' \<and> length cs \<le> 39
         \<and> list_all (\<lambda>d. CHR ''a'' \<le> d \<and> d \<le> CHR ''z'' \<or> is_digit d \<or> d = CHR ''_'') cs)"

record CreateTransactionTypeParams =
  yc_code :: string
  yc_label :: string
  yc_flow :: string
  yc_kind :: string
  yc_quick :: bool
  yc_order :: int

definition validateTxnTypeInput :: "string \<Rightarrow> string \<Rightarrow> string \<Rightarrow> string \<Rightarrow> unit res" where
  "validateTxnTypeInput code label flow kind =
     ebind (guard (txnTypeCodeRe (trim_space code)) (BadRequest ''kode harus huruf kecil, angka, underscore (contoh: biaya_kirim)'')) (\<lambda>_.
     ebind (guard (trim_space label \<noteq> []) (BadRequest ''label tidak boleh kosong'')) (\<lambda>_.
     ebind (guard (flow \<in> set validTxnFlows) (BadRequest ''flow harus income, expense, transfer, atau adjustment'')) (\<lambda>_.
     guard ((if kind = [] then ''any'' else kind) \<in> set validCategoryKinds) (BadRequest ''categoryKind tidak valid''))))"

text \<open>A code that a live type has is refused by \<open>idx_fin_txn_type_code\<close> when the test before missed it.\<close>

definition add_type :: "env \<Rightarrow> string \<Rightarrow> CreateTransactionTypeParams \<Rightarrow> book_db \<Rightarrow> (string \<times> book_db) res" where
  "add_type E code p db = (let fd = bk db; i = db_uuid E (fin_next fd) in
     if list_ex (\<lambda>t. tt_id t = i) (txn_types db) then Inl (Internal ''fin_transaction_type_pkey'')
     else if list_ex (\<lambda>t. tt_code t = code \<and> \<not> tt_deleted t) (txn_types db) then Inl (Internal ''idx_fin_txn_type_code'')
     else Inr (i, set_types (txn_types db @ [\<lparr>tt_id = i, tt_code = code, tt_label = trim_space (yc_label p), tt_flow = yc_flow p,
         tt_kind = yc_kind p, tt_quick = yc_quick p, tt_order = yc_order p, tt_system = False,
         tt_owner = (yc_flow p = ''adjustment''), tt_active = True, tt_deleted = False\<rparr>])
       (db\<lparr>bk := fd\<lparr>fin_next := Suc (fin_next fd)\<rparr>\<rparr>)))"

definition loadTransactionTypeByID :: "env \<Rightarrow> book_db \<Rightarrow> string \<Rightarrow> TransactionType res" where
  "loadTransactionTypeByID E db i = (case find (\<lambda>t. tt_id t = i \<and> \<not> tt_deleted t) (txn_types db) of
       Some t \<Rightarrow> if db_fails E ''type.byid'' then Inl (NotFound ''jenis transaksi tidak ditemukan'') else Inr t
     | None \<Rightarrow> Inl (NotFound ''jenis transaksi tidak ditemukan''))"

definition CreateTransactionType ::
  "fin_req \<Rightarrow> AuthUser option \<Rightarrow> CreateTransactionTypeParams \<Rightarrow> book_db \<Rightarrow> (TransactionType, book_db) reply"
where
  "CreateTransactionType Q u p db = (let E = fq_env Q 0; code = norm_key (yc_code p) in
     try_reply db (mustUser u) (\<lambda>v.
     try_reply db (assertOwner v) (\<lambda>_.
     try_reply db (validateTxnTypeInput code (yc_label p) (yc_flow p) (yc_kind p)) (\<lambda>_.
     try_reply db (sql E ''tenant.prepare'' (Inr ())) (\<lambda>_.
     try_reply db (guard (db_fails E ''type.exists'' \<or> \<not> list_ex (\<lambda>t. tt_code t = code \<and> \<not> tt_deleted t) (txn_types db))
         (BadRequest ''kode jenis transaksi sudah dipakai'')) (\<lambda>_.
     in_tx db (sql E ''type.insert'' (add_type E code p db)) (\<lambda>i db1.
     try_reply db1 (loadTransactionTypeByID E db1 i) (\<lambda>t. (Inr t, db1)))))))))"

record UpdateTransactionTypeParams =
  yu_label :: "string option"
  yu_flow :: "string option"
  yu_kind :: "string option"
  yu_quick :: "bool option"
  yu_order :: "int option"
  yu_active :: "bool option"

text \<open>One \<open>UPDATE ... WHERE id=$2\<close>, whose error is ignored.\<close>

definition write_type :: "env \<Rightarrow> string \<Rightarrow> string \<Rightarrow> 'a option \<Rightarrow> ('a \<Rightarrow> TransactionType \<Rightarrow> TransactionType) \<Rightarrow> book_db \<Rightarrow> book_db" where
  "write_type E stmt i v f db = (case v of None \<Rightarrow> db | Some x \<Rightarrow>
     if db_fails E stmt then db
     else set_types (map (\<lambda>t. if tt_id t = i then f x t else t) (txn_types db)) db)"

definition UpdateTransactionType ::
  "fin_req \<Rightarrow> AuthUser option \<Rightarrow> string \<Rightarrow> UpdateTransactionTypeParams \<Rightarrow> book_db \<Rightarrow> (TransactionType, book_db) reply"
where
  "UpdateTransactionType Q u i p db = (let E = fq_env Q 0 in
     try_reply db (mustUser u) (\<lambda>v.
     try_reply db (assertOwner v) (\<lambda>_.
     try_reply db (sql E ''tenant.prepare'' (Inr ())) (\<lambda>_.
     try_reply db (loadTransactionTypeByID (fq_env Q 1) db i) (\<lambda>ty.
     try_reply db (guard (case yu_label p of None \<Rightarrow> True | Some l \<Rightarrow> trim_space l \<noteq> []) (BadRequest ''label tidak boleh kosong'')) (\<lambda>_.
     let db1 = write_type E ''type.label'' i (yu_label p) (\<lambda>l t. t\<lparr>tt_label := trim_space l\<rparr>) db;
         flow = (if tt_system ty then None else yu_flow p); kind = (if tt_system ty then None else yu_kind p) in
     try_reply db1 (guard (case flow of None \<Rightarrow> True | Some f \<Rightarrow> f \<in> set validTxnFlows) (BadRequest ''alur (flow) tidak valid'')) (\<lambda>_.
     let db2 = write_type E ''type.flow'' i flow (\<lambda>f t. t\<lparr>tt_flow := f\<rparr>) db1 in
     try_reply db2 (guard (case kind of None \<Rightarrow> True | Some k \<Rightarrow> k \<in> set validCategoryKinds) (BadRequest ''jenis kategori tidak valid'')) (\<lambda>_.
     let db3 = write_type E ''type.kind'' i kind (\<lambda>k t. t\<lparr>tt_kind := k\<rparr>) db2;
         db4 = write_type E ''type.quick'' i (yu_quick p) (\<lambda>b t. t\<lparr>tt_quick := b\<rparr>) db3;
         db5 = write_type E ''type.order'' i (yu_order p) (\<lambda>k t. t\<lparr>tt_order := k\<rparr>) db4;
         db6 = write_type E ''type.active'' i (yu_active p) (\<lambda>b t. t\<lparr>tt_active := b\<rparr>) db5 in
     try_reply db6 (loadTransactionTypeByID (fq_env Q 2) db6 i) (\<lambda>t. (Inr t, db6))))))))))"

definition DeleteTransactionType :: "fin_req \<Rightarrow> AuthUser option \<Rightarrow> string \<Rightarrow> book_db \<Rightarrow> (unit, book_db) reply" where
  "DeleteTransactionType Q u i db = (let E = fq_env Q 0 in
     try_reply db (mustUser u) (\<lambda>v.
     try_reply db (assertOwner v) (\<lambda>_.
     try_reply db (sql E ''tenant.prepare'' (Inr ())) (\<lambda>_.
     try_reply db (loadTransactionTypeByID E db i) (\<lambda>ty.
     try_reply db (guard (\<not> tt_system ty) (BadRequest ''jenis bawaan sistem tidak bisa dihapus'')) (\<lambda>_.
     try_reply db (guard (db_fails E ''type.inuse'' \<or> \<not> list_ex (\<lambda>t. ft_type t = tt_code ty \<and> \<not> ft_deleted t) (txns (bk db)))
         (BadRequest (''jenis masih dipakai transaksi '' @ [CHR 0xE2, CHR 0x80, CHR 0x94] @ '' nonaktifkan saja''))) (\<lambda>_.
     (Inr (), write_type E ''type.delete'' i (Some ()) (\<lambda>_ t. t\<lparr>tt_deleted := True, tt_active := False\<rparr>) db))))))))"

end
