(* ===== verification/Recurring.thy ===== *)
theory Recurring
  imports Books
begin

text \<open>
  Recurring transactions (\<open>finance/recurring.go\<close>): the schedule and the daily job that posts what is due.
  Titles are encrypted and only shown to people; they are not modelled.
\<close>

section \<open>The calendar\<close>

type_synonym ymd = "nat \<times> nat \<times> nat"

fun next_day :: "ymd \<Rightarrow> ymd" where
  "next_day (y, m, d) = (if d < days_in m y then (y, m, Suc d) else if m < 12 then (y, Suc m, 1) else (Suc y, 1, 1))"

fun prev_day :: "ymd \<Rightarrow> ymd" where
  "prev_day (y, m, d) = (if 1 < d then (y, m, d - 1) else if 1 < m then (y, m - 1, days_in (m - 1) y) else (y - 1, 12, 31))"

text \<open>\<open>time.Date\<close> on values of at least one: months beyond December and days beyond the month carry over.\<close>

definition go_date :: "nat \<Rightarrow> nat \<Rightarrow> nat \<Rightarrow> ymd" where
  "go_date y m d = (next_day ^^ (d - 1)) (y + (m - 1) div 12, (m - 1) mod 12 + 1, 1)"

definition AddDate :: "nat \<Rightarrow> nat \<Rightarrow> nat \<Rightarrow> ymd \<Rightarrow> ymd" where
  "AddDate years months days t = (case t of (y, m, d) \<Rightarrow> go_date (y + years) (m + months) (d + days))"

definition parse_ymd :: "string \<Rightarrow> ymd option" where
  "parse_ymd s = map_option (\<lambda>n. (nat n div 10000, nat n div 100 mod 100, nat n mod 100)) (parse_date s)"

definition format_ymd :: "ymd \<Rightarrow> string" where
  "format_ymd t = (case t of (y, m, d) \<Rightarrow>
     zero_pad 4 (digits y) @ ''-'' @ zero_pad 2 (digits m) @ ''-'' @ zero_pad 2 (digits d))"

text \<open>The day of the week is stored, passed and not used.\<close>

definition calcNextRunDate :: "string \<Rightarrow> string \<Rightarrow> nat \<Rightarrow> int \<Rightarrow> int \<Rightarrow> string" where
  "calcNextRunDate from frequency value dayOfMonth dayOfWeek = (case parse_ymd from of
       None \<Rightarrow> from
     | Some t \<Rightarrow> format_ymd
         (if frequency = ''daily'' then AddDate 0 0 value t
          else if frequency = ''weekly'' then AddDate 0 0 (7 * value) t
          else if frequency = ''monthly'' then
            (case AddDate 0 value 0 t of (y, m, d) \<Rightarrow>
               if 0 < dayOfMonth \<and> dayOfMonth \<le> 28 then go_date y m (nat dayOfMonth) else (y, m, d))
          else if frequency = ''yearly'' then AddDate value 0 0 t
          else AddDate 0 1 0 t))"

section \<open>Schedules\<close>

definition validFrequencies :: "string list" where
  "validFrequencies = [''daily'', ''weekly'', ''monthly'', ''yearly'']"

record CreateRecurringParams =
  rp_title :: string
  rp_type :: string
  rp_amount :: f64
  rp_wallet :: string
  rp_to :: "string option"
  rp_category :: "string option"
  rp_desc :: "string option"
  rp_freq :: string
  rp_value :: int
  rp_dom :: "int option"
  rp_dow :: "int option"
  rp_mode :: string
  rp_start :: string
  rp_end :: "string option"
  rp_max :: "int option"

definition add_recurring :: "fin_req \<Rightarrow> AuthUser \<Rightarrow> CreateRecurringParams \<Rightarrow> book_db \<Rightarrow> (string \<times> book_db) res" where
  "add_recurring Q v p db = (let E = fq_env Q 0; fd = bk db; i = db_uuid E (fin_next fd) in
     if list_ex (\<lambda>r. rc_id r = i) (recurrings db) then Inl (Internal ''fin_recurring_pkey'')
     else ebind (need_date Q (if rp_start p = [] then fq_today Q else rp_start p)) (\<lambda>start.
       ebind (case rp_end p of None \<Rightarrow> Inr None | Some d \<Rightarrow> ebind (need_date Q d) (\<lambda>x. Inr (Some x))) (\<lambda>end_date.
       Inr (i, db\<lparr>bk := fd\<lparr>fin_next := Suc (fin_next fd)\<rparr>, recurrings := recurrings db @ [
         \<lparr>rc_id = i, rc_type = rp_type p, rc_amount = db_money E (rp_amount p), rc_wallet = rp_wallet p, rc_to = rp_to p,
          rc_category = rp_category p, rc_desc = rp_desc p, rc_freq = rp_freq p,
          rc_value = (if rp_value p \<le> 0 then 1 else rp_value p), rc_dom = rp_dom p, rc_dow = rp_dow p,
          rc_mode = (if rp_mode p \<noteq> ''reminder'' then ''auto'' else rp_mode p), rc_end = end_date, rc_max = rp_max p,
          rc_done = 0, rc_next = start, rc_active = True, rc_by = AccountID v, rc_deleted = False\<rparr>]\<rparr>))))"

text \<open>\<open>encrypts\<close> says whether the title can be encrypted.\<close>

definition CreateRecurring ::
  "fin_req \<Rightarrow> bool \<Rightarrow> AuthUser option \<Rightarrow> CreateRecurringParams \<Rightarrow> book_db \<Rightarrow> (string, book_db) reply"
where
  "CreateRecurring Q encrypts u p db = (let E = fq_env Q 0 in
     try_reply db (mustUser u) (\<lambda>v.
     try_reply db (assertOwner v) (\<lambda>_.
     try_reply db (guard (trim_space (rp_title p) \<noteq> []) (BadRequest ''judul harus diisi'')) (\<lambda>_.
     try_reply db (guard (\<not> rp_amount p \<le> 0) (BadRequest ''jumlah harus lebih dari 0'')) (\<lambda>_.
     try_reply db (guard (rp_freq p \<in> set validFrequencies) (BadRequest ''frekuensi tidak valid'')) (\<lambda>_.
     try_reply db (sql E ''tenant.prepare'' (Inr ())) (\<lambda>_.
     try_reply db (loadTransactionTypeByCode E db (rp_type p)) (\<lambda>_.
     try_reply db (guard encrypts (Internal ''encrypt'')) (\<lambda>_.
     in_tx db (sql E ''recurring.insert'' (add_recurring Q v p db)) (\<lambda>i db1. (Inr i, db1)))))))))))"

definition write_recurring :: "env \<Rightarrow> string \<Rightarrow> string \<Rightarrow> (recurring_row \<Rightarrow> recurring_row) \<Rightarrow> book_db \<Rightarrow> book_db" where
  "write_recurring E stmt i f db = (if db_fails E stmt then db
     else db\<lparr>recurrings := map (\<lambda>r. if rc_id r = i then f r else r) (recurrings db)\<rparr>)"

definition DeleteRecurring :: "fin_req \<Rightarrow> AuthUser option \<Rightarrow> string \<Rightarrow> book_db \<Rightarrow> (unit, book_db) reply" where
  "DeleteRecurring Q u i db = (let E = fq_env Q 0 in
     try_reply db (mustUser u) (\<lambda>v.
     try_reply db (assertOwner v) (\<lambda>_.
     try_reply db (sql E ''tenant.prepare'' (Inr ())) (\<lambda>_.
     (Inr (), write_recurring E ''recurring.delete'' i (\<lambda>r. r\<lparr>rc_deleted := True, rc_active := False\<rparr>) db)))))"

section \<open>The daily job\<close>

definition recurring_due :: "string \<Rightarrow> recurring_row \<Rightarrow> bool" where
  "recurring_due today r \<longleftrightarrow> rc_active r \<and> \<not> rc_deleted r \<and> rc_next r \<le> today"

text \<open>What a row posts: the transaction, or the reason it does not.\<close>

definition post_recurring :: "fin_req \<Rightarrow> env \<Rightarrow> recurring_row \<Rightarrow> book_db \<Rightarrow> (string \<times> book_db) res" where
  "post_recurring Q E r db =
     ebind (ensurePeriodUnlocked E (bk db) (walletPeriod (fq_period Q) (fq_today Q))) (\<lambda>_.
     ebind (sql E ''recurring.post'' (need_date Q (fq_today Q))) (\<lambda>d. add_txn
       \<lparr>ft_id = db_uuid E (fin_next (bk db)), ft_type = rc_type r, ft_amount = db_money E (dec (10 ^ 2) (rc_amount r)),
        ft_wallet = rc_wallet r, ft_to = rc_to r, ft_category = rc_category r, ft_desc = rc_desc r, ft_ref = None,
        ft_date = d, ft_status = ''approved'', ft_by = (if rc_by r = [] then nil_uuid else rc_by r), ft_deleted = False\<rparr>
       \<lparr>ti_currency = ''IDR'', ti_notes = None, ti_tags = [], ti_approver = None, ti_approved = None, ti_reason = None,
        ti_recurring = Some (rc_id r)\<rparr> db))"

definition add_log :: "env \<Rightarrow> recurring_row \<Rightarrow> string \<Rightarrow> string \<Rightarrow> string option \<Rightarrow> book_db \<Rightarrow> book_db" where
  "add_log E r today status txn db = (if db_fails E ''recurring.log'' then db
     else db\<lparr>rec_log := rec_log db @ [\<lparr>rl_recurring = rc_id r, rl_date = today, rl_status = status, rl_txn = txn\<rparr>]\<rparr>)"

text \<open>\<open>run_date >= ($2::date-3)\<close>; a failed count is zero.\<close>

definition recent_failures :: "env \<Rightarrow> string \<Rightarrow> string \<Rightarrow> book_db \<Rightarrow> nat" where
  "recent_failures E i today db = (if db_fails E ''recurring.failures'' then 0
     else case parse_ymd today of None \<Rightarrow> 0 | Some t \<Rightarrow>
       length [l \<leftarrow> rec_log db. rl_recurring l = i \<and> rl_status l = ''failed'' \<and> format_ymd ((prev_day ^^ 3) t) \<le> rl_date l])"

definition advance :: "string \<Rightarrow> recurring_row \<Rightarrow> string" where
  "advance today r = calcNextRunDate today (rc_freq r) (nat (rc_value r)) (case rc_dom r of None \<Rightarrow> 0 | Some d \<Rightarrow> d)
     (case rc_dow r of None \<Rightarrow> 0 | Some d \<Rightarrow> d)"

definition run_recurring :: "fin_req \<Rightarrow> env \<Rightarrow> recurring_row \<Rightarrow> book_db \<Rightarrow> book_db" where
  "run_recurring Q E r db = (let today = fq_today Q in
     if (case rc_end r of None \<Rightarrow> False | Some d \<Rightarrow> d \<noteq> [] \<and> d < today)
     then write_recurring E ''recurring.stop'' (rc_id r) (\<lambda>r. r\<lparr>rc_active := False\<rparr>) db
     else if (case rc_max r of None \<Rightarrow> False | Some k \<Rightarrow> k \<le> rc_done r)
     then write_recurring E ''recurring.stop'' (rc_id r) (\<lambda>r. r\<lparr>rc_active := False\<rparr>) db
     else
       let (status, txn, db1) = (if rc_mode r = ''auto'' then (case post_recurring Q E r db of
               Inl e \<Rightarrow> (''failed'', None, db)
             | Inr (i, d) \<Rightarrow> (''success'', Some i, refresh_bk E (rc_wallet r) (rc_to r) d))
           else (''reminded'', None, db));
         db2 = add_log E r today status txn db1;
         db3 = (if status \<noteq> ''failed'' then write_recurring E ''recurring.advance'' (rc_id r)
             (\<lambda>x. x\<lparr>rc_next := advance today r, rc_done := rc_done x + 1\<rparr>) db2 else db2)
       in if 3 \<le> recent_failures E (rc_id r) today db3
          then write_recurring E ''recurring.pause'' (rc_id r) (\<lambda>r. r\<lparr>rc_active := False\<rparr>) db3 else db3)"

fun run_each :: "fin_req \<Rightarrow> nat \<Rightarrow> recurring_row list \<Rightarrow> book_db \<Rightarrow> book_db" where
  "run_each Q n [] db = db"
| "run_each Q n (r # rs) db = run_each Q (Suc n) rs (run_recurring Q (fq_env Q n) r db)"

text \<open>\<open>scan\<close> is the order in which the query, which does not sort, returns its rows.\<close>

definition processRecurringForTenant :: "fin_req \<Rightarrow> (recurring_row list \<Rightarrow> recurring_row list) \<Rightarrow> book_db \<Rightarrow> book_db out" where
  "processRecurringForTenant Q scan db = (let E = fq_env Q 0 in
     try_out db (prepareTenant E) (\<lambda>_.
     if db_fails E ''finance.ready'' then (None, db)
     else try_out db (sql_raw E ''recurring.due'' (Inr (scan [r \<leftarrow> recurrings db. recurring_due (fq_today Q) r]))) (\<lambda>rs.
       (None, run_each Q 1 rs db))))"

end
