(* ===== verification/Books_Laws.thy ===== *)
theory Books_Laws
  imports Recurring
begin

text \<open>
  What the finance handlers keep: wallet balances follow the transactions, and a locked period stays as
  it is. Both are relations between the books before and after a request; the locale \<open>book_relation\<close>
  carries such a relation from the single writes over the handlers, the daily job and whole histories.
\<close>

declare split_paired_All [simp del] split_paired_Ex [simp del]

section \<open>Refreshing\<close>

definition touched :: "string \<Rightarrow> string option \<Rightarrow> string list" where
  "touched w to = w # (case to of None \<Rightarrow> [] | Some v \<Rightarrow> if v \<noteq> [] \<and> v \<noteq> w then [v] else [])"

lemma refresh_touched: "refreshWallets E w to fd = fold (\<lambda>w. refreshWallets E w None) (touched w to) fd"
  by (auto simp: refreshWallets_def touched_def Let_def split: option.splits)

lemma refresh_keeps:
  "txns (refreshWallets E w to fd) = txns fd" "wallets (refreshWallets E w to fd) = wallets fd"
  "type_flows (refreshWallets E w to fd) = type_flows fd" "period_locks (refreshWallets E w to fd) = period_locks fd"
  "categories (refreshWallets E w to fd) = categories fd"
  using fold_refresh_frame[of E "touched w to" fd] by (simp_all add: refresh_touched[of E w to fd] same_setup_def)

lemma refresh_settles:
  assumes "refresh_ok E" "\<forall>r\<in>set (wallets fd). wl_id r \<noteq> []" "\<And>v. v \<noteq> w \<Longrightarrow> to \<noteq> Some v \<Longrightarrow> wallet_ok fd v"
  shows "wallet_ok (refreshWallets E w to fd) v"
proof -
  have "find_wallet fd [] = None" using assms(2) by (auto simp: find_wallet_def find_None_iff)
  then have nil: "wallet_ok fd []" by (simp add: wallet_ok_def)
  have "\<forall>v. v \<notin> set (touched w to) \<longrightarrow> wallet_ok fd v"
  proof (intro allI impI)
    fix v assume v: "v \<notin> set (touched w to)"
    show "wallet_ok fd v"
    proof (cases "v = []")
      case False
      then show ?thesis using v by (intro assms(3)) (auto simp: touched_def split: if_splits)
    qed (use nil in simp)
  qed
  from fold_refresh_ok[OF assms(1) this assms(2)] show ?thesis by (simp add: refresh_touched[of E w to fd])
qed

section \<open>Nets\<close>

lemma flow_cong: "type_flows b = type_flows a \<Longrightarrow> credit b = credit a \<and> debit b = debit a"
  by (simp add: fun_eq_iff credit_def debit_def txn_flow_def)

lemma net_append:
  assumes "type_flows b = type_flows a" "txns b = txns a @ [t]" "\<not> counts_for v t"
  shows "wallet_net b v = wallet_net a v"
  using assms flow_cong[OF assms(1)] by (simp add: wallet_net_def)

lemma net_map:
  assumes "type_flows b = type_flows a" "txns b = map g (txns a)"
    and "\<And>t. t \<in> set (txns a) \<Longrightarrow> counts_for v (g t) = counts_for v t"
    and "\<And>t. t \<in> set (txns a) \<Longrightarrow> counts_for v t \<Longrightarrow> credit a v (g t) = credit a v t \<and> debit a v (g t) = debit a v t"
  shows "wallet_net b v = wallet_net a v"
proof -
  have *: "sum_list (map h (filter (counts_for v) (map g ts))) = sum_list (map h (filter (counts_for v) ts))"
    if "set ts \<subseteq> set (txns a)" "\<And>t. t \<in> set (txns a) \<Longrightarrow> counts_for v t \<Longrightarrow> h (g t) = h t" for ts h
    using that assms(3) by (induction ts) auto
  show ?thesis using *[of "txns a" "credit a v"] *[of "txns a" "debit a v"] assms(2,4) flow_cong[OF assms(1)]
    by (simp add: wallet_net_def)
qed

lemma net_filter:
  assumes "type_flows b = type_flows a" "txns b = filter P (txns a)" "\<And>t. t \<in> set (txns a) \<Longrightarrow> \<not> P t \<Longrightarrow> \<not> counts_for v t"
  shows "wallet_net b v = wallet_net a v"
proof -
  have "filter (counts_for v) (filter P (txns a)) = filter (counts_for v) (txns a)"
    using assms(3) by (auto simp: filter_filter intro: filter_cong)
  then show ?thesis using assms(2) flow_cong[OF assms(1)] by (simp add: wallet_net_def)
qed

lemma net_flows:
  assumes "\<And>t. t \<in> set (txns a) \<Longrightarrow> txn_flow b t = txn_flow a t" "txns b = txns a"
  shows "wallet_net b v = wallet_net a v"
proof -
  have "credit b v t = credit a v t \<and> debit b v t = debit a v t" if "t \<in> set (txns a)" for t
    using assms(1)[OF that] by (simp add: credit_def debit_def)
  then have "map (credit b v) (filter (counts_for v) (txns a)) = map (credit a v) (filter (counts_for v) (txns a))"
    "map (debit b v) (filter (counts_for v) (txns a)) = map (debit a v) (filter (counts_for v) (txns a))" by auto
  then show ?thesis by (simp only: wallet_net_def assms(2))
qed

section \<open>Relations between the books before and after\<close>

definition unlocked :: "fin_req \<Rightarrow> fin_db \<Rightarrow> string \<Rightarrow> bool" where
  "unlocked Q fd d \<longleftrightarrow> walletPeriod (fq_period Q) d \<notin> set (period_locks fd)"

lemma ensure_unlocked: "ensurePeriodUnlocked E fd (walletPeriod (fq_period Q) d) = Inr x \<Longrightarrow> unlocked Q fd d"
  by (auto simp: ensurePeriodUnlocked_def periodLocked_def unlocked_def res_simps)

definition on_row :: "string \<Rightarrow> (fin_txn \<Rightarrow> fin_txn) \<Rightarrow> fin_db \<Rightarrow> fin_db" where
  "on_row i f fd = fd\<lparr>txns := map (\<lambda>t. if ft_id t = i then f t else t) (txns fd)\<rparr>"

text \<open>An edit leaves what decides where a row counts.\<close>

definition same_place :: "(fin_txn \<Rightarrow> fin_txn) \<Rightarrow> bool" where
  "same_place f \<longleftrightarrow> (\<forall>t. ft_id (f t) = ft_id t \<and> ft_type (f t) = ft_type t \<and> ft_wallet (f t) = ft_wallet t \<and> ft_to (f t) = ft_to t
     \<and> ft_deleted (f t) = ft_deleted t)"

definition live_row :: "fin_db \<Rightarrow> string \<Rightarrow> fin_txn \<Rightarrow> bool" where
  "live_row fd i t \<longleftrightarrow> t \<in> set (txns fd) \<and> ft_id t = i \<and> \<not> ft_deleted t"

definition flows_kept :: "fin_db \<Rightarrow> fin_db \<Rightarrow> bool" where
  "flows_kept a b \<longleftrightarrow> (\<forall>t\<in>set (txns a). txn_flow b t = txn_flow a t)"

text \<open>A refresh that a failed read skips.\<close>

definition refresh_unless :: "bool \<Rightarrow> env \<Rightarrow> string \<Rightarrow> string option \<Rightarrow> fin_db \<Rightarrow> fin_db" where
  "refresh_unless skip E w to fd = (if skip then fd else refreshWallets E w to fd)"

text \<open>A wallet identifier that nothing refers to yet.\<close>

definition unused :: "fin_db \<Rightarrow> string \<Rightarrow> bool" where
  "unused fd i \<longleftrightarrow> wallet_balance fd i = None \<and> (\<forall>t\<in>set (txns fd). ft_wallet t \<noteq> i \<and> ft_to t \<noteq> Some i)"

section \<open>Histories\<close>

datatype fin_op =
    OpWallet CreateWalletParams
  | OpEditWallet string UpdateWalletParams
  | OpDropWallet string
  | OpCategory CreateCategoryParams
  | OpDropCategory string
  | OpCreate CreateTransactionParams
  | OpUpdate string UpdateTransactionParams
  | OpDelete string
  | OpApprove string string string
  | OpSetting ApprovalSettingParams
  | OpLock string
  | OpDuplicate "string list" string
  | OpType CreateTransactionTypeParams
  | OpEditType string UpdateTransactionTypeParams
  | OpDropType string
  | OpRecurring bool CreateRecurringParams
  | OpDropRecurring string
  | OpDaily "recurring_row list \<Rightarrow> recurring_row list"

fun run_op :: "fin_req \<Rightarrow> AuthUser option \<Rightarrow> fin_op \<Rightarrow> book_db \<Rightarrow> book_db" where
  "run_op Q u (OpWallet p) db = snd (CreateWallet Q u p db)"
| "run_op Q u (OpEditWallet i p) db = snd (UpdateWallet Q u i p db)"
| "run_op Q u (OpDropWallet i) db = snd (DeleteWallet Q u i db)"
| "run_op Q u (OpCategory p) db = snd (CreateCategory Q u p db)"
| "run_op Q u (OpDropCategory i) db = snd (DeleteCategory Q u i db)"
| "run_op Q u (OpCreate p) db = snd (CreateTransaction Q u p db)"
| "run_op Q u (OpUpdate i p) db = snd (UpdateTransaction Q u i p db)"
| "run_op Q u (OpDelete i) db = snd (DeleteTransaction Q u i db)"
| "run_op Q u (OpApprove i a r) db = snd (ApproveTransaction Q u i a r db)"
| "run_op Q u (OpSetting p) db = snd (UpdateApprovalSetting Q u p db)"
| "run_op Q u (OpLock d) db = snd (LockPeriod Q u d db)"
| "run_op Q u (OpDuplicate is d) db = snd (DuplicateTransactions Q u is d db)"
| "run_op Q u (OpType p) db = snd (CreateTransactionType Q u p db)"
| "run_op Q u (OpEditType i p) db = snd (UpdateTransactionType Q u i p db)"
| "run_op Q u (OpDropType i) db = snd (DeleteTransactionType Q u i db)"
| "run_op Q u (OpRecurring e p) db = snd (CreateRecurring Q e u p db)"
| "run_op Q u (OpDropRecurring i) db = snd (DeleteRecurring Q u i db)"
| "run_op Q u (OpDaily scan) db = snd (processRecurringForTenant Q scan db)"

fun run_history :: "(fin_req \<times> AuthUser option \<times> fin_op) list \<Rightarrow> book_db \<Rightarrow> book_db" where
  "run_history [] db = db"
| "run_history ((Q, u, a) # h) db = run_history h (run_op Q u a db)"

text \<open>
  What a history may do, for a condition \<open>fresh\<close> on the identifier of a new wallet and a condition
  \<open>kept\<close> on a change of the transaction types.
\<close>

fun admissible ::
  "(fin_db \<Rightarrow> string \<Rightarrow> bool) \<Rightarrow> (fin_db \<Rightarrow> fin_db \<Rightarrow> bool) \<Rightarrow> fin_req \<Rightarrow> AuthUser option \<Rightarrow> fin_op \<Rightarrow> book_db \<Rightarrow> bool"
where
  "admissible fresh kept Q u (OpWallet p) db \<longleftrightarrow> fresh (bk db) (db_uuid (fq_env Q 0) (fin_next (bk db)))"
| "admissible fresh kept Q u (OpType p) db \<longleftrightarrow> kept (bk db) (bk (snd (CreateTransactionType Q u p db)))"
| "admissible fresh kept Q u (OpEditType i p) db \<longleftrightarrow> kept (bk db) (bk (snd (UpdateTransactionType Q u i p db)))"
| "admissible fresh kept Q u (OpDropType i) db \<longleftrightarrow> kept (bk db) (bk (snd (DeleteTransactionType Q u i db)))"
| "admissible fresh kept Q u _ db \<longleftrightarrow> True"

fun history_ok ::
  "(fin_db \<Rightarrow> string \<Rightarrow> bool) \<Rightarrow> (fin_db \<Rightarrow> fin_db \<Rightarrow> bool) \<Rightarrow> (fin_req \<Rightarrow> bool)
     \<Rightarrow> (fin_req \<times> AuthUser option \<times> fin_op) list \<Rightarrow> book_db \<Rightarrow> bool"
where
  "history_ok fresh kept ok [] db \<longleftrightarrow> True"
| "history_ok fresh kept ok ((Q, u, a) # h) db \<longleftrightarrow>
     ok Q \<and> admissible fresh kept Q u a db \<and> history_ok fresh kept ok h (run_op Q u a db)"

fun reviews :: "fin_op \<Rightarrow> bool" where
  "reviews (OpApprove i a r) \<longleftrightarrow> True"
| "reviews _ \<longleftrightarrow> False"

text \<open>The type handlers write the types and nothing else of the books.\<close>

definition types_only :: "book_db \<Rightarrow> book_db \<Rightarrow> bool" where
  "types_only a b \<longleftrightarrow> (\<exists>ts k. bk b = (bk a)\<lparr>type_flows := ts, fin_next := k\<rparr>)"

lemma types_only_refl: "types_only a a"
  unfolding types_only_def by (rule exI[of _ "type_flows (bk a)"], rule exI[of _ "fin_next (bk a)"]) simp

lemma types_only_trans: "types_only a b \<Longrightarrow> types_only b c \<Longrightarrow> types_only a c"
  unfolding types_only_def by fastforce

lemma types_only_try:
  "types_only a b \<Longrightarrow> (\<And>x. m = Inr x \<Longrightarrow> types_only a (snd (f x))) \<Longrightarrow> types_only a (snd (try_reply b m f))"
  by (cases m) simp_all

lemma types_only_set: "types_only a (set_types ts a)"
  unfolding types_only_def set_types_def by (rule exI[of _ "live_flows ts"], rule exI[of _ "fin_next (bk a)"]) simp

lemma types_only_write: "types_only a b \<Longrightarrow> types_only a (write_type E l i v f b)"
  by (cases v) (auto simp: write_type_def intro: types_only_trans[OF _ types_only_set])

lemma type_handlers:
  "types_only db (snd (CreateTransactionType Q u p db))"
  "types_only db (snd (UpdateTransactionType Q u i q db))"
  "types_only db (snd (DeleteTransactionType Q u i db))"
proof -
  have "types_only db (db\<lparr>bk := (bk db)\<lparr>fin_next := k\<rparr>\<rparr>)" for k
    unfolding types_only_def by (rule exI[of _ "type_flows (bk db)"], rule exI[of _ k]) simp
  then have add: "types_only db d" if "add_type E code p db = Inr (j, d)" for E code j d
    using that by (auto simp: add_type_def Let_def split: if_splits intro: types_only_trans[OF _ types_only_set])
  show "types_only db (snd (CreateTransactionType Q u p db))"
    unfolding CreateTransactionType_def Let_def in_tx_def
    by (intro types_only_try types_only_refl) (auto simp: sql_eq_Inr split: prod.splits intro!: types_only_try dest: add)
  show "types_only db (snd (UpdateTransactionType Q u i q db))"
    unfolding UpdateTransactionType_def Let_def
    by (intro types_only_try types_only_write types_only_refl) (simp only: snd_conv, intro types_only_write types_only_refl)
  show "types_only db (snd (DeleteTransactionType Q u i db))"
    unfolding DeleteTransactionType_def Let_def
    by (intro types_only_try types_only_refl) (simp only: snd_conv, intro types_only_write types_only_refl)
qed

locale book_relation =
  fixes R :: "fin_db \<Rightarrow> fin_db \<Rightarrow> bool" and ok :: "fin_req \<Rightarrow> bool"
    and fresh :: "fin_db \<Rightarrow> string \<Rightarrow> bool" and kept :: "fin_db \<Rightarrow> fin_db \<Rightarrow> bool"
  assumes misc_law: "txns b = txns a \<Longrightarrow> wallets b = wallets a \<Longrightarrow> wallet_balance b = wallet_balance a \<Longrightarrow> type_flows b = type_flows a
        \<Longrightarrow> set (period_locks a) \<subseteq> set (period_locks b) \<Longrightarrow> R a b"
    and trans_law: "R a b \<Longrightarrow> R b c \<Longrightarrow> R a c"
    and insert_law: "ok Q \<Longrightarrow> unlocked Q fd d \<Longrightarrow> fq_date Q d = Some (ft_date t) \<Longrightarrow> ft_id t \<notin> ft_id ` set (txns fd)
        \<Longrightarrow> R fd (refresh_unless (db_fails (fq_env Q n) ''txn.wallets'' \<and> late) (fq_env Q n) (ft_wallet t) (ft_to t)
              (fd\<lparr>txns := txns fd @ [t], fin_next := k\<rparr>))"
    and pending_law: "ok Q \<Longrightarrow> unlocked Q fd d \<Longrightarrow> fq_date Q d = Some (ft_date t) \<Longrightarrow> ft_id t \<notin> ft_id ` set (txns fd)
        \<Longrightarrow> ft_status t \<noteq> ''approved'' \<Longrightarrow> R fd (fd\<lparr>txns := txns fd @ [t], fin_next := k\<rparr>)"
    and edit_law: "ok Q \<Longrightarrow> live_row fd i t \<Longrightarrow> unlocked Q fd (ft_date t) \<Longrightarrow> same_place f \<Longrightarrow> ft_status (f t) = ft_status t
        \<Longrightarrow> ft_date (f t) = ft_date t \<or> (\<exists>d. unlocked Q fd d \<and> fq_date Q d = Some (ft_date (f t)))
        \<Longrightarrow> ft_amount (f t) = ft_amount t \<or> ft_status t \<noteq> ''approved'' \<Longrightarrow> R fd (on_row i f fd)"
    and edit_refresh_law: "ok Q \<Longrightarrow> live_row fd i t \<Longrightarrow> unlocked Q fd (ft_date t) \<Longrightarrow> same_place f \<Longrightarrow> ft_status (f t) = ft_status t
        \<Longrightarrow> ft_date (f t) = ft_date t \<or> (\<exists>d. unlocked Q fd d \<and> fq_date Q d = Some (ft_date (f t)))
        \<Longrightarrow> find (\<lambda>t. ft_id t = i) (txns fd) = Some s
        \<Longrightarrow> R fd (refresh_unless (db_fails (fq_env Q n) ''txn.wallets'') (fq_env Q n) (ft_wallet s) (ft_to s) (on_row i f fd))"
    and delete_law: "ok Q \<Longrightarrow> live_row fd i t \<Longrightarrow> unlocked Q fd (ft_date t)
        \<Longrightarrow> R fd (refreshWallets (fq_env Q n) (ft_wallet t) (ft_to t) (fd\<lparr>txns := [t \<leftarrow> txns fd. ft_id t \<noteq> i]\<rparr>))"
    and refresh_law: "ok Q \<Longrightarrow> R fd (refreshWallets (fq_env Q n) w to fd)"
    and wallet_law: "ok Q \<Longrightarrow> fresh fd (wl_id r) \<Longrightarrow> wl_id r = db_uuid (fq_env Q n) m \<Longrightarrow> wl_id r \<notin> wl_id ` set (wallets fd)
        \<Longrightarrow> wallets b = wallets fd @ [r] \<Longrightarrow> txns b = txns fd \<Longrightarrow> type_flows b = type_flows fd \<Longrightarrow> period_locks b = period_locks fd
        \<Longrightarrow> db_fails (fq_env Q n) ''balance.insert'' \<or> wallet_balance fd (wl_id r) \<noteq> None \<or> wallet_balance b = (wallet_balance fd)(wl_id r \<mapsto> wl_initial r) \<Longrightarrow> R fd b"
    and edit_wallet_law: "(\<And>r. wl_id (g r) = wl_id r \<and> wl_initial (g r) = wl_initial r) \<Longrightarrow> R fd (fd\<lparr>wallets := map g (wallets fd)\<rparr>)"
    and types_law: "kept fd (fd\<lparr>type_flows := ts, fin_next := k\<rparr>) \<Longrightarrow> R fd (fd\<lparr>type_flows := ts, fin_next := k\<rparr>)"
begin

lemma refl_law: "R a a"
  by (rule misc_law) simp_all

definition RR :: "book_db \<Rightarrow> book_db \<Rightarrow> bool" where
  "RR a b \<longleftrightarrow> R (bk a) (bk b)"

lemma RR_same: "bk b = bk a \<Longrightarrow> RR a b"
  by (simp add: RR_def refl_law)

lemma RR_try:
  assumes "\<And>x. m = Inr x \<Longrightarrow> RR db (snd (f x))"
  shows "RR db (snd (try_reply db m f))"
  using assms by (cases m) (simp_all add: RR_same)

lemma RR_tx:
  assumes "\<And>x db'. m = Inr (x, db') \<Longrightarrow> RR db (snd (f x db'))"
  shows "RR db (snd (in_tx db m f))"
  unfolding in_tx_def by (rule RR_try) (use assms in \<open>auto split: prod.splits\<close>)

lemma add_txnE:
  assumes "add_txn t x db = Inr (i, db')"
  shows "i = ft_id t" "ft_id t \<notin> ft_id ` set (txns (bk db))"
    "bk db' = (bk db)\<lparr>txns := txns (bk db) @ [t], fin_next := Suc (fin_next (bk db))\<rparr>"
  using assms by (auto simp: add_txn_def row_check_def Let_def res_simps list_ex_iff split: if_splits)

lemma need_date_Inr: "need_date Q d = Inr x \<longleftrightarrow> fq_date Q d = Some x"
  by (simp add: need_date_def split: option.splits)

lemma insert_txE:
  assumes "insert_tx Q v p c date status db = Inr (i, db')"
  obtains t where "fq_date Q date = Some (ft_date t)" "ft_id t \<notin> ft_id ` set (txns (bk db))" "ft_status t = status"
    "ft_wallet t = tc_wallet p" "ft_to t = tc_to p" "bk db' = (bk db)\<lparr>txns := txns (bk db) @ [t], fin_next := Suc (fin_next (bk db))\<rparr>"
    "ft_id t = i" "ft_by t = AccountID v"
proof -
  from assms obtain t x where "add_txn t x db = Inr (i, db')" "fq_date Q date = Some (ft_date t)" "ft_status t = status"
      "ft_wallet t = tc_wallet p" "ft_to t = tc_to p" "ft_by t = AccountID v"
    unfolding insert_tx_def Let_def ebind_eq_Inr sql_eq_Inr need_date_Inr by force
  with add_txnE[OF this(1)] that show ?thesis by blast
qed

lemma created_RR:
  assumes "ok Q" "ensurePeriodUnlocked (fq_env Q 0) (bk db) (walletPeriod (fq_period Q) date) = Inr x"
    and "insert_tx Q v p c date status db = Inr (i, db')"
  shows "RR db (snd (r, if status = ''approved'' then refresh_bk (fq_env Q 0) (tc_wallet p) (tc_to p) db' else db'))"
proof -
  from assms(3) obtain t where t: "fq_date Q date = Some (ft_date t)"
      "ft_id t \<notin> ft_id ` set (txns (bk db))" "ft_status t = status" "ft_wallet t = tc_wallet p" "ft_to t = tc_to p"
      "bk db' = (bk db)\<lparr>txns := txns (bk db) @ [t], fin_next := Suc (fin_next (bk db))\<rparr>"
    by (rule insert_txE)
  show ?thesis
    using insert_law[OF assms(1) ensure_unlocked[OF assms(2)] t(1,2), of 0 False "Suc (fin_next (bk db))"]
      pending_law[OF assms(1) ensure_unlocked[OF assms(2)] t(1,2), of "Suc (fin_next (bk db))"] t(3-6)
    by (simp add: RR_def refresh_bk_def set_bk_def refresh_unless_def)
qed

lemma Create_RR: "ok Q \<Longrightarrow> RR db (snd (CreateTransaction Q u p db))"
  unfolding CreateTransaction_def Let_def by (intro RR_try RR_tx) (rule created_RR; assumption)

lemma found_row: "find_txn_row db i = Some t \<Longrightarrow> live_row (bk db) i t"
  by (auto simp: find_txn_row_def live_row_def find_Some_iff)

lemma edit_txn_sel:
  "same_place (edit_txn E v p date)" "ft_status (edit_txn E v p date t) = ft_status t"
  "ft_date (edit_txn E v p date t) = or_keep date (ft_date t)"
  "new_amount v p = None \<Longrightarrow> ft_amount (edit_txn E v p date t) = ft_amount t"
  by (simp_all add: same_place_def edit_txn_def or_keep_def)

lemma write_txn_bk: "bk (write_txn i f g db) = on_row i f (bk db)"
  by (simp add: write_txn_def on_row_def)

lemma find_on_row:
  assumes "\<And>t. ft_id (f t) = ft_id t"
  shows "find (\<lambda>t. ft_id t = i) (txns (on_row i f fd)) = map_option f (find (\<lambda>t. ft_id t = i) (txns fd))"
proof -
  have "find (\<lambda>t. ft_id t = i) (map (\<lambda>t. if ft_id t = i then f t else t) ts) = map_option f (find (\<lambda>t. ft_id t = i) ts)" for ts
    using assms by (induction ts) auto
  then show ?thesis by (simp add: on_row_def)
qed

lemma update_stmtE:
  assumes "update_txn_stmt Q v i t p db = Inr (x, db')"
  obtains date where "bk db' = on_row i (edit_txn (fq_env Q 0) v p date) (bk db)"
    "date = None \<and> tu_date p = None \<or> (\<exists>d. tu_date p = Some d \<and> fq_date Q d = date \<and> date \<noteq> None)"
  using assms unfolding update_txn_stmt_def Let_def ebind_eq_Inr sql_eq_Inr row_check_def
  by (auto simp: need_date_Inr write_txn_bk res_simps split: option.splits if_splits)

lemma updated_RR:
  assumes ok: "ok Q" and row: "find_txn_row db i = Some t" and may: "may_edit v t = Inr y"
    and old: "ensurePeriodUnlocked (fq_env Q 0) (bk db) (walletPeriod (fq_period Q) (ft_date t)) = Inr z"
    and new: "(case tu_date p of None \<Rightarrow> Inr () | Some d \<Rightarrow>
         ensurePeriodUnlocked (fq_env Q 1) (bk db) (walletPeriod (fq_period Q) d)) = Inr z'"
    and stmt: "update_txn_stmt Q v i t p db = Inr (x, db')"
  shows "RR db (snd (r, if (tu_amount p \<noteq> None \<or> tu_date p \<noteq> None) \<and> ft_status t = ''approved''
      then refreshWalletsForTransaction (fq_env Q 0) i db' else db'))"
proof -
  from stmt obtain date where d: "bk db' = on_row i (edit_txn (fq_env Q 0) v p date) (bk db)"
      "date = None \<and> tu_date p = None \<or> (\<exists>d. tu_date p = Some d \<and> fq_date Q d = date \<and> date \<noteq> None)"
    by (rule update_stmtE)
  let ?f = "edit_txn (fq_env Q 0) v p date"
  note live = found_row[OF row]
  have dates: "ft_date (?f t) = ft_date t \<or> (\<exists>d. unlocked Q (bk db) d \<and> fq_date Q d = Some (ft_date (?f t)))"
    using d(2) new by (auto simp: edit_txn_sel(3) or_keep_def dest: ensure_unlocked split: option.splits)
  show ?thesis
  proof (cases "(tu_amount p \<noteq> None \<or> tu_date p \<noteq> None) \<and> ft_status t = ''approved''")
    case True
    obtain s where s: "find (\<lambda>t. ft_id t = i) (txns (bk db)) = Some s"
      using live by (cases "find (\<lambda>t. ft_id t = i) (txns (bk db))") (auto simp: live_row_def find_None_iff)
    have f: "find (\<lambda>t. ft_id t = i) (txns (bk db')) = Some (?f s)"
      using find_on_row[of ?f i "bk db"] edit_txn_sel(1)[of "fq_env Q 0" v p date] by (simp add: d(1) same_place_def s)
    have "R (bk db) (refresh_unless (db_fails (fq_env Q 0) ''txn.wallets'') (fq_env Q 0) (ft_wallet s) (ft_to s) (bk db'))"
      using edit_refresh_law[OF ok live ensure_unlocked[OF old] edit_txn_sel(1,2) dates s, of 0] d(1) by simp
    moreover have "ft_wallet (?f s) = ft_wallet s" "ft_to (?f s) = ft_to s"
      using edit_txn_sel(1)[of "fq_env Q 0" v p date] by (simp_all add: same_place_def)
    ultimately show ?thesis using True f
      by (cases "db_fails (fq_env Q 0) ''txn.wallets''")
        (simp_all add: RR_def refreshWalletsForTransaction_def refresh_bk_def set_bk_def refresh_unless_def)
  next
    case False
    have "ft_amount (?f t) = ft_amount t \<or> ft_status t \<noteq> ''approved''"
      using False may by (auto simp: edit_txn_def or_keep_def new_amount_def)
    from edit_law[OF ok live ensure_unlocked[OF old] edit_txn_sel(1,2) dates this] show ?thesis
      using False d(1) unfolding RR_def by (simp only: if_False snd_conv)
  qed
qed

lemma sql_row: "sql E l (case m of None \<Rightarrow> Inl e | Some t \<Rightarrow> Inr t) = Inr s \<Longrightarrow> m = Some s"
  by (cases m) (simp_all add: sql_eq_Inr)

lemma Update_RR: "ok Q \<Longrightarrow> RR db (snd (UpdateTransaction Q u i p db))"
  unfolding UpdateTransaction_def Let_def
  by (intro RR_try RR_tx) (rule updated_RR, assumption, erule sql_row, assumption+)

lemma drop_bk: "bk (drop_txn i db) = (bk db)\<lparr>txns := [t \<leftarrow> txns (bk db). ft_id t \<noteq> i]\<rparr>"
  by (simp add: drop_txn_def)

lemma Delete_RR: "ok Q \<Longrightarrow> RR db (snd (DeleteTransaction Q u i db))"
  unfolding DeleteTransaction_def Let_def
proof (intro RR_try)
  fix t y
  assume ok: "ok Q" and e: "ensurePeriodUnlocked (fq_env Q 0) (bk db) (walletPeriod (fq_period Q) (ft_date t)) = Inr y"
    and "(if db_fails (fq_env Q 0) ''txn.load'' then Inl (NotFound ''transaksi tidak ditemukan'')
      else case find_txn_row db i of None \<Rightarrow> Inl (NotFound ''transaksi tidak ditemukan'') | Some t \<Rightarrow> Inr t) = Inr t"
  then have "find_txn_row db i = Some t" by (auto split: if_splits option.splits)
  from delete_law[OF ok found_row[OF this] ensure_unlocked[OF e], of 0] refresh_law[OF ok, of "bk db" 0 "ft_wallet t" "ft_to t"]
  show "RR db (snd (Inr (), refresh_bk (fq_env Q 0) (ft_wallet t) (ft_to t)
      (if db_fails (fq_env Q 0) ''txn.delete'' then db else drop_txn i db)))"
    by (simp add: RR_def refresh_bk_def set_bk_def drop_bk)
qed

lemma RR_misc:
  assumes "txns (bk b) = txns (bk a)" "wallets (bk b) = wallets (bk a)" "wallet_balance (bk b) = wallet_balance (bk a)"
    "type_flows (bk b) = type_flows (bk a)" "set (period_locks (bk a)) \<subseteq> set (period_locks (bk b))"
  shows "RR a b"
  unfolding RR_def by (rule misc_law) fact+

lemma CreateWallet_RR:
  assumes "ok Q" "fresh (bk db) (db_uuid (fq_env Q 0) (fin_next (bk db)))"
  shows "RR db (snd (CreateWallet Q u p db))"
  unfolding CreateWallet_def Let_def
proof (intro RR_try RR_tx)
  fix v i db1 assume *: "sql (fq_env Q 0) ''wallet.insert'' (add_wallet (fq_env Q 0) v p db) = Inr (i, db1)"
  show "RR db (snd (Inr i, open_balance (fq_env Q 0) i (cw_initial p) db1))"
    unfolding RR_def using * assms(2)
    by (intro wallet_law[OF assms(1), where n = 0 and m = "fin_next (bk db)" and r = "last (wallets (bk db1))"])
      (auto simp: sql_eq_Inr add_wallet_def Let_def open_balance_def list_ex_iff split: if_splits)
qed

lemma write_wallet_RR:
  assumes "\<And>r. wl_id (f r) = wl_id r \<and> wl_initial (f r) = wl_initial r" "bk a = bk b"
  shows "RR a (write_wallet i f b)"
  unfolding RR_def write_wallet_def assms(2) by simp (rule edit_wallet_law, use assms(1) in simp)

lemma UpdateWallet_RR: "RR db (snd (UpdateWallet Q u i p db))"
  unfolding UpdateWallet_def Let_def
  by (intro RR_try, cases "live_wallet db i") (auto intro!: write_wallet_RR simp: edit_wallet_def RR_same)

lemma DeleteWallet_RR: "RR db (snd (DeleteWallet Q u i db))"
  unfolding DeleteWallet_def Let_def by (intro RR_try) (auto intro!: write_wallet_RR)

lemma CreateCategory_RR: "RR db (snd (CreateCategory Q u p db))"
  unfolding CreateCategory_def Let_def
  by (intro RR_try RR_tx RR_misc) (auto simp: sql_eq_Inr add_category_def Let_def split: if_splits)

lemma DeleteCategory_RR: "RR db (snd (DeleteCategory Q u i db))"
  unfolding DeleteCategory_def Let_def by (intro RR_try RR_misc) simp_all

lemma UpdateApprovalSetting_RR: "RR db (snd (UpdateApprovalSetting Q u q db))"
  unfolding UpdateApprovalSetting_def Let_def by (intro RR_try RR_misc) simp_all

lemma LockPeriod_RR: "RR db (snd (LockPeriod Q u d db))"
  unfolding LockPeriod_def Let_def by (intro RR_try RR_misc) auto

lemma CreateRecurring_RR: "RR db (snd (CreateRecurring Q e u q db))"
  unfolding CreateRecurring_def Let_def
  by (intro RR_try RR_tx RR_misc) (auto simp: sql_eq_Inr add_recurring_def Let_def res_simps split: if_splits option.splits)

lemma write_recurring_bk [simp]: "bk (write_recurring E l i f db) = bk db"
  by (simp add: write_recurring_def)

lemma DeleteRecurring_RR: "RR db (snd (DeleteRecurring Q u i db))"
  unfolding DeleteRecurring_def Let_def by (intro RR_try RR_same) simp

lemma find_snoc: "ft_id t \<notin> ft_id ` set ts \<Longrightarrow> find (\<lambda>r. ft_id r = ft_id t) (ts @ [t]) = Some t"
  by (induction ts) auto

lemma copied_RR:
  assumes ok: "ok Q" and un: "unlocked Q (bk db) target" and c: "copy_txn Q (fq_env Q n) v target i db = Inr (new, db1)"
  shows "RR db (refreshWalletsForTransaction (fq_env Q n) new db1)"
    "period_locks (bk (refreshWalletsForTransaction (fq_env Q n) new db1)) = period_locks (bk db)"
proof -
  from c obtain t x where a: "add_txn t x db = Inr (new, db1)" and d: "fq_date Q target = Some (ft_date t)"
    by (auto simp: copy_txn_def sql_eq_Inr ebind_eq_Inr need_date_Inr split: option.splits)
  note b = add_txnE[OF a]
  have f: "find (\<lambda>r. ft_id r = new) (txns (bk db1)) = Some t"
    using b by (simp add: find_snoc)
  have r: "refreshWalletsForTransaction (fq_env Q n) new db1 = (if db_fails (fq_env Q n) ''txn.wallets'' then db1
      else refresh_bk (fq_env Q n) (ft_wallet t) (ft_to t) db1)" by (simp add: refreshWalletsForTransaction_def f)
  show "RR db (refreshWalletsForTransaction (fq_env Q n) new db1)"
    using insert_law[OF ok un d b(2), of n True "Suc (fin_next (bk db))"]
    unfolding r by (simp add: RR_def refresh_bk_def set_bk_def refresh_unless_def b(3) split: if_splits)
  show "period_locks (bk (refreshWalletsForTransaction (fq_env Q n) new db1)) = period_locks (bk db)"
    unfolding r by (simp add: refresh_bk_def set_bk_def refresh_keeps b(3))
qed

lemma RR_trans: "RR a b \<Longrightarrow> RR b c \<Longrightarrow> RR a c"
  unfolding RR_def by (rule trans_law)

lemma duplicate_each_RR:
  "ok Q \<Longrightarrow> unlocked Q (bk db) target \<Longrightarrow> RR db (snd (duplicate_each Q n v target is k db))"
proof (induction "is" arbitrary: n k db)
  case (Cons i "is")
  show ?case
  proof (cases "copy_txn Q (fq_env Q n) v target i db")
    case (Inr r)
    then obtain new db1 where c: "copy_txn Q (fq_env Q n) v target i db = Inr (new, db1)" by (cases r) auto
    note step = copied_RR[OF Cons.prems c]
    have "unlocked Q (bk (refreshWalletsForTransaction (fq_env Q n) new db1)) target"
      using Cons.prems(2) step(2) by (simp add: unlocked_def)
    from RR_trans[OF step(1) Cons.IH[OF Cons.prems(1) this]] show ?thesis by (simp add: c)
  qed (use Cons in simp)
qed (simp add: RR_same)

lemma Duplicate_RR: "ok Q \<Longrightarrow> RR db (snd (DuplicateTransactions Q u is target db))"
  unfolding DuplicateTransactions_def Let_def split_beta
  by (intro RR_try) (use duplicate_each_RR ensure_unlocked in simp)

lemma types_RR: "types_only a b \<Longrightarrow> kept (bk a) (bk b) \<Longrightarrow> RR a b"
  using types_law unfolding RR_def types_only_def by auto

lemma daily_row_RR:
  assumes "ok Q"
  shows "RR db (run_recurring Q (fq_env Q n) r db)"
proof -
  have post: "RR db (refresh_bk (fq_env Q n) (rc_wallet r) (rc_to r) d)" if "post_recurring Q (fq_env Q n) r db = Inr (i, d)" for i d
  proof -
    from that obtain t x where e: "ensurePeriodUnlocked (fq_env Q n) (bk db) (walletPeriod (fq_period Q) (fq_today Q)) = Inr ()"
      and t: "fq_date Q (fq_today Q) = Some (ft_date t)" "add_txn t x db = Inr (i, d)" "ft_wallet t = rc_wallet r" "ft_to t = rc_to r"
      unfolding post_recurring_def ebind_eq_Inr sql_eq_Inr need_date_Inr by force
    from insert_law[OF assms ensure_unlocked[OF e] t(1) add_txnE(2)[OF t(2)], of n False] t(3,4) add_txnE(3)[OF t(2)]
    show ?thesis by (simp add: RR_def refresh_bk_def set_bk_def refresh_unless_def)
  qed
  show ?thesis
    unfolding run_recurring_def Let_def
    by (auto simp: RR_def add_log_def refl_law post[unfolded RR_def] split: prod.splits sum.splits)
qed

lemma run_each_RR: "ok Q \<Longrightarrow> RR db (run_each Q n rs db)"
  by (induction rs arbitrary: n db) (auto simp: RR_same intro: RR_trans[OF daily_row_RR])

lemma daily_RR: "ok Q \<Longrightarrow> RR db (snd (processRecurringForTenant Q scan db))"
  by (auto simp: processRecurringForTenant_def try_out_def Let_def RR_same run_each_RR split: sum.splits)

lemma op_RR:
  assumes "ok Q" "admissible fresh kept Q u a db" "\<not> reviews a"
  shows "RR db (run_op Q u a db)"
  using assms(2,3) Create_RR[OF assms(1)] Update_RR[OF assms(1)] Delete_RR[OF assms(1)] Duplicate_RR[OF assms(1)] daily_RR[OF assms(1)]
    CreateWallet_RR[OF assms(1)] UpdateWallet_RR DeleteWallet_RR CreateCategory_RR DeleteCategory_RR UpdateApprovalSetting_RR
    LockPeriod_RR CreateRecurring_RR DeleteRecurring_RR type_handlers[THEN types_RR]
  by (cases a) simp_all

lemma history_RR:
  "history_ok fresh kept ok h db \<Longrightarrow> (\<forall>(Q, u, a)\<in>set h. \<not> reviews a) \<Longrightarrow> R (bk db) (bk (run_history h db))"
  unfolding RR_def[symmetric]
proof (induction h arbitrary: db)
  case (Cons x h)
  obtain Q u a where x: "x = (Q, u, a)" by (cases x)
  from RR_trans[OF op_RR Cons.IH] Cons.prems show ?case by (simp add: x)
qed (simp add: RR_same)

end

locale full_book_relation = book_relation +
  assumes approve_law: "ok Q \<Longrightarrow> live_row fd i t \<Longrightarrow> ft_status t = ''pending_approval''
        \<Longrightarrow> R fd (refreshWallets (fq_env Q n) (ft_wallet t) (ft_to t) (on_row i (\<lambda>t. t\<lparr>ft_status := ''approved''\<rparr>) fd))"
    and reject_law: "ok Q \<Longrightarrow> live_row fd i t \<Longrightarrow> ft_status t = ''pending_approval''
        \<Longrightarrow> R fd (on_row i (\<lambda>t. t\<lparr>ft_status := ''rejected''\<rparr>) fd)"
begin

lemma Approve_RR: "ok Q \<Longrightarrow> RR db (snd (ApproveTransaction Q u i action reason db))"
  unfolding ApproveTransaction_def Let_def
proof (intro RR_try)
  fix v t x
  assume ok: "ok Q" and g: "guard (ft_status t = ''pending_approval'') (BadRequest ''transaksi tidak dalam status menunggu persetujuan'') = Inr x"
    and l: "(if db_fails (fq_env Q 0) ''txn.load'' then Inl (NotFound ''transaksi tidak ditemukan'')
      else case find_txn_row db i of None \<Rightarrow> Inl (NotFound ''transaksi tidak ditemukan'') | Some t \<Rightarrow> Inr t) = Inr t"
  have "find_txn_row db i = Some t" "ft_status t = ''pending_approval''"
    using g l by (auto simp: guard_def split: if_splits option.splits)
  note laws = approve_law[OF ok found_row[OF this(1)] this(2), of 0] reject_law[OF ok found_row[OF this(1)] this(2)]
  let ?s = "if action = ''reject'' then ''rejected'' else ''approved''"
  let ?db = "write_txn i (\<lambda>t. t\<lparr>ft_status := ?s\<rparr>) (\<lambda>x. x\<lparr>ti_approver := Some (AccountID v), ti_approved := Some (db_now (fq_env Q 0)),
     ti_reason := if ?s = ''rejected'' then Some reason else None\<rparr>) db"
  show "RR db (snd (Inr ?s, if ?s = ''approved'' then refresh_bk (fq_env Q 0) (ft_wallet t) (ft_to t) ?db else ?db))"
    using laws by (simp add: RR_def refresh_bk_def set_bk_def write_txn_bk)
qed

lemma full_op_RR: "ok Q \<Longrightarrow> admissible fresh kept Q u a db \<Longrightarrow> RR db (run_op Q u a db)"
  by (cases "reviews a") (auto simp: Approve_RR intro: op_RR elim: reviews.elims)

lemma full_history_RR: "history_ok fresh kept ok h db \<Longrightarrow> R (bk db) (bk (run_history h db))"
  unfolding RR_def[symmetric]
proof (induction h arbitrary: db)
  case (Cons x h)
  obtain Q u a where x: "x = (Q, u, a)" by (cases x)
  from RR_trans[OF full_op_RR Cons.IH] Cons.prems show ?case by (simp add: x)
qed (simp add: RR_same)

end

section \<open>Balances\<close>

definition balanced :: "fin_db \<Rightarrow> bool" where
  "balanced fd \<longleftrightarrow> distinct (map ft_id (txns fd)) \<and> (\<forall>r\<in>set (wallets fd). wl_id r \<noteq> []) \<and> (\<forall>w. wallet_ok fd w)"

text \<open>No refresh is lost and identifiers are not empty.\<close>

definition calm :: "fin_req \<Rightarrow> bool" where
  "calm Q \<longleftrightarrow> (\<forall>n. refresh_ok (fq_env Q n) \<and> \<not> db_fails (fq_env Q n) ''balance.insert'' \<and> \<not> db_fails (fq_env Q n) ''txn.wallets''
     \<and> (\<forall>m. db_uuid (fq_env Q n) m \<noteq> []))"

lemma calmD:
  assumes "calm Q"
  shows "refresh_ok (fq_env Q n)" "\<not> db_fails (fq_env Q n) ''balance.insert''" "\<not> db_fails (fq_env Q n) ''txn.wallets''"
    "db_uuid (fq_env Q n) m \<noteq> []"
  using assms by (simp_all add: calm_def)

lemma not_counts: "v \<noteq> ft_wallet t \<Longrightarrow> ft_to t \<noteq> Some v \<Longrightarrow> \<not> counts_for v t"
  by (auto simp: counts_for_def)

lemma balanced_refresh:
  assumes "refresh_ok E" "distinct (map ft_id (txns fd))" "\<forall>r\<in>set (wallets fd). wl_id r \<noteq> []"
    and "\<And>v. v \<noteq> w \<Longrightarrow> to \<noteq> Some v \<Longrightarrow> wallet_ok fd v"
  shows "balanced (refreshWallets E w to fd)"
  using refresh_settles[OF assms(1,3,4)] assms(2,3) by (simp add: balanced_def refresh_keeps)

lemma wallet_ok_net: "wallets b = wallets a \<Longrightarrow> wallet_balance b = wallet_balance a \<Longrightarrow> wallet_net b v = wallet_net a v
    \<Longrightarrow> wallet_ok b v = wallet_ok a v"
  by (rule wallet_ok_cong) (simp_all add: find_wallet_def)

lemma only_row:
  assumes "distinct (map ft_id (txns fd))" "live_row fd i t" "s \<in> set (txns fd)" "ft_id s = i"
  shows "s = t"
  using assms by (auto simp: live_row_def distinct_map inj_on_def)

lemma on_row_sel [simp]: "wallets (on_row i f fd) = wallets fd" "wallet_balance (on_row i f fd) = wallet_balance fd"
  "type_flows (on_row i f fd) = type_flows fd" "period_locks (on_row i f fd) = period_locks fd"
  by (simp_all add: on_row_def)

lemma on_row_ids: "(\<And>t. ft_id (f t) = ft_id t) \<Longrightarrow> map ft_id (txns (on_row i f fd)) = map ft_id (txns fd)"
  by (simp add: on_row_def)

lemma on_row_net:
  assumes "balanced fd" "live_row fd i t"
    and "counts_for v (f t) = counts_for v t"
    and "counts_for v t \<Longrightarrow> credit fd v (f t) = credit fd v t \<and> debit fd v (f t) = debit fd v t"
  shows "wallet_net (on_row i f fd) v = wallet_net fd v"
proof (rule net_map[where g = "\<lambda>t. if ft_id t = i then f t else t"])
  fix s assume "s \<in> set (txns fd)"
  moreover have "distinct (map ft_id (txns fd))" using assms(1) by (simp add: balanced_def)
  ultimately have s: "ft_id s = i \<Longrightarrow> s = t" using only_row[OF _ assms(2)] by blast
  show "counts_for v (if ft_id s = i then f s else s) = counts_for v s" using s assms(3) by auto
  show "credit fd v (if ft_id s = i then f s else s) = credit fd v s \<and> debit fd v (if ft_id s = i then f s else s) = debit fd v s"
    if "counts_for v s" using s assms(4) that by auto
qed (simp_all add: on_row_def)

lemma balanced_on_row:
  assumes "balanced fd" "live_row fd i t" "\<And>t. ft_id (f t) = ft_id t"
    and "\<And>v. counts_for v (f t) = counts_for v t"
    and "\<And>v. counts_for v t \<Longrightarrow> credit fd v (f t) = credit fd v t \<and> debit fd v (f t) = debit fd v t"
  shows "balanced (on_row i f fd)"
proof -
  have "wallet_ok (on_row i f fd) v = wallet_ok fd v" for v
    by (rule wallet_ok_net) (simp_all add: on_row_net[where f = f, OF assms(1,2) assms(4,5)[of v]])
  then show ?thesis using assms(1,3) by (simp add: balanced_def on_row_ids)
qed

lemma balanced_on_row_refresh:
  assumes "calm Q" "balanced fd" "live_row fd i t" "\<And>t. ft_id (f t) = ft_id t"
    and "\<And>v. v \<noteq> ft_wallet t \<Longrightarrow> ft_to t \<noteq> Some v \<Longrightarrow> \<not> counts_for v (f t)"
  shows "balanced (refreshWallets (fq_env Q n) (ft_wallet t) (ft_to t) (on_row i f fd))"
proof (rule balanced_refresh[OF calmD(1)[OF assms(1)]])
  fix v assume v: "v \<noteq> ft_wallet t" "ft_to t \<noteq> Some v"
  then have "\<not> counts_for v t" by (simp add: not_counts)
  then have "wallet_net (on_row i f fd) v = wallet_net fd v"
    using assms(5)[OF v] by (intro on_row_net[OF assms(2,3)]) simp_all
  from wallet_ok_net[OF _ _ this] show "wallet_ok (on_row i f fd) v" using assms(2) by (simp add: balanced_def)
qed (use assms(2,4) in \<open>simp_all add: balanced_def on_row_ids\<close>)

lemma balanced_same:
  assumes "balanced a" "txns b = txns a" "wallets b = wallets a" "wallet_balance b = wallet_balance a" "flows_kept a b"
  shows "balanced b"
proof -
  have "wallet_ok b v = wallet_ok a v" for v
    using assms(5) by (intro wallet_ok_net[OF assms(3,4)] net_flows[OF _ assms(2)]) (simp add: flows_kept_def)
  then show ?thesis using assms(1-3) by (simp add: balanced_def)
qed

lemma balanced_insert:
  assumes "calm Q" "balanced fd" "ft_id t \<notin> ft_id ` set (txns fd)"
  shows "balanced (refreshWallets (fq_env Q n) (ft_wallet t) (ft_to t) (fd\<lparr>txns := txns fd @ [t], fin_next := k\<rparr>))"
proof (rule balanced_refresh[OF calmD(1)[OF assms(1)]])
  fix v assume "v \<noteq> ft_wallet t" "ft_to t \<noteq> Some v"
  then have "wallet_net (fd\<lparr>txns := txns fd @ [t], fin_next := k\<rparr>) v = wallet_net fd v"
    using not_counts by (intro net_append) simp_all
  from wallet_ok_net[OF _ _ this] show "wallet_ok (fd\<lparr>txns := txns fd @ [t], fin_next := k\<rparr>) v"
    using assms(2) by (simp add: balanced_def)
qed (use assms(2,3) in \<open>simp_all add: balanced_def\<close>)

lemma balanced_pending:
  assumes "balanced fd" "ft_id t \<notin> ft_id ` set (txns fd)" "ft_status t \<noteq> ''approved''"
  shows "balanced (fd\<lparr>txns := txns fd @ [t], fin_next := k\<rparr>)"
proof -
  have "\<not> counts_for v t" for v using assms(3) by (simp add: counts_for_def)
  then have "wallet_net (fd\<lparr>txns := txns fd @ [t], fin_next := k\<rparr>) v = wallet_net fd v" for v
    by (intro net_append) simp_all
  from wallet_ok_net[OF _ _ this] show ?thesis using assms(1,2) by (simp add: balanced_def)
qed

lemma balanced_delete:
  assumes "calm Q" "balanced fd" "live_row fd i t"
  shows "balanced (refreshWallets (fq_env Q n) (ft_wallet t) (ft_to t) (fd\<lparr>txns := [t \<leftarrow> txns fd. ft_id t \<noteq> i]\<rparr>))"
proof (rule balanced_refresh[OF calmD(1)[OF assms(1)]])
  have d: "distinct (map ft_id (txns fd))" using assms(2) by (simp add: balanced_def)
  fix v assume v: "v \<noteq> ft_wallet t" "ft_to t \<noteq> Some v"
  have "\<not> counts_for v s" if "s \<in> set (txns fd)" "\<not> ft_id s \<noteq> i" for s
    using only_row[OF d assms(3) that(1)] that(2) not_counts[OF v] by simp
  then have "wallet_net (fd\<lparr>txns := [t \<leftarrow> txns fd. ft_id t \<noteq> i]\<rparr>) v = wallet_net fd v"
    by (intro net_filter[where P = "\<lambda>t. ft_id t \<noteq> i"]) simp_all
  from wallet_ok_net[OF _ _ this] show "wallet_ok (fd\<lparr>txns := [t \<leftarrow> txns fd. ft_id t \<noteq> i]\<rparr>) v"
    using assms(2) by (simp add: balanced_def)
qed (use assms(2) in \<open>simp_all add: balanced_def distinct_map_filter\<close>)

lemma balanced_new_wallet:
  assumes "balanced fd" "unused fd (wl_id r)" "wl_id r \<noteq> []" "wl_id r \<notin> wl_id ` set (wallets fd)" "wallets b = wallets fd @ [r]"
    "txns b = txns fd" "type_flows b = type_flows fd" "wallet_balance b = (wallet_balance fd)(wl_id r \<mapsto> wl_initial r)"
  shows "balanced b"
proof -
  have net: "wallet_net b v = wallet_net fd v" for v by (rule net_flows) (simp_all add: assms(6,7) txn_flow_def)
  have "find (\<lambda>r. wl_id r = v) (ws @ [r]) = (if v = wl_id r then Some r else find (\<lambda>r. wl_id r = v) ws)"
    if "wl_id r \<notin> wl_id ` set ws" for v ws
    using that by (induction ws) auto
  then have f: "find_wallet b v = (if v = wl_id r then Some r else find_wallet fd v)" for v
    using assms(4) by (simp add: find_wallet_def assms(5))
  have "filter (counts_for (wl_id r)) (txns fd) = []"
    using assms(2) by (auto simp: filter_empty_conv unused_def counts_for_def)
  then have "wallet_net fd (wl_id r) = 0" by (simp add: wallet_net_def)
  then have "wallet_ok b v" for v
    using assms(1) by (cases "v = wl_id r") (simp_all add: wallet_ok_def f net assms(8) balanced_def split: option.splits)
  then show ?thesis using assms(1,3,5,6) by (auto simp: balanced_def)
qed

lemma balanced_edit_wallet:
  assumes "balanced fd" "\<And>r. wl_id (g r) = wl_id r \<and> wl_initial (g r) = wl_initial r"
  shows "balanced (fd\<lparr>wallets := map g (wallets fd)\<rparr>)"
proof -
  have "find (\<lambda>r. wl_id r = v) (map g ws) = map_option g (find (\<lambda>r. wl_id r = v) ws)" for v ws
    using assms(2) by (induction ws) auto
  moreover have "wallet_net (fd\<lparr>wallets := map g (wallets fd)\<rparr>) v = wallet_net fd v" for v
    by (rule net_flows) (simp_all add: txn_flow_def)
  ultimately have "wallet_ok (fd\<lparr>wallets := map g (wallets fd)\<rparr>) v = wallet_ok fd v" for v
    using assms(2) by (simp add: wallet_ok_def find_wallet_def split: option.splits)
  then show ?thesis using assms by (simp add: balanced_def)
qed

lemma balanced_create:
  assumes "calm Q" "unused fd (wl_id r)" "wl_id r = db_uuid (fq_env Q n) m" "wl_id r \<notin> wl_id ` set (wallets fd)"
    "wallets b = wallets fd @ [r]" "txns b = txns fd" "type_flows b = type_flows fd"
    "db_fails (fq_env Q n) ''balance.insert'' \<or> wallet_balance fd (wl_id r) \<noteq> None \<or> wallet_balance b = (wallet_balance fd)(wl_id r \<mapsto> wl_initial r)"
  shows "balanced fd \<longrightarrow> balanced b"
  using balanced_new_wallet[OF _ assms(2) _ assms(4-7)] assms(3,8) calmD(2)[OF assms(1), of n] calmD(4)[OF assms(1), of n m] assms(2)
  by (simp add: unused_def)

lemma balanced_edit:
  assumes "live_row fd i t" "same_place f" "ft_status (f t) = ft_status t" "ft_amount (f t) = ft_amount t \<or> ft_status t \<noteq> ''approved''"
  shows "balanced fd \<longrightarrow> balanced (on_row i f fd)"
proof (intro impI balanced_on_row[OF _ assms(1)])
  show c: "counts_for v (f t) = counts_for v t" for v using assms(2,3) by (simp add: same_place_def counts_for_def)
  show "credit fd v (f t) = credit fd v t \<and> debit fd v (f t) = debit fd v t" if "counts_for v t" for v
  proof -
    have "txn_flow fd (f t) = txn_flow fd t" "ft_wallet (f t) = ft_wallet t" "ft_to (f t) = ft_to t"
      using assms(2) by (simp_all add: same_place_def txn_flow_def split: option.splits)
    moreover have "ft_amount (f t) = ft_amount t" using assms(4) that by (simp add: counts_for_def)
    ultimately show ?thesis by (simp add: credit_def debit_def)
  qed
qed (use assms(2) in \<open>simp_all add: same_place_def\<close>)

lemma balanced_edit_refresh:
  assumes "calm Q" "live_row fd i t" "same_place f" "find (\<lambda>t. ft_id t = i) (txns fd) = Some s"
  shows "balanced fd \<longrightarrow> balanced (refresh_unless (db_fails (fq_env Q n) ''txn.wallets'') (fq_env Q n) (ft_wallet s) (ft_to s) (on_row i f fd))"
proof
  assume b: "balanced fd"
  have "s \<in> set (txns fd) \<and> ft_id s = i" using assms(4) by (auto simp: find_Some_iff)
  with b have "s = t" using only_row[OF _ assms(2)] by (simp add: balanced_def)
  moreover have "balanced (refreshWallets (fq_env Q n) (ft_wallet t) (ft_to t) (on_row i f fd))"
    using assms(3) by (intro balanced_on_row_refresh[OF assms(1) b assms(2)] not_counts) (simp_all add: same_place_def)
  ultimately show "balanced (refresh_unless (db_fails (fq_env Q n) ''txn.wallets'') (fq_env Q n) (ft_wallet s) (ft_to s) (on_row i f fd))"
    using calmD(3)[OF assms(1)] by (simp add: refresh_unless_def)
qed

lemma balanced_review:
  assumes "live_row fd i t" "ft_status t = ''pending_approval''"
  shows "calm Q \<Longrightarrow> balanced fd \<Longrightarrow>
      balanced (refreshWallets (fq_env Q n) (ft_wallet t) (ft_to t) (on_row i (\<lambda>t. t\<lparr>ft_status := ''approved''\<rparr>) fd))"
    and "balanced fd \<Longrightarrow> balanced (on_row i (\<lambda>t. t\<lparr>ft_status := ''rejected''\<rparr>) fd)"
proof -
  show "calm Q \<Longrightarrow> balanced fd \<Longrightarrow>
      balanced (refreshWallets (fq_env Q n) (ft_wallet t) (ft_to t) (on_row i (\<lambda>t. t\<lparr>ft_status := ''approved''\<rparr>) fd))"
    by (rule balanced_on_row_refresh[OF _ _ assms(1)]) (simp_all add: not_counts)
  show "balanced fd \<Longrightarrow> balanced (on_row i (\<lambda>t. t\<lparr>ft_status := ''rejected''\<rparr>) fd)"
    by (rule balanced_on_row[OF _ assms(1)]) (simp_all add: counts_for_def assms(2))
qed

interpretation balance: full_book_relation "\<lambda>a b. balanced a \<longrightarrow> balanced b" calm unused flows_kept
proof unfold_locales
  show "balanced a \<longrightarrow> balanced b" if "txns b = txns a" "wallets b = wallets a" "wallet_balance b = wallet_balance a"
    "type_flows b = type_flows a" for a b
    using balanced_same[OF _ that(1-3)] that(4) by (simp add: flows_kept_def txn_flow_def)
  show "balanced fd \<longrightarrow> balanced (refresh_unless (db_fails (fq_env Q n) ''txn.wallets'' \<and> late) (fq_env Q n) (ft_wallet t) (ft_to t)
      (fd\<lparr>txns := txns fd @ [t], fin_next := k\<rparr>))" if "calm Q" "ft_id t \<notin> ft_id ` set (txns fd)" for Q fd n late t k
    using balanced_insert[OF that(1) _ that(2)] calmD(3)[OF that(1)] by (simp add: refresh_unless_def)
  show "balanced fd \<longrightarrow> balanced (refreshWallets (fq_env Q n) w to fd)" if "calm Q" for Q fd n w to
    by (intro impI balanced_refresh[OF calmD(1)[OF that]]) (simp_all add: balanced_def)
  show "balanced fd \<longrightarrow> balanced (fd\<lparr>type_flows := ts, fin_next := k\<rparr>)" if "flows_kept fd (fd\<lparr>type_flows := ts, fin_next := k\<rparr>)"
    for fd ts k using balanced_same[OF _ _ _ _ that] by simp
qed ((rule balanced_edit; assumption) | (rule balanced_edit_refresh; assumption) | (rule balanced_create; assumption)
    | (rule impI, (rule balanced_pending | rule balanced_delete | rule balanced_edit_wallet | rule balanced_review); assumption)
    | blast)+

section \<open>Locked periods\<close>

definition closed_rows :: "string \<Rightarrow> fin_db \<Rightarrow> fin_txn list" where
  "closed_rows P fd = [t \<leftarrow> txns fd. take 7 (ft_date t) = P]"

text \<open>Rows have their own identifiers and dates in ISO form.\<close>

definition dated :: "fin_db \<Rightarrow> bool" where
  "dated fd \<longleftrightarrow> distinct (map ft_id (txns fd)) \<and> (\<forall>t\<in>set (txns fd). 7 \<le> length (ft_date t))"

text \<open>The month the code cuts out of a date text is the month of the date the database stores.\<close>

definition month_dates :: "fin_req \<Rightarrow> bool" where
  "month_dates Q \<longleftrightarrow> (\<forall>d x. fq_date Q d = Some x \<longrightarrow> 7 \<le> length x \<and> take 7 x = walletPeriod (fq_period Q) d)"

definition freeze :: "string \<Rightarrow> fin_db \<Rightarrow> fin_db \<Rightarrow> bool" where
  "freeze P a b \<longleftrightarrow> (P \<in> set (period_locks a) \<and> dated a
     \<longrightarrow> P \<in> set (period_locks b) \<and> dated b \<and> closed_rows P b = closed_rows P a)"

lemma freeze_same: "txns b = txns a \<Longrightarrow> set (period_locks a) \<subseteq> set (period_locks b) \<Longrightarrow> freeze P a b"
  by (auto simp: freeze_def dated_def closed_rows_def)

lemma freeze_refresh: "freeze P a b \<Longrightarrow> freeze P a (refresh_unless x E w to b)"
  by (simp add: refresh_unless_def freeze_def dated_def closed_rows_def refresh_keeps)

lemma freeze_insert:
  assumes "month_dates Q" "unlocked Q fd d" "fq_date Q d = Some (ft_date t)" "ft_id t \<notin> ft_id ` set (txns fd)"
  shows "freeze P fd (fd\<lparr>txns := txns fd @ [t], fin_next := k\<rparr>)"
  using assms by (auto simp: freeze_def dated_def closed_rows_def month_dates_def unlocked_def)

lemma freeze_delete:
  assumes "live_row fd i t" "unlocked Q fd (ft_date t)"
  shows "freeze P fd (fd\<lparr>txns := [t \<leftarrow> txns fd. ft_id t \<noteq> i]\<rparr>)"
proof (unfold freeze_def, intro impI)
  assume a: "P \<in> set (period_locks fd) \<and> dated fd"
  have "ft_id s \<noteq> i" if s: "s \<in> set (txns fd)" "take 7 (ft_date s) = P" for s
  proof
    assume "ft_id s = i"
    then have "s = t" using only_row[OF _ assms(1) s(1)] a by (simp add: dated_def)
    with s a assms(2) show False by (auto simp: dated_def unlocked_def walletPeriod_def)
  qed
  then have "closed_rows P (fd\<lparr>txns := [t \<leftarrow> txns fd. ft_id t \<noteq> i]\<rparr>) = closed_rows P fd"
    by (auto simp: closed_rows_def intro: filter_cong)
  with a show "P \<in> set (period_locks (fd\<lparr>txns := [t \<leftarrow> txns fd. ft_id t \<noteq> i]\<rparr>)) \<and> dated (fd\<lparr>txns := [t \<leftarrow> txns fd. ft_id t \<noteq> i]\<rparr>)
      \<and> closed_rows P (fd\<lparr>txns := [t \<leftarrow> txns fd. ft_id t \<noteq> i]\<rparr>) = closed_rows P fd"
    by (simp add: dated_def distinct_map_filter)
qed

lemma filter_map_same: "(\<And>x. x \<in> set xs \<Longrightarrow> p (g x) = p x \<and> (p x \<longrightarrow> g x = x)) \<Longrightarrow> filter p (map g xs) = filter p xs"
  by (induction xs) auto

lemma freeze_edit:
  assumes "month_dates Q" "live_row fd i t" "unlocked Q fd (ft_date t)" "same_place f"
    and "ft_date (f t) = ft_date t \<or> (\<exists>d. unlocked Q fd d \<and> fq_date Q d = Some (ft_date (f t)))"
  shows "freeze P fd (on_row i f fd)"
proof (unfold freeze_def, intro impI)
  assume a: "P \<in> set (period_locks fd) \<and> dated fd"
  let ?g = "\<lambda>t. if ft_id t = i then f t else t"
  have t: "7 \<le> length (ft_date t)" using a assms(2) by (simp add: dated_def live_row_def)
  have old: "take 7 (ft_date t) \<noteq> P" using a assms(3) t by (auto simp: unlocked_def walletPeriod_def)
  have new: "7 \<le> length (ft_date (f t)) \<and> take 7 (ft_date (f t)) \<noteq> P"
    using assms(5) old t a assms(1) by (auto simp: month_dates_def unlocked_def)
  have s: "s = t" if "s \<in> set (txns fd)" "ft_id s = i" for s
    using only_row[OF _ assms(2) that] a by (simp add: dated_def)
  have "closed_rows P (on_row i f fd) = closed_rows P fd"
    unfolding closed_rows_def on_row_def by simp (rule filter_map_same, use s old new in auto)
  moreover have "dated (on_row i f fd)"
  proof -
    have "distinct (map ft_id (txns (on_row i f fd)))" using a assms(4) by (simp add: dated_def on_row_ids same_place_def)
    moreover have "\<forall>t\<in>set (txns (on_row i f fd)). 7 \<le> length (ft_date t)" using a s new by (auto simp: dated_def on_row_def)
    ultimately show ?thesis by (simp add: dated_def)
  qed
  ultimately show "P \<in> set (period_locks (on_row i f fd)) \<and> dated (on_row i f fd) \<and> closed_rows P (on_row i f fd) = closed_rows P fd"
    using a by simp
qed

interpretation lock: book_relation "freeze P" month_dates "\<lambda>_ _. True" "\<lambda>_ _. True" for P
proof unfold_locales
  show "freeze P a c" if "freeze P a b" "freeze P b c" for a b c using that by (auto simp: freeze_def)
  note unless = freeze_refresh[where x = False, unfolded refresh_unless_def if_False]
  show "freeze P fd (refreshWallets (fq_env Q n) (ft_wallet t) (ft_to t) (fd\<lparr>txns := [t \<leftarrow> txns fd. ft_id t \<noteq> i]\<rparr>))"
    if "live_row fd i t" "unlocked Q fd (ft_date t)" for Q n fd i t by (rule unless[OF freeze_delete[OF that]])
  show "freeze P fd (refreshWallets (fq_env Q n) w to fd)" for Q n fd w to by (rule unless[OF freeze_same]) simp_all
qed ((rule freeze_insert; assumption) | (rule freeze_refresh, rule freeze_insert; assumption) | (rule freeze_edit; assumption)
    | (rule freeze_refresh, rule freeze_edit; assumption) | (rule freeze_same; simp))+

lemma any_history:
  assumes "\<forall>x\<in>set h. ok (fst x)"
  shows "history_ok (\<lambda>_ _. True) (\<lambda>_ _. True) ok h db"
proof -
  have "admissible (\<lambda>_ _. True) (\<lambda>_ _. True) Q u a db" for Q u a db by (cases a) simp_all
  with assms show ?thesis by (induction h arbitrary: db) auto
qed

end
