(* ===== verification/Schedule_Laws.thy ===== *)
theory Schedule_Laws
  imports Recurring "HOL-Library.Multiset"
begin

text \<open>
  The schedule of recurring transactions: dates print and parse back, the order of the texts is the order
  of the days, the next run is later than today, and a row that has been posted is not due again that day.
\<close>

declare split_paired_All [simp del] split_paired_Ex [simp del]

section \<open>Digit strings\<close>

lemma undigits_base: "undigits a xs = a * 10 ^ length xs + undigits 0 xs"
proof (induction xs arbitrary: a)
  case (Cons c cs)
  show ?case using Cons[of "10 * a + (of_char c - 48)"] Cons[of "of_char c - 48"] by (simp add: algebra_simps)
qed simp

lemma digit_val: "is_digit c \<Longrightarrow> (of_char c :: nat) - 48 \<le> 9 \<and> 48 \<le> (of_char c :: nat)"
  unfolding is_digit_def by arith

lemma undigits_bound: "list_all is_digit xs \<Longrightarrow> undigits 0 xs < 10 ^ length xs"
proof (induction xs)
  case (Cons c cs)
  have "(of_char c :: nat) - 48 \<le> 9" using Cons.prems digit_val[of c] by simp
  then have "((of_char c :: nat) - 48) * 10 ^ length cs \<le> 9 * 10 ^ length cs" by (rule mult_right_mono) simp
  moreover have "undigits 0 cs < 10 ^ length cs" using Cons by simp
  moreover have "undigits 0 (c # cs) = (of_char c - 48) * 10 ^ length cs + undigits 0 cs"
    using undigits_base[of "of_char c - 48" cs] by simp
  moreover have "(10::nat) ^ length (c # cs) = 10 * 10 ^ length cs" by simp
  ultimately show ?case by linarith
qed simp

lemma undigits_mono:
  assumes "list_all is_digit xs" "length xs = length ys" "a < b"
  shows "undigits a xs < undigits b ys"
proof -
  have "(a + 1) * 10 ^ length xs \<le> b * 10 ^ length xs" using assms(3) by (intro mult_right_mono) simp_all
  then show ?thesis using undigits_bound[OF assms(1)] undigits_base[of a xs] undigits_base[of b ys] assms(2) by simp
qed

lemma is_digit_cmp: "is_digit c \<Longrightarrow> is_digit d \<Longrightarrow> of_char c - (48::nat) < of_char d - 48 \<longleftrightarrow> c < d"
  by (auto simp: is_digit_def less_char_def)

lemma undigits_less:
  assumes "list_all is_digit xs" "list_all is_digit ys" "length xs = length ys" "undigits a xs < undigits a ys"
  shows "xs < ys"
  using assms
proof (induction xs arbitrary: ys a)
  case (Cons x xs)
  then obtain y ys' where y: "ys = y # ys'" by (cases ys) auto
  let ?v = "\<lambda>c. 10 * a + (of_char c - 48 :: nat)"
  consider "x < y" | "x = y" | "y < x" by (rule linorder_cases[of x y])
  then show ?case
  proof cases
    case 2
    then show ?thesis using Cons.IH[of ys' "?v x"] Cons.prems y by simp
  next
    case 3
    then have "undigits (?v y) ys' < undigits (?v x) xs"
      using Cons.prems y is_digit_cmp[of y x] by (intro undigits_mono) simp_all
    with Cons.prems y show ?thesis by simp
  qed (simp add: y)
qed simp

lemma undigits_inj:
  assumes "list_all is_digit xs" "list_all is_digit ys" "length xs = length ys" "undigits 0 xs = undigits 0 ys"
  shows "xs = ys"
proof -
  have "undigits a xs = undigits b ys \<Longrightarrow> a = b \<and> xs = ys" for a b
    using assms(1-3)
  proof (induction xs arbitrary: ys a b)
    case (Cons x xs)
    then obtain y ys' where y: "ys = y # ys'" by (cases ys) auto
    from Cons.IH[of "10 * a + (of_char x - 48)" "10 * b + (of_char y - 48)" ys'] Cons.prems y
    have *: "10 * a + (of_char x - 48 :: nat) = 10 * b + (of_char y - 48)" "xs = ys'" by simp_all
    have "(of_char x :: nat) - 48 \<le> 9 \<and> 48 \<le> (of_char x :: nat)" "(of_char y :: nat) - 48 \<le> 9 \<and> 48 \<le> (of_char y :: nat)"
      using Cons.prems y digit_val[of x] digit_val[of y] by simp_all
    with *(1) have "a = b" "(of_char x :: nat) = of_char y" by presburger+
    with *(2) y show ?case by simp
  qed simp
  with assms(4) show ?thesis by blast
qed

lemma digits_all: "list_all is_digit (digits n)"
proof (induction n rule: digits.induct)
  case (1 n)
  have "is_digit (char_of (48 + d))" if "d < 10" for d :: nat using that by (simp add: is_digit_def)
  with 1 show ?case by (subst digits.simps) simp
qed

lemma digits_length: "n < 10 ^ w \<Longrightarrow> 0 < w \<Longrightarrow> length (digits n) \<le> w"
proof (induction n arbitrary: w rule: digits.induct)
  case (1 n)
  show ?case
  proof (cases "n < 10")
    case False
    have "w \<noteq> 1" using False 1(2) by auto
    with 1(3) obtain k where w: "w = Suc k" "0 < k" by (cases w) auto
    have "length (digits (n div 10)) \<le> k" using 1(1)[OF False, of k] 1(2) w by (simp add: div_less_iff_less_mult)
    with False w show ?thesis by (subst digits.simps) simp
  qed (use 1 in \<open>subst digits.simps, simp\<close>)
qed

lemma zero_pad_digits:
  assumes "n < 10 ^ w" "0 < w"
  shows "length (zero_pad w (digits n)) = w" "list_all is_digit (zero_pad w (digits n))" "undigits 0 (zero_pad w (digits n)) = n"
  using digits_length[OF assms] digits_all[of n] is_digit_def[of "CHR ''0''"]
  by (auto simp: zero_pad_def undigits_digits undigits_zero_pad[unfolded zero_pad_def] list_all_iff)

section \<open>Days\<close>

fun valid_ymd :: "ymd \<Rightarrow> bool" where
  "valid_ymd (y, m, d) \<longleftrightarrow> 1 \<le> m \<and> m \<le> 12 \<and> 1 \<le> d \<and> d \<le> days_in m y"

fun day_no :: "ymd \<Rightarrow> nat" where
  "day_no (y, m, d) = 10000 * y + 100 * m + d"

lemma days_in_bounds: "28 \<le> days_in m y" "days_in m y \<le> 31"
  by (simp_all add: days_in_def)

lemma next_day_later: "valid_ymd t \<Longrightarrow> valid_ymd (next_day t) \<and> day_no t < day_no (next_day t) \<and> fst (next_day t) \<le> fst t + 1"
proof (cases t)
  case (fields y m d)
  assume "valid_ymd t"
  moreover have "1 \<le> days_in k z" "days_in k z < 101" "days_in k z < 8901" for k z using days_in_bounds[of k z] by simp_all
  ultimately show ?thesis using fields by (auto simp: Suc_le_eq)
qed

lemma next_days:
  "valid_ymd t \<Longrightarrow> valid_ymd ((next_day ^^ n) t) \<and> day_no t + n \<le> day_no ((next_day ^^ n) t) \<and> fst ((next_day ^^ n) t) \<le> fst t + n"
proof (induction n)
  case (Suc n)
  then show ?case using next_day_later[of "(next_day ^^ n) t"] by auto
qed simp

lemma to_day: "Suc d \<le> days_in m y \<Longrightarrow> (next_day ^^ d) (y, m, 1) = (y, m, Suc d)"
  by (induction d) auto

lemma AddDate_days:
  assumes "valid_ymd t"
  shows "AddDate 0 0 n t = (next_day ^^ n) t"
proof -
  obtain y m d where t: "t = (y, m, Suc d)" using assms by (cases t, cases "snd (snd t)") auto
  have "(next_day ^^ (n + d)) (y, m, 1) = (next_day ^^ n) (y, m, Suc d)"
    using to_day[of d m y] assms t by (simp add: funpow_add)
  moreover have "(m - 1) div 12 = 0" "(m - 1) mod 12 + 1 = m" using assms t by auto
  ultimately show ?thesis by (simp add: AddDate_def t go_date_def add.commute)
qed

lemma go_date_valid:
  assumes "1 \<le> d"
  shows "valid_ymd (go_date y m d)" "day_no (y + (m - 1) div 12, (m - 1) mod 12 + 1, 1) \<le> day_no (go_date y m d)"
    "fst (go_date y m d) \<le> y + (m - 1) div 12 + (d - 1)"
proof -
  have "valid_ymd (y + (m - 1) div 12, (m - 1) mod 12 + 1, 1)"
    using days_in_bounds(1)[of "Suc ((m - Suc 0) mod 12)" "y + (m - Suc 0) div 12"] by (simp add: Suc_le_eq)
  from next_days[OF this, of "d - 1"] show "valid_ymd (go_date y m d)"
    "day_no (y + (m - 1) div 12, (m - 1) mod 12 + 1, 1) \<le> day_no (go_date y m d)" "fst (go_date y m d) \<le> y + (m - 1) div 12 + (d - 1)"
    by (simp_all add: go_date_def)
qed

lemma later_month:
  assumes "valid_ymd (y, m, d)" "1 \<le> v" "valid_ymd (y2, m2, d2)"
    and "day_no (y + (m + v - 1) div 12, (m + v - 1) mod 12 + 1, 1) \<le> day_no (y2, m2, d2)"
  shows "day_no (y, m, d) < day_no (y2, m2, 1)"
proof -
  define q r where "q = (m + v - 1) div 12" and "r = (m + v - 1) mod 12"
  have qr: "12 * q + r = m + v - 1" by (simp add: q_def r_def)
  have "d \<le> 31" "d2 \<le> 31" "1 \<le> m" "m \<le> 12" "m2 \<le> 12" "r < 12"
    using assms(1,3) days_in_bounds(2)[of m y] days_in_bounds(2)[of m2 y2] by (simp_all add: r_def)
  moreover have "10000 * (y + q) + 100 * (r + 1) + 1 \<le> 10000 * y2 + 100 * m2 + d2" using assms(4) by (simp add: q_def r_def)
  ultimately show ?thesis using qr assms(2) by (cases "q = 0") simp_all
qed

lemma AddDate_later:
  assumes "valid_ymd (y, m, d)" "1 \<le> v"
  obtains y2 m2 d2 where "AddDate 0 v 0 (y, m, d) = (y2, m2, d2)" "valid_ymd (y2, m2, d2)" "day_no (y, m, d) < day_no (y2, m2, 1)"
    "y2 \<le> y + v + 31"
proof -
  obtain y2 m2 d2 where a: "go_date y (m + v) d = (y2, m2, d2)" by (cases "go_date y (m + v) d")
  have d: "1 \<le> d" "d \<le> 31" "m \<le> 12" using assms(1) days_in_bounds(2)[of m y] by auto
  have "(m + v - 1) div 12 \<le> v" using d(3) by (simp add: div_le_mono) 
  then show ?thesis
    using that[of y2 m2 d2] go_date_valid[OF d(1), of y "m + v"] later_month[OF assms, of y2 m2 d2] a d by (simp add: AddDate_def)
qed

section \<open>The next run\<close>

definition later :: "nat \<Rightarrow> ymd \<Rightarrow> ymd \<Rightarrow> bool" where
  "later n t t' \<longleftrightarrow> valid_ymd t' \<and> day_no t < day_no t' \<and> fst t' \<le> fst t + n"

lemma days_later: "valid_ymd t \<Longrightarrow> 1 \<le> k \<Longrightarrow> k \<le> n \<Longrightarrow> later n t (AddDate 0 0 k t)"
  using next_days[of t k] by (simp add: AddDate_days later_def)

lemma months_later:
  assumes "valid_ymd t" "1 \<le> v"
  shows "later (v + 60) t (AddDate 0 v 0 t)"
    and "0 < dm \<Longrightarrow> dm \<le> 28 \<Longrightarrow> later (v + 60) t (case AddDate 0 v 0 t of (y, m, d) \<Rightarrow> go_date y m dm)"
proof -
  obtain y m d where t: "t = (y, m, d)" by (cases t)
  obtain y2 m2 d2 where a: "AddDate 0 v 0 t = (y2, m2, d2)" "valid_ymd (y2, m2, d2)" "day_no t < day_no (y2, m2, 1)" "y2 \<le> y + v + 31"
    using AddDate_later[of y m d v] assms t by metis
  then show "later (v + 60) t (AddDate 0 v 0 t)" by (simp add: later_def t)
  have "(m2 - 1) div 12 = 0" "(m2 - 1) mod 12 + 1 = m2" using a(2) by auto
  then show "later (v + 60) t (case AddDate 0 v 0 t of (y, m, d) \<Rightarrow> go_date y m dm)" if "0 < dm" "dm \<le> 28"
    using go_date_valid[of dm y2 m2] that a(1,3,4) by (simp add: later_def t)
qed

lemma years_later:
  assumes "valid_ymd t" "1 \<le> v"
  shows "later (v + 60) t (AddDate v 0 0 t)"
proof -
  obtain y m d where t: "t = (y, m, d)" by (cases t)
  have m: "1 \<le> m" "m \<le> 12" "1 \<le> d" "d \<le> 31" using assms(1) t days_in_bounds(2)[of m y] by auto
  then have "(m - 1) div 12 = 0" "(m - 1) mod 12 + 1 = m" by auto
  then show ?thesis using go_date_valid[OF m(3), of "y + v" m] m(2,4) assms(2) by (simp add: later_def t AddDate_def)
qed

lemma calc_later:
  assumes "parse_ymd from = Some t" "valid_ymd t" "1 \<le> v"
  obtains t' where "calcNextRunDate from freq v dm dw = format_ymd t'" "later (7 * v + 60) t t'"
proof -
  have w: "later (7 * v + 60) t t'" if "later (v + 60) t t'" for t' using that by (auto simp: later_def)
  have one: "later (7 * v + 60) t (AddDate 0 1 0 t)" using months_later(1)[OF assms(2), of 1] assms(3) by (auto simp: later_def)
  consider "freq = ''daily''" | "freq = ''weekly''" | "freq = ''monthly''" "0 < dm \<and> dm \<le> 28" | "freq = ''monthly''" "\<not> (0 < dm \<and> dm \<le> 28)"
    | "freq = ''yearly''" | "freq \<notin> set validFrequencies" by (auto simp: validFrequencies_def)
  then show ?thesis
  proof cases
    case 1
    then show ?thesis using that days_later[OF assms(2), of v "7 * v + 60"] assms by (simp add: calcNextRunDate_def)
  next
    case 2
    then show ?thesis using that days_later[OF assms(2), of "7 * v" "7 * v + 60"] assms by (simp add: calcNextRunDate_def)
  next
    case 3
    then show ?thesis using that w[OF months_later(2)[OF assms(2,3), of "nat dm"]] assms(1)
      by (simp add: calcNextRunDate_def split_beta nat_le_iff)
  next
    case 4
    from 4(2) have "(if 0 < dm \<and> dm \<le> 28 then x else z) = z" for x z :: ymd by auto
    then show ?thesis using that w[OF months_later(1)[OF assms(2,3)]] assms(1) 4(1) by (simp add: calcNextRunDate_def)
  next
    case 5
    then show ?thesis using that w[OF years_later[OF assms(2,3)]] assms(1) by (simp add: calcNextRunDate_def)
  next
    case 6
    then show ?thesis using that one assms(1) by (simp add: calcNextRunDate_def validFrequencies_def)
  qed
qed

section \<open>Dates as text\<close>

lemma append_less: "length xs = length ys \<Longrightarrow> xs < ys \<Longrightarrow> xs @ us < ys @ (vs :: 'a :: linorder list)"
  by (induction xs ys rule: list_induct2) auto

lemma append_less_same: "xs @ us < xs @ (vs :: 'a :: linorder list) \<longleftrightarrow> us < vs"
  by (induction xs) auto

lemma pad_less: "a < b \<Longrightarrow> b < 10 ^ w \<Longrightarrow> zero_pad w (digits a) < zero_pad w (digits b)"
proof -
  assume "a < b" "b < 10 ^ w"
  moreover from this have "0 < w" by (cases w) auto
  ultimately show ?thesis
    using zero_pad_digits[of a w] zero_pad_digits[of b w] by (intro undigits_less[where a = 0]) auto
qed

lemma format_less:
  assumes "valid_ymd t" "valid_ymd t'" "fst t' < 10000" "day_no t < day_no t'"
  shows "format_ymd t < format_ymd t'"
proof -
  obtain y m d y' m' d' where t: "t = (y, m, d)" "t' = (y', m', d')" by (cases t, cases t') auto
  have b: "m \<le> 12" "m' \<le> 12" "d \<le> 31" "d' \<le> 31" "y' < 10 ^ 4"
    using assms(1-3) t days_in_bounds(2)[of m y] days_in_bounds(2)[of m' y'] by auto
  consider "y < y'" | "y = y'" "m < m'" | "y = y'" "m = m'" "d < d'"
    using assms(4) b t by (simp only: day_no.simps) linarith
  then show ?thesis
  proof cases
    case 1
    then show ?thesis using pad_less[OF 1 b(5)] zero_pad_digits(1)[of y 4] zero_pad_digits(1)[of y' 4] b(5)
      by (simp add: t format_ymd_def append_less)
  next
    case 2
    then show ?thesis using pad_less[of m m' 2] zero_pad_digits(1)[of m 2] zero_pad_digits(1)[of m' 2] b(2)
      by (simp add: t format_ymd_def append_less_same append_less)
  next
    case 3
    then show ?thesis using pad_less[of d d' 2] b(4) by (simp add: t format_ymd_def append_less_same)
  qed
qed

lemma ymd_split:
  assumes "m \<le> 12" "d \<le> (31::nat)"
  shows "(10000 * y + 100 * m + d) div 10000 = y" "(10000 * y + 100 * m + d) div 100 mod 100 = m" "(10000 * y + 100 * m + d) mod 100 = d"
proof -
  have e: "10000 * y + 100 * m + d = d + (100 * y + m) * 100" "10000 * y + 100 * m + d = (100 * m + d) + y * 10000" by simp_all
  show "(10000 * y + 100 * m + d) mod 100 = d" unfolding e(1) mod_mult_self1 using assms(2) by (intro mod_less) simp
  have "(10000 * y + 100 * m + d) div 100 = 100 * y + m"
    unfolding e(1) using div_mult_self1[of 100 d "100 * y + m"] div_less[of d 100] assms(2) by (simp only:)
  then show "(10000 * y + 100 * m + d) div 100 mod 100 = m" using assms(1) mod_mult_self1[of m y 100] by (simp add: add.commute mult.commute)
  show "(10000 * y + 100 * m + d) div 10000 = y"
    unfolding e(2) using div_mult_self1[of 10000 "100 * m + d" y] div_less[of "100 * m + d" 10000] assms by simp
qed

lemma parse_ymd_fields:
  "parse_ymd s = (if length s = 10 \<and> s ! 4 = CHR ''-'' \<and> s ! 7 = CHR ''-'' \<and> list_all is_digit (take 4 s @ take 2 (drop 5 s) @ drop 8 s)
     \<and> valid_ymd (undigits 0 (take 4 s), undigits 0 (take 2 (drop 5 s)), undigits 0 (drop 8 s))
   then Some (undigits 0 (take 4 s), undigits 0 (take 2 (drop 5 s)), undigits 0 (drop 8 s)) else None)"
proof -
  define y m d where "y = undigits 0 (take 4 s)" and "m = undigits 0 (take 2 (drop 5 s))" and "d = undigits 0 (drop 8 s)"
  have "d \<le> 31" if "valid_ymd (y, m, d)" using that days_in_bounds(2)[of m y] by auto
  then show ?thesis
    unfolding parse_ymd_def parse_date_def Let_def y_def[symmetric] m_def[symmetric] d_def[symmetric]
    using ymd_split[of m d y] by (auto simp: nat_add_distrib nat_mult_distrib simp del: of_nat_add of_nat_mult)
qed

lemma text_parts:
  assumes "length s = 10"
  shows "s = take 4 s @ [s ! 4] @ take 2 (drop 5 s) @ [s ! 7] @ drop 8 s"
proof -
  obtain a b c d e f g h i j where "s = [a, b, c, d, e, f, g, h, i, j]"
    using assms by (auto simp: numeral_eq_Suc length_Suc_conv)
  then show ?thesis by simp
qed

lemma parse_format: "parse_ymd s = Some t \<longleftrightarrow> s = format_ymd t \<and> valid_ymd t \<and> fst t < 10000"
proof (cases t)
  case (fields y m d)
  show ?thesis
  proof
    assume p: "parse_ymd s = Some t"
    then have l: "length s = 10" "s ! 4 = CHR ''-''" "s ! 7 = CHR ''-''" "list_all is_digit (take 4 s)" "list_all is_digit (take 2 (drop 5 s))"
      "list_all is_digit (drop 8 s)" "valid_ymd t" "undigits 0 (take 4 s) = y" "undigits 0 (take 2 (drop 5 s)) = m" "undigits 0 (drop 8 s) = d"
      by (auto simp: parse_ymd_fields fields split: if_splits)
    have b: "y < 10 ^ 4" "m < 10 ^ 2" "d < 10 ^ 2"
      using undigits_bound[OF l(4)] undigits_bound[OF l(5)] undigits_bound[OF l(6)] l(1,8-10) by simp_all
    have "take 4 s = zero_pad 4 (digits y)" "take 2 (drop 5 s) = zero_pad 2 (digits m)" "drop 8 s = zero_pad 2 (digits d)"
      using zero_pad_digits[of y 4] zero_pad_digits[of m 2] zero_pad_digits[of d 2] b l by (auto intro!: undigits_inj)
    then show "s = format_ymd t \<and> valid_ymd t \<and> fst t < 10000"
      using text_parts[OF l(1)] l(2,3,7) b(1) by (simp add: format_ymd_def fields)
  next
    assume s: "s = format_ymd t \<and> valid_ymd t \<and> fst t < 10000"
    then have b: "y < 10 ^ 4" "m < 10 ^ 2" "d < 10 ^ 2" using days_in_bounds(2)[of m y] fields by auto
    note z = zero_pad_digits[OF b(1)] zero_pad_digits[OF b(2)] zero_pad_digits[OF b(3)]
    show "parse_ymd s = Some t" using s z by (simp add: parse_ymd_fields fields format_ymd_def nth_append)
  qed
qed

section \<open>The daily job\<close>

text \<open>The year of the next run has four digits, as long as schedules do not reach centuries ahead.\<close>

definition sched_ok :: "string \<Rightarrow> book_db \<Rightarrow> bool" where
  "sched_ok today db \<longleftrightarrow> distinct (map rc_id (recurrings db)) \<and> (\<exists>t. parse_ymd today = Some t
     \<and> (\<forall>r\<in>set (recurrings db). 1 \<le> rc_value r \<and> fst t + 7 * nat (rc_value r) + 60 < 10000))"

lemma advance_later:
  assumes "sched_ok today db" "r \<in> set (recurrings db)"
  shows "today < advance today r"
proof -
  obtain t where t: "parse_ymd today = Some t" "1 \<le> rc_value r" "fst t + 7 * nat (rc_value r) + 60 < 10000"
    using assms by (auto simp: sched_ok_def)
  have v: "today = format_ymd t" "valid_ymd t" using t(1) by (simp_all add: parse_format)
  have "1 \<le> nat (rc_value r)" using t(2) by simp
  from calc_later[OF t(1) v(2) this]
  obtain t' where "advance today r = format_ymd t'" "later (7 * nat (rc_value r) + 60) t t'"
    unfolding advance_def by blast
  then show ?thesis using format_less[OF v(2), of t'] t(3) v(1) by (simp add: later_def)
qed

definition posted :: "string \<Rightarrow> book_db \<Rightarrow> nat" where
  "posted i db = length [t \<leftarrow> txns (bk db). map_option ti_recurring (tinfo db (ft_id t)) = Some (Some i)]"

definition is_due :: "string \<Rightarrow> string \<Rightarrow> book_db \<Rightarrow> bool" where
  "is_due today i db \<longleftrightarrow> (\<exists>r\<in>set (recurrings db). rc_id r = i \<and> recurring_due today r)"

text \<open>
  What one row of the job may do: write its own schedule, and post at most once, leaving it not due unless
  the statement that moves the next run date is \<open>lost\<close>.
\<close>

definition row_run :: "string \<Rightarrow> bool \<Rightarrow> string \<Rightarrow> book_db \<Rightarrow> book_db \<Rightarrow> bool" where
  "row_run today lost i a b \<longleftrightarrow>
     (\<exists>f. recurrings b = map (\<lambda>x. if rc_id x = i then f x else x) (recurrings a)
        \<and> (\<forall>x. rc_id (f x) = rc_id x \<and> rc_value (f x) = rc_value x))
     \<and> (\<forall>j. j \<noteq> i \<longrightarrow> posted j b = posted j a)
     \<and> (is_due today i b \<longrightarrow> is_due today i a)
     \<and> (posted i b = posted i a \<or> posted i b = Suc (posted i a) \<and> (lost \<or> \<not> is_due today i b))"

lemma write_recurring_sel [simp]:
  "tinfo (write_recurring E l i f db) = tinfo db" "bk (write_recurring E l i f db) = bk db"
  by (simp_all add: write_recurring_def)

lemma posted_cong: "bk b = bk a \<Longrightarrow> tinfo b = tinfo a \<Longrightarrow> posted j b = posted j a"
  by (simp add: posted_def)

lemma posted_refresh [simp]: "posted j (refresh_bk E w to db) = posted j db"
proof -
  have "txns (refreshWallets E w to (bk db)) = txns (bk db)"
    by (auto simp: refreshWallets_def refreshWalletBalance_def best_effort_def sql_raw_def Let_def split: option.splits)
  then show ?thesis by (simp add: posted_def refresh_bk_def set_bk_def)
qed

lemma posted_add:
  assumes "add_txn t x db = Inr (i, d)" "ti_recurring x = Some k"
  shows "posted j d = posted j db + (if j = k then 1 else 0)" "recurrings d = recurrings db"
proof -
  have n: "ft_id t \<notin> ft_id ` set (txns (bk db))" and d: "txns (bk d) = txns (bk db) @ [t]" "tinfo d = (tinfo db)(ft_id t \<mapsto> x)"
    and r: "recurrings d = recurrings db"
    using assms(1) by (auto simp: add_txn_def row_check_def amount_check_def Let_def list_ex_iff split: if_splits)
  have "[s \<leftarrow> txns (bk db). map_option ti_recurring (tinfo d (ft_id s)) = Some (Some j)]
      = [s \<leftarrow> txns (bk db). map_option ti_recurring (tinfo db (ft_id s)) = Some (Some j)]"
  proof (rule filter_cong)
    fix s assume "s \<in> set (txns (bk db))"
    with n have "ft_id s \<noteq> ft_id t" by (metis imageI)
    then show "(map_option ti_recurring (tinfo d (ft_id s)) = Some (Some j)) = (map_option ti_recurring (tinfo db (ft_id s)) = Some (Some j))"
      by (simp add: d(2))
  qed simp
  then show "posted j d = posted j db + (if j = k then 1 else 0)" by (simp add: posted_def d(1)) (simp add: d(2) assms(2))
  show "recurrings d = recurrings db" by (rule r)
qed

lemma post_posted:
  assumes "post_recurring Q E r db = Inr (i, d)"
  shows "posted j d = posted j db + (if j = rc_id r then 1 else 0)" "recurrings d = recurrings db"
  using assms posted_add[where k = "rc_id r" and i = i and d = d and db = db]
  unfolding post_recurring_def ebind_eq_Inr by auto

lemma row_run_trans_stop:
  assumes "row_run today lost i a b" "bk c = bk b" "tinfo c = tinfo b"
    and "recurrings c = map (\<lambda>x. if rc_id x = i then g x else x) (recurrings b)"
    and "\<And>x. rc_id (g x) = rc_id x \<and> rc_value (g x) = rc_value x \<and> (recurring_due today (g x) \<longrightarrow> recurring_due today x)"
  shows "row_run today lost i a c"
proof -
  obtain f where f: "recurrings b = map (\<lambda>x. if rc_id x = i then f x else x) (recurrings a)"
      "\<forall>x. rc_id (f x) = rc_id x \<and> rc_value (f x) = rc_value x"
    using assms(1) by (auto simp: row_run_def)
  have "recurrings c = map (\<lambda>x. if rc_id x = i then g (f x) else x) (recurrings a)" using assms(4) f by simp
  moreover have "is_due today i c \<longrightarrow> is_due today i b" using assms(4,5) by (auto simp: is_due_def split: if_splits)
  moreover have "posted j c = posted j b" for j by (rule posted_cong[OF assms(2,3)])
  moreover have "rc_id (g (f x)) = rc_id x \<and> rc_value (g (f x)) = rc_value x" for x using assms(5) f(2) by simp
  ultimately show ?thesis using assms(1) unfolding row_run_def by (intro conjI exI[of _ "\<lambda>x. g (f x)"]) auto
qed

lemma row_run_refl: "row_run today lost i a a"
  unfolding row_run_def by (intro conjI exI[of _ "\<lambda>x. x"]) simp_all

lemma row_run_write:
  assumes "row_run today lost i a b"
    and "\<And>x. rc_id (g x) = rc_id x \<and> rc_value (g x) = rc_value x \<and> (recurring_due today (g x) \<longrightarrow> recurring_due today x)"
  shows "row_run today lost i a (write_recurring E l i g b)"
  using assms(1) row_run_trans_stop[OF assms(1) _ _ _ assms(2), of "write_recurring E l i g b"]
  by (cases "db_fails E l") (simp_all add: write_recurring_def)

lemma row_run_log: "row_run today lost i a b \<Longrightarrow> row_run today lost i a (add_log E r d st t b)"
  by (simp add: row_run_def add_log_def posted_def is_due_def)

lemma row_run_advance:
  assumes "db_fails E ''recurring.advance'' \<Longrightarrow> lost \<and> is_due today i a" "today < next_run" "recurrings b = recurrings a"
    and "\<exists>k\<le>1. \<forall>j. posted j b = posted j a + (if j = i then k else 0)"
  shows "row_run today lost i a (write_recurring E ''recurring.advance'' i (\<lambda>x. x\<lparr>rc_next := next_run, rc_done := rc_done x + 1\<rparr>) b)"
    (is "row_run _ _ _ _ ?c")
proof -
  let ?g = "\<lambda>x. x\<lparr>rc_next := next_run, rc_done := rc_done x + 1\<rparr>"
  define f :: "recurring_row \<Rightarrow> recurring_row" where "f = (if db_fails E ''recurring.advance'' then (\<lambda>x. x) else ?g)"
  have r: "recurrings ?c = map (\<lambda>x. if rc_id x = i then f x else x) (recurrings a)"
    using assms(3) unfolding f_def by (cases "db_fails E ''recurring.advance''") (simp_all add: write_recurring_def map_idI)
  have f: "rc_id (f x) = rc_id x \<and> rc_value (f x) = rc_value x" for x by (simp add: f_def)
  have "\<not> recurring_due today (?g x)" for x
    using assms(2)[folded not_le] by (simp add: recurring_due_def)
  then have nd: "\<not> is_due today i ?c" if "\<not> db_fails E ''recurring.advance''"
    unfolding is_due_def r set_map using that by (auto simp: f_def)
  have c: "posted j ?c = posted j b" for j by (rule posted_cong) simp_all
  obtain k where k: "k \<le> 1" "\<forall>j. posted j b = posted j a + (if j = i then k else 0)" using assms(4) by blast
  then have "k = 0 \<or> k = 1" by auto
  then have "posted i ?c = posted i a \<or> posted i ?c = Suc (posted i a) \<and> (lost \<or> \<not> is_due today i ?c)"
    using c k(2) nd assms(1) by auto
  moreover have "posted j ?c = posted j a" if "j \<noteq> i" for j using that c k(2) by simp
  ultimately show ?thesis using nd r f assms(1)
    unfolding row_run_def by (intro conjI exI[of _ f]) auto
qed

lemma run_row:
  assumes "sched_ok (fq_today Q) db" "r \<in> set (recurrings db)" "recurring_due (fq_today Q) r"
  shows "row_run (fq_today Q) (db_fails E ''recurring.advance'') (rc_id r) db (run_recurring Q E r db)"
proof -
  let ?today = "fq_today Q" and ?i = "rc_id r" and ?lost = "db_fails E ''recurring.advance''"
  have due: "is_due ?today ?i db" using assms(2,3) by (auto simp: is_due_def)
  let ?adv = "\<lambda>x. x\<lparr>rc_next := advance ?today r, rc_done := rc_done x + 1\<rparr>"
  note stop = row_run_write[where g = "\<lambda>r. r\<lparr>rc_active := False\<rparr>"]
  have pause: "row_run ?today ?lost ?i db (write_recurring E ''recurring.pause'' ?i (\<lambda>r. r\<lparr>rc_active := False\<rparr>) d)" if "row_run ?today ?lost ?i db d" for d
    by (rule stop[OF that]) (simp add: recurring_due_def)
  have adv: "row_run ?today ?lost ?i db (write_recurring E ''recurring.advance'' ?i ?adv (add_log E r ?today st t d))"
    if "recurrings d = recurrings db" "\<exists>k\<le>1. \<forall>j. posted j d = posted j db + (if j = ?i then k else 0)" for st t d
    using that due by (intro row_run_advance[OF _ advance_later[OF assms(1,2)]]) (simp_all add: add_log_def posted_def)
  have ended: "row_run ?today ?lost ?i db (write_recurring E ''recurring.stop'' ?i (\<lambda>r. r\<lparr>rc_active := False\<rparr>) db)"
    by (rule stop[OF row_run_refl]) (simp add: recurring_due_def)
  have posted: "row_run ?today ?lost ?i db (write_recurring E ''recurring.advance'' ?i ?adv (add_log E r ?today st t (refresh_bk E w to d)))"
    if "post_recurring Q E r db = Inr (k, d)" for st t w to k d
    using post_posted[OF that] by (intro adv) (auto simp: refresh_bk_def[THEN arg_cong[of _ _ recurrings]] set_bk_def)
  have same: "row_run ?today ?lost ?i db (write_recurring E ''recurring.advance'' ?i ?adv (add_log E r ?today st t db))" for st t
    by (rule adv) (auto intro: exI[of _ 0])
  show ?thesis
    unfolding run_recurring_def Let_def using ended
    by (cases "post_recurring Q E r db") (auto intro!: pause posted same row_run_log row_run_refl split: prod.splits)
qed

text \<open>A run over several rows: what is left to do is still due, and each post uses up one due row.\<close>

definition due_count :: "string \<Rightarrow> string \<Rightarrow> book_db \<Rightarrow> nat" where
  "due_count today i db = (if is_due today i db then 1 else 0)"

lemma row_run_keeps:
  assumes "row_run today lost i a b"
  shows "sched_ok today a \<Longrightarrow> sched_ok today b" "r \<in> set (recurrings a) \<Longrightarrow> rc_id r \<noteq> i \<Longrightarrow> r \<in> set (recurrings b)"
    "j \<noteq> i \<Longrightarrow> is_due today j b = is_due today j a"
    "r \<in> set (recurrings b) \<Longrightarrow> rc_id r \<noteq> i \<Longrightarrow> r \<in> set (recurrings a)"
proof -
  obtain f where f: "recurrings b = map (\<lambda>x. if rc_id x = i then f x else x) (recurrings a)"
      "\<And>x. rc_id (f x) = rc_id x \<and> rc_value (f x) = rc_value x"
    using assms by (auto simp: row_run_def)
  have "map rc_id (recurrings b) = map rc_id (recurrings a)" using f by simp
  then have d: "distinct (map rc_id (recurrings b)) = distinct (map rc_id (recurrings a))" by (simp only:)
  have v: "(\<forall>r\<in>set (recurrings b). P (rc_value r)) = (\<forall>r\<in>set (recurrings a). P (rc_value r))" for P
  proof -
    have "rc_value (if rc_id x = i then f x else x) = rc_value x" for x using f(2) by simp
    then show ?thesis unfolding f(1) set_map ball_simps(9) by (simp only:)
  qed
  show "sched_ok today a \<Longrightarrow> sched_ok today b"
    unfolding sched_ok_def d v[of "\<lambda>n. 1 \<le> n \<and> _ + 7 * nat n + 60 < 10000"] .
  show "r \<in> set (recurrings a) \<Longrightarrow> rc_id r \<noteq> i \<Longrightarrow> r \<in> set (recurrings b)" using f(1) by force
  show "r \<in> set (recurrings b) \<Longrightarrow> rc_id r \<noteq> i \<Longrightarrow> r \<in> set (recurrings a)" using f by (auto split: if_splits)
  show "j \<noteq> i \<Longrightarrow> is_due today j b = is_due today j a" using f by (auto simp: is_due_def)
qed

text \<open>A run in which the statement that moves a next run date may fail.\<close>

definition loses :: "fin_req \<Rightarrow> bool" where
  "loses Q \<longleftrightarrow> (\<exists>n. db_fails (fq_env Q n) ''recurring.advance'')"

lemma run_each_posts:
  assumes "sched_ok (fq_today Q) db" "distinct (map rc_id rs)" "\<forall>r\<in>set rs. r \<in> set (recurrings db) \<and> recurring_due (fq_today Q) r"
  shows "sched_ok (fq_today Q) (run_each Q n rs db)
     \<and> (i \<notin> rc_id ` set rs \<longrightarrow> posted i (run_each Q n rs db) = posted i db \<and> is_due (fq_today Q) i (run_each Q n rs db) = is_due (fq_today Q) i db)
     \<and> posted i (run_each Q n rs db) + due_count (fq_today Q) i (run_each Q n rs db) \<le> posted i db + due_count (fq_today Q) i db + of_bool (loses Q)"
  using assms
proof (induction rs arbitrary: n db)
  case (Cons r rs)
  let ?db = "run_recurring Q (fq_env Q n) r db" and ?t = "fq_today Q"
  have r: "row_run ?t (db_fails (fq_env Q n) ''recurring.advance'') (rc_id r) db ?db" using run_row[OF Cons.prems(1)] Cons.prems(3) by simp
  have "is_due ?t (rc_id r) db" using Cons.prems(3) by (auto simp: is_due_def)
  then have own: "posted i ?db + due_count ?t i ?db \<le> posted i db + due_count ?t i db + of_bool (loses Q)" if "i = rc_id r"
    using r that by (auto simp: row_run_def due_count_def loses_def)
  have other: "posted i ?db = posted i db \<and> is_due ?t i ?db = is_due ?t i db" if "i \<noteq> rc_id r"
    using r row_run_keeps(3)[OF r, of i] that by (simp add: row_run_def)
  have "\<forall>x\<in>set rs. x \<in> set (recurrings ?db) \<and> recurring_due ?t x"
    using Cons.prems(2,3) row_run_keeps(2)[OF r] by (metis distinct.simps(2) image_eqI list.set_intros(2) list.simps(9) set_map)
  note IH = Cons.IH[OF row_run_keeps(1)[OF r Cons.prems(1)] _ this, of "Suc n"]
  show ?case
  proof (cases "i = rc_id r")
    case True
    then have "i \<notin> rc_id ` set rs" using Cons.prems(2) by simp
    then show ?thesis using IH Cons.prems(2) own[OF True] True by (simp add: due_count_def)
  next
    case False
    then show ?thesis using IH Cons.prems(2) other[OF False] by (auto simp: due_count_def)
  qed
qed simp

text \<open>The daily job, run again and again on one day.\<close>

fun run_jobs :: "(fin_req \<times> (recurring_row list \<Rightarrow> recurring_row list)) list \<Rightarrow> book_db \<Rightarrow> book_db" where
  "run_jobs [] db = db"
| "run_jobs ((Q, scan) # js) db = run_jobs js (snd (processRecurringForTenant Q scan db))"

definition job_ok :: "string \<Rightarrow> fin_req \<Rightarrow> (recurring_row list \<Rightarrow> recurring_row list) \<Rightarrow> bool" where
  "job_ok today Q scan \<longleftrightarrow> fq_today Q = today \<and> (\<forall>rs. mset (scan rs) = mset rs)"

lemma process_posts:
  assumes "job_ok today Q scan" "sched_ok today db"
  defines "b \<equiv> snd (processRecurringForTenant Q scan db)"
  shows "sched_ok today b \<and> (\<not> is_due today i db \<longrightarrow> posted i b = posted i db \<and> \<not> is_due today i b)
     \<and> posted i b + due_count today i b \<le> posted i db + due_count today i db + of_bool (loses Q)"
proof -
  have j: "fq_today Q = today" "\<And>rs. mset (scan rs) = mset rs" using assms(1) by (simp_all add: job_ok_def)
  let ?rs = "scan [r \<leftarrow> recurrings db. recurring_due today r]"
  have m: "mset (map rc_id ?rs) = mset (map rc_id [r \<leftarrow> recurrings db. recurring_due today r])" using j(2) by simp
  have d: "distinct (map rc_id ?rs)"
    using assms(2) mset_eq_imp_distinct_iff[OF m] by (simp add: sched_ok_def distinct_map_filter)
  have rs: "\<forall>r\<in>set ?rs. r \<in> set (recurrings db) \<and> recurring_due today r" using mset_eq_setD[OF j(2)] by auto
  then have "i \<notin> rc_id ` set ?rs" if "\<not> is_due today i db" using that unfolding is_due_def by blast
  moreover have "b = db \<or> b = run_each Q 1 ?rs db"
    unfolding b_def processRecurringForTenant_def try_out_def Let_def sql_raw_def j(1) by (simp split: sum.split)
  ultimately show ?thesis using run_each_posts[of Q db ?rs 1 i, unfolded j(1), OF assms(2) d rs] assms(2) by (elim disjE) auto
qed

lemma run_jobs_posts:
  "sched_ok today db \<Longrightarrow> \<forall>(Q, scan)\<in>set js. job_ok today Q scan
     \<Longrightarrow> posted i (run_jobs js db) \<le> posted i db + (if is_due today i db then Suc (length [(Q, scan) \<leftarrow> js. loses Q]) else 0)"
proof (induction js arbitrary: db)
  case (Cons x js)
  obtain Q scan where x: "x = (Q, scan)" by (cases x)
  have p: "sched_ok today (snd (processRecurringForTenant Q scan db))"
    "\<not> is_due today i db \<longrightarrow> posted i (snd (processRecurringForTenant Q scan db)) = posted i db \<and> \<not> is_due today i (snd (processRecurringForTenant Q scan db))"
    "posted i (snd (processRecurringForTenant Q scan db)) + due_count today i (snd (processRecurringForTenant Q scan db))
       \<le> posted i db + due_count today i db + of_bool (loses Q)"
    using process_posts[of today Q scan db i] Cons.prems x by auto
  from Cons.IH[OF p(1)] Cons.prems(2) p(2,3) show ?case by (auto simp: x due_count_def split: if_splits)
qed simp

section \<open>Properties\<close>

text \<open>C29: The next run computed for a day is a later day of the calendar, for every frequency, interval of at least one
and day of the month, so a schedule always moves on; as long as its year has four digits (the bound on the year is a
coarse one) its text is greater in the order the due query compares.\<close>

theorem next_run_later:
  assumes "parse_ymd from = Some t" "1 \<le> v" "fst t + 7 * v + 60 < 10000"
  shows "\<exists>t'. calcNextRunDate from freq v dm dw = format_ymd t' \<and> valid_ymd t' \<and> day_no t < day_no t' \<and> fst t' \<le> fst t + 7 * v + 60
    \<and> from < format_ymd t'"
proof -
  have t: "from = format_ymd t" "valid_ymd t" using assms(1) by (simp_all add: parse_format)
  obtain t' where t': "calcNextRunDate from freq v dm dw = format_ymd t'" "later (7 * v + 60) t t'" using calc_later[OF assms(1) t(2) assms(2)] .
  then have "format_ymd t < format_ymd t'" using assms(3) by (intro format_less[OF t(2)]) (simp_all add: later_def)
  with t' t(1) show ?thesis by (auto simp: later_def)
qed

lemma digit_chars: "char_of (48 :: nat) = CHR ''0''" "char_of (49 :: nat) = CHR ''1''" "char_of (50 :: nat) = CHR ''2''"
  "char_of (51 :: nat) = CHR ''3''" "char_of (54 :: nat) = CHR ''6''"
  by code_simp+

lemma sample_date: "parse_ymd ''2026-01-31'' = Some (2026, 1, 31)"
  unfolding parse_format by (simp add: format_ymd_def zero_pad_def digits.simps days_in_def digit_chars)

theorem next_run_later_witness:
  "calcNextRunDate ''2026-01-31'' ''monthly'' 1 31 0 = ''2026-03-03''
   \<and> (\<exists>t'. calcNextRunDate ''2026-01-31'' ''monthly'' 1 31 0 = format_ymd t' \<and> valid_ymd t' \<and> day_no (2026, 1, 31) < day_no t'
        \<and> fst t' \<le> fst (2026 :: nat, 1 :: nat, 31 :: nat) + 7 * 1 + 60 \<and> ''2026-01-31'' < format_ymd t')"
proof
  have "(next_day ^^ 30) (2026, 2, 1) = (next_day ^^ 3) ((next_day ^^ 27) (2026, 2, 1))" using funpow_add[of 3 27 next_day] by simp
  also have "\<dots> = (2026, 3, 3)" using to_day[of 27 2 2026] by (simp add: numeral_3_eq_3 days_in_def leap_year_def)
  finally have "AddDate 0 1 0 (2026, 1, 31) = (2026, 3, 3)" by (simp add: AddDate_def go_date_def numeral_2_eq_2)
  then show "calcNextRunDate ''2026-01-31'' ''monthly'' 1 31 0 = ''2026-03-03''"
    by (simp add: calcNextRunDate_def sample_date format_ymd_def zero_pad_def digits.simps digit_chars)
  from sample_date show "\<exists>t'. calcNextRunDate ''2026-01-31'' ''monthly'' 1 31 0 = format_ymd t' \<and> valid_ymd t' \<and> day_no (2026, 1, 31) < day_no t'
        \<and> fst t' \<le> fst (2026 :: nat, 1 :: nat, 31 :: nat) + 7 * 1 + 60 \<and> ''2026-01-31'' < format_ymd t'"
    by (rule next_run_later) simp_all
qed

text \<open>C27: However often the daily job runs on one day, in whatever order it reads the rows and whichever statements fail,
a schedule that is not due posts nothing, and one that is due posts at most one transaction, and one more for every run
in which the statement that moves a next run date fails. The tables hold distinct schedules with intervals of at least one.\<close>

theorem posts_once_a_day:
  assumes "sched_ok today db" "\<forall>(Q, scan)\<in>set js. job_ok today Q scan"
  shows "posted i (run_jobs js db) \<le> posted i db + (if is_due today i db then 1 + length [(Q, scan) \<leftarrow> js. loses Q] else 0)"
  using run_jobs_posts[OF assms, of i] by (simp split: if_splits)

definition sample_schedule :: recurring_row where
  "sample_schedule = \<lparr>rc_id = ''r1'', rc_type = ''expense'', rc_amount = 100, rc_wallet = ''kas'', rc_to = None, rc_category = None,
     rc_desc = None, rc_freq = ''daily'', rc_value = 1, rc_dom = None, rc_dow = None, rc_mode = ''auto'', rc_end = None, rc_max = None,
     rc_done = 0, rc_next = ''2026-01-31'', rc_active = True, rc_by = ''u'', rc_deleted = False\<rparr>"

definition sample_ledger :: book_db where
  "sample_ledger = \<lparr>bk = sample_books, winfo = Map.empty, tinfo = Map.empty, cinfo = Map.empty, txn_types = [], approval = None,
     recurrings = [sample_schedule], rec_log = [], asset_wallets = []\<rparr>"

definition sample_day :: fin_req where
  "sample_day = \<lparr>fq_env = (\<lambda>_. sample_env), fq_today = ''2026-01-31'', fq_period = ''2026-01'',
     fq_date = (\<lambda>d. if length d = 10 then Some d else None)\<rparr>"

theorem posts_once_a_day_witness:
  "posted ''r1'' (run_jobs [(sample_day, id), (sample_day, rev), (sample_day, id)] sample_ledger) \<le> posted ''r1'' sample_ledger + 1"
proof -
  let ?js = "[(sample_day, id), (sample_day, rev), (sample_day, id)] :: (fin_req \<times> (recurring_row list \<Rightarrow> recurring_row list)) list"
  have "sched_ok ''2026-01-31'' sample_ledger" by (simp add: sched_ok_def sample_ledger_def sample_schedule_def sample_date)
  moreover have "\<forall>(Q, scan)\<in>set ?js. job_ok ''2026-01-31'' Q scan" by (simp add: job_ok_def sample_day_def)
  ultimately have "posted ''r1'' (run_jobs ?js sample_ledger)
      \<le> posted ''r1'' sample_ledger + (if is_due ''2026-01-31'' ''r1'' sample_ledger then 1 + length [(Q, scan) \<leftarrow> ?js. loses Q] else 0)"
    by (rule posts_once_a_day)
  also have "\<dots> \<le> posted ''r1'' sample_ledger + 1" by (simp add: loses_def sample_day_def sample_env_def)
  finally show ?thesis .
qed

end
