(* ===== verification/Books_Props.thy ===== *)
theory Books_Props
  imports Books_Laws Schedule_Laws
begin

text \<open>
  Properties of the finance handlers: balances and locked periods through every history, the limits of what
  a member of the staff may change, what approval ignores, and the stale balances a change of a type leaves.
\<close>

declare split_paired_All [simp del] split_paired_Ex [simp del]

section \<open>Locks and balances in the handlers\<close>

definition with_locks :: "string list \<Rightarrow> book_db \<Rightarrow> book_db" where
  "with_locks L db = db\<lparr>bk := (bk db)\<lparr>period_locks := L\<rparr>\<rparr>"

lemma refresh_locks: "refreshWallets E w to (fd\<lparr>period_locks := L\<rparr>) = (refreshWallets E w to fd)\<lparr>period_locks := L\<rparr>"
proof -
  have net: "wallet_net (fd\<lparr>period_locks := L\<rparr>) v = wallet_net fd v" "find_wallet (fd\<lparr>period_locks := L\<rparr>) v = find_wallet fd v" for fd v
  proof -
    have "credit (fd\<lparr>period_locks := L\<rparr>) v = credit fd v" "debit (fd\<lparr>period_locks := L\<rparr>) v = debit fd v"
      by (simp_all add: fun_eq_iff credit_def debit_def txn_flow_def)
    then show "wallet_net (fd\<lparr>period_locks := L\<rparr>) v = wallet_net fd v" by (simp add: wallet_net_def)
  qed (simp add: find_wallet_def)
  have one: "best_effort (refreshWalletBalance E v (fd\<lparr>period_locks := L\<rparr>)) (fd\<lparr>period_locks := L\<rparr>)
      = (best_effort (refreshWalletBalance E v fd) fd)\<lparr>period_locks := L\<rparr>" for fd v
    by (auto simp: refreshWalletBalance_def sql_raw_def best_effort_def net split: option.splits)
  then show ?thesis by (simp add: refreshWallets_def Let_def one split: option.splits)
qed

lemma refresh_bk_locks: "refresh_bk E w to (with_locks L db) = with_locks L (refresh_bk E w to db)"
  by (simp add: refresh_bk_def set_bk_def with_locks_def refresh_locks)

lemma with_locks_sel [simp]: "find_txn_row (with_locks L db) i = find_txn_row db i"
  "write_txn i f g (with_locks L db) = with_locks L (write_txn i f g db)"
  by (simp_all add: find_txn_row_def with_locks_def write_txn_def)

lemma try_locks:
  assumes "\<And>x. f' x = map_prod id (with_locks L) (f x)"
  shows "try_reply (with_locks L db) m f' = map_prod id (with_locks L) (try_reply db m f)"
  using assms by (cases m) simp_all

lemma try_replyE:
  assumes "snd (try_reply db m f) = r"
  obtains "r = db" | x where "m = Inr x" "snd (f x) = r"
  using assms by (cases m) auto

lemma in_txE:
  assumes "snd (in_tx db m f) = r"
  obtains "r = db" | x db' where "m = Inr (x, db')" "snd (f x db') = r"
  using assms unfolding in_tx_def by (elim try_replyE) (auto split: prod.splits)

text \<open>What \<open>UpdateTransaction\<close> and \<open>CreateTransaction\<close> do when they do something.\<close>

lemma UpdateTransactionE:
  assumes "mustUser u = Inr v"
  obtains (same) "snd (UpdateTransaction Q u i p db) = db"
  | (edited) t date db1 where "find_txn_row db i = Some t" "may_edit v t = Inr ()" "unlocked Q (bk db) (ft_date t)"
      "bk db1 = on_row i (edit_txn (fq_env Q 0) v p date) (bk db)"
      "snd (UpdateTransaction Q u i p db) = (if (tu_amount p \<noteq> None \<or> tu_date p \<noteq> None) \<and> ft_status t = ''approved''
         then refreshWalletsForTransaction (fq_env Q 0) i db1 else db1)"
proof -
  define r where "r = snd (UpdateTransaction Q u i p db)"
  then have "snd (UpdateTransaction Q u i p db) = r" by simp
  then have "r = db \<or> (\<exists>t db1. sql (fq_env Q 0) ''txn.load'' (case find_txn_row db i of None \<Rightarrow> Inl (NotFound ''transaksi tidak ditemukan'') | Some t \<Rightarrow> Inr t) = Inr t
      \<and> may_edit v t = Inr () \<and> ensurePeriodUnlocked (fq_env Q 0) (bk db) (walletPeriod (fq_period Q) (ft_date t)) = Inr ()
      \<and> update_txn_stmt Q v i t p db = Inr ((), db1) \<and> (if (tu_amount p \<noteq> None \<or> tu_date p \<noteq> None) \<and> ft_status t = ''approved''
         then refreshWalletsForTransaction (fq_env Q 0) i db1 else db1) = r)"
    unfolding UpdateTransaction_def Let_def assms by (elim try_replyE in_txE) (auto simp del: not_None_eq split del: if_split option.split)
  then consider "r = db" | t db1 where "find_txn_row db i = Some t" "may_edit v t = Inr ()" "unlocked Q (bk db) (ft_date t)"
      "update_txn_stmt Q v i t p db = Inr ((), db1)" "r = (if (tu_amount p \<noteq> None \<or> tu_date p \<noteq> None) \<and> ft_status t = ''approved''
         then refreshWalletsForTransaction (fq_env Q 0) i db1 else db1)"
    by (metis balance.sql_row ensure_unlocked)
  then show ?thesis
  proof cases
    case 1
    then show ?thesis using same r_def by simp
  next
    case (2 t db1)
    then show ?thesis using balance.update_stmtE[OF 2(4)] edited r_def by metis
  qed
qed

lemma CreateTransactionE:
  assumes "mustUser u = Inr v" "CreateTransaction Q u p db = (Inr (i, st), db')"
  obtains c date db1 where "txn_status (fq_env Q 0) db v p = Inr st" "insert_tx Q v p c date st db = Inr (i, db1)"
    "db' = (if st = ''approved'' then refresh_bk (fq_env Q 0) (tc_wallet p) (tc_to p) db1 else db1)"
  using assms unfolding CreateTransaction_def Let_def in_tx_def
  by (auto simp: try_reply_def split: sum.splits prod.splits if_splits)

section \<open>Date texts\<close>

text \<open>The date texts of a request.\<close>

fun date_texts :: "fin_op \<Rightarrow> string list" where
  "date_texts (OpCreate p) = [tc_date p]"
| "date_texts (OpUpdate i p) = (case tu_date p of None \<Rightarrow> [] | Some d \<Rightarrow> [d])"
| "date_texts (OpDuplicate is d) = [d]"
| "date_texts (OpRecurring e p) = rp_start p # (case rp_end p of None \<Rightarrow> [] | Some d \<Rightarrow> [d])"
| "date_texts _ = []"

definition iso_date :: "string \<Rightarrow> bool" where
  "iso_date d \<longleftrightarrow> parse_ymd d \<noteq> None"

text \<open>PostgreSQL reads a date of the calendar in ISO form as itself; the server's own date has that form.\<close>

definition reads_iso :: "fin_req \<Rightarrow> bool" where
  "reads_iso Q \<longleftrightarrow> (\<forall>d. iso_date d \<longrightarrow> fq_date Q d = Some d) \<and> iso_date (fq_today Q)"

definition iso_request :: "fin_op \<Rightarrow> bool" where
  "iso_request a \<longleftrightarrow> (\<forall>d\<in>set (date_texts a). d = [] \<or> iso_date d)"

text \<open>A request does not see how the database reads texts that it does not send.\<close>

definition narrowed :: "fin_op \<Rightarrow> fin_req \<Rightarrow> fin_req" where
  "narrowed a Q = Q\<lparr>fq_date := (\<lambda>d. if d \<in> set (fq_today Q # date_texts a) then fq_date Q d else None)\<rparr>"

lemma narrowed_sel [simp]:
  "fq_env (narrowed a Q) = fq_env Q" "fq_today (narrowed a Q) = fq_today Q" "fq_period (narrowed a Q) = fq_period Q"
  "need_date (narrowed a Q) (fq_today Q) = need_date Q (fq_today Q)"
  "d \<in> set (date_texts a) \<Longrightarrow> need_date (narrowed a Q) d = need_date Q d"
  by (simp_all add: narrowed_def need_date_def)

lemma narrowed_copies: "duplicate_each (narrowed (OpDuplicate js d) Q) n v d is k db = duplicate_each Q n v d is k db"
proof -
  have "copy_txn (narrowed (OpDuplicate js d) Q) E v d i db = copy_txn Q E v d i db" for E i db
    by (simp add: copy_txn_def cong: option.case_cong)
  then show ?thesis by (induction "is" arbitrary: n k db) (simp_all cong: sum.case_cong)
qed

lemma narrowed_daily: "run_each (narrowed a Q) n rs db = run_each Q n rs db"
proof -
  have "post_recurring (narrowed a Q) E r db = post_recurring Q E r db" for E r db by (simp add: post_recurring_def)
  then have "run_recurring (narrowed a Q) E r db = run_recurring Q E r db" for E r db unfolding run_recurring_def by (simp only: narrowed_sel)
  then show ?thesis by (induction rs arbitrary: n db) simp_all
qed

lemma narrowed_run: "run_op (narrowed a Q) u a db = run_op Q u a db"
proof (cases a)
  case (OpCreate p)
  have "insert_tx (narrowed a Q) v p c (if tc_date p = [] then fq_today Q else tc_date p) st db
      = insert_tx Q v p c (if tc_date p = [] then fq_today Q else tc_date p) st db" for v c st
    by (simp add: insert_tx_def OpCreate)
  then show ?thesis unfolding OpCreate run_op.simps CreateTransaction_def Let_def by (simp only: OpCreate narrowed_sel)
next
  case (OpUpdate i p)
  have "update_txn_stmt (narrowed a Q) v i t p db = update_txn_stmt Q v i t p db" for v t
    by (simp add: update_txn_stmt_def OpUpdate split: option.split)
  then show ?thesis unfolding OpUpdate run_op.simps UpdateTransaction_def Let_def by (simp only: OpUpdate narrowed_sel)
next
  case (OpRecurring e p)
  have "add_recurring (narrowed a Q) v p db = add_recurring Q v p db" for v
    by (cases "rp_end p"; cases "rp_start p = []") (simp_all add: add_recurring_def OpRecurring Let_def)
  then show ?thesis unfolding OpRecurring run_op.simps CreateRecurring_def Let_def by (simp only: OpRecurring narrowed_sel)
qed (simp_all add: CreateWallet_def UpdateWallet_def DeleteWallet_def CreateCategory_def DeleteCategory_def DeleteTransaction_def
    ApproveTransaction_def UpdateApprovalSetting_def LockPeriod_def DuplicateTransactions_def narrowed_copies CreateTransactionType_def
    UpdateTransactionType_def DeleteTransactionType_def DeleteRecurring_def processRecurringForTenant_def narrowed_daily Let_def)

lemma narrowed_months:
  assumes "reads_iso Q" "iso_request a" "fq_date Q [] = None"
  shows "month_dates (narrowed a Q)"
proof -
  have "7 \<le> length d \<and> take 7 d = walletPeriod P d" if "iso_date d" for d P
    using that parse_format[of d] by (auto simp: iso_date_def walletPeriod_def format_ymd_def zero_pad_def)
  then show ?thesis using assms by (auto simp: month_dates_def narrowed_def reads_iso_def iso_request_def)
qed

fun narrow_all :: "(fin_req \<times> AuthUser option \<times> fin_op) list \<Rightarrow> (fin_req \<times> AuthUser option \<times> fin_op) list" where
  "narrow_all [] = []"
| "narrow_all ((Q, u, a) # h) = (narrowed a Q, u, a) # narrow_all h"

lemma narrow_all_run: "run_history (narrow_all h) db = run_history h db"
  by (induction h arbitrary: db rule: narrow_all.induct) (simp_all add: narrowed_run)

lemma narrow_all_members: "x \<in> set (narrow_all h) \<Longrightarrow> \<exists>Q u a. (Q, u, a) \<in> set h \<and> x = (narrowed a Q, u, a)"
  by (induction h rule: narrow_all.induct) auto

section \<open>A small shop\<close>

definition desk_row :: "string \<Rightarrow> string \<Rightarrow> string \<Rightarrow> string \<Rightarrow> fin_txn" where
  "desk_row i d st w = \<lparr>ft_id = i, ft_type = ''biaya'', ft_amount = 100, ft_wallet = ''kas'', ft_to = None, ft_category = None, ft_desc = None,
     ft_ref = None, ft_date = d, ft_status = st, ft_by = w, ft_deleted = False\<rparr>"

definition desk_type :: "string \<Rightarrow> TransactionType" where
  "desk_type flow = \<lparr>tt_id = ''y1'', tt_code = ''biaya'', tt_label = ''Biaya'', tt_flow = flow, tt_kind = ''any'', tt_quick = False, tt_order = 0,
     tt_system = False, tt_owner = False, tt_active = True, tt_deleted = False\<rparr>"

definition sample_desk :: book_db where
  "sample_desk = sample_ledger\<lparr>txn_types := [desk_type ''expense''], approval := Some \<lparr>ac_enabled = True, ac_threshold = None, ac_types = []\<rparr>,
     bk := sample_books\<lparr>txns := [desk_row ''t1'' ''2025-12-30'' ''approved'' ''u'', desk_row ''t2'' ''2026-01-30'' ''pending_approval'' ''s''],
       wallet_balance := [''kas'' \<mapsto> 400], type_flows := live_flows [desk_type ''expense''], period_locks := [''2025-12'']\<rparr>\<rparr>"

definition desk_user :: "string \<Rightarrow> string \<Rightarrow> AuthUser" where
  "desk_user i role = \<lparr>AccountID = i, TenantSchema = ''t'', Role = role, Impersonating = False, ImpersonationModules = []\<rparr>"

lemma desk_users: "mustUser (Some (desk_user i role)) = Inr (desk_user i role)" "isOwner (desk_user i ''owner'')" "\<not> isOwner (desk_user i ''staff'')"
  by (simp_all add: mustUser_def desk_user_def HasEffectiveTenantContext_def RequireModule_def isOwner_def CanPerformOwnerActions_def)

lemma desk_calm: "calm sample_day"
  by (auto simp: calm_def sample_day_def sample_env_def refresh_ok_def)

lemma desk_iso: "reads_iso sample_day" "fq_date sample_day [] = None"
proof -
  have "length d = 10" if "iso_date d" for d using that by (auto simp: iso_date_def parse_ymd_def parse_date_def split: if_splits)
  moreover have "iso_date ''2026-01-31''" using sample_date by (simp add: iso_date_def)
  ultimately show "reads_iso sample_day" "fq_date sample_day [] = None" by (simp_all add: reads_iso_def sample_day_def)
qed

lemma desk_sel:
  "txns (bk sample_desk) = [desk_row ''t1'' ''2025-12-30'' ''approved'' ''u'', desk_row ''t2'' ''2026-01-30'' ''pending_approval'' ''s'']"
  "wallets (bk sample_desk) = wallets sample_books" "type_flows (bk sample_desk) ''biaya'' = Some ''expense''"
  "period_locks (bk sample_desk) = [''2025-12'']" "wallet_balance (bk sample_desk) = [''kas'' \<mapsto> 400]"
  by (simp_all add: sample_desk_def live_flows_def desk_type_def)

lemma desk_balanced: "balanced (bk sample_desk)" "dated (bk sample_desk)"
proof -
  have "wallet_ok (bk sample_desk) w" for w
    by (simp add: wallet_ok_def find_wallet_def wallet_net_def counts_for_def credit_def debit_def txn_flow_def desk_sel desk_row_def sample_books_def)
  then show "balanced (bk sample_desk)" "dated (bk sample_desk)"
    by (simp_all add: balanced_def dated_def desk_sel desk_row_def sample_books_def)
qed

section \<open>Properties\<close>

text \<open>C25: Through every history of finance requests and daily runs - wallets, categories, transactions, edits,
deletions, approvals, duplicates, type changes, recurring postings, whichever succeed or fail - every wallet's
stored balance stays its initial balance plus the approved live income, transfers and adjustments minus the
expenses, provided no refresh is lost, a new wallet takes an unused identifier and a change of the transaction
types leaves the flow of the stored rows as it is.\<close>

theorem balances_follow_books:
  assumes "balanced (bk db)" "history_ok unused flows_kept calm h db" "find_wallet (bk (run_history h db)) w = Some r"
  shows "wallet_balance (bk (run_history h db)) w = Some (wl_initial r + wallet_net (bk (run_history h db)) w)"
proof -
  have "balanced (bk (run_history h db))" using balance.full_history_RR[OF assms(2)] assms(1) by simp
  then have "wallet_ok (bk (run_history h db)) w" by (simp add: balanced_def)
  with assms(3) show ?thesis by (simp add: wallet_ok_def)
qed

text \<open>C26: A locked period is frozen: whatever requests and daily runs follow, short of approvals, and whichever statements
fail, the period stays locked and its transactions are the same rows, as long as every date text that a request sends is
empty or a date in ISO form (YYYY-MM-DD), which PostgreSQL reads as itself; it reads no date from an empty text.\<close>

theorem locked_period_frozen:
  assumes "\<forall>(Q, u, a)\<in>set h. reads_iso Q \<and> fq_date Q [] = None \<and> iso_request a \<and> \<not> reviews a"
    and "P \<in> set (period_locks (bk db))" "dated (bk db)"
  shows "P \<in> set (period_locks (bk (run_history h db))) \<and> closed_rows P (bk (run_history h db)) = closed_rows P (bk db)"
proof -
  have m: "\<forall>(Q, u, a)\<in>set (narrow_all h). month_dates Q \<and> \<not> reviews a"
    using assms(1) narrowed_months by (auto dest!: narrow_all_members)
  then have "history_ok (\<lambda>_ _. True) (\<lambda>_ _. True) month_dates (narrow_all h) db" by (intro any_history) auto
  then have "freeze P (bk db) (bk (run_history (narrow_all h) db))" using m by (intro lock.history_RR) auto
  then show ?thesis using assms(2,3) by (simp add: freeze_def narrow_all_run)
qed

text \<open>C30: Approval does not look at the period lock: for any list of locked periods the reply of \<open>ApproveTransaction\<close> and
everything it writes are the same, so a pending transaction of a locked period is approved and enters the balances.\<close>

theorem approval_ignores_locks:
  "ApproveTransaction Q u i action reason (with_locks L db) = map_prod id (with_locks L) (ApproveTransaction Q u i action reason db)"
  unfolding ApproveTransaction_def Let_def with_locks_sel by (intro try_locks) (simp add: refresh_bk_locks)

text \<open>C28: What a member of the staff can change by \<open>UpdateTransaction\<close>: a row that becomes another one was entered by
that person, is live, a draft, pending or rejected, and in an open period; it keeps its amount, type, wallets and status,
and no wallet balance changes. That rejected rows can be edited is what the code does; its comment and
\<open>docs/FINANCE_MODULE.md\<close> name drafts and pending rows only.\<close>

theorem staff_edit_limits:
  assumes "mustUser u = Inr v" "\<not> isOwner v" "distinct (map ft_id (txns (bk db)))"
    and "t \<in> set (txns (bk db))" "t' \<in> set (txns (bk (snd (UpdateTransaction Q u i p db))))" "ft_id t' = ft_id t" "t' \<noteq> t"
  shows "ft_by t = AccountID v \<and> \<not> ft_deleted t \<and> ft_status t \<in> {''draft'', ''pending_approval'', ''rejected''} \<and> unlocked Q (bk db) (ft_date t)
    \<and> ft_amount t' = ft_amount t \<and> ft_type t' = ft_type t \<and> ft_wallet t' = ft_wallet t \<and> ft_to t' = ft_to t \<and> ft_status t' = ft_status t
    \<and> wallet_balance (bk (snd (UpdateTransaction Q u i p db))) = wallet_balance (bk db)"
  using assms(1)
proof (cases rule: UpdateTransactionE[where Q = Q and i = i and p = p and db = db])
  case same
  then show ?thesis using assms(3-7) by (metis (no_types) distinct_map inj_onD)
next
  case (edited s date db1)
  have may: "ft_by s = AccountID v" "ft_status s \<in> {''draft'', ''pending_approval'', ''rejected''}"
    using edited(2) assms(2) by (auto simp: may_edit_def guard_def split: if_splits)
  then have r: "snd (UpdateTransaction Q u i p db) = db1" using edited(5) by auto
  note live = balance.found_row[OF edited(1)]
  obtain x where x: "x \<in> set (txns (bk db))" "t' = (if ft_id x = i then edit_txn (fq_env Q 0) v p date x else x)"
    using assms(5) by (auto simp: r edited(4) on_row_def)
  have id: "ft_id (edit_txn (fq_env Q 0) v p date x) = ft_id x" by (simp add: edit_txn_def)
  then have "ft_id x = ft_id t" using x(2) assms(6) by (simp split: if_splits)
  then have "x = t" using assms(3,4) x(1) by (auto simp: distinct_map inj_on_def)
  then have t': "ft_id t = i" "t' = edit_txn (fq_env Q 0) v p date t" using x(2) assms(7) by (auto split: if_splits)
  then have "t = s" using only_row[OF assms(3) live assms(4)] by simp
  with may edited(3) live show ?thesis
    by (simp add: t'(2) edit_txn_def new_amount_def assms(2) or_keep_def live_row_def r edited(4))
qed

text \<open>A transaction that the approval setting covers waits when a member of the staff enters it: it is stored as
pending, under that person's name, and no wallet balance changes.\<close>

theorem staff_posting_waits:
  assumes "mustUser u = Inr v" "\<not> isOwner v" "approval db = Some cfg" "staffNeedsApproval cfg (tc_type p) (tc_amount p)"
    and "CreateTransaction Q u p db = (Inr (i, st), db')"
  shows "st = ''pending_approval'' \<and> wallet_balance (bk db') = wallet_balance (bk db)
    \<and> (\<exists>t. txns (bk db') = txns (bk db) @ [t] \<and> ft_id t = i \<and> ft_status t = ''pending_approval'' \<and> ft_by t = AccountID v)"
proof (rule CreateTransactionE[OF assms(1,5)])
  fix c date db1
  assume s: "txn_status (fq_env Q 0) db v p = Inr st" and i: "insert_tx Q v p c date st db = Inr (i, db1)"
    and d: "db' = (if st = ''approved'' then refresh_bk (fq_env Q 0) (tc_wallet p) (tc_to p) db1 else db1)"
  have "st = ''pending_approval''" using s assms(2-4) by (simp add: txn_status_def loadApprovalConfig_def res_simps)
  with d show ?thesis by (auto intro: balance.insert_txE[OF i])
qed

text \<open>What a wallet spent on a type: its approved live transactions of that type.\<close>

definition spent_on :: "fin_db \<Rightarrow> string \<Rightarrow> string \<Rightarrow> int" where
  "spent_on fd code w = (\<Sum>t\<leftarrow>[t \<leftarrow> txns fd. counts_for w t]. if ft_type t = code \<and> ft_wallet t = w then ft_amount t else 0)"

lemma shifted_sums:
  fixes f g f' g' h :: "'a \<Rightarrow> int"
  assumes "\<And>t. f' t - g' t = f t - g t + 2 * h t"
  shows "sum_list (map f' ts) - sum_list (map g' ts) = sum_list (map f ts) - sum_list (map g ts) + 2 * sum_list (map h ts)"
proof (induction ts)
  case (Cons t ts)
  then show ?case using assms[of t] by (simp add: algebra_simps)
qed simp

lemma find_map_kept: "(\<And>x. P (g x) = P x) \<Longrightarrow> find P (map g xs) = map_option g (find P xs)"
  by (induction xs) auto

definition retypes :: "string \<Rightarrow> (string \<Rightarrow> string) \<Rightarrow> book_db \<Rightarrow> book_db \<Rightarrow> bool" where
  "retypes i h a b \<longleftrightarrow> (\<exists>g. txn_types b = map g (txn_types a)
       \<and> (\<forall>t. tt_id (g t) = tt_id t \<and> tt_code (g t) = tt_code t \<and> tt_deleted (g t) = tt_deleted t
              \<and> tt_flow (g t) = (if tt_id t = i then h (tt_flow t) else tt_flow t)))
     \<and> (type_flows (bk a) = live_flows (txn_types a) \<longrightarrow> bk b = (bk a)\<lparr>type_flows := live_flows (txn_types b)\<rparr>)"

lemma retypes_write:
  assumes "retypes i h a b" "\<And>x t. tt_id (f x t) = tt_id t \<and> tt_code (f x t) = tt_code t \<and> tt_deleted (f x t) = tt_deleted t"
    and "\<And>x t. v = Some x \<Longrightarrow> tt_flow (f x t) = (if db_fails E l then tt_flow (f x t) else k (tt_flow t))"
    and "h' = (if v = None \<or> db_fails E l then h else k \<circ> h)"
  shows "retypes i h' a (write_type E l i v f b)"
proof (cases "v = None \<or> db_fails E l")
  case True
  then show ?thesis using assms(1,4) by (auto simp: write_type_def split: option.split)
next
  case False
  then obtain x where x: "v = Some x" "\<not> db_fails E l" by auto
  obtain g where g: "txn_types b = map g (txn_types a)" "\<forall>t. tt_id (g t) = tt_id t \<and> tt_code (g t) = tt_code t \<and> tt_deleted (g t) = tt_deleted t
      \<and> tt_flow (g t) = (if tt_id t = i then h (tt_flow t) else tt_flow t)"
    and bk: "type_flows (bk a) = live_flows (txn_types a) \<longrightarrow> bk b = (bk a)\<lparr>type_flows := live_flows (txn_types b)\<rparr>"
    using assms(1) by (auto simp: retypes_def)
  let ?g = "\<lambda>t. if tt_id t = i then f x (g t) else g t"
  have "txn_types (write_type E l i v f b) = map ?g (txn_types a)" using x g by (simp add: write_type_def set_types_def)
  moreover have "tt_id (?g t) = tt_id t \<and> tt_code (?g t) = tt_code t \<and> tt_deleted (?g t) = tt_deleted t
      \<and> tt_flow (?g t) = (if tt_id t = i then h' (tt_flow t) else tt_flow t)" for t
    using g(2) assms(2) assms(3)[OF x(1)] assms(4) x by simp
  moreover have "type_flows (bk a) = live_flows (txn_types a) \<longrightarrow>
      bk (write_type E l i v f b) = (bk a)\<lparr>type_flows := live_flows (txn_types (write_type E l i v f b))\<rparr>"
    using bk x by (simp add: write_type_def set_types_def)
  ultimately show ?thesis unfolding retypes_def by blast
qed

text \<open>A successful change of a type that is not a system type stores the new flow.\<close>

lemma UpdateTransactionType_retypes:
  assumes "UpdateTransactionType Q u i p db = (Inr y, db')" "yu_flow p = Some f" "\<not> db_fails (fq_env Q 0) ''type.flow''"
    and "find (\<lambda>t. tt_id t = i \<and> \<not> tt_deleted t) (txn_types db) = Some ty" "\<not> tt_system ty"
  shows "retypes i (\<lambda>_. f) db db'"
proof -
  let ?E = "fq_env Q 0"
  let ?d1 = "write_type ?E ''type.label'' i (yu_label p) (\<lambda>l t. t\<lparr>tt_label := trim_space l\<rparr>) db"
  let ?d2 = "write_type ?E ''type.flow'' i (Some f) (\<lambda>f t. t\<lparr>tt_flow := f\<rparr>) ?d1"
  let ?d3 = "write_type ?E ''type.kind'' i (yu_kind p) (\<lambda>k t. t\<lparr>tt_kind := k\<rparr>) ?d2"
  let ?d4 = "write_type ?E ''type.quick'' i (yu_quick p) (\<lambda>b t. t\<lparr>tt_quick := b\<rparr>) ?d3"
  let ?d5 = "write_type ?E ''type.order'' i (yu_order p) (\<lambda>k t. t\<lparr>tt_order := k\<rparr>) ?d4"
  have "db' = write_type ?E ''type.active'' i (yu_active p) (\<lambda>b t. t\<lparr>tt_active := b\<rparr>) ?d5"
    using assms(1,2,4,5) unfolding UpdateTransactionType_def Let_def try_reply_Inr by (auto simp: loadTransactionTypeByID_def split: if_splits)
  moreover have "retypes i id db db" unfolding retypes_def by (intro conjI exI[of _ id]) simp_all
  then have "retypes i id db ?d1" by (rule retypes_write[where k = id]) simp_all
  then have "retypes i (\<lambda>_. f) db ?d2" by (rule retypes_write[where k = "\<lambda>_. f"]) (use assms(3) in auto)
  then have "retypes i (\<lambda>_. f) db ?d3" by (rule retypes_write[where k = id]) simp_all
  then have "retypes i (\<lambda>_. f) db ?d4" by (rule retypes_write[where k = id]) simp_all
  then have "retypes i (\<lambda>_. f) db ?d5" by (rule retypes_write[where k = id]) simp_all
  then have "retypes i (\<lambda>_. f) db (write_type ?E ''type.active'' i (yu_active p) (\<lambda>b t. t\<lparr>tt_active := b\<rparr>) ?d5)"
    by (rule retypes_write[where k = id]) simp_all
  ultimately show ?thesis by simp
qed

text \<open>C31: A change of a type's flow leaves the balances stale. When an owner makes income of an expense type, no balance is
refreshed: every wallet keeps the stored balance it had, while what it should hold grows by twice what it spent on that
type, so balances that followed the books are too small by that amount.\<close>

theorem type_change_leaves_stale_balances:
  assumes "UpdateTransactionType Q u i p db = (Inr y, db')" "yu_flow p = Some ''income''" "\<not> db_fails (fq_env Q 0) ''type.flow''"
    and "find (\<lambda>t. tt_id t = i \<and> \<not> tt_deleted t) (txn_types db) = Some ty" "\<not> tt_system ty" "tt_flow ty = ''expense''"
    and "distinct (map tt_id (txn_types db))" "find (\<lambda>t. tt_code t = tt_code ty \<and> \<not> tt_deleted t) (txn_types db) = Some ty"
    and "type_flows (bk db) = live_flows (txn_types db)" "balanced (bk db)" "find_wallet (bk db) w = Some r"
  shows "wallet_balance (bk db') = wallet_balance (bk db) \<and> wallets (bk db') = wallets (bk db)
    \<and> wallet_balance (bk db') w = Some (wl_initial r + wallet_net (bk db') w - 2 * spent_on (bk db) (tt_code ty) w)"
proof -
  from UpdateTransactionType_retypes[OF assms(1-5)] obtain g where g: "txn_types db' = map g (txn_types db)"
      "\<And>t. tt_id (g t) = tt_id t \<and> tt_code (g t) = tt_code t \<and> tt_deleted (g t) = tt_deleted t
         \<and> tt_flow (g t) = (if tt_id t = i then ''income'' else tt_flow t)"
    and bk: "bk db' = (bk db)\<lparr>type_flows := live_flows (txn_types db')\<rparr>"
    using assms(9) by (auto simp: retypes_def)
  have ty: "ty \<in> set (txn_types db)" "tt_id ty = i" using assms(4) by (auto simp: find_Some_iff)
  have flows: "live_flows (txn_types db') c = (if c = tt_code ty then Some ''income'' else live_flows (txn_types db) c)" for c
  proof (cases "find (\<lambda>t. tt_code t = c \<and> \<not> tt_deleted t) (txn_types db)")
    case None
    then have "c \<noteq> tt_code ty" using assms(8) by auto
    then show ?thesis using None by (simp add: live_flows_def g find_map_kept)
  next
    case (Some t)
    then have "t \<in> set (txn_types db)" "tt_code t = c" by (auto simp: find_Some_iff)
    then have "t = ty" if "tt_id t = i" using assms(7) ty that by (auto simp: distinct_map inj_on_def)
    moreover have "t = ty" if "c = tt_code ty" using assms(8) Some that by simp
    ultimately have "tt_id t = i \<longleftrightarrow> c = tt_code ty" using ty(2) \<open>tt_code t = c\<close> by blast
    then show ?thesis using Some by (simp add: live_flows_def g find_map_kept)
  qed
  have flow: "txn_flow (bk db') t = (if ft_type t = tt_code ty then ''income'' else txn_flow (bk db) t)" for t
    by (simp add: txn_flow_def bk flows assms(9))
  have was: "txn_flow (bk db) t = ''expense''" if "ft_type t = tt_code ty" for t
    using that assms(6,8,9) by (simp add: txn_flow_def live_flows_def)
  have net: "credit (bk db') w t - debit (bk db') w t = credit (bk db) w t - debit (bk db) w t
      + 2 * (if ft_type t = tt_code ty \<and> ft_wallet t = w then ft_amount t else 0)" for t
    by (simp add: credit_def debit_def flow was)
  note sums = shifted_sums[OF net]
  have "txns (bk db') = txns (bk db)" using bk by simp
  then have "wallet_net (bk db') w = wallet_net (bk db) w + 2 * spent_on (bk db) (tt_code ty) w"
    unfolding wallet_net_def spent_on_def by (simp add: sums)
  moreover have "wallet_balance (bk db) w = Some (wl_initial r + wallet_net (bk db) w)"
    using assms(10,11) unfolding balanced_def wallet_ok_def by (auto dest: spec[of _ w])
  ultimately show ?thesis by (simp add: bk)
qed

section \<open>Witnesses\<close>

lemma desk_approval: "snd (ApproveTransaction sample_day (Some (desk_user ''u'' ''owner'')) ''t2'' ''approve'' [] sample_desk)
    = refresh_bk sample_env ''kas'' None (write_txn ''t2'' (\<lambda>t. t\<lparr>ft_status := ''approved''\<rparr>)
        (\<lambda>x. x\<lparr>ti_approver := Some ''u'', ti_approved := Some 7, ti_reason := None\<rparr>) sample_desk)"
proof -
  have "find_txn_row sample_desk ''t2'' = Some (desk_row ''t2'' ''2026-01-30'' ''pending_approval'' ''s'')"
    by (simp add: find_txn_row_def desk_sel desk_row_def)
  then show ?thesis
    by (simp add: ApproveTransaction_def Let_def desk_users assertOwner_def sample_day_def guard_def sql_def desk_row_def
        sample_env_def[THEN arg_cong[of _ _ db_fails]] sample_env_def[THEN arg_cong[of _ _ db_now]] desk_user_def[THEN arg_cong[of _ _ AccountID]])
qed

theorem balances_follow_books_witness:
  "wallet_balance (bk (run_history [(sample_day, Some (desk_user ''u'' ''owner''), OpApprove ''t2'' ''approve'' [])] sample_desk)) ''kas'' = Some 300"
proof -
  let ?h = "[(sample_day, Some (desk_user ''u'' ''owner''), OpApprove ''t2'' ''approve'' [])]"
  define fd where "fd = bk (run_history ?h sample_desk)"
  have rows: "txns fd = [desk_row ''t1'' ''2025-12-30'' ''approved'' ''u'', desk_row ''t2'' ''2026-01-30'' ''approved'' ''s'']"
    "wallets fd = wallets sample_books" "type_flows fd ''biaya'' = Some ''expense''"
    by (simp_all add: fd_def desk_approval refresh_bk_def set_bk_def refresh_keeps write_txn_def desk_sel) (simp add: desk_row_def)
  have "history_ok unused flows_kept calm ?h sample_desk" by (simp add: desk_calm)
  moreover obtain r where r: "find_wallet fd ''kas'' = Some r" "wl_initial r = 500" by (simp add: find_wallet_def rows sample_books_def)
  ultimately have "wallet_balance fd ''kas'' = Some (wl_initial r + wallet_net fd ''kas'')"
    unfolding fd_def by (intro balances_follow_books desk_balanced)
  also have "wallet_net fd ''kas'' = -200"
    by (simp add: wallet_net_def rows counts_for_def credit_def debit_def txn_flow_def desk_row_def)
  finally show ?thesis by (simp only: fd_def[symmetric] r(2)) simp
qed

theorem type_change_leaves_stale_balances_witness:
  "\<exists>p y db'. UpdateTransactionType sample_day (Some (desk_user ''u'' ''owner'')) ''y1'' p sample_desk = (Inr y, db')
     \<and> wallet_balance (bk db') ''kas'' = Some 400 \<and> spent_on (bk sample_desk) ''biaya'' ''kas'' = 100
     \<and> wallet_balance (bk db') ''kas'' = Some (500 + wallet_net (bk db') ''kas'' - 2 * 100)"
proof -
  let ?p = "\<lparr>yu_label = None, yu_flow = Some ''income'', yu_kind = None, yu_quick = None, yu_order = None, yu_active = None\<rparr>"
  have run: "UpdateTransactionType sample_day (Some (desk_user ''u'' ''owner'')) ''y1'' ?p sample_desk
      = (Inr (desk_type ''income''), set_types [desk_type ''income''] sample_desk)"
    by (simp add: UpdateTransactionType_def Let_def desk_users assertOwner_def sample_day_def sample_env_def sql_def guard_def
        loadTransactionTypeByID_def write_type_def validTxnFlows_def sample_desk_def desk_type_def set_types_def)
  have d: "txn_types sample_desk = [desk_type ''expense'']" "type_flows (bk sample_desk) = live_flows (txn_types sample_desk)"
    "\<not> db_fails (fq_env sample_day 0) ''type.flow''"
    by (simp_all add: sample_desk_def sample_day_def sample_env_def)
  have t: "tt_id (desk_type f) = ''y1''" "tt_code (desk_type f) = ''biaya''" "\<not> tt_deleted (desk_type f)" "\<not> tt_system (desk_type f)"
    "tt_flow (desk_type f) = f" for f by (simp_all add: desk_type_def)
  obtain r where r: "find_wallet (bk sample_desk) ''kas'' = Some r" "wl_initial r = 500" by (simp add: find_wallet_def desk_sel sample_books_def)
  have sp: "spent_on (bk sample_desk) ''biaya'' ''kas'' = 100" by (simp add: spent_on_def desk_sel counts_for_def desk_row_def)
  have w: "wallet_balance (bk (set_types [desk_type ''income''] sample_desk)) = wallet_balance (bk sample_desk)"
    "wallet_balance (bk (set_types [desk_type ''income''] sample_desk)) ''kas''
      = Some (500 + wallet_net (bk (set_types [desk_type ''income''] sample_desk)) ''kas'' - 2 * 100)"
    using type_change_leaves_stale_balances[OF run, of "desk_type ''expense''" "''kas''" r] desk_balanced(1) d t r sp by auto
  show ?thesis by (intro exI conjI, rule run) (use w desk_sel(5) sp in simp_all)
qed

theorem locked_period_frozen_witness:
  "closed_rows ''2025-12'' (bk (run_history [(sample_day, Some (desk_user ''u'' ''owner''), OpDelete ''t1'')] sample_desk))
   = [desk_row ''t1'' ''2025-12-30'' ''approved'' ''u'']"
proof -
  have "closed_rows ''2025-12'' (bk (run_history [(sample_day, Some (desk_user ''u'' ''owner''), OpDelete ''t1'')] sample_desk))
      = closed_rows ''2025-12'' (bk sample_desk)"
    using locked_period_frozen[of "[(sample_day, Some (desk_user ''u'' ''owner''), OpDelete ''t1'')]" "''2025-12''" sample_desk]
    by (simp add: desk_iso iso_request_def desk_balanced desk_sel)
  then show ?thesis by (simp add: closed_rows_def desk_sel desk_row_def)
qed

text \<open>A row that was rejected, edited by the member of the staff who entered it.\<close>

definition rejected_desk :: book_db where
  "rejected_desk = sample_desk\<lparr>bk := (bk sample_desk)\<lparr>txns := [desk_row ''t2'' ''2026-01-30'' ''rejected'' ''s'']\<rparr>\<rparr>"

theorem staff_edit_limits_witness:
  "\<exists>t t' p. t \<in> set (txns (bk rejected_desk)) \<and> t' \<noteq> t \<and> ft_id t' = ft_id t
     \<and> t' \<in> set (txns (bk (snd (UpdateTransaction sample_day (Some (desk_user ''s'' ''staff'')) ''t2'' p rejected_desk))))
     \<and> ft_by t = ''s'' \<and> ft_status t = ''rejected'' \<and> ft_amount t' = ft_amount t"
proof -
  let ?p = "\<lparr>tu_category = None, tu_desc = Some ''x'', tu_notes = None, tu_ref = None, tu_date = None, tu_amount = Some 7, tu_tags = None\<rparr>"
  let ?t = "desk_row ''t2'' ''2026-01-30'' ''rejected'' ''s''" and ?u = "desk_user ''s'' ''staff''"
  have d: "txns (bk rejected_desk) = [?t]" "period_locks (bk rejected_desk) = period_locks (bk sample_desk)"
    by (simp_all add: rejected_desk_def)
  have f: "find_txn_row rejected_desk ''t2'' = Some ?t" by (simp add: find_txn_row_def d desk_row_def)
  have Q: "fq_env sample_day n = sample_env" "fq_period sample_day = ''2026-01''" "\<not> db_fails sample_env l" "AccountID ?u = ''s''" for n l
    by (simp_all add: sample_day_def sample_env_def desk_user_def)
  have e: "edit_txn sample_env ?u ?p None ?t = ?t\<lparr>ft_desc := Some ''x''\<rparr>"
    by (simp add: edit_txn_def new_amount_def desk_users or_keep_def desk_row_def)
  have "bk (snd (UpdateTransaction sample_day (Some ?u) ''t2'' ?p rejected_desk)) = on_row ''t2'' (edit_txn sample_env ?u ?p None) (bk rejected_desk)"
    by (simp add: UpdateTransaction_def Let_def desk_users Q f sql_def may_edit_def guard_def ensurePeriodUnlocked_def periodLocked_def
        walletPeriod_def d desk_sel new_amount_def in_tx_def update_txn_stmt_def row_check_def income_ref_taken_def e amount_check_def
        balance.write_txn_bk) (simp add: desk_row_def)
  then have "?t\<lparr>ft_desc := Some ''x''\<rparr> \<in> set (txns (bk (snd (UpdateTransaction sample_day (Some ?u) ''t2'' ?p rejected_desk))))"
    using e by (simp add: on_row_def d) (simp add: desk_row_def)
  moreover have "?t \<in> set (txns (bk rejected_desk))" "?t\<lparr>ft_desc := Some ''x''\<rparr> \<noteq> ?t" "ft_id (?t\<lparr>ft_desc := Some ''x''\<rparr>) = ft_id ?t"
    "ft_status ?t = ''rejected''" "distinct (map ft_id (txns (bk rejected_desk)))"
    by (simp_all add: d) (simp_all add: desk_row_def)
  ultimately show ?thesis
    using staff_edit_limits[OF desk_users(1) desk_users(3), of rejected_desk ?t] Q(4) by metis
qed

theorem staff_posting_waits_witness:
  "\<exists>p i st db'. CreateTransaction sample_day (Some (desk_user ''s'' ''staff'')) p sample_desk = (Inr (i, st), db')
     \<and> st = ''pending_approval'' \<and> wallet_balance (bk db') = wallet_balance (bk sample_desk)"
proof -
  let ?p = "\<lparr>tc_type = ''biaya'', tc_amount = 7, tc_currency = [], tc_wallet = ''kas'', tc_to = None, tc_category = None, tc_desc = None,
    tc_notes = None, tc_ref = None, tc_date = [], tc_tags = []\<rparr>" and ?u = "desk_user ''s'' ''staff''"
  have Q: "fq_env sample_day n = sample_env" "fq_period sample_day = ''2026-01''" "\<not> db_fails sample_env l" "fq_today sample_day = ''2026-01-31''"
    "fq_date sample_day ''2026-01-31'' = Some ''2026-01-31''" "db_uuid sample_env 0 = ''u''" "db_money sample_env 7 = 700" for n l
    by (simp_all add: sample_day_def sample_env_def floor_eq_iff)
  have d: "find_wallet (bk sample_desk) ''kas'' = Some (hd (wallets sample_books))" "winfo sample_desk = Map.empty" "fin_next (bk sample_desk) = 0"
    "txn_types sample_desk = [desk_type ''expense'']" "approval sample_desk = Some \<lparr>ac_enabled = True, ac_threshold = None, ac_types = []\<rparr>"
    by (simp_all add: find_wallet_def desk_sel sample_books_def) (simp_all add: sample_desk_def sample_ledger_def sample_books_def)
  have tr: "trim_space ''biaya'' = ''biaya''" by code_simp
  have "\<exists>i st db'. CreateTransaction sample_day (Some ?u) ?p sample_desk = (Inr (i, st), db')"
    by (simp add: CreateTransaction_def Let_def desk_users Q validateCreateTransaction_def tr sql_def loadTransactionTypeByCode_def d
        desk_type_def assertWalletAccessible_def sample_books_def guard_def txn_status_def loadApprovalConfig_def staffNeedsApproval_def
        ensurePeriodUnlocked_def periodLocked_def walletPeriod_def desk_sel in_tx_def insert_tx_def need_date_def add_txn_def row_check_def
        income_ref_taken_def amount_check_def desk_row_def)
  then obtain i st db' where "CreateTransaction sample_day (Some ?u) ?p sample_desk = (Inr (i, st), db')" by blast
  moreover have "staffNeedsApproval \<lparr>ac_enabled = True, ac_threshold = None, ac_types = []\<rparr> (tc_type ?p) (tc_amount ?p)"
    by (simp add: staffNeedsApproval_def)
  ultimately show ?thesis using staff_posting_waits[OF desk_users(1,3) d(5), of ?p] by metis
qed

end
