(* ===== verification/Event_Clock.thy ===== *)
theory Event_Clock
  imports Recurring "HOL-Library.Word"
begin

text \<open>
  Times of day and the slots of a day (\<open>events/slots.go\<close>, \<open>events/event.go\<close>, \<open>events/therapy_schedule.go\<close>,
  \<open>events/slot_booking.go\<close>), and that the two loops that cut a day into slots and an event into days end.

  A value of Go's \<open>time.Time\<close> that comes from a layout without a date is a moment of 1 January of the year
  0; it is the number of nanoseconds since the beginning of that year. The zero value of \<open>time.Time\<close>, which
  a failed \<open>time.Parse\<close> returns, is the beginning of the year 1, and the year 0 has 366 days.
\<close>

section \<open>Reading and printing times of day\<close>

type_synonym gotime = int

definition day_ns :: int where "day_ns = 86400 * 10 ^ 9"

definition zero_time :: gotime where "zero_time = 366 * day_ns"

text \<open>One or two digits, as \<open>getnum\<close> of package \<open>time\<close> reads them; two when \<open>fixed\<close>.\<close>

definition getnum :: "bool \<Rightarrow> string \<Rightarrow> (nat \<times> string) option" where
  "getnum fixed s = (case s of
       c # d # r \<Rightarrow> if \<not> is_digit c then None
         else if is_digit d then Some (undigits 0 [c, d], r)
         else if fixed then None else Some (undigits 0 [c], d # r)
     | [c] \<Rightarrow> if is_digit c \<and> \<not> fixed then Some (undigits 0 [c], []) else None
     | [] \<Rightarrow> None)"

definition skip :: "char \<Rightarrow> string \<Rightarrow> string option" where
  "skip c s = (case s of [] \<Rightarrow> None | d # r \<Rightarrow> if d = c then Some r else None)"

text \<open>A fraction of a second that the layout does not mention is read all the same.\<close>

definition fraction :: "string \<Rightarrow> nat \<times> string" where
  "fraction s = (case s of
       c # d # r \<Rightarrow> if (c = CHR ''.'' \<or> c = CHR '','') \<and> is_digit d
         then (let ds = take 9 (takeWhile is_digit (d # r)) in
               (undigits 0 ds * 10 ^ (9 - length ds), dropWhile is_digit (d # r)))
         else (0, s)
     | _ \<Rightarrow> (0, s))"

definition clock_ns :: "nat \<Rightarrow> nat \<Rightarrow> nat \<Rightarrow> nat \<Rightarrow> gotime option" where
  "clock_ns h m s n = (if h < 24 \<and> m < 60 \<and> s < 60 then Some (int ((h * 60 + m) * 60 + s) * 10 ^ 9 + int n) else None)"

text \<open>\<open>time.Parse("15:04:05", s)\<close> and \<open>time.Parse("15:04", s)\<close>\<close>

definition parse_hms :: "string \<Rightarrow> gotime option" where
  "parse_hms s =
     Option.bind (getnum False s) (\<lambda>(h, r).
     Option.bind (skip (CHR '':'') r) (\<lambda>r.
     Option.bind (getnum True r) (\<lambda>(m, r).
     Option.bind (skip (CHR '':'') r) (\<lambda>r.
     Option.bind (getnum True r) (\<lambda>(sec, r).
     case fraction r of (n, r) \<Rightarrow> if r = [] then clock_ns h m sec n else None)))))"

definition parse_hm :: "string \<Rightarrow> gotime option" where
  "parse_hm s =
     Option.bind (getnum False s) (\<lambda>(h, r).
     Option.bind (skip (CHR '':'') r) (\<lambda>r.
     Option.bind (getnum True r) (\<lambda>(m, r). if r = [] then clock_ns h m 0 0 else None)))"

definition two :: "nat \<Rightarrow> string" where "two n = zero_pad 2 (digits n)"

text \<open>\<open>t.Format("15:04:05")\<close> and \<open>t.Format("15:04")\<close>\<close>

definition format_hms :: "gotime \<Rightarrow> string" where
  "format_hms t = (let s = nat (t mod day_ns div 10 ^ 9) in
     two (s div 3600) @ '':'' @ two (s div 60 mod 60) @ '':'' @ two (s mod 60))"

definition format_hm :: "gotime \<Rightarrow> string" where
  "format_hm t = (let s = nat (t mod day_ns div 10 ^ 9) in two (s div 3600) @ '':'' @ two (s div 60 mod 60))"

definition padTime :: "string \<Rightarrow> string" where
  "padTime t = (if length t = 5 then t @ '':00'' else t)"

definition parseClockTime :: "string \<Rightarrow> gotime res" where
  "parseClockTime raw0 = (let raw = trim_space raw0 in
     if raw = [] then Inl (BadRequest ''jam tidak valid'')
     else case parse_hms (padTime raw) of
       Some t \<Rightarrow> Inr t
     | None \<Rightarrow> (case parse_hm raw of None \<Rightarrow> Inl (BadRequest ''jam tidak valid'') | Some t \<Rightarrow> Inr t))"

definition parseClock :: "string \<Rightarrow> gotime option" where
  "parseClock s0 = (let s = padTime (trim_space s0) in
     case parse_hms s of Some t \<Rightarrow> Some t | None \<Rightarrow> parse_hm (trim_space s))"

section \<open>The slots of a day (slots.go)\<close>

record slotRange =
  sg_start :: string
  sg_end :: string
  sg_cap :: int

text \<open>\<open>time.Duration(durMin) * time.Minute\<close>, a product of int64 values.\<close>

definition minutes :: "int \<Rightarrow> int" where
  "minutes d = sint (word_of_int (d * 60000000000) :: 64 word)"

definition slot_at :: "int \<Rightarrow> gotime \<Rightarrow> slotRange" where
  "slot_at step cur = \<lparr>sg_start = format_hms cur, sg_end = format_hms (cur + step), sg_cap = 0\<rparr>"

text \<open>The loop of \<open>buildDaySlots\<close>; \<open>None\<close> is a loop that never ends.\<close>

partial_function (option) slot_loop :: "int \<Rightarrow> gotime \<Rightarrow> gotime \<Rightarrow> slotRange list \<Rightarrow> slotRange list option" where
  "slot_loop step en cur out =
     (if cur < en
      then (if en < cur + step then Some out else slot_loop step en (cur + step) (out @ [slot_at step cur]))
      else Some out)"

definition or_zero :: "gotime option \<Rightarrow> gotime" where
  "or_zero t = (case t of None \<Rightarrow> zero_time | Some x \<Rightarrow> x)"

definition day_bounds :: "string \<Rightarrow> string \<Rightarrow> gotime \<times> gotime" where
  "day_bounds dayStart dayEnd =
     (let st = (case parse_hms (padTime dayStart) of Some t \<Rightarrow> Some t | None \<Rightarrow> parse_hm dayStart);
          en = parse_hms (padTime dayEnd) in
      (or_zero st, if st = None \<or> en = None then or_zero (parse_hm dayEnd) else or_zero en))"

definition buildDaySlots :: "string \<Rightarrow> string \<Rightarrow> int \<Rightarrow> slotRange list option" where
  "buildDaySlots dayStart dayEnd durMin =
     (case day_bounds dayStart dayEnd of (st, en) \<Rightarrow> slot_loop (minutes durMin) en st [])"

record daySegment =
  dg_start :: string
  dg_end :: string

definition dayScheduleSegments :: "string \<Rightarrow> string \<Rightarrow> string option \<Rightarrow> string option \<Rightarrow> daySegment list res" where
  "dayScheduleSegments dayStart dayEnd breakStart breakEnd =
     (let whole = [\<lparr>dg_start = dayStart, dg_end = dayEnd\<rparr>] in
      ebind (parseClockTime dayStart) (\<lambda>st.
      ebind (parseClockTime dayEnd) (\<lambda>en.
      ebind (guard (st < en) (BadRequest ''jam mulai jadwal harus sebelum jam selesai'')) (\<lambda>_.
      case (breakStart, breakEnd) of
        (Some b, Some e) \<Rightarrow>
          let bsRaw = trim_space b; beRaw = trim_space e in
          if bsRaw = [] \<or> beRaw = [] then Inr whole
          else ebind (parseClockTime bsRaw) (\<lambda>bs.
               ebind (parseClockTime beRaw) (\<lambda>be.
               if \<not> bs < be then Inr whole
               else if \<not> bs < en \<or> \<not> st < be then Inr whole
               else let segments = (if st < bs then [\<lparr>dg_start = dayStart, dg_end = bsRaw\<rparr>] else [])
                        @ (if be < en then [\<lparr>dg_start = beRaw, dg_end = dayEnd\<rparr>] else [])
                 in Inr (if segments = [] then whole else segments)))
      | _ \<Rightarrow> Inr whole))))"

fun build_segments :: "int \<Rightarrow> daySegment list \<Rightarrow> slotRange list \<Rightarrow> slotRange list option" where
  "build_segments durMin [] out = Some out"
| "build_segments durMin (g # gs) out =
     Option.bind (buildDaySlots (dg_start g) (dg_end g) durMin) (\<lambda>slots. build_segments durMin gs (out @ slots))"

definition buildDaySlotsWithBreak ::
  "string \<Rightarrow> string \<Rightarrow> int \<Rightarrow> string option \<Rightarrow> string option \<Rightarrow> slotRange list res option"
where
  "buildDaySlotsWithBreak dayStart dayEnd durMin breakStart breakEnd =
     (case dayScheduleSegments dayStart dayEnd breakStart breakEnd of
        Inl e \<Rightarrow> Some (Inl e)
      | Inr segments \<Rightarrow> map_option Inr (build_segments durMin segments []))"

section \<open>The days of an event\<close>

definition after_day :: "ymd \<Rightarrow> ymd \<Rightarrow> bool" where
  "after_day s t = (case s of (y, m, d) \<Rightarrow> case t of (y', m', d') \<Rightarrow> y' < y \<or> y' = y \<and> (m' < m \<or> m' = m \<and> d' < d))"

text \<open>\<open>for d := sd; !d.After(ed); d = d.AddDate(0, 0, 1)\<close>\<close>

partial_function (option) day_loop :: "ymd \<Rightarrow> ymd \<Rightarrow> ymd list \<Rightarrow> ymd list option" where
  "day_loop ed d out = (if after_day d ed then Some out else day_loop ed (AddDate 0 0 1 d) (out @ [d]))"

definition date_or_zero :: "string \<Rightarrow> ymd" where
  "date_or_zero s = (case parse_ymd s of None \<Rightarrow> (1, 1, 1) | Some t \<Rightarrow> t)"

section \<open>Matching a preferred time (slot_booking.go)\<close>

definition dots_to_colons :: "string \<Rightarrow> string" where
  "dots_to_colons s = map (\<lambda>c. if c = CHR ''.'' then CHR '':'' else c) s"

text \<open>\<open>strings.Split(s, ":")\<close>\<close>

fun split_colon :: "string \<Rightarrow> string list" where
  "split_colon [] = [[]]"
| "split_colon (c # s) = (if c = CHR '':'' then [] # split_colon s
     else case split_colon s of p # ps \<Rightarrow> (c # p) # ps | [] \<Rightarrow> [[c]])"

definition normalizePreferredTime :: "string \<Rightarrow> string" where
  "normalizePreferredTime s0 = (let s = dots_to_colons (trim_space s0) in
     if s = [] then []
     else case split_colon s of
       p0 # p1 # ps \<Rightarrow>
         let h = trim_space p0; m = trim_space p1;
             h = (if length h = 1 then CHR ''0'' # h else h);
             m = (if length m = 1 then CHR ''0'' # m else m);
             m = (if length m > 2 then take 2 m else m)
         in h @ '':'' @ m
     | _ \<Rightarrow> s)"

definition slotStartMatches :: "string \<Rightarrow> string \<Rightarrow> bool" where
  "slotStartMatches startTime preferred = (let pref = normalizePreferredTime preferred in
     if pref = [] then False
     else let start = normalizePreferredTime startTime; start = (if 5 \<le> length start then take 5 start else start)
          in pref = start)"

end
