(* ===== verification/Events.thy ===== *)
theory Events
  imports Event_Clock
begin

text \<open>
  Time slots and reservations of events: the settings of a therapy, the generation and deletion of its
  slots, and the patients booked on them (\<open>events/event.go\<close>, \<open>therapy_schedule.go\<close>, \<open>slots.go\<close>,
  \<open>slot_booking.go\<close>, \<open>patients.go\<close>, \<open>patient_contact.go\<close>, \<open>public.go\<close>, \<open>helpers.go\<close>).

  A row has the columns that the code reads back. Dates and times of day are texts as PostgreSQL prints
  them; \<open>pg_time\<close> is how it reads a text as a TIME. Names and birth dates are stored encrypted and never read
  here: \<open>encrypts\<close> says whether a key is configured, and \<open>blind\<close> is the keyed hash of a name. \<open>now\<close> is the clock
  of the server, in the unit of the registration times. The audit log is left out. Inside a
  transaction a failed statement makes every later one fail, so an error that the code ignores there
  still ends the transaction. Identifiers are UUIDs as PostgreSQL prints them, and one that exists
  already violates the primary key. Dashes of messages are written in ASCII.
\<close>

section \<open>Tables (tenant/events_schema.go)\<close>

record event_row =
  ev_id :: string
  ev_slug :: string
  ev_first :: string
  ev_last :: string
  ev_start :: string
  ev_end :: string
  ev_break_start :: "string option"
  ev_break_end :: "string option"
  ev_open :: "int option"
  ev_close :: "int option"
  ev_status :: string
  ev_deleted :: bool

record setting_row =
  et_id :: string
  et_event :: string
  et_therapy :: string
  et_dur :: int
  et_max :: "int option"
  et_capmode :: string
  et_mode :: string
  et_start :: "string option"
  et_end :: "string option"

record template_row =
  tp_setting :: string
  tp_start :: string
  tp_end :: string
  tp_cap :: int
  tp_ord :: int

record person_row =
  pe_id :: string
  pe_event :: string
  pe_type :: string
  pe_attendance :: string
  pe_deleted :: bool

record slot_row =
  sl_id :: string
  sl_event :: string
  sl_therapy :: string
  sl_date :: string
  sl_start :: string
  sl_end :: string
  sl_cap :: int
  sl_booked :: int

record patient_row =
  pt_id :: string
  pt_event :: string
  pt_therapy :: string
  pt_contact :: "string option"
  pt_name :: string
  pt_birth :: string
  pt_complaint :: "string option"
  pt_preferred :: "string option"
  pt_status :: string
  pt_slot :: "string option"
  pt_deleted :: bool

record contact_row =
  ct_id :: string
  ct_name :: "string option"
  ct_phone :: "string option"
  ct_birth :: "string option"
  ct_notes :: "string option"
  ct_deleted :: bool

record evt_db =
  events :: "event_row list"
  therapies :: "string list"
  settings :: "setting_row list"
  templates :: "template_row list"
  persons :: "person_row list"
  person_therapies :: "(string \<times> string) list"
  slots :: "slot_row list"
  patients :: "patient_row list"
  book_contacts :: "contact_row list"
  evt_next :: nat

definition evt_uuid :: "env \<Rightarrow> evt_db \<Rightarrow> string \<times> evt_db" where
  "evt_uuid E db = (db_uuid E (evt_next db), db\<lparr>evt_next := Suc (evt_next db)\<rparr>)"

text \<open>What an INT column holds.\<close>

definition int4 :: "int \<Rightarrow> bool" where
  "int4 n \<longleftrightarrow> - (2 ^ 31) \<le> n \<and> n < 2 ^ 31"

section \<open>Guards and texts (helpers.go)\<close>

text \<open>
  \<open>strings.ToUpper\<close> on the bytes it can turn into an ASCII letter: \<open>a\<close> to \<open>z\<close>, U+0131 (upper case \<open>I\<close>) and
  U+017F (upper case \<open>S\<close>). The results are only compared with ASCII constants.
\<close>

fun upper :: "string \<Rightarrow> string" where
  "upper [] = []"
| "upper (c # cs) =
     (if c = CHR 0xC4 \<and> prefix [CHR 0xB1] cs then CHR ''I'' # upper (drop 1 cs)
      else if c = CHR 0xC5 \<and> prefix [CHR 0xBF] cs then CHR ''S'' # upper (drop 1 cs)
      else if 97 \<le> (of_char c :: nat) \<and> (of_char c :: nat) \<le> 122 then char_of (of_char c - 32 :: nat) # upper cs
      else c # upper cs)"

definition mustUser :: "AuthUser option \<Rightarrow> AuthUser res" where
  "mustUser u = (case u of
       None \<Rightarrow> Inl (Unauthenticated ''not authenticated'')
     | Some v \<Rightarrow>
         if \<not> HasEffectiveTenantContext u then Inl (Forbidden ''tenant context required'')
         else ebind (RequireModule u ''advanced'') (\<lambda>_. Inr v))"

definition assertOwner :: "AuthUser \<Rightarrow> unit res" where
  "assertOwner v = guard (CanPerformOwnerActions (Some v)) (Forbidden ''only owner can perform this action'')"

definition openTenant :: "env \<Rightarrow> unit res" where
  "openTenant E = sql E ''tenant.prepare'' (Inr ())"

definition owner_call :: "AuthUser option \<Rightarrow> unit res" where
  "owner_call auth = ebind (mustUser auth) assertOwner"

definition find_event :: "evt_db \<Rightarrow> string \<Rightarrow> event_row option" where
  "find_event db i = find (\<lambda>r. ev_id r = i \<and> \<not> ev_deleted r) (events db)"

definition assertEventMutable :: "env \<Rightarrow> evt_db \<Rightarrow> string \<Rightarrow> unit res" where
  "assertEventMutable E db i = sql E ''event.status'' (case find_event db i of
       None \<Rightarrow> Inl (NotFound ''acara tidak ditemukan'')
     | Some r \<Rightarrow> guard (upper (ev_status r) \<noteq> ''ARCHIVED'') (BadRequest ''acara diarsipkan - tidak dapat diubah''))"

text \<open>\<open>assertEventExists\<close> is called without a user here, so it does not say which tenant an event belongs to.\<close>

definition assertEventExists :: "env \<Rightarrow> evt_db \<Rightarrow> string \<Rightarrow> unit res" where
  "assertEventExists E db i = sql E ''event.exists''
     (guard (find_event db i \<noteq> None) (NotFound ''acara tidak ditemukan''))"

definition registrationOpen :: "int \<Rightarrow> int option \<Rightarrow> int option \<Rightarrow> bool" where
  "registrationOpen now openAt closeAt =
     (if (case openAt of None \<Rightarrow> False | Some t \<Rightarrow> now < t) then False
      else if (case closeAt of None \<Rightarrow> False | Some t \<Rightarrow> t < now) then False
      else True)"

definition clampLen :: "string \<Rightarrow> nat \<Rightarrow> string" where
  "clampLen s0 n = (let s = trim_space s0 in if 0 < n \<and> length s > n then take n s else s)"

definition nullStr :: "string \<Rightarrow> string option" where
  "nullStr s0 = (let s = trim_space s0 in if s = [] then None else Some s)"

definition maxPatientNameLen :: nat where "maxPatientNameLen = 200"
definition maxComplaintLen :: nat where "maxComplaintLen = 2000"
definition maxPreferredTimeLen :: nat where "maxPreferredTimeLen = 120"

text \<open>\<open>time.Parse\<close> with the layouts \<open>02/01/2006\<close>, \<open>02-01-2006\<close> and \<open>2/1/2006\<close>\<close>

definition parse_dmy :: "bool \<Rightarrow> char \<Rightarrow> string \<Rightarrow> ymd option" where
  "parse_dmy fixed sep s =
     Option.bind (getnum fixed s) (\<lambda>(d, r).
     Option.bind (skip sep r) (\<lambda>r.
     Option.bind (getnum fixed r) (\<lambda>(m, r).
     Option.bind (skip sep r) (\<lambda>r.
     if length r = 4 \<and> list_all is_digit r
     then (let y = undigits 0 r in if 1 \<le> m \<and> m \<le> 12 \<and> 1 \<le> d \<and> d \<le> days_in m y then Some (y, m, d) else None)
     else None))))"

definition normalizeBirthDate :: "string \<Rightarrow> string res" where
  "normalizeBirthDate s0 = (let s = trim_space s0 in
     if s = [] then Inl (BadRequest ''tanggal lahir wajib diisi'')
     else case filter (\<lambda>t. t \<noteq> None) [parse_ymd s, parse_dmy True (CHR ''/'') s, parse_dmy True (CHR ''-'') s, parse_dmy False (CHR ''/'') s] of
       Some t # _ \<Rightarrow> Inr (format_ymd t)
     | _ \<Rightarrow> Inl (BadRequest ''format tanggal lahir tidak valid (gunakan YYYY-MM-DD)''))"

section \<open>The settings of a therapy (therapy_schedule.go, event.go)\<close>

record TherapySlotTemplate =
  tt_start :: string
  tt_end :: string
  tt_cap :: int
  tt_ord :: int

definition normal_template :: "nat \<times> TherapySlotTemplate \<Rightarrow> TherapySlotTemplate res" where
  "normal_template it = (case it of (i, t) \<Rightarrow>
     let start = trim_space (tt_start t); end = trim_space (tt_end t) in
     ebind (guard (start \<noteq> [] \<and> end \<noteq> []) (BadRequestf ''slot %d: jam mulai dan selesai wajib diisi'' [of_nat i + 1])) (\<lambda>_.
     case parseClock start of
       None \<Rightarrow> Inl (BadRequestf ''slot %d: jam mulai tidak valid'' [of_nat i + 1])
     | Some st \<Rightarrow> (case parseClock end of
         None \<Rightarrow> Inl (BadRequestf ''slot %d: jam selesai tidak valid'' [of_nat i + 1])
       | Some en \<Rightarrow>
           ebind (guard (st < en) (BadRequestf ''slot %d: jam selesai harus setelah jam mulai'' [of_nat i + 1])) (\<lambda>_.
           Inr \<lparr>tt_start = format_hm st, tt_end = format_hm en, tt_cap = (if tt_cap t \<le> 0 then 1 else tt_cap t),
                tt_ord = (if tt_ord t \<le> 0 then int i else tt_ord t)\<rparr>))))"

definition normalizeSlotTemplates :: "TherapySlotTemplate list \<Rightarrow> string \<Rightarrow> TherapySlotTemplate list res" where
  "normalizeSlotTemplates ts mode =
     (if mode \<noteq> ''MANUAL'' then Inr []
      else if ts = [] then Inl (BadRequest ''mode manual membutuhkan minimal satu slot waktu'')
      else ebind (efold (\<lambda>it out. ebind (normal_template it) (\<lambda>t. Inr (out @ [t]))) (List.enumerate 0 ts) [])
             (\<lambda>out. Inr (sort_key tt_ord (sort_key tt_start out))))"

definition insert_template ::
  "env \<Rightarrow> (string \<Rightarrow> string option) \<Rightarrow> string \<Rightarrow> nat \<times> TherapySlotTemplate \<Rightarrow> evt_db \<Rightarrow> evt_db res"
where
  "insert_template E pg_time setting it db = (case it of (i, t) \<Rightarrow>
     let ord = (if tt_ord t \<le> 0 then int i else tt_ord t); cap = (if tt_cap t \<le> 0 then 1 else tt_cap t) in
     sql E ''template.insert'' (case (pg_time (tt_start t), pg_time (tt_end t)) of
       (Some st, Some en) \<Rightarrow>
         if list_ex (\<lambda>r. tp_setting r = setting \<and> tp_start r = st) (templates db) \<or> \<not> int4 cap \<or> \<not> int4 ord
         then Inl (Internal ''template.insert'')
         else Inr (db\<lparr>templates := templates db @ [\<lparr>tp_setting = setting, tp_start = st, tp_end = en, tp_cap = cap, tp_ord = ord\<rparr>]\<rparr>)
     | _ \<Rightarrow> Inl (Internal ''template.insert'')))"

definition replaceTherapySlotTemplates ::
  "env \<Rightarrow> (string \<Rightarrow> string option) \<Rightarrow> string \<Rightarrow> string \<Rightarrow> TherapySlotTemplate list \<Rightarrow> evt_db \<Rightarrow> evt_db res"
where
  "replaceTherapySlotTemplates E pg_time setting mode ts db =
     ebind (sql E ''templates.delete'' (Inr (db\<lparr>templates := [r \<leftarrow> templates db. tp_setting r \<noteq> setting]\<rparr>))) (\<lambda>db1.
     if mode \<noteq> ''MANUAL'' \<or> ts = [] then Inr db1
     else efold (insert_template E pg_time setting) (List.enumerate 0 ts) db1)"

record UpsertEventTherapyParams =
  up_therapy :: string
  up_dur :: int
  up_max :: "int option"
  up_capmode :: string
  up_mode :: string
  up_start :: string
  up_end :: string
  up_templates :: "TherapySlotTemplate list"

definition pg_null_time :: "(string \<Rightarrow> string option) \<Rightarrow> string \<Rightarrow> string option res" where
  "pg_null_time pg_time s = (case nullStr s of None \<Rightarrow> Inr None
     | Some t \<Rightarrow> (case pg_time t of None \<Rightarrow> Inl (Internal ''setting.upsert'') | Some x \<Rightarrow> Inr (Some x)))"

text \<open>Insert, or update the row of the event and the therapy.\<close>

definition put_setting ::
  "env \<Rightarrow> string \<Rightarrow> UpsertEventTherapyParams \<Rightarrow> int \<Rightarrow> string \<Rightarrow> string \<Rightarrow> string option \<Rightarrow> string option \<Rightarrow> evt_db
    \<Rightarrow> (string \<times> evt_db) res"
where
  "put_setting E event p dur capmode mode st en db =
     (case find (\<lambda>r. et_event r = event \<and> et_therapy r = up_therapy p) (settings db) of
        Some r \<Rightarrow> Inr (et_id r, db\<lparr>settings := map (\<lambda>s. if et_event s = event \<and> et_therapy s = up_therapy p
          then s\<lparr>et_dur := dur, et_max := up_max p, et_capmode := capmode, et_mode := mode, et_start := st, et_end := en\<rparr> else s)
          (settings db)\<rparr>)
      | None \<Rightarrow> (case evt_uuid E db of (i, db1) \<Rightarrow>
          if up_therapy p \<notin> set (therapies db) \<or> list_ex (\<lambda>s. et_id s = i) (settings db) then Inl (Internal ''setting.upsert'')
          else Inr (i, db1\<lparr>settings := settings db1 @ [\<lparr>et_id = i, et_event = event, et_therapy = up_therapy p, et_dur = dur,
            et_max = up_max p, et_capmode = capmode, et_mode = mode, et_start = st, et_end = en\<rparr>]\<rparr>)))"

definition upsert_setting_tx ::
  "env \<Rightarrow> (string \<Rightarrow> string option) \<Rightarrow> string \<Rightarrow> UpsertEventTherapyParams \<Rightarrow> int \<Rightarrow> string \<Rightarrow> string
    \<Rightarrow> TherapySlotTemplate list \<Rightarrow> evt_db \<Rightarrow> (string \<times> evt_db) res"
where
  "upsert_setting_tx E pg_time event p dur capmode mode ts db =
     ebind (sql E ''tx.begin'' (Inr ())) (\<lambda>_.
     ebind (pg_null_time pg_time (up_start p)) (\<lambda>st.
     ebind (pg_null_time pg_time (up_end p)) (\<lambda>en.
     ebind (guard (case up_max p of None \<Rightarrow> True | Some n \<Rightarrow> int4 n) (Internal ''setting.upsert'')) (\<lambda>_.
     ebind (sql E ''setting.upsert'' (put_setting E event p dur capmode mode st en db)) (\<lambda>(i, db1).
     ebind (replaceTherapySlotTemplates E pg_time i mode ts db1) (\<lambda>db2.
     sql E ''tx.commit'' (Inr (i, db2))))))))"

text \<open>
  The reply reads the settings again, and a list that could not be read ends the request in a panic;
  otherwise the reply is the setting, of which the model keeps the identifier.
\<close>

definition UpsertEventTherapySetting ::
  "env \<Rightarrow> (string \<Rightarrow> string option) \<Rightarrow> AuthUser option \<Rightarrow> string \<Rightarrow> UpsertEventTherapyParams \<Rightarrow> evt_db \<Rightarrow> (string, evt_db) reply"
where
  "UpsertEventTherapySetting E pg_time auth event p db =
     try_reply db (owner_call auth) (\<lambda>_.
     let m0 = upper (trim_space (up_capmode p)); capmode = (if m0 = [] then ''THERAPIST_COUNT'' else m0) in
     try_reply db (guard (capmode \<in> set [''THERAPIST_COUNT'', ''SHIJIE_COUNT'', ''FIXED'']) (BadRequest ''mode kapasitas tidak valid'')) (\<lambda>_.
     try_reply db (guard (\<not> (up_dur p > 0 \<and> (up_dur p < 5 \<or> up_dur p > 480))) (BadRequest ''durasi slot harus antara 5-480 menit'')) (\<lambda>_.
     try_reply db (openTenant E) (\<lambda>_.
     try_reply db (assertEventMutable E db event) (\<lambda>_.
     let s0 = upper (trim_space (up_mode p)); mode = (if s0 = [] then ''AUTO'' else s0) in
     try_reply db (guard (mode = ''AUTO'' \<or> mode = ''MANUAL'') (BadRequest ''mode jadwal harus AUTO atau MANUAL'')) (\<lambda>_.
     let dur = (if up_dur p \<le> 0 then 30 else up_dur p) in
     try_reply db (normalizeSlotTemplates (up_templates p) mode) (\<lambda>ts.
     in_tx db (upsert_setting_tx E pg_time event p dur capmode mode ts db) (\<lambda>i db1.
     try_reply db1 (sql E ''settings.list'' (sql E ''settings.templates'' (Inr ()))) (\<lambda>_. (Inr i, db1))))))))))"

section \<open>Generating slots (slots.go)\<close>

definition present :: "person_row \<Rightarrow> bool" where
  "present r \<longleftrightarrow> \<not> pe_deleted r \<and> (pe_attendance r = ''PRESENT'' \<or> pe_attendance r = ''PARTIAL'')"

definition fixed_capacity :: "int option \<Rightarrow> int" where
  "fixed_capacity maxCap = (case maxCap of None \<Rightarrow> 1 | Some n \<Rightarrow> if n > 0 then n else 1)"

definition computeTherapyCapacity :: "env \<Rightarrow> evt_db \<Rightarrow> string \<Rightarrow> string \<Rightarrow> string \<Rightarrow> int option \<Rightarrow> int res" where
  "computeTherapyCapacity E db event therapy mode maxCap =
     (if upper mode = ''SHIJIE_COUNT'' then sql_raw E ''capacity.shijie''
        (Inr (int (length [r \<leftarrow> persons db. pe_event r = event \<and> pe_type r = ''SHIJIE'' \<and> present r])))
      else if upper mode = ''FIXED'' then Inr (fixed_capacity maxCap)
      else ebind (sql_raw E ''capacity.therapist'' (Inr (int (length [r \<leftarrow> persons db. pe_event r = event \<and> present r
          \<and> pe_type r \<in> set [''THERAPIST'', ''SHIJIE'', ''DAOSHI'', ''FASHI''] \<and> (pe_id r, therapy) \<in> set (person_therapies db)])))) (\<lambda>n.
        Inr (if n > 0 then n else fixed_capacity maxCap)))"

definition loadManualDaySlots :: "env \<Rightarrow> evt_db \<Rightarrow> string \<Rightarrow> slotRange list res" where
  "loadManualDaySlots E db setting = sql E ''templates.load''
     (let out = map (\<lambda>r. \<lparr>sg_start = padTime (tp_start r), sg_end = padTime (tp_end r), sg_cap = (if tp_cap r \<le> 0 then 1 else tp_cap r)\<rparr>)
        (sort_key tp_ord (sort_key tp_start [r \<leftarrow> templates db. tp_setting r = setting])) in
      if out = [] then Inl (BadRequest ''belum ada daftar slot manual - simpan pengaturan terapi dulu'') else Inr out)"

text \<open>Insert, or update the slot that starts at the same time.\<close>

definition same_slot :: "string \<Rightarrow> string \<Rightarrow> string \<Rightarrow> string \<Rightarrow> slot_row \<Rightarrow> bool" where
  "same_slot event therapy date start s \<longleftrightarrow> sl_event s = event \<and> sl_therapy s = therapy \<and> sl_date s = date \<and> sl_start s = start"

definition put_slot :: "env \<Rightarrow> string \<Rightarrow> string \<Rightarrow> string \<Rightarrow> slotRange \<Rightarrow> int \<Rightarrow> evt_db \<Rightarrow> evt_db res" where
  "put_slot E event therapy date sl cap db = sql E ''slot.upsert''
     (if \<not> int4 cap then Inl (Internal ''slot.upsert'')
      else if list_ex (same_slot event therapy date (sg_start sl)) (slots db)
      then Inr (db\<lparr>slots := map (\<lambda>s. if same_slot event therapy date (sg_start sl) s then s\<lparr>sl_end := sg_end sl, sl_cap := cap\<rparr> else s) (slots db)\<rparr>)
      else case evt_uuid E db of (i, db1) \<Rightarrow>
        if list_ex (\<lambda>s. sl_id s = i) (slots db) then Inl (Internal ''slot.upsert'')
        else Inr (db1\<lparr>slots := slots db1 @ [\<lparr>sl_id = i, sl_event = event, sl_therapy = therapy, sl_date = date,
          sl_start = sg_start sl, sl_end = sg_end sl, sl_cap = cap, sl_booked = 0\<rparr>]\<rparr>))"

text \<open>
  The statements of a generation are not in a transaction: what is written before an error stays. The
  environments \<open>Es\<close> are indexed by the number of slots written so far, which the loop carries along.
\<close>

fun put_slots ::
  "(nat \<Rightarrow> env) \<Rightarrow> string \<Rightarrow> string \<Rightarrow> string \<Rightarrow> string \<Rightarrow> int \<Rightarrow> slotRange list \<Rightarrow> nat \<Rightarrow> evt_db \<Rightarrow> (nat, evt_db) reply"
where
  "put_slots Es event therapy capMode date capacity [] n db = (Inr n, db)"
| "put_slots Es event therapy capMode date capacity (sl # sls) n db =
     (let cap = (if upper capMode = ''FIXED'' \<and> sg_cap sl > 0 then sg_cap sl else capacity) in
      try_reply db (put_slot (Es n) event therapy date sl cap db) (\<lambda>db1.
      put_slots Es event therapy capMode date capacity sls (Suc n) db1))"

text \<open>
  Each day asks for the capacity first and then cuts the day; \<open>None\<close> is a day that never comes to an end.
\<close>

fun generate_days ::
  "(nat \<Rightarrow> env) \<Rightarrow> string \<Rightarrow> setting_row \<Rightarrow> slotRange list res option \<Rightarrow> ymd list \<Rightarrow> nat \<Rightarrow> evt_db \<Rightarrow> (nat, evt_db) reply option"
where
  "generate_days Es event s day_slots [] n db = Some (Inr n, db)"
| "generate_days Es event s day_slots (d # ds) n db =
     (case computeTherapyCapacity (Es n) db event (et_therapy s) (et_capmode s) (et_max s) of
        Inl e \<Rightarrow> Some (Inl e, db)
      | Inr capacity \<Rightarrow> (case day_slots of
          None \<Rightarrow> None
        | Some (Inl e) \<Rightarrow> Some (Inl e, db)
        | Some (Inr sls) \<Rightarrow> (case put_slots Es event (et_therapy s) (et_capmode s) (format_ymd d) capacity sls n db of
            (Inl e, db1) \<Rightarrow> Some (Inl e, db1)
          | (Inr n1, db1) \<Rightarrow> generate_days Es event s day_slots ds n1 db1)))"

definition in_window :: "string \<Rightarrow> string \<Rightarrow> string \<Rightarrow> string \<Rightarrow> slot_row \<Rightarrow> bool" where
  "in_window event therapy bs be s \<longleftrightarrow> sl_event s = event \<and> sl_therapy s = therapy \<and> bs \<le> sl_start s \<and> sl_start s < be"

text \<open>The foreign key of the patients keeps a slot that a row still names, deleted or not.\<close>

definition referenced :: "evt_db \<Rightarrow> string \<Rightarrow> bool" where
  "referenced db i \<longleftrightarrow> list_ex (\<lambda>p. pt_slot p = Some i) (patients db)"

definition cleanupBreakWindowSlots :: "env \<Rightarrow> string \<Rightarrow> string \<Rightarrow> string \<Rightarrow> string \<Rightarrow> evt_db \<Rightarrow> (nat option, evt_db) reply" where
  "cleanupBreakWindowSlots E event therapy bs be db =
     (let blocked = length [s \<leftarrow> slots db. in_window event therapy bs be s \<and> sl_booked s > 0] in
      try_reply db (sql E ''slots.blocked'' (Inr ())) (\<lambda>_.
      if blocked > 0 then (Inr (Some blocked), db)
      else let gone = (\<lambda>s. in_window event therapy bs be s \<and> sl_booked s = 0) in
        try_reply db (sql E ''slots.cleanup'' (if list_ex (\<lambda>s. gone s \<and> referenced db (sl_id s)) (slots db) then Inl (Internal ''slots.cleanup'')
          else Inr (db\<lparr>slots := [s \<leftarrow> slots db. \<not> gone s]\<rparr>))) (\<lambda>db1. (Inr None, db1))))"

definition slot_duration :: "setting_row \<Rightarrow> int" where
  "slot_duration s = (if et_dur s \<le> 0 then 30 else et_dur s)"

definition schedule_mode :: "setting_row \<Rightarrow> string" where
  "schedule_mode s = (if et_mode s = [] then ''AUTO'' else et_mode s)"

definition break_times :: "event_row \<Rightarrow> setting_row \<Rightarrow> (string \<times> string) option" where
  "break_times ev s = (case (ev_break_start ev, ev_break_end ev) of
       (Some b, Some e) \<Rightarrow>
         if upper (schedule_mode s) = ''AUTO'' \<and> trim_space b \<noteq> [] \<and> trim_space e \<noteq> [] then Some (trim_space b, trim_space e) else None
     | _ \<Rightarrow> None)"

text \<open>The slots of each day: those of the templates, or the day cut into pieces.\<close>

definition day_slots :: "event_row \<Rightarrow> setting_row \<Rightarrow> slotRange list \<Rightarrow> slotRange list res option" where
  "day_slots ev s tpl =
     (let dayStart = (case et_start s of None \<Rightarrow> ev_start ev | Some t \<Rightarrow> t); dayEnd = (case et_end s of None \<Rightarrow> ev_end ev | Some t \<Rightarrow> t) in
      if tpl \<noteq> [] then Some (Inr tpl)
      else buildDaySlotsWithBreak dayStart dayEnd (slot_duration s) (map_option fst (break_times ev s)) (map_option snd (break_times ev s)))"

definition generate_slots ::
  "env \<Rightarrow> (nat \<Rightarrow> env) \<Rightarrow> event_row \<Rightarrow> setting_row \<Rightarrow> slotRange list res option \<Rightarrow> ymd list \<Rightarrow> evt_db
    \<Rightarrow> (nat \<times> nat option, evt_db) reply option"
where
  "generate_slots E Es ev s sls days db = map_option (\<lambda>r. reply_bind r (\<lambda>created db1.
     case break_times ev s of
       None \<Rightarrow> (Inr (created, None), db1)
     | Some (bs, be) \<Rightarrow> reply_bind (cleanupBreakWindowSlots E (ev_id ev) (et_therapy s) bs be db1) (\<lambda>w db2. (Inr (created, w), db2))))
   (generate_days Es (ev_id ev) s sls days 0 db)"

text \<open>What a generation reads: the event, the setting of the therapy and its templates.\<close>

definition load_generation :: "env \<Rightarrow> AuthUser option \<Rightarrow> string \<Rightarrow> string \<Rightarrow> evt_db \<Rightarrow> (event_row \<times> setting_row \<times> slotRange list) res" where
  "load_generation E auth event therapy db =
     ebind (owner_call auth) (\<lambda>_.
     ebind (openTenant E) (\<lambda>_.
     ebind (assertEventMutable E db event) (\<lambda>_.
     ebind (if db_fails E ''event.load'' then Inl (NotFound ''acara tidak ditemukan'')
            else case find_event db event of None \<Rightarrow> Inl (NotFound ''acara tidak ditemukan'') | Some ev \<Rightarrow> Inr ev) (\<lambda>ev.
     ebind (if db_fails E ''setting.load'' then Inl (BadRequest ''aturan terapi untuk acara ini belum dikonfigurasi'')
            else case find (\<lambda>s. et_event s = event \<and> et_therapy s = therapy) (settings db) of
              None \<Rightarrow> Inl (BadRequest ''aturan terapi untuk acara ini belum dikonfigurasi'') | Some s \<Rightarrow> Inr s) (\<lambda>s.
     ebind (if upper (schedule_mode s) = ''MANUAL'' then loadManualDaySlots E db (et_id s) else Inr []) (\<lambda>tpl.
     Inr (ev, s, tpl)))))))"

text \<open>\<open>None\<close> is a request that never returns.\<close>

definition GenerateTimeSlots ::
  "env \<Rightarrow> (nat \<Rightarrow> env) \<Rightarrow> AuthUser option \<Rightarrow> string \<Rightarrow> string \<Rightarrow> evt_db \<Rightarrow> (nat \<times> nat option, evt_db) reply option"
where
  "GenerateTimeSlots E Es auth event therapy db = (case load_generation E auth event therapy db of
       Inl e \<Rightarrow> Some (Inl e, db)
     | Inr (ev, s, tpl) \<Rightarrow>
         Option.bind (day_loop (date_or_zero (ev_last ev)) (date_or_zero (ev_first ev)) []) (\<lambda>days.
         generate_slots E Es ev s (day_slots ev s tpl) days db))"

section \<open>Deleting slots (slots.go)\<close>

definition find_slot :: "evt_db \<Rightarrow> string \<Rightarrow> string \<Rightarrow> slot_row option" where
  "find_slot db event i = find (\<lambda>s. sl_id s = i \<and> sl_event s = event) (slots db)"

definition linked_patients :: "evt_db \<Rightarrow> string \<Rightarrow> nat" where
  "linked_patients db i = length [p \<leftarrow> patients db. pt_slot p = Some i \<and> \<not> pt_deleted p]"

definition detach_deleted :: "string \<Rightarrow> evt_db \<Rightarrow> evt_db" where
  "detach_deleted i db = db\<lparr>patients := map (\<lambda>p. if pt_slot p = Some i \<and> pt_deleted p then p\<lparr>pt_slot := None\<rparr> else p) (patients db)\<rparr>"

definition drop_slot :: "env \<Rightarrow> string \<Rightarrow> string \<Rightarrow> evt_db \<Rightarrow> evt_db res" where
  "drop_slot E event i db = sql E ''slot.delete''
     (if referenced db i \<and> find_slot db event i \<noteq> None then Inl (Internal ''slot.delete'')
      else Inr (db\<lparr>slots := [s \<leftarrow> slots db. \<not> (sl_id s = i \<and> sl_event s = event)]\<rparr>))"

definition DeleteTimeSlot :: "env \<Rightarrow> AuthUser option \<Rightarrow> string \<Rightarrow> string \<Rightarrow> evt_db \<Rightarrow> evt_db out" where
  "DeleteTimeSlot E auth event i db =
     try_out db (owner_call auth) (\<lambda>_.
     try_out db (openTenant E) (\<lambda>_.
     try_out db (assertEventMutable E db event) (\<lambda>_.
     try_out db (sql E ''slot.load'' (case find_slot db event i of None \<Rightarrow> Inl (NotFound ''slot tidak ditemukan'') | Some s \<Rightarrow> Inr s)) (\<lambda>s.
     try_out db (guard (\<not> sl_booked s > 0) (BadRequest ''slot sudah terisi pasien, tidak bisa dihapus'')) (\<lambda>_.
     try_out db (sql E ''slot.patients'' (Inr (linked_patients db i))) (\<lambda>n.
     try_out db (guard (\<not> n > 0) (BadRequest ''slot masih dipakai data pasien, tidak bisa dihapus'')) (\<lambda>_.
     try_out db (sql E ''slot.detach'' (Inr (detach_deleted i db))) (\<lambda>db1.
     try_out db1 (drop_slot E event i db1) (\<lambda>db2. (None, db2))))))))))"

record DeleteSlotsResponse =
  dl_deleted :: nat
  dl_blocked :: nat
  dl_errors :: "(string \<times> string) list"

definition block_slot :: "string \<Rightarrow> string \<Rightarrow> DeleteSlotsResponse \<Rightarrow> DeleteSlotsResponse" where
  "block_slot i msg r = r\<lparr>dl_blocked := Suc (dl_blocked r), dl_errors := dl_errors r @ [(i, msg)]\<rparr>"

fun delete_slots_loop ::
  "(nat \<Rightarrow> env) \<Rightarrow> string \<Rightarrow> nat \<Rightarrow> string list \<Rightarrow> string list \<Rightarrow> DeleteSlotsResponse \<Rightarrow> evt_db \<Rightarrow> (DeleteSlotsResponse, evt_db) reply"
where
  "delete_slots_loop Es event n seen [] r db = (Inr r, db)"
| "delete_slots_loop Es event n seen (raw # ids) r db =
     (let i = trim_space raw; E = Es n in
      if i = [] \<or> i \<in> set seen then delete_slots_loop Es event (Suc n) seen ids r db
      else
        try_reply db (sql E ''slot.load'' (Inr (find_slot db event i))) (\<lambda>found. case found of
          None \<Rightarrow> delete_slots_loop Es event (Suc n) (i # seen) ids (block_slot i ''slot tidak ditemukan'' r) db
        | Some s \<Rightarrow>
            if sl_booked s > 0 then delete_slots_loop Es event (Suc n) (i # seen) ids (block_slot i ''slot sudah terisi pasien'' r) db
            else
              try_reply db (sql E ''slot.patients'' (Inr (linked_patients db i))) (\<lambda>k.
              if k > 0 then delete_slots_loop Es event (Suc n) (i # seen) ids (block_slot i ''slot masih dipakai data pasien'' r) db
              else
                try_reply db (sql E ''slot.detach'' (Inr (detach_deleted i db))) (\<lambda>db1.
                try_reply db1 (drop_slot E event i db1) (\<lambda>db2.
                delete_slots_loop Es event (Suc n) (i # seen) ids (r\<lparr>dl_deleted := Suc (dl_deleted r)\<rparr>) db2)))))"

definition DeleteTimeSlotsBulk ::
  "env \<Rightarrow> (nat \<Rightarrow> env) \<Rightarrow> AuthUser option \<Rightarrow> string \<Rightarrow> string list \<Rightarrow> evt_db \<Rightarrow> (DeleteSlotsResponse, evt_db) reply"
where
  "DeleteTimeSlotsBulk E Es auth event ids db =
     try_reply db (owner_call auth) (\<lambda>_.
     try_reply db (guard (ids \<noteq> []) (BadRequest ''pilih minimal satu slot'')) (\<lambda>_.
     try_reply db (openTenant E) (\<lambda>_.
     try_reply db (assertEventMutable E db event) (\<lambda>_.
     delete_slots_loop Es event 0 [] ids \<lparr>dl_deleted = 0, dl_blocked = 0, dl_errors = []\<rparr> db))))"

section \<open>Booking a slot (slots.go, slot_booking.go)\<close>

definition no_rows :: string where "no_rows = ''sql: no rows in result set''"

definition book_slot :: "string \<Rightarrow> evt_db \<Rightarrow> evt_db" where
  "book_slot i db = db\<lparr>slots := map (\<lambda>s. if sl_id s = i then s\<lparr>sl_booked := sl_booked s + 1\<rparr> else s) (slots db)\<rparr>"

definition lockAndIncrementSlot :: "env \<Rightarrow> string \<Rightarrow> evt_db \<Rightarrow> evt_db res" where
  "lockAndIncrementSlot E i db =
     ebind (sql_raw E ''slot.lock'' (case find (\<lambda>s. sl_id s = i) (slots db) of None \<Rightarrow> Inl (Plain no_rows) | Some s \<Rightarrow> Inr s)) (\<lambda>s.
     ebind (guard (\<not> sl_cap s \<le> sl_booked s) (BadRequest ''slot penuh'')) (\<lambda>_.
     sql_raw E ''slot.book'' (Inr (book_slot i db))))"

text \<open>The loop over the free slots; a strict choice must start at the preferred time.\<close>

fun pick_loop :: "bool \<Rightarrow> string \<Rightarrow> string \<Rightarrow> slot_row list \<Rightarrow> string res" where
  "pick_loop strict preferred fallback [] =
     (if strict then (if preferred = [] then Inl (BadRequest ''pilih jam terapi terlebih dahulu'')
        else Inl (BadRequest (''slot pukul '' @ preferred @ '' sudah penuh atau tidak tersedia - pilih jam lain'')))
      else if fallback \<noteq> [] then Inr fallback
      else Inl (BadRequest ''tidak ada slot tersedia untuk terapi ini''))"
| "pick_loop strict preferred fallback (s # rows) =
     (if strict then (if preferred = [] then pick_loop strict preferred fallback rows
        else if slotStartMatches (sl_start s) preferred then Inr (sl_id s)
        else pick_loop strict preferred fallback rows)
      else let fallback = (if fallback = [] then sl_id s else fallback) in
        if preferred \<noteq> [] \<and> slotStartMatches (sl_start s) preferred then Inr (sl_id s)
        else pick_loop strict preferred fallback rows)"

definition slots_of :: "evt_db \<Rightarrow> string \<Rightarrow> string \<Rightarrow> slot_row list" where
  "slots_of db event therapy = [s \<leftarrow> slots db. sl_event s = event \<and> sl_therapy s = therapy]"

definition free_slots :: "evt_db \<Rightarrow> string \<Rightarrow> string \<Rightarrow> slot_row list" where
  "free_slots db event therapy = sort_key sl_date (sort_key sl_start [s \<leftarrow> slots_of db event therapy. sl_booked s < sl_cap s])"

definition pickSlotForRegistration :: "env \<Rightarrow> evt_db \<Rightarrow> string \<Rightarrow> string \<Rightarrow> string \<Rightarrow> bool \<Rightarrow> string res" where
  "pickSlotForRegistration E db event therapy preferred0 strict = (let preferred = normalizePreferredTime preferred0 in
     ebind (sql_raw E ''slots.count'' (Inr (length (slots_of db event therapy)))) (\<lambda>total.
     ebind (guard (total \<noteq> 0) (BadRequest ''jadwal slot belum dibuat untuk terapi ini - owner perlu generate slot di tab Jadwal'')) (\<lambda>_.
     ebind (sql_raw E ''slots.free'' (Inr (free_slots db event therapy))) (\<lambda>rows.
     pick_loop strict preferred [] rows))))"

definition find_patient :: "evt_db \<Rightarrow> string \<Rightarrow> patient_row option" where
  "find_patient db i = find (\<lambda>p. pt_id p = i \<and> \<not> pt_deleted p) (patients db)"

definition write_patient :: "string \<Rightarrow> (patient_row \<Rightarrow> patient_row) \<Rightarrow> evt_db \<Rightarrow> evt_db" where
  "write_patient i f db = db\<lparr>patients := map (\<lambda>p. if pt_id p = i then f p else p) (patients db)\<rparr>"

definition tryAssignPatientSlot ::
  "env \<Rightarrow> string \<Rightarrow> string \<Rightarrow> string \<Rightarrow> string \<Rightarrow> bool \<Rightarrow> evt_db \<Rightarrow> evt_db res"
where
  "tryAssignPatientSlot E event patient therapy preferred0 strict db = (let preferred = trim_space preferred0 in
     if preferred = [] then Inr db
     else
       ebind (sql_raw E ''patient.slot'' (case find_patient db patient of None \<Rightarrow> Inl (Plain no_rows) | Some p \<Rightarrow> Inr p)) (\<lambda>p.
       if pt_slot p \<noteq> None then Inr db
       else
         ebind (pickSlotForRegistration E db event therapy preferred strict) (\<lambda>sid.
         ebind (lockAndIncrementSlot E sid db) (\<lambda>db1.
         sql_raw E ''patient.assign'' (Inr (write_patient patient (\<lambda>p. p\<lparr>pt_slot := Some sid\<rparr>) db1))))))"

definition assignPatientSlotBestEffort :: "env \<Rightarrow> string \<Rightarrow> string \<Rightarrow> string \<Rightarrow> string \<Rightarrow> evt_db \<Rightarrow> evt_db out" where
  "assignPatientSlotBestEffort E event patient therapy preferred db =
     try_out db (sql_raw E ''tenant.prepare'' (Inr ())) (\<lambda>_.
     try_out db (sql_raw E ''tx.begin'' (Inr ())) (\<lambda>_.
     try_out db (tryAssignPatientSlot E event patient therapy preferred False db) (\<lambda>db1.
     try_out db (sql_raw E ''tx.commit'' (Inr ())) (\<lambda>_. (None, db1)))))"

section \<open>Patients (patients.go, patient_contact.go)\<close>

record CreatePatientParams =
  cp_contact :: string
  cp_name :: string
  cp_birth :: string
  cp_therapy :: string
  cp_complaint :: string
  cp_preferred :: string

definition text_of :: "string option \<Rightarrow> string" where
  "text_of v = (case v of None \<Rightarrow> [] | Some s \<Rightarrow> trim_space s)"

text \<open>The parameters, filled in from the contact, and the contact's identifier.\<close>

definition resolvePatientContact :: "env \<Rightarrow> evt_db \<Rightarrow> CreatePatientParams \<Rightarrow> (CreatePatientParams \<times> string) res" where
  "resolvePatientContact E db p = (let contactID = trim_space (cp_contact p) in
     if contactID = [] then Inr (p, [])
     else
       ebind (sql E ''contact.load'' (case find (\<lambda>c. ct_id c = contactID \<and> \<not> ct_deleted c) (book_contacts db) of
           None \<Rightarrow> Inl (NotFound ''kontak tidak ditemukan'') | Some c \<Rightarrow> Inr c)) (\<lambda>c.
       let n0 = trim_space (cp_name p); n1 = (if n0 = [] then text_of (ct_name c) else n0); name = (if n1 = [] then text_of (ct_phone c) else n1) in
       ebind (guard (name \<noteq> []) (BadRequest ''kontak tidak punya nama - isi nama di kontak atau ketik manual'')) (\<lambda>_.
       let b0 = trim_space (cp_birth p); birth = (if b0 = [] then take 10 (text_of (ct_birth c)) else b0) in
       ebind (guard (birth \<noteq> []) (BadRequest (''tanggal lahir wajib - lengkapi di menu Contacts untuk '' @ name))) (\<lambda>_.
       let complaint = (if trim_space (cp_complaint p) = [] then text_of (ct_notes c) else trim_space (cp_complaint p)) in
       Inr (p\<lparr>cp_name := name, cp_birth := birth, cp_complaint := complaint\<rparr>, contactID)))))"

text \<open>The unique index on the patients of an event.\<close>

definition clashes :: "evt_db \<Rightarrow> string \<Rightarrow> patient_row \<Rightarrow> bool" where
  "clashes db except q \<longleftrightarrow> \<not> pt_deleted q \<and> pt_status q \<noteq> ''CANCELLED'' \<and> list_ex (\<lambda>p. pt_id p \<noteq> except \<and> pt_event p = pt_event q
     \<and> pt_name p = pt_name q \<and> pt_birth p = pt_birth q \<and> \<not> pt_deleted p \<and> pt_status p \<noteq> ''CANCELLED'') (patients db)"

definition insert_patient :: "env \<Rightarrow> patient_row \<Rightarrow> evt_db \<Rightarrow> (string \<times> evt_db) res" where
  "insert_patient E q db = (case evt_uuid E db of (i, db1) \<Rightarrow>
     if list_ex (\<lambda>p. pt_id p = i) (patients db) \<or> list_ex (\<lambda>p. pt_event p = pt_event q \<and> pt_name p = pt_name q
          \<and> pt_birth p = pt_birth q \<and> \<not> pt_deleted p \<and> pt_status p \<noteq> ''CANCELLED'') (patients db)
     then Inl (BadRequest ''pasien sudah terdaftar untuk acara ini'')
     else sql E ''patient.insert'' (Inr (i, db1\<lparr>patients := patients db1 @ [q\<lparr>pt_id := i\<rparr>]\<rparr>)))"

definition create_patient_tx ::
  "env \<Rightarrow> string \<Rightarrow> string \<Rightarrow> string \<Rightarrow> bool \<Rightarrow> bool \<Rightarrow> patient_row \<Rightarrow> evt_db \<Rightarrow> (string \<times> evt_db) res"
where
  "create_patient_tx E event therapy preferred requirePublished assignSlot q db =
     ebind (sql E ''tx.begin'' (Inr ())) (\<lambda>_.
     ebind (if assignSlot
            then ebind (pickSlotForRegistration E db event therapy (trim_space preferred) requirePublished) (\<lambda>sid.
                 ebind (lockAndIncrementSlot E sid db) (\<lambda>db1. Inr (Some sid, db1)))
            else Inr (None, db)) (\<lambda>(slot, db1).
     ebind (insert_patient E (q\<lparr>pt_slot := slot\<rparr>) db1) (\<lambda>(i, db2).
     sql E ''tx.commit'' (Inr (i, db2)))))"

definition registration_window :: "env \<Rightarrow> int \<Rightarrow> evt_db \<Rightarrow> string \<Rightarrow> unit res" where
  "registration_window E now db event = sql E ''event.window'' (case find_event db event of
       None \<Rightarrow> Inl (NotFound ''acara tidak ditemukan'')
     | Some ev \<Rightarrow>
         ebind (guard (upper (ev_status ev) = ''PUBLISHED'') (BadRequest ''Pendaftaran telah ditutup.'')) (\<lambda>_.
         guard (registrationOpen now (ev_open ev) (ev_close ev)) (BadRequest ''Pendaftaran telah ditutup.'')))"

definition therapy_linked :: "evt_db \<Rightarrow> string \<Rightarrow> string \<Rightarrow> bool" where
  "therapy_linked db event therapy \<longleftrightarrow> list_ex (\<lambda>s. et_event s = event \<and> et_therapy s = therapy) (settings db)"

definition createPatientForEvent ::
  "env \<Rightarrow> int \<Rightarrow> bool \<Rightarrow> (string \<Rightarrow> string) \<Rightarrow> string \<Rightarrow> CreatePatientParams \<Rightarrow> bool \<Rightarrow> bool \<Rightarrow> evt_db \<Rightarrow> (string, evt_db) reply"
where
  "createPatientForEvent E now encrypts blind event p0 requirePublished assignSlot db =
     try_reply db (openTenant E) (\<lambda>_.
     try_reply db (resolvePatientContact E db p0) (\<lambda>(p, contactID).
     let fullName = clampLen (cp_name p) maxPatientNameLen; complaint = clampLen (cp_complaint p) maxComplaintLen;
         preferred = clampLen (cp_preferred p) maxPreferredTimeLen; therapy = trim_space (cp_therapy p) in
     try_reply db (guard (trim_space fullName \<noteq> []) (BadRequest ''nama pasien wajib diisi'')) (\<lambda>_.
     try_reply db (guard (therapy \<noteq> []) (BadRequest ''terapi wajib dipilih'')) (\<lambda>_.
     try_reply db (normalizeBirthDate (cp_birth p)) (\<lambda>birth.
     try_reply db (guard encrypts (Internal ''encryption key not configured'')) (\<lambda>_.
     try_reply db (if requirePublished then assertEventMutable E db event
                   else ebind (assertEventExists E db event) (\<lambda>_. assertEventMutable E db event)) (\<lambda>_.
     try_reply db (if requirePublished then registration_window E now db event else Inr ()) (\<lambda>_.
     try_reply db (sql E ''therapy.linked'' (guard (therapy_linked db event therapy) (BadRequest ''terapi tidak tersedia untuk acara ini''))) (\<lambda>_.
     let q = \<lparr>pt_id = [], pt_event = event, pt_therapy = therapy, pt_contact = (if contactID = [] then None else Some contactID),
              pt_name = blind fullName, pt_birth = birth, pt_complaint = nullStr complaint, pt_preferred = nullStr preferred,
              pt_status = ''CONFIRMED'', pt_slot = None, pt_deleted = False\<rparr> in
     try_reply db (sql E ''patient.dup'' (guard (\<not> list_ex (\<lambda>r. pt_event r = event \<and> pt_name r = pt_name q \<and> pt_birth r = birth
         \<and> \<not> pt_deleted r \<and> pt_status r \<noteq> ''CANCELLED'') (patients db)) (BadRequest ''pasien sudah terdaftar untuk acara ini''))) (\<lambda>_.
     in_tx db (create_patient_tx E event therapy preferred requirePublished assignSlot q db) (\<lambda>i db1. (Inr i, db1))))))))))))"

definition CreateEventPatient ::
  "env \<Rightarrow> int \<Rightarrow> bool \<Rightarrow> (string \<Rightarrow> string) \<Rightarrow> AuthUser option \<Rightarrow> string \<Rightarrow> CreatePatientParams \<Rightarrow> evt_db \<Rightarrow> (string, evt_db) reply"
where
  "CreateEventPatient E now encrypts blind auth event p db =
     try_reply db (owner_call auth) (\<lambda>_.
     createPatientForEvent E now encrypts blind event p False (trim_space (cp_preferred p) \<noteq> []) db)"

text \<open>
  The public form. The tenant of the address is looked up before its tables are read; \<open>known\<close> says whether it
  exists.
\<close>

definition postPublicRegistration ::
  "env \<Rightarrow> int \<Rightarrow> bool \<Rightarrow> (string \<Rightarrow> string) \<Rightarrow> bool \<Rightarrow> string \<Rightarrow> string \<Rightarrow> CreatePatientParams \<Rightarrow> evt_db \<Rightarrow> (unit, evt_db) reply"
where
  "postPublicRegistration E now encrypts blind known tenantSlug slug p db =
     try_reply db (guard (trim_space tenantSlug \<noteq> []) (BadRequest ''tenant tidak valid'')) (\<lambda>_.
     try_reply db (sql_raw E ''tenant.slug'' (guard known (NotFound ''Acara tidak ditemukan''))) (\<lambda>_.
     try_reply db (sql_raw E ''tenant.prepare'' (Inr ())) (\<lambda>_.
     try_reply db (sql_raw E ''event.public'' (case find (\<lambda>r. ev_slug r = slug \<and> \<not> ev_deleted r) (events db) of
         None \<Rightarrow> Inl (NotFound ''Acara tidak ditemukan'') | Some ev \<Rightarrow> Inr ev)) (\<lambda>ev.
     try_reply db (guard (ev_status ev \<noteq> ''CANCELLED'') (BadRequest ''Acara dibatalkan.'')) (\<lambda>_.
     try_reply db (guard (ev_status ev = ''PUBLISHED'') (BadRequest ''Pendaftaran telah ditutup.'')) (\<lambda>_.
     try_reply db (guard (registrationOpen now (ev_open ev) (ev_close ev)) (BadRequest ''Pendaftaran telah ditutup.'')) (\<lambda>_.
     try_reply db (guard (trim_space (cp_name p) \<noteq> [] \<and> trim_space (cp_therapy p) \<noteq> []) (BadRequest ''nama dan terapi wajib diisi'')) (\<lambda>_.
     try_reply db (guard (\<not> length (trim_space (cp_name p)) > maxPatientNameLen) (BadRequest ''nama terlalu panjang'')) (\<lambda>_.
     try_reply db (guard (\<not> length (trim_space (cp_complaint p)) > maxComplaintLen) (BadRequest ''keluhan terlalu panjang'')) (\<lambda>_.
     try_reply db (guard (trim_space (cp_preferred p) \<noteq> []) (BadRequest ''pilih jam terapi terlebih dahulu'')) (\<lambda>_.
     reply_bind (createPatientForEvent E now encrypts blind (ev_id ev) (p\<lparr>cp_contact := []\<rparr>) True True db) (\<lambda>i db1.
     (Inr (), db1)))))))))))))"

definition valid_reservation :: "string \<Rightarrow> bool" where
  "valid_reservation st \<longleftrightarrow> st \<in> set [''CONFIRMED'', ''CANCELLED'', ''COMPLETED'']"

definition release_slot :: "string \<Rightarrow> evt_db \<Rightarrow> evt_db" where
  "release_slot i db = db\<lparr>slots := map (\<lambda>s. if sl_id s = i then s\<lparr>sl_booked := max 0 (sl_booked s - 1)\<rparr> else s) (slots db)\<rparr>"

definition release_of :: "env \<Rightarrow> bool \<Rightarrow> patient_row \<Rightarrow> evt_db \<Rightarrow> evt_db res" where
  "release_of E leaves p db = (case pt_slot p of
       Some sid \<Rightarrow> if leaves \<and> pt_status p = ''CONFIRMED'' then sql E ''slot.release'' (Inr (release_slot sid db)) else Inr db
     | None \<Rightarrow> Inr db)"

definition load_reservation :: "env \<Rightarrow> evt_db \<Rightarrow> string \<Rightarrow> string \<Rightarrow> patient_row res" where
  "load_reservation E db event i = sql E ''patient.load''
     (case find (\<lambda>p. pt_id p = i \<and> pt_event p = event \<and> \<not> pt_deleted p) (patients db) of
        None \<Rightarrow> Inl (NotFound ''pasien tidak ditemukan'') | Some p \<Rightarrow> Inr p)"

definition status_tx :: "env \<Rightarrow> string \<Rightarrow> string \<Rightarrow> string \<Rightarrow> evt_db \<Rightarrow> evt_db res" where
  "status_tx E event i st db =
     ebind (sql E ''tx.begin'' (Inr ())) (\<lambda>_.
     ebind (load_reservation E db event i) (\<lambda>p.
     ebind (release_of E (st = ''CANCELLED'') p db) (\<lambda>db1.
     ebind (sql E ''patient.status'' (if clashes db1 i (p\<lparr>pt_status := st\<rparr>) then Inl (Internal ''patient.status'')
       else Inr (write_patient i (\<lambda>q. if pt_event q = event then q\<lparr>pt_status := st\<rparr> else q) db1))) (\<lambda>db2.
     sql E ''tx.commit'' (Inr db2)))))"

definition UpdatePatientStatus :: "env \<Rightarrow> AuthUser option \<Rightarrow> string \<Rightarrow> string \<Rightarrow> string \<Rightarrow> evt_db \<Rightarrow> evt_db out" where
  "UpdatePatientStatus E auth event i status db =
     try_out db (owner_call auth) (\<lambda>_.
     let st = upper (trim_space status) in
     try_out db (guard (valid_reservation st) (BadRequest ''status reservasi tidak valid'')) (\<lambda>_.
     try_out db (openTenant E) (\<lambda>_.
     try_out db (assertEventMutable E db event) (\<lambda>_.
     try_out db (status_tx E event i st db) (\<lambda>db1. (None, db1))))))"

record UpdatePatientParams =
  ep_name :: string
  ep_birth :: string
  ep_therapy :: string
  ep_complaint :: string
  ep_preferred :: string
  ep_status :: string

text \<open>A failed statement, in contrast to a reply the code makes itself, ends the transaction.\<close>

definition ends_tx :: "app_error \<Rightarrow> bool" where
  "ends_tx e = (case e of Plain l \<Rightarrow> l \<noteq> no_rows | Internal l \<Rightarrow> True | _ \<Rightarrow> False)"

definition edit_patient :: "(string \<Rightarrow> string) \<Rightarrow> UpdatePatientParams \<Rightarrow> string \<Rightarrow> string \<Rightarrow> patient_row \<Rightarrow> patient_row" where
  "edit_patient blind p birth st q = q\<lparr>pt_name := blind (clampLen (ep_name p) maxPatientNameLen), pt_birth := birth,
     pt_therapy := ep_therapy p, pt_complaint := nullStr (ep_complaint p), pt_preferred := nullStr (ep_preferred p), pt_status := st\<rparr>"

definition edit_patient_tx ::
  "env \<Rightarrow> (string \<Rightarrow> string) \<Rightarrow> string \<Rightarrow> string \<Rightarrow> UpdatePatientParams \<Rightarrow> string \<Rightarrow> string \<Rightarrow> evt_db \<Rightarrow> evt_db res"
where
  "edit_patient_tx E blind event i p birth st db =
     ebind (sql E ''tx.begin'' (Inr ())) (\<lambda>_.
     ebind (sql E ''patient.update''
       (case find (\<lambda>q. pt_id q = i \<and> pt_event q = event \<and> \<not> pt_deleted q) (patients db) of
          Some q \<Rightarrow> if clashes db i (edit_patient blind p birth st q) then Inl (Internal ''patient.update'')
            else Inr (write_patient i (\<lambda>q. if pt_event q = event \<and> \<not> pt_deleted q then edit_patient blind p birth st q else q) db)
        | None \<Rightarrow> Inr db)) (\<lambda>db1.
     ebind (case tryAssignPatientSlot E event i (ep_therapy p) (ep_preferred p) False db1 of
         Inr db2 \<Rightarrow> Inr db2 | Inl e \<Rightarrow> if ends_tx e then Inl (Internal ''tx.commit'') else Inr db1) (\<lambda>db2.
     sql E ''tx.commit'' (Inr db2))))"

text \<open>The reply repeats the request; the model keeps the status it stored.\<close>

definition UpdateEventPatient ::
  "env \<Rightarrow> bool \<Rightarrow> (string \<Rightarrow> string) \<Rightarrow> AuthUser option \<Rightarrow> string \<Rightarrow> string \<Rightarrow> UpdatePatientParams \<Rightarrow> evt_db \<Rightarrow> (string, evt_db) reply"
where
  "UpdateEventPatient E encrypts blind auth event i p db =
     try_reply db (owner_call auth) (\<lambda>_.
     try_reply db (guard (trim_space (clampLen (ep_name p) maxPatientNameLen) \<noteq> []) (BadRequest ''nama pasien wajib diisi'')) (\<lambda>_.
     try_reply db (guard (trim_space (ep_therapy p) \<noteq> []) (BadRequest ''terapi wajib dipilih'')) (\<lambda>_.
     try_reply db (normalizeBirthDate (ep_birth p)) (\<lambda>birth.
     try_reply db (guard encrypts (Internal ''encryption key not configured'')) (\<lambda>_.
     try_reply db (openTenant E) (\<lambda>_.
     try_reply db (assertEventMutable E db event) (\<lambda>_.
     try_reply db (guard (\<not> db_fails E ''therapy.linked'' \<and> therapy_linked db event (ep_therapy p)) (BadRequest ''terapi tidak tersedia untuk acara ini'')) (\<lambda>_.
     let s0 = upper (trim_space (ep_status p)); st = (if s0 = [] then ''CONFIRMED'' else s0) in
     try_reply db (guard (valid_reservation st) (BadRequest ''status reservasi tidak valid'')) (\<lambda>_.
     in_tx db (ebind (edit_patient_tx E blind event i p birth st db) (\<lambda>db1. Inr (st, db1))) (\<lambda>st db1. (Inr st, db1)))))))))))"

definition deleteEventPatientInTx :: "env \<Rightarrow> string \<Rightarrow> string \<Rightarrow> evt_db \<Rightarrow> evt_db res" where
  "deleteEventPatientInTx E event i db =
     ebind (load_reservation E db event i) (\<lambda>p.
     ebind (release_of E True p db) (\<lambda>db1.
     sql E ''patient.delete'' (Inr (write_patient i (\<lambda>q. if pt_event q = event then q\<lparr>pt_deleted := True\<rparr> else q) db1))))"

definition delete_patient_tx :: "env \<Rightarrow> string \<Rightarrow> string \<Rightarrow> evt_db \<Rightarrow> evt_db res" where
  "delete_patient_tx E event i db =
     ebind (sql E ''tx.begin'' (Inr ())) (\<lambda>_.
     ebind (deleteEventPatientInTx E event i db) (\<lambda>db1.
     sql E ''tx.commit'' (Inr db1)))"

definition DeleteEventPatient :: "env \<Rightarrow> AuthUser option \<Rightarrow> string \<Rightarrow> string \<Rightarrow> evt_db \<Rightarrow> evt_db out" where
  "DeleteEventPatient E auth event i db =
     try_out db (owner_call auth) (\<lambda>_.
     try_out db (openTenant E) (\<lambda>_.
     try_out db (assertEventMutable E db event) (\<lambda>_.
     try_out db (delete_patient_tx E event i db) (\<lambda>db1. (None, db1)))))"

record DeletePatientsResponse =
  dp_deleted :: nat
  dp_failed :: nat
  dp_errors :: "(string \<times> app_error) list"

text \<open>A transaction that cannot begin ends the request; every other error is noted.\<close>

fun delete_patients_loop ::
  "(nat \<Rightarrow> env) \<Rightarrow> string \<Rightarrow> nat \<Rightarrow> string list \<Rightarrow> string list \<Rightarrow> DeletePatientsResponse \<Rightarrow> evt_db \<Rightarrow> (DeletePatientsResponse, evt_db) reply"
where
  "delete_patients_loop Es event n seen [] r db = (Inr r, db)"
| "delete_patients_loop Es event n seen (raw # ids) r db =
     (let i = trim_space raw; E = Es n in
      if i = [] \<or> i \<in> set seen then delete_patients_loop Es event (Suc n) seen ids r db
      else
        try_reply db (sql E ''tx.begin'' (Inr ())) (\<lambda>_.
        case ebind (deleteEventPatientInTx E event i db) (\<lambda>db1. sql E ''tx.commit'' (Inr db1)) of
          Inl e \<Rightarrow> delete_patients_loop Es event (Suc n) (i # seen) ids
            (r\<lparr>dp_failed := Suc (dp_failed r), dp_errors := dp_errors r @ [(i, e)]\<rparr>) db
        | Inr db1 \<Rightarrow> delete_patients_loop Es event (Suc n) (i # seen) ids (r\<lparr>dp_deleted := Suc (dp_deleted r)\<rparr>) db1))"

definition DeletePatientsBulk ::
  "env \<Rightarrow> (nat \<Rightarrow> env) \<Rightarrow> AuthUser option \<Rightarrow> string \<Rightarrow> string list \<Rightarrow> evt_db \<Rightarrow> (DeletePatientsResponse, evt_db) reply"
where
  "DeletePatientsBulk E Es auth event ids db =
     try_reply db (owner_call auth) (\<lambda>_.
     try_reply db (guard (ids \<noteq> []) (BadRequest ''pilih minimal satu pasien'')) (\<lambda>_.
     try_reply db (openTenant E) (\<lambda>_.
     try_reply db (assertEventMutable E db event) (\<lambda>_.
     delete_patients_loop Es event 0 [] ids \<lparr>dp_deleted = 0, dp_failed = 0, dp_errors = []\<rparr> db))))"

end
