(* ===== verification/Event_Clock_Laws.thy ===== *)
theory Event_Clock_Laws
  imports Event_Clock Schedule_Laws
begin

text \<open>
  The loops over the slots of a day and over the days of an event: when they end, and what they build.
\<close>

section \<open>The loop over the slots\<close>

lemma slot_loop_returns:
  assumes "0 < step"
  shows "slot_loop step en cur out = Some (out @ map (\<lambda>i. slot_at step (cur + int i * step)) [0..<nat ((en - cur) div step)])"
proof (induction "nat ((en - cur) div step)" arbitrary: cur out)
  case 0
  then have "(en - cur) div step \<le> 0" by simp
  then have "\<not> (cur < en \<and> cur + step \<le> en)" using assms pos_imp_zdiv_pos_iff[of step "en - cur"] by auto
  then show ?case using 0 by (subst slot_loop.simps) auto
next
  case (Suc n)
  have "0 < (en - cur) div step" using Suc.hyps(2) by linarith
  then have room: "step \<le> en - cur" using assms pos_imp_zdiv_pos_iff[of step "en - cur"] by simp
  have "en - (cur + step) = (en - cur) + (- 1) * step" by simp
  then have d: "(en - (cur + step)) div step = (en - cur) div step - 1"
    using assms by (metis add.commute div_mult_self1 less_irrefl uminus_add_conv_diff)
  then have n: "n = nat ((en - (cur + step)) div step)" using Suc.hyps(2) by simp
  have "[0..<nat ((en - cur) div step)] = 0 # map Suc [0..<n]"
    using Suc.hyps(2) map_Suc_upt[of 0 n] by (simp add: upt_conv_Cons)
  moreover have "slot_loop step en cur out = slot_loop step en (cur + step) (out @ [slot_at step cur])"
    using room assms by (subst slot_loop.simps) auto
  ultimately show ?case
    using Suc.hyps(1)[OF n, of "out @ [slot_at step cur]"] n[symmetric] by (simp add: algebra_simps)
qed

lemma slot_loop_stuck:
  assumes "step \<le> 0" "cur < en"
  shows "slot_loop step en cur out = None"
proof -
  have "slot_loop step en cur out = Some r \<Longrightarrow> \<not> (step \<le> 0 \<and> cur < en)" for r
    by (rule slot_loop.raw_induct[rotated], assumption) (fastforce split: if_splits)
  then show ?thesis using assms by fastforce
qed

lemma minutes_exact: "\<bar>d\<bar> \<le> 153722867 \<Longrightarrow> minutes d = d * 60000000000"
  unfolding minutes_def by (subst sint_sbintrunc', subst signed_take_bit_int_eq_self) simp_all

section \<open>The loop over the days\<close>

lemma after_day_no: "valid_ymd s \<Longrightarrow> valid_ymd t \<Longrightarrow> after_day s t \<longleftrightarrow> day_no t < day_no s"
proof (cases s, cases t)
  fix y m d y' m' d'
  assume v: "valid_ymd s" "valid_ymd t" "s = (y, m, d)" "t = (y', m', d')"
  have "m \<le> 12" "d \<le> 31" "m' \<le> 12" "d' \<le> 31" using v days_in_bounds(2)[of m y] days_in_bounds(2)[of m' y'] by auto
  then show ?thesis using v by (auto simp: after_day_def)
qed

lemma day_loop_returns:
  assumes "valid_ymd d" "valid_ymd ed"
  shows "\<exists>n. day_loop ed d out = Some (out @ map (\<lambda>i. (next_day ^^ i) d) [0..<n])"
  using assms(1)
proof (induction "Suc (day_no ed) - day_no d" arbitrary: d out rule: less_induct)
  case less
  show ?case
  proof (cases "after_day d ed")
    case True
    then show ?thesis by (subst day_loop.simps) (auto intro!: exI[of _ 0])
  next
    case False
    note nx = next_day_later[OF less.prems]
    have "day_no d \<le> day_no ed" using False after_day_no[OF less.prems assms(2)] by simp
    then have "Suc (day_no ed) - day_no (next_day d) < Suc (day_no ed) - day_no d" using nx by arith
    from less.hyps[OF this, of "out @ [d]"] nx obtain n
      where n: "day_loop ed (next_day d) (out @ [d]) = Some ((out @ [d]) @ map (\<lambda>i. (next_day ^^ i) (next_day d)) [0..<n])" by blast
    have "[0..<Suc n] = 0 # map Suc [0..<n]" by (simp add: map_Suc_upt upt_conv_Cons)
    then show ?thesis using False n AddDate_days[OF less.prems, of 1]
      by (subst day_loop.simps) (auto simp: funpow_swap1 intro!: exI[of _ "Suc n"])
  qed
qed

lemma date_or_zero_valid: "valid_ymd (date_or_zero s)"
  using parse_format[of s] by (auto simp: date_or_zero_def days_in_def split: option.splits)

section \<open>Slots outside the break\<close>

lemma parsed_bounds:
  assumes "parseClockTime s = Inr t" "trim_space s = s" "parseClockTime e = Inr u" "trim_space e = e"
  shows "day_bounds s e = (t, u)"
  using assms by (auto simp: parseClockTime_def day_bounds_def or_zero_def Let_def split: option.splits if_splits)

text \<open>Slots that start at the times \<open>ts\<close>, one after the other between \<open>a\<close> and \<open>b\<close>.\<close>

definition in_row :: "int \<Rightarrow> gotime \<Rightarrow> gotime \<Rightarrow> gotime list \<Rightarrow> bool" where
  "in_row step a b ts \<longleftrightarrow> (\<forall>t\<in>set ts. a \<le> t \<and> t + step \<le> b) \<and> sorted_wrt (\<lambda>t u. t + step \<le> u) ts"

lemma in_row_append: "in_row step a b ts \<Longrightarrow> in_row step c d us \<Longrightarrow> 0 < step \<Longrightarrow> b \<le> c \<Longrightarrow> a \<le> b \<Longrightarrow> c \<le> d \<Longrightarrow> in_row step a d (ts @ us)"
  by (fastforce simp: in_row_def sorted_wrt_append)

lemma built_in_row:
  assumes "parseClockTime s = Inr t" "trim_space s = s" "parseClockTime e = Inr u" "trim_space e = e" "0 < minutes d"
  obtains ts where "buildDaySlots s e d = Some (map (slot_at (minutes d)) ts)" "in_row (minutes d) t u ts"
    "length ts = nat ((u - t) div minutes d)"
proof -
  let ?n = "nat ((u - t) div minutes d)" let ?ts = "map (\<lambda>i. t + int i * minutes d) [0..<?n]"
  have "buildDaySlots s e d = Some (map (slot_at (minutes d)) ?ts)"
    using slot_loop_returns[OF assms(5), of u t "[]"] by (simp add: buildDaySlots_def parsed_bounds[OF assms(1-4)] comp_def)
  moreover have "in_row (minutes d) t u ?ts"
  proof -
    have "t + int i * minutes d + minutes d \<le> u" if "i < ?n" for i
    proof -
      have "int i + 1 \<le> (u - t) div minutes d" using that by linarith
      then have "(int i + 1) * minutes d \<le> (u - t) div minutes d * minutes d" using assms(5) by (intro mult_right_mono) auto
      also have "\<dots> \<le> u - t" using assms(5) pos_mod_sign[of "minutes d" "u - t"] by (simp add: minus_mod_eq_div_mult[symmetric])
      finally show ?thesis by (simp add: algebra_simps)
    qed
    moreover have "sorted_wrt (\<lambda>x y. x + minutes d \<le> y) ?ts"
    proof -
      have "int i * minutes d + minutes d \<le> int j * minutes d" if "i < j" for i j :: nat
        using mult_right_mono[of "int i + 1" "int j" "minutes d"] that assms(5) by (simp add: algebra_simps)
      then show ?thesis by (simp add: sorted_wrt_map sorted_wrt_iff_nth_less)
    qed
    ultimately show ?thesis using assms(5) by (auto simp: in_row_def)
  qed
  ultimately show ?thesis using that[of ?ts] by simp
qed

text \<open>
  The slots of a day with a break: each inside the day, none over the break, in order and apart.
\<close>

lemma break_in_row:
  assumes "dayScheduleSegments s e bs be = Inr gs" "trim_space s = s" "trim_space e = e" "0 < minutes d"
    and "parseClockTime s = Inr st" "parseClockTime e = Inr en"
  obtains ts where "build_segments d gs [] = Some (map (slot_at (minutes d)) ts)" "in_row (minutes d) st en ts" "ts = [] \<or> st < en"
    "\<And>b c x y t. bs = Some b \<Longrightarrow> be = Some c \<Longrightarrow> parseClockTime b = Inr x \<Longrightarrow> parseClockTime c = Inr y \<Longrightarrow> x < y \<Longrightarrow>
       st < x \<or> y < en \<Longrightarrow> t \<in> set ts \<Longrightarrow> t + minutes d \<le> x \<or> y \<le> t"
proof -
  have lt: "st < en" using assms(1,5,6) by (auto simp: dayScheduleSegments_def Let_def res_simps)
  obtain ws where ws: "buildDaySlots s e d = Some (map (slot_at (minutes d)) ws)" "in_row (minutes d) st en ws"
    using built_in_row[OF assms(5,2,6,3,4)] by blast
  have tr: "parseClockTime (trim_space b) = parseClockTime b" for b by (simp add: parseClockTime_def)
  note seg = assms(1)[unfolded dayScheduleSegments_def Let_def assms(5,6) ebind_Inr]
  let ?whole = "[\<lparr>dg_start = s, dg_end = e\<rparr>]"
  let ?cut = "\<lambda>b c x y. (if st < x then [\<lparr>dg_start = s, dg_end = trim_space b\<rparr>] else []) @ (if y < en then [\<lparr>dg_start = trim_space c, dg_end = e\<rparr>] else [])"
  consider (whole) "gs = ?whole" "\<And>b c x y. bs = Some b \<Longrightarrow> be = Some c \<Longrightarrow> parseClockTime b = Inr x \<Longrightarrow>
        parseClockTime c = Inr y \<Longrightarrow> x < y \<Longrightarrow> st < x \<or> y < en \<Longrightarrow> en \<le> x \<or> y \<le> st"
    | (cut) b c x y where "bs = Some b" "be = Some c" "parseClockTime b = Inr x" "parseClockTime c = Inr y" "x < y" "x < en" "st < y"
        "gs = ?cut b c x y"
  proof (cases "\<exists>b c. bs = Some b \<and> be = Some c \<and> trim_space b \<noteq> [] \<and> trim_space c \<noteq> []")
    case False
    have "parseClockTime b = Inl (BadRequest ''jam tidak valid'')" if "trim_space b = []" for b using that by (simp add: parseClockTime_def)
    then have "parseClockTime b = Inr x \<Longrightarrow> trim_space b \<noteq> []" for b x by fastforce
    moreover have "gs = ?whole" using False seg lt by (auto split: option.splits)
    ultimately show ?thesis using whole False by blast
  next
    case True
    then obtain b c where bc: "bs = Some b" "be = Some c" "trim_space b \<noteq> []" "trim_space c \<noteq> []" by blast
    from seg bc lt obtain x y where xy: "parseClockTime b = Inr x" "parseClockTime c = Inr y"
        "(if \<not> x < y then Inr ?whole else if \<not> x < en \<or> \<not> st < y then Inr ?whole
          else Inr (if ?cut b c x y = [] then ?whole else ?cut b c x y)) = (Inr gs :: daySegment list res)"
      by (simp add: tr) (auto simp: ebind_eq_Inr)
    show ?thesis
    proof (cases "x < y \<and> x < en \<and> st < y \<and> (st < x \<or> y < en)")
      case True
      then show ?thesis using cut[OF bc(1,2) xy(1,2)] xy(3) by auto
    next
      case False
      then have "gs = ?whole" using xy(3) by (auto split: if_splits)
      moreover have "en \<le> x' \<or> y' \<le> st" if "bs = Some b'" "be = Some c'" "parseClockTime b' = Inr x'" "parseClockTime c' = Inr y'" "x' < y'"
          "st < x' \<or> y' < en" for b' c' x' y'
        using that False bc(1,2) xy(1,2) by auto
      ultimately show ?thesis by (rule whole)
    qed
  qed
  then show ?thesis
  proof cases
    case whole
    have "t + minutes d \<le> x \<or> y \<le> t" if "en \<le> x \<or> y \<le> st" "t \<in> set ws" for t x y using ws(2) that by (auto simp: in_row_def)
    then show ?thesis using that[of ws] ws whole lt by simp
  next
    case cut
    obtain us where us: "buildDaySlots s (trim_space b) d = Some (map (slot_at (minutes d)) us)" "in_row (minutes d) st x us"
      using built_in_row[of s st "trim_space b" x d] assms cut(3) tr by auto
    obtain vs where vs: "buildDaySlots (trim_space c) e d = Some (map (slot_at (minutes d)) vs)" "in_row (minutes d) y en vs"
      using built_in_row[of "trim_space c" y e en d] assms cut(4) tr by auto
    let ?us = "if st < x then us else []" and ?vs = "if y < en then vs else []"
    have r: "in_row (minutes d) st en (?us @ ?vs)"
      using us(2) vs(2) cut(5-7) assms(4) by (fastforce simp: in_row_def sorted_wrt_append split: if_splits)
    have "t + minutes d \<le> x \<or> y \<le> t" if "t \<in> set (?us @ ?vs)" for t
      using us(2) vs(2) that by (auto simp: in_row_def split: if_splits)
    note apart = this
    show ?thesis
    proof (rule that[of "?us @ ?vs"])
      show "build_segments d gs [] = Some (map (slot_at (minutes d)) (?us @ ?vs))" using us(1) vs(1) by (auto simp: cut(8))
      fix b' c' x' y' t assume "bs = Some b'" "be = Some c'" "parseClockTime b' = Inr x'" "parseClockTime c' = Inr y'" "t \<in> set (?us @ ?vs)"
      then show "t + minutes d \<le> x' \<or> y' \<le> t" using apart[of t] cut(1-4) by auto
    qed (use r lt in auto)
  qed
qed

end
