(* ===== verification/Events_Laws.thy ===== *)
theory Events_Laws
  imports Events Event_Clock_Laws
begin

text \<open>
  The laws of slots and reservations. A request is one call of a handler by any caller; a history
  is a list of requests, each with environments, clock and outside functions of its own. What every
  single write keeps is carried to whole histories by the locale \<open>event_invariant\<close>, which is interpreted for
  the durations of the settings and for the seats of the slots.
\<close>

declare split_paired_All [simp del] split_paired_Ex [simp del]

section \<open>Histories of requests\<close>

datatype event_call =
    SaveSetting string UpsertEventTherapyParams
  | Generate string string
  | DropSlot string string
  | DropSlots string "string list"
  | AddPatient string CreatePatientParams
  | SignUp bool string string CreatePatientParams
  | Assign string string string string
  | SetStatus string string string
  | EditPatient string string UpdatePatientParams
  | DropPatient string string
  | DropPatients string "string list"

record evt_req =
  rq_env :: env
  rq_envs :: "nat \<Rightarrow> env"
  rq_time :: "string \<Rightarrow> string option"
  rq_now :: int
  rq_enc :: bool
  rq_blind :: "string \<Rightarrow> string"
  rq_auth :: "AuthUser option"

text \<open>The tables a request leaves; \<open>None\<close> is a request that never returns.\<close>

fun attend :: "evt_req \<Rightarrow> event_call \<Rightarrow> evt_db \<Rightarrow> evt_db option" where
  "attend q (SaveSetting ev p) a = Some (snd (UpsertEventTherapySetting (rq_env q) (rq_time q) (rq_auth q) ev p a))"
| "attend q (Generate ev th) a = map_option snd (GenerateTimeSlots (rq_env q) (rq_envs q) (rq_auth q) ev th a)"
| "attend q (DropSlot ev i) a = Some (snd (DeleteTimeSlot (rq_env q) (rq_auth q) ev i a))"
| "attend q (DropSlots ev is) a = Some (snd (DeleteTimeSlotsBulk (rq_env q) (rq_envs q) (rq_auth q) ev is a))"
| "attend q (AddPatient ev p) a = Some (snd (CreateEventPatient (rq_env q) (rq_now q) (rq_enc q) (rq_blind q) (rq_auth q) ev p a))"
| "attend q (SignUp known tenant slug p) a =
     Some (snd (postPublicRegistration (rq_env q) (rq_now q) (rq_enc q) (rq_blind q) known tenant slug p a))"
| "attend q (Assign ev i th pref) a = Some (snd (assignPatientSlotBestEffort (rq_env q) ev i th pref a))"
| "attend q (SetStatus ev i st) a = Some (snd (UpdatePatientStatus (rq_env q) (rq_auth q) ev i st a))"
| "attend q (EditPatient ev i p) a = Some (snd (UpdateEventPatient (rq_env q) (rq_enc q) (rq_blind q) (rq_auth q) ev i p a))"
| "attend q (DropPatient ev i) a = Some (snd (DeleteEventPatient (rq_env q) (rq_auth q) ev i a))"
| "attend q (DropPatients ev is) a = Some (snd (DeletePatientsBulk (rq_env q) (rq_envs q) (rq_auth q) ev is a))"

fun attends :: "(evt_req \<times> event_call) list \<Rightarrow> evt_db \<Rightarrow> evt_db option" where
  "attends [] a = Some a"
| "attends ((q, c) # rs) a = Option.bind (attend q c a) (attends rs)"

fun attended :: "(event_call \<Rightarrow> evt_db \<Rightarrow> bool) \<Rightarrow> (evt_req \<times> event_call) list \<Rightarrow> evt_db \<Rightarrow> bool" where
  "attended ok [] a = True"
| "attended ok ((q, c) # rs) a = (ok c a \<and> (case attend q c a of None \<Rightarrow> True | Some b \<Rightarrow> attended ok rs b))"

section \<open>What requests write\<close>

fun registers :: "event_call \<Rightarrow> bool" where
  "registers (AddPatient ev p) = True" | "registers (SignUp known tenant slug p) = True" | "registers c = False"

fun removes :: "event_call \<Rightarrow> bool" where
  "removes (DropPatient ev i) = True" | "removes (DropPatients ev is) = True" | "removes c = False"

inductive event_step :: "event_call \<Rightarrow> evt_db \<Rightarrow> evt_db \<Rightarrow> bool" where
  save: "upsert_setting_tx E pg ev p dur cm m ts a = Inr (i, b) \<Longrightarrow> 0 < dur \<Longrightarrow> dur \<le> 480 \<Longrightarrow> event_step (SaveSetting ev p) a b"
| put: "put_slot E ev th date sl cap a = Inr b \<Longrightarrow> 0 \<le> cap \<Longrightarrow> event_step (Generate ev th) a b"
| clean: "\<forall>s\<in>set (slots a). gone s \<longrightarrow> sl_booked s = 0 \<and> \<not> referenced a (sl_id s) \<Longrightarrow>
    event_step c a (a\<lparr>slots := [s \<leftarrow> slots a. \<not> gone s]\<rparr>)"
| drop: "find_slot a ev i = Some s \<Longrightarrow> \<not> 0 < sl_booked s \<Longrightarrow> drop_slot E ev i a = Inr b \<Longrightarrow> event_step c a b"
| detach: "event_step c a (detach_deleted i a)"
| register: "create_patient_tx E ev th pref rp as q a = Inr (i, b) \<Longrightarrow> registers c \<Longrightarrow> event_step c a b"
| assign: "tryAssignPatientSlot E ev i th pref False a = Inr b \<Longrightarrow> event_step (Assign ev i th pref) a b"
| status: "status_tx E ev i st a = Inr b \<Longrightarrow> st = upper (trim_space st0) \<Longrightarrow> event_step (SetStatus ev i st0) a b"
| edit: "edit_patient_tx E blind ev i p birth st a = Inr b \<Longrightarrow> st = (if upper (trim_space (ep_status p)) = [] then ''CONFIRMED'' else upper (trim_space (ep_status p))) \<Longrightarrow>
    event_step (EditPatient ev i p) a b"
| remove: "deleteEventPatientInTx E ev i a = Inr b \<Longrightarrow> removes c \<Longrightarrow> event_step c a b"

definition under :: "(event_call \<Rightarrow> evt_db \<Rightarrow> bool) \<Rightarrow> (evt_db \<Rightarrow> bool) \<Rightarrow> event_call \<Rightarrow> evt_db \<Rightarrow> bool" where
  "under ok I c a \<longleftrightarrow> I a \<and> ok c a"

lemma capacity_nonneg: "computeTherapyCapacity E a ev th m cap = Inr n \<Longrightarrow> 0 \<le> n"
  by (auto simp: computeTherapyCapacity_def fixed_capacity_def res_simps split: if_splits option.splits)

lemma load_generation_ids: "load_generation E auth ev th a = Inr (e, s, tpl) \<Longrightarrow> ev_id e = ev \<and> et_therapy s = th \<and> s \<in> set (settings a)"
  by (auto simp: load_generation_def res_simps find_event_def find_Some_iff split: if_splits option.splits)

text \<open>Carrying an invariant from the single writes to whole histories.\<close>

locale event_invariant =
  fixes ok :: "event_call \<Rightarrow> evt_db \<Rightarrow> bool" and I :: "evt_db \<Rightarrow> bool"
  assumes step: "event_step c a b \<Longrightarrow> ok c a \<Longrightarrow> I a \<Longrightarrow> I b \<and> ok c b"
begin

lemmas keeps = keeps_try[of "under ok I c" for c] keeps_tx[of "under ok I c" for c] keeps_out[of "under ok I c" for c]
  keeps_bind[of "under ok I c" for c]

lemma carry: "event_step c a b \<Longrightarrow> under ok I c a \<Longrightarrow> under ok I c b"
  using step by (auto simp: under_def)

lemma put_slots_keep: "under ok I (Generate ev th) a \<Longrightarrow> 0 \<le> cap \<Longrightarrow> under ok I (Generate ev th) (snd (put_slots Es ev th cm date cap sls n a))"
proof (induction sls arbitrary: n a)
  case (Cons sl sls)
  let ?cap = "if upper cm = ''FIXED'' \<and> sg_cap sl > 0 then sg_cap sl else cap"
  have "under ok I (Generate ev th) b" if "put_slot (Es n) ev th date sl ?cap a = Inr b" for b
    by (rule carry[OF put[OF that]]) (use Cons.prems in auto)
  then show ?case using Cons by (auto simp: Let_def intro!: keeps)
qed simp

lemma generate_days_keep:
  "under ok I (Generate ev (et_therapy s)) a \<Longrightarrow> generate_days Es ev s sls ds n a = Some r \<Longrightarrow> under ok I (Generate ev (et_therapy s)) (snd r)"
proof (induction ds arbitrary: n a)
  case (Cons d ds)
  let ?cap = "computeTherapyCapacity (Es n) a ev (et_therapy s) (et_capmode s) (et_max s)"
  have "under ok I (Generate ev (et_therapy s)) (snd (put_slots Es ev (et_therapy s) (et_capmode s) (format_ymd d) c xs n a))" if "?cap = Inr c" for c xs
    by (rule put_slots_keep[OF Cons.prems(1) capacity_nonneg[OF that]])
  then show ?case using Cons by (auto split: sum.splits option.splits prod.splits) (metis snd_conv)+
qed auto

lemma cleanup_keeps: "under ok I c a \<Longrightarrow> under ok I c (snd (cleanupBreakWindowSlots E ev th bs be a))"
proof -
  assume a: "under ok I c a"
  let ?gone = "\<lambda>s. in_window ev th bs be s \<and> sl_booked s = 0"
  have "under ok I c (a\<lparr>slots := [s \<leftarrow> slots a. \<not> ?gone s]\<rparr>)" if "\<not> list_ex (\<lambda>s. ?gone s \<and> referenced a (sl_id s)) (slots a)"
    by (rule carry[OF clean a]) (use that in \<open>auto simp: list_ex_iff\<close>)
  then show ?thesis using a unfolding cleanupBreakWindowSlots_def Let_def
    by (intro keeps(1)) (auto simp: try_reply_def sql_def)
qed

lemma generate_keeps:
  assumes "under ok I (Generate ev th) a" "GenerateTimeSlots E Es auth ev th a = Some r"
  shows "under ok I (Generate ev th) (snd r)"
proof -
  have gen: "under ok I (Generate ev th) (snd r)" if "generate_slots E Es e s sls ds a = Some r" "ev_id e = ev" "et_therapy s = th" for e s sls ds
    using that assms(1) generate_days_keep[of ev s a] unfolding generate_slots_def
    by (auto intro!: keeps(4) intro: cleanup_keeps split: option.splits) (fastforce intro: cleanup_keeps)
  show ?thesis
  proof (cases "load_generation E auth ev th a")
    case (Inr x)
    obtain e s tpl where x: "x = (e, s, tpl)" by (cases x)
    then have "\<exists>sls ds. generate_slots E Es e s sls ds a = Some r"
      using assms(2) Inr by (auto simp: GenerateTimeSlots_def bind_eq_Some_conv)
    then show ?thesis using gen load_generation_ids[OF Inr[unfolded x]] by blast
  qed (use assms in \<open>auto simp: GenerateTimeSlots_def\<close>)
qed

lemma setting_keeps:
  assumes "under ok I (SaveSetting ev p) a"
  shows "under ok I (SaveSetting ev p) (snd (UpsertEventTherapySetting E pg auth ev p a))"
proof -
  have "under ok I (SaveSetting ev p) b"
    if "upsert_setting_tx E pg ev p dur cm m ts a = Inr (i, b)" "\<not> (up_dur p > 0 \<and> (up_dur p < 5 \<or> up_dur p > 480))"
      "dur = (if up_dur p \<le> 0 then 30 else up_dur p)" for dur cm m ts i b
    by (rule carry[OF save[OF that(1)] assms]) (use that(2,3) in \<open>auto split: if_splits\<close>)
  then show ?thesis unfolding UpsertEventTherapySetting_def Let_def
    using assms by (intro keeps(1,2)) (auto simp: res_simps)
qed

lemma drop_slot_keeps:
  assumes "under ok I c a" "find_slot a ev i = Some s" "\<not> 0 < sl_booked s" "drop_slot E' ev i (detach_deleted i a) = Inr b"
  shows "under ok I c b"
  by (rule carry[OF drop[OF _ assms(3,4)] carry[OF detach assms(1)]]) (use assms(2) in \<open>simp add: find_slot_def detach_deleted_def\<close>)

lemma delete_slot_keeps:
  assumes "under ok I c a"
  shows "under ok I c (snd (DeleteTimeSlot E auth ev i a))"
  unfolding DeleteTimeSlot_def using assms carry[OF detach assms] drop_slot_keeps[OF assms]
  by (intro keeps(3)) (auto simp: res_simps split: option.splits)

lemma delete_slots_keep: "under ok I c a \<Longrightarrow> under ok I c (snd (delete_slots_loop Es ev n seen ids r a))"
proof (induction ids arbitrary: n seen r a)
  case (Cons raw ids)
  let ?i = "trim_space raw"
  have d: "under ok I c (detach_deleted ?i a)" by (rule carry[OF detach Cons.prems])
  have "under ok I c b" if "drop_slot (Es n) ev ?i (detach_deleted ?i a) = Inr b" "find_slot a ev ?i = Some s" "\<not> 0 < sl_booked s" for s b
    using drop_slot_keeps[OF Cons.prems that(2,3,1)] .
  then show ?case using Cons d by (auto simp: Let_def res_simps intro!: keeps(1) split: option.splits)
qed simp

lemma delete_bulk_keeps: "under ok I c a \<Longrightarrow> under ok I c (snd (DeleteTimeSlotsBulk E Es auth ev ids a))"
  unfolding DeleteTimeSlotsBulk_def by (intro keeps(1)) (auto intro: delete_slots_keep)

lemma create_keeps: "under ok I c a \<Longrightarrow> registers c \<Longrightarrow> under ok I c (snd (createPatientForEvent E now enc blind ev p rp as a))"
proof -
  assume a: "under ok I c a" "registers c"
  have "under ok I c b" if "create_patient_tx E ev' th pref rp' as' q a = Inr (i, b)" for ev' th pref rp' as' q i b
    by (rule carry[OF register[OF that a(2)] a(1)])
  then show ?thesis using a unfolding createPatientForEvent_def Let_def by (intro keeps(1,2)) (auto intro!: keeps(1,2) split: prod.splits)
qed

lemma status_keeps:
  assumes "under ok I (SetStatus ev i st) a"
  shows "under ok I (SetStatus ev i st) (snd (UpdatePatientStatus E auth ev i st a))"
  unfolding UpdatePatientStatus_def Let_def using assms carry[OF status[OF _ refl] assms]
  by (intro keeps(3)) auto

lemma edit_keeps:
  assumes "under ok I (EditPatient ev i p) a"
  shows "under ok I (EditPatient ev i p) (snd (UpdateEventPatient E enc blind auth ev i p a))"
  unfolding UpdateEventPatient_def Let_def using assms carry[OF edit[OF _ refl] assms]
  by (intro keeps(1,2)) (auto simp: res_simps)

lemma assign_keeps:
  assumes "under ok I (Assign ev i th pref) a"
  shows "under ok I (Assign ev i th pref) (snd (assignPatientSlotBestEffort E ev i th pref a))"
  unfolding assignPatientSlotBestEffort_def using assms carry[OF assign assms]
  by (intro keeps(3)) auto

lemma delete_patient_keeps:
  assumes "under ok I c a" "removes c"
  shows "under ok I c (snd (DeleteEventPatient E auth ev i a))"
  unfolding DeleteEventPatient_def delete_patient_tx_def using assms(1) carry[OF remove[OF _ assms(2)] assms(1)]
  by (intro keeps(3)) (auto simp: res_simps)

lemma delete_patients_keep: "under ok I c a \<Longrightarrow> removes c \<Longrightarrow> under ok I c (snd (delete_patients_loop Es ev n seen ids r a))"
proof (induction ids arbitrary: n seen r a)
  case (Cons raw ids)
  have "under ok I c b" if "deleteEventPatientInTx (Es n) ev (trim_space raw) a = Inr b" for b by (rule carry[OF remove[OF that Cons.prems(2)] Cons.prems(1)])
  then show ?case using Cons by (auto simp: Let_def res_simps intro!: keeps(1) split: sum.splits)
qed simp

lemma delete_patients_bulk_keeps: "under ok I c a \<Longrightarrow> removes c \<Longrightarrow> under ok I c (snd (DeletePatientsBulk E Es auth ev ids a))"
  unfolding DeletePatientsBulk_def by (intro keeps(1)) (auto intro: delete_patients_keep)

lemma attend_keeps: "under ok I c a \<Longrightarrow> attend q c a = Some b \<Longrightarrow> under ok I c b"
  by (cases c) (auto simp: CreateEventPatient_def postPublicRegistration_def intro!: keeps(1,4)
      intro: setting_keeps generate_keeps delete_slot_keeps delete_bulk_keeps create_keeps status_keeps edit_keeps assign_keeps
        delete_patient_keeps delete_patients_bulk_keeps)

lemma attends_keep: "I a \<Longrightarrow> attended ok rs a \<Longrightarrow> attends rs a = Some b \<Longrightarrow> I b"
proof (induction rs arbitrary: a)
  case (Cons r rs)
  obtain q c where r: "r = (q, c)" by (cases r)
  then obtain a1 where a1: "attend q c a = Some a1" "attends rs a1 = Some b" using Cons.prems(3) by (auto simp: bind_eq_Some_conv)
  have "under ok I c a" using Cons.prems r by (simp add: under_def)
  from attend_keeps[OF this a1(1)] have "I a1" by (simp add: under_def)
  then show ?case using Cons.IH a1 Cons.prems(2) r by simp
qed simp

end

section \<open>Durations\<close>

definition durations_ok :: "evt_db \<Rightarrow> bool" where
  "durations_ok a \<longleftrightarrow> (\<forall>s\<in>set (settings a). et_dur s \<le> 480)"

lemma templates_settings: "replaceTherapySlotTemplates E pg i m ts a = Inr b \<Longrightarrow> settings b = settings a \<and> slots b = slots a \<and> patients b = patients a"
proof -
  have "efold (insert_template E pg i) its a = Inr b \<Longrightarrow> settings b = settings a \<and> slots b = slots a \<and> patients b = patients a" for its a
    by (rule efold_invariant[where P = "\<lambda>x. settings x = settings a \<and> slots x = slots a \<and> patients x = patients a"])
      (auto simp: insert_template_def Let_def res_simps split: option.splits if_splits)
  then show "replaceTherapySlotTemplates E pg i m ts a = Inr b \<Longrightarrow> ?thesis"
    by (fastforce simp: replaceTherapySlotTemplates_def res_simps split: if_splits)
qed

lemma upsert_setting:
  assumes "upsert_setting_tx E pg ev p dur cm m ts a = Inr (i, b)"
  shows "slots b = slots a" "patients b = patients a" "durations_ok a \<Longrightarrow> dur \<le> 480 \<Longrightarrow> durations_ok b"
proof -
  from assms obtain st en a1 where s: "put_setting E ev p dur cm m st en a = Inr (i, a1)" "replaceTherapySlotTemplates E pg i m ts a1 = Inr b"
    by (auto simp: upsert_setting_tx_def res_simps)
  have "slots a1 = slots a \<and> patients a1 = patients a \<and> (durations_ok a \<longrightarrow> dur \<le> 480 \<longrightarrow> durations_ok a1)"
    using s(1) by (auto simp: put_setting_def evt_uuid_def durations_ok_def split: option.splits if_splits)
  then show "slots b = slots a" "patients b = patients a" "durations_ok a \<Longrightarrow> dur \<le> 480 \<Longrightarrow> durations_ok b"
    using templates_settings[OF s(2)] by (auto simp: durations_ok_def)
qed

lemma booking_frame:
  "lockAndIncrementSlot E i a = Inr b \<Longrightarrow> b = book_slot i a"
  "tryAssignPatientSlot E ev i th pref strict a = Inr b \<Longrightarrow> settings b = settings a"
  "insert_patient E q a = Inr (j, b) \<Longrightarrow> settings b = settings a"
  "release_of E l p a = Inr b \<Longrightarrow> settings b = settings a"
  by (auto simp: lockAndIncrementSlot_def tryAssignPatientSlot_def book_slot_def write_patient_def insert_patient_def evt_uuid_def
      release_of_def release_slot_def Let_def res_simps split: if_splits option.splits)

lemma step_durations:
  assumes "event_step c a b" "durations_ok a"
  shows "durations_ok b"
proof -
  have "settings b = settings a \<or> durations_ok b"
    using assms
  proof cases
    case (save E pg ev p dur cm m ts i)
    then show ?thesis using upsert_setting(3) assms(2) by blast
  next
    case (put E ev th date sl cap)
    then show ?thesis by (auto simp: put_slot_def evt_uuid_def res_simps split: if_splits)
  next
    case (register E ev th pref rp as q i)
    then show ?thesis
      by (auto simp: create_patient_tx_def res_simps book_slot_def split: if_splits dest!: booking_frame(1,3))
  next
    case (assign E ev i th pref)
    then show ?thesis using booking_frame(2) by blast
  next
    case (status E ev i st st0)
    then show ?thesis by (auto simp: status_tx_def res_simps write_patient_def split: if_splits dest!: booking_frame(4))
  next
    case (edit E blind ev i p birth st)
    then show ?thesis
      by (auto simp: edit_patient_tx_def res_simps write_patient_def split: if_splits option.splits sum.splits dest!: booking_frame(2))
  next
    case (remove E ev i)
    then show ?thesis by (auto simp: deleteEventPatientInTx_def res_simps write_patient_def dest!: booking_frame(4))
  qed (auto simp: drop_slot_def detach_deleted_def res_simps split: if_splits)
  then show ?thesis using assms(2) by (auto simp: durations_ok_def)
qed

interpretation timed: event_invariant "\<lambda>c a. True" durations_ok
  by unfold_locales (auto intro: step_durations)

lemma segments_return: "0 < minutes d \<Longrightarrow> \<exists>out'. build_segments d gs out = Some out'"
  by (induction gs arbitrary: out) (auto simp: buildDaySlots_def slot_loop_returns split: prod.splits)

lemma generate_days_return: "\<exists>r. generate_days Es ev s (Some sls) ds n a = Some r"
  by (induction ds arbitrary: n a) (auto split: sum.split prod.split)

lemma generate_returns:
  assumes "durations_ok a"
  shows "\<exists>r. GenerateTimeSlots E Es auth ev th a = Some r"
proof (cases "load_generation E auth ev th a")
  case (Inr x)
  obtain e s tpl where x: "x = (e, s, tpl)" by (cases x)
  have "slot_duration s \<le> 480" "0 < slot_duration s"
    using load_generation_ids[OF Inr[unfolded x]] assms by (auto simp: durations_ok_def slot_duration_def)
  then have "0 < minutes (slot_duration s)" using minutes_exact[of "slot_duration s"] by simp
  then have "\<exists>sls. day_slots e s tpl = Some sls"
    using segments_return by (auto simp: day_slots_def buildDaySlotsWithBreak_def Let_def split: sum.splits)
  moreover obtain ds where "day_loop (date_or_zero (ev_last e)) (date_or_zero (ev_first e)) [] = Some ds"
    using day_loop_returns[OF date_or_zero_valid date_or_zero_valid, of "ev_last e" "ev_first e" "[]"] by blast
  ultimately show ?thesis using Inr x generate_days_return by (fastforce simp: GenerateTimeSlots_def generate_slots_def)
qed (simp add: GenerateTimeSlots_def)

lemma attend_returns: "durations_ok a \<Longrightarrow> \<exists>b. attend q c a = Some b"
  using generate_returns[of a "rq_env q" "rq_envs q" "rq_auth q"] by (cases c) fastforce+

section \<open>Seats\<close>

text \<open>
  A reservation holds a seat of its slot unless it is deleted or cancelled. In \<open>seats_ok\<close> tables the identifiers
  are unique, the slots that reservations name exist, and no slot has more holders than \<open>booked_count\<close> says
  nor a count beyond its capacity.
\<close>

definition holds :: "string \<Rightarrow> patient_row \<Rightarrow> bool" where
  "holds i p \<longleftrightarrow> pt_slot p = Some i \<and> \<not> pt_deleted p \<and> pt_status p \<noteq> ''CANCELLED''"

definition taken :: "evt_db \<Rightarrow> string \<Rightarrow> int" where
  "taken a i = int (length (filter (holds i) (patients a)))"

definition seats_ok :: "evt_db \<Rightarrow> bool" where
  "seats_ok a \<longleftrightarrow> distinct (map pt_id (patients a)) \<and> distinct (map sl_id (slots a)) \<and>
     (\<forall>p\<in>set (patients a). \<forall>i. pt_slot p = Some i \<longrightarrow> i \<in> sl_id ` set (slots a)) \<and>
     (\<forall>s\<in>set (slots a). taken a (sl_id s) \<le> sl_booked s \<and> sl_booked s \<le> sl_cap s)"

text \<open>
  Requests that keep this: slots are not generated again for a therapy with bookings, and a cancelled
  reservation that names a slot is not put back.
\<close>

definition reinstates :: "evt_db \<Rightarrow> string \<Rightarrow> string \<Rightarrow> string \<Rightarrow> bool" where
  "reinstates a ev i st \<longleftrightarrow> st \<noteq> ''CANCELLED'' \<and> list_ex (\<lambda>p. pt_id p = i \<and> pt_event p = ev \<and> \<not> pt_deleted p
     \<and> pt_slot p \<noteq> None \<and> pt_status p = ''CANCELLED'') (patients a)"

fun orderly :: "event_call \<Rightarrow> evt_db \<Rightarrow> bool" where
  "orderly (Generate ev th) a = list_all (\<lambda>s. sl_booked s = 0) (slots_of a ev th)"
| "orderly (SetStatus ev i st) a = (\<not> reinstates a ev i (upper (trim_space st)))"
| "orderly (EditPatient ev i p) a = (\<not> reinstates a ev i (if upper (trim_space (ep_status p)) = [] then ''CONFIRMED'' else upper (trim_space (ep_status p))))"
| "orderly c a = True"

lemma filter_update_length:
  assumes "distinct (map k xs)" "x \<in> set xs"
  shows "int (length (filter P (map (\<lambda>y. if k y = k x then f y else y) xs))) = int (length (filter P xs)) + of_bool (P (f x)) - of_bool (P x)"
  using assms
proof (induction xs)
  case (Cons y ys)
  show ?case
  proof (cases "x = y")
    case True
    then have "map (\<lambda>y. if k y = k x then f y else y) ys = ys" using Cons.prems(1) by (intro map_idI) (auto simp: image_iff)
    then show ?thesis using True by simp
  next
    case False
    then show ?thesis using Cons by (auto simp: image_iff)
  qed
qed simp

text \<open>One write on a patient and on the numbers of the slots.\<close>

lemma seats_write:
  assumes "seats_ok a" "p \<in> set (patients a)" "patients b = map (\<lambda>q. if pt_id q = pt_id p then f q else q) (patients a)" "slots b = map g (slots a)"
    and "\<And>q. pt_id (f q) = pt_id q" "\<And>s. sl_id (g s) = sl_id s"
    and "pt_slot (f p) = pt_slot p \<or> (\<exists>i\<in>sl_id ` set (slots a). pt_slot (f p) = Some i)"
    and "\<And>s. s \<in> set (slots a) \<Longrightarrow> taken a (sl_id s) \<le> sl_booked s \<Longrightarrow> sl_booked s \<le> sl_cap s \<Longrightarrow>
      taken a (sl_id s) + of_bool (holds (sl_id s) (f p)) - of_bool (holds (sl_id s) p) \<le> sl_booked (g s) \<and> sl_booked (g s) \<le> sl_cap (g s)"
  shows "seats_ok b"
proof -
  have d: "distinct (map pt_id (patients a))" using assms(1) by (simp add: seats_ok_def)
  have ids: "map pt_id (patients b) = map pt_id (patients a)" "map sl_id (slots b) = map sl_id (slots a)" using assms(3-6) by auto
  then have sids: "sl_id ` set (slots b) = sl_id ` set (slots a)" by (metis list.set_map)
  have t: "taken b i = taken a i + of_bool (holds i (f p)) - of_bool (holds i p)" for i
    using filter_update_length[OF d assms(2)] by (simp add: taken_def assms(3))
  have "i \<in> sl_id ` set (slots b)" if "q \<in> set (patients b)" "pt_slot q = Some i" for q i
  proof -
    from that(1) obtain r where r: "r \<in> set (patients a)" "q = (if pt_id r = pt_id p then f r else r)" by (auto simp: assms(3))
    have "r = p" if "pt_id r = pt_id p" using d r(1) assms(2) that by (meson distinct_map inj_onD)
    then have "q = r \<or> q = f p" using r(2) by auto
    then show ?thesis using that(2) r(1) assms(1,2,7) unfolding sids by (auto simp: seats_ok_def)
  qed
  moreover have "taken b (sl_id s) \<le> sl_booked s \<and> sl_booked s \<le> sl_cap s" if s: "s \<in> set (slots b)" for s
  proof -
    from s obtain r where r: "r \<in> set (slots a)" "s = g r" by (auto simp: assms(4))
    then have "taken a (sl_id r) \<le> sl_booked r" "sl_booked r \<le> sl_cap r" using assms(1) by (auto simp: seats_ok_def)
    from assms(8)[OF r(1) this] show ?thesis using t r(2) assms(6) by simp
  qed
  ultimately show ?thesis using assms(1) ids by (simp add: seats_ok_def)
qed

text \<open>Slots leave that no reservation names; rows change that hold no seat.\<close>

lemma seats_drop:
  assumes "seats_ok a" "\<forall>s\<in>set (slots a). gone s \<longrightarrow> \<not> referenced a (sl_id s)"
  shows "seats_ok (a\<lparr>slots := [s \<leftarrow> slots a. \<not> gone s]\<rparr>)"
proof -
  have "taken (a\<lparr>slots := x\<rparr>) = taken a" for x by (auto simp: taken_def)
  moreover have "i \<in> sl_id ` {s \<in> set (slots a). \<not> gone s}" if p: "p \<in> set (patients a)" "pt_slot p = Some i" for p i
  proof -
    have "referenced a i" using p by (auto simp: referenced_def list_ex_iff)
    moreover obtain s where "s \<in> set (slots a)" "i = sl_id s" using assms(1) p by (auto simp: seats_ok_def)
    ultimately show ?thesis using assms(2) by auto
  qed
  ultimately show ?thesis using assms(1) by (simp add: seats_ok_def distinct_map_filter)
qed

lemma seats_detach: "seats_ok a \<Longrightarrow> seats_ok (detach_deleted i a)"
proof -
  assume a: "seats_ok a"
  let ?f = "\<lambda>p. if pt_slot p = Some i \<and> pt_deleted p then p\<lparr>pt_slot := None\<rparr> else p"
  have "holds j \<circ> ?f = holds j" for j by (rule ext) (simp add: holds_def)
  then have "taken (detach_deleted i a) = taken a" by (intro ext) (simp add: taken_def detach_deleted_def filter_map)
  moreover have "map pt_id (patients (detach_deleted i a)) = map pt_id (patients a)" by (simp add: detach_deleted_def)
  moreover have "slots (detach_deleted i a) = slots a" by (simp add: detach_deleted_def)
  moreover have "\<exists>r\<in>set (patients a). pt_slot r = Some j" if "q \<in> set (patients (detach_deleted i a))" "pt_slot q = Some j" for q j
    using that by (auto simp: detach_deleted_def split: if_splits)
  ultimately show ?thesis using a unfolding seats_ok_def by metis
qed

lemma find_patient_in: "find (\<lambda>p. pt_id p = i \<and> Q p) (patients a) = Some p \<Longrightarrow> p \<in> set (patients a) \<and> pt_id p = i \<and> Q p"
  by (auto simp: find_Some_iff)

lemma booked_room:
  assumes "seats_ok a" "lockAndIncrementSlot E i a = Inr b" "s \<in> set (slots a)" "sl_id s = i"
  shows "sl_booked s + 1 \<le> sl_cap s"
proof -
  from assms(2) obtain r where r: "find (\<lambda>s. sl_id s = i) (slots a) = Some r" "sl_booked r < sl_cap r"
    by (auto simp: lockAndIncrementSlot_def res_simps split: option.splits if_splits)
  have "distinct (map sl_id (slots a))" using assms(1) by (simp add: seats_ok_def)
  moreover have "r \<in> set (slots a)" "sl_id r = i" using r(1) by (auto simp: find_Some_iff)
  ultimately have "r = s" using assms(3,4) by (metis distinct_map inj_onD)
  then show ?thesis using r(2) by simp
qed

lemma locked_exists: "lockAndIncrementSlot E i a = Inr b \<Longrightarrow> i \<in> sl_id ` set (slots a)"
  by (auto simp: lockAndIncrementSlot_def res_simps find_Some_iff split: option.splits if_splits)

lemma assign_seats:
  assumes "seats_ok a" "tryAssignPatientSlot E ev i th pref strict a = Inr b"
  shows "seats_ok b"
proof (cases "b = a")
  case False
  then obtain p sid where p: "find (\<lambda>p. pt_id p = i \<and> \<not> pt_deleted p) (patients a) = Some p" "pt_slot p = None"
      and l: "lockAndIncrementSlot E sid a = Inr (book_slot sid a)"
      and b: "b = write_patient i (\<lambda>p. p\<lparr>pt_slot := Some sid\<rparr>) (book_slot sid a)"
    using assms(2) by (auto simp: tryAssignPatientSlot_def find_patient_def Let_def res_simps split: if_splits option.splits dest: booking_frame(1))
  note q = find_patient_in[OF p(1)]
  show ?thesis
    by (rule seats_write[OF assms(1), where p = p and f = "\<lambda>p. p\<lparr>pt_slot := Some sid\<rparr>"
          and g = "\<lambda>s. if sl_id s = sid then s\<lparr>sl_booked := sl_booked s + 1\<rparr> else s"])
      (use q p(2) booked_room[OF assms(1) l] locked_exists[OF l] in \<open>auto simp: b write_patient_def book_slot_def holds_def\<close>)
qed (use assms in simp)

lemma register_seats:
  assumes "seats_ok a" "create_patient_tx E ev th pref rp as q a = Inr (i, b)"
  shows "seats_ok b"
proof -
  from assms(2) obtain slot a1 where s: "insert_patient E (q\<lparr>pt_slot := slot\<rparr>) a1 = Inr (i, b)"
      "slot = None \<and> a1 = a \<or> (\<exists>sid. slot = Some sid \<and> lockAndIncrementSlot E sid a = Inr a1)"
    by (auto simp: create_patient_tx_def res_simps split: if_splits)
  let ?q = "q\<lparr>pt_slot := slot, pt_id := i\<rparr>"
  have pa: "patients a1 = patients a" using s(2) by (auto simp: book_slot_def dest: booking_frame(1))
  have b: "patients b = patients a @ [?q]" "i \<notin> pt_id ` set (patients a)" "slots b = slots a1"
    using s(1) pa by (auto simp: insert_patient_def evt_uuid_def res_simps list_ex_iff split: if_splits)
  have t: "taken b j = taken a j + of_bool (holds j ?q)" for j by (simp add: taken_def b(1))
  show ?thesis
  proof (cases slot)
    case None
    then have "slots b = slots a" "\<And>j. taken b j = taken a j" using s(2) b(3) t by (auto simp: holds_def)
    then show ?thesis using assms(1) None b by (simp add: seats_ok_def)
  next
    case (Some sid)
    then have l: "lockAndIncrementSlot E sid a = Inr a1" using s(2) by simp
    let ?g = "\<lambda>s. if sl_id s = sid then s\<lparr>sl_booked := sl_booked s + 1\<rparr> else s"
    have sl: "slots b = map ?g (slots a)" using b(3) booking_frame(1)[OF l] by (simp add: book_slot_def)
    have ids: "map sl_id (slots b) = map sl_id (slots a)" by (simp add: sl)
    then have "sl_id ` set (slots b) = sl_id ` set (slots a)" by (metis list.set_map)
    moreover have "taken b (sl_id s) \<le> sl_booked s \<and> sl_booked s \<le> sl_cap s" if s: "s \<in> set (slots b)" for s
    proof -
      from s obtain r where r: "r \<in> set (slots a)" "s = ?g r" by (auto simp: sl)
      then have "taken a (sl_id r) \<le> sl_booked r" "sl_booked r \<le> sl_cap r" using assms(1) by (auto simp: seats_ok_def)
      moreover have "of_bool (holds (sl_id s) ?q) \<le> (if sl_id r = sid then 1 else 0 :: int)" using Some r(2) by (auto simp: holds_def)
      ultimately show ?thesis using t[of "sl_id s"] r booked_room[OF assms(1) l r(1)] by (auto split: if_splits)
    qed
    ultimately show ?thesis using assms(1) b Some ids locked_exists[OF l] by (simp add: seats_ok_def)
  qed
qed

text \<open>A reservation that is cancelled or deleted gives its seat back when it was confirmed.\<close>

lemma release_seats:
  assumes "seats_ok a" "p \<in> set (patients a)" "pt_id p = i" "\<not> pt_deleted p" "release_of E l p a = Inr a1"
    and "\<And>q. pt_id (f q) = pt_id q" "pt_slot (f p) = pt_slot p" "\<And>j. holds j (f p) \<Longrightarrow> \<not> l \<and> holds j p" "\<And>j. l \<Longrightarrow> \<not> holds j (f p)"
  shows "seats_ok (write_patient i f a1)"
proof -
  define rel where "rel = (\<lambda>j. l \<and> pt_slot p = Some j \<and> pt_status p = ''CONFIRMED'')"
  let ?g = "\<lambda>s. if rel (sl_id s) then s\<lparr>sl_booked := max 0 (sl_booked s - 1)\<rparr> else s"
  have a1: "patients a1 = patients a" "slots a1 = map ?g (slots a)"
    using assms(5) by (auto simp: release_of_def release_slot_def rel_def res_simps split: option.splits if_splits)
  have t: "0 \<le> taken a j" for j by (simp add: taken_def)
  have h: "holds j p" if "rel j" for j using that assms(4) by (auto simp: rel_def holds_def)
  have nh: "\<not> holds j (f p)" if "rel j" for j using that assms(9) by (auto simp: rel_def)
  show ?thesis
  proof (rule seats_write[OF assms(1,2), where f = f and g = ?g])
    fix s assume s: "s \<in> set (slots a)" "taken a (sl_id s) \<le> sl_booked s" "sl_booked s \<le> sl_cap s"
    show "taken a (sl_id s) + of_bool (holds (sl_id s) (f p)) - of_bool (holds (sl_id s) p) \<le> sl_booked (?g s) \<and> sl_booked (?g s) \<le> sl_cap (?g s)"
      using s t[of "sl_id s"] h[of "sl_id s"] nh[of "sl_id s"] assms(8)[of "sl_id s"] by auto
  qed (use assms a1 in \<open>auto simp: write_patient_def\<close>)
qed

lemma orderly_frame:
  assumes "orderly c a" "set (slots b) \<subseteq> set (slots a)"
    and "\<And>q. q \<in> set (patients b) \<Longrightarrow> \<not> pt_deleted q \<Longrightarrow> q \<in> set (patients a)"
  shows "orderly c b"
proof (cases c)
  case (Generate ev th)
  then show ?thesis using assms(1,2) by (auto simp: slots_of_def list_all_iff)
qed (use assms(1,3) in \<open>auto simp: reinstates_def list_ex_iff\<close>)

lemma put_seats:
  assumes "put_slot E ev th date sl cap a = Inr b" "0 \<le> cap" "orderly (Generate ev th) a" "seats_ok a"
  shows "seats_ok b \<and> orderly (Generate ev th) b"
proof (cases "list_ex (same_slot ev th date (sg_start sl)) (slots a)")
  case True
  let ?g = "\<lambda>s. if same_slot ev th date (sg_start sl) s then s\<lparr>sl_end := sg_end sl, sl_cap := cap\<rparr> else s"
  have b: "slots b = map ?g (slots a)" "patients b = patients a"
    using assms(1) True by (auto simp: put_slot_def res_simps split: if_splits)
  have z: "sl_booked s = 0" if "s \<in> set (slots a)" "sl_event s = ev" "sl_therapy s = th" for s
    using assms(3) that by (auto simp: slots_of_def list_all_iff)
  have t: "taken b = taken a" by (auto simp: taken_def b(2))
  have ids: "map sl_id (slots b) = map sl_id (slots a)" by (simp add: b(1))
  then have "sl_id ` set (slots b) = sl_id ` set (slots a)" by (metis list.set_map)
  moreover have "taken b (sl_id s) \<le> sl_booked s \<and> sl_booked s \<le> sl_cap s" if s: "s \<in> set (slots b)" for s
  proof -
    from s obtain r where r: "r \<in> set (slots a)" "s = ?g r" by (auto simp: b(1))
    then have "taken a (sl_id r) \<le> sl_booked r" "sl_booked r \<le> sl_cap r" using assms(4) by (auto simp: seats_ok_def)
    then show ?thesis using r z[OF r(1)] assms(2) by (auto simp: t same_slot_def)
  qed
  moreover have "orderly (Generate ev th) b" using z by (auto simp: b(1) slots_of_def list_all_iff)
  ultimately show ?thesis using assms(4) ids b(2) by (simp add: seats_ok_def)
next
  case False
  then obtain s where b: "slots b = slots a @ [s]" "patients b = patients a" "\<forall>r\<in>set (slots a). sl_id r \<noteq> sl_id s" "sl_booked s = 0" "sl_cap s = cap"
    using assms(1) by (auto simp: put_slot_def evt_uuid_def res_simps list_ex_iff split: if_splits)
  have t: "taken b = taken a" by (auto simp: taken_def b(2))
  have "filter (holds (sl_id s)) (patients a) = []"
    using assms(4) b(3) by (fastforce simp: seats_ok_def holds_def filter_empty_conv)
  then have "taken a (sl_id s) = 0" by (simp add: taken_def)
  moreover have "sl_id s \<notin> sl_id ` set (slots a)" using b(3) by (metis imageE)
  ultimately show ?thesis using assms b t by (auto simp: seats_ok_def slots_of_def list_all_iff)
qed

lemma status_seats:
  assumes "status_tx E ev i st a = Inr b" "\<not> reinstates a ev i st" "seats_ok a"
  shows "seats_ok b \<and> \<not> reinstates b ev i st"
proof -
  let ?f = "\<lambda>q. if pt_event q = ev then q\<lparr>pt_status := st\<rparr> else q"
  from assms(1) obtain p a1 where p: "load_reservation E a ev i = Inr p" "release_of E (st = ''CANCELLED'') p a = Inr a1" "b = write_patient i ?f a1"
    by (auto simp: status_tx_def res_simps split: if_splits)
  have q: "p \<in> set (patients a)" "pt_id p = i" "pt_event p = ev" "\<not> pt_deleted p"
    using p(1) by (auto simp: load_reservation_def res_simps find_Some_iff split: option.splits)
  then have nc: "pt_status p \<noteq> ''CANCELLED''" if "st \<noteq> ''CANCELLED''" "pt_slot p \<noteq> None"
    using assms(2) that by (auto simp: reinstates_def list_ex_iff)
  have fp: "?f p = p\<lparr>pt_status := st\<rparr>" using q(3) by simp
  have "seats_ok (write_patient i ?f a1)"
  proof (rule release_seats[OF assms(3) q(1,2,4) p(2)])
    show "\<not> st = ''CANCELLED'' \<and> holds j p" if "holds j (?f p)" for j using that nc unfolding fp by (simp add: holds_def)
    show "\<not> holds j (?f p)" if "st = ''CANCELLED''" for j using that unfolding fp by (simp add: holds_def)
  qed simp_all
  moreover have "\<not> reinstates (write_patient i ?f a1) ev i st"
  proof
    assume "reinstates (write_patient i ?f a1) ev i st"
    then obtain q where q: "q \<in> set (patients (write_patient i ?f a1))" "pt_id q = i" "pt_event q = ev" "pt_status q = ''CANCELLED''" "st \<noteq> ''CANCELLED''"
      by (auto simp: reinstates_def list_ex_iff)
    from q(1) obtain r where r: "q = (if pt_id r = i then ?f r else r)" unfolding write_patient_def by fastforce
    have "pt_id q = pt_id r" "pt_event q = pt_event r" using r by simp_all
    then have "pt_status q = st" using q(2,3) r by simp
    then show False using q(4,5) by simp
  qed
  ultimately show ?thesis using p(3) by simp
qed

lemma assign_rows:
  assumes "tryAssignPatientSlot E ev i th pref strict a = Inr b" "q \<in> set (patients b)"
  obtains p where "p \<in> set (patients a)" "pt_id q = pt_id p" "pt_event q = pt_event p" "pt_deleted q = pt_deleted p" "pt_status q = pt_status p"
proof -
  have "\<exists>p\<in>set (patients a). pt_id q = pt_id p \<and> pt_event q = pt_event p \<and> pt_deleted q = pt_deleted p \<and> pt_status q = pt_status p"
    using assms by (auto simp: tryAssignPatientSlot_def Let_def res_simps write_patient_def book_slot_def split: if_splits option.splits dest!: booking_frame(1)) blast+
  then show ?thesis using that by blast
qed

lemma edit_seats:
  assumes "edit_patient_tx E blind ev i p birth st a = Inr b" "\<not> reinstates a ev i st" "seats_ok a"
  shows "seats_ok b \<and> \<not> reinstates b ev i st"
proof -
  let ?here = "\<lambda>q. pt_id q = i \<and> pt_event q = ev \<and> \<not> pt_deleted q"
  let ?f = "\<lambda>q. if pt_event q = ev \<and> \<not> pt_deleted q then edit_patient blind p birth st q else q"
  define a1 where "a1 = (case find ?here (patients a) of Some q \<Rightarrow> write_patient i ?f a | None \<Rightarrow> a)"
  have tail: "b = a1 \<or> tryAssignPatientSlot E ev i (ep_therapy p) (ep_preferred p) False a1 = Inr b"
    using assms(1) by (auto simp: edit_patient_tx_def a1_def res_simps split: if_splits option.splits sum.splits)
  have s1: "seats_ok a1"
  proof (cases "find ?here (patients a)")
    case (Some q)
    then have q: "q \<in> set (patients a)" "?here q" by (auto simp: find_Some_iff)
    then have "pt_status q \<noteq> ''CANCELLED''" if "st \<noteq> ''CANCELLED''" "pt_slot q \<noteq> None"
      using assms(2) that by (auto simp: reinstates_def list_ex_iff)
    then have "holds j (?f q) \<Longrightarrow> holds j q" for j using q by (auto simp: holds_def edit_patient_def)
    then have "of_bool (holds j (?f q)) \<le> (of_bool (holds j q) :: int)" for j by auto
    then have le: "taken a j + of_bool (holds j (?f q)) - of_bool (holds j q) \<le> n" if "taken a j \<le> n" for j n
      using that by (smt (verit))
    show ?thesis
      by (rule seats_write[OF assms(3) q(1), where f = ?f and g = "\<lambda>s. s"])
        (use Some q le in \<open>auto simp: a1_def write_patient_def edit_patient_def\<close>)
  qed (use assms(3) in \<open>simp add: a1_def\<close>)
  have r1: "st \<noteq> ''CANCELLED'' \<Longrightarrow> q \<in> set (patients a1) \<Longrightarrow> ?here q \<Longrightarrow> pt_status q \<noteq> ''CANCELLED''" for q
    by (cases "find ?here (patients a)") (auto simp: a1_def write_patient_def edit_patient_def find_None_iff split: if_splits)
  have "\<not> reinstates b ev i st"
  proof
    assume "reinstates b ev i st"
    then obtain q where q: "q \<in> set (patients b)" "?here q" "pt_status q = ''CANCELLED''" "st \<noteq> ''CANCELLED''"
      by (auto simp: reinstates_def list_ex_iff)
    then obtain r where "r \<in> set (patients a1)" "?here r" "pt_status r = ''CANCELLED''"
      using tail by (metis assign_rows)
    then show False using r1 q(4) by blast
  qed
  moreover have "seats_ok b" using tail s1 assign_seats by blast
  ultimately show ?thesis by simp
qed

lemma remove_seats:
  assumes "deleteEventPatientInTx E ev i a = Inr b" "seats_ok a"
  shows "seats_ok b"
proof -
  let ?f = "\<lambda>q. if pt_event q = ev then q\<lparr>pt_deleted := True\<rparr> else q"
  from assms(1) obtain p a1 where p: "load_reservation E a ev i = Inr p" "release_of E True p a = Inr a1" "b = write_patient i ?f a1"
    by (auto simp: deleteEventPatientInTx_def res_simps)
  have q: "p \<in> set (patients a)" "pt_id p = i" "pt_event p = ev" "\<not> pt_deleted p"
    using p(1) by (auto simp: load_reservation_def res_simps find_Some_iff split: option.splits)
  show ?thesis unfolding p(3)
    by (intro release_seats[OF assms(2) q(1,2,4) p(2)]) (use q in \<open>auto simp: holds_def\<close>)
qed

lemma step_seats:
  assumes "event_step c a b" "orderly c a" "seats_ok a"
  shows "seats_ok b \<and> orderly c b"
  using assms(1)
proof cases
  case (save E pg ev p dur cm m ts i)
  have "taken b = taken a" using upsert_setting(2)[OF save(2)] by (auto simp: taken_def)
  then show ?thesis using assms(3) upsert_setting(1,2)[OF save(2)] save(1) by (simp add: seats_ok_def)
next
  case (put E ev th date sl cap)
  then show ?thesis using put_seats assms(2,3) by blast
next
  case (clean gone)
  then show ?thesis using seats_drop[OF assms(3)] orderly_frame[OF assms(2), of b] by auto
next
  case (drop ev i s E)
  from drop(3) have b: "b = a\<lparr>slots := [s \<leftarrow> slots a. \<not> (sl_id s = i \<and> sl_event s = ev)]\<rparr>" "\<not> referenced a i"
    using drop(1) by (auto simp: drop_slot_def res_simps split: if_splits)
  then have "seats_ok b" using seats_drop[OF assms(3), of "\<lambda>s. sl_id s = i \<and> sl_event s = ev"] by auto
  then show ?thesis using orderly_frame[OF assms(2), of b] b(1) by auto
next
  case (detach i)
  have "orderly c b" by (rule orderly_frame[OF assms(2)]) (auto simp: detach detach_deleted_def split: if_splits)
  then show ?thesis using seats_detach[OF assms(3)] detach by simp
next
  case (register E ev th pref rp as q i)
  then show ?thesis using register_seats[OF assms(3)] by (cases c) auto
next
  case (assign E ev i th pref)
  then show ?thesis using assign_seats[OF assms(3)] by auto
next
  case (status E ev i st st0)
  then show ?thesis using status_seats[OF status(2) _ assms(3)] assms(2) by simp
next
  case (edit E blind ev i p birth st)
  then show ?thesis using edit_seats[OF edit(2) _ assms(3)] assms(2) by simp
next
  case (remove E ev i)
  then show ?thesis using remove_seats[OF remove(1) assms(3)] by (cases c) auto
qed

interpretation seated: event_invariant orderly seats_ok
  by unfold_locales (rule step_seats)

lemma histories_return: "durations_ok a \<Longrightarrow> \<exists>b. attends rs a = Some b \<and> durations_ok b"
proof (induction rs arbitrary: a)
  case (Cons r rs)
  obtain q c where r: "r = (q, c)" by (cases r)
  obtain a1 where a1: "attend q c a = Some a1" using attend_returns[OF Cons.prems] by blast
  then have "durations_ok a1" using timed.attend_keeps[of c a q a1] Cons.prems by (simp add: under_def)
  then show ?case using Cons.IH r a1 by simp
qed simp

end
