(* ===== verification/Events_Props.thy ===== *)
theory Events_Props
  imports Events_Laws
begin

text \<open>
  The properties of slots and reservations: that the slots of a day are built at all and where they lie,
  that every request returns, and that a slot is not given to more people than it has room for.
\<close>

declare split_paired_All [simp del] split_paired_Ex [simp del]

lemmas clock_eval = parseClockTime_def padTime_def parse_hms_def parse_hm_def getnum_def skip_def fraction_def clock_ns_def is_digit_def

lemma parseClockTime_trim: "parseClockTime (trim_space b) = parseClockTime b"
  by (simp add: parseClockTime_def)

section \<open>The slots of a day\<close>

text \<open>
  C22: For times of day that parse, \<open>buildDaySlots\<close> ends when the product of the minutes with \<open>time.Minute\<close>, as an
  int64, is positive, and then returns one slot after the other, as many as fit. When the product is not
  positive and the day is not empty, it never returns.
\<close>
theorem buildDaySlots_ends:
  assumes "parseClockTime dayStart = Inr st" "trim_space dayStart = dayStart"
    and "parseClockTime dayEnd = Inr en" "trim_space dayEnd = dayEnd"
  shows "buildDaySlots dayStart dayEnd durMin =
    (if 0 < minutes durMin
     then Some (map (\<lambda>k. slot_at (minutes durMin) (st + int k * minutes durMin)) [0..<nat ((en - st) div minutes durMin)])
     else if st < en then None else Some [])"
proof -
  have "slot_loop (minutes durMin) en st [] = Some []" if "\<not> st < en" using that by (subst slot_loop.simps) simp
  then show ?thesis
    using slot_loop_returns[of "minutes durMin" en st "[]"] slot_loop_stuck[of "minutes durMin" st en "[]"]
    by (simp add: buildDaySlots_def parsed_bounds[OF assms])
qed

theorem buildDaySlots_ends_witness:
  "buildDaySlots ''09:00'' ''10:10'' 30 =
     Some [\<lparr>sg_start = ''09:00:00'', sg_end = ''09:30:00'', sg_cap = 0\<rparr>, \<lparr>sg_start = ''09:30:00'', sg_end = ''10:00:00'', sg_cap = 0\<rparr>]
   \<and> buildDaySlots ''09:00'' ''10:10'' 153722868 = None"
proof -
  have tr: "trim_space ''09:00'' = ''09:00''" "trim_space ''10:10'' = ''10:10''" by code_simp+
  have t: "parseClockTime ''09:00'' = Inr 32400000000000" "parseClockTime ''10:10'' = Inr 36600000000000" by (simp_all add: clock_eval tr)
  have m: "minutes 30 = 1800000000000" "minutes 153722868 = - 9223371993709551616" by (simp_all add: minutes_def)
  have "digits 0 = ''0''" "digits 9 = ''9''" "digits 10 = ''10''" "digits 30 = ''30''" by code_simp+
  then have f: "format_hms 32400000000000 = ''09:00:00''" "format_hms 34200000000000 = ''09:30:00''" "format_hms 36000000000000 = ''10:00:00''"
    by (simp_all add: format_hms_def day_ns_def Let_def two_def zero_pad_def)
  have "[0..<nat 2] = [0, 1]" by code_simp
  then show ?thesis using buildDaySlots_ends[OF t(1) tr(1) t(2) tr(2)] m f by (simp add: slot_at_def)
qed

text \<open>
  C23: For times that parse, a day that is not empty and a duration that the settings allow, the slots of
  \<open>buildDaySlotsWithBreak\<close> lie inside the day, in order and without overlap. When the break leaves a part of
  the day they are outside the break; when it covers the whole day it is ignored, and the slots are those of the
  day without a break, as many as fit.
\<close>
theorem buildDaySlotsWithBreak_avoids:
  assumes "parseClockTime dayStart = Inr st" "trim_space dayStart = dayStart"
    and "parseClockTime dayEnd = Inr en" "trim_space dayEnd = dayEnd" "st < en"
    and "parseClockTime breakStart = Inr bs" "parseClockTime breakEnd = Inr be" "bs < be"
    and "0 < durMin" "durMin \<le> 480"
  shows "\<exists>ts. buildDaySlotsWithBreak dayStart dayEnd durMin (Some breakStart) (Some breakEnd) = Some (Inr (map (slot_at (durMin * 60000000000)) ts))
    \<and> sorted_wrt (\<lambda>t u. t + durMin * 60000000000 \<le> u) ts
    \<and> (\<forall>t\<in>set ts. st \<le> t \<and> t + durMin * 60000000000 \<le> en)
    \<and> (if st < bs \<or> be < en then (\<forall>t\<in>set ts. t + durMin * 60000000000 \<le> bs \<or> be \<le> t)
       else buildDaySlotsWithBreak dayStart dayEnd durMin (Some breakStart) (Some breakEnd) = buildDaySlotsWithBreak dayStart dayEnd durMin None None
         \<and> length ts = nat ((en - st) div (durMin * 60000000000)))"
proof -
  have m: "minutes durMin = durMin * 60000000000" using minutes_exact assms(9,10) by simp
  have pos: "0 < minutes durMin" using m assms(9) by simp
  have "\<exists>gs. dayScheduleSegments dayStart dayEnd (Some breakStart) (Some breakEnd) = Inr gs"
    using assms(1,3,5-7) by (simp add: dayScheduleSegments_def Let_def parseClockTime_trim guard_def)
  then obtain gs where gs: "dayScheduleSegments dayStart dayEnd (Some breakStart) (Some breakEnd) = Inr gs" ..
  show ?thesis
  proof (cases "st < bs \<or> be < en")
    case True
    from break_in_row[OF gs assms(2,4) pos assms(1,3)] obtain ts where
        ts: "build_segments durMin gs [] = Some (map (slot_at (minutes durMin)) ts)" "in_row (minutes durMin) st en ts"
          "\<And>t. t \<in> set ts \<Longrightarrow> t + minutes durMin \<le> bs \<or> be \<le> t"
      using assms(6-8) True by metis
    then show ?thesis using gs m True by (auto simp: buildDaySlotsWithBreak_def in_row_def intro!: exI[of _ ts])
  next
    case False
    let ?whole = "[\<lparr>dg_start = dayStart, dg_end = dayEnd\<rparr>]"
    have "gs = ?whole" using gs assms(1,3,5-8) False by (simp add: dayScheduleSegments_def Let_def parseClockTime_trim guard_def split: if_splits)
    moreover have "dayScheduleSegments dayStart dayEnd None None = Inr ?whole"
      using assms(1,3,5) by (simp add: dayScheduleSegments_def guard_def)
    ultimately have same: "buildDaySlotsWithBreak dayStart dayEnd durMin (Some breakStart) (Some breakEnd)
        = map_option Inr (build_segments durMin ?whole [])" "buildDaySlotsWithBreak dayStart dayEnd durMin None None
        = map_option Inr (build_segments durMin ?whole [])"
      using gs by (simp_all add: buildDaySlotsWithBreak_def)
    from built_in_row[OF assms(1,2,3,4) pos] obtain ts where "buildDaySlots dayStart dayEnd durMin = Some (map (slot_at (minutes durMin)) ts)"
        "in_row (minutes durMin) st en ts" "length ts = nat ((en - st) div minutes durMin)" .
    then show ?thesis using same m False by (intro exI[of _ ts]) (simp add: in_row_def)
  qed
qed

theorem buildDaySlotsWithBreak_avoids_witness:
  "(\<exists>ts. buildDaySlotsWithBreak ''09:00'' ''13:00'' 30 (Some ''10:00'') (Some ''11:00'') = Some (Inr (map (slot_at 1800000000000) ts))
      \<and> list_all (\<lambda>t. 32400000000000 \<le> t \<and> t + 1800000000000 \<le> 46800000000000 \<and> (t + 1800000000000 \<le> 36000000000000 \<or> 39600000000000 \<le> t)) ts)
   \<and> (\<exists>ts. buildDaySlotsWithBreak ''10:00'' ''11:00'' 30 (Some ''09:00'') (Some ''13:00'') = Some (Inr (map (slot_at 1800000000000) ts))
      \<and> length ts = 2)"
proof -
  have tr: "trim_space ''09:00'' = ''09:00''" "trim_space ''13:00'' = ''13:00''" "trim_space ''10:00'' = ''10:00''" "trim_space ''11:00'' = ''11:00''"
    by code_simp+
  have t: "parseClockTime ''09:00'' = Inr 32400000000000" "parseClockTime ''13:00'' = Inr 46800000000000"
    "parseClockTime ''10:00'' = Inr 36000000000000" "parseClockTime ''11:00'' = Inr 39600000000000" by (simp_all add: clock_eval tr)
  show ?thesis
    using buildDaySlotsWithBreak_avoids[OF t(1) tr(1) t(2) tr(2) _ t(3,4), of 30] buildDaySlotsWithBreak_avoids[OF t(3) tr(3) t(4) tr(4) _ t(1,2), of 30]
    by (auto simp: list_all_iff)
qed

section \<open>Requests return\<close>

text \<open>
  C20: When no setting has a duration of more than 480 minutes, which is what the settings handler
  accepts, every history of requests returns, whatever statements fail, and leaves tables of which
  that holds again: the loops over days and slots of \<open>GenerateTimeSlots\<close> end.
\<close>
theorem events_return:
  assumes "\<forall>s\<in>set (settings a). et_dur s \<le> 480"
  shows "\<exists>b. attends rs a = Some b \<and> (\<forall>s\<in>set (settings b). et_dur s \<le> 480)"
  using histories_return[of a rs] assms by (simp add: durations_ok_def)

text \<open>A clinic with one slot of one seat and two people who have none.\<close>

definition clinic :: evt_db where
  "clinic = \<lparr>events = [\<lparr>ev_id = ''e'', ev_slug = ''baksos'', ev_first = ''2024-05-01'', ev_last = ''2024-05-02'', ev_start = ''09:00:00'',
       ev_end = ''10:00:00'', ev_break_start = None, ev_break_end = None, ev_open = None, ev_close = None, ev_status = ''PUBLISHED'', ev_deleted = False\<rparr>],
     therapies = [''t''],
     settings = [\<lparr>et_id = ''s'', et_event = ''e'', et_therapy = ''t'', et_dur = 30, et_max = Some 1, et_capmode = ''FIXED'', et_mode = ''AUTO'',
       et_start = None, et_end = None\<rparr>],
     templates = [], persons = [], person_therapies = [],
     slots = [\<lparr>sl_id = ''k'', sl_event = ''e'', sl_therapy = ''t'', sl_date = ''2024-05-01'', sl_start = ''09:00:00'', sl_end = ''09:30:00'',
       sl_cap = 1, sl_booked = 0\<rparr>],
     patients = map (\<lambda>i. \<lparr>pt_id = i, pt_event = ''e'', pt_therapy = ''t'', pt_contact = None, pt_name = i, pt_birth = ''1990-01-01'',
       pt_complaint = None, pt_preferred = None, pt_status = ''CONFIRMED'', pt_slot = None, pt_deleted = False\<rparr>) [''ani'', ''budi''],
     book_contacts = [], evt_next = 0\<rparr>"

definition desk :: evt_req where
  "desk = \<lparr>rq_env = sample_env, rq_envs = (\<lambda>n. sample_env), rq_time = Some, rq_now = 0, rq_enc = True, rq_blind = id,
     rq_auth = Some \<lparr>AccountID = ''owner'', TenantSchema = ''klinik'', Role = ''owner'', Impersonating = False, ImpersonationModules = []\<rparr>\<rparr>"

theorem events_return_witness: "\<exists>b. attends [(desk, Generate ''e'' ''t''), (desk, DropPatient ''e'' ''ani'')] clinic = Some b
    \<and> list_all (\<lambda>s. et_dur s \<le> 480) (settings b)"
proof -
  have "\<forall>s\<in>set (settings clinic). et_dur s \<le> 480" by (simp add: clinic_def)
  from events_return[OF this] show ?thesis unfolding list_all_iff by blast
qed

section \<open>Seats\<close>

text \<open>
  C21: Starting from tables in which the identifiers are unique, the slots that reservations name exist and
  no slot is overbooked, every history of requests, failures included, in which slots are not generated
  again for a therapy with bookings and no cancelled reservation of a slot is put back, returns and leaves
  no slot with more live reservations than its booked count or a booked count above its capacity.
\<close>
theorem no_overbooking:
  assumes "seats_ok a" "durations_ok a" "attended orderly rs a"
  shows "\<exists>b. attends rs a = Some b \<and> (\<forall>s\<in>set (slots b). taken b (sl_id s) \<le> sl_booked s \<and> sl_booked s \<le> sl_cap s)"
proof -
  obtain b where b: "attends rs a = Some b" using histories_return[OF assms(2)] by blast
  from seated.attends_keep[OF assms(1,3) b] show ?thesis using b by (auto simp: seats_ok_def)
qed

text \<open>Both ask for the one seat, the first gives it back, and the second asks again.\<close>

theorem no_overbooking_witness:
  "seats_ok clinic \<and> durations_ok clinic \<and>
   (\<exists>b. attends [(desk, Assign ''e'' ''ani'' ''t'' ''09:00''), (desk, Assign ''e'' ''budi'' ''t'' ''09:00''), (desk, SetStatus ''e'' ''ani'' ''CANCELLED''),
          (desk, Assign ''e'' ''budi'' ''t'' ''09:00'')] clinic = Some b
      \<and> list_all (\<lambda>s. taken b (sl_id s) \<le> sl_booked s \<and> sl_booked s \<le> sl_cap s) (slots b))"
proof -
  have c: "seats_ok clinic" "durations_ok clinic" by (simp_all add: clinic_def seats_ok_def durations_ok_def taken_def holds_def)
  have "upper (trim_space ''CANCELLED'') = ''CANCELLED''" by code_simp
  then show ?thesis
    using c no_overbooking[OF c, of "[(desk, Assign ''e'' ''ani'' ''t'' ''09:00''), (desk, Assign ''e'' ''budi'' ''t'' ''09:00''),
      (desk, SetStatus ''e'' ''ani'' ''CANCELLED''), (desk, Assign ''e'' ''budi'' ''t'' ''09:00'')]"]
    by (simp add: reinstates_def list_all_iff del: attend.simps attends.simps split: option.split)
qed

text \<open>
  C24: Putting a cancelled reservation back with \<open>UpdatePatientStatus\<close> takes no seat: on a slot that
  is full it succeeds, leaves the slots as they were, and the slot then has one holder more than its
  capacity.
\<close>
theorem reconfirmation_overbooks:
  assumes "\<And>l. \<not> db_fails E l" "owner_call auth = Inr ()"
    and "find_event a ev = Some e" "upper (ev_status e) \<noteq> ''ARCHIVED''"
    and "distinct (map pt_id (patients a))" "find (\<lambda>p. pt_id p = i \<and> pt_event p = ev \<and> \<not> pt_deleted p) (patients a) = Some p"
    and "pt_status p = ''CANCELLED''" "pt_slot p = Some sid" "\<not> clashes a i (p\<lparr>pt_status := ''CONFIRMED''\<rparr>)"
    and "s \<in> set (slots a)" "sl_id s = sid" "taken a sid = sl_cap s"
  shows "\<exists>b. UpdatePatientStatus E auth ev i ''CONFIRMED'' a = (None, b) \<and> slots b = slots a \<and> taken b sid = sl_cap s + 1"
proof -
  let ?f = "\<lambda>q. if pt_event q = ev then q\<lparr>pt_status := ''CONFIRMED''\<rparr> else q"
  have st: "upper (trim_space ''CONFIRMED'') = ''CONFIRMED''" by code_simp
  have p: "p \<in> set (patients a)" "pt_id p = i" "pt_event p = ev" "\<not> pt_deleted p" using assms(6) by (auto simp: find_Some_iff)
  have "UpdatePatientStatus E auth ev i ''CONFIRMED'' a = (None, write_patient i ?f a)"
    using assms(1-4,6,8,9) by (simp add: UpdatePatientStatus_def st valid_reservation_def openTenant_def assertEventMutable_def status_tx_def
        load_reservation_def release_of_def sql_def try_out_def)
  moreover have "taken (write_patient i ?f a) sid = taken a sid + 1"
    using filter_update_length[OF assms(5) p(1), of "holds sid" ?f] p assms(7,8) by (simp add: taken_def write_patient_def holds_def)
  ultimately show ?thesis using assms(12) by (simp add: write_patient_def)
qed

text \<open>The seat of a cancelled reservation went to somebody else.\<close>

definition resold :: evt_db where
  "resold = clinic\<lparr>slots := map (\<lambda>s. s\<lparr>sl_booked := 1\<rparr>) (slots clinic),
     patients := map (\<lambda>p. p\<lparr>pt_slot := Some ''k'', pt_status := (if pt_id p = ''ani'' then ''CANCELLED'' else ''CONFIRMED'')\<rparr>) (patients clinic)\<rparr>"

theorem reconfirmation_overbooks_witness:
  "seats_ok resold \<and>
   (\<exists>b. UpdatePatientStatus sample_env (rq_auth desk) ''e'' ''ani'' ''CONFIRMED'' resold = (None, b) \<and> slots b = slots resold \<and> taken b ''k'' = 2)"
proof -
  have up: "upper (ev_status (hd (events resold))) \<noteq> ''ARCHIVED''" by code_simp
  have ok: "seats_ok resold" by (simp add: resold_def clinic_def seats_ok_def taken_def holds_def)
  have "owner_call (rq_auth desk) = Inr ()" by code_simp
  then show ?thesis
    using ok up reconfirmation_overbooks[of sample_env "rq_auth desk" resold "''e''" "hd (events resold)" "''ani''" "hd (patients resold)" "''k''" "hd (slots resold)"]
    by (simp add: resold_def clinic_def sample_env_def find_event_def clashes_def taken_def holds_def)
qed

end
