(* ===== verification/Spec2Isabelle.thy ===== *)
theory Spec2Isabelle
  imports Sales_Props Stock_Claim Stock_Supply Books_Props Events_Props
begin

text \<open>
  A verification development of the WABantu API (Go on Encore, PostgreSQL), a multi-tenant back end
  for shops that sell over WhatsApp. Every tenant has a schema of its own; the handlers of a module
  authenticate the caller, prepare the schema and run SQL statements, some in a transaction.

  \<^bold>\<open>What is modelled.\<close> The part of the program that keeps quantities, money and seats:

  \<^item> \<open>Prelude\<close>: the errors of \<open>shared/errs/errors.go\<close>, results (\<open>error + value\<close>), replies and outcomes of
    calls that leave tables behind, Go's string functions on bytes, numbers as text, and \<open>env\<close>, what a
    call meets of the database (below). \<open>Float64\<close>: binary64 arithmetic.
  \<^item> \<open>Auth\<close>: the caller's record and the guards of \<open>shared/types\<close> and \<open>inventory/inventory.go\<close>.
  \<^item> \<open>Costing\<close>, \<open>Consumption\<close>, \<open>Replay\<close>: the costing engine (\<open>inventory/costing.go\<close>,
    \<open>costing_engine.go\<close>, \<open>costing_replay.go\<close>): average, FIFO and LIFO cost, the consumption plan of an issue,
    and the recomputation of balances and layers from the ledger.
  \<^item> \<open>Ledger\<close>: \<open>PostMovement\<close> (\<open>movement.go\<close>), the costing contexts and their cache, replay and purge of a
    document inside a transaction (\<open>document_engine.go\<close>), the HPP recalculation (\<open>recalc.go\<close>,
    \<open>recalc_bulk.go\<close>).
  \<^item> \<open>Finance\<close>: what inventory and orders write into the books (\<open>finance/inventory_entry.go\<close>,
    \<open>order_income.go\<close>), the wallet balances and the period lock.
  \<^item> \<open>Books\<close>: the handlers of \<open>finance/finance.go\<close> and \<open>transaction_types.go\<close> that change the books: wallets,
    categories, transactions, approval, period lock, duplicates, transaction types. \<open>Recurring\<close>: the calendar
    and the schedules of \<open>finance/recurring.go\<close> and its daily job.
  \<^item> \<open>Order_Sync\<close>: \<open>SyncOrderStock\<close>, which makes the stock an order holds what its status and lines ask for
    (\<open>inventory/order_sync.go\<close>, \<open>order_sync_batch.go\<close>, part of \<open>backfill.go\<close>).
  \<^item> \<open>Stock_Docs\<close>: adjustments, transfers, opening balances and revaluations: creating, editing, deleting,
    numbering, validating (\<open>inventory/adjustment.go\<close>, \<open>stock_transaction*.go\<close>, \<open>batch_validate.go\<close>,
    \<open>docnumber.go\<close>).
  \<^item> \<open>Purchasing\<close>: purchase orders and bills, the receipt of goods against them (\<open>inventory/purchase_order*.go\<close>,
    \<open>bill*.go\<close>). \<open>Sales\<close>: invoices of orders and sales returns, single and in batches
    (\<open>inventory/invoice*.go\<close>, \<open>sales_return*.go\<close>).
  \<^item> \<open>Order_Tables\<close>, \<open>Orders\<close>: the order table, pricing (\<open>shared/pricing\<close>), the resolution of order lines
    against the catalog, and every handler of \<open>order/order.go\<close>, \<open>order/payment_proof.go\<close> and
    \<open>order/triage_repair.go\<close> that changes an order.
  \<^item> \<open>Order_Approve\<close>: \<open>internal/orderapprove\<close>, written against two interfaces, and their implementations in
    \<open>order/approve.go\<close>.
  \<^item> \<open>Event_Clock\<close>, \<open>Events\<close>: events at which therapies are booked by the slot: times of day and how a day is cut
    into slots around a break, the settings of a therapy, the generation and deletion of slots, and
    reservations by the owner, by the public form and by import (\<open>events/slots.go\<close>, \<open>slot_booking.go\<close>,
    \<open>therapy_schedule.go\<close>, \<open>patients.go\<close>, \<open>patient_contact.go\<close>, part of \<open>event.go\<close> and \<open>public.go\<close>).

  \<^bold>\<open>How the parts interact.\<close> An order handler writes the order row, then the income row through
  \<open>Finance\<close>, then the stock through \<open>Order_Sync\<close>, each call committing on its own; \<open>Order_Sync\<close>,
  \<open>Stock_Docs\<close>, \<open>Purchasing\<close> and \<open>Sales\<close> post movements through \<open>Ledger\<close> and costs through \<open>Finance\<close>; an invoice
  and a return read what the sync of an order issued. \<open>tenant_db\<close> nests the tables of inventory and finance,
  \<open>doc_db\<close> and \<open>order_db\<close> add those of documents and orders, \<open>pur_db\<close> and \<open>sal_db\<close> those of purchasing and sales.
  \<open>Events\<close> has tables of its own (\<open>evt_db\<close>) and shares the caller, the dates and the errors with the rest.

  \<^bold>\<open>What is shown.\<close>

  \<^item> \<open>Consumption\<close>, \<open>Replay\<close>: float64 error never changes a draw: an issue draws exactly the integer plan, a
    replay is a FIFO or LIFO queue, its balance is receipts minus issues (refinements of integer and
    list specifications).
  \<^item> \<open>Ledger_Laws\<close>, \<open>Ledger_Replay\<close>: balances equal the net of the ledger, blocked stock never goes negative,
    purging and recalculating restore balances; the cache and the chunked update are transparent.
  \<^item> \<open>Posting\<close>: the contract of the ledger towards its clients as the locales \<open>stock_ledger\<close> and
    \<open>quiet_ledger\<close>, interpreted on \<open>PostMovement\<close>; the sync and the documents rest on its lemmas.
  \<^item> \<open>Finance\<close>: wallet balances follow the transactions; entries are recorded once and removed without
    trace.
  \<^item> \<open>Books_Laws\<close>, \<open>Books_Props\<close>: relations between the books before and after a request, carried from single
    writes to whole histories by the locale \<open>book_relation\<close>; interpreted for the balances (with approval, the
    locale \<open>full_book_relation\<close>) and for the rows of a locked period, for requests whose dates are in ISO form;
    what staff may change; and two defects.
  \<^item> \<open>Schedule_Laws\<close>: dates print and parse back, the next run is later, a schedule posts once a day and once
    more for every run that lost the update of its next date.
  \<^item> \<open>Order_Sync_Laws\<close>: a sync reconciles exactly, is idempotent and books its cost once. \<open>Stock_Supply\<close>: it
    succeeds when no negative stock is blocked, when it only gives back, and when every pair can issue what
    the order needs from it.
  \<^item> \<open>Stock_Docs_Laws\<close>, \<open>Doc_History\<close>, \<open>Doc_Effects\<close>: invariants of whole request histories by the locale
    \<open>document_invariant\<close> (agreement of balances and ledger, unique numbers), the effect of each document,
    deletion as an inverse up to the cost columns a replay writes anew, and two defects.
  \<^item> \<open>Purchasing_Laws\<close>, \<open>Purchasing_Props\<close>: through every history of requests (locale \<open>purchase_invariant\<close>) a
    purchase order has received what its bills say, its status follows from its quantities, the ledger has
    the receipts of the bills; deleting a bill undoes it, but for those cost columns, and reopens an order
    that was closed.
  \<^item> \<open>Sales_Laws\<close>, \<open>Sales_Props\<close>: through every history of requests (locale \<open>sales_invariant\<close>) an order gets back
    at most what it sold, the ledger has the receipts of the returns, an order is invoiced once; a batch is
    its requests one after the other; repeated lines and a later cancellation break the bound.
  \<^item> \<open>Order_Laws\<close>, \<open>Order_History\<close>: income and stock of an order after each handler, catalog prices, the
    well-typedness of every reachable order table (locale \<open>row_invariant\<close>), a batch that cannot be retried,
    a deletion that leaves the stock of an order issued.
  \<^item> \<open>Approve_Laws\<close>, \<open>Stock_Claim\<close>: an approval is all or nothing on any store that obeys the locale
    \<open>approve_store\<close>; where the marker column is found, approving twice is approving once, and among concurrent
    approvals, as interleavings of calls on any store that obeys \<open>stock_store\<close>, the stock is deducted at most
    once.
  \<^item> \<open>Event_Clock_Laws\<close>, \<open>Events_Laws\<close>, \<open>Events_Props\<close>: when the loops over slots and days end and what they build;
    through every history of requests (locale \<open>event_invariant\<close>, interpreted for the durations and for the
    seats) every request returns and no slot is overbooked, but for a cancelled reservation that is put back.

  \<^bold>\<open>How the model reads.\<close> A handler is a function from the tables to a reply and the tables it leaves; a
  transaction that fails leaves them as they were. \<open>env\<close> says which statements fail (every statement has a
  label), the time of the statement, the generated identifiers and how the driver and PostgreSQL turn a
  float64 into a DECIMAL; a theorem that names no condition on it holds for every failure. In
  \<open>req\<close> every call of a handler has an environment, clock and map order of its own. Go's map iteration order
  and the order of rows without \<open>ORDER BY\<close> are parameters. Amounts in tables are integers, counting the unit
  of the column (ten-thousandths for quantities and costs, hundredths for finance); a float64 is a
  rational number and every operation rounds (\<open>fl\<close>), one operation at a time as on amd64: no fused
  multiply-add, no NaN or infinity. Strings are byte lists; an identifier is text compared byte by byte,
  and one that is no UUID matches no row. JSON columns hold the value they encode.

  \<^bold>\<open>Bounds.\<close> Exactness theorems assume amounts of at most \<open>2 ^ 44\<close> units (1.7 billion pieces) for one
  movement, and \<open>(n + 1) * (Q + 1) \<le> 2 ^ 43\<close> or \<open>2 ^ 42\<close> for sums of \<open>n\<close> amounts of at most \<open>Q\<close> units: there the
  accumulated rounding error stays below half a unit, so \<open>round4\<close> returns the exact sum (\<open>numeric_ok\<close>: the driver
  stores such an amount as it is; \<open>plus_ok\<close>: so does an \<open>UPDATE\<close> that adds one). The history theorems of
  purchasing and sales assume that generated identifiers are new, and so do those on created and edited
  orders, for items added to the catalog. The date of a new document is the
  parameter \<open>today\<close> where it is \<open>CURRENT_DATE\<close>, and \<open>pg_date\<close> is how PostgreSQL reads a date text. In \<open>Events\<close>,
  \<open>pg_time\<close> is how PostgreSQL reads a time of day, \<open>blind\<close> the keyed hash of a name, \<open>encrypts\<close> whether a key is
  configured and \<open>now\<close> the server's clock; its theorems assume nothing of them. No model uses fuel: loops over
  lists are structural, chunked loops have a termination proof, and the two loops over slots and days, which
  need not end, are partial functions in which \<open>None\<close> is a call that never returns; that they return for the
  durations the settings handler accepts (at most 480 minutes) is a theorem.

  \<^bold>\<open>What is not modelled.\<close> Read-only list, report and export endpoints; WhatsApp delivery, the Firestore
  mirror, audit log, metrics, logging and LLM calls, which leave the modelled tables alone; schema
  creation and migration; isolation anomalies: a transaction is atomic, and only the approval, whose
  design is about concurrency, is modelled with interleavings. Investments, budgets, checklists and the
  backfill endpoint are not modelled, nor are the administration, staff rosters, imports and exports of
  events, nor the modules outside orders, inventory, finance and events: most of them call a language
  model, a messaging provider or a payment service, or classify text by word lists.
\<close>

end
